(* ===== verification/Prelude.thy ===== *)
theory Prelude
  imports Main "HOL-Library.AList" "HOL-Library.Multiset" "HOL-Library.Char_ord"
    "HOL-Library.List_Lexorder" "HOL-Library.Word"
begin

text \<open>
  What the components of the gateway share: Go's 64-bit integers, instants and durations, byte
  strings with \<^verbatim>\<open>strings.TrimSpace\<close> and \<^verbatim>\<open>strings.ToLower\<close>, maps,
  \<^verbatim>\<open>sort.Slice\<close>, and the generic lemmas on them.

  Conventions of the whole development.
  \<^item> A Go \<^verbatim>\<open>string\<close> is a byte string, an Isabelle \<^typ>\<open>string\<close> (a list of 8-bit
    characters); \<open><\<close> on it is the bytewise lexicographic order, as in Go.
  \<^item> A \<^verbatim>\<open>map[string]T\<close> is an association list with distinct keys. A \<^verbatim>\<open>range\<close>
    loop visits it in list order. Go picks that order at random; the theorems hold for every
    association list, hence for every order.
  \<^item> \<^verbatim>\<open>time.Time\<close> is the number of nanoseconds since Go's zero time (1 January of year 1,
    UTC), so \<^verbatim>\<open>IsZero\<close> is being 0; \<^verbatim>\<open>UTC()\<close> does not change the instant.
  \<^item> Sums of amounts a caller chooses wrap around at 64 bits (\<open>wrap64\<close>). Counters that grow by
    one per operation (versions, fence tokens, attempt counts, sequence numbers) are not wrapped:
    they would need \<open>2^63\<close> operations to overflow.
  \<^item> An \<^verbatim>\<open>error\<close> result is the left side of a sum, or \<open>Some\<close> in a function that only
    returns an error.
\<close>

section \<open>Collections of facts\<close>

named_theorems go_map_simps \<open>rewriting of association lists that stand for Go maps\<close>
named_theorems status_simps \<open>the status constants are pairwise different\<close>

section \<open>64-bit integers\<close>

abbreviation (input) max_int64 :: int where
  "max_int64 \<equiv> 9223372036854775807"

abbreviation (input) min_int64 :: int where
  "min_int64 \<equiv> - 9223372036854775808"

definition int64_ok :: "int \<Rightarrow> bool" where
  "int64_ok x \<longleftrightarrow> min_int64 \<le> x \<and> x \<le> max_int64"

definition wrap64 :: "int \<Rightarrow> int" where
  "wrap64 x = (x + 9223372036854775808) mod 18446744073709551616 - 9223372036854775808"

text \<open>A loop that adds up 64-bit numbers.\<close>

definition wrap_sum :: "int list \<Rightarrow> int" where
  "wrap_sum xs = foldl (\<lambda>s x. wrap64 (s + x)) 0 xs"

section \<open>Instants and durations\<close>

type_synonym gotime = int
type_synonym duration = int

abbreviation (input) zero_time :: gotime where
  "zero_time \<equiv> 0"

abbreviation (input) time_Second :: duration where
  "time_Second \<equiv> 1000000000"

abbreviation (input) time_Minute :: duration where
  "time_Minute \<equiv> 60000000000"

abbreviation (input) time_Hour :: duration where
  "time_Hour \<equiv> 3600000000000"

text \<open>\<^verbatim>\<open>Time.Sub\<close> saturates at the range of a 64-bit \<^verbatim>\<open>Duration\<close>.\<close>

definition time_sub :: "gotime \<Rightarrow> gotime \<Rightarrow> duration" where
  "time_sub t u = max min_int64 (min max_int64 (t - u))"

section \<open>Strings\<close>

text \<open>
  The length in bytes of the white-space rune a string starts with, 0 when it starts with none.
  The runes are those of \<^verbatim>\<open>unicode.IsSpace\<close>: six in ASCII, U+0085, U+00A0, U+1680,
  U+2000 to U+200A, U+2028, U+2029, U+202F, U+205F and U+3000, in their UTF-8 encodings.
\<close>

definition is_ascii_space :: "char \<Rightarrow> bool" where
  "is_ascii_space c \<longleftrightarrow> c = CHR '' '' \<or> c = CHR 0x09 \<or> c = CHR 0x0A \<or> c = CHR 0x0B \<or> c = CHR 0x0C \<or> c = CHR 0x0D"

definition is_space2 :: "char \<Rightarrow> char \<Rightarrow> bool" where
  "is_space2 a b \<longleftrightarrow> a = CHR 0xC2 \<and> (b = CHR 0x85 \<or> b = CHR 0xA0)"

definition is_space3 :: "char \<Rightarrow> char \<Rightarrow> char \<Rightarrow> bool" where
  "is_space3 a b c \<longleftrightarrow>
     a = CHR 0xE1 \<and> b = CHR 0x9A \<and> c = CHR 0x80 \<or>
     a = CHR 0xE2 \<and> b = CHR 0x80 \<and>
       (CHR 0x80 \<le> c \<and> c \<le> CHR 0x8A \<or> c = CHR 0xA8 \<or> c = CHR 0xA9 \<or> c = CHR 0xAF) \<or>
     a = CHR 0xE2 \<and> b = CHR 0x81 \<and> c = CHR 0x9F \<or>
     a = CHR 0xE3 \<and> b = CHR 0x80 \<and> c = CHR 0x80"

fun space_len :: "string \<Rightarrow> nat" where
  "space_len (a # b # c # s) =
     (if is_ascii_space a then 1 else if is_space2 a b then 2 else if is_space3 a b c then 3 else 0)"
| "space_len [a, b] = (if is_ascii_space a then 1 else if is_space2 a b then 2 else 0)"
| "space_len [a] = (if is_ascii_space a then 1 else 0)"
| "space_len [] = 0"

text \<open>The same for the last rune, on the reversed string.\<close>

fun space_len_rev :: "string \<Rightarrow> nat" where
  "space_len_rev (c # b # a # s) =
     (if is_ascii_space c then 1 else if is_space2 b c then 2 else if is_space3 a b c then 3 else 0)"
| "space_len_rev [b, a] = (if is_ascii_space b then 1 else if is_space2 a b then 2 else 0)"
| "space_len_rev [a] = (if is_ascii_space a then 1 else 0)"
| "space_len_rev [] = 0"

function trim_left :: "string \<Rightarrow> string" where
  "trim_left s = (if space_len s = 0 \<or> s = [] then s else trim_left (drop (space_len s) s))"
  by pat_completeness auto
termination
  by (relation "measure length") auto

function trim_left_rev :: "string \<Rightarrow> string" where
  "trim_left_rev s = (if space_len_rev s = 0 \<or> s = [] then s else trim_left_rev (drop (space_len_rev s) s))"
  by pat_completeness auto
termination
  by (relation "measure length") auto

declare trim_left.simps [simp del] trim_left_rev.simps [simp del]

text \<open>\<^verbatim>\<open>strings.TrimSpace\<close>.\<close>

definition TrimSpace :: "string \<Rightarrow> string" where
  "TrimSpace s = rev (trim_left_rev (rev (trim_left s)))"

text \<open>A printable ASCII character other than the space.\<close>

definition graphic :: "char \<Rightarrow> bool" where
  "graphic c \<longleftrightarrow> CHR ''!'' \<le> c \<and> c \<le> CHR ''~''"

text \<open>
  \<^verbatim>\<open>strings.ToLower\<close>, exact on ASCII and on the two runes outside ASCII whose lower case is an
  ASCII letter (U+0130 and U+212A). Every other byte outside ASCII is kept, where Go maps its rune to
  another rune outside ASCII: the program compares the result with ASCII names only, so every
  comparison has Go's result.
\<close>

definition lower_byte :: "char \<Rightarrow> char" where
  "lower_byte c = (if CHR ''A'' \<le> c \<and> c \<le> CHR ''Z'' then char_of (of_char c + 32 :: nat) else c)"

fun ToLower :: "string \<Rightarrow> string" where
  "ToLower [] = []"
| "ToLower (a # s) =
     (case s of
        b # c # s' \<Rightarrow>
          if a = CHR 0xC4 \<and> b = CHR 0xB0 then CHR ''i'' # ToLower (c # s')
          else if a = CHR 0xE2 \<and> b = CHR 0x84 \<and> c = CHR 0xAA then CHR ''k'' # ToLower s'
          else lower_byte a # ToLower s
      | [b] \<Rightarrow> if a = CHR 0xC4 \<and> b = CHR 0xB0 then [CHR ''i''] else lower_byte a # ToLower s
      | [] \<Rightarrow> [lower_byte a])"

text \<open>\<^verbatim>\<open>strings.Compare\<close>, and \<^verbatim>\<open>%d\<close> of \<^verbatim>\<open>fmt\<close>.\<close>

definition string_compare :: "string \<Rightarrow> string \<Rightarrow> int" where
  "string_compare a b = (if a = b then 0 else if a < b then - 1 else 1)"

fun string_of_nat :: "nat \<Rightarrow> string" where
  "string_of_nat n =
     (if n < 10 then [char_of (48 + n)] else string_of_nat (n div 10) @ [char_of (48 + n mod 10)])"

declare string_of_nat.simps [simp del]

definition string_of_int :: "int \<Rightarrow> string" where
  "string_of_int i = (if i < 0 then CHR ''-'' # string_of_nat (nat (- i)) else string_of_nat (nat i))"

text \<open>\<^verbatim>\<open>strings.Join\<close>.\<close>

fun string_join :: "string \<Rightarrow> string list \<Rightarrow> string" where
  "string_join sep [] = []"
| "string_join sep [x] = x"
| "string_join sep (x # y # ys) = x @ sep @ string_join sep (y # ys)"

section \<open>Shared helpers of the control plane\<close>

fun contains :: "string list \<Rightarrow> string \<Rightarrow> bool" where
  "contains [] needle = False"
| "contains (v # vs) needle = (if v = needle then True else contains vs needle)"

fun oneOf :: "string \<Rightarrow> string list \<Rightarrow> bool" where
  "oneOf v [] = False"
| "oneOf v (item # items) = (if v = item then True else oneOf v items)"

definition nonNegative :: "int \<Rightarrow> int" where
  "nonNegative v = (if v < 0 then 0 else v)"

definition prefix_of :: "string \<Rightarrow> nat \<Rightarrow> string" where
  "prefix_of v n = (if length v \<le> n then v else take n v)"

section \<open>Results\<close>

text \<open>Go's \<^verbatim>\<open>if err != nil { return err }\<close> between two calls.\<close>

definition and_then :: "'e + 'a \<Rightarrow> ('a \<Rightarrow> 'e + 'b) \<Rightarrow> 'e + 'b" where
  "and_then r f = (case r of Inl e \<Rightarrow> Inl e | Inr x \<Rightarrow> f x)"

lemma and_then_simps [simp]:
  "and_then (Inl e) f = Inl e"
  "and_then (Inr x) f = f x"
  by (simp_all add: and_then_def)

lemma and_then_Inr_iff: "and_then r f = Inr y \<longleftrightarrow> (\<exists>x. r = Inr x \<and> f x = Inr y)"
  by (cases r) auto

section \<open>Maps\<close>

type_synonym 'v gomap = "(string \<times> 'v) list"

abbreviation go_get :: "'v gomap \<Rightarrow> string \<Rightarrow> 'v option" where
  "go_get m k \<equiv> map_of m k"

abbreviation go_set :: "string \<Rightarrow> 'v \<Rightarrow> 'v gomap \<Rightarrow> 'v gomap" where
  "go_set k v m \<equiv> AList.update k v m"

abbreviation go_delete :: "string \<Rightarrow> 'v gomap \<Rightarrow> 'v gomap" where
  "go_delete k m \<equiv> AList.delete k m"

abbreviation go_values :: "'v gomap \<Rightarrow> 'v list" where
  "go_values m \<equiv> map snd m"

text \<open>A map whose entries are stored under a key of their own.\<close>

definition keyed :: "('v \<Rightarrow> string) \<Rightarrow> 'v gomap \<Rightarrow> bool" where
  "keyed key m \<longleftrightarrow> distinct (map fst m) \<and> (\<forall>(k, v) \<in> set m. k = key v)"

text \<open>A map all of whose values satisfy a predicate.\<close>

definition every :: "('v \<Rightarrow> bool) \<Rightarrow> 'v gomap \<Rightarrow> bool" where
  "every P m \<longleftrightarrow> (\<forall>v \<in> set (go_values m). P v)"

text \<open>
  A map whose values are stored under their own keys and satisfy a predicate, and a field whose
  contents identify a value.
\<close>

definition table :: "('v \<Rightarrow> string) \<Rightarrow> ('v \<Rightarrow> bool) \<Rightarrow> 'v gomap \<Rightarrow> bool" where
  "table key P m \<longleftrightarrow> keyed key m \<and> (\<forall>k v. go_get m k = Some v \<longrightarrow> P v)"

definition unique_by :: "('v \<Rightarrow> 'b) \<Rightarrow> 'v gomap \<Rightarrow> bool" where
  "unique_by f m \<longleftrightarrow> (\<forall>k k' v v'. go_get m k = Some v \<longrightarrow> go_get m k' = Some v' \<longrightarrow> f v = f v' \<longrightarrow> k = k')"

section \<open>Sorting\<close>

text \<open>
  \<^verbatim>\<open>sort.Slice\<close> and \<^verbatim>\<open>sort.SliceStable\<close> with a less function: a stable insertion sort.
  Where the order leaves ties, an unstable sort may order them differently; the input comes from a
  map, whose order is arbitrary already.
\<close>

fun insort_by :: "('a \<Rightarrow> 'a \<Rightarrow> bool) \<Rightarrow> 'a \<Rightarrow> 'a list \<Rightarrow> 'a list" where
  "insort_by lt x [] = [x]"
| "insort_by lt x (y # ys) = (if lt y x then y # insort_by lt x ys else x # y # ys)"

fun sort_by :: "('a \<Rightarrow> 'a \<Rightarrow> bool) \<Rightarrow> 'a list \<Rightarrow> 'a list" where
  "sort_by lt [] = []"
| "sort_by lt (x # xs) = insort_by lt x (sort_by lt xs)"

text \<open>The contract of a less function: a strict weak order.\<close>

locale strict_weak_order =
  fixes lt :: "'a \<Rightarrow> 'a \<Rightarrow> bool"
  assumes asym: "lt x y \<Longrightarrow> \<not> lt y x"
    and neg_trans: "\<not> lt x y \<Longrightarrow> \<not> lt y z \<Longrightarrow> \<not> lt x z"
begin

lemma irrefl: "\<not> lt x x"
  using asym by blast

lemma trans: "lt x y \<Longrightarrow> lt y z \<Longrightarrow> lt x z"
  using asym neg_trans by blast

lemma set_insort: "set (insort_by lt x xs) = insert x (set xs)"
  by (induction xs) auto

lemma sorted_insort:
  "sorted_wrt (\<lambda>a b. \<not> lt b a) xs \<Longrightarrow> sorted_wrt (\<lambda>a b. \<not> lt b a) (insort_by lt x xs)"
proof (induction xs)
  case Nil
  then show ?case by simp
next
  case (Cons y ys)
  show ?case
  proof (cases "lt y x")
    case True
    with Cons show ?thesis by (auto simp: set_insort dest: asym)
  next
    case False
    with Cons.prems show ?thesis by (auto dest: neg_trans)
  qed
qed

lemma sorted_sort_by: "sorted_wrt (\<lambda>a b. \<not> lt b a) (sort_by lt xs)"
  by (induction xs) (auto simp: sorted_insort)

end

section \<open>Lemmas on integers\<close>

lemma wrap64_id [simp]: "int64_ok x \<Longrightarrow> wrap64 x = x"
  by (simp add: wrap64_def int64_ok_def)

lemma int64_ok_wrap64 [simp]: "int64_ok (wrap64 x)"
proof -
  have "0 \<le> (x + 9223372036854775808) mod 18446744073709551616"
    and "(x + 9223372036854775808) mod 18446744073709551616 < 18446744073709551616"
    by simp_all
  then show ?thesis by (simp add: wrap64_def int64_ok_def)
qed

text \<open>The wrap-around is that of two's complement on 64-bit words.\<close>

lemma wrap64_sint: "wrap64 x = sint (word_of_int x :: 64 word)"
  by (simp add: wrap64_def sint_sbintrunc' signed_take_bit_eq_take_bit_shift take_bit_eq_mod)

lemma wrap64_add_wrap64: "wrap64 (wrap64 x + y) = wrap64 (x + y)"
  by (simp add: wrap64_def mod_simps algebra_simps)

lemma foldl_wrap64: "foldl (\<lambda>s x. wrap64 (s + x)) (wrap64 n) xs = wrap64 (n + sum_list xs)"
proof (induction xs arbitrary: n)
  case (Cons x xs)
  then show ?case by (simp add: wrap64_add_wrap64 add.assoc)
qed simp

lemma wrap64_0 [simp]: "wrap64 0 = 0"
  by (simp add: wrap64_def)

lemma wrap_sum_eq: "wrap_sum xs = wrap64 (sum_list xs)"
  using foldl_wrap64 [of 0 xs] by (simp add: wrap_sum_def)

section \<open>Lemmas on strings\<close>

lemma oneOf_iff [simp]: "oneOf v xs \<longleftrightarrow> v \<in> set xs"
  by (induction xs) auto

lemma contains_iff [simp]: "contains xs v \<longleftrightarrow> v \<in> set xs"
  by (induction xs) auto

lemma space_len_le: "space_len s \<le> length s"
  by (cases s rule: space_len.cases) auto

lemma space_len_rev_le: "space_len_rev s \<le> length s"
  by (cases s rule: space_len_rev.cases) auto

lemma space_len_append: "space_len s \<noteq> 0 \<Longrightarrow> space_len (s @ t) \<noteq> 0"
proof (cases s rule: space_len.cases)
  case (2 a b)
  assume "space_len s \<noteq> 0"
  with 2 show ?thesis by (cases t) (simp_all split: if_splits)
next
  case (3 a)
  assume "space_len s \<noteq> 0"
  with 3 show ?thesis by (cases t; cases "tl t") (simp_all split: if_splits)
qed simp_all

lemma trim_left_no_space: "space_len (trim_left s) = 0"
  by (induction s rule: trim_left.induct) (subst trim_left.simps, auto)

lemma trim_left_rev_no_space: "space_len_rev (trim_left_rev s) = 0"
  by (induction s rule: trim_left_rev.induct) (subst trim_left_rev.simps, auto)

lemma trim_left_rev_suffix: "\<exists>u. s = u @ trim_left_rev s"
proof (induction s rule: trim_left_rev.induct)
  case (1 s)
  show ?case
  proof (cases "space_len_rev s = 0 \<or> s = []")
    case True
    then show ?thesis by (auto simp: trim_left_rev.simps [of s])
  next
    case False
    then obtain u where "drop (space_len_rev s) s = u @ trim_left_rev (drop (space_len_rev s) s)"
      using "1.IH" by blast
    then have "s = (take (space_len_rev s) s @ u) @ trim_left_rev (drop (space_len_rev s) s)"
      by (metis append.assoc append_take_drop_id)
    moreover have "trim_left_rev s = trim_left_rev (drop (space_len_rev s) s)"
      using False by (subst trim_left_rev.simps) simp
    ultimately show ?thesis by metis
  qed
qed

lemma trim_left_id: "space_len s = 0 \<Longrightarrow> trim_left s = s"
  by (subst trim_left.simps) simp

lemma trim_left_rev_id: "space_len_rev s = 0 \<Longrightarrow> trim_left_rev s = s"
  by (subst trim_left_rev.simps) simp

lemma TrimSpace_no_space:
  "space_len (TrimSpace s) = 0" "space_len_rev (rev (TrimSpace s)) = 0"
proof -
  obtain u where "rev (trim_left s) = u @ trim_left_rev (rev (trim_left s))"
    using trim_left_rev_suffix by blast
  then have "trim_left s = TrimSpace s @ rev u"
    by (metis TrimSpace_def rev_append rev_rev_ident)
  then show "space_len (TrimSpace s) = 0"
    using space_len_append [of "TrimSpace s" "rev u"] trim_left_no_space [of s] by auto
  show "space_len_rev (rev (TrimSpace s)) = 0"
    by (simp add: TrimSpace_def trim_left_rev_no_space)
qed

lemma TrimSpace_idem [simp]: "TrimSpace (TrimSpace s) = TrimSpace s"
  by (subst TrimSpace_def) (simp add: trim_left_id trim_left_rev_id TrimSpace_no_space)

lemma TrimSpace_Nil [simp]: "TrimSpace [] = []"
  by (simp add: TrimSpace_def trim_left.simps trim_left_rev.simps)

lemma graphic_no_space:
  assumes "graphic c"
  shows "\<not> is_ascii_space c" "\<not> is_space2 c b" "\<not> is_space2 b c" "\<not> is_space3 c a b" "\<not> is_space3 a c b" "\<not> is_space3 a b c"
proof -
  have "of_char c \<ge> (33 :: nat)" "of_char c \<le> (126 :: nat)"
    using assms by (simp_all add: graphic_def less_eq_char_def)
  then show "\<not> is_ascii_space c" "\<not> is_space2 c b" "\<not> is_space2 b c" "\<not> is_space3 c a b" "\<not> is_space3 a c b" "\<not> is_space3 a b c"
    by (auto simp: is_ascii_space_def is_space2_def is_space3_def less_eq_char_def)
qed

lemma space_len_graphic: "graphic c \<Longrightarrow> space_len (c # s) = 0"
  by (cases "c # s" rule: space_len.cases) (auto simp: graphic_no_space)

lemma space_len_rev_graphic: "graphic c \<Longrightarrow> space_len_rev (xs @ [c]) \<le> length xs"
  by (cases xs; cases "tl xs"; cases "tl (tl xs)") (auto simp: graphic_no_space)

lemma trim_left_rev_graphic: "graphic c \<Longrightarrow> \<exists>ys. trim_left_rev (xs @ [c]) = ys @ [c]"
proof (induction xs rule: length_induct)
  case (1 xs)
  show ?case
  proof (cases "space_len_rev (xs @ [c]) = 0")
    case True
    then show ?thesis by (subst trim_left_rev.simps) simp
  next
    case False
    let ?n = "space_len_rev (xs @ [c])"
    have "trim_left_rev (xs @ [c]) = trim_left_rev (drop ?n xs @ [c])"
      using False space_len_rev_graphic [OF 1(2), of xs] by (subst trim_left_rev.simps) simp
    moreover have "length (drop ?n xs) < length xs"
      using False space_len_rev_graphic [OF 1(2), of xs] by simp
    ultimately show ?thesis using 1 by simp
  qed
qed

lemma TrimSpace_graphic: "graphic c \<Longrightarrow> TrimSpace (c # s) \<noteq> []"
  using trim_left_rev_graphic [of c "rev s"] by (auto simp: TrimSpace_def trim_left_id space_len_graphic)
lemma length_prefix_of: "length (prefix_of s n) \<le> n"
  by (simp add: prefix_of_def)

section \<open>Lemmas on maps\<close>

lemma keyed_Nil [simp]: "keyed key []"
  by (simp add: keyed_def)

lemma keyed_distinct: "keyed key m \<Longrightarrow> distinct (map fst m)"
  by (simp add: keyed_def)

lemma keyed_get: "keyed key m \<Longrightarrow> go_get m k = Some v \<Longrightarrow> key v = k"
  by (auto simp: keyed_def dest!: map_of_SomeD)

lemma keyed_get_iff: "keyed key m \<Longrightarrow> go_get m (key v) = Some v \<longleftrightarrow> v \<in> set (go_values m)"
  unfolding keyed_def by (auto simp: map_of_eq_Some_iff) force

lemma keyed_values_inj: "keyed key m \<Longrightarrow> v \<in> set (go_values m) \<Longrightarrow> w \<in> set (go_values m) \<Longrightarrow>
  key v = key w \<Longrightarrow> v = w"
  using keyed_get_iff by (metis option.inject)

lemma keyed_get_value: "keyed key m \<Longrightarrow> go_get m k = Some v \<Longrightarrow> v \<in> set (go_values m)"
  by (metis keyed_get keyed_get_iff)

lemma set_go_set:
  "distinct (map fst m) \<Longrightarrow> set (go_set k v m) = insert (k, v) (set m - {k} \<times> UNIV)"
proof -
  assume d: "distinct (map fst m)"
  then have d': "distinct (map fst (go_set k v m))" by (rule distinct_update)
  show ?thesis
  proof (rule set_eqI)
    fix p :: "string \<times> 'a"
    obtain a b where p: "p = (a, b)" by (cases p)
    have "p \<in> set (go_set k v m) \<longleftrightarrow> map_of (go_set k v m) a = Some b"
      using d' p by (simp add: map_of_eq_Some_iff)
    also have "\<dots> \<longleftrightarrow> (if a = k then b = v else map_of m a = Some b)"
      by (auto simp: update_conv')
    also have "\<dots> \<longleftrightarrow> p \<in> insert (k, v) (set m - {k} \<times> UNIV)"
      using d p by (auto simp: map_of_eq_Some_iff)
    finally show "p \<in> set (go_set k v m) \<longleftrightarrow> p \<in> insert (k, v) (set m - {k} \<times> UNIV)" .
  qed
qed

lemma set_go_delete: "set (go_delete k m) = set m - {k} \<times> UNIV"
  by (auto simp: AList.delete_eq)

lemma go_get_set [go_map_simps, simp]: "go_get (go_set k v m) k' = (if k' = k then Some v else go_get m k')"
  by (simp add: update_conv')

lemma go_get_delete [go_map_simps, simp]: "go_get (go_delete k m) k' = (if k' = k then None else go_get m k')"
  by (simp add: delete_conv')

lemma keyed_go_set: "keyed key m \<Longrightarrow> k = key v \<Longrightarrow> keyed key (go_set k v m)"
  by (auto simp: keyed_def set_go_set distinct_update)

lemma keyed_go_delete: "keyed key m \<Longrightarrow> keyed key (go_delete k m)"
  by (auto simp: keyed_def set_go_delete distinct_delete)

lemma keyed_mem: "keyed key m \<Longrightarrow> (k, v) \<in> set m \<longleftrightarrow> v \<in> set (go_values m) \<and> k = key v"
proof
  assume "keyed key m" and "(k, v) \<in> set m"
  then show "v \<in> set (go_values m) \<and> k = key v"
    by (metis (mono_tags, lifting) case_prodD image_eqI keyed_def list.set_map snd_conv)
next
  assume k: "keyed key m" and "v \<in> set (go_values m) \<and> k = key v"
  then obtain a where "(a, v) \<in> set m" and "k = key v" by auto
  moreover from this k have "a = key v" by (auto simp: keyed_def)
  ultimately show "(k, v) \<in> set m" by simp
qed

lemma keyed_values_minus:
  assumes "keyed key m"
  shows "snd ` (set m - {k} \<times> UNIV) = {w \<in> set (go_values m). key w \<noteq> k}"
proof (rule set_eqI)
  fix w
  have "w \<in> snd ` (set m - {k} \<times> UNIV) \<longleftrightarrow> (\<exists>a. (a, w) \<in> set m \<and> a \<noteq> k)"
    by force
  also have "\<dots> \<longleftrightarrow> w \<in> {w \<in> set (go_values m). key w \<noteq> k}"
    by (simp only: keyed_mem [OF assms]) auto
  finally show "w \<in> snd ` (set m - {k} \<times> UNIV) \<longleftrightarrow> w \<in> {w \<in> set (go_values m). key w \<noteq> k}" .
qed

lemma values_go_set:
  "keyed key m \<Longrightarrow> set (go_values (go_set k v m)) = insert v {w \<in> set (go_values m). key w \<noteq> k}"
  by (simp add: set_go_set keyed_distinct keyed_values_minus)

lemma values_go_set_subset: "set (go_values (go_set k v m)) \<subseteq> insert v (set (go_values m))"
  by (induction m) auto

lemma values_go_delete_subset: "set (go_values (go_delete k m)) \<subseteq> set (go_values m)"
  by (auto simp: AList.delete_eq)

lemma values_go_delete:
  "keyed key m \<Longrightarrow> set (go_values (go_delete k m)) = {w \<in> set (go_values m). key w \<noteq> k}"
  by (simp add: set_go_delete keyed_values_minus)

lemma find_Some_mem: "List.find P xs = Some x \<Longrightarrow> x \<in> set xs \<and> P x"
  by (induction xs) (auto split: if_splits)

lemma find_None_all: "List.find P xs = None \<Longrightarrow> x \<in> set xs \<Longrightarrow> \<not> P x"
  by (simp add: find_None_iff)

section \<open>Lemmas on sorting\<close>

lemma mset_insort_by [simp]: "mset (insort_by lt x xs) = add_mset x (mset xs)"
  by (induction xs) auto

lemma mset_sort_by [simp]: "mset (sort_by lt xs) = mset xs"
  by (induction xs) auto

lemma set_sort_by [simp]: "set (sort_by lt xs) = set xs"
  by (metis mset_sort_by set_mset_mset)

lemma length_sort_by [simp]: "length (sort_by lt xs) = length xs"
  by (metis mset_sort_by size_mset)

lemma distinct_sort_by [simp]: "distinct (sort_by lt xs) = distinct xs"
  by (metis mset_sort_by mset_eq_imp_distinct_iff)

lemma sort_by_Nil_iff [simp]: "sort_by lt xs = [] \<longleftrightarrow> xs = []"
  by (metis length_0_conv length_sort_by)

lemma every_Nil [simp]: "every P []"
  by (simp add: every_def)

lemma every_set [intro]: "every P m \<Longrightarrow> P v \<Longrightarrow> every P (go_set k v m)"
  unfolding every_def using values_go_set_subset [of k v m] by blast

lemma every_delete [intro]: "every P m \<Longrightarrow> every P (go_delete k m)"
  unfolding every_def using values_go_delete_subset [of k m] by blast

lemma every_filter [intro]: "every P m \<Longrightarrow> every P (filter Q m)"
  by (auto simp: every_def)

lemma every_get: "every P m \<Longrightarrow> go_get m k = Some v \<Longrightarrow> P v"
  by (force simp: every_def dest: map_of_SomeD)

lemma every_mono: "every P m \<Longrightarrow> (\<And>v. P v \<Longrightarrow> Q v) \<Longrightarrow> every Q m"
  by (auto simp: every_def)

lemma keyed_filter [intro]: "keyed key m \<Longrightarrow> keyed key (filter P m)"
  by (auto simp: keyed_def distinct_map_filter)

section \<open>Multisets of lists\<close>

lemma distinct_map_mset: "mset xs = mset ys \<Longrightarrow> distinct (map f xs) = distinct (map f ys)"
  by (metis mset_eq_imp_distinct_iff mset_map)

lemma distinct_submset: "mset xs \<subseteq># mset ys \<Longrightarrow> distinct (map f ys) \<Longrightarrow> distinct (map f xs)"
proof -
  assume "mset xs \<subseteq># mset ys" and d: "distinct (map f ys)"
  then obtain zs where "mset ys = mset (xs @ zs)" by (metis ex_mset mset_append mset_subset_eq_exists_conv)
  with d have "distinct (map f (xs @ zs))" by (metis distinct_map_mset)
  then show ?thesis by simp
qed

lemma keyed_distinct_values: "keyed key m \<Longrightarrow> distinct (map key (go_values m))"
proof (induction m)
  case (Cons x m)
  then show ?case by (force simp: keyed_def)
qed simp

subsection \<open>Storing several values, each under its own key\<close>

lemma find_distinct: "distinct (map f es) \<Longrightarrow> x \<in> set es \<Longrightarrow> find (\<lambda>e. f e = f x) es = Some x"
  by (induction es) auto

lemma find_key_None: "find (\<lambda>e. f e = k) es = None \<longleftrightarrow> k \<notin> f ` set es"
  by (auto simp: find_None_iff)

lemma find_map_comp: "find P (map f xs) = map_option f (find (P \<circ> f) xs)"
  by (induction xs) auto

lemma foldl_go_set_get:
  "distinct (map key vs) \<Longrightarrow>
   go_get (foldl (\<lambda>m v. go_set (key v) v m) m vs) k =
     (case find (\<lambda>v. key v = k) vs of Some v \<Rightarrow> Some v | None \<Rightarrow> go_get m k)"
proof (induction vs arbitrary: m)
  case (Cons v vs)
  have "find (\<lambda>x. key x = k) vs = None" if "key v = k"
    using Cons.prems that by (auto simp: find_None_iff image_iff)
  with Cons show ?case by (auto split: option.splits)
qed simp

lemma foldl_go_set_other: "k \<notin> key ` set vs \<Longrightarrow> go_get (foldl (\<lambda>m v. go_set (key v) v m) m vs) k = go_get m k"
  by (induction vs arbitrary: m) auto

lemma foldl_go_set_mem:
  "k \<in> key ` set vs \<Longrightarrow> \<exists>v \<in> set vs. key v = k \<and> go_get (foldl (\<lambda>m v. go_set (key v) v m) m vs) k = Some v"
proof (induction vs arbitrary: m)
  case (Cons v vs)
  show ?case
  proof (cases "k \<in> key ` set vs")
    case False
    then show ?thesis using Cons.prems by (simp add: foldl_go_set_other)
  qed (use Cons.IH in auto)
qed simp

lemma filter_distinct_key: "distinct (map f xs) \<Longrightarrow> x \<in> set xs \<Longrightarrow> filter (\<lambda>y. f y = f x) xs = [x]"
  by (induction xs) (auto simp: filter_empty_conv image_iff)

lemma go_values_fresh: "go_get m k = None \<Longrightarrow> go_values (go_set k v m) = go_values m @ [v]"
  by (induction m) (auto split: if_splits)

lemma go_values_foldl_fresh:
  "distinct (map key vs) \<Longrightarrow> \<forall>v \<in> set vs. go_get m (key v) = None \<Longrightarrow>
   go_values (foldl (\<lambda>m v. go_set (key v) v m) m vs) = go_values m @ vs"
proof (induction vs arbitrary: m)
  case (Cons v vs)
  then have "\<forall>w \<in> set vs. go_get (go_set (key v) v m) (key w) = None" by (auto simp: image_iff)
  with Cons show ?case by (simp add: go_values_fresh)
qed simp

lemma keyed_foldl_go_set: "keyed key m \<Longrightarrow> keyed key (foldl (\<lambda>m v. go_set (key v) v m) m vs)"
  by (induction vs arbitrary: m) (simp_all add: keyed_go_set)

text \<open>Values added to a table under ids it did not have; of two with one id the later is kept.\<close>

definition inserted :: "('v \<Rightarrow> string) \<Rightarrow> 'v list \<Rightarrow> 'v gomap \<Rightarrow> 'v gomap \<Rightarrow> bool" where
  "inserted key vs m m' \<longleftrightarrow>
     (\<forall>v \<in> set vs. go_get m (key v) = None) \<and>
     (\<forall>k. go_get m' k = (case find (\<lambda>v. key v = k) (rev vs) of Some v \<Rightarrow> Some v | None \<Rightarrow> go_get m k))"

lemma find_snoc: "find P (xs @ [x]) = (case find P xs of Some y \<Rightarrow> Some y | None \<Rightarrow> if P x then Some x else None)"
  by (induction xs) auto

lemma inserted_foldl:
  "\<forall>v \<in> set vs. go_get m (key v) = None \<Longrightarrow> inserted key vs m (foldl (\<lambda>m v. go_set (key v) v m) m vs)"
proof -
  have "go_get (foldl (\<lambda>m v. go_set (key v) v m) m vs) k =
      (case find (\<lambda>v. key v = k) (rev vs) of Some v \<Rightarrow> Some v | None \<Rightarrow> go_get m k)" for k
    by (induction vs arbitrary: m) (auto simp: find_snoc split: option.split)
  then show "\<forall>v \<in> set vs. go_get m (key v) = None \<Longrightarrow> inserted key vs m (foldl (\<lambda>m v. go_set (key v) v m) m vs)"
    by (simp add: inserted_def)
qed

lemma inserted_one: "go_get m (key v) = None \<Longrightarrow> inserted key [v] m (go_set (key v) v m)"
  using inserted_foldl [of "[v]" m key] by simp

lemma inserted_keeps: "inserted key vs m m' \<Longrightarrow> go_get m k = Some v \<Longrightarrow> go_get m' k = Some v"
  by (auto simp: inserted_def find_key_None split: option.split dest!: find_Some_mem)

lemma inserted_get: "inserted key vs m m' \<Longrightarrow> distinct (map key vs) \<Longrightarrow> v \<in> set vs \<Longrightarrow> go_get m' (key v) = Some v"
  using find_distinct [of key "rev vs" v] by (simp add: inserted_def rev_map [symmetric])

subsection \<open>Tables\<close>

lemma tableI: "keyed key m \<Longrightarrow> (\<And>k v. go_get m k = Some v \<Longrightarrow> P v) \<Longrightarrow> table key P m"
  by (simp add: table_def)

lemma table_keyed: "table key P m \<Longrightarrow> keyed key m"
  by (simp add: table_def)

lemma table_get: "table key P m \<Longrightarrow> go_get m k = Some v \<Longrightarrow> key v = k \<and> P v"
  by (auto simp: table_def dest: keyed_get)

lemma table_Nil [simp]: "table key P []"
  by (simp add: table_def)

lemma table_set: "table key P m \<Longrightarrow> P v \<Longrightarrow> k = key v \<Longrightarrow> table key P (go_set k v m)"
  by (auto simp: table_def keyed_go_set)

lemma table_mono: "table key P m \<Longrightarrow> (\<And>v. P v \<Longrightarrow> Q v) \<Longrightarrow> table key Q m"
  by (auto simp: table_def)

lemma table_foldl: "table key P m \<Longrightarrow> \<forall>v \<in> set vs. P v \<Longrightarrow> table key P (foldl (\<lambda>m v. go_set (key v) v m) m vs)"
  by (induction vs arbitrary: m) (simp_all add: table_set)

lemma table_values: "table key P m \<Longrightarrow> v \<in> set (go_values m) \<longleftrightarrow> go_get m (key v) = Some v"
  using keyed_get_iff [of key m v] by (simp add: table_keyed)

lemma table_find:
  "table key P m \<Longrightarrow> List.find Q (go_values m) = Some v \<Longrightarrow> go_get m (key v) = Some v \<and> Q v \<and> P v"
  using find_Some_mem [of Q "go_values m" v] table_values [of key P m v] table_get [of key P m "key v" v] by simp

lemma table_find_None: "table key P m \<Longrightarrow> List.find Q (go_values m) = None \<Longrightarrow> go_get m k = Some v \<Longrightarrow> \<not> Q v"
  using find_None_all [of Q "go_values m" v] keyed_get_value [of key m k v] by (simp add: table_keyed)

lemma go_get_filter: "keyed key m \<Longrightarrow> go_get (filter (\<lambda>(k, v). Q v) m) k = (case go_get m k of Some v \<Rightarrow> if Q v then Some v else None | None \<Rightarrow> None)"
proof (induction m)
  case (Cons x m)
  then show ?case by (force simp: keyed_def dest: map_of_SomeD split: option.splits)
qed simp

lemma table_filter: "table key P m \<Longrightarrow> table key P (filter (\<lambda>(k, v). Q v) m)"
  by (auto simp: table_def keyed_filter go_get_filter split: option.splits if_splits)

lemma unique_by_Nil [simp]: "unique_by f []"
  by (simp add: unique_by_def)

lemma unique_byD: "unique_by f m \<Longrightarrow> go_get m k = Some v \<Longrightarrow> go_get m k' = Some v' \<Longrightarrow> f v = f v' \<Longrightarrow> k = k'"
  by (auto simp: unique_by_def)

lemma unique_by_set:
  "unique_by f m \<Longrightarrow> (\<And>k' v'. go_get m k' = Some v' \<Longrightarrow> f v' = f v \<Longrightarrow> k' = k) \<Longrightarrow> unique_by f (go_set k v m)"
  by (auto simp: unique_by_def)

lemma unique_by_foldl:
  "unique_by f m \<Longrightarrow> distinct (map f vs) \<Longrightarrow> (\<And>v k w. v \<in> set vs \<Longrightarrow> go_get m k = Some w \<Longrightarrow> f w \<noteq> f v) \<Longrightarrow>
   unique_by f (foldl (\<lambda>m v. go_set (key v) v m) m vs)"
proof (induction vs arbitrary: m)
  case (Cons v vs)
  have "unique_by f (go_set (key v) v m)" using Cons.prems by (intro unique_by_set) auto
  moreover have "f w \<noteq> f u" if "u \<in> set vs" "go_get (go_set (key v) v m) k = Some w" for u k w
    using that Cons.prems(2) Cons.prems(3) [of u k w] by (auto split: if_splits)
  ultimately show ?case using Cons.IH [of "go_set (key v) v m"] Cons.prems(2) by simp
qed simp

text \<open>Replacing a value by one with the same identity.\<close>

lemma unique_by_update:
  "unique_by f m \<Longrightarrow> go_get m k = Some w \<Longrightarrow> f v = f w \<Longrightarrow> unique_by f (go_set k v m)"
  by (rule unique_by_set) (auto dest: unique_byD)

text \<open>Under a unique field at most one value is found.\<close>

lemma unique_find:
  assumes "table key P m" "unique_by f m" "go_get m k = Some v"
  shows "List.find (\<lambda>x. f x = f v) (go_values m) = Some v"
proof -
  have v: "v \<in> set (go_values m)" by (rule keyed_get_value [OF table_keyed [OF assms(1)] assms(3)])
  then obtain w where w: "List.find (\<lambda>x. f x = f v) (go_values m) = Some w"
    using find_None_all [of "\<lambda>x. f x = f v" "go_values m" v] by (cases "List.find (\<lambda>x. f x = f v) (go_values m)") auto
  then have "go_get m (key w) = Some w" "f w = f v" using table_find [OF assms(1)] by auto
  then have "key w = k" using unique_byD [OF assms(2) _ assms(3)] by blast
  with \<open>go_get m (key w) = Some w\<close> assms(3) w show ?thesis by simp
qed

lemma unique_filter:
  assumes "table key P m" "unique_by f m" "go_get m k = Some v"
  shows "filter (\<lambda>x. f x = f v) (go_values m) = [v]"
proof -
  have mem: "x = v" if "x \<in> set (go_values m)" "f x = f v" for x
  proof -
    have "go_get m (key x) = Some x" using that(1) table_values [OF assms(1)] by blast
    then show ?thesis using unique_byD [OF assms(2) _ assms(3) that(2)] assms(3) by fastforce
  qed
  have "distinct (go_values m)"
    using keyed_distinct_values [OF table_keyed [OF assms(1)]] by (metis distinct_map)
  moreover have "v \<in> set (go_values m)" by (rule keyed_get_value [OF table_keyed [OF assms(1)] assms(3)])
  ultimately have "set (filter (\<lambda>x. f x = f v) (go_values m)) = {v}" "distinct (filter (\<lambda>x. f x = f v) (go_values m))"
    using mem by auto
  then show ?thesis by (cases "filter (\<lambda>x. f x = f v) (go_values m)" rule: remdups_adj.cases) auto
qed

subsection \<open>Growth\<close>

text \<open>A table grows along a preorder of its values: nothing disappears, and every value only moves up.\<close>

definition grown :: "('v \<Rightarrow> 'v \<Rightarrow> bool) \<Rightarrow> 'v gomap \<Rightarrow> 'v gomap \<Rightarrow> bool" where
  "grown le m m' \<longleftrightarrow> (\<forall>k v. go_get m k = Some v \<longrightarrow> (\<exists>v'. go_get m' k = Some v' \<and> le v v'))"

lemma grown_refl: "(\<And>v. le v v) \<Longrightarrow> grown le m m"
  by (auto simp: grown_def)

lemma grown_trans: "(\<And>x y z. le x y \<Longrightarrow> le y z \<Longrightarrow> le x z) \<Longrightarrow> grown le m m' \<Longrightarrow> grown le m' m'' \<Longrightarrow> grown le m m''"
  unfolding grown_def by meson

lemma grown_set: "(\<And>v. le v v) \<Longrightarrow> (\<And>old. go_get m k = Some old \<Longrightarrow> le old v) \<Longrightarrow> grown le m (go_set k v m)"
  by (auto simp: grown_def)

lemma grown_get: "grown le m m' \<Longrightarrow> go_get m k = Some v \<Longrightarrow> \<exists>v'. go_get m' k = Some v' \<and> le v v'"
  by (simp add: grown_def)

end
