(* ===== verification/Pricing_Money.thy ===== *)
theory Pricing_Money
  imports Prelude
begin

text \<open>
  The money arithmetic of the pricing engine, \<^verbatim>\<open>backend/internal/pricing/money.go\<close>, and the
  error values of \<^verbatim>\<open>types.go\<close>. Amounts are 64-bit integers in millionths of a currency unit;
  products are taken on 128 bits with \<^verbatim>\<open>bits.Mul64\<close> and \<^verbatim>\<open>bits.Div64\<close>, here on
  64-bit words. The main lemma \<open>checkedMulDivRoundHalfUp_spec\<close> says that the word-level routine is
  the exact quotient rounded half up, or the overflow error when that does not fit 64 bits.
\<close>

section \<open>Errors\<close>

definition ErrorExpressionEmpty :: string where "ErrorExpressionEmpty = ''pricing_expr_empty''"
definition ErrorExpressionTooLarge :: string where "ErrorExpressionTooLarge = ''pricing_expr_too_large''"
definition ErrorVersionUnsupported :: string where "ErrorVersionUnsupported = ''pricing_version_unsupported''"
definition ErrorCompileFailed :: string where "ErrorCompileFailed = ''pricing_expr_compile_failed''"
definition ErrorForbiddenAST :: string where "ErrorForbiddenAST = ''pricing_expr_forbidden_ast''"
definition ErrorHashMismatch :: string where "ErrorHashMismatch = ''pricing_expr_hash_mismatch''"
definition ErrorFactMissing :: string where "ErrorFactMissing = ''pricing_fact_missing''"
definition ErrorFactInvalid :: string where "ErrorFactInvalid = ''pricing_fact_invalid''"
definition ErrorArithmeticOverflow :: string where "ErrorArithmeticOverflow = ''pricing_arithmetic_overflow''"
definition ErrorAmountOutOfRange :: string where "ErrorAmountOutOfRange = ''pricing_amount_out_of_range''"
definition ErrorTierInvalid :: string where "ErrorTierInvalid = ''pricing_tier_invalid''"
definition ErrorBreakdownInvalid :: string where "ErrorBreakdownInvalid = ''pricing_breakdown_invalid''"

text \<open>
  \<^verbatim>\<open>pricing.Error\<close>: the code, and the message as its format string with the arguments.
  \<^verbatim>\<open>errorf\<close> leaves the line and the column 0.
\<close>

datatype pricing_error = PricingError (err_Code: string) (err_Format: string) (err_Args: "string list")

definition errorf :: "string \<Rightarrow> string \<Rightarrow> string list \<Rightarrow> pricing_error" where
  "errorf code fmt args = PricingError code fmt args"

section \<open>Operands\<close>

text \<open>
  The dynamic type of an operand that the expression VM passes to a pricing function. Go's
  \<^verbatim>\<open>int\<close> has 64 bits on the platforms the gateway is built for.
\<close>

datatype expr_value = VInt "64 word" | VInt64 "64 word" | VBool bool | VString string | VOther string

fun type_name :: "expr_value \<Rightarrow> string" where
  "type_name (VInt _) = ''int''"
| "type_name (VInt64 _) = ''int64''"
| "type_name (VBool _) = ''bool''"
| "type_name (VString _) = ''string''"
| "type_name (VOther t) = t"

fun pricingInteger :: "expr_value \<Rightarrow> pricing_error + int" where
  "pricingInteger (VInt number) = Inr (sint number)"
| "pricingInteger (VInt64 number) = Inr (sint number)"
| "pricingInteger v = Inl (errorf ErrorFactInvalid ''pricing operand has type %s'' [type_name v])"

definition numeric2 ::
  "(int \<Rightarrow> int \<Rightarrow> pricing_error + int) \<Rightarrow> expr_value \<Rightarrow> expr_value \<Rightarrow> pricing_error + int" where
  "numeric2 operation left right =
     and_then (pricingInteger left) (\<lambda>leftValue.
     and_then (pricingInteger right) (\<lambda>rightValue.
     operation leftValue rightValue))"

definition numeric3 ::
  "(int \<Rightarrow> int \<Rightarrow> int \<Rightarrow> pricing_error + int) \<Rightarrow> expr_value \<Rightarrow> expr_value \<Rightarrow> expr_value \<Rightarrow>
   pricing_error + int" where
  "numeric3 operation first second third =
     and_then (pricingInteger first) (\<lambda>firstValue.
     and_then (pricingInteger second) (\<lambda>secondValue.
     and_then (pricingInteger third) (\<lambda>thirdValue.
     operation firstValue secondValue thirdValue)))"

section \<open>Checked arithmetic\<close>

abbreviation (input) basisPointsOne :: int where
  "basisPointsOne \<equiv> 10000"

definition checkedAdd :: "int \<Rightarrow> int \<Rightarrow> pricing_error + int" where
  "checkedAdd left right =
     (if left < 0 \<or> right < 0 \<or> left > max_int64 - right
      then Inl (errorf ErrorArithmeticOverflow ''integer addition overflow'' [])
      else Inr (wrap64 (left + right)))"

text \<open>
  \<^verbatim>\<open>bits.Mul64\<close>: the 128-bit product as a high and a low word. \<^verbatim>\<open>bits.Div64\<close>: quotient
  and remainder of a 128-bit number by a word, for a high word below the divisor (it panics
  otherwise; the caller checks).
\<close>

definition Mul64 :: "64 word \<Rightarrow> 64 word \<Rightarrow> 64 word \<times> 64 word" where
  "Mul64 x y = (word_of_int (uint x * uint y div 2 ^ 64), x * y)"

definition Div64 :: "64 word \<Rightarrow> 64 word \<Rightarrow> 64 word \<Rightarrow> 64 word \<times> 64 word" where
  "Div64 hi lo d =
     (word_of_int ((uint hi * 2 ^ 64 + uint lo) div uint d),
      word_of_int ((uint hi * 2 ^ 64 + uint lo) mod uint d))"

definition checkedMulDivRoundHalfUp :: "int \<Rightarrow> int \<Rightarrow> int \<Rightarrow> pricing_error + int" where
  "checkedMulDivRoundHalfUp left right divisor =
     (if left < 0 \<or> right < 0 \<or> divisor \<le> 0
      then Inl (errorf ErrorFactInvalid ''pricing operands must be non-negative and divisor must be positive'' [])
      else
        (let (hi, lo) = Mul64 (word_of_int left) (word_of_int right);
             d = word_of_int divisor :: 64 word
         in if hi \<ge> d
            then Inl (errorf ErrorArithmeticOverflow ''integer multiplication overflow'' [])
            else
              (let (quotient, remainder) = Div64 hi lo d
               in if remainder \<ge> (d + 1) div 2 \<and> quotient = 18446744073709551615
                  then Inl (errorf ErrorArithmeticOverflow ''rounded amount overflow'' [])
                  else
                    (let rounded = (if remainder \<ge> (d + 1) div 2 then quotient + 1 else quotient)
                     in if rounded > 9223372036854775807
                        then Inl (errorf ErrorArithmeticOverflow ''amount exceeds int64'' [])
                        else Inr (sint rounded)))))"

definition tokenCost :: "int \<Rightarrow> int \<Rightarrow> pricing_error + int" where
  "tokenCost quantity microsPerMillion = checkedMulDivRoundHalfUp quantity microsPerMillion 1000000"

definition unitCost :: "int \<Rightarrow> int \<Rightarrow> pricing_error + int" where
  "unitCost quantity microsPerUnit = checkedMulDivRoundHalfUp quantity microsPerUnit 1"

definition blockCost :: "int \<Rightarrow> int \<Rightarrow> int \<Rightarrow> pricing_error + int" where
  "blockCost quantity unitsPerBlock microsPerBlock =
     checkedMulDivRoundHalfUp quantity microsPerBlock unitsPerBlock"

definition multiplyBPS :: "int \<Rightarrow> int \<Rightarrow> pricing_error + int" where
  "multiplyBPS amount bps = checkedMulDivRoundHalfUp amount bps basisPointsOne"

section \<open>What the arithmetic computes\<close>

text \<open>The reference: the exact quotient \<open>l * r / d\<close>, rounded to the nearest integer, halves up.\<close>

definition round_half_up :: "int \<Rightarrow> int \<Rightarrow> int" where
  "round_half_up n d = (2 * n + d) div (2 * d)"

lemma checkedAdd_spec:
  assumes "int64_ok a" "int64_ok b"
  shows "checkedAdd a b =
    (if a < 0 \<or> b < 0 \<or> \<not> int64_ok (a + b)
     then Inl (errorf ErrorArithmeticOverflow ''integer addition overflow'' []) else Inr (a + b))"
  using assms by (auto simp: checkedAdd_def int64_ok_def)

lemma round_half_up_split:
  assumes d: "0 < d"
  shows "round_half_up n d = n div d + (if (d + 1) div 2 \<le> n mod d then 1 else 0)"
proof -
  define q m where "q = n div d" and "m = n mod d"
  have n: "n = q * d + m" and m: "0 \<le> m" "m < d"
    using d by (simp_all add: q_def m_def)
  have eq: "2 * n + d = (2 * m + d) + q * (2 * d)" by (simp add: n algebra_simps)
  have split: "(2 * n + d) div (2 * d) = q + (2 * m + d) div (2 * d)"
    unfolding eq using d by (subst div_mult_self1) auto
  have "(2 * m + d) div (2 * d) = (if (d + 1) div 2 \<le> m then 1 else 0)"
  proof (cases "(d + 1) div 2 \<le> m")
    case True
    then have "d \<le> 2 * m" by presburger
    then have "(2 * m + d) div (2 * d) = 1"
      using m d by (intro int_div_pos_eq [of _ _ _ "2 * m - d"]) auto
    with True show ?thesis by simp
  next
    case False
    then have "2 * m < d" by presburger
    then have "(2 * m + d) div (2 * d) = 0" using m d by (intro div_pos_pos_trivial) auto
    with False show ?thesis by simp
  qed
  with split show ?thesis by (simp add: round_half_up_def q_def m_def)
qed

lemma round_half_up_nonneg: "0 \<le> n \<Longrightarrow> 0 < d \<Longrightarrow> 0 \<le> round_half_up n d"
  by (simp add: round_half_up_def pos_imp_zdiv_nonneg_iff)

lemma round_half_up_1 [simp]: "round_half_up n 1 = n"
  by (simp add: round_half_up_def)

lemma round_half_up_cancel [simp]: "0 < d \<Longrightarrow> round_half_up (n * d) d = n"
  by (simp add: round_half_up_split)

text \<open>The rounded amount differs from the exact quotient by at most half a unit.\<close>

lemma round_half_up_error:
  assumes d: "0 < d"
  shows "2 * n \<le> 2 * (round_half_up n d * d) + d" "2 * (round_half_up n d * d) \<le> 2 * n + d"
proof -
  have "round_half_up n d * (2 * d) + (2 * n + d) mod (2 * d) = 2 * n + d"
    unfolding round_half_up_def by (rule div_mult_mod_eq)
  moreover have "round_half_up n d * (2 * d) = 2 * (round_half_up n d * d)" by simp
  moreover have "0 \<le> (2 * n + d) mod (2 * d)" "(2 * n + d) mod (2 * d) < 2 * d"
    using d by simp_all
  ultimately show "2 * n \<le> 2 * (round_half_up n d * d) + d" "2 * (round_half_up n d * d) \<le> 2 * n + d"
    by linarith+
qed

lemma div_unique_bounds: "0 < c \<Longrightarrow> a = m div c \<longleftrightarrow> a * c \<le> m \<and> m < (a + 1) * c" for a m c :: int
proof
  assume c: "0 < c" and "a = m div c"
  then have "m = a * c + m mod c" "0 \<le> m mod c" "m mod c < c" by simp_all
  then show "a * c \<le> m \<and> m < (a + 1) * c" by (simp add: distrib_right)
next
  assume "0 < c" and "a * c \<le> m \<and> m < (a + 1) * c"
  then show "a = m div c"
    by (intro int_div_pos_eq [symmetric, of _ _ _ "m - a * c"]) (simp_all add: algebra_simps)
qed

lemma round_half_up_unique:
  assumes "0 < d"
  shows "a = round_half_up n d \<longleftrightarrow> 2 * (a * d) \<le> 2 * n + d \<and> 2 * n + d < 2 * ((a + 1) * d)"
proof -
  have eq: "b * (2 * d) = 2 * (b * d)" for b by simp
  show ?thesis
    using assms div_unique_bounds [of "2 * d" a "2 * n + d"] unfolding round_half_up_def eq by simp
qed

lemma uint_of_int64: "0 \<le> x \<Longrightarrow> x \<le> max_int64 \<Longrightarrow> uint (word_of_int x :: 64 word) = x"
  by (simp add: uint_word_of_int)

lemma uint_small: "0 \<le> x \<Longrightarrow> x < 2 ^ 64 \<Longrightarrow> uint (word_of_int x :: 64 word) = x"
  by (simp add: uint_word_of_int)

text \<open>The words of the routine, read as integers.\<close>

lemma Mul64_spec:
  assumes "0 \<le> l" "l \<le> max_int64" "0 \<le> r" "r \<le> max_int64"
    and "Mul64 (word_of_int l) (word_of_int r) = (hi, lo)"
  shows "uint hi = l * r div 2 ^ 64" "uint lo = l * r mod 2 ^ 64"
    "uint hi * 2 ^ 64 + uint lo = l * r"
proof -
  have "l * r \<le> max_int64 * max_int64" using assms by (intro mult_mono) auto
  then have "l * r div 2 ^ 64 < 2 ^ 64" by simp
  moreover have "0 \<le> l * r" using assms by simp
  ultimately show hi: "uint hi = l * r div 2 ^ 64"
    using assms by (auto simp: Mul64_def uint_of_int64 intro!: uint_small simp: pos_imp_zdiv_nonneg_iff)
  show lo: "uint lo = l * r mod 2 ^ 64"
    using assms by (auto simp: Mul64_def uint_word_ariths uint_of_int64)
  show "uint hi * 2 ^ 64 + uint lo = l * r"
    by (simp add: hi lo div_mult_mod_eq)
qed

lemma sint_eq_uint_small: "uint (w :: 64 word) \<le> max_int64 \<Longrightarrow> sint w = uint w"
proof -
  assume w: "uint w \<le> max_int64"
  moreover have "- (2 ^ 63) \<le> uint w" by (rule order_trans [OF _ uint_ge_0]) simp
  ultimately have "signed_take_bit 63 (uint w) = uint w"
    by (intro signed_take_bit_int_eq_self) simp_all
  then show ?thesis by (simp add: sint_uint)
qed

lemma half_divisor:
  assumes "0 < d" "d \<le> max_int64"
  shows "uint ((word_of_int d + 1) div 2 :: 64 word) = (d + 1) div 2"
proof -
  have "uint (word_of_int d + 1 :: 64 word) = d + 1"
    using assms by (simp add: uint_word_ariths uint_of_int64)
  then show ?thesis by (simp add: uint_div)
qed

theorem checkedMulDivRoundHalfUp_spec:
  assumes "int64_ok l" "int64_ok r" "int64_ok d"
  shows "checkedMulDivRoundHalfUp l r d =
    (if l < 0 \<or> r < 0 \<or> d \<le> 0
     then Inl (errorf ErrorFactInvalid ''pricing operands must be non-negative and divisor must be positive'' [])
     else if int64_ok (round_half_up (l * r) d) then Inr (round_half_up (l * r) d)
     else if l * r div 2 ^ 64 \<ge> d
       then Inl (errorf ErrorArithmeticOverflow ''integer multiplication overflow'' [])
     else if round_half_up (l * r) d = 2 ^ 64
       then Inl (errorf ErrorArithmeticOverflow ''rounded amount overflow'' [])
     else Inl (errorf ErrorArithmeticOverflow ''amount exceeds int64'' []))"
proof (cases "l < 0 \<or> r < 0 \<or> d \<le> 0")
  case True
  then show ?thesis by (simp add: checkedMulDivRoundHalfUp_def)
next
  case False
  then have pos: "0 \<le> l" "0 \<le> r" "0 < d" by auto
  have le: "l \<le> max_int64" "r \<le> max_int64" "d \<le> max_int64"
    using assms by (simp_all add: int64_ok_def)
  obtain hi lo where hl: "Mul64 (word_of_int l) (word_of_int r) = (hi, lo)" by fastforce
  note m = Mul64_spec [OF pos(1) le(1) pos(2) le(2) hl]
  have ud: "uint (word_of_int d :: 64 word) = d" using pos le by (simp add: uint_of_int64)
  have ge: "hi \<ge> word_of_int d \<longleftrightarrow> l * r div 2 ^ 64 \<ge> d"
    by (simp add: word_le_def ud m(1))
  let ?q = "l * r div d" and ?m = "l * r mod d" and ?R = "round_half_up (l * r) d"
  have R: "?R = ?q + (if (d + 1) div 2 \<le> ?m then 1 else 0)"
    by (rule round_half_up_split [OF pos(3)])
  have q0: "0 \<le> ?q" using pos by (simp add: pos_imp_zdiv_nonneg_iff)
  show ?thesis
  proof (cases "l * r div 2 ^ 64 \<ge> d")
    case True
    have "d * 2 ^ 64 \<le> l * r div 2 ^ 64 * 2 ^ 64" using True by simp
    also have "\<dots> \<le> l * r" by (simp add: minus_mod_eq_div_mult [symmetric])
    finally have "d * 2 ^ 64 div d \<le> ?q" using pos by (intro zdiv_mono1)
    then have "2 ^ 64 \<le> ?q" using pos by simp
    then have "\<not> int64_ok ?R" using R by (auto simp: int64_ok_def)
    with True False hl ge show ?thesis by (simp add: checkedMulDivRoundHalfUp_def)
  next
    case nge: False
    then have "l * r div 2 ^ 64 + 1 \<le> d" by simp
    then have "(l * r div 2 ^ 64 + 1) * 2 ^ 64 \<le> d * 2 ^ 64" by simp
    moreover have "l * r < (l * r div 2 ^ 64 + 1) * 2 ^ 64"
      using div_mult_mod_eq [of "l * r" "2 ^ 64"] pos_mod_bound [of "2 ^ 64" "l * r"]
      by (simp add: algebra_simps)
    ultimately have "l * r < 2 ^ 64 * d" by simp
    moreover have "?q * d \<le> l * r" using pos by (simp add: minus_mod_eq_div_mult [symmetric])
    ultimately have "?q * d < 2 ^ 64 * d" by simp
    then have q1: "?q < 2 ^ 64" using pos by (simp only: mult_less_cancel_right)
    obtain quo rm where qr: "Div64 hi lo (word_of_int d) = (quo, rm)" by fastforce
    have quo: "quo = word_of_int ?q" and rm: "rm = word_of_int ?m"
      using qr unfolding Div64_def m(3) ud by simp_all
    have uq: "uint quo = ?q" unfolding quo using q0 q1 by (rule uint_small)
    have "?m < d" using pos by simp
    then have "?m \<le> max_int64" using le(3) by linarith
    then have um: "uint rm = ?m" unfolding rm using pos by (intro uint_of_int64) simp_all
    have rnd: "rm \<ge> (word_of_int d + 1) div 2 \<longleftrightarrow> (d + 1) div 2 \<le> ?m"
      by (simp add: word_le_def um half_divisor [OF pos(3) le(3)])
    have max: "quo = 18446744073709551615 \<longleftrightarrow> ?q = 18446744073709551615"
      unfolding word_uint_eq_iff uq by simp
    let ?w = "if (d + 1) div 2 \<le> ?m then quo + 1 else quo"
    have uw: "uint ?w = ?R" if "\<not> ((d + 1) div 2 \<le> ?m \<and> ?q = 18446744073709551615)"
      using that q0 q1 R by (auto simp: uint_word_ariths uq)
    have gt: "?w > 9223372036854775807 \<longleftrightarrow> \<not> int64_ok ?R"
      "\<not> ?w > 9223372036854775807 \<Longrightarrow> sint ?w = ?R"
      if "\<not> ((d + 1) div 2 \<le> ?m \<and> ?q = 18446744073709551615)"
      using uw [OF that] R q0 by (auto simp: word_less_def int64_ok_def sint_eq_uint_small)
    show ?thesis
    proof (cases "(d + 1) div 2 \<le> ?m \<and> ?q = 18446744073709551615")
      case True
      then have "?R = 2 ^ 64" using R by simp
      with True False nge hl ge qr rnd max show ?thesis
        by (simp add: checkedMulDivRoundHalfUp_def int64_ok_def)
    next
      case no: False
      have "?R \<noteq> 2 ^ 64" using no q1 R by auto
      with no False nge hl ge qr rnd max gt [OF no] show ?thesis
        by (auto simp: checkedMulDivRoundHalfUp_def Let_def)
    qed
  qed
qed

text \<open>The consequences the pricing functions rest on.\<close>

lemma checkedMulDivRoundHalfUp_Inr:
  assumes "int64_ok l" "int64_ok r" "int64_ok d" and "checkedMulDivRoundHalfUp l r d = Inr a"
  shows "0 \<le> l" "0 \<le> r" "0 < d" "0 \<le> a" "int64_ok a" "a = round_half_up (l * r) d"
  using assms round_half_up_nonneg [of "l * r" d]
  by (auto simp: checkedMulDivRoundHalfUp_spec split: if_splits)

lemma checkedMulDivRoundHalfUp_Inl:
  assumes "checkedMulDivRoundHalfUp l r d = Inl e"
  shows "err_Code e = (if l < 0 \<or> r < 0 \<or> d \<le> 0 then ErrorFactInvalid else ErrorArithmeticOverflow)"
  using assms
  by (auto simp: checkedMulDivRoundHalfUp_def Let_def errorf_def split: if_splits prod.splits)

lemma multiplyBPS_one: "int64_ok a \<Longrightarrow> 0 \<le> a \<Longrightarrow> multiplyBPS a basisPointsOne = Inr a"
  unfolding multiplyBPS_def by (subst checkedMulDivRoundHalfUp_spec) (auto simp: int64_ok_def)

lemma unitCost_one: "int64_ok a \<Longrightarrow> 0 \<le> a \<Longrightarrow> unitCost 1 a = Inr a"
  unfolding unitCost_def by (subst checkedMulDivRoundHalfUp_spec) (auto simp: int64_ok_def)

lemma sint_int64_ok: "int64_ok (sint (w :: 64 word))"
  using int64_ok_wrap64 [of "uint w"] by (simp add: wrap64_sint)

lemma sint_word_of_int64 [simp]: "int64_ok i \<Longrightarrow> sint (word_of_int i :: 64 word) = i"
  using wrap64_sint [of i] by simp

lemma pricingInteger_Inr: "pricingInteger v = Inr i \<Longrightarrow> int64_ok i"
  by (cases v) (auto simp: sint_int64_ok)

lemmas pricing_error_code_defs =
  ErrorExpressionEmpty_def ErrorExpressionTooLarge_def ErrorVersionUnsupported_def ErrorCompileFailed_def
  ErrorForbiddenAST_def ErrorHashMismatch_def ErrorFactMissing_def ErrorFactInvalid_def
  ErrorArithmeticOverflow_def ErrorAmountOutOfRange_def ErrorTierInvalid_def ErrorBreakdownInvalid_def

text \<open>
  C24: a block price is exact. On 64-bit operands \<^verbatim>\<open>blockCost\<close> returns \<open>a\<close> if and only if the
  quantity and the rate are non-negative, the block size is positive, \<open>a\<close> is the 64-bit number nearest to
  \<open>quantity * rate / unitsPerBlock\<close> (a half is rounded up); in every other case it returns an error,
  never a wrapped amount.
\<close>

theorem blockCost_exact:
  assumes "int64_ok quantity" "int64_ok unitsPerBlock" "int64_ok rate"
  shows "blockCost quantity unitsPerBlock rate = Inr a \<longleftrightarrow>
    0 \<le> quantity \<and> 0 \<le> rate \<and> 0 < unitsPerBlock \<and> int64_ok a \<and>
    2 * (a * unitsPerBlock) \<le> 2 * (quantity * rate) + unitsPerBlock \<and>
    2 * (quantity * rate) + unitsPerBlock < 2 * ((a + 1) * unitsPerBlock)"
proof (cases "0 \<le> quantity \<and> 0 \<le> rate \<and> 0 < unitsPerBlock")
  case False
  then show ?thesis using assms by (auto simp: blockCost_def checkedMulDivRoundHalfUp_spec)
next
  case True
  have "blockCost quantity unitsPerBlock rate = Inr a \<longleftrightarrow> int64_ok a \<and> a = round_half_up (quantity * rate) unitsPerBlock"
    using assms True by (auto simp: blockCost_def checkedMulDivRoundHalfUp_spec)
  then show ?thesis using True round_half_up_unique [of unitsPerBlock a "quantity * rate"] by auto
qed

theorem blockCost_exact_witness:
  "blockCost 3 2 5 = Inr 8 \<and> (2 * (8 * 2) \<le> 2 * (3 * 5) + (2::int))"
proof -
  have b: "blockCost 3 2 5 = Inr 8" by code_simp
  have "int64_ok 3" "int64_ok 2" "int64_ok 5" by (simp_all add: int64_ok_def)
  from b blockCost_exact [OF this, of 8] show ?thesis by simp
qed

end
