(* ===== verification/Pricing_Compile.thy ===== *)
theory Pricing_Compile
  imports Pricing_Money "HOL-Library.Sublist"
begin

text \<open>
  The rule compiler of the pricing engine: the data types of
  \<^verbatim>\<open>backend/internal/pricing/types.go\<close>, and \<^verbatim>\<open>compile.go\<close> with its AST analyzer and its
  compile cache (an LRU list with single-flight compilation).

  The expression parser and compiler (\<^verbatim>\<open>github.com/expr-lang/expr\<close>) and the SHA-256 digest are
  parameters: \<open>parse\<close> gives the syntax tree or an error text, \<open>compile\<close> the program or an error text,
  \<open>digest\<close> the hexadecimal digest of a string. A compiled program is known by how it interacts with
  its environment only (\<open>vm_program\<close>): it reads facts, calls functions, and returns a value or fails.
\<close>

section \<open>Data\<close>

definition PhaseEstimate :: string where "PhaseEstimate = ''estimate''"
definition PhaseSettlement :: string where "PhaseSettlement = ''settlement''"
definition PhaseReplay :: string where "PhaseReplay = ''replay''"
definition CurrencyUSD :: string where "CurrencyUSD = ''USD''"

abbreviation (input) EngineVersionV1 :: int where "EngineVersionV1 \<equiv> 1"

record Facts =
  f_TotalInputTokens :: int
  f_UncachedInputTokens :: int
  f_CacheReadTokens :: int
  f_CacheWrite5mTokens :: int
  f_CacheWrite1hTokens :: int
  f_OutputTokens :: int
  f_CacheFieldsPresent :: bool
  f_InputImages :: int
  f_OutputImages :: int
  f_PartialImages :: int
  f_InputVideoMilliseconds :: int
  f_OutputVideoMilliseconds :: int
  f_InputAudioMilliseconds :: int
  f_OutputAudioMilliseconds :: int
  f_RealtimeAudioMilliseconds :: int
  f_InputCharacters :: int
  f_Actions :: int
  f_BatchItems :: int
  f_InputBytes :: int
  f_OutputBytes :: int
  f_TransferBytes :: int
  f_SessionMilliseconds :: int
  f_Protocol :: string
  f_Operation :: string
  f_Modality :: string
  f_Lane :: string
  f_Stream :: bool
  f_OutputCount :: int
  f_ServiceTier :: string
  f_AvailableFacts :: "bool gomap"
  f_NormalizationStatus :: string
  f_Phase :: string
  f_ObservedAt :: gotime

record PricingLine =
  pl_Code :: string
  pl_Quantity :: int
  pl_Unit :: string
  pl_UnitsPerBlock :: int
  pl_RateMicros :: int
  pl_MultiplierBPS :: int
  pl_AmountMicros :: int

record PricingResult =
  res_AmountMicros :: int
  res_Currency :: string
  res_MatchedTier :: string
  res_Lines :: "PricingLine list"
  res_EngineVersion :: int
  res_ExpressionHash :: string
  res_FactsHash :: string

text \<open>\<^verbatim>\<open>TierAnalysis\<close> has a list of conditions besides its name, which stays empty.\<close>

record RuleAnalysis =
  ra_EngineVersion :: int
  ra_RequiredFacts :: "string list"
  ra_Tiers :: "string list"
  ra_LineCodes :: "string list"
  ra_VisualEditable :: bool

datatype vm_program =
    VMReturn expr_value
  | VMFail string
  | VMFact string "expr_value \<Rightarrow> vm_program"
  | VMCall string "expr_value list" "64 word \<Rightarrow> vm_program"

record CompiledRule =
  cr_Source :: string
  cr_ExpressionHash :: string
  cr_EngineVersion :: int
  cr_Analysis :: RuleAnalysis
  cr_body :: string
  cr_program :: "vm_program option"

text \<open>
  \<^verbatim>\<open>Facts.CanonicalJSON\<close> drops the phase and the observation time before it encodes the facts;
  \<^verbatim>\<open>Facts.Hash\<close> is the digest of that encoding. The encoding is represented by the record it
  encodes, so \<open>facts_digest\<close> is a parameter on records.
\<close>

definition CanonicalJSON :: "Facts \<Rightarrow> Facts" where
  "CanonicalJSON f = f\<lparr>f_Phase := [], f_ObservedAt := zero_time\<rparr>"

definition Facts_Hash :: "(Facts \<Rightarrow> string) \<Rightarrow> Facts \<Rightarrow> string" where
  "Facts_Hash facts_digest f = facts_digest (CanonicalJSON f)"

definition validShortString :: "string \<Rightarrow> bool" where
  "validShortString v \<longleftrightarrow>
     length v \<le> 128 \<and> CHR 0x0D \<notin> set v \<and> CHR 0x0A \<notin> set v \<and> CHR 0x00 \<notin> set v"

section \<open>The syntax tree and its analysis\<close>

abbreviation (input) maxExpressionBytes :: nat where "maxExpressionBytes \<equiv> 8192"
abbreviation (input) maxASTNodes :: int where "maxASTNodes \<equiv> 256"
abbreviation (input) maxASTDepth :: int where "maxASTDepth \<equiv> 32"
abbreviation (input) maxStaticTiers :: int where "maxStaticTiers \<equiv> 16"
abbreviation (input) maxStaticLines :: int where "maxStaticLines \<equiv> 32"
abbreviation (input) defaultCacheSize :: int where "defaultCacheSize \<equiv> 512"

definition factNames :: "string list" where
  "factNames =
    [''total_input_tokens'', ''uncached_input_tokens'', ''cache_read_tokens'',
     ''cache_write_5m_tokens'', ''cache_write_1h_tokens'', ''output_tokens'', ''cache_fields_present'',
     ''input_images'', ''output_images'', ''partial_images'', ''input_video_milliseconds'',
     ''output_video_milliseconds'', ''input_audio_milliseconds'', ''output_audio_milliseconds'',
     ''realtime_audio_milliseconds'', ''input_characters'', ''actions'', ''batch_items'',
     ''input_bytes'', ''output_bytes'', ''transfer_bytes'', ''session_milliseconds'',
     ''protocol'', ''operation'', ''modality'', ''lane'', ''stream'', ''output_count'', ''service_tier'']"

definition functionNames :: "string list" where
  "functionNames =
    [''token_cost'', ''unit_cost'', ''block_cost'', ''multiply_bps'',
     ''token_line'', ''adjusted_token_line'', ''unit_line'', ''adjusted_unit_line'',
     ''block_line'', ''adjusted_block_line'', ''fixed_line'', ''tier'', ''min'', ''max'']"

text \<open>The node types the analyzer distinguishes; \<open>OtherNode\<close> is any other, with its type name.\<close>

datatype ast_node =
    NilNode
  | IntegerNode int
  | BoolNode bool
  | StringNode string
  | IdentifierNode string
  | UnaryNode string ast_node
  | BinaryNode string ast_node ast_node
  | ConditionalNode ast_node ast_node ast_node
  | CallNode ast_node "ast_node list"
  | OtherNode string

record astAnalyzer =
  an_nodes :: int
  an_maxDepth :: int
  an_tierCalls :: int
  an_lineCalls :: int
  an_requiredFacts :: "string list"
  an_tiers :: "string list"
  an_lineCodes :: "string list"
  an_visualEditable :: bool

definition newASTAnalyzer :: astAnalyzer where
  "newASTAnalyzer = \<lparr>an_nodes = 0, an_maxDepth = 0, an_tierCalls = 0, an_lineCalls = 0,
     an_requiredFacts = [], an_tiers = [], an_lineCodes = [], an_visualEditable = True\<rparr>"

definition allowedBinaryOperator :: "string \<Rightarrow> bool" where
  "allowedBinaryOperator op =
     oneOf op [''+'', ''=='', ''!='', ''<'', ''<='', ''>'', ''>='', ''&&'', ''||'']"

text \<open>Adding a key to a \<^verbatim>\<open>map[string]struct\<close>.\<close>

definition set_add :: "string \<Rightarrow> string list \<Rightarrow> string list" where
  "set_add x xs = (if x \<in> set xs then xs else xs @ [x])"

fun literal_argument :: "ast_node list \<Rightarrow> string option" where
  "literal_argument (StringNode v # _) = (if v \<noteq> [] then Some v else None)"
| "literal_argument _ = None"

definition add_literal :: "ast_node list \<Rightarrow> string list \<Rightarrow> string list" where
  "add_literal args xs = (case literal_argument args of Some v \<Rightarrow> set_add v xs | None \<Rightarrow> xs)"

definition is_line_call :: "string \<Rightarrow> bool" where
  "is_line_call name \<longleftrightarrow> suffix ''_line'' name \<or> name = ''fixed_line''"

definition recordCall :: "astAnalyzer \<Rightarrow> string \<Rightarrow> ast_node list \<Rightarrow> astAnalyzer" where
  "recordCall a name arguments =
     (let a1 = (if name = ''tier''
                then a\<lparr>an_tierCalls := an_tierCalls a + 1, an_tiers := add_literal arguments (an_tiers a)\<rparr>
                else a);
          a2 = (if is_line_call name
                then a1\<lparr>an_lineCalls := an_lineCalls a1 + 1, an_lineCodes := add_literal arguments (an_lineCodes a1)\<rparr>
                else a1)
      in if name = ''min'' \<or> name = ''max'' \<or> suffix ''_cost'' name \<or> name = ''multiply_bps''
         then a2\<lparr>an_visualEditable := False\<rparr> else a2)"

definition forbidden :: "string \<Rightarrow> string list \<Rightarrow> pricing_error option" where
  "forbidden fmt args = Some (errorf ErrorForbiddenAST fmt args)"

text \<open>\<^verbatim>\<open>visit\<close> counts the node first, then looks at its type.\<close>

definition count_node :: "astAnalyzer \<Rightarrow> int \<Rightarrow> astAnalyzer" where
  "count_node a depth =
     a\<lparr>an_nodes := an_nodes a + 1, an_maxDepth := (if depth > an_maxDepth a then depth else an_maxDepth a)\<rparr>"

fun visit :: "astAnalyzer \<Rightarrow> ast_node \<Rightarrow> int \<Rightarrow> bool \<Rightarrow> astAnalyzer \<times> pricing_error option"
  and visit_arguments :: "astAnalyzer \<Rightarrow> ast_node list \<Rightarrow> int \<Rightarrow> astAnalyzer \<times> pricing_error option"
where
  "visit a NilNode depth callCallee = (a, forbidden ''nil AST node'' [])"
| "visit a (IntegerNode i) depth callCallee =
     (let a = count_node a depth in
      if an_nodes a > maxASTNodes \<or> depth > maxASTDepth then (a, forbidden ''expression exceeds AST limits'' [])
      else (a, None))"
| "visit a (BoolNode b) depth callCallee =
     (let a = count_node a depth in
      if an_nodes a > maxASTNodes \<or> depth > maxASTDepth then (a, forbidden ''expression exceeds AST limits'' [])
      else (a, None))"
| "visit a (StringNode v) depth callCallee =
     (let a = count_node a depth in
      if an_nodes a > maxASTNodes \<or> depth > maxASTDepth then (a, forbidden ''expression exceeds AST limits'' [])
      else if \<not> validShortString v then (a, forbidden ''string literal is invalid or too long'' [])
      else (a, None))"
| "visit a (IdentifierNode v) depth callCallee =
     (let a = count_node a depth in
      if an_nodes a > maxASTNodes \<or> depth > maxASTDepth then (a, forbidden ''expression exceeds AST limits'' [])
      else if callCallee then
        (if v \<notin> set functionNames then (a, forbidden ''function %q is not allowed'' [v]) else (a, None))
      else if v \<notin> set factNames then (a, forbidden ''identifier %q is not allowed'' [v])
      else (a\<lparr>an_requiredFacts := set_add v (an_requiredFacts a)\<rparr>, None))"
| "visit a (UnaryNode op n) depth callCallee =
     (let a = count_node a depth in
      if an_nodes a > maxASTNodes \<or> depth > maxASTDepth then (a, forbidden ''expression exceeds AST limits'' [])
      else if op \<noteq> ''!'' then (a, forbidden ''unary operator %q is not allowed'' [op])
      else visit a n (depth + 1) False)"
| "visit a (BinaryNode op l r) depth callCallee =
     (let a = count_node a depth in
      if an_nodes a > maxASTNodes \<or> depth > maxASTDepth then (a, forbidden ''expression exceeds AST limits'' [])
      else if \<not> allowedBinaryOperator op then (a, forbidden ''binary operator %q is not allowed'' [op])
      else (case visit a l (depth + 1) False of
              (a, Some e) \<Rightarrow> (a, Some e)
            | (a, None) \<Rightarrow> visit a r (depth + 1) False))"
| "visit a (ConditionalNode c l r) depth callCallee =
     (let a = count_node a depth in
      if an_nodes a > maxASTNodes \<or> depth > maxASTDepth then (a, forbidden ''expression exceeds AST limits'' [])
      else (case visit a c (depth + 1) False of
              (a, Some e) \<Rightarrow> (a, Some e)
            | (a, None) \<Rightarrow>
                (case visit a l (depth + 1) False of
                   (a, Some e) \<Rightarrow> (a, Some e)
                 | (a, None) \<Rightarrow> visit a r (depth + 1) False)))"
| "visit a (CallNode callee args) depth callCallee =
     (let a = count_node a depth in
      if an_nodes a > maxASTNodes \<or> depth > maxASTDepth then (a, forbidden ''expression exceeds AST limits'' [])
      else (case callee of
              IdentifierNode name \<Rightarrow>
                (case visit a callee (depth + 1) True of
                   (a, Some e) \<Rightarrow> (a, Some e)
                 | (a, None) \<Rightarrow> visit_arguments (recordCall a name args) args (depth + 1))
            | _ \<Rightarrow> (a, forbidden ''dynamic function calls are not allowed'' [])))"
| "visit a (OtherNode t) depth callCallee =
     (let a = count_node a depth in
      if an_nodes a > maxASTNodes \<or> depth > maxASTDepth then (a, forbidden ''expression exceeds AST limits'' [])
      else (a, forbidden ''AST node %T is not allowed'' [t]))"
| "visit_arguments a [] depth = (a, None)"
| "visit_arguments a (n # ns) depth =
     (case visit a n depth False of
        (a, Some e) \<Rightarrow> (a, Some e)
      | (a, None) \<Rightarrow> visit_arguments a ns depth)"

definition sortedKeys :: "string list \<Rightarrow> string list" where
  "sortedKeys values = sort values"

definition analysis :: "astAnalyzer \<Rightarrow> int \<Rightarrow> RuleAnalysis" where
  "analysis a version =
     \<lparr>ra_EngineVersion = version, ra_RequiredFacts = sortedKeys (an_requiredFacts a),
      ra_Tiers = sortedKeys (an_tiers a), ra_LineCodes = sortedKeys (an_lineCodes a),
      ra_VisualEditable = an_visualEditable a\<rparr>"

section \<open>Compilation\<close>

definition parseVersion :: "string \<Rightarrow> pricing_error + int \<times> string" where
  "parseVersion source =
     (if TrimSpace source = [] then Inl (errorf ErrorExpressionEmpty ''expression is required'' [])
      else if length source > maxExpressionBytes
        then Inl (errorf ErrorExpressionTooLarge ''expression exceeds %d bytes'' [''8192''])
      else if \<not> prefix ''v1:'' source
        then Inl (errorf ErrorVersionUnsupported ''expression must start with v1:'' [])
      else (let body = TrimSpace (drop 3 source) in
            if body = [] then Inl (errorf ErrorExpressionEmpty ''expression body is required'' [])
            else Inr (EngineVersionV1, body)))"

definition compileV1 ::
  "(string \<Rightarrow> string + ast_node) \<Rightarrow> (string \<Rightarrow> string + vm_program) \<Rightarrow> string \<Rightarrow> string \<Rightarrow>
   pricing_error + CompiledRule" where
  "compileV1 parse compile source hash =
     (case parseVersion source of
        Inl e \<Rightarrow> Inl e
      | Inr (version, body) \<Rightarrow>
          (case parse body of
             Inl text \<Rightarrow> Inl (errorf ErrorCompileFailed ''%v'' [text])
           | Inr tree \<Rightarrow>
               (case visit newASTAnalyzer tree 1 False of
                  (analyzer, Some e) \<Rightarrow> Inl e
                | (analyzer, None) \<Rightarrow>
                    if an_nodes analyzer > maxASTNodes \<or> an_maxDepth analyzer > maxASTDepth
                    then Inl (errorf ErrorForbiddenAST ''expression exceeds AST limits'' [])
                    else if an_tierCalls analyzer > maxStaticTiers \<or> an_lineCalls analyzer > maxStaticLines
                    then Inl (errorf ErrorForbiddenAST ''expression exceeds tier or line limits'' [])
                    else
                      (case compile body of
                         Inl text \<Rightarrow> Inl (errorf ErrorCompileFailed ''%v'' [text])
                       | Inr program \<Rightarrow>
                           Inr \<lparr>cr_Source = source, cr_ExpressionHash = hash, cr_EngineVersion = version,
                                cr_Analysis = analysis analyzer version, cr_body = body,
                                cr_program = Some program\<rparr>))))"

definition compiledProgram :: "(string \<Rightarrow> string) \<Rightarrow> CompiledRule \<Rightarrow> pricing_error + vm_program" where
  "compiledProgram digest rule =
     (case cr_program rule of
        None \<Rightarrow> Inl (errorf ErrorHashMismatch ''compiled rule is invalid'' [])
      | Some program \<Rightarrow>
          if cr_EngineVersion rule \<noteq> EngineVersionV1 \<or> cr_ExpressionHash rule \<noteq> digest (cr_Source rule)
          then Inl (errorf ErrorHashMismatch ''compiled rule is invalid'' [])
          else Inr program)"

section \<open>What the analyzer computes\<close>

text \<open>Static measures of a tree: nodes, depth, the facts it reads, the calls it makes.\<close>

fun ast_nodes :: "ast_node \<Rightarrow> int" where
  "ast_nodes (UnaryNode _ n) = 1 + ast_nodes n"
| "ast_nodes (BinaryNode _ l r) = 1 + ast_nodes l + ast_nodes r"
| "ast_nodes (ConditionalNode c l r) = 1 + ast_nodes c + ast_nodes l + ast_nodes r"
| "ast_nodes (CallNode c args) = 1 + ast_nodes c + sum_list (map ast_nodes args)"
| "ast_nodes _ = 1"

fun ast_facts :: "ast_node \<Rightarrow> string set" where
  "ast_facts (IdentifierNode v) = {v}"
| "ast_facts (UnaryNode _ n) = ast_facts n"
| "ast_facts (BinaryNode _ l r) = ast_facts l \<union> ast_facts r"
| "ast_facts (ConditionalNode c l r) = ast_facts c \<union> ast_facts l \<union> ast_facts r"
| "ast_facts (CallNode _ args) = (\<Union>n \<in> set args. ast_facts n)"
| "ast_facts _ = {}"

text \<open>The number of calls of functions that satisfy a predicate.\<close>

fun ast_calls :: "(string \<Rightarrow> bool) \<Rightarrow> ast_node \<Rightarrow> int" where
  "ast_calls P (UnaryNode _ n) = ast_calls P n"
| "ast_calls P (BinaryNode _ l r) = ast_calls P l + ast_calls P r"
| "ast_calls P (ConditionalNode c l r) = ast_calls P c + ast_calls P l + ast_calls P r"
| "ast_calls P (CallNode c args) =
     (case c of IdentifierNode name \<Rightarrow> if P name then 1 else 0 | _ \<Rightarrow> 0) + sum_list (map (ast_calls P) args)"
| "ast_calls P _ = 0"

text \<open>Every name the tree mentions is a fact or, as a callee, a pricing function.\<close>

fun ast_closed :: "ast_node \<Rightarrow> bool" where
  "ast_closed (IntegerNode _) = True"
| "ast_closed (BoolNode _) = True"
| "ast_closed (StringNode v) = validShortString v"
| "ast_closed (IdentifierNode v) = (v \<in> set factNames)"
| "ast_closed (UnaryNode op n) = (op = ''!'' \<and> ast_closed n)"
| "ast_closed (BinaryNode op l r) = (allowedBinaryOperator op \<and> ast_closed l \<and> ast_closed r)"
| "ast_closed (ConditionalNode c l r) = (ast_closed c \<and> ast_closed l \<and> ast_closed r)"
| "ast_closed (CallNode c args) =
     ((case c of IdentifierNode name \<Rightarrow> name \<in> set functionNames | _ \<Rightarrow> False) \<and> list_all ast_closed args)"
| "ast_closed NilNode = False"
| "ast_closed (OtherNode _) = False"

lemma set_set_add [simp]: "set (set_add x xs) = insert x (set xs)"
  by (auto simp: set_add_def)

lemma distinct_set_add [simp]: "distinct (set_add x xs) = distinct xs"
  by (auto simp: set_add_def)

lemma count_node_simps [simp]:
  "an_nodes (count_node a d) = an_nodes a + 1"
  "an_maxDepth (count_node a d) = max (an_maxDepth a) d"
  "an_tierCalls (count_node a d) = an_tierCalls a"
  "an_lineCalls (count_node a d) = an_lineCalls a"
  "an_requiredFacts (count_node a d) = an_requiredFacts a"
  by (auto simp: count_node_def)

lemma recordCall_simps [simp]:
  "an_nodes (recordCall a name args) = an_nodes a"
  "an_maxDepth (recordCall a name args) = an_maxDepth a"
  "an_tierCalls (recordCall a name args) = an_tierCalls a + (if name = ''tier'' then 1 else 0)"
  "an_lineCalls (recordCall a name args) = an_lineCalls a + (if is_line_call name then 1 else 0)"
  "an_requiredFacts (recordCall a name args) = an_requiredFacts a"
  by (simp_all add: recordCall_def Let_def)

definition visit_ok :: "astAnalyzer \<Rightarrow> astAnalyzer \<Rightarrow> ast_node list \<Rightarrow> bool" where
  "visit_ok a b ns \<longleftrightarrow>
     an_nodes b = an_nodes a + sum_list (map ast_nodes ns) \<and>
     an_tierCalls b = an_tierCalls a + sum_list (map (ast_calls (\<lambda>f. f = ''tier'')) ns) \<and>
     an_lineCalls b = an_lineCalls a + sum_list (map (ast_calls is_line_call) ns) \<and>
     set (an_requiredFacts b) = set (an_requiredFacts a) \<union> (\<Union>n \<in> set ns. ast_facts n) \<and>
     (distinct (an_requiredFacts a) \<longrightarrow> distinct (an_requiredFacts b)) \<and>
     list_all ast_closed ns"

lemma visit_ok_append: "visit_ok a b ns \<Longrightarrow> visit_ok b c ms \<Longrightarrow> visit_ok a c (ns @ ms)"
  by (auto simp: visit_ok_def)

lemma ast_closed_facts: "ast_closed n \<Longrightarrow> ast_facts n \<subseteq> set factNames"
  by (induction n) (auto simp: list_all_iff)

lemma parseVersion_version: "parseVersion source = Inr (v, body) \<Longrightarrow> v = EngineVersionV1"
  by (auto simp: parseVersion_def Let_def split: if_splits)

lemma visit_callee:
  "visit a (IdentifierNode v) d True = (b, None) \<Longrightarrow> v \<in> set functionNames \<and> b = count_node a d"
  by (auto simp: Let_def forbidden_def split: if_splits)

lemma visit_sound:
  "visit a n d cc = (b, None) \<Longrightarrow> \<not> cc \<Longrightarrow> visit_ok a b [n]"
  "visit_arguments a ns d = (b, None) \<Longrightarrow> visit_ok a b ns"
proof (induction a n d cc and a ns d arbitrary: b and b rule: visit_visit_arguments.induct)
  case (9 a callee args depth cc)
  obtain name where callee: "callee = IdentifierNode name"
    using 9 by (cases callee) (auto simp: Let_def forbidden_def split: if_splits)
  obtain c where c: "visit (count_node a depth) callee (depth + 1) True = (c, None)"
    and d: "visit_arguments (recordCall c name args) args (depth + 1) = (b, None)"
    using 9(3) unfolding callee
    by (auto simp: Let_def forbidden_def simp del: visit.simps(5) split: if_splits prod.splits option.splits)
  have lim: "\<not> (an_nodes (count_node a depth) > maxASTNodes \<or> depth > maxASTDepth)"
    using 9(3) by (auto simp: Let_def forbidden_def split: if_splits)
  have "visit_ok (recordCall c name args) b args"
    using 9(2) [OF refl lim callee c [symmetric, THEN sym, symmetric]] c d callee by auto
  moreover have "name \<in> set functionNames" "c = count_node (count_node a depth) (depth + 1)"
    using visit_callee [OF c [unfolded callee]] by blast+
  ultimately show ?case by (auto simp: visit_ok_def callee)
next
  case (6 a op n depth cc)
  then have "op = ''!''" and "visit (count_node a depth) n (depth + 1) False = (b, None)"
    by (simp_all add: Let_def forbidden_def split: if_splits)
  with 6 have "visit_ok (count_node a depth) b [n]" by (simp add: Let_def forbidden_def split: if_splits)
  with \<open>op = ''!''\<close> show ?case by (simp add: visit_ok_def)
next
  case (7 a op l r depth cc)
  then have lim: "\<not> (an_nodes (count_node a depth) > maxASTNodes \<or> depth > maxASTDepth)"
    and op: "\<not> \<not> allowedBinaryOperator op"
    by (simp_all add: Let_def forbidden_def split: if_splits)
  obtain c where c: "visit (count_node a depth) l (depth + 1) False = (c, None)"
    and d: "visit c r (depth + 1) False = (b, None)"
    using 7(3) lim op by (auto simp: Let_def split: prod.splits option.splits)
  have "visit_ok (count_node a depth) c [l]" by (rule 7(1) [OF refl lim op c]) simp
  moreover have "visit_ok c b [r]" by (rule 7(2) [OF refl lim op c [symmetric] refl d]) simp
  ultimately show ?case using op by (auto simp: visit_ok_def)
next
  case (8 a t l r depth cc)
  then have lim: "\<not> (an_nodes (count_node a depth) > maxASTNodes \<or> depth > maxASTDepth)"
    by (simp add: Let_def forbidden_def split: if_splits)
  obtain c c' where c: "visit (count_node a depth) t (depth + 1) False = (c, None)"
    and c': "visit c l (depth + 1) False = (c', None)" and d: "visit c' r (depth + 1) False = (b, None)"
    using 8(4) lim by (auto simp: Let_def split: prod.splits option.splits)
  have "visit_ok (count_node a depth) c [t]" by (rule 8(1) [OF refl lim c]) simp
  moreover have "visit_ok c c' [l]" by (rule 8(2) [OF refl lim c [symmetric] refl c']) simp
  moreover have "visit_ok c' b [r]"
    by (rule 8(3) [OF refl lim c [symmetric] refl c' [symmetric] refl d]) simp
  ultimately show ?case by (auto simp: visit_ok_def)
next
  case (12 a n ns d)
  then obtain c where "visit a n d False = (c, None)" and "visit_arguments c ns d = (b, None)"
    by (auto split: prod.splits option.splits)
  with 12 show ?case using visit_ok_append [of a c "[n]" b ns] by auto
qed (auto simp: Let_def forbidden_def visit_ok_def split: if_splits)

text \<open>
  A rule that compiles is closed and bounded. Its tree calls nothing but the fourteen pricing
  functions, reads nothing but the pricing facts, has at most 256 nodes, at most 16 tier calls and
  at most 32 line calls, and the analysis lists exactly the facts the tree reads, sorted and without
  duplicates; the rule keeps the source, the hash and the engine version it was compiled from.
\<close>

theorem compileV1_closed:
  assumes "compileV1 parse compile source hash = Inr rule"
  shows "\<exists>body tree program.
    parseVersion source = Inr (EngineVersionV1, body) \<and> parse body = Inr tree \<and> compile body = Inr program \<and>
    ast_closed tree \<and> ast_facts tree \<subseteq> set factNames \<and> ast_nodes tree \<le> maxASTNodes \<and>
    ast_calls (\<lambda>f. f = ''tier'') tree \<le> maxStaticTiers \<and> ast_calls is_line_call tree \<le> maxStaticLines \<and>
    set (ra_RequiredFacts (cr_Analysis rule)) = ast_facts tree \<and>
    sorted (ra_RequiredFacts (cr_Analysis rule)) \<and> distinct (ra_RequiredFacts (cr_Analysis rule)) \<and>
    cr_Source rule = source \<and> cr_ExpressionHash rule = hash \<and> cr_EngineVersion rule = EngineVersionV1 \<and>
    cr_program rule = Some program"
proof -
  obtain body tree a program where p: "parseVersion source = Inr (EngineVersionV1, body)"
    and t: "parse body = Inr tree" and v: "visit newASTAnalyzer tree 1 False = (a, None)"
    and c: "compile body = Inr program"
    and lim: "an_nodes a \<le> maxASTNodes" "an_tierCalls a \<le> maxStaticTiers" "an_lineCalls a \<le> maxStaticLines"
    and r: "rule = \<lparr>cr_Source = source, cr_ExpressionHash = hash, cr_EngineVersion = EngineVersionV1,
      cr_Analysis = analysis a EngineVersionV1, cr_body = body, cr_program = Some program\<rparr>"
    using assms unfolding compileV1_def
    by (auto split: sum.splits prod.splits option.splits if_splits dest: parseVersion_version)
  note ok = visit_sound(1) [OF v, simplified, unfolded visit_ok_def]
  have "ast_closed tree" using ok by simp
  with ok p t c lim r show ?thesis
    using ast_closed_facts [of tree] by (auto simp: newASTAnalyzer_def analysis_def sortedKeys_def)
qed

definition example_tree :: ast_node where
  "example_tree = CallNode (IdentifierNode ''token_line'')
     [StringNode ''in'', IdentifierNode ''total_input_tokens'', IntegerNode 5]"

theorem compileV1_closed_witness:
  "\<exists>rule. compileV1 (\<lambda>_. Inr example_tree) (\<lambda>_. Inr (VMReturn (VInt64 0))) ''v1: token_line'' ''h'' = Inr rule \<and>
     set (ra_RequiredFacts (cr_Analysis rule)) = {''total_input_tokens''} \<and> ast_nodes example_tree \<le> maxASTNodes"
proof -
  let ?c = "compileV1 (\<lambda>_. Inr example_tree) (\<lambda>_. Inr (VMReturn (VInt64 0))) ''v1: token_line'' ''h''"
  have "\<not> isl ?c" by code_simp
  then obtain rule where r: "?c = Inr rule" by (cases ?c) auto
  have "ast_facts example_tree = {''total_input_tokens''}" by (simp add: example_tree_def)
  with r compileV1_closed [OF r] show ?thesis by auto
qed

end
