(* ===== verification/Pricing_Engine.thy ===== *)
theory Pricing_Engine
  imports Pricing_Compile
begin

text \<open>
  The compile cache of \<^verbatim>\<open>backend/internal/pricing/compile.go\<close>: \<^verbatim>\<open>Engine\<close>,
  \<^verbatim>\<open>NewEngine\<close>, \<^verbatim>\<open>Compile\<close> and \<^verbatim>\<open>CompileByHash\<close>.

  \<^verbatim>\<open>CompileByHash\<close> holds the engine's mutex in two sections with the compilation between them,
  and a caller that finds a compilation of its key under way waits for it. A goroutine inside the
  call is a \<open>compile_thread\<close>; \<open>engine_step\<close> runs one section of one of them, so its paths are all
  the interleavings of concurrent calls. List elements and compile calls are pointers in Go: an
  element carries its address, and a call is an index of \<open>eng_calls\<close>.
\<close>

record cacheEntry =
  ce_key :: string
  ce_rule :: CompiledRule

record compileCall =
  call_done :: bool
  call_result :: "(pricing_error + CompiledRule) option"

record Engine =
  eng_capacity :: int
  eng_entries :: "nat gomap"
  eng_lru :: "(nat \<times> cacheEntry) list"
  eng_inflight :: "nat gomap"
  eng_calls :: "compileCall list"
  eng_next :: nat

definition NewEngine :: "int list \<Rightarrow> Engine" where
  "NewEngine capacity =
     \<lparr>eng_capacity = (case capacity of c # _ \<Rightarrow> if c > 0 then c else defaultCacheSize | [] \<Rightarrow> defaultCacheSize),
      eng_entries = [], eng_lru = [], eng_inflight = [], eng_calls = [], eng_next = 0\<rparr>"

datatype compile_thread =
    Calling string string
  | Waiting string string nat
  | Compiling string string nat
  | Returned string string "pricing_error + CompiledRule"

definition cache_key :: "(string \<Rightarrow> string) \<Rightarrow> string \<Rightarrow> string" where
  "cache_key digest source = ''1:'' @ digest source"

text \<open>\<^verbatim>\<open>list.MoveToFront\<close> and reading the value of an element.\<close>

definition move_to_front :: "nat \<Rightarrow> (nat \<times> 'a) list \<Rightarrow> (nat \<times> 'a) list" where
  "move_to_front p l = filter (\<lambda>e. fst e = p) l @ filter (\<lambda>e. fst e \<noteq> p) l"

definition hash_matches :: "(string \<Rightarrow> string) \<Rightarrow> string \<Rightarrow> string \<Rightarrow> bool" where
  "hash_matches digest source expectedHash \<longleftrightarrow> digest source = ToLower (TrimSpace expectedHash)"

text \<open>The first section, up to the compilation.\<close>

definition compile_begin ::
  "(string \<Rightarrow> string) \<Rightarrow> Engine \<Rightarrow> string \<Rightarrow> string \<Rightarrow> Engine \<times> compile_thread" where
  "compile_begin digest e source expectedHash =
     (if \<not> hash_matches digest source expectedHash
      then (e, Returned source expectedHash
                 (Inl (errorf ErrorHashMismatch ''expression hash does not match source'' [])))
      else
        (let key = cache_key digest source in
         case go_get (eng_entries e) key of
           Some element \<Rightarrow>
             (let lru = move_to_front element (eng_lru e) in
              (e\<lparr>eng_lru := lru\<rparr>,
               Returned source expectedHash
                 (case map_of lru element of Some entry \<Rightarrow> Inr (ce_rule entry)
                  | None \<Rightarrow> Inl (errorf ErrorHashMismatch ''dangling element'' []))))
         | None \<Rightarrow>
             (case go_get (eng_inflight e) key of
                Some call \<Rightarrow> (e, Waiting source expectedHash call)
              | None \<Rightarrow>
                  (let call = length (eng_calls e) in
                   (e\<lparr>eng_calls := eng_calls e @ [\<lparr>call_done = False, call_result = None\<rparr>],
                      eng_inflight := go_set key call (eng_inflight e)\<rparr>,
                    Compiling source expectedHash call)))))"

text \<open>The eviction loop.\<close>

function evict :: "Engine \<Rightarrow> Engine" where
  "evict e =
     (if int (length (eng_lru e)) > eng_capacity e \<and> eng_lru e \<noteq> []
      then (let lastEntry = snd (last (eng_lru e)) in
            evict (e\<lparr>eng_entries := go_delete (ce_key lastEntry) (eng_entries e), eng_lru := butlast (eng_lru e)\<rparr>))
      else e)"
  by pat_completeness auto
termination
  by (relation "measure (\<lambda>e. length (eng_lru e))") auto

declare evict.simps [simp del]

text \<open>The second section, after the compilation.\<close>

definition compile_finish ::
  "(string \<Rightarrow> string) \<Rightarrow> Engine \<Rightarrow> string \<Rightarrow> nat \<Rightarrow> pricing_error + CompiledRule \<Rightarrow> Engine" where
  "compile_finish digest e source call result =
     (let key = cache_key digest source;
          e1 = e\<lparr>eng_inflight := go_delete key (eng_inflight e)\<rparr>;
          e2 = (case result of
                  Inl _ \<Rightarrow> e1
                | Inr rule \<Rightarrow>
                    evict (e1\<lparr>eng_lru := (eng_next e1, \<lparr>ce_key = key, ce_rule = rule\<rparr>) # eng_lru e1,
                              eng_entries := go_set key (eng_next e1) (eng_entries e1),
                              eng_next := eng_next e1 + 1\<rparr>))
      in e2\<lparr>eng_calls := (eng_calls e2)[call := \<lparr>call_done = True, call_result = Some result\<rparr>]\<rparr>)"

text \<open>One section of one goroutine.\<close>

inductive engine_step ::
  "(string \<Rightarrow> string + ast_node) \<Rightarrow> (string \<Rightarrow> string + vm_program) \<Rightarrow> (string \<Rightarrow> string) \<Rightarrow>
   Engine \<times> compile_thread list \<Rightarrow> Engine \<times> compile_thread list \<Rightarrow> bool"
  for parse compile digest
where
  step_begin: "i < length ts \<Longrightarrow> ts ! i = Calling s h \<Longrightarrow> compile_begin digest e s h = (e', t) \<Longrightarrow>
    engine_step parse compile digest (e, ts) (e', ts[i := t])"
| step_finish: "i < length ts \<Longrightarrow> ts ! i = Compiling s h c \<Longrightarrow>
    r = compileV1 parse compile s (digest s) \<Longrightarrow>
    engine_step parse compile digest (e, ts) (compile_finish digest e s c r, ts[i := Returned s h r])"
| step_wake: "i < length ts \<Longrightarrow> ts ! i = Waiting s h c \<Longrightarrow> c < length (eng_calls e) \<Longrightarrow>
    call_done (eng_calls e ! c) \<Longrightarrow> call_result (eng_calls e ! c) = Some r \<Longrightarrow>
    engine_step parse compile digest (e, ts) (e, ts[i := Returned s h r])"

inductive_cases engine_stepE: "engine_step parse compile digest (e, ts) (e', ts')"

text \<open>A call that runs alone, the way a sequential caller sees \<^verbatim>\<open>CompileByHash\<close>.\<close>

definition CompileByHash ::
  "(string \<Rightarrow> string + ast_node) \<Rightarrow> (string \<Rightarrow> string + vm_program) \<Rightarrow> (string \<Rightarrow> string) \<Rightarrow>
   Engine \<Rightarrow> string \<Rightarrow> string \<Rightarrow> Engine \<times> compile_thread" where
  "CompileByHash parse compile digest e source expectedHash =
     (case compile_begin digest e source expectedHash of
        (e', Compiling s h c) \<Rightarrow>
          (let r = compileV1 parse compile s (digest s) in (compile_finish digest e' s c r, Returned s h r))
      | (e', t) \<Rightarrow> (e', t))"

definition Compile ::
  "(string \<Rightarrow> string + ast_node) \<Rightarrow> (string \<Rightarrow> string + vm_program) \<Rightarrow> (string \<Rightarrow> string) \<Rightarrow>
   Engine \<Rightarrow> string \<Rightarrow> Engine \<times> compile_thread" where
  "Compile parse compile digest e source = CompileByHash parse compile digest e source (digest source)"

section \<open>The invariant\<close>

text \<open>The specification: what a call must return, whatever the cache holds.\<close>

definition compile_spec ::
  "(string \<Rightarrow> string + ast_node) \<Rightarrow> (string \<Rightarrow> string + vm_program) \<Rightarrow> (string \<Rightarrow> string) \<Rightarrow>
   string \<Rightarrow> string \<Rightarrow> pricing_error + CompiledRule" where
  "compile_spec parse compile digest source expectedHash =
     (if hash_matches digest source expectedHash then compileV1 parse compile source (digest source)
      else Inl (errorf ErrorHashMismatch ''expression hash does not match source'' []))"

text \<open>
  The cache: entries and list elements correspond, keys and addresses are unique, the list does not
  exceed the capacity, an entry holds what compiling its source gives, and no key is both cached
  and under way.
\<close>

definition lru_ok :: "Engine \<Rightarrow> bool" where
  "lru_ok e \<longleftrightarrow>
     distinct (map fst (eng_lru e)) \<and> (\<forall>x \<in> set (eng_lru e). fst x < eng_next e) \<and>
     distinct (map (ce_key \<circ> snd) (eng_lru e)) \<and>
     map_of (eng_entries e) = map_of (map (\<lambda>x. (ce_key (snd x), fst x)) (eng_lru e))"

definition cache_ok where
  "cache_ok parse compile digest S e \<longleftrightarrow>
     lru_ok e \<and> 0 < eng_capacity e \<and> int (length (eng_lru e)) \<le> eng_capacity e \<and>
     (\<forall>x \<in> set (eng_lru e). \<exists>s \<in> S. ce_key (snd x) = cache_key digest s \<and>
        compileV1 parse compile s (digest s) = Inr (ce_rule (snd x))) \<and>
     (\<forall>x \<in> set (eng_lru e). go_get (eng_inflight e) (ce_key (snd x)) = None) \<and>
     (\<forall>k c. go_get (eng_inflight e) k = Some c \<longrightarrow> c < length (eng_calls e) \<and> \<not> call_done (eng_calls e ! c))"

definition thread_ok where
  "thread_ok parse compile digest S e t \<longleftrightarrow>
     (case t of
        Calling s h \<Rightarrow> s \<in> S
      | Waiting s h c \<Rightarrow> s \<in> S \<and> hash_matches digest s h \<and> c < length (eng_calls e) \<and>
          (go_get (eng_inflight e) (cache_key digest s) = Some c \<or>
           call_done (eng_calls e ! c) \<and>
             call_result (eng_calls e ! c) = Some (compileV1 parse compile s (digest s)))
      | Compiling s h c \<Rightarrow> s \<in> S \<and> hash_matches digest s h \<and>
          go_get (eng_inflight e) (cache_key digest s) = Some c
      | Returned s h r \<Rightarrow> s \<in> S \<and> r = compile_spec parse compile digest s h)"

fun compiling_call :: "compile_thread \<Rightarrow> nat option" where
  "compiling_call (Compiling s h c) = Some c"
| "compiling_call _ = None"

definition engine_inv where
  "engine_inv parse compile digest S st \<longleftrightarrow>
     (case st of (e, ts) \<Rightarrow>
        cache_ok parse compile digest S e \<and> (\<forall>t \<in> set ts. thread_ok parse compile digest S e t) \<and>
        (\<forall>i < length ts. \<forall>j < length ts. i \<noteq> j \<longrightarrow> compiling_call (ts ! i) \<noteq> None \<longrightarrow>
           compiling_call (ts ! i) \<noteq> compiling_call (ts ! j)) \<and>
        (\<forall>k c. go_get (eng_inflight e) k = Some c \<longrightarrow> (\<exists>s h. Compiling s h c \<in> set ts \<and> cache_key digest s = k)))"

section \<open>Lists with move-to-front and eviction\<close>

lemma set_move_to_front [simp]: "set (move_to_front p l) = set l"
  by (auto simp: move_to_front_def)

lemma mset_move_to_front: "mset (move_to_front p l) = mset l"
  by (simp add: move_to_front_def)

lemma length_move_to_front [simp]: "length (move_to_front p l) = length l"
  by (metis mset_move_to_front size_mset)

lemma map_of_mset:
  assumes "mset xs = mset ys" "distinct (map fst ys)"
  shows "map_of xs = map_of ys"
  using assms distinct_map_mset [OF assms(1), of fst]
  by (intro map_of_inject_set [THEN iffD2]) (auto dest: mset_eq_setD)

lemma map_of_lru_None:
  "map_of (map (\<lambda>x. (ce_key (snd x), fst x)) l) k = None \<longleftrightarrow> (\<forall>x \<in> set l. ce_key (snd x) \<noteq> k)"
  by (induction l) auto

lemma lru_ok_move:
  assumes "lru_ok e"
  shows "lru_ok (e\<lparr>eng_lru := move_to_front p (eng_lru e)\<rparr>)"
proof -
  let ?l = "eng_lru e" and ?m = "move_to_front p (eng_lru e)"
  have m: "mset ?m = mset ?l" by (rule mset_move_to_front)
  have "map_of (map (\<lambda>x. (ce_key (snd x), fst x)) ?m) = map_of (map (\<lambda>x. (ce_key (snd x), fst x)) ?l)"
    using assms m by (intro map_of_mset) (auto simp: lru_ok_def comp_def)
  then show ?thesis
    using assms distinct_map_mset [OF m, of fst] distinct_map_mset [OF m, of "ce_key \<circ> snd"]
    by (simp add: lru_ok_def)
qed

text \<open>One turn of the eviction loop keeps the correspondence of entries and elements.\<close>

lemma lru_ok_drop_last:
  assumes "lru_ok e" "eng_lru e = xs @ [x]"
  shows "lru_ok (e\<lparr>eng_entries := go_delete (ce_key (snd x)) (eng_entries e), eng_lru := xs\<rparr>)"
proof -
  let ?f = "\<lambda>x. (ce_key (snd x), fst x)"
  have k: "map_of (map ?f xs) (ce_key (snd x)) = None"
    using assms by (auto simp: lru_ok_def map_of_lru_None image_iff)
  then have "map_of (map ?f xs @ [?f x]) |` (- {ce_key (snd x)}) = map_of (map ?f xs)"
    by (auto simp: fun_eq_iff restrict_map_def map_add_def split: option.splits)
  then show ?thesis
    using assms by (auto simp: lru_ok_def AList.delete_conv' restrict_complement_singleton_eq)
qed

lemma evict_frame [simp]:
  "eng_capacity (evict e) = eng_capacity e" "eng_inflight (evict e) = eng_inflight e"
  "eng_calls (evict e) = eng_calls e" "eng_next (evict e) = eng_next e"
  by (induction e rule: evict.induct; subst evict.simps; auto simp: Let_def split: prod.splits)+

lemma evict_lru: "set (eng_lru (evict e)) \<subseteq> set (eng_lru e)"
proof (induction e rule: evict.induct)
  case (1 e)
  then show ?case
    by (subst evict.simps) (auto simp: Let_def dest!: subsetD in_set_butlastD)
qed

lemma evict_capacity: "0 \<le> eng_capacity e \<Longrightarrow> int (length (eng_lru (evict e))) \<le> eng_capacity e"
proof (induction e rule: evict.induct)
  case (1 e)
  then show ?case by (subst evict.simps) (auto simp: Let_def split: prod.splits)
qed

lemma evict_lru_ok: "lru_ok e \<Longrightarrow> lru_ok (evict e)"
proof (induction e rule: evict.induct)
  case (1 e)
  show ?case
  proof (cases "int (length (eng_lru e)) > eng_capacity e \<and> eng_lru e \<noteq> []")
    case True
    then have "eng_lru e = butlast (eng_lru e) @ [last (eng_lru e)]" by simp
    from lru_ok_drop_last [OF "1.prems" this] "1.IH" [OF True refl] True show ?thesis
      by (subst evict.simps) (auto simp: Let_def split: prod.splits)
  next
    case False
    with "1.prems" show ?thesis by (subst evict.simps) auto
  qed
qed

lemma evict_id: "int (length (eng_lru e)) \<le> eng_capacity e \<Longrightarrow> evict e = e"
  by (subst evict.simps) auto

section \<open>Every section keeps the invariant\<close>

lemma lru_ok_push:
  assumes "lru_ok e" "go_get (eng_entries e) k = None"
  shows "lru_ok (e\<lparr>eng_lru := (eng_next e, \<lparr>ce_key = k, ce_rule = r\<rparr>) # eng_lru e,
    eng_entries := go_set k (eng_next e) (eng_entries e), eng_next := eng_next e + 1\<rparr>)"
proof -
  have "k \<notin> set (map (ce_key \<circ> snd) (eng_lru e))"
    using assms by (auto simp: lru_ok_def map_of_lru_None)
  then show ?thesis
    using assms by (fastforce simp: lru_ok_def update_conv')
qed

lemma lru_ok_lookup:
  assumes "lru_ok e" "go_get (eng_entries e) k = Some p"
  shows "\<exists>x. (p, x) \<in> set (eng_lru e) \<and> ce_key x = k \<and> map_of (move_to_front p (eng_lru e)) p = Some x"
proof -
  obtain x where x: "(p, x) \<in> set (eng_lru e)" "ce_key x = k"
    using assms by (auto simp: lru_ok_def dest!: map_of_SomeD)
  have "distinct (map fst (move_to_front p (eng_lru e)))"
    using assms distinct_map_mset [OF mset_move_to_front] by (auto simp: lru_ok_def)
  with x show ?thesis by (auto intro!: exI [of _ x])
qed

lemma inj_on_cache_key: "inj_on digest S \<Longrightarrow> s \<in> S \<Longrightarrow> t \<in> S \<Longrightarrow> cache_key digest s = cache_key digest t \<Longrightarrow> s = t"
  by (auto simp: cache_key_def dest: inj_onD)

lemma engine_inv_inflight:
  "engine_inv parse compile digest S (e, ts) \<Longrightarrow> go_get (eng_inflight e) k = Some c \<Longrightarrow>
   \<exists>s h. Compiling s h c \<in> set ts \<and> cache_key digest s = k"
  by (simp add: engine_inv_def)

text \<open>A thread that changes alone, and a change of the list alone.\<close>

lemma engine_inv_thread:
  assumes inv: "engine_inv parse compile digest S (e, ts)" and i: "i < length ts"
    and t: "thread_ok parse compile digest S e t" and none: "compiling_call (ts ! i) = None" "compiling_call t = None"
  shows "engine_inv parse compile digest S (e, ts[i := t])"
proof -
  have "Compiling s h c \<in> set (ts[i := t])" if "Compiling s h c \<in> set ts" for s h c
    using that none(1)
    by (metis compiling_call.simps(1) in_set_conv_nth length_list_update nth_list_update_neq option.distinct(1))
  moreover have "\<forall>u \<in> set (ts[i := t]). thread_ok parse compile digest S e u"
    using inv t set_update_subset_insert [of ts i t] by (auto simp: engine_inv_def)
  moreover have "compiling_call (ts[i := t] ! k) \<noteq> compiling_call (ts[i := t] ! j)"
    if "k < length ts" "j < length ts" "k \<noteq> j" "compiling_call (ts[i := t] ! k) \<noteq> None" for k j
    using that inv none i by (auto simp: engine_inv_def nth_list_update split: if_splits)
  ultimately show ?thesis
    using inv engine_inv_inflight [OF inv] unfolding engine_inv_def by (simp del: not_None_eq) blast
qed

lemma thread_ok_frame:
  "eng_inflight e' = eng_inflight e \<Longrightarrow> eng_calls e' = eng_calls e \<Longrightarrow>
   thread_ok parse compile digest S e' t = thread_ok parse compile digest S e t"
  by (cases t) (simp_all add: thread_ok_def)

lemma engine_inv_cache:
  assumes "engine_inv parse compile digest S (e, ts)" "cache_ok parse compile digest S e'"
    and "eng_inflight e' = eng_inflight e" "eng_calls e' = eng_calls e"
  shows "engine_inv parse compile digest S (e', ts)"
  using assms thread_ok_frame [OF assms(3,4)] by (simp add: engine_inv_def)

lemma engine_inv_hit:
  assumes inv: "engine_inv parse compile digest S (e, ts)" and inj: "inj_on digest S"
    and i: "i < length ts" "ts ! i = Calling s h" and hm: "hash_matches digest s h"
    and g: "go_get (eng_entries e) (cache_key digest s) = Some p"
    and st: "compile_begin digest e s h = (e', t)"
  shows "engine_inv parse compile digest S (e', ts[i := t])"
proof -
  have c: "cache_ok parse compile digest S e" and s: "s \<in> S"
    using inv i nth_mem [OF i(1)] by (fastforce simp: engine_inv_def thread_ok_def)+
  obtain x where x: "(p, x) \<in> set (eng_lru e)" "ce_key x = cache_key digest s"
      "map_of (move_to_front p (eng_lru e)) p = Some x"
    using lru_ok_lookup [OF _ g] c by (auto simp: cache_ok_def)
  then obtain u where "u \<in> S" "ce_key x = cache_key digest u" "compileV1 parse compile u (digest u) = Inr (ce_rule x)"
    using c by (fastforce simp: cache_ok_def)
  then have r: "compileV1 parse compile s (digest s) = Inr (ce_rule x)"
    using inj_on_cache_key [OF inj s] x(2) by fastforce
  have e': "e' = e\<lparr>eng_lru := move_to_front p (eng_lru e)\<rparr>" and t: "t = Returned s h (Inr (ce_rule x))"
    using st hm g x(3) by (auto simp: compile_begin_def Let_def)
  have "cache_ok parse compile digest S e'"
    using c lru_ok_move by (auto simp: cache_ok_def e')
  then have "engine_inv parse compile digest S (e', ts)"
    by (rule engine_inv_cache [OF inv]) (simp_all add: e')
  then show ?thesis
    by (rule engine_inv_thread [OF _ i(1)]) (use i s r hm in \<open>simp_all add: t thread_ok_def compile_spec_def\<close>)
qed

lemma engine_inv_start:
  assumes inv: "engine_inv parse compile digest S (e, ts)" and inj: "inj_on digest S"
    and i: "i < length ts" "ts ! i = Calling s h" and hm: "hash_matches digest s h"
    and g: "go_get (eng_entries e) (cache_key digest s) = None"
    and f: "go_get (eng_inflight e) (cache_key digest s) = None"
    and st: "compile_begin digest e s h = (e', t)"
  shows "engine_inv parse compile digest S (e', ts[i := t])"
proof -
  let ?k = "cache_key digest s" and ?c = "length (eng_calls e)"
  have c: "cache_ok parse compile digest S e" and s: "s \<in> S"
    and th: "\<And>u. u \<in> set ts \<Longrightarrow> thread_ok parse compile digest S e u"
    using inv i nth_mem [OF i(1)] by (fastforce simp: engine_inv_def thread_ok_def)+
  have e': "e' = e\<lparr>eng_calls := eng_calls e @ [\<lparr>call_done = False, call_result = None\<rparr>],
      eng_inflight := go_set ?k ?c (eng_inflight e)\<rparr>" and t: "t = Compiling s h ?c"
    using st hm g f by (auto simp: compile_begin_def Let_def)
  have nk: "\<forall>x \<in> set (eng_lru e). ce_key (snd x) \<noteq> ?k"
    using c g by (auto simp: cache_ok_def lru_ok_def map_of_lru_None)
  have 1: "cache_ok parse compile digest S e'"
    using c nk by (auto simp: cache_ok_def e' lru_ok_def update_conv' nth_append less_Suc_eq split: if_splits)
  have old: "compiling_call u \<noteq> Some ?c" if "u \<in> set ts" for u
    using th [OF that] c by (cases u) (auto simp: thread_ok_def cache_ok_def)
  have keep: "thread_ok parse compile digest S e' u" if "u \<in> set ts" for u
    using th [OF that] f c by (cases u) (auto simp: thread_ok_def cache_ok_def e' update_conv' nth_append)
  have "thread_ok parse compile digest S e' t"
    using s hm by (simp add: thread_ok_def t e' update_conv')
  with keep have 2: "\<forall>u \<in> set (ts[i := t]). thread_ok parse compile digest S e' u"
    using set_update_subset_insert [of ts i t] by auto
  have 3: "\<exists>s h. Compiling s h d \<in> set (ts[i := t]) \<and> cache_key digest s = k"
    if "go_get (eng_inflight e') k = Some d" for k d
  proof (cases "k = ?k")
    case True
    with that show ?thesis using i by (auto simp: e' t update_conv' intro!: exI set_update_memI)
  next
    case False
    with that have "go_get (eng_inflight e) k = Some d" by (simp add: e' update_conv')
    then obtain s' h' where "Compiling s' h' d \<in> set ts" "cache_key digest s' = k"
      using engine_inv_inflight [OF inv] by blast
    with i show ?thesis
      by (metis compile_thread.distinct(3) in_set_conv_nth length_list_update nth_list_update_neq)
  qed
  have "Some ?c \<noteq> compiling_call (ts ! j)" "compiling_call (ts ! j) \<noteq> Some ?c" if "j < length ts" for j
    using old [OF nth_mem [OF that]] by auto
  with 1 2 3 inv i show ?thesis
    by (auto simp: engine_inv_def t nth_list_update)
qed

lemma engine_inv_begin:
  assumes inv: "engine_inv parse compile digest S (e, ts)" and inj: "inj_on digest S"
    and i: "i < length ts" "ts ! i = Calling s h" and st: "compile_begin digest e s h = (e', t)"
  shows "engine_inv parse compile digest S (e', ts[i := t])"
proof -
  have s: "s \<in> S" using inv i nth_mem [OF i(1)] by (fastforce simp: engine_inv_def thread_ok_def)
  consider (bad) "\<not> hash_matches digest s h"
    | (hit) p where "hash_matches digest s h" "go_get (eng_entries e) (cache_key digest s) = Some p"
    | (wait) c where "hash_matches digest s h" "go_get (eng_entries e) (cache_key digest s) = None"
        "go_get (eng_inflight e) (cache_key digest s) = Some c"
    | (start) "hash_matches digest s h" "go_get (eng_entries e) (cache_key digest s) = None"
        "go_get (eng_inflight e) (cache_key digest s) = None"
    by fastforce
  then show ?thesis
  proof cases
    case bad
    with st have "e' = e" "thread_ok parse compile digest S e t" "compiling_call t = None"
      using s by (auto simp: compile_begin_def thread_ok_def compile_spec_def)
    with inv i show ?thesis using engine_inv_thread by simp
  next
    case hit
    with assms show ?thesis using engine_inv_hit by blast
  next
    case wait
    with st have "e' = e" "t = Waiting s h c" by (auto simp: compile_begin_def Let_def)
    moreover have "c < length (eng_calls e)" using inv wait by (auto simp: engine_inv_def cache_ok_def)
    ultimately show ?thesis
      using engine_inv_thread [OF inv i(1), of t] i s wait by (simp add: thread_ok_def)
  next
    case start
    with assms show ?thesis using engine_inv_start by blast
  qed
qed

lemma cache_ok_finish:
  assumes ca: "cache_ok parse compile digest S e" and s: "s \<in> S"
    and f: "go_get (eng_inflight e) (cache_key digest s) = Some c"
    and nk: "\<forall>x \<in> set (eng_lru e). ce_key (snd x) \<noteq> cache_key digest s"
    and r: "r = compileV1 parse compile s (digest s)"
    and other: "\<And>k d. go_get (eng_inflight e) k = Some d \<Longrightarrow> k \<noteq> cache_key digest s \<Longrightarrow> d \<noteq> c"
  shows "cache_ok parse compile digest S (compile_finish digest e s c r)"
proof -
  let ?k = "cache_key digest s" and ?e1 = "e\<lparr>eng_inflight := go_delete (cache_key digest s) (eng_inflight e)\<rparr>"
  have calls: "\<not> call_done (((eng_calls e)[c := v]) ! d) \<and> d < length (eng_calls e)"
    if "go_get (go_delete ?k (eng_inflight e)) k = Some d" for k d v
    using that other [of k d] ca by (auto simp: cache_ok_def AList.delete_conv' split: if_splits)
  show ?thesis
  proof (cases r)
    case (Inl a)
    then show ?thesis
      using ca calls by (auto simp: cache_ok_def lru_ok_def compile_finish_def Let_def AList.delete_conv')
  next
    case (Inr rule)
    let ?e2 = "?e1\<lparr>eng_lru := (eng_next e, \<lparr>ce_key = ?k, ce_rule = rule\<rparr>) # eng_lru e,
                   eng_entries := go_set ?k (eng_next e) (eng_entries e), eng_next := eng_next e + 1\<rparr>"
    have "go_get (eng_entries e) ?k = None"
      using ca nk by (auto simp: cache_ok_def lru_ok_def map_of_lru_None)
    then have "lru_ok ?e2" using ca lru_ok_push [of ?e1 ?k rule] by (simp add: cache_ok_def lru_ok_def)
    then have ok: "lru_ok (evict ?e2)" by (rule evict_lru_ok)
    have old: "x = (eng_next e, \<lparr>ce_key = ?k, ce_rule = rule\<rparr>) \<or> x \<in> set (eng_lru e)"
      if "x \<in> set (eng_lru (evict ?e2))" for x
      using that evict_lru [of ?e2] by auto
    have len: "int (length (eng_lru (evict ?e2))) \<le> eng_capacity e"
      using evict_capacity [of ?e2] ca by (simp add: cache_ok_def)
    have src: "\<exists>s \<in> S. ce_key (snd x) = cache_key digest s \<and> compileV1 parse compile s (digest s) = Inr (ce_rule (snd x))"
      "go_get (go_delete ?k (eng_inflight e)) (ce_key (snd x)) = None" if "x \<in> set (eng_lru (evict ?e2))" for x
      using old [OF that] ca s r Inr by (auto simp: cache_ok_def AList.delete_conv')
    have fin: "compile_finish digest e s c r =
      (evict ?e2)\<lparr>eng_calls := (eng_calls e)[c := \<lparr>call_done = True, call_result = Some r\<rparr>]\<rparr>"
      by (simp add: compile_finish_def Let_def Inr)
    have "0 < eng_capacity e" using ca by (simp add: cache_ok_def)
    then show ?thesis
      unfolding cache_ok_def fin using ok len src calls by (simp add: lru_ok_def)
  qed
qed

lemma engine_inv_finish:
  assumes inv: "engine_inv parse compile digest S (e, ts)" and inj: "inj_on digest S"
    and i: "i < length ts" "ts ! i = Compiling s h c" and r: "r = compileV1 parse compile s (digest s)"
  shows "engine_inv parse compile digest S (compile_finish digest e s c r, ts[i := Returned s h r])"
proof -
  let ?k = "cache_key digest s" and ?e' = "compile_finish digest e s c r"
  let ?ts = "ts[i := Returned s h r]"
  have ca: "cache_ok parse compile digest S e"
    and th: "\<And>u. u \<in> set ts \<Longrightarrow> thread_ok parse compile digest S e u"
    using inv by (simp_all add: engine_inv_def)
  have s: "s \<in> S" "hash_matches digest s h" and f: "go_get (eng_inflight e) ?k = Some c"
    using th [OF nth_mem [OF i(1)]] i by (simp_all add: thread_ok_def)
  have c: "c < length (eng_calls e)" "\<not> call_done (eng_calls e ! c)"
    using ca f by (auto simp: cache_ok_def)
  have unique: "j = i" if "j < length ts" "ts ! j = Compiling s' h' c" for j s' h'
    using inv that i by (fastforce simp: engine_inv_def)
  have nk: "\<forall>x \<in> set (eng_lru e). ce_key (snd x) \<noteq> ?k"
    using ca f by (fastforce simp: cache_ok_def)
  have infl: "eng_inflight ?e' = go_delete ?k (eng_inflight e)"
    and calls: "eng_calls ?e' = (eng_calls e)[c := \<lparr>call_done = True, call_result = Some r\<rparr>]"
    by (auto simp: compile_finish_def Let_def split: sum.splits)
  have other: "d \<noteq> c" if "go_get (eng_inflight e) k = Some d" "k \<noteq> ?k" for k d
    using engine_inv_inflight [OF inv that(1)] that(2) unique i by (fastforce simp: in_set_conv_nth)
  have 1: "cache_ok parse compile digest S ?e'"
    using cache_ok_finish [OF ca s(1) f nk r] other by simp
  have 2: "thread_ok parse compile digest S ?e' (ts ! j)" if j: "j < length ts" "j \<noteq> i" for j
  proof -
    have "thread_ok parse compile digest S e (ts ! j)" using th j by simp
    then show ?thesis
      using other c unique [OF j(1)] j(2) s(1)
      by (cases "ts ! j") (auto dest: inj_on_cache_key [OF inj _ s(1)] simp: thread_ok_def infl calls AList.delete_conv' nth_list_update f r [symmetric])
  qed
  have 3: "\<exists>s' h'. Compiling s' h' d \<in> set ?ts \<and> cache_key digest s' = k"
    if "go_get (eng_inflight ?e') k = Some d" for k d
  proof -
    have k: "k \<noteq> ?k" "go_get (eng_inflight e) k = Some d"
      using that by (auto simp: infl AList.delete_conv' split: if_splits)
    then obtain s' h' where "Compiling s' h' d \<in> set ts" "cache_key digest s' = k"
      using engine_inv_inflight [OF inv] by blast
    with k(1) i show ?thesis
      by (metis compile_thread.inject(3) in_set_conv_nth length_list_update nth_list_update_neq)
  qed
  have "thread_ok parse compile digest S ?e' (Returned s h r)"
    using s r by (simp add: thread_ok_def compile_spec_def)
  with 2 have "\<forall>u \<in> set ?ts. thread_ok parse compile digest S ?e' u"
    by (auto simp: in_set_conv_nth nth_list_update i)
  with 1 3 inv show ?thesis by (auto simp: engine_inv_def nth_list_update i)
qed

section \<open>Concurrent calls\<close>

lemma engine_inv_step:
  assumes "engine_step parse compile digest st st'" "inj_on digest S" "engine_inv parse compile digest S st"
  shows "engine_inv parse compile digest S st'"
  using assms
proof (induction rule: engine_step.induct)
  case (step_wake i ts s h c e r)
  have w: "thread_ok parse compile digest S e (Waiting s h c)"
    using step_wake nth_mem [of i ts] by (auto simp: engine_inv_def)
  have "thread_ok parse compile digest S e (Returned s h r)"
    using w step_wake by (auto simp: thread_ok_def compile_spec_def engine_inv_def cache_ok_def)
  with step_wake show ?case using engine_inv_thread [of parse compile digest S e ts i "Returned s h r"] by simp
qed (auto intro: engine_inv_begin engine_inv_finish)

lemma engine_inv_steps:
  "(engine_step parse compile digest)\<^sup>*\<^sup>* st st' \<Longrightarrow> inj_on digest S \<Longrightarrow>
   engine_inv parse compile digest S st \<Longrightarrow> engine_inv parse compile digest S st'"
  by (induction rule: rtranclp_induct) (auto intro: engine_inv_step)

definition start_threads :: "(string \<times> string) list \<Rightarrow> compile_thread list" where
  "start_threads requests = map (\<lambda>q. Calling (fst q) (snd q)) requests"

lemma engine_inv_start_threads:
  "engine_inv parse compile digest (fst ` set requests) (NewEngine capacity, start_threads requests)"
  by (auto simp: engine_inv_def NewEngine_def start_threads_def cache_ok_def lru_ok_def thread_ok_def
      split: list.splits)

text \<open>No goroutine changes which request it serves.\<close>

fun thread_request :: "compile_thread \<Rightarrow> string \<times> string" where
  "thread_request (Calling s h) = (s, h)"
| "thread_request (Waiting s h c) = (s, h)"
| "thread_request (Compiling s h c) = (s, h)"
| "thread_request (Returned s h r) = (s, h)"

lemma compile_begin_request: "compile_begin digest e s h = (e', t) \<Longrightarrow> thread_request t = (s, h)"
  by (auto simp: compile_begin_def Let_def split: if_splits option.splits)

lemma engine_step_requests:
  "engine_step parse compile digest st st' \<Longrightarrow> map thread_request (snd st') = map thread_request (snd st)"
  by (induction rule: engine_step.induct)
    (auto intro!: nth_equalityI simp: nth_list_update compile_begin_request)

lemma engine_steps_requests:
  "(engine_step parse compile digest)\<^sup>*\<^sup>* st st' \<Longrightarrow> map thread_request (snd st') = map thread_request (snd st)"
  by (induction rule: rtranclp_induct) (auto dest: engine_step_requests)

text \<open>
  C25: the cache is transparent under concurrency. Whatever requests run at the same time, in
  whatever interleaving, from an empty engine: a call that has returned has the result of compiling
  its own source (or the hash mismatch error), as if there were no cache, and the cache never holds
  more rules than its capacity. The digest has to be free of collisions on the sources requested.
\<close>

theorem CompileByHash_transparent:
  assumes "inj_on digest (fst ` set requests)"
    and "(engine_step parse compile digest)\<^sup>*\<^sup>* (NewEngine capacity, start_threads requests) (e, ts)"
    and "i < length ts" "ts ! i = Returned s h r"
  shows "requests ! i = (s, h) \<and> r = compile_spec parse compile digest s h \<and>
    int (length (eng_lru e)) \<le> eng_capacity e"
proof -
  have inv: "engine_inv parse compile digest (fst ` set requests) (e, ts)"
    by (rule engine_inv_steps [OF assms(2,1) engine_inv_start_threads])
  then have "r = compile_spec parse compile digest s h" "int (length (eng_lru e)) \<le> eng_capacity e"
    using assms(3,4) nth_mem [OF assms(3)] by (fastforce simp: engine_inv_def thread_ok_def cache_ok_def)+
  moreover have eq: "map thread_request ts = requests"
    using engine_steps_requests [OF assms(2)] by (simp add: start_threads_def comp_def split_def)
  then have "requests ! i = (s, h)" using assms(3,4) nth_map [of i ts thread_request] by simp
  ultimately show ?thesis by simp
qed

text \<open>Two calls for the same source: the first compiles, the second waits for it.\<close>

definition example_requests :: "(string \<times> string) list" where
  "example_requests = [(''v1:1'', ''v1:1''), (''v1:1'', ''v1:1 '')]"

abbreviation (input) example_parse :: "string \<Rightarrow> string + ast_node" where
  "example_parse \<equiv> \<lambda>_. Inr (IntegerNode 1)"

abbreviation (input) example_compile :: "string \<Rightarrow> string + vm_program" where
  "example_compile \<equiv> \<lambda>_. Inr (VMReturn (VInt64 1))"

lemma example_hash: "hash_matches id ''v1:1'' ''v1:1''" "hash_matches id ''v1:1'' ''v1:1 ''"
  by code_simp+

lemma example_begin:
  "compile_begin id (NewEngine [1]) ''v1:1'' ''v1:1'' =
     ((NewEngine [1])\<lparr>eng_calls := [\<lparr>call_done = False, call_result = None\<rparr>], eng_inflight := [(''1:v1:1'', 0)]\<rparr>,
      Compiling ''v1:1'' ''v1:1'' 0)"
  using example_hash by (simp add: compile_begin_def NewEngine_def cache_key_def)

lemma example_join:
  "compile_begin id
     ((NewEngine [1])\<lparr>eng_calls := [\<lparr>call_done = False, call_result = None\<rparr>], eng_inflight := [(''1:v1:1'', 0)]\<rparr>)
     ''v1:1'' ''v1:1 '' =
   ((NewEngine [1])\<lparr>eng_calls := [\<lparr>call_done = False, call_result = None\<rparr>], eng_inflight := [(''1:v1:1'', 0)]\<rparr>,
      Waiting ''v1:1'' ''v1:1 '' 0)"
  using example_hash by (simp add: compile_begin_def NewEngine_def cache_key_def)

lemma relpowp_4: "P a b \<Longrightarrow> P b c \<Longrightarrow> P c d \<Longrightarrow> P d e \<Longrightarrow> (P ^^ 4) a e"
  by (simp add: numeral_eq_Suc relcompp_apply) blast

lemma example_run:
  "\<exists>e r. (engine_step example_parse example_compile id ^^ 4)
     (NewEngine [1], start_threads example_requests)
     (e, [Returned ''v1:1'' ''v1:1'' r, Returned ''v1:1'' ''v1:1 '' r])"
proof -
  let ?st = "engine_step example_parse example_compile id"
  let ?e1 = "(NewEngine [1])\<lparr>eng_calls := [\<lparr>call_done = False, call_result = None\<rparr>], eng_inflight := [(''1:v1:1'', 0)]\<rparr>"
  let ?r = "compileV1 example_parse example_compile ''v1:1'' (id ''v1:1'')"
  let ?e2 = "compile_finish id ?e1 ''v1:1'' 0 ?r"
  have 1: "?st (NewEngine [1], start_threads example_requests)
      (?e1, [Compiling ''v1:1'' ''v1:1'' 0, Calling ''v1:1'' ''v1:1 ''])"
    using step_begin [of 0 "start_threads example_requests" "''v1:1''" "''v1:1''", OF _ _ example_begin]
    by (simp add: start_threads_def example_requests_def)
  have 2: "?st (?e1, [Compiling ''v1:1'' ''v1:1'' 0, Calling ''v1:1'' ''v1:1 ''])
      (?e1, [Compiling ''v1:1'' ''v1:1'' 0, Waiting ''v1:1'' ''v1:1 '' 0])"
    using step_begin [of 1 "[Compiling ''v1:1'' ''v1:1'' 0, Calling ''v1:1'' ''v1:1 '']" "''v1:1''" "''v1:1 ''", OF _ _ example_join]
    by simp
  have 3: "?st (?e1, [Compiling ''v1:1'' ''v1:1'' 0, Waiting ''v1:1'' ''v1:1 '' 0])
      (?e2, [Returned ''v1:1'' ''v1:1'' ?r, Waiting ''v1:1'' ''v1:1 '' 0])"
    using step_finish [of 0 "[Compiling ''v1:1'' ''v1:1'' 0, Waiting ''v1:1'' ''v1:1 '' 0]" "''v1:1''" "''v1:1''" 0, OF _ _ refl,
        of example_parse example_compile id ?e1]
    by simp
  have "eng_calls ?e2 = [\<lparr>call_done = True, call_result = Some ?r\<rparr>]"
    by (auto simp: compile_finish_def Let_def split: sum.splits)
  then have 4: "?st (?e2, [Returned ''v1:1'' ''v1:1'' ?r, Waiting ''v1:1'' ''v1:1 '' 0])
      (?e2, [Returned ''v1:1'' ''v1:1'' ?r, Returned ''v1:1'' ''v1:1 '' ?r])"
    using step_wake [of 1 "[Returned ''v1:1'' ''v1:1'' ?r, Waiting ''v1:1'' ''v1:1 '' 0]" "''v1:1''" "''v1:1 ''" 0 ?e2 ?r]
    by simp
  show ?thesis using relpowp_4 [of ?st, OF 1 2 3 4] by blast
qed

theorem CompileByHash_transparent_witness:
  "\<exists>e r. (engine_step example_parse example_compile id)\<^sup>*\<^sup>*
       (NewEngine [1], start_threads example_requests)
       (e, [Returned ''v1:1'' ''v1:1'' r, Returned ''v1:1'' ''v1:1 '' r]) \<and>
     r = compile_spec example_parse example_compile id ''v1:1'' ''v1:1 ''"
proof -
  obtain e r where run: "(engine_step example_parse example_compile id ^^ 4)
       (NewEngine [1], start_threads example_requests)
       (e, [Returned ''v1:1'' ''v1:1'' r, Returned ''v1:1'' ''v1:1 '' r])"
    using example_run by blast
  have "inj_on id (fst ` set example_requests)" by simp
  from CompileByHash_transparent [OF this relpowp_imp_rtranclp [OF run], of 1 "''v1:1''" "''v1:1 ''" r]
    relpowp_imp_rtranclp [OF run]
  show ?thesis by auto
qed

text \<open>Sections left to run; every step runs one, and some step is possible while a call has not returned.\<close>

fun sections_left :: "compile_thread \<Rightarrow> nat" where
  "sections_left (Calling s h) = 2"
| "sections_left (Waiting s h c) = 1"
| "sections_left (Compiling s h c) = 1"
| "sections_left (Returned s h r) = 0"

lemma sum_list_update_less:
  "i < length ts \<Longrightarrow> f t < f (ts ! i) \<Longrightarrow> sum_list (map f (ts[i := t])) < (sum_list (map f ts) :: nat)"
  by (induction ts arbitrary: i) (auto split: nat.splits)

lemma compile_begin_sections: "compile_begin digest e s h = (e', t) \<Longrightarrow> sections_left t < 2"
  by (auto simp: compile_begin_def Let_def split: if_splits option.splits)

lemma engine_step_decreases:
  "engine_step parse compile digest st st' \<Longrightarrow>
   sum_list (map sections_left (snd st')) < sum_list (map sections_left (snd st))"
  by (induction rule: engine_step.induct) (auto intro!: sum_list_update_less simp: compile_begin_sections)

lemma engine_steps_bound:
  "(engine_step parse compile digest ^^ n) st st' \<Longrightarrow>
   n + sum_list (map sections_left (snd st')) \<le> sum_list (map sections_left (snd st))"
proof (induction n arbitrary: st')
  case (Suc n)
  then obtain u where "(engine_step parse compile digest ^^ n) st u" "engine_step parse compile digest u st'"
    by (auto elim: relpowp_Suc_E)
  with Suc.IH show ?case using engine_step_decreases by fastforce
qed simp

lemma engine_not_stuck:
  assumes inv: "engine_inv parse compile digest S (e, ts)" and t: "t \<in> set ts" "sections_left t \<noteq> 0"
  shows "\<exists>st'. engine_step parse compile digest (e, ts) st'"
proof -
  have fin: ?thesis if u: "Compiling s h c \<in> set ts" for s h c
  proof -
    obtain j where j: "j < length ts" "ts ! j = Compiling s h c" using u by (auto simp: in_set_conv_nth)
    show ?thesis using step_finish [OF j refl, of parse compile digest e] by blast
  qed
  obtain i where i: "i < length ts" "ts ! i = t" using t by (auto simp: in_set_conv_nth)
  show ?thesis
  proof (cases t)
    case (Calling s h)
    obtain e' u where "compile_begin digest e s h = (e', u)" by fastforce
    with i Calling show ?thesis using step_begin by blast
  next
    case (Waiting s h c)
    have ok: "thread_ok parse compile digest S e t" using inv t by (simp add: engine_inv_def)
    show ?thesis
    proof (cases "go_get (eng_inflight e) (cache_key digest s) = Some c")
      case True
      with engine_inv_inflight [OF inv] fin show ?thesis by blast
    next
      case False
      with ok Waiting have "c < length (eng_calls e)" "call_done (eng_calls e ! c)"
        "call_result (eng_calls e ! c) = Some (compileV1 parse compile s (digest s))"
        by (simp_all add: thread_ok_def)
      with i Waiting show ?thesis using step_wake by blast
    qed
  qed (use t fin in auto)
qed

lemma engine_completes:
  assumes inj: "inj_on digest S" and inv: "engine_inv parse compile digest S st"
  shows "\<exists>e ts. (engine_step parse compile digest)\<^sup>*\<^sup>* st (e, ts) \<and> (\<forall>t \<in> set ts. sections_left t = 0)"
  using inv
proof (induction "sum_list (map sections_left (snd st))" arbitrary: st rule: less_induct)
  case less
  obtain e ts where st: "st = (e, ts)" by fastforce
  show ?case
  proof (cases "\<forall>t \<in> set ts. sections_left t = 0")
    case True
    then show ?thesis unfolding st by blast
  next
    case False
    then obtain st' where step: "engine_step parse compile digest st st'"
      using engine_not_stuck less.prems unfolding st by blast
    from less.hyps [OF engine_step_decreases [OF step] engine_inv_step [OF step inj less.prems]] step
    show ?thesis by (meson converse_rtranclp_into_rtranclp)
  qed
qed

text \<open>
  C30: single-flight compilation does not deadlock. From every state concurrent calls can reach, all
  of them can run to their end, and no schedule of \<open>n\<close> calls has more than \<open>2 n\<close> sections, so every
  schedule that keeps running enabled calls ends with every call returned.
\<close>

theorem CompileByHash_completes:
  assumes "inj_on digest (fst ` set requests)"
    and "(engine_step parse compile digest ^^ n) (NewEngine capacity, start_threads requests) st"
  shows "n \<le> 2 * length requests \<and>
    (\<exists>e ts. (engine_step parse compile digest)\<^sup>*\<^sup>* st (e, ts) \<and> length ts = length requests \<and>
       (\<forall>t \<in> set ts. \<exists>s h r. t = Returned s h r))"
proof -
  have steps: "(engine_step parse compile digest)\<^sup>*\<^sup>* (NewEngine capacity, start_threads requests) st"
    using assms(2) by (rule relpowp_imp_rtranclp)
  then have inv: "engine_inv parse compile digest (fst ` set requests) st"
    by (rule engine_inv_steps [OF _ assms(1) engine_inv_start_threads])
  obtain e ts where e: "(engine_step parse compile digest)\<^sup>*\<^sup>* st (e, ts)" "\<forall>t \<in> set ts. sections_left t = 0"
    using engine_completes [OF assms(1) inv] by blast
  have "map thread_request ts = map thread_request (start_threads requests)"
    using engine_steps_requests [OF rtranclp_trans [OF steps e(1)]] by simp
  then have "length ts = length requests" by (metis length_map start_threads_def)
  moreover have "\<exists>s h r. t = Returned s h r" if "t \<in> set ts" for t
    using e(2) that by (cases t) auto
  moreover have "n \<le> 2 * length requests"
    using engine_steps_bound [OF assms(2)] by (simp add: start_threads_def comp_def sum_list_triv)
  ultimately show ?thesis using e(1) by blast
qed

theorem CompileByHash_completes_witness:
  "\<exists>st. (engine_step example_parse example_compile id ^^ 4) (NewEngine [1], start_threads example_requests) st \<and>
     4 \<le> 2 * length example_requests"
proof -
  obtain st where run: "(engine_step example_parse example_compile id ^^ 4)
       (NewEngine [1], start_threads example_requests) st"
    using example_run by blast
  have "inj_on id (fst ` set example_requests)" by simp
  from CompileByHash_completes [OF this run] run show ?thesis by blast
qed

end
