(* ===== verification/Pricing_Evaluate.thy ===== *)
theory Pricing_Evaluate
  imports Pricing_Compile
begin

text \<open>
  The evaluation of a compiled rule on the facts of a request,
  \<^verbatim>\<open>backend/internal/pricing/evaluate.go\<close>.

  The program runs in an environment of the facts and of fourteen functions; the line functions
  append to a trace, from which the result takes its breakdown. Running the program is the
  expression VM's part, a third-party package: \<open>vm_run\<close> feeds the interaction tree of the program,
  so whatever the VM does between its accesses to the environment is covered. How the VM wraps an
  error of an environment function is the parameter \<open>wrap\<close>, \<^verbatim>\<open>fmt.Sprintf\<close> on the
  arguments of an error is \<open>sprintf\<close>.
\<close>

section \<open>The trace\<close>

record evaluationTrace =
  tr_matchedTier :: string
  tr_tierAmount :: int
  tr_lines :: "PricingLine list"
  tr_lineCodes :: "string list"

definition newTrace :: evaluationTrace where
  "newTrace = \<lparr>tr_matchedTier = [], tr_tierAmount = 0, tr_lines = [], tr_lineCodes = []\<rparr>"

definition addLine :: "evaluationTrace \<Rightarrow> PricingLine \<Rightarrow> evaluationTrace \<times> (pricing_error + int)" where
  "addLine t line0 =
     (let line = line0\<lparr>pl_Code := TrimSpace (pl_Code line0), pl_Unit := TrimSpace (pl_Unit line0)\<rparr> in
      if pl_Code line = [] \<or> pl_Unit line = [] \<or> \<not> validShortString (pl_Code line) \<or> \<not> validShortString (pl_Unit line)
      then (t, Inl (errorf ErrorBreakdownInvalid ''line code and unit are required'' []))
      else if int (length (tr_lines t)) \<ge> maxStaticLines
      then (t, Inl (errorf ErrorBreakdownInvalid ''too many line items'' []))
      else if pl_Code line \<in> set (tr_lineCodes t)
      then (t, Inl (errorf ErrorBreakdownInvalid ''duplicate line code %q'' [pl_Code line]))
      else if pl_Quantity line < 0 \<or> pl_UnitsPerBlock line \<le> 0 \<or> pl_RateMicros line < 0 \<or>
              pl_MultiplierBPS line < 0 \<or> pl_AmountMicros line < 0
      then (t, Inl (errorf ErrorBreakdownInvalid ''line item contains invalid values'' []))
      else (t\<lparr>tr_lineCodes := set_add (pl_Code line) (tr_lineCodes t), tr_lines := tr_lines t @ [line]\<rparr>,
            Inr (pl_AmountMicros line)))"

section \<open>The environment functions\<close>

text \<open>The line functions compute a line, then add it.\<close>

definition add_computed ::
  "evaluationTrace \<Rightarrow> pricing_error + PricingLine \<Rightarrow> evaluationTrace \<times> (pricing_error + int)" where
  "add_computed t r = (case r of Inl e \<Rightarrow> (t, Inl e) | Inr line \<Rightarrow> addLine t line)"

definition mk_line :: "string \<Rightarrow> int \<Rightarrow> string \<Rightarrow> int \<Rightarrow> int \<Rightarrow> int \<Rightarrow> int \<Rightarrow> PricingLine" where
  "mk_line code quantity unit unitsPerBlock rate bps amount =
     \<lparr>pl_Code = code, pl_Quantity = quantity, pl_Unit = unit, pl_UnitsPerBlock = unitsPerBlock,
      pl_RateMicros = rate, pl_MultiplierBPS = bps, pl_AmountMicros = amount\<rparr>"

definition env_token_line where
  "env_token_line t code quantityValue rateValue =
     add_computed t
       (and_then (pricingInteger quantityValue) (\<lambda>quantity.
        and_then (pricingInteger rateValue) (\<lambda>rate.
        and_then (tokenCost quantity rate) (\<lambda>amount.
        Inr (mk_line code quantity ''token'' 1000000 rate basisPointsOne amount)))))"

definition env_adjusted_token_line where
  "env_adjusted_token_line t code quantityValue rateValue bpsValue =
     add_computed t
       (and_then (pricingInteger quantityValue) (\<lambda>quantity.
        and_then (pricingInteger rateValue) (\<lambda>rate.
        and_then (pricingInteger bpsValue) (\<lambda>bps.
        and_then (tokenCost quantity rate) (\<lambda>base.
        and_then (multiplyBPS base bps) (\<lambda>amount.
        Inr (mk_line code quantity ''token'' 1000000 rate bps amount)))))))"

definition env_unit_line where
  "env_unit_line t code quantityValue unit rateValue =
     add_computed t
       (and_then (pricingInteger quantityValue) (\<lambda>quantity.
        and_then (pricingInteger rateValue) (\<lambda>rate.
        and_then (unitCost quantity rate) (\<lambda>amount.
        Inr (mk_line code quantity unit 1 rate basisPointsOne amount)))))"

definition env_adjusted_unit_line where
  "env_adjusted_unit_line t code quantityValue unit rateValue bpsValue =
     add_computed t
       (and_then (pricingInteger quantityValue) (\<lambda>quantity.
        and_then (pricingInteger rateValue) (\<lambda>rate.
        and_then (pricingInteger bpsValue) (\<lambda>bps.
        and_then (unitCost quantity rate) (\<lambda>base.
        and_then (multiplyBPS base bps) (\<lambda>amount.
        Inr (mk_line code quantity unit 1 rate bps amount)))))))"

definition env_block_line where
  "env_block_line t code quantityValue unit unitsPerBlockValue rateValue =
     add_computed t
       (and_then (pricingInteger quantityValue) (\<lambda>quantity.
        and_then (pricingInteger unitsPerBlockValue) (\<lambda>unitsPerBlock.
        and_then (pricingInteger rateValue) (\<lambda>rate.
        and_then (blockCost quantity unitsPerBlock rate) (\<lambda>amount.
        Inr (mk_line code quantity unit unitsPerBlock rate basisPointsOne amount))))))"

definition env_adjusted_block_line where
  "env_adjusted_block_line t code quantityValue unit unitsPerBlockValue rateValue bpsValue =
     add_computed t
       (and_then (pricingInteger quantityValue) (\<lambda>quantity.
        and_then (pricingInteger unitsPerBlockValue) (\<lambda>unitsPerBlock.
        and_then (pricingInteger rateValue) (\<lambda>rate.
        and_then (pricingInteger bpsValue) (\<lambda>bps.
        and_then (blockCost quantity unitsPerBlock rate) (\<lambda>base.
        and_then (multiplyBPS base bps) (\<lambda>amount.
        Inr (mk_line code quantity unit unitsPerBlock rate bps amount))))))))"

definition env_fixed_line where
  "env_fixed_line t code unit amountValue =
     add_computed t
       (and_then (pricingInteger amountValue) (\<lambda>amount.
        Inr (mk_line code 1 unit 1 amount basisPointsOne amount)))"

definition env_tier :: "evaluationTrace \<Rightarrow> string \<Rightarrow> expr_value \<Rightarrow> evaluationTrace \<times> (pricing_error + int)" where
  "env_tier t name0 amountValue =
     (case pricingInteger amountValue of
        Inl e \<Rightarrow> (t, Inl e)
      | Inr amount \<Rightarrow>
          (let name = TrimSpace name0 in
           if name = [] \<or> \<not> validShortString name \<or> tr_matchedTier t \<noteq> []
           then (t, Inl (errorf ErrorTierInvalid ''exactly one valid tier may be selected'' []))
           else if amount < 0 then (t, Inl (errorf ErrorTierInvalid ''tier amount must be non-negative'' []))
           else (t\<lparr>tr_matchedTier := name, tr_tierAmount := amount\<rparr>, Inr amount)))"

definition env_min :: "expr_value \<Rightarrow> expr_value \<Rightarrow> pricing_error + int" where
  "env_min = numeric2 (\<lambda>left right. if left < right then Inr left else Inr right)"

definition env_max :: "expr_value \<Rightarrow> expr_value \<Rightarrow> pricing_error + int" where
  "env_max = numeric2 (\<lambda>left right. if left > right then Inr left else Inr right)"

text \<open>
  A call by name. The static parameter types of the functions, as \<^verbatim>\<open>compileEnvironment\<close> lists
  them, are the patterns (\<open>x\<close> for \<^verbatim>\<open>any\<close>, \<open>s\<close> for \<^verbatim>\<open>string\<close>); a call that does not match
  them is \<open>None\<close>, an error of the VM (the type checker of the compiler refuses such programs).
\<close>

definition sig_xx where
  "sig_xx f args = (case args of [a0, a1] \<Rightarrow> Some (f a0 a1) | _ \<Rightarrow> None)"

definition sig_xxx where
  "sig_xxx f args = (case args of [a0, a1, a2] \<Rightarrow> Some (f a0 a1 a2) | _ \<Rightarrow> None)"

definition sig_sxx where
  "sig_sxx f args = (case args of [VString a0, a1, a2] \<Rightarrow> Some (f a0 a1 a2) | _ \<Rightarrow> None)"

definition sig_sxxx where
  "sig_sxxx f args = (case args of [VString a0, a1, a2, a3] \<Rightarrow> Some (f a0 a1 a2 a3) | _ \<Rightarrow> None)"

definition sig_sxsx where
  "sig_sxsx f args = (case args of [VString a0, a1, VString a2, a3] \<Rightarrow> Some (f a0 a1 a2 a3) | _ \<Rightarrow> None)"

definition sig_sxsxx where
  "sig_sxsxx f args = (case args of [VString a0, a1, VString a2, a3, a4] \<Rightarrow> Some (f a0 a1 a2 a3 a4) | _ \<Rightarrow> None)"

definition sig_sxsxxx where
  "sig_sxsxxx f args = (case args of [VString a0, a1, VString a2, a3, a4, a5] \<Rightarrow> Some (f a0 a1 a2 a3 a4 a5) | _ \<Rightarrow> None)"

definition sig_ssx where
  "sig_ssx f args = (case args of [VString a0, VString a1, a2] \<Rightarrow> Some (f a0 a1 a2) | _ \<Rightarrow> None)"

definition sig_sx where
  "sig_sx f args = (case args of [VString a0, a1] \<Rightarrow> Some (f a0 a1) | _ \<Rightarrow> None)"

definition evaluationEnvironment ::
  "evaluationTrace \<Rightarrow> string \<Rightarrow> expr_value list \<Rightarrow> (evaluationTrace \<times> (pricing_error + int)) option" where
  "evaluationEnvironment t name args =
     (if name = ''token_cost'' then sig_xx (\<lambda>a b. (t, numeric2 tokenCost a b)) args
      else if name = ''unit_cost'' then sig_xx (\<lambda>a b. (t, numeric2 unitCost a b)) args
      else if name = ''block_cost'' then sig_xxx (\<lambda>a b c. (t, numeric3 blockCost a b c)) args
      else if name = ''multiply_bps'' then sig_xx (\<lambda>a b. (t, numeric2 multiplyBPS a b)) args
      else if name = ''token_line'' then sig_sxx (env_token_line t) args
      else if name = ''adjusted_token_line'' then sig_sxxx (env_adjusted_token_line t) args
      else if name = ''unit_line'' then sig_sxsx (env_unit_line t) args
      else if name = ''adjusted_unit_line'' then sig_sxsxx (env_adjusted_unit_line t) args
      else if name = ''block_line'' then sig_sxsxx (env_block_line t) args
      else if name = ''adjusted_block_line'' then sig_sxsxxx (env_adjusted_block_line t) args
      else if name = ''fixed_line'' then sig_ssx (env_fixed_line t) args
      else if name = ''tier'' then sig_sx (env_tier t) args
      else if name = ''min'' then sig_xx (\<lambda>a b. (t, env_min a b)) args
      else if name = ''max'' then sig_xx (\<lambda>a b. (t, env_max a b)) args
      else None)"

abbreviation (input) int64_value :: "int \<Rightarrow> expr_value" where
  "int64_value i \<equiv> VInt64 (word_of_int i)"

definition factsEnvironment :: "Facts \<Rightarrow> expr_value gomap" where
  "factsEnvironment f =
    [(''total_input_tokens'', int64_value (f_TotalInputTokens f)),
     (''uncached_input_tokens'', int64_value (f_UncachedInputTokens f)),
     (''cache_read_tokens'', int64_value (f_CacheReadTokens f)),
     (''cache_write_5m_tokens'', int64_value (f_CacheWrite5mTokens f)),
     (''cache_write_1h_tokens'', int64_value (f_CacheWrite1hTokens f)),
     (''output_tokens'', int64_value (f_OutputTokens f)),
     (''cache_fields_present'', VBool (f_CacheFieldsPresent f)),
     (''input_images'', int64_value (f_InputImages f)),
     (''output_images'', int64_value (f_OutputImages f)),
     (''partial_images'', int64_value (f_PartialImages f)),
     (''input_video_milliseconds'', int64_value (f_InputVideoMilliseconds f)),
     (''output_video_milliseconds'', int64_value (f_OutputVideoMilliseconds f)),
     (''input_audio_milliseconds'', int64_value (f_InputAudioMilliseconds f)),
     (''output_audio_milliseconds'', int64_value (f_OutputAudioMilliseconds f)),
     (''realtime_audio_milliseconds'', int64_value (f_RealtimeAudioMilliseconds f)),
     (''input_characters'', int64_value (f_InputCharacters f)),
     (''actions'', int64_value (f_Actions f)),
     (''batch_items'', int64_value (f_BatchItems f)),
     (''input_bytes'', int64_value (f_InputBytes f)),
     (''output_bytes'', int64_value (f_OutputBytes f)),
     (''transfer_bytes'', int64_value (f_TransferBytes f)),
     (''session_milliseconds'', int64_value (f_SessionMilliseconds f)),
     (''protocol'', VString (f_Protocol f)),
     (''operation'', VString (f_Operation f)),
     (''modality'', VString (f_Modality f)),
     (''lane'', VString (f_Lane f)),
     (''stream'', VBool (f_Stream f)),
     (''output_count'', int64_value (f_OutputCount f)),
     (''service_tier'', VString (f_ServiceTier f))]"

definition validateFacts :: "Facts \<Rightarrow> string list \<Rightarrow> pricing_error option" where
  "validateFacts f required =
     (if list_ex (\<lambda>v. v < 0)
           [f_TotalInputTokens f, f_UncachedInputTokens f, f_CacheReadTokens f, f_CacheWrite5mTokens f,
            f_CacheWrite1hTokens f, f_OutputTokens f, f_InputImages f, f_OutputImages f, f_PartialImages f,
            f_InputVideoMilliseconds f, f_OutputVideoMilliseconds f, f_InputAudioMilliseconds f,
            f_OutputAudioMilliseconds f, f_RealtimeAudioMilliseconds f, f_InputCharacters f, f_Actions f,
            f_BatchItems f, f_InputBytes f, f_OutputBytes f, f_TransferBytes f, f_SessionMilliseconds f,
            f_OutputCount f]
      then Some (errorf ErrorFactInvalid ''pricing facts must be non-negative'' [])
      else if f_UncachedInputTokens f > f_TotalInputTokens f \<and> f_TotalInputTokens f > 0
      then Some (errorf ErrorFactInvalid ''uncached input exceeds total input'' [])
      else if list_ex (\<lambda>v. \<not> validShortString v)
           [f_Protocol f, f_Operation f, f_Modality f, f_Lane f, f_ServiceTier f, f_NormalizationStatus f]
      then Some (errorf ErrorFactInvalid ''pricing fact string is invalid or too long'' [])
      else if f_Phase f \<noteq> [] \<and> f_Phase f \<noteq> PhaseEstimate \<and> f_Phase f \<noteq> PhaseSettlement \<and> f_Phase f \<noteq> PhaseReplay
      then Some (errorf ErrorFactInvalid ''pricing phase is invalid'' [])
      else if f_AvailableFacts f \<noteq> []
      then (case find (\<lambda>name. go_get (f_AvailableFacts f) name \<noteq> Some True) required of
              Some name \<Rightarrow> Some (errorf ErrorFactMissing ''required fact %q is unavailable'' [name])
            | None \<Rightarrow> None)
      else None)"

section \<open>Runtime errors\<close>

text \<open>A Go error value: a pricing error, an error that unwraps to another, or any other.\<close>

datatype go_error = PErr pricing_error | WrapErr string go_error | OpaqueErr string

fun asPricingError :: "go_error \<Rightarrow> pricing_error option" where
  "asPricingError (PErr e) = Some e"
| "asPricingError (WrapErr _ e) = asPricingError e"
| "asPricingError (OpaqueErr _) = None"

fun error_text :: "(string \<Rightarrow> string list \<Rightarrow> string) \<Rightarrow> go_error \<Rightarrow> string" where
  "error_text sprintf (PErr e) = err_Code e @ '': '' @ sprintf (err_Format e) (err_Args e)"
| "error_text sprintf (WrapErr text _) = text"
| "error_text sprintf (OpaqueErr text) = text"

definition classifyRuntimeError :: "(string \<Rightarrow> string list \<Rightarrow> string) \<Rightarrow> go_error \<Rightarrow> pricing_error" where
  "classifyRuntimeError sprintf err =
     (if sublist ErrorArithmeticOverflow (error_text sprintf err)
      then errorf ErrorArithmeticOverflow ''%v'' [error_text sprintf err]
      else if sublist ErrorBreakdownInvalid (error_text sprintf err)
      then errorf ErrorBreakdownInvalid ''%v'' [error_text sprintf err]
      else if sublist ErrorTierInvalid (error_text sprintf err)
      then errorf ErrorTierInvalid ''%v'' [error_text sprintf err]
      else (case asPricingError err of
              Some e \<Rightarrow> e
            | None \<Rightarrow> errorf ErrorAmountOutOfRange ''expression execution failed: %v'' [error_text sprintf err]))"

section \<open>Evaluation\<close>

text \<open>\<^verbatim>\<open>expr.Run\<close> on the environment of \<^verbatim>\<open>evaluationEnvironment\<close>.\<close>

primrec vm_run ::
  "(pricing_error \<Rightarrow> go_error) \<Rightarrow> expr_value gomap \<Rightarrow> vm_program \<Rightarrow> evaluationTrace \<Rightarrow>
   evaluationTrace \<times> (go_error + expr_value)" where
  "vm_run wrap env (VMReturn v) t = (t, Inr v)"
| "vm_run wrap env (VMFail text) t = (t, Inl (OpaqueErr text))"
| "vm_run wrap env (VMFact name k) t =
     (case go_get env name of
        Some v \<Rightarrow> vm_run wrap env (k v) t
      | None \<Rightarrow> (t, Inl (OpaqueErr name)))"
| "vm_run wrap env (VMCall name args k) t =
     (case evaluationEnvironment t name args of
        None \<Rightarrow> (t, Inl (OpaqueErr name))
      | Some (t', Inl e) \<Rightarrow> (t', Inl (wrap e))
      | Some (t', Inr amount) \<Rightarrow> vm_run wrap env (k (word_of_int amount)) t')"

fun line_total :: "int \<Rightarrow> PricingLine list \<Rightarrow> pricing_error + int" where
  "line_total lineTotal [] = Inr lineTotal"
| "line_total lineTotal (line # ls) = and_then (checkedAdd lineTotal (pl_AmountMicros line)) (\<lambda>s. line_total s ls)"

definition Evaluate ::
  "(string \<Rightarrow> string) \<Rightarrow> (Facts \<Rightarrow> string) \<Rightarrow> (string \<Rightarrow> string list \<Rightarrow> string) \<Rightarrow> (pricing_error \<Rightarrow> go_error) \<Rightarrow>
   CompiledRule \<Rightarrow> Facts \<Rightarrow> pricing_error + PricingResult" where
  "Evaluate digest facts_digest sprintf wrap rule facts =
     (case compiledProgram digest rule of
        Inl e \<Rightarrow> Inl e
      | Inr program \<Rightarrow>
          (case validateFacts facts (ra_RequiredFacts (cr_Analysis rule)) of
             Some e \<Rightarrow> Inl e
           | None \<Rightarrow>
               (case vm_run wrap (factsEnvironment facts) program newTrace of
                  (trace, Inl err) \<Rightarrow> Inl (classifyRuntimeError sprintf err)
                | (trace, Inr (VInt64 out)) \<Rightarrow>
                    (let amount = sint out in
                     if amount < 0 then Inl (errorf ErrorAmountOutOfRange ''expression returned a negative amount'' [])
                     else if tr_matchedTier trace \<noteq> [] \<and> tr_tierAmount trace \<noteq> amount
                     then Inl (errorf ErrorTierInvalid ''tier amount does not equal expression result'' [])
                     else
                       and_then (line_total 0 (tr_lines trace)) (\<lambda>lineTotal.
                       if lineTotal \<noteq> amount \<or> amount > 0 \<and> tr_lines trace = []
                       then Inl (errorf ErrorBreakdownInvalid ''line item total %d does not equal result %d''
                                   [string_of_int lineTotal, string_of_int amount])
                       else
                         Inr \<lparr>res_AmountMicros = amount, res_Currency = CurrencyUSD,
                              res_MatchedTier = (if tr_matchedTier trace = [] then ''base'' else tr_matchedTier trace),
                              res_Lines = tr_lines trace, res_EngineVersion = cr_EngineVersion rule,
                              res_ExpressionHash = cr_ExpressionHash rule,
                              res_FactsHash = Facts_Hash facts_digest facts\<rparr>))
                | (trace, Inr out) \<Rightarrow>
                    Inl (errorf ErrorAmountOutOfRange ''expression returned %T instead of int64'' [type_name out]))))"

section \<open>The trace invariant\<close>

text \<open>
  A line can be audited: its amount is what its own quantity, rate, block size and multiplier give,
  rounded half up at each of the two divisions.
\<close>

definition line_audit :: "PricingLine \<Rightarrow> bool" where
  "line_audit l \<longleftrightarrow>
     0 \<le> pl_Quantity l \<and> 0 < pl_UnitsPerBlock l \<and> 0 \<le> pl_RateMicros l \<and> 0 \<le> pl_MultiplierBPS l \<and>
     int64_ok (pl_AmountMicros l) \<and>
     pl_AmountMicros l =
       round_half_up
         (round_half_up (pl_Quantity l * pl_RateMicros l) (pl_UnitsPerBlock l) * pl_MultiplierBPS l) basisPointsOne"

definition line_named :: "PricingLine \<Rightarrow> bool" where
  "line_named l \<longleftrightarrow> pl_Code l \<noteq> [] \<and> TrimSpace (pl_Code l) = pl_Code l \<and> validShortString (pl_Code l) \<and>
     pl_Unit l \<noteq> [] \<and> TrimSpace (pl_Unit l) = pl_Unit l \<and> validShortString (pl_Unit l)"

definition trace_ok :: "evaluationTrace \<Rightarrow> bool" where
  "trace_ok t \<longleftrightarrow>
     set (tr_lineCodes t) = pl_Code ` set (tr_lines t) \<and> distinct (map pl_Code (tr_lines t)) \<and>
     int (length (tr_lines t)) \<le> maxStaticLines \<and> (\<forall>l \<in> set (tr_lines t). line_audit l \<and> line_named l)"

definition line_raw_ok :: "PricingLine \<Rightarrow> bool" where
  "line_raw_ok l \<longleftrightarrow> (0 \<le> pl_AmountMicros l \<longrightarrow> line_audit l)"

lemma newTrace_ok: "trace_ok newTrace"
  by (simp add: trace_ok_def newTrace_def)

lemma addLine_ok:
  assumes "trace_ok t" "line_raw_ok l" "addLine t l = (t', r)"
  shows "trace_ok t'"
  using assms
  by (auto simp: addLine_def Let_def trace_ok_def line_raw_ok_def line_audit_def line_named_def split: if_splits)

lemma add_computed_ok:
  assumes "trace_ok t" "\<And>l. r = Inr l \<Longrightarrow> line_raw_ok l" "add_computed t r = (t', r')"
  shows "trace_ok t'"
  using assms by (auto simp: add_computed_def intro: addLine_ok split: sum.splits)

text \<open>The two divisions of a line, and the constant divisors.\<close>

lemma line_raw_ok_computed:
  assumes "int64_ok q" "int64_ok rate" "int64_ok u" "int64_ok bps"
    and base: "checkedMulDivRoundHalfUp q rate u = Inr base" and amount: "multiplyBPS base bps = Inr amount"
  shows "line_raw_ok (mk_line code q unit u rate bps amount)"
proof -
  note b = checkedMulDivRoundHalfUp_Inr [OF assms(1-3) base]
  have "int64_ok basisPointsOne" by (simp add: int64_ok_def)
  note a = checkedMulDivRoundHalfUp_Inr [OF b(5) assms(4) this amount [unfolded multiplyBPS_def]]
  from a b show ?thesis by (simp add: line_raw_ok_def line_audit_def mk_line_def)
qed

lemma int64_ok_consts [simp]: "int64_ok 1" "int64_ok 1000000" "int64_ok 10000"
  by (simp_all add: int64_ok_def)

lemma line_raw_ok_plain:
  assumes "int64_ok q" "int64_ok rate" "int64_ok u"
    and base: "checkedMulDivRoundHalfUp q rate u = Inr amount"
  shows "line_raw_ok (mk_line code q unit u rate basisPointsOne amount)"
  using assms checkedMulDivRoundHalfUp_Inr [OF assms]
  by (intro line_raw_ok_computed) (auto intro: multiplyBPS_one)

lemma line_raw_ok_fixed:
  assumes "int64_ok amount"
  shows "line_raw_ok (mk_line code 1 unit 1 amount basisPointsOne amount)"
  using assms line_raw_ok_plain [of 1 amount 1 amount code unit] unitCost_one [of amount]
  by (cases "0 \<le> amount") (simp_all add: unitCost_def line_raw_ok_def mk_line_def)

lemmas env_line_defs =
  env_token_line_def env_adjusted_token_line_def env_unit_line_def env_adjusted_unit_line_def
  env_block_line_def env_adjusted_block_line_def env_fixed_line_def

lemma env_line_ok:
  assumes "trace_ok t"
  shows "env_token_line t code q r = (t', x) \<Longrightarrow> trace_ok t'"
    "env_adjusted_token_line t code q r b = (t', x) \<Longrightarrow> trace_ok t'"
    "env_unit_line t code q unit r = (t', x) \<Longrightarrow> trace_ok t'"
    "env_adjusted_unit_line t code q unit r b = (t', x) \<Longrightarrow> trace_ok t'"
    "env_block_line t code q unit u r = (t', x) \<Longrightarrow> trace_ok t'"
    "env_adjusted_block_line t code q unit u r b = (t', x) \<Longrightarrow> trace_ok t'"
    "env_fixed_line t code unit q = (t', x) \<Longrightarrow> trace_ok t'"
  unfolding env_line_defs
  by (erule add_computed_ok [OF assms, rotated],
      force simp: and_then_Inr_iff tokenCost_def unitCost_def blockCost_def
        intro: line_raw_ok_plain line_raw_ok_computed line_raw_ok_fixed dest: pricingInteger_Inr)+

lemma env_tier_ok: "trace_ok t \<Longrightarrow> env_tier t name a = (t', x) \<Longrightarrow> trace_ok t'"
  by (auto simp: env_tier_def Let_def trace_ok_def split: sum.splits if_splits)

lemma sig_SomeD:
  "sig_xx fxx args = Some y \<Longrightarrow> \<exists>a0 a1. fxx a0 a1 = y"
  "sig_xxx fxxx args = Some y \<Longrightarrow> \<exists>a0 a1 a2. fxxx a0 a1 a2 = y"
  "sig_sxx fsxx args = Some y \<Longrightarrow> \<exists>a0 a1 a2. fsxx a0 a1 a2 = y"
  "sig_sxxx fsxxx args = Some y \<Longrightarrow> \<exists>a0 a1 a2 a3. fsxxx a0 a1 a2 a3 = y"
  "sig_sxsx fsxsx args = Some y \<Longrightarrow> \<exists>a0 a1 a2 a3. fsxsx a0 a1 a2 a3 = y"
  "sig_sxsxx fsxsxx args = Some y \<Longrightarrow> \<exists>a0 a1 a2 a3 a4. fsxsxx a0 a1 a2 a3 a4 = y"
  "sig_sxsxxx fsxsxxx args = Some y \<Longrightarrow> \<exists>a0 a1 a2 a3 a4 a5. fsxsxxx a0 a1 a2 a3 a4 a5 = y"
  "sig_ssx fssx args = Some y \<Longrightarrow> \<exists>a0 a1 a2. fssx a0 a1 a2 = y"
  "sig_sx fsx args = Some y \<Longrightarrow> \<exists>a0 a1. fsx a0 a1 = y"
  by (auto simp: sig_xx_def sig_xxx_def sig_sxx_def sig_sxxx_def sig_sxsx_def sig_sxsxx_def sig_sxsxxx_def
      sig_ssx_def sig_sx_def split: list.splits expr_value.splits) blast+

lemma evaluationEnvironment_ok:
  assumes t: "trace_ok t" and e: "evaluationEnvironment t name args = Some (t', r)"
  shows "trace_ok t'"
  using e t unfolding evaluationEnvironment_def
  by (auto split: if_split_asm dest!: sig_SomeD dest: env_line_ok [OF t] env_tier_ok [OF t])

lemma vm_run_ok: "trace_ok t \<Longrightarrow> vm_run wrap env p t = (t', r) \<Longrightarrow> trace_ok t'"
proof (induction p arbitrary: t)
  case (VMFact name k)
  then show ?case by (auto split: option.splits)
next
  case (VMCall name args k)
  show ?case
  proof (cases "evaluationEnvironment t name args")
    case None
    with VMCall.prems show ?thesis by simp
  next
    case (Some x)
    obtain t1 r1 where x: "x = (t1, r1)" by fastforce
    have "trace_ok t1" using evaluationEnvironment_ok [OF VMCall.prems(1)] Some x by blast
    with VMCall Some x show ?thesis by (cases r1) auto
  qed
qed auto

lemma line_total_sum:
  "int64_ok n \<Longrightarrow> \<forall>l \<in> set ls. int64_ok (pl_AmountMicros l) \<Longrightarrow> line_total n ls = Inr s \<Longrightarrow>
   s = n + sum_list (map pl_AmountMicros ls) \<and> int64_ok s"
proof (induction ls arbitrary: n)
  case (Cons l ls)
  then show ?case by (fastforce simp: checkedAdd_spec and_then_Inr_iff split: if_splits)
qed simp

lemma Evaluate_Inr:
  assumes "Evaluate digest facts_digest sprintf wrap rule facts = Inr res"
  shows "\<exists>program trace out. compiledProgram digest rule = Inr program \<and>
    validateFacts facts (ra_RequiredFacts (cr_Analysis rule)) = None \<and>
    vm_run wrap (factsEnvironment facts) program newTrace = (trace, Inr (VInt64 out)) \<and>
    0 \<le> sint out \<and> line_total 0 (tr_lines trace) = Inr (sint out) \<and>
    (tr_matchedTier trace \<noteq> [] \<longrightarrow> tr_tierAmount trace = sint out) \<and>
    res_AmountMicros res = sint out \<and> res_Lines res = tr_lines trace \<and> res_Currency res = CurrencyUSD \<and>
    res_FactsHash res = Facts_Hash facts_digest facts \<and> res_ExpressionHash res = cr_ExpressionHash rule"
  using assms unfolding Evaluate_def
  by (auto simp: Let_def and_then_Inr_iff not_less
      split: sum.splits option.splits prod.splits expr_value.splits if_splits)

text \<open>
  C5: a price is explained by its breakdown. When a rule evaluates to a result, the amount is the
  exact sum of the amounts of its lines, it is a non-negative 64-bit number, there are at most 32
  lines with pairwise different, trimmed, non-empty codes, and the amount of each line is the one
  its own quantity, rate, block size and multiplier give, rounded half up. This holds for every
  program the compiler may produce.
\<close>

theorem Evaluate_breakdown:
  assumes "Evaluate digest facts_digest sprintf wrap rule facts = Inr res"
  shows "res_AmountMicros res = sum_list (map pl_AmountMicros (res_Lines res)) \<and>
    0 \<le> res_AmountMicros res \<and> int64_ok (res_AmountMicros res) \<and>
    int (length (res_Lines res)) \<le> maxStaticLines \<and> distinct (map pl_Code (res_Lines res)) \<and>
    (\<forall>l \<in> set (res_Lines res). line_audit l \<and> line_named l)"
proof -
  obtain program trace out where r: "vm_run wrap (factsEnvironment facts) program newTrace = (trace, Inr (VInt64 out))"
      "0 \<le> sint out" "line_total 0 (tr_lines trace) = Inr (sint out)"
      "res_AmountMicros res = sint out" "res_Lines res = tr_lines trace"
    using Evaluate_Inr [OF assms] by blast
  have t: "trace_ok trace" by (rule vm_run_ok [OF newTrace_ok r(1)])
  then have "\<forall>l \<in> set (tr_lines trace). int64_ok (pl_AmountMicros l)"
    unfolding trace_ok_def line_audit_def by blast
  from line_total_sum [OF _ this r(3)] t r show ?thesis
    by (simp add: trace_ok_def int64_ok_def)
qed

text \<open>A rule with a token line and a fixed line, selected as a tier.\<close>

definition example_program :: vm_program where
  "example_program =
     VMFact ''output_tokens'' (\<lambda>tokens.
     VMCall ''token_line'' [VString ''out'', tokens, VInt64 3000001] (\<lambda>a.
     VMCall ''fixed_line'' [VString ''fee'', VString ''request'', VInt64 7] (\<lambda>b.
     VMCall ''tier'' [VString ''std'', VInt64 (a + b)] (\<lambda>c. VMReturn (VInt64 c)))))"

definition example_rule :: CompiledRule where
  "example_rule = \<lparr>cr_Source = ''v1:x'', cr_ExpressionHash = ''v1:x'', cr_EngineVersion = 1,
     cr_Analysis = \<lparr>ra_EngineVersion = 1, ra_RequiredFacts = [''output_tokens''], ra_Tiers = [''std''],
       ra_LineCodes = [''fee'', ''out''], ra_VisualEditable = True\<rparr>,
     cr_body = ''x'', cr_program = Some example_program\<rparr>"

definition example_facts :: Facts where
  "example_facts = \<lparr>f_TotalInputTokens = 0, f_UncachedInputTokens = 0, f_CacheReadTokens = 0,
     f_CacheWrite5mTokens = 0, f_CacheWrite1hTokens = 0, f_OutputTokens = 500000, f_CacheFieldsPresent = False,
     f_InputImages = 0, f_OutputImages = 0, f_PartialImages = 0, f_InputVideoMilliseconds = 0,
     f_OutputVideoMilliseconds = 0, f_InputAudioMilliseconds = 0, f_OutputAudioMilliseconds = 0,
     f_RealtimeAudioMilliseconds = 0, f_InputCharacters = 0, f_Actions = 0, f_BatchItems = 0, f_InputBytes = 0,
     f_OutputBytes = 0, f_TransferBytes = 0, f_SessionMilliseconds = 0, f_Protocol = ''openai'',
     f_Operation = [], f_Modality = [], f_Lane = [], f_Stream = False, f_OutputCount = 0, f_ServiceTier = [],
     f_AvailableFacts = [], f_NormalizationStatus = [], f_Phase = ''estimate'', f_ObservedAt = 0\<rparr>"

lemma example_evaluate:
  "\<exists>res. Evaluate id (\<lambda>_. ''h'') (\<lambda>f _. f) PErr example_rule example_facts = Inr res \<and> res_AmountMicros res = 1500008"
proof -
  let ?e = "Evaluate id (\<lambda>_. ''h'') (\<lambda>f _. f) PErr example_rule example_facts"
  have "(case ?e of Inl _ \<Rightarrow> 0 | Inr res \<Rightarrow> res_AmountMicros res) = 1500008" by code_simp
  then show ?thesis by (cases ?e) auto
qed

theorem Evaluate_breakdown_witness:
  "\<exists>res. Evaluate id (\<lambda>_. ''h'') (\<lambda>f _. f) PErr example_rule example_facts = Inr res \<and>
     sum_list (map pl_AmountMicros (res_Lines res)) = 1500008"
proof -
  obtain res where r: "Evaluate id (\<lambda>_. ''h'') (\<lambda>f _. f) PErr example_rule example_facts = Inr res"
    "res_AmountMicros res = 1500008"
    using example_evaluate by blast
  from Evaluate_breakdown [OF r(1)] r show ?thesis by auto
qed

text \<open>
  Settlement and replay reproduce the estimate. Evaluation does not depend on the phase (any of
  the valid ones) nor on the time of observation: the whole result, including the facts hash that is
  recorded with it, is the same.
\<close>

theorem Evaluate_replay:
  assumes "f_Phase facts \<in> {[], PhaseEstimate, PhaseSettlement, PhaseReplay}"
    and "phase \<in> {[], PhaseEstimate, PhaseSettlement, PhaseReplay}"
  shows "Evaluate digest facts_digest sprintf wrap rule (facts\<lparr>f_Phase := phase, f_ObservedAt := at\<rparr>) =
    Evaluate digest facts_digest sprintf wrap rule facts"
proof -
  let ?g = "facts\<lparr>f_Phase := phase, f_ObservedAt := at\<rparr>"
  have 1: "validateFacts ?g required = validateFacts facts required" for required
    using assms by (simp add: validateFacts_def) blast
  have 2: "factsEnvironment ?g = factsEnvironment facts" by (simp add: factsEnvironment_def)
  have 3: "Facts_Hash facts_digest ?g = Facts_Hash facts_digest facts"
    by (simp add: Facts_Hash_def CanonicalJSON_def)
  show ?thesis unfolding Evaluate_def 1 2 3 ..
qed

theorem Evaluate_replay_witness:
  "Evaluate id (\<lambda>_. ''h'') (\<lambda>f _. f) PErr example_rule
     (example_facts\<lparr>f_Phase := PhaseReplay, f_ObservedAt := 5\<rparr>) =
   Evaluate id (\<lambda>_. ''h'') (\<lambda>f _. f) PErr example_rule example_facts"
  by (rule Evaluate_replay) (simp_all add: example_facts_def PhaseEstimate_def)

end
