(* ===== verification/Provider_Capacity.thy ===== *)
theory Provider_Capacity
  imports Prelude
begin

text \<open>
  Provider capacity leases: the in-memory store of
  \<^verbatim>\<open>backend/internal/controlplane/provider_capacity.go\<close>, and its client, the account permits of
  \<^verbatim>\<open>provider_capacity_service.go\<close>.

  The store keeps one lease per lease ID and a list of rate samples per provider account. The
  contract that the permits rely on is the locale \<open>capacity_store\<close>; it is interpreted on the
  in-memory store. Metrics and the scheduler's local counters, which the permits also update, are
  not part of the model.
\<close>

section \<open>Data\<close>

datatype capacity_error =
    ErrProviderCapacityConfig
  | ErrProviderCapacityConflict
  | ErrProviderCapacityStoreUnavailable
  | ErrProviderCapacityLeaseLost

abbreviation (input) providerCapacityRateWindow :: duration where "providerCapacityRateWindow \<equiv> time_Minute"
abbreviation (input) providerCapacityLeaseTTL :: duration where "providerCapacityLeaseTTL \<equiv> 2 * time_Minute"
abbreviation (input) providerCapacityLeaseGrace :: duration where "providerCapacityLeaseGrace \<equiv> 2 * time_Minute"
abbreviation (input) maxProviderCapacityLeaseDuration :: duration where
  "maxProviderCapacityLeaseDuration \<equiv> 7 * 24 * time_Hour"

record ProviderCapacityRequest =
  cq_LeaseID :: string
  cq_ProviderAccountID :: string
  cq_CapacityUnits :: int
  cq_ConcurrencyLimit :: int
  cq_RPMLimit :: int
  cq_TPMLimit :: int
  cq_EstimatedTokens :: int
  cq_LeaseDuration :: duration

record ProviderCapacityLease =
  cl_ID :: string
  cl_ProviderAccountID :: string
  cl_CapacityUnits :: int
  cl_ExpiresAt :: gotime

definition zero_lease :: ProviderCapacityLease where
  "zero_lease = \<lparr>cl_ID = [], cl_ProviderAccountID = [], cl_CapacityUnits = 0, cl_ExpiresAt = zero_time\<rparr>"

record ProviderCapacitySnapshot =
  cn_CapacityUnits :: int
  cn_Requests :: int
  cn_Tokens :: int

record providerCapacityRateSample =
  rs_LeaseID :: string
  rs_At :: gotime
  rs_EstimatedTokens :: int

record MemoryProviderCapacityStore =
  cs_leases :: "ProviderCapacityLease gomap"
  cs_samples :: "providerCapacityRateSample list gomap"

definition NewMemoryProviderCapacityStore :: MemoryProviderCapacityStore where
  "NewMemoryProviderCapacityStore = \<lparr>cs_leases = [], cs_samples = []\<rparr>"

section \<open>The in-memory store\<close>

definition validateProviderCapacityRequest :: "ProviderCapacityRequest \<Rightarrow> capacity_error option" where
  "validateProviderCapacityRequest q =
     (if TrimSpace (cq_LeaseID q) = [] \<or> TrimSpace (cq_ProviderAccountID q) = [] \<or> cq_CapacityUnits q \<le> 0 \<or>
         cq_LeaseDuration q \<le> 0 \<or> cq_ConcurrencyLimit q < 0 \<or> cq_RPMLimit q < 0 \<or> cq_TPMLimit q < 0 \<or>
         cq_EstimatedTokens q < 0
      then Some ErrProviderCapacityConfig else None)"

definition validateProviderCapacityLease :: "ProviderCapacityLease \<Rightarrow> capacity_error option" where
  "validateProviderCapacityLease l =
     (if TrimSpace (cl_ID l) = [] \<or> TrimSpace (cl_ProviderAccountID l) = [] \<or> cl_CapacityUnits l \<le> 0
      then Some ErrProviderCapacityConfig else None)"

definition samples_of :: "MemoryProviderCapacityStore \<Rightarrow> string \<Rightarrow> providerCapacityRateSample list" where
  "samples_of st account = (case go_get (cs_samples st) account of Some xs \<Rightarrow> xs | None \<Rightarrow> [])"

definition pruneLocked :: "string \<Rightarrow> gotime \<Rightarrow> MemoryProviderCapacityStore \<Rightarrow> MemoryProviderCapacityStore" where
  "pruneLocked account now st =
     (let cutoff = now - providerCapacityRateWindow in
      st\<lparr>cs_leases := filter (\<lambda>(i, l). \<not> (cl_ProviderAccountID l = account \<and> \<not> cl_ExpiresAt l > now)) (cs_leases st),
         cs_samples := go_set account (filter (\<lambda>s. rs_At s > cutoff) (samples_of st account)) (cs_samples st)\<rparr>)"

definition snapshotLocked :: "MemoryProviderCapacityStore \<Rightarrow> string \<Rightarrow> ProviderCapacitySnapshot" where
  "snapshotLocked st account =
     \<lparr>cn_CapacityUnits = wrap_sum (map cl_CapacityUnits (filter (\<lambda>l. cl_ProviderAccountID l = account) (go_values (cs_leases st)))),
      cn_Requests = int (length (samples_of st account)),
      cn_Tokens = wrap_sum (map rs_EstimatedTokens (samples_of st account))\<rparr>"

definition Acquire ::
  "gotime \<Rightarrow> ProviderCapacityRequest \<Rightarrow> MemoryProviderCapacityStore \<Rightarrow>
   MemoryProviderCapacityStore \<times> (capacity_error + ProviderCapacityLease \<times> string \<times> bool)" where
  "Acquire now request st0 =
     (case validateProviderCapacityRequest request of
        Some e \<Rightarrow> (st0, Inl e)
      | None \<Rightarrow>
          (let leaseID = TrimSpace (cq_LeaseID request);
               account = TrimSpace (cq_ProviderAccountID request);
               st = pruneLocked account now st0
           in case go_get (cs_leases st) leaseID of
                Some current \<Rightarrow>
                  if cl_ProviderAccountID current \<noteq> account \<or> cl_CapacityUnits current \<noteq> cq_CapacityUnits request
                  then (st, Inl ErrProviderCapacityConflict)
                  else
                    (let requestedExpiry = now + cq_LeaseDuration request in
                     if requestedExpiry > cl_ExpiresAt current
                     then (let current = current\<lparr>cl_ExpiresAt := requestedExpiry\<rparr> in
                           (st\<lparr>cs_leases := go_set (cl_ID current) current (cs_leases st)\<rparr>, Inr (current, [], True)))
                     else (st, Inr (current, [], True)))
              | None \<Rightarrow>
                  (let snapshot = snapshotLocked st account in
                   if cq_ConcurrencyLimit request > 0 \<and>
                      wrap64 (cn_CapacityUnits snapshot + cq_CapacityUnits request) > cq_ConcurrencyLimit request
                   then (st, Inr (zero_lease, ''concurrency_exhausted'', False))
                   else if cq_RPMLimit request > 0 \<and> cn_Requests snapshot \<ge> cq_RPMLimit request
                   then (st, Inr (zero_lease, ''rpm_exhausted'', False))
                   else if cq_TPMLimit request > 0 \<and>
                      wrap64 (cn_Tokens snapshot + cq_EstimatedTokens request) > cq_TPMLimit request
                   then (st, Inr (zero_lease, ''tpm_exhausted'', False))
                   else
                     (let lease = \<lparr>cl_ID = leaseID, cl_ProviderAccountID = account,
                                   cl_CapacityUnits = cq_CapacityUnits request,
                                   cl_ExpiresAt = now + cq_LeaseDuration request\<rparr>;
                          st1 = st\<lparr>cs_leases := go_set leaseID lease (cs_leases st)\<rparr>;
                          st2 = (if cq_RPMLimit request > 0 \<or> cq_TPMLimit request > 0
                                 then st1\<lparr>cs_samples := go_set account
                                        (samples_of st1 account @
                                          [\<lparr>rs_LeaseID = leaseID, rs_At = now, rs_EstimatedTokens = cq_EstimatedTokens request\<rparr>])
                                        (cs_samples st1)\<rparr>
                                 else st1)
                      in (st2, Inr (lease, [], True))))))"

definition Extend ::
  "gotime \<Rightarrow> ProviderCapacityLease \<Rightarrow> duration \<Rightarrow> MemoryProviderCapacityStore \<Rightarrow>
   MemoryProviderCapacityStore \<times> (capacity_error + ProviderCapacityLease \<times> bool)" where
  "Extend now lease duration st0 =
     (if validateProviderCapacityLease lease \<noteq> None \<or> duration \<le> 0
      then (st0, Inl ErrProviderCapacityConfig)
      else
        (let st = pruneLocked (cl_ProviderAccountID lease) now st0 in
         case go_get (cs_leases st) (cl_ID lease) of
           None \<Rightarrow> (st, Inr (zero_lease, False))
         | Some current \<Rightarrow>
             if cl_ProviderAccountID current \<noteq> cl_ProviderAccountID lease \<or>
                cl_CapacityUnits current \<noteq> cl_CapacityUnits lease
             then (st, Inr (current, False))
             else
               (let expiresAt = now + duration in
                if expiresAt > cl_ExpiresAt current
                then (let current = current\<lparr>cl_ExpiresAt := expiresAt\<rparr> in
                      (st\<lparr>cs_leases := go_set (cl_ID current) current (cs_leases st)\<rparr>, Inr (current, True)))
                else (st, Inr (current, True)))))"

definition Restore ::
  "gotime \<Rightarrow> ProviderCapacityLease \<Rightarrow> duration \<Rightarrow> MemoryProviderCapacityStore \<Rightarrow>
   MemoryProviderCapacityStore \<times> (capacity_error + ProviderCapacityLease)" where
  "Restore now lease duration st0 =
     (if validateProviderCapacityLease lease \<noteq> None \<or> duration \<le> 0
      then (st0, Inl ErrProviderCapacityConfig)
      else
        (let st = pruneLocked (cl_ProviderAccountID lease) now st0;
             conflict = (case go_get (cs_leases st) (cl_ID lease) of
                           Some current \<Rightarrow> cl_ProviderAccountID current \<noteq> cl_ProviderAccountID lease \<or>
                                           cl_CapacityUnits current \<noteq> cl_CapacityUnits lease
                         | None \<Rightarrow> False)
         in if conflict then (st, Inl ErrProviderCapacityConflict)
            else (let lease = lease\<lparr>cl_ExpiresAt := now + duration\<rparr> in
                  (st\<lparr>cs_leases := go_set (cl_ID lease) lease (cs_leases st)\<rparr>, Inr lease))))"

definition Release ::
  "ProviderCapacityLease \<Rightarrow> MemoryProviderCapacityStore \<Rightarrow> MemoryProviderCapacityStore \<times> capacity_error option" where
  "Release lease st =
     (case validateProviderCapacityLease lease of
        Some e \<Rightarrow> (st, Some e)
      | None \<Rightarrow>
          (case go_get (cs_leases st) (cl_ID lease) of
             None \<Rightarrow> (st, None)
           | Some current \<Rightarrow>
               if cl_ProviderAccountID current \<noteq> cl_ProviderAccountID lease \<or>
                  cl_CapacityUnits current \<noteq> cl_CapacityUnits lease
               then (st, Some ErrProviderCapacityConflict)
               else (st\<lparr>cs_leases := go_delete (cl_ID lease) (cs_leases st)\<rparr>, None)))"

definition Snapshot ::
  "gotime \<Rightarrow> string \<Rightarrow> MemoryProviderCapacityStore \<Rightarrow>
   MemoryProviderCapacityStore \<times> (capacity_error + ProviderCapacitySnapshot)" where
  "Snapshot now accountID st0 =
     (let account = TrimSpace accountID in
      if account = [] then (st0, Inl ErrProviderCapacityConfig)
      else (let st = pruneLocked account now st0 in (st, Inr (snapshotLocked st account))))"

section \<open>Account permits\<close>

record GatewayProviderLimits =
  gp_AccountID :: string
  gp_CircuitOpen :: bool
  gp_CircuitProbe :: bool
  gp_Concurrency :: int
  gp_RPMLimit :: int
  gp_TPMLimit :: int

text \<open>A permit: the lease it holds in the store, \<open>None\<close> for a provider without limits.\<close>

record providerAccountPermitState =
  pm_closed :: bool
  pm_lease :: "ProviderCapacityLease option"
  pm_lost :: "capacity_error option"

definition providerCapacityRequest :: "GatewayProviderLimits \<Rightarrow> int \<Rightarrow> string \<Rightarrow> ProviderCapacityRequest" where
  "providerCapacityRequest provider estimatedTokens leaseID =
     \<lparr>cq_LeaseID = TrimSpace leaseID, cq_ProviderAccountID = TrimSpace (gp_AccountID provider), cq_CapacityUnits = 1,
      cq_ConcurrencyLimit = (if gp_CircuitProbe provider then 1 else gp_Concurrency provider),
      cq_RPMLimit = gp_RPMLimit provider, cq_TPMLimit = gp_TPMLimit provider,
      cq_EstimatedTokens = nonNegative estimatedTokens, cq_LeaseDuration = providerCapacityLeaseTTL\<rparr>"

definition TryAcquireProviderAccountPermit ::
  "(gotime \<Rightarrow> ProviderCapacityRequest \<Rightarrow> 's \<Rightarrow> 's \<times> (capacity_error + ProviderCapacityLease \<times> string \<times> bool)) \<Rightarrow>
   string \<Rightarrow> gotime \<Rightarrow> GatewayProviderLimits \<Rightarrow> int \<Rightarrow> string \<Rightarrow> 's option \<Rightarrow>
   's option \<times> providerAccountPermitState option \<times> string \<times> capacity_error option" where
  "TryAcquireProviderAccountPermit acquire fresh now provider estimatedTokens leaseID0 store =
     (let account = TrimSpace (gp_AccountID provider);
          concurrencyLimit = (if gp_CircuitProbe provider then 1 else gp_Concurrency provider)
      in if account = [] then (store, None, ''provider_account_missing'', Some ErrProviderCapacityConfig)
         else if gp_CircuitOpen provider \<and> \<not> gp_CircuitProbe provider then (store, None, ''circuit_open'', None)
         else if concurrencyLimit \<le> 0 \<and> gp_RPMLimit provider \<le> 0 \<and> gp_TPMLimit provider \<le> 0
         then (store, Some \<lparr>pm_closed = False, pm_lease = None, pm_lost = None\<rparr>, [], None)
         else (case store of
                 None \<Rightarrow> (None, None, ''capacity_store_unavailable'', Some ErrProviderCapacityStoreUnavailable)
               | Some st \<Rightarrow>
                   (let leaseID = (if TrimSpace leaseID0 = [] then ''provider_lease_'' @ fresh else leaseID0) in
                    case acquire now (providerCapacityRequest provider estimatedTokens leaseID) st of
                      (st', Inl e) \<Rightarrow> (Some st', None, [], Some e)
                    | (st', Inr (lease, reason, acquired)) \<Rightarrow>
                        if \<not> acquired then
                          (Some st', None,
                           if gp_CircuitProbe provider \<and> reason = ''concurrency_exhausted'' then ''circuit_half_open_busy''
                           else if reason = ''concurrency_exhausted'' then ''at_capacity'' else reason, None)
                        else (Some st', Some \<lparr>pm_closed = False, pm_lease = Some lease, pm_lost = None\<rparr>, [], None))))"

text \<open>\<^verbatim>\<open>ProviderAccountPermit.Release\<close>: the first call releases the lease, every later one does nothing.\<close>

definition permit_Release ::
  "(ProviderCapacityLease \<Rightarrow> 's \<Rightarrow> 's \<times> capacity_error option) \<Rightarrow>
   's \<Rightarrow> providerAccountPermitState \<Rightarrow> 's \<times> providerAccountPermitState" where
  "permit_Release release st p =
     (if pm_closed p then (st, p)
      else (case pm_lease p of
              None \<Rightarrow> (st, p\<lparr>pm_closed := True\<rparr>)
            | Some lease \<Rightarrow> (fst (release lease st), p\<lparr>pm_closed := True\<rparr>)))"

definition permit_Retain where
  "permit_Retain extend_lease restore_lease now duration st p =
     (if pm_closed p then (st, p, None)
      else (case pm_lease p of
              None \<Rightarrow> (st, p\<lparr>pm_closed := True\<rparr>, None)
            | Some lease \<Rightarrow>
                (case extend_lease now lease duration st of
                   (st1, Inl e) \<Rightarrow> (st1, p\<lparr>pm_closed := True\<rparr>, Some e)
                 | (st1, Inr (extended, found)) \<Rightarrow>
                     if \<not> found then
                       (case restore_lease now lease duration st1 of
                          (st2, Inl e) \<Rightarrow> (st2, p\<lparr>pm_closed := True\<rparr>, Some e)
                        | (st2, Inr _) \<Rightarrow> (st2, p\<lparr>pm_closed := True\<rparr>, None))
                     else (st1, p\<lparr>pm_closed := True, pm_lease := Some extended\<rparr>, None))))"

text \<open>
  One tick of the heartbeat: \<^verbatim>\<open>extend\<close>, whose error \<^verbatim>\<open>signalLost\<close> reports once. The tick is one
  step here; in the code the store is called between two sections of the permit's mutex.
\<close>

definition permit_heartbeat where
  "permit_heartbeat extend_lease now st p =
     (if pm_closed p then (st, p)
      else (case pm_lease p of
              None \<Rightarrow> (st, p)
            | Some lease \<Rightarrow>
                (case extend_lease now lease providerCapacityLeaseTTL st of
                   (st1, Inl e) \<Rightarrow> (st1, p\<lparr>pm_lost := (case pm_lost p of None \<Rightarrow> Some e | x \<Rightarrow> x)\<rparr>)
                 | (st1, Inr (extended, found)) \<Rightarrow>
                     if \<not> found
                     then (st1, p\<lparr>pm_lost := (case pm_lost p of None \<Rightarrow> Some ErrProviderCapacityLeaseLost | x \<Rightarrow> x)\<rparr>)
                     else (st1, p\<lparr>pm_lease := Some extended\<rparr>))))"

definition providerCapacityRetentionDuration :: "gotime \<Rightarrow> gotime option \<Rightarrow> duration" where
  "providerCapacityRetentionDuration now reconcileAfter =
     (let duration = (case reconcileAfter of
                        Some t \<Rightarrow> if t > now then wrap64 (time_sub t now + providerCapacityLeaseGrace) else providerCapacityLeaseTTL
                      | None \<Rightarrow> providerCapacityLeaseTTL)
      in if duration > maxProviderCapacityLeaseDuration then maxProviderCapacityLeaseDuration else duration)"

definition providerCapacityLeaseID :: "string \<Rightarrow> int \<Rightarrow> string" where
  "providerCapacityLeaseID operationID attemptNumber =
     ''provider_lease_'' @ TrimSpace operationID @ ''_'' @ string_of_int attemptNumber"

section \<open>The contract of a capacity store\<close>

text \<open>
  \<^verbatim>\<open>ProviderCapacityStore\<close>: what the permits rely on. \<open>held\<close> is the lease stored under an ID, if any;
  expired leases may go at any operation.
\<close>

definition same_owner :: "ProviderCapacityLease \<Rightarrow> ProviderCapacityLease \<Rightarrow> bool" where
  "same_owner a b \<longleftrightarrow> cl_ID a = cl_ID b \<and> cl_ProviderAccountID a = cl_ProviderAccountID b \<and>
     cl_CapacityUnits a = cl_CapacityUnits b"

locale capacity_store =
  fixes acquire :: "gotime \<Rightarrow> ProviderCapacityRequest \<Rightarrow> 's \<Rightarrow> 's \<times> (capacity_error + ProviderCapacityLease \<times> string \<times> bool)"
    and extend_lease :: "gotime \<Rightarrow> ProviderCapacityLease \<Rightarrow> duration \<Rightarrow> 's \<Rightarrow> 's \<times> (capacity_error + ProviderCapacityLease \<times> bool)"
    and restore_lease :: "gotime \<Rightarrow> ProviderCapacityLease \<Rightarrow> duration \<Rightarrow> 's \<Rightarrow> 's \<times> (capacity_error + ProviderCapacityLease)"
    and release_lease :: "ProviderCapacityLease \<Rightarrow> 's \<Rightarrow> 's \<times> capacity_error option"
    and store_inv :: "'s \<Rightarrow> bool"
    and held :: "'s \<Rightarrow> string \<Rightarrow> ProviderCapacityLease option"
  assumes acquire_inv: "store_inv st \<Longrightarrow> acquire now q st = (st', r) \<Longrightarrow> store_inv st'"
    and extend_inv: "store_inv st \<Longrightarrow> extend_lease now l d st = (st', r') \<Longrightarrow> store_inv st'"
    and restore_inv: "store_inv st \<Longrightarrow> restore_lease now l d st = (st', r'') \<Longrightarrow> store_inv st'"
    and release_inv: "store_inv st \<Longrightarrow> release_lease l st = (st', e) \<Longrightarrow> store_inv st'"
    and acquire_granted: "store_inv st \<Longrightarrow> acquire now q st = (st', Inr (l, reason, True)) \<Longrightarrow>
      held st' (cl_ID l) = Some l \<and> cl_ID l = TrimSpace (cq_LeaseID q) \<and>
      cl_ProviderAccountID l = TrimSpace (cq_ProviderAccountID q) \<and> cl_CapacityUnits l = cq_CapacityUnits q \<and>
      now + cq_LeaseDuration q \<le> cl_ExpiresAt l"
    and extend_found: "store_inv st \<Longrightarrow> extend_lease now l d st = (st', Inr (l', True)) \<Longrightarrow>
      held st' (cl_ID l) = Some l' \<and> same_owner l' l \<and> now + d \<le> cl_ExpiresAt l'"
    and restore_ok: "store_inv st \<Longrightarrow> restore_lease now l d st = (st', Inr l') \<Longrightarrow>
      held st' (cl_ID l) = Some l' \<and> same_owner l' l \<and> cl_ExpiresAt l' = now + d"
    and release_ok: "store_inv st \<Longrightarrow> release_lease l st = (st', None) \<Longrightarrow> held st' (cl_ID l) = None"
begin

lemma retain_inv:
  "store_inv st \<Longrightarrow> permit_Retain extend_lease restore_lease now d st p = (st', p', e) \<Longrightarrow> store_inv st'"
  by (auto simp: permit_Retain_def split: if_splits option.splits prod.splits sum.splits
      dest: extend_inv restore_inv)

lemma retain_keeps:
  assumes "store_inv st" "\<not> pm_closed p" "pm_lease p = Some l"
    and "permit_Retain extend_lease restore_lease now d st p = (st', p', None)"
  shows "pm_closed p' \<and> (\<exists>l'. held st' (cl_ID l) = Some l' \<and> same_owner l' l \<and> now + d \<le> cl_ExpiresAt l')"
proof -
  obtain st1 r where e: "extend_lease now l d st = (st1, r)" by fastforce
  have i1: "store_inv st1" by (rule extend_inv [OF assms(1) e])
  show ?thesis
  proof (cases r)
    case (Inl a)
    with assms e show ?thesis by (simp add: permit_Retain_def)
  next
    case (Inr b)
    obtain l' found where b: "b = (l', found)" by fastforce
    show ?thesis
    proof (cases found)
      case True
      with assms e Inr b extend_found [of st now l d st1 l'] show ?thesis by (auto simp: permit_Retain_def)
    next
      case False
      obtain st2 r2 where r: "restore_lease now l d st1 = (st2, r2)" by fastforce
      with assms e Inr b False restore_ok [OF i1, of now l d st2] show ?thesis
        by (cases r2) (auto simp: permit_Retain_def)
    qed
  qed
qed

lemma release_frees:
  assumes "store_inv st" "\<not> pm_closed p" "pm_lease p = Some l" "snd (release_lease l st) = None"
    and "permit_Release release_lease st p = (st', p')"
  shows "held st' (cl_ID l) = None \<and> permit_Release release_lease st' p' = (st', p')"
  using assms release_ok [of st l "fst (release_lease l st)"]
  by (cases "release_lease l st") (auto simp: permit_Release_def)

lemma acquired_permit_held:
  assumes "store_inv st" "TryAcquireProviderAccountPermit acquire fresh now provider tokens leaseID (Some st) = (Some st', Some p, reason, e)"
    and "pm_lease p = Some l"
  shows "store_inv st' \<and> held st' (cl_ID l) = Some l \<and> now + providerCapacityLeaseTTL \<le> cl_ExpiresAt l \<and>
    cl_CapacityUnits l = 1 \<and> cl_ProviderAccountID l = TrimSpace (gp_AccountID provider)"
proof -
  obtain k r where a: "acquire now (providerCapacityRequest provider tokens k) st = (st', Inr (l, r, True))"
    using assms(2,3)
    by (auto simp: TryAcquireProviderAccountPermit_def Let_def split: if_splits prod.splits sum.splits)
  from acquire_inv [OF assms(1) a] acquire_granted [OF assms(1) a] show ?thesis
    by (auto simp: providerCapacityRequest_def)
qed

end

section \<open>The in-memory store keeps the contract\<close>

definition capacity_inv :: "MemoryProviderCapacityStore \<Rightarrow> bool" where
  "capacity_inv st \<longleftrightarrow> keyed cl_ID (cs_leases st) \<and> every (\<lambda>l. 0 < cl_CapacityUnits l) (cs_leases st)"

abbreviation held_lease :: "MemoryProviderCapacityStore \<Rightarrow> string \<Rightarrow> ProviderCapacityLease option" where
  "held_lease st k \<equiv> go_get (cs_leases st) k"

lemma capacity_inv_prune [simp]: "capacity_inv st \<Longrightarrow> capacity_inv (pruneLocked account now st)"
  by (auto simp: capacity_inv_def pruneLocked_def Let_def)

lemma capacity_inv_set:
  "capacity_inv st \<Longrightarrow> 0 < cl_CapacityUnits l \<Longrightarrow> k = cl_ID l \<Longrightarrow>
   capacity_inv (st\<lparr>cs_leases := go_set k l (cs_leases st)\<rparr>)"
  by (auto simp: capacity_inv_def keyed_go_set)

lemma capacity_inv_samples [simp]: "capacity_inv (st\<lparr>cs_samples := x\<rparr>) = capacity_inv st"
  by (simp add: capacity_inv_def)

lemma capacity_inv_get:
  "capacity_inv st \<Longrightarrow> go_get (cs_leases st) k = Some l \<Longrightarrow> cl_ID l = k \<and> 0 < cl_CapacityUnits l"
  by (auto simp: capacity_inv_def dest: keyed_get every_get)

lemma validate_units: "validateProviderCapacityRequest q = None \<Longrightarrow> 0 < cq_CapacityUnits q"
  "validateProviderCapacityLease l = None \<Longrightarrow> 0 < cl_CapacityUnits l"
  by (auto simp: validateProviderCapacityRequest_def validateProviderCapacityLease_def split: if_splits)

lemma Acquire_inv: "capacity_inv st \<Longrightarrow> Acquire now q st = (st', r) \<Longrightarrow> capacity_inv st'"
  by (auto simp: Acquire_def Let_def validate_units intro!: capacity_inv_set
      dest: capacity_inv_get [OF capacity_inv_prune] split: option.splits if_splits)

lemma Extend_inv: "capacity_inv st \<Longrightarrow> Extend now l d st = (st', r) \<Longrightarrow> capacity_inv st'"
  by (auto simp: Extend_def Let_def intro!: capacity_inv_set
      dest: capacity_inv_get [OF capacity_inv_prune] split: option.splits if_splits)

lemma Restore_inv: "capacity_inv st \<Longrightarrow> Restore now l d st = (st', r) \<Longrightarrow> capacity_inv st'"
  by (auto simp: Restore_def Let_def validate_units intro!: capacity_inv_set split: option.splits if_splits)

lemma Release_inv: "capacity_inv st \<Longrightarrow> Release l st = (st', e) \<Longrightarrow> capacity_inv st'"
  by (auto simp: Release_def capacity_inv_def keyed_go_delete split: option.splits if_splits)

lemma Acquire_granted:
  assumes "capacity_inv st" "Acquire now q st = (st', Inr (l, reason, True))"
  shows "held_lease st' (cl_ID l) = Some l \<and> cl_ID l = TrimSpace (cq_LeaseID q) \<and>
      cl_ProviderAccountID l = TrimSpace (cq_ProviderAccountID q) \<and> cl_CapacityUnits l = cq_CapacityUnits q \<and>
      now + cq_LeaseDuration q \<le> cl_ExpiresAt l"
  using assms
  by (auto simp: Acquire_def Let_def update_conv'
      dest: capacity_inv_get [OF capacity_inv_prune] split: option.splits if_splits)

lemma Extend_found:
  assumes "capacity_inv st" "Extend now l d st = (st', Inr (l', True))"
  shows "held_lease st' (cl_ID l) = Some l' \<and> same_owner l' l \<and> now + d \<le> cl_ExpiresAt l'"
  using assms
  by (auto simp: Extend_def Let_def update_conv' same_owner_def
      dest: capacity_inv_get [OF capacity_inv_prune] split: option.splits if_splits)

interpretation memory_store: capacity_store Acquire Extend Restore Release capacity_inv held_lease
proof (unfold_locales, goal_cases)
  case (7 st now l d st' l')
  then show ?case
    by (auto simp: Restore_def Let_def update_conv' same_owner_def split: option.splits if_splits)
next
  case (8 st l st')
  then show ?case by (auto simp: Release_def AList.delete_conv' split: option.splits if_splits)
qed (blast intro: Acquire_inv Extend_inv Restore_inv Release_inv dest: Acquire_granted Extend_found)+

section \<open>Limits\<close>

text \<open>The capacity units an account holds.\<close>

definition units_of :: "ProviderCapacityLease gomap \<Rightarrow> string \<Rightarrow> int" where
  "units_of m account = sum_list (map cl_CapacityUnits (filter (\<lambda>l. cl_ProviderAccountID l = account) (go_values m)))"

lemma units_of_set_new:
  "go_get m k = None \<Longrightarrow>
   units_of (go_set k l m) a = units_of m a + (if cl_ProviderAccountID l = a then cl_CapacityUnits l else 0)"
  by (induction m) (auto simp: units_of_def split: if_splits)

lemma units_of_set_same:
  "go_get m k = Some l \<Longrightarrow> cl_ProviderAccountID l' = cl_ProviderAccountID l \<Longrightarrow> cl_CapacityUnits l' = cl_CapacityUnits l \<Longrightarrow>
   units_of (go_set k l' m) a = units_of m a"
  by (induction m) (auto simp: units_of_def split: if_splits)

lemma units_of_filter: "every (\<lambda>l. 0 < cl_CapacityUnits l) m \<Longrightarrow> units_of (filter P m) a \<le> units_of m a"
  by (induction m) (auto simp: units_of_def every_def)

lemma units_of_delete: "every (\<lambda>l. 0 < cl_CapacityUnits l) m \<Longrightarrow> units_of (go_delete k m) a \<le> units_of m a"
  unfolding AList.delete_eq by (rule units_of_filter)

lemma units_of_nonneg: "every (\<lambda>l. 0 < cl_CapacityUnits l) m \<Longrightarrow> 0 \<le> units_of m a"
  by (induction m) (auto simp: units_of_def every_def)

lemma units_of_prune:
  "capacity_inv st \<Longrightarrow> units_of (cs_leases (pruneLocked account now st)) a \<le> units_of (cs_leases st) a"
  unfolding capacity_inv_def pruneLocked_def Let_def
  using units_of_filter [of "cs_leases st"] by simp

lemma snapshot_units: "cn_CapacityUnits (snapshotLocked st a) = wrap64 (units_of (cs_leases st) a)"
  by (simp add: snapshotLocked_def units_of_def wrap_sum_eq)

lemma Acquire_units:
  assumes inv: "capacity_inv st" and le: "units_of (cs_leases st) a \<le> B" and "B \<le> max_int64"
    and q: "TrimSpace (cq_ProviderAccountID q) = a \<Longrightarrow> 0 < cq_ConcurrencyLimit q \<and> cq_ConcurrencyLimit q \<le> B \<and> cq_CapacityUnits q \<le> max_int64 - B"
    and r: "Acquire now q st = (st', r)"
  shows "units_of (cs_leases st') a \<le> B"
    and "TrimSpace (cq_ProviderAccountID q) = a \<Longrightarrow> go_get (cs_leases (pruneLocked a now st)) (TrimSpace (cq_LeaseID q)) = None \<Longrightarrow>
      r = Inr (l, reason, True) \<Longrightarrow> units_of (cs_leases st') a \<le> cq_ConcurrencyLimit q"
proof -
  let ?b = "TrimSpace (cq_ProviderAccountID q)"
  let ?p = "pruneLocked ?b now st"
  have inv': "capacity_inv ?p" using inv by simp
  have p: "units_of (cs_leases ?p) a \<le> B" using units_of_prune [OF inv, of ?b now a] le by linarith
  have nn: "0 \<le> units_of (cs_leases ?p) a" using inv' by (simp add: capacity_inv_def units_of_nonneg)
  have fits: "units_of (cs_leases ?p) a + cq_CapacityUnits q \<le> cq_ConcurrencyLimit q"
    if "?b = a" "\<not> wrap64 (wrap64 (units_of (cs_leases ?p) a) + cq_CapacityUnits q) > cq_ConcurrencyLimit q"
      "0 < cq_CapacityUnits q"
  proof -
    have "int64_ok (units_of (cs_leases ?p) a + cq_CapacityUnits q)" "int64_ok (units_of (cs_leases ?p) a)"
      using nn p q [OF that(1)] that(3) assms(3) by (auto simp: int64_ok_def)
    with that show ?thesis by simp
  qed
  consider (same) "units_of (cs_leases st') a = units_of (cs_leases ?p) a" "?b = a \<Longrightarrow>
        go_get (cs_leases ?p) (TrimSpace (cq_LeaseID q)) \<noteq> None \<or> (\<forall>l reason. r \<noteq> Inr (l, reason, True))"
    | (unchanged) "st' = st" "\<forall>l reason. r \<noteq> Inr (l, reason, True)"
    | (grown) l where "validateProviderCapacityRequest q = None" "go_get (cs_leases ?p) (TrimSpace (cq_LeaseID q)) = None"
        "cs_leases st' = go_set (TrimSpace (cq_LeaseID q)) l (cs_leases ?p)"
        "cl_ProviderAccountID l = ?b" "cl_CapacityUnits l = cq_CapacityUnits q"
        "\<not> (cq_ConcurrencyLimit q > 0 \<and> wrap64 (cn_CapacityUnits (snapshotLocked ?p ?b) + cq_CapacityUnits q) > cq_ConcurrencyLimit q)"
    using r capacity_inv_get [OF inv']
    by (fastforce simp: Acquire_def Let_def units_of_set_same split: option.splits if_splits)
  note cases = this
  have new_fits: "units_of (cs_leases st') a \<le> cq_ConcurrencyLimit q" if "?b = a" "validateProviderCapacityRequest q = None"
      "go_get (cs_leases ?p) (TrimSpace (cq_LeaseID q)) = None" "cs_leases st' = go_set (TrimSpace (cq_LeaseID q)) l (cs_leases ?p)"
      "cl_ProviderAccountID l = ?b" "cl_CapacityUnits l = cq_CapacityUnits q"
      "\<not> (cq_ConcurrencyLimit q > 0 \<and> wrap64 (cn_CapacityUnits (snapshotLocked ?p ?b) + cq_CapacityUnits q) > cq_ConcurrencyLimit q)" for l
    using that fits validate_units(1) [OF that(2)] q by (auto simp: units_of_set_new snapshot_units)
  from cases show "units_of (cs_leases st') a \<le> B"
  proof cases
    case (grown l)
    then show ?thesis using new_fits [OF _ grown] p q by (cases "?b = a") (auto simp: units_of_set_new)
  qed (use p le in auto)
  from cases show "units_of (cs_leases st') a \<le> cq_ConcurrencyLimit q"
    if "?b = a" "go_get (cs_leases (pruneLocked a now st)) (TrimSpace (cq_LeaseID q)) = None" "r = Inr (l, reason, True)"
  proof cases
    case (grown l)
    then show ?thesis using new_fits [OF _ grown] that by auto
  qed (use that in auto)
qed

text \<open>A sequence of store operations.\<close>

datatype capacity_op =
    OpAcquire gotime ProviderCapacityRequest
  | OpExtend gotime ProviderCapacityLease duration
  | OpRestore gotime ProviderCapacityLease duration
  | OpRelease ProviderCapacityLease
  | OpSnapshot gotime string

fun capacity_apply :: "MemoryProviderCapacityStore \<Rightarrow> capacity_op \<Rightarrow> MemoryProviderCapacityStore" where
  "capacity_apply st (OpAcquire now q) = fst (Acquire now q st)"
| "capacity_apply st (OpExtend now l d) = fst (Extend now l d st)"
| "capacity_apply st (OpRestore now l d) = fst (Restore now l d st)"
| "capacity_apply st (OpRelease l) = fst (Release l st)"
| "capacity_apply st (OpSnapshot now a) = fst (Snapshot now a st)"

text \<open>
  The acquisitions of the account carry positive limits of at most \<open>L\<close>, and units that do not overflow 64 bits
  together with what the account may hold, \<open>B\<close>.
\<close>

fun op_respects :: "string \<Rightarrow> int \<Rightarrow> int \<Rightarrow> capacity_op \<Rightarrow> bool" where
  "op_respects a L B (OpAcquire now q) \<longleftrightarrow>
     (TrimSpace (cq_ProviderAccountID q) = a \<longrightarrow>
        0 < cq_ConcurrencyLimit q \<and> cq_ConcurrencyLimit q \<le> L \<and> cq_CapacityUnits q \<le> max_int64 - B)"
| "op_respects a L B _ \<longleftrightarrow> True"

text \<open>The units that a call of \<^verbatim>\<open>Restore\<close> may put back, which it does without asking for the limit.\<close>

fun restored :: "string \<Rightarrow> capacity_op \<Rightarrow> int" where
  "restored a (OpRestore now l d) = (if cl_ProviderAccountID l = a then max 0 (cl_CapacityUnits l) else 0)"
| "restored a _ = 0"

lemma restored_nonneg: "0 \<le> restored a oper"
  by (cases oper) auto

lemma capacity_apply_inv: "capacity_inv st \<Longrightarrow> capacity_inv (capacity_apply st oper)"
  by (cases oper)
    (auto simp: Snapshot_def Let_def intro: Acquire_inv Extend_inv Restore_inv Release_inv prod.collapse [symmetric])

lemma Extend_units:
  assumes inv: "capacity_inv st" and r: "Extend now l d st = (st', r)"
  shows "units_of (cs_leases st') a \<le> units_of (cs_leases st) a"
proof -
  let ?p = "pruneLocked (cl_ProviderAccountID l) now st"
  have "st' = st \<or> units_of (cs_leases st') a = units_of (cs_leases ?p) a"
    using r capacity_inv_get [of ?p] inv
    by (fastforce simp: Extend_def Let_def units_of_set_same split: option.splits if_splits)
  then show ?thesis using units_of_prune [OF inv, of "cl_ProviderAccountID l" now a] by auto
qed

lemma Restore_units:
  assumes inv: "capacity_inv st" and r: "Restore now l d st = (st', r)"
  shows "units_of (cs_leases st') a \<le> units_of (cs_leases st) a + restored a (OpRestore now l d)"
proof -
  let ?p = "pruneLocked (cl_ProviderAccountID l) now st"
  let ?l = "l\<lparr>cl_ExpiresAt := now + d\<rparr>"
  have inv': "capacity_inv ?p" using inv by simp
  have le: "units_of (cs_leases ?p) a \<le> units_of (cs_leases st) a" by (rule units_of_prune [OF inv])
  consider "st' = st" | "st' = ?p" | "cs_leases st' = go_set (cl_ID l) ?l (cs_leases ?p)" "go_get (cs_leases ?p) (cl_ID l) = None"
    | current where "cs_leases st' = go_set (cl_ID l) ?l (cs_leases ?p)" "go_get (cs_leases ?p) (cl_ID l) = Some current"
        "cl_ProviderAccountID current = cl_ProviderAccountID l" "cl_CapacityUnits current = cl_CapacityUnits l"
    using r by (fastforce simp: Restore_def Let_def split: option.splits if_splits)
  then show ?thesis
  proof cases
    case 4
    then have "units_of (cs_leases st') a = units_of (cs_leases ?p) a" using capacity_inv_get [OF inv'] by (simp add: units_of_set_same)
    then show ?thesis using le restored_nonneg [of a "OpRestore now l d"] by simp
  qed (use le restored_nonneg [of a "OpRestore now l d"] in \<open>auto simp: units_of_set_new\<close>)
qed

lemma capacity_apply_units:
  assumes inv: "capacity_inv st" and le: "units_of (cs_leases st) a \<le> C" and C: "L \<le> C" "C + restored a oper \<le> B" "B \<le> max_int64"
    and r: "op_respects a L B oper"
  shows "units_of (cs_leases (capacity_apply st oper)) a \<le> C + restored a oper"
proof (cases oper)
  case (OpAcquire now q)
  have "C \<le> B" using C OpAcquire by simp
  then have "units_of (cs_leases (fst (Acquire now q st))) a \<le> C"
    using r C by (intro Acquire_units(1) [OF inv le _ _ prod.collapse [symmetric]]) (auto simp: OpAcquire)
  with OpAcquire show ?thesis by simp
next
  case (OpExtend now l d)
  with le show ?thesis using Extend_units [OF inv prod.collapse [symmetric], of now l d a] by simp
next
  case (OpRestore now l d)
  with le show ?thesis using Restore_units [OF inv prod.collapse [symmetric], of now l d a] by simp
next
  case (OpRelease l)
  have "units_of (cs_leases (fst (Release l st))) a \<le> units_of (cs_leases st) a"
    using inv units_of_delete by (auto simp: Release_def capacity_inv_def split: option.splits)
  with OpRelease le show ?thesis by simp
next
  case (OpSnapshot now b)
  with le show ?thesis using units_of_prune [OF inv, of "TrimSpace b" now a] by (simp add: Snapshot_def Let_def)
qed

lemma capacity_inv_new: "capacity_inv NewMemoryProviderCapacityStore"
  by (simp add: capacity_inv_def NewMemoryProviderCapacityStore_def)

lemma capacity_run:
  "capacity_inv st \<Longrightarrow> units_of (cs_leases st) a \<le> C \<Longrightarrow> L \<le> C \<Longrightarrow> C + (\<Sum>oper \<leftarrow> ops. restored a oper) \<le> B \<Longrightarrow> B \<le> max_int64 \<Longrightarrow>
   list_all (op_respects a L B) ops \<Longrightarrow>
   capacity_inv (foldl capacity_apply st ops) \<and> units_of (cs_leases (foldl capacity_apply st ops)) a \<le> C + (\<Sum>oper \<leftarrow> ops. restored a oper)"
proof (induction ops arbitrary: st C)
  case (Cons oper ops)
  have "0 \<le> (\<Sum>oper \<leftarrow> ops. restored a oper)" by (intro sum_list_nonneg) (auto simp: restored_nonneg)
  then have "units_of (cs_leases (capacity_apply st oper)) a \<le> C + restored a oper"
    using Cons.prems by (intro capacity_apply_units [where L = L and B = B]) auto
  then show ?case
    using Cons.IH [OF capacity_apply_inv [OF Cons.prems(1), of oper], of "C + restored a oper"] Cons.prems restored_nonneg [of a oper]
    by (simp add: add.assoc)
qed simp


definition example_request :: "string \<Rightarrow> ProviderCapacityRequest" where
  "example_request lease = \<lparr>cq_LeaseID = lease, cq_ProviderAccountID = ''acc '', cq_CapacityUnits = 1,
     cq_ConcurrencyLimit = 1, cq_RPMLimit = 1, cq_TPMLimit = 0, cq_EstimatedTokens = 0, cq_LeaseDuration = 10\<rparr>"

lemma trim_example: "TrimSpace ''acc '' = ''acc''" "TrimSpace ''a'' = ''a''" "TrimSpace ''acc'' = ''acc''"
  by code_simp+

definition example_restored :: ProviderCapacityLease where
  "example_restored = \<lparr>cl_ID = ''r'', cl_ProviderAccountID = ''acc'', cl_CapacityUnits = 2, cl_ExpiresAt = 0\<rparr>"


text \<open>
  Rate limits hold. When an acquisition is granted for a lease that is not held yet, every
  sample the account keeps was taken within the last minute, there are at most as many of them as
  the account's requests-per-minute limit, and the tokens they add up to (as the 64-bit sum the
  code computes) do not exceed the tokens-per-minute limit.
\<close>

theorem Acquire_rate_limits:
  assumes "Acquire now q st = (st', Inr (l, reason, True))"
    and "go_get (cs_leases (pruneLocked (TrimSpace (cq_ProviderAccountID q)) now st)) (TrimSpace (cq_LeaseID q)) = None"
  shows "(\<forall>s \<in> set (samples_of st' (cl_ProviderAccountID l)). rs_At s > now - providerCapacityRateWindow) \<and>
    (cq_RPMLimit q > 0 \<longrightarrow> int (length (samples_of st' (cl_ProviderAccountID l))) \<le> cq_RPMLimit q) \<and>
    (cq_TPMLimit q > 0 \<longrightarrow>
       wrap_sum (map rs_EstimatedTokens (samples_of st' (cl_ProviderAccountID l))) \<le> cq_TPMLimit q)"
proof -
  let ?a = "TrimSpace (cq_ProviderAccountID q)" and ?p = "pruneLocked (TrimSpace (cq_ProviderAccountID q)) now st"
  let ?x = "\<lparr>rs_LeaseID = TrimSpace (cq_LeaseID q), rs_At = now, rs_EstimatedTokens = cq_EstimatedTokens q\<rparr>"
  have win: "\<forall>s \<in> set (samples_of ?p ?a). rs_At s > now - providerCapacityRateWindow"
    by (simp add: pruneLocked_def Let_def samples_of_def [of "_\<lparr>cs_leases := _, cs_samples := _\<rparr>"] update_conv')
  have g: "cl_ProviderAccountID l = ?a"
    "\<not> (cq_RPMLimit q > 0 \<and> int (length (samples_of ?p ?a)) \<ge> cq_RPMLimit q)"
    "\<not> (cq_TPMLimit q > 0 \<and> wrap64 (wrap_sum (map rs_EstimatedTokens (samples_of ?p ?a)) + cq_EstimatedTokens q) > cq_TPMLimit q)"
    "samples_of st' ?a = (if cq_RPMLimit q > 0 \<or> cq_TPMLimit q > 0 then samples_of ?p ?a @ [?x] else samples_of ?p ?a)"
    using assms by (auto simp: Acquire_def Let_def snapshotLocked_def samples_of_def update_conv'
        split: option.splits if_splits)
  from win g show ?thesis by (auto simp: wrap_sum_def)
qed

lemma example_acquire: "\<exists>l. Acquire 1000 (example_request ''a'') NewMemoryProviderCapacityStore =
  (fst (Acquire 1000 (example_request ''a'') NewMemoryProviderCapacityStore), Inr (l, [], True))"
  by (simp add: Acquire_def Let_def example_request_def validateProviderCapacityRequest_def trim_example
      pruneLocked_def NewMemoryProviderCapacityStore_def samples_of_def snapshotLocked_def wrap_sum_eq int64_ok_def)

theorem Acquire_rate_limits_witness:
  "\<exists>st' l. Acquire 1000 (example_request ''a'') NewMemoryProviderCapacityStore = (st', Inr (l, [], True)) \<and>
     length (samples_of st' (cl_ProviderAccountID l)) \<le> 1"
proof -
  obtain st' l where a: "Acquire 1000 (example_request ''a'') NewMemoryProviderCapacityStore = (st', Inr (l, [], True))"
    using example_acquire by blast
  have "cq_RPMLimit (example_request ''a'') = 1" by (simp add: example_request_def)
  with a Acquire_rate_limits [OF a] show ?thesis
    by (auto simp: pruneLocked_def NewMemoryProviderCapacityStore_def samples_of_def)
qed

text \<open>
  Acquiring is idempotent while the lease lives. Repeating a granted request before its lease
  expires returns the lease of the same ID, account and units, takes no further capacity and records
  no further rate sample.
\<close>

theorem Acquire_idempotent:
  assumes "capacity_inv st" "Acquire now q st = (st', Inr (l, reason, True))"
    and "now \<le> later" "later < cl_ExpiresAt l" "Acquire later q st' = (st'', r)"
  shows "\<exists>l'. r = Inr (l', [], True) \<and> same_owner l' l \<and> cl_ExpiresAt l \<le> cl_ExpiresAt l' \<and>
    units_of (cs_leases st'') (cl_ProviderAccountID l) \<le> units_of (cs_leases st') (cl_ProviderAccountID l) \<and>
    set (samples_of st'' (cl_ProviderAccountID l)) \<subseteq> set (samples_of st' (cl_ProviderAccountID l))"
proof -
  let ?a = "TrimSpace (cq_ProviderAccountID q)" and ?k = "TrimSpace (cq_LeaseID q)"
  let ?p = "pruneLocked ?a later st'"
  note g = Acquire_granted [OF assms(1,2)]
  have inv: "capacity_inv st'" by (rule Acquire_inv [OF assms(1,2)])
  have valid: "validateProviderCapacityRequest q = None"
    using assms(2) by (auto simp: Acquire_def split: option.splits)
  have kept: "go_get (cs_leases ?p) ?k = Some l"
  proof -
    have "(?k, l) \<in> set (cs_leases ?p)"
      using g assms(4) by (auto simp: pruneLocked_def Let_def dest: map_of_SomeD)
    moreover have "distinct (map fst (cs_leases ?p))"
      using capacity_inv_prune [OF inv] by (simp add: capacity_inv_def keyed_def)
    ultimately show ?thesis by simp
  qed
  have s: "set (samples_of ?p ?a) \<subseteq> set (samples_of st' ?a)"
    by (auto simp: pruneLocked_def Let_def samples_of_def update_conv')
  have u: "units_of (cs_leases ?p) ?a \<le> units_of (cs_leases st') ?a"
    by (rule units_of_prune [OF inv])
  show ?thesis
    using assms(5) valid kept g s u
    by (auto simp: Acquire_def Let_def same_owner_def units_of_set_same samples_of_def split: if_splits)
qed

theorem Acquire_idempotent_witness:
  "\<exists>l st'. Acquire 1000 (example_request ''a'') NewMemoryProviderCapacityStore = (st', Inr (l, [], True)) \<and>
     (\<exists>l'. snd (Acquire 1005 (example_request ''a'') st') = Inr (l', [], True) \<and> same_owner l' l)"
proof -
  obtain st' l where a: "Acquire 1000 (example_request ''a'') NewMemoryProviderCapacityStore = (st', Inr (l, [], True))"
    using example_acquire by blast
  have "1005 < cl_ExpiresAt l"
    using Acquire_granted [OF capacity_inv_new a] by (simp add: example_request_def)
  with Acquire_idempotent [OF capacity_inv_new a _ _ prod.collapse [symmetric], of 1005] a
  show ?thesis by auto
qed

text \<open>
  C28: retaining a permit never loses capacity. When \<^verbatim>\<open>Retain\<close> succeeds on an open permit, the store
  holds a lease of the permit's account and units until at least the requested time, even when the
  lease had expired meanwhile; the permit is closed, so its later \<^verbatim>\<open>Release\<close> changes nothing.
\<close>

theorem permit_retain_keeps_capacity:
  assumes "capacity_inv st" "\<not> pm_closed p" "pm_lease p = Some l"
    and "permit_Retain Extend Restore now d st p = (st', p', None)"
  shows "(\<exists>l'. held_lease st' (cl_ID l) = Some l' \<and> same_owner l' l \<and> now + d \<le> cl_ExpiresAt l') \<and>
    capacity_inv st' \<and> permit_Release Release st' p' = (st', p')"
  using memory_store.retain_keeps [OF assms] memory_store.retain_inv [OF assms(1,4)]
  by (simp add: permit_Release_def)

definition example_permit :: providerAccountPermitState where
  "example_permit = \<lparr>pm_closed = False, pm_lease =
     Some \<lparr>cl_ID = ''a'', cl_ProviderAccountID = ''acc'', cl_CapacityUnits = 1, cl_ExpiresAt = 5\<rparr>, pm_lost = None\<rparr>"

theorem permit_retain_keeps_capacity_witness:
  "\<exists>st' p'. permit_Retain Extend Restore 7 10 NewMemoryProviderCapacityStore example_permit = (st', p', None) \<and>
     (\<exists>l'. held_lease st' ''a'' = Some l' \<and> 17 \<le> cl_ExpiresAt l')"
proof -
  obtain st' p' where r: "permit_Retain Extend Restore 7 10 NewMemoryProviderCapacityStore example_permit = (st', p', None)"
    by (simp add: permit_Retain_def example_permit_def Extend_def Restore_def Let_def
        validateProviderCapacityLease_def trim_example pruneLocked_def NewMemoryProviderCapacityStore_def)
  from permit_retain_keeps_capacity [OF capacity_inv_new _ _ r] r show ?thesis
    by (auto simp: example_permit_def)
qed

end
