(* ===== verification/AI_Job_Model.thy ===== *)
theory AI_Job_Model
  imports Prelude
begin

text \<open>
  Durable jobs, \<^verbatim>\<open>backend/internal/controlplane/ai_job_model.go\<close>: the job record, its status machine
  and its events. Status and event names are constants of the source; the lemmas
  \<open>aiJobStatus_distinct\<close> say that the statuses are pairwise different, so the definitions of the
  constants are not unfolded elsewhere.
\<close>

section \<open>Statuses and events\<close>

definition AIJobStatusAccepted :: string where "AIJobStatusAccepted = ''accepted''"
definition AIJobStatusQueued :: string where "AIJobStatusQueued = ''queued''"
definition AIJobStatusDispatching :: string where "AIJobStatusDispatching = ''dispatching''"
definition AIJobStatusRunning :: string where "AIJobStatusRunning = ''running''"
definition AIJobStatusCanceling :: string where "AIJobStatusCanceling = ''canceling''"
definition AIJobStatusCanceled :: string where "AIJobStatusCanceled = ''canceled''"
definition AIJobStatusSucceeded :: string where "AIJobStatusSucceeded = ''succeeded''"
definition AIJobStatusFailed :: string where "AIJobStatusFailed = ''failed''"
definition AIJobStatusUnknown :: string where "AIJobStatusUnknown = ''unknown''"
definition AIJobStatusExpired :: string where "AIJobStatusExpired = ''expired''"

definition AIJobEventQueued :: string where "AIJobEventQueued = ''job.queued''"
definition AIJobEventScheduled :: string where "AIJobEventScheduled = ''job.scheduled''"
definition AIJobEventRunning :: string where "AIJobEventRunning = ''job.running''"
definition AIJobEventCancelling :: string where "AIJobEventCancelling = ''job.cancelling''"
definition AIJobEventCancelled :: string where "AIJobEventCancelled = ''job.cancelled''"
definition AIJobEventCompleted :: string where "AIJobEventCompleted = ''job.completed''"
definition AIJobEventFailed :: string where "AIJobEventFailed = ''job.failed''"
definition AIJobEventUnknown :: string where "AIJobEventUnknown = ''job.unknown''"
definition AIJobEventExpired :: string where "AIJobEventExpired = ''job.expired''"
definition AIJobEventLeaseReassigned :: string where "AIJobEventLeaseReassigned = ''job.lease.reassigned''"
definition AIJobOutboxAggregate :: string where "AIJobOutboxAggregate = ''ai_job''"

lemmas aiJobStatus_defs =
  AIJobStatusAccepted_def AIJobStatusQueued_def AIJobStatusDispatching_def AIJobStatusRunning_def AIJobStatusCanceling_def AIJobStatusCanceled_def AIJobStatusSucceeded_def AIJobStatusFailed_def AIJobStatusUnknown_def AIJobStatusExpired_def

lemma aiJobStatus_distinct [simp, status_simps]:
  "AIJobStatusAccepted \<noteq> AIJobStatusQueued"
  "AIJobStatusAccepted \<noteq> AIJobStatusDispatching"
  "AIJobStatusAccepted \<noteq> AIJobStatusRunning"
  "AIJobStatusAccepted \<noteq> AIJobStatusCanceling"
  "AIJobStatusAccepted \<noteq> AIJobStatusCanceled"
  "AIJobStatusAccepted \<noteq> AIJobStatusSucceeded"
  "AIJobStatusAccepted \<noteq> AIJobStatusFailed"
  "AIJobStatusAccepted \<noteq> AIJobStatusUnknown"
  "AIJobStatusAccepted \<noteq> AIJobStatusExpired"
  "AIJobStatusQueued \<noteq> AIJobStatusAccepted"
  "AIJobStatusQueued \<noteq> AIJobStatusDispatching"
  "AIJobStatusQueued \<noteq> AIJobStatusRunning"
  "AIJobStatusQueued \<noteq> AIJobStatusCanceling"
  "AIJobStatusQueued \<noteq> AIJobStatusCanceled"
  "AIJobStatusQueued \<noteq> AIJobStatusSucceeded"
  "AIJobStatusQueued \<noteq> AIJobStatusFailed"
  "AIJobStatusQueued \<noteq> AIJobStatusUnknown"
  "AIJobStatusQueued \<noteq> AIJobStatusExpired"
  "AIJobStatusDispatching \<noteq> AIJobStatusAccepted"
  "AIJobStatusDispatching \<noteq> AIJobStatusQueued"
  "AIJobStatusDispatching \<noteq> AIJobStatusRunning"
  "AIJobStatusDispatching \<noteq> AIJobStatusCanceling"
  "AIJobStatusDispatching \<noteq> AIJobStatusCanceled"
  "AIJobStatusDispatching \<noteq> AIJobStatusSucceeded"
  "AIJobStatusDispatching \<noteq> AIJobStatusFailed"
  "AIJobStatusDispatching \<noteq> AIJobStatusUnknown"
  "AIJobStatusDispatching \<noteq> AIJobStatusExpired"
  "AIJobStatusRunning \<noteq> AIJobStatusAccepted"
  "AIJobStatusRunning \<noteq> AIJobStatusQueued"
  "AIJobStatusRunning \<noteq> AIJobStatusDispatching"
  "AIJobStatusRunning \<noteq> AIJobStatusCanceling"
  "AIJobStatusRunning \<noteq> AIJobStatusCanceled"
  "AIJobStatusRunning \<noteq> AIJobStatusSucceeded"
  "AIJobStatusRunning \<noteq> AIJobStatusFailed"
  "AIJobStatusRunning \<noteq> AIJobStatusUnknown"
  "AIJobStatusRunning \<noteq> AIJobStatusExpired"
  "AIJobStatusCanceling \<noteq> AIJobStatusAccepted"
  "AIJobStatusCanceling \<noteq> AIJobStatusQueued"
  "AIJobStatusCanceling \<noteq> AIJobStatusDispatching"
  "AIJobStatusCanceling \<noteq> AIJobStatusRunning"
  "AIJobStatusCanceling \<noteq> AIJobStatusCanceled"
  "AIJobStatusCanceling \<noteq> AIJobStatusSucceeded"
  "AIJobStatusCanceling \<noteq> AIJobStatusFailed"
  "AIJobStatusCanceling \<noteq> AIJobStatusUnknown"
  "AIJobStatusCanceling \<noteq> AIJobStatusExpired"
  "AIJobStatusCanceled \<noteq> AIJobStatusAccepted"
  "AIJobStatusCanceled \<noteq> AIJobStatusQueued"
  "AIJobStatusCanceled \<noteq> AIJobStatusDispatching"
  "AIJobStatusCanceled \<noteq> AIJobStatusRunning"
  "AIJobStatusCanceled \<noteq> AIJobStatusCanceling"
  "AIJobStatusCanceled \<noteq> AIJobStatusSucceeded"
  "AIJobStatusCanceled \<noteq> AIJobStatusFailed"
  "AIJobStatusCanceled \<noteq> AIJobStatusUnknown"
  "AIJobStatusCanceled \<noteq> AIJobStatusExpired"
  "AIJobStatusSucceeded \<noteq> AIJobStatusAccepted"
  "AIJobStatusSucceeded \<noteq> AIJobStatusQueued"
  "AIJobStatusSucceeded \<noteq> AIJobStatusDispatching"
  "AIJobStatusSucceeded \<noteq> AIJobStatusRunning"
  "AIJobStatusSucceeded \<noteq> AIJobStatusCanceling"
  "AIJobStatusSucceeded \<noteq> AIJobStatusCanceled"
  "AIJobStatusSucceeded \<noteq> AIJobStatusFailed"
  "AIJobStatusSucceeded \<noteq> AIJobStatusUnknown"
  "AIJobStatusSucceeded \<noteq> AIJobStatusExpired"
  "AIJobStatusFailed \<noteq> AIJobStatusAccepted"
  "AIJobStatusFailed \<noteq> AIJobStatusQueued"
  "AIJobStatusFailed \<noteq> AIJobStatusDispatching"
  "AIJobStatusFailed \<noteq> AIJobStatusRunning"
  "AIJobStatusFailed \<noteq> AIJobStatusCanceling"
  "AIJobStatusFailed \<noteq> AIJobStatusCanceled"
  "AIJobStatusFailed \<noteq> AIJobStatusSucceeded"
  "AIJobStatusFailed \<noteq> AIJobStatusUnknown"
  "AIJobStatusFailed \<noteq> AIJobStatusExpired"
  "AIJobStatusUnknown \<noteq> AIJobStatusAccepted"
  "AIJobStatusUnknown \<noteq> AIJobStatusQueued"
  "AIJobStatusUnknown \<noteq> AIJobStatusDispatching"
  "AIJobStatusUnknown \<noteq> AIJobStatusRunning"
  "AIJobStatusUnknown \<noteq> AIJobStatusCanceling"
  "AIJobStatusUnknown \<noteq> AIJobStatusCanceled"
  "AIJobStatusUnknown \<noteq> AIJobStatusSucceeded"
  "AIJobStatusUnknown \<noteq> AIJobStatusFailed"
  "AIJobStatusUnknown \<noteq> AIJobStatusExpired"
  "AIJobStatusExpired \<noteq> AIJobStatusAccepted"
  "AIJobStatusExpired \<noteq> AIJobStatusQueued"
  "AIJobStatusExpired \<noteq> AIJobStatusDispatching"
  "AIJobStatusExpired \<noteq> AIJobStatusRunning"
  "AIJobStatusExpired \<noteq> AIJobStatusCanceling"
  "AIJobStatusExpired \<noteq> AIJobStatusCanceled"
  "AIJobStatusExpired \<noteq> AIJobStatusSucceeded"
  "AIJobStatusExpired \<noteq> AIJobStatusFailed"
  "AIJobStatusExpired \<noteq> AIJobStatusUnknown"
  by (simp_all add: aiJobStatus_defs)

lemma aiJobStatus_nonempty [simp, status_simps]:
  "AIJobStatusAccepted \<noteq> []"
  "AIJobStatusQueued \<noteq> []"
  "AIJobStatusDispatching \<noteq> []"
  "AIJobStatusRunning \<noteq> []"
  "AIJobStatusCanceling \<noteq> []"
  "AIJobStatusCanceled \<noteq> []"
  "AIJobStatusSucceeded \<noteq> []"
  "AIJobStatusFailed \<noteq> []"
  "AIJobStatusUnknown \<noteq> []"
  "AIJobStatusExpired \<noteq> []"
  by (simp_all add: aiJobStatus_defs)

lemma aiJobEvent_nonempty [simp]:
  "AIJobEventQueued \<noteq> []"
  "AIJobEventScheduled \<noteq> []"
  "AIJobEventRunning \<noteq> []"
  "AIJobEventCancelling \<noteq> []"
  "AIJobEventCancelled \<noteq> []"
  "AIJobEventCompleted \<noteq> []"
  "AIJobEventFailed \<noteq> []"
  "AIJobEventUnknown \<noteq> []"
  "AIJobEventExpired \<noteq> []"
  "AIJobEventLeaseReassigned \<noteq> []"
  by (simp_all add: AIJobEventQueued_def AIJobEventScheduled_def AIJobEventRunning_def AIJobEventCancelling_def AIJobEventCancelled_def AIJobEventCompleted_def AIJobEventFailed_def AIJobEventUnknown_def AIJobEventExpired_def AIJobEventLeaseReassigned_def)

section \<open>Data\<close>

text \<open>The stored job; the clear-text payload is filled in by the service only and never stored.\<close>

record AIJob =
  job_ID :: string
  job_OperationID :: string
  job_ApplicationID :: string
  job_CredentialID :: string
  job_CredentialSource :: string
  job_IntegrationID :: string
  job_PrincipalType :: string
  job_PrincipalID :: string
  job_ExternalSubjectReference :: string
  job_RequestFingerprint :: string
  job_IdempotencyKey :: string
  job_Protocol :: string
  job_Operation :: string
  job_Modality :: string
  job_Model :: string
  job_ArtifactPolicy :: string
  job_ArtifactSinkID :: string
  job_RequestPayload :: string
  job_RequestPayloadCiphertext :: string
  job_Status :: string
  job_StatusVersion :: int
  job_Priority :: int
  job_NextEligibleAt :: gotime
  job_QueueLeaseUntil :: "gotime option"
  job_QueueLeaseToken :: string
  job_QueueWorkerID :: string
  job_FenceToken :: int
  job_ErrorType :: string
  job_CreatedAt :: gotime
  job_UpdatedAt :: gotime
  job_CompletedAt :: "gotime option"
  job_ExpiresAt :: gotime

record AIJobEvent =
  ev_ID :: string
  ev_JobID :: string
  ev_Version :: int
  ev_EventType :: string
  ev_FromStatus :: string
  ev_ToStatus :: string
  ev_Reason :: string
  ev_CreatedAt :: gotime

record AIJobOwner =
  ow_ApplicationID :: string
  ow_IntegrationID :: string
  ow_PrincipalType :: string
  ow_PrincipalID :: string
  ow_ExternalSubjectReference :: string

definition aiJobOwnerMatches :: "AIJob \<Rightarrow> AIJobOwner \<Rightarrow> bool" where
  "aiJobOwnerMatches job owner \<longleftrightarrow>
     job_ApplicationID job = ow_ApplicationID owner \<and> job_IntegrationID job = ow_IntegrationID owner \<and>
     job_PrincipalType job = ow_PrincipalType owner \<and> job_PrincipalID job = ow_PrincipalID owner \<and>
     job_ExternalSubjectReference job = ow_ExternalSubjectReference owner"

section \<open>The status machine\<close>

definition aiJobStatusTransitionAllowed :: "string \<Rightarrow> string \<Rightarrow> string \<Rightarrow> bool" where
  "aiJobStatusTransitionAllowed fromStatus toStatus reason =
     (if fromStatus = AIJobStatusAccepted then toStatus = AIJobStatusQueued \<or> toStatus = AIJobStatusCanceled
      else if fromStatus = AIJobStatusQueued then toStatus = AIJobStatusDispatching \<or> toStatus = AIJobStatusCanceled
      else if fromStatus = AIJobStatusDispatching then
        oneOf toStatus [AIJobStatusQueued, AIJobStatusRunning, AIJobStatusUnknown, AIJobStatusCanceling]
      else if fromStatus = AIJobStatusRunning then
        oneOf toStatus [AIJobStatusSucceeded, AIJobStatusFailed, AIJobStatusCanceling, AIJobStatusUnknown]
      else if fromStatus = AIJobStatusCanceling then
        oneOf toStatus [AIJobStatusCanceled, AIJobStatusSucceeded, AIJobStatusFailed]
      else if fromStatus = AIJobStatusUnknown then
        (if toStatus = AIJobStatusQueued then TrimSpace reason = ''proven_not_created''
         else oneOf toStatus [AIJobStatusRunning, AIJobStatusSucceeded, AIJobStatusFailed])
      else if fromStatus = AIJobStatusSucceeded \<or> fromStatus = AIJobStatusFailed \<or> fromStatus = AIJobStatusCanceled
      then toStatus = AIJobStatusExpired
      else False)"

definition aiJobEventType :: "string \<Rightarrow> string" where
  "aiJobEventType status =
     (if status = AIJobStatusQueued then AIJobEventQueued
      else if status = AIJobStatusDispatching then AIJobEventScheduled
      else if status = AIJobStatusRunning then AIJobEventRunning
      else if status = AIJobStatusCanceling then AIJobEventCancelling
      else if status = AIJobStatusCanceled then AIJobEventCancelled
      else if status = AIJobStatusSucceeded then AIJobEventCompleted
      else if status = AIJobStatusFailed then AIJobEventFailed
      else if status = AIJobStatusUnknown then AIJobEventUnknown
      else if status = AIJobStatusExpired then AIJobEventExpired
      else [])"

definition aiJobTerminalStatus :: "string \<Rightarrow> bool" where
  "aiJobTerminalStatus status =
     oneOf status [AIJobStatusSucceeded, AIJobStatusFailed, AIJobStatusCanceled, AIJobStatusExpired]"

text \<open>A status change some reason allows, and runs of changes.\<close>

inductive job_transition :: "string \<Rightarrow> string \<Rightarrow> bool" where
  allowed: "aiJobStatusTransitionAllowed s t reason \<Longrightarrow> job_transition s t"

inductive_cases job_transitionE: "job_transition s t"

lemma terminal_transition:
  "aiJobTerminalStatus s \<Longrightarrow> aiJobStatusTransitionAllowed s t reason \<Longrightarrow> t = AIJobStatusExpired \<and> s \<noteq> AIJobStatusExpired"
  by (auto simp: aiJobTerminalStatus_def aiJobStatusTransitionAllowed_def split: if_splits)

lemma transition_event: "aiJobStatusTransitionAllowed s t reason \<Longrightarrow> aiJobEventType t \<noteq> []"
  by (auto simp: aiJobStatusTransitionAllowed_def aiJobEventType_def split: if_splits)

lemma transition_irrefl: "\<not> aiJobStatusTransitionAllowed s s reason"
  by (auto simp: aiJobStatusTransitionAllowed_def split: if_splits)

lemma terminal_run:
  "job_transition\<^sup>*\<^sup>* s t \<Longrightarrow> aiJobTerminalStatus s \<Longrightarrow> t = s \<or> t = AIJobStatusExpired"
proof (induction rule: rtranclp_induct)
  case (step y z)
  moreover have "aiJobTerminalStatus AIJobStatusExpired" by (simp add: aiJobTerminalStatus_def)
  ultimately show ?case by (auto elim!: job_transitionE dest: terminal_transition)
qed simp

text \<open>
  The job status machine. A finished job (succeeded, failed, canceled or expired) never becomes
  unfinished again: the only status a run of allowed changes can reach from it is expiry, and expiry
  is final. Every allowed change has an event name, and no change keeps the status.
\<close>

theorem job_status_machine:
  "(aiJobTerminalStatus s \<and> job_transition\<^sup>*\<^sup>* s t \<longrightarrow> t = s \<or> t = AIJobStatusExpired) \<and>
   (job_transition\<^sup>*\<^sup>* AIJobStatusExpired t \<longrightarrow> t = AIJobStatusExpired) \<and>
   (aiJobStatusTransitionAllowed s t reason \<longrightarrow> aiJobEventType t \<noteq> [] \<and> t \<noteq> s)"
proof -
  have "aiJobTerminalStatus AIJobStatusExpired" by (simp add: aiJobTerminalStatus_def)
  then show ?thesis using terminal_run transition_event transition_irrefl by blast
qed

theorem job_status_machine_witness:
  "job_transition\<^sup>*\<^sup>* AIJobStatusSucceeded AIJobStatusExpired \<and> aiJobEventType AIJobStatusExpired \<noteq> []"
proof -
  have a: "aiJobStatusTransitionAllowed AIJobStatusSucceeded AIJobStatusExpired []"
    by (simp add: aiJobStatusTransitionAllowed_def)
  with job_status_machine [of AIJobStatusSucceeded AIJobStatusExpired "[]"] show ?thesis
    using allowed [OF a] by blast
qed

end
