(* ===== verification/AI_Job_Delivery_Queue.thy ===== *)
theory AI_Job_Delivery_Queue
  imports AI_Job_Model
begin

text \<open>
  The queue that delivers claimed jobs to workers: envelopes and the in-memory queue of
  \<^verbatim>\<open>backend/internal/controlplane/ai_job_delivery_queue.go\<close>.

  \<^verbatim>\<open>hashAPIKey\<close> (SHA-256 in hexadecimal) is the parameter \<open>hash\<close>; the random lease tokens of one
  \<^verbatim>\<open>Receive\<close> are the parameter \<open>rand\<close>. \<^verbatim>\<open>Receive\<close> takes the mutex once per turn of its waiting loop;
  \<open>receive_scan\<close> is one turn, and other operations may run between two turns. Cancelled contexts,
  which make an operation return before it touches the queue, are left out.
\<close>

section \<open>Envelopes\<close>

datatype delivery_error =
    ErrAIJobDeliveryEnvelopeInvalid
  | ErrAIJobDeliveryDedupeConflict
  | ErrAIJobDeliveryNotFound
  | ErrAIJobDeliveryLeaseConflict
  | ErrAIJobDeliveryLeaseExpired
  | ErrAIJobDeliveryLeaseDurationInvalid

abbreviation (input) aiJobDeliveryEnvelopeSchemaVersion :: int where "aiJobDeliveryEnvelopeSchemaVersion \<equiv> 1"

record AIJobDeliveryEnvelope =
  env_SchemaVersion :: int
  env_DeliveryID :: string
  env_JobID :: string
  env_OperationID :: string
  env_StatusVersion :: int
  env_FenceToken :: int
  env_QueueLeaseToken :: string

definition durableAIJobDeliveryIDParts :: "(string \<Rightarrow> string) \<Rightarrow> string \<Rightarrow> string \<Rightarrow> int \<Rightarrow> int \<Rightarrow> string" where
  "durableAIJobDeliveryIDParts hash jobID operationID statusVersion fenceToken =
     (if TrimSpace jobID = [] \<or> TrimSpace operationID = [] \<or> statusVersion \<le> 0 \<or> fenceToken \<le> 0 then []
      else ''job_delivery_'' @
        prefix_of (hash (jobID @ [CHR 0x00] @ operationID @ [CHR 0x00] @ string_of_int statusVersion @ [CHR 0x00] @
          string_of_int fenceToken)) 32)"

definition durableAIJobDeliveryID :: "(string \<Rightarrow> string) \<Rightarrow> AIJob \<Rightarrow> string" where
  "durableAIJobDeliveryID hash job =
     durableAIJobDeliveryIDParts hash (job_ID job) (job_OperationID job) (job_StatusVersion job) (job_FenceToken job)"

definition DedupeKey :: "AIJobDeliveryEnvelope \<Rightarrow> string" where
  "DedupeKey e = TrimSpace (env_DeliveryID e)"

definition validateAIJobDeliveryEnvelope :: "(string \<Rightarrow> string) \<Rightarrow> AIJobDeliveryEnvelope \<Rightarrow> delivery_error option" where
  "validateAIJobDeliveryEnvelope hash e =
     (if env_SchemaVersion e \<noteq> aiJobDeliveryEnvelopeSchemaVersion \<or> TrimSpace (env_DeliveryID e) = [] \<or>
         TrimSpace (env_JobID e) = [] \<or> TrimSpace (env_OperationID e) = [] \<or> env_StatusVersion e \<le> 0 \<or>
         env_FenceToken e \<le> 0 \<or> TrimSpace (env_QueueLeaseToken e) = []
      then Some ErrAIJobDeliveryEnvelopeInvalid
      else if env_DeliveryID e \<noteq>
          durableAIJobDeliveryIDParts hash (env_JobID e) (env_OperationID e) (env_StatusVersion e) (env_FenceToken e)
      then Some ErrAIJobDeliveryEnvelopeInvalid
      else None)"

definition NewAIJobDeliveryEnvelope :: "(string \<Rightarrow> string) \<Rightarrow> AIJob \<Rightarrow> delivery_error + AIJobDeliveryEnvelope" where
  "NewAIJobDeliveryEnvelope hash job =
     (let envelope = \<lparr>env_SchemaVersion = aiJobDeliveryEnvelopeSchemaVersion,
                      env_DeliveryID = durableAIJobDeliveryID hash job, env_JobID = TrimSpace (job_ID job),
                      env_OperationID = TrimSpace (job_OperationID job), env_StatusVersion = job_StatusVersion job,
                      env_FenceToken = job_FenceToken job, env_QueueLeaseToken = TrimSpace (job_QueueLeaseToken job)\<rparr>
      in case validateAIJobDeliveryEnvelope hash envelope of Some e \<Rightarrow> Inl e | None \<Rightarrow> Inr envelope)"

record AIJobDelivery =
  dl_ID :: string
  dl_Envelope :: AIJobDeliveryEnvelope
  dl_Consumer :: string
  dl_Attempt :: int
  dl_LeaseUntil :: gotime
  dl_LeaseToken :: string

section \<open>The in-memory queue\<close>

datatype memoryAIJobDeliveryStatus = DeliveryPending | DeliveryInflight | DeliveryAcked | DeliveryDead

record memoryAIJobDeliveryEntry =
  de_envelope :: AIJobDeliveryEnvelope
  de_dedupeKey :: string
  de_status :: memoryAIJobDeliveryStatus
  de_availableAt :: gotime
  de_leaseUntil :: gotime
  de_leaseToken :: string
  de_consumer :: string
  de_attempt :: int
  de_sequence :: int
  de_lastError :: string

record MemoryAIJobDeliveryQueue =
  dq_entries :: "memoryAIJobDeliveryEntry gomap"
  dq_byDedupe :: "string gomap"
  dq_deliveryLease :: duration
  dq_nextSequence :: int

definition NewMemoryAIJobDeliveryQueue :: "duration \<Rightarrow> delivery_error + MemoryAIJobDeliveryQueue" where
  "NewMemoryAIJobDeliveryQueue deliveryLease =
     (if deliveryLease \<le> 0 then Inl ErrAIJobDeliveryLeaseDurationInvalid
      else Inr \<lparr>dq_entries = [], dq_byDedupe = [], dq_deliveryLease = deliveryLease, dq_nextSequence = 0\<rparr>)"

definition new_entry :: "AIJobDeliveryEnvelope \<Rightarrow> string \<Rightarrow> gotime \<Rightarrow> int \<Rightarrow> memoryAIJobDeliveryEntry" where
  "new_entry envelope dedupeKey availableAt sequence =
     \<lparr>de_envelope = envelope, de_dedupeKey = dedupeKey, de_status = DeliveryPending, de_availableAt = availableAt,
      de_leaseUntil = zero_time, de_leaseToken = [], de_consumer = [], de_attempt = 0, de_sequence = sequence,
      de_lastError = []\<rparr>"

definition dq_Publish ::
  "(string \<Rightarrow> string) \<Rightarrow> gotime \<Rightarrow> AIJobDeliveryEnvelope \<Rightarrow> string \<Rightarrow> gotime \<Rightarrow> MemoryAIJobDeliveryQueue \<Rightarrow>
   MemoryAIJobDeliveryQueue \<times> delivery_error option" where
  "dq_Publish hash now envelope dedupeKey0 availableAt0 q =
     (case validateAIJobDeliveryEnvelope hash envelope of
        Some e \<Rightarrow> (q, Some e)
      | None \<Rightarrow>
          (let k = TrimSpace dedupeKey0;
               dedupeKey = (if k = [] then DedupeKey envelope else k);
               availableAt = (if availableAt0 = zero_time then now else availableAt0)
           in if dedupeKey = [] then (q, Some ErrAIJobDeliveryEnvelopeInvalid)
              else (case go_get (dq_byDedupe q) dedupeKey of
                      Some existingID \<Rightarrow>
                        (case go_get (dq_entries q) existingID of
                           Some existing \<Rightarrow>
                             if de_envelope existing \<noteq> envelope then (q, Some ErrAIJobDeliveryDedupeConflict) else (q, None)
                         | None \<Rightarrow> (q, None))
                    | None \<Rightarrow>
                        (case go_get (dq_entries q) (env_DeliveryID envelope) of
                           Some existing \<Rightarrow>
                             if de_envelope existing \<noteq> envelope \<or> de_dedupeKey existing \<noteq> dedupeKey
                             then (q, Some ErrAIJobDeliveryDedupeConflict) else (q, None)
                         | None \<Rightarrow>
                             (let sequence = dq_nextSequence q + 1 in
                              (q\<lparr>dq_nextSequence := sequence,
                                 dq_entries := go_set (env_DeliveryID envelope)
                                   (new_entry envelope dedupeKey availableAt sequence) (dq_entries q),
                                 dq_byDedupe := go_set dedupeKey (env_DeliveryID envelope) (dq_byDedupe q)\<rparr>, None))))))"

definition reclaim_entry :: "gotime \<Rightarrow> memoryAIJobDeliveryEntry \<Rightarrow> memoryAIJobDeliveryEntry" where
  "reclaim_entry now e =
     (if de_status e \<noteq> DeliveryInflight \<or> de_leaseUntil e > now then e
      else e\<lparr>de_status := DeliveryPending, de_availableAt := now, de_leaseUntil := zero_time, de_leaseToken := [],
             de_consumer := []\<rparr>)"

definition reclaimExpiredLocked :: "gotime \<Rightarrow> MemoryAIJobDeliveryQueue \<Rightarrow> MemoryAIJobDeliveryQueue" where
  "reclaimExpiredLocked now q = q\<lparr>dq_entries := map (\<lambda>(k, e). (k, reclaim_entry now e)) (dq_entries q)\<rparr>"

definition delivery_less :: "memoryAIJobDeliveryEntry \<Rightarrow> memoryAIJobDeliveryEntry \<Rightarrow> bool" where
  "delivery_less a b =
     (if de_availableAt a \<noteq> de_availableAt b then de_availableAt a < de_availableAt b
      else de_sequence a < de_sequence b)"

definition entry_ready :: "gotime \<Rightarrow> memoryAIJobDeliveryEntry \<Rightarrow> bool" where
  "entry_ready now e \<longleftrightarrow> de_status e = DeliveryPending \<and> \<not> de_availableAt e > now"

definition readyEntriesLocked :: "gotime \<Rightarrow> int \<Rightarrow> MemoryAIJobDeliveryQueue \<Rightarrow> memoryAIJobDeliveryEntry list" where
  "readyEntriesLocked now limit q =
     take (nat limit) (sort_by delivery_less (filter (entry_ready now) (go_values (dq_entries q))))"

definition leased_entry :: "gotime \<Rightarrow> duration \<Rightarrow> string \<Rightarrow> string \<Rightarrow> memoryAIJobDeliveryEntry \<Rightarrow> memoryAIJobDeliveryEntry" where
  "leased_entry now lease consumer rnd e =
     e\<lparr>de_status := DeliveryInflight, de_attempt := de_attempt e + 1, de_consumer := consumer,
       de_leaseToken := ''delivery_lease_'' @ rnd, de_leaseUntil := now + lease\<rparr>"

definition delivery_of :: "memoryAIJobDeliveryEntry \<Rightarrow> AIJobDelivery" where
  "delivery_of e = \<lparr>dl_ID = env_DeliveryID (de_envelope e), dl_Envelope = de_envelope e, dl_Consumer = de_consumer e,
     dl_Attempt = de_attempt e, dl_LeaseUntil = de_leaseUntil e, dl_LeaseToken = de_leaseToken e\<rparr>"

fun lease_loop ::
  "gotime \<Rightarrow> string \<Rightarrow> (nat \<Rightarrow> string) \<Rightarrow> nat \<Rightarrow> memoryAIJobDeliveryEntry list \<Rightarrow> MemoryAIJobDeliveryQueue \<Rightarrow>
   AIJobDelivery list \<Rightarrow> MemoryAIJobDeliveryQueue \<times> AIJobDelivery list" where
  "lease_loop now consumer rand i [] q out = (q, out)"
| "lease_loop now consumer rand i (entry # rest) q out =
     (let e = leased_entry now (dq_deliveryLease q) consumer (rand i) entry in
      lease_loop now consumer rand (i + 1) rest
        (q\<lparr>dq_entries := go_set (env_DeliveryID (de_envelope e)) e (dq_entries q)\<rparr>) (out @ [delivery_of e]))"

definition receive_scan ::
  "gotime \<Rightarrow> string \<Rightarrow> int \<Rightarrow> (nat \<Rightarrow> string) \<Rightarrow> MemoryAIJobDeliveryQueue \<Rightarrow> MemoryAIJobDeliveryQueue \<times> AIJobDelivery list" where
  "receive_scan now consumer0 maxItems rand q0 =
     (let consumer = TrimSpace consumer0 in
      if consumer = [] \<or> maxItems \<le> 0 then (q0, [])
      else (let q = reclaimExpiredLocked now q0 in
            lease_loop now consumer rand 0 (readyEntriesLocked now maxItems q) q []))"

definition validateLeaseLocked ::
  "gotime \<Rightarrow> AIJobDelivery \<Rightarrow> MemoryAIJobDeliveryQueue \<Rightarrow> delivery_error + memoryAIJobDeliveryEntry" where
  "validateLeaseLocked now delivery q =
     (case go_get (dq_entries q) (TrimSpace (dl_ID delivery)) of
        None \<Rightarrow> Inl ErrAIJobDeliveryNotFound
      | Some entry \<Rightarrow>
          if de_status entry \<noteq> DeliveryInflight \<or> de_leaseToken entry = [] \<or> de_leaseToken entry \<noteq> dl_LeaseToken delivery
          then Inl ErrAIJobDeliveryLeaseConflict
          else if \<not> de_leaseUntil entry > now then Inl ErrAIJobDeliveryLeaseExpired
          else Inr entry)"

definition store_entry :: "memoryAIJobDeliveryEntry \<Rightarrow> MemoryAIJobDeliveryQueue \<Rightarrow> MemoryAIJobDeliveryQueue" where
  "store_entry e q = q\<lparr>dq_entries := go_set (env_DeliveryID (de_envelope e)) e (dq_entries q)\<rparr>"

definition dq_Extend ::
  "gotime \<Rightarrow> AIJobDelivery \<Rightarrow> gotime \<Rightarrow> MemoryAIJobDeliveryQueue \<Rightarrow> MemoryAIJobDeliveryQueue \<times> delivery_error option" where
  "dq_Extend now delivery leaseUntil q =
     (if \<not> leaseUntil > now then (q, Some ErrAIJobDeliveryLeaseExpired)
      else (case validateLeaseLocked now delivery q of
              Inl e \<Rightarrow> (q, Some e)
            | Inr entry \<Rightarrow> (store_entry (entry\<lparr>de_leaseUntil := leaseUntil\<rparr>) q, None)))"

definition settle_entry :: "memoryAIJobDeliveryStatus \<Rightarrow> memoryAIJobDeliveryEntry \<Rightarrow> memoryAIJobDeliveryEntry" where
  "settle_entry status e = e\<lparr>de_status := status, de_leaseUntil := zero_time, de_leaseToken := [], de_consumer := []\<rparr>"

definition dq_Ack :: "gotime \<Rightarrow> AIJobDelivery \<Rightarrow> MemoryAIJobDeliveryQueue \<Rightarrow> MemoryAIJobDeliveryQueue \<times> delivery_error option" where
  "dq_Ack now delivery q =
     (case validateLeaseLocked now delivery q of
        Inl e \<Rightarrow> (q, Some e)
      | Inr entry \<Rightarrow> (store_entry (settle_entry DeliveryAcked entry) q, None))"

definition dq_Nack ::
  "gotime \<Rightarrow> AIJobDelivery \<Rightarrow> gotime \<Rightarrow> string \<Rightarrow> MemoryAIJobDeliveryQueue \<Rightarrow> MemoryAIJobDeliveryQueue \<times> delivery_error option" where
  "dq_Nack now delivery retryAt0 reason q =
     (let retryAt = (if retryAt0 = zero_time \<or> retryAt0 < now then now else retryAt0) in
      case validateLeaseLocked now delivery q of
        Inl e \<Rightarrow> (q, Some e)
      | Inr entry \<Rightarrow>
          (store_entry ((settle_entry DeliveryPending entry)\<lparr>de_availableAt := retryAt, de_lastError := TrimSpace reason\<rparr>) q, None))"

definition dq_DeadLetter ::
  "gotime \<Rightarrow> AIJobDelivery \<Rightarrow> string \<Rightarrow> MemoryAIJobDeliveryQueue \<Rightarrow> MemoryAIJobDeliveryQueue \<times> delivery_error option" where
  "dq_DeadLetter now delivery reason q =
     (case validateLeaseLocked now delivery q of
        Inl e \<Rightarrow> (q, Some e)
      | Inr entry \<Rightarrow> (store_entry ((settle_entry DeliveryDead entry)\<lparr>de_lastError := TrimSpace reason\<rparr>) q, None))"

text \<open>The earliest instant after now at which an entry becomes deliverable, the zero time if there is none.\<close>

definition nextWakeLocked :: "gotime \<Rightarrow> MemoryAIJobDeliveryQueue \<Rightarrow> gotime" where
  "nextWakeLocked now q =
     foldl (\<lambda>next e.
       let candidate = (case de_status e of DeliveryPending \<Rightarrow> de_availableAt e | DeliveryInflight \<Rightarrow> de_leaseUntil e
                        | _ \<Rightarrow> zero_time)
       in if \<not> candidate > now then next
          else if next = zero_time \<or> candidate < next then candidate else next)
       zero_time (go_values (dq_entries q))"

text \<open>One operation of any client.\<close>

inductive dq_step :: "(string \<Rightarrow> string) \<Rightarrow> MemoryAIJobDeliveryQueue \<Rightarrow> MemoryAIJobDeliveryQueue \<Rightarrow> bool"
  for hash
where
  dq_publish: "dq_step hash q (fst (dq_Publish hash now envelope dedupeKey availableAt q))"
| dq_receive: "dq_step hash q (fst (receive_scan now consumer maxItems rand q))"
| dq_extend: "dq_step hash q (fst (dq_Extend now delivery leaseUntil q))"
| dq_ack: "dq_step hash q (fst (dq_Ack now delivery q))"
| dq_nack: "dq_step hash q (fst (dq_Nack now delivery retryAt reason q))"
| dq_dead: "dq_step hash q (fst (dq_DeadLetter now delivery reason q))"

section \<open>The contract of a delivery queue\<close>

text \<open>
  \<^verbatim>\<open>AIJobDeliveryQueue\<close>: \<open>holder\<close> is the token of the live lease of a delivery at an instant, \<open>settled\<close>
  says that a delivery was acknowledged or dead-lettered. Whoever settles a delivery holds its
  live lease, and settling is final.
\<close>

locale delivery_queue =
  fixes receive :: "gotime \<Rightarrow> string \<Rightarrow> int \<Rightarrow> (nat \<Rightarrow> string) \<Rightarrow> 's \<Rightarrow> 's \<times> AIJobDelivery list"
    and ack :: "gotime \<Rightarrow> AIJobDelivery \<Rightarrow> 's \<Rightarrow> 's \<times> delivery_error option"
    and nack :: "gotime \<Rightarrow> AIJobDelivery \<Rightarrow> gotime \<Rightarrow> string \<Rightarrow> 's \<Rightarrow> 's \<times> delivery_error option"
    and dead :: "gotime \<Rightarrow> AIJobDelivery \<Rightarrow> string \<Rightarrow> 's \<Rightarrow> 's \<times> delivery_error option"
    and queue_inv :: "'s \<Rightarrow> bool"
    and holder :: "'s \<Rightarrow> gotime \<Rightarrow> string \<Rightarrow> string option"
    and settled :: "'s \<Rightarrow> string \<Rightarrow> bool"
  assumes ack_iff: "queue_inv q \<Longrightarrow> snd (ack now d q) = None \<longleftrightarrow> holder q now (TrimSpace (dl_ID d)) = Some (dl_LeaseToken d)"
    and nack_iff: "queue_inv q \<Longrightarrow> snd (nack now d t reason q) = None \<longleftrightarrow> holder q now (TrimSpace (dl_ID d)) = Some (dl_LeaseToken d)"
    and dead_iff: "queue_inv q \<Longrightarrow> snd (dead now d reason q) = None \<longleftrightarrow> holder q now (TrimSpace (dl_ID d)) = Some (dl_LeaseToken d)"
    and ack_settles: "queue_inv q \<Longrightarrow> snd (ack now d q) = None \<Longrightarrow> settled (fst (ack now d q)) (TrimSpace (dl_ID d))"
    and dead_settles: "queue_inv q \<Longrightarrow> snd (dead now d reason q) = None \<Longrightarrow> settled (fst (dead now d reason q)) (TrimSpace (dl_ID d))"
    and nack_frees: "queue_inv q \<Longrightarrow> snd (nack now d t reason q) = None \<Longrightarrow> holder (fst (nack now d t reason q)) u (TrimSpace (dl_ID d)) = None"
    and refused: "snd (ack now d q) \<noteq> None \<Longrightarrow> fst (ack now d q) = q"
      "snd (nack now d t reason q) \<noteq> None \<Longrightarrow> fst (nack now d t reason q) = q"
      "snd (dead now d reason q) \<noteq> None \<Longrightarrow> fst (dead now d reason q) = q"
    and settled_unheld: "settled q k \<Longrightarrow> holder q now k = None"
    and ack_inv: "queue_inv q \<Longrightarrow> queue_inv (fst (ack now d q))"
    and dead_inv: "queue_inv q \<Longrightarrow> queue_inv (fst (dead now d reason q))"
    and receive_holds: "queue_inv q \<Longrightarrow> receive now c n rand q = (q', ds) \<Longrightarrow> d \<in> set ds \<Longrightarrow>
      \<not> settled q (dl_ID d) \<and> holder q now (dl_ID d) = None \<and>
      (dl_LeaseUntil d > now \<longrightarrow> holder q' now (dl_ID d) = Some (dl_LeaseToken d))"
begin

text \<open>Two workers that hold deliveries of the same ID cannot both settle it.\<close>

lemma settle_once:
  assumes "queue_inv q" "snd (ack now d q) = None" "TrimSpace (dl_ID d') = TrimSpace (dl_ID d)"
  shows "snd (ack later d' (fst (ack now d q))) \<noteq> None" "snd (dead later d' reason (fst (ack now d q))) \<noteq> None"
    "snd (nack later d' t reason (fst (ack now d q))) \<noteq> None"
proof -
  have h: "holder (fst (ack now d q)) later (TrimSpace (dl_ID d')) = None"
    using settled_unheld [OF ack_settles [OF assms(1,2)]] assms(3) by simp
  note inv = ack_inv [OF assms(1), of now d]
  show "snd (ack later d' (fst (ack now d q))) \<noteq> None" using ack_iff [OF inv, of later d'] h by simp
  show "snd (dead later d' reason (fst (ack now d q))) \<noteq> None" using dead_iff [OF inv, of later d' reason] h by simp
  show "snd (nack later d' t reason (fst (ack now d q))) \<noteq> None" using nack_iff [OF inv, of later d' t reason] h by simp
qed

end

section \<open>The in-memory queue keeps the contract\<close>

abbreviation entry_id :: "memoryAIJobDeliveryEntry \<Rightarrow> string" where
  "entry_id e \<equiv> env_DeliveryID (de_envelope e)"

definition entry_ok :: "memoryAIJobDeliveryEntry \<Rightarrow> bool" where
  "entry_ok e \<longleftrightarrow> (de_status e = DeliveryInflight \<longleftrightarrow> de_leaseToken e \<noteq> []) \<and> 0 \<le> de_attempt e"

definition dq_inv :: "MemoryAIJobDeliveryQueue \<Rightarrow> bool" where
  "dq_inv q \<longleftrightarrow> keyed entry_id (dq_entries q) \<and> every entry_ok (dq_entries q) \<and>
     (\<forall>k i. go_get (dq_byDedupe q) k = Some i \<longleftrightarrow> (\<exists>e. go_get (dq_entries q) i = Some e \<and> de_dedupeKey e = k))"

definition dq_holder :: "MemoryAIJobDeliveryQueue \<Rightarrow> gotime \<Rightarrow> string \<Rightarrow> string option" where
  "dq_holder q now k =
     (case go_get (dq_entries q) k of
        Some e \<Rightarrow> if de_status e = DeliveryInflight \<and> de_leaseToken e \<noteq> [] \<and> de_leaseUntil e > now
                  then Some (de_leaseToken e) else None
      | None \<Rightarrow> None)"

definition dq_settled :: "MemoryAIJobDeliveryQueue \<Rightarrow> string \<Rightarrow> bool" where
  "dq_settled q k = (case go_get (dq_entries q) k of Some e \<Rightarrow> de_status e \<in> {DeliveryAcked, DeliveryDead} | None \<Rightarrow> False)"

text \<open>Changing an entry without its envelope and its dedupe key.\<close>

lemma dq_inv_update:
  assumes inv: "dq_inv q" and e: "go_get (dq_entries q) (entry_id e) = Some e" and ok: "entry_ok e'"
    and same: "de_envelope e' = de_envelope e" "de_dedupeKey e' = de_dedupeKey e"
  shows "dq_inv (q\<lparr>dq_entries := go_set (entry_id e') e' (dq_entries q)\<rparr>)"
  using assms by (auto simp: dq_inv_def update_conv' intro!: keyed_go_set)

lemma dq_dedupe_get:
  "dq_inv q \<Longrightarrow> go_get (dq_byDedupe q) k = Some i \<longleftrightarrow> (\<exists>e. go_get (dq_entries q) i = Some e \<and> de_dedupeKey e = k)"
  by (simp add: dq_inv_def)

lemma dq_inv_get: "dq_inv q \<Longrightarrow> go_get (dq_entries q) k = Some e \<Longrightarrow> entry_id e = k \<and> entry_ok e"
  by (auto simp: dq_inv_def dest: keyed_get every_get)

lemma dq_inv_store:
  assumes inv: "dq_inv q" and v: "validateLeaseLocked now d q = Inr e" and ok: "entry_ok e'"
    and same: "de_envelope e' = de_envelope e" "de_dedupeKey e' = de_dedupeKey e"
  shows "dq_inv (store_entry e' q)"
proof -
  have g: "go_get (dq_entries q) (TrimSpace (dl_ID d)) = Some e"
    using v by (auto simp: validateLeaseLocked_def split: option.splits if_splits)
  then have "go_get (dq_entries q) (entry_id e) = Some e" using dq_inv_get [OF inv g] by simp
  then show ?thesis unfolding store_entry_def by (rule dq_inv_update [OF inv _ ok same])
qed

lemma validate_holder:
  "(\<exists>e. validateLeaseLocked now d q = Inr e) \<longleftrightarrow> dq_holder q now (TrimSpace (dl_ID d)) = Some (dl_LeaseToken d)"
  by (auto simp: validateLeaseLocked_def dq_holder_def split: option.splits)

lemma validate_entry:
  "dq_inv q \<Longrightarrow> validateLeaseLocked now d q = Inr e \<Longrightarrow>
   go_get (dq_entries q) (TrimSpace (dl_ID d)) = Some e \<and> entry_id e = TrimSpace (dl_ID d) \<and> entry_ok e \<and>
   de_status e = DeliveryInflight"
  by (auto simp: validateLeaseLocked_def dest: dq_inv_get split: option.splits if_splits)

lemma settle_entry_ok: "entry_ok e \<Longrightarrow> s \<noteq> DeliveryInflight \<Longrightarrow> entry_ok (settle_entry s e)"
  by (simp add: entry_ok_def settle_entry_def)

lemma settle_entry_simps [simp]:
  "de_envelope (settle_entry s e) = de_envelope e" "de_dedupeKey (settle_entry s e) = de_dedupeKey e"
  "de_status (settle_entry s e) = s" "de_leaseToken (settle_entry s e) = []"
  by (simp_all add: settle_entry_def)

lemma entry_ok_update [simp]:
  "entry_ok (e\<lparr>de_availableAt := t, de_lastError := r\<rparr>) = entry_ok e"
  "entry_ok (e\<lparr>de_availableAt := t\<rparr>) = entry_ok e"
  "entry_ok (e\<lparr>de_lastError := r\<rparr>) = entry_ok e" "entry_ok (e\<lparr>de_leaseUntil := u\<rparr>) = entry_ok e"
  by (simp_all add: entry_ok_def)

lemma ack_nack_dead_inv:
  assumes "dq_inv q"
  shows "dq_inv (fst (dq_Ack now d q))" "dq_inv (fst (dq_Nack now d t reason q))"
    "dq_inv (fst (dq_DeadLetter now d reason q))" "dq_inv (fst (dq_Extend now d u q))"
  using assms
  by (auto simp: dq_Ack_def dq_Nack_def dq_DeadLetter_def dq_Extend_def Let_def settle_entry_ok
      dest: validate_entry intro!: dq_inv_store split: sum.splits)

lemma publish_inv:
  assumes inv: "dq_inv q"
  shows "dq_inv (fst (dq_Publish hash now envelope key t q))"
proof -
  have "dq_inv (q\<lparr>dq_nextSequence := n, dq_entries := go_set (entry_id e) e (dq_entries q),
      dq_byDedupe := go_set (de_dedupeKey e) (entry_id e) (dq_byDedupe q)\<rparr>)"
    if "entry_ok e" "go_get (dq_entries q) (entry_id e) = None" "go_get (dq_byDedupe q) (de_dedupeKey e) = None" for n e
  proof -
    have "i \<noteq> entry_id e" if "go_get (dq_byDedupe q) k = Some i" for k i
      using dq_dedupe_get [OF inv, of k i] that \<open>go_get (dq_entries q) (entry_id e) = None\<close> by auto
    moreover have "de_dedupeKey x \<noteq> de_dedupeKey e" if "go_get (dq_entries q) i = Some x" for i x
      using dq_dedupe_get [OF inv, of "de_dedupeKey x" i] that \<open>go_get (dq_byDedupe q) (de_dedupeKey e) = None\<close> by auto
    ultimately show ?thesis
      using inv that(1) by (auto simp: dq_inv_def update_conv' intro!: keyed_go_set split: if_splits)
  qed
  note new = this [of "new_entry envelope k a m" n for k a m n]
  show ?thesis
    using inv new by (auto simp: dq_Publish_def Let_def entry_ok_def new_entry_def split: option.splits)
qed

section \<open>Receiving\<close>

interpretation delivery_order: strict_weak_order delivery_less
  by unfold_locales (auto simp: delivery_less_def split: if_splits)

lemma reclaim_entry_simps [simp]:
  "de_envelope (reclaim_entry now e) = de_envelope e" "de_dedupeKey (reclaim_entry now e) = de_dedupeKey e"
  "de_attempt (reclaim_entry now e) = de_attempt e"
  by (simp_all add: reclaim_entry_def)

lemma map_of_map_values: "go_get (map (\<lambda>(k, v). (k, f v)) m) k = map_option f (go_get m k)"
  by (induction m) auto

lemma reclaim_get: "go_get (dq_entries (reclaimExpiredLocked now q)) k = map_option (reclaim_entry now) (go_get (dq_entries q) k)"
  by (simp add: reclaimExpiredLocked_def map_of_map_values)

lemma reclaim_entry_ok: "entry_ok e \<Longrightarrow> entry_ok (reclaim_entry now e)"
  by (simp add: reclaim_entry_def entry_ok_def)

lemma reclaim_inv:
  assumes "dq_inv q"
  shows "dq_inv (reclaimExpiredLocked now q)"
proof -
  have "keyed entry_id (dq_entries (reclaimExpiredLocked now q))"
    using assms by (auto simp: dq_inv_def keyed_def reclaimExpiredLocked_def comp_def split_def)
  moreover have "every entry_ok (dq_entries (reclaimExpiredLocked now q))"
    using assms reclaim_entry_ok by (fastforce simp: dq_inv_def every_def reclaimExpiredLocked_def)
  moreover have "go_get (dq_byDedupe (reclaimExpiredLocked now q)) = go_get (dq_byDedupe q)"
    by (simp add: reclaimExpiredLocked_def)
  ultimately show ?thesis using assms by (auto simp: dq_inv_def reclaim_get)
qed

text \<open>The entries one \<^verbatim>\<open>Receive\<close> leases, and the queue after it.\<close>

fun lease_all where
  "lease_all now lease consumer rand i [] = []"
| "lease_all now lease consumer rand i (e # es) =
     leased_entry now lease consumer (rand i) e # lease_all now lease consumer rand (i + 1) es"

lemma lease_loop_eq:
  "lease_loop now consumer rand i es q out =
     (q\<lparr>dq_entries := foldl (\<lambda>m e. go_set (entry_id e) e m) (dq_entries q) (lease_all now (dq_deliveryLease q) consumer rand i es)\<rparr>,
      out @ map delivery_of (lease_all now (dq_deliveryLease q) consumer rand i es))"
  by (induction now consumer rand i es q out rule: lease_loop.induct) (simp_all add: Let_def)

lemma leased_entry_simps [simp]:
  "de_envelope (leased_entry now lease c r e) = de_envelope e" "de_dedupeKey (leased_entry now lease c r e) = de_dedupeKey e"
  "de_status (leased_entry now lease c r e) = DeliveryInflight" "de_leaseToken (leased_entry now lease c r e) \<noteq> []"
  "de_leaseUntil (leased_entry now lease c r e) = now + lease" "de_attempt (leased_entry now lease c r e) = de_attempt e + 1"
  by (simp_all add: leased_entry_def)

lemma lease_all_ids: "map entry_id (lease_all now lease c rand i es) = map entry_id es"
  by (induction es arbitrary: i) simp_all

lemma lease_all_mem:
  "x \<in> set (lease_all now lease c rand i es) \<Longrightarrow> \<exists>e r. e \<in> set es \<and> x = leased_entry now lease c r e"
  by (induction es arbitrary: i) fastforce+

lemma ready_entries_mem:
  assumes inv: "dq_inv q" and e: "e \<in> set (readyEntriesLocked now n q)"
  shows "go_get (dq_entries q) (entry_id e) = Some e \<and> entry_ready now e"
proof -
  have "e \<in> set (go_values (dq_entries q))" "entry_ready now e"
    using e by (auto simp: readyEntriesLocked_def set_sort_by dest: in_set_takeD)
  then show ?thesis using inv keyed_get_iff [of entry_id "dq_entries q" e] by (simp add: dq_inv_def)
qed

lemma ready_entries_distinct:
  assumes inv: "dq_inv q"
  shows "distinct (map entry_id (readyEntriesLocked now n q))"
proof -
  have "distinct (map entry_id (filter (entry_ready now) (go_values (dq_entries q))))"
    using inv keyed_distinct_values [of entry_id "dq_entries q"]
    by (simp add: dq_inv_def distinct_map_filter del: map_map)
  then have "distinct (map entry_id (sort_by delivery_less (filter (entry_ready now) (go_values (dq_entries q)))))"
    by (metis distinct_map_mset mset_sort_by)
  then show ?thesis by (simp add: readyEntriesLocked_def take_map [symmetric])
qed

lemma lease_fold_inv:
  "dq_inv q \<Longrightarrow> \<forall>e \<in> set es. \<exists>x. go_get (dq_entries q) (entry_id e) = Some x \<and> de_envelope x = de_envelope e \<and>
       de_dedupeKey x = de_dedupeKey e \<and> entry_ok e \<Longrightarrow> distinct (map entry_id es) \<Longrightarrow>
   dq_inv (q\<lparr>dq_entries := foldl (\<lambda>m e. go_set (entry_id e) e m) (dq_entries q) es\<rparr>)"
proof (induction es arbitrary: q)
  case (Cons e es)
  let ?q = "q\<lparr>dq_entries := go_set (entry_id e) e (dq_entries q)\<rparr>"
  obtain x where x: "go_get (dq_entries q) (entry_id e) = Some x" "de_envelope x = de_envelope e"
    "de_dedupeKey x = de_dedupeKey e" "entry_ok e" using Cons.prems(2) by auto
  have "dq_inv ?q"
    by (rule dq_inv_update [OF Cons.prems(1) _ x(4) x(2) [symmetric] x(3) [symmetric]]) (simp add: x(1,2))
  moreover have "\<forall>a \<in> set es. \<exists>x. go_get (dq_entries ?q) (entry_id a) = Some x \<and> de_envelope x = de_envelope a \<and>
       de_dedupeKey x = de_dedupeKey a \<and> entry_ok a"
  proof
    fix a
    assume a: "a \<in> set es"
    then have "entry_id a \<noteq> entry_id e" using Cons.prems(3) by (auto simp: image_iff)
    with Cons.prems(2) a show "\<exists>x. go_get (dq_entries ?q) (entry_id a) = Some x \<and> de_envelope x = de_envelope a \<and>
       de_dedupeKey x = de_dedupeKey a \<and> entry_ok a" by (simp add: update_conv')
  qed
  ultimately show ?case using Cons.IH [of ?q] Cons.prems(3) by simp
qed simp

text \<open>Everything about one scan, in terms of the entries it leases.\<close>

lemma receive_scan_spec:
  assumes inv: "dq_inv q" and r: "receive_scan now consumer n rand q = (q', ds)"
  shows "dq_inv q' \<and> distinct (map dl_ID ds) \<and> length ds \<le> nat n \<and>
    (\<forall>d \<in> set ds. \<exists>e x. go_get (dq_entries q) (dl_ID d) = Some e \<and> entry_ready now (reclaim_entry now e) \<and>
       go_get (dq_entries q') (dl_ID d) = Some x \<and> d = delivery_of x \<and> de_status x = DeliveryInflight \<and>
       de_leaseToken x \<noteq> [] \<and> de_attempt x = de_attempt e + 1 \<and> de_leaseUntil x = now + dq_deliveryLease q) \<and>
    (\<forall>k. k \<notin> dl_ID ` set ds \<longrightarrow> go_get (dq_entries q') k = go_get (dq_entries q) k \<or>
       go_get (dq_entries q') k = map_option (reclaim_entry now) (go_get (dq_entries q) k))"
proof (cases "TrimSpace consumer = [] \<or> n \<le> 0")
  case True
  then show ?thesis using inv r by (auto simp: receive_scan_def)
next
  case False
  let ?q = "reclaimExpiredLocked now q"
  let ?ready = "readyEntriesLocked now n ?q"
  let ?es = "lease_all now (dq_deliveryLease q) (TrimSpace consumer) rand 0 ?ready"
  let ?m = "foldl (\<lambda>m e. go_set (entry_id e) e m) (dq_entries ?q) ?es"
  have iq: "dq_inv ?q" by (rule reclaim_inv [OF inv])
  have q': "q' = ?q\<lparr>dq_entries := ?m\<rparr>" and ds: "ds = map delivery_of ?es"
    using r False by (auto simp: receive_scan_def lease_loop_eq Let_def reclaimExpiredLocked_def)
  have dist: "distinct (map entry_id ?es)" unfolding lease_all_ids by (rule ready_entries_distinct [OF iq])
  have mem: "\<exists>e r. e \<in> set ?ready \<and> x = leased_entry now (dq_deliveryLease q) (TrimSpace consumer) r e"
    if "x \<in> set ?es" for x using lease_all_mem [OF that] .
  have found: "find (\<lambda>e. entry_id e = entry_id x) ?es = Some x" if "x \<in> set ?es" for x
    by (rule find_distinct [OF dist that])
  have ids: "dl_ID ` set ds = entry_id ` set ?es" by (auto simp: ds delivery_of_def image_iff)
  have "\<exists>y. go_get (dq_entries ?q) (entry_id x) = Some y \<and> de_envelope y = de_envelope x \<and>
      de_dedupeKey y = de_dedupeKey x \<and> entry_ok x" if x: "x \<in> set ?es" for x
  proof -
    obtain y r where y: "y \<in> set ?ready" "x = leased_entry now (dq_deliveryLease q) (TrimSpace consumer) r y"
      using mem [OF x] by blast
    have g: "go_get (dq_entries ?q) (entry_id y) = Some y" using ready_entries_mem [OF iq y(1)] by blast
    then show ?thesis using y(2) dq_inv_get [OF iq g] by (auto simp: entry_ok_def)
  qed
  then have "dq_inv q'" unfolding q' by (intro lease_fold_inv [OF iq _ dist]) blast
  moreover have "distinct (map dl_ID ds)" using dist by (simp add: ds delivery_of_def comp_def)
  moreover have "length ds \<le> nat n"
  proof -
    have "length ?es = length ?ready" by (metis lease_all_ids length_map)
    then show ?thesis by (simp add: ds readyEntriesLocked_def)
  qed
  moreover have "\<exists>e x. go_get (dq_entries q) (dl_ID d) = Some e \<and> entry_ready now (reclaim_entry now e) \<and>
       go_get (dq_entries q') (dl_ID d) = Some x \<and> d = delivery_of x \<and> de_status x = DeliveryInflight \<and>
       de_leaseToken x \<noteq> [] \<and> de_attempt x = de_attempt e + 1 \<and> de_leaseUntil x = now + dq_deliveryLease q" if d: "d \<in> set ds" for d
  proof -
    obtain x where x: "x \<in> set ?es" "d = delivery_of x" using d by (auto simp: ds)
    obtain y r where y: "y \<in> set ?ready" "x = leased_entry now (dq_deliveryLease q) (TrimSpace consumer) r y"
      using mem [OF x(1)] by blast
    obtain e where e: "go_get (dq_entries q) (entry_id y) = Some e" "y = reclaim_entry now e"
      using ready_entries_mem [OF iq y(1)] by (auto simp: reclaim_get)
    have "go_get (dq_entries q') (entry_id x) = Some x" by (simp add: q' foldl_go_set_get [OF dist] found [OF x(1)])
    with x y e ready_entries_mem [OF iq y(1)] show ?thesis by (auto simp: delivery_of_def)
  qed
  moreover have "go_get (dq_entries q') k = map_option (reclaim_entry now) (go_get (dq_entries q) k)" if "k \<notin> dl_ID ` set ds" for k
  proof -
    have "find (\<lambda>e. entry_id e = k) ?es = None" using that unfolding ids by (auto simp: find_None_iff)
    then show ?thesis by (simp add: q' foldl_go_set_get [OF dist] reclaim_get)
  qed
  ultimately show ?thesis by blast
qed

lemma receive_holder:
  assumes inv: "dq_inv q" and r: "receive_scan now c n rand q = (q', ds)" and d: "d \<in> set ds"
  shows "\<not> dq_settled q (dl_ID d) \<and> dq_holder q now (dl_ID d) = None \<and>
    (dl_LeaseUntil d > now \<longrightarrow> dq_holder q' now (dl_ID d) = Some (dl_LeaseToken d))"
proof -
  obtain e x where e: "go_get (dq_entries q) (dl_ID d) = Some e" "entry_ready now (reclaim_entry now e)"
    and x: "go_get (dq_entries q') (dl_ID d) = Some x" "d = delivery_of x" "de_status x = DeliveryInflight" "de_leaseToken x \<noteq> []"
    using receive_scan_spec [OF inv r] d by blast
  have "de_status e = DeliveryPending \<or> de_status e = DeliveryInflight \<and> \<not> de_leaseUntil e > now"
    using e(2) by (auto simp: entry_ready_def reclaim_entry_def split: if_splits)
  with e x show ?thesis by (auto simp: dq_settled_def dq_holder_def delivery_of_def)
qed

lemma receive_envelope:
  assumes inv: "dq_inv q" and r: "receive_scan now c n rand q = (q', ds)"
    and e: "go_get (dq_entries q) k = Some e" and x: "go_get (dq_entries q') k = Some x"
  shows "de_envelope x = de_envelope e"
proof (cases "TrimSpace c = [] \<or> n \<le> 0")
  case True
  then show ?thesis using r e x by (auto simp: receive_scan_def)
next
  case False
  let ?rq = "reclaimExpiredLocked now q"
  let ?es = "lease_all now (dq_deliveryLease q) (TrimSpace c) rand 0 (readyEntriesLocked now n ?rq)"
  have q': "dq_entries q' = foldl (\<lambda>m e. go_set (entry_id e) e m) (dq_entries ?rq) ?es"
    using r False by (auto simp: receive_scan_def lease_loop_eq Let_def reclaimExpiredLocked_def)
  have dist: "distinct (map entry_id ?es)"
    unfolding lease_all_ids by (rule ready_entries_distinct [OF reclaim_inv [OF inv]])
  show ?thesis
  proof (cases "find (\<lambda>e. entry_id e = k) ?es")
    case None
    then show ?thesis using x e by (auto simp: q' foldl_go_set_get [OF dist] reclaim_get)
  next
    case (Some y)
    then have y: "y \<in> set ?es" "entry_id y = k" by (auto simp: find_Some_iff)
    obtain w r where w: "w \<in> set (readyEntriesLocked now n ?rq)" "y = leased_entry now (dq_deliveryLease q) (TrimSpace c) r w"
      using lease_all_mem [OF y(1)] by blast
    have "go_get (dq_entries ?rq) k = Some w"
      using ready_entries_mem [OF reclaim_inv [OF inv] w(1)] y(2) w(2) by simp
    then have "w = reclaim_entry now e" using e by (simp add: reclaim_get)
    moreover have "x = y" using x Some by (simp add: q' foldl_go_set_get [OF dist])
    ultimately show ?thesis by (simp add: w(2))
  qed
qed

lemma store_entry_get: "go_get (dq_entries (store_entry e q)) k = (if k = entry_id e then Some e else go_get (dq_entries q) k)"
  by (simp add: store_entry_def update_conv')

interpretation memory_queue: delivery_queue receive_scan dq_Ack dq_Nack dq_DeadLetter dq_inv dq_holder dq_settled
proof (unfold_locales, goal_cases)
  case (1 q now d)
  then show ?case using validate_holder [of now d q] by (auto simp: dq_Ack_def split: sum.splits)
next
  case (2 q now d t reason)
  then show ?case using validate_holder [of now d q] by (auto simp: dq_Nack_def Let_def split: sum.splits)
next
  case (3 q now d reason)
  then show ?case using validate_holder [of now d q] by (auto simp: dq_DeadLetter_def split: sum.splits)
next
  case (4 q now d)
  then show ?case
    by (auto simp: dq_Ack_def dq_settled_def store_entry_get dest: validate_entry split: sum.splits)
next
  case (5 q now d reason)
  then show ?case
    by (auto simp: dq_DeadLetter_def dq_settled_def store_entry_get dest: validate_entry split: sum.splits)
next
  case (6 q now d t reason u)
  then show ?case
    by (auto simp: dq_Nack_def Let_def dq_holder_def store_entry_get dest: validate_entry split: sum.splits)
next
  case (11 q now d)
  then show ?case by (rule ack_nack_dead_inv)
next
  case (12 q now d reason)
  then show ?case by (rule ack_nack_dead_inv)
next
  case (13 q now c n rand q' ds d)
  then show ?case by (rule receive_holder)
qed (auto simp: dq_Ack_def dq_Nack_def dq_DeadLetter_def Let_def dq_settled_def dq_holder_def
    split: sum.splits option.splits)

definition publish_key :: "AIJobDeliveryEnvelope \<Rightarrow> string \<Rightarrow> string" where
  "publish_key envelope key = (if TrimSpace key = [] then DedupeKey envelope else TrimSpace key)"

lemma publish_new:
  assumes "validateAIJobDeliveryEnvelope hash envelope = None" "publish_key envelope key \<noteq> []"
    and "go_get (dq_byDedupe q) (publish_key envelope key) = None" "go_get (dq_entries q) (env_DeliveryID envelope) = None"
  shows "dq_Publish hash now envelope key t q =
    (q\<lparr>dq_nextSequence := dq_nextSequence q + 1,
       dq_entries := go_set (env_DeliveryID envelope)
         (new_entry envelope (publish_key envelope key) (if t = zero_time then now else t) (dq_nextSequence q + 1)) (dq_entries q),
       dq_byDedupe := go_set (publish_key envelope key) (env_DeliveryID envelope) (dq_byDedupe q)\<rparr>, None)"
  using assms unfolding dq_Publish_def publish_key_def [symmetric] Let_def by simp

lemma publish_old:
  assumes "validateAIJobDeliveryEnvelope hash envelope \<noteq> None \<or> publish_key envelope key = [] \<or>
    go_get (dq_byDedupe q) (publish_key envelope key) \<noteq> None \<or> go_get (dq_entries q) (env_DeliveryID envelope) \<noteq> None"
  shows "fst (dq_Publish hash now envelope key t q) = q"
  using assms unfolding dq_Publish_def publish_key_def [symmetric] Let_def
  by (auto split: option.splits)

lemma publish_keeps:
  "go_get (dq_entries q) k = Some e \<Longrightarrow> go_get (dq_entries (fst (dq_Publish hash now envelope key t q))) k = Some e"
proof (cases "validateAIJobDeliveryEnvelope hash envelope \<noteq> None \<or> publish_key envelope key = [] \<or>
    go_get (dq_byDedupe q) (publish_key envelope key) \<noteq> None \<or> go_get (dq_entries q) (env_DeliveryID envelope) \<noteq> None")
  case True
  then show "go_get (dq_entries q) k = Some e \<Longrightarrow> ?thesis" using publish_old by simp
next
  case False
  then show "go_get (dq_entries q) k = Some e \<Longrightarrow> ?thesis" using publish_new by (auto simp: update_conv')
qed

lemma settled_publish: "dq_settled q k \<Longrightarrow> dq_settled (fst (dq_Publish hash now envelope key t q)) k"
  using publish_keeps by (fastforce simp: dq_settled_def split: option.splits)

lemma settled_receive:
  assumes inv: "dq_inv q" and s: "dq_settled q k" and r: "receive_scan now c n rand q = (q', ds)"
  shows "dq_settled q' k \<and> k \<notin> dl_ID ` set ds"
proof -
  have k: "k \<notin> dl_ID ` set ds" using receive_holder [OF inv r] s by auto
  then have "go_get (dq_entries q') k = go_get (dq_entries q) k \<or>
      go_get (dq_entries q') k = map_option (reclaim_entry now) (go_get (dq_entries q) k)"
    using receive_scan_spec [OF inv r] by blast
  then show ?thesis using s k by (auto simp: dq_settled_def reclaim_entry_def split: option.splits)
qed

lemma settled_store:
  assumes "dq_inv q" "dq_settled q k" "validateLeaseLocked now d q = Inr e" "de_envelope e' = de_envelope e"
  shows "dq_settled (store_entry e' q) k"
  using assms validate_entry [OF assms(1,3)] by (auto simp: dq_settled_def store_entry_get split: option.splits)

lemma dq_step_settled:
  assumes "dq_step hash q q'" "dq_inv q"
  shows "dq_inv q' \<and> (dq_settled q k \<longrightarrow> dq_settled q' k)"
  using assms
proof (induction rule: dq_step.induct)
  case (dq_receive q now c n rand)
  then show ?case
    using receive_scan_spec [OF dq_receive prod.collapse [symmetric]]
      settled_receive [OF dq_receive _ prod.collapse [symmetric]] by blast
qed (auto simp: publish_inv ack_nack_dead_inv settled_publish dq_Ack_def dq_Nack_def dq_DeadLetter_def dq_Extend_def Let_def
    settle_entry_ok intro!: settled_store dq_inv_store dest: validate_entry split: sum.splits)

lemma dq_run_settled:
  "(dq_step hash)\<^sup>*\<^sup>* q q' \<Longrightarrow> dq_inv q \<Longrightarrow> dq_inv q' \<and> (dq_settled q k \<longrightarrow> dq_settled q' k)"
  by (induction rule: rtranclp_induct) (auto dest: dq_step_settled)

text \<open>What a successful publication leaves, and what publishing under a known key does.\<close>

lemma publish_result:
  assumes inv: "dq_inv q" and ok: "snd (dq_Publish hash now envelope key t q) = None"
  defines "q' \<equiv> fst (dq_Publish hash now envelope key t q)"
  shows "validateAIJobDeliveryEnvelope hash envelope = None \<and> publish_key envelope key \<noteq> [] \<and>
    go_get (dq_byDedupe q') (publish_key envelope key) = Some (env_DeliveryID envelope) \<and>
    (\<exists>e. go_get (dq_entries q') (env_DeliveryID envelope) = Some e \<and> de_envelope e = envelope)"
proof (cases "go_get (dq_byDedupe q) (publish_key envelope key) = None \<and> go_get (dq_entries q) (env_DeliveryID envelope) = None")
  case True
  have v: "validateAIJobDeliveryEnvelope hash envelope = None" "publish_key envelope key \<noteq> []"
    using ok by (auto simp: dq_Publish_def publish_key_def [symmetric] Let_def split: option.splits if_splits)
  show ?thesis unfolding q'_def using v True by (simp add: publish_new new_entry_def)
next
  case False
  have v: "validateAIJobDeliveryEnvelope hash envelope = None" "publish_key envelope key \<noteq> []"
    using ok by (auto simp: dq_Publish_def publish_key_def [symmetric] Let_def split: option.splits if_splits)
  have q': "q' = q" unfolding q'_def using False by (intro publish_old) (simp add: de_Morgan_conj)
  show ?thesis
  proof (cases "go_get (dq_byDedupe q) (publish_key envelope key)")
    case (Some i)
    then obtain e where e: "go_get (dq_entries q) i = Some e" using dq_dedupe_get [OF inv] by blast
    have "de_envelope e = envelope"
      using ok v Some e by (auto simp: dq_Publish_def publish_key_def [symmetric] Let_def split: if_splits)
    then show ?thesis using v q' Some e dq_inv_get [OF inv e] by auto
  next
    case None
    with False obtain e where e: "go_get (dq_entries q) (env_DeliveryID envelope) = Some e" by auto
    have "de_dedupeKey e = publish_key envelope key"
      using ok v None e by (auto simp: dq_Publish_def publish_key_def [symmetric] Let_def split: if_splits)
    then have "go_get (dq_byDedupe q) (publish_key envelope key) = Some (env_DeliveryID envelope)"
      using e dq_dedupe_get [OF inv] by blast
    then show ?thesis using None by simp
  qed
qed

lemma publish_known:
  assumes "validateAIJobDeliveryEnvelope hash envelope = None" "publish_key envelope key \<noteq> []"
    and "go_get (dq_byDedupe q) (publish_key envelope key) = Some i" "go_get (dq_entries q) i = Some e"
  shows "dq_Publish hash now envelope key t q =
    (q, if de_envelope e \<noteq> envelope then Some ErrAIJobDeliveryDedupeConflict else None)"
  using assms unfolding dq_Publish_def publish_key_def [symmetric] Let_def by simp

section \<open>Properties\<close>

text \<open>
  C17: only the holder of the live lease can settle a delivery. Acknowledging, rejecting or
  dead-lettering succeeds exactly when the delivery presents the token of the entry's current lease
  before the lease ends; otherwise it reports an error and leaves the queue as it was. After a
  successful acknowledgement every other attempt to settle the same delivery fails.
\<close>

theorem delivery_lease_fenced:
  assumes "dq_inv q"
  shows "(snd (dq_Ack now d q) = None \<longleftrightarrow> dq_holder q now (TrimSpace (dl_ID d)) = Some (dl_LeaseToken d)) \<and>
    (snd (dq_Nack now d t reason q) = None \<longleftrightarrow> dq_holder q now (TrimSpace (dl_ID d)) = Some (dl_LeaseToken d)) \<and>
    (snd (dq_DeadLetter now d reason q) = None \<longleftrightarrow> dq_holder q now (TrimSpace (dl_ID d)) = Some (dl_LeaseToken d)) \<and>
    (snd (dq_Ack now d q) \<noteq> None \<longrightarrow> fst (dq_Ack now d q) = q) \<and>
    (snd (dq_Ack now d q) = None \<and> TrimSpace (dl_ID d') = TrimSpace (dl_ID d) \<longrightarrow>
       snd (dq_Ack later d' (fst (dq_Ack now d q))) \<noteq> None \<and>
       snd (dq_DeadLetter later d' reason (fst (dq_Ack now d q))) \<noteq> None \<and>
       snd (dq_Nack later d' t reason (fst (dq_Ack now d q))) \<noteq> None)"
  by (intro conjI impI memory_queue.ack_iff [OF assms] memory_queue.nack_iff [OF assms]
      memory_queue.dead_iff [OF assms] memory_queue.refused(1))
    (use memory_queue.settle_once [OF assms] in \<open>simp_all\<close>)

definition example_envelope :: AIJobDeliveryEnvelope where
  "example_envelope = \<lparr>env_SchemaVersion = 1, env_DeliveryID = ''d'', env_JobID = ''j'', env_OperationID = ''o'',
     env_StatusVersion = 2, env_FenceToken = 1, env_QueueLeaseToken = ''t''\<rparr>"

definition example_queue :: MemoryAIJobDeliveryQueue where
  "example_queue = \<lparr>dq_entries = [(''d'', new_entry example_envelope ''d'' 5 1)], dq_byDedupe = [(''d'', ''d'')],
     dq_deliveryLease = 10, dq_nextSequence = 1\<rparr>"

lemma example_queue_inv: "dq_inv example_queue"
  by (auto simp: dq_inv_def keyed_def every_def entry_ok_def example_queue_def new_entry_def example_envelope_def)

definition example_delivery :: AIJobDelivery where
  "example_delivery = hd (snd (receive_scan 6 ''w'' 1 (\<lambda>_. ''r'') example_queue))"

definition example_leased :: MemoryAIJobDeliveryQueue where
  "example_leased = fst (receive_scan 6 ''w'' 1 (\<lambda>_. ''r'') example_queue)"

lemma example_trim: "TrimSpace ''d'' = ''d''" "TrimSpace ''w'' = ''w''"
  by code_simp+

lemma example_receive:
  "receive_scan 6 ''w'' 1 (\<lambda>_. ''r'') example_queue = (example_leased, [example_delivery])"
  "dl_ID example_delivery = ''d''" "dl_LeaseToken example_delivery = ''delivery_lease_r''"
  "dq_holder example_leased 7 ''d'' = Some ''delivery_lease_r''"
  by (simp_all add: example_delivery_def example_leased_def receive_scan_def example_trim example_queue_def
      readyEntriesLocked_def reclaimExpiredLocked_def reclaim_entry_def entry_ready_def new_entry_def leased_entry_def
      delivery_of_def example_envelope_def dq_holder_def Let_def)

theorem delivery_lease_fenced_witness:
  "snd (dq_Ack 7 example_delivery example_leased) = None \<and>
   snd (dq_Ack 8 example_delivery (fst (dq_Ack 7 example_delivery example_leased))) \<noteq> None"
proof -
  have inv: "dq_inv example_leased"
    using receive_scan_spec [OF example_queue_inv example_receive(1)] by blast
  from delivery_lease_fenced [OF inv, of 7 example_delivery 0 "[]" example_delivery 8] show ?thesis
    by (simp add: example_receive example_trim)
qed

text \<open>
  C28: a settled delivery is never delivered again. Once an entry is acknowledged or dead-lettered
  it stays so through every sequence of queue operations, and no \<^verbatim>\<open>Receive\<close> returns it.
\<close>

theorem settled_never_redelivered:
  assumes "dq_inv q" "dq_settled q k" "(dq_step hash)\<^sup>*\<^sup>* q q'" "receive_scan now consumer n rand q' = (q'', ds)"
  shows "dq_settled q'' k \<and> k \<notin> dl_ID ` set ds"
  using dq_run_settled [OF assms(3,1)] settled_receive [OF _ _ assms(4)] assms(2) by blast

theorem settled_never_redelivered_witness:
  "\<exists>q'' ds. receive_scan 100 ''w'' 5 (\<lambda>_. ''s'') (fst (dq_Ack 7 example_delivery example_leased)) = (q'', ds) \<and> ''d'' \<notin> dl_ID ` set ds"
proof -
  have inv: "dq_inv example_leased"
    using receive_scan_spec [OF example_queue_inv example_receive(1)] by blast
  let ?q = "fst (dq_Ack 7 example_delivery example_leased)"
  have "snd (dq_Ack 7 example_delivery example_leased) = None"
    using memory_queue.ack_iff [OF inv, of 7 example_delivery] by (simp add: example_receive example_trim)
  then have "dq_settled ?q ''d''"
    using memory_queue.ack_settles [OF inv, of 7 example_delivery] by (simp add: example_receive example_trim)
  from settled_never_redelivered [OF ack_nack_dead_inv(1) [OF inv] this rtranclp.rtrancl_refl prod.collapse [symmetric]]
  show ?thesis by (metis prod.collapse)
qed

text \<open>
  C33: at-least-once delivery. A \<^verbatim>\<open>Receive\<close> returns different deliveries, at most as many as asked for,
  each of an entry that was available or whose lease had ended, with its attempt counter one higher and
  a fresh lease; and when it asks for enough it returns every such entry, so a delivery whose worker
  died is delivered again.
\<close>

theorem receive_at_least_once:
  assumes "dq_inv q" "TrimSpace consumer \<noteq> []" "receive_scan now consumer n rand q = (q', ds)"
  shows "distinct (map dl_ID ds) \<and> int (length ds) \<le> max 0 n \<and>
    (\<forall>d \<in> set ds. \<exists>e. go_get (dq_entries q) (dl_ID d) = Some e \<and> dl_Attempt d = de_attempt e + 1 \<and>
       dl_Envelope d = de_envelope e \<and> dl_LeaseUntil d = now + dq_deliveryLease q \<and> dq_holder q now (dl_ID d) = None) \<and>
    (int (length (filter (entry_ready now \<circ> reclaim_entry now) (go_values (dq_entries q)))) \<le> n \<longrightarrow>
       (\<forall>e \<in> set (go_values (dq_entries q)). entry_ready now (reclaim_entry now e) \<longrightarrow> entry_id e \<in> dl_ID ` set ds))"
proof -
  let ?rq = "reclaimExpiredLocked now q"
  let ?f = "filter (entry_ready now) (go_values (dq_entries ?rq))"
  note spec = receive_scan_spec [OF assms(1,3)]
  have vals: "go_values (dq_entries ?rq) = map (reclaim_entry now) (go_values (dq_entries q))"
    by (simp add: reclaimExpiredLocked_def comp_def split_def)
  have "entry_id e \<in> dl_ID ` set ds"
    if e: "e \<in> set (go_values (dq_entries q))" "entry_ready now (reclaim_entry now e)"
      and n: "int (length (filter (entry_ready now \<circ> reclaim_entry now) (go_values (dq_entries q)))) \<le> n" for e
  proof -
    have len: "length ?f = length (filter (entry_ready now \<circ> reclaim_entry now) (go_values (dq_entries q)))"
      unfolding vals filter_map length_map ..
    have mem: "reclaim_entry now e \<in> set ?f" unfolding vals using e by auto
    then have "0 < n" using n len by (cases ?f) auto
    have "length ?f \<le> nat n" using n len by linarith
    then have "readyEntriesLocked now n ?rq = sort_by delivery_less ?f" by (simp add: readyEntriesLocked_def length_sort_by)
    then have "reclaim_entry now e \<in> set (readyEntriesLocked now n ?rq)" using mem by (simp add: set_sort_by)
    then have "entry_id e \<in> entry_id ` set (readyEntriesLocked now n ?rq)"
      by (rule image_eqI [rotated]) simp
    also have "\<dots> = set (map entry_id (lease_all now (dq_deliveryLease ?rq) (TrimSpace consumer) rand 0 (readyEntriesLocked now n ?rq)))"
      unfolding lease_all_ids by simp
    also have "\<dots> = dl_ID ` set ds"
      using assms(2,3) \<open>0 < n\<close> by (auto simp: receive_scan_def lease_loop_eq Let_def delivery_of_def image_image)
    finally show ?thesis .
  qed
  moreover have "\<exists>e. go_get (dq_entries q) (dl_ID d) = Some e \<and> dl_Attempt d = de_attempt e + 1 \<and>
       dl_Envelope d = de_envelope e \<and> dl_LeaseUntil d = now + dq_deliveryLease q \<and> dq_holder q now (dl_ID d) = None"
    if d: "d \<in> set ds" for d
  proof -
    obtain e x where e: "go_get (dq_entries q) (dl_ID d) = Some e" "d = delivery_of x" "de_attempt x = de_attempt e + 1"
      "de_leaseUntil x = now + dq_deliveryLease q" "go_get (dq_entries q') (dl_ID d) = Some x"
      using spec d by blast
    have "de_envelope x = de_envelope e"
      using receive_envelope [OF assms(1,3) e(1,5)] .
    then show ?thesis using e receive_holder [OF assms(1,3) d] by (auto simp: delivery_of_def)
  qed
  ultimately show ?thesis using spec by auto
qed

theorem receive_at_least_once_witness:
  "TrimSpace ''w'' \<noteq> [] \<and> dl_ID ` set [example_delivery] = {''d''} \<and> dl_Attempt example_delivery = 1 \<and>
   dq_holder example_queue 6 ''d'' = None"
proof -
  have t: "TrimSpace ''w'' \<noteq> []" by (simp add: example_trim)
  have g: "go_get (dq_entries example_queue) ''d'' = Some (new_entry example_envelope ''d'' 5 1)"
    by (simp add: example_queue_def)
  from receive_at_least_once [OF example_queue_inv t example_receive(1)] t show ?thesis
    by (simp add: example_receive g) (simp add: new_entry_def)
qed

text \<open>
  Publishing is idempotent. After a publication succeeds the queue holds an entry with the
  envelope, publishing it again under the same key succeeds and changes nothing, and publishing any
  other valid envelope under that key is refused as a conflict and changes nothing. A publication
  that fails never changes the queue.
\<close>

theorem publish_idempotent:
  assumes "dq_inv q" "dq_Publish hash now envelope key t q = (q', r)"
  shows "(r = None \<longrightarrow>
       (\<exists>e. go_get (dq_entries q') (env_DeliveryID envelope) = Some e \<and> de_envelope e = envelope) \<and>
       dq_Publish hash later envelope key u q' = (q', None) \<and>
       (envelope' \<noteq> envelope \<and> validateAIJobDeliveryEnvelope hash envelope' = None \<and>
          publish_key envelope' key' = publish_key envelope key \<longrightarrow>
        dq_Publish hash later envelope' key' u q' = (q', Some ErrAIJobDeliveryDedupeConflict))) \<and>
    (r \<noteq> None \<longrightarrow> q' = q)"
proof (cases r)
  case None
  obtain e where e: "validateAIJobDeliveryEnvelope hash envelope = None" "publish_key envelope key \<noteq> []"
    "go_get (dq_byDedupe q') (publish_key envelope key) = Some (env_DeliveryID envelope)"
    "go_get (dq_entries q') (env_DeliveryID envelope) = Some e" "de_envelope e = envelope"
    using publish_result [OF assms(1), of hash now envelope key t] assms(2) None by auto
  have "dq_Publish hash later envelope key u q' = (q', None)" using publish_known [OF e(1-4)] e(5) by simp
  moreover have "dq_Publish hash later envelope' key' u q' = (q', Some ErrAIJobDeliveryDedupeConflict)"
    if "envelope' \<noteq> envelope" "validateAIJobDeliveryEnvelope hash envelope' = None"
      "publish_key envelope' key' = publish_key envelope key"
    using publish_known [of hash envelope' key' q' "env_DeliveryID envelope" e later u] that e by simp
  ultimately show ?thesis using None e(4,5) by blast
next
  case (Some err)
  then show ?thesis using assms(2) by (auto simp: dq_Publish_def Let_def split: option.splits if_splits)
qed

theorem publish_idempotent_witness:
  "snd (dq_Publish (\<lambda>_. []) 6 (example_envelope\<lparr>env_DeliveryID := ''job_delivery_''\<rparr>) ''k'' 0 example_queue) = None \<and>
   snd (dq_Publish (\<lambda>_. []) 9 (example_envelope\<lparr>env_DeliveryID := ''job_delivery_''\<rparr>) ''k'' 0
     (fst (dq_Publish (\<lambda>_. []) 6 (example_envelope\<lparr>env_DeliveryID := ''job_delivery_''\<rparr>) ''k'' 0 example_queue))) = None"
proof -
  have t: "TrimSpace ''j'' = ''j''" "TrimSpace ''o'' = ''o''" "TrimSpace ''t'' = ''t''" "TrimSpace ''k'' = ''k''"
    "TrimSpace ''job_delivery_'' = ''job_delivery_''"
    by code_simp+
  have "snd (dq_Publish (\<lambda>_. []) 6 (example_envelope\<lparr>env_DeliveryID := ''job_delivery_''\<rparr>) ''k'' 0 example_queue) = None"
    by (simp add: dq_Publish_def validateAIJobDeliveryEnvelope_def durableAIJobDeliveryIDParts_def prefix_of_def
        example_envelope_def example_queue_def t Let_def)
  with publish_idempotent [OF example_queue_inv prod.collapse [symmetric],
      of "\<lambda>_. []" 6 "example_envelope\<lparr>env_DeliveryID := ''job_delivery_''\<rparr>" "''k''" 0 9 0]
  show ?thesis by simp
qed

end
