(* ===== verification/Usage_Dimension.thy ===== *)
theory Usage_Dimension
  imports Prelude
begin

text \<open>
  Usage dimensions, \<^verbatim>\<open>backend/internal/controlplane/usage_dimension.go\<close>: the quantities an operation
  consumed besides tokens, by name, with their normalization, their totals and their merge.
  The only error is \<^verbatim>\<open>ErrUsageDimensionsInvalid\<close>, so a result is an option.
\<close>

section \<open>Data\<close>

definition UsageDimensionOutputImages :: string where "UsageDimensionOutputImages = ''output_images''"
definition UsageDimensionInputVideoMilliseconds :: string where
  "UsageDimensionInputVideoMilliseconds = ''input_video_milliseconds''"
definition UsageDimensionOutputVideoMilliseconds :: string where
  "UsageDimensionOutputVideoMilliseconds = ''output_video_milliseconds''"
definition UsageDimensionInputAudioMilliseconds :: string where
  "UsageDimensionInputAudioMilliseconds = ''input_audio_milliseconds''"
definition UsageDimensionOutputAudioMilliseconds :: string where
  "UsageDimensionOutputAudioMilliseconds = ''output_audio_milliseconds''"
definition UsageDimensionRealtimeAudioMilliseconds :: string where
  "UsageDimensionRealtimeAudioMilliseconds = ''realtime_audio_milliseconds''"

definition UsageUnitCount :: string where "UsageUnitCount = ''count''"
definition UsageUnitMillisecond :: string where "UsageUnitMillisecond = ''millisecond''"
definition UsageUnitCharacter :: string where "UsageUnitCharacter = ''character''"
definition UsageUnitByte :: string where "UsageUnitByte = ''byte''"

definition UsageConfidences :: "string list" where
  "UsageConfidences = [''estimated'', ''observed'', ''reported'', ''reconciled'']"

definition usageDimensionUnits :: "string gomap" where
  "usageDimensionUnits =
    [(''input_images'', UsageUnitCount),
     (UsageDimensionOutputImages, UsageUnitCount),
     (''partial_images'', UsageUnitCount),
     (UsageDimensionInputVideoMilliseconds, UsageUnitMillisecond),
     (UsageDimensionOutputVideoMilliseconds, UsageUnitMillisecond),
     (UsageDimensionInputAudioMilliseconds, UsageUnitMillisecond),
     (UsageDimensionOutputAudioMilliseconds, UsageUnitMillisecond),
     (UsageDimensionRealtimeAudioMilliseconds, UsageUnitMillisecond),
     (''input_characters'', UsageUnitCharacter),
     (''actions'', UsageUnitCount),
     (''batch_items'', UsageUnitCount),
     (''input_bytes'', UsageUnitByte),
     (''output_bytes'', UsageUnitByte),
     (''transfer_bytes'', UsageUnitByte),
     (''session_milliseconds'', UsageUnitMillisecond)]"

record UsageDimension =
  ud_Quantity :: int
  ud_Unit :: string
  ud_Source :: string
  ud_Confidence :: string
  ud_ProcurementPriceSnapshotID :: string
  ud_Attributes :: "string gomap"

type_synonym UsageDimensions = "UsageDimension gomap"

record UsageDimensionTotals =
  ut_OutputImages :: int
  ut_VideoMilliseconds :: int
  ut_AudioMilliseconds :: int

section \<open>Operations\<close>

definition token_char :: "char \<Rightarrow> bool" where
  "token_char c \<longleftrightarrow> CHR ''a'' \<le> c \<and> c \<le> CHR ''z'' \<or> CHR ''0'' \<le> c \<and> c \<le> CHR ''9''"

definition validUsageDimensionToken :: "string \<Rightarrow> bool" where
  "validUsageDimensionToken v \<longleftrightarrow>
     v \<noteq> [] \<and> length v \<le> 64 \<and> token_char (hd v) \<and>
     list_all (\<lambda>c. token_char c \<or> c = CHR ''_'' \<or> c = CHR ''-'' \<or> c = CHR '':'') (tl v)"

fun normalize_attributes_loop :: "string gomap \<Rightarrow> string gomap \<Rightarrow> string gomap option" where
  "normalize_attributes_loop normalized [] = Some normalized"
| "normalize_attributes_loop normalized ((rawKey, rawValue) # rest) =
     (let key = ToLower (TrimSpace rawKey); v = TrimSpace rawValue in
      if \<not> validUsageDimensionToken key \<or> v = [] \<or> length v > 128 \<or>
         CHR 0x0D \<in> set v \<or> CHR 0x0A \<in> set v \<or> CHR 0x00 \<in> set v
      then None
      else if go_get normalized key \<noteq> None then None
      else normalize_attributes_loop (go_set key v normalized) rest)"

definition normalizeUsageDimensionAttributes :: "string gomap \<Rightarrow> string gomap option" where
  "normalizeUsageDimensionAttributes values =
     (if values = [] then Some []
      else if length values > 16 then None
      else normalize_attributes_loop [] values)"

fun normalize_dimensions_loop :: "UsageDimensions \<Rightarrow> UsageDimensions \<Rightarrow> UsageDimensions option" where
  "normalize_dimensions_loop normalized [] = Some normalized"
| "normalize_dimensions_loop normalized ((rawName, rawValue) # rest) =
     (let name = ToLower (TrimSpace rawName) in
      if go_get normalized name \<noteq> None then None
      else
        (let v = rawValue\<lparr>ud_Unit := ToLower (TrimSpace (ud_Unit rawValue)),
                          ud_Source := ToLower (TrimSpace (ud_Source rawValue)),
                          ud_Confidence := ToLower (TrimSpace (ud_Confidence rawValue)),
                          ud_ProcurementPriceSnapshotID := TrimSpace (ud_ProcurementPriceSnapshotID rawValue)\<rparr>
         in case go_get usageDimensionUnits name of
              None \<Rightarrow> None
            | Some expectedUnit \<Rightarrow>
                if ud_Quantity v < 0 \<or> ud_Unit v \<noteq> expectedUnit \<or> \<not> validUsageDimensionToken (ud_Source v) \<or>
                   \<not> oneOf (ud_Confidence v) UsageConfidences \<or> length (ud_ProcurementPriceSnapshotID v) > 160
                then None
                else (case normalizeUsageDimensionAttributes (ud_Attributes v) of
                        None \<Rightarrow> None
                      | Some attributes \<Rightarrow>
                          normalize_dimensions_loop (go_set name (v\<lparr>ud_Attributes := attributes\<rparr>) normalized) rest)))"

definition NormalizeUsageDimensions :: "UsageDimensions \<Rightarrow> UsageDimensions option" where
  "NormalizeUsageDimensions values = normalize_dimensions_loop [] values"

text \<open>
  \<^verbatim>\<open>UsageDimensionsJSON\<close>: \<^verbatim>\<open>json.Marshal\<close> writes a map in the order of its keys, so the text is
  represented by the normalized map with the keys of both levels sorted.
\<close>

definition sorted_dims :: "UsageDimensions \<Rightarrow> UsageDimensions" where
  "sorted_dims m = sort_key fst (map (\<lambda>(k, v). (k, v\<lparr>ud_Attributes := sort_key fst (ud_Attributes v)\<rparr>)) m)"

definition UsageDimensionsJSON :: "UsageDimensions \<Rightarrow> UsageDimensions option" where
  "UsageDimensionsJSON values = map_option sorted_dims (NormalizeUsageDimensions values)"

definition usageDimensionsEqual :: "UsageDimensions \<Rightarrow> UsageDimensions \<Rightarrow> bool" where
  "usageDimensionsEqual left right =
     (case (UsageDimensionsJSON left, UsageDimensionsJSON right) of
        (Some l, Some r) \<Rightarrow> l = r
      | _ \<Rightarrow> False)"

definition usageDimensionQuantity :: "UsageDimensions \<Rightarrow> string \<Rightarrow> int" where
  "usageDimensionQuantity values name =
     (case go_get values name of
        None \<Rightarrow> 0
      | Some v \<Rightarrow> if ud_Quantity v < 0 then 0 else ud_Quantity v)"

definition saturatingUsageAdd :: "int \<Rightarrow> int \<Rightarrow> int" where
  "saturatingUsageAdd left right =
     (let left = (if left < 0 then 0 else left); right = (if right < 0 then 0 else right) in
      if left > max_int64 - right then max_int64 else wrap64 (left + right))"

definition UsageDimensionsTotals :: "UsageDimensions \<Rightarrow> UsageDimensionTotals" where
  "UsageDimensionsTotals values =
     \<lparr>ut_OutputImages = usageDimensionQuantity values UsageDimensionOutputImages,
      ut_VideoMilliseconds =
        saturatingUsageAdd (usageDimensionQuantity values UsageDimensionInputVideoMilliseconds)
          (usageDimensionQuantity values UsageDimensionOutputVideoMilliseconds),
      ut_AudioMilliseconds =
        saturatingUsageAdd
          (saturatingUsageAdd (usageDimensionQuantity values UsageDimensionInputAudioMilliseconds)
            (usageDimensionQuantity values UsageDimensionOutputAudioMilliseconds))
          (usageDimensionQuantity values UsageDimensionRealtimeAudioMilliseconds)\<rparr>"

text \<open>The loop of \<^verbatim>\<open>MergeUsageDimensions\<close> over the right operand.\<close>

fun merge_loop :: "UsageDimensions \<Rightarrow> UsageDimensions \<Rightarrow> UsageDimensions option" where
  "merge_loop merged [] = Some merged"
| "merge_loop merged ((name, v) # rest) =
     (case go_get merged name of
        Some current \<Rightarrow> if ud_Unit current \<noteq> ud_Unit v then None else merge_loop (go_set name v merged) rest
      | None \<Rightarrow> merge_loop (go_set name v merged) rest)"

definition MergeUsageDimensions :: "UsageDimensions \<Rightarrow> UsageDimensions \<Rightarrow> UsageDimensions option" where
  "MergeUsageDimensions left0 right0 =
     (case NormalizeUsageDimensions left0 of
        None \<Rightarrow> None
      | Some left \<Rightarrow>
          (case NormalizeUsageDimensions right0 of
             None \<Rightarrow> None
           | Some right \<Rightarrow> merge_loop left right))"

section \<open>Normal forms\<close>

definition attribute_normal :: "string \<times> string \<Rightarrow> bool" where
  "attribute_normal a \<longleftrightarrow> validUsageDimensionToken (fst a) \<and> TrimSpace (snd a) = snd a \<and> snd a \<noteq> [] \<and>
     length (snd a) \<le> 128 \<and> CHR 0x0D \<notin> set (snd a) \<and> CHR 0x0A \<notin> set (snd a) \<and> CHR 0x00 \<notin> set (snd a)"

definition attributes_normal :: "string gomap \<Rightarrow> bool" where
  "attributes_normal m \<longleftrightarrow> length m \<le> 16 \<and> distinct (map fst m) \<and> list_all attribute_normal m"

definition dimension_normal :: "string \<times> UsageDimension \<Rightarrow> bool" where
  "dimension_normal d \<longleftrightarrow>
     go_get usageDimensionUnits (fst d) = Some (ud_Unit (snd d)) \<and> 0 \<le> ud_Quantity (snd d) \<and>
     validUsageDimensionToken (ud_Source (snd d)) \<and> ud_Confidence (snd d) \<in> set UsageConfidences \<and>
     TrimSpace (ud_ProcurementPriceSnapshotID (snd d)) = ud_ProcurementPriceSnapshotID (snd d) \<and>
     length (ud_ProcurementPriceSnapshotID (snd d)) \<le> 160 \<and> attributes_normal (ud_Attributes (snd d))"

definition dimensions_normal :: "UsageDimensions \<Rightarrow> bool" where
  "dimensions_normal m \<longleftrightarrow> distinct (map fst m) \<and> list_all dimension_normal m"

text \<open>Tokens are fixed points of trimming and lower-casing.\<close>

definition plain_char :: "char \<Rightarrow> bool" where
  "plain_char c \<longleftrightarrow> token_char c \<or> c = CHR ''_'' \<or> c = CHR ''-'' \<or> c = CHR '':''"

lemma plain_char_lower: "plain_char c \<Longrightarrow> lower_byte c = c"
  by (auto simp: plain_char_def token_char_def lower_byte_def less_eq_char_def)

lemma plain_char_ascii:
  "plain_char c \<Longrightarrow> c \<noteq> CHR 0xC4 \<and> c \<noteq> CHR 0xE2 \<and> c \<noteq> CHR 0xC2 \<and> c \<noteq> CHR 0xE1 \<and> c \<noteq> CHR 0xE3 \<and>
     c \<noteq> CHR 0x85 \<and> c \<noteq> CHR 0xA0 \<and> \<not> is_ascii_space c"
  by (auto simp: plain_char_def token_char_def less_eq_char_def is_ascii_space_def)

lemma ToLower_plain_Cons: "plain_char a \<Longrightarrow> ToLower (a # s) = a # ToLower s"
  using plain_char_ascii [of a] by (simp add: plain_char_lower split: list.split)

lemma plain_ToLower: "list_all plain_char s \<Longrightarrow> ToLower s = s"
  by (induction s) (simp_all add: ToLower_plain_Cons del: ToLower.simps(2))

lemma plain_space_len: "list_all plain_char s \<Longrightarrow> space_len s = 0"
  by (cases s rule: space_len.cases) (auto dest!: plain_char_ascii simp: is_space2_def is_space3_def)

lemma plain_space_len_rev: "list_all plain_char s \<Longrightarrow> space_len_rev s = 0"
  by (cases s rule: space_len_rev.cases) (auto dest!: plain_char_ascii simp: is_space2_def is_space3_def)

lemma plain_TrimSpace: "list_all plain_char s \<Longrightarrow> TrimSpace s = s"
  by (simp add: TrimSpace_def trim_left_id trim_left_rev_id plain_space_len plain_space_len_rev)

lemma token_plain: "validUsageDimensionToken v \<Longrightarrow> list_all plain_char v"
  by (cases v) (auto simp: validUsageDimensionToken_def plain_char_def list_all_iff)

lemma token_fixed: "validUsageDimensionToken v \<Longrightarrow> ToLower (TrimSpace v) = v"
  by (simp add: token_plain plain_TrimSpace plain_ToLower)

lemma known_fixed:
  "go_get usageDimensionUnits name = Some u \<Longrightarrow> ToLower (TrimSpace name) = name \<and> ToLower (TrimSpace u) = u"
proof -
  assume "go_get usageDimensionUnits name = Some u"
  then have "(name, u) \<in> set usageDimensionUnits" by (rule map_of_SomeD)
  moreover have "list_all (\<lambda>(n, u). list_all plain_char n \<and> list_all plain_char u) usageDimensionUnits"
    by code_simp
  ultimately show ?thesis by (auto simp: list_all_iff [of _ usageDimensionUnits] plain_TrimSpace plain_ToLower)
qed

lemma confidence_fixed: "c \<in> set UsageConfidences \<Longrightarrow> ToLower (TrimSpace c) = c"
proof -
  have "list_all (list_all plain_char) UsageConfidences" by code_simp
  then show "c \<in> set UsageConfidences \<Longrightarrow> ToLower (TrimSpace c) = c"
    by (auto simp: list_all_iff [of _ UsageConfidences] plain_TrimSpace plain_ToLower)
qed

section \<open>Normalization yields normal forms, and keeps them\<close>

lemma go_set_fresh: "go_get m k = None \<Longrightarrow> go_set k v m = m @ [(k, v)]"
  by (induction m) auto

lemma attributes_loop_normal:
  "normalize_attributes_loop acc m = Some r \<Longrightarrow> distinct (map fst acc) \<Longrightarrow> list_all attribute_normal acc \<Longrightarrow>
   distinct (map fst r) \<and> list_all attribute_normal r \<and> length r = length acc + length m"
  by (induction acc m rule: normalize_attributes_loop.induct)
    (auto simp: Let_def go_set_fresh attribute_normal_def map_of_eq_None_iff split: if_splits)

lemma attributes_loop_id:
  "distinct (map fst (acc @ m)) \<Longrightarrow> list_all attribute_normal m \<Longrightarrow> normalize_attributes_loop acc m = Some (acc @ m)"
proof (induction m arbitrary: acc)
  case (Cons a m)
  obtain k v where a: "a = (k, v)" by fastforce
  have "go_get acc k = None" using Cons.prems a by (auto simp: map_of_eq_None_iff)
  then show ?case using Cons a by (auto simp: Let_def go_set_fresh attribute_normal_def token_fixed)
qed simp

lemma normalize_attributes_normal: "normalizeUsageDimensionAttributes m = Some r \<Longrightarrow> attributes_normal r"
  using attributes_loop_normal [of "[]" m r]
  by (auto simp: normalizeUsageDimensionAttributes_def attributes_normal_def split: if_splits)

lemma normalize_attributes_id: "attributes_normal m \<Longrightarrow> normalizeUsageDimensionAttributes m = Some m"
  using attributes_loop_id [of "[]" m]
  by (auto simp: normalizeUsageDimensionAttributes_def attributes_normal_def)

definition trimmed_dimension :: "UsageDimension \<Rightarrow> UsageDimension" where
  "trimmed_dimension v = v\<lparr>ud_Unit := ToLower (TrimSpace (ud_Unit v)), ud_Source := ToLower (TrimSpace (ud_Source v)),
     ud_Confidence := ToLower (TrimSpace (ud_Confidence v)),
     ud_ProcurementPriceSnapshotID := TrimSpace (ud_ProcurementPriceSnapshotID v)\<rparr>"

lemma dimensions_loop_step:
  assumes "normalize_dimensions_loop acc ((k, v) # rest) = Some r"
  shows "\<exists>attributes. go_get acc (ToLower (TrimSpace k)) = None \<and>
    dimension_normal (ToLower (TrimSpace k), (trimmed_dimension v)\<lparr>ud_Attributes := attributes\<rparr>) \<and>
    normalize_dimensions_loop
      (acc @ [(ToLower (TrimSpace k), (trimmed_dimension v)\<lparr>ud_Attributes := attributes\<rparr>)]) rest = Some r"
proof -
  let ?v = "trimmed_dimension v"
  obtain attributes where at: "normalizeUsageDimensionAttributes (ud_Attributes ?v) = Some attributes"
    and g: "go_get acc (ToLower (TrimSpace k)) = None"
    and c: "go_get usageDimensionUnits (ToLower (TrimSpace k)) = Some (ud_Unit ?v)" "\<not> ud_Quantity ?v < 0"
      "validUsageDimensionToken (ud_Source ?v)" "ud_Confidence ?v \<in> set UsageConfidences"
      "\<not> length (ud_ProcurementPriceSnapshotID ?v) > 160"
    and l: "normalize_dimensions_loop (go_set (ToLower (TrimSpace k)) (?v\<lparr>ud_Attributes := attributes\<rparr>) acc) rest = Some r"
    using assms unfolding normalize_dimensions_loop.simps trimmed_dimension_def [symmetric] Let_def
    by (simp split: if_split_asm option.split_asm)
  have "dimension_normal (ToLower (TrimSpace k), ?v\<lparr>ud_Attributes := attributes\<rparr>)"
    using c normalize_attributes_normal [OF at] by (simp add: dimension_normal_def trimmed_dimension_def)
  with g l show ?thesis by (auto simp: go_set_fresh)
qed

lemma dimensions_loop_normal:
  "normalize_dimensions_loop acc m = Some r \<Longrightarrow> dimensions_normal acc \<Longrightarrow> dimensions_normal r"
proof (induction m arbitrary: acc)
  case (Cons d m)
  obtain k v where d: "d = (k, v)" by fastforce
  from dimensions_loop_step [OF Cons.prems(1) [unfolded d]] Cons.IH Cons.prems(2) show ?case
    by (auto simp: dimensions_normal_def map_of_eq_None_iff)
qed simp

lemma dimensions_loop_id:
  "distinct (map fst (acc @ m)) \<Longrightarrow> list_all dimension_normal m \<Longrightarrow> normalize_dimensions_loop acc m = Some (acc @ m)"
proof (induction m arbitrary: acc)
  case (Cons a m)
  obtain k v where a: "a = (k, v)" by fastforce
  have n: "dimension_normal (k, v)" using Cons.prems a by simp
  have "go_get acc k = None" using Cons.prems a by (auto simp: map_of_eq_None_iff)
  then show ?case
    using Cons a n known_fixed [of k "ud_Unit v"]
    by (auto simp: Let_def go_set_fresh dimension_normal_def token_fixed confidence_fixed normalize_attributes_id)
qed simp

lemma Normalize_normal: "NormalizeUsageDimensions m = Some r \<Longrightarrow> dimensions_normal r"
  using dimensions_loop_normal [of "[]" m r] by (simp add: NormalizeUsageDimensions_def dimensions_normal_def)

lemma Normalize_id: "dimensions_normal m \<Longrightarrow> NormalizeUsageDimensions m = Some m"
  unfolding NormalizeUsageDimensions_def using dimensions_loop_id [of "[]" m] by (simp add: dimensions_normal_def)

lemma usageDimensionsEqual_refl: "NormalizeUsageDimensions m = Some n \<Longrightarrow> usageDimensionsEqual m m"
  by (simp add: usageDimensionsEqual_def UsageDimensionsJSON_def)

lemma usageDimensionsEqual_sym: "usageDimensionsEqual a b = usageDimensionsEqual b a"
  by (auto simp: usageDimensionsEqual_def split: option.splits)

text \<open>
  C25: normalization is a projection onto normal forms. What \<^verbatim>\<open>NormalizeUsageDimensions\<close> returns has
  only known names with their units, non-negative quantities, known confidences and valid tokens,
  and normalizing it again returns it unchanged.
\<close>

theorem Normalize_idempotent:
  assumes "NormalizeUsageDimensions m = Some n"
  shows "dimensions_normal n \<and> NormalizeUsageDimensions n = Some n \<and> usageDimensionsEqual m n"
  using Normalize_normal [OF assms] Normalize_id assms
  by (simp add: usageDimensionsEqual_def UsageDimensionsJSON_def)

definition example_normalized :: UsageDimensions where
  "example_normalized = [(''output_images'', \<lparr>ud_Quantity = 2, ud_Unit = ''count'', ud_Source = ''provider'',
     ud_Confidence = ''reported'', ud_ProcurementPriceSnapshotID = [], ud_Attributes = [(''size'', ''large'')]\<rparr>)]"

lemma example_normal: "dimensions_normal example_normalized"
proof -
  have "TrimSpace ''large'' = ''large''" "go_get usageDimensionUnits ''output_images'' = Some ''count''"
    by code_simp+
  then show ?thesis
    by (simp add: dimensions_normal_def dimension_normal_def example_normalized_def attributes_normal_def
        attribute_normal_def validUsageDimensionToken_def token_char_def less_eq_char_def UsageConfidences_def)
qed

lemma example_normalizes: "NormalizeUsageDimensions example_normalized = Some example_normalized"
  by (rule Normalize_id [OF example_normal])

theorem Normalize_idempotent_witness:
  "NormalizeUsageDimensions example_normalized = Some example_normalized \<and>
   usageDimensionsEqual example_normalized example_normalized"
  using Normalize_idempotent [OF example_normalizes] by simp

lemma merge_loop_spec:
  assumes "dimensions_normal l" "list_all dimension_normal r"
  shows "\<exists>m. merge_loop l r = Some m \<and> dimensions_normal m \<and> (\<forall>k. go_get m k = (case go_get (rev r) k of Some v \<Rightarrow> Some v | None \<Rightarrow> go_get l k))"
  using assms
proof (induction r arbitrary: l)
  case Nil
  then show ?case by simp
next
  case (Cons d r)
  obtain k v where d: "d = (k, v)" by fastforce
  have n: "dimension_normal (k, v)" "list_all dimension_normal r" using Cons.prems d by simp_all
  have l': "dimensions_normal (go_set k v l)"
    using Cons.prems(1) n(1)
    by (auto simp: dimensions_normal_def list_all_iff distinct_update set_go_set)
  have unit: "ud_Unit w = ud_Unit v" if "go_get l k = Some w" for w
    using Cons.prems(1) n(1) map_of_SomeD [OF that]
    by (auto simp: dimensions_normal_def dimension_normal_def list_all_iff)
  obtain m where m: "merge_loop (go_set k v l) r = Some m" "dimensions_normal m"
    "\<forall>j. go_get m j = (case go_get (rev r) j of Some v \<Rightarrow> Some v | None \<Rightarrow> go_get (go_set k v l) j)"
    using Cons.IH [OF l' n(2)] by blast
  from m unit show ?case
    by (auto simp: d update_conv' map_add_def split: option.splits)
qed

lemma distinct_map_of_rev: "distinct (map fst m) \<Longrightarrow> map_of (rev m) = map_of m"
  by (simp add: map_of_inject_set rev_map [symmetric])

text \<open>
  Merging succeeds whenever both operands are valid, and the right operand wins. The result is
  a normal form whose lookup is the right operand's, or the left's where the right has none. The
  error branch for two different units of one name cannot be reached: the name determines the unit.
\<close>

theorem MergeUsageDimensions_spec:
  assumes "NormalizeUsageDimensions left = Some l" "NormalizeUsageDimensions right = Some r"
  shows "\<exists>m. MergeUsageDimensions left right = Some m \<and> dimensions_normal m \<and>
    (\<forall>k. go_get m k = (case go_get r k of Some v \<Rightarrow> Some v | None \<Rightarrow> go_get l k))"
proof -
  have "dimensions_normal l" "dimensions_normal r" using assms Normalize_normal by blast+
  then show ?thesis
    using merge_loop_spec [of l r] assms
    by (auto simp: MergeUsageDimensions_def dimensions_normal_def distinct_map_of_rev)
qed

theorem MergeUsageDimensions_spec_witness:
  "\<exists>m. MergeUsageDimensions example_normalized example_normalized = Some m \<and>
     go_get m ''output_images'' = go_get example_normalized ''output_images''"
  using MergeUsageDimensions_spec [OF example_normalizes example_normalizes]
  by (auto simp: example_normalized_def)

lemma saturatingUsageAdd_min:
  "int64_ok a \<Longrightarrow> int64_ok b \<Longrightarrow> saturatingUsageAdd a b = min max_int64 (max 0 a + max 0 b)"
  by (auto simp: saturatingUsageAdd_def int64_ok_def Let_def)

lemma saturatingUsageAdd_ok: "int64_ok a \<Longrightarrow> int64_ok b \<Longrightarrow> int64_ok (saturatingUsageAdd a b)"
  by (simp add: saturatingUsageAdd_min) (auto simp: int64_ok_def)

lemma quantity_ok:
  "every (\<lambda>v. int64_ok (ud_Quantity v)) m \<Longrightarrow>
   int64_ok (usageDimensionQuantity m k) \<and> 0 \<le> usageDimensionQuantity m k"
  by (auto simp: usageDimensionQuantity_def int64_ok_def dest: every_get split: option.splits)

text \<open>
  Totals saturate, they never wrap. On 64-bit quantities the video total is the sum of its two
  dimensions and the audio total the sum of its three, each capped at the largest 64-bit number.
\<close>

theorem UsageDimensionsTotals_saturate:
  assumes "every (\<lambda>v. int64_ok (ud_Quantity v)) m"
  shows "ut_VideoMilliseconds (UsageDimensionsTotals m) =
      min max_int64 (usageDimensionQuantity m UsageDimensionInputVideoMilliseconds +
        usageDimensionQuantity m UsageDimensionOutputVideoMilliseconds) \<and>
    ut_AudioMilliseconds (UsageDimensionsTotals m) =
      min max_int64 (usageDimensionQuantity m UsageDimensionInputAudioMilliseconds +
        usageDimensionQuantity m UsageDimensionOutputAudioMilliseconds +
        usageDimensionQuantity m UsageDimensionRealtimeAudioMilliseconds) \<and>
    0 \<le> ut_OutputImages (UsageDimensionsTotals m)"
proof -
  note q = quantity_ok [OF assms]
  have audio: "saturatingUsageAdd (saturatingUsageAdd a b) c = min max_int64 (a + b + c)"
    if "int64_ok a" "int64_ok b" "int64_ok c" "0 \<le> a" "0 \<le> b" "0 \<le> c" for a b c
    using that saturatingUsageAdd_ok [of a b] by (simp add: saturatingUsageAdd_min)
  have video: "saturatingUsageAdd a b = min max_int64 (a + b)" if "int64_ok a" "int64_ok b" "0 \<le> a" "0 \<le> b" for a b
    using that by (simp add: saturatingUsageAdd_min)
  show ?thesis unfolding UsageDimensionsTotals_def UsageDimensionTotals.simps
    by (intro conjI audio video) (simp_all add: q)
qed

definition example_audio :: UsageDimensions where
  "example_audio = map (\<lambda>k. (k, \<lparr>ud_Quantity = max_int64, ud_Unit = UsageUnitMillisecond, ud_Source = ''provider'',
     ud_Confidence = ''reported'', ud_ProcurementPriceSnapshotID = [], ud_Attributes = []\<rparr>))
     [UsageDimensionInputAudioMilliseconds, UsageDimensionRealtimeAudioMilliseconds]"

theorem UsageDimensionsTotals_saturate_witness:
  "ut_AudioMilliseconds (UsageDimensionsTotals example_audio) = max_int64"
proof -
  have "every (\<lambda>v. int64_ok (ud_Quantity v)) example_audio"
    by (simp add: every_def example_audio_def int64_ok_def)
  note UsageDimensionsTotals_saturate [OF this]
  moreover have "usageDimensionQuantity example_audio UsageDimensionInputAudioMilliseconds = max_int64"
    "usageDimensionQuantity example_audio UsageDimensionRealtimeAudioMilliseconds = max_int64"
    "usageDimensionQuantity example_audio UsageDimensionOutputAudioMilliseconds = 0"
    by code_simp+
  ultimately show ?thesis by simp
qed

end
