(* ===== verification/Operation_Model.thy ===== *)
theory Operation_Model
  imports Usage_Dimension Pricing_Compile
begin

text \<open>
  The records the repository stores, from \<^verbatim>\<open>backend/internal/controlplane\<close>: operations, attempts,
  ledger entries, settlements and outbox events (\<^verbatim>\<open>operation_model.go\<close>), usage records and audit
  logs (\<^verbatim>\<open>model.go\<close>), pricing evaluations (\<^verbatim>\<open>pricing_model.go\<close>), artifacts (\<^verbatim>\<open>artifact_model.go\<close>), and the normalisations applied to them
  (\<^verbatim>\<open>operation_repository.go\<close>, \<^verbatim>\<open>artifact_model.go\<close>, \<^verbatim>\<open>artifact_sink.go\<close>).

  The JSON text of an outbox payload and of a dispatch intent is represented by the fields it
  encodes; the empty text of an attempt that has no intent is \<open>None\<close>.
\<close>

section \<open>Statuses\<close>

definition AIOperationStatusAccepted :: string where "AIOperationStatusAccepted = ''accepted''"
definition AIOperationStatusRunning :: string where "AIOperationStatusRunning = ''running''"
definition AIOperationStatusSucceeded :: string where "AIOperationStatusSucceeded = ''succeeded''"
definition AIOperationStatusFailed :: string where "AIOperationStatusFailed = ''failed''"
definition AIOperationStatusCanceled :: string where "AIOperationStatusCanceled = ''canceled''"

lemma aiOperationStatus_distinct:
  "AIOperationStatusAccepted \<noteq> AIOperationStatusRunning"
  "AIOperationStatusAccepted \<noteq> AIOperationStatusSucceeded"
  "AIOperationStatusAccepted \<noteq> AIOperationStatusFailed"
  "AIOperationStatusAccepted \<noteq> AIOperationStatusCanceled"
  "AIOperationStatusRunning \<noteq> AIOperationStatusSucceeded"
  "AIOperationStatusRunning \<noteq> AIOperationStatusFailed"
  "AIOperationStatusRunning \<noteq> AIOperationStatusCanceled"
  "AIOperationStatusSucceeded \<noteq> AIOperationStatusFailed"
  "AIOperationStatusSucceeded \<noteq> AIOperationStatusCanceled"
  "AIOperationStatusFailed \<noteq> AIOperationStatusCanceled"
  by (simp_all add: AIOperationStatusAccepted_def AIOperationStatusRunning_def AIOperationStatusSucceeded_def AIOperationStatusFailed_def AIOperationStatusCanceled_def)

declare aiOperationStatus_distinct [simp, status_simps] aiOperationStatus_distinct [symmetric, simp, status_simps]

definition AIAttemptStatusRunning :: string where "AIAttemptStatusRunning = ''running''"
definition AIAttemptStatusSucceeded :: string where "AIAttemptStatusSucceeded = ''succeeded''"
definition AIAttemptStatusFailed :: string where "AIAttemptStatusFailed = ''failed''"
definition AIAttemptStatusSkipped :: string where "AIAttemptStatusSkipped = ''skipped''"
definition AIAttemptStatusCanceled :: string where "AIAttemptStatusCanceled = ''canceled''"

lemma aiAttemptStatus_distinct:
  "AIAttemptStatusRunning \<noteq> AIAttemptStatusSucceeded"
  "AIAttemptStatusRunning \<noteq> AIAttemptStatusFailed"
  "AIAttemptStatusRunning \<noteq> AIAttemptStatusSkipped"
  "AIAttemptStatusRunning \<noteq> AIAttemptStatusCanceled"
  "AIAttemptStatusSucceeded \<noteq> AIAttemptStatusFailed"
  "AIAttemptStatusSucceeded \<noteq> AIAttemptStatusSkipped"
  "AIAttemptStatusSucceeded \<noteq> AIAttemptStatusCanceled"
  "AIAttemptStatusFailed \<noteq> AIAttemptStatusSkipped"
  "AIAttemptStatusFailed \<noteq> AIAttemptStatusCanceled"
  "AIAttemptStatusSkipped \<noteq> AIAttemptStatusCanceled"
  by (simp_all add: AIAttemptStatusRunning_def AIAttemptStatusSucceeded_def AIAttemptStatusFailed_def AIAttemptStatusSkipped_def AIAttemptStatusCanceled_def)

declare aiAttemptStatus_distinct [simp, status_simps] aiAttemptStatus_distinct [symmetric, simp, status_simps]

definition AIAttemptDispatchPending :: string where "AIAttemptDispatchPending = ''pending''"
definition AIAttemptDispatchPrepared :: string where "AIAttemptDispatchPrepared = ''prepared''"
definition AIAttemptDispatchSubmitted :: string where "AIAttemptDispatchSubmitted = ''submitted''"
definition AIAttemptDispatchAccepted :: string where "AIAttemptDispatchAccepted = ''accepted''"
definition AIAttemptDispatchUnknown :: string where "AIAttemptDispatchUnknown = ''unknown''"
definition AIAttemptDispatchProvenNotCreated :: string where "AIAttemptDispatchProvenNotCreated = ''proven_not_created''"

lemma aiAttemptDispatch_distinct:
  "AIAttemptDispatchPending \<noteq> AIAttemptDispatchPrepared"
  "AIAttemptDispatchPending \<noteq> AIAttemptDispatchSubmitted"
  "AIAttemptDispatchPending \<noteq> AIAttemptDispatchAccepted"
  "AIAttemptDispatchPending \<noteq> AIAttemptDispatchUnknown"
  "AIAttemptDispatchPending \<noteq> AIAttemptDispatchProvenNotCreated"
  "AIAttemptDispatchPrepared \<noteq> AIAttemptDispatchSubmitted"
  "AIAttemptDispatchPrepared \<noteq> AIAttemptDispatchAccepted"
  "AIAttemptDispatchPrepared \<noteq> AIAttemptDispatchUnknown"
  "AIAttemptDispatchPrepared \<noteq> AIAttemptDispatchProvenNotCreated"
  "AIAttemptDispatchSubmitted \<noteq> AIAttemptDispatchAccepted"
  "AIAttemptDispatchSubmitted \<noteq> AIAttemptDispatchUnknown"
  "AIAttemptDispatchSubmitted \<noteq> AIAttemptDispatchProvenNotCreated"
  "AIAttemptDispatchAccepted \<noteq> AIAttemptDispatchUnknown"
  "AIAttemptDispatchAccepted \<noteq> AIAttemptDispatchProvenNotCreated"
  "AIAttemptDispatchUnknown \<noteq> AIAttemptDispatchProvenNotCreated"
  by (simp_all add: AIAttemptDispatchPending_def AIAttemptDispatchPrepared_def AIAttemptDispatchSubmitted_def AIAttemptDispatchAccepted_def AIAttemptDispatchUnknown_def AIAttemptDispatchProvenNotCreated_def)

declare aiAttemptDispatch_distinct [simp, status_simps] aiAttemptDispatch_distinct [symmetric, simp, status_simps]

definition OutboxStatusPending :: string where "OutboxStatusPending = ''pending''"
definition OutboxStatusPublishing :: string where "OutboxStatusPublishing = ''publishing''"
definition OutboxStatusPublished :: string where "OutboxStatusPublished = ''published''"
definition OutboxStatusDeadLetter :: string where "OutboxStatusDeadLetter = ''dead_letter''"

lemma outboxStatus_distinct:
  "OutboxStatusPending \<noteq> OutboxStatusPublishing"
  "OutboxStatusPending \<noteq> OutboxStatusPublished"
  "OutboxStatusPending \<noteq> OutboxStatusDeadLetter"
  "OutboxStatusPublishing \<noteq> OutboxStatusPublished"
  "OutboxStatusPublishing \<noteq> OutboxStatusDeadLetter"
  "OutboxStatusPublished \<noteq> OutboxStatusDeadLetter"
  by (simp_all add: OutboxStatusPending_def OutboxStatusPublishing_def OutboxStatusPublished_def OutboxStatusDeadLetter_def)

declare outboxStatus_distinct [simp, status_simps] outboxStatus_distinct [symmetric, simp, status_simps]

definition PricingEvaluationStatusSuccess :: string where "PricingEvaluationStatusSuccess = ''succeeded''"
definition PricingEvaluationStatusFailed :: string where "PricingEvaluationStatusFailed = ''failed''"
definition PricingEvaluationStatusDisputed :: string where "PricingEvaluationStatusDisputed = ''disputed''"

lemma pricingEvaluationStatus_distinct:
  "PricingEvaluationStatusSuccess \<noteq> PricingEvaluationStatusFailed"
  "PricingEvaluationStatusSuccess \<noteq> PricingEvaluationStatusDisputed"
  "PricingEvaluationStatusFailed \<noteq> PricingEvaluationStatusDisputed"
  by (simp_all add: PricingEvaluationStatusSuccess_def PricingEvaluationStatusFailed_def PricingEvaluationStatusDisputed_def)

declare pricingEvaluationStatus_distinct [simp, status_simps] pricingEvaluationStatus_distinct [symmetric, simp, status_simps]

definition BillingLedgerStatusApplied :: string where "BillingLedgerStatusApplied = ''applied''"
definition PricingPurposeUsageCost :: string where "PricingPurposeUsageCost = ''usage_cost''"

lemma pricingPhase_distinct [simp]: "PhaseEstimate \<noteq> PhaseSettlement" "PhaseSettlement \<noteq> PhaseEstimate"
  by (simp_all add: PhaseEstimate_def PhaseSettlement_def)

abbreviation (input) OutboxDefaultMaxAttempts :: int where "OutboxDefaultMaxAttempts \<equiv> 20"

section \<open>Records\<close>

record AIOperation =
  op_ID :: string
  op_ApplicationID :: string
  op_CredentialID :: string
  op_CredentialSource :: string
  op_IntegrationID :: string
  op_PrincipalType :: string
  op_PrincipalID :: string
  op_ExternalSubjectReference :: string
  op_ClientRequestID :: string
  op_RequestFingerprint :: string
  op_IdempotencyKey :: string
  op_Protocol :: string
  op_Operation :: string
  op_Modality :: string
  op_Lane :: string
  op_Model :: string
  op_ArtifactPolicy :: string
  op_ArtifactSinkID :: string
  op_Status :: string
  op_ErrorType :: string
  op_CreatedAt :: gotime
  op_UpdatedAt :: gotime
  op_CompletedAt :: "gotime option"

record ProviderDispatchIntent =
  in_Version :: int
  in_AttemptID :: string
  in_OperationID :: string
  in_DispatchKey :: string
  in_RequestFingerprint :: string
  in_ProviderID :: string
  in_ProviderAccountID :: string
  in_ProviderAdapterID :: string
  in_RouteID :: string
  in_UpstreamModel :: string

record ProviderTaskReference =
  tk_ProviderTaskID :: string
  tk_ProviderRequestID :: string
  tk_Status :: string
  tk_AcceptedAt :: gotime

record AIAttempt =
  at_ID :: string
  at_OperationID :: string
  at_AttemptNumber :: int
  at_ProviderID :: string
  at_ProviderAccountID :: string
  at_ProviderAdapterID :: string
  at_RouteID :: string
  at_UpstreamModel :: string
  at_Status :: string
  at_ErrorType :: string
  at_DispatchState :: string
  at_DispatchVersion :: int
  at_DispatchKey :: string
  at_DispatchIntentJSON :: "ProviderDispatchIntent option"
  at_DispatchSubmittedAt :: "gotime option"
  at_ProviderTaskID :: string
  at_ProviderRequestID :: string
  at_ProviderTaskStatus :: string
  at_ProviderAcceptedAt :: "gotime option"
  at_LastReconciledAt :: "gotime option"
  at_ReconcileAfter :: "gotime option"
  at_CreatedAt :: gotime
  at_UpdatedAt :: gotime
  at_CompletedAt :: "gotime option"

record BillingLedgerEntry =
  bl_ID :: string
  bl_OperationID :: string
  bl_AttemptID :: string
  bl_UsageVersion :: int
  bl_UsageRecordID :: string
  bl_RequestFingerprint :: string
  bl_Purpose :: string
  bl_AmountMicros :: int
  bl_Currency :: string
  bl_PricingEvaluationID :: string
  bl_PricingRuleVersionID :: string
  bl_Status :: string
  bl_CreatedAt :: gotime

record UsageRecord =
  ur_ID :: string
  ur_OperationID :: string
  ur_AttemptID :: string
  ur_UsageVersion :: int
  ur_UsageSource :: string
  ur_RequestFingerprint :: string
  ur_APIKeyID :: string
  ur_ApplicationID :: string
  ur_ApplicationName :: string
  ur_GatewayPrincipalID :: string
  ur_GatewayPrincipalName :: string
  ur_ExternalAuthIntegrationID :: string
  ur_ExternalSubjectReference :: string
  ur_APIFingerprint :: string
  ur_Model :: string
  ur_UpstreamModel :: string
  ur_Protocol :: string
  ur_ProviderID :: string
  ur_ProviderAccountID :: string
  ur_Status :: string
  ur_ErrorType :: string
  ur_LatencyMS :: int
  ur_TTFTMS :: "int option"
  ur_InputTokens :: int
  ur_OutputTokens :: int
  ur_TotalInputTokens :: "int option"
  ur_UncachedInputTokens :: "int option"
  ur_CacheReadTokens :: "int option"
  ur_CacheWrite5mTokens :: "int option"
  ur_CacheWrite1hTokens :: "int option"
  ur_CacheFieldsPresent :: bool
  ur_UsageDimensions :: UsageDimensions
  ur_UsageNormalizationStatus :: string
  ur_UpstreamRequestID :: string
  ur_ProcurementCostMicros :: "int option"
  ur_ProcurementCostCurrency :: string
  ur_ProcurementCostSource :: string
  ur_ProcurementCostConfidence :: string
  ur_ProcurementPriceID :: string
  ur_ProviderBillingLineID :: string
  ur_UsageCostMicros :: "int option"
  ur_UsageCostCurrency :: string
  ur_UsagePricingEvaluationID :: string
  ur_PricingStatus :: string
  ur_CreatedAt :: gotime

record AuditLog =
  au_ID :: string
  au_Actor :: string
  au_Action :: string
  au_ResourceType :: string
  au_ResourceID :: string
  au_Summary :: string
  au_ApplicationID :: string
  au_ApplicationName :: string
  au_GatewayPrincipalID :: string
  au_GatewayPrincipalName :: string
  au_ExternalAuthIntegrationID :: string
  au_ExternalSubjectReference :: string
  au_CreatedAt :: gotime

record PricingEvaluation =
  pe_ID :: string
  pe_Purpose :: string
  pe_Phase :: string
  pe_OperationID :: string
  pe_AttemptID :: string
  pe_UsageRecordID :: string
  pe_UsageVersion :: int
  pe_PricingRuleID :: string
  pe_PricingRuleVersionID :: string
  pe_EngineVersion :: int
  pe_ExpressionHash :: string
  pe_FactsHash :: string
  pe_Facts :: Facts
  pe_AmountMicros :: "int option"
  pe_Currency :: string
  pe_MatchedTier :: string
  pe_Lines :: "PricingLine list"
  pe_NormalizationStatus :: string
  pe_Status :: string
  pe_FailureCode :: string
  pe_ReplayOfID :: string
  pe_CreatedAt :: gotime

record Artifact =
  ar_ID :: string
  ar_OperationID :: string
  ar_JobID :: string
  ar_AttemptID :: string
  ar_SourceArtifactID :: string
  ar_ApplicationID :: string
  ar_IntegrationID :: string
  ar_PrincipalType :: string
  ar_PrincipalID :: string
  ar_ExternalSubjectReference :: string
  ar_Role :: string
  ar_Policy :: string
  ar_Status :: string
  ar_StatusVersion :: int
  ar_MediaType :: string
  ar_SizeBytes :: int
  ar_SHA256 :: string
  ar_StoreDriver :: string
  ar_StoreKey :: string
  ar_ExternalReference :: string
  ar_ErrorType :: string
  ar_RetainUntil :: gotime
  ar_CreatedAt :: gotime
  ar_UpdatedAt :: gotime
  ar_ReadyAt :: "gotime option"
  ar_DeliveredAt :: "gotime option"
  ar_DeletedAt :: "gotime option"

definition ArtifactStatusPending :: string where "ArtifactStatusPending = ''pending''"
definition ArtifactStatusUploading :: string where "ArtifactStatusUploading = ''uploading''"
definition ArtifactStatusReady :: string where "ArtifactStatusReady = ''ready''"
definition ArtifactStatusFailed :: string where "ArtifactStatusFailed = ''failed''"
definition ArtifactStatusDelivering :: string where "ArtifactStatusDelivering = ''delivering''"
definition ArtifactStatusDelivered :: string where "ArtifactStatusDelivered = ''delivered''"
definition ArtifactStatusDeliveryFailed :: string where "ArtifactStatusDeliveryFailed = ''delivery_failed''"
definition ArtifactStatusDeleteRequested :: string where "ArtifactStatusDeleteRequested = ''delete_requested''"
definition ArtifactStatusDeleting :: string where "ArtifactStatusDeleting = ''deleting''"
definition ArtifactStatusDeleted :: string where "ArtifactStatusDeleted = ''deleted''"
definition ArtifactStatusDeleteFailed :: string where "ArtifactStatusDeleteFailed = ''delete_failed''"
definition ArtifactStatusExpired :: string where "ArtifactStatusExpired = ''expired''"

lemmas artifact_status_defs = ArtifactStatusPending_def ArtifactStatusUploading_def ArtifactStatusReady_def ArtifactStatusFailed_def ArtifactStatusDelivering_def ArtifactStatusDelivered_def ArtifactStatusDeliveryFailed_def
   ArtifactStatusDeleteRequested_def ArtifactStatusDeleting_def ArtifactStatusDeleted_def ArtifactStatusDeleteFailed_def ArtifactStatusExpired_def

record ArtifactEvent =
  aev_ID :: string
  aev_ArtifactID :: string
  aev_Version :: int
  aev_EventType :: string
  aev_FromStatus :: string
  aev_ToStatus :: string
  aev_Reason :: string
  aev_CreatedAt :: gotime

datatype outbox_payload =
    JobPayload (pay_EventID: string) (pay_JobID: string) (pay_OperationID: string) (pay_Version: int)
      (pay_EventType: string) (pay_Status: string)
  | ArtifactPayload string string int
  | OtherPayload string

record TransactionalOutboxEvent =
  ob_ID :: string
  ob_AggregateType :: string
  ob_AggregateID :: string
  ob_EventType :: string
  ob_EventVersion :: int
  ob_Status :: string
  ob_AvailableAt :: gotime
  ob_AttemptCount :: int
  ob_MaxAttempts :: int
  ob_LeaseUntil :: "gotime option"
  ob_LeaseToken :: string
  ob_LastError :: string
  ob_PublishedAt :: "gotime option"
  ob_CreatedAt :: gotime
  ob_UpdatedAt :: gotime
  ob_PayloadJSON :: outbox_payload

record UsageSettlement =
  st_Record :: UsageRecord
  st_Evaluations :: "PricingEvaluation list"
  st_Ledgers :: "BillingLedgerEntry list"
  st_OutboxEvents :: "TransactionalOutboxEvent list"

section \<open>Normalisation\<close>

definition nonNegativeInt64 :: "int \<Rightarrow> int" where
  "nonNegativeInt64 v = (if v < 0 then 0 else v)"

definition GatewayArtifactPolicyProxyOnly :: string where "GatewayArtifactPolicyProxyOnly = ''proxy_only''"
definition GatewayArtifactPolicyTemporary :: string where "GatewayArtifactPolicyTemporary = ''temporary''"
definition GatewayArtifactPolicyManaged :: string where "GatewayArtifactPolicyManaged = ''managed''"
definition GatewayArtifactPolicyCustomerSink :: string where "GatewayArtifactPolicyCustomerSink = ''customer_sink''"
definition GatewayArtifactPolicyMetadataOnly :: string where "GatewayArtifactPolicyMetadataOnly = ''metadata_only''"

definition validArtifactPolicy :: "string \<Rightarrow> bool" where
  "validArtifactPolicy policy = oneOf policy [GatewayArtifactPolicyProxyOnly, GatewayArtifactPolicyTemporary,
     GatewayArtifactPolicyManaged, GatewayArtifactPolicyCustomerSink, GatewayArtifactPolicyMetadataOnly]"

definition artifactPolicySnapshot :: "string \<Rightarrow> string" where
  "artifactPolicySnapshot policy0 =
     (let policy = TrimSpace policy0 in
      if \<not> validArtifactPolicy policy then GatewayArtifactPolicyProxyOnly else policy)"

definition artifactSinkSnapshot :: "string \<Rightarrow> string \<Rightarrow> string" where
  "artifactSinkSnapshot policy sinkID =
     (if artifactPolicySnapshot policy \<noteq> GatewayArtifactPolicyCustomerSink then [] else TrimSpace sinkID)"

definition sink_char :: "char \<Rightarrow> bool" where
  "sink_char c \<longleftrightarrow> (CHR ''a'' \<le> c \<and> c \<le> CHR ''z'') \<or> (CHR ''A'' \<le> c \<and> c \<le> CHR ''Z'') \<or>
     (CHR ''0'' \<le> c \<and> c \<le> CHR ''9'') \<or> c \<in> set ''-_.:''"

definition validArtifactSinkID :: "string \<Rightarrow> bool" where
  "validArtifactSinkID id0 =
     (let i = TrimSpace id0 in \<not> (i = [] \<or> length i > 160) \<and> list_all sink_char i)"

definition validArtifactSinkBinding :: "string \<Rightarrow> string \<Rightarrow> bool" where
  "validArtifactSinkBinding policy sinkID0 =
     (let sinkID = TrimSpace sinkID0 in
      if artifactPolicySnapshot policy \<noteq> GatewayArtifactPolicyCustomerSink then sinkID = []
      else validArtifactSinkID sinkID)"

definition normalizeAIOperation :: "AIOperation \<Rightarrow> AIOperation" where
  "normalizeAIOperation operation =
     (let operation = operation\<lparr>op_ArtifactPolicy := artifactPolicySnapshot (op_ArtifactPolicy operation)\<rparr> in
      operation\<lparr>op_ArtifactSinkID := artifactSinkSnapshot (op_ArtifactPolicy operation) (op_ArtifactSinkID operation)\<rparr>)"

definition normalizeAIAttempt :: "AIAttempt \<Rightarrow> AIAttempt" where
  "normalizeAIAttempt attempt0 =
     (let attempt = (if at_DispatchState attempt0 = [] then attempt0\<lparr>at_DispatchState := AIAttemptDispatchPending\<rparr> else attempt0)
      in if at_DispatchKey attempt = [] then attempt\<lparr>at_DispatchKey := at_ID attempt\<rparr> else attempt)"

definition sameAIOperationIdempotencyScope :: "AIOperation \<Rightarrow> AIOperation \<Rightarrow> bool" where
  "sameAIOperationIdempotencyScope left right \<longleftrightarrow>
     op_IdempotencyKey left \<noteq> [] \<and> op_ApplicationID left = op_ApplicationID right \<and>
     op_CredentialSource left = op_CredentialSource right \<and> op_CredentialID left = op_CredentialID right \<and>
     op_IntegrationID left = op_IntegrationID right \<and> op_PrincipalType left = op_PrincipalType right \<and>
     op_PrincipalID left = op_PrincipalID right \<and>
     op_ExternalSubjectReference left = op_ExternalSubjectReference right \<and>
     op_Operation left = op_Operation right \<and> op_IdempotencyKey left = op_IdempotencyKey right"

section \<open>Facts\<close>

lemma normalizeAIOperation_simps [simp]:
  "op_ID (normalizeAIOperation x) = op_ID x" "op_IdempotencyKey (normalizeAIOperation x) = op_IdempotencyKey x"
  "op_ApplicationID (normalizeAIOperation x) = op_ApplicationID x" "op_CredentialID (normalizeAIOperation x) = op_CredentialID x"
  "op_RequestFingerprint (normalizeAIOperation x) = op_RequestFingerprint x" "op_Status (normalizeAIOperation x) = op_Status x"
  by (simp_all add: normalizeAIOperation_def Let_def)

lemma sameScope_normalize [simp]:
  "sameAIOperationIdempotencyScope x (normalizeAIOperation y) = sameAIOperationIdempotencyScope x y"
  "sameAIOperationIdempotencyScope (normalizeAIOperation x) y = sameAIOperationIdempotencyScope x y"
  by (simp_all add: sameAIOperationIdempotencyScope_def normalizeAIOperation_def Let_def)

lemma sameScope_refl: "op_IdempotencyKey x \<noteq> [] \<Longrightarrow> sameAIOperationIdempotencyScope x x"
  by (simp add: sameAIOperationIdempotencyScope_def)

lemma sameScope_sym: "sameAIOperationIdempotencyScope x y \<Longrightarrow> sameAIOperationIdempotencyScope y x"
  by (auto simp: sameAIOperationIdempotencyScope_def)

lemma artifactPolicySnapshot_valid: "validArtifactPolicy (artifactPolicySnapshot p)"
  by (simp add: artifactPolicySnapshot_def validArtifactPolicy_def Let_def)

lemma artifactPolicySnapshot_idem [simp]: "artifactPolicySnapshot (artifactPolicySnapshot p) = artifactPolicySnapshot p"
proof -
  have "TrimSpace GatewayArtifactPolicyProxyOnly = GatewayArtifactPolicyProxyOnly"
    unfolding GatewayArtifactPolicyProxyOnly_def by code_simp
  then show ?thesis using artifactPolicySnapshot_valid [of p] by (simp add: artifactPolicySnapshot_def Let_def)
qed

lemma normalizeAIOperation_idem: "normalizeAIOperation (normalizeAIOperation x) = normalizeAIOperation x"
  by (simp add: normalizeAIOperation_def artifactSinkSnapshot_def Let_def)

lemma normalizeAIAttempt_simps [simp]:
  "at_ID (normalizeAIAttempt a) = at_ID a" "at_OperationID (normalizeAIAttempt a) = at_OperationID a"
  "at_AttemptNumber (normalizeAIAttempt a) = at_AttemptNumber a" "at_Status (normalizeAIAttempt a) = at_Status a"
  "at_ProviderTaskID (normalizeAIAttempt a) = at_ProviderTaskID a"
  "at_ProviderAccountID (normalizeAIAttempt a) = at_ProviderAccountID a"
  "at_DispatchVersion (normalizeAIAttempt a) = at_DispatchVersion a"
  by (simp_all add: normalizeAIAttempt_def Let_def)

lemma normalizeAIAttempt_nonempty:
  "at_ID a \<noteq> [] \<Longrightarrow> at_DispatchKey (normalizeAIAttempt a) \<noteq> [] \<and> at_DispatchState (normalizeAIAttempt a) \<noteq> []"
  by (simp add: normalizeAIAttempt_def AIAttemptDispatchPending_def Let_def)

end
