(* ===== verification/Go_Calendar.thy ===== *)
theory Go_Calendar
  imports Prelude
begin

text \<open>
  The part of Go's \<^verbatim>\<open>time\<close> package that the billing periods use, in UTC: the civil date of an
  instant, \<^verbatim>\<open>time.Date\<close>, \<^verbatim>\<open>Time.AddDate\<close>, and the start of the month an instant lies in
  (\<^verbatim>\<open>monthStart\<close> of \<^verbatim>\<open>backend/internal/controlplane/service.go\<close>). An instant is the number of
  nanoseconds since 1 January of year 1 in the proleptic Gregorian calendar, Go's zero time.
\<close>

section \<open>Definitions\<close>

abbreviation (input) day_ns :: int where "day_ns \<equiv> 86400000000000"

definition leap_year :: "int \<Rightarrow> bool" where
  "leap_year y \<longleftrightarrow> y mod 4 = 0 \<and> (y mod 100 \<noteq> 0 \<or> y mod 400 = 0)"

definition days_before_year :: "int \<Rightarrow> int" where
  "days_before_year y = 365 * (y - 1) + (y - 1) div 4 - (y - 1) div 100 + (y - 1) div 400"

definition month_lengths :: "bool \<Rightarrow> int list" where
  "month_lengths leap = [31, if leap then 29 else 28, 31, 30, 31, 30, 31, 31, 30, 31, 30, 31]"

text \<open>The year and the day of the year, from 0, by cycles of 400, 100, 4 and 1 years.\<close>

definition year_yday :: "int \<Rightarrow> int \<times> int" where
  "year_yday d =
     (let n400 = d div 146097; r = d mod 146097;
          n100 = min 3 (r div 36524); r = r - 36524 * n100;
          n4 = r div 1461; r = r mod 1461;
          n1 = min 3 (r div 365)
      in (400 * n400 + 100 * n100 + 4 * n4 + n1 + 1, r - 365 * n1))"

fun month_day :: "int \<Rightarrow> int list \<Rightarrow> int \<Rightarrow> int \<times> int" where
  "month_day m [] d = (m, d)"
| "month_day m (l # ls) d = (if d < l then (m, d) else month_day (m + 1) ls (d - l))"

definition time_Year :: "gotime \<Rightarrow> int" where
  "time_Year t = fst (year_yday (t div day_ns))"

definition time_Month :: "gotime \<Rightarrow> int" where
  "time_Month t = fst (month_day 1 (month_lengths (leap_year (time_Year t))) (snd (year_yday (t div day_ns))))"

definition time_Day :: "gotime \<Rightarrow> int" where
  "time_Day t = snd (month_day 1 (month_lengths (leap_year (time_Year t))) (snd (year_yday (t div day_ns)))) + 1"

definition time_Date :: "int \<Rightarrow> int \<Rightarrow> int \<Rightarrow> int \<Rightarrow> gotime" where
  "time_Date year month day clock =
     (let y = year + (month - 1) div 12; m = (month - 1) mod 12 in
      (days_before_year y + sum_list (take (nat m) (month_lengths (leap_year y))) + (day - 1)) * day_ns + clock)"

definition AddDate :: "int \<Rightarrow> int \<Rightarrow> int \<Rightarrow> gotime \<Rightarrow> gotime" where
  "AddDate years months days t =
     time_Date (time_Year t + years) (time_Month t + months) (time_Day t + days) (t mod day_ns)"

definition monthStart :: "gotime \<Rightarrow> gotime" where
  "monthStart now = time_Date (time_Year now) (time_Month now) 1 0"

section \<open>The date of an instant\<close>

lemma mod_zero_last:
  fixes y k q r :: int
  assumes "y = k * q + r + 1" "0 \<le> r" "r < k"
  shows "y mod k = 0 \<longleftrightarrow> r = k - 1"
proof (cases "r = k - 1")
  case True
  then have "y = k * (q + 1)" using assms(1) by (simp add: algebra_simps)
  then show ?thesis using True by simp
next
  case False
  then have "y mod k = r + 1" using assms by (intro int_mod_pos_eq [of _ _ q]) auto
  then show ?thesis using False assms(2) by simp
qed

lemma div_mod_digit: "0 \<le> (c :: int) \<Longrightarrow> c < k \<Longrightarrow> (n * k + c) div k = n \<and> (n * k + c) mod k = c"
  by simp

lemma year_yday_correct:
  assumes "year_yday d = (y, n)"
  shows "days_before_year y + n = d \<and> 0 \<le> n \<and> n < (if leap_year y then 366 else 365)"
proof -
  define a where "a = d div 146097"
  define r where "r = d mod 146097"
  define b where "b = min 3 (r div 36524)"
  define r1 where "r1 = r - 36524 * b"
  define c where "c = r1 div 1461"
  define r2 where "r2 = r1 mod 1461"
  define e where "e = min 3 (r2 div 365)"
  have y: "y = 400 * a + 100 * b + 4 * c + e + 1" and n: "n = r2 - 365 * e"
    using assms by (simp_all add: year_yday_def Let_def a_def r_def b_def r1_def c_def r2_def e_def)
  have d: "d = 146097 * a + 36524 * b + 1461 * c + r2" by (simp add: a_def r_def r1_def c_def r2_def)
  have r: "0 \<le> r" "r < 146097" by (simp_all add: r_def)
  have b: "0 \<le> b" "b \<le> 3" "0 \<le> r1" "r1 < (if b = 3 then 36525 else 36524)"
    using r unfolding b_def r1_def by (auto simp: min_def)
  have c: "0 \<le> c" "c \<le> 24" "0 \<le> r2" "r2 < (if c = 24 \<and> b \<noteq> 3 then 1460 else 1461)"
  proof -
    have r1: "r1 = 1461 * c + r2" "0 \<le> r2" "r2 < 1461" by (simp_all add: c_def r2_def)
    have "c < 25" using r1 b(4) by (auto split: if_splits)
    then show "0 \<le> c" "c \<le> 24" "0 \<le> r2" "r2 < (if c = 24 \<and> b \<noteq> 3 then 1460 else 1461)"
      using r1 b(3,4) by (auto split: if_splits)
  qed
  have e: "0 \<le> e" "e \<le> 3" "0 \<le> n" "n < (if e = 3 \<and> (c \<noteq> 24 \<or> b = 3) then 366 else 365)"
    using c unfolding n e_def by (auto simp: min_def split: if_splits)
  have q: "(y - 1) div 4 = 100 * a + 25 * b + c" "(y - 1) div 100 = 4 * a + b" "(y - 1) div 400 = a"
    using b(1,2) c(1,2) e(1,2)
      int_div_pos_eq [of "y - 1" 4 "100 * a + 25 * b + c" e] int_div_pos_eq [of "y - 1" 100 "4 * a + b" "4 * c + e"]
      int_div_pos_eq [of "y - 1" 400 a "100 * b + 4 * c + e"] by (simp_all add: y)
  have "leap_year y \<longleftrightarrow> e = 3 \<and> (c \<noteq> 24 \<or> b = 3)"
  proof -
    have 4: "y mod 4 = 0 \<longleftrightarrow> e = 3"
      using mod_zero_last [of y 4 "100 * a + 25 * b + c" e] e(1,2) by (simp add: y)
    have 100: "y mod 100 = 0 \<longleftrightarrow> 4 * c + e = 99"
      using mod_zero_last [of y 100 "4 * a + b" "4 * c + e"] c(1,2) e(1,2) by (simp add: y)
    have 400: "y mod 400 = 0 \<longleftrightarrow> 100 * b + 4 * c + e = 399"
      using mod_zero_last [of y 400 a "100 * b + 4 * c + e"] b(1,2) c(1,2) e(1,2) by (simp add: y)
    have "4 * c + e = 99 \<longleftrightarrow> c = 24 \<and> e = 3" "100 * b + 4 * c + e = 399 \<longleftrightarrow> b = 3 \<and> c = 24 \<and> e = 3"
      using b(1,2) c(1,2) e(1,2) by (intro iffI conjI; linarith)+
    with 4 100 400 show ?thesis unfolding leap_year_def by auto
  qed
  moreover have "days_before_year y = 146097 * a + 36524 * b + 1461 * c + 365 * e"
    by (simp only: days_before_year_def q) (simp add: y)
  ultimately show ?thesis using e(3,4) d n by simp
qed

lemma month_lengths_simps [simp]:
  "length (month_lengths leap) = 12" "sum_list (month_lengths leap) = (if leap then 366 else 365)"
  by (simp_all add: month_lengths_def)

lemma month_day_correct:
  "0 \<le> d \<Longrightarrow> d < sum_list ls \<Longrightarrow> month_day m ls d = (m', d') \<Longrightarrow>
   \<exists>k < length ls. m' = m + int k \<and> d = sum_list (take k ls) + d' \<and> 0 \<le> d' \<and> d' < ls ! k"
proof (induction m ls d rule: month_day.induct)
  case (2 m l ls d)
  show ?case
  proof (cases "d < l")
    case True
    then show ?thesis using 2 by (intro exI [of _ 0]) auto
  next
    case False
    then obtain k where "k < length ls" "m' = m + 1 + int k" "d - l = sum_list (take k ls) + d'" "0 \<le> d'" "d' < ls ! k"
      using 2 by auto
    then show ?thesis by (intro exI [of _ "Suc k"]) auto
  qed
qed simp

text \<open>Every instant has a date, and the date gives the instant back.\<close>

lemma date_parts:
  "\<exists>k. k < 12 \<and> time_Month t = int k + 1 \<and> 1 \<le> time_Day t \<and>
     time_Day t \<le> month_lengths (leap_year (time_Year t)) ! k \<and>
     t div day_ns = days_before_year (time_Year t) + sum_list (take k (month_lengths (leap_year (time_Year t)))) + (time_Day t - 1)"
proof -
  obtain y n where yn: "year_yday (t div day_ns) = (y, n)" by force
  note y = year_yday_correct [OF yn]
  obtain m d where md: "month_day 1 (month_lengths (leap_year y)) n = (m, d)" by force
  have parts: "time_Year t = y" "time_Month t = m" "time_Day t = d + 1"
    by (simp_all add: time_Year_def time_Month_def time_Day_def yn md)
  obtain k where "k < 12" "m = 1 + int k" "n = sum_list (take k (month_lengths (leap_year y))) + d" "0 \<le> d"
    "d < month_lengths (leap_year y) ! k"
    using month_day_correct [OF _ _ md] y by (auto split: if_splits)
  then show ?thesis using y by (intro exI [of _ k]) (simp add: parts)
qed

lemma time_Date_month:
  "k < 12 \<Longrightarrow> time_Date y (int k + 1) d c =
     (days_before_year y + sum_list (take k (month_lengths (leap_year y))) + (d - 1)) * day_ns + c"
  by (simp add: time_Date_def Let_def)

lemma time_Date_date: "time_Date (time_Year t) (time_Month t) (time_Day t) (t mod day_ns) = t"
proof -
  obtain k where "k < 12" "time_Month t = int k + 1"
    "t div day_ns = days_before_year (time_Year t) + sum_list (take k (month_lengths (leap_year (time_Year t)))) + (time_Day t - 1)"
    using date_parts by blast
  then show ?thesis by (simp add: time_Date_month flip: \<open>t div day_ns = _\<close>)
qed

section \<open>The date is unique, and months partition time\<close>

lemma days_before_year_Suc: "days_before_year (y + 1) = days_before_year y + (if leap_year y then 366 else 365)"
proof -
  have q: "(y - 1) div k = y div k - (if y mod k = 0 then 1 else 0)" if "0 < k" for k
  proof (cases "y mod k = 0")
    case True
    then obtain q where "y = k * q" by (auto simp: mod_eq_0_iff_dvd)
    moreover have "(k * q - 1) div k = q - 1" using that by (intro int_div_pos_eq [of _ _ _ "k - 1"]) (auto simp: algebra_simps)
    ultimately show ?thesis using that by simp
  next
    case False
    have "y = k * (y div k) + y mod k" by simp
    moreover have "0 \<le> y mod k - 1" "y mod k - 1 < k" using that False pos_mod_sign [of k y] pos_mod_bound [of k y] by linarith+
    ultimately have "(y - 1) div k = y div k" by (intro int_div_pos_eq [of _ _ _ "y mod k - 1"]) auto
    then show ?thesis using False by simp
  qed
  have d: "y mod 100 = 0 \<Longrightarrow> y mod 4 = 0" "y mod 400 = 0 \<Longrightarrow> y mod 100 = 0"
    using dvd_trans [of 4 100 y] dvd_trans [of 100 400 y] by (simp_all add: dvd_eq_mod_eq_0)
  have next_year: "days_before_year (y + 1) = 365 * y + y div 4 - y div 100 + y div 400" by (simp add: days_before_year_def)
  have this_year: "days_before_year y = 365 * (y - 1) + (y div 4 - (if y mod 4 = 0 then 1 else 0)) -
      (y div 100 - (if y mod 100 = 0 then 1 else 0)) + (y div 400 - (if y mod 400 = 0 then 1 else 0))"
    by (simp only: days_before_year_def q zero_less_numeral)
  have "(p100 \<Longrightarrow> p4) \<Longrightarrow> (p400 \<Longrightarrow> p100) \<Longrightarrow>
    365 * y + a - b + c = 365 * (y - 1) + (a - (if p4 then 1 else 0)) - (b - (if p100 then 1 else 0)) +
      (c - (if p400 then 1 else 0)) + (if p4 \<and> (\<not> p100 \<or> p400) then 366 else 365)" for a b c p4 p100 p400
    by (cases p4; cases p100; cases p400) auto
  from this [OF d] show ?thesis unfolding next_year this_year leap_year_def .
qed

lemma days_before_year_mono: "y < y' \<Longrightarrow> days_before_year y + (if leap_year y then 366 else 365) \<le> days_before_year y'"
proof (induction "nat (y' - y)" arbitrary: y' rule: less_induct)
  case less
  show ?case
  proof (cases "y' = y + 1")
    case True
    then show ?thesis using days_before_year_Suc [of y] by simp
  next
    case False
    then have "days_before_year y + (if leap_year y then 366 else 365) \<le> days_before_year (y' - 1)"
      using less.prems by (intro less.hyps) auto
    also have "\<dots> \<le> days_before_year y'" using days_before_year_Suc [of "y' - 1"] by simp
    finally show ?thesis .
  qed
qed

lemma year_yday_unique:
  assumes "0 \<le> n" "n < (if leap_year y then 366 else 365)"
  shows "year_yday (days_before_year y + n) = (y, n)"
proof -
  obtain y' n' where r: "year_yday (days_before_year y + n) = (y', n')" by force
  note c = year_yday_correct [OF r]
  have "y' = y"
    using c assms days_before_year_mono [of y y'] days_before_year_mono [of y' y] by (cases y y' rule: linorder_cases) auto
  then show ?thesis using r c by auto
qed

lemma month_day_unique:
  "\<forall>l \<in> set ls. 0 < l \<Longrightarrow> k < length ls \<Longrightarrow> 0 \<le> d \<Longrightarrow> d < ls ! k \<Longrightarrow>
   month_day m ls (sum_list (take k ls) + d) = (m + int k, d)"
proof (induction ls arbitrary: m k)
  case (Cons l ls)
  show ?case
  proof (cases k)
    case (Suc j)
    have "0 \<le> sum_list (take j ls)" using Cons.prems(1) by (intro sum_list_nonneg) (auto dest!: in_set_takeD intro: less_imp_le)
    then show ?thesis using Cons Suc by (auto simp: algebra_simps)
  qed (use Cons.prems in simp)
qed simp

lemma month_lengths_pos: "\<forall>l \<in> set (month_lengths leap). 0 < l"
  by (simp add: month_lengths_def)

lemma month_prefix_le:
  assumes "k < 12" "0 \<le> d" "d < month_lengths leap ! k"
  shows "sum_list (take k (month_lengths leap)) + d < (if leap then 366 else 365)"
proof -
  let ?ls = "month_lengths leap"
  have "sum_list ?ls = sum_list (take k ?ls) + sum_list (drop k ?ls)" by (metis append_take_drop_id sum_list_append)
  also have "drop k ?ls = ?ls ! k # drop (Suc k) ?ls" using assms(1) by (simp add: Cons_nth_drop_Suc)
  finally have "sum_list (take k ?ls) + ?ls ! k + sum_list (drop (Suc k) ?ls) = (if leap then 366 else 365)" by simp
  moreover have "0 \<le> sum_list (drop (Suc k) ?ls)"
    using month_lengths_pos [of leap] by (intro sum_list_nonneg) (auto dest!: in_set_dropD intro: less_imp_le)
  ultimately show ?thesis using assms by linarith
qed

lemma month_prefix_nonneg: "0 \<le> sum_list (take k (month_lengths leap))"
  using month_lengths_pos [of leap] by (intro sum_list_nonneg) (auto dest!: in_set_takeD intro: less_imp_le)

lemma date_unique:
  assumes "k < 12" "1 \<le> d" "d \<le> month_lengths (leap_year y) ! k" "0 \<le> c" "c < day_ns"
  shows "time_Year (time_Date y (int k + 1) d c) = y" "time_Month (time_Date y (int k + 1) d c) = int k + 1"
    "time_Day (time_Date y (int k + 1) d c) = d" "time_Date y (int k + 1) d c mod day_ns = c"
proof -
  let ?n = "sum_list (take k (month_lengths (leap_year y))) + (d - 1)"
  have t: "time_Date y (int k + 1) d c = (days_before_year y + ?n) * day_ns + c"
    using time_Date_month [OF assms(1)] by simp
  have days: "time_Date y (int k + 1) d c div day_ns = days_before_year y + ?n"
    and clock: "time_Date y (int k + 1) d c mod day_ns = c"
    unfolding t using div_mod_digit [OF assms(4,5)] by blast+
  show "time_Date y (int k + 1) d c mod day_ns = c" by (rule clock)
  have yn: "year_yday (days_before_year y + ?n) = (y, ?n)"
    using month_prefix_le [OF assms(1), of "d - 1"] month_prefix_nonneg [of k "leap_year y"] assms(2,3)
    by (intro year_yday_unique) auto
  have md: "month_day 1 (month_lengths (leap_year y)) ?n = (1 + int k, d - 1)"
    using assms(1-3) month_lengths_pos by (intro month_day_unique) auto
  show "time_Year (time_Date y (int k + 1) d c) = y" by (simp add: time_Year_def days yn)
  then show "time_Month (time_Date y (int k + 1) d c) = int k + 1" "time_Day (time_Date y (int k + 1) d c) = d"
    by (simp_all add: time_Month_def time_Day_def days yn md)
qed

lemma month_first_positive: "k < 12 \<Longrightarrow> 1 \<le> month_lengths leap ! k"
  using month_lengths_pos [of leap] by (auto simp: all_set_conv_all_nth)

lemma month_first:
  assumes "k < 12"
  shows "time_Year (time_Date y (int k + 1) 1 0) = y" "time_Month (time_Date y (int k + 1) 1 0) = int k + 1"
    "time_Day (time_Date y (int k + 1) 1 0) = 1" "time_Date y (int k + 1) 1 0 mod day_ns = 0"
  by (rule date_unique [OF assms order_refl month_first_positive [OF assms]]; simp)+

lemma next_month:
  assumes "k < 12"
  shows "AddDate 0 1 0 (time_Date y (int k + 1) 1 0) = time_Date y (int k + 1) 1 0 + month_lengths (leap_year y) ! k * day_ns"
proof -
  note u = month_first [OF assms]
  have a: "AddDate 0 1 0 (time_Date y (int k + 1) 1 0) = time_Date y (int k + 2) 1 0"
    unfolding AddDate_def u by (simp add: add.assoc)
  show ?thesis
  proof (cases "k = 11")
    case True
    have "days_before_year (y + 1) = days_before_year y + sum_list (take 11 (month_lengths (leap_year y))) + 31"
      using days_before_year_Suc [of y] by (simp add: month_lengths_def)
    then show ?thesis unfolding a by (simp add: True time_Date_def month_lengths_def)
  next
    case False
    then have "Suc k < 12" "int k + 2 = int (Suc k) + 1" using assms by auto
    then have "time_Date y (int k + 2) 1 0 = (days_before_year y + sum_list (take (Suc k) (month_lengths (leap_year y)))) * day_ns"
      using time_Date_month [of "Suc k" y 1 0] by (simp add: add.commute)
    then show ?thesis unfolding a using time_Date_month [OF assms, of y 1 0] assms
      by (simp add: take_Suc_conv_app_nth algebra_simps)
  qed
qed

lemma month_contains: "monthStart t \<le> t \<and> t < AddDate 0 1 0 (monthStart t)"
proof -
  obtain k where k: "k < 12" "time_Month t = int k + 1" "1 \<le> time_Day t"
    "time_Day t \<le> month_lengths (leap_year (time_Year t)) ! k" using date_parts [of t] by blast
  have t: "t = monthStart t + (time_Day t - 1) * day_ns + t mod day_ns"
  proof -
    have "monthStart t = time_Date (time_Year t) (int k + 1) 1 0" by (simp add: monthStart_def k(2))
    moreover have "t = time_Date (time_Year t) (int k + 1) (time_Day t) (t mod day_ns)" using time_Date_date [of t] k(2) by simp
    moreover have "time_Date (time_Year t) (int k + 1) d c = time_Date (time_Year t) (int k + 1) 1 0 + (d - 1) * day_ns + c" for d c
      unfolding time_Date_month [OF k(1)] by (simp add: distrib_right)
    ultimately show ?thesis by metis
  qed
  define c where "c = t mod day_ns"
  have c: "0 \<le> c" "c < day_ns" by (simp_all add: c_def)
  note t [folded c_def]
  moreover have "AddDate 0 1 0 (monthStart t) = monthStart t + month_lengths (leap_year (time_Year t)) ! k * day_ns"
    using next_month [OF k(1)] by (simp add: monthStart_def k(2))
  ultimately show ?thesis using c k(3,4) by simp
qed

text \<open>Two instants with the same month start lie in the same month, and the start of a month is its own start.\<close>

lemma monthStart_idem: "monthStart (monthStart t) = monthStart t"
proof -
  obtain k where k: "k < 12" "time_Month t = int k + 1" using date_parts [of t] by blast
  then show ?thesis unfolding monthStart_def by (simp only: month_first [OF k(1)])
qed

lemma monthStart_unique:
  assumes "monthStart t \<le> u" "u < AddDate 0 1 0 (monthStart t)"
  shows "monthStart u = monthStart t"
proof -
  obtain k where k: "k < 12" "time_Month t = int k + 1" using date_parts [of t] by blast
  let ?y = "time_Year t" and ?o = "u - monthStart t"
  define d where "d = ?o div day_ns + 1"
  have m: "monthStart t = time_Date ?y (int k + 1) 1 0" by (simp add: monthStart_def k(2))
  have o: "0 \<le> ?o" "?o < month_lengths (leap_year ?y) ! k * day_ns" using assms next_month [OF k(1), of ?y] by (simp_all add: m)
  have "?o div day_ns < month_lengths (leap_year ?y) ! k"
    using o(2) by (simp add: div_less_iff_less_mult)
  then have d: "1 \<le> d" "d \<le> month_lengths (leap_year ?y) ! k" using o(1) by (simp_all add: d_def pos_imp_zdiv_nonneg_iff)
  have c: "0 \<le> ?o mod day_ns" "?o mod day_ns < day_ns" by simp_all
  have "time_Date ?y (int k + 1) d (?o mod day_ns) = monthStart t + (d - 1) * day_ns + ?o mod day_ns"
    unfolding m time_Date_month [OF k(1)] by (simp add: distrib_right)
  also have "\<dots> = u" by (simp add: d_def)
  finally have "u = time_Date ?y (int k + 1) d (?o mod day_ns)" by simp
  then have "time_Year u = ?y" "time_Month u = int k + 1" using date_unique(1,2) [OF k(1) d c] by metis+
  then show ?thesis by (simp add: monthStart_def k(2))
qed

section \<open>Properties\<close>

text \<open>
  C34: dates and budget months. Taking an instant apart into year, month, day and time of day and
  putting it together again gives the instant, and \<^verbatim>\<open>monthStart\<close> with the month that follows it
  partitions time: an instant has the same month start exactly when it lies in the same month.
\<close>

theorem month_roundtrip:
  "time_Date (time_Year t) (time_Month t) (time_Day t) (t mod day_ns) = t \<and>
   (monthStart u = monthStart t \<longleftrightarrow> monthStart t \<le> u \<and> u < AddDate 0 1 0 (monthStart t))"
  using time_Date_date monthStart_unique month_contains by metis

end
