(* ===== verification/Billing_Hold.thy ===== *)
theory Billing_Hold
  imports Operation_Model Go_Calendar
begin

text \<open>
  Billing holds, \<^verbatim>\<open>backend/internal/controlplane/billing_hold.go\<close> and the parts of
  \<^verbatim>\<open>billing_hold_repository.go\<close> that do not touch the repository: a hold reserves the estimated cost
  and the estimated media usage of an operation against the monthly limits of its credential until
  the operation is settled or the hold is released.
\<close>

section \<open>Holds\<close>

definition BillingHoldStatusReserved :: string where "BillingHoldStatusReserved = ''reserved''"
definition BillingHoldStatusCommitted :: string where "BillingHoldStatusCommitted = ''committed''"
definition BillingHoldStatusSettled :: string where "BillingHoldStatusSettled = ''settled''"
definition BillingHoldStatusReleased :: string where "BillingHoldStatusReleased = ''released''"
definition BillingHoldStatusDisputed :: string where "BillingHoldStatusDisputed = ''disputed''"

lemma billingHoldStatus_distinct:
  "BillingHoldStatusReserved \<noteq> BillingHoldStatusCommitted"
  "BillingHoldStatusReserved \<noteq> BillingHoldStatusSettled"
  "BillingHoldStatusReserved \<noteq> BillingHoldStatusReleased"
  "BillingHoldStatusReserved \<noteq> BillingHoldStatusDisputed"
  "BillingHoldStatusCommitted \<noteq> BillingHoldStatusSettled"
  "BillingHoldStatusCommitted \<noteq> BillingHoldStatusReleased"
  "BillingHoldStatusCommitted \<noteq> BillingHoldStatusDisputed"
  "BillingHoldStatusSettled \<noteq> BillingHoldStatusReleased"
  "BillingHoldStatusSettled \<noteq> BillingHoldStatusDisputed"
  "BillingHoldStatusReleased \<noteq> BillingHoldStatusDisputed"
  by (simp_all add: BillingHoldStatusReserved_def BillingHoldStatusCommitted_def BillingHoldStatusSettled_def BillingHoldStatusReleased_def BillingHoldStatusDisputed_def)

declare billingHoldStatus_distinct [simp, status_simps] billingHoldStatus_distinct [symmetric, simp, status_simps]

record BillingHold =
  hold_ID :: string
  hold_OperationID :: string
  hold_ApplicationID :: string
  hold_CredentialID :: string
  hold_CredentialSource :: string
  hold_IntegrationID :: string
  hold_PrincipalType :: string
  hold_PrincipalID :: string
  hold_ExternalSubjectReference :: string
  hold_RequestFingerprint :: string
  hold_Status :: string
  hold_Version :: int
  hold_ReservedAmountMicros :: int
  hold_ReservedUsageDimensions :: UsageDimensions
  hold_SettledAmountMicros :: int
  hold_Currency :: string
  hold_EstimateSource :: string
  hold_Reason :: string
  hold_BudgetPeriodStart :: gotime
  hold_ExpiresAt :: gotime
  hold_CreatedAt :: gotime
  hold_UpdatedAt :: gotime
  hold_SettledAt :: "gotime option"
  hold_ReleasedAt :: "gotime option"

record BillingHoldPricingVersion =
  hpv_HoldID :: string
  hpv_Purpose :: string
  hpv_PricingRuleVersionID :: string
  hpv_EstimateEvaluationID :: string
  hpv_SettlementEvaluationID :: string

record BillingHoldAdmission =
  adm_Hold :: BillingHold
  adm_PricingVersions :: "BillingHoldPricingVersion list"
  adm_PricingEvaluations :: "PricingEvaluation list"
  adm_MonthlyBudgetMicros :: int
  adm_MonthlyImageLimit :: int
  adm_MonthlyVideoSecondsLimit :: int
  adm_MonthlyAudioSecondsLimit :: int

datatype hold_error =
    HoldUsageDimensionsInvalid
  | InvalidBillingHoldAdmission
  | InvalidBillingHoldPricingEvaluation
  | InvalidBillingHoldPricingVersion
  | DuplicateBillingHoldPricingPurpose
  | OrphanBillingHoldPricingEvaluation
  | InvalidBillingHoldTransition string string
  | ErrBillingHoldBudgetExceeded
  | ErrBillingHoldImageQuotaExceeded
  | ErrBillingHoldVideoQuotaExceeded
  | ErrBillingHoldAudioQuotaExceeded
  | ErrBillingHoldStateConflict

section \<open>Admission checks\<close>

definition hold_matches_operation :: "AIOperation \<Rightarrow> BillingHoldAdmission \<Rightarrow> bool" where
  "hold_matches_operation operation admission =
     (let hold = adm_Hold admission in
      \<not> (TrimSpace (hold_ID hold) = [] \<or> hold_OperationID hold \<noteq> op_ID operation \<or>
         hold_CredentialID hold \<noteq> op_CredentialID operation \<or> hold_ApplicationID hold \<noteq> op_ApplicationID operation \<or>
         hold_CredentialSource hold \<noteq> op_CredentialSource operation \<or> hold_IntegrationID hold \<noteq> op_IntegrationID operation \<or>
         hold_PrincipalType hold \<noteq> op_PrincipalType operation \<or> hold_PrincipalID hold \<noteq> op_PrincipalID operation \<or>
         hold_ExternalSubjectReference hold \<noteq> op_ExternalSubjectReference operation \<or>
         hold_RequestFingerprint hold = [] \<or> hold_RequestFingerprint hold \<noteq> op_RequestFingerprint operation \<or>
         hold_Status hold \<noteq> BillingHoldStatusReserved \<or> hold_Version hold \<noteq> 1 \<or> hold_ReservedAmountMicros hold < 0 \<or>
         hold_SettledAmountMicros hold \<noteq> 0 \<or> length (TrimSpace (hold_Currency hold)) \<noteq> 3 \<or>
         hold_BudgetPeriodStart hold = zero_time \<or> hold_CreatedAt hold = zero_time \<or>
         \<not> hold_ExpiresAt hold > hold_CreatedAt hold \<or> adm_MonthlyBudgetMicros admission < 0 \<or>
         adm_MonthlyImageLimit admission < 0 \<or> adm_MonthlyVideoSecondsLimit admission < 0 \<or>
         adm_MonthlyAudioSecondsLimit admission < 0))"

fun hold_evaluations :: "AIOperation \<Rightarrow> PricingEvaluation list \<Rightarrow> PricingEvaluation gomap \<Rightarrow> hold_error + PricingEvaluation gomap" where
  "hold_evaluations operation [] evaluations = Inr evaluations"
| "hold_evaluations operation (evaluation # rest) evaluations =
     (if pe_ID evaluation = [] \<or> pe_OperationID evaluation \<noteq> op_ID operation \<or> pe_Phase evaluation \<noteq> PhaseEstimate \<or>
         pe_Status evaluation \<noteq> PricingEvaluationStatusSuccess \<or> pe_AmountMicros evaluation = None
      then Inl InvalidBillingHoldPricingEvaluation
      else hold_evaluations operation rest (go_set (pe_ID evaluation) evaluation evaluations))"

fun hold_versions ::
  "BillingHold \<Rightarrow> PricingEvaluation gomap \<Rightarrow> BillingHoldPricingVersion list \<Rightarrow> string list \<Rightarrow> hold_error option" where
  "hold_versions hold evaluations [] purposes = None"
| "hold_versions hold evaluations (version # rest) purposes =
     (case go_get evaluations (hpv_EstimateEvaluationID version) of
        None \<Rightarrow> Some InvalidBillingHoldPricingVersion
      | Some evaluation \<Rightarrow>
          if hpv_HoldID version \<noteq> hold_ID hold \<or> hpv_Purpose version \<noteq> pe_Purpose evaluation \<or>
             hpv_PricingRuleVersionID version \<noteq> pe_PricingRuleVersionID evaluation \<or> hpv_SettlementEvaluationID version \<noteq> []
          then Some InvalidBillingHoldPricingVersion
          else if hpv_Purpose version \<in> set purposes then Some DuplicateBillingHoldPricingPurpose
          else hold_versions hold evaluations rest (hpv_Purpose version # purposes))"

definition validateBillingHoldAdmission :: "AIOperation \<Rightarrow> BillingHoldAdmission \<Rightarrow> hold_error option" where
  "validateBillingHoldAdmission operation admission =
     (if NormalizeUsageDimensions (hold_ReservedUsageDimensions (adm_Hold admission)) = None then Some HoldUsageDimensionsInvalid
      else if \<not> hold_matches_operation operation admission then Some InvalidBillingHoldAdmission
      else (case hold_evaluations operation (adm_PricingEvaluations admission) [] of
              Inl e \<Rightarrow> Some e
            | Inr evaluations \<Rightarrow>
                (case hold_versions (adm_Hold admission) evaluations (adm_PricingVersions admission) [] of
                   Some e \<Rightarrow> Some e
                 | None \<Rightarrow> if length evaluations \<noteq> length (adm_PricingVersions admission)
                           then Some OrphanBillingHoldPricingEvaluation else None)))"

section \<open>The status machine\<close>

definition billingHoldCountsAgainstBudget :: "string \<Rightarrow> bool" where
  "billingHoldCountsAgainstBudget status =
     oneOf status [BillingHoldStatusReserved, BillingHoldStatusCommitted, BillingHoldStatusDisputed]"

definition billingHoldTransitionAllowed :: "string \<Rightarrow> string \<Rightarrow> bool" where
  "billingHoldTransitionAllowed fromStatus toStatus =
     (if fromStatus = BillingHoldStatusReserved then
        oneOf toStatus [BillingHoldStatusCommitted, BillingHoldStatusSettled, BillingHoldStatusReleased, BillingHoldStatusDisputed]
      else if fromStatus = BillingHoldStatusCommitted then oneOf toStatus [BillingHoldStatusSettled, BillingHoldStatusDisputed]
      else if fromStatus = BillingHoldStatusDisputed then oneOf toStatus [BillingHoldStatusSettled, BillingHoldStatusReleased]
      else False)"

definition prepareBillingHoldTransition ::
  "BillingHold \<Rightarrow> string \<Rightarrow> int \<Rightarrow> string \<Rightarrow> gotime \<Rightarrow> hold_error + BillingHold" where
  "prepareBillingHoldTransition hold toStatus0 settledAmount reason at =
     (let toStatus = TrimSpace toStatus0 in
      if hold_Status hold = toStatus then Inr hold
      else if \<not> billingHoldTransitionAllowed (hold_Status hold) toStatus \<or> settledAmount < 0
      then Inl (InvalidBillingHoldTransition (hold_Status hold) toStatus)
      else (let h = hold\<lparr>hold_Status := toStatus, hold_Version := hold_Version hold + 1, hold_Reason := TrimSpace reason,
                        hold_UpdatedAt := at\<rparr>;
                h = (if toStatus = BillingHoldStatusSettled
                     then h\<lparr>hold_SettledAmountMicros := settledAmount, hold_SettledAt := Some at\<rparr> else h)
            in Inr (if toStatus = BillingHoldStatusReleased then h\<lparr>hold_ReleasedAt := Some at\<rparr> else h)))"

definition memoryBillingHoldForOperation :: "BillingHold gomap \<Rightarrow> string \<Rightarrow> BillingHold option" where
  "memoryBillingHoldForOperation holds operationID =
     List.find (\<lambda>hold. hold_OperationID hold = operationID) (go_values holds)"

section \<open>Monthly media limits\<close>

definition billingHoldAdmissionHasLimits :: "BillingHoldAdmission \<Rightarrow> bool" where
  "billingHoldAdmissionHasLimits admission \<longleftrightarrow>
     adm_MonthlyBudgetMicros admission > 0 \<or> adm_MonthlyImageLimit admission > 0 \<or>
     adm_MonthlyVideoSecondsLimit admission > 0 \<or> adm_MonthlyAudioSecondsLimit admission > 0"

definition addUsageDimensionTotals :: "UsageDimensionTotals \<Rightarrow> UsageDimensionTotals \<Rightarrow> UsageDimensionTotals" where
  "addUsageDimensionTotals left right =
     \<lparr>ut_OutputImages = saturatingUsageAdd (ut_OutputImages left) (ut_OutputImages right),
      ut_VideoMilliseconds = saturatingUsageAdd (ut_VideoMilliseconds left) (ut_VideoMilliseconds right),
      ut_AudioMilliseconds = saturatingUsageAdd (ut_AudioMilliseconds left) (ut_AudioMilliseconds right)\<rparr>"

definition usageSecondsLimitMilliseconds :: "int \<Rightarrow> int" where
  "usageSecondsLimitMilliseconds seconds =
     (if seconds \<le> 0 then 0 else if seconds > max_int64 div 1000 then max_int64 else seconds * 1000)"

definition enforceUsageDimensionLimits :: "BillingHoldAdmission \<Rightarrow> UsageDimensionTotals \<Rightarrow> hold_error option" where
  "enforceUsageDimensionLimits admission current =
     (let requested = UsageDimensionsTotals (hold_ReservedUsageDimensions (adm_Hold admission)) in
      if adm_MonthlyImageLimit admission > 0 \<and>
         saturatingUsageAdd (ut_OutputImages current) (ut_OutputImages requested) > adm_MonthlyImageLimit admission
      then Some ErrBillingHoldImageQuotaExceeded
      else if adm_MonthlyVideoSecondsLimit admission > 0 \<and>
         saturatingUsageAdd (ut_VideoMilliseconds current) (ut_VideoMilliseconds requested) >
           usageSecondsLimitMilliseconds (adm_MonthlyVideoSecondsLimit admission)
      then Some ErrBillingHoldVideoQuotaExceeded
      else if adm_MonthlyAudioSecondsLimit admission > 0 \<and>
         saturatingUsageAdd (ut_AudioMilliseconds current) (ut_AudioMilliseconds requested) >
           usageSecondsLimitMilliseconds (adm_MonthlyAudioSecondsLimit admission)
      then Some ErrBillingHoldAudioQuotaExceeded
      else None)"

definition sameBillingCredentialScope :: "string \<Rightarrow> string \<Rightarrow> BillingHold \<Rightarrow> bool" where
  "sameBillingCredentialScope applicationID credentialID hold \<longleftrightarrow>
     applicationID = hold_ApplicationID hold \<and> credentialID = hold_CredentialID hold"

definition billingHoldUsageIsFinal :: "UsageRecord \<Rightarrow> bool" where
  "billingHoldUsageIsFinal record \<longleftrightarrow>
     ToLower (TrimSpace (ur_UsageSource record)) \<in> {''gateway_final'', ''upstream_final'', ''provider_final'', ''provider_billing''}"

end
