(* ===== verification/Transactional_Outbox.thy ===== *)
theory Transactional_Outbox
  imports Operation_Model
begin

text \<open>
  The transactional outbox: the operations of the in-memory repository on the map of outbox events
  (\<^verbatim>\<open>operation_repository.go\<close>, \<^verbatim>\<open>ai_job_repository.go\<close>) and the publisher that drains it
  (\<^verbatim>\<open>transactional_outbox.go\<close>), all under \<^verbatim>\<open>backend/internal/controlplane\<close>.

  The events are the field \<^verbatim>\<open>transactionalOutboxEvents\<close> of the repository, so the operations are
  functions on that map. The broker is the parameter \<open>publish\<close> of the publishing loop: the error
  message of a publication, or none.
\<close>

type_synonym outbox = "TransactionalOutboxEvent gomap"

datatype outbox_error =
    OutboxEventExists string
  | OutboxEventNotUnique
  | OutboxEventNotLeased
  | OutboxEventNotDeadLettered
  | OutboxEventIDRequired
  | ErrTransactionalOutboxPublisherUnavailable
  | OutboxPublishFailed string string

section \<open>The events of the repository\<close>

definition normalizeTransactionalOutboxEvent :: "TransactionalOutboxEvent \<Rightarrow> TransactionalOutboxEvent" where
  "normalizeTransactionalOutboxEvent event =
     (if ob_MaxAttempts event \<le> 0 then event\<lparr>ob_MaxAttempts := OutboxDefaultMaxAttempts\<rparr> else event)"

definition trimTransactionalOutboxError :: "string \<Rightarrow> string" where
  "trimTransactionalOutboxError v = (let v = TrimSpace v in if length v > 1024 then take 1024 v else v)"

definition same_outbox_identity :: "TransactionalOutboxEvent \<Rightarrow> TransactionalOutboxEvent \<Rightarrow> bool" where
  "same_outbox_identity event candidate \<longleftrightarrow>
     ob_AggregateType event = ob_AggregateType candidate \<and> ob_AggregateID event = ob_AggregateID candidate \<and>
     ob_EventType event = ob_EventType candidate \<and> ob_EventVersion event = ob_EventVersion candidate"

definition validateMemoryOutboxInsert :: "outbox \<Rightarrow> TransactionalOutboxEvent \<Rightarrow> outbox_error option" where
  "validateMemoryOutboxInsert events candidate =
     (if go_get events (ob_ID candidate) \<noteq> None then Some (OutboxEventExists (ob_ID candidate))
      else if list_ex (\<lambda>event. same_outbox_identity event candidate) (go_values events) then Some OutboxEventNotUnique
      else None)"

definition hasEarlierUnpublishedOutboxEvent :: "outbox \<Rightarrow> TransactionalOutboxEvent \<Rightarrow> bool" where
  "hasEarlierUnpublishedOutboxEvent events candidate =
     list_ex (\<lambda>event. ob_AggregateType event = ob_AggregateType candidate \<and>
        ob_AggregateID event = ob_AggregateID candidate \<and> ob_EventVersion event < ob_EventVersion candidate \<and>
        ob_Status event \<noteq> OutboxStatusPublished \<and> ob_Status event \<noteq> OutboxStatusDeadLetter) (go_values events)"

definition outbox_due :: "gotime \<Rightarrow> outbox \<Rightarrow> TransactionalOutboxEvent \<Rightarrow> bool" where
  "outbox_due now events event \<longleftrightarrow>
     \<not> (ob_AvailableAt event > now \<or> ob_Status event = OutboxStatusPublished \<or> ob_Status event = OutboxStatusDeadLetter) \<and>
     \<not> (ob_Status event = OutboxStatusPublishing \<and> (case ob_LeaseUntil event of Some u \<Rightarrow> u > now | None \<Rightarrow> False)) \<and>
     \<not> (ob_Status event \<noteq> OutboxStatusPending \<and> ob_Status event \<noteq> OutboxStatusPublishing) \<and>
     \<not> hasEarlierUnpublishedOutboxEvent events event"

definition outbox_less :: "TransactionalOutboxEvent \<Rightarrow> TransactionalOutboxEvent \<Rightarrow> bool" where
  "outbox_less a b =
     (if ob_AvailableAt a = ob_AvailableAt b then ob_CreatedAt a < ob_CreatedAt b else ob_AvailableAt a < ob_AvailableAt b)"

definition lease_event :: "gotime \<Rightarrow> gotime \<Rightarrow> string \<Rightarrow> TransactionalOutboxEvent \<Rightarrow> TransactionalOutboxEvent" where
  "lease_event now leaseUntil leaseToken event =
     (let e = normalizeTransactionalOutboxEvent event in
      e\<lparr>ob_Status := OutboxStatusPublishing, ob_AttemptCount := ob_AttemptCount e + 1, ob_LeaseUntil := Some leaseUntil,
        ob_LeaseToken := leaseToken, ob_UpdatedAt := now\<rparr>)"

fun claim_loop ::
  "(TransactionalOutboxEvent \<Rightarrow> TransactionalOutboxEvent) \<Rightarrow> TransactionalOutboxEvent list \<Rightarrow> outbox \<Rightarrow>
   outbox \<times> TransactionalOutboxEvent list" where
  "claim_loop f [] events = (events, [])"
| "claim_loop f (event # rest) events =
     (let e = f event; (events', out) = claim_loop f rest (go_set (ob_ID e) e events) in (events', e # out))"

definition ClaimDueTransactionalOutboxEvents ::
  "gotime \<Rightarrow> gotime \<Rightarrow> string \<Rightarrow> int \<Rightarrow> outbox \<Rightarrow> outbox \<times> TransactionalOutboxEvent list" where
  "ClaimDueTransactionalOutboxEvents now leaseUntil leaseToken limit events =
     (if limit \<le> 0 \<or> TrimSpace leaseToken = [] then (events, [])
      else (let candidates = sort_by outbox_less (filter (outbox_due now events) (go_values events)) in
            claim_loop (lease_event now leaseUntil leaseToken)
              (if int (length candidates) > limit then take (nat limit) candidates else candidates) events))"

definition leased_with :: "outbox \<Rightarrow> string \<Rightarrow> string \<Rightarrow> TransactionalOutboxEvent option" where
  "leased_with events k leaseToken =
     (case go_get events k of
        None \<Rightarrow> None
      | Some event \<Rightarrow>
          if ob_Status event \<noteq> OutboxStatusPublishing \<or> ob_LeaseToken event \<noteq> leaseToken then None else Some event)"

definition completed_event :: "gotime \<Rightarrow> TransactionalOutboxEvent \<Rightarrow> TransactionalOutboxEvent" where
  "completed_event publishedAt event =
     event\<lparr>ob_Status := OutboxStatusPublished, ob_PublishedAt := Some publishedAt, ob_LeaseUntil := None,
       ob_LeaseToken := [], ob_LastError := [], ob_UpdatedAt := publishedAt\<rparr>"

definition CompleteTransactionalOutboxEvent ::
  "string \<Rightarrow> string \<Rightarrow> gotime \<Rightarrow> outbox \<Rightarrow> outbox \<times> outbox_error option" where
  "CompleteTransactionalOutboxEvent k leaseToken publishedAt events =
     (case leased_with events k leaseToken of
        None \<Rightarrow> (events, Some OutboxEventNotLeased)
      | Some event \<Rightarrow> (go_set k (completed_event publishedAt event) events, None))"

definition rescheduled_event ::
  "gotime \<Rightarrow> string \<Rightarrow> bool \<Rightarrow> gotime \<Rightarrow> TransactionalOutboxEvent \<Rightarrow> TransactionalOutboxEvent" where
  "rescheduled_event nextAttemptAt lastError deadLetter updatedAt event =
     event\<lparr>ob_Status := (if deadLetter then OutboxStatusDeadLetter else OutboxStatusPending),
       ob_AvailableAt := nextAttemptAt, ob_LeaseUntil := None, ob_LeaseToken := [],
       ob_LastError := trimTransactionalOutboxError lastError, ob_UpdatedAt := updatedAt\<rparr>"

definition RescheduleTransactionalOutboxEvent ::
  "string \<Rightarrow> string \<Rightarrow> gotime \<Rightarrow> string \<Rightarrow> bool \<Rightarrow> gotime \<Rightarrow> outbox \<Rightarrow> outbox \<times> outbox_error option" where
  "RescheduleTransactionalOutboxEvent k leaseToken nextAttemptAt lastError deadLetter updatedAt events =
     (case leased_with events k leaseToken of
        None \<Rightarrow> (events, Some OutboxEventNotLeased)
      | Some event \<Rightarrow> (go_set k (rescheduled_event nextAttemptAt lastError deadLetter updatedAt event) events, None))"

definition RequeueTransactionalOutboxEvent :: "string \<Rightarrow> gotime \<Rightarrow> outbox \<Rightarrow> outbox \<times> outbox_error option" where
  "RequeueTransactionalOutboxEvent k nextAttemptAt events =
     (case go_get events k of
        None \<Rightarrow> (events, Some OutboxEventNotDeadLettered)
      | Some event \<Rightarrow>
          if ob_Status event \<noteq> OutboxStatusDeadLetter then (events, Some OutboxEventNotDeadLettered)
          else (go_set k (event\<lparr>ob_Status := OutboxStatusPending, ob_AvailableAt := nextAttemptAt, ob_AttemptCount := 0,
                  ob_LeaseUntil := None, ob_LeaseToken := [], ob_LastError := [], ob_UpdatedAt := nextAttemptAt\<rparr>) events, None))"

definition ListTransactionalOutboxEvents :: "string \<Rightarrow> outbox \<Rightarrow> TransactionalOutboxEvent list" where
  "ListTransactionalOutboxEvents aggregateID events =
     sort_by (\<lambda>a b. ob_CreatedAt a < ob_CreatedAt b)
       (filter (\<lambda>event. aggregateID = [] \<or> ob_AggregateID event = aggregateID) (go_values events))"

section \<open>The publisher\<close>

abbreviation (input) transactionalOutboxLease :: duration where
  "transactionalOutboxLease \<equiv> 30 * time_Second"

definition transactionalOutboxRetryDelay :: "int \<Rightarrow> duration" where
  "transactionalOutboxRetryDelay attempt0 =
     (let attempt = (if attempt0 < 1 then 1 else attempt0);
          shift = attempt - 1;
          shift = (if shift > 8 then 8 else shift);
          delay = 5 * time_Second * 2 ^ nat shift
      in if delay > 15 * time_Minute then 15 * time_Minute else delay)"

text \<open>
  The loop over the claimed events. It reaches the repository only through \<open>complete\<close> and
  \<open>reschedule\<close>; \<open>clock i\<close> is the time when the \<open>i\<close>-th event is settled.
\<close>

fun publish_loop ::
  "(string \<Rightarrow> string \<Rightarrow> gotime \<Rightarrow> 's \<Rightarrow> 's \<times> outbox_error option) \<Rightarrow>
   (string \<Rightarrow> string \<Rightarrow> gotime \<Rightarrow> string \<Rightarrow> bool \<Rightarrow> gotime \<Rightarrow> 's \<Rightarrow> 's \<times> outbox_error option) \<Rightarrow>
   (TransactionalOutboxEvent \<Rightarrow> string option) \<Rightarrow> gotime \<Rightarrow> string \<Rightarrow> (nat \<Rightarrow> gotime) \<Rightarrow> nat \<Rightarrow>
   TransactionalOutboxEvent list \<Rightarrow> 's \<Rightarrow> outbox_error option \<Rightarrow> 's \<times> outbox_error option" where
  "publish_loop complete reschedule publish now leaseToken clock i [] s firstErr = (s, firstErr)"
| "publish_loop complete reschedule publish now leaseToken clock i (event # rest) s firstErr =
     (case publish event of
        None \<Rightarrow>
          (let (s', err) = complete (ob_ID event) leaseToken (clock i) s in
           publish_loop complete reschedule publish now leaseToken clock (i + 1) rest s'
             (if firstErr = None then err else firstErr))
      | Some publishErr \<Rightarrow>
          (let deadLetter = (ob_AttemptCount event \<ge> ob_MaxAttempts event);
               nextAttemptAt = (if \<not> deadLetter then now + transactionalOutboxRetryDelay (ob_AttemptCount event) else now);
               (s', err) = reschedule (ob_ID event) leaseToken nextAttemptAt publishErr deadLetter (clock i) s;
               firstErr = (if firstErr = None then err else firstErr);
               firstErr = (if firstErr = None then Some (OutboxPublishFailed (ob_ID event) publishErr) else firstErr)
           in publish_loop complete reschedule publish now leaseToken clock (i + 1) rest s' firstErr))"

definition PublishDueTransactionalOutbox ::
  "(TransactionalOutboxEvent \<Rightarrow> string option) option \<Rightarrow> gotime \<Rightarrow> string \<Rightarrow> (nat \<Rightarrow> gotime) \<Rightarrow> int \<Rightarrow> outbox \<Rightarrow>
   outbox \<times> outbox_error option" where
  "PublishDueTransactionalOutbox publisher now rnd clock limit s =
     (case publisher of
        None \<Rightarrow> (s, Some ErrTransactionalOutboxPublisherUnavailable)
      | Some publish \<Rightarrow>
          if limit \<le> 0 then (s, None)
          else (let leaseToken = ''outbox_lease_'' @ rnd;
                    (s', events) = ClaimDueTransactionalOutboxEvents now (now + transactionalOutboxLease) leaseToken limit s
                in publish_loop CompleteTransactionalOutboxEvent RescheduleTransactionalOutboxEvent publish now leaseToken
                     clock 0 events s' None))"

definition service_RequeueTransactionalOutboxEvent :: "string \<Rightarrow> gotime \<Rightarrow> outbox \<Rightarrow> outbox \<times> outbox_error option" where
  "service_RequeueTransactionalOutboxEvent id0 now s =
     (let k = TrimSpace id0 in
      if k = [] then (s, Some OutboxEventIDRequired) else RequeueTransactionalOutboxEvent k now s)"

text \<open>One operation of any client; insertions pass the check of the repository first.\<close>

inductive outbox_step :: "outbox \<Rightarrow> outbox \<Rightarrow> bool" where
  outbox_insert: "validateMemoryOutboxInsert s event = None \<Longrightarrow> outbox_step s (go_set (ob_ID event) event s)"
| outbox_claim: "outbox_step s (fst (ClaimDueTransactionalOutboxEvents now leaseUntil leaseToken limit s))"
| outbox_complete: "outbox_step s (fst (CompleteTransactionalOutboxEvent k leaseToken t s))"
| outbox_reschedule: "outbox_step s (fst (RescheduleTransactionalOutboxEvent k leaseToken t lastError dead u s))"
| outbox_requeue: "outbox_step s (fst (RequeueTransactionalOutboxEvent k t s))"

section \<open>The contract the publisher relies on\<close>

text \<open>
  \<open>lookup\<close> is what the repository stores under an event ID. Settling an event needs the token of its
  lease; then exactly that event changes.
\<close>

locale outbox_store =
  fixes complete :: "string \<Rightarrow> string \<Rightarrow> gotime \<Rightarrow> 's \<Rightarrow> 's \<times> outbox_error option"
    and reschedule :: "string \<Rightarrow> string \<Rightarrow> gotime \<Rightarrow> string \<Rightarrow> bool \<Rightarrow> gotime \<Rightarrow> 's \<Rightarrow> 's \<times> outbox_error option"
    and lookup :: "'s \<Rightarrow> string \<Rightarrow> TransactionalOutboxEvent option"
  assumes complete_leased: "lookup s k = Some e \<Longrightarrow> ob_Status e = OutboxStatusPublishing \<Longrightarrow> ob_LeaseToken e = tok \<Longrightarrow>
      snd (complete k tok t s) = None \<and> lookup (fst (complete k tok t s)) = (lookup s)(k \<mapsto> completed_event t e)"
    and reschedule_leased: "lookup s k = Some e \<Longrightarrow> ob_Status e = OutboxStatusPublishing \<Longrightarrow> ob_LeaseToken e = tok \<Longrightarrow>
      snd (reschedule k tok n err dead t s) = None \<and>
      lookup (fst (reschedule k tok n err dead t s)) = (lookup s)(k \<mapsto> rescheduled_event n err dead t e)"
    and unleased: "(\<And>e. lookup s k = Some e \<Longrightarrow> ob_Status e \<noteq> OutboxStatusPublishing \<or> ob_LeaseToken e \<noteq> tok) \<Longrightarrow>
      complete k tok t s = (s, Some OutboxEventNotLeased) \<and> reschedule k tok n err dead t s = (s, Some OutboxEventNotLeased)"
begin

text \<open>What the loop makes of one event.\<close>

definition settled_event :: "(TransactionalOutboxEvent \<Rightarrow> string option) \<Rightarrow> gotime \<Rightarrow> gotime \<Rightarrow> TransactionalOutboxEvent \<Rightarrow> TransactionalOutboxEvent" where
  "settled_event publish now t e =
     (case publish e of
        None \<Rightarrow> completed_event t e
      | Some err \<Rightarrow>
          rescheduled_event (if ob_AttemptCount e \<ge> ob_MaxAttempts e then now else now + transactionalOutboxRetryDelay (ob_AttemptCount e))
            err (ob_AttemptCount e \<ge> ob_MaxAttempts e) t e)"

lemma publish_loop_settles:
  assumes "distinct (map ob_ID es)"
    and "\<And>e. e \<in> set es \<Longrightarrow> lookup s (ob_ID e) = Some e \<and> ob_Status e = OutboxStatusPublishing \<and> ob_LeaseToken e = tok"
    and "publish_loop complete reschedule publish now tok clock i es s err = (s', err')"
  shows "(\<forall>k. k \<notin> ob_ID ` set es \<longrightarrow> lookup s' k = lookup s k) \<and>
    (\<forall>j < length es. lookup s' (ob_ID (es ! j)) = Some (settled_event publish now (clock (i + j)) (es ! j))) \<and>
    (err' = None \<longleftrightarrow> err = None \<and> (\<forall>e \<in> set es. publish e = None))"
  using assms
proof (induction es arbitrary: i s err)
  case (Cons e es)
  let ?e' = "settled_event publish now (clock i) e"
  obtain s1 err1 where s1: "lookup s1 = (lookup s)(ob_ID e \<mapsto> ?e')" "err1 = None \<longleftrightarrow> err = None \<and> publish e = None"
    and loop: "publish_loop complete reschedule publish now tok clock (Suc i) es s1 err1 = (s', err')"
  proof (cases "publish e")
    case None
    obtain s1 r where r: "complete (ob_ID e) tok (clock i) s = (s1, r)" by force
    then have "r = None" "lookup s1 = (lookup s)(ob_ID e \<mapsto> ?e')"
      using complete_leased [of s "ob_ID e" e tok "clock i"] Cons.prems(2) [of e] None by (auto simp: settled_event_def)
    with Cons.prems(3) r None that show ?thesis by (auto split: if_splits)
  next
    case (Some msg)
    let ?dead = "ob_AttemptCount e \<ge> ob_MaxAttempts e"
    let ?next = "if \<not> ?dead then now + transactionalOutboxRetryDelay (ob_AttemptCount e) else now"
    obtain s1 r where r: "reschedule (ob_ID e) tok ?next msg ?dead (clock i) s = (s1, r)" by force
    then have "r = None" "lookup s1 = (lookup s)(ob_ID e \<mapsto> ?e')"
      using reschedule_leased [of s "ob_ID e" e tok ?next msg ?dead "clock i"] Cons.prems(2) [of e] Some
      by (auto simp: settled_event_def)
    with Cons.prems(3) r Some that show ?thesis by (auto simp: Let_def split: if_splits)
  qed
  have ne: "ob_ID x \<noteq> ob_ID e" if "x \<in> set es" for x using Cons.prems(1) that by (auto simp: image_iff)
  have IH: "(\<forall>k. k \<notin> ob_ID ` set es \<longrightarrow> lookup s' k = lookup s1 k) \<and>
    (\<forall>j < length es. lookup s' (ob_ID (es ! j)) = Some (settled_event publish now (clock (Suc i + j)) (es ! j))) \<and>
    (err' = None \<longleftrightarrow> err1 = None \<and> (\<forall>e \<in> set es. publish e = None))"
    using Cons.prems(1,2) loop ne by (intro Cons.IH) (auto simp: s1(1))
  have "lookup s' (ob_ID e) = Some ?e'" using IH s1(1) Cons.prems(1) by auto
  moreover have "lookup s' (ob_ID (es ! j)) = Some (settled_event publish now (clock (i + Suc j)) (es ! j))" if "j < length es" for j
    using IH that by simp
  ultimately have "\<forall>j < length (e # es). lookup s' (ob_ID ((e # es) ! j)) = Some (settled_event publish now (clock (i + j)) ((e # es) ! j))"
    by (simp add: All_less_Suc2)
  then show ?case using IH s1 by auto
qed auto

text \<open>A worker that lost its lease to another token changes nothing.\<close>

lemma stale_token_harmless:
  assumes "lookup s k = Some e" "ob_LeaseToken e \<noteq> tok"
  shows "fst (complete k tok t s) = s \<and> snd (complete k tok t s) \<noteq> None \<and>
    fst (reschedule k tok n err dead t s) = s \<and> snd (reschedule k tok n err dead t s) \<noteq> None"
  using unleased [of s k tok t n err dead] assms by simp

end

interpretation memory_outbox: outbox_store CompleteTransactionalOutboxEvent RescheduleTransactionalOutboxEvent
  "\<lambda>s. go_get s"
  by unfold_locales
    (auto simp: CompleteTransactionalOutboxEvent_def RescheduleTransactionalOutboxEvent_def leased_with_def fun_eq_iff
      split: option.splits)

section \<open>Claiming\<close>

interpretation outbox_order: strict_weak_order outbox_less
  by unfold_locales (auto simp: outbox_less_def split: if_splits)

lemma lease_event_simps [simp]:
  "ob_ID (lease_event now u tok e) = ob_ID e" "ob_AggregateType (lease_event now u tok e) = ob_AggregateType e"
  "ob_AggregateID (lease_event now u tok e) = ob_AggregateID e" "ob_EventVersion (lease_event now u tok e) = ob_EventVersion e"
  "ob_Status (lease_event now u tok e) = OutboxStatusPublishing" "ob_LeaseToken (lease_event now u tok e) = tok"
  "ob_LeaseUntil (lease_event now u tok e) = Some u" "ob_AttemptCount (lease_event now u tok e) = ob_AttemptCount e + 1"
  by (simp_all add: lease_event_def normalizeTransactionalOutboxEvent_def Let_def)

lemma lease_event_max [simp]: "0 < ob_MaxAttempts (lease_event now u tok e)"
  by (simp add: lease_event_def normalizeTransactionalOutboxEvent_def Let_def)

lemma claim_loop_eq: "claim_loop f es m = (foldl (\<lambda>m e. go_set (ob_ID e) e m) m (map f es), map f es)"
  by (induction es arbitrary: m) (simp_all add: Let_def)

definition due_events :: "gotime \<Rightarrow> int \<Rightarrow> outbox \<Rightarrow> TransactionalOutboxEvent list" where
  "due_events now limit events = take (nat limit) (sort_by outbox_less (filter (outbox_due now events) (go_values events)))"

lemma claim_eq:
  assumes "0 < limit" "TrimSpace tok \<noteq> []"
  shows "ClaimDueTransactionalOutboxEvents now u tok limit m =
    (foldl (\<lambda>m e. go_set (ob_ID e) e m) m (map (lease_event now u tok) (due_events now limit m)),
     map (lease_event now u tok) (due_events now limit m))"
  using assms by (auto simp: ClaimDueTransactionalOutboxEvents_def due_events_def claim_loop_eq Let_def)

lemma due_events_mem: "keyed ob_ID m \<Longrightarrow> e \<in> set (due_events now limit m) \<Longrightarrow> go_get m (ob_ID e) = Some e \<and> outbox_due now m e"
  by (auto simp: due_events_def keyed_get_iff dest!: in_set_takeD)

lemma due_events_distinct: "keyed ob_ID m \<Longrightarrow> distinct (map ob_ID (due_events now limit m))"
proof -
  assume "keyed ob_ID m"
  then have "distinct (map ob_ID (filter (outbox_due now m) (go_values m)))"
    using keyed_distinct_values [of ob_ID m] by (simp add: distinct_map_filter del: map_map)
  then have "distinct (map ob_ID (sort_by outbox_less (filter (outbox_due now m) (go_values m))))"
    by (metis distinct_map_mset mset_sort_by)
  then show ?thesis by (simp add: due_events_def take_map [symmetric])
qed

lemma claim_get:
  assumes "keyed ob_ID m" "0 < limit" "TrimSpace tok \<noteq> []"
  shows "go_get (fst (ClaimDueTransactionalOutboxEvents now u tok limit m)) k =
    (case find (\<lambda>e. ob_ID e = k) (due_events now limit m) of Some e \<Rightarrow> Some (lease_event now u tok e) | None \<Rightarrow> go_get m k)"
proof -
  have "distinct (map ob_ID (map (lease_event now u tok) (due_events now limit m)))"
    using due_events_distinct [OF assms(1)] by (simp add: comp_def)
  then show ?thesis
    using assms(2,3) by (simp add: claim_eq foldl_go_set_get find_map_comp comp_def split: option.split)
qed

lemma keyed_claim: "keyed ob_ID m \<Longrightarrow> keyed ob_ID (fst (ClaimDueTransactionalOutboxEvents now u tok limit m))"
  by (cases "limit \<le> 0 \<or> TrimSpace tok = []")
    (auto simp: ClaimDueTransactionalOutboxEvents_def claim_loop_eq Let_def intro!: keyed_foldl_go_set)

lemma leased_with_get: "leased_with m k tok = Some e \<Longrightarrow> go_get m k = Some e \<and> ob_Status e = OutboxStatusPublishing"
  by (auto simp: leased_with_def split: option.splits if_splits)

lemma event_update_ID [simp]:
  "ob_ID (completed_event t e) = ob_ID e" "ob_ID (rescheduled_event n err dead t e) = ob_ID e"
  "ob_Status (completed_event t e) = OutboxStatusPublished"
  "ob_Status (rescheduled_event n err dead t e) = (if dead then OutboxStatusDeadLetter else OutboxStatusPending)"
  "ob_AvailableAt (rescheduled_event n err dead t e) = n"
  "ob_AttemptCount (rescheduled_event n err dead t e) = ob_AttemptCount e"
  by (simp_all add: completed_event_def rescheduled_event_def)

lemma outbox_step_keyed: "outbox_step s s' \<Longrightarrow> keyed ob_ID s \<Longrightarrow> keyed ob_ID s'"
proof (induction rule: outbox_step.induct)
  case (outbox_claim s now u tok n)
  then show ?case by (rule keyed_claim)
qed (auto simp: CompleteTransactionalOutboxEvent_def RescheduleTransactionalOutboxEvent_def RequeueTransactionalOutboxEvent_def
    intro!: keyed_go_set dest: leased_with_get keyed_get split: option.splits)

text \<open>A published event is no longer claimed, settled, requeued or overwritten.\<close>

lemma claim_keeps_published:
  assumes "keyed ob_ID m" "go_get m k = Some e" "ob_Status e = OutboxStatusPublished"
  shows "go_get (fst (ClaimDueTransactionalOutboxEvents now u tok limit m)) k = Some e"
proof (cases "limit \<le> 0 \<or> TrimSpace tok = []")
  case False
  have "find (\<lambda>x. ob_ID x = k) (due_events now limit m) = None"
  proof (rule ccontr)
    assume "find (\<lambda>x. ob_ID x = k) (due_events now limit m) \<noteq> None"
    then obtain x where "x \<in> set (due_events now limit m)" "ob_ID x = k" by (auto dest: find_Some_mem)
    then have "x = e" "outbox_due now m x" using due_events_mem [OF assms(1)] assms(2) by auto
    then show False using assms(3) by (simp add: outbox_due_def)
  qed
  then show ?thesis using False assms by (simp add: claim_get)
qed (auto simp: ClaimDueTransactionalOutboxEvents_def assms)

lemma outbox_step_published:
  assumes "outbox_step s s'" "keyed ob_ID s" "go_get s k = Some e" "ob_Status e = OutboxStatusPublished"
  shows "go_get s' k = Some e"
  using assms
proof (induction rule: outbox_step.induct)
  case (outbox_claim s now u tok n)
  then show ?case by (intro claim_keeps_published)
qed (auto simp: CompleteTransactionalOutboxEvent_def RescheduleTransactionalOutboxEvent_def RequeueTransactionalOutboxEvent_def
    validateMemoryOutboxInsert_def dest: leased_with_get split: option.splits if_splits)

lemma outbox_run_published:
  "outbox_step\<^sup>*\<^sup>* s s' \<Longrightarrow> keyed ob_ID s \<Longrightarrow> go_get s k = Some e \<Longrightarrow> ob_Status e = OutboxStatusPublished \<Longrightarrow>
   keyed ob_ID s' \<and> go_get s' k = Some e"
  by (induction rule: rtranclp_induct) (auto dest: outbox_step_keyed outbox_step_published)

section \<open>Properties\<close>


definition example_outbox_event :: "string \<Rightarrow> int \<Rightarrow> TransactionalOutboxEvent" where
  "example_outbox_event k v = \<lparr>ob_ID = k, ob_AggregateType = ''ai_job'', ob_AggregateID = ''j'', ob_EventType = ''job.queued'',
     ob_EventVersion = v, ob_Status = OutboxStatusPending, ob_AvailableAt = 1, ob_AttemptCount = 0, ob_MaxAttempts = 1,
     ob_LeaseUntil = None, ob_LeaseToken = [], ob_LastError = [], ob_PublishedAt = None, ob_CreatedAt = 1, ob_UpdatedAt = 1,
     ob_PayloadJSON = OtherPayload []\<rparr>"

definition example_outbox :: outbox where
  "example_outbox = [(''b'', example_outbox_event ''b'' 2), (''a'', example_outbox_event ''a'' 1)]"

lemma example_outbox_keyed: "keyed ob_ID example_outbox"
  by (simp add: keyed_def example_outbox_def example_outbox_event_def)

lemma example_outbox_due: "due_events 5 10 example_outbox = [example_outbox_event ''a'' 1]"
  by (simp add: due_events_def outbox_due_def hasEarlierUnpublishedOutboxEvent_def example_outbox_def example_outbox_event_def)

lemma outbox_token_graphic: "TrimSpace (''outbox_lease_'' @ r) \<noteq> []"
  by (simp add: TrimSpace_graphic graphic_def less_eq_char_def)


text \<open>
  A published event is final and leases are fenced. Through any sequence of insertions, claims,
  completions, reschedulings and requeuings a published event stays exactly as it is; completing or
  rescheduling an event with a token other than that of its current lease, or one that is not being
  published, fails and changes nothing.
\<close>

theorem outbox_published_final:
  assumes "keyed ob_ID s" "outbox_step\<^sup>*\<^sup>* s s'" "go_get s k = Some e"
  shows "(ob_Status e = OutboxStatusPublished \<longrightarrow> go_get s' k = Some e) \<and>
    (ob_LeaseToken e \<noteq> tok \<or> ob_Status e \<noteq> OutboxStatusPublishing \<longrightarrow>
       CompleteTransactionalOutboxEvent k tok t s = (s, Some OutboxEventNotLeased) \<and>
       RescheduleTransactionalOutboxEvent k tok n err dead t s = (s, Some OutboxEventNotLeased))"
  using outbox_run_published [OF assms(2,1,3)] memory_outbox.unleased [of s k tok t n err dead] assms(3) by auto

theorem outbox_published_final_witness:
  "go_get (fst (RequeueTransactionalOutboxEvent ''a'' 7 [(''a'', completed_event 3 (example_outbox_event ''a'' 1))])) ''a'' =
     Some (completed_event 3 (example_outbox_event ''a'' 1))"
proof -
  let ?s = "[(''a'', completed_event 3 (example_outbox_event ''a'' 1))]"
  have k: "keyed ob_ID ?s" by (simp add: keyed_def example_outbox_event_def completed_event_def)
  from outbox_published_final [OF k r_into_rtranclp [where r = outbox_step, OF outbox_requeue],
      of "''a''" "completed_event 3 (example_outbox_event ''a'' 1)" "''a''" 7 "[]" 0 0 "[]" False]
  show ?thesis by simp
qed

text \<open>
  A drained batch is settled. When a publisher is configured, every event that a run claims ends
  as published if the broker takes it; otherwise it waits for the retry delay, or is dead-lettered
  once its attempts are used up. All other events are untouched, and the run reports success exactly
  when the broker took every event.
\<close>

theorem publish_due_settles:
  assumes "keyed ob_ID s" "0 < limit" "PublishDueTransactionalOutbox (Some publish) now rnd clock limit s = (s', err)"
  shows "(\<forall>e \<in> set (due_events now limit s).
       let l = lease_event now (now + transactionalOutboxLease) (''outbox_lease_'' @ rnd) e in
       \<exists>x. go_get s' (ob_ID e) = Some x \<and>
         (case publish l of
            None \<Rightarrow> ob_Status x = OutboxStatusPublished
          | Some msg \<Rightarrow>
              if ob_AttemptCount e + 1 \<ge> ob_MaxAttempts l then ob_Status x = OutboxStatusDeadLetter
              else ob_Status x = OutboxStatusPending \<and>
                ob_AvailableAt x = now + transactionalOutboxRetryDelay (ob_AttemptCount e + 1))) \<and>
    (\<forall>k. k \<notin> ob_ID ` set (due_events now limit s) \<longrightarrow> go_get s' k = go_get s k) \<and>
    (err = None \<longleftrightarrow> (\<forall>e \<in> set (due_events now limit s).
       publish (lease_event now (now + transactionalOutboxLease) (''outbox_lease_'' @ rnd) e) = None))"
proof -
  let ?tok = "''outbox_lease_'' @ rnd" and ?u = "now + transactionalOutboxLease"
  let ?due = "due_events now limit s" and ?f = "lease_event now ?u ?tok"
  obtain s1 where s1: "ClaimDueTransactionalOutboxEvents now ?u ?tok limit s = (s1, map ?f ?due)"
    by (rule that [OF claim_eq [OF assms(2) outbox_token_graphic]])
  have dist: "distinct (map ob_ID ?due)" by (rule due_events_distinct [OF assms(1)])
  have get: "go_get s1 k = (case find (\<lambda>e. ob_ID e = k) ?due of Some e \<Rightarrow> Some (?f e) | None \<Rightarrow> go_get s k)" for k
    using claim_get [OF assms(1,2) outbox_token_graphic, of now ?u rnd k] s1 by simp
  have loop: "publish_loop CompleteTransactionalOutboxEvent RescheduleTransactionalOutboxEvent publish now ?tok clock 0
      (map ?f ?due) s1 None = (s', err)"
    using assms(2,3) s1 by (simp add: PublishDueTransactionalOutbox_def Let_def)
  have P: "(\<forall>k. k \<notin> ob_ID ` set (map ?f ?due) \<longrightarrow> go_get s' k = go_get s1 k) \<and>
    (\<forall>j < length (map ?f ?due). go_get s' (ob_ID (map ?f ?due ! j)) =
       Some (memory_outbox.settled_event publish now (clock (0 + j)) (map ?f ?due ! j))) \<and>
    (err = None \<longleftrightarrow> None = (None :: outbox_error option) \<and> (\<forall>e \<in> set (map ?f ?due). publish e = None))"
  proof (rule memory_outbox.publish_loop_settles [OF _ _ loop])
    show "distinct (map ob_ID (map ?f ?due))" using dist by (simp add: comp_def)
  next
    fix x
    assume "x \<in> set (map ?f ?due)"
    then obtain e where e: "e \<in> set ?due" "x = ?f e" by auto
    then show "go_get s1 (ob_ID x) = Some x \<and> ob_Status x = OutboxStatusPublishing \<and> ob_LeaseToken x = ?tok"
      using find_distinct [OF dist e(1)] by (simp add: get)
  qed
  have "go_get s' k = go_get s k" if "k \<notin> ob_ID ` set ?due" for k
    using P that find_key_None [of ob_ID k ?due] by (simp add: image_image get)
  moreover have "\<exists>j. go_get s' (ob_ID e) = Some (memory_outbox.settled_event publish now (clock j) (?f e))" if e: "e \<in> set ?due" for e
  proof -
    obtain j where "j < length ?due" "?due ! j = e" using e by (auto simp: in_set_conv_nth)
    then show ?thesis using P by auto
  qed
  ultimately show ?thesis
    using P by (fastforce simp: Let_def memory_outbox.settled_event_def split: option.split)
qed

theorem publish_due_settles_witness:
  "\<exists>s' x err. PublishDueTransactionalOutbox (Some (\<lambda>e. Some ''down'')) 5 ''r'' (\<lambda>_. 6) 10 example_outbox = (s', Some err) \<and>
     go_get s' ''a'' = Some x \<and> ob_Status x = OutboxStatusDeadLetter"
proof -
  obtain s' err where r: "PublishDueTransactionalOutbox (Some (\<lambda>e. Some ''down'')) 5 ''r'' (\<lambda>_. 6) 10 example_outbox = (s', err)"
    by force
  have "ob_MaxAttempts (lease_event 5 u t (example_outbox_event ''a'' 1)) = 1" for u t
    by (simp add: lease_event_def normalizeTransactionalOutboxEvent_def example_outbox_event_def)
  moreover have "ob_AttemptCount (example_outbox_event ''a'' 1) = 0" "ob_ID (example_outbox_event ''a'' 1) = ''a''"
    by (simp_all add: example_outbox_event_def)
  ultimately have "err \<noteq> None \<and> (\<exists>x. go_get s' ''a'' = Some x \<and> ob_Status x = OutboxStatusDeadLetter)"
    using publish_due_settles [OF example_outbox_keyed _ r] by (simp add: example_outbox_due Let_def)
  then show ?thesis using r by auto
qed

text \<open>
  Retries back off. The delay before a retry is five seconds times a power of two, at most
  fifteen minutes; it never shrinks with the number of attempts.
\<close>

theorem retry_delay_backs_off:
  "transactionalOutboxRetryDelay n = min (15 * time_Minute) (5 * time_Second * 2 ^ nat (min 8 (max 1 n - 1))) \<and>
   5 * time_Second \<le> transactionalOutboxRetryDelay n \<and> transactionalOutboxRetryDelay n \<le> 15 * time_Minute \<and>
   (n \<le> m \<longrightarrow> transactionalOutboxRetryDelay n \<le> transactionalOutboxRetryDelay m)"
proof -
  have eq: "transactionalOutboxRetryDelay n = min (15 * time_Minute) (5 * time_Second * 2 ^ nat (min 8 (max 1 n - 1)))" for n
  proof -
    have "(let attempt = if n < 1 then 1 else n; shift = attempt - 1 in if shift > 8 then 8 else shift) = min 8 (max 1 n - 1)"
      by (simp add: Let_def)
    moreover have if_min: "(if a < d then a else d) = min a d" for a d :: int by simp
    ultimately show ?thesis unfolding transactionalOutboxRetryDelay_def Let_def by (simp only: if_min)
  qed
  have mono: "(2 :: int) ^ nat (min 8 (max 1 n - 1)) \<le> 2 ^ nat (min 8 (max 1 m - 1))" if "n \<le> m"
    using that by (intro power_increasing) auto
  have pos: "(1 :: int) \<le> 2 ^ nat (min 8 (max 1 n - 1))" by simp
  have clip: "min b (c * x) \<le> min b (c * y)" if "x \<le> y" "0 \<le> c" for b c x y :: int
    using mult_left_mono [OF that] by linarith
  have low: "c \<le> min b (c * x)" if "1 \<le> x" "0 \<le> c" "c \<le> b" for b c x :: int
    using mult_left_mono [OF that(1,2)] that(3) by simp
  show ?thesis unfolding eq by (intro conjI impI refl low [OF pos] clip [OF mono] min.cobounded1) simp_all
qed

theorem retry_delay_backs_off_witness: "transactionalOutboxRetryDelay 2 \<le> transactionalOutboxRetryDelay 9"
  using retry_delay_backs_off [of 2 9] by simp

end
