(* ===== verification/AI_Job_Scheduling.thy ===== *)
theory AI_Job_Scheduling
  imports AI_Job_Model "HOL-Library.Product_Lexorder"
begin

text \<open>
  Admission of jobs to the queue (\<^verbatim>\<open>backend/internal/controlplane/ai_job_admission.go\<close>) and the fair
  order in which queued jobs are dispatched (\<^verbatim>\<open>ai_job_fair_queue.go\<close>).

  Go's maps of statistics create an entry when one is looked up; a lookup of a missing entry is the
  zero statistics here. The comparison of candidates is a lexicographic order; \<open>fair_rank\<close> names it, and
  the interpretation \<open>fair_less\<close> of \<open>strict_weak_order\<close> rests on it.
\<close>

section \<open>Admission\<close>

datatype admission_error =
    ErrAIJobQueueCapacityOrganization
  | ErrAIJobQueueCapacityApplication
  | ErrAIJobQueueCapacityPrincipal

record AIJobAdmissionLimits =
  lim_Organization :: int
  lim_Application :: int
  lim_Principal :: int

definition admission_validate :: "AIJobAdmissionLimits \<Rightarrow> bool" where
  "admission_validate l \<longleftrightarrow> \<not> (lim_Organization l < 0 \<or> lim_Application l < 0 \<or> lim_Principal l < 0)"

definition admission_enabled :: "AIJobAdmissionLimits \<Rightarrow> bool" where
  "admission_enabled l \<longleftrightarrow> lim_Organization l > 0 \<or> lim_Application l > 0 \<or> lim_Principal l > 0"

record aiJobAdmissionCounts =
  cnt_Organization :: int
  cnt_Application :: int
  cnt_Principal :: int

definition enforceAIJobAdmissionLimits ::
  "AIJobAdmissionLimits \<Rightarrow> aiJobAdmissionCounts \<Rightarrow> admission_error option" where
  "enforceAIJobAdmissionLimits limits counts =
     (if lim_Organization limits > 0 \<and> cnt_Organization counts \<ge> lim_Organization limits
      then Some ErrAIJobQueueCapacityOrganization
      else if lim_Application limits > 0 \<and> cnt_Application counts \<ge> lim_Application limits
      then Some ErrAIJobQueueCapacityApplication
      else if lim_Principal limits > 0 \<and> cnt_Principal counts \<ge> lim_Principal limits
      then Some ErrAIJobQueueCapacityPrincipal
      else None)"

definition aiJobCountsTowardQueueAdmission :: "AIJob \<Rightarrow> bool" where
  "aiJobCountsTowardQueueAdmission job = oneOf (job_Status job) [AIJobStatusQueued, AIJobStatusDispatching]"

definition aiJobApplicationFairKey :: "AIJob \<Rightarrow> string" where
  "aiJobApplicationFairKey job = TrimSpace (job_ApplicationID job)"

definition aiJobPrincipalFairKey :: "AIJob \<Rightarrow> string" where
  "aiJobPrincipalFairKey job =
     string_join [CHR 0x00]
       [aiJobApplicationFairKey job, TrimSpace (job_CredentialSource job), TrimSpace (job_IntegrationID job),
        TrimSpace (job_PrincipalType job), TrimSpace (job_PrincipalID job), TrimSpace (job_ExternalSubjectReference job)]"

fun admission_counts_loop :: "AIJob \<Rightarrow> AIJob list \<Rightarrow> aiJobAdmissionCounts \<Rightarrow> aiJobAdmissionCounts" where
  "admission_counts_loop candidate [] counts = counts"
| "admission_counts_loop candidate (job # jobs) counts =
     (if \<not> aiJobCountsTowardQueueAdmission job then admission_counts_loop candidate jobs counts
      else
        (let c1 = counts\<lparr>cnt_Organization := cnt_Organization counts + 1\<rparr> in
         if TrimSpace (job_ApplicationID job) \<noteq> TrimSpace (job_ApplicationID candidate)
         then admission_counts_loop candidate jobs c1
         else
           (let c2 = c1\<lparr>cnt_Application := cnt_Application c1 + 1\<rparr> in
            if aiJobPrincipalFairKey job = aiJobPrincipalFairKey candidate
            then admission_counts_loop candidate jobs (c2\<lparr>cnt_Principal := cnt_Principal c2 + 1\<rparr>)
            else admission_counts_loop candidate jobs c2)))"

definition aiJobAdmissionCountsForJobs :: "AIJob gomap \<Rightarrow> AIJob \<Rightarrow> aiJobAdmissionCounts" where
  "aiJobAdmissionCountsForJobs jobs candidate =
     admission_counts_loop candidate (go_values jobs) \<lparr>cnt_Organization = 0, cnt_Application = 0, cnt_Principal = 0\<rparr>"

section \<open>Fair ranking\<close>

abbreviation (input) aiJobMaxPriority :: int where "aiJobMaxPriority \<equiv> 9"
abbreviation (input) aiJobPriorityAgingInterval :: duration where "aiJobPriorityAgingInterval \<equiv> time_Minute"

record aiJobDispatchActivity =
  act_Job :: AIJob
  act_DispatchedAt :: gotime

record aiJobFairLevelStats =
  fs_InFlight :: int
  fs_Selected :: int
  fs_LastDispatchAt :: gotime
  fs_HasDispatch :: bool

record aiJobFairCandidate =
  fc_Job :: AIJob
  fc_ApplicationKey :: string
  fc_PrincipalKey :: string
  fc_EffectivePriority :: int

type_synonym fair_stats = "aiJobFairLevelStats gomap"

definition fairStats :: "fair_stats \<Rightarrow> string \<Rightarrow> aiJobFairLevelStats" where
  "fairStats values key =
     (case go_get values key of
        Some s \<Rightarrow> s
      | None \<Rightarrow> \<lparr>fs_InFlight = 0, fs_Selected = 0, fs_LastDispatchAt = zero_time, fs_HasDispatch = False\<rparr>)"

definition updateAIJobLastDispatch :: "aiJobFairLevelStats \<Rightarrow> gotime \<Rightarrow> aiJobFairLevelStats" where
  "updateAIJobLastDispatch stats dispatchedAt =
     (if \<not> fs_HasDispatch stats \<or> dispatchedAt > fs_LastDispatchAt stats
      then stats\<lparr>fs_LastDispatchAt := dispatchedAt, fs_HasDispatch := True\<rparr> else stats)"

definition effectiveAIJobPriority :: "AIJob \<Rightarrow> gotime \<Rightarrow> int" where
  "effectiveAIJobPriority job now =
     (let p0 = job_Priority job;
          p1 = (if p0 < 0 then 0 else p0);
          p2 = (if p1 > aiJobMaxPriority then aiJobMaxPriority else p1);
          waitStartedAt = (if job_NextEligibleAt job = zero_time \<or> job_NextEligibleAt job < job_CreatedAt job
                           then job_CreatedAt job else job_NextEligibleAt job);
          p3 = (if now > waitStartedAt then p2 + time_sub now waitStartedAt div aiJobPriorityAgingInterval else p2)
      in if p3 > aiJobMaxPriority then aiJobMaxPriority else p3)"

definition newAIJobFairCandidate :: "AIJob \<Rightarrow> gotime \<Rightarrow> aiJobFairCandidate" where
  "newAIJobFairCandidate job now =
     \<lparr>fc_Job = job, fc_ApplicationKey = aiJobApplicationFairKey job, fc_PrincipalKey = aiJobPrincipalFairKey job,
      fc_EffectivePriority = effectiveAIJobPriority job now\<rparr>"

definition aiJobInFlightForFairness :: "string \<Rightarrow> bool" where
  "aiJobInFlightForFairness status =
     oneOf status [AIJobStatusDispatching, AIJobStatusRunning, AIJobStatusCanceling, AIJobStatusUnknown]"

definition aiJobReadyForClaim :: "AIJob \<Rightarrow> gotime \<Rightarrow> bool" where
  "aiJobReadyForClaim job now =
     (if job_Status job = AIJobStatusQueued
      then \<not> job_NextEligibleAt job > now \<and>
           (case job_QueueLeaseUntil job of None \<Rightarrow> True | Some t \<Rightarrow> \<not> t > now)
      else job_Status job = AIJobStatusDispatching \<and>
           (case job_QueueLeaseUntil job of None \<Rightarrow> False | Some t \<Rightarrow> \<not> t > now))"

definition compareAIJobFairLevel ::
  "aiJobFairLevelStats \<Rightarrow> aiJobFairLevelStats \<Rightarrow> string \<Rightarrow> string \<Rightarrow> int" where
  "compareAIJobFairLevel left right leftKey rightKey =
     (let leftLoad = fs_InFlight left + fs_Selected left; rightLoad = fs_InFlight right + fs_Selected right in
      if leftLoad < rightLoad then - 1
      else if leftLoad > rightLoad then 1
      else if fs_HasDispatch left \<noteq> fs_HasDispatch right then (if \<not> fs_HasDispatch left then - 1 else 1)
      else if fs_HasDispatch left \<and> fs_LastDispatchAt left \<noteq> fs_LastDispatchAt right
      then (if fs_LastDispatchAt left < fs_LastDispatchAt right then - 1 else 1)
      else string_compare leftKey rightKey)"

definition aiJobFairCandidateLess ::
  "fair_stats \<Rightarrow> fair_stats \<Rightarrow> aiJobFairCandidate \<Rightarrow> aiJobFairCandidate \<Rightarrow> bool" where
  "aiJobFairCandidateLess applicationStats principalStats left right =
     (let leftReclaim = (job_Status (fc_Job left) = AIJobStatusDispatching);
          rightReclaim = (job_Status (fc_Job right) = AIJobStatusDispatching);
          applicationOrder = compareAIJobFairLevel (fairStats applicationStats (fc_ApplicationKey left))
            (fairStats applicationStats (fc_ApplicationKey right)) (fc_ApplicationKey left) (fc_ApplicationKey right);
          principalOrder = compareAIJobFairLevel (fairStats principalStats (fc_PrincipalKey left))
            (fairStats principalStats (fc_PrincipalKey right)) (fc_PrincipalKey left) (fc_PrincipalKey right)
      in if leftReclaim \<noteq> rightReclaim then leftReclaim
         else if applicationOrder \<noteq> 0 then applicationOrder < 0
         else if principalOrder \<noteq> 0 then principalOrder < 0
         else if fc_EffectivePriority left \<noteq> fc_EffectivePriority right
         then fc_EffectivePriority left > fc_EffectivePriority right
         else if job_NextEligibleAt (fc_Job left) \<noteq> job_NextEligibleAt (fc_Job right)
         then job_NextEligibleAt (fc_Job left) < job_NextEligibleAt (fc_Job right)
         else if job_CreatedAt (fc_Job left) \<noteq> job_CreatedAt (fc_Job right)
         then job_CreatedAt (fc_Job left) < job_CreatedAt (fc_Job right)
         else job_ID (fc_Job left) < job_ID (fc_Job right))"

text \<open>The scan for the best candidate: the index of the best so far, from a given index on.\<close>

fun best_from :: "('a \<Rightarrow> 'a \<Rightarrow> bool) \<Rightarrow> 'a list \<Rightarrow> nat \<Rightarrow> nat \<Rightarrow> nat \<Rightarrow> nat" where
  "best_from lt xs best index 0 = best"
| "best_from lt xs best index (Suc n) =
     best_from lt xs (if lt (xs ! index) (xs ! best) then index else best) (index + 1) n"

definition select_stats :: "fair_stats \<Rightarrow> string \<Rightarrow> fair_stats" where
  "select_stats m key = go_set key ((fairStats m key)\<lparr>fs_Selected := fs_Selected (fairStats m key) + 1\<rparr>) m"

definition swap_remove :: "'a list \<Rightarrow> nat \<Rightarrow> 'a list" where
  "swap_remove xs i = butlast (xs[i := last xs])"

function rank_loop ::
  "int \<Rightarrow> aiJobFairCandidate list \<Rightarrow> fair_stats \<Rightarrow> fair_stats \<Rightarrow> AIJob list \<Rightarrow> AIJob list" where
  "rank_loop limit remaining applicationStats principalStats out =
     (if remaining \<noteq> [] \<and> int (length out) < limit
      then
        (let best = best_from (aiJobFairCandidateLess applicationStats principalStats) remaining 0 1 (length remaining - 1);
             selected = remaining ! best
         in rank_loop limit (swap_remove remaining best)
              (select_stats applicationStats (fc_ApplicationKey selected))
              (select_stats principalStats (fc_PrincipalKey selected)) (out @ [fc_Job selected]))
      else out)"
  by pat_completeness auto
termination
  by (relation "measure (\<lambda>(limit, remaining, a, p, out). length remaining)") (auto simp: swap_remove_def)

declare rank_loop.simps [simp del]

definition in_flight_stats :: "(AIJob \<Rightarrow> string) \<Rightarrow> AIJob list \<Rightarrow> fair_stats \<Rightarrow> fair_stats" where
  "in_flight_stats key jobs m =
     foldl (\<lambda>m job. if \<not> aiJobInFlightForFairness (job_Status job) then m
                    else go_set (key job) ((fairStats m (key job))\<lparr>fs_InFlight := fs_InFlight (fairStats m (key job)) + 1\<rparr>) m)
       m jobs"

definition dispatch_stats :: "(AIJob \<Rightarrow> string) \<Rightarrow> aiJobDispatchActivity list \<Rightarrow> fair_stats \<Rightarrow> fair_stats" where
  "dispatch_stats key activities m =
     foldl (\<lambda>m activity. if act_DispatchedAt activity = zero_time then m
                         else go_set (key (act_Job activity))
                                (updateAIJobLastDispatch (fairStats m (key (act_Job activity))) (act_DispatchedAt activity)) m)
       m activities"

definition rankAIJobFairCandidates ::
  "AIJob list \<Rightarrow> AIJob list \<Rightarrow> aiJobDispatchActivity list \<Rightarrow> gotime \<Rightarrow> int \<Rightarrow> AIJob list" where
  "rankAIJobFairCandidates candidates jobs activities now limit =
     (if limit \<le> 0 \<or> candidates = [] then []
      else rank_loop limit (map (\<lambda>job. newAIJobFairCandidate job now) candidates)
             (dispatch_stats aiJobApplicationFairKey activities (in_flight_stats aiJobApplicationFairKey jobs []))
             (dispatch_stats aiJobPrincipalFairKey activities (in_flight_stats aiJobPrincipalFairKey jobs [])) [])"

section \<open>Admission is exact\<close>

definition counts_org :: "AIJob list \<Rightarrow> int" where
  "counts_org jobs = int (length (filter aiJobCountsTowardQueueAdmission jobs))"

definition counts_app :: "AIJob \<Rightarrow> AIJob list \<Rightarrow> int" where
  "counts_app candidate jobs =
     int (length (filter (\<lambda>j. aiJobCountsTowardQueueAdmission j \<and> aiJobApplicationFairKey j = aiJobApplicationFairKey candidate) jobs))"

definition counts_principal :: "AIJob \<Rightarrow> AIJob list \<Rightarrow> int" where
  "counts_principal candidate jobs =
     int (length (filter (\<lambda>j. aiJobCountsTowardQueueAdmission j \<and> aiJobApplicationFairKey j = aiJobApplicationFairKey candidate \<and>
        aiJobPrincipalFairKey j = aiJobPrincipalFairKey candidate) jobs))"

lemma admission_counts_loop_eq:
  "admission_counts_loop c jobs k =
     \<lparr>cnt_Organization = cnt_Organization k + counts_org jobs, cnt_Application = cnt_Application k + counts_app c jobs,
      cnt_Principal = cnt_Principal k + counts_principal c jobs\<rparr>"
  by (induction c jobs k rule: admission_counts_loop.induct)
    (auto simp: Let_def counts_org_def counts_app_def counts_principal_def aiJobApplicationFairKey_def)

lemma admission_counts_eq:
  "aiJobAdmissionCountsForJobs jobs c =
     \<lparr>cnt_Organization = counts_org (go_values jobs), cnt_Application = counts_app c (go_values jobs),
      cnt_Principal = counts_principal c (go_values jobs)\<rparr>"
  by (simp add: aiJobAdmissionCountsForJobs_def admission_counts_loop_eq)

text \<open>
  C31: admission keeps the queue limits. A job that passes the check and is then stored as a new
  entry leaves every positive limit satisfied: of the organization, of its application and of its
  principal, counted over all queued and dispatching jobs.
\<close>

theorem admission_keeps_limits:
  assumes "enforceAIJobAdmissionLimits limits (aiJobAdmissionCountsForJobs jobs c) = None"
    and "go_get jobs (job_ID c) = None"
  shows "(lim_Organization limits > 0 \<longrightarrow> counts_org (go_values (go_set (job_ID c) c jobs)) \<le> lim_Organization limits) \<and>
    (lim_Application limits > 0 \<longrightarrow> counts_app c (go_values (go_set (job_ID c) c jobs)) \<le> lim_Application limits) \<and>
    (lim_Principal limits > 0 \<longrightarrow> counts_principal c (go_values (go_set (job_ID c) c jobs)) \<le> lim_Principal limits)"
proof -
  have "go_values (go_set k c m) = go_values m @ [c]" if "go_get m k = None" for k and m :: "AIJob gomap"
    using that by (induction m) auto
  then show ?thesis
    using assms by (auto simp: admission_counts_eq enforceAIJobAdmissionLimits_def counts_org_def counts_app_def
        counts_principal_def split: if_splits)
qed

section \<open>The order of candidates\<close>

definition level_rank :: "aiJobFairLevelStats \<Rightarrow> string \<Rightarrow> int \<times> bool \<times> int \<times> string" where
  "level_rank s key = (fs_InFlight s + fs_Selected s, fs_HasDispatch s,
     if fs_HasDispatch s then fs_LastDispatchAt s else 0, key)"

lemma compare_level:
  "compareAIJobFairLevel l r lk rk < 0 \<longleftrightarrow> level_rank l lk < level_rank r rk"
  "compareAIJobFairLevel l r lk rk = 0 \<longleftrightarrow> level_rank l lk = level_rank r rk"
  by (auto simp: compareAIJobFairLevel_def level_rank_def Let_def string_compare_def less_prod_def)

definition fair_rank where
  "fair_rank as ps c =
     (job_Status (fc_Job c) \<noteq> AIJobStatusDispatching,
      level_rank (fairStats as (fc_ApplicationKey c)) (fc_ApplicationKey c),
      level_rank (fairStats ps (fc_PrincipalKey c)) (fc_PrincipalKey c),
      - fc_EffectivePriority c, job_NextEligibleAt (fc_Job c), job_CreatedAt (fc_Job c), job_ID (fc_Job c))"

lemma lex_step: "(a, b) < (c, d) \<longleftrightarrow> (if a \<noteq> c then a < c else b < d)" for a c :: "'a :: linorder" and b d :: "'b :: linorder"
  by (auto simp: less_prod_def)

lemma fair_less_rank: "aiJobFairCandidateLess as ps l r \<longleftrightarrow> fair_rank as ps l < fair_rank as ps r"
  unfolding aiJobFairCandidateLess_def fair_rank_def Let_def lex_step compare_level
  by (intro if_cong) auto

interpretation fair_less: strict_weak_order "aiJobFairCandidateLess as ps" for as ps
  by unfold_locales (auto simp: fair_less_rank)

section \<open>The ranking loop\<close>

context strict_weak_order
begin

lemma best_from_min:
  assumes "best < index" "index + n = length xs" "\<forall>j < index. \<not> lt (xs ! j) (xs ! best)"
  shows "best_from lt xs best index n < length xs \<and>
    (\<forall>j < length xs. \<not> lt (xs ! j) (xs ! best_from lt xs best index n))"
  using assms
proof (induction n arbitrary: best index)
  case 0
  then show ?case by simp
next
  case (Suc n)
  let ?b = "if lt (xs ! index) (xs ! best) then index else best"
  have "\<not> lt (xs ! j) (xs ! ?b)" if "j < index + 1" for j
  proof (cases "j = index")
    case True
    then show ?thesis using irrefl by simp
  next
    case False
    then have "\<not> lt (xs ! j) (xs ! best)" using that Suc.prems(3) by simp
    then show ?thesis using trans by (metis (full_types))
  qed
  with Suc.prems Suc.IH [of ?b "index + 1"] show ?case by auto
qed

lemma best_from_start:
  "xs \<noteq> [] \<Longrightarrow> best_from lt xs 0 1 (length xs - 1) < length xs \<and>
    (\<forall>x \<in> set xs. \<not> lt x (xs ! best_from lt xs 0 1 (length xs - 1)))"
  using best_from_min [of 0 1 "length xs - 1" xs] irrefl by (fastforce simp: in_set_conv_nth)

end

lemma swap_remove_mset:
  assumes "i < length xs"
  shows "mset xs = add_mset (xs ! i) (mset (swap_remove xs i))"
proof -
  have ne: "xs \<noteq> []" using assms by auto
  let ?y = "xs[i := last xs]"
  have l: "last ?y = last xs"
    using assms ne by (cases "i = length xs - 1") (auto simp: last_conv_nth)
  have y: "?y \<noteq> []" using ne by simp
  have "mset ?y = add_mset (last xs) (mset xs - {#xs ! i#})" using assms by (simp add: mset_update)
  moreover have "mset ?y = add_mset (last xs) (mset (swap_remove xs i))"
    using append_butlast_last_id [OF y] l unfolding swap_remove_def
    by (metis add_mset_add_single mset.simps(1) mset.simps(2) mset_append)
  ultimately have "mset (swap_remove xs i) = mset xs - {#xs ! i#}" by simp
  with assms show ?thesis by (simp add: mset_update)
qed

lemma swap_remove_set: "i < length xs \<Longrightarrow> set xs = insert (xs ! i) (set (swap_remove xs i))"
  using swap_remove_mset by (metis set_mset_add_mset_insert set_mset_mset)

lemma fairStats_select:
  "fairStats (select_stats m key) k =
     (if k = key then (fairStats m k)\<lparr>fs_Selected := fs_Selected (fairStats m k) + 1\<rparr> else fairStats m k)"
  by (simp add: select_stats_def fairStats_def update_conv')

definition selected_of :: "string \<Rightarrow> AIJob list \<Rightarrow> int" where
  "selected_of k out = int (length (filter (\<lambda>j. aiJobApplicationFairKey j = k) out))"

lemma selected_of_snoc: "selected_of k (out @ [j]) = selected_of k out + (if aiJobApplicationFairKey j = k then 1 else 0)"
  by (simp add: selected_of_def)

lemma min_Suc_step: "s = min a b \<Longrightarrow> A = Suc a \<Longrightarrow> B = Suc b \<Longrightarrow> Suc s = min A B"
  by simp

lemma fairStats_select_InFlight: "fs_InFlight (fairStats (select_stats m key) k) = fs_InFlight (fairStats m k)"
  by (simp add: fairStats_select)

lemma rank_loop_extends:
  "\<exists>sel. rank_loop limit remaining as ps out = out @ sel \<and> mset sel \<subseteq># mset (map fc_Job remaining) \<and>
     length sel = min (nat (limit - int (length out))) (length remaining)"
proof (induction limit remaining as ps out rule: rank_loop.induct)
  case (1 limit remaining as ps out)
  show ?case
  proof (cases "remaining \<noteq> [] \<and> int (length out) < limit")
    case False
    then show ?thesis by (subst rank_loop.simps) auto
  next
    case True
    let ?b = "best_from (aiJobFairCandidateLess as ps) remaining 0 1 (length remaining - 1)"
    let ?c = "remaining ! ?b"
    have b: "?b < length remaining" using fair_less.best_from_start True by blast
    note m = swap_remove_mset [OF b]
    have len: "length remaining = Suc (length (swap_remove remaining ?b))"
      by (metis m size_add_mset size_mset)
    have eq: "rank_loop limit remaining as ps out =
      rank_loop limit (swap_remove remaining ?b) (select_stats as (fc_ApplicationKey ?c))
        (select_stats ps (fc_PrincipalKey ?c)) (out @ [fc_Job ?c])"
      using True by (subst rank_loop.simps) (simp add: Let_def)
    obtain sel where sel: "rank_loop limit remaining as ps out = (out @ [fc_Job ?c]) @ sel"
      "mset sel \<subseteq># mset (map fc_Job (swap_remove remaining ?b))"
      "length sel = min (nat (limit - int (length (out @ [fc_Job ?c])))) (length (swap_remove remaining ?b))"
      using "1.IH" [OF True refl refl] unfolding eq by blast
    have "mset (fc_Job ?c # sel) \<subseteq># mset (map fc_Job remaining)"
      using sel(2) by (simp add: m)
    moreover have "length (fc_Job ?c # sel) = min (nat (limit - int (length out))) (length remaining)"
    proof -
      have "nat (limit - int (length out)) = Suc (nat (limit - int (length (out @ [fc_Job ?c]))))"
        using True by (simp add: nat_eq_iff Suc_nat_eq_nat_zadd1)
      from min_Suc_step [OF sel(3) this len] show ?thesis by simp
    qed
    ultimately show ?thesis using sel(1) by (intro exI [of _ "fc_Job ?c # sel"]) simp
  qed
qed

definition fair_inv where
  "fair_inv as out remaining \<longleftrightarrow>
     (\<forall>k. fs_Selected (fairStats as k) = selected_of k out) \<and>
     (\<forall>c \<in> set remaining. job_Status (fc_Job c) \<noteq> AIJobStatusDispatching \<and>
        fc_ApplicationKey c = aiJobApplicationFairKey (fc_Job c)) \<and>
     (\<forall>k. \<forall>c \<in> set remaining. 0 < selected_of k out \<longrightarrow>
        fs_InFlight (fairStats as k) + selected_of k out \<le>
        fs_InFlight (fairStats as (fc_ApplicationKey c)) + selected_of (fc_ApplicationKey c) out + 1)"

lemma fair_inv_bound:
  "fair_inv as out remaining \<Longrightarrow> c \<in> set remaining \<Longrightarrow> 0 < selected_of k out \<Longrightarrow>
   fs_InFlight (fairStats as k) + selected_of k out \<le>
   fs_InFlight (fairStats as (fc_ApplicationKey c)) + selected_of (fc_ApplicationKey c) out + 1"
  unfolding fair_inv_def by blast

lemma fair_inv_step:
  assumes inv: "fair_inv as out remaining" and ne: "remaining \<noteq> []"
    and b: "b = best_from (aiJobFairCandidateLess as ps) remaining 0 1 (length remaining - 1)"
  shows "fair_inv (select_stats as (fc_ApplicationKey (remaining ! b))) (out @ [fc_Job (remaining ! b)]) (swap_remove remaining b)"
proof -
  let ?c = "remaining ! b"
  have bl: "b < length remaining" and min: "\<forall>x \<in> set remaining. \<not> aiJobFairCandidateLess as ps x ?c"
    using fair_less.best_from_start [OF ne] b by blast+
  have sub: "set (swap_remove remaining b) \<subseteq> set remaining"
    using swap_remove_set [OF bl] by blast
  have c: "fc_ApplicationKey ?c = aiJobApplicationFairKey (fc_Job ?c)" "job_Status (fc_Job ?c) \<noteq> AIJobStatusDispatching"
    using inv bl by (simp_all add: fair_inv_def)
  have least: "fs_InFlight (fairStats as (fc_ApplicationKey ?c)) + selected_of (fc_ApplicationKey ?c) out \<le>
      fs_InFlight (fairStats as (fc_ApplicationKey x)) + selected_of (fc_ApplicationKey x) out"
    if "x \<in> set remaining" for x
  proof -
    have "\<not> fair_rank as ps x < fair_rank as ps ?c" using min that by (simp add: fair_less_rank)
    then have "\<not> level_rank (fairStats as (fc_ApplicationKey x)) (fc_ApplicationKey x) <
        level_rank (fairStats as (fc_ApplicationKey ?c)) (fc_ApplicationKey ?c)"
      using inv that c by (simp add: fair_rank_def lex_step fair_inv_def split: if_splits)
    then show ?thesis
      using inv by (simp add: level_rank_def lex_step fair_inv_def split: if_splits)
  qed
  let ?as = "select_stats as (fc_ApplicationKey ?c)" and ?out = "out @ [fc_Job ?c]"
  have mono: "selected_of k out \<le> selected_of k ?out" for k by (simp add: selected_of_snoc)
  have "fs_InFlight (fairStats as k) + selected_of k ?out \<le>
      fs_InFlight (fairStats as (fc_ApplicationKey x)) + selected_of (fc_ApplicationKey x) ?out + 1"
    if x: "x \<in> set (swap_remove remaining b)" and k: "0 < selected_of k ?out" for k x
  proof (cases "k = fc_ApplicationKey ?c")
    case True
    then have "selected_of k ?out = selected_of k out + 1" using c by (simp add: selected_of_snoc)
    moreover have "x \<in> set remaining" using sub x by blast
    ultimately show ?thesis using least [of x] mono [of "fc_ApplicationKey x"] unfolding True by linarith
  next
    case False
    then have eq: "selected_of k ?out = selected_of k out" using c by (simp add: selected_of_snoc)
    have "x \<in> set remaining" using sub x by blast
    then have "fs_InFlight (fairStats as k) + selected_of k out \<le>
        fs_InFlight (fairStats as (fc_ApplicationKey x)) + selected_of (fc_ApplicationKey x) out + 1"
      using fair_inv_bound [OF inv] k unfolding eq by blast
    then show ?thesis unfolding eq using mono [of "fc_ApplicationKey x"] by linarith
  qed
  moreover have "fs_Selected (fairStats ?as k) = selected_of k ?out" for k
    using inv c by (simp add: fairStats_select selected_of_snoc fair_inv_def)
  ultimately show ?thesis
    using inv sub unfolding fair_inv_def fairStats_select_InFlight by blast
qed

lemma rank_loop_fair:
  "fair_inv as out remaining \<Longrightarrow> c \<in> set remaining \<Longrightarrow> fc_Job c \<notin> set (rank_loop limit remaining as ps out) \<Longrightarrow>
   0 < selected_of k (rank_loop limit remaining as ps out) \<Longrightarrow>
   fs_InFlight (fairStats as k) + selected_of k (rank_loop limit remaining as ps out) \<le>
   fs_InFlight (fairStats as (fc_ApplicationKey c)) + selected_of (fc_ApplicationKey c) (rank_loop limit remaining as ps out) + 1"
proof (induction limit remaining as ps out rule: rank_loop.induct)
  case (1 limit remaining as ps out)
  show ?case
  proof (cases "remaining \<noteq> [] \<and> int (length out) < limit")
    case False
    then have "rank_loop limit remaining as ps out = out" by (subst rank_loop.simps) auto
    with "1.prems" show ?thesis using fair_inv_bound [OF "1.prems"(1)] by simp
  next
    case True
    let ?b = "best_from (aiJobFairCandidateLess as ps) remaining 0 1 (length remaining - 1)"
    let ?s = "remaining ! ?b"
    have eq: "rank_loop limit remaining as ps out =
      rank_loop limit (swap_remove remaining ?b) (select_stats as (fc_ApplicationKey ?s))
        (select_stats ps (fc_PrincipalKey ?s)) (out @ [fc_Job ?s])"
      using True by (subst rank_loop.simps) (simp add: Let_def)
    have b: "?b < length remaining" using fair_less.best_from_start True by blast
    have "fc_Job ?s \<in> set (rank_loop limit remaining as ps out)"
    proof -
      obtain sel where "rank_loop limit remaining as ps out = (out @ [fc_Job ?s]) @ sel"
        using rank_loop_extends unfolding eq by blast
      then show ?thesis by simp
    qed
    then have "c \<noteq> ?s" using "1.prems"(3) by auto
    moreover have "set remaining = insert ?s (set (swap_remove remaining ?b))"
      by (rule swap_remove_set [OF b])
    ultimately have c: "c \<in> set (swap_remove remaining ?b)" using "1.prems"(2) by auto
    from "1.IH" [OF True refl refl fair_inv_step [OF "1.prems"(1) _ refl] c] True "1.prems"(3,4)
    show ?thesis unfolding eq fairStats_select_InFlight by blast
  qed
qed

lemma rank_loop_reclaim:
  assumes "rank_loop limit remaining as ps out = out @ sel"
  shows "sorted_wrt (\<lambda>a b. job_Status b = AIJobStatusDispatching \<longrightarrow> job_Status a = AIJobStatusDispatching) sel"
  using assms
proof (induction limit remaining as ps out arbitrary: sel rule: rank_loop.induct)
  case (1 limit remaining as ps out)
  show ?case
  proof (cases "remaining \<noteq> [] \<and> int (length out) < limit")
    case False
    then have "rank_loop limit remaining as ps out = out" by (subst rank_loop.simps) auto
    with "1.prems" show ?thesis by simp
  next
    case True
    let ?b = "best_from (aiJobFairCandidateLess as ps) remaining 0 1 (length remaining - 1)"
    let ?c = "remaining ! ?b"
    have b: "?b < length remaining" and min: "\<forall>x \<in> set remaining. \<not> aiJobFairCandidateLess as ps x ?c"
      using fair_less.best_from_start True by blast+
    have eq: "rank_loop limit remaining as ps out =
      rank_loop limit (swap_remove remaining ?b) (select_stats as (fc_ApplicationKey ?c))
        (select_stats ps (fc_PrincipalKey ?c)) (out @ [fc_Job ?c])"
      using True by (subst rank_loop.simps) (simp add: Let_def)
    obtain sel' where sel': "rank_loop limit remaining as ps out = (out @ [fc_Job ?c]) @ sel'"
      "mset sel' \<subseteq># mset (map fc_Job (swap_remove remaining ?b))"
      using rank_loop_extends unfolding eq by blast
    have "set sel' \<subseteq> fc_Job ` set remaining"
      using set_mset_mono [OF sel'(2)] swap_remove_set [OF b] by auto
    moreover have "job_Status (fc_Job ?c) = AIJobStatusDispatching"
      if "x \<in> set remaining" "job_Status (fc_Job x) = AIJobStatusDispatching" for x
      using min that by (auto simp: fair_less_rank fair_rank_def lex_step split: if_splits)
    ultimately have "\<forall>j \<in> set sel'. job_Status j = AIJobStatusDispatching \<longrightarrow> job_Status (fc_Job ?c) = AIJobStatusDispatching"
      by blast
    moreover have "sel = fc_Job ?c # sel'" using "1.prems" sel'(1) by simp
    ultimately show ?thesis
      using "1.IH" [OF True refl refl, of sel'] sel'(1) unfolding eq by simp
  qed
qed

lemma fairStats_in_flight:
  "fs_InFlight (fairStats (in_flight_stats key jobs m) k) =
     fs_InFlight (fairStats m k) + int (length (filter (\<lambda>j. aiJobInFlightForFairness (job_Status j) \<and> key j = k) jobs)) \<and>
   fs_Selected (fairStats (in_flight_stats key jobs m) k) = fs_Selected (fairStats m k)"
proof (induction jobs arbitrary: m)
  case Nil
  then show ?case by (simp add: in_flight_stats_def)
next
  case (Cons j jobs)
  let ?m = "if \<not> aiJobInFlightForFairness (job_Status j) then m
    else go_set (key j) ((fairStats m (key j))\<lparr>fs_InFlight := fs_InFlight (fairStats m (key j)) + 1\<rparr>) m"
  have "in_flight_stats key (j # jobs) m = in_flight_stats key jobs ?m" by (simp add: in_flight_stats_def)
  with Cons.IH [of ?m] show ?case by (auto simp: fairStats_def update_conv')
qed

lemma fairStats_dispatch:
  "fs_InFlight (fairStats (dispatch_stats key acts m) k) = fs_InFlight (fairStats m k) \<and>
   fs_Selected (fairStats (dispatch_stats key acts m) k) = fs_Selected (fairStats m k)"
proof (induction acts arbitrary: m)
  case Nil
  then show ?case by (simp add: dispatch_stats_def)
next
  case (Cons a acts)
  let ?m = "if act_DispatchedAt a = zero_time then m
    else go_set (key (act_Job a)) (updateAIJobLastDispatch (fairStats m (key (act_Job a))) (act_DispatchedAt a)) m"
  have "dispatch_stats key (a # acts) m = dispatch_stats key acts ?m" by (simp add: dispatch_stats_def)
  with Cons.IH [of ?m] show ?case
    by (auto simp: fairStats_def update_conv' updateAIJobLastDispatch_def split: option.splits)
qed

definition in_flight_of :: "string \<Rightarrow> AIJob list \<Rightarrow> int" where
  "in_flight_of k jobs =
     int (length (filter (\<lambda>j. aiJobInFlightForFairness (job_Status j) \<and> aiJobApplicationFairKey j = k) jobs))"

text \<open>
  The ranking selects as many candidates as the limit allows, each at most as often as it was
  offered, and jobs whose dispatch lease has to be reclaimed come before every queued job.
\<close>

theorem rank_selects:
  "length (rankAIJobFairCandidates candidates jobs activities now limit) = min (nat limit) (length candidates) \<and>
   mset (rankAIJobFairCandidates candidates jobs activities now limit) \<subseteq># mset candidates \<and>
   sorted_wrt (\<lambda>a b. job_Status b = AIJobStatusDispatching \<longrightarrow> job_Status a = AIJobStatusDispatching)
     (rankAIJobFairCandidates candidates jobs activities now limit)"
proof (cases "limit \<le> 0 \<or> candidates = []")
  case True
  then show ?thesis by (auto simp: rankAIJobFairCandidates_def)
next
  case False
  let ?r = "rankAIJobFairCandidates candidates jobs activities now limit"
  let ?rem = "map (\<lambda>job. newAIJobFairCandidate job now) candidates"
  obtain as ps where r: "?r = rank_loop limit ?rem as ps []"
    using False by (auto simp: rankAIJobFairCandidates_def)
  moreover have "map fc_Job ?rem = candidates" by (simp add: newAIJobFairCandidate_def comp_def)
  ultimately show ?thesis
    using rank_loop_extends [of limit ?rem as ps "[]"] rank_loop_reclaim [of limit ?rem as ps "[]" ?r] by auto
qed

definition example_job :: "string \<Rightarrow> string \<Rightarrow> AIJob" where
  "example_job i application = \<lparr>job_ID = i, job_OperationID = i, job_ApplicationID = application, job_CredentialID = [],
     job_CredentialSource = [], job_IntegrationID = [], job_PrincipalType = [], job_PrincipalID = ''p'',
     job_ExternalSubjectReference = [], job_RequestFingerprint = [], job_IdempotencyKey = [], job_Protocol = [],
     job_Operation = [], job_Modality = [], job_Model = [], job_ArtifactPolicy = [], job_ArtifactSinkID = [],
     job_RequestPayload = [], job_RequestPayloadCiphertext = [], job_Status = AIJobStatusQueued, job_StatusVersion = 1,
     job_Priority = 0, job_NextEligibleAt = 1, job_QueueLeaseUntil = None, job_QueueLeaseToken = [], job_QueueWorkerID = [],
     job_FenceToken = 0, job_ErrorType = [], job_CreatedAt = 1, job_UpdatedAt = 1, job_CompletedAt = None, job_ExpiresAt = 100\<rparr>"

theorem rank_selects_witness:
  "length (rankAIJobFairCandidates [example_job ''a'' ''x'', example_job ''b'' ''x''] [] [] 5 1) = 1"
  using rank_selects [of "[example_job ''a'' ''x'', example_job ''b'' ''x'']" "[]" "[]" 5 1] by simp


text \<open>The priority in closed form: the clamped priority plus the minutes waited, at most 9.\<close>

definition wait_started :: "AIJob \<Rightarrow> gotime" where
  "wait_started job = (if job_NextEligibleAt job = zero_time \<or> job_NextEligibleAt job < job_CreatedAt job
     then job_CreatedAt job else job_NextEligibleAt job)"

definition minutes_waited :: "AIJob \<Rightarrow> gotime \<Rightarrow> int" where
  "minutes_waited job now =
     (if now > wait_started job then time_sub now (wait_started job) div aiJobPriorityAgingInterval else 0)"

lemma effective_priority_eq:
  "effectiveAIJobPriority job now = min aiJobMaxPriority (max 0 (min aiJobMaxPriority (job_Priority job)) + minutes_waited job now)"
  unfolding effectiveAIJobPriority_def Let_def minutes_waited_def wait_started_def [symmetric]
  by (simp add: min_def max_def)

lemma minutes_waited_nonneg: "0 \<le> minutes_waited job now"
  by (auto simp: minutes_waited_def time_sub_def pos_imp_zdiv_nonneg_iff)

lemma minutes_waited_mono:
  assumes "now \<le> later"
  shows "minutes_waited job now \<le> minutes_waited job later"
proof (cases "now > wait_started job")
  case True
  have "time_sub now t \<le> time_sub later t" for t using assms by (auto simp: time_sub_def)
  then show ?thesis using True assms by (auto simp: minutes_waited_def intro!: zdiv_mono1)
next
  case False
  then have "minutes_waited job now = 0" by (simp add: minutes_waited_def)
  then show ?thesis using minutes_waited_nonneg by simp
qed

lemma minutes_waited_nine:
  assumes "wait_started job + 9 * aiJobPriorityAgingInterval \<le> now"
  shows "9 \<le> minutes_waited job now"
proof -
  have "9 * aiJobPriorityAgingInterval \<le> time_sub now (wait_started job)" using assms by (simp add: time_sub_def)
  then have "9 * aiJobPriorityAgingInterval div aiJobPriorityAgingInterval \<le> time_sub now (wait_started job) div aiJobPriorityAgingInterval"
    by (intro zdiv_mono1) simp_all
  then show ?thesis using assms by (simp add: minutes_waited_def)
qed

text \<open>
  Priorities age. The effective priority stays between 0 and 9, never falls as time goes by,
  and a job that has been eligible for nine minutes has the highest priority.
\<close>

theorem effective_priority_ages:
  assumes "now \<le> later"
  shows "0 \<le> effectiveAIJobPriority job now \<and> effectiveAIJobPriority job now \<le> effectiveAIJobPriority job later \<and>
    effectiveAIJobPriority job later \<le> aiJobMaxPriority \<and>
    (wait_started job + 9 * aiJobPriorityAgingInterval \<le> later \<longrightarrow> effectiveAIJobPriority job later = aiJobMaxPriority)"
  using minutes_waited_mono [OF assms, of job] minutes_waited_nonneg [of job now] minutes_waited_nine [of job later]
  by (auto simp: effective_priority_eq)

theorem effective_priority_ages_witness:
  "effectiveAIJobPriority (example_job ''a'' ''x'') 600000000001 = aiJobMaxPriority"
proof -
  have "wait_started (example_job ''a'' ''x'') = 1" by (simp add: wait_started_def example_job_def)
  then show ?thesis using effective_priority_ages [of 1 600000000001 "example_job ''a'' ''x''"] by simp
qed

text \<open>Two applications, three candidates: one of each is selected.\<close>

definition example_candidates :: "AIJob list" where
  "example_candidates = [example_job ''a'' ''x'', example_job ''b'' ''x'', example_job ''c'' ''y'']"

lemma example_ranking:
  "example_job ''c'' ''y'' \<in> set (rankAIJobFairCandidates example_candidates [] [] 5 2)"
  "example_job ''b'' ''x'' \<notin> set (rankAIJobFairCandidates example_candidates [] [] 5 2)"
  by code_simp+


theorem admission_keeps_limits_witness:
  "counts_org (go_values (go_set ''a'' (example_job ''a'' ''x'') [])) \<le> 1"
proof -
  let ?l = "\<lparr>lim_Organization = 1, lim_Application = 0, lim_Principal = 0\<rparr>"
  have "job_ID (example_job ''a'' ''x'') = ''a''" by (simp add: example_job_def)
  moreover have "enforceAIJobAdmissionLimits ?l (aiJobAdmissionCountsForJobs [] (example_job ''a'' ''x'')) = None"
    by (simp add: enforceAIJobAdmissionLimits_def aiJobAdmissionCountsForJobs_def)
  ultimately show ?thesis using admission_keeps_limits [of ?l "[]" "example_job ''a'' ''x''"] by simp
qed

end
