(* ===== verification/Memory_Repository.thy ===== *)
theory Memory_Repository
  imports Billing_Hold Transactional_Outbox AI_Job_Scheduling
begin

text \<open>
  The state of the in-memory repository (\<^verbatim>\<open>MemoryRepository\<close> of
  \<^verbatim>\<open>backend/internal/controlplane\<close>), as far as the modelled operations use it, and its operations on
  billing holds (\<^verbatim>\<open>billing_hold_repository.go\<close>, the service calls of \<^verbatim>\<open>billing_hold.go\<close>).

  Every operation holds the repository's mutex while it runs, so it is a function on the state.
  Amounts are added as the 64-bit integers they are in the source: sums go through \<open>wrap64\<close>.
\<close>

section \<open>State and errors\<close>

record MemoryRepository =
  aiOperations :: "AIOperation gomap"
  aiAttempts :: "AIAttempt gomap"
  aiJobs :: "AIJob gomap"
  aiJobEvents :: "AIJobEvent gomap"
  billingHolds :: "BillingHold gomap"
  billingHoldPricingVersions :: "BillingHoldPricingVersion gomap"
  pricingEvaluations :: "PricingEvaluation gomap"
  billingLedgerEntries :: "BillingLedgerEntry gomap"
  usageRecords :: "UsageRecord gomap"
  transactionalOutboxEvents :: outbox
  auditLogs :: "AuditLog gomap"
  artifacts :: "Artifact gomap"
  artifactEvents :: "ArtifactEvent gomap"

definition NewMemoryRepository :: MemoryRepository where
  "NewMemoryRepository = \<lparr>aiOperations = [], aiAttempts = [], aiJobs = [], aiJobEvents = [], billingHolds = [],
     billingHoldPricingVersions = [], pricingEvaluations = [], billingLedgerEntries = [], usageRecords = [],
     transactionalOutboxEvents = [], auditLogs = [], artifacts = [],
     artifactEvents = []\<rparr>"

datatype repo_error =
    RepoHold hold_error
  | RepoOutbox outbox_error
  | RepoAdmission admission_error
  | RepoOperationExists string
  | RepoOperationNotFound string
  | RepoHoldExists string
  | RepoHoldForOperationExists string
  | RepoEvaluationExists string
  | RepoInvalidHoldPricingVersion
  | RepoHoldPurposeExists
  | RepoAttemptNumberExists
  | RepoAttemptExists string
  | RepoAttemptNotFound string
  | ErrAIAttemptDispatchConflict
  | RepoAuditLogExists string
  | RepoUsageDimensionsInvalid
  | ErrUsageLedgerConflict
  | RepoUsageRecordExists string
  | RepoLedgerExists string
  | RepoCumulativeOutOfRange
  | RepoInvalidJobAdmission
  | RepoInvalidAdmissionLimits
  | RepoJobExists string
  | RepoJobEventExists string
  | RepoInvalidJobTransition string string
  | RepoLeaseNotReclaimable
  | RepoInvalidJobEvent
  | ErrAIJobNotCancelable

type_synonym 'a repo_result = "MemoryRepository \<times> (repo_error + 'a)"

section \<open>The monthly budget\<close>

definition in_period :: "gotime \<Rightarrow> gotime \<Rightarrow> gotime \<Rightarrow> bool" where
  "in_period periodStart periodEnd t \<longleftrightarrow> \<not> (t < periodStart \<or> \<not> t < periodEnd)"

definition operation_in_scope :: "MemoryRepository \<Rightarrow> string \<Rightarrow> BillingHold \<Rightarrow> bool" where
  "operation_in_scope r operationID hold =
     (case go_get (aiOperations r) operationID of
        Some operation \<Rightarrow> sameBillingCredentialScope (op_ApplicationID operation) (op_CredentialID operation) hold
      | None \<Rightarrow> False)"

definition ledger_counts :: "MemoryRepository \<Rightarrow> BillingHold \<Rightarrow> BillingLedgerEntry \<Rightarrow> bool" where
  "ledger_counts r hold entry \<longleftrightarrow>
     bl_Purpose entry = PricingPurposeUsageCost \<and> bl_Status entry = BillingLedgerStatusApplied \<and>
     in_period (hold_BudgetPeriodStart hold) (AddDate 0 1 0 (hold_BudgetPeriodStart hold)) (bl_CreatedAt entry) \<and>
     operation_in_scope r (bl_OperationID entry) hold \<and> bl_AmountMicros entry > 0"

definition usage_counts :: "MemoryRepository \<Rightarrow> BillingHold \<Rightarrow> UsageRecord \<Rightarrow> bool" where
  "usage_counts r hold record \<longleftrightarrow>
     in_period (hold_BudgetPeriodStart hold) (AddDate 0 1 0 (hold_BudgetPeriodStart hold)) (ur_CreatedAt record) \<and>
     operation_in_scope r (ur_OperationID record) hold"

definition hold_counts :: "BillingHold \<Rightarrow> BillingHold \<Rightarrow> bool" where
  "hold_counts hold current \<longleftrightarrow>
     billingHoldCountsAgainstBudget (hold_Status current) \<and>
     hold_BudgetPeriodStart current = hold_BudgetPeriodStart hold \<and>
     sameBillingCredentialScope (hold_ApplicationID current) (hold_CredentialID current) hold"

definition zero_totals :: UsageDimensionTotals where
  "zero_totals = \<lparr>ut_OutputImages = 0, ut_VideoMilliseconds = 0, ut_AudioMilliseconds = 0\<rparr>"

definition ledger_exposure :: "MemoryRepository \<Rightarrow> BillingHold \<Rightarrow> int" where
  "ledger_exposure r hold =
     foldl (\<lambda>exposure entry. if ledger_counts r hold entry then wrap64 (exposure + bl_AmountMicros entry) else exposure)
       0 (go_values (billingLedgerEntries r))"

definition budget_exposure :: "MemoryRepository \<Rightarrow> BillingHold \<Rightarrow> int" where
  "budget_exposure r hold =
     foldl (\<lambda>exposure current. if hold_counts hold current
         then wrap64 (exposure + nonNegativeInt64 (hold_ReservedAmountMicros current)) else exposure)
       (ledger_exposure r hold) (go_values (billingHolds r))"

definition settled_usage :: "MemoryRepository \<Rightarrow> BillingHold \<Rightarrow> UsageDimensionTotals" where
  "settled_usage r hold =
     foldl (\<lambda>total record. if usage_counts r hold record
         then addUsageDimensionTotals total (UsageDimensionsTotals (ur_UsageDimensions record)) else total)
       zero_totals (go_values (usageRecords r))"

definition active_usage :: "MemoryRepository \<Rightarrow> BillingHold \<Rightarrow> UsageDimensionTotals" where
  "active_usage r hold =
     foldl (\<lambda>total current. if hold_counts hold current
         then addUsageDimensionTotals total (UsageDimensionsTotals (hold_ReservedUsageDimensions current)) else total)
       zero_totals (go_values (billingHolds r))"

definition enforceMemoryBillingHoldBudget :: "MemoryRepository \<Rightarrow> BillingHoldAdmission \<Rightarrow> hold_error option" where
  "enforceMemoryBillingHoldBudget r admission =
     (if \<not> billingHoldAdmissionHasLimits admission then None
      else (let hold = adm_Hold admission in
            if adm_MonthlyBudgetMicros admission > 0 \<and>
               wrap64 (budget_exposure r hold + hold_ReservedAmountMicros hold) > adm_MonthlyBudgetMicros admission
            then Some ErrBillingHoldBudgetExceeded
            else enforceUsageDimensionLimits admission (addUsageDimensionTotals (settled_usage r hold) (active_usage r hold))))"

section \<open>Admitting a hold\<close>

definition hold_version_key :: "BillingHoldPricingVersion \<Rightarrow> string" where
  "hold_version_key version = hpv_HoldID version @ [CHR 0x0A] @ hpv_Purpose version"

fun check_evaluations :: "PricingEvaluation gomap \<Rightarrow> PricingEvaluation list \<Rightarrow> repo_error option" where
  "check_evaluations m [] = None"
| "check_evaluations m (evaluation # rest) =
     (if go_get m (pe_ID evaluation) \<noteq> None then Some (RepoEvaluationExists (pe_ID evaluation)) else check_evaluations m rest)"

fun check_versions :: "BillingHoldPricingVersion gomap \<Rightarrow> string \<Rightarrow> BillingHoldPricingVersion list \<Rightarrow> repo_error option" where
  "check_versions m holdID [] = None"
| "check_versions m holdID (version # rest) =
     (if hpv_HoldID version \<noteq> holdID \<or> hpv_PricingRuleVersionID version = [] \<or> hpv_EstimateEvaluationID version = []
      then Some RepoInvalidHoldPricingVersion
      else if go_get m (hold_version_key version) \<noteq> None then Some RepoHoldPurposeExists
      else check_versions m holdID rest)"

text \<open>The checks between the idempotency look-up and the writes, in the order of the source.\<close>

definition check_hold_insert :: "MemoryRepository \<Rightarrow> AIOperation \<Rightarrow> BillingHoldAdmission \<Rightarrow> repo_error option" where
  "check_hold_insert r operation admission =
     (if go_get (billingHolds r) (hold_ID (adm_Hold admission)) \<noteq> None then Some (RepoHoldExists (hold_ID (adm_Hold admission)))
      else if memoryBillingHoldForOperation (billingHolds r) (op_ID operation) \<noteq> None
      then Some (RepoHoldForOperationExists (op_ID operation))
      else (case check_evaluations (pricingEvaluations r) (adm_PricingEvaluations admission) of
              Some e \<Rightarrow> Some e
            | None \<Rightarrow>
                (case check_versions (billingHoldPricingVersions r) (hold_ID (adm_Hold admission)) (adm_PricingVersions admission) of
                   Some e \<Rightarrow> Some e
                 | None \<Rightarrow> map_option RepoHold (enforceMemoryBillingHoldBudget r admission))))"

definition insert_hold :: "AIOperation \<Rightarrow> BillingHoldAdmission \<Rightarrow> MemoryRepository \<Rightarrow> MemoryRepository" where
  "insert_hold operation admission r =
     r\<lparr>aiOperations := go_set (op_ID operation) operation (aiOperations r),
       billingHolds := go_set (hold_ID (adm_Hold admission)) (adm_Hold admission) (billingHolds r),
       pricingEvaluations := foldl (\<lambda>m e. go_set (pe_ID e) e m) (pricingEvaluations r) (adm_PricingEvaluations admission),
       billingHoldPricingVersions :=
         foldl (\<lambda>m v. go_set (hold_version_key v) v m) (billingHoldPricingVersions r) (adm_PricingVersions admission)\<rparr>"

definition find_idempotent :: "MemoryRepository \<Rightarrow> AIOperation \<Rightarrow> AIOperation option" where
  "find_idempotent r operation =
     (if op_IdempotencyKey operation \<noteq> []
      then List.find (\<lambda>current. sameAIOperationIdempotencyScope current operation) (go_values (aiOperations r)) else None)"

definition CreateAIOperationWithBillingHold ::
  "AIOperation \<Rightarrow> BillingHoldAdmission \<Rightarrow> MemoryRepository \<Rightarrow> (AIOperation \<times> bool) repo_result" where
  "CreateAIOperationWithBillingHold operation0 admission r =
     (let operation = normalizeAIOperation operation0 in
      case validateBillingHoldAdmission operation admission of
        Some e \<Rightarrow> (r, Inl (RepoHold e))
      | None \<Rightarrow>
          (case find_idempotent r operation of
             Some current \<Rightarrow> (r, Inr (current, False))
           | None \<Rightarrow>
               if go_get (aiOperations r) (op_ID operation) \<noteq> None then (r, Inl (RepoOperationExists (op_ID operation)))
               else (case check_hold_insert r operation admission of
                       Some e \<Rightarrow> (r, Inl e)
                     | None \<Rightarrow> (insert_hold operation admission r, Inr (operation, True)))))"

section \<open>Transitions of holds\<close>

definition FindBillingHoldByOperationID :: "string \<Rightarrow> MemoryRepository \<Rightarrow> BillingHold option" where
  "FindBillingHoldByOperationID operationID r = memoryBillingHoldForOperation (billingHolds r) (TrimSpace operationID)"

definition store_hold :: "BillingHold \<Rightarrow> BillingHold \<Rightarrow> MemoryRepository \<Rightarrow> MemoryRepository" where
  "store_hold hold updated r = r\<lparr>billingHolds := go_set (hold_ID hold) updated (billingHolds r)\<rparr>"

definition TransitionBillingHold ::
  "string \<Rightarrow> int \<Rightarrow> string \<Rightarrow> int \<Rightarrow> string \<Rightarrow> gotime \<Rightarrow> MemoryRepository \<Rightarrow> (BillingHold option \<times> bool) repo_result" where
  "TransitionBillingHold operationID expectedVersion toStatus settledAmount reason transitionedAt r =
     (case memoryBillingHoldForOperation (billingHolds r) (TrimSpace operationID) of
        None \<Rightarrow> (r, Inr (None, False))
      | Some hold \<Rightarrow>
          if hold_Version hold \<noteq> expectedVersion then (r, Inr (Some hold, False))
          else (case prepareBillingHoldTransition hold toStatus settledAmount reason transitionedAt of
                  Inl e \<Rightarrow> (r, Inl (RepoHold e))
                | Inr updated \<Rightarrow>
                    if hold_Version updated = hold_Version hold then (r, Inr (Some hold, False))
                    else (store_hold hold updated r, Inr (Some updated, True))))"

definition releaseMemoryBillingHoldForOperation ::
  "string \<Rightarrow> string \<Rightarrow> gotime \<Rightarrow> MemoryRepository \<Rightarrow> MemoryRepository \<times> repo_error option" where
  "releaseMemoryBillingHoldForOperation operationID reason transitionedAt r =
     (case memoryBillingHoldForOperation (billingHolds r) operationID of
        None \<Rightarrow> (r, None)
      | Some hold \<Rightarrow>
          if oneOf (hold_Status hold) [BillingHoldStatusSettled, BillingHoldStatusReleased, BillingHoldStatusCommitted] then (r, None)
          else (case prepareBillingHoldTransition hold BillingHoldStatusReleased 0 reason transitionedAt of
                  Inl e \<Rightarrow> (r, Some (RepoHold e))
                | Inr updated \<Rightarrow> (store_hold hold updated r, None)))"

definition transitionBillingHold ::
  "string \<Rightarrow> string \<Rightarrow> int \<Rightarrow> string \<Rightarrow> gotime \<Rightarrow> MemoryRepository \<Rightarrow> MemoryRepository \<times> repo_error option" where
  "transitionBillingHold operationID status settledAmount reason now r =
     (case FindBillingHoldByOperationID (TrimSpace operationID) r of
        None \<Rightarrow> (r, None)
      | Some hold \<Rightarrow>
          if hold_Status hold = status \<or> oneOf (hold_Status hold) [BillingHoldStatusSettled, BillingHoldStatusReleased] \<or>
             (hold_Status hold = BillingHoldStatusDisputed \<and> status = BillingHoldStatusCommitted)
          then (r, None)
          else (case TransitionBillingHold (hold_OperationID hold) (hold_Version hold) status settledAmount (TrimSpace reason) now r of
                  (r', Inl e) \<Rightarrow> (r', Some e)
                | (r', Inr (h, updated)) \<Rightarrow> (r', if \<not> updated then Some (RepoHold ErrBillingHoldStateConflict) else None)))"

definition CommitBillingHold :: "string \<Rightarrow> string \<Rightarrow> gotime \<Rightarrow> MemoryRepository \<Rightarrow> MemoryRepository \<times> repo_error option" where
  "CommitBillingHold operationID reason = transitionBillingHold operationID BillingHoldStatusCommitted 0 reason"

definition DisputeBillingHold :: "string \<Rightarrow> string \<Rightarrow> gotime \<Rightarrow> MemoryRepository \<Rightarrow> MemoryRepository \<times> repo_error option" where
  "DisputeBillingHold operationID reason = transitionBillingHold operationID BillingHoldStatusDisputed 0 reason"

definition ReleaseBillingHold :: "string \<Rightarrow> string \<Rightarrow> gotime \<Rightarrow> MemoryRepository \<Rightarrow> MemoryRepository \<times> repo_error option" where
  "ReleaseBillingHold operationID reason = transitionBillingHold operationID BillingHoldStatusReleased 0 reason"

definition ListBillingHolds :: "MemoryRepository \<Rightarrow> BillingHold list" where
  "ListBillingHolds r =
     sort_by (\<lambda>a b. if hold_CreatedAt a = hold_CreatedAt b then string_compare (hold_ID a) (hold_ID b) < 0
                    else hold_CreatedAt a < hold_CreatedAt b) (go_values (billingHolds r))"

section \<open>Well-formed holds\<close>

definition billing_statuses :: "string set" where
  "billing_statuses = {BillingHoldStatusReserved, BillingHoldStatusCommitted, BillingHoldStatusSettled,
     BillingHoldStatusReleased, BillingHoldStatusDisputed}"

definition hold_ok :: "AIOperation gomap \<Rightarrow> BillingHold \<Rightarrow> bool" where
  "hold_ok operations hold \<longleftrightarrow>
     go_get operations (hold_OperationID hold) \<noteq> None \<and> hold_Status hold \<in> billing_statuses \<and> 1 \<le> hold_Version hold \<and>
     0 \<le> hold_ReservedAmountMicros hold \<and> int64_ok (hold_ReservedAmountMicros hold) \<and> 0 \<le> hold_SettledAmountMicros hold"

definition holds_inv :: "MemoryRepository \<Rightarrow> bool" where
  "holds_inv r \<longleftrightarrow> table hold_ID (hold_ok (aiOperations r)) (billingHolds r) \<and> unique_by hold_OperationID (billingHolds r)"

lemma holds_table: "holds_inv r \<Longrightarrow> table hold_ID (hold_ok (aiOperations r)) (billingHolds r)"
  by (simp add: holds_inv_def)

lemma holds_unique: "holds_inv r \<Longrightarrow> unique_by hold_OperationID (billingHolds r)"
  by (simp add: holds_inv_def)

lemma transition_allowed_cases:
  "billingHoldTransitionAllowed s t \<Longrightarrow>
   s \<in> {BillingHoldStatusReserved, BillingHoldStatusCommitted, BillingHoldStatusDisputed} \<and>
   t \<in> {BillingHoldStatusCommitted, BillingHoldStatusSettled, BillingHoldStatusReleased, BillingHoldStatusDisputed} \<and> t \<noteq> s"
  by (auto simp: billingHoldTransitionAllowed_def split: if_splits)

text \<open>A transition either leaves the hold as it is or makes exactly one allowed move.\<close>

lemma prepare_cases:
  assumes "prepareBillingHoldTransition h s a reason at = Inr h'"
  obtains (same) "h' = h" "hold_Status h = TrimSpace s"
    | (moved) "billingHoldTransitionAllowed (hold_Status h) (TrimSpace s)" "0 \<le> a" "hold_Status h' = TrimSpace s"
        "hold_Version h' = hold_Version h + 1" "hold_ID h' = hold_ID h" "hold_OperationID h' = hold_OperationID h"
        "hold_ReservedAmountMicros h' = hold_ReservedAmountMicros h"
        "hold_ReservedUsageDimensions h' = hold_ReservedUsageDimensions h"
        "hold_ApplicationID h' = hold_ApplicationID h" "hold_CredentialID h' = hold_CredentialID h"
        "hold_BudgetPeriodStart h' = hold_BudgetPeriodStart h"
        "hold_SettledAmountMicros h' = (if TrimSpace s = BillingHoldStatusSettled then a else hold_SettledAmountMicros h)"
  using assms by (auto simp: prepareBillingHoldTransition_def Let_def split: if_splits)

lemma prepare_identity:
  "prepareBillingHoldTransition h s a reason at = Inr h' \<Longrightarrow> hold_ID h' = hold_ID h \<and> hold_OperationID h' = hold_OperationID h"
  by (erule prepare_cases) auto

lemma prepare_ok: "hold_ok ops h \<Longrightarrow> prepareBillingHoldTransition h s a reason at = Inr h' \<Longrightarrow> hold_ok ops h'"
  by (erule prepare_cases) (auto simp: hold_ok_def billing_statuses_def dest!: transition_allowed_cases)

lemma prepare_total:
  "hold_Status h \<in> {BillingHoldStatusReserved, BillingHoldStatusCommitted, BillingHoldStatusDisputed} \<Longrightarrow> 0 \<le> a \<Longrightarrow>
   \<exists>h'. prepareBillingHoldTransition h BillingHoldStatusSettled a reason at = Inr h' \<and>
     hold_Status h' = BillingHoldStatusSettled \<and> hold_SettledAmountMicros h' = a \<and> hold_ID h' = hold_ID h"
proof -
  assume h: "hold_Status h \<in> {BillingHoldStatusReserved, BillingHoldStatusCommitted, BillingHoldStatusDisputed}" "0 \<le> a"
  have "TrimSpace BillingHoldStatusSettled = BillingHoldStatusSettled" unfolding BillingHoldStatusSettled_def by code_simp
  then show ?thesis using h by (auto simp: prepareBillingHoldTransition_def billingHoldTransitionAllowed_def Let_def)
qed

lemma hold_for_operation:
  assumes "holds_inv r" "memoryBillingHoldForOperation (billingHolds r) k = Some h"
  shows "go_get (billingHolds r) (hold_ID h) = Some h \<and> hold_OperationID h = k \<and> hold_ok (aiOperations r) h"
  using table_find [OF holds_table [OF assms(1)] assms(2) [unfolded memoryBillingHoldForOperation_def]] by simp

lemma hold_for_operation_iff:
  assumes "holds_inv r"
  shows "memoryBillingHoldForOperation (billingHolds r) k = Some h \<longleftrightarrow>
    go_get (billingHolds r) (hold_ID h) = Some h \<and> hold_OperationID h = k"
proof
  assume "go_get (billingHolds r) (hold_ID h) = Some h \<and> hold_OperationID h = k"
  then show "memoryBillingHoldForOperation (billingHolds r) k = Some h"
    using assms unique_find [of hold_ID _ "billingHolds r" hold_OperationID "hold_ID h" h]
    by (auto simp: holds_inv_def memoryBillingHoldForOperation_def)
qed (use hold_for_operation [OF assms] in blast)

lemma no_hold_for_operation:
  "holds_inv r \<Longrightarrow> memoryBillingHoldForOperation (billingHolds r) k = None \<Longrightarrow> go_get (billingHolds r) i = Some h \<Longrightarrow>
   hold_OperationID h \<noteq> k"
  using table_find_None [of hold_ID _ "billingHolds r" "\<lambda>h. hold_OperationID h = k" i h]
  by (auto simp: holds_inv_def memoryBillingHoldForOperation_def)

text \<open>Holds do not depend on the other tables, except for the operations they refer to.\<close>

lemma hold_ok_mono: "hold_ok ops h \<Longrightarrow> (\<And>k. go_get ops k \<noteq> None \<Longrightarrow> go_get ops' k \<noteq> None) \<Longrightarrow> hold_ok ops' h"
  by (auto simp: hold_ok_def)

lemma holds_inv_mono:
  "holds_inv r \<Longrightarrow> billingHolds r' = billingHolds r \<Longrightarrow>
   (\<And>k. go_get (aiOperations r) k \<noteq> None \<Longrightarrow> go_get (aiOperations r') k \<noteq> None) \<Longrightarrow> holds_inv r'"
  unfolding holds_inv_def by (metis (mono_tags, lifting) hold_ok_mono table_mono)

lemma store_hold_inv:
  assumes "holds_inv r" "go_get (billingHolds r) (hold_ID h) = Some h" "prepareBillingHoldTransition h s a reason at = Inr h'"
  shows "holds_inv (store_hold h h' r)"
proof -
  have "hold_ok (aiOperations r) h'"
    using prepare_ok [OF _ assms(3)] table_get [OF holds_table [OF assms(1)] assms(2)] by blast
  then show ?thesis
    using assms prepare_identity [OF assms(3)]
    by (auto simp: holds_inv_def store_hold_def intro!: table_set unique_by_update)
qed

lemma store_hold_frame [simp]:
  "aiOperations (store_hold h h' r) = aiOperations r" "aiAttempts (store_hold h h' r) = aiAttempts r"
  "aiJobs (store_hold h h' r) = aiJobs r" "aiJobEvents (store_hold h h' r) = aiJobEvents r"
  "billingHoldPricingVersions (store_hold h h' r) = billingHoldPricingVersions r"
  "pricingEvaluations (store_hold h h' r) = pricingEvaluations r" "billingLedgerEntries (store_hold h h' r) = billingLedgerEntries r"
  "usageRecords (store_hold h h' r) = usageRecords r" "transactionalOutboxEvents (store_hold h h' r) = transactionalOutboxEvents r"
  "auditLogs (store_hold h h' r) = auditLogs r" "artifacts (store_hold h h' r) = artifacts r"
  "artifactEvents (store_hold h h' r) = artifactEvents r"
  "billingHolds (store_hold h h' r) = go_set (hold_ID h) h' (billingHolds r)"
  by (simp_all add: store_hold_def)

section \<open>Admission keeps the holds well-formed\<close>

lemma admission_valid:
  assumes "validateBillingHoldAdmission operation admission = None"
  shows "hold_OperationID (adm_Hold admission) = op_ID operation" "hold_Status (adm_Hold admission) = BillingHoldStatusReserved"
    "hold_Version (adm_Hold admission) = 1" "0 \<le> hold_ReservedAmountMicros (adm_Hold admission)"
    "hold_SettledAmountMicros (adm_Hold admission) = 0" "hold_ApplicationID (adm_Hold admission) = op_ApplicationID operation"
    "hold_CredentialID (adm_Hold admission) = op_CredentialID operation"
  using assms by (auto simp: validateBillingHoldAdmission_def hold_matches_operation_def Let_def split: if_splits)

lemma insert_hold_frame [simp]:
  "aiAttempts (insert_hold operation admission r) = aiAttempts r" "aiJobs (insert_hold operation admission r) = aiJobs r"
  "aiJobEvents (insert_hold operation admission r) = aiJobEvents r"
  "billingLedgerEntries (insert_hold operation admission r) = billingLedgerEntries r"
  "usageRecords (insert_hold operation admission r) = usageRecords r"
  "transactionalOutboxEvents (insert_hold operation admission r) = transactionalOutboxEvents r"
  "auditLogs (insert_hold operation admission r) = auditLogs r" "artifacts (insert_hold operation admission r) = artifacts r"
  "artifactEvents (insert_hold operation admission r) = artifactEvents r"
  "aiOperations (insert_hold operation admission r) = go_set (op_ID operation) operation (aiOperations r)"
  "billingHolds (insert_hold operation admission r) = go_set (hold_ID (adm_Hold admission)) (adm_Hold admission) (billingHolds r)"
  by (simp_all add: insert_hold_def)

lemma check_hold_insertD:
  assumes "check_hold_insert r operation admission = None"
  shows "go_get (billingHolds r) (hold_ID (adm_Hold admission)) = None"
    "memoryBillingHoldForOperation (billingHolds r) (op_ID operation) = None"
    "enforceMemoryBillingHoldBudget r admission = None"
  using assms by (auto simp: check_hold_insert_def split: if_splits option.splits)

lemma insert_hold_inv:
  assumes "holds_inv r" "check_hold_insert r operation admission = None" "validateBillingHoldAdmission operation admission = None"
    and "int64_ok (hold_ReservedAmountMicros (adm_Hold admission))"
  shows "holds_inv (insert_hold operation admission r)"
proof -
  note v = admission_valid [OF assms(3)] and c = check_hold_insertD [OF assms(2)]
  have "table hold_ID (hold_ok (go_set (op_ID operation) operation (aiOperations r))) (billingHolds r)"
    using holds_table [OF assms(1)] by (rule table_mono) (erule hold_ok_mono, simp)
  then have "table hold_ID (hold_ok (go_set (op_ID operation) operation (aiOperations r)))
      (go_set (hold_ID (adm_Hold admission)) (adm_Hold admission) (billingHolds r))"
    using v assms(4) by (intro table_set) (auto simp: hold_ok_def billing_statuses_def)
  moreover have "unique_by hold_OperationID (go_set (hold_ID (adm_Hold admission)) (adm_Hold admission) (billingHolds r))"
    using assms(1) v(1) no_hold_for_operation [OF assms(1) c(2)] by (intro unique_by_set) (auto simp: holds_inv_def)
  ultimately show ?thesis by (simp add: holds_inv_def)
qed

lemma CreateAIOperationWithBillingHold_cases:
  assumes "CreateAIOperationWithBillingHold operation admission r = (r', x)"
  obtains (unchanged) "r' = r" "\<And>y. x \<noteq> Inr (y, True)"
    | (created) "x = Inr (normalizeAIOperation operation, True)" "r' = insert_hold (normalizeAIOperation operation) admission r"
        "validateBillingHoldAdmission (normalizeAIOperation operation) admission = None"
        "find_idempotent r (normalizeAIOperation operation) = None" "go_get (aiOperations r) (op_ID operation) = None"
        "check_hold_insert r (normalizeAIOperation operation) admission = None"
  using assms by (auto simp: CreateAIOperationWithBillingHold_def Let_def split: option.splits if_splits)

lemma TransitionBillingHold_cases:
  assumes "TransitionBillingHold operationID v s a reason at r = (r', x)"
  obtains (unchanged) "r' = r" "\<And>h. x \<noteq> Inr (h, True)"
    | (moved) h h' where "memoryBillingHoldForOperation (billingHolds r) (TrimSpace operationID) = Some h" "hold_Version h = v"
        "prepareBillingHoldTransition h s a reason at = Inr h'" "hold_Version h' = v + 1" "r' = store_hold h h' r"
        "x = Inr (Some h', True)"
  using assms by (auto simp: TransitionBillingHold_def elim: prepare_cases split: option.splits if_splits sum.splits)

lemma release_cases:
  assumes "releaseMemoryBillingHoldForOperation k reason at r = (r', e)"
  obtains (unchanged) "r' = r"
    | (moved) h h' where "memoryBillingHoldForOperation (billingHolds r) k = Some h"
        "prepareBillingHoldTransition h BillingHoldStatusReleased 0 reason at = Inr h'" "r' = store_hold h h' r" "e = None"
  using assms by (auto simp: releaseMemoryBillingHoldForOperation_def split: option.splits if_splits sum.splits)

section \<open>The budget check\<close>

text \<open>What is charged against the budget of a credential in a month, in unbounded integers.\<close>

definition true_exposure :: "MemoryRepository \<Rightarrow> BillingHold \<Rightarrow> int" where
  "true_exposure r hold =
     (\<Sum>entry \<leftarrow> filter (ledger_counts r hold) (go_values (billingLedgerEntries r)). bl_AmountMicros entry) +
     (\<Sum>current \<leftarrow> filter (hold_counts hold) (go_values (billingHolds r)). nonNegativeInt64 (hold_ReservedAmountMicros current))"

definition counted_usage :: "(UsageDimensionTotals \<Rightarrow> int) \<Rightarrow> MemoryRepository \<Rightarrow> BillingHold \<Rightarrow> int" where
  "counted_usage f r hold =
     (\<Sum>record \<leftarrow> filter (usage_counts r hold) (go_values (usageRecords r)). f (UsageDimensionsTotals (ur_UsageDimensions record))) +
     (\<Sum>current \<leftarrow> filter (hold_counts hold) (go_values (billingHolds r)). f (UsageDimensionsTotals (hold_ReservedUsageDimensions current)))"

lemma foldl_wrap64_filter:
  "foldl (\<lambda>s x. if P x then wrap64 (s + f x) else s) (wrap64 n) xs = wrap64 (n + (\<Sum>x \<leftarrow> filter P xs. f x))"
proof (induction xs arbitrary: n)
  case (Cons x xs)
  show ?case
  proof (cases "P x")
    case True
    then show ?thesis using Cons [of "n + f x"] by (simp add: wrap64_add_wrap64 add.assoc)
  next
    case False
    then show ?thesis using Cons [of n] by simp
  qed
qed simp

lemma budget_exposure_wraps: "budget_exposure r hold = wrap64 (true_exposure r hold)"
proof -
  have "ledger_exposure r hold = wrap64 (\<Sum>entry \<leftarrow> filter (ledger_counts r hold) (go_values (billingLedgerEntries r)). bl_AmountMicros entry)"
    using foldl_wrap64_filter [of "ledger_counts r hold" bl_AmountMicros 0 "go_values (billingLedgerEntries r)"]
    by (simp add: ledger_exposure_def)
  then show ?thesis unfolding budget_exposure_def true_exposure_def
    using foldl_wrap64_filter [of "hold_counts hold" "\<lambda>c. nonNegativeInt64 (hold_ReservedAmountMicros c)"] by simp
qed

lemma true_exposure_nonneg: "0 \<le> true_exposure r hold"
  unfolding true_exposure_def
  by (intro add_nonneg_nonneg sum_list_nonneg) (auto simp: ledger_counts_def nonNegativeInt64_def)

lemma saturating_nonneg: "0 \<le> a \<Longrightarrow> 0 \<le> b \<Longrightarrow> saturatingUsageAdd a b = min max_int64 (a + b)"
  by (simp add: saturatingUsageAdd_def Let_def min_def int64_ok_def)

lemma totals_nonneg:
  "0 \<le> ut_OutputImages (UsageDimensionsTotals m)" "0 \<le> ut_VideoMilliseconds (UsageDimensionsTotals m)"
  "0 \<le> ut_AudioMilliseconds (UsageDimensionsTotals m)"
proof -
  have q: "0 \<le> usageDimensionQuantity m n" for n by (simp add: usageDimensionQuantity_def split: option.splits)
  have s: "0 \<le> a \<Longrightarrow> 0 \<le> b \<Longrightarrow> 0 \<le> saturatingUsageAdd a b" for a b by (simp add: saturating_nonneg)
  show "0 \<le> ut_OutputImages (UsageDimensionsTotals m)" "0 \<le> ut_VideoMilliseconds (UsageDimensionsTotals m)"
    "0 \<le> ut_AudioMilliseconds (UsageDimensionsTotals m)"
    by (simp_all add: UsageDimensionsTotals_def q s)
qed

text \<open>A component of the totals: what is added up saturates, as the whole sum does.\<close>

definition total_component :: "(UsageDimensionTotals \<Rightarrow> int) \<Rightarrow> bool" where
  "total_component f \<longleftrightarrow> f zero_totals = 0 \<and> (\<forall>m. 0 \<le> f (UsageDimensionsTotals m)) \<and>
     (\<forall>a b. f (addUsageDimensionTotals a b) = saturatingUsageAdd (f a) (f b))"

lemma total_components [simp]:
  "total_component ut_OutputImages" "total_component ut_VideoMilliseconds" "total_component ut_AudioMilliseconds"
  by (simp_all add: total_component_def zero_totals_def addUsageDimensionTotals_def totals_nonneg)

lemma foldl_totals:
  assumes f: "total_component f"
  shows "0 \<le> f t \<Longrightarrow> f t \<le> max_int64 \<Longrightarrow>
   f (foldl (\<lambda>t x. if P x then addUsageDimensionTotals t (UsageDimensionsTotals (g x)) else t) t xs) =
     min max_int64 (f t + (\<Sum>x \<leftarrow> filter P xs. f (UsageDimensionsTotals (g x))))"
proof (induction xs arbitrary: t)
  case (Cons x xs)
  have add: "f (addUsageDimensionTotals t (UsageDimensionsTotals (g x))) = min max_int64 (f t + f (UsageDimensionsTotals (g x)))"
    using f Cons.prems(1) by (simp add: total_component_def saturating_nonneg)
  have nn: "0 \<le> f (UsageDimensionsTotals (g x))" "0 \<le> (\<Sum>x \<leftarrow> filter P xs. f (UsageDimensionsTotals (g x)))"
    using f by (auto simp: total_component_def intro!: sum_list_nonneg)
  show ?case
  proof (cases "P x")
    case True
    then show ?thesis using Cons.IH [of "addUsageDimensionTotals t (UsageDimensionsTotals (g x))"] add nn Cons.prems by simp
  next
    case False
    then show ?thesis using Cons.IH [of t] Cons.prems by simp
  qed
qed simp

lemma counted_usage_saturates:
  assumes f: "total_component f"
  shows "f (addUsageDimensionTotals (settled_usage r hold) (active_usage r hold)) = min max_int64 (counted_usage f r hold)"
proof -
  let ?a = "\<Sum>x \<leftarrow> filter (usage_counts r hold) (go_values (usageRecords r)). f (UsageDimensionsTotals (ur_UsageDimensions x))"
  let ?b = "\<Sum>x \<leftarrow> filter (hold_counts hold) (go_values (billingHolds r)). f (UsageDimensionsTotals (hold_ReservedUsageDimensions x))"
  have z: "f zero_totals = 0" using f by (simp add: total_component_def)
  have "0 \<le> ?a" "0 \<le> ?b" using f by (auto simp: total_component_def intro!: sum_list_nonneg)
  moreover have "f (settled_usage r hold) = min max_int64 ?a" "f (active_usage r hold) = min max_int64 ?b"
    unfolding settled_usage_def active_usage_def using foldl_totals [OF f, of zero_totals] z by simp_all
  ultimately show ?thesis using f by (simp add: total_component_def saturating_nonneg counted_usage_def)
qed

lemma counted_usage_nonneg: "total_component f \<Longrightarrow> 0 \<le> counted_usage f r hold"
  unfolding counted_usage_def by (intro add_nonneg_nonneg sum_list_nonneg) (auto simp: total_component_def)

lemma foldl_cong_set: "(\<And>a x. x \<in> set xs \<Longrightarrow> f a x = g a x) \<Longrightarrow> foldl f a xs = foldl g a xs"
  by (induction xs arbitrary: a) auto

lemma insert_hold_counts:
  assumes "check_hold_insert r operation admission = None" "validateBillingHoldAdmission operation admission = None"
  shows "filter (hold_counts (adm_Hold admission)) (go_values (billingHolds (insert_hold operation admission r))) =
    filter (hold_counts (adm_Hold admission)) (go_values (billingHolds r)) @ [adm_Hold admission]"
proof -
  have "hold_counts (adm_Hold admission) (adm_Hold admission)"
    using admission_valid(2) [OF assms(2)]
    by (simp add: hold_counts_def billingHoldCountsAgainstBudget_def sameBillingCredentialScope_def)
  then show ?thesis using check_hold_insertD(1) [OF assms(1)] by (simp add: go_values_fresh)
qed

text \<open>A usage record belongs to a stored operation, or to none: those of the synchronous gateway carry no operation id.\<close>

definition usage_refers :: "AIOperation gomap \<Rightarrow> UsageRecord \<Rightarrow> bool" where
  "usage_refers operations u \<longleftrightarrow> ur_OperationID u = [] \<or> go_get operations (ur_OperationID u) \<noteq> None"

text \<open>Inserting an operation nobody refers to changes neither the counted ledger entries nor the counted usage.\<close>

lemma insert_hold_ledger_counts:
  "go_get (aiOperations r) (op_ID operation) = None \<Longrightarrow> go_get (aiOperations r) (bl_OperationID b) \<noteq> None \<Longrightarrow>
   ledger_counts (insert_hold operation admission r) hold b = ledger_counts r hold b"
  "go_get (aiOperations r) (op_ID operation) = None \<Longrightarrow> op_ID operation \<noteq> [] \<Longrightarrow> usage_refers (aiOperations r) u \<Longrightarrow>
   usage_counts (insert_hold operation admission r) hold u = usage_counts r hold u"
  by (auto simp: ledger_counts_def usage_counts_def usage_refers_def operation_in_scope_def)

definition ledger_refers :: "MemoryRepository \<Rightarrow> bool" where
  "ledger_refers r \<longleftrightarrow> every (\<lambda>b. go_get (aiOperations r) (bl_OperationID b) \<noteq> None) (billingLedgerEntries r)"

lemma insert_hold_exposure:
  assumes "go_get (aiOperations r) (op_ID operation) = None"
    and "check_hold_insert r operation admission = None" "validateBillingHoldAdmission operation admission = None"
  shows "ledger_refers r \<Longrightarrow> true_exposure (insert_hold operation admission r) (adm_Hold admission) =
      true_exposure r (adm_Hold admission) + hold_ReservedAmountMicros (adm_Hold admission)"
    and "every (usage_refers (aiOperations r)) (usageRecords r) \<Longrightarrow> op_ID operation \<noteq> [] \<Longrightarrow>
      counted_usage f (insert_hold operation admission r) (adm_Hold admission) =
      counted_usage f r (adm_Hold admission) + f (UsageDimensionsTotals (hold_ReservedUsageDimensions (adm_Hold admission)))"
proof -
  let ?r = "insert_hold operation admission r" and ?h = "adm_Hold admission"
  note c = insert_hold_counts [OF assms(2,3), unfolded insert_hold_frame] and v = admission_valid(4) [OF assms(3)]
  show "true_exposure ?r ?h = true_exposure r ?h + hold_ReservedAmountMicros ?h" if "ledger_refers r"
  proof -
    have "filter (ledger_counts ?r ?h) (go_values (billingLedgerEntries r)) = filter (ledger_counts r ?h) (go_values (billingLedgerEntries r))"
      using that by (intro filter_cong refl insert_hold_ledger_counts(1) [OF assms(1)]) (auto simp: ledger_refers_def every_def)
    then show ?thesis unfolding true_exposure_def insert_hold_frame c using v by (simp add: nonNegativeInt64_def)
  qed
  show "counted_usage f ?r ?h = counted_usage f r ?h + f (UsageDimensionsTotals (hold_ReservedUsageDimensions ?h))"
    if "every (usage_refers (aiOperations r)) (usageRecords r)" "op_ID operation \<noteq> []"
  proof -
    have "filter (usage_counts ?r ?h) (go_values (usageRecords r)) = filter (usage_counts r ?h) (go_values (usageRecords r))"
      using that by (intro filter_cong refl insert_hold_ledger_counts(2) [OF assms(1)]) (auto simp: usage_refers_def every_def)
    then show ?thesis unfolding counted_usage_def insert_hold_frame c by simp
  qed
qed

section \<open>A small repository\<close>

definition example_operation :: "string \<Rightarrow> AIOperation" where
  "example_operation k = \<lparr>op_ID = k, op_ApplicationID = ''app'', op_CredentialID = ''cred'', op_CredentialSource = ''key'',
     op_IntegrationID = [], op_PrincipalType = ''user'', op_PrincipalID = ''p'', op_ExternalSubjectReference = [],
     op_ClientRequestID = [], op_RequestFingerprint = ''f'', op_IdempotencyKey = [], op_Protocol = [], op_Operation = ''chat'',
     op_Modality = ''text'', op_Lane = ''direct'', op_Model = ''m'', op_ArtifactPolicy = GatewayArtifactPolicyProxyOnly,
     op_ArtifactSinkID = [], op_Status = AIOperationStatusAccepted, op_ErrorType = [], op_CreatedAt = 5, op_UpdatedAt = 5,
     op_CompletedAt = None\<rparr>"

definition example_hold :: "string \<Rightarrow> int \<Rightarrow> BillingHold" where
  "example_hold k amount = \<lparr>hold_ID = k, hold_OperationID = k, hold_ApplicationID = ''app'', hold_CredentialID = ''cred'',
     hold_CredentialSource = ''key'', hold_IntegrationID = [], hold_PrincipalType = ''user'', hold_PrincipalID = ''p'',
     hold_ExternalSubjectReference = [], hold_RequestFingerprint = ''f'', hold_Status = BillingHoldStatusReserved,
     hold_Version = 1, hold_ReservedAmountMicros = amount, hold_ReservedUsageDimensions = [], hold_SettledAmountMicros = 0,
     hold_Currency = ''USD'', hold_EstimateSource = [], hold_Reason = [], hold_BudgetPeriodStart = 1, hold_ExpiresAt = 9,
     hold_CreatedAt = 5, hold_UpdatedAt = 5, hold_SettledAt = None, hold_ReleasedAt = None\<rparr>"

definition example_admission :: "string \<Rightarrow> int \<Rightarrow> BillingHoldAdmission" where
  "example_admission k amount = \<lparr>adm_Hold = example_hold k amount, adm_PricingVersions = [], adm_PricingEvaluations = [],
     adm_MonthlyBudgetMicros = 100, adm_MonthlyImageLimit = 7, adm_MonthlyVideoSecondsLimit = 0, adm_MonthlyAudioSecondsLimit = 0\<rparr>"

lemma example_sel [simp]:
  "hold_ID (example_hold k n) = k" "hold_OperationID (example_hold k n) = k" "hold_Status (example_hold k n) = BillingHoldStatusReserved"
  "hold_Version (example_hold k n) = 1" "hold_ReservedAmountMicros (example_hold k n) = n"
  "hold_ReservedUsageDimensions (example_hold k n) = []" "hold_BudgetPeriodStart (example_hold k n) = 1"
  "hold_ApplicationID (example_hold k n) = ''app''" "hold_CredentialID (example_hold k n) = ''cred''"
  "adm_Hold (example_admission k n) = example_hold k n" "adm_PricingVersions (example_admission k n) = []"
  "adm_PricingEvaluations (example_admission k n) = []" "adm_MonthlyBudgetMicros (example_admission k n) = 100"
  "adm_MonthlyImageLimit (example_admission k n) = 7" "adm_MonthlyVideoSecondsLimit (example_admission k n) = 0"
  "adm_MonthlyAudioSecondsLimit (example_admission k n) = 0" "op_ID (example_operation k) = k"
  "op_IdempotencyKey (example_operation k) = []"
  by (simp_all add: example_hold_def example_admission_def example_operation_def)

lemma example_TrimSpace:
  "TrimSpace ''a'' = ''a''" "TrimSpace ''b'' = ''b''" "TrimSpace ''USD'' = ''USD''"
  by code_simp+

lemma example_validate:
  "0 \<le> amount \<Longrightarrow> TrimSpace k \<noteq> [] \<Longrightarrow>
   validateBillingHoldAdmission (normalizeAIOperation (example_operation k)) (example_admission k amount) = None"
  by (simp add: validateBillingHoldAdmission_def hold_matches_operation_def example_admission_def example_hold_def
      example_operation_def normalizeAIOperation_def NormalizeUsageDimensions_def example_TrimSpace Let_def)

definition example_repository :: MemoryRepository where
  "example_repository = insert_hold (normalizeAIOperation (example_operation ''a'')) (example_admission ''a'' 1) NewMemoryRepository"

lemma example_totals_0: "UsageDimensionsTotals [] = zero_totals"
  by (simp add: UsageDimensionsTotals_def usageDimensionQuantity_def zero_totals_def saturating_nonneg)

lemma add_zero_totals: "addUsageDimensionTotals zero_totals zero_totals = zero_totals"
  by (simp add: addUsageDimensionTotals_def zero_totals_def saturating_nonneg)

lemma example_media: "enforceUsageDimensionLimits (example_admission k n) zero_totals = None"
  unfolding enforceUsageDimensionLimits_def by (simp add: example_totals_0 Let_def) (simp add: zero_totals_def saturating_nonneg)

lemma example_counts: "hold_counts (example_hold k n) (example_hold k' n')"
  by (simp add: hold_counts_def billingHoldCountsAgainstBudget_def sameBillingCredentialScope_def)

lemma new_repository_sel [simp]:
  "aiOperations NewMemoryRepository = []" "billingHolds NewMemoryRepository = []" "billingLedgerEntries NewMemoryRepository = []"
  "usageRecords NewMemoryRepository = []" "pricingEvaluations NewMemoryRepository = []"
  "billingHoldPricingVersions NewMemoryRepository = []" "aiAttempts NewMemoryRepository = []" "aiJobs NewMemoryRepository = []"
  "aiJobEvents NewMemoryRepository = []" "transactionalOutboxEvents NewMemoryRepository = []" "auditLogs NewMemoryRepository = []"
  by (simp_all add: NewMemoryRepository_def)

lemma example_create_a:
  "CreateAIOperationWithBillingHold (example_operation ''a'') (example_admission ''a'' 1) NewMemoryRepository =
     (example_repository, Inr (normalizeAIOperation (example_operation ''a''), True))"
proof -
  have "true_exposure NewMemoryRepository h = 0" for h by (simp add: true_exposure_def)
  moreover have "addUsageDimensionTotals (settled_usage NewMemoryRepository h) (active_usage NewMemoryRepository h) = zero_totals" for h
    by (simp add: settled_usage_def active_usage_def add_zero_totals)
  ultimately have "enforceMemoryBillingHoldBudget NewMemoryRepository (example_admission ''a'' 1) = None"
    by (simp add: enforceMemoryBillingHoldBudget_def example_media budget_exposure_wraps int64_ok_def Let_def)
  then have "check_hold_insert NewMemoryRepository (normalizeAIOperation (example_operation ''a'')) (example_admission ''a'' 1) = None"
    by (simp add: check_hold_insert_def memoryBillingHoldForOperation_def)
  then show ?thesis
    by (simp add: CreateAIOperationWithBillingHold_def example_validate example_TrimSpace find_idempotent_def
        example_repository_def Let_def)
qed

lemma example_repository_sel:
  "billingHolds example_repository = [(''a'', example_hold ''a'' 1)]" "billingLedgerEntries example_repository = []"
  "usageRecords example_repository = []" "pricingEvaluations example_repository = []"
  "billingHoldPricingVersions example_repository = []" "aiAttempts example_repository = []" "aiJobs example_repository = []"
  "aiJobEvents example_repository = []" "transactionalOutboxEvents example_repository = []"
  "aiOperations example_repository = [(''a'', normalizeAIOperation (example_operation ''a''))]"
  by (simp_all add: example_repository_def insert_hold_def)

lemma example_repository_holds: "holds_inv example_repository"
proof -
  have new: "holds_inv NewMemoryRepository" by (simp add: holds_inv_def)
  from example_create_a show ?thesis
  proof (cases rule: CreateAIOperationWithBillingHold_cases)
    case created
    show ?thesis unfolding created(2) by (rule insert_hold_inv [OF new created(6,3)]) (simp add: int64_ok_def)
  qed (simp add: new)
qed

lemma example_repository_hold:
  "memoryBillingHoldForOperation (billingHolds example_repository) ''a'' = Some (example_hold ''a'' 1)"
  by (simp add: memoryBillingHoldForOperation_def example_repository_sel)

section \<open>Properties\<close>



text \<open>
  Admission respects the monthly media quotas. When an operation is admitted, the images,
  video milliseconds and audio milliseconds used and reserved by its credential in the month, this
  reservation included, are within every quota that is set; the sums saturate at the largest 64-bit
  integer instead of wrapping.
\<close>

theorem media_quota_respected:
  assumes "every (usage_refers (aiOperations r)) (usageRecords r)" "op_ID created \<noteq> []" "CreateAIOperationWithBillingHold operation admission r = (r', Inr (created, True))"
  shows "(adm_MonthlyImageLimit admission > 0 \<longrightarrow>
      min max_int64 (counted_usage ut_OutputImages r' (adm_Hold admission)) \<le> adm_MonthlyImageLimit admission) \<and>
    (adm_MonthlyVideoSecondsLimit admission > 0 \<longrightarrow>
      min max_int64 (counted_usage ut_VideoMilliseconds r' (adm_Hold admission)) \<le> adm_MonthlyVideoSecondsLimit admission * 1000) \<and>
    (adm_MonthlyAudioSecondsLimit admission > 0 \<longrightarrow>
      min max_int64 (counted_usage ut_AudioMilliseconds r' (adm_Hold admission)) \<le> adm_MonthlyAudioSecondsLimit admission * 1000)"
  using assms(3)
proof (cases rule: CreateAIOperationWithBillingHold_cases)
  case unchanged
  then show ?thesis by blast
next
  case created
  let ?h = "adm_Hold admission"
  let ?req = "UsageDimensionsTotals (hold_ReservedUsageDimensions ?h)"
  let ?cur = "addUsageDimensionTotals (settled_usage r ?h) (active_usage r ?h)"
  have sum: "saturatingUsageAdd (f ?cur) (f ?req) = min max_int64 (counted_usage f r' ?h)" if "total_component f" for f
  proof -
    have "0 \<le> f ?req" "0 \<le> counted_usage f r ?h" using that counted_usage_nonneg by (auto simp: total_component_def)
    then show ?thesis
      using insert_hold_exposure(2) [OF _ created(6,3) assms(1), of f] assms(2) created(1,2,5) counted_usage_saturates [OF that, of r ?h]
      by (simp add: saturating_nonneg)
  qed
  have seconds: "0 < n \<Longrightarrow> x \<le> usageSecondsLimitMilliseconds n \<Longrightarrow> x \<le> n * 1000" for n x
    by (auto simp: usageSecondsLimitMilliseconds_def split: if_splits)
  note e = check_hold_insertD(3) [OF created(6)]
  have "enforceUsageDimensionLimits admission ?cur = None" if "billingHoldAdmissionHasLimits admission"
    using e that by (auto simp: enforceMemoryBillingHoldBudget_def Let_def split: if_splits)
  then show ?thesis
    using seconds sum [OF total_components(1)] sum [OF total_components(2)] sum [OF total_components(3)]
    by (auto simp: enforceUsageDimensionLimits_def billingHoldAdmissionHasLimits_def Let_def not_less split: if_splits)
qed

theorem media_quota_respected_witness:
  "min max_int64 (counted_usage ut_OutputImages example_repository (example_hold ''a'' 1)) \<le> 7"
  using media_quota_respected [OF _ _ example_create_a] by (simp add: every_def)

text \<open>
  The status machine of holds. A transition that the repository accepts was allowed from the
  stored status, was asked for with the stored version, and raises the version by one; a settled or
  released hold never changes again and no longer counts against the budget; a request with another
  version, or that is not allowed, changes nothing.
\<close>

theorem hold_transition_exact:
  assumes "holds_inv r" "TransitionBillingHold operationID version status amount reason at r = (r', x)"
  shows "holds_inv r' \<and>
    (case x of
       Inr (Some h', True) \<Rightarrow>
         (\<exists>h. go_get (billingHolds r) (hold_ID h) = Some h \<and> hold_OperationID h = TrimSpace operationID \<and> hold_Version h = version \<and>
            billingHoldTransitionAllowed (hold_Status h) (TrimSpace status) \<and> billingHoldCountsAgainstBudget (hold_Status h) \<and>
            r' = r\<lparr>billingHolds := go_set (hold_ID h) h' (billingHolds r)\<rparr> \<and> hold_Status h' = TrimSpace status \<and>
            hold_Version h' = version + 1 \<and> hold_ReservedAmountMicros h' = hold_ReservedAmountMicros h)
     | _ \<Rightarrow> r' = r)"
  using assms(2)
proof (cases rule: TransitionBillingHold_cases)
  case unchanged
  then show ?thesis using assms(1) by (auto split: sum.splits option.splits prod.splits bool.splits)
next
  case (moved h h')
  have h: "go_get (billingHolds r) (hold_ID h) = Some h" "hold_OperationID h = TrimSpace operationID"
    using hold_for_operation [OF assms(1) moved(1)] by auto
  have "holds_inv r'" using store_hold_inv [OF assms(1) h(1) moved(3)] moved(5) by simp
  moreover have "billingHoldTransitionAllowed (hold_Status h) (TrimSpace status) \<and> hold_Status h' = TrimSpace status \<and>
      hold_ReservedAmountMicros h' = hold_ReservedAmountMicros h"
    using moved(3) by (cases rule: prepare_cases) (use moved(2,4) in auto)
  moreover from this have "billingHoldCountsAgainstBudget (hold_Status h)"
    using transition_allowed_cases by (fastforce simp: billingHoldCountsAgainstBudget_def)
  ultimately show ?thesis using h moved by (auto simp: store_hold_def)
qed

theorem hold_transition_exact_witness:
  "\<exists>r'. TransitionBillingHold ''a'' 1 BillingHoldStatusCommitted 0 [] 6 example_repository =
     (r', Inr (Some ((example_hold ''a'' 1)\<lparr>hold_Status := BillingHoldStatusCommitted, hold_Version := 2, hold_UpdatedAt := 6\<rparr>), True)) \<and>
     holds_inv r'"
proof -
  have t: "TrimSpace BillingHoldStatusCommitted = BillingHoldStatusCommitted"
    unfolding BillingHoldStatusCommitted_def by code_simp
  obtain r' where r: "TransitionBillingHold ''a'' 1 BillingHoldStatusCommitted 0 [] 6 example_repository =
     (r', Inr (Some ((example_hold ''a'' 1)\<lparr>hold_Status := BillingHoldStatusCommitted, hold_Version := 2, hold_Reason := [],
        hold_UpdatedAt := 6\<rparr>), True))"
    by (simp add: TransitionBillingHold_def example_TrimSpace example_repository_hold prepareBillingHoldTransition_def t
        billingHoldTransitionAllowed_def Let_def)
  moreover have "(example_hold ''a'' 1)\<lparr>hold_Reason := []\<rparr> = example_hold ''a'' 1" by (simp add: example_hold_def)
  ultimately show ?thesis
    using hold_transition_exact [OF example_repository_holds r] by (simp add: example_hold_def)
qed

text \<open>
  C40: The budget check can wrap around. With a budget of 100 and one micro reserved, a request that
  reserves the largest 64-bit amount is admitted: the sum wraps to a negative number, and what is
  reserved then exceeds the budget.
\<close>

theorem budget_check_overflows:
  "\<exists>r created. CreateAIOperationWithBillingHold (example_operation ''b'') (example_admission ''b'' max_int64) example_repository =
     (r, Inr (created, True)) \<and>
   true_exposure r (example_hold ''b'' max_int64) > adm_MonthlyBudgetMicros (example_admission ''b'' max_int64)"
proof -
  let ?o = "normalizeAIOperation (example_operation ''b'')" and ?a = "example_admission ''b'' max_int64"
  let ?h = "example_hold ''b'' max_int64"
  have exposure: "true_exposure example_repository ?h = 1"
    by (simp add: true_exposure_def example_repository_sel example_counts nonNegativeInt64_def)
  have usage: "addUsageDimensionTotals (settled_usage example_repository ?h) (active_usage example_repository ?h) = zero_totals"
    by (simp add: settled_usage_def active_usage_def example_repository_sel example_totals_0 add_zero_totals)
  have "wrap64 (1 + max_int64) < 0" by (simp add: wrap64_def)
  then have "enforceMemoryBillingHoldBudget example_repository ?a = None"
    by (simp add: enforceMemoryBillingHoldBudget_def budget_exposure_wraps wrap64_add_wrap64 exposure usage example_media Let_def)
  then have c: "check_hold_insert example_repository ?o ?a = None"
    by (simp add: check_hold_insert_def memoryBillingHoldForOperation_def example_repository_sel)
  have create: "CreateAIOperationWithBillingHold (example_operation ''b'') ?a example_repository = (insert_hold ?o ?a example_repository, Inr (?o, True))"
    using c by (simp add: CreateAIOperationWithBillingHold_def example_validate example_TrimSpace find_idempotent_def
        example_repository_sel Let_def)
  have "true_exposure (insert_hold ?o ?a example_repository) (adm_Hold ?a) = 1 + max_int64"
    using insert_hold_exposure(1) [OF _ c example_validate] exposure
    by (simp add: example_TrimSpace example_repository_sel ledger_refers_def)
  then show ?thesis using create by auto
qed

end
