(* ===== verification/Operation_Repository.thy ===== *)
theory Operation_Repository
  imports Memory_Repository
begin

text \<open>
  Operations and attempts in the in-memory repository,
  \<^verbatim>\<open>backend/internal/controlplane/operation_repository.go\<close>. A zero struct returned beside \<^verbatim>\<open>false\<close>
  is \<open>None\<close>.
\<close>

section \<open>Operations\<close>

definition CreateAIOperation :: "AIOperation \<Rightarrow> MemoryRepository \<Rightarrow> (AIOperation \<times> bool) repo_result" where
  "CreateAIOperation operation0 r =
     (let operation = normalizeAIOperation operation0 in
      case find_idempotent r operation of
        Some current \<Rightarrow> (r, Inr (current, False))
      | None \<Rightarrow>
          if go_get (aiOperations r) (op_ID operation) \<noteq> None then (r, Inl (RepoOperationExists (op_ID operation)))
          else (r\<lparr>aiOperations := go_set (op_ID operation) operation (aiOperations r)\<rparr>, Inr (operation, True)))"

definition FindAIOperation :: "string \<Rightarrow> MemoryRepository \<Rightarrow> AIOperation option" where
  "FindAIOperation k r = go_get (aiOperations r) k"

definition provider_status_unknown :: "AIOperation \<Rightarrow> bool" where
  "provider_status_unknown operation \<longleftrightarrow>
     op_Status operation = AIOperationStatusFailed \<and> op_ErrorType operation = ''provider_status_unknown''"

definition MarkAIOperationRunning :: "string \<Rightarrow> gotime \<Rightarrow> MemoryRepository \<Rightarrow> MemoryRepository \<times> bool" where
  "MarkAIOperationRunning k updatedAt r =
     (case go_get (aiOperations r) k of
        None \<Rightarrow> (r, False)
      | Some operation \<Rightarrow>
          if op_Status operation \<noteq> AIOperationStatusAccepted \<and> \<not> provider_status_unknown operation then (r, False)
          else (r\<lparr>aiOperations := go_set k
                   (operation\<lparr>op_Status := AIOperationStatusRunning, op_ErrorType := [], op_UpdatedAt := updatedAt,
                      op_CompletedAt := None\<rparr>) (aiOperations r)\<rparr>, True))"

definition CompleteAIOperation :: "string \<Rightarrow> string \<Rightarrow> string \<Rightarrow> gotime \<Rightarrow> MemoryRepository \<Rightarrow> MemoryRepository \<times> bool" where
  "CompleteAIOperation k status errorType completedAt r =
     (case go_get (aiOperations r) k of
        None \<Rightarrow> (r, False)
      | Some operation \<Rightarrow>
          if op_Status operation \<noteq> AIOperationStatusAccepted \<and> op_Status operation \<noteq> AIOperationStatusRunning \<and>
             \<not> provider_status_unknown operation then (r, False)
          else (r\<lparr>aiOperations := go_set k
                   (operation\<lparr>op_Status := status, op_ErrorType := errorType, op_UpdatedAt := completedAt,
                      op_CompletedAt := Some completedAt\<rparr>) (aiOperations r)\<rparr>, True))"

section \<open>Attempts\<close>

definition applyAIAttemptDispatchUpdate :: "AIAttempt \<Rightarrow> AIAttempt \<Rightarrow> AIAttempt" where
  "applyAIAttemptDispatchUpdate current requested =
     current\<lparr>at_DispatchState := at_DispatchState requested, at_DispatchVersion := at_DispatchVersion current + 1,
       at_DispatchKey := at_DispatchKey requested, at_DispatchIntentJSON := at_DispatchIntentJSON requested,
       at_DispatchSubmittedAt := at_DispatchSubmittedAt requested, at_ProviderTaskID := at_ProviderTaskID requested,
       at_ProviderRequestID := at_ProviderRequestID requested, at_ProviderTaskStatus := at_ProviderTaskStatus requested,
       at_ProviderAcceptedAt := at_ProviderAcceptedAt requested, at_LastReconciledAt := at_LastReconciledAt requested,
       at_ReconcileAfter := at_ReconcileAfter requested, at_UpdatedAt := at_UpdatedAt requested\<rparr>"

definition aiAttemptReconciliationTime :: "AIAttempt \<Rightarrow> gotime" where
  "aiAttemptReconciliationTime attempt =
     (case at_ReconcileAfter attempt of Some t \<Rightarrow> t | None \<Rightarrow> at_UpdatedAt attempt)"

definition aiAttemptDueForReconciliation :: "AIAttempt \<Rightarrow> gotime \<Rightarrow> bool" where
  "aiAttemptDueForReconciliation attempt now =
     (if at_Status attempt \<noteq> AIAttemptStatusRunning \<or>
         \<not> oneOf (at_DispatchState attempt) [AIAttemptDispatchSubmitted, AIAttemptDispatchAccepted, AIAttemptDispatchUnknown]
      then False
      else (case at_ReconcileAfter attempt of None \<Rightarrow> True | Some t \<Rightarrow> \<not> t > now))"

definition CreateOrGetAIAttempt :: "AIAttempt \<Rightarrow> MemoryRepository \<Rightarrow> (AIAttempt \<times> bool) repo_result" where
  "CreateOrGetAIAttempt attempt0 r =
     (let attempt = normalizeAIAttempt attempt0 in
      if go_get (aiOperations r) (at_OperationID attempt) = None then (r, Inl (RepoOperationNotFound (at_OperationID attempt)))
      else (case List.find (\<lambda>current. at_OperationID current = at_OperationID attempt \<and>
                     at_AttemptNumber current = at_AttemptNumber attempt) (go_values (aiAttempts r)) of
              Some current \<Rightarrow> (r, Inr (current, False))
            | None \<Rightarrow>
                if go_get (aiAttempts r) (at_ID attempt) \<noteq> None then (r, Inl (RepoAttemptExists (at_ID attempt)))
                else (r\<lparr>aiAttempts := go_set (at_ID attempt) attempt (aiAttempts r)\<rparr>, Inr (attempt, True))))"

definition CreateAIAttempt :: "AIAttempt \<Rightarrow> MemoryRepository \<Rightarrow> MemoryRepository \<times> repo_error option" where
  "CreateAIAttempt attempt r =
     (case CreateOrGetAIAttempt attempt r of
        (r', Inl e) \<Rightarrow> (r', Some e)
      | (r', Inr (a, created)) \<Rightarrow> (r', if \<not> created then Some RepoAttemptNumberExists else None))"

definition FindAIAttempt :: "string \<Rightarrow> MemoryRepository \<Rightarrow> AIAttempt option" where
  "FindAIAttempt k r = go_get (aiAttempts r) (TrimSpace k)"

definition ListAIAttemptsByOperationID :: "string \<Rightarrow> MemoryRepository \<Rightarrow> AIAttempt list" where
  "ListAIAttemptsByOperationID operationID r =
     sort_by (\<lambda>a b. if at_AttemptNumber a = at_AttemptNumber b then string_compare (at_ID a) (at_ID b) < 0
                    else at_AttemptNumber a < at_AttemptNumber b)
       (filter (\<lambda>attempt. at_OperationID attempt = TrimSpace operationID) (go_values (aiAttempts r)))"

definition UpdateAIAttemptDispatch :: "AIAttempt \<Rightarrow> int \<Rightarrow> MemoryRepository \<Rightarrow> (AIAttempt option \<times> bool) repo_result" where
  "UpdateAIAttemptDispatch requested expectedVersion r =
     (case go_get (aiAttempts r) (at_ID requested) of
        None \<Rightarrow> (r, Inr (None, False))
      | Some current \<Rightarrow>
          if at_Status current \<noteq> AIAttemptStatusRunning \<or> at_DispatchVersion current \<noteq> expectedVersion
          then (r, Inr (Some current, False))
          else if at_ProviderTaskID requested \<noteq> [] \<and>
              list_ex (\<lambda>other. at_ID other \<noteq> at_ID current \<and> at_ProviderTaskID other = at_ProviderTaskID requested \<and>
                at_ProviderAccountID other = at_ProviderAccountID requested) (go_values (aiAttempts r))
          then (r, Inl ErrAIAttemptDispatchConflict)
          else (let updated = applyAIAttemptDispatchUpdate current requested in
                (r\<lparr>aiAttempts := go_set (at_ID current) updated (aiAttempts r)\<rparr>, Inr (Some updated, True))))"

definition ScheduleAIAttemptReconciliation ::
  "string \<Rightarrow> int \<Rightarrow> gotime \<Rightarrow> AuditLog \<Rightarrow> MemoryRepository \<Rightarrow> (AIAttempt option \<times> bool) repo_result" where
  "ScheduleAIAttemptReconciliation k expectedVersion scheduledAt audit r =
     (case go_get (aiAttempts r) (TrimSpace k) of
        None \<Rightarrow> (r, Inr (None, False))
      | Some current \<Rightarrow>
          if at_Status current \<noteq> AIAttemptStatusRunning \<or> at_DispatchVersion current \<noteq> expectedVersion \<or>
             \<not> oneOf (at_DispatchState current) [AIAttemptDispatchSubmitted, AIAttemptDispatchAccepted, AIAttemptDispatchUnknown]
          then (r, Inr (Some current, False))
          else if go_get (auditLogs r) (au_ID audit) \<noteq> None then (r, Inl (RepoAuditLogExists (au_ID audit)))
          else (let requested = current\<lparr>at_ReconcileAfter := Some scheduledAt, at_UpdatedAt := scheduledAt\<rparr>;
                    updated = applyAIAttemptDispatchUpdate current requested
                in (r\<lparr>aiAttempts := go_set (at_ID current) updated (aiAttempts r),
                      auditLogs := go_set (au_ID audit) audit (auditLogs r)\<rparr>, Inr (Some updated, True))))"

definition ScheduleArtifactDeliveryRetry ::
  "string \<Rightarrow> AIAttempt \<Rightarrow> int \<Rightarrow> AuditLog \<Rightarrow> MemoryRepository \<Rightarrow> (AIAttempt option \<times> bool) repo_result" where
  "ScheduleArtifactDeliveryRetry artifactID requested expectedVersion audit r =
     (case (go_get (artifacts r) (TrimSpace artifactID), go_get (aiAttempts r) (at_ID requested)) of
        (Some artifact, Some current) \<Rightarrow>
          if ar_Status artifact \<noteq> ArtifactStatusDeliveryFailed \<or> ar_Policy artifact \<noteq> GatewayArtifactPolicyCustomerSink \<or>
             ar_AttemptID artifact \<noteq> at_ID requested \<or> at_Status current \<noteq> AIAttemptStatusRunning \<or>
             at_DispatchVersion current \<noteq> expectedVersion
          then (r, Inr (Some current, False))
          else if go_get (auditLogs r) (au_ID audit) \<noteq> None then (r, Inl (RepoAuditLogExists (au_ID audit)))
          else (let updated = applyAIAttemptDispatchUpdate current requested in
                (r\<lparr>aiAttempts := go_set (at_ID current) updated (aiAttempts r),
                   auditLogs := go_set (au_ID audit) audit (auditLogs r)\<rparr>, Inr (Some updated, True)))
      | (_, current) \<Rightarrow> (r, Inr (current, False)))"

definition first_due :: "(AIAttempt \<Rightarrow> bool) \<Rightarrow> gotime \<Rightarrow> int \<Rightarrow> MemoryRepository \<Rightarrow> AIAttempt list" where
  "first_due keep now limit r =
     (if limit \<le> 0 then []
      else (let result = sort_by (\<lambda>a b. aiAttemptReconciliationTime a < aiAttemptReconciliationTime b)
                  (filter (\<lambda>attempt. aiAttemptDueForReconciliation attempt now \<and> keep attempt) (go_values (aiAttempts r)))
            in if int (length result) > limit then take (nat limit) result else result))"

definition ListAIAttemptsForReconciliation :: "gotime \<Rightarrow> int \<Rightarrow> MemoryRepository \<Rightarrow> AIAttempt list" where
  "ListAIAttemptsForReconciliation now limit r = first_due (\<lambda>_. True) now limit r"

definition ListDirectAIAttemptsForReconciliation :: "gotime \<Rightarrow> int \<Rightarrow> MemoryRepository \<Rightarrow> AIAttempt list" where
  "ListDirectAIAttemptsForReconciliation now limit r =
     first_due (\<lambda>attempt. case go_get (aiOperations r) (at_OperationID attempt) of
         Some operation \<Rightarrow> op_Lane operation = ''direct'' | None \<Rightarrow> False) now limit r"

definition memoryAIJobByOperationID :: "AIJob gomap \<Rightarrow> string \<Rightarrow> AIJob option" where
  "memoryAIJobByOperationID jobs operationID =
     List.find (\<lambda>job. job_OperationID job = TrimSpace operationID) (go_values jobs)"

definition ListDurableAIAttemptsForReconciliation :: "gotime \<Rightarrow> int \<Rightarrow> MemoryRepository \<Rightarrow> AIAttempt list" where
  "ListDurableAIAttemptsForReconciliation now limit r =
     first_due (\<lambda>attempt. memoryAIJobByOperationID (aiJobs r) (at_OperationID attempt) \<noteq> None) now limit r"

definition CompleteAIAttempt :: "string \<Rightarrow> string \<Rightarrow> string \<Rightarrow> gotime \<Rightarrow> MemoryRepository \<Rightarrow> MemoryRepository \<times> bool" where
  "CompleteAIAttempt k status errorType completedAt r =
     (case go_get (aiAttempts r) k of
        None \<Rightarrow> (r, False)
      | Some attempt \<Rightarrow>
          if at_Status attempt \<noteq> AIAttemptStatusRunning then (r, False)
          else (r\<lparr>aiAttempts := go_set k
                   (attempt\<lparr>at_Status := status, at_ErrorType := errorType, at_UpdatedAt := completedAt,
                      at_CompletedAt := Some completedAt\<rparr>) (aiAttempts r)\<rparr>, True))"

section \<open>Usage records, evaluations and audit logs\<close>

text \<open>
  The writers of the other tables: \<^verbatim>\<open>repository.go\<close>, \<^verbatim>\<open>effective_pricing_repository.go\<close>,
  \<^verbatim>\<open>pricing_repository.go\<close> and \<^verbatim>\<open>retention_service.go\<close>. The provider billing lines, gateway traces
  and alert events they also write are tables of their own, which nothing else here reads.
\<close>

definition SaveUsageRecord :: "UsageRecord \<Rightarrow> MemoryRepository \<Rightarrow> unit repo_result" where
  "SaveUsageRecord record r =
     (case NormalizeUsageDimensions (ur_UsageDimensions record) of
        None \<Rightarrow> (r, Inl RepoUsageDimensionsInvalid)
      | Some usageDimensions \<Rightarrow>
          (r\<lparr>usageRecords := go_set (ur_ID record) (record\<lparr>ur_UsageDimensions := usageDimensions\<rparr>) (usageRecords r)\<rparr>, Inr ()))"

text \<open>\<open>None\<close> is the error \<^verbatim>\<open>usage record not found\<close>.\<close>

definition SaveProviderBillingLineAndReconcileUsage :: "UsageRecord \<Rightarrow> MemoryRepository \<Rightarrow> MemoryRepository option" where
  "SaveProviderBillingLineAndReconcileUsage record r =
     (case go_get (usageRecords r) (ur_ID record) of
        None \<Rightarrow> None
      | Some _ \<Rightarrow> Some (r\<lparr>usageRecords := go_set (ur_ID record) record (usageRecords r)\<rparr>))"

text \<open>\<open>None\<close> is the error \<^verbatim>\<open>pricing evaluation already exists\<close>.\<close>

definition SavePricingEvaluation :: "PricingEvaluation \<Rightarrow> MemoryRepository \<Rightarrow> MemoryRepository option" where
  "SavePricingEvaluation evaluation r =
     (if go_get (pricingEvaluations r) (pe_ID evaluation) \<noteq> None then None
      else Some (r\<lparr>pricingEvaluations := go_set (pe_ID evaluation) evaluation (pricingEvaluations r)\<rparr>))"

definition FindPricingEvaluation :: "string \<Rightarrow> MemoryRepository \<Rightarrow> PricingEvaluation option" where
  "FindPricingEvaluation id' r = go_get (pricingEvaluations r) (TrimSpace id')"

definition AddAuditLog_repository :: "AuditLog \<Rightarrow> MemoryRepository \<Rightarrow> MemoryRepository" where
  "AddAuditLog_repository event r = r\<lparr>auditLogs := go_set (au_ID event) event (auditLogs r)\<rparr>"

text \<open>The counters of the result are those of the tables modelled here.\<close>

record RetentionCleanupResult =
  rc_Before :: gotime
  rc_UsageRecords :: nat
  rc_AuditLogs :: nat

definition CleanupRetainedData :: "gotime \<Rightarrow> MemoryRepository \<Rightarrow> MemoryRepository \<times> RetentionCleanupResult" where
  "CleanupRetainedData before r =
     (let usage = filter (\<lambda>(k, record). \<not> ur_CreatedAt record < before) (usageRecords r);
          audit = filter (\<lambda>(k, event). \<not> au_CreatedAt event < before) (auditLogs r)
      in (r\<lparr>usageRecords := usage, auditLogs := audit\<rparr>,
          \<lparr>rc_Before = before, rc_UsageRecords = length (usageRecords r) - length usage,
             rc_AuditLogs = length (auditLogs r) - length audit\<rparr>))"

text \<open>The clean-up removes exactly the records and log entries older than the cutoff.\<close>

lemma CleanupRetainedData_exact:
  assumes "keyed ur_ID (usageRecords r)" "keyed au_ID (auditLogs r)"
  shows "go_get (usageRecords (fst (CleanupRetainedData before r))) k = Some u \<longleftrightarrow>
      go_get (usageRecords r) k = Some u \<and> before \<le> ur_CreatedAt u"
    and "go_get (auditLogs (fst (CleanupRetainedData before r))) k = Some e \<longleftrightarrow>
      go_get (auditLogs r) k = Some e \<and> before \<le> au_CreatedAt e"
  using assms by (auto simp: CleanupRetainedData_def Let_def go_get_filter [of ur_ID] go_get_filter [of au_ID] split: option.splits if_splits)

end
