(* ===== verification/Usage_Settlement.thy ===== *)
theory Usage_Settlement
  imports Operation_Repository
begin

text \<open>
  Settlement of usage in the in-memory repository: \<^verbatim>\<open>ApplyUsageSettlement\<close> of
  \<^verbatim>\<open>backend/internal/controlplane/operation_repository.go\<close> and the hold settlement of
  \<^verbatim>\<open>billing_hold_repository.go\<close>.
\<close>

section \<open>Checks\<close>

definition sameBillingLedgerIdentity :: "BillingLedgerEntry \<Rightarrow> BillingLedgerEntry \<Rightarrow> bool" where
  "sameBillingLedgerIdentity left right \<longleftrightarrow>
     bl_OperationID left = bl_OperationID right \<and> bl_AttemptID left = bl_AttemptID right \<and>
     bl_UsageVersion left = bl_UsageVersion right \<and> bl_Purpose left = bl_Purpose right"

definition sameBillingLedgerContent :: "BillingLedgerEntry \<Rightarrow> BillingLedgerEntry \<Rightarrow> bool" where
  "sameBillingLedgerContent left right \<longleftrightarrow>
     sameBillingLedgerIdentity left right \<and> bl_UsageRecordID left = bl_UsageRecordID right \<and>
     bl_RequestFingerprint left = bl_RequestFingerprint right \<and> bl_AmountMicros left = bl_AmountMicros right \<and>
     bl_Currency left = bl_Currency right \<and> bl_PricingEvaluationID left = bl_PricingEvaluationID right \<and>
     bl_PricingRuleVersionID left = bl_PricingRuleVersionID right"

definition optionalMoneyEqual :: "int option \<Rightarrow> int option \<Rightarrow> bool" where
  "optionalMoneyEqual left right = (case (left, right) of (None, None) \<Rightarrow> True | (Some l, Some r) \<Rightarrow> l = r | _ \<Rightarrow> False)"

fun settlement_evaluations :: "UsageRecord \<Rightarrow> PricingEvaluation list \<Rightarrow> PricingEvaluation gomap \<Rightarrow> PricingEvaluation gomap option" where
  "settlement_evaluations record [] evaluations = Some evaluations"
| "settlement_evaluations record (evaluation # rest) evaluations =
     (if pe_ID evaluation = [] \<or> pe_OperationID evaluation \<noteq> ur_OperationID record \<or> pe_AttemptID evaluation \<noteq> ur_AttemptID record \<or>
         pe_UsageRecordID evaluation \<noteq> ur_ID record \<or> pe_UsageVersion evaluation \<noteq> ur_UsageVersion record \<or>
         pe_Phase evaluation \<noteq> PhaseSettlement
      then None else settlement_evaluations record rest (go_set (pe_ID evaluation) evaluation evaluations))"

fun settlement_ledgers :: "UsageRecord \<Rightarrow> PricingEvaluation gomap \<Rightarrow> BillingLedgerEntry list \<Rightarrow> string list \<Rightarrow> bool" where
  "settlement_ledgers record evaluations [] purposes = True"
| "settlement_ledgers record evaluations (billing # rest) purposes =
     (if ur_OperationID record \<noteq> bl_OperationID billing \<or> ur_AttemptID record \<noteq> bl_AttemptID billing \<or>
         ur_UsageVersion record \<noteq> bl_UsageVersion billing \<or> ur_ID record \<noteq> bl_UsageRecordID billing \<or>
         ur_RequestFingerprint record \<noteq> bl_RequestFingerprint billing \<or> bl_Status billing \<noteq> BillingLedgerStatusApplied \<or>
         bl_Currency billing \<noteq> CurrencyUSD \<or> bl_AmountMicros billing < 0
      then False
      else (case go_get evaluations (bl_PricingEvaluationID billing) of
              None \<Rightarrow> False
            | Some evaluation \<Rightarrow>
                if pe_Status evaluation \<noteq> PricingEvaluationStatusSuccess \<or> pe_AmountMicros evaluation \<noteq> Some (bl_AmountMicros billing) \<or>
                   pe_Purpose evaluation \<noteq> bl_Purpose billing \<or> pe_PricingRuleVersionID evaluation \<noteq> bl_PricingRuleVersionID billing
                then False
                else if bl_Purpose billing \<in> set purposes then False
                else settlement_ledgers record evaluations rest (bl_Purpose billing # purposes)))"

definition validateUsageSettlement :: "UsageSettlement \<Rightarrow> repo_error option" where
  "validateUsageSettlement settlement =
     (let record = st_Record settlement in
      if TrimSpace (ur_OperationID record) = [] \<or> ur_UsageVersion record \<le> 0 \<or> ur_ID record = [] \<or> ur_RequestFingerprint record = []
      then Some ErrUsageLedgerConflict
      else (case settlement_evaluations record (st_Evaluations settlement) [] of
              None \<Rightarrow> Some ErrUsageLedgerConflict
            | Some evaluations \<Rightarrow>
                if settlement_ledgers record evaluations (st_Ledgers settlement) [] then None else Some ErrUsageLedgerConflict))"

section \<open>Settling the hold\<close>

fun cumulative_loop :: "BillingLedgerEntry \<Rightarrow> BillingLedgerEntry list \<Rightarrow> int \<Rightarrow> int option" where
  "cumulative_loop current [] acc = Some acc"
| "cumulative_loop current (entry # rest) acc =
     (if bl_OperationID entry = bl_OperationID current \<and> bl_Purpose entry = PricingPurposeUsageCost \<and>
         bl_Status entry = BillingLedgerStatusApplied
      then (if bl_AmountMicros entry > wrap64 (max_int64 - acc) then None
            else cumulative_loop current rest (wrap64 (acc + bl_AmountMicros entry)))
      else cumulative_loop current rest acc)"

definition cumulativeMemoryBillingAmount :: "MemoryRepository \<Rightarrow> BillingLedgerEntry \<Rightarrow> repo_error + int" where
  "cumulativeMemoryBillingAmount r current =
     (case cumulative_loop current (go_values (billingLedgerEntries r)) (bl_AmountMicros current) of
        None \<Rightarrow> Inl RepoCumulativeOutOfRange
      | Some acc \<Rightarrow> if acc < 0 then Inl RepoCumulativeOutOfRange else Inr acc)"

definition settleMemoryBillingHoldForUsage ::
  "UsageRecord \<Rightarrow> BillingLedgerEntry \<Rightarrow> MemoryRepository \<Rightarrow> MemoryRepository \<times> repo_error option" where
  "settleMemoryBillingHoldForUsage record billing r =
     (if \<not> billingHoldUsageIsFinal record then (r, None)
      else (case memoryBillingHoldForOperation (billingHolds r) (ur_OperationID record) of
              None \<Rightarrow> (r, None)
            | Some hold \<Rightarrow>
                if oneOf (hold_Status hold) [BillingHoldStatusSettled, BillingHoldStatusReleased] then (r, None)
                else (case cumulativeMemoryBillingAmount r billing of
                        Inl e \<Rightarrow> (r, Some e)
                      | Inr settledAmount \<Rightarrow>
                          (case prepareBillingHoldTransition hold BillingHoldStatusSettled settledAmount ''usage_ledger_applied''
                                  (ur_CreatedAt record) of
                             Inl e \<Rightarrow> (r, Some (RepoHold e))
                           | Inr updated \<Rightarrow> (store_hold hold updated r, None)))))"

definition memoryBillingHoldPricingVersionKeyForEvaluation :: "MemoryRepository \<Rightarrow> string \<Rightarrow> string \<Rightarrow> string \<Rightarrow> string" where
  "memoryBillingHoldPricingVersionKeyForEvaluation r versionID purpose operationID =
     (case memoryBillingHoldForOperation (billingHolds r) operationID of
        None \<Rightarrow> []
      | Some hold \<Rightarrow>
          (let key = hold_ID hold @ [CHR 0x0A] @ purpose in
           case go_get (billingHoldPricingVersions r) key of
             None \<Rightarrow> []
           | Some version \<Rightarrow> if hpv_PricingRuleVersionID version \<noteq> versionID then [] else key))"

section \<open>The settlement\<close>

text \<open>The ledger entries of the settlement that are already stored, or none if one of them differs.\<close>

fun count_identity :: "BillingLedgerEntry \<Rightarrow> BillingLedgerEntry list \<Rightarrow> nat \<Rightarrow> nat option" where
  "count_identity billing [] n = Some n"
| "count_identity billing (current # rest) n =
     (if sameBillingLedgerIdentity current billing
      then (if \<not> sameBillingLedgerContent current billing then None else count_identity billing rest (n + 1))
      else count_identity billing rest n)"

fun existing_count :: "BillingLedgerEntry list \<Rightarrow> BillingLedgerEntry list \<Rightarrow> nat \<Rightarrow> nat option" where
  "existing_count stored [] n = Some n"
| "existing_count stored (billing # rest) n =
     (case count_identity billing stored n of None \<Rightarrow> None | Some n' \<Rightarrow> existing_count stored rest n')"

definition same_usage :: "UsageRecord \<Rightarrow> UsageRecord \<Rightarrow> bool" where
  "same_usage existing record \<longleftrightarrow>
     usageDimensionsEqual (ur_UsageDimensions existing) (ur_UsageDimensions record) \<and>
     ur_PricingStatus existing = ur_PricingStatus record \<and>
     optionalMoneyEqual (ur_UsageCostMicros existing) (ur_UsageCostMicros record)"

fun check_ledgers :: "BillingLedgerEntry gomap \<Rightarrow> BillingLedgerEntry list \<Rightarrow> repo_error option" where
  "check_ledgers m [] = None"
| "check_ledgers m (billing # rest) =
     (if go_get m (bl_ID billing) \<noteq> None then Some (RepoLedgerExists (bl_ID billing)) else check_ledgers m rest)"

fun check_outbox :: "outbox \<Rightarrow> TransactionalOutboxEvent list \<Rightarrow> repo_error option" where
  "check_outbox m [] = None"
| "check_outbox m (event # rest) =
     (case validateMemoryOutboxInsert m event of Some e \<Rightarrow> Some (RepoOutbox e) | None \<Rightarrow> check_outbox m rest)"

fun settle_ledgers ::
  "UsageRecord \<Rightarrow> BillingLedgerEntry list \<Rightarrow> MemoryRepository \<Rightarrow> MemoryRepository \<times> repo_error option" where
  "settle_ledgers record [] r = (r, None)"
| "settle_ledgers record (billing # rest) r =
     (if bl_Purpose billing = PricingPurposeUsageCost
      then (case settleMemoryBillingHoldForUsage record billing r of
              (r', Some e) \<Rightarrow> (r', Some e)
            | (r', None) \<Rightarrow> settle_ledgers record rest r')
      else settle_ledgers record rest r)"

definition link_evaluation :: "UsageRecord \<Rightarrow> PricingEvaluation \<Rightarrow> MemoryRepository \<Rightarrow> MemoryRepository" where
  "link_evaluation record evaluation r =
     (let key = memoryBillingHoldPricingVersionKeyForEvaluation r (pe_PricingRuleVersionID evaluation) (pe_Purpose evaluation)
                  (ur_OperationID record)
      in if key = [] then r
         else (case go_get (billingHoldPricingVersions r) key of
                 None \<Rightarrow> r
               | Some version \<Rightarrow>
                   r\<lparr>billingHoldPricingVersions := go_set key (version\<lparr>hpv_SettlementEvaluationID := pe_ID evaluation\<rparr>)
                       (billingHoldPricingVersions r)\<rparr>))"

text \<open>Moving the hold of the operation to a status, unless its status is one of \<open>except\<close>.\<close>

definition move_hold ::
  "string list \<Rightarrow> string \<Rightarrow> string \<Rightarrow> UsageRecord \<Rightarrow> MemoryRepository \<Rightarrow> MemoryRepository \<times> repo_error option" where
  "move_hold except status reason record r =
     (case memoryBillingHoldForOperation (billingHolds r) (ur_OperationID record) of
        None \<Rightarrow> (r, None)
      | Some hold \<Rightarrow>
          if oneOf (hold_Status hold) except then (r, None)
          else (case prepareBillingHoldTransition hold status 0 reason (ur_CreatedAt record) of
                  Inl e \<Rightarrow> (r, Some (RepoHold e))
                | Inr updated \<Rightarrow> (store_hold hold updated r, None)))"

fun settle_evaluations ::
  "UsageRecord \<Rightarrow> PricingEvaluation list \<Rightarrow> MemoryRepository \<Rightarrow> MemoryRepository \<times> repo_error option" where
  "settle_evaluations record [] r = (r, None)"
| "settle_evaluations record (evaluation # rest) r =
     (let r = link_evaluation record evaluation r in
      if pe_Purpose evaluation = PricingPurposeUsageCost \<and> pe_Status evaluation = PricingEvaluationStatusDisputed \<and>
         billingHoldUsageIsFinal record
      then (case move_hold [BillingHoldStatusSettled, BillingHoldStatusReleased, BillingHoldStatusDisputed]
                   BillingHoldStatusDisputed ''pricing_evaluation_failed'' record r of
              (r', Some e) \<Rightarrow> (r', Some e)
            | (r', None) \<Rightarrow> settle_evaluations record rest r')
      else settle_evaluations record rest r)"

definition settle_unpriced :: "UsageRecord \<Rightarrow> MemoryRepository \<Rightarrow> MemoryRepository \<times> repo_error option" where
  "settle_unpriced record r =
     (if ur_PricingStatus record = ''unpriced'' \<and> billingHoldUsageIsFinal record
      then move_hold [BillingHoldStatusSettled, BillingHoldStatusReleased] BillingHoldStatusSettled ''usage_unpriced'' record r
      else (r, None))"

definition store_settlement :: "UsageSettlement \<Rightarrow> MemoryRepository \<Rightarrow> MemoryRepository" where
  "store_settlement settlement r =
     r\<lparr>usageRecords := go_set (ur_ID (st_Record settlement)) (st_Record settlement) (usageRecords r),
       pricingEvaluations := foldl (\<lambda>m e. go_set (pe_ID e) e m) (pricingEvaluations r) (st_Evaluations settlement),
       billingLedgerEntries := foldl (\<lambda>m b. go_set (bl_ID b) b m) (billingLedgerEntries r) (st_Ledgers settlement),
       transactionalOutboxEvents := foldl (\<lambda>m e. go_set (ob_ID e) e m) (transactionalOutboxEvents r) (st_OutboxEvents settlement)\<rparr>"

text \<open>What the repository knows about the settlement: nothing yet, that it is applied, or a conflict.\<close>

definition settlement_known :: "UsageSettlement \<Rightarrow> MemoryRepository \<Rightarrow> repo_error + bool" where
  "settlement_known settlement r =
     (case existing_count (go_values (billingLedgerEntries r)) (st_Ledgers settlement) 0 of
        None \<Rightarrow> Inl ErrUsageLedgerConflict
      | Some n \<Rightarrow>
          (let existing = go_get (usageRecords r) (ur_ID (st_Record settlement)) in
           if n > 0 then
             (if n \<noteq> length (st_Ledgers settlement) then Inl ErrUsageLedgerConflict
              else (case existing of
                      None \<Rightarrow> Inl ErrUsageLedgerConflict
                    | Some u \<Rightarrow> if \<not> same_usage u (st_Record settlement) then Inl ErrUsageLedgerConflict else Inr True))
           else if st_Ledgers settlement = [] then
             (case existing of
                None \<Rightarrow> Inr False
              | Some u \<Rightarrow> if same_usage u (st_Record settlement) then Inr True else Inl ErrUsageLedgerConflict)
           else Inr False))"

definition check_settlement_insert :: "UsageSettlement \<Rightarrow> MemoryRepository \<Rightarrow> repo_error option" where
  "check_settlement_insert settlement r =
     (if go_get (usageRecords r) (ur_ID (st_Record settlement)) \<noteq> None then Some (RepoUsageRecordExists (ur_ID (st_Record settlement)))
      else (case check_evaluations (pricingEvaluations r) (st_Evaluations settlement) of
              Some e \<Rightarrow> Some e
            | None \<Rightarrow>
                (case check_ledgers (billingLedgerEntries r) (st_Ledgers settlement) of
                   Some e \<Rightarrow> Some e
                 | None \<Rightarrow> check_outbox (transactionalOutboxEvents r) (st_OutboxEvents settlement))))"

definition check_settlement_target :: "UsageRecord \<Rightarrow> MemoryRepository \<Rightarrow> repo_error option" where
  "check_settlement_target record r =
     (if go_get (aiOperations r) (ur_OperationID record) = None then Some (RepoOperationNotFound (ur_OperationID record))
      else if ur_AttemptID record \<noteq> [] then
        (case go_get (aiAttempts r) (ur_AttemptID record) of
           None \<Rightarrow> Some (RepoAttemptNotFound (ur_AttemptID record))
         | Some attempt \<Rightarrow>
             if at_OperationID attempt \<noteq> ur_OperationID record then Some (RepoAttemptNotFound (ur_AttemptID record)) else None)
      else None)"

definition settle_and_store :: "UsageSettlement \<Rightarrow> MemoryRepository \<Rightarrow> bool repo_result" where
  "settle_and_store settlement r =
     (let record = st_Record settlement in
      case settle_ledgers record (st_Ledgers settlement) r of
        (r1, Some e) \<Rightarrow> (r1, Inl e)
      | (r1, None) \<Rightarrow>
          (case settle_evaluations record (st_Evaluations settlement) r1 of
             (r2, Some e) \<Rightarrow> (r2, Inl e)
           | (r2, None) \<Rightarrow>
               (case settle_unpriced record r2 of
                  (r3, Some e) \<Rightarrow> (r3, Inl e)
                | (r3, None) \<Rightarrow> (store_settlement settlement r3, Inr True))))"

definition ApplyUsageSettlement :: "UsageSettlement \<Rightarrow> MemoryRepository \<Rightarrow> bool repo_result" where
  "ApplyUsageSettlement settlement0 r =
     (case NormalizeUsageDimensions (ur_UsageDimensions (st_Record settlement0)) of
        None \<Rightarrow> (r, Inl RepoUsageDimensionsInvalid)
      | Some usageDimensions \<Rightarrow>
          (let settlement1 = settlement0\<lparr>st_Record := (st_Record settlement0)\<lparr>ur_UsageDimensions := usageDimensions\<rparr>\<rparr> in
           case validateUsageSettlement settlement1 of
             Some e \<Rightarrow> (r, Inl e)
           | None \<Rightarrow>
               (let settlement = settlement1\<lparr>st_OutboxEvents := map normalizeTransactionalOutboxEvent (st_OutboxEvents settlement1)\<rparr> in
                case check_settlement_target (st_Record settlement) r of
                  Some e \<Rightarrow> (r, Inl e)
                | None \<Rightarrow>
                    (case settlement_known settlement r of
                       Inl e \<Rightarrow> (r, Inl e)
                     | Inr True \<Rightarrow> (r, Inr False)
                     | Inr False \<Rightarrow>
                         (case check_settlement_insert settlement r of
                            Some e \<Rightarrow> (r, Inl e)
                          | None \<Rightarrow> settle_and_store settlement r)))))"

definition ListBillingLedgerEntries :: "string \<Rightarrow> MemoryRepository \<Rightarrow> BillingLedgerEntry list" where
  "ListBillingLedgerEntries operationID r =
     sort_by (\<lambda>a b. bl_CreatedAt a < bl_CreatedAt b)
       (filter (\<lambda>entry. operationID = [] \<or> bl_OperationID entry = operationID) (go_values (billingLedgerEntries r)))"

section \<open>Well-formed ledgers\<close>

definition ledger_identity :: "BillingLedgerEntry \<Rightarrow> string \<times> string \<times> int \<times> string" where
  "ledger_identity b = (bl_OperationID b, bl_AttemptID b, bl_UsageVersion b, bl_Purpose b)"

lemma sameBillingLedgerIdentity_iff: "sameBillingLedgerIdentity a b \<longleftrightarrow> ledger_identity a = ledger_identity b"
  by (auto simp: sameBillingLedgerIdentity_def ledger_identity_def)

definition ledger_entry_ok :: "AIOperation gomap \<Rightarrow> BillingLedgerEntry \<Rightarrow> bool" where
  "ledger_entry_ok operations b \<longleftrightarrow>
     go_get operations (bl_OperationID b) \<noteq> None \<and> 0 \<le> bl_AmountMicros b \<and> int64_ok (bl_AmountMicros b) \<and>
     bl_Status b = BillingLedgerStatusApplied"

definition ledger_inv :: "MemoryRepository \<Rightarrow> bool" where
  "ledger_inv r \<longleftrightarrow>
     table bl_ID (ledger_entry_ok (aiOperations r)) (billingLedgerEntries r) \<and> unique_by ledger_identity (billingLedgerEntries r) \<and>
     table ur_ID (usage_refers (aiOperations r)) (usageRecords r)"

lemma ledger_table: "ledger_inv r \<Longrightarrow> table bl_ID (ledger_entry_ok (aiOperations r)) (billingLedgerEntries r)"
  by (simp add: ledger_inv_def)

lemma ledger_unique: "ledger_inv r \<Longrightarrow> unique_by ledger_identity (billingLedgerEntries r)"
  by (simp add: ledger_inv_def)

lemma usage_table: "ledger_inv r \<Longrightarrow> table ur_ID (usage_refers (aiOperations r)) (usageRecords r)"
  by (simp add: ledger_inv_def)

lemma ledger_entry_ok_mono:
  "ledger_entry_ok ops b \<Longrightarrow> (\<And>k. go_get ops k \<noteq> None \<Longrightarrow> go_get ops' k \<noteq> None) \<Longrightarrow> ledger_entry_ok ops' b"
  by (auto simp: ledger_entry_ok_def)

lemma ledger_inv_mono:
  assumes "ledger_inv r" "billingLedgerEntries r' = billingLedgerEntries r" "usageRecords r' = usageRecords r"
    and "\<And>k. go_get (aiOperations r) k \<noteq> None \<Longrightarrow> go_get (aiOperations r') k \<noteq> None"
  shows "ledger_inv r'"
proof -
  have "table bl_ID (ledger_entry_ok (aiOperations r')) (billingLedgerEntries r)"
    using ledger_table [OF assms(1)] by (rule table_mono) (erule ledger_entry_ok_mono, erule assms(4))
  moreover have "table ur_ID (usage_refers (aiOperations r')) (usageRecords r)"
    using usage_table [OF assms(1)] assms(4) by (auto simp: usage_refers_def elim!: table_mono)
  ultimately show ?thesis using ledger_unique [OF assms(1)] by (simp add: ledger_inv_def assms(2,3))
qed

section \<open>What a settlement is checked for\<close>

definition normalized_settlement :: "UsageDimensions \<Rightarrow> UsageSettlement \<Rightarrow> UsageSettlement" where
  "normalized_settlement dims s =
     s\<lparr>st_Record := (st_Record s)\<lparr>ur_UsageDimensions := dims\<rparr>,
       st_OutboxEvents := map normalizeTransactionalOutboxEvent (st_OutboxEvents s)\<rparr>"

lemma validate_outbox [simp]: "validateUsageSettlement (s\<lparr>st_OutboxEvents := os\<rparr>) = validateUsageSettlement s"
  by (cases s) (simp add: validateUsageSettlement_def split: option.split)

lemma Apply_eq:
  assumes "NormalizeUsageDimensions (ur_UsageDimensions (st_Record s0)) = Some dims"
  shows "ApplyUsageSettlement s0 r =
    (let s = normalized_settlement dims s0 in
     case validateUsageSettlement s of
       Some e \<Rightarrow> (r, Inl e)
     | None \<Rightarrow>
         (case check_settlement_target (st_Record s) r of
            Some e \<Rightarrow> (r, Inl e)
          | None \<Rightarrow>
              (case settlement_known s r of
                 Inl e \<Rightarrow> (r, Inl e)
               | Inr True \<Rightarrow> (r, Inr False)
               | Inr False \<Rightarrow> (case check_settlement_insert s r of Some e \<Rightarrow> (r, Inl e) | None \<Rightarrow> settle_and_store s r))))"
  using assms by (cases "validateUsageSettlement (s0\<lparr>st_Record := (st_Record s0)\<lparr>ur_UsageDimensions := dims\<rparr>\<rparr>)")
    (simp_all add: ApplyUsageSettlement_def normalized_settlement_def Let_def)

lemma Apply_cases:
  assumes "ApplyUsageSettlement s0 r = (r', x)"
  obtains (refused) "r' = r" "x \<noteq> Inr True"
    | (applied) dims s where "NormalizeUsageDimensions (ur_UsageDimensions (st_Record s0)) = Some dims"
        "s = normalized_settlement dims s0" "validateUsageSettlement s = None" "check_settlement_target (st_Record s) r = None"
        "settlement_known s r = Inr False" "check_settlement_insert s r = None" "settle_and_store s r = (r', x)"
proof (cases "NormalizeUsageDimensions (ur_UsageDimensions (st_Record s0))")
  case None
  then show ?thesis using assms by (intro refused) (auto simp: ApplyUsageSettlement_def)
next
  case (Some dims)
  define s where "s = normalized_settlement dims s0"
  note eq = Apply_eq [OF Some, of r, folded s_def, unfolded Let_def]
  show ?thesis
  proof (cases "validateUsageSettlement s = None \<and> check_settlement_target (st_Record s) r = None \<and>
      settlement_known s r = Inr False \<and> check_settlement_insert s r = None")
    case True
    then show ?thesis using assms eq by (intro applied [OF Some s_def]) simp_all
  next
    case False
    then show ?thesis
      using assms eq by (intro refused) (auto split: option.splits sum.splits bool.splits)
  qed
qed

lemma settlement_ledgers_ok:
  "settlement_ledgers record evaluations ls purposes \<Longrightarrow>
   (\<forall>b \<in> set ls. bl_OperationID b = ur_OperationID record \<and> bl_AttemptID b = ur_AttemptID record \<and>
      bl_UsageVersion b = ur_UsageVersion record \<and> bl_UsageRecordID b = ur_ID record \<and> 0 \<le> bl_AmountMicros b \<and>
      bl_Status b = BillingLedgerStatusApplied \<and> bl_Purpose b \<notin> set purposes) \<and> distinct (map bl_Purpose ls)"
proof (induction ls arbitrary: purposes)
  case (Cons b ls)
  then have "settlement_ledgers record evaluations ls (bl_Purpose b # purposes)" "bl_Purpose b \<notin> set purposes"
    by (auto split: if_splits option.splits)
  then show ?case using Cons.prems Cons.IH [of "bl_Purpose b # purposes"] by (auto split: if_splits option.splits)
qed simp

lemma validate_ledgers:
  assumes "validateUsageSettlement s = None"
  shows "\<forall>b \<in> set (st_Ledgers s). bl_OperationID b = ur_OperationID (st_Record s) \<and> bl_AttemptID b = ur_AttemptID (st_Record s) \<and>
      bl_UsageVersion b = ur_UsageVersion (st_Record s) \<and> 0 \<le> bl_AmountMicros b \<and> bl_Status b = BillingLedgerStatusApplied"
    "distinct (map bl_Purpose (st_Ledgers s))" "inj_on ledger_identity (set (st_Ledgers s))"
proof -
  obtain evaluations where l: "settlement_ledgers (st_Record s) evaluations (st_Ledgers s) []"
    using assms by (auto simp: validateUsageSettlement_def Let_def split: if_splits option.splits)
  note ok = settlement_ledgers_ok [OF l]
  show "\<forall>b \<in> set (st_Ledgers s). bl_OperationID b = ur_OperationID (st_Record s) \<and> bl_AttemptID b = ur_AttemptID (st_Record s) \<and>
      bl_UsageVersion b = ur_UsageVersion (st_Record s) \<and> 0 \<le> bl_AmountMicros b \<and> bl_Status b = BillingLedgerStatusApplied"
    using ok by blast
  show d: "distinct (map bl_Purpose (st_Ledgers s))" using ok by blast
  show "inj_on ledger_identity (set (st_Ledgers s))"
    using d by (auto simp: inj_on_def ledger_identity_def distinct_map)
qed

section \<open>Counting stored entries\<close>

lemma count_identity_eq:
  "count_identity b xs n =
     (if \<exists>x \<in> set xs. sameBillingLedgerIdentity x b \<and> \<not> sameBillingLedgerContent x b then None
      else Some (n + length (filter (\<lambda>x. ledger_identity x = ledger_identity b) xs)))"
  by (induction xs arbitrary: n) (auto simp: sameBillingLedgerIdentity_iff)

lemma sameContent_refl: "sameBillingLedgerContent b b"
  by (simp add: sameBillingLedgerContent_def sameBillingLedgerIdentity_def)

lemma existing_count_mono: "existing_count xs ls n = Some m \<Longrightarrow> n \<le> m"
proof (induction ls arbitrary: n)
  case (Cons b ls)
  then obtain n' where "count_identity b xs n = Some n'" "existing_count xs ls n' = Some m" by (auto split: option.splits)
  then show ?case using Cons.IH [of n'] by (auto simp: count_identity_eq split: if_splits)
qed simp

lemma existing_count_zero:
  "existing_count xs ls n = Some n \<Longrightarrow> b \<in> set ls \<Longrightarrow> x \<in> set xs \<Longrightarrow> ledger_identity x \<noteq> ledger_identity b"
proof (induction ls arbitrary: n)
  case (Cons a ls)
  then obtain n' where n': "count_identity a xs n = Some n'" "existing_count xs ls n' = Some n" by (auto split: option.splits)
  moreover have "n \<le> n'" using n'(1) by (auto simp: count_identity_eq split: if_splits)
  ultimately have "n' = n" using existing_count_mono [OF n'(2)] by simp
  then have "filter (\<lambda>x. ledger_identity x = ledger_identity a) xs = []"
    using n'(1) by (auto simp: count_identity_eq split: if_splits)
  then show ?case using Cons n' \<open>n' = n\<close> by (auto simp: filter_empty_conv)
qed simp

lemma existing_count_all:
  assumes "table bl_ID P m" "unique_by ledger_identity m"
  shows "\<forall>b \<in> set ls. \<exists>b'. go_get m (bl_ID b) = Some b' \<and> sameBillingLedgerContent b' b \<Longrightarrow> existing_count (go_values m) ls n = Some (n + length ls)"
proof (induction ls arbitrary: n)
  case (Cons b ls)
  obtain b' where b': "go_get m (bl_ID b) = Some b'" "sameBillingLedgerContent b' b" using Cons.prems by auto
  have id: "ledger_identity b' = ledger_identity b" using b'(2) by (simp add: sameBillingLedgerContent_def sameBillingLedgerIdentity_iff)
  have one: "filter (\<lambda>x. ledger_identity x = ledger_identity b) (go_values m) = [b']"
    using unique_filter [OF assms b'(1)] by (simp add: id)
  then have "x = b'" if "x \<in> set (go_values m)" "ledger_identity x = ledger_identity b" for x
  proof -
    have "x \<in> set (filter (\<lambda>x. ledger_identity x = ledger_identity b) (go_values m))" using that by simp
    then show ?thesis unfolding one by simp
  qed
  then have "count_identity b (go_values m) n = Some (n + 1)"
    using one b'(2) by (auto simp: count_identity_eq sameBillingLedgerIdentity_iff)
  then show ?case using Cons by simp
qed simp

section \<open>Steps that touch the hold of an operation only\<close>

definition hold_step :: "MemoryRepository \<Rightarrow> MemoryRepository \<Rightarrow> bool" where
  "hold_step r r' \<longleftrightarrow>
     r' = r \<or>
     (\<exists>h h' s a reason at. go_get (billingHolds r) (hold_ID h) = Some h \<and> prepareBillingHoldTransition h s a reason at = Inr h' \<and>
        r' = store_hold h h' r)"

lemma hold_step_refl [simp]: "hold_step r r"
  by (simp add: hold_step_def)

lemma hold_step_inv: "hold_step r r' \<Longrightarrow> holds_inv r \<Longrightarrow> holds_inv r'"
  by (auto simp: hold_step_def intro: store_hold_inv)

lemma hold_step_frame:
  assumes "hold_step r r'"
  shows "aiOperations r' = aiOperations r" "aiAttempts r' = aiAttempts r" "billingLedgerEntries r' = billingLedgerEntries r"
    "usageRecords r' = usageRecords r" "pricingEvaluations r' = pricingEvaluations r"
    "transactionalOutboxEvents r' = transactionalOutboxEvents r" "aiJobs r' = aiJobs r" "aiJobEvents r' = aiJobEvents r"
    "billingHoldPricingVersions r' = billingHoldPricingVersions r" "artifacts r' = artifacts r" "artifactEvents r' = artifactEvents r"
    "auditLogs r' = auditLogs r"
  using assms by (auto simp: hold_step_def)

lemma hold_stepI:
  "holds_inv r \<Longrightarrow> memoryBillingHoldForOperation (billingHolds r) k = Some h \<Longrightarrow>
   prepareBillingHoldTransition h s a reason at = Inr h' \<Longrightarrow> hold_step r (store_hold h h' r)"
  using hold_for_operation [of r k h] unfolding hold_step_def by blast

text \<open>Only the hold of one operation may change.\<close>

definition other_holds_kept :: "string \<Rightarrow> MemoryRepository \<Rightarrow> MemoryRepository \<Rightarrow> bool" where
  "other_holds_kept operationID r r' \<longleftrightarrow>
     (\<forall>k. (case go_get (billingHolds r) k of None \<Rightarrow> True | Some h \<Rightarrow> hold_OperationID h \<noteq> operationID) \<longrightarrow>
        go_get (billingHolds r') k = go_get (billingHolds r) k)"

lemma other_holds_kept_refl [simp]: "billingHolds r' = billingHolds r \<Longrightarrow> other_holds_kept operationID r r'"
  by (simp add: other_holds_kept_def)

lemma other_holds_kept_trans:
  "other_holds_kept operationID r r' \<Longrightarrow> other_holds_kept operationID r' r'' \<Longrightarrow> other_holds_kept operationID r r''"
  by (simp add: other_holds_kept_def)

lemma store_hold_others:
  "holds_inv r \<Longrightarrow> memoryBillingHoldForOperation (billingHolds r) operationID = Some h \<Longrightarrow>
   other_holds_kept operationID r (store_hold h h' r)"
  using hold_for_operation [of r operationID h] by (auto simp: other_holds_kept_def)

lemma status_trim [simp]:
  "TrimSpace BillingHoldStatusSettled = BillingHoldStatusSettled" "TrimSpace BillingHoldStatusDisputed = BillingHoldStatusDisputed"
  "TrimSpace BillingHoldStatusReleased = BillingHoldStatusReleased"
  unfolding BillingHoldStatusSettled_def BillingHoldStatusDisputed_def BillingHoldStatusReleased_def by code_simp+

text \<open>The moves a settlement makes are always allowed.\<close>

lemma move_hold_total:
  assumes "holds_inv r"
    and "except = [BillingHoldStatusSettled, BillingHoldStatusReleased, BillingHoldStatusDisputed] \<and> s = BillingHoldStatusDisputed \<or>
      except = [BillingHoldStatusSettled, BillingHoldStatusReleased] \<and> s = BillingHoldStatusSettled"
  obtains r' where "move_hold except s reason record r = (r', None)" "hold_step r r'" "other_holds_kept (ur_OperationID record) r r'"
proof (cases "memoryBillingHoldForOperation (billingHolds r) (ur_OperationID record)")
  case None
  then show ?thesis using that [of r] by (simp add: move_hold_def)
next
  case (Some h)
  have "hold_Status h \<in> billing_statuses" using hold_for_operation [OF assms(1) Some] by (simp add: hold_ok_def)
  then have "hold_Status h \<in> set except \<or> (\<exists>h'. prepareBillingHoldTransition h s 0 reason (ur_CreatedAt record) = Inr h')"
    using assms(2) by (auto simp: billing_statuses_def prepareBillingHoldTransition_def billingHoldTransitionAllowed_def Let_def)
  then show ?thesis
    using Some that hold_stepI [OF assms(1) Some] store_hold_others [OF assms(1) Some] by (cases "hold_Status h \<in> set except") (auto simp: move_hold_def)
qed

lemma settle_hold_cases:
  assumes "holds_inv r" "settleMemoryBillingHoldForUsage record billing r = (r', e)"
  obtains (failed) err where "r' = r" "e = Some err"
    | (skipped) "r' = r" "e = None"
        "\<And>h. billingHoldUsageIsFinal record \<Longrightarrow> memoryBillingHoldForOperation (billingHolds r) (ur_OperationID record) = Some h \<Longrightarrow>
            hold_Status h \<in> {BillingHoldStatusSettled, BillingHoldStatusReleased}"
    | (settled) h h' amount where "e = None" "billingHoldUsageIsFinal record"
        "memoryBillingHoldForOperation (billingHolds r) (ur_OperationID record) = Some h"
        "cumulativeMemoryBillingAmount r billing = Inr amount" "r' = store_hold h h' r" "hold_step r r'"
        "hold_Status h' = BillingHoldStatusSettled" "hold_SettledAmountMicros h' = amount" "hold_ID h' = hold_ID h"
        "hold_OperationID h' = hold_OperationID h"
proof (cases "billingHoldUsageIsFinal record \<and>
    (\<exists>h. memoryBillingHoldForOperation (billingHolds r) (ur_OperationID record) = Some h \<and>
      hold_Status h \<notin> {BillingHoldStatusSettled, BillingHoldStatusReleased})")
  case False
  then have "settleMemoryBillingHoldForUsage record billing r = (r, None)"
    by (auto simp: settleMemoryBillingHoldForUsage_def split: option.splits)
  then show ?thesis using False assms(2) by (intro skipped) auto
next
  case True
  then obtain h where h: "billingHoldUsageIsFinal record" "memoryBillingHoldForOperation (billingHolds r) (ur_OperationID record) = Some h"
      "hold_Status h \<notin> {BillingHoldStatusSettled, BillingHoldStatusReleased}" by auto
  show ?thesis
  proof (cases "cumulativeMemoryBillingAmount r billing")
    case (Inl err)
    then show ?thesis using h assms(2) by (intro failed) (auto simp: settleMemoryBillingHoldForUsage_def)
  next
    case (Inr amount)
    then have nonneg: "0 \<le> amount" by (auto simp: cumulativeMemoryBillingAmount_def split: option.splits if_splits)
    have "hold_Status h \<in> {BillingHoldStatusReserved, BillingHoldStatusCommitted, BillingHoldStatusDisputed}"
      using hold_for_operation [OF assms(1) h(2)] h(3) by (auto simp: hold_ok_def billing_statuses_def)
    then obtain h' where h': "prepareBillingHoldTransition h BillingHoldStatusSettled amount ''usage_ledger_applied'' (ur_CreatedAt record) = Inr h'"
        "hold_Status h' = BillingHoldStatusSettled" "hold_SettledAmountMicros h' = amount" "hold_ID h' = hold_ID h"
      using prepare_total [OF _ nonneg] by blast
    then have "(r', e) = (store_hold h h' r, None)"
      using assms(2) h Inr by (simp add: settleMemoryBillingHoldForUsage_def)
    then show ?thesis
      using settled [OF _ h(1,2) Inr] h' hold_stepI [OF assms(1) h(2) h'(1)] prepare_identity [OF h'(1)] by simp
  qed
qed

text \<open>Of the entries of a settlement at most one is a usage cost.\<close>

lemma settle_ledgers_eq:
  "distinct (map bl_Purpose ls) \<Longrightarrow>
   settle_ledgers record ls r =
     (case find (\<lambda>b. bl_Purpose b = PricingPurposeUsageCost) ls of
        None \<Rightarrow> (r, None) | Some b \<Rightarrow> settleMemoryBillingHoldForUsage record b r)"
proof (induction ls arbitrary: r)
  case (Cons b ls)
  have none: "find (\<lambda>b. bl_Purpose b = PricingPurposeUsageCost) ls = None" if "bl_Purpose b = PricingPurposeUsageCost"
    using Cons.prems that by (auto simp: find_None_iff image_iff)
  show ?case
  proof (cases "bl_Purpose b = PricingPurposeUsageCost")
    case True
    then show ?thesis using Cons.IH Cons.prems none [OF True] by (auto split: prod.split option.split)
  qed (use Cons in simp)
qed simp

text \<open>
  What the steps before the final store may change: the hold of an operation, and the settlement evaluation
  a hold's pricing version is linked to.
\<close>

definition hold_le :: "BillingHold \<Rightarrow> BillingHold \<Rightarrow> bool" where
  "hold_le h h' \<longleftrightarrow> hold_Version h \<le> hold_Version h' \<and> hold_OperationID h' = hold_OperationID h"

lemma hold_le_refl [simp]: "hold_le h h"
  by (simp add: hold_le_def)

lemma hold_le_trans: "hold_le h h' \<Longrightarrow> hold_le h' h'' \<Longrightarrow> hold_le h h''"
  by (auto simp: hold_le_def)

text \<open>The version that a hold is priced with, for a purpose.\<close>

definition hold_pin :: "BillingHoldPricingVersion \<Rightarrow> string \<times> string \<times> string" where
  "hold_pin v = (hpv_HoldID v, hpv_Purpose v, hpv_PricingRuleVersionID v)"

definition keeps_pins :: "MemoryRepository \<Rightarrow> MemoryRepository \<Rightarrow> bool" where
  "keeps_pins r r' \<longleftrightarrow>
     map hold_pin (go_values (billingHoldPricingVersions r')) = map hold_pin (go_values (billingHoldPricingVersions r)) \<and>
     (keyed hold_version_key (billingHoldPricingVersions r) \<longrightarrow> keyed hold_version_key (billingHoldPricingVersions r'))"

lemma keeps_pins_refl [simp]: "billingHoldPricingVersions r' = billingHoldPricingVersions r \<Longrightarrow> keeps_pins r r'"
  by (simp add: keeps_pins_def)

lemma keeps_pins_trans: "keeps_pins r r' \<Longrightarrow> keeps_pins r' r'' \<Longrightarrow> keeps_pins r r''"
  by (simp add: keeps_pins_def)

lemma map_go_set_same: "go_get m k = Some v \<Longrightarrow> f v' = f v \<Longrightarrow> map f (go_values (go_set k v' m)) = map f (go_values m)"
  by (induction m) (auto split: if_splits)

lemma link_evaluation_pins: "keeps_pins r (link_evaluation record evaluation r)"
proof -
  let ?m = "billingHoldPricingVersions r"
  have "map hold_pin (go_values (go_set k (v\<lparr>hpv_SettlementEvaluationID := i\<rparr>) ?m)) = map hold_pin (go_values ?m) \<and>
      (keyed hold_version_key ?m \<longrightarrow> keyed hold_version_key (go_set k (v\<lparr>hpv_SettlementEvaluationID := i\<rparr>) ?m))"
    if "go_get ?m k = Some v" for k v i
    using map_go_set_same [OF that, of hold_pin "v\<lparr>hpv_SettlementEvaluationID := i\<rparr>"] keyed_get [of hold_version_key ?m k v] that
    by (auto simp: hold_pin_def hold_version_key_def intro!: keyed_go_set)
  then show ?thesis by (auto simp: link_evaluation_def Let_def keeps_pins_def split: option.splits)
qed

definition settling_step :: "string \<Rightarrow> MemoryRepository \<Rightarrow> MemoryRepository \<Rightarrow> bool" where
  "settling_step op r r' \<longleftrightarrow>
     other_holds_kept op r r' \<and> auditLogs r' = auditLogs r \<and>
     aiOperations r' = aiOperations r \<and> aiAttempts r' = aiAttempts r \<and> billingLedgerEntries r' = billingLedgerEntries r \<and>
     usageRecords r' = usageRecords r \<and> pricingEvaluations r' = pricingEvaluations r \<and>
     transactionalOutboxEvents r' = transactionalOutboxEvents r \<and> aiJobs r' = aiJobs r \<and> aiJobEvents r' = aiJobEvents r \<and>
     artifacts r' = artifacts r \<and> artifactEvents r' = artifactEvents r \<and> keeps_pins r r' \<and> (holds_inv r \<longrightarrow> holds_inv r') \<and> grown hold_le (billingHolds r) (billingHolds r') \<and>
     (\<forall>k h. go_get (billingHolds r) k = Some h \<and> hold_Status h \<in> {BillingHoldStatusSettled, BillingHoldStatusReleased} \<longrightarrow>
        go_get (billingHolds r') k = Some h)"

lemma settling_step_refl [simp]: "settling_step op r r"
  by (simp add: settling_step_def grown_refl)

lemma settling_step_trans:
  assumes "settling_step op r r'" "settling_step op r' r''"
  shows "settling_step op r r''"
proof -
  have "other_holds_kept op r r''" "keeps_pins r r''" "grown hold_le (billingHolds r) (billingHolds r'')"
    using assms other_holds_kept_trans [of op r r' r''] keeps_pins_trans [of r r' r'']
      grown_trans [of hold_le "billingHolds r" "billingHolds r'" "billingHolds r''", OF hold_le_trans]
    by (simp_all add: settling_step_def)
  then show ?thesis using assms by (simp add: settling_step_def)
qed

lemma prepare_final: "prepareBillingHoldTransition h s a reason at = Inr h' \<Longrightarrow>
  hold_Status h = BillingHoldStatusSettled \<or> hold_Status h = BillingHoldStatusReleased \<Longrightarrow> h' = h"
  by (erule prepare_cases) (auto dest: transition_allowed_cases)

lemma hold_step_holds: "hold_step r r' \<Longrightarrow> grown hold_le (billingHolds r) (billingHolds r')"
proof -
  assume step: "hold_step r r'"
  have "hold_le h h'" if "prepareBillingHoldTransition h s a reason at = Inr h'" for h h' s a reason at
    using that by (rule prepare_cases) (simp_all add: hold_le_def)
  then show ?thesis using step by (auto simp: hold_step_def intro!: grown_set grown_refl)
qed

lemma hold_step_settling:
  assumes "hold_step r r'" "other_holds_kept op r r'"
  shows "settling_step op r r'"
proof -
  have "go_get (billingHolds r') k = Some h"
    if "go_get (billingHolds r) k = Some h" "hold_Status h \<in> {BillingHoldStatusSettled, BillingHoldStatusReleased}" for k h
    using assms(1) that by (auto simp: hold_step_def) (erule prepare_final, simp)+
  then show ?thesis
    using hold_step_frame [OF assms(1)] hold_step_inv [OF assms(1)] hold_step_holds [OF assms(1)] assms(2) unfolding settling_step_def by simp
qed

lemma link_evaluation_settling: "settling_step op r (link_evaluation record evaluation r)"
  using link_evaluation_pins [of r "record" evaluation]
  by (auto simp: settling_step_def link_evaluation_def Let_def grown_refl split: option.splits elim: holds_inv_mono)

lemma settling_step_holds: "settling_step op r r' \<Longrightarrow> holds_inv r \<Longrightarrow> holds_inv r'"
  by (simp add: settling_step_def)

lemma settle_evaluations_total:
  "holds_inv r \<Longrightarrow> \<exists>r'. settle_evaluations record es r = (r', None) \<and> settling_step (ur_OperationID record) r r'"
proof (induction es arbitrary: r)
  case (Cons e es)
  let ?r1 = "link_evaluation record e r"
  have h1: "holds_inv ?r1" "settling_step (ur_OperationID record) r ?r1"
    using settling_step_holds [OF link_evaluation_settling Cons.prems] link_evaluation_settling by blast+
  obtain r2 where r2: "move_hold [BillingHoldStatusSettled, BillingHoldStatusReleased, BillingHoldStatusDisputed]
       BillingHoldStatusDisputed ''pricing_evaluation_failed'' record ?r1 = (r2, None)" "hold_step ?r1 r2"
       "other_holds_kept (ur_OperationID record) ?r1 r2"
    by (rule move_hold_total [OF h1(1) disjI1]) auto
  have s2: "settling_step (ur_OperationID record) r r2" by (rule settling_step_trans [OF h1(2) hold_step_settling [OF r2(2,3)]])
  show ?case
    using Cons.IH [OF settling_step_holds [OF s2 Cons.prems]] Cons.IH [OF h1(1)] r2(1) s2 h1(2)
    by (auto simp: Let_def intro: settling_step_trans)
qed simp

lemma settle_unpriced_total:
  assumes "holds_inv r"
  shows "\<exists>r'. settle_unpriced record r = (r', None) \<and> settling_step (ur_OperationID record) r r'"
proof -
  obtain r' where "move_hold [BillingHoldStatusSettled, BillingHoldStatusReleased] BillingHoldStatusSettled ''usage_unpriced'' record r = (r', None)"
      "hold_step r r'" "other_holds_kept (ur_OperationID record) r r'"
    by (rule move_hold_total [OF assms disjI2]) auto
  then show ?thesis by (auto simp: settle_unpriced_def dest: hold_step_settling)
qed

text \<open>Either the amount is out of range and nothing is stored, or everything is.\<close>

lemma settle_and_store_cases:
  assumes "holds_inv r" "distinct (map bl_Purpose (st_Ledgers s))" "settle_and_store s r = (r', x)"
  obtains (failed) e where "r' = r" "x = Inl e" "settle_ledgers (st_Record s) (st_Ledgers s) r = (r, Some e)"
    | (stored) r1 r3 where "settle_ledgers (st_Record s) (st_Ledgers s) r = (r1, None)" "settling_step (ur_OperationID (st_Record s)) r r1" "settling_step (ur_OperationID (st_Record s)) r1 r3"
        "r' = store_settlement s r3" "x = Inr True"
proof -
  obtain r1 e where l: "settle_ledgers (st_Record s) (st_Ledgers s) r = (r1, e)" by fastforce
  have step: "e \<noteq> None \<and> r1 = r \<or> e = None \<and> settling_step (ur_OperationID (st_Record s)) r r1"
  proof (cases "find (\<lambda>b. bl_Purpose b = PricingPurposeUsageCost) (st_Ledgers s)")
    case (Some b)
    then have "settleMemoryBillingHoldForUsage (st_Record s) b r = (r1, e)" using l assms(2) by (simp add: settle_ledgers_eq)
    then show ?thesis by (rule settle_hold_cases [OF assms(1)]) (auto intro: hold_step_settling store_hold_others [OF assms(1)])
  qed (use l assms(2) in \<open>simp add: settle_ledgers_eq\<close>)
  show ?thesis
  proof (cases e)
    case (Some err)
    then show ?thesis using step l assms(3) by (intro failed [of err]) (auto simp: settle_and_store_def)
  next
    case None
    then have s1: "settling_step (ur_OperationID (st_Record s)) r r1" using step by simp
    have h1: "holds_inv r1" by (rule settling_step_holds [OF s1 assms(1)])
    obtain r2 where r2: "settle_evaluations (st_Record s) (st_Evaluations s) r1 = (r2, None)" "settling_step (ur_OperationID (st_Record s)) r1 r2"
      using settle_evaluations_total [OF h1] by blast
    obtain r3 where r3: "settle_unpriced (st_Record s) r2 = (r3, None)" "settling_step (ur_OperationID (st_Record s)) r2 r3"
      using settle_unpriced_total [OF settling_step_holds [OF r2(2) h1]] by blast
    have "(r', x) = (store_settlement s r3, Inr True)"
      using assms(3) l None r2(1) r3(1) by (simp add: settle_and_store_def)
    then show ?thesis using stored [OF _ s1 settling_step_trans [OF r2(2) r3(2)]] l None by simp
  qed
qed

section \<open>What a settlement stores\<close>

lemma normalized_settlement_sel [simp]:
  "st_Ledgers (normalized_settlement dims s) = st_Ledgers s" "st_Evaluations (normalized_settlement dims s) = st_Evaluations s"
  "st_Record (normalized_settlement dims s) = (st_Record s)\<lparr>ur_UsageDimensions := dims\<rparr>"
  "st_OutboxEvents (normalized_settlement dims s) = map normalizeTransactionalOutboxEvent (st_OutboxEvents s)"
  by (simp_all add: normalized_settlement_def)

lemma store_settlement_frame [simp]:
  "aiOperations (store_settlement s r) = aiOperations r" "aiAttempts (store_settlement s r) = aiAttempts r"
  "billingHolds (store_settlement s r) = billingHolds r" "aiJobs (store_settlement s r) = aiJobs r"
  "aiJobEvents (store_settlement s r) = aiJobEvents r" "billingHoldPricingVersions (store_settlement s r) = billingHoldPricingVersions r"
  "usageRecords (store_settlement s r) = go_set (ur_ID (st_Record s)) (st_Record s) (usageRecords r)"
  "billingLedgerEntries (store_settlement s r) = foldl (\<lambda>m b. go_set (bl_ID b) b m) (billingLedgerEntries r) (st_Ledgers s)"
  "pricingEvaluations (store_settlement s r) = foldl (\<lambda>m e. go_set (pe_ID e) e m) (pricingEvaluations r) (st_Evaluations s)"
  "transactionalOutboxEvents (store_settlement s r) =
     foldl (\<lambda>m e. go_set (ob_ID e) e m) (transactionalOutboxEvents r) (st_OutboxEvents s)"
  "auditLogs (store_settlement s r) = auditLogs r" "artifacts (store_settlement s r) = artifacts r" "artifactEvents (store_settlement s r) = artifactEvents r"
  by (simp_all add: store_settlement_def)

lemma normalize_outbox_ID: "ob_ID (normalizeTransactionalOutboxEvent e) = ob_ID e"
  by (simp add: normalizeTransactionalOutboxEvent_def)

lemma Apply_result:
  assumes "holds_inv r" "ApplyUsageSettlement s0 r = (r', x)"
  obtains (refused) "r' = r" "x \<noteq> Inr True"
    | (applied) dims s r1 r3 where "NormalizeUsageDimensions (ur_UsageDimensions (st_Record s0)) = Some dims"
        "s = normalized_settlement dims s0" "validateUsageSettlement s = None" "check_settlement_target (st_Record s) r = None"
        "settlement_known s r = Inr False" "check_settlement_insert s r = None"
        "settle_ledgers (st_Record s) (st_Ledgers s) r = (r1, None)" "settling_step (ur_OperationID (st_Record s)) r r1" "settling_step (ur_OperationID (st_Record s)) r1 r3"
        "r' = store_settlement s r3" "x = Inr True"
  using assms(2)
proof (cases rule: Apply_cases)
  case (applied dims s)
  from assms(1) validate_ledgers(2) [OF applied(3)] applied(7) show ?thesis
  proof (cases rule: settle_and_store_cases)
    case (failed e)
    then show ?thesis by (intro that(1)) simp_all
  next
    case (stored r1 r3)
    show ?thesis by (rule that(2) [OF applied(1-6) stored])
  qed
qed (rule that(1))

lemma check_ledgers_None: "check_ledgers m ls = None \<longleftrightarrow> (\<forall>b \<in> set ls. go_get m (bl_ID b) = None)"
  by (induction ls) auto

lemma check_evaluations_None: "check_evaluations m es = None \<longleftrightarrow> (\<forall>e \<in> set es. go_get m (pe_ID e) = None)"
  by (induction es) auto

lemma check_outbox_fresh: "check_outbox m es = None \<Longrightarrow> \<forall>e \<in> set es. go_get m (ob_ID e) = None"
  by (induction es) (auto simp: validateMemoryOutboxInsert_def split: option.splits if_splits)

lemma check_insert_fresh:
  assumes "check_settlement_insert s r = None"
  shows "go_get (usageRecords r) (ur_ID (st_Record s)) = None" "\<forall>b \<in> set (st_Ledgers s). go_get (billingLedgerEntries r) (bl_ID b) = None"
    "\<forall>e \<in> set (st_Evaluations s). go_get (pricingEvaluations r) (pe_ID e) = None"
    "\<forall>e \<in> set (st_OutboxEvents s). go_get (transactionalOutboxEvents r) (ob_ID e) = None"
  using assms check_outbox_fresh
  by (auto simp: check_settlement_insert_def check_ledgers_None check_evaluations_None split: if_splits option.splits)

lemma settlement_known_new:
  assumes "settlement_known s r = Inr False" "b \<in> set (st_Ledgers s)" "x \<in> set (go_values (billingLedgerEntries r))"
  shows "ledger_identity x \<noteq> ledger_identity b"
proof -
  have "existing_count (go_values (billingLedgerEntries r)) (st_Ledgers s) 0 = Some 0"
    using assms(1) by (auto simp: settlement_known_def Let_def split: option.splits if_splits)
  then show ?thesis by (rule existing_count_zero [OF _ assms(2,3)])
qed

text \<open>Amounts are 64-bit integers, and the entries of a settlement have different identifiers.\<close>

definition settlement_wf :: "UsageSettlement \<Rightarrow> bool" where
  "settlement_wf s \<longleftrightarrow> (\<forall>b \<in> set (st_Ledgers s). int64_ok (bl_AmountMicros b)) \<and> distinct (map bl_ID (st_Ledgers s))"

lemma settlement_wf_normalized [simp]: "settlement_wf (normalized_settlement dims s) = settlement_wf s"
  by (simp add: settlement_wf_def)

lemma target_operation: "check_settlement_target record r = None \<Longrightarrow> go_get (aiOperations r) (ur_OperationID record) \<noteq> None"
  by (auto simp: check_settlement_target_def split: if_splits)

lemma store_settlement_ledger_inv:
  assumes "ledger_inv r" "settlement_wf s" "validateUsageSettlement s = None" "check_settlement_target (st_Record s) r = None"
    and "settlement_known s r = Inr False" "settling_step op r r3"
  shows "ledger_inv (store_settlement s r3)"
proof -
  note ok = validate_ledgers [OF assms(3)] and target = target_operation [OF assms(4)]
  have frame: "aiOperations r3 = aiOperations r" "billingLedgerEntries r3 = billingLedgerEntries r" "usageRecords r3 = usageRecords r"
    using assms(6) by (simp_all add: settling_step_def)
  have "table bl_ID (ledger_entry_ok (aiOperations r)) (foldl (\<lambda>m b. go_set (bl_ID b) b m) (billingLedgerEntries r) (st_Ledgers s))"
    using ok(1) assms(2) target by (intro table_foldl ledger_table [OF assms(1)]) (auto simp: ledger_entry_ok_def settlement_wf_def)
  moreover have "unique_by ledger_identity (foldl (\<lambda>m b. go_set (bl_ID b) b m) (billingLedgerEntries r) (st_Ledgers s))"
  proof (rule unique_by_foldl [OF ledger_unique [OF assms(1)]])
    show "distinct (map ledger_identity (st_Ledgers s))"
      using ok(2,3) by (simp add: distinct_map)
    show "ledger_identity w \<noteq> ledger_identity b" if "b \<in> set (st_Ledgers s)" "go_get (billingLedgerEntries r) k = Some w" for b k w
      using settlement_known_new [OF assms(5) that(1)] keyed_get_value [OF table_keyed [OF ledger_table [OF assms(1)]] that(2)] by blast
  qed
  moreover have "table ur_ID (usage_refers (aiOperations r)) (go_set (ur_ID (st_Record s)) (st_Record s) (usageRecords r))"
    using target by (intro table_set usage_table [OF assms(1)]) (simp_all add: usage_refers_def)
  ultimately show ?thesis by (simp add: ledger_inv_def frame)
qed

lemma Apply_inv:
  assumes "holds_inv r" "ledger_inv r" "settlement_wf s0"
  shows "holds_inv (fst (ApplyUsageSettlement s0 r))" "ledger_inv (fst (ApplyUsageSettlement s0 r))"
proof -
  obtain r' x where eq: "ApplyUsageSettlement s0 r = (r', x)" by fastforce
  from assms(1) eq have "holds_inv r' \<and> ledger_inv r'"
  proof (cases rule: Apply_result)
    case (applied dims s r1 r3)
    have step: "settling_step (ur_OperationID (st_Record s)) r r3" by (rule settling_step_trans [OF applied(8,9)])
    have "ledger_inv r'" unfolding applied(10) using applied(2) assms(3)
      by (intro store_settlement_ledger_inv [OF assms(2) _ applied(3-5) step]) simp
    moreover have "holds_inv r'"
      using settling_step_holds [OF step assms(1)] by (rule holds_inv_mono) (simp_all add: applied(10))
    ultimately show ?thesis by simp
  qed (use assms in simp)
  then show "holds_inv (fst (ApplyUsageSettlement s0 r))" "ledger_inv (fst (ApplyUsageSettlement s0 r))" by (simp_all add: eq)
qed

section \<open>Amounts\<close>

text \<open>What is charged to an operation: the applied usage costs in the ledger.\<close>

definition charges :: "string \<Rightarrow> BillingLedgerEntry \<Rightarrow> bool" where
  "charges operationID b \<longleftrightarrow>
     bl_OperationID b = operationID \<and> bl_Purpose b = PricingPurposeUsageCost \<and> bl_Status b = BillingLedgerStatusApplied"

definition charged :: "string \<Rightarrow> MemoryRepository \<Rightarrow> int" where
  "charged operationID r = (\<Sum>b \<leftarrow> filter (charges operationID) (go_values (billingLedgerEntries r)). bl_AmountMicros b)"

lemma cumulative_loop_eq:
  assumes "0 \<le> acc" "acc \<le> max_int64" "\<forall>b \<in> set xs. 0 \<le> bl_AmountMicros b"
  shows "cumulative_loop current xs acc =
    (let t = acc + (\<Sum>b \<leftarrow> filter (charges (bl_OperationID current)) xs. bl_AmountMicros b) in if t \<le> max_int64 then Some t else None)"
  using assms
proof (induction xs arbitrary: acc)
  case (Cons b xs)
  have nonneg: "0 \<le> (\<Sum>b \<leftarrow> filter (charges (bl_OperationID current)) xs. bl_AmountMicros b)"
    using Cons.prems(3) by (intro sum_list_nonneg) auto
  have "wrap64 (max_int64 - acc) = max_int64 - acc" using Cons.prems(1,2) by (intro wrap64_id) (simp add: int64_ok_def)
  moreover have "wrap64 (acc + bl_AmountMicros b) = acc + bl_AmountMicros b" if "bl_AmountMicros b \<le> max_int64 - acc"
    using that Cons.prems by (intro wrap64_id) (simp add: int64_ok_def)
  ultimately show ?case
    using Cons.IH [of acc] Cons.IH [of "acc + bl_AmountMicros b"] Cons.prems nonneg by (auto simp: charges_def [of _ b] Let_def)
qed (simp add: Let_def)

lemma cumulative_amount:
  assumes "ledger_inv r" "cumulativeMemoryBillingAmount r b = Inr amount" "0 \<le> bl_AmountMicros b" "bl_AmountMicros b \<le> max_int64"
  shows "amount = bl_AmountMicros b + charged (bl_OperationID b) r"
proof -
  have "0 \<le> bl_AmountMicros x" if "x \<in> set (go_values (billingLedgerEntries r))" for x
    using table_get [OF ledger_table [OF assms(1)]] table_values [OF ledger_table [OF assms(1)]] that by (auto simp: ledger_entry_ok_def)
  then show ?thesis
    using assms(2-4) cumulative_loop_eq [of "bl_AmountMicros b" "go_values (billingLedgerEntries r)" b]
    by (auto simp: cumulativeMemoryBillingAmount_def charged_def Let_def split: option.splits if_splits)
qed

lemma store_settlement_charged:
  assumes "settlement_wf s" "validateUsageSettlement s = None" "\<forall>b \<in> set (st_Ledgers s). go_get (billingLedgerEntries r) (bl_ID b) = None"
    and "b \<in> set (st_Ledgers s)" "bl_Purpose b = PricingPurposeUsageCost"
  shows "charged (bl_OperationID b) (store_settlement s r) = charged (bl_OperationID b) r + bl_AmountMicros b"
proof -
  note ok = validate_ledgers [OF assms(2)]
  have "filter (charges (bl_OperationID b)) (st_Ledgers s) = filter (\<lambda>x. bl_Purpose x = bl_Purpose b) (st_Ledgers s)"
    using ok(1) assms(4,5) by (intro filter_cong) (auto simp: charges_def)
  also have "\<dots> = [b]" by (rule filter_distinct_key [OF ok(2) assms(4)])
  finally show ?thesis
    using go_values_foldl_fresh [OF _ assms(3)] assms(1) by (simp add: charged_def settlement_wf_def)
qed

section \<open>Repeating a settlement\<close>

lemma same_usage_refl:
  assumes "NormalizeUsageDimensions (ur_UsageDimensions u) = Some (ur_UsageDimensions u)"
  shows "same_usage u u"
  using usageDimensionsEqual_refl [OF assms] by (simp add: same_usage_def optionalMoneyEqual_def split: option.split)

text \<open>A settlement whose ledger entries and usage record are stored with the same content is known.\<close>

lemma replay:
  assumes "ledger_inv r" "NormalizeUsageDimensions (ur_UsageDimensions (st_Record s0)) = Some dims" "s = normalized_settlement dims s0"
    and "validateUsageSettlement s = None" "check_settlement_target (st_Record s) r = None"
    and "go_get (usageRecords r) (ur_ID (st_Record s)) = Some u" "same_usage u (st_Record s)"
    and "\<forall>b \<in> set (st_Ledgers s). \<exists>b'. go_get (billingLedgerEntries r) (bl_ID b) = Some b' \<and> sameBillingLedgerContent b' b"
  shows "ApplyUsageSettlement s0 r = (r, Inr False)"
proof -
  have "existing_count (go_values (billingLedgerEntries r)) (st_Ledgers s) 0 = Some (length (st_Ledgers s))"
    using existing_count_all [OF ledger_table [OF assms(1)] ledger_unique [OF assms(1)] assms(8)] by simp
  then have "settlement_known s r = Inr True"
    using assms(6,7) by (simp add: settlement_known_def Let_def)
  then show ?thesis using assms(3-5) by (simp add: Apply_eq [OF assms(2)])
qed

text \<open>What a settlement keeps: operations, attempts, usage records and ledger entries.\<close>

definition keeps_ledger :: "MemoryRepository \<Rightarrow> MemoryRepository \<Rightarrow> bool" where
  "keeps_ledger r r' \<longleftrightarrow> aiOperations r' = aiOperations r \<and> aiAttempts r' = aiAttempts r \<and>
     (\<forall>k u. go_get (usageRecords r) k = Some u \<longrightarrow> go_get (usageRecords r') k = Some u) \<and>
     (\<forall>k b. go_get (billingLedgerEntries r) k = Some b \<longrightarrow> go_get (billingLedgerEntries r') k = Some b)"

lemma Apply_keeps:
  assumes "holds_inv r"
  shows "keeps_ledger r (fst (ApplyUsageSettlement s0 r))"
proof -
  obtain r' x where eq: "ApplyUsageSettlement s0 r = (r', x)" by fastforce
  from assms eq have "keeps_ledger r r'"
  proof (cases rule: Apply_result)
    case (applied dims s r1 r3)
    note fresh = check_insert_fresh [OF applied(6)]
    have step: "settling_step (ur_OperationID (st_Record s)) r r3" by (rule settling_step_trans [OF applied(8,9)])
    have "go_get (billingLedgerEntries r') k = Some b" if "go_get (billingLedgerEntries r) k = Some b" for k b
    proof -
      have "k \<notin> bl_ID ` set (st_Ledgers s)" using fresh(2) that by auto
      then show ?thesis using that step foldl_go_set_other [of k bl_ID "st_Ledgers s"] by (simp add: applied(10) settling_step_def)
    qed
    then show ?thesis using fresh(1) step by (auto simp: keeps_ledger_def applied(10) settling_step_def)
  qed (simp add: keeps_ledger_def)
  then show ?thesis by (simp add: eq)
qed

fun settle_all :: "UsageSettlement list \<Rightarrow> MemoryRepository \<Rightarrow> MemoryRepository" where
  "settle_all [] r = r"
| "settle_all (s # ss) r = settle_all ss (fst (ApplyUsageSettlement s r))"

lemma settle_all_keeps:
  "holds_inv r \<Longrightarrow> ledger_inv r \<Longrightarrow> list_all settlement_wf ss \<Longrightarrow>
   keeps_ledger r (settle_all ss r) \<and> holds_inv (settle_all ss r) \<and> ledger_inv (settle_all ss r)"
proof (induction ss arbitrary: r)
  case (Cons s ss)
  then have "keeps_ledger (fst (ApplyUsageSettlement s r)) (settle_all (s # ss) r) \<and> holds_inv (settle_all (s # ss) r) \<and> ledger_inv (settle_all (s # ss) r)"
    using Apply_inv [of r s] by simp
  then show ?case using Apply_keeps [OF Cons.prems(1), of s] by (auto simp: keeps_ledger_def)
qed (simp add: keeps_ledger_def)

text \<open>What an applied settlement leaves behind, also after further settlements.\<close>

lemma applied_stored:
  assumes "holds_inv r" "ledger_inv r" "settlement_wf s" "list_all settlement_wf ss" "ApplyUsageSettlement s r = (r', Inr True)"
  obtains dims where "NormalizeUsageDimensions (ur_UsageDimensions (st_Record s)) = Some dims" "ledger_inv (settle_all ss r')"
    "keeps_ledger r (settle_all ss r')" "validateUsageSettlement (normalized_settlement dims s) = None"
    "check_settlement_target (st_Record (normalized_settlement dims s)) (settle_all ss r') = None"
    "go_get (usageRecords (settle_all ss r')) (ur_ID (st_Record s)) = Some (st_Record (normalized_settlement dims s))"
    "\<forall>b \<in> set (st_Ledgers s). go_get (billingLedgerEntries (settle_all ss r')) (bl_ID b) = Some b"
  using assms(1,5)
proof (cases rule: Apply_result)
  case (applied dims s' r1 r3)
  let ?r = "settle_all ss r'"
  have "holds_inv r'" "ledger_inv r'" using Apply_inv [OF assms(1-3)] by (simp_all add: assms(5))
  then have keep: "keeps_ledger r' ?r" "ledger_inv ?r" using settle_all_keeps assms(4) by blast+
  have "keeps_ledger r r'" using Apply_keeps [OF assms(1), of s] by (simp add: assms(5))
  then have all: "keeps_ledger r ?r" using keep(1) by (auto simp: keeps_ledger_def)
  have "go_get (billingLedgerEntries r') (bl_ID b) = Some b" if "b \<in> set (st_Ledgers s)" for b
    using foldl_go_set_get [of bl_ID "st_Ledgers s" "billingLedgerEntries r3" "bl_ID b"] find_distinct [OF _ that, of bl_ID] assms(3)
    by (simp add: applied(2,10) settlement_wf_def)
  then have "\<forall>b \<in> set (st_Ledgers s). go_get (billingLedgerEntries ?r) (bl_ID b) = Some b" using keep(1) by (simp add: keeps_ledger_def)
  moreover have "check_settlement_target (st_Record s') ?r = None"
    using applied(4) all unfolding check_settlement_target_def by (simp only: keeps_ledger_def)
  moreover have "go_get (usageRecords ?r) (ur_ID (st_Record s')) = Some (st_Record s')" using keep(1) by (simp add: keeps_ledger_def applied(10))
  ultimately show ?thesis using that [OF applied(1) keep(2) all] applied(2,3) by simp
qed simp

section \<open>A small settlement\<close>

definition example_settlement_facts :: Facts where
  "example_settlement_facts = \<lparr>f_TotalInputTokens = 0, f_UncachedInputTokens = 0, f_CacheReadTokens = 0,
     f_CacheWrite5mTokens = 0, f_CacheWrite1hTokens = 0, f_OutputTokens = 0, f_CacheFieldsPresent = False,
     f_InputImages = 0, f_OutputImages = 0, f_PartialImages = 0, f_InputVideoMilliseconds = 0,
     f_OutputVideoMilliseconds = 0, f_InputAudioMilliseconds = 0, f_OutputAudioMilliseconds = 0,
     f_RealtimeAudioMilliseconds = 0, f_InputCharacters = 0, f_Actions = 0, f_BatchItems = 0, f_InputBytes = 0,
     f_OutputBytes = 0, f_TransferBytes = 0, f_SessionMilliseconds = 0, f_Protocol = ''openai'',
     f_Operation = [], f_Modality = [], f_Lane = [], f_Stream = False, f_OutputCount = 0, f_ServiceTier = [],
     f_AvailableFacts = [], f_NormalizationStatus = [], f_Phase = [], f_ObservedAt = 0\<rparr>"

definition example_usage :: UsageRecord where
  "example_usage = \<lparr>ur_ID = ''u'', ur_OperationID = ''a'', ur_AttemptID = [], ur_UsageVersion = 1, ur_UsageSource =
     ''gateway_final'', ur_RequestFingerprint = ''f'', ur_APIKeyID = [], ur_ApplicationID = [], ur_ApplicationName = [],
     ur_GatewayPrincipalID = [], ur_GatewayPrincipalName = [], ur_ExternalAuthIntegrationID = [],
     ur_ExternalSubjectReference = [], ur_APIFingerprint = [], ur_Model = [], ur_UpstreamModel = [], ur_Protocol = [],
     ur_ProviderID = [], ur_ProviderAccountID = [], ur_Status = [], ur_ErrorType = [], ur_LatencyMS = 0, ur_TTFTMS = None,
     ur_InputTokens = 0, ur_OutputTokens = 0, ur_TotalInputTokens = None, ur_UncachedInputTokens = None, ur_CacheReadTokens
     = None, ur_CacheWrite5mTokens = None, ur_CacheWrite1hTokens = None, ur_CacheFieldsPresent = False, ur_UsageDimensions
     = [], ur_UsageNormalizationStatus = [], ur_UpstreamRequestID = [], ur_ProcurementCostMicros = None,
     ur_ProcurementCostCurrency = [], ur_ProcurementCostSource = [], ur_ProcurementCostConfidence = [],
     ur_ProcurementPriceID = [], ur_ProviderBillingLineID = [], ur_UsageCostMicros = Some 5, ur_UsageCostCurrency = [],
     ur_UsagePricingEvaluationID = [], ur_PricingStatus = [], ur_CreatedAt = 6\<rparr>"

definition example_evaluation :: PricingEvaluation where
  "example_evaluation = \<lparr>pe_ID = ''e'', pe_Purpose = PricingPurposeUsageCost, pe_Phase = PhaseSettlement, pe_OperationID = ''a'',
     pe_AttemptID = [], pe_UsageRecordID = ''u'', pe_UsageVersion = 1, pe_PricingRuleID = [], pe_PricingRuleVersionID =
     ''v'', pe_EngineVersion = 1, pe_ExpressionHash = [], pe_FactsHash = [], pe_Facts = example_settlement_facts, pe_AmountMicros = Some
     5, pe_Currency = CurrencyUSD, pe_MatchedTier = [], pe_Lines = [], pe_NormalizationStatus = [], pe_Status =
     PricingEvaluationStatusSuccess, pe_FailureCode = [], pe_ReplayOfID = [], pe_CreatedAt = 0\<rparr>"

definition example_ledger :: BillingLedgerEntry where
  "example_ledger = \<lparr>bl_ID = ''l'', bl_OperationID = ''a'', bl_AttemptID = [], bl_UsageVersion = 1, bl_UsageRecordID = ''u'',
     bl_RequestFingerprint = ''f'', bl_Purpose = PricingPurposeUsageCost, bl_AmountMicros = 5, bl_Currency = CurrencyUSD,
     bl_PricingEvaluationID = ''e'', bl_PricingRuleVersionID = ''v'', bl_Status = BillingLedgerStatusApplied, bl_CreatedAt
     = 6\<rparr>"

definition example_settlement :: UsageSettlement where
  "example_settlement = \<lparr>st_Record = example_usage, st_Evaluations = [example_evaluation], st_Ledgers = [example_ledger], st_OutboxEvents = []\<rparr>"

lemma example_settlement_sel [simp]:
  "st_Record example_settlement = example_usage" "st_Ledgers example_settlement = [example_ledger]"
  "st_Evaluations example_settlement = [example_evaluation]" "st_OutboxEvents example_settlement = []"
  "ur_UsageDimensions example_usage = []" "ur_OperationID example_usage = ''a''" "ur_ID example_usage = ''u''"
  "ur_AttemptID example_usage = []" "example_usage\<lparr>ur_UsageDimensions := []\<rparr> = example_usage"
  "bl_ID example_ledger = ''l''" "bl_Purpose example_ledger = PricingPurposeUsageCost" "bl_AmountMicros example_ledger = 5"
  "bl_OperationID example_ledger = ''a''" "pe_ID example_evaluation = ''e''" "ur_CreatedAt example_usage = 6"
  by (simp_all add: example_settlement_def example_usage_def example_ledger_def example_evaluation_def)

lemma example_normalized_settlement:
  "NormalizeUsageDimensions [] = Some []" "normalized_settlement [] example_settlement = example_settlement"
  by (simp_all add: NormalizeUsageDimensions_def normalized_settlement_def example_settlement_def example_usage_def)

lemma example_settlement_valid: "validateUsageSettlement example_settlement = None"
  by (simp add: validateUsageSettlement_def Let_def)
    (simp add: example_usage_def example_evaluation_def example_ledger_def example_TrimSpace)

lemma example_final: "billingHoldUsageIsFinal example_usage"
proof -
  have "ToLower (TrimSpace ''gateway_final'') = ''gateway_final''" by code_simp
  then show ?thesis by (simp add: billingHoldUsageIsFinal_def example_usage_def)
qed

lemma example_cumulative: "cumulativeMemoryBillingAmount example_repository example_ledger = Inr 5"
  by (simp add: cumulativeMemoryBillingAmount_def example_repository_sel)

lemma example_wf: "settlement_wf example_settlement" "ledger_inv example_repository"
  by (simp_all add: settlement_wf_def int64_ok_def ledger_inv_def example_repository_sel)

lemma example_applies: "\<exists>r'. ApplyUsageSettlement example_settlement example_repository = (r', Inr True)"
proof -
  obtain r' x where eq: "settle_and_store example_settlement example_repository = (r', x)" by fastforce
  have "x = Inr True"
  proof -
    have "snd (settle_ledgers example_usage [example_ledger] example_repository) = None"
      using example_final example_cumulative prepare_total [of "example_hold ''a'' 1" 5 "''usage_ledger_applied''" 6]
      by (auto simp: settleMemoryBillingHoldForUsage_def example_repository_hold split: prod.splits)
    moreover have "distinct (map bl_Purpose (st_Ledgers example_settlement))" by simp
    from example_repository_holds this eq have "x = Inr True \<or> snd (settle_ledgers example_usage [example_ledger] example_repository) \<noteq> None"
      by (cases rule: settle_and_store_cases) simp_all
    ultimately show ?thesis by simp
  qed
  then show ?thesis
    using eq by (simp add: Apply_eq example_normalized_settlement example_settlement_valid check_settlement_target_def
        settlement_known_def check_settlement_insert_def example_repository_sel Let_def)
qed

section \<open>Properties\<close>

text \<open>
  C3: a settlement is all or nothing. If it is refused, or was applied before, the repository is
  unchanged, even when the refusal comes after the hold was looked at. If it is applied, the
  tables of usage records, ledger entries, pricing evaluations and outbox events are the old ones
  with exactly the settlement's record (its dimensions normalised), ledger entries, evaluations
  and (normalised) outbox events added under ids that were free: nothing stored is overwritten.
  Of the holds only that of the operation may change, none is lost, and operations, attempts,
  jobs, artifacts, their events and the audit logs are as before.
\<close>

theorem settlement_atomic:
  assumes "holds_inv r" "settlement_wf s" "ApplyUsageSettlement s r = (r', x)"
  shows "x \<noteq> Inr True \<and> r' = r \<or>
    x = Inr True \<and>
    (\<exists>dims. NormalizeUsageDimensions (ur_UsageDimensions (st_Record s)) = Some dims \<and>
       inserted ur_ID [(st_Record s)\<lparr>ur_UsageDimensions := dims\<rparr>] (usageRecords r) (usageRecords r')) \<and>
    inserted bl_ID (st_Ledgers s) (billingLedgerEntries r) (billingLedgerEntries r') \<and>
    (\<forall>b \<in> set (st_Ledgers s). go_get (billingLedgerEntries r') (bl_ID b) = Some b) \<and>
    inserted pe_ID (st_Evaluations s) (pricingEvaluations r) (pricingEvaluations r') \<and>
    inserted ob_ID (map normalizeTransactionalOutboxEvent (st_OutboxEvents s)) (transactionalOutboxEvents r) (transactionalOutboxEvents r') \<and>
    other_holds_kept (ur_OperationID (st_Record s)) r r' \<and> grown hold_le (billingHolds r) (billingHolds r') \<and> keeps_pins r r' \<and>
    aiOperations r' = aiOperations r \<and> aiAttempts r' = aiAttempts r \<and> aiJobs r' = aiJobs r \<and> aiJobEvents r' = aiJobEvents r \<and>
    artifacts r' = artifacts r \<and> artifactEvents r' = artifactEvents r \<and> auditLogs r' = auditLogs r"
  using assms(1,3)
proof (cases rule: Apply_result)
  case (applied dims s' r1 r3)
  note fresh = check_insert_fresh [OF applied(6)]
  have step: "settling_step (ur_OperationID (st_Record s)) r r3" using settling_step_trans [OF applied(8,9)] by (simp add: applied(2))
  then have tables: "inserted ur_ID [st_Record s'] (usageRecords r) (usageRecords r')"
    "inserted bl_ID (st_Ledgers s) (billingLedgerEntries r) (billingLedgerEntries r')"
    "inserted pe_ID (st_Evaluations s) (pricingEvaluations r) (pricingEvaluations r')"
    "inserted ob_ID (map normalizeTransactionalOutboxEvent (st_OutboxEvents s)) (transactionalOutboxEvents r) (transactionalOutboxEvents r')"
    using inserted_one [of "usageRecords r" ur_ID "st_Record s'", OF fresh(1)] inserted_foldl [OF fresh(2)] inserted_foldl [OF fresh(3)] inserted_foldl [OF fresh(4)]
    by (simp_all add: settling_step_def applied(2,10))
  moreover have "\<forall>b \<in> set (st_Ledgers s). go_get (billingLedgerEntries r') (bl_ID b) = Some b"
    using inserted_get [OF tables(2)] assms(2) by (simp add: settlement_wf_def)
  moreover have "other_holds_kept (ur_OperationID (st_Record s)) r r'" "keeps_pins r r'"
    using step by (simp_all add: settling_step_def other_holds_kept_def keeps_pins_def applied(10))
  ultimately show ?thesis using step applied(1) by (auto simp: settling_step_def applied(2,10,11))
qed simp

theorem settlement_atomic_witness:
  "\<exists>r'. ApplyUsageSettlement example_settlement example_repository = (r', Inr True) \<and>
     go_get (usageRecords r') ''u'' = Some example_usage \<and> go_get (billingLedgerEntries r') ''l'' = Some example_ledger \<and>
     go_get (pricingEvaluations r') ''e'' = Some example_evaluation \<and> auditLogs r' = auditLogs example_repository"
proof -
  obtain r' where r': "ApplyUsageSettlement example_settlement example_repository = (r', Inr True)" using example_applies by blast
  show ?thesis
    using settlement_atomic [OF example_repository_holds example_wf(1) r'] r' by (auto simp: example_normalized_settlement inserted_def)
qed

text \<open>
  C1: a settlement is applied exactly once. After it has been applied, and after any further
  settlements, applying it again reports that it was applied before and changes nothing.
\<close>

theorem settlement_exactly_once:
  assumes "holds_inv r" "ledger_inv r" "settlement_wf s" "list_all settlement_wf ss"
    and "ApplyUsageSettlement s r = (r', Inr True)"
  shows "ApplyUsageSettlement s (settle_all ss r') = (settle_all ss r', Inr False)"
proof -
  let ?r = "settle_all ss r'"
  obtain dims where a: "NormalizeUsageDimensions (ur_UsageDimensions (st_Record s)) = Some dims" "ledger_inv ?r" "keeps_ledger r ?r"
    "validateUsageSettlement (normalized_settlement dims s) = None" "check_settlement_target (st_Record (normalized_settlement dims s)) ?r = None"
    "go_get (usageRecords ?r) (ur_ID (st_Record s)) = Some (st_Record (normalized_settlement dims s))"
    "\<forall>b \<in> set (st_Ledgers s). go_get (billingLedgerEntries ?r) (bl_ID b) = Some b"
    by (rule applied_stored [OF assms])
  have "same_usage (st_Record (normalized_settlement dims s)) (st_Record (normalized_settlement dims s))"
    using Normalize_id [OF Normalize_normal [OF a(1)]] by (intro same_usage_refl) simp
  then show ?thesis using replay [OF a(2,1)] a(4-7) sameContent_refl by simp
qed

theorem settlement_exactly_once_witness:
  "\<exists>r'. ApplyUsageSettlement example_settlement example_repository = (r', Inr True) \<and>
     ApplyUsageSettlement example_settlement r' = (r', Inr False)"
  using example_applies settlement_exactly_once [OF example_repository_holds example_wf(2,1), of "[]"] by auto

text \<open>
  C2: settling charges exactly the ledger. When a settlement with a final usage cost is applied to
  an operation whose hold is still open, the hold becomes settled, and its settled amount is the
  sum of the applied usage costs of the operation in the ledger, the new one included.
\<close>

theorem settlement_charges_ledger:
  assumes "holds_inv r" "ledger_inv r" "settlement_wf s" "ApplyUsageSettlement s r = (r', Inr True)"
    and "billingHoldUsageIsFinal (st_Record s)" "b \<in> set (st_Ledgers s)" "bl_Purpose b = PricingPurposeUsageCost"
    and "memoryBillingHoldForOperation (billingHolds r) (bl_OperationID b) = Some h"
    and "billingHoldCountsAgainstBudget (hold_Status h)"
  shows "\<exists>h'. memoryBillingHoldForOperation (billingHolds r') (bl_OperationID b) = Some h' \<and> hold_ID h' = hold_ID h \<and>
    hold_Status h' = BillingHoldStatusSettled \<and> hold_SettledAmountMicros h' = charged (bl_OperationID b) r'"
  using assms(1,4)
proof (cases rule: Apply_result)
  case (applied dims s' r1 r3)
  note ok = validate_ledgers [OF applied(3)]
  have op: "ur_OperationID (st_Record s') = bl_OperationID b" and amount: "0 \<le> bl_AmountMicros b" "bl_AmountMicros b \<le> max_int64"
    using ok(1) assms(3,6) applied(2) by (auto simp: settlement_wf_def int64_ok_def)
  have "find (\<lambda>x. bl_Purpose x = PricingPurposeUsageCost) (st_Ledgers s') = Some b"
    using find_distinct [OF ok(2), of b] assms(6,7) applied(2) by simp
  then have "settleMemoryBillingHoldForUsage (st_Record s') b r = (r1, None)"
    using applied(7) by (simp add: settle_ledgers_eq [OF ok(2)])
  with assms(1) show ?thesis
  proof (cases rule: settle_hold_cases)
    case skipped
    have "billingHoldUsageIsFinal (st_Record s')" using assms(5) applied(2) by (simp add: billingHoldUsageIsFinal_def)
    then show ?thesis using skipped(3) assms(8,9) op by (auto simp: billingHoldCountsAgainstBudget_def)
  next
    case (settled h1 h' a)
    have h1: "h1 = h" using settled(3) assms(8) op by simp
    have sum: "a = bl_AmountMicros b + charged (bl_OperationID b) r" by (rule cumulative_amount [OF assms(2) settled(4) amount])
    have "go_get (billingHolds r1) (hold_ID h') = Some h'" using settled(5,9) by simp
    then have "go_get (billingHolds r3) (hold_ID h') = Some h'" using applied(9) settled(7) by (simp add: settling_step_def)
    moreover have r3: "holds_inv r3" "settling_step (ur_OperationID (st_Record s')) r r3"
      using settling_step_holds [OF _ assms(1)] settling_step_trans [OF applied(8,9)] by blast+
    moreover have "hold_OperationID h' = bl_OperationID b"
      using settled(10) hold_for_operation [OF assms(1,8)] h1 by simp
    ultimately have "memoryBillingHoldForOperation (billingHolds r3) (bl_OperationID b) = Some h'"
      using hold_for_operation_iff [OF r3(1)] by blast
    moreover have "charged (bl_OperationID b) r' = charged (bl_OperationID b) r3 + bl_AmountMicros b"
      using store_settlement_charged [OF _ applied(3), of r3 b] check_insert_fresh(2) [OF applied(6)] assms(3,6,7) applied(2) r3(2)
      by (simp add: applied(10) settling_step_def)
    moreover have "charged (bl_OperationID b) r3 = charged (bl_OperationID b) r" using r3(2) by (simp add: charged_def settling_step_def)
    ultimately show ?thesis using settled(7-9) h1 sum by (auto simp: applied(10))
  qed simp
qed simp

theorem settlement_charges_ledger_witness:
  "\<exists>r' h'. ApplyUsageSettlement example_settlement example_repository = (r', Inr True) \<and>
     memoryBillingHoldForOperation (billingHolds r') ''a'' = Some h' \<and> hold_Status h' = BillingHoldStatusSettled \<and>
     hold_SettledAmountMicros h' = charged ''a'' r'"
proof -
  obtain r' where r': "ApplyUsageSettlement example_settlement example_repository = (r', Inr True)" using example_applies by blast
  show ?thesis
    using settlement_charges_ledger [OF example_repository_holds example_wf(2,1) r', of example_ledger "example_hold ''a'' 1"] r'
      example_final example_repository_hold by (auto simp: billingHoldCountsAgainstBudget_def)
qed

end
