(* ===== verification/AI_Job_Ready_Index.thy ===== *)
theory AI_Job_Ready_Index
  imports AI_Job_Scheduling
begin

text \<open>
  The index of ready jobs: the in-memory index of
  \<^verbatim>\<open>backend/internal/controlplane/ai_job_ready_index.go\<close> with its round robin over principals, and the two
  functions through which \<^verbatim>\<open>ai_job_service.go\<close> keeps an index current. The index only gives hints, and the
  service reaches every index through the interface \<^verbatim>\<open>AIJobReadyIndex\<close>, the locale
  \<open>job_ready_index\<close> here.
\<close>

section \<open>Data\<close>

datatype ready_error = ErrAIJobReadyIndexConfig | ErrAIJobReadyIndexConflict

record AIJobReadyEntry =
  re_JobID :: string
  re_Status :: string
  re_StatusVersion :: int
  re_FenceToken :: int
  re_ApplicationID :: string
  re_CredentialSource :: string
  re_IntegrationID :: string
  re_PrincipalType :: string
  re_PrincipalID :: string
  re_ExternalSubjectReference :: string
  re_Priority :: int
  re_ReadyAt :: gotime
  re_CreatedAt :: gotime

record AIJobReadyReference =
  rr_JobID :: string
  rr_StatusVersion :: int

record AIJobReadyQuery =
  rq_ReadyAt :: gotime
  rq_Limit :: int

datatype ready_level = AIJobReadyScopeAll | AIJobReadyScopeApplication | AIJobReadyScopePrincipal | AIJobReadyScopeOther

record AIJobReadyScope =
  sc_Level :: ready_level
  sc_ApplicationID :: string
  sc_CredentialSource :: string
  sc_IntegrationID :: string
  sc_PrincipalType :: string
  sc_PrincipalID :: string
  sc_ExternalSubjectReference :: string

section \<open>Entries\<close>

definition normalizeAIJobReadyEntry :: "AIJobReadyEntry \<Rightarrow> AIJobReadyEntry" where
  "normalizeAIJobReadyEntry e =
     e\<lparr>re_JobID := TrimSpace (re_JobID e), re_Status := TrimSpace (re_Status e),
       re_ApplicationID := TrimSpace (re_ApplicationID e), re_CredentialSource := TrimSpace (re_CredentialSource e),
       re_IntegrationID := TrimSpace (re_IntegrationID e), re_PrincipalType := TrimSpace (re_PrincipalType e),
       re_PrincipalID := TrimSpace (re_PrincipalID e),
       re_ExternalSubjectReference := TrimSpace (re_ExternalSubjectReference e)\<rparr>"

definition aiJobReadyAt :: "AIJob \<Rightarrow> gotime" where
  "aiJobReadyAt job =
     (case job_QueueLeaseUntil job of
        Some t \<Rightarrow> if job_Status job = AIJobStatusDispatching then t else job_NextEligibleAt job
      | None \<Rightarrow> job_NextEligibleAt job)"

definition validateAIJobReadyEntry :: "AIJobReadyEntry \<Rightarrow> ready_error option" where
  "validateAIJobReadyEntry e =
     (if TrimSpace (re_JobID e) = [] \<or> re_StatusVersion e \<le> 0 \<or> TrimSpace (re_ApplicationID e) = [] \<or>
         TrimSpace (re_PrincipalID e) = [] \<or> re_ReadyAt e = zero_time \<or> re_CreatedAt e = zero_time \<or>
         \<not> oneOf (re_Status e) [AIJobStatusQueued, AIJobStatusDispatching]
      then Some ErrAIJobReadyIndexConfig else None)"

definition newAIJobReadyEntry :: "AIJob \<Rightarrow> ready_error + AIJobReadyEntry" where
  "newAIJobReadyEntry job =
     (if job_Status job = AIJobStatusDispatching \<and> job_QueueLeaseUntil job = None then Inl ErrAIJobReadyIndexConfig
      else
        (let entry = normalizeAIJobReadyEntry
               \<lparr>re_JobID = job_ID job, re_Status = job_Status job, re_StatusVersion = job_StatusVersion job,
                re_FenceToken = job_FenceToken job, re_ApplicationID = job_ApplicationID job,
                re_CredentialSource = job_CredentialSource job, re_IntegrationID = job_IntegrationID job,
                re_PrincipalType = job_PrincipalType job, re_PrincipalID = job_PrincipalID job,
                re_ExternalSubjectReference = job_ExternalSubjectReference job, re_Priority = job_Priority job,
                re_ReadyAt = aiJobReadyAt job, re_CreatedAt = job_CreatedAt job\<rparr>
         in case validateAIJobReadyEntry entry of Some e \<Rightarrow> Inl e | None \<Rightarrow> Inr entry))"

definition entry_reference :: "AIJobReadyEntry \<Rightarrow> AIJobReadyReference" where
  "entry_reference e = \<lparr>rr_JobID = re_JobID e, rr_StatusVersion = re_StatusVersion e\<rparr>"

section \<open>Scopes\<close>

definition aiJobReadyScopeForEntry :: "ready_level \<Rightarrow> AIJobReadyEntry \<Rightarrow> AIJobReadyScope" where
  "aiJobReadyScopeForEntry level e =
     \<lparr>sc_Level = level, sc_ApplicationID = re_ApplicationID e, sc_CredentialSource = re_CredentialSource e,
      sc_IntegrationID = re_IntegrationID e, sc_PrincipalType = re_PrincipalType e, sc_PrincipalID = re_PrincipalID e,
      sc_ExternalSubjectReference = re_ExternalSubjectReference e\<rparr>"

definition validateAIJobReadyScope :: "AIJobReadyScope \<Rightarrow> ready_error option" where
  "validateAIJobReadyScope s =
     (case sc_Level s of
        AIJobReadyScopeAll \<Rightarrow> None
      | AIJobReadyScopeApplication \<Rightarrow>
          if TrimSpace (sc_ApplicationID s) \<noteq> [] then None else Some ErrAIJobReadyIndexConfig
      | AIJobReadyScopePrincipal \<Rightarrow>
          if TrimSpace (sc_ApplicationID s) \<noteq> [] \<and> TrimSpace (sc_PrincipalID s) \<noteq> [] then None
          else Some ErrAIJobReadyIndexConfig
      | AIJobReadyScopeOther \<Rightarrow> Some ErrAIJobReadyIndexConfig)"

definition aiJobReadyScopeKey :: "AIJobReadyScope \<Rightarrow> string" where
  "aiJobReadyScopeKey s =
     (case sc_Level s of
        AIJobReadyScopeAll \<Rightarrow> ''all''
      | AIJobReadyScopeApplication \<Rightarrow> TrimSpace (sc_ApplicationID s)
      | AIJobReadyScopePrincipal \<Rightarrow>
          string_join [CHR 0x00]
            [TrimSpace (sc_ApplicationID s), TrimSpace (sc_CredentialSource s), TrimSpace (sc_IntegrationID s),
             TrimSpace (sc_PrincipalType s), TrimSpace (sc_PrincipalID s), TrimSpace (sc_ExternalSubjectReference s)]
      | AIJobReadyScopeOther \<Rightarrow> [])"

section \<open>The in-memory index\<close>

type_synonym MemoryAIJobReadyIndex = "AIJobReadyEntry gomap"

definition ready_Register :: "AIJobReadyEntry \<Rightarrow> MemoryAIJobReadyIndex \<Rightarrow> MemoryAIJobReadyIndex \<times> ready_error option" where
  "ready_Register entry0 index =
     (let entry = normalizeAIJobReadyEntry entry0 in
      case validateAIJobReadyEntry entry of
        Some e \<Rightarrow> (index, Some e)
      | None \<Rightarrow>
          (case go_get index (re_JobID entry) of
             Some current \<Rightarrow>
               if re_StatusVersion current > re_StatusVersion entry then (index, None)
               else if re_StatusVersion current = re_StatusVersion entry \<and> current \<noteq> entry
               then (index, Some ErrAIJobReadyIndexConflict)
               else (go_set (re_JobID entry) entry index, None)
           | None \<Rightarrow> (go_set (re_JobID entry) entry index, None)))"

definition ready_Remove :: "AIJobReadyReference \<Rightarrow> MemoryAIJobReadyIndex \<Rightarrow> MemoryAIJobReadyIndex \<times> ready_error option" where
  "ready_Remove reference index =
     (if TrimSpace (rr_JobID reference) = [] \<or> rr_StatusVersion reference \<le> 0
      then (index, Some ErrAIJobReadyIndexConfig)
      else (case go_get index (rr_JobID reference) of
              Some current \<Rightarrow>
                if re_StatusVersion current = rr_StatusVersion reference
                then (go_delete (rr_JobID reference) index, None) else (index, None)
            | None \<Rightarrow> (index, None)))"

definition ready_less :: "AIJobReadyEntry \<Rightarrow> AIJobReadyEntry \<Rightarrow> bool" where
  "ready_less a b =
     (if re_ReadyAt a \<noteq> re_ReadyAt b then re_ReadyAt a < re_ReadyAt b
      else if re_Priority a \<noteq> re_Priority b then re_Priority a > re_Priority b
      else if re_CreatedAt a \<noteq> re_CreatedAt b then re_CreatedAt a < re_CreatedAt b
      else re_JobID a < re_JobID b)"

text \<open>Groups are compared by their first entry, then by key; a group is never empty.\<close>

definition group_less :: "string \<times> AIJobReadyEntry list \<Rightarrow> string \<times> AIJobReadyEntry list \<Rightarrow> bool" where
  "group_less a b =
     (let left = hd (snd a); right = hd (snd b) in
      if re_ReadyAt left \<noteq> re_ReadyAt right then re_ReadyAt left < re_ReadyAt right
      else fst a < fst b)"

fun rr_round :: "int \<Rightarrow> nat \<Rightarrow> 'a list list \<Rightarrow> 'a list \<Rightarrow> bool \<Rightarrow> 'a list \<times> bool" where
  "rr_round limit round [] out added = (out, added)"
| "rr_round limit round (g # gs) out added =
     (if round \<ge> length g then rr_round limit round gs out added
      else if int (length (out @ [g ! round])) = limit then (out @ [g ! round], True)
      else rr_round limit round gs (out @ [g ! round]) True)"

definition max_length :: "'a list list \<Rightarrow> nat" where
  "max_length gs = fold max (map length gs) 0"

lemma max_length_ge: "g \<in> set gs \<Longrightarrow> length g \<le> max_length gs"
  unfolding max_length_def by (auto simp: Max.set_eq_fold [symmetric])

lemma rr_round_added:
  "snd (rr_round limit round gs out added) \<Longrightarrow> added \<or> (\<exists>g \<in> set gs. round < length g)"
  by (induction limit round gs out added rule: rr_round.induct) (auto split: if_splits)

function rr_loop :: "int \<Rightarrow> nat \<Rightarrow> 'a list list \<Rightarrow> 'a list \<Rightarrow> 'a list" where
  "rr_loop limit round gs out =
     (if int (length out) < limit
      then (if \<not> snd (rr_round limit round gs out False) then fst (rr_round limit round gs out False)
            else rr_loop limit (round + 1) gs (fst (rr_round limit round gs out False)))
      else out)"
  by pat_completeness auto
termination
  by (relation "measure (\<lambda>(limit, round, gs, out). max_length gs - round)")
    (auto dest!: rr_round_added max_length_ge)

declare rr_loop.simps [simp del]

definition roundRobinAIJobReadyCandidates :: "AIJobReadyEntry list gomap \<Rightarrow> int \<Rightarrow> AIJobReadyEntry list" where
  "roundRobinAIJobReadyCandidates groups limit =
     (if limit \<le> 0 \<or> groups = [] then []
      else
        (let sortedGroups = map (\<lambda>(key, entries). (key, sort_by ready_less entries)) groups;
             keys = sort_by group_less sortedGroups
         in rr_loop limit 0 (map snd keys) []))"

definition principal_key :: "AIJobReadyEntry \<Rightarrow> string" where
  "principal_key e = aiJobReadyScopeKey (aiJobReadyScopeForEntry AIJobReadyScopePrincipal e)"

definition group_add :: "AIJobReadyEntry list gomap \<Rightarrow> AIJobReadyEntry \<Rightarrow> AIJobReadyEntry list gomap" where
  "group_add groups e =
     go_set (principal_key e) ((case go_get groups (principal_key e) of Some es \<Rightarrow> es | None \<Rightarrow> []) @ [e]) groups"

definition ready_Candidates :: "AIJobReadyQuery \<Rightarrow> MemoryAIJobReadyIndex \<Rightarrow> AIJobReadyEntry list" where
  "ready_Candidates query index =
     (if rq_ReadyAt query = zero_time \<or> rq_Limit query \<le> 0 then []
      else roundRobinAIJobReadyCandidates
             (foldl group_add [] (filter (\<lambda>e. \<not> re_ReadyAt e > rq_ReadyAt query) (go_values index))) (rq_Limit query))"

definition ready_Count :: "AIJobReadyScope \<Rightarrow> MemoryAIJobReadyIndex \<Rightarrow> ready_error + int" where
  "ready_Count scope index =
     (case validateAIJobReadyScope scope of
        Some e \<Rightarrow> Inl e
      | None \<Rightarrow>
          Inr (int (length (filter (\<lambda>e. sc_Level scope = AIJobReadyScopeAll \<or>
                 aiJobReadyScopeKey (aiJobReadyScopeForEntry (sc_Level scope) e) = aiJobReadyScopeKey scope)
               (go_values index)))))"

section \<open>The service side\<close>

definition registerAIJobReadyState where
  "registerAIJobReadyState register job index =
     (case index of
        None \<Rightarrow> None
      | Some st \<Rightarrow>
          if job_Status job \<noteq> AIJobStatusQueued \<and> job_Status job \<noteq> AIJobStatusDispatching then Some st
          else (case newAIJobReadyEntry job of Inl e \<Rightarrow> Some st | Inr entry \<Rightarrow> Some (fst (register entry st))))"

definition removeAIJobReadyReference where
  "removeAIJobReadyReference remove reference index =
     (case index of
        None \<Rightarrow> None
      | Some st \<Rightarrow>
          if TrimSpace (rr_JobID reference) \<noteq> [] \<and> rr_StatusVersion reference > 0
          then Some (fst (remove reference st)) else Some st)"

definition aiJobReadyCandidateLimit :: "int \<Rightarrow> int" where
  "aiJobReadyCandidateLimit limit = (if limit \<le> 0 then 0 else if limit > 64 then 1024 else limit * 16)"

section \<open>The contract of a ready index\<close>

locale job_ready_index =
  fixes register :: "AIJobReadyEntry \<Rightarrow> 's \<Rightarrow> 's \<times> ready_error option"
    and remove :: "AIJobReadyReference \<Rightarrow> 's \<Rightarrow> 's \<times> ready_error option"
    and candidates :: "AIJobReadyQuery \<Rightarrow> 's \<Rightarrow> AIJobReadyEntry list"
    and entry_of :: "'s \<Rightarrow> string \<Rightarrow> AIJobReadyEntry option"
    and index_inv :: "'s \<Rightarrow> bool"
  assumes register_inv: "index_inv st \<Longrightarrow> index_inv (fst (register e st))"
    and remove_inv: "index_inv st \<Longrightarrow> index_inv (fst (remove r st))"
    and register_entry: "index_inv st \<Longrightarrow> snd (register e st) = None \<Longrightarrow>
      \<exists>x. entry_of (fst (register e st)) (TrimSpace (re_JobID e)) = Some x \<and>
        (re_StatusVersion e < re_StatusVersion x \<or> x = normalizeAIJobReadyEntry e)"
    and register_version: "index_inv st \<Longrightarrow> entry_of st k = Some x \<Longrightarrow>
      \<exists>y. entry_of (fst (register e st)) k = Some y \<and> re_StatusVersion x \<le> re_StatusVersion y"
    and remove_entry: "index_inv st \<Longrightarrow> snd (remove r st) = None \<Longrightarrow>
      entry_of (fst (remove r st)) (rr_JobID r) = Some x \<Longrightarrow> re_StatusVersion x \<noteq> rr_StatusVersion r"
    and remove_other: "index_inv st \<Longrightarrow> entry_of st k = Some x \<Longrightarrow> k \<noteq> rr_JobID r \<or> re_StatusVersion x \<noteq> rr_StatusVersion r \<Longrightarrow>
      entry_of (fst (remove r st)) k = Some x"
    and candidates_sound: "index_inv st \<Longrightarrow> c \<in> set (candidates q st) \<Longrightarrow>
      entry_of st (re_JobID c) = Some c \<and> re_ReadyAt c \<le> rq_ReadyAt q"
    and candidates_limit: "index_inv st \<Longrightarrow> length (candidates q st) \<le> nat (rq_Limit q)"
    and candidates_distinct: "index_inv st \<Longrightarrow> distinct (map re_JobID (candidates q st))"
begin

text \<open>
  The service replaces the entry of an old version by the entry of the new one
  (remove, then register); the newer one survives, whatever a slower caller does with older ones.
\<close>

lemma replace_keeps_newest:
  assumes inv: "index_inv st" and x: "entry_of st k = Some x" and r: "rr_StatusVersion r < re_StatusVersion x"
  shows "\<exists>y. entry_of (fst (register e (fst (remove r st)))) k = Some y \<and> re_StatusVersion x \<le> re_StatusVersion y"
proof -
  have "entry_of (fst (remove r st)) k = Some x" using remove_other [OF inv x] r by auto
  then show ?thesis by (rule register_version [OF remove_inv [OF inv]])
qed

lemma service_state_inv:
  "index_inv st \<Longrightarrow> registerAIJobReadyState register job (Some st) = Some st' \<Longrightarrow> index_inv st'"
  "index_inv st \<Longrightarrow> removeAIJobReadyReference remove r (Some st) = Some st' \<Longrightarrow> index_inv st'"
  by (auto simp: registerAIJobReadyState_def removeAIJobReadyReference_def register_inv remove_inv
      split: if_splits sum.splits)

end

section \<open>Orders\<close>

interpretation ready_order: strict_weak_order ready_less
proof -
  have "ready_less a b \<longleftrightarrow>
      (re_ReadyAt a, - re_Priority a, re_CreatedAt a, re_JobID a) < (re_ReadyAt b, - re_Priority b, re_CreatedAt b, re_JobID b)"
    for a b unfolding ready_less_def lex_step by (intro if_cong) auto
  then show "strict_weak_order ready_less" by unfold_locales auto
qed

interpretation group_order: strict_weak_order group_less
proof -
  have "group_less a b \<longleftrightarrow> (re_ReadyAt (hd (snd a)), fst a) < (re_ReadyAt (hd (snd b)), fst b)" for a b
    unfolding group_less_def lex_step Let_def ..
  then show "strict_weak_order group_less" by unfold_locales auto
qed

section \<open>The round robin\<close>

text \<open>The reference: first the first entry of every group, then the second entries, and so on.\<close>

definition row :: "nat \<Rightarrow> 'a list list \<Rightarrow> 'a list" where
  "row r gs = map (\<lambda>g. g ! r) (filter (\<lambda>g. r < length g) gs)"

definition rows_from :: "nat \<Rightarrow> 'a list list \<Rightarrow> 'a list" where
  "rows_from r gs = concat (map (\<lambda>r. row r gs) [r ..< max_length gs])"

lemma row_Nil_ge: "max_length gs \<le> r \<Longrightarrow> row r gs = []"
  unfolding row_def using max_length_ge by (fastforce simp: filter_empty_conv)

lemma rows_from_unfold: "rows_from r gs = row r gs @ rows_from (Suc r) gs"
  by (cases "r < max_length gs") (simp_all add: rows_from_def upt_rec [of r] row_Nil_ge)

lemma row_empty_rest: "row r gs = [] \<Longrightarrow> rows_from r gs = []"
proof -
  assume e: "row r gs = []"
  have "row r' gs = []" if "r \<le> r'" for r'
    using e that by (auto simp: row_def filter_empty_conv)
  then show ?thesis by (simp add: rows_from_def)
qed

lemma rr_round_spec:
  "int (length out) < limit \<Longrightarrow>
   rr_round limit r gs out added = (out @ take (nat limit - length out) (row r gs), added \<or> row r gs \<noteq> [])"
proof (induction limit r gs out added rule: rr_round.induct)
  case (2 limit r g gs out added)
  show ?case
  proof (cases "r \<ge> length g")
    case True
    with 2 show ?thesis by (simp add: row_def)
  next
    case False
    then have row: "row r (g # gs) = g ! r # row r gs" by (simp add: row_def)
    show ?thesis
    proof (cases "int (length (out @ [g ! r])) = limit")
      case True
      then have "nat limit - length out = 1" by auto
      with False True row show ?thesis by simp
    next
      case nl: False
      then have "int (length (out @ [g ! r])) < limit" using 2(3) by simp
      moreover have "nat limit - length out = Suc (nat limit - length (out @ [g ! r]))" using nl 2(3) by simp
      ultimately show ?thesis using 2(2) [OF False nl] False nl row by simp
    qed
  qed
qed (simp add: row_def)

lemma rr_loop_spec:
  "int (length out) \<le> limit \<Longrightarrow> rr_loop limit r gs out = out @ take (nat limit - length out) (rows_from r gs)"
proof (induction limit r gs out rule: rr_loop.induct)
  case (1 limit r gs out)
  show ?case
  proof (cases "int (length out) < limit")
    case False
    then have "nat limit - length out = 0" by simp
    with False show ?thesis by (subst rr_loop.simps) simp
  next
    case True
    let ?n = "nat limit - length out"
    note rnd = rr_round_spec [OF True, of r gs False]
    show ?thesis
    proof (cases "row r gs = []")
      case True
      with \<open>int (length out) < limit\<close> rnd row_empty_rest [OF True] show ?thesis by (subst rr_loop.simps) simp
    next
      case False
      let ?out = "out @ take ?n (row r gs)"
      have "length ?out \<le> nat limit" using True by simp
      then have le: "int (length ?out) \<le> limit" using True by linarith
      have "rr_loop limit r gs out = rr_loop limit (r + 1) gs ?out"
        using True rnd False by (subst rr_loop.simps) simp
      also have "\<dots> = ?out @ take (nat limit - length ?out) (rows_from (r + 1) gs)"
        using "1.IH" [OF True] rnd False le by simp
      also have "\<dots> = out @ take ?n (rows_from r gs)"
        by (simp add: rows_from_unfold [of r] min_def)
      finally show ?thesis .
    qed
  qed
qed

lemma row_Cons: "row r (g # gs) = (if r < length g then [g ! r] else []) @ row r gs"
  by (simp add: row_def)

lemma rows_mset: "\<forall>g \<in> set gs. length g \<le> n \<Longrightarrow> mset (concat (map (\<lambda>r. row r gs) [0 ..< n])) = mset (concat gs)"
proof (induction gs)
  case Nil
  then show ?case by (simp add: row_def)
next
  case (Cons g gs)
  have split: "mset (concat (map (\<lambda>r. a r @ b r) rs)) = mset (concat (map a rs)) + mset (concat (map b rs))"
    for a b :: "nat \<Rightarrow> 'a list" and rs by (induction rs) simp_all
  have "concat (map (\<lambda>r. if r < length g then [g ! r] else []) [0 ..< n]) = g"
  proof -
    have "[0 ..< n] = [0 ..< length g] @ [length g ..< n]"
      using Cons.prems by (metis le_add_diff_inverse list.set_intros(1) upt_add_eq_append zero_order(1))
    moreover have "concat (map (\<lambda>r. if r < length g then [g ! r] else []) [length g ..< n]) = []" by simp
    moreover have "concat (map (\<lambda>r. if r < length g then [g ! r] else []) [0 ..< m]) = map ((!) g) [0 ..< m]"
      if "m \<le> length g" for m
      using that by (induction m) simp_all
    ultimately show ?thesis by (simp add: map_nth)
  qed
  with Cons split [of "\<lambda>r. if r < length g then [g ! r] else []" "\<lambda>r. row r gs" "[0 ..< n]"]
  show ?case by (simp add: row_Cons)
qed

lemma rows_from_mset: "mset (rows_from 0 gs) = mset (concat gs)"
  unfolding rows_from_def by (rule rows_mset) (simp add: max_length_ge)

section \<open>Grouping\<close>

lemma concat_go_set_append:
  "distinct (map fst m) \<Longrightarrow> w = (case go_get m k of Some es \<Rightarrow> es | None \<Rightarrow> []) \<Longrightarrow>
   mset (concat (go_values (go_set k (w @ [e]) m))) = add_mset e (mset (concat (go_values m)))"
  by (induction m) (auto split: if_splits)

lemma group_add_concat:
  assumes "distinct (map fst groups)"
  shows "mset (concat (map snd (group_add groups e))) = add_mset e (mset (concat (map snd groups))) \<and>
    distinct (map fst (group_add groups e))"
  using assms concat_go_set_append [OF assms refl, of "principal_key e" e] by (simp add: group_add_def distinct_update)

lemma group_fold:
  "distinct (map fst groups) \<Longrightarrow>
   mset (concat (map snd (foldl group_add groups es))) = mset es + mset (concat (map snd groups)) \<and>
   distinct (map fst (foldl group_add groups es))"
  by (induction es arbitrary: groups) (simp_all add: group_add_concat)

lemma concat_map_sort: "mset (concat (map snd (map (\<lambda>(key, es). (key, sort_by lt es)) groups))) = mset (concat (map snd groups))"
  by (induction groups) (auto simp: mset_sort_by)

lemma concat_mset_cong: "mset xs = mset ys \<Longrightarrow> mset (concat (map f xs)) = mset (concat (map f ys))"
proof -
  assume "mset xs = mset ys"
  moreover have "mset (concat (map f zs)) = (\<Sum>z \<in># mset zs. mset (f z))" for zs
    by (induction zs) simp_all
  ultimately show ?thesis by simp
qed

lemma round_robin_spec:
  assumes "0 < limit"
  shows "\<exists>gs. roundRobinAIJobReadyCandidates groups limit = take (nat limit) (rows_from 0 gs) \<and>
    mset gs = mset (map (sort_by ready_less \<circ> snd) groups) \<and> mset (rows_from 0 gs) = mset (concat (map snd groups))"
proof (cases "groups = []")
  case True
  then show ?thesis by (simp add: roundRobinAIJobReadyCandidates_def rows_from_def max_length_def)
next
  case False
  let ?sg = "map (\<lambda>(key, es). (key, sort_by ready_less es)) groups"
  let ?gs = "map snd (sort_by group_less ?sg)"
  have "roundRobinAIJobReadyCandidates groups limit = take (nat limit) (rows_from 0 ?gs)"
    using assms False rr_loop_spec [of "[]" limit 0 ?gs] by (simp add: roundRobinAIJobReadyCandidates_def Let_def)
  moreover have "mset ?gs = mset (map (sort_by ready_less \<circ> snd) groups)"
    by (simp add: mset_sort_by comp_def split_def multiset.map_comp)
  moreover have "mset (concat ?gs) = mset (concat (map snd groups))"
    using concat_mset_cong [of "sort_by group_less ?sg" ?sg snd] concat_map_sort [of ready_less groups]
    by (simp add: mset_sort_by)
  ultimately show ?thesis using rows_from_mset [of ?gs] by metis
qed

section \<open>The in-memory index keeps the contract\<close>

definition ready_inv :: "MemoryAIJobReadyIndex \<Rightarrow> bool" where
  "ready_inv index \<longleftrightarrow> keyed re_JobID index \<and>
     every (\<lambda>e. normalizeAIJobReadyEntry e = e \<and> validateAIJobReadyEntry e = None) index"

lemma normalize_idem: "normalizeAIJobReadyEntry (normalizeAIJobReadyEntry e) = normalizeAIJobReadyEntry e"
  by (simp add: normalizeAIJobReadyEntry_def)

lemma normalize_simps:
  "re_JobID (normalizeAIJobReadyEntry e) = TrimSpace (re_JobID e)"
  "re_StatusVersion (normalizeAIJobReadyEntry e) = re_StatusVersion e"
  by (simp_all add: normalizeAIJobReadyEntry_def)

lemma register_inv: "ready_inv index \<Longrightarrow> ready_inv (fst (ready_Register e index))"
  by (auto simp: ready_Register_def Let_def ready_inv_def normalize_idem intro!: keyed_go_set split: option.splits)

lemma remove_inv: "ready_inv index \<Longrightarrow> ready_inv (fst (ready_Remove r index))"
  by (auto simp: ready_Remove_def ready_inv_def keyed_go_delete split: option.splits)

definition ready_entries :: "AIJobReadyQuery \<Rightarrow> MemoryAIJobReadyIndex \<Rightarrow> AIJobReadyEntry list" where
  "ready_entries q index = filter (\<lambda>e. \<not> re_ReadyAt e > rq_ReadyAt q) (go_values index)"

lemma candidates_spec:
  assumes "rq_ReadyAt q \<noteq> zero_time" "0 < rq_Limit q"
  shows "\<exists>gs. ready_Candidates q index = take (nat (rq_Limit q)) (rows_from 0 gs) \<and>
    mset gs = mset (map (sort_by ready_less \<circ> snd) (foldl group_add [] (ready_entries q index))) \<and>
    mset (rows_from 0 gs) = mset (ready_entries q index)"
  using round_robin_spec [OF assms(2), of "foldl group_add [] (ready_entries q index)"] assms
    group_fold [of "[]" "ready_entries q index"]
  by (simp add: ready_Candidates_def ready_entries_def [symmetric])

lemma candidates_subset: "mset (ready_Candidates q index) \<subseteq># mset (ready_entries q index)"
proof (cases "rq_ReadyAt q = zero_time \<or> rq_Limit q \<le> 0")
  case True
  then show ?thesis by (auto simp: ready_Candidates_def)
next
  case False
  then obtain gs where "ready_Candidates q index = take (nat (rq_Limit q)) (rows_from 0 gs)"
    "mset (rows_from 0 gs) = mset (ready_entries q index)"
    using candidates_spec [of q index] by auto
  then show ?thesis by (metis append_take_drop_id mset_append mset_subset_eq_add_left)
qed

interpretation memory_index: job_ready_index ready_Register ready_Remove ready_Candidates map_of ready_inv
proof (unfold_locales, goal_cases)
  case (3 st e)
  then show ?case
    by (auto simp: ready_Register_def Let_def update_conv' normalize_simps split: option.splits if_splits)
next
  case (4 st k x e)
  then show ?case
    by (auto simp: ready_Register_def Let_def update_conv' normalize_simps split: option.splits)
next
  case (5 st r x)
  then show ?case by (auto simp: ready_Remove_def AList.delete_conv' split: option.splits if_splits)
next
  case (6 st k x r)
  then show ?case by (auto simp: ready_Remove_def AList.delete_conv' split: option.splits)
next
  case (7 st c q)
  then have "c \<in> set (ready_entries q st)" using set_mset_mono [OF candidates_subset [of q st]] by auto
  then have "c \<in> set (go_values st)" "re_ReadyAt c \<le> rq_ReadyAt q" by (auto simp: ready_entries_def)
  moreover have "keyed re_JobID st" using 7 by (simp add: ready_inv_def)
  ultimately show ?case by (simp add: keyed_get_iff)
next
  case (8 st q)
  show ?case
  proof (cases "rq_ReadyAt q = zero_time \<or> rq_Limit q \<le> 0")
    case True
    then show ?thesis by (auto simp: ready_Candidates_def)
  next
    case False
    then show ?thesis using candidates_spec [of q st] by force
  qed
next
  case (9 st q)
  have "distinct (map re_JobID (ready_entries q st))"
    unfolding ready_entries_def using 9 keyed_distinct_values [of re_JobID st]
    by (simp add: ready_inv_def distinct_map_filter del: map_map)
  then show ?case by (rule distinct_submset [OF candidates_subset])
qed (auto intro: register_inv remove_inv)

text \<open>
  The candidates are exactly ready entries. Whatever the registrations and removals before,
  the candidates are stored entries that are ready at the time asked for, of pairwise different
  jobs, at most as many as asked for; and when the limit allows it, they are all the ready entries.
\<close>

theorem ready_candidates_exact:
  assumes "ready_inv index" "rq_ReadyAt q \<noteq> zero_time" "0 < rq_Limit q"
  shows "(\<forall>c \<in> set (ready_Candidates q index). go_get index (re_JobID c) = Some c \<and> re_ReadyAt c \<le> rq_ReadyAt q) \<and>
    distinct (map re_JobID (ready_Candidates q index)) \<and>
    length (ready_Candidates q index) = min (nat (rq_Limit q)) (length (ready_entries q index)) \<and>
    (int (length (ready_entries q index)) \<le> rq_Limit q \<longrightarrow>
       mset (ready_Candidates q index) = mset (ready_entries q index))"
proof -
  obtain gs where gs: "ready_Candidates q index = take (nat (rq_Limit q)) (rows_from 0 gs)"
    "mset (rows_from 0 gs) = mset (ready_entries q index)"
    using candidates_spec [OF assms(2,3)] by blast
  have len: "length (rows_from 0 gs) = length (ready_entries q index)" using gs(2) by (metis size_mset)
  have "length (ready_Candidates q index) = min (nat (rq_Limit q)) (length (ready_entries q index))"
    by (simp add: gs(1) len min.commute)
  moreover have "mset (ready_Candidates q index) = mset (ready_entries q index)"
    if "int (length (ready_entries q index)) \<le> rq_Limit q"
    using that gs len by simp
  ultimately show ?thesis
    using memory_index.candidates_sound [OF assms(1)] memory_index.candidates_distinct [OF assms(1)] by blast
qed

definition example_entry :: "string \<Rightarrow> string \<Rightarrow> int \<Rightarrow> AIJobReadyEntry" where
  "example_entry i who version = \<lparr>re_JobID = i, re_Status = AIJobStatusQueued, re_StatusVersion = version, re_FenceToken = 0,
     re_ApplicationID = ''x'', re_CredentialSource = [], re_IntegrationID = [], re_PrincipalType = [], re_PrincipalID = who,
     re_ExternalSubjectReference = [], re_Priority = 0, re_ReadyAt = 5, re_CreatedAt = 5\<rparr>"

definition example_index :: MemoryAIJobReadyIndex where
  "example_index = [(''a'', example_entry ''a'' ''p'' 1), (''b'', example_entry ''b'' ''p'' 1), (''c'', example_entry ''c'' ''q'' 1)]"

lemma example_entry_ok:
  "i \<in> {''a'', ''b'', ''c''} \<Longrightarrow> who \<in> {''p'', ''q''} \<Longrightarrow> 0 < v \<Longrightarrow>
   normalizeAIJobReadyEntry (example_entry i who v) = example_entry i who v \<and>
   validateAIJobReadyEntry (example_entry i who v) = None"
proof -
  have "TrimSpace ''a'' = ''a''" "TrimSpace ''b'' = ''b''" "TrimSpace ''c'' = ''c''" "TrimSpace ''p'' = ''p''"
    "TrimSpace ''q'' = ''q''" "TrimSpace ''x'' = ''x''" "TrimSpace AIJobStatusQueued = AIJobStatusQueued"
    by code_simp+
  then show "i \<in> {''a'', ''b'', ''c''} \<Longrightarrow> who \<in> {''p'', ''q''} \<Longrightarrow> 0 < v \<Longrightarrow> ?thesis"
    by (auto simp: normalizeAIJobReadyEntry_def validateAIJobReadyEntry_def example_entry_def)
qed

lemma example_index_inv: "ready_inv example_index"
  using example_entry_ok by (simp add: ready_inv_def keyed_def every_def example_index_def) (simp add: example_entry_def)

theorem ready_candidates_exact_witness:
  "length (ready_Candidates \<lparr>rq_ReadyAt = 7, rq_Limit = 2\<rparr> example_index) = 2"
proof -
  have "length (ready_entries \<lparr>rq_ReadyAt = 7, rq_Limit = 2\<rparr> example_index) = 3"
    by (simp add: ready_entries_def example_index_def example_entry_def)
  then show ?thesis using ready_candidates_exact [OF example_index_inv, of "\<lparr>rq_ReadyAt = 7, rq_Limit = 2\<rparr>"] by simp
qed

lemma group_fold_keys:
  "fst ` set (foldl group_add groups es) = fst ` set groups \<union> principal_key ` set es"
  by (induction es arbitrary: groups) (auto simp: group_add_def AList.dom_update image_Un [symmetric])

lemma group_fold_member:
  "(\<forall>(k, es) \<in> set groups. es \<noteq> [] \<and> (\<forall>e \<in> set es. principal_key e = k)) \<Longrightarrow>
   \<forall>(k, es) \<in> set (foldl group_add groups xs). es \<noteq> [] \<and> (\<forall>e \<in> set es. principal_key e = k)"
proof (induction xs arbitrary: groups)
  case (Cons x xs)
  have "\<forall>(k, es) \<in> set (group_add groups x). es \<noteq> [] \<and> (\<forall>e \<in> set es. principal_key e = k)"
  proof -
    have "(k, es) \<in> set (go_set j w m) \<Longrightarrow> (k, es) \<in> set m \<or> k = j \<and> es = w" for k es j w and m :: "AIJobReadyEntry list gomap"
      by (induction m) (auto split: if_splits)
    then show ?thesis using Cons.prems
      by (fastforce simp: group_add_def dest: map_of_SomeD split: option.splits)
  qed
  with Cons.IH show ?case by simp
qed simp

text \<open>
  No principal is crowded out. When the limit is at least the number of principals with ready
  jobs, every such principal has a candidate, however many ready jobs the others have.
\<close>

theorem ready_candidates_cover_principals:
  assumes "rq_ReadyAt q \<noteq> zero_time"
    and "int (card (principal_key ` set (ready_entries q index))) \<le> rq_Limit q"
    and "e \<in> set (ready_entries q index)"
  shows "\<exists>c \<in> set (ready_Candidates q index). principal_key c = principal_key e"
proof -
  let ?groups = "foldl group_add [] (ready_entries q index)"
  have "principal_key ` set (ready_entries q index) \<noteq> {}" using assms(3) by auto
  then have "0 < card (principal_key ` set (ready_entries q index))" by (simp add: card_gt_0_iff)
  then have lim: "0 < rq_Limit q" using assms(2) by linarith
  obtain gs where gs: "ready_Candidates q index = take (nat (rq_Limit q)) (rows_from 0 gs)"
    "mset gs = mset (map (sort_by ready_less \<circ> snd) ?groups)"
    using candidates_spec [OF assms(1) lim] by blast
  have keys: "fst ` set ?groups = principal_key ` set (ready_entries q index)"
    using group_fold_keys [of "[]"] by simp
  have d: "distinct (map fst ?groups)" using group_fold [of "[]"] by simp
  have mem: "\<forall>(k, es) \<in> set ?groups. es \<noteq> [] \<and> (\<forall>e \<in> set es. principal_key e = k)"
    using group_fold_member [of "[]"] by simp
  have len: "length gs = card (principal_key ` set (ready_entries q index))"
    using gs(2) d keys by (metis distinct_card length_map mset_eq_length set_map)
  have set_gs: "set gs = (sort_by ready_less \<circ> snd) ` set ?groups"
    using gs(2) by (metis set_map set_mset_mset)
  have ne: "\<forall>g \<in> set gs. 0 < length g" using mem by (auto simp: set_gs)
  then have row0: "row 0 gs = map hd gs" by (auto simp: row_def filter_id_conv hd_conv_nth)
  obtain es where es: "(principal_key e, es) \<in> set ?groups" using keys assms(3) by force
  then have "sort_by ready_less es \<in> set gs" by (force simp: set_gs)
  moreover have "es \<noteq> []" "\<forall>x \<in> set es. principal_key x = principal_key e" using mem es by auto
  then have "principal_key (hd (sort_by ready_less es)) = principal_key e"
    by (metis hd_in_set length_0_conv length_sort_by set_sort_by)
  ultimately have "\<exists>c \<in> set (row 0 gs). principal_key c = principal_key e" unfolding row0 by force
  moreover have "set (row 0 gs) \<subseteq> set (take (nat (rq_Limit q)) (rows_from 0 gs))"
  proof -
    have "length (row 0 gs) \<le> nat (rq_Limit q)" using len assms(2) row0 by simp
    then show ?thesis unfolding rows_from_unfold [of 0] by (simp add: take_append)
  qed
  ultimately show ?thesis unfolding gs(1) by blast
qed

theorem ready_candidates_cover_principals_witness:
  "\<exists>c \<in> set (ready_Candidates \<lparr>rq_ReadyAt = 7, rq_Limit = 2\<rparr> example_index).
     principal_key c = principal_key (example_entry ''c'' ''q'' 1)"
proof (rule ready_candidates_cover_principals)
  let ?es = "[example_entry ''a'' ''p'' 1, example_entry ''b'' ''p'' 1, example_entry ''c'' ''q'' 1]"
  have r: "ready_entries \<lparr>rq_ReadyAt = 7, rq_Limit = 2\<rparr> example_index = ?es"
    by (simp add: ready_entries_def example_index_def example_entry_def)
  have "principal_key (example_entry ''a'' ''p'' 1) = principal_key (example_entry ''b'' ''p'' 1)"
    by (simp add: principal_key_def aiJobReadyScopeForEntry_def example_entry_def)
  then have "card (principal_key ` set ?es) \<le> 2" by (simp add: card_insert_if)
  then show "int (card (principal_key ` set (ready_entries \<lparr>rq_ReadyAt = 7, rq_Limit = 2\<rparr> example_index)))
      \<le> rq_Limit \<lparr>rq_ReadyAt = 7, rq_Limit = 2\<rparr>" by (simp add: r)
  show "example_entry ''c'' ''q'' 1 \<in> set (ready_entries \<lparr>rq_ReadyAt = 7, rq_Limit = 2\<rparr> example_index)" by (simp add: r)
qed simp

end
