(* ===== verification/AI_Job_Repository.thy ===== *)
theory AI_Job_Repository
  imports Usage_Settlement AI_Job_Ready_Index
begin

text \<open>
  Durable jobs in the in-memory repository, \<^verbatim>\<open>backend/internal/controlplane/ai_job_repository.go\<close>:
  admission, claiming, lease extension, transitions, requeuing and cancellation, each with the job
  event and the outbox event it writes. \<^verbatim>\<open>hashAPIKey\<close> is the parameter \<open>hash\<close>.
\<close>

section \<open>Events\<close>

definition zero_operation :: AIOperation where
  "zero_operation = \<lparr>op_ID = [], op_ApplicationID = [], op_CredentialID = [], op_CredentialSource = [], op_IntegrationID = [],
     op_PrincipalType = [], op_PrincipalID = [], op_ExternalSubjectReference = [], op_ClientRequestID = [],
     op_RequestFingerprint = [], op_IdempotencyKey = [], op_Protocol = [], op_Operation = [], op_Modality = [], op_Lane = [],
     op_Model = [], op_ArtifactPolicy = [], op_ArtifactSinkID = [], op_Status = [], op_ErrorType = [],
     op_CreatedAt = zero_time, op_UpdatedAt = zero_time, op_CompletedAt = None\<rparr>"

type_synonym job_change = "AIJob \<times> AIJobEvent \<times> TransactionalOutboxEvent"

definition event_digest :: "(string \<Rightarrow> string) \<Rightarrow> string \<Rightarrow> int \<Rightarrow> string" where
  "event_digest hash jobID version = prefix_of (hash (jobID @ [CHR 0x00] @ string_of_int version)) 24"

definition newAIJobEventRecords ::
  "(string \<Rightarrow> string) \<Rightarrow> AIJob \<Rightarrow> string \<Rightarrow> string \<Rightarrow> string \<Rightarrow> gotime \<Rightarrow> repo_error + (AIJobEvent \<times> TransactionalOutboxEvent)" where
  "newAIJobEventRecords hash job fromStatus reason eventType occurredAt =
     (if eventType = [] \<or> job_StatusVersion job \<le> 0 then Inl RepoInvalidJobEvent
      else (let digest = event_digest hash (job_ID job) (job_StatusVersion job);
                event = \<lparr>ev_ID = ''job_event_'' @ digest, ev_JobID = job_ID job, ev_Version = job_StatusVersion job,
                         ev_EventType = eventType, ev_FromStatus = fromStatus, ev_ToStatus = job_Status job,
                         ev_Reason = TrimSpace reason, ev_CreatedAt = occurredAt\<rparr>;
                outbox = \<lparr>ob_ID = ''outbox_'' @ digest, ob_AggregateType = AIJobOutboxAggregate, ob_AggregateID = job_ID job,
                          ob_EventType = eventType, ob_EventVersion = job_StatusVersion job, ob_Status = OutboxStatusPending,
                          ob_AvailableAt = occurredAt, ob_AttemptCount = 0, ob_MaxAttempts = OutboxDefaultMaxAttempts,
                          ob_LeaseUntil = None, ob_LeaseToken = [], ob_LastError = [], ob_PublishedAt = None,
                          ob_CreatedAt = occurredAt, ob_UpdatedAt = occurredAt,
                          ob_PayloadJSON = JobPayload (ev_ID event) (job_ID job) (job_OperationID job) (job_StatusVersion job)
                            eventType (job_Status job)\<rparr>
            in Inr (event, outbox)))"

definition newAIJobTransitionRecords ::
  "(string \<Rightarrow> string) \<Rightarrow> AIJob \<Rightarrow> string \<Rightarrow> string \<Rightarrow> gotime \<Rightarrow> repo_error + (AIJobEvent \<times> TransactionalOutboxEvent)" where
  "newAIJobTransitionRecords hash job fromStatus reason occurredAt =
     newAIJobEventRecords hash job fromStatus reason (aiJobEventType (job_Status job)) occurredAt"

section \<open>Changes of a job\<close>

definition transitioned_job :: "AIJob \<Rightarrow> string \<Rightarrow> string \<Rightarrow> gotime \<Rightarrow> AIJob" where
  "transitioned_job job toStatus reason transitionedAt =
     (let j = job\<lparr>job_Status := toStatus, job_StatusVersion := job_StatusVersion job + 1, job_UpdatedAt := transitionedAt\<rparr>;
          j = (if toStatus \<noteq> AIJobStatusDispatching
               then j\<lparr>job_QueueLeaseUntil := None, job_QueueLeaseToken := [], job_QueueWorkerID := []\<rparr> else j);
          j = (if toStatus = AIJobStatusQueued then j\<lparr>job_NextEligibleAt := transitionedAt\<rparr> else j);
          j = j\<lparr>job_ErrorType := (if toStatus = AIJobStatusFailed \<or> toStatus = AIJobStatusUnknown then TrimSpace reason else [])\<rparr>
      in if aiJobTerminalStatus toStatus \<and> toStatus \<noteq> AIJobStatusExpired
         then j\<lparr>job_CompletedAt := Some transitionedAt\<rparr> else j)"

definition prepareAIJobTransition ::
  "(string \<Rightarrow> string) \<Rightarrow> AIJob \<Rightarrow> string \<Rightarrow> string \<Rightarrow> gotime \<Rightarrow> repo_error + job_change" where
  "prepareAIJobTransition hash job toStatus reason transitionedAt =
     (if \<not> aiJobStatusTransitionAllowed (job_Status job) toStatus reason
      then Inl (RepoInvalidJobTransition (job_Status job) toStatus)
      else (let j = transitioned_job job toStatus reason transitionedAt in
            case newAIJobTransitionRecords hash j (job_Status job) reason transitionedAt of
              Inl e \<Rightarrow> Inl e
            | Inr (event, outbox) \<Rightarrow> Inr (j, event, outbox)))"

definition prepareAIJobLeaseReassignment :: "(string \<Rightarrow> string) \<Rightarrow> AIJob \<Rightarrow> gotime \<Rightarrow> repo_error + job_change" where
  "prepareAIJobLeaseReassignment hash job transitionedAt =
     (if job_Status job \<noteq> AIJobStatusDispatching \<or>
         (case job_QueueLeaseUntil job of None \<Rightarrow> True | Some t \<Rightarrow> t > transitionedAt)
      then Inl RepoLeaseNotReclaimable
      else (let j = job\<lparr>job_StatusVersion := job_StatusVersion job + 1, job_UpdatedAt := transitionedAt\<rparr> in
            case newAIJobEventRecords hash j AIJobStatusDispatching ''lease_expired'' AIJobEventLeaseReassigned transitionedAt of
              Inl e \<Rightarrow> Inl e
            | Inr (event, outbox) \<Rightarrow> Inr (j, event, outbox)))"

definition prepareAIJobClaim :: "(string \<Rightarrow> string) \<Rightarrow> AIJob \<Rightarrow> gotime \<Rightarrow> repo_error + job_change" where
  "prepareAIJobClaim hash job claimedAt =
     (if job_Status job = AIJobStatusDispatching then prepareAIJobLeaseReassignment hash job claimedAt
      else prepareAIJobTransition hash job AIJobStatusDispatching [] claimedAt)"

definition mapAIJobToOperationStatus :: "string \<Rightarrow> string" where
  "mapAIJobToOperationStatus status =
     (if status = AIJobStatusSucceeded then AIOperationStatusSucceeded
      else if status = AIJobStatusCanceled then AIOperationStatusCanceled else AIOperationStatusFailed)"

definition applyMemoryOperationJobStatus :: "AIOperation \<Rightarrow> string \<Rightarrow> string \<Rightarrow> gotime \<Rightarrow> AIOperation" where
  "applyMemoryOperationJobStatus operation jobStatus errorType at =
     (if op_ID operation = [] then operation
      else if oneOf jobStatus [AIJobStatusDispatching, AIJobStatusRunning, AIJobStatusCanceling, AIJobStatusUnknown] then
        (if op_Status operation = AIOperationStatusAccepted
         then operation\<lparr>op_Status := AIOperationStatusRunning, op_UpdatedAt := at\<rparr> else operation)
      else if oneOf jobStatus [AIJobStatusSucceeded, AIJobStatusFailed, AIJobStatusCanceled] then
        (if op_Status operation \<noteq> AIOperationStatusAccepted \<and> op_Status operation \<noteq> AIOperationStatusRunning then operation
         else operation\<lparr>op_Status := mapAIJobToOperationStatus jobStatus, op_ErrorType := errorType, op_UpdatedAt := at,
                op_CompletedAt := Some at\<rparr>)
      else operation)"

definition check_job_event :: "AIJobEvent \<Rightarrow> TransactionalOutboxEvent \<Rightarrow> MemoryRepository \<Rightarrow> repo_error option" where
  "check_job_event event outbox r =
     (if go_get (aiJobEvents r) (ev_ID event) \<noteq> None then Some (RepoJobEventExists (ev_ID event))
      else map_option RepoOutbox (validateMemoryOutboxInsert (transactionalOutboxEvents r) outbox))"

text \<open>The writes of a job change: the operation, the job, its event and its outbox event.\<close>

definition store_job_change :: "AIOperation \<Rightarrow> string \<Rightarrow> job_change \<Rightarrow> gotime \<Rightarrow> MemoryRepository \<Rightarrow> MemoryRepository" where
  "store_job_change operation0 jobKey change at r =
     (case change of (updated, event, outbox) \<Rightarrow>
        let operation = applyMemoryOperationJobStatus operation0 (job_Status updated) (job_ErrorType updated) at in
        r\<lparr>aiOperations := go_set (op_ID operation) operation (aiOperations r),
          aiJobs := go_set jobKey updated (aiJobs r),
          aiJobEvents := go_set (ev_ID event) event (aiJobEvents r),
          transactionalOutboxEvents := go_set (ob_ID outbox) outbox (transactionalOutboxEvents r)\<rparr>)"

section \<open>Admission\<close>

definition validateDurableAIJobAdmission ::
  "AIOperation \<Rightarrow> AIJob \<Rightarrow> AIJobEvent \<Rightarrow> TransactionalOutboxEvent \<Rightarrow> repo_error option" where
  "validateDurableAIJobAdmission operation job event outbox =
     (if op_ID operation = [] \<or> op_ID operation \<noteq> job_OperationID job \<or> op_Lane operation \<noteq> ''durable'' \<or>
         op_IdempotencyKey operation = [] \<or> job_ID job = [] \<or> job_Status job \<noteq> AIJobStatusQueued \<or> job_StatusVersion job \<noteq> 1 \<or>
         job_RequestFingerprint job = [] \<or> job_RequestFingerprint job \<noteq> op_RequestFingerprint operation \<or>
         job_IdempotencyKey job \<noteq> op_IdempotencyKey operation \<or> job_RequestPayloadCiphertext job = [] \<or>
         \<not> validArtifactPolicy (op_ArtifactPolicy operation) \<or>
         \<not> validArtifactSinkBinding (op_ArtifactPolicy operation) (op_ArtifactSinkID operation) \<or>
         job_ArtifactPolicy job \<noteq> op_ArtifactPolicy operation \<or> job_ArtifactSinkID job \<noteq> op_ArtifactSinkID operation \<or>
         ev_JobID event \<noteq> job_ID job \<or> ev_Version event \<noteq> job_StatusVersion job \<or> ev_EventType event \<noteq> AIJobEventQueued \<or>
         ob_AggregateType outbox \<noteq> AIJobOutboxAggregate \<or> ob_AggregateID outbox \<noteq> job_ID job \<or>
         ob_EventVersion outbox \<noteq> job_StatusVersion job \<or> ob_EventType outbox \<noteq> ev_EventType event
      then Some RepoInvalidJobAdmission else None)"

definition sameAIJobIdempotencyScope :: "AIJob \<Rightarrow> AIJob \<Rightarrow> bool" where
  "sameAIJobIdempotencyScope left right \<longleftrightarrow>
     job_IdempotencyKey left \<noteq> [] \<and> job_ApplicationID left = job_ApplicationID right \<and>
     job_CredentialSource left = job_CredentialSource right \<and> job_CredentialID left = job_CredentialID right \<and>
     job_IntegrationID left = job_IntegrationID right \<and> job_PrincipalType left = job_PrincipalType right \<and>
     job_PrincipalID left = job_PrincipalID right \<and>
     job_ExternalSubjectReference left = job_ExternalSubjectReference right \<and>
     job_Operation left = job_Operation right \<and> job_IdempotencyKey left = job_IdempotencyKey right"

definition check_job_insert ::
  "AIOperation \<Rightarrow> AIJob \<Rightarrow> AIJobEvent \<Rightarrow> TransactionalOutboxEvent \<Rightarrow> AIJobAdmissionLimits \<Rightarrow> BillingHoldAdmission \<Rightarrow>
   MemoryRepository \<Rightarrow> repo_error option" where
  "check_job_insert operation job event outbox limits billing r =
     (case enforceAIJobAdmissionLimits limits (aiJobAdmissionCountsForJobs (aiJobs r) job) of
        Some e \<Rightarrow> Some (RepoAdmission e)
      | None \<Rightarrow>
          if go_get (aiOperations r) (op_ID operation) \<noteq> None then Some (RepoOperationExists (op_ID operation))
          else if go_get (aiJobs r) (job_ID job) \<noteq> None then Some (RepoJobExists (job_ID job))
          else (case check_job_event event outbox r of
                  Some e \<Rightarrow> Some e
                | None \<Rightarrow> check_hold_insert r operation billing))"

definition CreateDurableAIJob ::
  "AIOperation \<Rightarrow> AIJob \<Rightarrow> AIJobEvent \<Rightarrow> TransactionalOutboxEvent \<Rightarrow> AIJobAdmissionLimits \<Rightarrow> BillingHoldAdmission \<Rightarrow>
   MemoryRepository \<Rightarrow> (AIJob \<times> bool) repo_result" where
  "CreateDurableAIJob operation0 job event outbox limits billing r =
     (let operation = normalizeAIOperation operation0 in
      case validateDurableAIJobAdmission operation job event outbox of
        Some e \<Rightarrow> (r, Inl e)
      | None \<Rightarrow>
          (case validateBillingHoldAdmission operation billing of
             Some e \<Rightarrow> (r, Inl (RepoHold e))
           | None \<Rightarrow>
               if \<not> admission_validate limits then (r, Inl RepoInvalidAdmissionLimits)
               else (case List.find (\<lambda>current. sameAIJobIdempotencyScope current job) (go_values (aiJobs r)) of
                       Some current \<Rightarrow> (r, Inr (current, False))
                     | None \<Rightarrow>
                         (case check_job_insert operation job event outbox limits billing r of
                            Some e \<Rightarrow> (r, Inl e)
                          | None \<Rightarrow>
                              ((insert_hold operation billing r)
                                 \<lparr>aiJobs := go_set (job_ID job) job (aiJobs r),
                                  aiJobEvents := go_set (ev_ID event) event (aiJobEvents r),
                                  transactionalOutboxEvents := go_set (ob_ID outbox) outbox (transactionalOutboxEvents r)\<rparr>,
                               Inr (job, True))))))"

section \<open>Look-ups\<close>

definition FindAIJob :: "string \<Rightarrow> MemoryRepository \<Rightarrow> AIJob option" where
  "FindAIJob k r = go_get (aiJobs r) k"

definition FindAIJobByOperationID :: "string \<Rightarrow> MemoryRepository \<Rightarrow> AIJob option" where
  "FindAIJobByOperationID operationID r = memoryAIJobByOperationID (aiJobs r) operationID"

definition FindOwnedAIJob :: "string \<Rightarrow> AIJobOwner \<Rightarrow> MemoryRepository \<Rightarrow> AIJob option" where
  "FindOwnedAIJob k owner r =
     (case go_get (aiJobs r) k of None \<Rightarrow> None | Some job \<Rightarrow> if \<not> aiJobOwnerMatches job owner then None else Some job)"

definition list_first :: "(AIJob \<Rightarrow> AIJob \<Rightarrow> bool) \<Rightarrow> (AIJob \<Rightarrow> bool) \<Rightarrow> int \<Rightarrow> MemoryRepository \<Rightarrow> AIJob list" where
  "list_first lt keep limit r =
     (if limit \<le> 0 then []
      else (let jobs = sort_by lt (filter keep (go_values (aiJobs r))) in
            if int (length jobs) > limit then take (nat limit) jobs else jobs))"

definition ListAIJobsForReadyIndex :: "int \<Rightarrow> MemoryRepository \<Rightarrow> AIJob list" where
  "ListAIJobsForReadyIndex limit r =
     list_first (\<lambda>a b. if aiJobReadyAt a \<noteq> aiJobReadyAt b then aiJobReadyAt a < aiJobReadyAt b
                       else string_compare (job_ID a) (job_ID b) < 0)
       (\<lambda>job. job_Status job = AIJobStatusQueued \<or> (job_Status job = AIJobStatusDispatching \<and> job_QueueLeaseUntil job \<noteq> None))
       limit r"

definition ListAIJobsForDeliveryRebuild :: "gotime \<Rightarrow> int \<Rightarrow> MemoryRepository \<Rightarrow> AIJob list" where
  "ListAIJobsForDeliveryRebuild now limit r =
     list_first (\<lambda>a b. if job_UpdatedAt a \<noteq> job_UpdatedAt b then job_UpdatedAt a < job_UpdatedAt b
                       else string_compare (job_ID a) (job_ID b) < 0)
       (\<lambda>job. job_Status job = AIJobStatusDispatching \<and>
          (case job_QueueLeaseUntil job of None \<Rightarrow> False | Some t \<Rightarrow> t > now) \<and> TrimSpace (job_QueueLeaseToken job) \<noteq> [])
       limit r"

definition ListAIJobEvents :: "string \<Rightarrow> MemoryRepository \<Rightarrow> AIJobEvent list" where
  "ListAIJobEvents jobID r =
     sort_by (\<lambda>a b. if ev_JobID a = ev_JobID b then ev_Version a < ev_Version b else ev_CreatedAt a < ev_CreatedAt b)
       (filter (\<lambda>event. jobID = [] \<or> ev_JobID event = jobID) (go_values (aiJobEvents r)))"

section \<open>Cancellation\<close>

definition cancel_target :: "AIJob \<Rightarrow> string" where
  "cancel_target job =
     (if job_Status job = AIJobStatusAccepted \<or> job_Status job = AIJobStatusQueued then AIJobStatusCanceled else AIJobStatusCanceling)"

text \<open>
  The common part of the two cancellation calls: \<open>audit\<close> is the audit log an administrator's call
  writes. The result is the job, whether it changed, or an error.
\<close>

definition cancel_job ::
  "(string \<Rightarrow> string) \<Rightarrow> string \<Rightarrow> AIJob \<Rightarrow> string \<Rightarrow> gotime \<Rightarrow> AuditLog option \<Rightarrow> MemoryRepository \<Rightarrow> (AIJob \<times> bool) repo_result" where
  "cancel_job hash jobKey job reason requestedAt audit r =
     (if oneOf (job_Status job) [AIJobStatusCanceling, AIJobStatusCanceled] then (r, Inr (job, False))
      else if oneOf (job_Status job) [AIJobStatusSucceeded, AIJobStatusFailed, AIJobStatusUnknown, AIJobStatusExpired]
      then (r, Inl ErrAIJobNotCancelable)
      else (case prepareAIJobTransition hash job (cancel_target job) reason requestedAt of
              Inl e \<Rightarrow> (r, Inl e)
            | Inr (updated0, event, outbox) \<Rightarrow>
                (let updated = (if job_Status job = AIJobStatusDispatching
                                then updated0\<lparr>job_FenceToken := job_FenceToken updated0 + 1\<rparr> else updated0)
                 in case check_job_event event outbox r of
                      Some e \<Rightarrow> (r, Inl e)
                    | None \<Rightarrow>
                        if (case audit of None \<Rightarrow> False | Some a \<Rightarrow> go_get (auditLogs r) (au_ID a) \<noteq> None)
                        then (r, Inl (RepoAuditLogExists (case audit of None \<Rightarrow> [] | Some a \<Rightarrow> au_ID a)))
                        else (case go_get (aiOperations r) (job_OperationID job) of
                                None \<Rightarrow> (r, Inl (RepoOperationNotFound (job_OperationID job)))
                              | Some operation \<Rightarrow>
                                  (let (r1, err) = (if cancel_target job = AIJobStatusCanceled
                                         then releaseMemoryBillingHoldForOperation (job_OperationID job)
                                                ''job_canceled_before_dispatch'' requestedAt r
                                         else (r, None))
                                   in case err of
                                        Some e \<Rightarrow> (r1, Inl e)
                                      | None \<Rightarrow>
                                          (let r2 = store_job_change operation jobKey (updated, event, outbox) requestedAt r1 in
                                           (case audit of
                                              None \<Rightarrow> r2
                                            | Some a \<Rightarrow> r2\<lparr>auditLogs := go_set (au_ID a) a (auditLogs r2)\<rparr>,
                                            Inr (updated, True))))))))"

definition RequestAIJobCancellation ::
  "(string \<Rightarrow> string) \<Rightarrow> string \<Rightarrow> AIJobOwner \<Rightarrow> gotime \<Rightarrow> MemoryRepository \<Rightarrow> (AIJob \<times> bool) option repo_result" where
  "RequestAIJobCancellation hash k owner requestedAt r =
     (case go_get (aiJobs r) k of
        None \<Rightarrow> (r, Inr None)
      | Some job \<Rightarrow>
          if \<not> aiJobOwnerMatches job owner then (r, Inr None)
          else map_prod id (map_sum id Some) (cancel_job hash k job ''client_requested'' requestedAt None r))"

definition RequestAIJobAdminCancellation ::
  "(string \<Rightarrow> string) \<Rightarrow> string \<Rightarrow> gotime \<Rightarrow> AuditLog \<Rightarrow> MemoryRepository \<Rightarrow> (AIJob \<times> bool) option repo_result" where
  "RequestAIJobAdminCancellation hash k requestedAt audit r =
     (case go_get (aiJobs r) (TrimSpace k) of
        None \<Rightarrow> (r, Inr None)
      | Some job \<Rightarrow> map_prod id (map_sum id Some) (cancel_job hash (job_ID job) job ''admin_requested'' requestedAt (Some audit) r))"

section \<open>Claiming\<close>

definition claimed_job :: "gotime \<Rightarrow> string \<Rightarrow> string \<Rightarrow> AIJob \<Rightarrow> AIJob" where
  "claimed_job leaseUntil workerID leaseToken job =
     job\<lparr>job_FenceToken := job_FenceToken job + 1, job_QueueLeaseUntil := Some leaseUntil, job_QueueLeaseToken := leaseToken,
       job_QueueWorkerID := workerID\<rparr>"

fun claimAIJobCandidatesLocked ::
  "(string \<Rightarrow> string) \<Rightarrow> AIJob list \<Rightarrow> gotime \<Rightarrow> gotime \<Rightarrow> string \<Rightarrow> string \<Rightarrow> int \<Rightarrow> AIJob list \<Rightarrow> MemoryRepository \<Rightarrow>
   AIJob list repo_result" where
  "claimAIJobCandidatesLocked hash [] now leaseUntil workerID leaseToken limit claimed r = (r, Inr claimed)"
| "claimAIJobCandidatesLocked hash (candidate # rest) now leaseUntil workerID leaseToken limit claimed r =
     (if int (length claimed) \<ge> limit then (r, Inr claimed)
      else (case prepareAIJobClaim hash candidate now of
              Inl e \<Rightarrow> (r, Inl e)
            | Inr (updated0, event, outbox) \<Rightarrow>
                (let updated = claimed_job leaseUntil workerID leaseToken updated0 in
                 case check_job_event event outbox r of
                   Some e \<Rightarrow> (r, Inl e)
                 | None \<Rightarrow>
                     (let operation = (case go_get (aiOperations r) (job_OperationID candidate) of None \<Rightarrow> zero_operation | Some x \<Rightarrow> x) in
                      claimAIJobCandidatesLocked hash rest now leaseUntil workerID leaseToken limit (claimed @ [updated])
                        (store_job_change operation (job_ID updated) (updated, event, outbox) now r)))))"

definition dispatch_activities :: "MemoryRepository \<Rightarrow> aiJobDispatchActivity list" where
  "dispatch_activities r =
     List.map_filter (\<lambda>event.
       if ev_EventType event \<noteq> AIJobEventScheduled then None
       else map_option (\<lambda>job. \<lparr>act_Job = job, act_DispatchedAt = ev_CreatedAt event\<rparr>) (go_get (aiJobs r) (ev_JobID event)))
     (go_values (aiJobEvents r))"

definition ClaimQueuedAIJobs ::
  "(string \<Rightarrow> string) \<Rightarrow> gotime \<Rightarrow> gotime \<Rightarrow> string \<Rightarrow> string \<Rightarrow> int \<Rightarrow> MemoryRepository \<Rightarrow> AIJob list repo_result" where
  "ClaimQueuedAIJobs hash now leaseUntil workerID leaseToken limit r =
     (if limit \<le> 0 \<or> TrimSpace workerID = [] \<or> TrimSpace leaseToken = [] \<or> \<not> leaseUntil > now then (r, Inr [])
      else claimAIJobCandidatesLocked hash
             (rankAIJobFairCandidates (filter (\<lambda>job. aiJobReadyForClaim job now) (go_values (aiJobs r)))
                (go_values (aiJobs r)) (dispatch_activities r) now limit)
             now leaseUntil workerID leaseToken limit [] r)"

definition wanted_versions :: "AIJobReadyReference list \<Rightarrow> int gomap" where
  "wanted_versions references =
     foldl (\<lambda>m reference. if TrimSpace (rr_JobID reference) \<noteq> [] \<and> rr_StatusVersion reference > 0
         then go_set (rr_JobID reference) (rr_StatusVersion reference) m else m) [] references"

definition ClaimAIJobsByReadyReferences ::
  "(string \<Rightarrow> string) \<Rightarrow> AIJobReadyReference list \<Rightarrow> gotime \<Rightarrow> gotime \<Rightarrow> string \<Rightarrow> string \<Rightarrow> int \<Rightarrow> MemoryRepository \<Rightarrow>
   AIJob list repo_result" where
  "ClaimAIJobsByReadyReferences hash references now leaseUntil workerID leaseToken limit r =
     (if limit \<le> 0 \<or> references = [] \<or> TrimSpace workerID = [] \<or> TrimSpace leaseToken = [] \<or> \<not> leaseUntil > now
      then (r, Inr [])
      else claimAIJobCandidatesLocked hash
             (rankAIJobFairCandidates
                (filter (\<lambda>job. (case go_get (wanted_versions references) (job_ID job) of None \<Rightarrow> 0 | Some v \<Rightarrow> v) = job_StatusVersion job \<and>
                   aiJobReadyForClaim job now) (go_values (aiJobs r)))
                (go_values (aiJobs r)) (dispatch_activities r) now limit)
             now leaseUntil workerID leaseToken limit [] r)"

section \<open>Leases and transitions\<close>

definition ExtendAIJobQueueLease ::
  "string \<Rightarrow> int \<Rightarrow> int \<Rightarrow> string \<Rightarrow> gotime \<Rightarrow> gotime \<Rightarrow> MemoryRepository \<Rightarrow> MemoryRepository \<times> (AIJob option \<times> bool)" where
  "ExtendAIJobQueueLease k expectedVersion fenceToken leaseToken leaseUntil extendedAt r =
     (if \<not> leaseUntil > extendedAt \<or> TrimSpace leaseToken = [] then (r, None, False)
      else (case go_get (aiJobs r) k of
              None \<Rightarrow> (r, None, False)
            | Some job \<Rightarrow>
                (case job_QueueLeaseUntil job of
                   None \<Rightarrow> (r, Some job, False)
                 | Some until \<Rightarrow>
                     if job_Status job \<noteq> AIJobStatusDispatching \<or> job_StatusVersion job \<noteq> expectedVersion \<or>
                        job_FenceToken job \<noteq> fenceToken \<or> \<not> until > extendedAt \<or> job_QueueLeaseToken job \<noteq> leaseToken
                     then (r, Some job, False)
                     else if \<not> leaseUntil > until then (r, Some job, True)
                     else (let j = job\<lparr>job_QueueLeaseUntil := Some leaseUntil\<rparr>;
                               j = (if extendedAt > job_UpdatedAt j then j\<lparr>job_UpdatedAt := extendedAt\<rparr> else j)
                           in (r\<lparr>aiJobs := go_set k j (aiJobs r)\<rparr>, Some j, True)))))"

definition stale_job :: "AIJob \<Rightarrow> int \<Rightarrow> int \<Rightarrow> bool" where
  "stale_job job expectedVersion fenceToken \<longleftrightarrow>
     job_StatusVersion job \<noteq> expectedVersion \<or> (job_FenceToken job > 0 \<and> job_FenceToken job \<noteq> fenceToken)"

definition apply_transition ::
  "string \<Rightarrow> AIJob \<Rightarrow> gotime \<Rightarrow> repo_error + job_change \<Rightarrow> MemoryRepository \<Rightarrow> (AIJob option \<times> bool) repo_result" where
  "apply_transition k job transitionedAt prepared r =
     (case prepared of
        Inl e \<Rightarrow> (r, Inl e)
      | Inr (updated, event, outbox) \<Rightarrow>
          (case check_job_event event outbox r of
             Some e \<Rightarrow> (r, Inl e)
           | None \<Rightarrow>
               (case go_get (aiOperations r) (job_OperationID job) of
                  None \<Rightarrow> (r, Inl (RepoOperationNotFound (job_OperationID job)))
                | Some operation \<Rightarrow>
                    (store_job_change operation k (updated, event, outbox) transitionedAt r, Inr (Some updated, True)))))"

definition TransitionAIJob ::
  "(string \<Rightarrow> string) \<Rightarrow> string \<Rightarrow> int \<Rightarrow> int \<Rightarrow> string \<Rightarrow> string \<Rightarrow> gotime \<Rightarrow> MemoryRepository \<Rightarrow> (AIJob option \<times> bool) repo_result" where
  "TransitionAIJob hash k expectedVersion fenceToken toStatus reason transitionedAt r =
     (case go_get (aiJobs r) k of
        None \<Rightarrow> (r, Inr (None, False))
      | Some job \<Rightarrow>
          if stale_job job expectedVersion fenceToken then (r, Inr (Some job, False))
          else apply_transition k job transitionedAt (prepareAIJobTransition hash job toStatus reason transitionedAt) r)"

definition requeued_job :: "gotime \<Rightarrow> gotime \<Rightarrow> job_change \<Rightarrow> job_change" where
  "requeued_job nextEligibleAt transitionedAt change =
     (case change of (updated, event, outbox) \<Rightarrow>
        (updated\<lparr>job_NextEligibleAt := (if nextEligibleAt > transitionedAt then nextEligibleAt else transitionedAt)\<rparr>, event, outbox))"

definition RequeueAIJob ::
  "(string \<Rightarrow> string) \<Rightarrow> string \<Rightarrow> int \<Rightarrow> int \<Rightarrow> string \<Rightarrow> gotime \<Rightarrow> gotime \<Rightarrow> MemoryRepository \<Rightarrow> (AIJob option \<times> bool) repo_result" where
  "RequeueAIJob hash k expectedVersion fenceToken reason nextEligibleAt transitionedAt r =
     (case go_get (aiJobs r) k of
        None \<Rightarrow> (r, Inr (None, False))
      | Some job \<Rightarrow>
          if stale_job job expectedVersion fenceToken then (r, Inr (Some job, False))
          else apply_transition k job transitionedAt
                 (map_sum id (requeued_job nextEligibleAt transitionedAt)
                    (prepareAIJobTransition hash job AIJobStatusQueued reason transitionedAt)) r)"

end
