(* ===== verification/AI_Job_Log.thy ===== *)
theory AI_Job_Log
  imports AI_Job_Repository
begin

text \<open>
  The durable jobs and their event log. Every change of a job made through
  \<^verbatim>\<open>backend/internal/controlplane/ai_job_repository.go\<close> writes the job, one event with the next version
  and one outbox event; this theory states what the tables then satisfy and shows that every
  operation on jobs keeps it.
\<close>

section \<open>The invariant\<close>

definition outbox_of :: "AIJobEvent \<Rightarrow> TransactionalOutboxEvent \<Rightarrow> bool" where
  "outbox_of e out \<longleftrightarrow> ob_AggregateType out = AIJobOutboxAggregate \<and> ob_AggregateID out = ev_JobID e \<and>
     ob_EventType out = ev_EventType e \<and> ob_EventVersion out = ev_Version e"

definition event_key :: "AIJobEvent \<Rightarrow> string \<times> int" where
  "event_key e = (ev_JobID e, ev_Version e)"

text \<open>The fields under which a submission is idempotent.\<close>

definition job_scope :: "AIJob \<Rightarrow> string list" where
  "job_scope j = [job_ApplicationID j, job_CredentialSource j, job_CredentialID j, job_IntegrationID j, job_PrincipalType j,
     job_PrincipalID j, job_ExternalSubjectReference j, job_Operation j, job_IdempotencyKey j]"

definition log_step :: "string \<Rightarrow> string \<Rightarrow> bool" where
  "log_step s t \<longleftrightarrow> job_transition s t \<or> s = AIJobStatusDispatching \<and> t = AIJobStatusDispatching"

definition job_ok :: "MemoryRepository \<Rightarrow> AIJob \<Rightarrow> bool" where
  "job_ok r job \<longleftrightarrow>
     job_ID job \<noteq> [] \<and> job_OperationID job \<noteq> [] \<and> job_IdempotencyKey job \<noteq> [] \<and> 1 \<le> job_StatusVersion job \<and> 0 \<le> job_FenceToken job \<and>
     go_get (aiOperations r) (job_OperationID job) \<noteq> None \<and>
     (\<exists>k e. go_get (aiJobEvents r) k = Some e \<and> event_key e = (job_ID job, job_StatusVersion job))"

text \<open>An event is the first one of its job, or follows the event with the version before.\<close>

definition event_linked :: "AIJobEvent gomap \<Rightarrow> AIJobEvent \<Rightarrow> bool" where
  "event_linked events e \<longleftrightarrow>
     (if ev_Version e = 1 then ev_ToStatus e = AIJobStatusQueued
      else log_step (ev_FromStatus e) (ev_ToStatus e) \<and>
        (\<exists>k p. go_get events k = Some p \<and> event_key p = (ev_JobID e, ev_Version e - 1) \<and> ev_ToStatus p = ev_FromStatus e))"

definition event_ok :: "MemoryRepository \<Rightarrow> AIJobEvent \<Rightarrow> bool" where
  "event_ok r e \<longleftrightarrow>
     (\<exists>job. go_get (aiJobs r) (ev_JobID e) = Some job \<and> 1 \<le> ev_Version e \<and> ev_Version e \<le> job_StatusVersion job \<and>
        (ev_Version e = job_StatusVersion job \<longrightarrow> ev_ToStatus e = job_Status job)) \<and>
     (\<exists>k out. go_get (transactionalOutboxEvents r) k = Some out \<and> outbox_of e out) \<and>
     event_linked (aiJobEvents r) e"

definition operations_inv :: "MemoryRepository \<Rightarrow> bool" where
  "operations_inv r \<longleftrightarrow> table op_ID (\<lambda>_. True) (aiOperations r)"

definition jobs_inv :: "MemoryRepository \<Rightarrow> bool" where
  "jobs_inv r \<longleftrightarrow>
     table job_ID (job_ok r) (aiJobs r) \<and> table ev_ID (event_ok r) (aiJobEvents r) \<and>
     unique_by job_OperationID (aiJobs r) \<and> unique_by job_scope (aiJobs r) \<and> unique_by event_key (aiJobEvents r)"

lemma jobs_table: "jobs_inv r \<Longrightarrow> table job_ID (job_ok r) (aiJobs r)"
  and events_table: "jobs_inv r \<Longrightarrow> table ev_ID (event_ok r) (aiJobEvents r)"
  and events_unique: "jobs_inv r \<Longrightarrow> unique_by event_key (aiJobEvents r)"
  and jobs_unique: "jobs_inv r \<Longrightarrow> unique_by job_OperationID (aiJobs r)" "jobs_inv r \<Longrightarrow> unique_by job_scope (aiJobs r)"
  by (simp_all add: jobs_inv_def)

lemma job_get: "jobs_inv r \<Longrightarrow> go_get (aiJobs r) k = Some job \<Longrightarrow> job_ID job = k \<and> job_ok r job"
  by (rule table_get [OF jobs_table])

lemma job_last_event:
  assumes "jobs_inv r" "go_get (aiJobs r) k = Some job"
  obtains i e where "go_get (aiJobEvents r) i = Some e" "event_key e = (k, job_StatusVersion job)" "ev_ToStatus e = job_Status job"
proof -
  obtain i e where e: "go_get (aiJobEvents r) i = Some e" "event_key e = (k, job_StatusVersion job)"
    using job_get [OF assms] by (auto simp: job_ok_def)
  have "event_ok r e" using table_get [OF events_table [OF assms(1)] e(1)] by simp
  then have "ev_ToStatus e = job_Status job" using e(2) assms(2) by (auto simp: event_ok_def event_key_def)
  with e that show ?thesis by blast
qed

lemma event_job:
  assumes "jobs_inv r" "go_get (aiJobEvents r) i = Some e"
  obtains job where "go_get (aiJobs r) (ev_JobID e) = Some job" "1 \<le> ev_Version e" "ev_Version e \<le> job_StatusVersion job"
  using table_get [OF events_table [OF assms(1)] assms(2)] by (auto simp: event_ok_def)

text \<open>Jobs depend on the operations and the outbox only through what is present there.\<close>

lemma jobs_inv_mono:
  assumes "jobs_inv r" "aiJobs r' = aiJobs r" "aiJobEvents r' = aiJobEvents r"
    and "\<And>k. go_get (aiOperations r) k \<noteq> None \<Longrightarrow> go_get (aiOperations r') k \<noteq> None"
    and "\<And>k out e. go_get (transactionalOutboxEvents r) k = Some out \<Longrightarrow> outbox_of e out \<Longrightarrow>
        \<exists>k' out'. go_get (transactionalOutboxEvents r') k' = Some out' \<and> outbox_of e out'"
  shows "jobs_inv r'"
proof -
  have "table job_ID (job_ok r') (aiJobs r)"
    using jobs_table [OF assms(1)] by (rule table_mono) (use assms(3,4) in \<open>simp add: job_ok_def\<close>)
  moreover have "event_ok r' e" if "event_ok r e" for e
    using that assms(5) unfolding event_ok_def assms(2,3) by blast
  then have "table ev_ID (event_ok r') (aiJobEvents r)" using events_table [OF assms(1)] by (blast intro: table_mono)
  ultimately show ?thesis using assms(1-3) by (simp add: jobs_inv_def)
qed

section \<open>Storing a change\<close>

definition change_ok :: "AIJob \<Rightarrow> job_change \<Rightarrow> bool" where
  "change_ok job change \<longleftrightarrow>
     (case change of (updated, event, outbox) \<Rightarrow>
        job_ID updated = job_ID job \<and> job_OperationID updated = job_OperationID job \<and> job_scope updated = job_scope job \<and>
        job_StatusVersion updated = job_StatusVersion job + 1 \<and> job_FenceToken job \<le> job_FenceToken updated \<and>
        event_key event = (job_ID job, job_StatusVersion job + 1) \<and> ev_FromStatus event = job_Status job \<and>
        ev_ToStatus event = job_Status updated \<and> log_step (job_Status job) (job_Status updated) \<and> outbox_of event outbox)"

lemma applyOperation_ID [simp]: "op_ID (applyMemoryOperationJobStatus operation s e at) = op_ID operation"
  by (simp add: applyMemoryOperationJobStatus_def)

lemma store_job_change_frame [simp]:
  "aiOperations (store_job_change operation k (updated, event, outbox) at r) =
     go_set (op_ID operation) (applyMemoryOperationJobStatus operation (job_Status updated) (job_ErrorType updated) at) (aiOperations r)"
  "aiJobs (store_job_change operation k (updated, event, outbox) at r) = go_set k updated (aiJobs r)"
  "aiJobEvents (store_job_change operation k (updated, event, outbox) at r) = go_set (ev_ID event) event (aiJobEvents r)"
  "transactionalOutboxEvents (store_job_change operation k (updated, event, outbox) at r) =
     go_set (ob_ID outbox) outbox (transactionalOutboxEvents r)"
  "billingHolds (store_job_change operation k (updated, event, outbox) at r) = billingHolds r"
  "billingLedgerEntries (store_job_change operation k (updated, event, outbox) at r) = billingLedgerEntries r"
  "usageRecords (store_job_change operation k (updated, event, outbox) at r) = usageRecords r"
  "aiAttempts (store_job_change operation k (updated, event, outbox) at r) = aiAttempts r"
  "artifacts (store_job_change operation k (updated, event, outbox) at r) = artifacts r"
  "artifactEvents (store_job_change operation k (updated, event, outbox) at r) = artifactEvents r"
  by (simp_all add: store_job_change_def Let_def)

lemma check_job_event_None:
  assumes "check_job_event event outbox r = None"
  shows "go_get (aiJobEvents r) (ev_ID event) = None" "go_get (transactionalOutboxEvents r) (ob_ID outbox) = None"
  using assms by (auto simp: check_job_event_def validateMemoryOutboxInsert_def split: if_splits)

lemma job_scope_key: "job_scope a = job_scope b \<Longrightarrow> job_IdempotencyKey a = job_IdempotencyKey b"
  by (simp add: job_scope_def)

text \<open>An old event stays valid when a job moves to its next version.\<close>

lemma event_ok_store:
  assumes "event_ok r x" "go_get (aiJobs r) k = Some job" "change_ok job (updated, event, outbox)"
    and "check_job_event event outbox r = None"
  shows "event_ok (store_job_change operation k (updated, event, outbox) at r) x"
proof -
  note fresh = check_job_event_None [OF assms(4)]
  let ?r = "store_job_change operation k (updated, event, outbox) at r"
  have keep: "go_get (aiJobEvents r) i = Some p \<Longrightarrow> go_get (aiJobEvents ?r) i = Some p"
    "go_get (transactionalOutboxEvents r) i = Some q \<Longrightarrow> go_get (transactionalOutboxEvents ?r) i = Some q" for i p q
    using fresh by auto
  have "\<exists>job. go_get (aiJobs ?r) (ev_JobID x) = Some job \<and> 1 \<le> ev_Version x \<and> ev_Version x \<le> job_StatusVersion job \<and>
      (ev_Version x = job_StatusVersion job \<longrightarrow> ev_ToStatus x = job_Status job)"
  proof (cases "ev_JobID x = k")
    case True
    then have "1 \<le> ev_Version x" "ev_Version x \<le> job_StatusVersion job" using assms(1,2) by (auto simp: event_ok_def)
    then show ?thesis using True assms(3) by (simp add: change_ok_def)
  qed (use assms(1) in \<open>auto simp: event_ok_def\<close>)
  moreover have "\<exists>i out. go_get (transactionalOutboxEvents ?r) i = Some out \<and> outbox_of x out"
    using assms(1) keep(2) unfolding event_ok_def by blast
  moreover have "event_linked (aiJobEvents ?r) x"
    using assms(1) keep(1) unfolding event_ok_def event_linked_def by (auto simp del: store_job_change_frame split: if_splits)
  ultimately show ?thesis unfolding event_ok_def by blast
qed

lemma event_ok_new:
  assumes "jobs_inv r" "go_get (aiJobs r) k = Some job" "change_ok job (updated, event, outbox)"
    and "check_job_event event outbox r = None"
  shows "event_ok (store_job_change operation k (updated, event, outbox) at r) event"
proof -
  let ?r = "store_job_change operation k (updated, event, outbox) at r"
  note fresh = check_job_event_None [OF assms(4)] and job = job_get [OF assms(1,2)]
  note change = assms(3) [unfolded change_ok_def prod.case event_key_def prod.inject]
  obtain i p where p: "go_get (aiJobEvents r) i = Some p" "event_key p = (k, job_StatusVersion job)" "ev_ToStatus p = job_Status job"
    by (rule job_last_event [OF assms(1,2)])
  have "go_get (aiJobEvents ?r) i = Some p" using p(1) fresh(1) by auto
  then have "event_linked (aiJobEvents ?r) event"
    unfolding event_linked_def using p(2,3) change job by (auto simp del: store_job_change_frame simp: event_key_def job_ok_def)
  moreover have "go_get (transactionalOutboxEvents ?r) (ob_ID outbox) = Some outbox" by simp
  ultimately show ?thesis using change job unfolding event_ok_def by (fastforce simp: job_ok_def)
qed

lemma store_job_change_inv:
  assumes "jobs_inv r" "go_get (aiJobs r) k = Some job" "change_ok job (updated, event, outbox)"
    and "check_job_event event outbox r = None"
  shows "jobs_inv (store_job_change operation k (updated, event, outbox) at r)"
proof -
  let ?r = "store_job_change operation k (updated, event, outbox) at r"
  note fresh = check_job_event_None [OF assms(4)] and job = job_get [OF assms(1,2)]
  note change = assms(3) [unfolded change_ok_def prod.case]
  have keys: "k = job_ID updated" "job_OperationID updated = job_OperationID job" "job_scope updated = job_scope job"
    using change job by simp_all
  have old: "job_ok ?r j" if "job_ok r j" for j
  proof -
    from that obtain i e where "go_get (aiJobEvents r) i = Some e" "event_key e = (job_ID j, job_StatusVersion j)" by (auto simp: job_ok_def)
    then have "go_get (aiJobEvents ?r) i = Some e" using fresh(1) by auto
    with \<open>event_key e = _\<close> that show ?thesis by (auto simp del: store_job_change_frame(3) simp: job_ok_def)
  qed
  have "job_ok ?r updated"
    using change job job_scope_key [OF keys(3)] by (auto simp: job_ok_def intro!: exI [of _ "ev_ID event"] exI [of _ event])
  then have "table job_ID (job_ok ?r) (aiJobs ?r)"
    unfolding store_job_change_frame using table_mono [OF jobs_table [OF assms(1)] old] keys(1) by (intro table_set)
  moreover have "table ev_ID (event_ok ?r) (aiJobEvents ?r)"
  proof -
    have "table ev_ID (event_ok ?r) (aiJobEvents r)"
      using events_table [OF assms(1)] by (rule table_mono) (erule event_ok_store [OF _ assms(2-4)])
    then show ?thesis unfolding store_job_change_frame using event_ok_new [OF assms] by (intro table_set) simp_all
  qed
  moreover have "unique_by job_OperationID (aiJobs ?r)" "unique_by job_scope (aiJobs ?r)"
    unfolding store_job_change_frame using jobs_unique [OF assms(1)] assms(2) keys(2,3) by (auto intro: unique_by_update)
  moreover have "unique_by event_key (aiJobEvents ?r)"
    unfolding store_job_change_frame
  proof (rule unique_by_set [OF events_unique [OF assms(1)]])
    fix i x
    assume x: "go_get (aiJobEvents r) i = Some x" "event_key x = event_key event"
    obtain j where "go_get (aiJobs r) (ev_JobID x) = Some j" "ev_Version x \<le> job_StatusVersion j" using event_job [OF assms(1) x(1)] by blast
    then show "i = ev_ID event" using x(2) change job assms(2) by (auto simp: event_key_def)
  qed
  ultimately show ?thesis by (simp only: jobs_inv_def)
qed

section \<open>The changes the code prepares\<close>

lemma event_records:
  assumes "newAIJobEventRecords hash job fromStatus reason eventType at = Inr (event, outbox)"
  shows "event_key event = (job_ID job, job_StatusVersion job)" "ev_FromStatus event = fromStatus" "ev_ToStatus event = job_Status job"
    "ev_EventType event = eventType" "outbox_of event outbox" "1 \<le> job_StatusVersion job" "ev_CreatedAt event = at"
    "ob_Status outbox = OutboxStatusPending"
  using assms by (auto simp: newAIJobEventRecords_def outbox_of_def event_key_def Let_def split: if_splits)

lemma transitioned_job_sel [simp]:
  "job_ID (transitioned_job job s reason at) = job_ID job" "job_OperationID (transitioned_job job s reason at) = job_OperationID job"
  "job_scope (transitioned_job job s reason at) = job_scope job" "job_Status (transitioned_job job s reason at) = s"
  "job_StatusVersion (transitioned_job job s reason at) = job_StatusVersion job + 1"
  "job_FenceToken (transitioned_job job s reason at) = job_FenceToken job"
  by (simp_all add: transitioned_job_def job_scope_def Let_def)

lemma prepare_transition_cases:
  assumes "prepareAIJobTransition hash job s reason at = Inr (updated, event, outbox)"
  shows "aiJobStatusTransitionAllowed (job_Status job) s reason" "updated = transitioned_job job s reason at"
    "newAIJobEventRecords hash updated (job_Status job) reason (aiJobEventType s) at = Inr (event, outbox)"
  using assms by (auto simp: prepareAIJobTransition_def newAIJobTransitionRecords_def Let_def split: if_splits sum.splits)

lemma prepare_transition_ok:
  assumes "prepareAIJobTransition hash job s reason at = Inr (updated, event, outbox)"
  shows "change_ok job (updated, event, outbox)"
  using prepare_transition_cases [OF assms] event_records [OF prepare_transition_cases(3) [OF assms]]
  by (auto simp: change_ok_def log_step_def intro: job_transition.allowed)

lemma prepare_claim_ok:
  assumes "prepareAIJobClaim hash job at = Inr (updated, event, outbox)"
  shows "change_ok job (updated, event, outbox)" "job_Status updated = AIJobStatusDispatching"
    "job_FenceToken updated = job_FenceToken job"
proof -
  have "change_ok job (updated, event, outbox) \<and> job_Status updated = AIJobStatusDispatching \<and> job_FenceToken updated = job_FenceToken job"
  proof (cases "job_Status job = AIJobStatusDispatching")
    case True
    then have u: "updated = job\<lparr>job_StatusVersion := job_StatusVersion job + 1, job_UpdatedAt := at\<rparr>"
      and e: "newAIJobEventRecords hash updated AIJobStatusDispatching ''lease_expired'' AIJobEventLeaseReassigned at = Inr (event, outbox)"
      using assms by (auto simp: prepareAIJobClaim_def prepareAIJobLeaseReassignment_def Let_def split: if_splits sum.splits)
    then show ?thesis using event_records [OF e] True by (simp add: change_ok_def log_step_def job_scope_def)
  next
    case False
    then have t: "prepareAIJobTransition hash job AIJobStatusDispatching [] at = Inr (updated, event, outbox)"
      using assms by (simp add: prepareAIJobClaim_def)
    then show ?thesis using prepare_transition_ok [OF t] prepare_transition_cases(2) [OF t] by simp
  qed
  then show "change_ok job (updated, event, outbox)" "job_Status updated = AIJobStatusDispatching"
    "job_FenceToken updated = job_FenceToken job" by simp_all
qed

text \<open>Changing a job beside its identity, its status and its version keeps a change well-formed.\<close>

lemma change_ok_update:
  assumes "change_ok job (updated, event, outbox)" "job_ID u = job_ID updated" "job_OperationID u = job_OperationID updated"
    and "job_scope u = job_scope updated" "job_StatusVersion u = job_StatusVersion updated" "job_Status u = job_Status updated"
    and "job_FenceToken updated \<le> job_FenceToken u"
  shows "change_ok job (u, event, outbox)"
  using assms by (auto simp: change_ok_def)

lemma claimed_job_ok:
  "change_ok job (updated, event, outbox) \<Longrightarrow> change_ok job (claimed_job leaseUntil workerID leaseToken updated, event, outbox)"
  by (erule change_ok_update) (simp_all add: claimed_job_def job_scope_def)

lemma requeued_job_ok: "change_ok job change \<Longrightarrow> change_ok job (requeued_job nextEligibleAt at change)"
  by (cases change) (auto simp: requeued_job_def elim!: change_ok_update simp: job_scope_def)

lemma canceled_job_ok:
  "change_ok job (updated, event, outbox) \<Longrightarrow> change_ok job (updated\<lparr>job_FenceToken := job_FenceToken updated + 1\<rparr>, event, outbox)"
  by (erule change_ok_update) (simp_all add: job_scope_def)

end
