(* ===== verification/Artifact_Store.thy ===== *)
theory Artifact_Store
  imports Prelude
begin

text \<open>
  The content of artifacts: object keys, byte ranges and the in-memory object store of
  \<^verbatim>\<open>backend/internal/controlplane/artifact_store.go\<close>. The other stores of the interface
  \<^verbatim>\<open>ArtifactStore\<close> keep their objects in files and in cloud services; the locale \<open>artifact_store\<close> states
  what the service expects of any of them.

  A reader is the data it gives, a reader that fails after some data (also because the context was
  cancelled), or \<^verbatim>\<open>nil\<close>.
\<close>

section \<open>Keys\<close>

text \<open>\<^verbatim>\<open>path.Clean\<close> of the Go library: the shortest equivalent path, computed on its elements.\<close>

fun split_path :: "string \<Rightarrow> string list" where
  "split_path [] = [[]]"
| "split_path (c # s) =
     (if c = CHR ''/'' then [] # split_path s
      else (case split_path s of [] \<Rightarrow> [[c]] | e # es \<Rightarrow> (c # e) # es))"

definition clean_element :: "bool \<Rightarrow> string list \<Rightarrow> string \<Rightarrow> string list" where
  "clean_element rooted out e =
     (if e = [] \<or> e = ''.'' then out
      else if e = ''..'' then
        (if out = [] \<or> last out = ''..'' then (if rooted then out else out @ [e]) else butlast out)
      else out @ [e])"

definition path_Clean :: "string \<Rightarrow> string" where
  "path_Clean p =
     (let rooted = p \<noteq> [] \<and> hd p = CHR ''/'';
          cleaned = string_join ''/'' (foldl (clean_element rooted) [] (split_path p))
      in if rooted then CHR ''/'' # cleaned else if cleaned = [] then ''.'' else cleaned)"

definition has_prefix :: "string \<Rightarrow> string \<Rightarrow> bool" where
  "has_prefix s p \<longleftrightarrow> take (length p) s = p"

definition validArtifactStoreKey :: "string \<Rightarrow> bool" where
  "validArtifactStoreKey key =
     (if key = [] \<or> has_prefix key ''/'' \<or> list_ex (\<lambda>c. c \<in> {CHR 0x00, CHR 0x0D, CHR 0x0A, CHR 0x5C}) key then False
      else (let cleaned = path_Clean key in
            cleaned = key \<and> cleaned \<noteq> ''.'' \<and> cleaned \<noteq> ''..'' \<and> \<not> has_prefix cleaned ''../''))"

section \<open>Byte ranges\<close>

record ArtifactByteRange =
  br_Offset :: int
  br_Length :: int

record ArtifactRead =
  rd_Body :: string
  rd_Offset :: int
  rd_SizeBytes :: int
  rd_TotalBytes :: int

definition normalizeArtifactByteRange :: "int \<Rightarrow> ArtifactByteRange option \<Rightarrow> (int \<times> int) option" where
  "normalizeArtifactByteRange n requested =
     (if n < 0 then None
      else (case requested of
              None \<Rightarrow> Some (0, n)
            | Some req \<Rightarrow>
                if br_Offset req < 0 \<or> br_Offset req \<ge> n \<or> br_Length req < 0 then None
                else (let len = (if br_Length req = 0 \<or> br_Length req > n - br_Offset req
                                    then n - br_Offset req else br_Length req)
                      in Some (br_Offset req, len))))"

section \<open>The store in memory\<close>

datatype reader = NilReader | FailingReader string | Reader string

datatype store_error = InvalidArtifactStoreWrite | StoreReadFailed | StoreIntegrity | StoreUnavailable

type_synonym MemoryArtifactStore = "string gomap"

definition NewMemoryArtifactStore :: MemoryArtifactStore where
  "NewMemoryArtifactStore = []"

definition validateArtifactStoreWrite :: "string \<Rightarrow> reader \<Rightarrow> int \<Rightarrow> store_error option" where
  "validateArtifactStoreWrite key body sizeBytes =
     (if \<not> validArtifactStoreKey key \<or> body = NilReader \<or> sizeBytes < - 1 then Some InvalidArtifactStoreWrite else None)"

definition store_Put :: "string \<Rightarrow> reader \<Rightarrow> int \<Rightarrow> MemoryArtifactStore \<Rightarrow> MemoryArtifactStore \<times> (store_error + int)" where
  "store_Put key body sizeBytes s =
     (case validateArtifactStoreWrite key body sizeBytes of
        Some e \<Rightarrow> (s, Inl e)
      | None \<Rightarrow>
          (case body of
             Reader data \<Rightarrow>
               if sizeBytes \<ge> 0 \<and> int (length data) \<noteq> sizeBytes then (s, Inl StoreIntegrity)
               else (go_set key data s, Inr (int (length data)))
           | _ \<Rightarrow> (s, Inl StoreReadFailed)))"

definition store_Open :: "string \<Rightarrow> ArtifactByteRange option \<Rightarrow> MemoryArtifactStore \<Rightarrow> store_error + ArtifactRead" where
  "store_Open key byteRange s =
     (if \<not> validArtifactStoreKey key then Inl StoreUnavailable
      else (case go_get s key of
              None \<Rightarrow> Inl StoreUnavailable
            | Some data \<Rightarrow>
                (case normalizeArtifactByteRange (int (length data)) byteRange of
                   None \<Rightarrow> Inl StoreUnavailable
                 | Some (offset, n) \<Rightarrow>
                     Inr \<lparr>rd_Body = take (nat n) (drop (nat offset) data), rd_Offset = offset, rd_SizeBytes = n,
                          rd_TotalBytes = int (length data)\<rparr>)))"

definition store_Delete :: "string \<Rightarrow> MemoryArtifactStore \<Rightarrow> MemoryArtifactStore \<times> store_error option" where
  "store_Delete key s = (if \<not> validArtifactStoreKey key then (s, Some StoreUnavailable) else (go_delete key s, None))"

section \<open>Elements of a path\<close>

lemma split_path_not_Nil [simp]: "split_path s \<noteq> []"
  by (induction s) (auto split: list.splits)

lemma join_split_path: "string_join ''/'' (split_path s) = s"
proof (induction s)
  case (Cons c s)
  obtain e es where es: "split_path s = e # es" by (cases "split_path s") simp_all
  then show ?case using Cons by (cases es) auto
qed simp

lemma split_path_no_slash: "CHR ''/'' \<notin> set s \<Longrightarrow> split_path s = [s]"
  by (induction s) auto

lemma split_path_elements: "e \<in> set (split_path s) \<Longrightarrow> CHR ''/'' \<notin> set e"
proof (induction s arbitrary: e)
  case (Cons c s)
  obtain d ds where es: "split_path s = d # ds" by (cases "split_path s") simp_all
  then show ?case using Cons by (auto split: if_splits)
qed simp

lemma split_path_append: "split_path (s @ CHR ''/'' # t) = split_path s @ split_path t"
proof (induction s)
  case (Cons c s)
  obtain d ds where "split_path s = d # ds" by (cases "split_path s") simp_all
  then show ?case using Cons by simp
qed simp

lemma split_path_join:
  "es \<noteq> [] \<Longrightarrow> \<forall>e \<in> set es. CHR ''/'' \<notin> set e \<Longrightarrow> split_path (string_join ''/'' es) = es"
proof (induction "''/''" es rule: string_join.induct)
  case (3 x y ys)
  then have "split_path (string_join ''/'' (x # y # ys)) = split_path x @ split_path (string_join ''/'' (y # ys))"
    using split_path_append [of x] by simp
  also have "\<dots> = [x] @ y # ys" using 3 by (simp add: split_path_no_slash)
  finally show ?case by simp
qed (simp_all add: split_path_no_slash)

section \<open>Valid keys\<close>

definition plain :: "string \<Rightarrow> bool" where
  "plain e \<longleftrightarrow> e \<noteq> [] \<and> e \<noteq> ''.'' \<and> e \<noteq> ''..''"

definition cleaned_elements :: "string list \<Rightarrow> bool" where
  "cleaned_elements es \<longleftrightarrow> (\<exists>n ps. es = replicate n ''..'' @ ps \<and> list_all plain ps)"

lemma clean_element_plain: "plain e \<Longrightarrow> clean_element rooted out e = out @ [e]"
  by (simp add: clean_element_def plain_def)

lemma clean_plain: "list_all plain es \<Longrightarrow> foldl (clean_element rooted) out es = out @ es"
  by (induction es arbitrary: out) (simp_all add: clean_element_plain)

lemma clean_element_cleaned:
  assumes "cleaned_elements out"
  shows "cleaned_elements (clean_element False out e)"
proof -
  obtain n ps where out: "out = replicate n ''..'' @ ps" "list_all plain ps" using assms by (auto simp: cleaned_elements_def)
  consider "e = [] \<or> e = ''.''" | "e = ''..''" "ps = []" | q qs where "e = ''..''" "ps = qs @ [q]" | "plain e"
    by (cases ps rule: rev_cases) (auto simp: plain_def)
  then show ?thesis
  proof cases
    case 1
    then show ?thesis using assms by (simp add: clean_element_def)
  next
    case 2
    then have "clean_element False out e = replicate (Suc n) ''..'' @ []"
      using out by (cases n) (simp_all add: clean_element_def replicate_append_same)
    then show ?thesis unfolding cleaned_elements_def by (intro exI [of _ "Suc n"] exI [of _ "[]"]) simp
  next
    case 3
    then have "clean_element False out e = replicate n ''..'' @ qs" using out by (simp add: clean_element_def plain_def butlast_append)
    then show ?thesis using out(2) 3(2) unfolding cleaned_elements_def by auto
  next
    case 4
    then have "clean_element False out e = replicate n ''..'' @ (ps @ [e])" using out(1) by (simp add: clean_element_plain)
    then show ?thesis using out(2) 4 unfolding cleaned_elements_def by (intro exI [of _ n] exI [of _ "ps @ [e]"]) simp
  qed
qed

lemma clean_cleaned: "cleaned_elements out \<Longrightarrow> cleaned_elements (foldl (clean_element False) out es)"
  by (induction es arbitrary: out) (simp_all add: clean_element_cleaned)

lemma clean_element_subset: "set (clean_element rooted out e) \<subseteq> insert e (set out)"
  by (auto simp: clean_element_def dest: in_set_butlastD)

lemma clean_subset: "set (foldl (clean_element rooted) out es) \<subseteq> set out \<union> set es"
proof (induction es arbitrary: out)
  case (Cons e es)
  then show ?case using clean_element_subset [of rooted out e] by fastforce
qed simp

lemma join_not_Nil: "list_all plain es \<Longrightarrow> es \<noteq> [] \<Longrightarrow> string_join sep es \<noteq> []"
  by (cases es; cases "tl es") (auto simp: plain_def)

lemma split_path_first:
  assumes "split_path key = e # es"
  shows "key = e \<and> es = [] \<or> (\<exists>rest. key = e @ CHR ''/'' # rest \<and> es \<noteq> [])"
  using join_split_path [of key] assms by (cases es) auto

lemma valid_key_plain:
  assumes "validArtifactStoreKey key"
  shows "list_all plain (split_path key)"
proof -
  let ?es = "foldl (clean_element False) [] (split_path key)"
  have key: "key \<noteq> []" "hd key \<noteq> CHR ''/''" "path_Clean key = key" "key \<noteq> ''.''" "key \<noteq> ''..''" "\<not> has_prefix key ''../''"
    using assms by (cases key; auto simp: validArtifactStoreKey_def has_prefix_def Let_def split: if_splits)+
  then have join: "string_join ''/'' ?es = key" by (auto simp: path_Clean_def Let_def split: if_splits)
  then have "?es \<noteq> []" using key(1) by auto
  moreover have "CHR ''/'' \<notin> set e" if "e \<in> set ?es" for e
    using that clean_subset [of False "[]" "split_path key"] split_path_elements by auto
  ultimately have split: "split_path key = ?es" using split_path_join [of ?es] unfolding join by blast
  obtain n ps where ps: "split_path key = replicate n ''..'' @ ps" "list_all plain ps"
    using clean_cleaned [of "[]" "split_path key"] unfolding split [symmetric] by (auto simp: cleaned_elements_def)
  have "n = 0"
  proof (rule ccontr)
    assume "n \<noteq> 0"
    then obtain es where "split_path key = ''..'' # es" using ps(1) by (cases n) simp_all
    from split_path_first [OF this] show False using key(5,6) by (auto simp: has_prefix_def)
  qed
  then show ?thesis using ps by simp
qed

lemma plain_key_valid:
  assumes "list_all plain (split_path key)" "\<not> list_ex (\<lambda>c. c \<in> {CHR 0x00, CHR 0x0D, CHR 0x0A, CHR 0x5C}) key"
  shows "validArtifactStoreKey key"
proof -
  obtain e es where es: "split_path key = e # es" by (cases "split_path key") simp_all
  then have e: "plain e" using assms(1) by simp
  have first: "key = e \<and> es = [] \<or> (\<exists>rest. key = e @ CHR ''/'' # rest \<and> es \<noteq> [])" by (rule split_path_first [OF es])
  have slash: "CHR ''/'' \<notin> set e" using split_path_elements [of e key] es by simp
  obtain c e' where c: "e = c # e'" "c \<noteq> CHR ''/''" using e slash by (cases e) (auto simp: plain_def)
  have key: "key \<noteq> []" "hd key \<noteq> CHR ''/''" using first c by auto
  have "key = e \<or> CHR ''/'' \<in> set key" using first by auto
  moreover have "CHR ''/'' \<notin> set ''.''" "CHR ''/'' \<notin> set ''..''" by simp_all
  ultimately have dots: "key \<noteq> ''.''" "key \<noteq> ''..''" using e unfolding plain_def by metis+
  have "\<not> has_prefix key ''../''"
  proof
    assume "has_prefix key ''../''"
    then obtain rest where "key = ''..'' @ CHR ''/'' # rest"
      unfolding has_prefix_def by (metis append_Cons append_Nil append_take_drop_id)
    then have "split_path key = ''..'' # split_path rest" using split_path_append [of "''..''" rest] by simp
    then show False using assms(1) by (simp add: plain_def)
  qed
  moreover have "path_Clean key = key"
    using clean_plain [OF assms(1), of False "[]"] join_split_path [of key] key(1,2) by (simp add: path_Clean_def Let_def)
  moreover have "\<not> has_prefix key ''/''" using key(1,2) by (cases key) (simp_all add: has_prefix_def)
  ultimately show ?thesis using key dots assms(2) by (simp add: validArtifactStoreKey_def)
qed

section \<open>What the service expects of a store\<close>

text \<open>
  \<open>content\<close> is the object that a store holds under a key. A failed call leaves all objects alone;
  writing and deleting touch one key; reading gives the object or the part of it that was asked for.
\<close>

locale artifact_store =
  fixes put :: "string \<Rightarrow> reader \<Rightarrow> int \<Rightarrow> 's \<Rightarrow> 's \<times> ('e + int)"
    and open_object :: "string \<Rightarrow> ArtifactByteRange option \<Rightarrow> 's \<Rightarrow> 'e + ArtifactRead"
    and delete :: "string \<Rightarrow> 's \<Rightarrow> 's \<times> 'e option"
    and content :: "'s \<Rightarrow> string \<Rightarrow> string option"
  assumes put_failed: "put key body n s = (s', Inl e) \<Longrightarrow> content s' = content s"
    and put_stored: "put key body n s = (s', Inr w) \<Longrightarrow>
      \<exists>data. body = Reader data \<and> w = int (length data) \<and> content s' = (content s)(key \<mapsto> data)"
    and delete_failed: "delete key s = (s', Some e) \<Longrightarrow> content s' = content s"
    and deleted: "delete key s = (s', None) \<Longrightarrow> content s' = (content s)(key := None)"
    and opened: "open_object key part s = Inr rd \<Longrightarrow>
      \<exists>data. content s key = Some data \<and> rd_TotalBytes rd = int (length data) \<and> rd_SizeBytes rd = int (length (rd_Body rd)) \<and>
        0 \<le> rd_Offset rd \<and> rd_Body rd = take (length (rd_Body rd)) (drop (nat (rd_Offset rd)) data) \<and> (part = None \<longrightarrow> rd_Body rd = data)"
begin

text \<open>A call that writes or deletes objects under keys of a set.\<close>

inductive touches :: "string set \<Rightarrow> 's \<Rightarrow> 's \<Rightarrow> bool" for K where
  touch_put: "key \<in> K \<Longrightarrow> touches K s (fst (put key body n s))"
| touch_delete: "key \<in> K \<Longrightarrow> touches K s (fst (delete key s))"

lemma touches_frame: "touches K s s' \<Longrightarrow> k \<notin> K \<Longrightarrow> content s' k = content s k"
proof (induction rule: touches.induct)
  case (touch_put key s body n)
  obtain s' x where p: "put key body n s = (s', x)" by fastforce
  then show ?case using put_failed put_stored touch_put by (cases x) fastforce+
next
  case (touch_delete key s)
  obtain s' x where d: "delete key s = (s', x)" by fastforce
  then show ?case using delete_failed deleted touch_delete by (cases x) fastforce+
qed

lemma run_frame: "(touches K)\<^sup>*\<^sup>* s s' \<Longrightarrow> k \<notin> K \<Longrightarrow> content s' k = content s k"
  by (induction rule: rtranclp_induct) (simp_all add: touches_frame)

lemma read_back:
  assumes "put key body n s = (s', Inr w)" "(touches K)\<^sup>*\<^sup>* s' s''" "key \<notin> K" "open_object key part s'' = Inr rd"
  shows "\<exists>data. body = Reader data \<and> w = int (length data) \<and> rd_TotalBytes rd = w \<and>
    rd_Body rd = take (length (rd_Body rd)) (drop (nat (rd_Offset rd)) data) \<and> (part = None \<longrightarrow> rd_Body rd = data)"
proof -
  obtain data where data: "body = Reader data" "w = int (length data)" "content s' = (content s)(key \<mapsto> data)"
    using put_stored [OF assms(1)] by blast
  then have "content s'' key = Some data" using run_frame [OF assms(2,3)] by simp
  then show ?thesis using opened [OF assms(4)] data by auto
qed

end

lemma byte_range_bounds:
  "normalizeArtifactByteRange n requested = Some (offset, len) \<Longrightarrow> 0 \<le> offset \<and> 0 \<le> len \<and> offset + len \<le> n"
  by (auto simp: normalizeArtifactByteRange_def Let_def split: option.splits if_splits)

interpretation memory_store: artifact_store store_Put store_Open store_Delete go_get
proof unfold_locales
  fix key part s rd
  assume "store_Open key part s = Inr rd"
  then obtain data offset len where o: "go_get s key = Some data" "normalizeArtifactByteRange (int (length data)) part = Some (offset, len)"
    "rd = \<lparr>rd_Body = take (nat len) (drop (nat offset) data), rd_Offset = offset, rd_SizeBytes = len, rd_TotalBytes = int (length data)\<rparr>"
    by (auto simp: store_Open_def split: if_splits option.splits)
  note b = byte_range_bounds [OF o(2)]
  have "length (take (nat len) (drop (nat offset) data)) = nat len" using b by (simp add: min_def) linarith
  moreover have "part = None \<Longrightarrow> offset = 0 \<and> len = int (length data)" using o(2) by (simp add: normalizeArtifactByteRange_def)
  ultimately show "\<exists>data. go_get s key = Some data \<and> rd_TotalBytes rd = int (length data) \<and> rd_SizeBytes rd = int (length (rd_Body rd)) \<and>
      0 \<le> rd_Offset rd \<and> rd_Body rd = take (length (rd_Body rd)) (drop (nat (rd_Offset rd)) data) \<and> (part = None \<longrightarrow> rd_Body rd = data)"
    using o b by auto
qed (auto simp: store_Put_def store_Delete_def split: option.splits reader.splits if_splits)

section \<open>Properties\<close>

text \<open>
  A valid object key cannot leave the directory of the store. The check of the code, which compares
  a key with its cleaned form, accepts exactly the relative paths whose elements are all names: none is
  empty, the current or the parent directory, and there is no control character or backslash.
\<close>

theorem validArtifactStoreKey_exact:
  "validArtifactStoreKey key \<longleftrightarrow>
     list_all (\<lambda>e. e \<noteq> [] \<and> e \<noteq> ''.'' \<and> e \<noteq> ''..'') (split_path key) \<and>
     \<not> list_ex (\<lambda>c. c \<in> {CHR 0x00, CHR 0x0D, CHR 0x0A, CHR 0x5C}) key"
proof -
  have "list_all plain es \<longleftrightarrow> list_all (\<lambda>e. e \<noteq> [] \<and> e \<noteq> ''.'' \<and> e \<noteq> ''..'') es" for es
    by (simp add: plain_def list_all_iff)
  moreover have "validArtifactStoreKey key \<Longrightarrow> \<not> list_ex (\<lambda>c. c \<in> {CHR 0x00, CHR 0x0D, CHR 0x0A, CHR 0x5C}) key"
    by (auto simp: validArtifactStoreKey_def split: if_splits)
  ultimately show ?thesis using valid_key_plain plain_key_valid by blast
qed

text \<open>
  C35: what is stored can be read back. After an object was stored, and whatever is written and deleted
  under other keys, reading it gives the bytes that were stored. Reading a range gives exactly the bytes
  asked for, from the offset on: as many as the length says, or up to the end of the object when fewer are
  left or the length is zero, together with the offset, the number of bytes and the size of the object. A
  negative length, and an offset that is not inside the object, are refused. Deleting the object makes it
  unavailable.
\<close>

theorem store_roundtrip:
  assumes "store_Put key body n s = (s', Inr w)" "(memory_store.touches K)\<^sup>*\<^sup>* s' s''" "key \<notin> K"
  shows "\<exists>data. body = Reader data \<and>
    store_Open key None s'' = Inr \<lparr>rd_Body = data, rd_Offset = 0, rd_SizeBytes = int (length data), rd_TotalBytes = int (length data)\<rparr> \<and>
    (\<forall>i len. store_Open key (Some \<lparr>br_Offset = i, br_Length = len\<rparr>) s'' =
       (if i < 0 \<or> int (length data) \<le> i \<or> len < 0 then Inl StoreUnavailable
        else let rest = drop (nat i) data; part = (if len = 0 then rest else take (nat len) rest) in
          Inr \<lparr>rd_Body = part, rd_Offset = i, rd_SizeBytes = int (length part), rd_TotalBytes = int (length data)\<rparr>)) \<and>
    (\<exists>s3. store_Delete key s'' = (s3, None) \<and> store_Open key None s3 = Inl StoreUnavailable)"
proof -
  obtain data where data: "body = Reader data" "go_get s' key = Some data" using memory_store.put_stored [OF assms(1)] by auto
  have get: "go_get s'' key = Some data" using memory_store.run_frame [OF assms(2,3)] data(2) by simp
  have key: "validArtifactStoreKey key" using assms(1) by (auto simp: store_Put_def validateArtifactStoreWrite_def split: option.splits if_splits)
  show ?thesis
    by (rule exI [of _ data]) (auto simp: data(1) store_Open_def store_Delete_def key get normalizeArtifactByteRange_def Let_def min_def nat_diff_distrib)
qed

theorem store_roundtrip_witness:
  "\<exists>s w. store_Put ''artifact_1/content'' (Reader ''abc'') (- 1) NewMemoryArtifactStore = (s, Inr w) \<and>
     store_Open ''artifact_1/content'' None s = Inr \<lparr>rd_Body = ''abc'', rd_Offset = 0, rd_SizeBytes = 3, rd_TotalBytes = 3\<rparr> \<and>
     store_Open ''artifact_1/content'' (Some \<lparr>br_Offset = 1, br_Length = 1\<rparr>) s =
       Inr \<lparr>rd_Body = ''b'', rd_Offset = 1, rd_SizeBytes = 1, rd_TotalBytes = 3\<rparr>"
proof -
  obtain s where s: "store_Put ''artifact_1/content'' (Reader ''abc'') (- 1) NewMemoryArtifactStore = (s, Inr 3)"
  proof -
    have "snd (store_Put ''artifact_1/content'' (Reader ''abc'') (- 1) NewMemoryArtifactStore) = Inr 3" by code_simp
    then show ?thesis using that by (metis prod.collapse)
  qed
  show ?thesis using store_roundtrip [OF s rtranclp.rtrancl_refl, of "{}"] s by (auto simp: Let_def)
qed

end
