(* ===== verification/Artifact_Repository.thy ===== *)
theory Artifact_Repository
  imports AI_Job_Repository Artifact_Store
begin

text \<open>
  Artifacts, \<^verbatim>\<open>backend/internal/controlplane/artifact_model.go\<close> and the in-memory part of
  \<^verbatim>\<open>artifact_repository.go\<close>: files that belong to an operation, their status machine, and the tables of
  artifacts and artifact events. As for jobs, every change is stored with an event of the next version
  and an outbox event.

  The random parts of the event and outbox identifiers are the arguments \<open>eventID\<close> and \<open>outboxID\<close>.
\<close>

section \<open>Artifacts\<close>

definition ArtifactRoleInput :: string where "ArtifactRoleInput = ''input''"
definition ArtifactRolePreview :: string where "ArtifactRolePreview = ''preview''"
definition ArtifactRoleFinal :: string where "ArtifactRoleFinal = ''final''"
definition ArtifactRoleDerived :: string where "ArtifactRoleDerived = ''derived''"
definition ArtifactRoleProviderReference :: string where "ArtifactRoleProviderReference = ''provider_reference''"
definition ArtifactRoleMetadata :: string where "ArtifactRoleMetadata = ''metadata''"
definition ArtifactStoreDriverNone :: string where "ArtifactStoreDriverNone = ''none''"
definition ArtifactStoreDriverMemory :: string where "ArtifactStoreDriverMemory = ''memory''"
definition ArtifactStoreDriverLocal :: string where "ArtifactStoreDriverLocal = ''local''"
definition ArtifactStoreDriverS3 :: string where "ArtifactStoreDriverS3 = ''s3''"
definition ArtifactStoreDriverOSS :: string where "ArtifactStoreDriverOSS = ''oss''"
definition ArtifactOutboxAggregate :: string where "ArtifactOutboxAggregate = ''artifact''"

datatype artifact_error =
    InvalidArtifactTransition string string
  | InvalidArtifactContentUpdate
  | ArtifactKeyWithoutDriver
  | ArtifactKeyRequired
  | InvalidArtifactEventState
  | InvalidArtifactAdmission
  | ArtifactContentFrozen
  | ArtifactOperationMismatch
  | ArtifactJobMismatch
  | ArtifactAttemptMismatch
  | ArtifactSourceMismatch
  | ArtifactExists string
  | ArtifactEventExists string
  | ArtifactOutboxError outbox_error
  | ErrArtifactNotFound
  | ErrArtifactStateConflict
  | ErrArtifactStoreRequired
  | ErrArtifactTooLarge
  | ErrArtifactIntegrity
  | ErrArtifactUnavailable
  | ErrArtifactIngestInProgress
  | ArtifactStoreError store_error
  | ErrInvalidCanonicalRequest
  | ArtifactInputError string

record ArtifactContentUpdate =
  cu_MediaType :: string
  cu_SizeBytes :: int
  cu_SHA256 :: string
  cu_StoreDriver :: string
  cu_StoreKey :: string
  cu_ExternalReference :: string

record ArtifactTransitionInput =
  ti_ArtifactID :: string
  ti_ExpectedVersion :: int
  ti_ToStatus :: string
  ti_Reason :: string
  ti_Content :: "ArtifactContentUpdate option"

record ArtifactQuery =
  aq_Owner :: "AIJobOwner option"
  aq_ApplicationID :: string
  aq_Search :: string
  aq_OperationID :: string
  aq_JobID :: string
  aq_AttemptID :: string
  aq_SourceArtifactID :: string
  aq_Role :: string
  aq_Policy :: string
  aq_Status :: string
  aq_RetainBefore :: "gotime option"
  aq_Limit :: int
  aq_Offset :: int

definition artifactOwnerFromOperation :: "AIOperation \<Rightarrow> AIJobOwner" where
  "artifactOwnerFromOperation operation =
     \<lparr>ow_ApplicationID = op_ApplicationID operation, ow_IntegrationID = op_IntegrationID operation,
      ow_PrincipalType = op_PrincipalType operation, ow_PrincipalID = op_PrincipalID operation,
      ow_ExternalSubjectReference = op_ExternalSubjectReference operation\<rparr>"

definition artifactOwnerMatches :: "Artifact \<Rightarrow> AIJobOwner \<Rightarrow> bool" where
  "artifactOwnerMatches artifact owner \<longleftrightarrow>
     ar_ApplicationID artifact = ow_ApplicationID owner \<and> ar_IntegrationID artifact = ow_IntegrationID owner \<and>
     ar_PrincipalType artifact = ow_PrincipalType owner \<and> ar_PrincipalID artifact = ow_PrincipalID owner \<and>
     ar_ExternalSubjectReference artifact = ow_ExternalSubjectReference owner"

definition validArtifactRole :: "string \<Rightarrow> bool" where
  "validArtifactRole role =
     oneOf role [ArtifactRoleInput, ArtifactRolePreview, ArtifactRoleFinal, ArtifactRoleDerived, ArtifactRoleProviderReference, ArtifactRoleMetadata]"

definition artifactStatusTransitionAllowed :: "string \<Rightarrow> string \<Rightarrow> bool" where
  "artifactStatusTransitionAllowed fromStatus toStatus =
     (if fromStatus = ArtifactStatusPending then
        oneOf toStatus [ArtifactStatusUploading, ArtifactStatusReady, ArtifactStatusFailed, ArtifactStatusDeleteRequested]
      else if fromStatus = ArtifactStatusUploading then
        oneOf toStatus [ArtifactStatusUploading, ArtifactStatusReady, ArtifactStatusFailed, ArtifactStatusDeleteRequested]
      else if fromStatus = ArtifactStatusReady then
        oneOf toStatus [ArtifactStatusDelivering, ArtifactStatusDeleteRequested, ArtifactStatusExpired]
      else if fromStatus = ArtifactStatusDelivering then
        oneOf toStatus [ArtifactStatusDelivering, ArtifactStatusDelivered, ArtifactStatusDeliveryFailed, ArtifactStatusDeleteRequested]
      else if fromStatus = ArtifactStatusDeliveryFailed then
        oneOf toStatus [ArtifactStatusDelivering, ArtifactStatusDeleteRequested, ArtifactStatusExpired]
      else if fromStatus = ArtifactStatusFailed then
        oneOf toStatus [ArtifactStatusUploading, ArtifactStatusDeleteRequested]
      else if fromStatus = ArtifactStatusDelivered \<or> fromStatus = ArtifactStatusExpired then
        toStatus = ArtifactStatusDeleteRequested
      else if fromStatus = ArtifactStatusDeleteRequested \<or> fromStatus = ArtifactStatusDeleteFailed then
        toStatus = ArtifactStatusDeleting
      else if fromStatus = ArtifactStatusDeleting then
        oneOf toStatus [ArtifactStatusDeleted, ArtifactStatusDeleteFailed]
      else False)"

text \<open>\<^verbatim>\<open>strings.ReplaceAll\<close> of an underscore by a dot.\<close>

definition dotted :: "string \<Rightarrow> string" where
  "dotted s = map (\<lambda>c. if c = CHR ''_'' then CHR ''.'' else c) s"

type_synonym artifact_change = "Artifact \<times> ArtifactEvent \<times> TransactionalOutboxEvent"

definition newArtifactEventRecords ::
  "string \<Rightarrow> string \<Rightarrow> Artifact \<Rightarrow> string \<Rightarrow> string \<Rightarrow> gotime \<Rightarrow> artifact_error + ArtifactEvent \<times> TransactionalOutboxEvent" where
  "newArtifactEventRecords eventID outboxID artifact fromStatus reason at =
     (if TrimSpace (ar_ID artifact) = [] \<or> ar_StatusVersion artifact \<le> 0 \<or> TrimSpace (ar_Status artifact) = []
      then Inl InvalidArtifactEventState
      else (let eventType = ''artifact.'' @ dotted (ar_Status artifact) in
            Inr (\<lparr>aev_ID = ''artifact_event_'' @ eventID, aev_ArtifactID = ar_ID artifact, aev_Version = ar_StatusVersion artifact,
                  aev_EventType = eventType, aev_FromStatus = fromStatus, aev_ToStatus = ar_Status artifact,
                  aev_Reason = TrimSpace reason, aev_CreatedAt = at\<rparr>,
                 \<lparr>ob_ID = ''outbox_'' @ outboxID, ob_AggregateType = ArtifactOutboxAggregate, ob_AggregateID = ar_ID artifact,
                  ob_EventType = eventType, ob_EventVersion = ar_StatusVersion artifact, ob_Status = OutboxStatusPending,
                  ob_AvailableAt = at, ob_AttemptCount = 0, ob_MaxAttempts = OutboxDefaultMaxAttempts, ob_LeaseUntil = None,
                  ob_LeaseToken = [], ob_LastError = [], ob_PublishedAt = None, ob_CreatedAt = at, ob_UpdatedAt = at,
                  ob_PayloadJSON = ArtifactPayload (ar_ID artifact) (ar_Status artifact) (ar_StatusVersion artifact)\<rparr>)))"

definition transitioned_artifact :: "Artifact \<Rightarrow> string \<Rightarrow> string \<Rightarrow> gotime \<Rightarrow> Artifact" where
  "transitioned_artifact artifact toStatus reason at =
     (let a = artifact\<lparr>ar_Status := toStatus, ar_StatusVersion := ar_StatusVersion artifact + 1,
                ar_ErrorType := (if oneOf toStatus [ArtifactStatusFailed, ArtifactStatusDeliveryFailed, ArtifactStatusDeleteFailed]
                                 then TrimSpace reason else []),
                ar_UpdatedAt := at\<rparr>;
          b = (if toStatus = ArtifactStatusReady then a\<lparr>ar_ReadyAt := Some at\<rparr> else a);
          c = (if toStatus = ArtifactStatusDelivered then b\<lparr>ar_DeliveredAt := Some at\<rparr> else b)
      in if toStatus = ArtifactStatusDeleted then c\<lparr>ar_DeletedAt := Some at, ar_StoreKey := [], ar_ExternalReference := []\<rparr> else c)"

definition prepareArtifactTransition ::
  "string \<Rightarrow> string \<Rightarrow> Artifact \<Rightarrow> string \<Rightarrow> string \<Rightarrow> gotime \<Rightarrow> artifact_error + artifact_change" where
  "prepareArtifactTransition eventID outboxID artifact toStatus0 reason at =
     (let toStatus = TrimSpace toStatus0 in
      if \<not> artifactStatusTransitionAllowed (ar_Status artifact) toStatus
      then Inl (InvalidArtifactTransition (ar_Status artifact) toStatus)
      else (let updated = transitioned_artifact artifact toStatus reason at in
            map_sum id (Pair updated) (newArtifactEventRecords eventID outboxID updated (ar_Status artifact) reason at)))"

definition applyArtifactContentUpdate :: "Artifact \<Rightarrow> ArtifactContentUpdate \<Rightarrow> artifact_error + Artifact" where
  "applyArtifactContentUpdate artifact update =
     (let driver = TrimSpace (cu_StoreDriver update); key = TrimSpace (cu_StoreKey update) in
      if cu_SizeBytes update < 0 \<or> \<not> oneOf driver [ArtifactStoreDriverNone, ArtifactStoreDriverMemory, ArtifactStoreDriverLocal,
           ArtifactStoreDriverS3, ArtifactStoreDriverOSS]
      then Inl InvalidArtifactContentUpdate
      else if driver = ArtifactStoreDriverNone \<and> key \<noteq> [] then Inl ArtifactKeyWithoutDriver
      else if driver \<noteq> ArtifactStoreDriverNone \<and> \<not> validArtifactStoreKey key then Inl ArtifactKeyRequired
      else Inr (artifact\<lparr>ar_MediaType := TrimSpace (cu_MediaType update), ar_SizeBytes := cu_SizeBytes update,
             ar_SHA256 := ToLower (TrimSpace (cu_SHA256 update)), ar_StoreDriver := driver, ar_StoreKey := key,
             ar_ExternalReference := TrimSpace (cu_ExternalReference update)\<rparr>))"

definition validateArtifactAdmission :: "Artifact \<Rightarrow> ArtifactEvent \<Rightarrow> TransactionalOutboxEvent \<Rightarrow> artifact_error option" where
  "validateArtifactAdmission artifact event outbox =
     (if TrimSpace (ar_ID artifact) = [] \<or> TrimSpace (ar_OperationID artifact) = [] \<or> \<not> validArtifactRole (ar_Role artifact) \<or>
         \<not> validArtifactPolicy (ar_Policy artifact) \<or> ar_Status artifact \<noteq> ArtifactStatusPending \<or> ar_StatusVersion artifact \<noteq> 1 \<or>
         ar_SizeBytes artifact < 0 \<or> ar_RetainUntil artifact = zero_time \<or> ar_CreatedAt artifact = zero_time \<or>
         ar_UpdatedAt artifact = zero_time \<or> aev_ArtifactID event \<noteq> ar_ID artifact \<or> aev_Version event \<noteq> ar_StatusVersion artifact \<or>
         aev_ToStatus event \<noteq> ar_Status artifact \<or> ob_AggregateType outbox \<noteq> ArtifactOutboxAggregate \<or>
         ob_AggregateID outbox \<noteq> ar_ID artifact \<or> ob_EventVersion outbox \<noteq> ar_StatusVersion artifact
      then Some InvalidArtifactAdmission else None)"

definition artifactDownloadable :: "Artifact \<Rightarrow> gotime \<Rightarrow> bool" where
  "artifactDownloadable artifact now =
     (oneOf (ar_Status artifact) [ArtifactStatusReady, ArtifactStatusDelivered] \<and> ar_RetainUntil artifact > now \<and>
      ar_StoreDriver artifact \<noteq> ArtifactStoreDriverNone \<and> TrimSpace (ar_StoreKey artifact) \<noteq> [])"

section \<open>The repository\<close>

definition validateMemoryArtifactReferences :: "MemoryRepository \<Rightarrow> Artifact \<Rightarrow> artifact_error option" where
  "validateMemoryArtifactReferences r artifact =
     (case go_get (aiOperations r) (ar_OperationID artifact) of
        None \<Rightarrow> Some ArtifactOperationMismatch
      | Some operation \<Rightarrow>
          let owner = artifactOwnerFromOperation operation in
          if \<not> artifactOwnerMatches artifact owner \<or> ar_Policy artifact \<noteq> artifactPolicySnapshot (op_ArtifactPolicy operation)
          then Some ArtifactOperationMismatch
          else if ar_JobID artifact \<noteq> [] \<and>
             (case go_get (aiJobs r) (ar_JobID artifact) of
                None \<Rightarrow> True
              | Some job \<Rightarrow> job_OperationID job \<noteq> ar_OperationID artifact \<or> \<not> aiJobOwnerMatches job owner \<or>
                  job_ArtifactPolicy job \<noteq> ar_Policy artifact)
          then Some ArtifactJobMismatch
          else if ar_AttemptID artifact \<noteq> [] \<and>
             (case go_get (aiAttempts r) (ar_AttemptID artifact) of
                None \<Rightarrow> True | Some attempt \<Rightarrow> at_OperationID attempt \<noteq> ar_OperationID artifact)
          then Some ArtifactAttemptMismatch
          else if ar_SourceArtifactID artifact \<noteq> [] \<and>
             (case go_get (artifacts r) (ar_SourceArtifactID artifact) of
                None \<Rightarrow> True | Some source \<Rightarrow> \<not> artifactOwnerMatches source owner)
          then Some ArtifactSourceMismatch
          else None)"

definition store_artifact :: "artifact_change \<Rightarrow> MemoryRepository \<Rightarrow> MemoryRepository" where
  "store_artifact change r =
     (case change of (artifact, event, outbox) \<Rightarrow>
        r\<lparr>artifacts := go_set (ar_ID artifact) artifact (artifacts r), artifactEvents := go_set (aev_ID event) event (artifactEvents r),
          transactionalOutboxEvents := go_set (ob_ID outbox) outbox (transactionalOutboxEvents r)\<rparr>)"

definition check_artifact_event :: "ArtifactEvent \<Rightarrow> TransactionalOutboxEvent \<Rightarrow> MemoryRepository \<Rightarrow> artifact_error option" where
  "check_artifact_event event outbox r =
     (if go_get (artifactEvents r) (aev_ID event) \<noteq> None then Some (ArtifactEventExists (aev_ID event))
      else map_option ArtifactOutboxError (validateMemoryOutboxInsert (transactionalOutboxEvents r) outbox))"

definition CreateArtifact ::
  "Artifact \<Rightarrow> ArtifactEvent \<Rightarrow> TransactionalOutboxEvent \<Rightarrow> MemoryRepository \<Rightarrow> MemoryRepository \<times> artifact_error option" where
  "CreateArtifact artifact event outbox r =
     (case validateArtifactAdmission artifact event outbox of
        Some e \<Rightarrow> (r, Some e)
      | None \<Rightarrow>
          (case validateMemoryArtifactReferences r artifact of
             Some e \<Rightarrow> (r, Some e)
           | None \<Rightarrow>
               if go_get (artifacts r) (ar_ID artifact) \<noteq> None then (r, Some (ArtifactExists (ar_ID artifact)))
               else (case check_artifact_event event outbox r of
                       Some e \<Rightarrow> (r, Some e)
                     | None \<Rightarrow> (store_artifact (artifact, event, outbox) r, None))))"

definition FindArtifact :: "string \<Rightarrow> MemoryRepository \<Rightarrow> Artifact option" where
  "FindArtifact k r = go_get (artifacts r) (TrimSpace k)"

definition FindOwnedArtifact :: "string \<Rightarrow> AIJobOwner \<Rightarrow> MemoryRepository \<Rightarrow> Artifact option" where
  "FindOwnedArtifact k owner r =
     (case go_get (artifacts r) (TrimSpace k) of
        None \<Rightarrow> None | Some artifact \<Rightarrow> if \<not> artifactOwnerMatches artifact owner then None else Some artifact)"

definition content_updatable :: "string \<Rightarrow> string \<Rightarrow> bool" where
  "content_updatable status toStatus =
     (oneOf status [ArtifactStatusPending, ArtifactStatusUploading, ArtifactStatusFailed] \<and>
        oneOf toStatus [ArtifactStatusUploading, ArtifactStatusReady, ArtifactStatusFailed] \<or>
      status = ArtifactStatusDelivering \<and> oneOf toStatus [ArtifactStatusDelivered, ArtifactStatusDeliveryFailed])"

definition prepareArtifactRepositoryTransition ::
  "string \<Rightarrow> string \<Rightarrow> Artifact \<Rightarrow> ArtifactTransitionInput \<Rightarrow> gotime \<Rightarrow> artifact_error + artifact_change" where
  "prepareArtifactRepositoryTransition eventID outboxID artifact input transitionedAt =
     and_then
       (case ti_Content input of
          None \<Rightarrow> Inr artifact
        | Some content \<Rightarrow>
            if \<not> content_updatable (ar_Status artifact) (TrimSpace (ti_ToStatus input)) then Inl ArtifactContentFrozen
            else applyArtifactContentUpdate artifact content)
       (\<lambda>artifact. prepareArtifactTransition eventID outboxID artifact (ti_ToStatus input) (ti_Reason input) transitionedAt)"

definition TransitionArtifact ::
  "string \<Rightarrow> string \<Rightarrow> ArtifactTransitionInput \<Rightarrow> gotime \<Rightarrow> MemoryRepository \<Rightarrow>
   MemoryRepository \<times> (artifact_error + Artifact option \<times> bool)" where
  "TransitionArtifact eventID outboxID input transitionedAt r =
     (case go_get (artifacts r) (TrimSpace (ti_ArtifactID input)) of
        None \<Rightarrow> (r, Inr (None, False))
      | Some artifact \<Rightarrow>
          if ar_StatusVersion artifact \<noteq> ti_ExpectedVersion input then (r, Inr (Some artifact, False))
          else (case prepareArtifactRepositoryTransition eventID outboxID artifact input transitionedAt of
                  Inl e \<Rightarrow> (r, Inl e)
                | Inr (updated, event, outbox) \<Rightarrow>
                    (case check_artifact_event event outbox r of
                       Some e \<Rightarrow> (r, Inl e)
                     | None \<Rightarrow> (store_artifact (updated, event, outbox) r, Inr (Some updated, True)))))"

definition ListArtifactEvents :: "string \<Rightarrow> MemoryRepository \<Rightarrow> ArtifactEvent list" where
  "ListArtifactEvents artifactID r =
     sort_by (\<lambda>a b. if aev_Version a = aev_Version b then aev_CreatedAt a < aev_CreatedAt b else aev_Version a < aev_Version b)
       (filter (\<lambda>event. TrimSpace artifactID = [] \<or> aev_ArtifactID event = TrimSpace artifactID) (go_values (artifactEvents r)))"

section \<open>Queries\<close>

text \<open>\<^verbatim>\<open>strings.Contains\<close>.\<close>

definition string_contains :: "string \<Rightarrow> string \<Rightarrow> bool" where
  "string_contains s t \<longleftrightarrow> list_ex (\<lambda>i. has_prefix (drop i s) t) [0..<Suc (length s)]"

definition artifactMatchesQuery :: "Artifact \<Rightarrow> ArtifactQuery \<Rightarrow> bool" where
  "artifactMatchesQuery artifact query =
     (let matches = (\<lambda>wanted value. TrimSpace wanted = [] \<or> value = TrimSpace wanted); search = ToLower (TrimSpace (aq_Search query)) in
      if (case aq_Owner query of None \<Rightarrow> False | Some owner \<Rightarrow> \<not> artifactOwnerMatches artifact owner) then False
      else if \<not> matches (aq_ApplicationID query) (ar_ApplicationID artifact) then False
      else if search \<noteq> [] \<and> \<not> string_contains (ToLower (ar_ID artifact)) search \<and> \<not> string_contains (ToLower (ar_OperationID artifact)) search \<and>
         \<not> string_contains (ToLower (ar_JobID artifact)) search \<and> \<not> string_contains (ToLower (ar_AttemptID artifact)) search then False
      else if (case aq_RetainBefore query of None \<Rightarrow> False | Some t \<Rightarrow> ar_RetainUntil artifact > t) then False
      else matches (aq_OperationID query) (ar_OperationID artifact) \<and> matches (aq_JobID query) (ar_JobID artifact) \<and>
        matches (aq_AttemptID query) (ar_AttemptID artifact) \<and> matches (aq_SourceArtifactID query) (ar_SourceArtifactID artifact) \<and>
        matches (aq_Role query) (ar_Role artifact) \<and> matches (aq_Policy query) (ar_Policy artifact) \<and>
        matches (aq_Status query) (ar_Status artifact))"

definition artifact_less :: "Artifact \<Rightarrow> Artifact \<Rightarrow> bool" where
  "artifact_less a b = (if ar_CreatedAt a = ar_CreatedAt b then ar_ID a > ar_ID b else ar_CreatedAt a > ar_CreatedAt b)"

definition artifactQueryLimit :: "int \<Rightarrow> int" where
  "artifactQueryLimit limit = (if limit \<le> 0 \<or> limit > 100 then 100 else limit)"

definition paginateArtifacts :: "Artifact list \<Rightarrow> int \<Rightarrow> int \<Rightarrow> Artifact list" where
  "paginateArtifacts items limit offset0 =
     (let offset = nonNegative offset0 in
      if offset \<ge> int (length items) then []
      else take (nat (artifactQueryLimit limit)) (drop (nat offset) items))"

definition QueryArtifacts :: "ArtifactQuery \<Rightarrow> MemoryRepository \<Rightarrow> Artifact list" where
  "QueryArtifacts query r =
     paginateArtifacts (sort_by artifact_less (filter (\<lambda>artifact. artifactMatchesQuery artifact query) (go_values (artifacts r))))
       (aq_Limit query) (aq_Offset query)"

section \<open>Changes of the tables\<close>

definition aev_key :: "ArtifactEvent \<Rightarrow> string \<times> int" where
  "aev_key e = (aev_ArtifactID e, aev_Version e)"

text \<open>What an artifact keeps for ever.\<close>

definition artifact_identity :: "Artifact \<Rightarrow> string list \<times> gotime \<times> gotime" where
  "artifact_identity a =
     ([ar_ID a, ar_OperationID a, ar_JobID a, ar_AttemptID a, ar_SourceArtifactID a, ar_ApplicationID a, ar_IntegrationID a,
       ar_PrincipalType a, ar_PrincipalID a, ar_ExternalSubjectReference a, ar_Role a, ar_Policy a], ar_RetainUntil a, ar_CreatedAt a)"

definition table_change :: "Artifact \<Rightarrow> ArtifactEvent \<Rightarrow> MemoryRepository \<Rightarrow> MemoryRepository" where
  "table_change a e r = r\<lparr>artifacts := go_set (ar_ID a) a (artifacts r), artifactEvents := go_set (aev_ID e) e (artifactEvents r)\<rparr>"

inductive artifact_step :: "MemoryRepository \<Rightarrow> MemoryRepository \<Rightarrow> bool" where
  new_artifact: "ar_ID a \<noteq> [] \<Longrightarrow> go_get (artifacts r) (ar_ID a) = None \<Longrightarrow> ar_StatusVersion a = 1 \<Longrightarrow> ar_Status a = ArtifactStatusPending \<Longrightarrow>
    go_get (aiOperations r) (ar_OperationID a) \<noteq> None \<Longrightarrow> go_get (artifactEvents r) (aev_ID e) = None \<Longrightarrow>
    aev_key e = (ar_ID a, 1) \<Longrightarrow> aev_ToStatus e = ArtifactStatusPending \<Longrightarrow> artifact_step r (table_change a e r)"
| change_artifact: "go_get (artifacts r) (ar_ID a) = Some a \<Longrightarrow> artifact_identity b = artifact_identity a \<Longrightarrow>
    ar_StatusVersion b = ar_StatusVersion a + 1 \<Longrightarrow> artifactStatusTransitionAllowed (ar_Status a) (ar_Status b) \<Longrightarrow>
    go_get (artifactEvents r) (aev_ID e) = None \<Longrightarrow> aev_key e = (ar_ID a, ar_StatusVersion b) \<Longrightarrow>
    aev_FromStatus e = ar_Status a \<Longrightarrow> aev_ToStatus e = ar_Status b \<Longrightarrow> artifact_step r (table_change b e r)"

text \<open>The events of an artifact, by version.\<close>

definition logged :: "ArtifactEvent gomap \<Rightarrow> Artifact \<Rightarrow> (int \<Rightarrow> ArtifactEvent) \<Rightarrow> bool" where
  "logged events a f \<longleftrightarrow>
     (\<forall>v. 1 \<le> v \<and> v \<le> ar_StatusVersion a \<longrightarrow> go_get events (aev_ID (f v)) = Some (f v) \<and> aev_key (f v) = (ar_ID a, v)) \<and>
     aev_ToStatus (f 1) = ArtifactStatusPending \<and> aev_ToStatus (f (ar_StatusVersion a)) = ar_Status a \<and>
     (\<forall>v. 1 \<le> v \<and> v < ar_StatusVersion a \<longrightarrow> aev_FromStatus (f (v + 1)) = aev_ToStatus (f v) \<and>
        artifactStatusTransitionAllowed (aev_ToStatus (f v)) (aev_ToStatus (f (v + 1))))"

definition artifact_ok :: "MemoryRepository \<Rightarrow> Artifact \<Rightarrow> bool" where
  "artifact_ok r a \<longleftrightarrow> ar_ID a \<noteq> [] \<and> 1 \<le> ar_StatusVersion a \<and> go_get (aiOperations r) (ar_OperationID a) \<noteq> None \<and>
     (\<exists>f. logged (artifactEvents r) a f)"

definition artifact_event_ok :: "MemoryRepository \<Rightarrow> ArtifactEvent \<Rightarrow> bool" where
  "artifact_event_ok r e \<longleftrightarrow>
     (\<exists>a. go_get (artifacts r) (aev_ArtifactID e) = Some a \<and> 1 \<le> aev_Version e \<and> aev_Version e \<le> ar_StatusVersion a)"

definition artifacts_inv :: "MemoryRepository \<Rightarrow> bool" where
  "artifacts_inv r \<longleftrightarrow> table ar_ID (artifact_ok r) (artifacts r) \<and> table aev_ID (artifact_event_ok r) (artifactEvents r) \<and>
     unique_by aev_key (artifactEvents r)"

lemma new_artifacts [simp]: "artifacts NewMemoryRepository = []" "artifactEvents NewMemoryRepository = []"
  by (simp_all add: NewMemoryRepository_def)

lemma artifact_get: "artifacts_inv r \<Longrightarrow> go_get (artifacts r) k = Some a \<Longrightarrow> ar_ID a = k \<and> artifact_ok r a"
  using table_get [of ar_ID "artifact_ok r" "artifacts r" k a] by (simp add: artifacts_inv_def)

lemma artifact_event_get: "artifacts_inv r \<Longrightarrow> go_get (artifactEvents r) k = Some e \<Longrightarrow> aev_ID e = k \<and> artifact_event_ok r e"
  using table_get [of aev_ID "artifact_event_ok r" "artifactEvents r" k e] by (simp add: artifacts_inv_def)

lemma artifacts_inv_mono:
  assumes "artifacts_inv r" "artifacts r' = artifacts r" "artifactEvents r' = artifactEvents r"
    and "\<And>k. go_get (aiOperations r) k \<noteq> None \<Longrightarrow> go_get (aiOperations r') k \<noteq> None"
  shows "artifacts_inv r'"
proof -
  have "artifact_ok r a \<Longrightarrow> artifact_ok r' a" for a using assms(3,4) by (simp add: artifact_ok_def)
  moreover have "artifact_event_ok r = artifact_event_ok r'" by (simp add: fun_eq_iff artifact_event_ok_def assms(2))
  ultimately show ?thesis using assms(1-3) unfolding artifacts_inv_def by (auto elim: table_mono)
qed

lemma logged_old:
  assumes "logged events a f" "go_get events (aev_ID e) = None"
  shows "logged (go_set (aev_ID e) e events) a f"
proof -
  have "go_get (go_set (aev_ID e) e events) (aev_ID (f v)) = Some (f v)" if "go_get events (aev_ID (f v)) = Some (f v)" for v
    using that assms(2) by auto
  then show ?thesis using assms(1) unfolding logged_def by (simp del: go_get_set)
qed

lemma artifact_ok_old:
  "artifact_ok r x \<Longrightarrow> go_get (artifactEvents r) (aev_ID e) = None \<Longrightarrow> artifact_ok (table_change a e r) x"
  unfolding artifact_ok_def by (auto simp: table_change_def intro: logged_old)

text \<open>Storing an artifact and its event, when both fit to what is stored.\<close>

lemma table_change_inv:
  assumes "artifacts_inv r" "go_get (artifactEvents r) (aev_ID e) = None" "aev_key e = (ar_ID a, ar_StatusVersion a)"
    and "artifact_ok (table_change a e r) a" "\<And>old. go_get (artifacts r) (ar_ID a) = Some old \<Longrightarrow> ar_StatusVersion old < ar_StatusVersion a"
  shows "artifacts_inv (table_change a e r)"
proof -
  let ?r = "table_change a e r"
  have old: "artifact_event_ok ?r x" if "artifact_event_ok r x" for x
    using that assms(5) by (force simp: artifact_event_ok_def table_change_def)
  have "artifact_event_ok ?r e"
    using assms(3,4) by (simp add: artifact_event_ok_def aev_key_def table_change_def artifact_ok_def)
  then have "table aev_ID (artifact_event_ok ?r) (artifactEvents ?r)"
    using assms(1) old by (auto simp: artifacts_inv_def table_change_def intro!: table_set elim: table_mono)
  moreover have "table ar_ID (artifact_ok ?r) (artifacts ?r)"
    using assms(1,4) artifact_ok_old [OF _ assms(2)] by (auto simp: artifacts_inv_def table_change_def intro!: table_set elim: table_mono)
  moreover have "unique_by aev_key (artifactEvents ?r)"
    unfolding table_change_def
  proof (simp, rule unique_by_set)
    show "unique_by aev_key (artifactEvents r)" using assms(1) by (simp add: artifacts_inv_def)
    fix i x
    assume x: "go_get (artifactEvents r) i = Some x" "aev_key x = aev_key e"
    then have "artifact_event_ok r x" using artifact_event_get [OF assms(1)] by blast
    then show "i = aev_ID e" using x(2) assms(3,5) by (fastforce simp: artifact_event_ok_def aev_key_def)
  qed
  ultimately show ?thesis by (simp add: artifacts_inv_def)
qed

lemma artifact_step_inv:
  assumes "artifact_step r r'" "artifacts_inv r"
  shows "artifacts_inv r'"
  using assms
proof (induction rule: artifact_step.induct)
  case (new_artifact a r e)
  have "logged (artifactEvents (table_change a e r)) a (\<lambda>_. e)" using new_artifact by (auto simp: logged_def table_change_def)
  then have "artifact_ok (table_change a e r) a" using new_artifact by (auto simp: artifact_ok_def table_change_def)
  then show ?case using new_artifact by (intro table_change_inv) simp_all
next
  case (change_artifact r a b e)
  obtain f where a: "1 \<le> ar_StatusVersion a" "go_get (aiOperations r) (ar_OperationID a) \<noteq> None" "ar_ID a \<noteq> []" and f: "logged (artifactEvents r) a f"
    using artifact_get [OF change_artifact(9,1)] by (auto simp: artifact_ok_def)
  have same: "ar_ID b = ar_ID a" "ar_OperationID b = ar_OperationID a" using change_artifact(2) by (simp_all add: artifact_identity_def)
  have "logged (artifactEvents (table_change b e r)) b (f(ar_StatusVersion b := e))"
    using logged_old [OF f change_artifact(5)] change_artifact(3,4,6-8) a(1) same
    unfolding logged_def table_change_def by (auto simp del: go_get_set) simp
  then have "artifact_ok (table_change b e r) b" using a same change_artifact(3) by (auto simp: artifact_ok_def table_change_def)
  then show ?case using change_artifact same by (intro table_change_inv) auto
qed

section \<open>Creating and changing artifacts\<close>

lemma event_records_artifact:
  assumes "newArtifactEventRecords eventID outboxID a fromStatus reason at = Inr (event, outbox)"
  shows "aev_key event = (ar_ID a, ar_StatusVersion a)" "aev_FromStatus event = fromStatus" "aev_ToStatus event = ar_Status a"
    "aev_ID event = ''artifact_event_'' @ eventID" "ob_ID outbox = ''outbox_'' @ outboxID"
  using assms by (auto simp: newArtifactEventRecords_def aev_key_def Let_def split: if_splits)

lemma transitioned_artifact_sel [simp]:
  "ar_Status (transitioned_artifact a s reason at) = s" "ar_StatusVersion (transitioned_artifact a s reason at) = ar_StatusVersion a + 1"
  "artifact_identity (transitioned_artifact a s reason at) = artifact_identity a" "ar_ID (transitioned_artifact a s reason at) = ar_ID a"
  "ar_StoreDriver (transitioned_artifact a s reason at) = ar_StoreDriver a"
  "ar_StoreKey (transitioned_artifact a s reason at) = (if s = ArtifactStatusDeleted then [] else ar_StoreKey a)"
  "ar_SizeBytes (transitioned_artifact a s reason at) = ar_SizeBytes a" "ar_SHA256 (transitioned_artifact a s reason at) = ar_SHA256 a"
  by (simp_all add: transitioned_artifact_def artifact_identity_def Let_def)

lemma applyContent_same:
  assumes "applyArtifactContentUpdate a u = Inr b"
  shows "artifact_identity b = artifact_identity a" "ar_Status b = ar_Status a" "ar_StatusVersion b = ar_StatusVersion a" "ar_ID b = ar_ID a"
  using assms by (auto simp: applyArtifactContentUpdate_def artifact_identity_def Let_def split: if_splits)

text \<open>A prepared change of an artifact: the content before the new status, and the new status.\<close>

lemma prepare_artifact_cases:
  assumes "prepareArtifactRepositoryTransition eventID outboxID a input at = Inr (updated, event, outbox)"
  obtains b where "case ti_Content input of None \<Rightarrow> b = a
      | Some content \<Rightarrow> content_updatable (ar_Status a) (TrimSpace (ti_ToStatus input)) \<and> applyArtifactContentUpdate a content = Inr b"
    "artifactStatusTransitionAllowed (ar_Status a) (TrimSpace (ti_ToStatus input))"
    "updated = transitioned_artifact b (TrimSpace (ti_ToStatus input)) (ti_Reason input) at"
    "newArtifactEventRecords eventID outboxID updated (ar_Status a) (ti_Reason input) at = Inr (event, outbox)"
    "artifact_identity b = artifact_identity a" "ar_Status b = ar_Status a" "ar_StatusVersion b = ar_StatusVersion a" "ar_ID b = ar_ID a"
proof -
  obtain b where b: "(case ti_Content input of None \<Rightarrow> Inr a
      | Some content \<Rightarrow> if \<not> content_updatable (ar_Status a) (TrimSpace (ti_ToStatus input)) then Inl ArtifactContentFrozen
          else applyArtifactContentUpdate a content) = Inr b"
    "prepareArtifactTransition eventID outboxID b (ti_ToStatus input) (ti_Reason input) at = Inr (updated, event, outbox)"
    using assms by (auto simp: prepareArtifactRepositoryTransition_def and_then_Inr_iff)
  then have same: "artifact_identity b = artifact_identity a" "ar_Status b = ar_Status a" "ar_StatusVersion b = ar_StatusVersion a" "ar_ID b = ar_ID a"
    by (auto split: option.splits if_splits dest: applyContent_same)
  have p: "artifactStatusTransitionAllowed (ar_Status b) (TrimSpace (ti_ToStatus input))"
    "updated = transitioned_artifact b (TrimSpace (ti_ToStatus input)) (ti_Reason input) at"
    "newArtifactEventRecords eventID outboxID updated (ar_Status b) (ti_Reason input) at = Inr (event, outbox)"
    using b(2) by (auto simp: prepareArtifactTransition_def Let_def map_sum_def split: if_splits sum.splits)
  have "case ti_Content input of None \<Rightarrow> b = a
      | Some content \<Rightarrow> content_updatable (ar_Status a) (TrimSpace (ti_ToStatus input)) \<and> applyArtifactContentUpdate a content = Inr b"
    using b(1) by (simp split: option.splits if_splits)
  from that [OF this p(1) [unfolded same(2)] p(2) p(3) [unfolded same(2)] same] show ?thesis .
qed

lemma check_artifact_event_None:
  assumes "check_artifact_event event outbox r = None"
  shows "go_get (artifactEvents r) (aev_ID event) = None" "validateMemoryOutboxInsert (transactionalOutboxEvents r) outbox = None"
  using assms by (auto simp: check_artifact_event_def split: if_splits)

lemma store_artifact_eq:
  "store_artifact (a, event, outbox) r =
     (table_change a event r)\<lparr>transactionalOutboxEvents := go_set (ob_ID outbox) outbox (transactionalOutboxEvents r)\<rparr>"
  by (simp add: store_artifact_def table_change_def)

lemma store_artifact_sel [simp]:
  "artifacts (store_artifact (a, event, outbox) r) = go_set (ar_ID a) a (artifacts r)"
  "artifactEvents (store_artifact (a, event, outbox) r) = go_set (aev_ID event) event (artifactEvents r)"
  "aiOperations (store_artifact (a, event, outbox) r) = aiOperations r"
  "transactionalOutboxEvents (store_artifact (a, event, outbox) r) = go_set (ob_ID outbox) outbox (transactionalOutboxEvents r)"
  by (simp_all add: store_artifact_def)

text \<open>Each operation refuses without a change, or is one step of the tables and one outbox event.\<close>

lemma CreateArtifact_cases:
  assumes "CreateArtifact artifact event outbox r = (r', x)"
  obtains (refused) "r' = r" "x \<noteq> None"
    | (created) "r' = store_artifact (artifact, event, outbox) r" "x = None" "artifact_step r (table_change artifact event r)"
        "validateMemoryOutboxInsert (transactionalOutboxEvents r) outbox = None" "validateArtifactAdmission artifact event outbox = None"
        "validateMemoryArtifactReferences r artifact = None"
proof (cases "validateArtifactAdmission artifact event outbox = None \<and> validateMemoryArtifactReferences r artifact = None \<and>
    go_get (artifacts r) (ar_ID artifact) = None \<and> check_artifact_event event outbox r = None")
  case True
  then have v: "ar_ID artifact \<noteq> []" "ar_StatusVersion artifact = 1" "ar_Status artifact = ArtifactStatusPending" "aev_key event = (ar_ID artifact, 1)"
      "aev_ToStatus event = ArtifactStatusPending"
    by (auto simp: validateArtifactAdmission_def aev_key_def split: if_splits)
  have "go_get (aiOperations r) (ar_OperationID artifact) \<noteq> None"
    using True by (auto simp: validateMemoryArtifactReferences_def split: option.splits)
  then have "artifact_step r (table_change artifact event r)"
    using v True check_artifact_event_None(1) by (intro artifact_step.new_artifact) auto
  then show ?thesis using True assms check_artifact_event_None(2) by (intro created) (auto simp: CreateArtifact_def)
next
  case False
  then have "r' = r \<and> x \<noteq> None" using assms by (auto simp: CreateArtifact_def split: option.splits if_splits) metis+
  then show ?thesis using refused by blast
qed

lemma TransitionArtifact_cases:
  assumes "artifacts_inv r" "TransitionArtifact eventID outboxID input at r = (r', x)"
  obtains (refused) "r' = r" "\<And>u. x \<noteq> Inr (Some u, True)"
    | (changed) a b updated event outbox where "go_get (artifacts r) (ar_ID a) = Some a" "ar_ID a = TrimSpace (ti_ArtifactID input)"
        "ar_StatusVersion a = ti_ExpectedVersion input"
        "case ti_Content input of None \<Rightarrow> b = a
           | Some content \<Rightarrow> content_updatable (ar_Status a) (TrimSpace (ti_ToStatus input)) \<and> applyArtifactContentUpdate a content = Inr b"
        "artifactStatusTransitionAllowed (ar_Status a) (TrimSpace (ti_ToStatus input))"
        "updated = transitioned_artifact b (TrimSpace (ti_ToStatus input)) (ti_Reason input) at"
        "artifact_identity b = artifact_identity a" "ar_Status b = ar_Status a" "ar_StatusVersion b = ar_StatusVersion a"
        "artifact_step r (table_change updated event r)" "validateMemoryOutboxInsert (transactionalOutboxEvents r) outbox = None"
        "r' = store_artifact (updated, event, outbox) r" "x = Inr (Some updated, True)"
proof (cases "go_get (artifacts r) (TrimSpace (ti_ArtifactID input))")
  case None
  then show ?thesis using assms(2) by (intro refused) (auto simp: TransitionArtifact_def)
next
  case (Some a)
  then have id: "ar_ID a = TrimSpace (ti_ArtifactID input)" using artifact_get [OF assms(1)] by blast
  show ?thesis
  proof (cases "ar_StatusVersion a = ti_ExpectedVersion input")
    case version: True
    show ?thesis
    proof (cases "prepareArtifactRepositoryTransition eventID outboxID a input at")
      case (Inl e)
      then show ?thesis using assms(2) Some version by (intro refused) (auto simp: TransitionArtifact_def)
    next
      case (Inr change)
      obtain updated event outbox where ch: "change = (updated, event, outbox)" by (cases change)
      obtain b where b: "case ti_Content input of None \<Rightarrow> b = a
          | Some content \<Rightarrow> content_updatable (ar_Status a) (TrimSpace (ti_ToStatus input)) \<and> applyArtifactContentUpdate a content = Inr b"
        "artifactStatusTransitionAllowed (ar_Status a) (TrimSpace (ti_ToStatus input))"
        "updated = transitioned_artifact b (TrimSpace (ti_ToStatus input)) (ti_Reason input) at"
        "newArtifactEventRecords eventID outboxID updated (ar_Status a) (ti_Reason input) at = Inr (event, outbox)"
        "artifact_identity b = artifact_identity a" "ar_Status b = ar_Status a" "ar_StatusVersion b = ar_StatusVersion a" "ar_ID b = ar_ID a"
        by (rule prepare_artifact_cases [OF Inr [unfolded ch]])
      show ?thesis
      proof (cases "check_artifact_event event outbox r")
        case None
        have "artifact_step r (table_change updated event r)"
          using Some id b event_records_artifact(1-3) [OF b(4)] check_artifact_event_None(1) [OF None]
          by (intro artifact_step.change_artifact [of r a]) simp_all
        then show ?thesis
          using Some id version b Inr ch None assms(2) check_artifact_event_None(2) [OF None]
          by (intro changed [of a b updated event outbox]) (simp_all add: TransitionArtifact_def)
      next
        case (Some e)
        then show ?thesis using assms(2) \<open>go_get _ _ = Some a\<close> version Inr ch by (intro refused) (auto simp: TransitionArtifact_def)
      qed
    qed
  qed (use assms(2) Some in \<open>intro refused, auto simp: TransitionArtifact_def\<close>)
qed

end
