(* ===== verification/Repository_Steps.thy ===== *)
theory Repository_Steps
  imports AI_Job_Log Artifact_Repository
begin

text \<open>
  The invariant of the in-memory repository as a whole, and the single writes its operations are
  made of. Every call of the interface amounts to a sequence of these writes, so that invariants and
  the growth of versions and logs are proved once, for the writes.
\<close>

section \<open>The invariant\<close>

definition attempts_inv :: "MemoryRepository \<Rightarrow> bool" where
  "attempts_inv r \<longleftrightarrow> table at_ID (\<lambda>a. go_get (aiOperations r) (at_OperationID a) \<noteq> None) (aiAttempts r)"

text \<open>Evaluations, the pricing versions of holds and audit logs are stored under their own keys.\<close>

definition records_inv :: "MemoryRepository \<Rightarrow> bool" where
  "records_inv r \<longleftrightarrow> keyed pe_ID (pricingEvaluations r) \<and> keyed hold_version_key (billingHoldPricingVersions r) \<and> keyed au_ID (auditLogs r)"

definition repo_inv :: "MemoryRepository \<Rightarrow> bool" where
  "repo_inv r \<longleftrightarrow> operations_inv r \<and> holds_inv r \<and> ledger_inv r \<and> jobs_inv r \<and> attempts_inv r \<and>
     keyed ob_ID (transactionalOutboxEvents r) \<and> artifacts_inv r \<and> records_inv r"

lemma repo_invD:
  assumes "repo_inv r"
  shows "operations_inv r" "holds_inv r" "ledger_inv r" "jobs_inv r" "attempts_inv r" "keyed ob_ID (transactionalOutboxEvents r)"
    "artifacts_inv r" "records_inv r"
  using assms by (simp_all add: repo_inv_def)

lemma repo_inv_new: "repo_inv NewMemoryRepository"
  by (simp add: repo_inv_def operations_inv_def holds_inv_def ledger_inv_def jobs_inv_def attempts_inv_def artifacts_inv_def records_inv_def)

lemma attempts_inv_mono:
  "attempts_inv r \<Longrightarrow> aiAttempts r' = aiAttempts r \<Longrightarrow>
   (\<And>k. go_get (aiOperations r) k \<noteq> None \<Longrightarrow> go_get (aiOperations r') k \<noteq> None) \<Longrightarrow> attempts_inv r'"
  unfolding attempts_inv_def by (auto elim!: table_mono)

section \<open>Writes\<close>

definition same_job :: "AIJob \<Rightarrow> AIJob \<Rightarrow> bool" where
  "same_job a b \<longleftrightarrow> job_ID a = job_ID b \<and> job_OperationID a = job_OperationID b \<and> job_scope a = job_scope b \<and>
     job_Status a = job_Status b \<and> job_StatusVersion a = job_StatusVersion b \<and> job_FenceToken a = job_FenceToken b"

definition new_job_ok :: "MemoryRepository \<Rightarrow> AIJob \<Rightarrow> AIJobEvent \<Rightarrow> TransactionalOutboxEvent \<Rightarrow> bool" where
  "new_job_ok r job event outbox \<longleftrightarrow>
     job_ID job \<noteq> [] \<and> job_OperationID job \<noteq> [] \<and> job_IdempotencyKey job \<noteq> [] \<and> job_StatusVersion job = 1 \<and> job_Status job = AIJobStatusQueued \<and>
     0 \<le> job_FenceToken job \<and> go_get (aiJobs r) (job_ID job) = None \<and> go_get (aiOperations r) (job_OperationID job) \<noteq> None \<and>
     (\<forall>k j. go_get (aiJobs r) k = Some j \<longrightarrow> job_OperationID j \<noteq> job_OperationID job \<and> job_scope j \<noteq> job_scope job) \<and>
     event_key event = (job_ID job, 1) \<and> ev_ToStatus event = AIJobStatusQueued \<and> outbox_of event outbox \<and>
     check_job_event event outbox r = None"

inductive repo_write :: "MemoryRepository \<Rightarrow> MemoryRepository \<Rightarrow> bool" where
  operation: "repo_write r (r\<lparr>aiOperations := go_set (op_ID operation) operation (aiOperations r)\<rparr>)"
| attempt: "go_get (aiOperations r) (at_OperationID a) \<noteq> None \<Longrightarrow>
    (\<And>old. go_get (aiAttempts r) (at_ID a) = Some old \<Longrightarrow> at_DispatchVersion old \<le> at_DispatchVersion a) \<Longrightarrow>
    repo_write r (r\<lparr>aiAttempts := go_set (at_ID a) a (aiAttempts r)\<rparr>)"
| hold: "hold_step r r' \<Longrightarrow> repo_write r r'"
| admit: "go_get (aiOperations r) (op_ID operation) = None \<Longrightarrow> validateBillingHoldAdmission operation admission = None \<Longrightarrow>
    check_hold_insert r operation admission = None \<Longrightarrow> int64_ok (hold_ReservedAmountMicros (adm_Hold admission)) \<Longrightarrow>
    repo_write r (insert_hold operation admission r)"
| settle: "settlement_wf s \<Longrightarrow> repo_write r (fst (ApplyUsageSettlement s r))"
| job: "go_get (aiJobs r) k = Some j \<Longrightarrow> change_ok j (updated, event, outbox) \<Longrightarrow> check_job_event event outbox r = None \<Longrightarrow>
    repo_write r (store_job_change operation k (updated, event, outbox) at r)"
| lease: "go_get (aiJobs r) k = Some j \<Longrightarrow> same_job j j' \<Longrightarrow> repo_write r (r\<lparr>aiJobs := go_set k j' (aiJobs r)\<rparr>)"
| new_job: "new_job_ok r j event outbox \<Longrightarrow>
    repo_write r (r\<lparr>aiJobs := go_set (job_ID j) j (aiJobs r), aiJobEvents := go_set (ev_ID event) event (aiJobEvents r),
      transactionalOutboxEvents := go_set (ob_ID outbox) outbox (transactionalOutboxEvents r)\<rparr>)"
| outbox: "outbox_step (transactionalOutboxEvents r) s \<Longrightarrow> repo_write r (r\<lparr>transactionalOutboxEvents := s\<rparr>)"
| artifact: "artifact_step r r' \<Longrightarrow> repo_write r r'"
| audit: "(keyed au_ID (auditLogs r) \<Longrightarrow> keyed au_ID logs) \<Longrightarrow> repo_write r (r\<lparr>auditLogs := logs\<rparr>)"
| usage: "(table ur_ID (usage_refers (aiOperations r)) (usageRecords r) \<Longrightarrow> table ur_ID (usage_refers (aiOperations r)) records) \<Longrightarrow>
    repo_write r (r\<lparr>usageRecords := records\<rparr>)"
| evaluation: "repo_write r (r\<lparr>pricingEvaluations := go_set (pe_ID e) e (pricingEvaluations r)\<rparr>)"

section \<open>What a write keeps\<close>

definition job_le :: "AIJob \<Rightarrow> AIJob \<Rightarrow> bool" where
  "job_le j j' \<longleftrightarrow> job_StatusVersion j \<le> job_StatusVersion j' \<and> job_FenceToken j \<le> job_FenceToken j' \<and>
     job_OperationID j' = job_OperationID j \<and> job_scope j' = job_scope j"

definition attempt_le :: "AIAttempt \<Rightarrow> AIAttempt \<Rightarrow> bool" where
  "attempt_le a a' \<longleftrightarrow> at_DispatchVersion a \<le> at_DispatchVersion a'"

lemma le_refl [simp]: "job_le j j" "attempt_le a a"
  by (simp_all add: job_le_def attempt_le_def)

lemma le_trans:
  "job_le j j' \<Longrightarrow> job_le j' j'' \<Longrightarrow> job_le j j''" "attempt_le a a' \<Longrightarrow> attempt_le a' a'' \<Longrightarrow> attempt_le a a''"
  by (auto simp: job_le_def attempt_le_def)

text \<open>No operation, attempt, job or event disappears; events stay as they are; versions never fall.\<close>

definition grows :: "MemoryRepository \<Rightarrow> MemoryRepository \<Rightarrow> bool" where
  "grows r r' \<longleftrightarrow>
     grown (\<lambda>_ _. True) (aiOperations r) (aiOperations r') \<and> grown (=) (aiJobEvents r) (aiJobEvents r') \<and>
     grown job_le (aiJobs r) (aiJobs r') \<and> grown attempt_le (aiAttempts r) (aiAttempts r') \<and>
     grown hold_le (billingHolds r) (billingHolds r')"

lemma grows_refl [simp]: "grows r r"
  by (simp add: grows_def grown_refl)

lemma grows_trans: "grows r r' \<Longrightarrow> grows r' r'' \<Longrightarrow> grows r r''"
  unfolding grows_def by (elim conjE, intro conjI; rule grown_trans; (assumption | rule le_trans | rule hold_le_trans | simp)+)

lemma outbox_step_identity:
  assumes "outbox_step s s'" "keyed ob_ID s" "go_get s k = Some out"
  shows "\<exists>out'. go_get s' k = Some out' \<and> same_outbox_identity out out'"
  using assms
proof (induction rule: outbox_step.induct)
  case (outbox_claim s now u tok n)
  have "same_outbox_identity e (lease_event now u tok e)" for e
    by (simp add: same_outbox_identity_def lease_event_def normalizeTransactionalOutboxEvent_def Let_def)
  moreover have "x = out" if "x \<in> set (due_events now n s)" "ob_ID x = k" for x
    using due_events_mem [OF outbox_claim(1) that(1)] that(2) outbox_claim(2) by simp
  ultimately have claim: "\<exists>out'. (case find (\<lambda>e. ob_ID e = k) (due_events now n s) of Some e \<Rightarrow> Some (lease_event now u tok e) | None \<Rightarrow> go_get s k) =
      Some out' \<and> same_outbox_identity out out'"
    using outbox_claim(2) by (auto simp: same_outbox_identity_def dest!: find_Some_mem split: option.splits)
  show ?case
  proof (cases "n \<le> 0 \<or> TrimSpace tok = []")
    case True
    then show ?thesis using outbox_claim(2) by (auto simp: ClaimDueTransactionalOutboxEvents_def same_outbox_identity_def)
  next
    case False
    then show ?thesis using claim claim_get [OF outbox_claim(1), of n tok now u k] by simp
  qed
qed (auto simp: CompleteTransactionalOutboxEvent_def RescheduleTransactionalOutboxEvent_def RequeueTransactionalOutboxEvent_def
    completed_event_def rescheduled_event_def validateMemoryOutboxInsert_def same_outbox_identity_def
    dest: leased_with_get split: option.splits if_splits)

lemma insert_hold_grows:
  assumes "check_hold_insert r operation admission = None"
  shows "grows r (insert_hold operation admission r)"
  using check_hold_insertD(1) [OF assms] by (auto simp: grows_def intro!: grown_set grown_refl)

lemma hold_step_grows: "hold_step r r' \<Longrightarrow> grows r r'"
  by (simp add: grows_def hold_step_frame grown_refl hold_step_holds)

lemma store_job_change_grows:
  assumes "go_get (aiJobs r) k = Some j" "change_ok j (updated, event, outbox)" "check_job_event event outbox r = None"
  shows "grows r (store_job_change operation k (updated, event, outbox) at r)"
  using assms check_job_event_None [OF assms(3)]
  by (auto simp: grows_def job_le_def change_ok_def intro!: grown_set grown_refl)

lemma settle_grows:
  assumes "holds_inv r"
  shows "grows r (fst (ApplyUsageSettlement s r))"
proof -
  obtain r' x where eq: "ApplyUsageSettlement s r = (r', x)" by fastforce
  from assms eq have "grows r r'"
  proof (cases rule: Apply_result)
    case (applied dims s' r1 r3)
    have "settling_step (ur_OperationID (st_Record s')) r r3" by (rule settling_step_trans [OF applied(8,9)])
    then show ?thesis by (simp add: applied(10) settling_step_def grows_def grown_refl)
  qed simp
  then show ?thesis by (simp add: eq)
qed

lemma artifact_step_frame:
  assumes "artifact_step r r'"
  shows "aiOperations r' = aiOperations r" "aiAttempts r' = aiAttempts r" "aiJobs r' = aiJobs r" "aiJobEvents r' = aiJobEvents r"
    "billingHolds r' = billingHolds r" "billingLedgerEntries r' = billingLedgerEntries r" "usageRecords r' = usageRecords r"
    "transactionalOutboxEvents r' = transactionalOutboxEvents r" "billingHoldPricingVersions r' = billingHoldPricingVersions r"
    "pricingEvaluations r' = pricingEvaluations r" "auditLogs r' = auditLogs r"
  using assms by (auto elim!: artifact_step.cases simp: table_change_def)

lemma repo_write_grows: "repo_write r r' \<Longrightarrow> repo_inv r \<Longrightarrow> grows r r'"
proof (induction rule: repo_write.induct)
  case (admit r operation admission)
  then show ?case by (intro insert_hold_grows)
next
  case (settle s r)
  then show ?case by (intro settle_grows repo_invD)
next
  case (job r k j updated event outbox operation at)
  then show ?case by (intro store_job_change_grows)
next
  case (new_job r j event outbox)
  then show ?case using check_job_event_None [of event outbox r] by (auto simp: grows_def new_job_ok_def intro!: grown_set grown_refl)
qed (auto simp: grows_def job_le_def attempt_le_def same_job_def hold_step_frame hold_step_holds artifact_step_frame
    intro!: grown_set grown_refl)

section \<open>Every write keeps the invariant\<close>

lemma operations_invI: "operations_inv r \<Longrightarrow> aiOperations r' = aiOperations r \<Longrightarrow> operations_inv r'"
  by (simp add: operations_inv_def)

lemma jobs_inv_lease:
  assumes "jobs_inv r" "go_get (aiJobs r) k = Some j" "same_job j j'"
  shows "jobs_inv (r\<lparr>aiJobs := go_set k j' (aiJobs r)\<rparr>)"
proof -
  let ?r = "r\<lparr>aiJobs := go_set k j' (aiJobs r)\<rparr>"
  note job = job_get [OF assms(1,2)] and same = assms(3) [unfolded same_job_def]
  have ok: "job_ok ?r = job_ok r" by (simp add: fun_eq_iff job_ok_def)
  have "job_ok r j'" using job same job_scope_key [of j j'] by (auto simp: job_ok_def)
  then have "table job_ID (job_ok ?r) (aiJobs ?r)" using jobs_table [OF assms(1)] job same by (simp add: ok table_set)
  moreover have "event_ok ?r x" if "event_ok r x" for x
    using that assms(2) same by (auto simp: event_ok_def split: if_splits)
  then have "table ev_ID (event_ok ?r) (aiJobEvents ?r)" using events_table [OF assms(1)] by (auto intro: table_mono)
  ultimately show ?thesis
    using jobs_unique [OF assms(1)] events_unique [OF assms(1)] assms(2) same by (simp add: jobs_inv_def unique_by_update)
qed

lemma jobs_inv_new:
  assumes "jobs_inv r" "new_job_ok r j event outbox"
  shows "jobs_inv (r\<lparr>aiJobs := go_set (job_ID j) j (aiJobs r), aiJobEvents := go_set (ev_ID event) event (aiJobEvents r),
      transactionalOutboxEvents := go_set (ob_ID outbox) outbox (transactionalOutboxEvents r)\<rparr>)" (is "jobs_inv ?r")
proof -
  note new = assms(2) [unfolded new_job_ok_def] and fresh = check_job_event_None [of event outbox r]
  have keep: "go_get (aiJobEvents r) i = Some p \<Longrightarrow> go_get (aiJobEvents ?r) i = Some p"
    "go_get (transactionalOutboxEvents r) i = Some q \<Longrightarrow> go_get (transactionalOutboxEvents ?r) i = Some q"
    "go_get (aiJobs r) i = Some x \<Longrightarrow> go_get (aiJobs ?r) i = Some x" for i p q x
    using fresh new by auto
  have "job_ok ?r x" if "job_ok r x" for x
    using that keep(1) unfolding job_ok_def by (auto simp del: go_get_set)
  moreover have "job_ok ?r j" using new unfolding job_ok_def by (auto intro!: exI [of _ "ev_ID event"])
  ultimately have "table job_ID (job_ok ?r) (aiJobs ?r)"
    using table_mono [OF jobs_table [OF assms(1)]] by (simp add: table_set)
  moreover have old: "event_ok ?r x" if x: "event_ok r x" for x
  proof -
    have "event_linked (aiJobEvents ?r) x"
      using x keep(1) unfolding event_ok_def event_linked_def by (auto simp del: go_get_set split: if_splits)
    then show ?thesis using x keep(2,3) unfolding event_ok_def by blast
  qed
  have "event_ok ?r event" using new by (auto simp: event_ok_def event_linked_def event_key_def)
  then have "table ev_ID (event_ok ?r) (aiJobEvents ?r)"
    using table_mono [OF events_table [OF assms(1)] old] by (simp add: table_set)
  moreover have "unique_by event_key (aiJobEvents ?r)"
    using new by (auto simp: event_key_def intro!: unique_by_set [OF events_unique [OF assms(1)]] elim!: event_job [OF assms(1)])
  moreover have "unique_by job_OperationID (aiJobs ?r)" "unique_by job_scope (aiJobs ?r)"
    using new by (auto intro!: unique_by_set jobs_unique [OF assms(1)])
  ultimately show ?thesis by (simp only: jobs_inv_def)
qed

lemma keyed_store: "keyed ob_ID s \<Longrightarrow> keyed ob_ID (go_set (ob_ID out) out s)"
  by (simp add: keyed_go_set)

lemma insert_hold_jobs: "jobs_inv r \<Longrightarrow> jobs_inv (insert_hold operation admission r)"
  by (erule jobs_inv_mono) auto

lemma settle_outbox:
  assumes "holds_inv r" "keyed ob_ID (transactionalOutboxEvents r)"
  shows "keyed ob_ID (transactionalOutboxEvents (fst (ApplyUsageSettlement s r)))"
    and "jobs_inv r \<Longrightarrow> jobs_inv (fst (ApplyUsageSettlement s r))"
    and "aiOperations (fst (ApplyUsageSettlement s r)) = aiOperations r" "aiAttempts (fst (ApplyUsageSettlement s r)) = aiAttempts r"
proof -
  obtain r' x where eq: "ApplyUsageSettlement s r = (r', x)" by fastforce
  from assms(1) eq have "keyed ob_ID (transactionalOutboxEvents r') \<and> (jobs_inv r \<longrightarrow> jobs_inv r') \<and>
      aiOperations r' = aiOperations r \<and> aiAttempts r' = aiAttempts r"
  proof (cases rule: Apply_result)
    case (applied dims s' r1 r3)
    have step: "settling_step (ur_OperationID (st_Record s')) r r3" by (rule settling_step_trans [OF applied(8,9)])
    let ?os = "st_OutboxEvents s'"
    have out: "transactionalOutboxEvents r' = foldl (\<lambda>m e. go_set (ob_ID e) e m) (transactionalOutboxEvents r) ?os"
      using step by (simp add: applied(10) settling_step_def)
    have "\<forall>e \<in> set ?os. go_get (transactionalOutboxEvents r) (ob_ID e) = None" by (rule check_insert_fresh(4) [OF applied(6)])
    then have keep: "go_get (transactionalOutboxEvents r') k = Some e" if "go_get (transactionalOutboxEvents r) k = Some e" for k e
      unfolding out using that by (subst foldl_go_set_other) auto
    have frame: "aiJobs r' = aiJobs r" "aiJobEvents r' = aiJobEvents r" "aiOperations r' = aiOperations r" "aiAttempts r' = aiAttempts r"
      using step by (simp_all add: applied(10) settling_step_def)
    have "jobs_inv r'" if "jobs_inv r"
      by (rule jobs_inv_mono [OF that frame(1,2)]) (use keep frame(3) in auto)
    then show ?thesis using frame keyed_foldl_go_set [OF assms(2), of ?os] by (simp add: out)
  qed (use assms in simp)
  then show "keyed ob_ID (transactionalOutboxEvents (fst (ApplyUsageSettlement s r)))"
    "jobs_inv r \<Longrightarrow> jobs_inv (fst (ApplyUsageSettlement s r))"
    "aiOperations (fst (ApplyUsageSettlement s r)) = aiOperations r" "aiAttempts (fst (ApplyUsageSettlement s r)) = aiAttempts r"
    by (simp_all add: eq)
qed

text \<open>A write that touches neither holds nor ledger leaves their invariants alone.\<close>

lemma billing_inv_mono:
  assumes "repo_inv r" "grows r r'" "billingHolds r' = billingHolds r" "billingLedgerEntries r' = billingLedgerEntries r"
    and "usageRecords r' = usageRecords r"
  shows "holds_inv r'" "ledger_inv r'"
proof -
  have ops: "go_get (aiOperations r') k \<noteq> None" if "go_get (aiOperations r) k \<noteq> None" for k
    using assms(2) that by (auto simp: grows_def dest: grown_get)
  show "holds_inv r'" using repo_invD(2) [OF assms(1)] assms(3) ops by (rule holds_inv_mono)
  show "ledger_inv r'" using repo_invD(3) [OF assms(1)] assms(4,5) ops by (rule ledger_inv_mono)
qed

lemma settle_artifacts:
  assumes "holds_inv r"
  shows "artifacts (fst (ApplyUsageSettlement s r)) = artifacts r" "artifactEvents (fst (ApplyUsageSettlement s r)) = artifactEvents r"
proof -
  obtain r' x where eq: "ApplyUsageSettlement s r = (r', x)" by fastforce
  from assms eq have "artifacts r' = artifacts r \<and> artifactEvents r' = artifactEvents r"
  proof (cases rule: Apply_result)
    case (applied dims s' r1 r3)
    have "settling_step (ur_OperationID (st_Record s')) r r3" by (rule settling_step_trans [OF applied(8,9)])
    then show ?thesis by (simp add: applied(10) settling_step_def)
  qed simp
  then show "artifacts (fst (ApplyUsageSettlement s r)) = artifacts r" "artifactEvents (fst (ApplyUsageSettlement s r)) = artifactEvents r"
    by (simp_all add: eq)
qed

text \<open>A write leaves the artifacts alone, or is a step of them.\<close>

lemma repo_write_artifacts:
  assumes "repo_write r r'" "repo_inv r"
  shows "artifact_step r r' \<or> artifacts r' = artifacts r \<and> artifactEvents r' = artifactEvents r"
  using assms
proof (induction rule: repo_write.induct)
  case (settle s r)
  then show ?case using settle_artifacts repo_invD(2) by blast
qed (auto simp: hold_step_frame)

lemma repo_write_artifacts_inv:
  assumes "repo_write r r'" "repo_inv r"
  shows "artifacts_inv r'"
proof -
  have "go_get (aiOperations r') k \<noteq> None" if "go_get (aiOperations r) k \<noteq> None" for k
    using repo_write_grows [OF assms] that by (auto simp: grows_def dest: grown_get)
  then show ?thesis
    using repo_write_artifacts [OF assms] artifact_step_inv artifacts_inv_mono repo_invD(7) [OF assms(2)] by blast
qed

lemma settle_records:
  assumes "holds_inv r" "records_inv r"
  shows "records_inv (fst (ApplyUsageSettlement s r))"
proof -
  obtain r' x where eq: "ApplyUsageSettlement s r = (r', x)" by fastforce
  from assms(1) eq have "records_inv r'"
  proof (cases rule: Apply_result)
    case (applied dims s' r1 r3)
    have "settling_step (ur_OperationID (st_Record s')) r r3" by (rule settling_step_trans [OF applied(8,9)])
    then show ?thesis using assms(2) by (simp add: applied(10) settling_step_def keeps_pins_def records_inv_def keyed_foldl_go_set)
  qed (use assms in simp)
  then show ?thesis by (simp add: eq)
qed

lemma insert_hold_records: "records_inv r \<Longrightarrow> records_inv (insert_hold operation admission r)"
  by (simp add: records_inv_def insert_hold_def keyed_foldl_go_set)

lemma repo_write_records: "repo_write r r' \<Longrightarrow> repo_inv r \<Longrightarrow> records_inv r'"
proof (induction rule: repo_write.induct)
  case (settle s r)
  then show ?case by (intro settle_records repo_invD)
next
  case (admit r operation admission)
  then show ?case by (intro insert_hold_records repo_invD)
next
  case (artifact r r')
  then show ?case using repo_invD(8) artifact_step_frame by (simp add: records_inv_def)
qed (auto dest!: repo_invD(8) simp: records_inv_def store_job_change_def hold_step_frame keyed_go_set)

lemma repo_write_rest: "repo_write r r' \<Longrightarrow> repo_inv r \<Longrightarrow> artifacts_inv r' \<Longrightarrow> records_inv r' \<Longrightarrow> repo_inv r'"
proof (induction rule: repo_write.induct)
  case (operation r operation)
  let ?r = "r\<lparr>aiOperations := go_set (op_ID operation) operation (aiOperations r)\<rparr>"
  note inv = repo_invD [OF operation(1)] and billing = billing_inv_mono [OF operation(1) repo_write_grows [OF repo_write.operation operation(1)], of operation]
  have "jobs_inv ?r" using inv(4) by (rule jobs_inv_mono) auto
  moreover have "attempts_inv ?r" using inv(5) by (rule attempts_inv_mono) auto
  ultimately show ?case using inv(1,6) billing operation(2,3) by (simp add: repo_inv_def operations_inv_def table_set)
next
  case (attempt r a)
  let ?r = "r\<lparr>aiAttempts := go_set (at_ID a) a (aiAttempts r)\<rparr>"
  note inv = repo_invD [OF attempt(3)] and billing = billing_inv_mono [OF attempt(3) repo_write_grows [OF repo_write.attempt attempt(3)], of a]
  have "jobs_inv ?r" using inv(4) by (rule jobs_inv_mono) auto
  then show ?case using inv(1,5,6) billing attempt(1,2,4,5) by (simp add: repo_inv_def operations_inv_def attempts_inv_def table_set)
next
  case (hold r r')
  note inv = repo_invD [OF hold(2)] and frame = hold_step_frame [OF hold(1)]
  have "jobs_inv r'" using inv(4) by (rule jobs_inv_mono) (auto simp: frame)
  moreover have "ledger_inv r'" using inv(3) by (rule ledger_inv_mono) (auto simp: frame)
  ultimately show ?case
    using inv hold_step_inv [OF hold(1)] hold(3,4) by (simp add: repo_inv_def operations_inv_def attempts_inv_def frame)
next
  case (admit r operation admission)
  note inv = repo_invD [OF admit(5)]
  have "ledger_inv (insert_hold operation admission r)" using inv(3) by (rule ledger_inv_mono) auto
  moreover have "attempts_inv (insert_hold operation admission r)" using inv(5) by (rule attempts_inv_mono) auto
  ultimately show ?case
    using inv insert_hold_inv [OF inv(2) admit(3,2,4)] insert_hold_jobs [OF inv(4)] admit(6,7)
    by (simp add: repo_inv_def operations_inv_def table_set)
next
  case (settle s r)
  note inv = repo_invD [OF settle(2)]
  show ?case
    using Apply_inv [OF inv(2,3) settle(1)] settle_outbox [OF inv(2,6), of s] inv settle(3,4)
    by (simp add: repo_inv_def operations_inv_def attempts_inv_def)
next
  case (job r k j updated event outbox operation at)
  let ?r = "store_job_change operation k (updated, event, outbox) at r"
  note inv = repo_invD [OF job(4)] and billing = billing_inv_mono [OF job(4) store_job_change_grows [OF job(1-3), of operation at]]
  have "attempts_inv ?r" using inv(5) by (rule attempts_inv_mono) auto
  then show ?case
    using inv(1,6) billing store_job_change_inv [OF inv(4) job(1-3)] job(5,6) by (simp add: repo_inv_def operations_inv_def table_set keyed_go_set)
next
  case (lease r k j j')
  note inv = repo_invD [OF lease(3)] and billing = billing_inv_mono [OF lease(3) repo_write_grows [OF repo_write.lease [OF lease(1,2)] lease(3)]]
  show ?case using inv billing jobs_inv_lease [OF inv(4) lease(1,2)] lease(4,5) by (simp add: repo_inv_def operations_inv_def attempts_inv_def)
next
  case (new_job r j event outbox)
  note inv = repo_invD [OF new_job(2)] and billing = billing_inv_mono [OF new_job(2) repo_write_grows [OF repo_write.new_job [OF new_job(1)] new_job(2)]]
  show ?case
    using inv billing jobs_inv_new [OF inv(4) new_job(1)] new_job(3,4) by (simp add: repo_inv_def operations_inv_def attempts_inv_def keyed_go_set)
next
  case (outbox r s)
  note inv = repo_invD [OF outbox(2)] and billing = billing_inv_mono [OF outbox(2) repo_write_grows [OF repo_write.outbox [OF outbox(1)] outbox(2)]]
  have "jobs_inv (r\<lparr>transactionalOutboxEvents := s\<rparr>)"
  proof (rule jobs_inv_mono [OF inv(4)])
    fix k out e
    assume "go_get (transactionalOutboxEvents r) k = Some out" "outbox_of e out"
    then show "\<exists>k' out'. go_get (transactionalOutboxEvents (r\<lparr>transactionalOutboxEvents := s\<rparr>)) k' = Some out' \<and> outbox_of e out'"
      using outbox_step_identity [OF outbox(1) inv(6)] by (fastforce simp: same_outbox_identity_def outbox_of_def)
  qed auto
  then show ?case using inv billing outbox_step_keyed [OF outbox(1) inv(6)] outbox(3,4) by (simp add: repo_inv_def operations_inv_def attempts_inv_def)
next
  case (artifact r r')
  note inv = repo_invD [OF artifact(2)] and frame = artifact_step_frame [OF artifact(1)]
    and billing = billing_inv_mono [OF artifact(2) repo_write_grows [OF repo_write.artifact [OF artifact(1)] artifact(2)]]
  have "jobs_inv r'" using inv(4) by (rule jobs_inv_mono) (auto simp: frame)
  then show ?case using inv billing artifact(3,4) by (simp add: repo_inv_def operations_inv_def attempts_inv_def frame)
next
  case (audit r logs)
  note inv = repo_invD [OF audit(2)]
  have "jobs_inv (r\<lparr>auditLogs := logs\<rparr>)" using inv(4) by (rule jobs_inv_mono) auto
  then show ?case using inv audit(3,4) by (simp add: repo_inv_def operations_inv_def attempts_inv_def holds_inv_def ledger_inv_def)
next
  case (usage r records)
  note inv = repo_invD [OF usage(2)]
  have "jobs_inv (r\<lparr>usageRecords := records\<rparr>)" using inv(4) by (rule jobs_inv_mono) auto
  moreover have "ledger_inv (r\<lparr>usageRecords := records\<rparr>)" using inv(3) usage(1) by (simp add: ledger_inv_def)
  ultimately show ?case using inv usage(3,4) by (simp add: repo_inv_def operations_inv_def attempts_inv_def holds_inv_def)
next
  case (evaluation r e)
  note inv = repo_invD [OF evaluation(1)]
  have "jobs_inv (r\<lparr>pricingEvaluations := go_set (pe_ID e) e (pricingEvaluations r)\<rparr>)" using inv(4) by (rule jobs_inv_mono) auto
  then show ?case using inv evaluation(2,3) by (simp add: repo_inv_def operations_inv_def attempts_inv_def holds_inv_def ledger_inv_def)
qed

lemma repo_write_inv: "repo_write r r' \<Longrightarrow> repo_inv r \<Longrightarrow> repo_inv r'"
  using repo_write_rest repo_write_artifacts_inv repo_write_records by blast

end
