(* ===== verification/Repository_Calls.thy ===== *)
theory Repository_Calls
  imports Repository_Steps
begin

text \<open>
  The calls of the in-memory repository (\<^verbatim>\<open>operation_repository.go\<close>, \<^verbatim>\<open>billing_hold_repository.go\<close>,
  \<^verbatim>\<open>ai_job_repository.go\<close>, \<^verbatim>\<open>artifact_repository.go\<close>, and the writers of usage records, evaluations
  and audit logs in \<^verbatim>\<open>repository.go\<close>, \<^verbatim>\<open>pricing_repository.go\<close>, \<^verbatim>\<open>effective_pricing_repository.go\<close>
  and \<^verbatim>\<open>retention_service.go\<close>) as one transition relation, and what holds after every sequence of them.
\<close>

section \<open>Calls\<close>

text \<open>
  Each call runs under the mutex of the repository, so any interleaving of clients is a sequence of
  calls. A durable job is created with the event the service makes for it
  (\<^verbatim>\<open>BeginDurableAIJob\<close> in \<^verbatim>\<open>ai_job_service.go\<close>). \<^verbatim>\<open>SaveUsageRecord\<close> is called for records without an
  operation only (\<^verbatim>\<open>service.go\<close>, line 1491), and a reconciled record was read from the repository before, so
  that the operation it names, if any, is stored. The audit entries of an API key rotation and of a
  pricing commit change these tables as \<^verbatim>\<open>AddAuditLog\<close> does.
\<close>

inductive repo_call :: "(string \<Rightarrow> string) \<Rightarrow> MemoryRepository \<Rightarrow> MemoryRepository \<Rightarrow> bool" for hash where
  create_operation: "repo_call hash r (fst (CreateAIOperation operation r))"
| create_with_hold: "int64_ok (hold_ReservedAmountMicros (adm_Hold admission)) \<Longrightarrow>
    repo_call hash r (fst (CreateAIOperationWithBillingHold operation admission r))"
| mark_running: "repo_call hash r (fst (MarkAIOperationRunning k updatedAt r))"
| complete_operation: "repo_call hash r (fst (CompleteAIOperation k status errorType completedAt r))"
| create_or_get_attempt: "repo_call hash r (fst (CreateOrGetAIAttempt attempt r))"
| update_dispatch: "repo_call hash r (fst (UpdateAIAttemptDispatch requested expectedVersion r))"
| schedule_reconciliation: "repo_call hash r (fst (ScheduleAIAttemptReconciliation k expectedVersion scheduledAt log r))"
| schedule_delivery_retry: "repo_call hash r (fst (ScheduleArtifactDeliveryRetry artifactID requested expectedVersion log r))"
| complete_attempt: "repo_call hash r (fst (CompleteAIAttempt k status errorType completedAt r))"
| transition_hold: "repo_call hash r (fst (TransitionBillingHold operationID expectedVersion status amount reason at r))"
| apply_settlement: "settlement_wf s \<Longrightarrow> repo_call hash r (fst (ApplyUsageSettlement s r))"
| create_job: "newAIJobTransitionRecords hash j AIJobStatusAccepted [] now = Inr (event, out) \<Longrightarrow> 0 \<le> job_FenceToken j \<Longrightarrow>
    int64_ok (hold_ReservedAmountMicros (adm_Hold billing)) \<Longrightarrow>
    repo_call hash r (fst (CreateDurableAIJob operation j event out limits billing r))"
| cancel_owned: "repo_call hash r (fst (RequestAIJobCancellation hash k owner requestedAt r))"
| cancel_admin: "repo_call hash r (fst (RequestAIJobAdminCancellation hash k requestedAt log r))"
| claim_queued: "repo_call hash r (fst (ClaimQueuedAIJobs hash now leaseUntil workerID leaseToken limit r))"
| claim_ready: "repo_call hash r (fst (ClaimAIJobsByReadyReferences hash references now leaseUntil workerID leaseToken limit r))"
| extend_lease: "repo_call hash r (fst (ExtendAIJobQueueLease k expectedVersion fenceToken leaseToken leaseUntil extendedAt r))"
| transition_job: "repo_call hash r (fst (TransitionAIJob hash k expectedVersion fenceToken status reason at r))"
| requeue_job: "repo_call hash r (fst (RequeueAIJob hash k expectedVersion fenceToken reason nextEligibleAt at r))"
| create_artifact: "repo_call hash r (fst (CreateArtifact a artifactEvent out r))"
| transition_artifact: "repo_call hash r (fst (TransitionArtifact eventID outboxID input at r))"
| outbox_claim_due: "repo_call hash r (r\<lparr>transactionalOutboxEvents :=
    fst (ClaimDueTransactionalOutboxEvents now leaseUntil leaseToken limit (transactionalOutboxEvents r))\<rparr>)"
| outbox_publish: "repo_call hash r (r\<lparr>transactionalOutboxEvents :=
    fst (CompleteTransactionalOutboxEvent k leaseToken at (transactionalOutboxEvents r))\<rparr>)"
| outbox_retry: "repo_call hash r (r\<lparr>transactionalOutboxEvents :=
    fst (RescheduleTransactionalOutboxEvent k leaseToken next err dead at (transactionalOutboxEvents r))\<rparr>)"
| outbox_again: "repo_call hash r (r\<lparr>transactionalOutboxEvents :=
    fst (RequeueTransactionalOutboxEvent k at (transactionalOutboxEvents r))\<rparr>)"
| save_usage: "ur_OperationID record = [] \<Longrightarrow> repo_call hash r (fst (SaveUsageRecord record r))"
| reconcile_usage: "usage_refers (aiOperations r) record \<Longrightarrow> SaveProviderBillingLineAndReconcileUsage record r = Some r' \<Longrightarrow>
    repo_call hash r r'"
| save_evaluation: "SavePricingEvaluation evaluation r = Some r' \<Longrightarrow> repo_call hash r r'"
| add_audit: "repo_call hash r (AddAuditLog_repository event r)"
| cleanup: "repo_call hash r (fst (CleanupRetainedData before r))"

section \<open>Calls are sequences of writes\<close>

abbreviation writes :: "MemoryRepository \<Rightarrow> MemoryRepository \<Rightarrow> bool" where
  "writes \<equiv> repo_write\<^sup>*\<^sup>*"

lemma one_write: "repo_write r r' \<Longrightarrow> writes r r'"
  by (rule r_into_rtranclp)

lemma operation_writes:
  assumes "repo_inv r"
  shows "writes r (fst (CreateAIOperation operation r))" "writes r (fst (MarkAIOperationRunning k t r))"
    "writes r (fst (CompleteAIOperation k status e t r))"
proof -
  have set: "writes r (r\<lparr>aiOperations := go_set k x (aiOperations r)\<rparr>)" if "op_ID x = k" for x k
    using repo_write.operation [of r x] that by (auto intro: one_write)
  have "op_ID x = k" if "go_get (aiOperations r) k = Some x" for x
    using table_get [of op_ID _ "aiOperations r" k x] repo_invD(1) [OF assms] that by (simp add: operations_inv_def)
  then show "writes r (fst (CreateAIOperation operation r))" "writes r (fst (MarkAIOperationRunning k t r))"
    "writes r (fst (CompleteAIOperation k status e t r))"
    by (auto simp: CreateAIOperation_def MarkAIOperationRunning_def CompleteAIOperation_def Let_def intro!: set split: option.splits)
qed

lemma attempt_writes:
  assumes "repo_inv r"
  shows "writes r (fst (CreateOrGetAIAttempt a r))" "writes r (fst (UpdateAIAttemptDispatch requested v r))"
    "writes r (fst (ScheduleAIAttemptReconciliation k v t log r))" "writes r (fst (ScheduleArtifactDeliveryRetry art requested v log r))"
    "writes r (fst (CompleteAIAttempt k status e t r))"
proof -
  have stored: "at_ID x = i" "go_get (aiOperations r) (at_OperationID x) \<noteq> None" if "go_get (aiAttempts r) i = Some x" for x i
    using table_get [of at_ID _ "aiAttempts r" i x] repo_invD(5) [OF assms] that by (auto simp: attempts_inv_def)
  have set: "writes r (r\<lparr>aiAttempts := go_set i y (aiAttempts r)\<rparr>)" "writes r (r\<lparr>aiAttempts := go_set i y (aiAttempts r), auditLogs := go_set (au_ID l) l (auditLogs r)\<rparr>)"
    if "go_get (aiAttempts r) i = Some x" "at_ID y = at_ID x" "at_OperationID y = at_OperationID x" "at_DispatchVersion x \<le> at_DispatchVersion y"
    for i x y l
  proof -
    have w: "repo_write r (r\<lparr>aiAttempts := go_set i y (aiAttempts r)\<rparr>)"
      using repo_write.attempt [of r y] stored [OF that(1)] that by simp
    then show "writes r (r\<lparr>aiAttempts := go_set i y (aiAttempts r)\<rparr>)" by (rule one_write)
    show "writes r (r\<lparr>aiAttempts := go_set i y (aiAttempts r), auditLogs := go_set (au_ID l) l (auditLogs r)\<rparr>)"
      using w repo_write.audit [of "r\<lparr>aiAttempts := go_set i y (aiAttempts r)\<rparr>" "go_set (au_ID l) l (auditLogs r)"] by (auto simp: keyed_go_set)
  qed
  show "writes r (fst (CreateOrGetAIAttempt a r))"
    using repo_write.attempt [of r "normalizeAIAttempt a"]
    by (auto simp: CreateOrGetAIAttempt_def Let_def intro!: one_write split: option.splits)
  show "writes r (fst (UpdateAIAttemptDispatch requested v r))"
    by (auto simp: UpdateAIAttemptDispatch_def Let_def applyAIAttemptDispatchUpdate_def stored intro!: set split: option.splits)
  show "writes r (fst (ScheduleAIAttemptReconciliation k v t log r))"
    by (auto simp: ScheduleAIAttemptReconciliation_def Let_def applyAIAttemptDispatchUpdate_def stored intro!: set split: option.splits)
  show "writes r (fst (ScheduleArtifactDeliveryRetry art requested v log r))"
    by (auto simp: ScheduleArtifactDeliveryRetry_def Let_def applyAIAttemptDispatchUpdate_def stored intro!: set split: option.splits)
  show "writes r (fst (CompleteAIAttempt k status e t r))"
    by (auto simp: CompleteAIAttempt_def intro!: set split: option.splits)
qed

lemma hold_writes:
  assumes "repo_inv r"
  shows "writes r (fst (TransitionBillingHold operationID v s a reason at r))"
    and "int64_ok (hold_ReservedAmountMicros (adm_Hold admission)) \<Longrightarrow>
      writes r (fst (CreateAIOperationWithBillingHold operation admission r))"
proof -
  obtain r' x where t: "TransitionBillingHold operationID v s a reason at r = (r', x)" by fastforce
  then have "hold_step r r'"
    by (rule TransitionBillingHold_cases) (auto intro: hold_stepI repo_invD(2) [OF assms])
  then show "writes r (fst (TransitionBillingHold operationID v s a reason at r))" by (simp add: t one_write repo_write.hold)
next
  assume int: "int64_ok (hold_ReservedAmountMicros (adm_Hold admission))"
  obtain r' x where c: "CreateAIOperationWithBillingHold operation admission r = (r', x)" by fastforce
  then have "writes r r'"
    by (rule CreateAIOperationWithBillingHold_cases) (auto intro!: one_write repo_write.admit int)
  then show "writes r (fst (CreateAIOperationWithBillingHold operation admission r))" by (simp add: c)
qed

lemma apply_transition_cases:
  assumes "apply_transition k j at prepared r = (r', x)"
  obtains (refused) "r' = r" "\<And>u. x \<noteq> Inr (u, True)"
    | (stored) updated event out operation where "prepared = Inr (updated, event, out)" "check_job_event event out r = None"
        "go_get (aiOperations r) (job_OperationID j) = Some operation"
        "r' = store_job_change operation k (updated, event, out) at r" "x = Inr (Some updated, True)"
  using assms by (auto simp: apply_transition_def split: sum.splits option.splits)

lemma apply_transition_writes:
  assumes "go_get (aiJobs r) k = Some j" "\<And>change. prepared = Inr change \<Longrightarrow> change_ok j change"
  shows "writes r (fst (apply_transition k j at prepared r))"
proof -
  obtain r' x where t: "apply_transition k j at prepared r = (r', x)" by fastforce
  then have "writes r r'"
    by (rule apply_transition_cases) (auto intro!: one_write repo_write.job assms)
  then show ?thesis by (simp add: t)
qed

lemma prepare_transition_change: "prepareAIJobTransition hash j s reason at = Inr change \<Longrightarrow> change_ok j change"
  by (cases change) (simp add: prepare_transition_ok)

lemma transition_writes:
  "writes r (fst (TransitionAIJob hash k v f s reason at r))" "writes r (fst (RequeueAIJob hash k v f reason nextAt at r))"
proof -
  have "change_ok j change"
    if prep: "map_sum id (requeued_job nextAt at) (prepareAIJobTransition hash j AIJobStatusQueued reason at) = Inr change" for j change
  proof -
    obtain c where "prepareAIJobTransition hash j AIJobStatusQueued reason at = Inr c" "change = requeued_job nextAt at c"
      using prep by (cases "prepareAIJobTransition hash j AIJobStatusQueued reason at") simp_all
    then show ?thesis using requeued_job_ok [OF prepare_transition_change] by blast
  qed
  then show "writes r (fst (RequeueAIJob hash k v f reason nextAt at r))"
    by (auto simp: RequeueAIJob_def split: option.splits intro!: apply_transition_writes)
  show "writes r (fst (TransitionAIJob hash k v f s reason at r))"
    by (auto simp: TransitionAIJob_def split: option.splits intro!: apply_transition_writes prepare_transition_change)
qed

lemma extend_lease_writes: "writes r (fst (ExtendAIJobQueueLease k v f tok u t r))"
  by (auto simp: ExtendAIJobQueueLease_def Let_def same_job_def job_scope_def split: option.splits intro!: one_write repo_write.lease)

text \<open>Cancelling: the hold is released, the job changed, the audit log written.\<close>

lemma check_job_event_cong:
  "aiJobEvents r' = aiJobEvents r \<Longrightarrow> transactionalOutboxEvents r' = transactionalOutboxEvents r \<Longrightarrow>
   check_job_event event out r' = check_job_event event out r"
  by (simp add: check_job_event_def)

lemma cancel_job_cases:
  assumes "holds_inv r" "cancel_job hash k j reason at log r = (r', x)"
  obtains (refused) "r' = r" "\<And>u. x \<noteq> Inr (u, True)"
    | (canceled) updated0 updated event out operation r1 where
        "prepareAIJobTransition hash j (cancel_target j) reason at = Inr (updated0, event, out)"
        "updated = (if job_Status j = AIJobStatusDispatching then updated0\<lparr>job_FenceToken := job_FenceToken updated0 + 1\<rparr> else updated0)"
        "check_job_event event out r = None" "go_get (aiOperations r) (job_OperationID j) = Some operation" "hold_step r r1"
        "cancel_target j = AIJobStatusCanceled \<Longrightarrow>
           releaseMemoryBillingHoldForOperation (job_OperationID j) ''job_canceled_before_dispatch'' at r = (r1, None)"
        "cancel_target j \<noteq> AIJobStatusCanceled \<Longrightarrow> r1 = r"
        "r' = store_job_change operation k (updated, event, out) at r1 \<or>
         (\<exists>a. r' = AddAuditLog_repository a (store_job_change operation k (updated, event, out) at r1))"
        "x = Inr (updated, True)"
proof -
  obtain r1 e where rel: "(if cancel_target j = AIJobStatusCanceled
      then releaseMemoryBillingHoldForOperation (job_OperationID j) ''job_canceled_before_dispatch'' at r else (r, None)) = (r1, e)"
    by fastforce
  have step: "hold_step r r1 \<and> (e \<noteq> None \<longrightarrow> r1 = r)"
  proof (cases "cancel_target j = AIJobStatusCanceled")
    case True
    then have "releaseMemoryBillingHoldForOperation (job_OperationID j) ''job_canceled_before_dispatch'' at r = (r1, e)"
      using rel by simp
    then show ?thesis by (rule release_cases) (auto intro: hold_stepI [OF assms(1)])
  qed (use rel in simp)
  show ?thesis
  proof (cases "prepareAIJobTransition hash j (cancel_target j) reason at")
    case (Inl err)
    then show ?thesis using assms(2) by (intro refused) (auto simp: cancel_job_def split: if_splits)
  next
    case (Inr change)
    obtain u0 event out where ch: "change = (u0, event, out)" by (cases change)
    define u where "u = (if job_Status j = AIJobStatusDispatching then u0\<lparr>job_FenceToken := job_FenceToken u0 + 1\<rparr> else u0)"
    let ?stop = "oneOf (job_Status j) [AIJobStatusCanceling, AIJobStatusCanceled] \<or>
      oneOf (job_Status j) [AIJobStatusSucceeded, AIJobStatusFailed, AIJobStatusUnknown, AIJobStatusExpired]"
    let ?audited = "case log of None \<Rightarrow> False | Some a \<Rightarrow> go_get (auditLogs r) (au_ID a) \<noteq> None"
    show ?thesis
    proof (cases "?stop \<or> check_job_event event out r \<noteq> None \<or> ?audited \<or> go_get (aiOperations r) (job_OperationID j) = None \<or> e \<noteq> None")
      case True
      have "r' = r \<and> (\<forall>u. x \<noteq> Inr (u, True))"
      proof (cases ?stop)
        case False
        then show ?thesis
          using True assms(2) step by (auto simp: cancel_job_def Inr ch rel Let_def split: option.splits if_splits)
      qed (use assms(2) in \<open>auto simp: cancel_job_def split: if_splits\<close>)
      then show ?thesis by (intro refused) auto
    next
      case False
      then obtain operation where op: "go_get (aiOperations r) (job_OperationID j) = Some operation" by auto
      have res: "(r', x) = (case log of None \<Rightarrow> store_job_change operation k (u, event, out) at r1
          | Some a \<Rightarrow> (store_job_change operation k (u, event, out) at r1)\<lparr>auditLogs := go_set (au_ID a) a (auditLogs (store_job_change operation k (u, event, out) at r1))\<rparr>,
          Inr (u, True))"
        using False op assms(2) by (cases log) (simp_all add: cancel_job_def Inr ch rel u_def Let_def)
      show ?thesis
        using False res step rel by (intro canceled [OF Inr [unfolded ch] u_def _ op]) (auto simp: AddAuditLog_repository_def split: option.splits if_splits)
    qed
  qed
qed

lemma audit_writes: "writes r r' \<Longrightarrow> writes r (AddAuditLog_repository a r')"
  unfolding AddAuditLog_repository_def by (erule rtranclp.rtrancl_into_rtrancl) (rule repo_write.audit, rule keyed_go_set, simp_all)

lemma cancel_writes:
  assumes "holds_inv r" "go_get (aiJobs r) k = Some j"
  shows "writes r (fst (cancel_job hash k j reason at log r))"
proof -
  obtain r' x where c: "cancel_job hash k j reason at log r = (r', x)" by fastforce
  from assms(1) c have "writes r r'"
  proof (cases rule: cancel_job_cases)
    case (canceled u0 u event out operation r1)
    note frame = hold_step_frame [OF canceled(5)]
    have "change_ok j (u, event, out)"
      using canceled_job_ok [OF prepare_transition_ok [OF canceled(1)]] prepare_transition_ok [OF canceled(1)] canceled(2) by simp
    moreover have "check_job_event event out r1 = None" using canceled(3) check_job_event_cong [OF frame(8,6)] by simp
    ultimately have "repo_write r1 (store_job_change operation k (u, event, out) at r1)"
      using assms(2) frame(7) by (intro repo_write.job) simp_all
    then have "writes r (store_job_change operation k (u, event, out) at r1)"
      using one_write [OF repo_write.hold [OF canceled(5)]] by simp
    then show ?thesis using canceled(8) by (auto intro: audit_writes)
  qed simp
  then show ?thesis by (simp add: c)
qed

lemma cancellation_writes:
  assumes "repo_inv r"
  shows "writes r (fst (RequestAIJobCancellation hash k owner at r))" "writes r (fst (RequestAIJobAdminCancellation hash k at log r))"
proof -
  note inv = repo_invD [OF assms]
  show "writes r (fst (RequestAIJobCancellation hash k owner at r))"
    by (auto simp: RequestAIJobCancellation_def intro!: cancel_writes [OF inv(2)] split: option.splits)
  show "writes r (fst (RequestAIJobAdminCancellation hash k at log r))"
    using job_get [OF inv(4)]
    by (auto simp: RequestAIJobAdminCancellation_def intro!: cancel_writes [OF inv(2)] split: option.splits)
qed

section \<open>Claims\<close>

lemma rank_mset: "mset (rankAIJobFairCandidates candidates jobs activities now limit) \<subseteq># mset candidates"
proof (cases "limit \<le> 0 \<or> candidates = []")
  case False
  let ?rem = "map (\<lambda>job. newAIJobFairCandidate job now) candidates"
  obtain as ps where "rankAIJobFairCandidates candidates jobs activities now limit = rank_loop limit ?rem as ps []"
    using False by (auto simp: rankAIJobFairCandidates_def)
  moreover have "map fc_Job ?rem = candidates" by (simp add: newAIJobFairCandidate_def comp_def)
  ultimately show ?thesis using rank_loop_extends [of limit ?rem as ps "[]"] by auto
qed (auto simp: rankAIJobFairCandidates_def)

text \<open>The candidates a claim works on: different jobs, as they are stored.\<close>

definition stored_jobs :: "MemoryRepository \<Rightarrow> AIJob list \<Rightarrow> bool" where
  "stored_jobs r js \<longleftrightarrow> distinct (map job_ID js) \<and> (\<forall>j \<in> set js. go_get (aiJobs r) (job_ID j) = Some j)"

lemma ranked_stored:
  assumes "jobs_inv r" "candidates = filter P (go_values (aiJobs r))"
  shows "stored_jobs r (rankAIJobFairCandidates candidates jobs activities now limit)"
    and "\<And>j. j \<in> set (rankAIJobFairCandidates candidates jobs activities now limit) \<Longrightarrow> P j"
proof -
  let ?js = "rankAIJobFairCandidates candidates jobs activities now limit"
  note sub = rank_mset [of candidates jobs activities now limit]
  have mem: "j \<in> set candidates" if "j \<in> set ?js" for j using set_mset_mono [OF sub] that by auto
  have "distinct (map job_ID candidates)"
    using keyed_distinct_values [OF table_keyed [OF jobs_table [OF assms(1)]]] assms(2) by (simp add: distinct_map_filter del: map_map)
  then have "distinct (map job_ID ?js)" by (rule distinct_submset [OF sub])
  moreover have "go_get (aiJobs r) (job_ID j) = Some j" if "j \<in> set ?js" for j
    using mem [OF that] assms(2) table_values [OF jobs_table [OF assms(1)], of j] by simp
  ultimately show "stored_jobs r ?js" unfolding stored_jobs_def by blast
  show "P j" if "j \<in> set ?js" for j using mem [OF that] assms(2) by simp
qed

lemma claim_candidate_cases:
  assumes "claimAIJobCandidatesLocked hash (c # cs) now u worker tok limit claimed r = (r', x)"
  obtains (stop) "r' = r" "x = Inr claimed \<and> limit \<le> int (length claimed) \<or> (\<exists>e. x = Inl e)"
    | (claimed) updated event out operation where "int (length claimed) < limit" "prepareAIJobClaim hash c now = Inr (updated, event, out)"
        "check_job_event event out r = None"
        "claimAIJobCandidatesLocked hash cs now u worker tok limit (claimed @ [claimed_job u worker tok updated])
           (store_job_change operation (job_ID updated) (claimed_job u worker tok updated, event, out) now r) = (r', x)"
        "go_get (aiOperations r) (job_OperationID c) \<noteq> None \<Longrightarrow> go_get (aiOperations r) (job_OperationID c) = Some operation"
proof (cases "int (length claimed) \<ge> limit")
  case True
  then show ?thesis using assms by (intro stop) simp_all
next
  case False
  show ?thesis
  proof (cases "prepareAIJobClaim hash c now")
    case (Inl e)
    then show ?thesis using assms False by (intro stop) auto
  next
    case (Inr change)
    obtain updated event out where ch: "change = (updated, event, out)" by (cases change)
    show ?thesis
    proof (cases "check_job_event event out r")
      case None
      show ?thesis
        by (rule claimed [OF _ Inr [unfolded ch] None, of "case go_get (aiOperations r) (job_OperationID c) of None \<Rightarrow> zero_operation | Some x \<Rightarrow> x"])
          (use assms False Inr ch None in \<open>auto simp: claimed_job_def Let_def\<close>)
    next
      case (Some e)
      then show ?thesis using assms False Inr ch by (intro stop) (auto simp: Let_def)
    qed
  qed
qed

lemma stored_jobs_Cons:
  assumes "stored_jobs r (c # cs)" "aiJobs r' = go_set (job_ID c) x (aiJobs r)"
  shows "stored_jobs r' cs"
proof -
  have "job_ID j \<noteq> job_ID c" if "j \<in> set cs" for j
    using assms(1) that by (auto simp: stored_jobs_def image_iff)
  then show ?thesis using assms by (simp add: stored_jobs_def)
qed

lemma claim_writes: "stored_jobs r cs \<Longrightarrow> writes r (fst (claimAIJobCandidatesLocked hash cs now u worker tok limit claimed r))"
proof (induction cs arbitrary: claimed r)
  case (Cons c cs)
  obtain r' x where eq: "claimAIJobCandidatesLocked hash (c # cs) now u worker tok limit claimed r = (r', x)" by fastforce
  then have "writes r r'"
  proof (cases rule: claim_candidate_cases)
    case (claimed updated event out operation)
    let ?r = "store_job_change operation (job_ID updated) (claimed_job u worker tok updated, event, out) now r"
    have change: "change_ok c (claimed_job u worker tok updated, event, out)" by (rule claimed_job_ok [OF prepare_claim_ok(1) [OF claimed(2)]])
    then have key: "job_ID updated = job_ID c" by (simp add: change_ok_def claimed_job_def)
    have "repo_write r ?r" using Cons.prems change claimed(3) key by (intro repo_write.job [of _ _ c]) (auto simp: stored_jobs_def)
    moreover have "stored_jobs ?r cs" by (rule stored_jobs_Cons [OF Cons.prems]) (simp add: key)
    then have "writes ?r r'" using Cons.IH [of ?r "claimed @ [claimed_job u worker tok updated]"] claimed(4) by simp
    ultimately show ?thesis by simp
  qed simp
  then show ?case by (simp only: eq fst_conv)
qed simp

lemma claims_writes:
  assumes "repo_inv r"
  shows "writes r (fst (ClaimQueuedAIJobs hash now u worker tok limit r))"
    and "writes r (fst (ClaimAIJobsByReadyReferences hash references now u worker tok limit r))"
  using ranked_stored(1) [OF repo_invD(4) [OF assms] refl]
  by (auto simp: ClaimQueuedAIJobs_def ClaimAIJobsByReadyReferences_def intro!: claim_writes)

section \<open>New jobs\<close>

lemma same_scope: "sameAIJobIdempotencyScope a b \<longleftrightarrow> job_IdempotencyKey a \<noteq> [] \<and> job_scope a = job_scope b"
  by (auto simp: sameAIJobIdempotencyScope_def job_scope_def)

lemma CreateDurableAIJob_cases:
  assumes "CreateDurableAIJob operation0 j event out limits billing r = (r', x)"
  obtains (refused) "r' = r" "\<And>u. x \<noteq> Inr (u, True)"
    | (created) operation where "operation = normalizeAIOperation operation0"
        "validateDurableAIJobAdmission operation j event out = None" "validateBillingHoldAdmission operation billing = None"
        "List.find (\<lambda>current. sameAIJobIdempotencyScope current j) (go_values (aiJobs r)) = None"
        "check_job_insert operation j event out limits billing r = None"
        "r' = (insert_hold operation billing r)\<lparr>aiJobs := go_set (job_ID j) j (aiJobs r),
           aiJobEvents := go_set (ev_ID event) event (aiJobEvents r),
           transactionalOutboxEvents := go_set (ob_ID out) out (transactionalOutboxEvents r)\<rparr>"
        "x = Inr (j, True)"
  using assms by (auto simp: CreateDurableAIJob_def Let_def split: option.splits if_splits)

lemma admission_fields:
  assumes "validateDurableAIJobAdmission operation j event out = None"
  shows "job_ID j \<noteq> []" "job_IdempotencyKey j \<noteq> []" "job_Status j = AIJobStatusQueued" "job_StatusVersion j = 1"
    "job_OperationID j = op_ID operation" "op_ID operation \<noteq> []"
  using assms by (auto simp: validateDurableAIJobAdmission_def split: if_splits)

lemma check_job_insert_None:
  assumes "check_job_insert operation j event out limits billing r = None"
  shows "go_get (aiOperations r) (op_ID operation) = None" "go_get (aiJobs r) (job_ID j) = None" "check_job_event event out r = None"
    "check_hold_insert r operation billing = None"
    "enforceAIJobAdmissionLimits limits (aiJobAdmissionCountsForJobs (aiJobs r) j) = None"
  using assms by (auto simp: check_job_insert_def split: option.splits if_splits)

lemma create_job_writes:
  assumes "repo_inv r" "newAIJobTransitionRecords hash j AIJobStatusAccepted [] now = Inr (event, out)" "0 \<le> job_FenceToken j"
    and "int64_ok (hold_ReservedAmountMicros (adm_Hold billing))"
  shows "writes r (fst (CreateDurableAIJob operation0 j event out limits billing r))"
proof -
  note inv = repo_invD [OF assms(1)]
  obtain r' x where eq: "CreateDurableAIJob operation0 j event out limits billing r = (r', x)" by fastforce
  then have "writes r r'"
  proof (cases rule: CreateDurableAIJob_cases)
    case (created operation)
    let ?r = "insert_hold operation billing r"
    note fields = admission_fields [OF created(2)] and check = check_job_insert_None [OF created(5)]
    note rec = event_records [OF assms(2) [unfolded newAIJobTransitionRecords_def]]
    have other: "job_OperationID y \<noteq> job_OperationID j" "job_scope y \<noteq> job_scope j" if y: "go_get (aiJobs r) i = Some y" for i y
    proof -
      have ok: "job_ok r y" using job_get [OF inv(4) y] by simp
      then show "job_OperationID y \<noteq> job_OperationID j" using check(1) fields(5) by (auto simp: job_ok_def)
      show "job_scope y \<noteq> job_scope j"
        using table_find_None [OF jobs_table [OF inv(4)] created(4) y] ok by (auto simp: same_scope job_ok_def)
    qed
    have "check_job_event event out ?r = None" using check(3) check_job_event_cong [of ?r r] by simp
    then have "new_job_ok ?r j event out"
      using fields check(2) rec assms(3) other by (auto simp: new_job_ok_def)
    from repo_write.new_job [OF this] have "repo_write ?r r'" by (simp add: created(6))
    moreover have "repo_write r ?r" by (rule repo_write.admit [OF check(1) created(3) check(4) assms(4)])
    ultimately show ?thesis by simp
  qed simp
  then show ?thesis by (simp add: eq)
qed

section \<open>Artifacts\<close>

lemma store_artifact_writes:
  assumes "artifact_step r (table_change a event r)" "validateMemoryOutboxInsert (transactionalOutboxEvents r) outbox = None"
  shows "writes r (store_artifact (a, event, outbox) r)"
proof -
  let ?r = "table_change a event r"
  have "transactionalOutboxEvents ?r = transactionalOutboxEvents r" by (simp add: table_change_def)
  then have "repo_write ?r (store_artifact (a, event, outbox) r)"
    using repo_write.outbox [of ?r "go_set (ob_ID outbox) outbox (transactionalOutboxEvents r)"] outbox_step.outbox_insert [OF assms(2)]
    by (simp add: store_artifact_eq)
  then show ?thesis using one_write [OF repo_write.artifact [OF assms(1)]] by simp
qed

lemma artifact_writes:
  assumes "repo_inv r"
  shows "writes r (fst (CreateArtifact a event out r))" "writes r (fst (TransitionArtifact eventID outboxID input at r))"
proof -
  obtain r' x where c: "CreateArtifact a event out r = (r', x)" by fastforce
  then have "writes r r'" by (rule CreateArtifact_cases) (auto intro: store_artifact_writes)
  then show "writes r (fst (CreateArtifact a event out r))" by (simp add: c)
  obtain r' x where t: "TransitionArtifact eventID outboxID input at r = (r', x)" by fastforce
  then have "writes r r'" by (rule TransitionArtifact_cases [OF repo_invD(7) [OF assms]]) (auto intro: store_artifact_writes)
  then show "writes r (fst (TransitionArtifact eventID outboxID input at r))" by (simp add: t)
qed

lemma record_writes:
  shows "ur_OperationID record = [] \<Longrightarrow> writes r (fst (SaveUsageRecord record r))"
    and "usage_refers (aiOperations r) record \<Longrightarrow> SaveProviderBillingLineAndReconcileUsage record r = Some r' \<Longrightarrow> writes r r'"
    and "SavePricingEvaluation evaluation r = Some r' \<Longrightarrow> writes r r'"
    and "writes r (AddAuditLog_repository event r)"
    and "writes r (fst (CleanupRetainedData before r))"
proof -
  have set: "writes r (r\<lparr>usageRecords := go_set (ur_ID u) u (usageRecords r)\<rparr>)" if "usage_refers (aiOperations r) u" for u
    using that by (intro one_write repo_write.usage table_set) simp_all
  show "writes r (fst (SaveUsageRecord record r))" if "ur_OperationID record = []"
    using set [of "record\<lparr>ur_UsageDimensions := d\<rparr>" for d] that by (auto simp: SaveUsageRecord_def usage_refers_def split: option.split)
  show "writes r r'" if "usage_refers (aiOperations r) record" "SaveProviderBillingLineAndReconcileUsage record r = Some r'"
    using set [OF that(1)] that(2) by (auto simp: SaveProviderBillingLineAndReconcileUsage_def split: option.splits)
  show "writes r r'" if "SavePricingEvaluation evaluation r = Some r'"
    using one_write [OF repo_write.evaluation [of r evaluation]] that by (auto simp: SavePricingEvaluation_def split: if_splits)
  show "writes r (AddAuditLog_repository event r)" by (rule audit_writes) simp
  let ?u = "r\<lparr>usageRecords := filter (\<lambda>(k, u). \<not> ur_CreatedAt u < before) (usageRecords r)\<rparr>"
  have "repo_write r ?u" by (rule repo_write.usage) (rule table_filter)
  moreover have "repo_write ?u (fst (CleanupRetainedData before r))"
    using repo_write.audit [of ?u "filter (\<lambda>(k, e). \<not> au_CreatedAt e < before) (auditLogs r)"]
    by (simp add: CleanupRetainedData_def Let_def keyed_filter)
  ultimately show "writes r (fst (CleanupRetainedData before r))" by (meson one_write rtranclp.rtrancl_into_rtrancl)
qed

section \<open>Runs\<close>

lemma repo_call_writes: "repo_call hash r r' \<Longrightarrow> repo_inv r \<Longrightarrow> writes r r'"
proof (induction rule: repo_call.induct)
  case (create_job j now event out billing r operation limits)
  then show ?case by (intro create_job_writes)
next
  case (reconcile_usage r "record" r')
  then show ?case by (intro record_writes(2))
next
  case (save_evaluation evaluation r r')
  then show ?case by (intro record_writes(3))
qed (auto intro!: record_writes(1,4,5) operation_writes attempt_writes hold_writes cancellation_writes claims_writes extend_lease_writes transition_writes artifact_writes
    one_write [OF repo_write.settle] one_write [OF repo_write.outbox] outbox_step.intros)

lemma writes_inv: "writes r r' \<Longrightarrow> repo_inv r \<Longrightarrow> repo_inv r' \<and> grows r r'"
  by (induction rule: rtranclp_induct) (auto intro: repo_write_inv grows_trans repo_write_grows)

lemma run_inv: "(repo_call hash)\<^sup>*\<^sup>* r r' \<Longrightarrow> repo_inv r \<Longrightarrow> repo_inv r' \<and> grows r r'"
proof (induction rule: rtranclp_induct)
  case (step y z)
  then show ?case using writes_inv [OF repo_call_writes [OF step(2)]] grows_trans by blast
qed simp

end
