(* ===== verification/Repository_Properties.thy ===== *)
theory Repository_Properties
  imports Repository_Calls Go_Calendar
begin

text \<open>
  What holds in every reachable state of the in-memory repository: the event log of each durable job
  is complete, histories are append-only, optimistic updates are never lost, claims hand out each job
  once, and cancelling a job that was not dispatched gives its reservation back.
\<close>

section \<open>The log of a job\<close>

lemma insort_by_cong:
  "(\<And>a b. a \<in> insert x (set xs) \<Longrightarrow> b \<in> insert x (set xs) \<Longrightarrow> lt a b = lt' a b) \<Longrightarrow> insort_by lt x xs = insort_by lt' x xs"
  by (induction xs) auto

lemma sort_by_cong:
  "(\<And>a b. a \<in> set xs \<Longrightarrow> b \<in> set xs \<Longrightarrow> lt a b = lt' a b) \<Longrightarrow> sort_by lt xs = sort_by lt' xs"
proof (induction xs)
  case (Cons x xs)
  have "sort_by lt xs = sort_by lt' xs" by (rule Cons.IH) (rule Cons.prems, auto)
  moreover have "insort_by lt x (sort_by lt' xs) = insort_by lt' x (sort_by lt' xs)" by (rule insort_by_cong) (rule Cons.prems, auto)
  ultimately show ?case by simp
qed simp

interpretation by_version: strict_weak_order "\<lambda>a b. ev_Version a < ev_Version b"
  by unfold_locales auto

lemma list_events_mem:
  assumes "jobs_inv r" "k \<noteq> []"
  shows "e \<in> set (ListAIJobEvents k r) \<longleftrightarrow> go_get (aiJobEvents r) (ev_ID e) = Some e \<and> ev_JobID e = k"
  using table_values [OF events_table [OF assms(1)], of e] assms(2) by (auto simp: ListAIJobEvents_def)

lemma event_unique:
  assumes "jobs_inv r" "go_get (aiJobEvents r) i = Some e" "go_get (aiJobEvents r) i' = Some e'" "event_key e = event_key e'"
  shows "e = e'"
  using unique_byD [OF events_unique [OF assms(1)] assms(2,3,4)] assms(2,3) by simp

lemma list_events_sorted:
  assumes "jobs_inv r" "k \<noteq> []"
  shows "sorted (map ev_Version (ListAIJobEvents k r))" "distinct (map ev_Version (ListAIJobEvents k r))"
proof -
  let ?L = "filter (\<lambda>event. k = [] \<or> ev_JobID event = k) (go_values (aiJobEvents r))"
  have eq: "ListAIJobEvents k r = sort_by (\<lambda>a b. ev_Version a < ev_Version b) ?L"
    unfolding ListAIJobEvents_def using assms(2) by (intro sort_by_cong) auto
  have "sorted_wrt (\<lambda>a b. ev_Version a \<le> ev_Version b) (ListAIJobEvents k r)"
    using by_version.sorted_sort_by [of ?L] unfolding eq by (simp add: not_less)
  then show "sorted (map ev_Version (ListAIJobEvents k r))" by (simp add: sorted_map)
  have "distinct (map ev_ID ?L)"
    using keyed_distinct_values [OF table_keyed [OF events_table [OF assms(1)]]] by (simp add: distinct_map_filter del: map_map)
  then have "distinct ?L" by (metis distinct_map)
  then have "distinct (ListAIJobEvents k r)" unfolding eq by simp
  moreover have "inj_on ev_Version (set (ListAIJobEvents k r))"
    using event_unique [OF assms(1)] by (auto simp: inj_on_def list_events_mem [OF assms] event_key_def)
  ultimately show "distinct (map ev_Version (ListAIJobEvents k r))" by (simp add: distinct_map)
qed

lemma version_exists:
  assumes "jobs_inv r" "go_get (aiJobs r) k = Some job"
  shows "int d < job_StatusVersion job \<Longrightarrow> \<exists>i e. go_get (aiJobEvents r) i = Some e \<and> event_key e = (k, job_StatusVersion job - int d)"
proof (induction d)
  case 0
  obtain i e where "go_get (aiJobEvents r) i = Some e" "event_key e = (k, job_StatusVersion job)" by (rule job_last_event [OF assms])
  then show ?case by auto
next
  case (Suc d)
  then obtain i e where e: "go_get (aiJobEvents r) i = Some e" "event_key e = (k, job_StatusVersion job - int d)" by auto
  then have "event_linked (aiJobEvents r) e" using table_get [OF events_table [OF assms(1)]] by (auto simp: event_ok_def)
  moreover have "ev_Version e \<noteq> 1" using e(2) Suc.prems by (auto simp: event_key_def)
  ultimately obtain i' p where "go_get (aiJobEvents r) i' = Some p" "event_key p = (ev_JobID e, ev_Version e - 1)"
    by (auto simp: event_linked_def)
  moreover have "ev_JobID e = k" "ev_Version e - 1 = job_StatusVersion job - int (Suc d)" using e(2) by (auto simp: event_key_def)
  ultimately show ?case by auto
qed

lemma log_versions:
  assumes "jobs_inv r" "go_get (aiJobs r) k = Some job"
  shows "map ev_Version (ListAIJobEvents k r) = [1..job_StatusVersion job]"
proof -
  have k: "k \<noteq> []" using job_get [OF assms] by (auto simp: job_ok_def)
  have "set (map ev_Version (ListAIJobEvents k r)) = set [1..job_StatusVersion job]"
  proof (rule set_eqI)
    fix v
    have "v \<in> set (map ev_Version (ListAIJobEvents k r)) \<longleftrightarrow> (\<exists>e. e \<in> set (ListAIJobEvents k r) \<and> ev_Version e = v)" by auto
    also have "\<dots> \<longleftrightarrow> (\<exists>e. go_get (aiJobEvents r) (ev_ID e) = Some e \<and> event_key e = (k, v))"
      by (auto simp: list_events_mem [OF assms(1) k] event_key_def)
    also have "\<dots> \<longleftrightarrow> (\<exists>i e. go_get (aiJobEvents r) i = Some e \<and> event_key e = (k, v))"
      using table_get [OF events_table [OF assms(1)]] by blast
    also have "\<dots> \<longleftrightarrow> 1 \<le> v \<and> v \<le> job_StatusVersion job"
    proof
      assume "\<exists>i e. go_get (aiJobEvents r) i = Some e \<and> event_key e = (k, v)"
      then show "1 \<le> v \<and> v \<le> job_StatusVersion job" using assms(2) by (auto simp: event_key_def elim!: event_job [OF assms(1)])
    next
      assume "1 \<le> v \<and> v \<le> job_StatusVersion job"
      then show "\<exists>i e. go_get (aiJobEvents r) i = Some e \<and> event_key e = (k, v)"
        using version_exists [OF assms, of "nat (job_StatusVersion job - v)"] by simp
    qed
    finally show "v \<in> set (map ev_Version (ListAIJobEvents k r)) \<longleftrightarrow> v \<in> set [1..job_StatusVersion job]" by simp
  qed
  then show ?thesis using list_events_sorted [OF assms(1) k] by (intro sorted_distinct_set_unique) simp_all
qed

lemma log_nth:
  assumes "jobs_inv r" "go_get (aiJobs r) k = Some job" "i < length (ListAIJobEvents k r)"
  shows "go_get (aiJobEvents r) (ev_ID (ListAIJobEvents k r ! i)) = Some (ListAIJobEvents k r ! i)"
    "event_key (ListAIJobEvents k r ! i) = (k, int i + 1)" "int i < job_StatusVersion job"
    "event_ok r (ListAIJobEvents k r ! i)"
proof -
  let ?es = "ListAIJobEvents k r"
  have k: "k \<noteq> []" using job_get [OF assms(1,2)] by (auto simp: job_ok_def)
  note vs = log_versions [OF assms(1,2)]
  have len: "length ?es = nat (job_StatusVersion job)" using arg_cong [OF vs, of length] by simp
  then show "int i < job_StatusVersion job" using assms(3) by simp
  have mem: "?es ! i \<in> set ?es" using assms(3) by simp
  then show get: "go_get (aiJobEvents r) (ev_ID (?es ! i)) = Some (?es ! i)" using list_events_mem [OF assms(1) k] by blast
  show "event_ok r (?es ! i)" using table_get [OF events_table [OF assms(1)] get] by simp
  have "ev_Version (?es ! i) = [1..job_StatusVersion job] ! i" using arg_cong [OF vs, of "\<lambda>l. l ! i"] assms(3) by simp
  then have "ev_Version (?es ! i) = int i + 1" using assms(3) len by simp
  then show "event_key (?es ! i) = (k, int i + 1)" using mem list_events_mem [OF assms(1) k] by (simp add: event_key_def)
qed

lemma log_last:
  assumes "jobs_inv r" "go_get (aiJobs r) k = Some job"
  shows "ListAIJobEvents k r \<noteq> []" "ev_ToStatus (last (ListAIJobEvents k r)) = job_Status job"
proof -
  let ?es = "ListAIJobEvents k r"
  have n: "1 \<le> job_StatusVersion job" using job_get [OF assms] by (simp add: job_ok_def)
  have len: "length ?es = nat (job_StatusVersion job)" using arg_cong [OF log_versions [OF assms], of length] by simp
  then show ne: "?es \<noteq> []" using n by auto
  let ?i = "length ?es - 1"
  have i: "?i < length ?es" using ne by simp
  obtain j e where e: "go_get (aiJobEvents r) j = Some e" "event_key e = (k, job_StatusVersion job)" "ev_ToStatus e = job_Status job"
    by (rule job_last_event [OF assms])
  have "event_key (?es ! ?i) = (k, job_StatusVersion job)" using log_nth(2) [OF assms i] len n by simp
  then have "?es ! ?i = e" using event_unique [OF assms(1) log_nth(1) [OF assms i] e(1)] e(2) by simp
  then show "ev_ToStatus (last ?es) = job_Status job" using e(3) ne by (simp add: last_conv_nth)
qed

lemma log_linked:
  assumes "jobs_inv r" "go_get (aiJobs r) k = Some job" "Suc i < length (ListAIJobEvents k r)"
  shows "ev_FromStatus (ListAIJobEvents k r ! Suc i) = ev_ToStatus (ListAIJobEvents k r ! i)"
    "log_step (ev_ToStatus (ListAIJobEvents k r ! i)) (ev_ToStatus (ListAIJobEvents k r ! Suc i))"
proof -
  let ?es = "ListAIJobEvents k r"
  have i: "i < length ?es" using assms(3) by simp
  note cur = log_nth [OF assms] and prev = log_nth [OF assms(1,2) i]
  have "event_linked (aiJobEvents r) (?es ! Suc i)" using cur(4) by (simp add: event_ok_def)
  then obtain j p where p: "go_get (aiJobEvents r) j = Some p" "event_key p = (k, int i + 1)" "ev_ToStatus p = ev_FromStatus (?es ! Suc i)"
      "log_step (ev_FromStatus (?es ! Suc i)) (ev_ToStatus (?es ! Suc i))"
    using cur(2) by (auto simp: event_linked_def event_key_def split: if_splits)
  have "p = ?es ! i" using event_unique [OF assms(1) p(1) prev(1)] p(2) prev(2) by simp
  then show "ev_FromStatus (?es ! Suc i) = ev_ToStatus (?es ! i)" "log_step (ev_ToStatus (?es ! i)) (ev_ToStatus (?es ! Suc i))"
    using p(3,4) by simp_all
qed

section \<open>Histories\<close>

text \<open>The specification of a job: the list of the statuses it went through, which only grows by allowed steps.\<close>

inductive history_step :: "string list \<Rightarrow> string list \<Rightarrow> bool" where
  start: "history_step [] [AIJobStatusQueued]"
| extend: "h \<noteq> [] \<Longrightarrow> log_step (last h) s \<Longrightarrow> history_step h (h @ [s])"

definition job_history :: "string \<Rightarrow> MemoryRepository \<Rightarrow> string list" where
  "job_history k r = map ev_ToStatus (ListAIJobEvents k r)"

lemma no_job_no_history:
  assumes "jobs_inv r" "k \<noteq> []" "go_get (aiJobs r) k = None"
  shows "job_history k r = []"
proof -
  have "e \<notin> set (ListAIJobEvents k r)" for e
    using assms(3) by (auto simp: list_events_mem [OF assms(1,2)] elim!: event_job [OF assms(1)])
  then have "ListAIJobEvents k r = []" by (cases "ListAIJobEvents k r") auto
  then show ?thesis by (simp add: job_history_def)
qed

lemma history_first:
  assumes "jobs_inv r" "go_get (aiJobs r) k = Some job"
  shows "hd (job_history k r) = AIJobStatusQueued"
proof -
  have ne: "ListAIJobEvents k r \<noteq> []" by (rule log_last(1) [OF assms])
  then have i: "0 < length (ListAIJobEvents k r)" by simp
  have "event_linked (aiJobEvents r) (ListAIJobEvents k r ! 0)" "ev_Version (ListAIJobEvents k r ! 0) = 1"
    using log_nth(2,4) [OF assms i] by (simp_all add: event_ok_def event_key_def)
  then show ?thesis using ne by (simp add: job_history_def event_linked_def hd_map hd_conv_nth)
qed

lemma history_tail:
  assumes "jobs_inv r" "go_get (aiJobs r) k = Some job"
  shows "0 < n \<Longrightarrow> n \<le> length (job_history k r) \<Longrightarrow> history_step\<^sup>*\<^sup>* (take n (job_history k r)) (job_history k r)"
proof (induction "length (job_history k r) - n" arbitrary: n)
  case (Suc d)
  let ?h = "job_history k r"
  have n: "n < length ?h" using Suc by simp
  then have "Suc (n - 1) < length (ListAIJobEvents k r)" using Suc.prems(1) by (simp add: job_history_def)
  note step = log_linked(2) [OF assms this]
  have "take (Suc n) ?h = take n ?h @ [?h ! n]" by (rule take_Suc_conv_app_nth [OF n])
  moreover have ne: "take n ?h \<noteq> []" using Suc.prems(1) n by auto
  moreover have "last (take n ?h) = ?h ! (n - 1)" using last_conv_nth [OF ne] Suc.prems(1) n by simp
  moreover have "log_step (?h ! (n - 1)) (?h ! n)" using step Suc.prems(1) n by (simp add: job_history_def)
  ultimately have "history_step (take n ?h) (take (Suc n) ?h)" using history_step.extend [of "take n ?h" "?h ! n"] by simp
  moreover have "history_step\<^sup>*\<^sup>* (take (Suc n) ?h) ?h" using Suc n by (intro Suc.hyps(1)) simp_all
  ultimately show ?case by (rule converse_rtranclp_into_rtranclp)
qed simp

text \<open>Stored events never change, so the old log is the beginning of the new one.\<close>

lemma history_prefix:
  assumes "jobs_inv r" "jobs_inv r'" "grows r r'" "go_get (aiJobs r) k = Some job"
  shows "job_history k r = take (length (job_history k r)) (job_history k r')"
proof -
  obtain job' where job': "go_get (aiJobs r') k = Some job'" "job_StatusVersion job \<le> job_StatusVersion job'"
    using assms(3,4) by (auto simp: grows_def job_le_def dest: grown_get)
  let ?es = "ListAIJobEvents k r" and ?es' = "ListAIJobEvents k r'"
  have len: "length ?es = nat (job_StatusVersion job)" "length ?es' = nat (job_StatusVersion job')"
    using arg_cong [OF log_versions [OF assms(1,4)], of length] arg_cong [OF log_versions [OF assms(2) job'(1)], of length] by simp_all
  have le: "length ?es \<le> length ?es'" using len job'(2) by simp
  have "?es ! i = ?es' ! i" if i: "i < length ?es" for i
  proof -
    have i': "i < length ?es'" using i le by simp
    note old = log_nth [OF assms(1,4) i] and new = log_nth [OF assms(2) job'(1) i']
    have "go_get (aiJobEvents r') (ev_ID (?es ! i)) = Some (?es ! i)" using assms(3) old(1) by (auto simp: grows_def dest: grown_get)
    then show ?thesis using event_unique [OF assms(2) _ new(1)] old(2) new(2) by simp
  qed
  then have "?es = take (length ?es) ?es'" using le by (intro nth_equalityI) simp_all
  then show ?thesis by (metis job_history_def length_map take_map)
qed

lemma history_simulates:
  assumes "repo_inv r" "repo_inv r'" "grows r r'" "k \<noteq> []"
  shows "history_step\<^sup>*\<^sup>* (job_history k r) (job_history k r')"
proof (cases "go_get (aiJobs r) k")
  case (Some job)
  note inv = repo_invD(4) [OF assms(1)] repo_invD(4) [OF assms(2)]
  obtain job' where job': "go_get (aiJobs r') k = Some job'" using assms(3) Some by (auto simp: grows_def dest: grown_get)
  have p: "job_history k r = take (length (job_history k r)) (job_history k r')" by (rule history_prefix [OF inv assms(3) Some])
  have "job_history k r \<noteq> []" using log_last(1) [OF inv(1) Some] by (simp add: job_history_def)
  then show ?thesis using history_tail [OF inv(2) job', of "length (job_history k r)"] p by (metis length_greater_0_conv length_take min.cobounded1)
next
  case None
  note inv = repo_invD(4) [OF assms(1)] repo_invD(4) [OF assms(2)]
  have empty: "job_history k r = []" by (rule no_job_no_history [OF inv(1) assms(4) None])
  show ?thesis
  proof (cases "go_get (aiJobs r') k")
    case None
    then show ?thesis using empty no_job_no_history [OF inv(2) assms(4)] by simp
  next
    case (Some job')
    have ne: "job_history k r' \<noteq> []" using log_last(1) [OF inv(2) Some] by (simp add: job_history_def)
    then have "take 1 (job_history k r') = [AIJobStatusQueued]" using history_first [OF inv(2) Some] by (cases "job_history k r'") auto
    then have "history_step (job_history k r) (take 1 (job_history k r'))" using empty history_step.start by simp
    moreover have "history_step\<^sup>*\<^sup>* (take 1 (job_history k r')) (job_history k r')"
      using ne by (intro history_tail [OF inv(2) Some]) (simp_all add: Suc_leI)
    ultimately show ?thesis by (rule converse_rtranclp_into_rtranclp)
  qed
qed

section \<open>Optimistic updates\<close>

text \<open>
  A store with versioned entries. A client reads an entry, computes a change and writes it with the
  version it read. Whatever steps other clients make in between, at most one of the clients that read
  the same version succeeds, and every other one is told so and leaves the store alone.
\<close>

locale optimistic_store =
  fixes inv :: "'s \<Rightarrow> bool" and step :: "'s \<Rightarrow> 's \<Rightarrow> bool" and version :: "'s \<Rightarrow> 'k \<Rightarrow> int option"
    and update :: "'k \<Rightarrow> int \<Rightarrow> 'a \<Rightarrow> 's \<Rightarrow> 's \<times> bool"
  assumes step_inv: "inv s \<Longrightarrow> step s s' \<Longrightarrow> inv s'"
    and version_grows: "inv s \<Longrightarrow> step s s' \<Longrightarrow> version s k = Some v \<Longrightarrow> \<exists>v' \<ge> v. version s' k = Some v'"
    and update_step: "inv s \<Longrightarrow> step s (fst (update k v a s))"
    and accepted: "inv s \<Longrightarrow> update k v a s = (s', True) \<Longrightarrow> version s k = Some v \<and> version s' k = Some (v + 1)"
    and refused: "update k v a s = (s', False) \<Longrightarrow> s' = s"
begin

lemma run: "step\<^sup>*\<^sup>* s s' \<Longrightarrow> inv s \<Longrightarrow> version s k = Some v \<Longrightarrow> inv s' \<and> (\<exists>v' \<ge> v. version s' k = Some v')"
proof (induction rule: rtranclp_induct)
  case (step y z)
  then obtain v1 where "v \<le> v1" "version y k = Some v1" "inv y" by auto
  then show ?case using version_grows [of y z k v1] step_inv [of y z] step.hyps(2) by fastforce
qed auto

lemma lost_update_free:
  assumes "inv s" "update k v a s = (s1, True)" "step\<^sup>*\<^sup>* s1 s2"
  shows "update k v b s2 = (s2, False)"
proof -
  have "inv s1" using step_inv [OF assms(1) update_step [OF assms(1)]] assms(2) by (metis fst_conv)
  moreover have "version s1 k = Some (v + 1)" using accepted [OF assms(1,2)] by simp
  ultimately obtain v' where v': "inv s2" "v + 1 \<le> v'" "version s2 k = Some v'" using run [OF assms(3)] by blast
  obtain s' ok where u: "update k v b s2 = (s', ok)" by fastforce
  have "\<not> ok" using accepted [OF v'(1), of k v b s'] u v' by auto
  then show ?thesis using refused u by auto
qed

end

definition accepted_as :: "('e + ('x \<times> bool)) \<Rightarrow> bool" where
  "accepted_as x = (case x of Inr (_, b) \<Rightarrow> b | Inl _ \<Rightarrow> False)"

lemma call_inv: "repo_call hash r r' \<Longrightarrow> repo_inv r \<Longrightarrow> repo_inv r' \<and> grows r r'"
  using writes_inv [OF repo_call_writes] by blast

text \<open>The updates of jobs, holds and attempts that name a version, and whether they were accepted.\<close>

datatype job_update =
    JobTransition (jobFence: int) string string gotime
  | JobRequeue (jobFence: int) string gotime gotime

fun update_job :: "(string \<Rightarrow> string) \<Rightarrow> string \<Rightarrow> int \<Rightarrow> job_update \<Rightarrow> MemoryRepository \<Rightarrow> MemoryRepository \<times> bool" where
  "update_job hash k v (JobTransition fence status reason at) r = map_prod id accepted_as (TransitionAIJob hash k v fence status reason at r)"
| "update_job hash k v (JobRequeue fence reason later at) r = map_prod id accepted_as (RequeueAIJob hash k v fence reason later at r)"

definition update_hold ::
  "string \<Rightarrow> int \<Rightarrow> string \<times> int \<times> string \<times> gotime \<Rightarrow> MemoryRepository \<Rightarrow> MemoryRepository \<times> bool" where
  "update_hold operationID v u r =
     (case u of (status, amount, reason, at) \<Rightarrow> map_prod id accepted_as (TransitionBillingHold operationID v status amount reason at r))"

datatype attempt_update =
    AttemptDispatch AIAttempt
  | AttemptReconcile string gotime AuditLog
  | AttemptDeliveryRetry string AIAttempt AuditLog

fun attempt_key :: "attempt_update \<Rightarrow> string" where
  "attempt_key (AttemptDispatch requested) = at_ID requested"
| "attempt_key (AttemptReconcile k at log) = TrimSpace k"
| "attempt_key (AttemptDeliveryRetry artifactID requested log) = at_ID requested"

fun update_attempt :: "int \<Rightarrow> attempt_update \<Rightarrow> MemoryRepository \<Rightarrow> MemoryRepository \<times> bool" where
  "update_attempt v (AttemptDispatch requested) r = map_prod id accepted_as (UpdateAIAttemptDispatch requested v r)"
| "update_attempt v (AttemptReconcile k at log) r = map_prod id accepted_as (ScheduleAIAttemptReconciliation k v at log r)"
| "update_attempt v (AttemptDeliveryRetry artifactID requested log) r =
     map_prod id accepted_as (ScheduleArtifactDeliveryRetry artifactID requested v log r)"

lemma apply_transition_update:
  assumes "map_prod id accepted_as (apply_transition k j at prepared r) = (r', ok)" "\<And>change. prepared = Inr change \<Longrightarrow> change_ok j change"
  shows "if ok then map_option job_StatusVersion (go_get (aiJobs r') k) = Some (job_StatusVersion j + 1) else r' = r"
proof -
  obtain r1 x where t: "apply_transition k j at prepared r = (r1, x)" by fastforce
  with assms(1) have eq: "r1 = r'" "accepted_as x = ok" by simp_all
  from t show ?thesis
  proof (cases rule: apply_transition_cases)
    case refused
    then show ?thesis using eq by (auto simp: accepted_as_def split: sum.splits)
  next
    case (stored updated event out operation)
    then show ?thesis using eq assms(2) [of "(updated, event, out)"] by (auto simp: accepted_as_def change_ok_def)
  qed
qed

lemma update_job_result:
  assumes "update_job hash k v u r = (r', ok)"
  shows "if ok then map_option job_StatusVersion (go_get (aiJobs r) k) = Some v \<and> map_option job_StatusVersion (go_get (aiJobs r') k) = Some (v + 1)
    else r' = r"
proof -
  obtain prepared where u: "(case go_get (aiJobs r) k of None \<Rightarrow> (r, False)
      | Some job \<Rightarrow> if stale_job job v (jobFence u) then (r, False) else map_prod id accepted_as (apply_transition k job (fst (prepared job)) (snd (prepared job)) r)) =
      (r', ok)" "\<And>job change. snd (prepared job) = Inr change \<Longrightarrow> change_ok job change"
  proof (cases u)
    case (JobTransition f s reason at)
    then show ?thesis
      using that [of "\<lambda>job. (at, prepareAIJobTransition hash job s reason at)"] assms prepare_transition_change
      by (auto simp: TransitionAIJob_def accepted_as_def split: option.splits if_splits)
  next
    case (JobRequeue f reason later at)
    have "change_ok job change"
      if "map_sum id (requeued_job later at) (prepareAIJobTransition hash job AIJobStatusQueued reason at) = Inr change" for job change
      using that requeued_job_ok [OF prepare_transition_change] by (cases "prepareAIJobTransition hash job AIJobStatusQueued reason at") auto
    with JobRequeue show ?thesis
      using that [of "\<lambda>job. (at, map_sum id (requeued_job later at) (prepareAIJobTransition hash job AIJobStatusQueued reason at))"] assms
      by (auto simp: RequeueAIJob_def accepted_as_def split: option.splits if_splits)
  qed
  show ?thesis
  proof (cases "go_get (aiJobs r) k")
    case (Some job)
    show ?thesis
    proof (cases "stale_job job v (jobFence u)")
      case False
      then have "job_StatusVersion job = v" by (simp add: stale_job_def)
      then show ?thesis using apply_transition_update [of k job "fst (prepared job)" "snd (prepared job)" r r' ok] u Some False by simp
    qed (use u Some in auto)
  qed (use u in auto)
qed

interpretation job_updates: optimistic_store repo_inv "repo_call hash" "\<lambda>r k. map_option job_StatusVersion (go_get (aiJobs r) k)"
  "update_job hash" for hash
proof unfold_locales
  fix r r' :: MemoryRepository
  assume "repo_inv r" "repo_call hash r r'"
  then show "repo_inv r'" by (simp add: call_inv)
next
  fix r r' k v
  assume "repo_inv r" "repo_call hash r r'" "map_option job_StatusVersion (go_get (aiJobs r) k) = Some v"
  then show "\<exists>v' \<ge> v. map_option job_StatusVersion (go_get (aiJobs r') k) = Some v'"
    using call_inv [of hash r r'] by (auto simp: grows_def job_le_def dest: grown_get)
next
  fix r k v u
  show "repo_call hash r (fst (update_job hash k v u r))"
    by (cases u) (simp_all add: repo_call.transition_job repo_call.requeue_job)
qed (auto dest: update_job_result)

lemma hold_version_grows:
  assumes "repo_inv r" "repo_inv r'" "grows r r'" "memoryBillingHoldForOperation (billingHolds r) k = Some h"
  obtains h' where "memoryBillingHoldForOperation (billingHolds r') k = Some h'" "hold_Version h \<le> hold_Version h'" "hold_ID h' = hold_ID h"
proof -
  note h = hold_for_operation [OF repo_invD(2) [OF assms(1)] assms(4)]
  then obtain h' where h': "go_get (billingHolds r') (hold_ID h) = Some h'" "hold_le h h'"
    using assms(3) by (auto simp: grows_def dest: grown_get)
  then have "hold_ID h' = hold_ID h" using table_get [OF holds_table [OF repo_invD(2) [OF assms(2)]]] by blast
  then show ?thesis using that [of h'] h h' hold_for_operation_iff [OF repo_invD(2) [OF assms(2)], of k h'] by (simp add: hold_le_def)
qed

interpretation hold_updates: optimistic_store repo_inv "repo_call hash"
  "\<lambda>r k. map_option hold_Version (memoryBillingHoldForOperation (billingHolds r) (TrimSpace k))" update_hold for hash
proof unfold_locales
  fix r r' k v
  assume "repo_inv r" "repo_call hash r r'" "map_option hold_Version (memoryBillingHoldForOperation (billingHolds r) (TrimSpace k)) = Some v"
  then show "\<exists>v' \<ge> v. map_option hold_Version (memoryBillingHoldForOperation (billingHolds r') (TrimSpace k)) = Some v'"
    using call_inv [of hash r r'] by (auto elim!: hold_version_grows [of r r' "TrimSpace k"])
next
  fix r k v u
  show "repo_call hash r (fst (update_hold k v u r))"
    by (cases u) (simp add: update_hold_def repo_call.transition_hold)
next
  fix r k v u r'
  assume inv: "repo_inv r" and "update_hold k v u r = (r', True)"
  then obtain s m reason at x where t: "TransitionBillingHold k v s m reason at r = (r', x)" "accepted_as x"
    by (cases u) (auto simp: update_hold_def map_prod_def split: prod.splits)
  from t(1) show "map_option hold_Version (memoryBillingHoldForOperation (billingHolds r) (TrimSpace k)) = Some v \<and>
      map_option hold_Version (memoryBillingHoldForOperation (billingHolds r') (TrimSpace k)) = Some (v + 1)"
  proof (cases rule: TransitionBillingHold_cases)
    case (moved h h')
    note inv' = store_hold_inv [OF repo_invD(2) [OF inv] _ moved(3)] and h = hold_for_operation [OF repo_invD(2) [OF inv] moved(1)]
    then have "memoryBillingHoldForOperation (billingHolds r') (TrimSpace k) = Some h'"
      using hold_for_operation_iff [OF inv'] prepare_identity [OF moved(3)] by (simp add: moved(5))
    then show ?thesis using moved by simp
  qed (use t(2) in \<open>auto simp: accepted_as_def split: sum.splits\<close>)
next
  fix k v u r r'
  assume "update_hold k v u r = (r', False)"
  then obtain s m reason at x where t: "TransitionBillingHold k v s m reason at r = (r', x)" "\<not> accepted_as x"
    by (cases u) (auto simp: update_hold_def map_prod_def split: prod.splits)
  from t(1) show "r' = r" by (rule TransitionBillingHold_cases) (use t(2) in \<open>auto simp: accepted_as_def\<close>)
qed (simp add: call_inv)

lemma update_attempt_result:
  assumes "update_attempt v u r = (r', ok)" "repo_inv r"
  shows "if ok then map_option at_DispatchVersion (go_get (aiAttempts r) (attempt_key u)) = Some v \<and>
      map_option at_DispatchVersion (go_get (aiAttempts r') (attempt_key u)) = Some (v + 1)
    else r' = r"
proof -
  have "at_ID x = k" if "go_get (aiAttempts r) k = Some x" for x k
    using table_get [of at_ID _ "aiAttempts r" k x] repo_invD(5) [OF assms(2)] that by (simp add: attempts_inv_def)
  then show ?thesis
    using assms(1) by (cases u) (auto simp: UpdateAIAttemptDispatch_def ScheduleAIAttemptReconciliation_def ScheduleArtifactDeliveryRetry_def
        accepted_as_def applyAIAttemptDispatchUpdate_def Let_def split: option.splits if_splits)
qed

lemma update_attempt_refused: "update_attempt v u r = (r', False) \<Longrightarrow> r' = r"
  by (cases u) (auto simp: UpdateAIAttemptDispatch_def ScheduleAIAttemptReconciliation_def ScheduleArtifactDeliveryRetry_def
      accepted_as_def Let_def split: option.splits if_splits)

interpretation attempt_updates: optimistic_store repo_inv "repo_call hash"
  "\<lambda>r k. map_option at_DispatchVersion (go_get (aiAttempts r) k)"
  "\<lambda>k v u r. if attempt_key u = k then update_attempt v u r else (r, False)" for hash
proof unfold_locales
  fix r r' k v
  assume "repo_inv r" "repo_call hash r r'" "map_option at_DispatchVersion (go_get (aiAttempts r) k) = Some v"
  then show "\<exists>v' \<ge> v. map_option at_DispatchVersion (go_get (aiAttempts r') k) = Some v'"
    using call_inv [of hash r r'] by (auto simp: grows_def attempt_le_def dest: grown_get)
next
  fix r k v u
  have "repo_call hash r r"
    using repo_call.extend_lease [of hash r k 0 0 "[]" 0 0] by (simp add: ExtendAIJobQueueLease_def)
  then show "repo_call hash r (fst (if attempt_key u = k then update_attempt v u r else (r, False)))"
    by (cases u) (simp_all add: repo_call.update_dispatch repo_call.schedule_reconciliation repo_call.schedule_delivery_retry)
next
  fix r k v u r'
  assume "repo_inv r" "(if attempt_key u = k then update_attempt v u r else (r, False)) = (r', True)"
  then show "map_option at_DispatchVersion (go_get (aiAttempts r) k) = Some v \<and> map_option at_DispatchVersion (go_get (aiAttempts r') k) = Some (v + 1)"
    using update_attempt_result [of v u r r' True] by (auto split: if_splits)
next
  fix k v u r r'
  assume "(if attempt_key u = k then update_attempt v u r else (r, False)) = (r', False)"
  then show "r' = r" using update_attempt_refused by (auto split: if_splits)
qed (simp add: call_inv)

section \<open>What a claim does\<close>

definition claim_of :: "gotime \<Rightarrow> string \<Rightarrow> string \<Rightarrow> AIJob \<Rightarrow> AIJob \<Rightarrow> bool" where
  "claim_of u worker tok j c \<longleftrightarrow>
     job_ID c = job_ID j \<and> job_Status c = AIJobStatusDispatching \<and> job_StatusVersion c = job_StatusVersion j + 1 \<and>
     job_FenceToken c = job_FenceToken j + 1 \<and> job_QueueLeaseUntil c = Some u \<and> job_QueueLeaseToken c = tok \<and>
     job_QueueWorkerID c = worker"

lemma claimed_job_claim_of:
  assumes "prepareAIJobClaim hash j now = Inr (updated, event, out)"
  shows "claim_of u worker tok j (claimed_job u worker tok updated)"
  using prepare_claim_ok [OF assms] by (simp add: claim_of_def claimed_job_def change_ok_def)

lemma claim_of_ids: "list_all2 (claim_of u worker tok) xs ys \<Longrightarrow> map job_ID ys = map job_ID xs"
  by (induction rule: list_all2_induct) (simp_all add: claim_of_def)

lemma claim_loop_result:
  "stored_jobs r cs \<Longrightarrow> claimAIJobCandidatesLocked hash cs now u worker tok limit claimed r = (r', Inr out) \<Longrightarrow>
   \<exists>new. out = claimed @ new \<and> length new = min (length cs) (nat (limit - int (length claimed))) \<and>
     list_all2 (claim_of u worker tok) (take (length new) cs) new \<and>
     (\<forall>k. go_get (aiJobs r') k = (case find (\<lambda>c. job_ID c = k) new of Some c \<Rightarrow> Some c | None \<Rightarrow> go_get (aiJobs r) k))"
proof (induction cs arbitrary: claimed r)
  case (Cons c cs)
  show ?case
  proof (cases "int (length claimed) < limit")
    case False
    then show ?thesis using Cons.prems(2) by simp
  next
    case True
    from Cons.prems(2) show ?thesis
    proof (cases rule: claim_candidate_cases)
      case stop
      then show ?thesis using True by auto
    next
      case claims: (claimed updated event ob operation)
      let ?c = "claimed_job u worker tok updated"
      let ?r = "store_job_change operation (job_ID updated) (?c, event, ob) now r"
      have of: "claim_of u worker tok c ?c" by (rule claimed_job_claim_of [OF claims(2)])
      have key: "job_ID updated = job_ID c" using of by (simp add: claim_of_def claimed_job_def)
      have "stored_jobs ?r cs" by (rule stored_jobs_Cons [OF Cons.prems(1)]) (simp add: key)
      from Cons.IH [OF this claims(4)] obtain new where new: "out = (claimed @ [?c]) @ new"
        "length new = min (length cs) (nat (limit - int (length (claimed @ [?c]))))" "list_all2 (claim_of u worker tok) (take (length new) cs) new"
        "\<forall>k. go_get (aiJobs r') k = (case find (\<lambda>c. job_ID c = k) new of Some c \<Rightarrow> Some c | None \<Rightarrow> go_get (aiJobs ?r) k)"
        by blast
      have ids: "job_ID ` set new \<subseteq> job_ID ` set cs"
        using arg_cong [OF claim_of_ids [OF new(3)], of set] image_mono [OF set_take_subset [of "length new" cs], of job_ID] by simp
      have "find (\<lambda>x. job_ID x = job_ID c) new = None"
        using Cons.prems(1) ids by (auto simp: stored_jobs_def find_key_None)
      then have "\<forall>k. go_get (aiJobs r') k = (case find (\<lambda>c. job_ID c = k) (?c # new) of Some c \<Rightarrow> Some c | None \<Rightarrow> go_get (aiJobs r) k)"
        using new(4) key of by (auto simp: claim_of_def split: option.split)
      moreover have "length (?c # new) = min (length (c # cs)) (nat (limit - int (length claimed)))" using new(2) True by simp
      moreover have "list_all2 (claim_of u worker tok) (take (length (?c # new)) (c # cs)) (?c # new)" using new(3) of by simp
      ultimately show ?thesis using new(1) by (intro exI [of _ "?c # new"]) simp
    qed
  qed
qed simp

lemma claimed_ready: "claim_of u worker tok j c \<Longrightarrow> t < u \<Longrightarrow> \<not> aiJobReadyForClaim c t"
  by (auto simp: claim_of_def aiJobReadyForClaim_def)

lemma rank_length: "length (rankAIJobFairCandidates candidates jobs activities now limit) = min (nat limit) (length candidates)"
proof (cases "limit \<le> 0 \<or> candidates = []")
  case False
  let ?rem = "map (\<lambda>job. newAIJobFairCandidate job now) candidates"
  obtain as ps where "rankAIJobFairCandidates candidates jobs activities now limit = rank_loop limit ?rem as ps []"
    using False by (auto simp: rankAIJobFairCandidates_def)
  then show ?thesis using rank_loop_extends [of limit ?rem as ps "[]"] by auto
qed (auto simp: rankAIJobFairCandidates_def)

text \<open>Claims of one call: different jobs that were ready, each stored with its new lease; nothing else changes.\<close>

definition claimed_in :: "gotime \<Rightarrow> gotime \<Rightarrow> string \<Rightarrow> string \<Rightarrow> MemoryRepository \<Rightarrow> MemoryRepository \<Rightarrow> AIJob list \<Rightarrow> bool" where
  "claimed_in now u worker tok r r' claimed \<longleftrightarrow> distinct (map job_ID claimed) \<and>
     (\<forall>c \<in> set claimed. \<exists>j. go_get (aiJobs r) (job_ID c) = Some j \<and> aiJobReadyForClaim j now \<and> claim_of u worker tok j c \<and>
        go_get (aiJobs r') (job_ID c) = Some c) \<and>
     (\<forall>k. k \<notin> job_ID ` set claimed \<longrightarrow> go_get (aiJobs r') k = go_get (aiJobs r) k)"

lemma ranked_claims:
  assumes "jobs_inv r" "\<And>j. P j \<Longrightarrow> aiJobReadyForClaim j now"
    and "claimAIJobCandidatesLocked hash (rankAIJobFairCandidates (filter P (go_values (aiJobs r))) jobs activities now limit)
      now u worker tok limit [] r = (r', Inr claimed)"
  shows "length claimed = min (nat limit) (length (filter P (go_values (aiJobs r))))" "claimed_in now u worker tok r r' claimed"
proof -
  let ?ready = "filter P (go_values (aiJobs r))"
  let ?cs = "rankAIJobFairCandidates ?ready jobs activities now limit"
  note stored = ranked_stored [OF assms(1) refl, where P = P and jobs = jobs and activities = activities and now = now and limit = limit]
  from claim_loop_result [OF stored(1) assms(3)] obtain new where new: "claimed = new" "length new = min (length ?cs) (nat limit)"
    "list_all2 (claim_of u worker tok) (take (length new) ?cs) new"
    "\<forall>k. go_get (aiJobs r') k = (case find (\<lambda>c. job_ID c = k) new of Some c \<Rightarrow> Some c | None \<Rightarrow> go_get (aiJobs r) k)" by auto
  show "length claimed = min (nat limit) (length ?ready)" using new(1,2) by (simp add: rank_length)
  have all: "list_all2 (claim_of u worker tok) ?cs claimed" using new by (simp add: rank_length)
  have dist: "distinct (map job_ID claimed)" unfolding claim_of_ids [OF all] using stored(1) by (simp add: stored_jobs_def)
  have "\<exists>j. go_get (aiJobs r) (job_ID c) = Some j \<and> aiJobReadyForClaim j now \<and> claim_of u worker tok j c \<and>
       go_get (aiJobs r') (job_ID c) = Some c" if c: "c \<in> set claimed" for c
  proof -
    obtain i where i: "i < length claimed" "c = claimed ! i" using c unfolding in_set_conv_nth by blast
    have j: "?cs ! i \<in> set ?cs" "claim_of u worker tok (?cs ! i) c"
      using i list_all2_lengthD [OF all] list_all2_nthD2 [OF all i(1)] by auto
    then have "go_get (aiJobs r) (job_ID c) = Some (?cs ! i)" using stored(1) by (auto simp: stored_jobs_def claim_of_def)
    moreover have "go_get (aiJobs r') (job_ID c) = Some c" using new(1,4) find_distinct [OF dist c] by simp
    ultimately show ?thesis using assms(2) [OF stored(2) [OF j(1)]] j(2) by blast
  qed
  moreover have "go_get (aiJobs r') k = go_get (aiJobs r) k" if "k \<notin> job_ID ` set claimed" for k
    using that new(1,4) find_key_None [of job_ID k claimed] by simp
  ultimately show "claimed_in now u worker tok r r' claimed" using dist by (simp add: claimed_in_def)
qed

section \<open>What a cancellation does\<close>

lemma cancel_target_queued: "job_Status j = AIJobStatusQueued \<Longrightarrow> cancel_target j = AIJobStatusCanceled"
  by (simp add: cancel_target_def)

lemma release_effect:
  assumes "holds_inv r" "releaseMemoryBillingHoldForOperation k reason at r = (r1, None)"
    and "memoryBillingHoldForOperation (billingHolds r) k = Some h" "hold_Status h \<in> {BillingHoldStatusReserved, BillingHoldStatusDisputed}"
  obtains h' where "memoryBillingHoldForOperation (billingHolds r1) k = Some h'" "hold_Status h' = BillingHoldStatusReleased" "hold_ID h' = hold_ID h"
proof -
  have "\<not> oneOf (hold_Status h) [BillingHoldStatusSettled, BillingHoldStatusReleased, BillingHoldStatusCommitted]" using assms(4) by auto
  then obtain h' where h': "prepareBillingHoldTransition h BillingHoldStatusReleased 0 reason at = Inr h'" "r1 = store_hold h h' r"
    using assms(2,3) by (auto simp: releaseMemoryBillingHoldForOperation_def split: sum.splits)
  have "hold_Status h' = BillingHoldStatusReleased" using h'(1) by (rule prepare_cases) simp_all
  note h = hold_for_operation [OF assms(1,3)]
  then have "memoryBillingHoldForOperation (billingHolds r1) k = Some h'"
    using hold_for_operation_iff [OF store_hold_inv [OF assms(1) _ h'(1)], of k h'] prepare_identity [OF h'(1)] h'(2) by simp
  then show ?thesis using that \<open>hold_Status h' = _\<close> prepare_identity [OF h'(1)] by blast
qed

lemma cancel_effect:
  assumes "repo_inv r" "go_get (aiJobs r) k = Some j" "job_Status j = AIJobStatusQueued" "cancel_job hash k j reason at log r = (r', Inr (u, True))"
  shows "go_get (aiJobs r') k = Some u \<and> job_Status u = AIJobStatusCanceled \<and> job_StatusVersion u = job_StatusVersion j + 1"
    and "\<exists>operation'. go_get (aiOperations r') (job_OperationID j) = Some operation' \<and>
      op_Status operation' \<noteq> AIOperationStatusAccepted \<and> op_Status operation' \<noteq> AIOperationStatusRunning"
    and "memoryBillingHoldForOperation (billingHolds r) (job_OperationID j) = Some h \<Longrightarrow>
      hold_Status h \<in> {BillingHoldStatusReserved, BillingHoldStatusDisputed} \<Longrightarrow>
      \<exists>h'. memoryBillingHoldForOperation (billingHolds r') (job_OperationID j) = Some h' \<and> hold_ID h' = hold_ID h \<and>
        hold_Status h' = BillingHoldStatusReleased"
proof -
  note inv = repo_invD [OF assms(1)]
  from inv(2) assms(4) have all: "(go_get (aiJobs r') k = Some u \<and> job_Status u = AIJobStatusCanceled \<and> job_StatusVersion u = job_StatusVersion j + 1) \<and>
    (\<exists>operation'. go_get (aiOperations r') (job_OperationID j) = Some operation' \<and>
      op_Status operation' \<noteq> AIOperationStatusAccepted \<and> op_Status operation' \<noteq> AIOperationStatusRunning) \<and>
    (\<exists>r1. releaseMemoryBillingHoldForOperation (job_OperationID j) ''job_canceled_before_dispatch'' at r = (r1, None) \<and> billingHolds r' = billingHolds r1)"
  proof (cases rule: cancel_job_cases)
    case (canceled u0 updated event out operation r1)
    have target: "cancel_target j = AIJobStatusCanceled" by (rule cancel_target_queued [OF assms(3)])
    have upd: "updated = u0" "u = u0" using canceled(2,9) assms(3) by simp_all
    have u0: "u0 = transitioned_job j AIJobStatusCanceled reason at" using prepare_transition_cases(2) [OF canceled(1)] target by simp
    have op: "op_ID operation = job_OperationID j" "op_ID operation \<noteq> []"
      using table_get [of op_ID _ "aiOperations r", OF inv(1) [unfolded operations_inv_def] canceled(4)] job_get [OF inv(4) assms(2)]
      by (simp_all add: job_ok_def)
    have tables: "aiJobs r' = go_set k u0 (aiJobs r1)" "billingHolds r' = billingHolds r1"
      "aiOperations r' = go_set (op_ID operation) (applyMemoryOperationJobStatus operation (job_Status u0) (job_ErrorType u0) at) (aiOperations r1)"
      using canceled(8) upd by (auto simp: AddAuditLog_repository_def)
    have "op_Status (applyMemoryOperationJobStatus operation AIJobStatusCanceled e at) \<notin> {AIOperationStatusAccepted, AIOperationStatusRunning}" for e
      using op(2) by (auto simp: applyMemoryOperationJobStatus_def mapAIJobToOperationStatus_def)
    then show ?thesis using tables op(1) upd u0 canceled(6) [OF target] by auto
  qed blast
  show "go_get (aiJobs r') k = Some u \<and> job_Status u = AIJobStatusCanceled \<and> job_StatusVersion u = job_StatusVersion j + 1" using all by simp
  show "\<exists>operation'. go_get (aiOperations r') (job_OperationID j) = Some operation' \<and>
      op_Status operation' \<noteq> AIOperationStatusAccepted \<and> op_Status operation' \<noteq> AIOperationStatusRunning" using all by simp
  assume "memoryBillingHoldForOperation (billingHolds r) (job_OperationID j) = Some h" "hold_Status h \<in> {BillingHoldStatusReserved, BillingHoldStatusDisputed}"
  then show "\<exists>h'. memoryBillingHoldForOperation (billingHolds r') (job_OperationID j) = Some h' \<and> hold_ID h' = hold_ID h \<and>
        hold_Status h' = BillingHoldStatusReleased"
    using all release_effect [OF inv(2)] by metis
qed

section \<open>A small run\<close>

definition example_durable_operation :: AIOperation where
  "example_durable_operation = (example_operation ''a'')\<lparr>op_Lane := ''durable'', op_IdempotencyKey := ''k''\<rparr>"

definition example_durable_job :: AIJob where
  "example_durable_job = (example_job ''j'' ''app'')\<lparr>job_OperationID := ''a'', job_RequestFingerprint := ''f'',
     job_IdempotencyKey := ''k'', job_RequestPayloadCiphertext := ''c'', job_ArtifactPolicy := GatewayArtifactPolicyProxyOnly\<rparr>"

definition no_limits :: AIJobAdmissionLimits where
  "no_limits = \<lparr>lim_Organization = 0, lim_Application = 0, lim_Principal = 0\<rparr>"

lemma example_durable_sel [simp]:
  "job_ID example_durable_job = ''j''" "job_OperationID example_durable_job = ''a''" "job_Status example_durable_job = AIJobStatusQueued"
  "job_StatusVersion example_durable_job = 1" "job_FenceToken example_durable_job = 0" "job_NextEligibleAt example_durable_job = 1"
  "job_QueueLeaseUntil example_durable_job = None" "op_ID example_durable_operation = ''a''"
  by (simp_all add: example_durable_job_def example_durable_operation_def example_job_def)

lemma example_records:
  obtains event out where "newAIJobTransitionRecords id example_durable_job AIJobStatusAccepted [] 5 = Inr (event, out)"
    "ev_JobID event = ''j''" "ev_Version event = 1" "ev_EventType event = AIJobEventQueued" "ob_AggregateType out = AIJobOutboxAggregate"
    "ob_AggregateID out = ''j''" "ob_EventVersion out = 1" "ob_EventType out = AIJobEventQueued"
    "ev_ID event = ''job_event_'' @ event_digest id ''j'' 1" "ob_ID out = ''outbox_'' @ event_digest id ''j'' 1"
  by (simp add: newAIJobTransitionRecords_def newAIJobEventRecords_def aiJobEventType_def Let_def)

lemma example_proxy:
  "TrimSpace [] = []" "artifactPolicySnapshot GatewayArtifactPolicyProxyOnly = GatewayArtifactPolicyProxyOnly"
  "validArtifactPolicy GatewayArtifactPolicyProxyOnly" "GatewayArtifactPolicyProxyOnly \<noteq> GatewayArtifactPolicyCustomerSink"
proof -
  have "TrimSpace GatewayArtifactPolicyProxyOnly = GatewayArtifactPolicyProxyOnly" unfolding GatewayArtifactPolicyProxyOnly_def by code_simp
  then show "artifactPolicySnapshot GatewayArtifactPolicyProxyOnly = GatewayArtifactPolicyProxyOnly"
    by (simp add: artifactPolicySnapshot_def validArtifactPolicy_def)
  show "TrimSpace [] = []" by code_simp
  show "validArtifactPolicy GatewayArtifactPolicyProxyOnly" by (simp add: validArtifactPolicy_def)
  show "GatewayArtifactPolicyProxyOnly \<noteq> GatewayArtifactPolicyCustomerSink"
    by (simp add: GatewayArtifactPolicyProxyOnly_def GatewayArtifactPolicyCustomerSink_def)
qed

lemma example_hold_insert: "check_hold_insert NewMemoryRepository operation (example_admission ''a'' 1) = None"
proof -
  have "true_exposure NewMemoryRepository h = 0" for h by (simp add: true_exposure_def)
  moreover have "addUsageDimensionTotals (settled_usage NewMemoryRepository h) (active_usage NewMemoryRepository h) = zero_totals" for h
    by (simp add: settled_usage_def active_usage_def add_zero_totals)
  ultimately have "enforceMemoryBillingHoldBudget NewMemoryRepository (example_admission ''a'' 1) = None"
    by (simp add: enforceMemoryBillingHoldBudget_def budget_exposure_wraps wrap64_add_wrap64 example_media Let_def wrap64_def)
  then show ?thesis by (simp add: check_hold_insert_def memoryBillingHoldForOperation_def)
qed

lemma example_job_run:
  obtains r where "(repo_call id)\<^sup>*\<^sup>* NewMemoryRepository r" "aiJobs r = [(''j'', example_durable_job)]"
    "aiOperations r = [(''a'', normalizeAIOperation example_durable_operation)]" "billingHolds r = [(''a'', example_hold ''a'' 1)]"
    "\<forall>k. go_get (aiJobEvents r) k \<noteq> None \<longrightarrow> k = ''job_event_'' @ event_digest id ''j'' 1"
    "\<forall>k x. go_get (transactionalOutboxEvents r) k = Some x \<longrightarrow> k = ''outbox_'' @ event_digest id ''j'' 1 \<and> ob_EventVersion x = 1"
    "\<forall>x. x \<in> set (go_values (transactionalOutboxEvents r)) \<longrightarrow> ob_EventVersion x = 1" "auditLogs r = []"
proof -
  obtain event out where rec: "newAIJobTransitionRecords id example_durable_job AIJobStatusAccepted [] 5 = Inr (event, out)"
    "ev_JobID event = ''j''" "ev_Version event = 1" "ev_EventType event = AIJobEventQueued" "ob_AggregateType out = AIJobOutboxAggregate"
    "ob_AggregateID out = ''j''" "ob_EventVersion out = 1" "ob_EventType out = AIJobEventQueued"
    "ev_ID event = ''job_event_'' @ event_digest id ''j'' 1" "ob_ID out = ''outbox_'' @ event_digest id ''j'' 1" by (rule example_records)
  let ?o = "normalizeAIOperation example_durable_operation"
  have valid: "validateDurableAIJobAdmission ?o example_durable_job event out = None"
    using rec by (simp add: validateDurableAIJobAdmission_def validArtifactSinkBinding_def artifactSinkSnapshot_def normalizeAIOperation_def
        example_durable_operation_def example_durable_job_def example_job_def example_operation_def example_proxy Let_def)
  have "hold_matches_operation ?o (example_admission ''a'' 1)"
    by (simp add: hold_matches_operation_def example_admission_def example_hold_def example_operation_def example_durable_operation_def
        normalizeAIOperation_def example_TrimSpace Let_def)
  then have billing: "validateBillingHoldAdmission ?o (example_admission ''a'' 1) = None"
    by (simp add: validateBillingHoldAdmission_def NormalizeUsageDimensions_def Let_def)
  have "check_job_insert ?o example_durable_job event out no_limits (example_admission ''a'' 1) NewMemoryRepository = None"
    by (simp add: check_job_insert_def check_job_event_def validateMemoryOutboxInsert_def enforceAIJobAdmissionLimits_def no_limits_def
        example_hold_insert)
  then obtain r where r: "r = (insert_hold ?o (example_admission ''a'' 1) NewMemoryRepository)\<lparr>aiJobs := [(''j'', example_durable_job)],
         aiJobEvents := [(ev_ID event, event)], transactionalOutboxEvents := [(ob_ID out, out)]\<rparr>"
    and create: "CreateDurableAIJob example_durable_operation example_durable_job event out no_limits (example_admission ''a'' 1) NewMemoryRepository =
      (r, Inr (example_durable_job, True))"
    using valid billing by (simp add: CreateDurableAIJob_def admission_validate_def no_limits_def Let_def)
  have "repo_call id NewMemoryRepository (fst (CreateDurableAIJob example_durable_operation example_durable_job event out no_limits
      (example_admission ''a'' 1) NewMemoryRepository))"
    by (rule repo_call.create_job [OF rec(1)]) (simp_all add: int64_ok_def)
  then have "(repo_call id)\<^sup>*\<^sup>* NewMemoryRepository r" by (simp add: create)
  then show ?thesis by (rule that) (auto simp: r rec split: if_splits)
qed

lemma rank_one: "0 < limit \<Longrightarrow> rankAIJobFairCandidates [j] jobs activities now limit = [j]"
proof -
  assume "0 < limit"
  then have "length (rankAIJobFairCandidates [j] jobs activities now limit) = 1" by (simp add: rank_length)
  then obtain x where x: "rankAIJobFairCandidates [j] jobs activities now limit = [x]" by (auto simp: length_Suc_conv)
  then show ?thesis using rank_mset [of "[j]" jobs activities now limit] by simp
qed

lemma digests_differ: "event_digest id ''j'' 2 \<noteq> event_digest id ''j'' 1"
  by code_simp

definition example_audit :: AuditLog where
  "example_audit = \<lparr>au_ID = ''l'', au_Actor = [], au_Action = [], au_ResourceType = [], au_ResourceID = [], au_Summary = [],
     au_ApplicationID = [], au_ApplicationName = [], au_GatewayPrincipalID = [], au_GatewayPrincipalName = [],
     au_ExternalAuthIntegrationID = [], au_ExternalSubjectReference = [], au_CreatedAt = 6\<rparr>"

text \<open>The event of the second version is new in the example.\<close>

lemma example_second_event:
  assumes "\<forall>k. go_get (aiJobEvents r) k \<noteq> None \<longrightarrow> k = ''job_event_'' @ event_digest id ''j'' 1"
    "\<forall>k x. go_get (transactionalOutboxEvents r) k = Some x \<longrightarrow> k = ''outbox_'' @ event_digest id ''j'' 1 \<and> ob_EventVersion x = 1"
    "\<forall>x. x \<in> set (go_values (transactionalOutboxEvents r)) \<longrightarrow> ob_EventVersion x = 1"
    and "ev_ID event = ''job_event_'' @ event_digest id ''j'' 2" "ob_ID out = ''outbox_'' @ event_digest id ''j'' 2" "ob_EventVersion out = 2"
  shows "check_job_event event out r = None"
proof -
  have "go_get (aiJobEvents r) (ev_ID event) = None" using assms(1,4) digests_differ by auto
  moreover have "go_get (transactionalOutboxEvents r) (ob_ID out) = None"
    using assms(2,5) digests_differ by (cases "go_get (transactionalOutboxEvents r) (ob_ID out)") auto
  moreover have "\<not> list_ex (\<lambda>x. same_outbox_identity x out) (go_values (transactionalOutboxEvents r))"
    using assms(3,6) by (fastforce simp: list_ex_iff same_outbox_identity_def)
  ultimately show ?thesis by (simp add: check_job_event_def validateMemoryOutboxInsert_def)
qed

lemma example_claim:
  assumes "TrimSpace tok \<noteq> []"
  obtains r r' c where "(repo_call id)\<^sup>*\<^sup>* NewMemoryRepository r" "ClaimQueuedAIJobs id 5 9 ''a'' tok 1 r = (r', Inr [c])"
    "aiJobs r = [(''j'', example_durable_job)]"
proof -
  obtain r where r: "(repo_call id)\<^sup>*\<^sup>* NewMemoryRepository r" "aiJobs r = [(''j'', example_durable_job)]"
    "aiOperations r = [(''a'', normalizeAIOperation example_durable_operation)]" "billingHolds r = [(''a'', example_hold ''a'' 1)]"
    "\<forall>k. go_get (aiJobEvents r) k \<noteq> None \<longrightarrow> k = ''job_event_'' @ event_digest id ''j'' 1"
    "\<forall>k x. go_get (transactionalOutboxEvents r) k = Some x \<longrightarrow> k = ''outbox_'' @ event_digest id ''j'' 1 \<and> ob_EventVersion x = 1"
    "\<forall>x. x \<in> set (go_values (transactionalOutboxEvents r)) \<longrightarrow> ob_EventVersion x = 1"
    by (rule example_job_run)
  have ready: "aiJobReadyForClaim example_durable_job 5" by (simp add: aiJobReadyForClaim_def)
  obtain u event out where p: "prepareAIJobClaim id example_durable_job 5 = Inr (u, event, out)"
      "ev_ID event = ''job_event_'' @ event_digest id ''j'' 2" "ob_ID out = ''outbox_'' @ event_digest id ''j'' 2" "ob_EventVersion out = 2"
    by (simp add: prepareAIJobClaim_def prepareAIJobTransition_def newAIJobTransitionRecords_def newAIJobEventRecords_def aiJobEventType_def
        aiJobStatusTransitionAllowed_def Let_def)
  have "check_job_event event out r = None" by (rule example_second_event [OF r(5-7) p(2-4)])
  then obtain r' c where "ClaimQueuedAIJobs id 5 9 ''a'' tok 1 r = (r', Inr [c])"
    using assms ready p(1) by (simp add: ClaimQueuedAIJobs_def r(2) example_TrimSpace rank_one Let_def)
  then show ?thesis using that r(1,2) by simp
qed

lemma example_cancel:
  obtains r r' u where "(repo_call id)\<^sup>*\<^sup>* NewMemoryRepository r" "aiJobs r = [(''j'', example_durable_job)]"
    "billingHolds r = [(''a'', example_hold ''a'' 1)]" "RequestAIJobAdminCancellation id ''j'' 6 example_audit r = (r', Inr (Some (u, True)))"
proof -
  obtain r where r: "(repo_call id)\<^sup>*\<^sup>* NewMemoryRepository r" "aiJobs r = [(''j'', example_durable_job)]"
    "aiOperations r = [(''a'', normalizeAIOperation example_durable_operation)]" "billingHolds r = [(''a'', example_hold ''a'' 1)]"
    "\<forall>k. go_get (aiJobEvents r) k \<noteq> None \<longrightarrow> k = ''job_event_'' @ event_digest id ''j'' 1"
    "\<forall>k x. go_get (transactionalOutboxEvents r) k = Some x \<longrightarrow> k = ''outbox_'' @ event_digest id ''j'' 1 \<and> ob_EventVersion x = 1"
    "\<forall>x. x \<in> set (go_values (transactionalOutboxEvents r)) \<longrightarrow> ob_EventVersion x = 1" "auditLogs r = []"
    by (rule example_job_run)
  let ?reason = "''admin_requested''"
  obtain u event out where p: "prepareAIJobTransition id example_durable_job AIJobStatusCanceled ?reason 6 = Inr (u, event, out)"
      "ev_ID event = ''job_event_'' @ event_digest id ''j'' 2" "ob_ID out = ''outbox_'' @ event_digest id ''j'' 2" "ob_EventVersion out = 2"
    by (simp add: prepareAIJobTransition_def newAIJobTransitionRecords_def newAIJobEventRecords_def aiJobEventType_def
        aiJobStatusTransitionAllowed_def Let_def)
  have check: "check_job_event event out r = None" by (rule example_second_event [OF r(5-7) p(2-4)])
  obtain r1 where rel: "releaseMemoryBillingHoldForOperation ''a'' ''job_canceled_before_dispatch'' 6 r = (r1, None)"
    by (simp add: releaseMemoryBillingHoldForOperation_def r(4) memoryBillingHoldForOperation_def prepareBillingHoldTransition_def
        billingHoldTransitionAllowed_def Let_def)
  have "cancel_target example_durable_job = AIJobStatusCanceled" by (simp add: cancel_target_def)
  then obtain r' where "cancel_job id ''j'' example_durable_job ?reason 6 (Some example_audit) r = (r', Inr (u, True))"
    using p(1) check rel by (simp add: cancel_job_def r(3,8) Let_def)
  moreover have "TrimSpace ''j'' = ''j''" by code_simp
  ultimately have "RequestAIJobAdminCancellation id ''j'' 6 example_audit r = (r', Inr (Some (u, True)))"
    by (simp add: RequestAIJobAdminCancellation_def r(2))
  then show ?thesis by (rule that [OF r(1,2,4)])
qed

section \<open>Properties\<close>



text \<open>
  C14: the event log of a job is complete. In every reachable repository the events listed for a job
  have the versions 1 to its status version, one each, start with the queued status, follow each
  other by steps of the status machine (or by the reassignment of a dispatch lease), and end with the
  status of the job; and for each of them an outbox event is stored.
\<close>

theorem job_log_complete:
  assumes "(repo_call hash)\<^sup>*\<^sup>* NewMemoryRepository r" "go_get (aiJobs r) k = Some job" "es = ListAIJobEvents k r"
  shows "map ev_Version es = [1..job_StatusVersion job] \<and> ev_ToStatus (hd es) = AIJobStatusQueued \<and> ev_ToStatus (last es) = job_Status job \<and>
    (\<forall>i. Suc i < length es \<longrightarrow> ev_FromStatus (es ! Suc i) = ev_ToStatus (es ! i) \<and> log_step (ev_ToStatus (es ! i)) (ev_ToStatus (es ! Suc i))) \<and>
    (\<forall>e \<in> set es. \<exists>i out. go_get (transactionalOutboxEvents r) i = Some out \<and> outbox_of e out)"
proof -
  have inv: "jobs_inv r" using run_inv [OF assms(1) repo_inv_new] by (simp add: repo_inv_def)
  have k: "k \<noteq> []" using job_get [OF inv assms(2)] by (auto simp: job_ok_def)
  have "ev_ToStatus (hd es) = AIJobStatusQueued"
    using history_first [OF inv assms(2)] log_last(1) [OF inv assms(2)] by (simp add: job_history_def hd_map assms(3))
  moreover have "\<exists>i out. go_get (transactionalOutboxEvents r) i = Some out \<and> outbox_of e out" if "e \<in> set es" for e
    using that table_get [OF events_table [OF inv]] by (auto simp: assms(3) list_events_mem [OF inv k] event_ok_def)
  ultimately show ?thesis
    using log_versions [OF inv assms(2)] log_last(2) [OF inv assms(2)] log_linked [OF inv assms(2)] by (simp add: assms(3))
qed

theorem job_log_complete_witness:
  "\<exists>r. (repo_call id)\<^sup>*\<^sup>* NewMemoryRepository r \<and> map ev_Version (ListAIJobEvents ''j'' r) = [1..1]"
proof -
  obtain r where r: "(repo_call id)\<^sup>*\<^sup>* NewMemoryRepository r" "aiJobs r = [(''j'', example_durable_job)]" by (rule example_job_run)
  then show ?thesis using job_log_complete [OF r(1), of "''j''" example_durable_job] by (intro exI [of _ r]) simp
qed

text \<open>
  C15: the jobs implement an append-only history. Reading a repository as the status history of a
  job, every sequence of calls is a run of the specification that starts with the queued status and
  appends one allowed status at a time: no call rewrites or drops what a job went through.
\<close>

theorem job_history_refines:
  assumes "(repo_call hash)\<^sup>*\<^sup>* NewMemoryRepository r" "(repo_call hash)\<^sup>*\<^sup>* r r'" "k \<noteq> []"
  shows "history_step\<^sup>*\<^sup>* (job_history k r) (job_history k r')"
proof -
  have "repo_inv r" using run_inv [OF assms(1) repo_inv_new] by simp
  then show ?thesis using run_inv [OF assms(2)] history_simulates assms(3) by blast
qed

theorem job_history_refines_witness:
  "\<exists>r. history_step\<^sup>*\<^sup>* (job_history ''j'' NewMemoryRepository) (job_history ''j'' r) \<and> job_history ''j'' r \<noteq> []"
proof -
  obtain r where r: "(repo_call id)\<^sup>*\<^sup>* NewMemoryRepository r" "aiJobs r = [(''j'', example_durable_job)]" by (rule example_job_run)
  have "jobs_inv r" using run_inv [OF r(1) repo_inv_new] by (simp add: repo_inv_def)
  then have "job_history ''j'' r \<noteq> []" using log_last(1) [of r "''j''" example_durable_job] r(2) by (simp add: job_history_def)
  then show ?thesis using job_history_refines [OF rtranclp.rtrancl_refl r(1), of "''j''"] by blast
qed



text \<open>
  C16: a claim hands out each job once. The claimed jobs are as many as there are ready jobs, up to
  the limit, all different and all ready before; each is stored as dispatching with the worker, the
  token and the lease of the claim, a version and a fence token one higher, and is not ready again
  before the lease ends; every other job is as it was.
\<close>

theorem claim_exact:
  assumes "(repo_call hash)\<^sup>*\<^sup>* NewMemoryRepository r" "ClaimQueuedAIJobs hash now u worker tok limit r = (r', Inr claimed)"
    and "0 < limit" "TrimSpace worker \<noteq> []" "TrimSpace tok \<noteq> []" "now < u"
  shows "length claimed = min (nat limit) (length (filter (\<lambda>j. aiJobReadyForClaim j now) (go_values (aiJobs r)))) \<and>
    distinct (map job_ID claimed) \<and>
    (\<forall>c \<in> set claimed. \<exists>j. go_get (aiJobs r) (job_ID c) = Some j \<and> aiJobReadyForClaim j now \<and> claim_of u worker tok j c \<and>
       go_get (aiJobs r') (job_ID c) = Some c \<and> (\<forall>t < u. \<not> aiJobReadyForClaim c t)) \<and>
    (\<forall>k. k \<notin> job_ID ` set claimed \<longrightarrow> go_get (aiJobs r') k = go_get (aiJobs r) k)"
proof -
  have inv: "jobs_inv r" using run_inv [OF assms(1) repo_inv_new] by (simp add: repo_inv_def)
  note claims = ranked_claims [OF inv, of "\<lambda>j. aiJobReadyForClaim j now" now hash "go_values (aiJobs r)" "dispatch_activities r" limit u worker tok r' claimed]
  have "claimAIJobCandidatesLocked hash (rankAIJobFairCandidates (filter (\<lambda>j. aiJobReadyForClaim j now) (go_values (aiJobs r))) (go_values (aiJobs r))
      (dispatch_activities r) now limit) now u worker tok limit [] r = (r', Inr claimed)"
    using assms(2-6) by (simp add: ClaimQueuedAIJobs_def)
  then have "length claimed = min (nat limit) (length (filter (\<lambda>j. aiJobReadyForClaim j now) (go_values (aiJobs r))))"
    "claimed_in now u worker tok r r' claimed" using claims by blast+
  then show ?thesis using claimed_ready unfolding claimed_in_def by blast
qed

theorem claim_exact_witness:
  "\<exists>r r' c. ClaimQueuedAIJobs id 5 9 ''a'' ''b'' 1 r = (r', Inr [c]) \<and> claim_of 9 ''a'' ''b'' example_durable_job c \<and>
     go_get (aiJobs r') (job_ID c) = Some c"
proof -
  obtain r r' c where r: "(repo_call id)\<^sup>*\<^sup>* NewMemoryRepository r" "ClaimQueuedAIJobs id 5 9 ''a'' ''b'' 1 r = (r', Inr [c])"
    "aiJobs r = [(''j'', example_durable_job)]" by (rule example_claim [of "''b''"]) (simp_all add: example_TrimSpace)
  have "\<exists>j. go_get (aiJobs r) (job_ID c) = Some j \<and> claim_of 9 ''a'' ''b'' j c \<and> go_get (aiJobs r') (job_ID c) = Some c"
    using claim_exact [OF r(1,2)] by (auto simp: example_TrimSpace)
  then have "claim_of 9 ''a'' ''b'' example_durable_job c" "go_get (aiJobs r') (job_ID c) = Some c" using r(3) by (auto split: if_splits)
  with r(2) show ?thesis by (intro exI conjI)
qed

text \<open>
  C27: cancelling a queued job gives its reservation back. When a job that waits in the queue is
  cancelled, by its owner or by an administrator, in the same step it becomes canceled with the next
  version, its operation is finished, and its open hold is released, so that it no longer counts
  against the budget.
\<close>

theorem cancel_releases_reservation:
  assumes "(repo_call hash)\<^sup>*\<^sup>* NewMemoryRepository r" "go_get (aiJobs r) k = Some j" "job_Status j = AIJobStatusQueued"
    and "RequestAIJobCancellation hash k owner at r = (r', Inr (Some (u, True))) \<or>
      TrimSpace k = k \<and> RequestAIJobAdminCancellation hash k at log r = (r', Inr (Some (u, True)))"
  shows "go_get (aiJobs r') k = Some u \<and> job_Status u = AIJobStatusCanceled \<and> job_StatusVersion u = job_StatusVersion j + 1 \<and>
    (\<exists>operation. go_get (aiOperations r') (job_OperationID j) = Some operation \<and>
       op_Status operation \<noteq> AIOperationStatusAccepted \<and> op_Status operation \<noteq> AIOperationStatusRunning) \<and>
    (\<forall>h. memoryBillingHoldForOperation (billingHolds r) (job_OperationID j) = Some h \<and>
       hold_Status h \<in> {BillingHoldStatusReserved, BillingHoldStatusDisputed} \<longrightarrow>
       (\<exists>h'. memoryBillingHoldForOperation (billingHolds r') (job_OperationID j) = Some h' \<and> hold_ID h' = hold_ID h \<and>
          hold_Status h' = BillingHoldStatusReleased \<and> \<not> billingHoldCountsAgainstBudget (hold_Status h')))"
proof -
  have inv: "repo_inv r" using run_inv [OF assms(1) repo_inv_new] by simp
  have key: "job_ID j = k" using job_get [OF repo_invD(4) [OF inv] assms(2)] by simp
  have "\<exists>reason logged. cancel_job hash k j reason at logged r = (r', Inr (u, True))"
  proof -
    have some: "t = (r', Inr (u, True))" if "map_prod id (map_sum id Some) t = (r', Inr (Some (u, True)))" for t :: "(AIJob \<times> bool) repo_result"
      using that by (cases t; cases "snd t") auto
    from assms(4) have "cancel_job hash k j ''client_requested'' at None r = (r', Inr (u, True)) \<or>
        cancel_job hash k j ''admin_requested'' at (Some log) r = (r', Inr (u, True))"
      by (auto simp: RequestAIJobCancellation_def RequestAIJobAdminCancellation_def assms(2) key split: if_splits dest!: some)
    then show ?thesis by (elim disjE) (intro exI, assumption)+
  qed
  then obtain reason logged where c: "cancel_job hash k j reason at logged r = (r', Inr (u, True))" by blast
  have "\<not> billingHoldCountsAgainstBudget BillingHoldStatusReleased" by (simp add: billingHoldCountsAgainstBudget_def)
  then show ?thesis using cancel_effect [OF inv assms(2,3) c] by fastforce
qed

theorem cancel_releases_reservation_witness:
  "\<exists>r r' u h'. RequestAIJobAdminCancellation id ''j'' 6 example_audit r = (r', Inr (Some (u, True))) \<and> job_Status u = AIJobStatusCanceled \<and>
     memoryBillingHoldForOperation (billingHolds r') ''a'' = Some h' \<and> hold_Status h' = BillingHoldStatusReleased"
proof -
  obtain r r' u where r: "(repo_call id)\<^sup>*\<^sup>* NewMemoryRepository r" "aiJobs r = [(''j'', example_durable_job)]"
    "billingHolds r = [(''a'', example_hold ''a'' 1)]" "RequestAIJobAdminCancellation id ''j'' 6 example_audit r = (r', Inr (Some (u, True)))"
    by (rule example_cancel)
  have job: "go_get (aiJobs r) ''j'' = Some example_durable_job" and trim: "TrimSpace ''j'' = ''j''" using r(2) by simp code_simp
  have "job_Status u = AIJobStatusCanceled \<and> (\<exists>h'. memoryBillingHoldForOperation (billingHolds r') ''a'' = Some h' \<and> hold_Status h' = BillingHoldStatusReleased)"
    using cancel_releases_reservation [OF r(1) job _ disjI2 [OF conjI [OF trim r(4)]]] r(3)
    by (auto simp: memoryBillingHoldForOperation_def)
  then obtain h' where "job_Status u = AIJobStatusCanceled" "memoryBillingHoldForOperation (billingHolds r') ''a'' = Some h'"
    "hold_Status h' = BillingHoldStatusReleased" by blast
  with r(4) show ?thesis by (intro exI conjI)
qed

end
