(* ===== verification/Attempt_Dispatch.thy ===== *)
theory Attempt_Dispatch
  imports Repository_Calls
begin

text \<open>
  Dispatch of an attempt to a provider: the attempt part of
  \<^verbatim>\<open>backend/internal/controlplane/operation_service.go\<close> and \<^verbatim>\<open>provider_dispatch.go\<close>.

  Each function of the service reads the attempt, decides, and writes it back with the version it
  read; other callers may run between the two. The definitions below are the functions run without
  interruption, \<open>dispatch_step\<close> has all interleavings of their reads and writes. A function that
  returns an attempt beside an error returns both here; a zero attempt is \<open>None\<close>, joined errors are
  a list. Readings of the clock are the arguments \<open>now\<close>, \<open>t1\<close>, \<open>t2\<close>.
\<close>

section \<open>Data\<close>

datatype dispatch_error =
    DispatchRepo repo_error
  | ErrAIAttemptNotFound
  | ErrAIAttemptDispatchState
  | ErrAIAttemptRequiresReconciliation
  | DispatchOperationNotFound string
  | DispatchTaskRequired
  | DispatchAcceptedWithoutTask
  | DispatchInvalidOutcome string
  | DispatchIntentUndecodable
  | DispatchAttemptNumberRequired
  | DispatchInvalidTerminalStatus
  | DispatchAttemptNotRunning
  | DispatchProvider string

abbreviation DispatchConflict :: dispatch_error where
  "DispatchConflict \<equiv> DispatchRepo ErrAIAttemptDispatchConflict"

type_synonym dispatch_reply = "MemoryRepository \<times> AIAttempt option \<times> bool \<times> dispatch_error list"

text \<open>The fields of \<^verbatim>\<open>GatewayProvider\<close> that an attempt keeps.\<close>

record GatewayProvider =
  gp_ID :: string
  gp_AccountID :: string
  gp_AdapterID :: string
  gp_RouteID :: string
  gp_UpstreamModel :: string

record ProviderDispatchCommand =
  dc_Intent :: ProviderDispatchIntent
  dc_Payload :: string

record ProviderProgressObservation =
  po_Sequence :: int
  po_Percent :: "int option"
  po_Stage :: string

record ProviderOutputDescriptor =
  od_OutputID :: string
  od_Role :: string
  od_MediaType :: string
  od_ExpectedSizeBytes :: int
  od_ExpectedSHA256 :: string
  od_ProviderReference :: string
  od_PersistentReference :: bool

record ProviderBillingObservation =
  pb_Status :: string
  pb_ProcurementCostMicros :: "int option"
  pb_Currency :: string
  pb_Source :: string
  pb_Confidence :: string
  pb_PriceID :: string
  pb_ProviderBillingLineID :: string

record ProviderDispatchResult =
  dr_Outcome :: string
  dr_Task :: ProviderTaskReference
  dr_Progress :: "ProviderProgressObservation option"
  dr_Outputs :: "ProviderOutputDescriptor list"
  dr_UsageDimensions :: UsageDimensions
  dr_Billing :: ProviderBillingObservation
  dr_ReconcileAfter :: gotime

definition ProviderDispatchOutcomeAccepted :: string where "ProviderDispatchOutcomeAccepted = ''accepted''"
definition ProviderDispatchOutcomeUnknown :: string where "ProviderDispatchOutcomeUnknown = ''unknown''"
definition ProviderDispatchOutcomeProvenNotCreated :: string where
  "ProviderDispatchOutcomeProvenNotCreated = ''proven_not_created''"

lemma dispatchOutcome_distinct [simp]:
  "ProviderDispatchOutcomeAccepted \<noteq> ProviderDispatchOutcomeUnknown"
  "ProviderDispatchOutcomeAccepted \<noteq> ProviderDispatchOutcomeProvenNotCreated"
  "ProviderDispatchOutcomeUnknown \<noteq> ProviderDispatchOutcomeProvenNotCreated"
  "ProviderDispatchOutcomeProvenNotCreated \<noteq> ProviderDispatchOutcomeAccepted"
  "ProviderDispatchOutcomeUnknown \<noteq> ProviderDispatchOutcomeAccepted"
  "ProviderDispatchOutcomeProvenNotCreated \<noteq> ProviderDispatchOutcomeUnknown"
  "ProviderDispatchOutcomeAccepted \<noteq> []" "ProviderDispatchOutcomeProvenNotCreated \<noteq> []"
  by (simp_all add: ProviderDispatchOutcomeAccepted_def ProviderDispatchOutcomeUnknown_def ProviderDispatchOutcomeProvenNotCreated_def)

abbreviation (input) providerDispatchDefaultReconcileDelay :: int where
  "providerDispatchDefaultReconcileDelay \<equiv> time_Minute"

definition isDurableProviderTerminalStatus :: "string \<Rightarrow> bool" where
  "isDurableProviderTerminalStatus status =
     oneOf status [''succeeded'', ''completed'', ''failed'', ''error'', ''canceled'', ''cancelled'']"

definition canonicalProviderTaskStatus :: "string \<Rightarrow> string" where
  "canonicalProviderTaskStatus status =
     (let s = ToLower (TrimSpace status) in
      if s = ''completed'' then ''succeeded'' else if s = ''error'' then ''failed''
      else if s = ''cancelled'' then ''canceled'' else s)"

definition providerTaskStatusRank :: "string \<Rightarrow> int" where
  "providerTaskStatusRank status =
     (let s = canonicalProviderTaskStatus status in
      if s = ''succeeded'' \<or> s = ''failed'' \<or> s = ''canceled'' then 4
      else if s = ''processing'' then 3 else if s = ''running'' then 2
      else if s = ''queued'' \<or> s = ''accepted'' then 1 else 0)"

definition providerTaskStatusStale :: "string \<Rightarrow> string \<Rightarrow> bool" where
  "providerTaskStatusStale current0 next0 =
     (let current = canonicalProviderTaskStatus current0; next = canonicalProviderTaskStatus next0 in
      if current = [] \<or> next = [] \<or> current = next then False
      else if current = ''unknown'' then False
      else if next = ''unknown'' then True
      else if providerTaskStatusRank current = 4 then True
      else providerTaskStatusRank next < providerTaskStatusRank current)"

section \<open>Attempts\<close>

definition sameAIAttemptProvider :: "AIAttempt \<Rightarrow> AIAttempt \<Rightarrow> bool" where
  "sameAIAttemptProvider left right \<longleftrightarrow>
     at_OperationID left = at_OperationID right \<and> at_AttemptNumber left = at_AttemptNumber right \<and>
     at_ProviderID left = at_ProviderID right \<and> at_ProviderAccountID left = at_ProviderAccountID right \<and>
     at_RouteID left = at_RouteID right \<and> at_UpstreamModel left = at_UpstreamModel right"

definition new_attempt :: "string \<Rightarrow> gotime \<Rightarrow> string \<Rightarrow> int \<Rightarrow> GatewayProvider \<Rightarrow> AIAttempt" where
  "new_attempt randomID now operationID attemptNumber provider =
     (let attemptID = ''attempt_'' @ randomID in
      \<lparr>at_ID = attemptID, at_OperationID = TrimSpace operationID, at_AttemptNumber = attemptNumber,
       at_ProviderID = gp_ID provider, at_ProviderAccountID = gp_AccountID provider, at_ProviderAdapterID = gp_AdapterID provider,
       at_RouteID = gp_RouteID provider, at_UpstreamModel = gp_UpstreamModel provider, at_Status = AIAttemptStatusRunning,
       at_ErrorType = [], at_DispatchState = AIAttemptDispatchPending, at_DispatchVersion = 0, at_DispatchKey = attemptID,
       at_DispatchIntentJSON = None, at_DispatchSubmittedAt = None, at_ProviderTaskID = [], at_ProviderRequestID = [],
       at_ProviderTaskStatus = [], at_ProviderAcceptedAt = None, at_LastReconciledAt = None, at_ReconcileAfter = None,
       at_CreatedAt = now, at_UpdatedAt = now, at_CompletedAt = None\<rparr>)"

definition BeginAIAttempt ::
  "string \<Rightarrow> gotime \<Rightarrow> string \<Rightarrow> int \<Rightarrow> GatewayProvider \<Rightarrow> MemoryRepository \<Rightarrow> MemoryRepository \<times> (dispatch_error + AIAttempt)" where
  "BeginAIAttempt randomID now operationID attemptNumber provider r =
     (if TrimSpace operationID = [] \<or> attemptNumber \<le> 0 then (r, Inl DispatchAttemptNumberRequired)
      else (let attempt = new_attempt randomID now operationID attemptNumber provider in
            case CreateOrGetAIAttempt attempt r of
              (r', Inl e) \<Rightarrow> (r', Inl (DispatchRepo e))
            | (r', Inr (stored, created)) \<Rightarrow>
                if \<not> created \<and> \<not> sameAIAttemptProvider stored attempt then (r', Inl DispatchConflict)
                else (r', Inr stored)))"

definition updateAIAttemptDispatch :: "AIAttempt \<Rightarrow> int \<Rightarrow> MemoryRepository \<Rightarrow> dispatch_reply" where
  "updateAIAttemptDispatch requested expectedVersion r =
     (case UpdateAIAttemptDispatch requested expectedVersion r of
        (r', Inl e) \<Rightarrow> (r', None, False, [DispatchRepo e])
      | (r', Inr (updated, changed)) \<Rightarrow>
          if \<not> changed then (r', updated, False, [ErrAIAttemptDispatchState]) else (r', updated, True, []))"

definition Service_CompleteAIAttempt ::
  "gotime \<Rightarrow> string \<Rightarrow> string \<Rightarrow> string \<Rightarrow> MemoryRepository \<Rightarrow> MemoryRepository \<times> dispatch_error option" where
  "Service_CompleteAIAttempt now attemptID status errorType r =
     (if \<not> oneOf status [AIAttemptStatusSucceeded, AIAttemptStatusFailed, AIAttemptStatusSkipped, AIAttemptStatusCanceled]
      then (r, Some DispatchInvalidTerminalStatus)
      else (case CompleteAIAttempt (TrimSpace attemptID) status (TrimSpace errorType) now r of
              (r', updated) \<Rightarrow> (r', if \<not> updated then Some DispatchAttemptNotRunning else None)))"

section \<open>What the service asks the repository to store\<close>

definition dispatch_intent :: "AIAttempt \<Rightarrow> AIOperation \<Rightarrow> ProviderDispatchIntent" where
  "dispatch_intent attempt operation =
     \<lparr>in_Version = 1, in_AttemptID = at_ID attempt, in_OperationID = at_OperationID attempt, in_DispatchKey = at_DispatchKey attempt,
      in_RequestFingerprint = op_RequestFingerprint operation, in_ProviderID = at_ProviderID attempt,
      in_ProviderAccountID = at_ProviderAccountID attempt, in_ProviderAdapterID = at_ProviderAdapterID attempt,
      in_RouteID = at_RouteID attempt, in_UpstreamModel = at_UpstreamModel attempt\<rparr>"

definition reset_request :: "gotime \<Rightarrow> AIAttempt \<Rightarrow> AIAttempt" where
  "reset_request now attempt =
     attempt\<lparr>at_DispatchState := AIAttemptDispatchPending, at_DispatchIntentJSON := None, at_DispatchSubmittedAt := None,
       at_ProviderRequestID := [], at_ProviderTaskStatus := [], at_ProviderAcceptedAt := None, at_LastReconciledAt := None,
       at_ReconcileAfter := None, at_UpdatedAt := now\<rparr>"

definition prepare_request :: "gotime \<Rightarrow> ProviderDispatchIntent \<Rightarrow> AIAttempt \<Rightarrow> AIAttempt" where
  "prepare_request now intent attempt =
     attempt\<lparr>at_DispatchState := AIAttemptDispatchPrepared, at_DispatchIntentJSON := Some intent, at_UpdatedAt := now\<rparr>"

definition or_now :: "gotime \<Rightarrow> gotime \<Rightarrow> gotime" where
  "or_now now t = (if t = 0 then now else t)"

definition submit_request :: "gotime \<Rightarrow> gotime \<Rightarrow> AIAttempt \<Rightarrow> AIAttempt" where
  "submit_request now reconcileAfter attempt =
     attempt\<lparr>at_DispatchState := AIAttemptDispatchSubmitted, at_DispatchSubmittedAt := Some now,
       at_ReconcileAfter := Some (or_now now reconcileAfter), at_UpdatedAt := now\<rparr>"

definition bind_request :: "gotime \<Rightarrow> ProviderTaskReference \<Rightarrow> gotime \<Rightarrow> AIAttempt \<Rightarrow> AIAttempt" where
  "bind_request now reference reconcileAfter attempt =
     attempt\<lparr>at_DispatchState := AIAttemptDispatchAccepted, at_ProviderTaskID := tk_ProviderTaskID reference,
       at_ProviderRequestID := tk_ProviderRequestID reference,
       at_ProviderTaskStatus := (if tk_Status reference = [] then ''accepted'' else tk_Status reference),
       at_ProviderAcceptedAt := Some (or_now now (tk_AcceptedAt reference)), at_LastReconciledAt := Some now,
       at_ReconcileAfter := Some (or_now now reconcileAfter), at_UpdatedAt := now\<rparr>"

definition unknown_request :: "gotime \<Rightarrow> gotime \<Rightarrow> AIAttempt \<Rightarrow> AIAttempt" where
  "unknown_request now reconcileAfter attempt =
     attempt\<lparr>at_DispatchState := AIAttemptDispatchUnknown, at_ProviderTaskStatus := ''unknown'', at_LastReconciledAt := Some now,
       at_ReconcileAfter := Some (or_now now reconcileAfter), at_UpdatedAt := now\<rparr>"

definition record_request :: "gotime \<Rightarrow> string \<Rightarrow> gotime \<Rightarrow> AIAttempt \<Rightarrow> AIAttempt" where
  "record_request now providerStatus reconcileAfter attempt =
     attempt\<lparr>at_ProviderTaskStatus := TrimSpace providerStatus, at_LastReconciledAt := Some now,
       at_ReconcileAfter := Some (or_now now reconcileAfter), at_UpdatedAt := now\<rparr>"

definition prove_request :: "gotime \<Rightarrow> AIAttempt \<Rightarrow> AIAttempt" where
  "prove_request now attempt =
     attempt\<lparr>at_DispatchState := AIAttemptDispatchProvenNotCreated, at_ProviderTaskStatus := AIAttemptDispatchProvenNotCreated,
       at_LastReconciledAt := Some now, at_ReconcileAfter := None, at_UpdatedAt := now\<rparr>"

lemmas request_defs = reset_request_def prepare_request_def submit_request_def bind_request_def unknown_request_def
  record_request_def prove_request_def

section \<open>The functions of the service\<close>

definition prepare_pending :: "gotime \<Rightarrow> ProviderDispatchIntent \<Rightarrow> AIAttempt \<Rightarrow> MemoryRepository \<Rightarrow> dispatch_reply" where
  "prepare_pending now intent attempt r =
     (if at_DispatchState attempt \<noteq> AIAttemptDispatchPending \<or> at_DispatchIntentJSON attempt \<noteq> None
      then (if at_DispatchIntentJSON attempt = Some intent \<and> at_DispatchKey attempt = in_DispatchKey intent
            then (r, Some attempt, False, []) else (r, None, False, [DispatchConflict]))
      else if at_Status attempt \<noteq> AIAttemptStatusRunning then (r, None, False, [ErrAIAttemptDispatchState])
      else (case UpdateAIAttemptDispatch (prepare_request now intent attempt) (at_DispatchVersion attempt) r of
              (r', Inl e) \<Rightarrow> (r', None, False, [DispatchRepo e])
            | (r', Inr (updated, changed)) \<Rightarrow>
                if changed then (r', updated, True, [])
                else (case updated of
                        Some u \<Rightarrow>
                          if at_DispatchIntentJSON u = Some intent \<and> at_DispatchKey u = in_DispatchKey intent \<and>
                             at_DispatchState u \<noteq> AIAttemptDispatchPending
                          then (r', updated, False, []) else (r', updated, False, [ErrAIAttemptDispatchState])
                      | None \<Rightarrow> (r', updated, False, [ErrAIAttemptDispatchState]))))"

definition PrepareAIAttemptDispatch :: "gotime \<Rightarrow> gotime \<Rightarrow> string \<Rightarrow> MemoryRepository \<Rightarrow> dispatch_reply" where
  "PrepareAIAttemptDispatch t1 t2 attemptID r =
     (case FindAIAttempt (TrimSpace attemptID) r of
        None \<Rightarrow> (r, None, False, [ErrAIAttemptNotFound])
      | Some attempt \<Rightarrow>
          (case FindAIOperation (at_OperationID attempt) r of
             None \<Rightarrow> (r, None, False, [DispatchOperationNotFound (at_OperationID attempt)])
           | Some operation \<Rightarrow>
               (let intent = dispatch_intent attempt operation in
                if at_DispatchState attempt = AIAttemptDispatchUnknown
                then (if at_ProviderTaskID attempt \<noteq> [] then (r, None, False, [DispatchConflict])
                      else (case UpdateAIAttemptDispatch (reset_request t1 attempt) (at_DispatchVersion attempt) r of
                              (r', Inl e) \<Rightarrow> (r', None, False, [DispatchRepo e])
                            | (r', Inr (Some updated, True)) \<Rightarrow> prepare_pending t2 intent updated r'
                            | (r', Inr (updated, _)) \<Rightarrow> (r', updated, False, [ErrAIAttemptDispatchState])))
                else prepare_pending t2 intent attempt r)))"

definition MarkAIAttemptDispatchSubmitted :: "gotime \<Rightarrow> string \<Rightarrow> int \<Rightarrow> gotime \<Rightarrow> MemoryRepository \<Rightarrow> dispatch_reply" where
  "MarkAIAttemptDispatchSubmitted now attemptID expectedVersion reconcileAfter r =
     (case FindAIAttempt (TrimSpace attemptID) r of
        None \<Rightarrow> (r, None, False, [ErrAIAttemptNotFound])
      | Some attempt \<Rightarrow>
          if oneOf (at_DispatchState attempt) [AIAttemptDispatchSubmitted, AIAttemptDispatchAccepted, AIAttemptDispatchUnknown] \<and>
             at_DispatchSubmittedAt attempt \<noteq> None
          then (r, Some attempt, False, [])
          else if at_DispatchState attempt \<noteq> AIAttemptDispatchPrepared \<or> at_DispatchVersion attempt \<noteq> expectedVersion
          then (r, Some attempt, False, [ErrAIAttemptDispatchState])
          else updateAIAttemptDispatch (submit_request now reconcileAfter attempt) expectedVersion r)"

definition trimmed_reference :: "ProviderTaskReference \<Rightarrow> ProviderTaskReference" where
  "trimmed_reference reference =
     reference\<lparr>tk_ProviderTaskID := TrimSpace (tk_ProviderTaskID reference),
       tk_ProviderRequestID := TrimSpace (tk_ProviderRequestID reference), tk_Status := TrimSpace (tk_Status reference)\<rparr>"

definition BindAIAttemptProviderTask ::
  "gotime \<Rightarrow> string \<Rightarrow> int \<Rightarrow> ProviderTaskReference \<Rightarrow> gotime \<Rightarrow> MemoryRepository \<Rightarrow> dispatch_reply" where
  "BindAIAttemptProviderTask now attemptID expectedVersion reference0 reconcileAfter r =
     (let reference = trimmed_reference reference0 in
      if tk_ProviderTaskID reference = [] then (r, None, False, [DispatchTaskRequired])
      else
        (case FindAIAttempt (TrimSpace attemptID) r of
           None \<Rightarrow> (r, None, False, [ErrAIAttemptNotFound])
         | Some attempt \<Rightarrow>
             if at_ProviderTaskID attempt \<noteq> [] \<and> (at_ProviderTaskID attempt \<noteq> tk_ProviderTaskID reference \<or>
                at_ProviderRequestID attempt \<noteq> tk_ProviderRequestID reference)
             then (r, Some attempt, False, [DispatchConflict])
             else if at_ProviderTaskID attempt \<noteq> [] \<and> (providerTaskStatusStale (at_ProviderTaskStatus attempt) (tk_Status reference) \<or>
                at_DispatchState attempt \<noteq> AIAttemptDispatchUnknown)
             then (r, Some attempt, False, [])
             else if \<not> oneOf (at_DispatchState attempt) [AIAttemptDispatchSubmitted, AIAttemptDispatchUnknown] \<or>
                at_DispatchVersion attempt \<noteq> expectedVersion
             then (r, Some attempt, False, [ErrAIAttemptDispatchState])
             else updateAIAttemptDispatch (bind_request now reference reconcileAfter attempt) expectedVersion r))"

definition MarkAIAttemptDispatchUnknown :: "gotime \<Rightarrow> string \<Rightarrow> int \<Rightarrow> gotime \<Rightarrow> MemoryRepository \<Rightarrow> dispatch_reply" where
  "MarkAIAttemptDispatchUnknown now attemptID expectedVersion reconcileAfter r =
     (case FindAIAttempt (TrimSpace attemptID) r of
        None \<Rightarrow> (r, None, False, [ErrAIAttemptNotFound])
      | Some attempt \<Rightarrow>
          if at_DispatchState attempt = AIAttemptDispatchUnknown then (r, Some attempt, False, [])
          else if \<not> oneOf (at_DispatchState attempt) [AIAttemptDispatchSubmitted, AIAttemptDispatchAccepted] \<or>
             at_DispatchVersion attempt \<noteq> expectedVersion
          then (r, Some attempt, False, [ErrAIAttemptDispatchState])
          else updateAIAttemptDispatch (unknown_request now reconcileAfter attempt) expectedVersion r)"

definition RecordAIAttemptReconciliation ::
  "gotime \<Rightarrow> string \<Rightarrow> int \<Rightarrow> string \<Rightarrow> gotime \<Rightarrow> MemoryRepository \<Rightarrow> dispatch_reply" where
  "RecordAIAttemptReconciliation now attemptID expectedVersion providerStatus reconcileAfter r =
     (case FindAIAttempt (TrimSpace attemptID) r of
        None \<Rightarrow> (r, None, False, [ErrAIAttemptNotFound])
      | Some attempt \<Rightarrow>
          if \<not> oneOf (at_DispatchState attempt) [AIAttemptDispatchSubmitted, AIAttemptDispatchAccepted, AIAttemptDispatchUnknown] \<or>
             at_DispatchVersion attempt \<noteq> expectedVersion
          then (r, Some attempt, False, [ErrAIAttemptDispatchState])
          else if providerTaskStatusStale (at_ProviderTaskStatus attempt) providerStatus then (r, Some attempt, False, [])
          else updateAIAttemptDispatch (record_request now providerStatus reconcileAfter attempt) expectedVersion r)"

definition prove_complete :: "gotime \<Rightarrow> AIAttempt \<Rightarrow> bool \<Rightarrow> MemoryRepository \<Rightarrow> dispatch_reply" where
  "prove_complete now attempt changed r =
     (if at_Status attempt = AIAttemptStatusRunning
      then (case Service_CompleteAIAttempt now (at_ID attempt) AIAttemptStatusSkipped AIAttemptDispatchProvenNotCreated r of
              (r', Some e) \<Rightarrow> (r', Some attempt, changed, [e])
            | (r', None) \<Rightarrow> (r', FindAIAttempt (at_ID attempt) r', changed, []))
      else (r, Some attempt, changed, []))"

definition ProveAIAttemptNotCreated :: "gotime \<Rightarrow> gotime \<Rightarrow> string \<Rightarrow> int \<Rightarrow> MemoryRepository \<Rightarrow> dispatch_reply" where
  "ProveAIAttemptNotCreated t1 t2 attemptID expectedVersion r =
     (case FindAIAttempt (TrimSpace attemptID) r of
        None \<Rightarrow> (r, None, False, [ErrAIAttemptNotFound])
      | Some attempt \<Rightarrow>
          if at_ProviderTaskID attempt \<noteq> [] then (r, Some attempt, False, [DispatchConflict])
          else if at_DispatchState attempt \<noteq> AIAttemptDispatchProvenNotCreated
          then (if \<not> oneOf (at_DispatchState attempt) [AIAttemptDispatchPrepared, AIAttemptDispatchSubmitted, AIAttemptDispatchUnknown] \<or>
                   at_DispatchVersion attempt \<noteq> expectedVersion
                then (r, Some attempt, False, [ErrAIAttemptDispatchState])
                else (case updateAIAttemptDispatch (prove_request t1 attempt) expectedVersion r of
                        (r', Some updated, changed, []) \<Rightarrow> prove_complete t2 updated changed r'
                      | (r', updated, changed, es) \<Rightarrow> (r', updated, False, es)))
          else prove_complete t2 attempt False r)"

section \<open>Calling the provider\<close>

definition providerDispatchIntentFromAttempt :: "AIAttempt \<Rightarrow> dispatch_error + ProviderDispatchIntent" where
  "providerDispatchIntentFromAttempt attempt =
     (case at_DispatchIntentJSON attempt of
        None \<Rightarrow> Inl DispatchIntentUndecodable
      | Some intent \<Rightarrow>
          if in_Version intent \<noteq> 1 \<or> in_AttemptID intent \<noteq> at_ID attempt \<or> in_OperationID intent \<noteq> at_OperationID attempt \<or>
             in_DispatchKey intent \<noteq> at_DispatchKey attempt \<or> in_ProviderID intent \<noteq> at_ProviderID attempt \<or>
             in_ProviderAccountID intent \<noteq> at_ProviderAccountID attempt \<or> in_RouteID intent \<noteq> at_RouteID attempt \<or>
             in_UpstreamModel intent \<noteq> at_UpstreamModel attempt \<or> in_RequestFingerprint intent = []
          then Inl DispatchConflict
          else if in_ProviderAdapterID intent \<noteq> at_ProviderAdapterID attempt then Inl DispatchConflict
          else Inr intent)"

definition reconcile_time :: "gotime \<Rightarrow> ProviderDispatchResult \<Rightarrow> gotime" where
  "reconcile_time now result =
     (let next = (if dr_Outcome result = ProviderDispatchOutcomeAccepted \<and>
                     isDurableProviderTerminalStatus (ToLower (TrimSpace (tk_Status (dr_Task result))))
                  then now else dr_ReconcileAfter result)
      in if next = 0 then now + providerDispatchDefaultReconcileDelay else next)"

definition resolveProviderDispatchResult ::
  "gotime \<Rightarrow> gotime \<Rightarrow> AIAttempt \<Rightarrow> ProviderDispatchResult \<Rightarrow> MemoryRepository \<Rightarrow>
   MemoryRepository \<times> AIAttempt option \<times> dispatch_error list" where
  "resolveProviderDispatchResult t1 t2 attempt result r =
     (let next = reconcile_time t1 result; k = at_ID attempt; v = at_DispatchVersion attempt;
          mark = (\<lambda>es. case MarkAIAttemptDispatchUnknown t2 k v next r of
                    (r', updated, _, es') \<Rightarrow> (r', updated, ErrAIAttemptRequiresReconciliation # es @ es'))
      in if dr_Outcome result = ProviderDispatchOutcomeAccepted
      then (if tk_ProviderTaskID (dr_Task result) = [] then mark [DispatchAcceptedWithoutTask]
            else (case BindAIAttemptProviderTask t2 k v (dr_Task result) next r of
                    (r', Some updated, False, []) \<Rightarrow>
                      (case RecordAIAttemptReconciliation t2 k (at_DispatchVersion updated) (tk_Status (dr_Task result)) next r' of
                         (r'', u, _, es) \<Rightarrow> (r'', u, es))
                  | (r', updated, _, es) \<Rightarrow> (r', updated, es)))
      else if dr_Outcome result = ProviderDispatchOutcomeProvenNotCreated
      then (case ProveAIAttemptNotCreated t1 t2 k v r of (r', updated, _, es) \<Rightarrow> (r', updated, es))
      else if dr_Outcome result = ProviderDispatchOutcomeUnknown \<or> dr_Outcome result = []
      then (if at_DispatchState attempt = AIAttemptDispatchUnknown
            then (case RecordAIAttemptReconciliation t2 k v ''unknown'' next r of
                    (r', updated, _, es) \<Rightarrow> (r', updated, ErrAIAttemptRequiresReconciliation # es))
            else mark [])
      else mark [DispatchInvalidOutcome (dr_Outcome result)])"

text \<open>
  \<^verbatim>\<open>ExecuteAIAttemptDispatch\<close> up to the provider call, and the whole function. The provider adapter is
  the parameter \<open>exec\<close>.
\<close>

definition execute_begin ::
  "gotime \<Rightarrow> gotime \<Rightarrow> gotime \<Rightarrow> string \<Rightarrow> MemoryRepository \<Rightarrow>
   MemoryRepository \<times> (AIAttempt option \<times> dispatch_error list + AIAttempt \<times> ProviderDispatchIntent)" where
  "execute_begin t1 t2 t3 attemptID r =
     (case PrepareAIAttemptDispatch t1 t2 attemptID r of
        (r1, Some prepared, _, []) \<Rightarrow>
          (case providerDispatchIntentFromAttempt prepared of
             Inl e \<Rightarrow> (r1, Inl (Some prepared, [e]))
           | Inr intent \<Rightarrow>
               (case MarkAIAttemptDispatchSubmitted t3 (at_ID prepared) (at_DispatchVersion prepared)
                       (t3 + providerDispatchDefaultReconcileDelay) r1 of
                  (r2, Some submitted, True, []) \<Rightarrow> (r2, Inr (submitted, intent))
                | (r2, submitted, _, []) \<Rightarrow> (r2, Inl (submitted, [ErrAIAttemptRequiresReconciliation]))
                | (r2, submitted, _, es) \<Rightarrow> (r2, Inl (submitted, es))))
      | (r1, _, _, es) \<Rightarrow> (r1, Inl (None, es)))"

type_synonym provider_answer = "ProviderDispatchResult \<times> dispatch_error option"

definition joined :: "dispatch_error option \<Rightarrow> dispatch_error list \<Rightarrow> dispatch_error list" where
  "joined err es = (case err of Some e \<Rightarrow> ErrAIAttemptRequiresReconciliation # e # es | None \<Rightarrow> es)"

definition ExecuteAIAttemptDispatch ::
  "gotime \<Rightarrow> gotime \<Rightarrow> gotime \<Rightarrow> string \<Rightarrow> string \<Rightarrow> (ProviderDispatchCommand \<Rightarrow> provider_answer) \<Rightarrow> MemoryRepository \<Rightarrow>
   MemoryRepository \<times> AIAttempt option \<times> ProviderDispatchResult option \<times> dispatch_error list" where
  "ExecuteAIAttemptDispatch t1 t2 t3 attemptID payload exec r =
     (case execute_begin t1 t2 t3 attemptID r of
        (r1, Inl (attempt, es)) \<Rightarrow> (r1, attempt, None, es)
      | (r1, Inr (submitted, intent)) \<Rightarrow>
          (case exec \<lparr>dc_Intent = intent, dc_Payload = payload\<rparr> of
             (result, err) \<Rightarrow>
               (case resolveProviderDispatchResult t3 t3 submitted result r1 of
                  (r2, updated, es) \<Rightarrow> (r2, updated, Some result, joined err es))))"

definition task_reference :: "AIAttempt \<Rightarrow> ProviderTaskReference" where
  "task_reference attempt =
     \<lparr>tk_ProviderTaskID = at_ProviderTaskID attempt, tk_ProviderRequestID = at_ProviderRequestID attempt,
      tk_Status = at_ProviderTaskStatus attempt,
      tk_AcceptedAt = (case at_ProviderAcceptedAt attempt of Some t \<Rightarrow> t | None \<Rightarrow> 0)\<rparr>"

definition ReconcileAIAttemptDispatch ::
  "gotime \<Rightarrow> string \<Rightarrow> (ProviderDispatchIntent \<Rightarrow> ProviderTaskReference \<Rightarrow> provider_answer) \<Rightarrow> MemoryRepository \<Rightarrow>
   MemoryRepository \<times> AIAttempt option \<times> ProviderDispatchResult option \<times> dispatch_error list" where
  "ReconcileAIAttemptDispatch now attemptID reconciler r =
     (case FindAIAttempt (TrimSpace attemptID) r of
        None \<Rightarrow> (r, None, None, [ErrAIAttemptNotFound])
      | Some attempt \<Rightarrow>
          if \<not> oneOf (at_DispatchState attempt) [AIAttemptDispatchSubmitted, AIAttemptDispatchAccepted, AIAttemptDispatchUnknown]
          then (r, Some attempt, None, [ErrAIAttemptDispatchState])
          else
            (case providerDispatchIntentFromAttempt attempt of
               Inl e \<Rightarrow> (r, Some attempt, None, [e])
             | Inr intent \<Rightarrow>
                 (case reconciler intent (task_reference attempt) of
                    (result, err) \<Rightarrow>
                      (case resolveProviderDispatchResult now now attempt result r of
                         (r', updated, es) \<Rightarrow> (r', updated, Some result, joined err es)))))"

section \<open>Interleavings\<close>

text \<open>
  The requests the service may form from an attempt it has read, by kind; \<open>Redelivery\<close> is the one of
  \<^verbatim>\<open>RetryArtifactDelivery\<close> in \<^verbatim>\<open>artifact_admin.go\<close>.
\<close>

datatype request_kind = Reset | Prepare | Submit | Bind | Unsure | Note | Prove | Redelivery

inductive requests :: "request_kind \<Rightarrow> AIAttempt \<Rightarrow> AIAttempt \<Rightarrow> bool" where
  reset: "at_DispatchState a = AIAttemptDispatchUnknown \<Longrightarrow> at_ProviderTaskID a = [] \<Longrightarrow> requests Reset a (reset_request now a)"
| prepare: "at_DispatchState a = AIAttemptDispatchPending \<Longrightarrow> at_DispatchIntentJSON a = None \<Longrightarrow>
    requests Prepare a (prepare_request now intent a)"
| submit: "at_DispatchState a = AIAttemptDispatchPrepared \<Longrightarrow> requests Submit a (submit_request now after a)"
| bind: "tk_ProviderTaskID reference \<noteq> [] \<Longrightarrow> at_ProviderTaskID a \<noteq> [] \<longrightarrow> at_ProviderTaskID a = tk_ProviderTaskID reference \<Longrightarrow>
    at_DispatchState a \<in> {AIAttemptDispatchSubmitted, AIAttemptDispatchUnknown} \<Longrightarrow> requests Bind a (bind_request now reference after a)"
| unsure: "at_DispatchState a \<in> {AIAttemptDispatchSubmitted, AIAttemptDispatchAccepted} \<Longrightarrow> requests Unsure a (unknown_request now after a)"
| noted: "at_DispatchState a \<in> {AIAttemptDispatchSubmitted, AIAttemptDispatchAccepted, AIAttemptDispatchUnknown} \<Longrightarrow>
    \<not> providerTaskStatusStale (at_ProviderTaskStatus a) status \<Longrightarrow> requests Note a (record_request now status after a)"
| prove: "at_DispatchState a \<in> {AIAttemptDispatchPrepared, AIAttemptDispatchSubmitted, AIAttemptDispatchUnknown} \<Longrightarrow>
    at_ProviderTaskID a = [] \<Longrightarrow> requests Prove a (prove_request now a)"
| redelivery: "at_DispatchState a \<in> {AIAttemptDispatchSubmitted, AIAttemptDispatchAccepted, AIAttemptDispatchUnknown} \<Longrightarrow>
    requests Redelivery a (a\<lparr>at_ReconcileAfter := Some now, at_UpdatedAt := now\<rparr>)"

text \<open>
  A state of the concurrent system: the repository, the requests that were formed and may be sent
  (\<open>ds_open\<close>, with the version that was read), and two counters per attempt: successful submissions,
  after each of which the provider is called once, and successful resets.
\<close>

record dispatch_system =
  ds_repo :: MemoryRepository
  ds_open :: "(request_kind \<times> AIAttempt \<times> int) set"
  ds_calls :: "string \<Rightarrow> nat"
  ds_resets :: "string \<Rightarrow> nat"

definition new_system :: dispatch_system where
  "new_system = \<lparr>ds_repo = NewMemoryRepository, ds_open = {}, ds_calls = \<lambda>_. 0, ds_resets = \<lambda>_. 0\<rparr>"

definition count_if :: "bool \<Rightarrow> string \<Rightarrow> (string \<Rightarrow> nat) \<Rightarrow> string \<Rightarrow> nat" where
  "count_if b k f = (if b then f(k := Suc (f k)) else f)"

definition written :: "(repo_error + 'a option \<times> bool) \<Rightarrow> bool" where
  "written x = (case x of Inr (_, changed) \<Rightarrow> changed | Inl _ \<Rightarrow> False)"

inductive dispatch_step :: "(string \<Rightarrow> string) \<Rightarrow> dispatch_system \<Rightarrow> dispatch_system \<Rightarrow> bool" for hash where
  read: "go_get (aiAttempts (ds_repo s)) k = Some a \<Longrightarrow> requests kind a requested \<Longrightarrow>
    dispatch_step hash s (s\<lparr>ds_open := insert (kind, requested, at_DispatchVersion a) (ds_open s)\<rparr>)"
| send: "(kind, requested, v) \<in> ds_open s \<Longrightarrow> UpdateAIAttemptDispatch requested v (ds_repo s) = (r', x) \<Longrightarrow>
    dispatch_step hash s (s\<lparr>ds_repo := r', ds_calls := count_if (written x \<and> kind = Submit) (at_ID requested) (ds_calls s),
      ds_resets := count_if (written x \<and> kind = Reset) (at_ID requested) (ds_resets s)\<rparr>)"
| redeliver: "(Redelivery, requested, v) \<in> ds_open s \<Longrightarrow>
    dispatch_step hash s (s\<lparr>ds_repo := fst (ScheduleArtifactDeliveryRetry artifactID requested v log (ds_repo s))\<rparr>)"
| begin_attempt: "dispatch_step hash s (s\<lparr>ds_repo := fst (BeginAIAttempt randomID now operationID attemptNumber provider (ds_repo s))\<rparr>)"
| complete: "dispatch_step hash s (s\<lparr>ds_repo := fst (CompleteAIAttempt k status errorType completedAt (ds_repo s))\<rparr>)"
| schedule: "dispatch_step hash s (s\<lparr>ds_repo := fst (ScheduleAIAttemptReconciliation k v scheduledAt log (ds_repo s))\<rparr>)"
| other: "repo_call hash (ds_repo s) r' \<Longrightarrow> aiAttempts r' = aiAttempts (ds_repo s) \<Longrightarrow> dispatch_step hash s (s\<lparr>ds_repo := r'\<rparr>)"

section \<open>Edges of the dispatch machine\<close>

definition in_flight :: "string \<Rightarrow> bool" where
  "in_flight state \<longleftrightarrow> state \<in> {AIAttemptDispatchSubmitted, AIAttemptDispatchAccepted, AIAttemptDispatchUnknown}"

fun edge :: "request_kind \<Rightarrow> AIAttempt \<Rightarrow> AIAttempt \<Rightarrow> bool" where
  "edge Reset a b \<longleftrightarrow> at_DispatchState a = AIAttemptDispatchUnknown \<and> at_ProviderTaskID a = [] \<and>
     at_DispatchState b = AIAttemptDispatchPending \<and> at_ProviderTaskID b = []"
| "edge Prepare a b \<longleftrightarrow> at_DispatchState a = AIAttemptDispatchPending \<and> at_DispatchState b = AIAttemptDispatchPrepared \<and>
     at_ProviderTaskID b = at_ProviderTaskID a"
| "edge Submit a b \<longleftrightarrow> at_DispatchState a = AIAttemptDispatchPrepared \<and> at_DispatchState b = AIAttemptDispatchSubmitted \<and>
     at_ProviderTaskID b = at_ProviderTaskID a"
| "edge Bind a b \<longleftrightarrow> in_flight (at_DispatchState a) \<and> at_DispatchState b = AIAttemptDispatchAccepted \<and> at_ProviderTaskID b \<noteq> [] \<and>
     (at_ProviderTaskID a \<noteq> [] \<longrightarrow> at_ProviderTaskID b = at_ProviderTaskID a)"
| "edge Unsure a b \<longleftrightarrow> in_flight (at_DispatchState a) \<and> at_DispatchState b = AIAttemptDispatchUnknown \<and>
     at_ProviderTaskID b = at_ProviderTaskID a"
| "edge Prove a b \<longleftrightarrow> (at_DispatchState a = AIAttemptDispatchPrepared \<or> in_flight (at_DispatchState a)) \<and> at_ProviderTaskID a = [] \<and>
     at_DispatchState b = AIAttemptDispatchProvenNotCreated \<and> at_ProviderTaskID b = []"
| "edge _ a b \<longleftrightarrow> at_DispatchState b = at_DispatchState a \<and> at_ProviderTaskID b = at_ProviderTaskID a"

definition same_dispatch :: "AIAttempt \<Rightarrow> AIAttempt \<Rightarrow> bool" where
  "same_dispatch a b \<longleftrightarrow> at_DispatchState b = at_DispatchState a \<and> at_ProviderTaskID b = at_ProviderTaskID a"

lemma requests_edge: "requests kind a q \<Longrightarrow> edge kind a q \<and> at_ID q = at_ID a"
  by (induction rule: requests.induct) (auto simp: request_defs in_flight_def)

lemma edge_same: "same_dispatch c a \<Longrightarrow> edge kind a q \<Longrightarrow> edge kind c q"
  by (cases kind) (auto simp: same_dispatch_def)

text \<open>
  How many submissions and resets an attempt has had can be read off its state: an attempt that waits
  to be submitted has been reset as often as submitted, one in flight has been submitted once more.
\<close>

definition counts_ok :: "nat \<Rightarrow> nat \<Rightarrow> AIAttempt \<Rightarrow> bool" where
  "counts_ok calls resets a \<longleftrightarrow>
     (at_DispatchState a \<in> {AIAttemptDispatchPending, AIAttemptDispatchPrepared} \<and> calls = resets \<and> at_ProviderTaskID a = [] \<or>
      in_flight (at_DispatchState a) \<and> calls = Suc resets \<or>
      at_DispatchState a = AIAttemptDispatchProvenNotCreated \<and> calls \<le> Suc resets \<and> at_ProviderTaskID a = []) \<and>
     (at_DispatchState a = AIAttemptDispatchAccepted \<longrightarrow> at_ProviderTaskID a \<noteq> []) \<and>
     (at_DispatchState a = AIAttemptDispatchSubmitted \<longrightarrow> at_ProviderTaskID a = [])"

lemma edge_counts:
  assumes "counts_ok n m a" "edge kind a b"
  shows "counts_ok (if kind = Submit then Suc n else n) (if kind = Reset then Suc m else m) b"
  using assms by (cases kind) (auto simp: counts_ok_def in_flight_def)

text \<open>What a step may do to the table of attempts.\<close>

fun moves :: "request_kind option \<Rightarrow> AIAttempt option \<Rightarrow> AIAttempt \<Rightarrow> bool" where
  "moves None None b \<longleftrightarrow> at_DispatchState b = AIAttemptDispatchPending \<and> at_ProviderTaskID b = []"
| "moves None (Some a) b \<longleftrightarrow> same_dispatch a b \<and> at_DispatchVersion a \<le> at_DispatchVersion b"
| "moves (Some kind) (Some a) b \<longleftrightarrow> edge kind a b \<and> at_DispatchVersion b = at_DispatchVersion a + 1"
| "moves (Some kind) None b \<longleftrightarrow> False"

definition moved :: "request_kind option \<Rightarrow> string \<Rightarrow> dispatch_system \<Rightarrow> MemoryRepository \<Rightarrow> dispatch_system" where
  "moved m k s r' = s\<lparr>ds_repo := r', ds_calls := count_if (m = Some Submit) k (ds_calls s), ds_resets := count_if (m = Some Reset) k (ds_resets s)\<rparr>"

definition open_ok :: "AIAttempt gomap \<Rightarrow> request_kind \<times> AIAttempt \<times> int \<Rightarrow> bool" where
  "open_ok attempts = (\<lambda>(kind, q, v). \<exists>c. go_get attempts (at_ID q) = Some c \<and> v \<le> at_DispatchVersion c \<and>
     (v = at_DispatchVersion c \<longrightarrow> edge kind c q))"

fun counts_at :: "nat \<Rightarrow> nat \<Rightarrow> AIAttempt option \<Rightarrow> bool" where
  "counts_at calls resets None \<longleftrightarrow> calls = 0 \<and> resets = 0"
| "counts_at calls resets (Some a) \<longleftrightarrow> counts_ok calls resets a"

definition system_inv :: "dispatch_system \<Rightarrow> bool" where
  "system_inv s \<longleftrightarrow> keyed at_ID (aiAttempts (ds_repo s)) \<and>
     (\<forall>k. counts_at (ds_calls s k) (ds_resets s k) (go_get (aiAttempts (ds_repo s)) k)) \<and>
     (\<forall>p \<in> ds_open s. open_ok (aiAttempts (ds_repo s)) p)"

lemma moves_growth:
  assumes "moves m (Some a) b"
  shows "at_DispatchVersion a \<le> at_DispatchVersion b \<and> (at_DispatchVersion b = at_DispatchVersion a \<longrightarrow> same_dispatch a b)"
  using assms by (cases m) auto

lemma moved_open:
  assumes "moves m (go_get attempts (at_ID b)) b" "open_ok attempts p"
  shows "open_ok (go_set (at_ID b) b attempts) p"
proof -
  obtain kind q v where p: "p = (kind, q, v)" by (cases p)
  obtain c where c: "go_get attempts (at_ID q) = Some c" "v \<le> at_DispatchVersion c" "v = at_DispatchVersion c \<longrightarrow> edge kind c q"
    using assms(2) by (auto simp: open_ok_def p)
  show ?thesis
  proof (cases "at_ID q = at_ID b")
    case True
    have g: "at_DispatchVersion c \<le> at_DispatchVersion b \<and> (at_DispatchVersion b = at_DispatchVersion c \<longrightarrow> same_dispatch c b)"
      using moves_growth [of m c b] assms(1) c(1) True by simp
    then have "edge kind b q" if "v = at_DispatchVersion b"
      using c(2,3) that edge_same [of b c kind q] by (auto simp: same_dispatch_def)
    with g c(2) show ?thesis by (auto simp: open_ok_def p True)
  next
    case False
    then show ?thesis using c by (simp add: open_ok_def p)
  qed
qed

lemma moved_inv:
  assumes "system_inv s" "moves m (go_get (aiAttempts (ds_repo s)) (at_ID b)) b"
    and "aiAttempts r' = go_set (at_ID b) b (aiAttempts (ds_repo s))"
  shows "system_inv (moved m (at_ID b) s r')"
proof -
  let ?t = "moved m (at_ID b) s r'"
  have own: "counts_ok (ds_calls ?t (at_ID b)) (ds_resets ?t (at_ID b)) b"
  proof (cases "go_get (aiAttempts (ds_repo s)) (at_ID b)")
    case None
    then have "m = None" using assms(2) by (cases m) simp_all
    moreover have "counts_at (ds_calls s (at_ID b)) (ds_resets s (at_ID b)) None" using assms(1) None by (metis system_inv_def)
    ultimately show ?thesis using assms(2) None by (simp add: moved_def count_if_def counts_ok_def)
  next
    case (Some a)
    have "counts_ok (ds_calls s (at_ID b)) (ds_resets s (at_ID b)) a"
      using assms(1) Some by (metis system_inv_def counts_at.simps(2))
    note counts = this
    show ?thesis
    proof (cases m)
      case None
      then have "same_dispatch a b" using assms(2) \<open>go_get _ _ = Some a\<close> by simp
      then show ?thesis using counts None by (simp add: moved_def count_if_def counts_ok_def same_dispatch_def)
    next
      case (Some kind)
      then have "edge kind a b" using assms(2) \<open>go_get _ _ = Some a\<close> by simp
      from edge_counts [OF counts this] show ?thesis by (cases kind) (simp_all add: moved_def count_if_def Some)
    qed
  qed
  have "keyed at_ID (aiAttempts (ds_repo ?t))" using assms(1,3) by (simp add: system_inv_def moved_def keyed_go_set)
  moreover have "counts_at (ds_calls ?t k) (ds_resets ?t k) (go_get (aiAttempts (ds_repo ?t)) k)" for k
    using own assms(1) by (cases "k = at_ID b") (auto simp: moved_def assms(3) system_inv_def count_if_def)
  moreover have "open_ok (aiAttempts (ds_repo ?t)) p" if "p \<in> ds_open ?t" for p
    using moved_open [OF assms(2), of p] that assms(1,3) by (simp add: moved_def system_inv_def)
  ultimately show ?thesis by (simp add: system_inv_def)
qed

lemma frame_inv:
  assumes "system_inv s" "aiAttempts r' = aiAttempts (ds_repo s)"
  shows "system_inv (s\<lparr>ds_repo := r'\<rparr>)"
  using assms by (simp add: system_inv_def)

text \<open>Every step is a read, a move of one attempt, or leaves the attempts alone.\<close>

lemma Update_cases:
  assumes "UpdateAIAttemptDispatch q v r = (r', x)"
  obtains "r' = r" "\<not> written x"
  | c where "go_get (aiAttempts r) (at_ID q) = Some c" "at_DispatchVersion c = v" "at_Status c = AIAttemptStatusRunning"
    "x = Inr (Some (applyAIAttemptDispatchUpdate c q), True)"
    "r' = r\<lparr>aiAttempts := go_set (at_ID c) (applyAIAttemptDispatchUpdate c q) (aiAttempts r)\<rparr>"
proof (cases "written x")
  case False
  moreover have "r' = r" using assms False
    by (auto simp: UpdateAIAttemptDispatch_def written_def Let_def split: option.splits if_splits)
  ultimately show ?thesis using that(1) by blast
next
  case True
  then show ?thesis using assms that(2)
    by (auto simp: UpdateAIAttemptDispatch_def written_def Let_def split: option.splits if_splits)
qed

lemma apply_update_simps [simp]:
  "at_ID (applyAIAttemptDispatchUpdate c q) = at_ID c"
  "at_DispatchState (applyAIAttemptDispatchUpdate c q) = at_DispatchState q"
  "at_ProviderTaskID (applyAIAttemptDispatchUpdate c q) = at_ProviderTaskID q"
  "at_DispatchVersion (applyAIAttemptDispatchUpdate c q) = at_DispatchVersion c + 1"
  "at_Status (applyAIAttemptDispatchUpdate c q) = at_Status c"
  by (simp_all add: applyAIAttemptDispatchUpdate_def)

lemma edge_apply: "edge kind c q \<Longrightarrow> edge kind c (applyAIAttemptDispatchUpdate c q)"
  by (cases kind) auto

lemma moved_None: "moved None k s r' = s\<lparr>ds_repo := r'\<rparr>"
  by (simp add: moved_def count_if_def)

lemma dispatch_step_cases:
  assumes "system_inv s" "dispatch_step hash s s'"
  obtains (read) k a kind q where "go_get (aiAttempts (ds_repo s)) k = Some a" "requests kind a q"
    "s' = s\<lparr>ds_open := insert (kind, q, at_DispatchVersion a) (ds_open s)\<rparr>"
  | (frame) r' where "aiAttempts r' = aiAttempts (ds_repo s)" "s' = s\<lparr>ds_repo := r'\<rparr>"
  | (move) m b r' where "moves m (go_get (aiAttempts (ds_repo s)) (at_ID b)) b"
    "aiAttempts r' = go_set (at_ID b) b (aiAttempts (ds_repo s))" "s' = moved m (at_ID b) s r'"
  using assms(2)
proof (cases rule: dispatch_step.cases)
  case (read k a kind q)
  then show ?thesis using that(1) by blast
next
  case (send kind q v r' x)
  have o: "open_ok (aiAttempts (ds_repo s)) (kind, q, v)" using assms(1) send(2) by (auto simp: system_inv_def)
  from send(3) show ?thesis
  proof (cases rule: Update_cases)
    case 1
    then show ?thesis using that(2) [of "ds_repo s"] send(1) by (simp add: count_if_def)
  next
    case (2 c)
    have e: "edge kind c q" using o 2(1,2) by (auto simp: open_ok_def)
    have id: "at_ID c = at_ID q" using assms(1) 2(1) by (auto simp: system_inv_def dest: keyed_get)
    show ?thesis
      using that(3) [of "Some kind" "applyAIAttemptDispatchUpdate c q" r'] e id 2 send(1)
      by (auto simp: edge_apply moved_def written_def)
  qed
next
  case (redeliver q v artifactID log)
  have o: "open_ok (aiAttempts (ds_repo s)) (Redelivery, q, v)" using assms(1) redeliver(2) by (auto simp: system_inv_def)
  then obtain c where c: "go_get (aiAttempts (ds_repo s)) (at_ID q) = Some c" by (auto simp: open_ok_def)
  have id: "at_ID c = at_ID q" using assms(1) c by (auto simp: system_inv_def dest: keyed_get)
  let ?r = "fst (ScheduleArtifactDeliveryRetry artifactID q v log (ds_repo s))"
  have "aiAttempts ?r = aiAttempts (ds_repo s) \<or>
      at_DispatchVersion c = v \<and> aiAttempts ?r = go_set (at_ID c) (applyAIAttemptDispatchUpdate c q) (aiAttempts (ds_repo s))"
    by (auto simp: ScheduleArtifactDeliveryRetry_def c Let_def split: option.splits)
  then show ?thesis
  proof
    assume "aiAttempts ?r = aiAttempts (ds_repo s)"
    then show ?thesis using that(2) redeliver(1) by blast
  next
    assume h: "at_DispatchVersion c = v \<and> aiAttempts ?r = go_set (at_ID c) (applyAIAttemptDispatchUpdate c q) (aiAttempts (ds_repo s))"
    then show ?thesis
      using that(3) [of None "applyAIAttemptDispatchUpdate c q" ?r] o c id redeliver(1)
      by (auto simp: open_ok_def same_dispatch_def moved_None)
  qed
next
  case (begin_attempt randomID now operationID n provider)
  let ?a = "normalizeAIAttempt (new_attempt randomID now operationID n provider)" and
    ?r = "fst (BeginAIAttempt randomID now operationID n provider (ds_repo s))"
  have "aiAttempts ?r = aiAttempts (ds_repo s) \<or>
      go_get (aiAttempts (ds_repo s)) (at_ID ?a) = None \<and> aiAttempts ?r = go_set (at_ID ?a) ?a (aiAttempts (ds_repo s))"
    by (auto simp: BeginAIAttempt_def CreateOrGetAIAttempt_def Let_def split: option.splits)
  then show ?thesis
  proof
    assume "aiAttempts ?r = aiAttempts (ds_repo s)"
    then show ?thesis using that(2) begin_attempt by blast
  next
    assume h: "go_get (aiAttempts (ds_repo s)) (at_ID ?a) = None \<and> aiAttempts ?r = go_set (at_ID ?a) ?a (aiAttempts (ds_repo s))"
    have "at_DispatchState ?a = AIAttemptDispatchPending" "at_ProviderTaskID ?a = []"
      by (simp_all add: normalizeAIAttempt_def new_attempt_def Let_def)
    then show ?thesis using that(3) [of None ?a ?r] h begin_attempt by (simp add: moved_None)
  qed
next
  case (complete k status errorType completedAt)
  let ?r = "fst (CompleteAIAttempt k status errorType completedAt (ds_repo s))"
  show ?thesis
  proof (cases "go_get (aiAttempts (ds_repo s)) k")
    case None
    then show ?thesis using that(2) [of ?r] complete by (simp add: CompleteAIAttempt_def)
  next
    case (Some c)
    have id: "at_ID c = k" using assms(1) Some by (auto simp: system_inv_def dest: keyed_get)
    let ?b = "c\<lparr>at_Status := status, at_ErrorType := errorType, at_UpdatedAt := completedAt, at_CompletedAt := Some completedAt\<rparr>"
    show ?thesis
      using that(2) [of ?r] that(3) [of None ?b ?r] Some id complete
      by (cases "at_Status c = AIAttemptStatusRunning") (simp_all add: CompleteAIAttempt_def same_dispatch_def moved_None)
  qed
next
  case (schedule k v scheduledAt log)
  let ?r = "fst (ScheduleAIAttemptReconciliation k v scheduledAt log (ds_repo s))"
  show ?thesis
  proof (cases "aiAttempts ?r = aiAttempts (ds_repo s)")
    case True
    then show ?thesis using that(2) schedule by blast
  next
    case False
    then obtain c where c: "go_get (aiAttempts (ds_repo s)) (TrimSpace k) = Some c" "at_DispatchVersion c = v"
      "aiAttempts ?r = go_set (at_ID c) (applyAIAttemptDispatchUpdate c (c\<lparr>at_ReconcileAfter := Some scheduledAt, at_UpdatedAt := scheduledAt\<rparr>))
         (aiAttempts (ds_repo s))"
      by (auto simp: ScheduleAIAttemptReconciliation_def Let_def split: option.splits if_splits)
    have id: "at_ID c = TrimSpace k" using assms(1) c(1) by (auto simp: system_inv_def dest: keyed_get)
    show ?thesis
      using that(3) [of None "applyAIAttemptDispatchUpdate c (c\<lparr>at_ReconcileAfter := Some scheduledAt, at_UpdatedAt := scheduledAt\<rparr>)" ?r] c id schedule
      by (simp add: same_dispatch_def moved_None)
  qed
next
  case (other r')
  then show ?thesis using that(2) by blast
qed

lemma dispatch_step_inv:
  assumes "system_inv s" "dispatch_step hash s s'"
  shows "system_inv s'"
  using assms
proof (cases rule: dispatch_step_cases)
  case (read k a kind q)
  have "at_ID a = k" using assms(1) read(1) by (auto simp: system_inv_def dest: keyed_get)
  then have "open_ok (aiAttempts (ds_repo s)) (kind, q, at_DispatchVersion a)"
    using read(1) requests_edge [OF read(2)] by (auto simp: open_ok_def)
  then show ?thesis using assms(1) by (simp add: read(3) system_inv_def)
next
  case (frame r')
  then show ?thesis using frame_inv assms(1) by blast
next
  case (move m b r')
  then show ?thesis using moved_inv assms(1) by blast
qed

lemma dispatch_steps_inv: "(dispatch_step hash)\<^sup>*\<^sup>* s s' \<Longrightarrow> system_inv s \<Longrightarrow> system_inv s'"
  by (induction rule: rtranclp_induct) (auto intro: dispatch_step_inv)

lemma new_system_inv: "system_inv new_system"
  by (simp add: system_inv_def new_system_def new_repository_sel)

text \<open>Once a provider task is bound, the attempt keeps it and is not submitted again.\<close>

definition bound :: "string \<Rightarrow> string \<Rightarrow> dispatch_system \<Rightarrow> bool" where
  "bound k task s \<longleftrightarrow> task \<noteq> [] \<and> (\<exists>a. go_get (aiAttempts (ds_repo s)) k = Some a \<and> at_ProviderTaskID a = task)"

lemma bound_edge:
  assumes "counts_ok n m a" "at_ProviderTaskID a \<noteq> []" "edge kind a b"
  shows "at_ProviderTaskID b = at_ProviderTaskID a" "kind \<noteq> Submit"
  using assms by (cases kind; auto simp: counts_ok_def in_flight_def)+

lemma bound_step:
  assumes "system_inv s" "dispatch_step hash s s'" "bound k task s"
  shows "bound k task s' \<and> ds_calls s' k = ds_calls s k"
proof -
  obtain a where a: "go_get (aiAttempts (ds_repo s)) k = Some a" "at_ProviderTaskID a = task" "task \<noteq> []"
    using assms(3) by (auto simp: bound_def)
  have counts: "counts_ok (ds_calls s k) (ds_resets s k) a"
    using assms(1) a(1) by (metis system_inv_def counts_at.simps(2))
  from assms(1,2) show ?thesis
  proof (cases rule: dispatch_step_cases)
    case (move m b r')
    show ?thesis
    proof (cases "at_ID b = k")
      case True
      have mv: "moves m (Some a) b" using move(1) a(1) True by simp
      have "at_ProviderTaskID b = task \<and> m \<noteq> Some Submit"
      proof (cases m)
        case None
        then show ?thesis using mv a(2) by (simp add: same_dispatch_def)
      next
        case (Some kind)
        then show ?thesis using mv bound_edge [OF counts _, of kind b] a(2,3) by auto
      qed
      then show ?thesis using move(2,3) True a(3) by (auto simp: bound_def moved_def count_if_def)
    next
      case False
      then show ?thesis using move(2,3) a by (auto simp: bound_def moved_def count_if_def)
    qed
  qed (use assms(3) in \<open>auto simp: bound_def\<close>)
qed

lemma bound_steps:
  "(dispatch_step hash)\<^sup>*\<^sup>* s s' \<Longrightarrow> system_inv s \<Longrightarrow> bound k task s \<Longrightarrow> bound k task s' \<and> ds_calls s' k = ds_calls s k"
proof (induction rule: rtranclp_induct)
  case (step y z)
  then show ?case using bound_step [of y hash z k task] dispatch_steps_inv [OF step(1,4)] by simp
qed simp

section \<open>The functions as steps\<close>

text \<open>
  Each function of the service is a read followed by a write of the interleaving model, or changes
  nothing; and the provider is called only after a submission that was written.
\<close>

lemma FindAIAttempt_trim [simp]: "FindAIAttempt (TrimSpace k) r = go_get (aiAttempts r) (TrimSpace k)"
  by (simp add: FindAIAttempt_def)

lemma update_reply:
  assumes "updateAIAttemptDispatch q v r = (r', u, changed, es)"
  shows "\<exists>x. UpdateAIAttemptDispatch q v r = (r', x) \<and> (changed \<longleftrightarrow> written x)"
  using assms by (auto simp: updateAIAttemptDispatch_def written_def split: prod.splits sum.splits if_splits)

definition as_request :: "request_kind \<Rightarrow> string \<Rightarrow> MemoryRepository \<Rightarrow> MemoryRepository \<Rightarrow> bool \<Rightarrow> bool" where
  "as_request kind k r r' changed \<longleftrightarrow> r' = r \<and> \<not> changed \<or>
     (\<exists>a q x. go_get (aiAttempts r) (TrimSpace k) = Some a \<and> requests kind a q \<and>
        UpdateAIAttemptDispatch q (at_DispatchVersion a) r = (r', x) \<and> changed = written x)"

lemma service_requests:
  "MarkAIAttemptDispatchSubmitted now k v after r = (r', u, changed, es) \<Longrightarrow> as_request Submit k r r' changed"
  "BindAIAttemptProviderTask now k v reference after r = (r', u, changed, es) \<Longrightarrow> as_request Bind k r r' changed"
  "MarkAIAttemptDispatchUnknown now k v after r = (r', u, changed, es) \<Longrightarrow> as_request Unsure k r r' changed"
  "RecordAIAttemptReconciliation now k v status after r = (r', u, changed, es) \<Longrightarrow> as_request Note k r r' changed"
  unfolding as_request_def
  by (force simp: MarkAIAttemptDispatchSubmitted_def BindAIAttemptProviderTask_def MarkAIAttemptDispatchUnknown_def
      RecordAIAttemptReconciliation_def Let_def split: option.splits if_splits dest!: update_reply intro: requests.intros)+

lemma execute_calls:
  assumes "execute_begin t1 t2 t3 k r = (r', Inr (submitted, intent))"
  obtains r1 prepared where "providerDispatchIntentFromAttempt prepared = Inr intent"
    "MarkAIAttemptDispatchSubmitted t3 (at_ID prepared) (at_DispatchVersion prepared) (t3 + providerDispatchDefaultReconcileDelay) r1 =
       (r', Some submitted, True, [])"
  using assms that by (auto simp: execute_begin_def split: prod.splits option.splits list.splits sum.splits bool.splits if_splits)

lemma prepare_pending_request:
  assumes "prepare_pending now intent a r = (r', u, changed, es)" "go_get (aiAttempts r) (TrimSpace k) = Some a"
  shows "as_request Prepare k r r' changed"
proof (cases "at_DispatchState a = AIAttemptDispatchPending \<and> at_DispatchIntentJSON a = None \<and> at_Status a = AIAttemptStatusRunning")
  case True
  obtain r1 x where x: "UpdateAIAttemptDispatch (prepare_request now intent a) (at_DispatchVersion a) r = (r1, x)" by fastforce
  have "r' = r1" "changed = written x"
    using assms(1) True x by (auto simp: prepare_pending_def written_def split: sum.splits option.splits if_splits)
  then show ?thesis using x True assms(2) requests.prepare [of a now intent] unfolding as_request_def by blast
next
  case False
  then show ?thesis using assms(1) by (auto simp: prepare_pending_def as_request_def split: if_splits)
qed

lemma prepare_requests:
  assumes "keyed at_ID (aiAttempts r)" "PrepareAIAttemptDispatch t1 t2 k r = (r', u, changed, es)"
  shows "\<exists>r1 reset. as_request Reset k r r1 reset \<and> as_request Prepare k r1 r' changed"
proof (cases "go_get (aiAttempts r) (TrimSpace k)")
  case None
  then show ?thesis using assms(2) by (auto simp: PrepareAIAttemptDispatch_def as_request_def)
next
  case (Some a)
  have id: "at_ID a = TrimSpace k" using keyed_get [OF assms(1) Some] by simp
  show ?thesis
  proof (cases "at_DispatchState a = AIAttemptDispatchUnknown \<and> at_ProviderTaskID a = [] \<and> FindAIOperation (at_OperationID a) r \<noteq> None")
    case True
    obtain r1 x where x: "UpdateAIAttemptDispatch (reset_request t1 a) (at_DispatchVersion a) r = (r1, x)" by fastforce
    have 1: "as_request Reset k r r1 (written x)" using Some x True requests.reset [of a t1] unfolding as_request_def by blast
    from x have "as_request Prepare k r1 r' changed"
    proof (cases rule: Update_cases)
      case 1
      then show ?thesis using assms(2) Some True x
        by (auto simp: PrepareAIAttemptDispatch_def as_request_def written_def Let_def split: sum.splits option.splits bool.splits if_splits)
    next
      case (2 c)
      then have "prepare_pending t2 (dispatch_intent a (the (FindAIOperation (at_OperationID a) r))) (applyAIAttemptDispatchUpdate c (reset_request t1 a)) r1 =
          (r', u, changed, es)"
        using assms(2) Some True x by (auto simp: PrepareAIAttemptDispatch_def Let_def)
      moreover have "at_ID c = TrimSpace k" using 2(1) id keyed_get [OF assms(1) 2(1)] by (simp add: request_defs)
      ultimately show ?thesis using 2(5) by (intro prepare_pending_request) auto
    qed
    with 1 show ?thesis by blast
  next
    case False
    have "as_request Prepare k r r' changed"
    proof (cases "at_DispatchState a = AIAttemptDispatchUnknown \<or> FindAIOperation (at_OperationID a) r = None")
      case True
      then show ?thesis using assms(2) Some False
        by (auto simp: PrepareAIAttemptDispatch_def as_request_def Let_def split: option.splits if_splits)
    next
      case False
      then have "prepare_pending t2 (dispatch_intent a (the (FindAIOperation (at_OperationID a) r))) a r = (r', u, changed, es)"
        using assms(2) Some by (auto simp: PrepareAIAttemptDispatch_def Let_def)
      then show ?thesis using Some by (rule prepare_pending_request)
    qed
    moreover have "as_request Reset k r r False" by (simp add: as_request_def)
    ultimately show ?thesis by blast
  qed
qed

section \<open>One dispatch from beginning to end\<close>

definition store_attempt :: "AIAttempt \<Rightarrow> MemoryRepository \<Rightarrow> MemoryRepository" where
  "store_attempt a r = r\<lparr>aiAttempts := go_set (at_ID a) a (aiAttempts r)\<rparr>"

lemma store_attempt_simps [simp]:
  "go_get (aiAttempts (store_attempt a r)) k = (if k = at_ID a then Some a else go_get (aiAttempts r) k)"
  "aiOperations (store_attempt a r) = aiOperations r"
  "keyed at_ID (aiAttempts r) \<Longrightarrow> keyed at_ID (aiAttempts (store_attempt a r))"
  by (auto simp: store_attempt_def keyed_go_set)

definition task_free :: "AIAttempt \<Rightarrow> string \<Rightarrow> MemoryRepository \<Rightarrow> bool" where
  "task_free a task r \<longleftrightarrow> (\<forall>other \<in> set (go_values (aiAttempts r)). at_ID other \<noteq> at_ID a \<longrightarrow>
     at_ProviderTaskID other = task \<longrightarrow> at_ProviderAccountID other \<noteq> at_ProviderAccountID a)"

lemma Update_running:
  assumes "go_get (aiAttempts r) (at_ID q) = Some c" "at_ID c = at_ID q" "at_Status c = AIAttemptStatusRunning"
    and "at_ProviderTaskID q = [] \<or> task_free q (at_ProviderTaskID q) r"
  shows "UpdateAIAttemptDispatch q (at_DispatchVersion c) r =
    (store_attempt (applyAIAttemptDispatchUpdate c q) r, Inr (Some (applyAIAttemptDispatchUpdate c q), True))"
  using assms by (auto simp: UpdateAIAttemptDispatch_def store_attempt_def task_free_def Let_def list_ex_iff)

lemma update_running:
  assumes "go_get (aiAttempts r) (at_ID q) = Some c" "at_ID c = at_ID q" "at_Status c = AIAttemptStatusRunning"
    and "at_ProviderTaskID q = [] \<or> task_free q (at_ProviderTaskID q) r"
  shows "updateAIAttemptDispatch q (at_DispatchVersion c) r =
    (store_attempt (applyAIAttemptDispatchUpdate c q) r, Some (applyAIAttemptDispatchUpdate c q), True, [])"
  using Update_running [OF assms] by (simp add: updateAIAttemptDispatch_def)

text \<open>An attempt that waits for its first dispatch.\<close>

definition waiting :: "string \<Rightarrow> AIAttempt \<Rightarrow> AIOperation \<Rightarrow> MemoryRepository \<Rightarrow> bool" where
  "waiting k a operation r \<longleftrightarrow> TrimSpace k = k \<and> at_ID a = k \<and> go_get (aiAttempts r) k = Some a \<and>
     go_get (aiOperations r) (at_OperationID a) = Some operation \<and> op_RequestFingerprint operation \<noteq> [] \<and>
     at_Status a = AIAttemptStatusRunning \<and> at_DispatchState a = AIAttemptDispatchPending \<and> at_DispatchIntentJSON a = None \<and>
     at_ProviderTaskID a = []"

definition submitted_of :: "gotime \<Rightarrow> gotime \<Rightarrow> AIAttempt \<Rightarrow> AIOperation \<Rightarrow> AIAttempt" where
  "submitted_of t2 t3 a operation =
     (let p = applyAIAttemptDispatchUpdate a (prepare_request t2 (dispatch_intent a operation) a)
      in applyAIAttemptDispatchUpdate p (submit_request t3 (t3 + providerDispatchDefaultReconcileDelay) p))"

lemma submitted_of_simps [simp]:
  "at_ID (submitted_of t2 t3 a operation) = at_ID a"
  "at_Status (submitted_of t2 t3 a operation) = at_Status a"
  "at_DispatchState (submitted_of t2 t3 a operation) = AIAttemptDispatchSubmitted"
  "at_ProviderTaskID (submitted_of t2 t3 a operation) = at_ProviderTaskID a"
  "at_ProviderAccountID (submitted_of t2 t3 a operation) = at_ProviderAccountID a"
  by (simp_all add: submitted_of_def Let_def applyAIAttemptDispatchUpdate_def request_defs)

lemma store_attempt_twice: "at_ID b = at_ID a \<Longrightarrow> store_attempt b (store_attempt a r) = store_attempt b r"
proof -
  have "go_set k b (go_set k a m) = go_set k b m" for k and m :: "AIAttempt gomap" by (induction m) auto
  then show ?thesis if "at_ID b = at_ID a" using that by (simp add: store_attempt_def)
qed

lemma task_free_store:
  assumes "keyed at_ID (aiAttempts r)" "task_free a task r" "at_ID s = at_ID a" "at_ID b = at_ID a" "at_ProviderAccountID b = at_ProviderAccountID a"
  shows "task_free b task (store_attempt s r)"
proof -
  have set: "set (go_values (aiAttempts (store_attempt s r))) = insert s {w \<in> set (go_values (aiAttempts r)). at_ID w \<noteq> at_ID s}"
    using values_go_set [OF assms(1), of "at_ID s" s] by (simp add: store_attempt_def)
  show ?thesis unfolding task_free_def set using assms(2-5) [unfolded task_free_def] by simp blast
qed

lemma execute_waiting:
  assumes "keyed at_ID (aiAttempts r)" "waiting k a operation r"
  shows "execute_begin t1 t2 t3 k r =
    (store_attempt (submitted_of t2 t3 a operation) r, Inr (submitted_of t2 t3 a operation, dispatch_intent a operation))"
proof -
  let ?i = "dispatch_intent a operation"
  let ?p = "applyAIAttemptDispatchUpdate a (prepare_request t2 ?i a)"
  let ?q = "submit_request t3 (t3 + providerDispatchDefaultReconcileDelay) ?p"
  note w = assms(2) [unfolded waiting_def]
  have "UpdateAIAttemptDispatch (prepare_request t2 ?i a) (at_DispatchVersion a) r = (store_attempt ?p r, Inr (Some ?p, True))"
    using w by (intro Update_running) (simp_all add: request_defs)
  then have prep: "PrepareAIAttemptDispatch t1 t2 k r = (store_attempt ?p r, Some ?p, True, [])"
    using w by (simp add: PrepareAIAttemptDispatch_def FindAIAttempt_def FindAIOperation_def prepare_pending_def Let_def)
  have intent: "providerDispatchIntentFromAttempt ?p = Inr ?i"
    using w by (simp add: providerDispatchIntentFromAttempt_def applyAIAttemptDispatchUpdate_def prepare_request_def dispatch_intent_def)
  have st: "at_DispatchState ?p = AIAttemptDispatchPrepared" by (simp add: request_defs)
  have "updateAIAttemptDispatch ?q (at_DispatchVersion ?p) (store_attempt ?p r) =
      (store_attempt (applyAIAttemptDispatchUpdate ?p ?q) (store_attempt ?p r), Some (applyAIAttemptDispatchUpdate ?p ?q), True, [])"
    using w by (intro update_running) (simp_all add: request_defs)
  then have "MarkAIAttemptDispatchSubmitted t3 (at_ID ?p) (at_DispatchVersion ?p) (t3 + providerDispatchDefaultReconcileDelay) (store_attempt ?p r) =
      (store_attempt (submitted_of t2 t3 a operation) r, Some (submitted_of t2 t3 a operation), True, [])"
    using w st by (simp add: MarkAIAttemptDispatchSubmitted_def FindAIAttempt_def submitted_of_def Let_def store_attempt_twice)
  then show ?thesis by (simp add: execute_begin_def prep intent)
qed

lemma mark_unknown_submitted:
  assumes "go_get (aiAttempts r) (at_ID a) = Some a" "TrimSpace (at_ID a) = at_ID a" "at_Status a = AIAttemptStatusRunning"
    and "at_DispatchState a = AIAttemptDispatchSubmitted" "at_ProviderTaskID a = []"
  shows "MarkAIAttemptDispatchUnknown t (at_ID a) (at_DispatchVersion a) after r =
    (let b = applyAIAttemptDispatchUpdate a (unknown_request t after a) in (store_attempt b r, Some b, True, []))"
proof -
  let ?q = "unknown_request t after a"
  have "updateAIAttemptDispatch ?q (at_DispatchVersion a) r =
      (store_attempt (applyAIAttemptDispatchUpdate a ?q) r, Some (applyAIAttemptDispatchUpdate a ?q), True, [])"
    using assms by (intro update_running) (simp_all add: unknown_request_def)
  then show ?thesis using assms by (simp add: MarkAIAttemptDispatchUnknown_def FindAIAttempt_def Let_def)
qed

lemma prove_submitted:
  assumes "go_get (aiAttempts r) (at_ID a) = Some a" "TrimSpace (at_ID a) = at_ID a" "at_Status a = AIAttemptStatusRunning"
    and "at_DispatchState a = AIAttemptDispatchSubmitted" "at_ProviderTaskID a = []"
    and "ProveAIAttemptNotCreated t1 t2 (at_ID a) (at_DispatchVersion a) r = (r', u, changed, es)"
  shows "es = [] \<and> (\<exists>b. u = Some b \<and> go_get (aiAttempts r') (at_ID a) = Some b \<and>
    at_DispatchState b = AIAttemptDispatchProvenNotCreated \<and> at_Status b = AIAttemptStatusSkipped)"
proof -
  let ?b = "applyAIAttemptDispatchUpdate a (prove_request t1 a)"
  have "updateAIAttemptDispatch (prove_request t1 a) (at_DispatchVersion a) r = (store_attempt ?b r, Some ?b, True, [])"
    using assms by (intro update_running) (simp_all add: request_defs)
  then have "prove_complete t2 ?b True (store_attempt ?b r) = (r', u, changed, es)"
    using assms by (simp add: ProveAIAttemptNotCreated_def FindAIAttempt_def)
  then show ?thesis using assms(2,3)
    by (auto simp: prove_complete_def Service_CompleteAIAttempt_def CompleteAIAttempt_def FindAIAttempt_def request_defs)
qed

lemma bind_submitted:
  assumes "go_get (aiAttempts r) (at_ID a) = Some a" "TrimSpace (at_ID a) = at_ID a" "at_Status a = AIAttemptStatusRunning"
    and "at_DispatchState a = AIAttemptDispatchSubmitted" "at_ProviderTaskID a = []"
    and "TrimSpace (tk_ProviderTaskID reference) \<noteq> []" "task_free a (TrimSpace (tk_ProviderTaskID reference)) r"
  shows "BindAIAttemptProviderTask t (at_ID a) (at_DispatchVersion a) reference after r =
    (let b = applyAIAttemptDispatchUpdate a (bind_request t (trimmed_reference reference) after a) in (store_attempt b r, Some b, True, []))"
proof -
  let ?q = "bind_request t (trimmed_reference reference) after a"
  have "task_free ?q (at_ProviderTaskID ?q) r" using assms(7) by (simp add: task_free_def bind_request_def trimmed_reference_def)
  then have "updateAIAttemptDispatch ?q (at_DispatchVersion a) r =
      (store_attempt (applyAIAttemptDispatchUpdate a ?q) r, Some (applyAIAttemptDispatchUpdate a ?q), True, [])"
    using assms by (intro update_running) (simp_all add: bind_request_def)
  then show ?thesis using assms
    by (simp add: BindAIAttemptProviderTask_def FindAIAttempt_def trimmed_reference_def Let_def)
qed

lemma resolve_submitted:
  assumes "go_get (aiAttempts r) (at_ID a) = Some a" "TrimSpace (at_ID a) = at_ID a" "at_Status a = AIAttemptStatusRunning"
    and "at_DispatchState a = AIAttemptDispatchSubmitted" "at_ProviderTaskID a = []"
    and "resolveProviderDispatchResult t1 t2 a result r = (r', u, es)"
  shows "dr_Outcome result = ProviderDispatchOutcomeAccepted \<Longrightarrow> TrimSpace (tk_ProviderTaskID (dr_Task result)) \<noteq> [] \<Longrightarrow>
      task_free a (TrimSpace (tk_ProviderTaskID (dr_Task result))) r \<Longrightarrow>
      \<exists>b. go_get (aiAttempts r') (at_ID a) = Some b \<and> at_DispatchState b = AIAttemptDispatchAccepted \<and>
        at_ProviderTaskID b = TrimSpace (tk_ProviderTaskID (dr_Task result)) \<and> u = Some b \<and> es = []"
    and "dr_Outcome result = ProviderDispatchOutcomeProvenNotCreated \<Longrightarrow>
      \<exists>b. go_get (aiAttempts r') (at_ID a) = Some b \<and> at_DispatchState b = AIAttemptDispatchProvenNotCreated \<and>
        at_Status b = AIAttemptStatusSkipped \<and> u = Some b \<and> es = []"
    and "dr_Outcome result \<notin> {ProviderDispatchOutcomeAccepted, ProviderDispatchOutcomeProvenNotCreated} \<or>
      dr_Outcome result = ProviderDispatchOutcomeAccepted \<and> tk_ProviderTaskID (dr_Task result) = [] \<Longrightarrow>
      \<exists>b. go_get (aiAttempts r') (at_ID a) = Some b \<and> at_DispatchState b = AIAttemptDispatchUnknown \<and>
        u = Some b \<and> ErrAIAttemptRequiresReconciliation \<in> set es"
proof -
  note s = assms(1-5)
  show "\<exists>b. go_get (aiAttempts r') (at_ID a) = Some b \<and> at_DispatchState b = AIAttemptDispatchAccepted \<and>
      at_ProviderTaskID b = TrimSpace (tk_ProviderTaskID (dr_Task result)) \<and> u = Some b \<and> es = []"
    if h: "dr_Outcome result = ProviderDispatchOutcomeAccepted" "TrimSpace (tk_ProviderTaskID (dr_Task result)) \<noteq> []"
      "task_free a (TrimSpace (tk_ProviderTaskID (dr_Task result))) r"
  proof -
    let ?b = "applyAIAttemptDispatchUpdate a (bind_request t2 (trimmed_reference (dr_Task result)) (reconcile_time t1 result) a)"
    have "tk_ProviderTaskID (dr_Task result) \<noteq> []" using h(2) by auto
    then have "(r', u, es) = (store_attempt ?b r, Some ?b, [])"
      using assms(6) h(1) bind_submitted [OF s h(2,3), of t2 "reconcile_time t1 result"]
      by (simp add: resolveProviderDispatchResult_def Let_def)
    then show ?thesis by (simp add: bind_request_def trimmed_reference_def)
  qed
  show "\<exists>b. go_get (aiAttempts r') (at_ID a) = Some b \<and> at_DispatchState b = AIAttemptDispatchProvenNotCreated \<and>
      at_Status b = AIAttemptStatusSkipped \<and> u = Some b \<and> es = []"
    if h: "dr_Outcome result = ProviderDispatchOutcomeProvenNotCreated"
  proof -
    obtain r3 u3 c3 es3 where p: "ProveAIAttemptNotCreated t1 t2 (at_ID a) (at_DispatchVersion a) r = (r3, u3, c3, es3)"
      by (cases "ProveAIAttemptNotCreated t1 t2 (at_ID a) (at_DispatchVersion a) r")
    then have "(r', u, es) = (r3, u3, es3)" using assms(6) h by (simp add: resolveProviderDispatchResult_def Let_def)
    then show ?thesis using prove_submitted [OF s p] by auto
  qed
  show "\<exists>b. go_get (aiAttempts r') (at_ID a) = Some b \<and> at_DispatchState b = AIAttemptDispatchUnknown \<and>
      u = Some b \<and> ErrAIAttemptRequiresReconciliation \<in> set es"
    if h: "dr_Outcome result \<notin> {ProviderDispatchOutcomeAccepted, ProviderDispatchOutcomeProvenNotCreated} \<or>
      dr_Outcome result = ProviderDispatchOutcomeAccepted \<and> tk_ProviderTaskID (dr_Task result) = []"
  proof -
    let ?b = "applyAIAttemptDispatchUpdate a (unknown_request t2 (reconcile_time t1 result) a)"
    have "\<exists>es'. (r', u, es) = (store_attempt ?b r, Some ?b, ErrAIAttemptRequiresReconciliation # es')"
      using assms(6) h mark_unknown_submitted [OF s, of t2 "reconcile_time t1 result"] s(4)
      by (auto simp: resolveProviderDispatchResult_def Let_def split: if_splits)
    then show ?thesis by (auto simp: unknown_request_def)
  qed
qed

text \<open>Up to the provider call, \<^verbatim>\<open>ExecuteAIAttemptDispatch\<close> is a run of the interleaving model.\<close>

lemma waiting_submits:
  assumes "waiting k a operation (ds_repo s)"
  obtains s' where "(dispatch_step hash)\<^sup>*\<^sup>* s s'" "ds_repo s' = store_attempt (submitted_of t2 t3 a operation) (ds_repo s)"
    "ds_calls s' k = Suc (ds_calls s k)" "ds_resets s' = ds_resets s"
proof -
  let ?i = "dispatch_intent a operation"
  let ?p = "prepare_request t2 ?i a"
  let ?b = "applyAIAttemptDispatchUpdate a ?p"
  let ?q = "submit_request t3 (t3 + providerDispatchDefaultReconcileDelay) ?b"
  let ?c = "applyAIAttemptDispatchUpdate ?b ?q"
  note w = assms [unfolded waiting_def]
  let ?s1 = "s\<lparr>ds_open := insert (Prepare, ?p, at_DispatchVersion a) (ds_open s)\<rparr>"
  let ?s2 = "?s1\<lparr>ds_repo := store_attempt ?b (ds_repo s)\<rparr>"
  let ?s3 = "?s2\<lparr>ds_open := insert (Submit, ?q, at_DispatchVersion ?b) (ds_open ?s2)\<rparr>"
  let ?s4 = "?s3\<lparr>ds_repo := store_attempt ?c (ds_repo s), ds_calls := (ds_calls s)(k := Suc (ds_calls s k))\<rparr>"
  have 1: "dispatch_step hash s ?s1" using w by (intro dispatch_step.read [of s k a]) (auto intro: requests.prepare)
  have u1: "UpdateAIAttemptDispatch ?p (at_DispatchVersion a) (ds_repo ?s1) = (store_attempt ?b (ds_repo s), Inr (Some ?b, True))"
    using w Update_running [of "ds_repo s" ?p a] by (simp add: prepare_request_def)
  have 2: "dispatch_step hash ?s1 ?s2"
    using dispatch_step.send [of Prepare ?p "at_DispatchVersion a" ?s1, OF _ u1, of hash] by (simp add: count_if_def)
  have "requests Submit ?b ?q" by (rule requests.submit) (simp add: prepare_request_def)
  then have 3: "dispatch_step hash ?s2 ?s3" using w by (intro dispatch_step.read [of ?s2 k ?b]) simp_all
  have ids: "at_ID ?q = k" "at_ID ?b = k" "at_ProviderTaskID ?q = []" "at_Status ?b = AIAttemptStatusRunning"
    using w by (simp_all add: request_defs)
  have u3: "UpdateAIAttemptDispatch ?q (at_DispatchVersion ?b) (ds_repo ?s3) = (store_attempt ?c (ds_repo s), Inr (Some ?c, True))"
    using Update_running [of "ds_repo ?s3" ?q ?b] ids by (simp add: store_attempt_twice)
  have "dispatch_step hash ?s3 ?s4"
    using dispatch_step.send [of Submit ?q "at_DispatchVersion ?b" ?s3, OF _ u3, of hash] by (simp add: count_if_def ids(1) written_def)
  with 1 2 3 have "(dispatch_step hash)\<^sup>*\<^sup>* s ?s4" by (meson converse_rtranclp_into_rtranclp rtranclp.rtrancl_refl)
  then show ?thesis by (rule that) (simp_all add: submitted_of_def Let_def)
qed

section \<open>An example\<close>

definition example_provider :: GatewayProvider where
  "example_provider = \<lparr>gp_ID = ''p'', gp_AccountID = ''c'', gp_AdapterID = [], gp_RouteID = [], gp_UpstreamModel = ''m''\<rparr>"

definition example_attempt :: AIAttempt where
  "example_attempt = new_attempt ''1'' 5 ''a'' 1 example_provider"

definition example_waiting :: MemoryRepository where
  "example_waiting = NewMemoryRepository\<lparr>aiOperations := [(''a'', normalizeAIOperation (example_operation ''a''))],
     aiAttempts := [(''attempt_1'', example_attempt)]\<rparr>"

lemma example_attempt_sel:
  "at_ID example_attempt = ''attempt_1''" "at_OperationID example_attempt = ''a''" "at_Status example_attempt = AIAttemptStatusRunning"
  "at_DispatchState example_attempt = AIAttemptDispatchPending" "at_DispatchIntentJSON example_attempt = None"
  "at_ProviderTaskID example_attempt = []" "normalizeAIAttempt example_attempt = example_attempt"
  by (simp_all add: example_attempt_def new_attempt_def example_TrimSpace normalizeAIAttempt_def Let_def AIAttemptDispatchPending_def)

lemma example_is_waiting:
  "waiting ''attempt_1'' example_attempt (normalizeAIOperation (example_operation ''a'')) example_waiting"
  "keyed at_ID (aiAttempts example_waiting)"
proof -
  have "TrimSpace ''attempt_1'' = ''attempt_1''" by code_simp
  then show "waiting ''attempt_1'' example_attempt (normalizeAIOperation (example_operation ''a'')) example_waiting"
    by (simp add: waiting_def example_attempt_sel example_waiting_def) (simp add: example_operation_def)
  show "keyed at_ID (aiAttempts example_waiting)" by (simp add: example_waiting_def keyed_def example_attempt_sel)
qed

lemma example_dispatch_run: "\<exists>s. (dispatch_step id)\<^sup>*\<^sup>* new_system s \<and> ds_repo s = example_waiting \<and> ds_calls s = (\<lambda>_. 0)"
proof -
  let ?r = "fst (CreateAIOperation (example_operation ''a'') NewMemoryRepository)"
  let ?s1 = "new_system\<lparr>ds_repo := ?r\<rparr>"
  have r: "?r = NewMemoryRepository\<lparr>aiOperations := [(''a'', normalizeAIOperation (example_operation ''a''))]\<rparr>"
    by (simp add: CreateAIOperation_def find_idempotent_def Let_def example_operation_def)
  have "dispatch_step id new_system ?s1"
    using repo_call.create_operation [where hash = id and r = NewMemoryRepository and operation = "example_operation ''a''"]
    by (intro dispatch_step.other) (simp_all add: new_system_def r)
  moreover have "fst (BeginAIAttempt ''1'' 5 ''a'' 1 example_provider ?r) = example_waiting"
    by (simp add: BeginAIAttempt_def example_TrimSpace CreateOrGetAIAttempt_def r example_attempt_def [symmetric] example_attempt_sel
        example_waiting_def Let_def)
  then have "dispatch_step id ?s1 (?s1\<lparr>ds_repo := example_waiting\<rparr>)"
    using dispatch_step.begin_attempt [of id ?s1 "''1''" 5 "''a''" 1 example_provider] by simp
  ultimately have "(dispatch_step id)\<^sup>*\<^sup>* new_system (?s1\<lparr>ds_repo := example_waiting\<rparr>)" by (meson converse_rtranclp_into_rtranclp rtranclp.rtrancl_refl)
  then show ?thesis by (intro exI conjI, assumption) (simp_all add: new_system_def)
qed

definition example_answer :: ProviderDispatchResult where
  "example_answer = \<lparr>dr_Outcome = ProviderDispatchOutcomeAccepted,
     dr_Task = \<lparr>tk_ProviderTaskID = ''b'', tk_ProviderRequestID = [], tk_Status = [], tk_AcceptedAt = 0\<rparr>, dr_Progress = None, dr_Outputs = [],
     dr_UsageDimensions = [], dr_Billing = \<lparr>pb_Status = [], pb_ProcurementCostMicros = None, pb_Currency = [], pb_Source = [],
       pb_Confidence = [], pb_PriceID = [], pb_ProviderBillingLineID = []\<rparr>, dr_ReconcileAfter = 0\<rparr>"

section \<open>Properties\<close>

text \<open>
  C11: a provider task is created once. In every interleaving of callers an attempt is submitted to
  its provider at most once more than it was reset, and a reset needs that the answer of the provider
  was lost and no task is known. Once a task is bound, the attempt keeps that task and is never
  submitted again.
\<close>

theorem dispatch_once:
  assumes "(dispatch_step hash)\<^sup>*\<^sup>* new_system s"
  shows "ds_calls s k \<le> Suc (ds_resets s k) \<and>
    (\<forall>a s'. go_get (aiAttempts (ds_repo s)) k = Some a \<and> at_ProviderTaskID a \<noteq> [] \<and> (dispatch_step hash)\<^sup>*\<^sup>* s s' \<longrightarrow>
       ds_calls s' k = ds_calls s k \<and>
       (\<exists>a'. go_get (aiAttempts (ds_repo s')) k = Some a' \<and> at_ProviderTaskID a' = at_ProviderTaskID a))"
proof -
  have inv: "system_inv s" using dispatch_steps_inv [OF assms new_system_inv] .
  have "counts_at (ds_calls s k) (ds_resets s k) (go_get (aiAttempts (ds_repo s)) k)" using inv by (simp add: system_inv_def)
  then have "ds_calls s k \<le> Suc (ds_resets s k)" by (cases "go_get (aiAttempts (ds_repo s)) k") (auto simp: counts_ok_def)
  moreover have "ds_calls s' k = ds_calls s k \<and> (\<exists>a'. go_get (aiAttempts (ds_repo s')) k = Some a' \<and> at_ProviderTaskID a' = at_ProviderTaskID a)"
    if "go_get (aiAttempts (ds_repo s)) k = Some a" "at_ProviderTaskID a \<noteq> []" "(dispatch_step hash)\<^sup>*\<^sup>* s s'" for a s'
    using bound_steps [OF that(3) inv, of k "at_ProviderTaskID a"] that(1,2) by (auto simp: bound_def)
  ultimately show ?thesis by blast
qed

theorem dispatch_once_witness:
  "\<exists>s. (dispatch_step id)\<^sup>*\<^sup>* new_system s \<and> ds_calls s ''attempt_1'' = 1 \<and> ds_calls s ''attempt_1'' \<le> Suc (ds_resets s ''attempt_1'')"
proof -
  obtain s where s: "(dispatch_step id)\<^sup>*\<^sup>* new_system s" "ds_repo s = example_waiting" "ds_calls s = (\<lambda>_. 0)"
    using example_dispatch_run by blast
  obtain s' where s': "(dispatch_step id)\<^sup>*\<^sup>* s s'" "ds_calls s' ''attempt_1'' = Suc (ds_calls s ''attempt_1'')"
    using waiting_submits [of "''attempt_1''" example_attempt "normalizeAIOperation (example_operation ''a'')" s id 5 5] example_is_waiting(1)
    unfolding s(2) by blast
  have "(dispatch_step id)\<^sup>*\<^sup>* new_system s'" using s(1) s'(1) by simp
  then show ?thesis using dispatch_once [of id s' "''attempt_1''"] s'(2) s(3) by (intro exI [of _ s']) simp
qed

text \<open>
  What a dispatch ends in. For an attempt that waits to be dispatched the provider is called
  exactly once, with the intent of the attempt. If it accepts with a new task, the attempt is bound to
  the task; if it proves that nothing was created, the attempt is closed; with every other answer the
  attempt is recorded as unknown and the caller is told to reconcile.
\<close>

theorem dispatch_outcome:
  assumes "keyed at_ID (aiAttempts r)" "waiting k a operation r"
    and "exec \<lparr>dc_Intent = dispatch_intent a operation, dc_Payload = payload\<rparr> = (result, err)"
    and "ExecuteAIAttemptDispatch t1 t2 t3 k payload exec r = (r', u, answer, es)"
  shows "answer = Some result \<and>
    (dr_Outcome result = ProviderDispatchOutcomeAccepted \<and> TrimSpace (tk_ProviderTaskID (dr_Task result)) \<noteq> [] \<and>
       task_free a (TrimSpace (tk_ProviderTaskID (dr_Task result))) r \<longrightarrow>
       (\<exists>b. go_get (aiAttempts r') k = Some b \<and> at_DispatchState b = AIAttemptDispatchAccepted \<and>
         at_ProviderTaskID b = TrimSpace (tk_ProviderTaskID (dr_Task result)) \<and> u = Some b \<and> es = joined err [])) \<and>
    (dr_Outcome result = ProviderDispatchOutcomeProvenNotCreated \<longrightarrow>
       (\<exists>b. go_get (aiAttempts r') k = Some b \<and> at_DispatchState b = AIAttemptDispatchProvenNotCreated \<and>
         at_Status b = AIAttemptStatusSkipped \<and> u = Some b \<and> es = joined err [])) \<and>
    (dr_Outcome result \<notin> {ProviderDispatchOutcomeAccepted, ProviderDispatchOutcomeProvenNotCreated} \<or>
       dr_Outcome result = ProviderDispatchOutcomeAccepted \<and> tk_ProviderTaskID (dr_Task result) = [] \<longrightarrow>
       (\<exists>b. go_get (aiAttempts r') k = Some b \<and> at_DispatchState b = AIAttemptDispatchUnknown \<and>
         u = Some b \<and> ErrAIAttemptRequiresReconciliation \<in> set es))"
proof -
  let ?s = "submitted_of t2 t3 a operation"
  let ?r = "store_attempt ?s r"
  note w = assms(2) [unfolded waiting_def]
  have s: "go_get (aiAttempts ?r) (at_ID ?s) = Some ?s" "TrimSpace (at_ID ?s) = at_ID ?s" "at_Status ?s = AIAttemptStatusRunning"
    "at_DispatchState ?s = AIAttemptDispatchSubmitted" "at_ProviderTaskID ?s = []" using w by simp_all
  obtain r2 u2 es2 where res: "resolveProviderDispatchResult t3 t3 ?s result ?r = (r2, u2, es2)"
    by (cases "resolveProviderDispatchResult t3 t3 ?s result ?r")
  have out: "r' = r2" "u = u2" "es = joined err es2" "answer = Some result"
    using assms(3,4) res by (simp_all add: ExecuteAIAttemptDispatch_def execute_waiting [OF assms(1,2)])
  have id: "at_ID ?s = k" using w by simp
  have "set es2 \<subseteq> set es" by (auto simp: out(3) joined_def split: option.splits)
  moreover have "task_free ?s task ?r" if "task_free a task r" for task
    using that task_free_store [OF assms(1), of a _ ?s ?s] by simp
  ultimately show ?thesis using resolve_submitted [OF s res] unfolding out(1,2,4) id by (auto simp: out(3))
qed

theorem dispatch_outcome_witness:
  "\<exists>r' u es b. ExecuteAIAttemptDispatch 5 5 5 ''attempt_1'' ''x'' (\<lambda>_. (example_answer, None)) example_waiting = (r', u, Some example_answer, es) \<and>
     go_get (aiAttempts r') ''attempt_1'' = Some b \<and> at_DispatchState b = AIAttemptDispatchAccepted \<and> at_ProviderTaskID b = ''b''"
proof -
  obtain r' u answer es where e: "ExecuteAIAttemptDispatch 5 5 5 ''attempt_1'' ''x'' (\<lambda>_. (example_answer, None)) example_waiting = (r', u, answer, es)"
    by (cases "ExecuteAIAttemptDispatch 5 5 5 ''attempt_1'' ''x'' (\<lambda>_. (example_answer, None)) example_waiting")
  have "task_free example_attempt ''b'' example_waiting" by (simp add: task_free_def example_waiting_def)
  then have "answer = Some example_answer \<and> (\<exists>b. go_get (aiAttempts r') ''attempt_1'' = Some b \<and>
      at_DispatchState b = AIAttemptDispatchAccepted \<and> at_ProviderTaskID b = ''b'')"
    using dispatch_outcome [OF example_is_waiting(2,1) refl e] by (auto simp: example_answer_def example_TrimSpace)
  with e show ?thesis by blast
qed

text \<open>
  A dispatch is not repeated by a retry. If the attempt was submitted and either has not been
  given up as unknown or has a task bound, executing its dispatch again asks no provider, changes
  nothing and returns an error, whatever the provider would have answered.
\<close>

theorem dispatch_replay:
  assumes "go_get (aiAttempts r) k = Some a" "TrimSpace k = k" "at_ID a = k" "at_DispatchSubmittedAt a \<noteq> None"
    and "at_DispatchState a \<in> {AIAttemptDispatchSubmitted, AIAttemptDispatchAccepted} \<or>
      at_DispatchState a = AIAttemptDispatchUnknown \<and> at_ProviderTaskID a \<noteq> []"
  shows "\<exists>u es. es \<noteq> [] \<and> (\<forall>exec. ExecuteAIAttemptDispatch t1 t2 t3 k payload exec r = (r, u, None, es))"
proof -
  obtain r1 u changed es where p: "PrepareAIAttemptDispatch t1 t2 k r = (r1, u, changed, es)" by (cases "PrepareAIAttemptDispatch t1 t2 k r")
  then have prep: "r1 = r \<and> (es \<noteq> [] \<or> es = [] \<and> u = Some a \<and> at_DispatchState a \<noteq> AIAttemptDispatchUnknown)"
    using assms by (auto simp: PrepareAIAttemptDispatch_def FindAIAttempt_def prepare_pending_def Let_def split: option.splits if_splits)
  have mark: "MarkAIAttemptDispatchSubmitted t3 k v after r = (r, Some a, False, [])" for v after
    using assms by (auto simp: MarkAIAttemptDispatchSubmitted_def FindAIAttempt_def)
  have "\<exists>u es. es \<noteq> [] \<and> execute_begin t1 t2 t3 k r = (r, Inl (u, es))"
    using prep assms(3) by (cases es) (auto simp: execute_begin_def p mark split: option.splits sum.splits)
  then show ?thesis by (auto simp: ExecuteAIAttemptDispatch_def)
qed

theorem dispatch_replay_witness:
  "\<exists>r u es. es \<noteq> [] \<and> (\<forall>exec. ExecuteAIAttemptDispatch 6 6 6 ''attempt_1'' ''x'' exec r = (r, u, None, es))"
proof -
  let ?s = "submitted_of 5 5 example_attempt (example_operation ''a'')"
  have "TrimSpace ''attempt_1'' = ''attempt_1''" by code_simp
  then show ?thesis
    using dispatch_replay [of "store_attempt ?s example_waiting" "''attempt_1''" ?s 6 6 6 "''x''"]
    by (intro exI [of _ "store_attempt ?s example_waiting"])
      (auto simp: example_attempt_sel submitted_of_def Let_def applyAIAttemptDispatchUpdate_def request_defs)
qed

end
