(* ===== verification/AI_Job_Service.thy ===== *)
theory AI_Job_Service
  imports Repository_Properties AI_Job_Delivery_Queue
begin

text \<open>
  The job service over the repository, the ready index and the delivery queue:
  \<^verbatim>\<open>backend/internal/controlplane/ai_job_service.go\<close>, and the scheduler and the rebuild of
  \<^verbatim>\<open>ai_job_delivery_worker.go\<close>.

  The service reaches the index through the interface \<^verbatim>\<open>AIJobReadyIndex\<close>, here a record of its
  operations, and goes on when the index fails. Decryption of a payload is the parameter \<open>decrypt\<close>, the
  random part of a lease token an argument. The queue is the in-memory one. A loop that publishes reads
  the clock for each job; the loop has one time as its argument.
\<close>

section \<open>Data\<close>

datatype job_service_error =
    JobServiceRepo repo_error
  | JobServiceDelivery delivery_error
  | JobServiceLeaseDuration
  | JobServiceRetryDelay
  | JobServiceDecrypt
  | JobServiceReady ready_error
  | ErrAIJobStateConflict

record 's ready_ops =
  ix_register :: "AIJobReadyEntry \<Rightarrow> 's \<Rightarrow> 's \<times> ready_error option"
  ix_remove :: "AIJobReadyReference \<Rightarrow> 's \<Rightarrow> 's \<times> ready_error option"
  ix_candidates :: "AIJobReadyQuery \<Rightarrow> 's \<Rightarrow> AIJobReadyEntry list option"

definition memory_ops :: "MemoryAIJobReadyIndex ready_ops" where
  "memory_ops = \<lparr>ix_register = ready_Register, ix_remove = ready_Remove, ix_candidates = (\<lambda>q st. Some (ready_Candidates q st))\<rparr>"

record 's job_service =
  sv_repo :: MemoryRepository
  sv_index :: "'s option"
  sv_queue :: MemoryAIJobDeliveryQueue

abbreviation index_register :: "'s ready_ops \<Rightarrow> AIJob \<Rightarrow> 's option \<Rightarrow> 's option" where
  "index_register ops \<equiv> registerAIJobReadyState (ix_register ops)"

abbreviation index_remove :: "'s ready_ops \<Rightarrow> AIJobReadyReference \<Rightarrow> 's option \<Rightarrow> 's option" where
  "index_remove ops \<equiv> removeAIJobReadyReference (ix_remove ops)"

section \<open>Changes of one job\<close>

definition index_replace :: "'s ready_ops \<Rightarrow> string \<Rightarrow> int \<Rightarrow> AIJob \<Rightarrow> 's option \<Rightarrow> 's option" where
  "index_replace ops k version job index = index_register ops job (index_remove ops \<lparr>rr_JobID = k, rr_StatusVersion = version\<rparr> index)"

definition CancelAIJobForAuth ::
  "(string \<Rightarrow> string) \<Rightarrow> 's ready_ops \<Rightarrow> gotime \<Rightarrow> AIJobOwner \<Rightarrow> string \<Rightarrow> 's job_service \<Rightarrow>
   's job_service \<times> (job_service_error + AIJob option)" where
  "CancelAIJobForAuth hash ops now owner k s =
     (case RequestAIJobCancellation hash (TrimSpace k) owner now (sv_repo s) of
        (r, Inl e) \<Rightarrow> (s\<lparr>sv_repo := r\<rparr>, Inl (JobServiceRepo e))
      | (r, Inr None) \<Rightarrow> (s\<lparr>sv_repo := r\<rparr>, Inr None)
      | (r, Inr (Some (job, _))) \<Rightarrow>
          (s\<lparr>sv_repo := r, sv_index := (if job_StatusVersion job > 1
               then index_replace ops (job_ID job) (job_StatusVersion job - 1) job (sv_index s) else sv_index s)\<rparr>, Inr (Some job)))"

definition updated_job :: "'s ready_ops \<Rightarrow> string \<Rightarrow> int \<Rightarrow> (AIJob option \<times> bool) repo_result \<Rightarrow> 's job_service \<Rightarrow>
   's job_service \<times> (job_service_error + AIJob)" where
  "updated_job ops k expectedVersion reply s =
     (case reply of
        (r, Inl e) \<Rightarrow> (s\<lparr>sv_repo := r\<rparr>, Inl (JobServiceRepo e))
      | (r, Inr (Some job, True)) \<Rightarrow>
          (s\<lparr>sv_repo := r, sv_index := index_replace ops k expectedVersion job (sv_index s)\<rparr>, Inr job)
      | (r, Inr _) \<Rightarrow> (s\<lparr>sv_repo := r\<rparr>, Inl ErrAIJobStateConflict))"

definition Service_TransitionAIJob ::
  "(string \<Rightarrow> string) \<Rightarrow> 's ready_ops \<Rightarrow> gotime \<Rightarrow> string \<Rightarrow> int \<Rightarrow> int \<Rightarrow> string \<Rightarrow> string \<Rightarrow> 's job_service \<Rightarrow>
   's job_service \<times> (job_service_error + AIJob)" where
  "Service_TransitionAIJob hash ops now k expectedVersion fenceToken toStatus reason s =
     updated_job ops (TrimSpace k) expectedVersion
       (TransitionAIJob hash (TrimSpace k) expectedVersion fenceToken (TrimSpace toStatus) (TrimSpace reason) now (sv_repo s)) s"

definition Service_RequeueAIJob ::
  "(string \<Rightarrow> string) \<Rightarrow> 's ready_ops \<Rightarrow> gotime \<Rightarrow> string \<Rightarrow> int \<Rightarrow> int \<Rightarrow> string \<Rightarrow> duration \<Rightarrow> 's job_service \<Rightarrow>
   's job_service \<times> (job_service_error + AIJob)" where
  "Service_RequeueAIJob hash ops now k expectedVersion fenceToken reason delay s =
     (if delay < 0 then (s, Inl JobServiceRetryDelay)
      else updated_job ops (TrimSpace k) expectedVersion
        (RequeueAIJob hash (TrimSpace k) expectedVersion fenceToken (TrimSpace reason) (now + delay) now (sv_repo s)) s)"

definition Service_ExtendAIJobQueueLease ::
  "(string \<Rightarrow> string) \<Rightarrow> 's ready_ops \<Rightarrow> gotime \<Rightarrow> AIJobDeliveryEnvelope \<Rightarrow> duration \<Rightarrow> 's job_service \<Rightarrow>
   's job_service \<times> (job_service_error + AIJob)" where
  "Service_ExtendAIJobQueueLease hash ops now envelope leaseDuration s =
     (case validateAIJobDeliveryEnvelope hash envelope of
        Some e \<Rightarrow> (s, Inl (JobServiceDelivery e))
      | None \<Rightarrow>
          if leaseDuration \<le> 0 then (s, Inl JobServiceLeaseDuration)
          else (case ExtendAIJobQueueLease (env_JobID envelope) (env_StatusVersion envelope) (env_FenceToken envelope)
                       (env_QueueLeaseToken envelope) (now + leaseDuration) now (sv_repo s) of
                  (r, job, extended) \<Rightarrow> updated_job ops (env_JobID envelope) (env_StatusVersion envelope) (r, Inr (job, extended)) s))"

section \<open>Claiming\<close>

definition reconcile_candidate ::
  "'s ready_ops \<Rightarrow> string list \<Rightarrow> gotime \<Rightarrow> MemoryRepository \<Rightarrow> 's option \<Rightarrow> AIJobReadyEntry \<Rightarrow> 's option" where
  "reconcile_candidate ops claimedIDs now r index candidate =
     (if re_JobID candidate \<in> set claimedIDs then index_remove ops (entry_reference candidate) index
      else (case FindAIJob (re_JobID candidate) r of
              None \<Rightarrow> index_remove ops (entry_reference candidate) index
            | Some job \<Rightarrow>
                if job_StatusVersion job \<noteq> re_StatusVersion candidate \<or>
                   \<not> oneOf (job_Status job) [AIJobStatusQueued, AIJobStatusDispatching] \<or>
                   \<not> aiJobReadyForClaim job now \<or> aiJobReadyAt job \<noteq> re_ReadyAt candidate
                then index_register ops job (index_remove ops (entry_reference candidate) index) else index))"

definition reconcileAIJobReadyCandidates ::
  "'s ready_ops \<Rightarrow> AIJobReadyEntry list \<Rightarrow> AIJob list \<Rightarrow> gotime \<Rightarrow> MemoryRepository \<Rightarrow> 's option \<Rightarrow> 's option" where
  "reconcileAIJobReadyCandidates ops candidates claimed now r index =
     foldl (reconcile_candidate ops (map job_ID claimed) now r) index candidates"

definition claim_indexed ::
  "(string \<Rightarrow> string) \<Rightarrow> 's ready_ops \<Rightarrow> gotime \<Rightarrow> gotime \<Rightarrow> string \<Rightarrow> string \<Rightarrow> int \<Rightarrow> 's job_service \<Rightarrow>
   's job_service \<times> (repo_error + AIJob list)" where
  "claim_indexed hash ops now leaseUntil workerID leaseToken limit s =
     (case sv_index s of
        None \<Rightarrow> (s, Inr [])
      | Some st \<Rightarrow>
          (case ix_candidates ops \<lparr>rq_ReadyAt = now, rq_Limit = aiJobReadyCandidateLimit limit\<rparr> st of
             None \<Rightarrow> (s, Inr [])
           | Some [] \<Rightarrow> (s, Inr [])
           | Some indexed \<Rightarrow>
               (case ClaimAIJobsByReadyReferences hash (map entry_reference indexed) now leaseUntil workerID leaseToken limit (sv_repo s) of
                  (r, Inl e) \<Rightarrow> (s\<lparr>sv_repo := r\<rparr>, Inl e)
                | (r, Inr claimed) \<Rightarrow>
                    (s\<lparr>sv_repo := r, sv_index := reconcileAIJobReadyCandidates ops indexed claimed now r (sv_index s)\<rparr>, Inr claimed))))"

text \<open>
  The two claims are calls of their own: \<open>between\<close> is what other callers do to the service after the
  first and before the second.
\<close>

definition claim_jobs ::
  "(string \<Rightarrow> string) \<Rightarrow> 's ready_ops \<Rightarrow> ('s job_service \<Rightarrow> 's job_service) \<Rightarrow> gotime \<Rightarrow> gotime \<Rightarrow> string \<Rightarrow> string \<Rightarrow> int \<Rightarrow>
   's job_service \<Rightarrow> 's job_service \<times> (repo_error + AIJob list)" where
  "claim_jobs hash ops between now leaseUntil workerID leaseToken limit s =
     (case claim_indexed hash ops now leaseUntil workerID leaseToken limit s of
        (s0, Inl e) \<Rightarrow> (s0, Inl e)
      | (s0, Inr jobs) \<Rightarrow>
          (let s1 = between s0 in
           if int (length jobs) < limit
           then (case ClaimQueuedAIJobs hash now leaseUntil workerID leaseToken (limit - int (length jobs)) (sv_repo s1) of
                   (r, Inl e) \<Rightarrow> (s1\<lparr>sv_repo := r\<rparr>, Inl e)
                 | (r, Inr claimed) \<Rightarrow> (s1\<lparr>sv_repo := r\<rparr>, Inr (jobs @ claimed)))
           else (s1, Inr jobs)))"

fun decrypt_payloads :: "(string \<Rightarrow> string option) \<Rightarrow> AIJob list \<Rightarrow> AIJob list option" where
  "decrypt_payloads decrypt [] = Some []"
| "decrypt_payloads decrypt (job # jobs) =
     (case decrypt (job_RequestPayloadCiphertext job) of
        None \<Rightarrow> None
      | Some payload \<Rightarrow>
          map_option (\<lambda>rest. job\<lparr>job_RequestPayload := payload, job_RequestPayloadCiphertext := []\<rparr> # rest) (decrypt_payloads decrypt jobs))"

definition claimReadyAIJobs ::
  "(string \<Rightarrow> string) \<Rightarrow> 's ready_ops \<Rightarrow> (string \<Rightarrow> string option) \<Rightarrow> ('s job_service \<Rightarrow> 's job_service) \<Rightarrow> gotime \<Rightarrow> string \<Rightarrow> string \<Rightarrow> duration \<Rightarrow> int \<Rightarrow> bool \<Rightarrow>
   's job_service \<Rightarrow> 's job_service \<times> (job_service_error + AIJob list)" where
  "claimReadyAIJobs hash ops decrypt between now randomID workerID leaseDuration limit includePayload s =
     (if leaseDuration \<le> 0 then (s, Inl JobServiceLeaseDuration)
      else if limit \<le> 0 then (s, Inr [])
      else (case claim_jobs hash ops between now (now + leaseDuration) (TrimSpace workerID) (''job_lease_'' @ randomID) limit s of
              (s1, Inl e) \<Rightarrow> (s1, Inl (JobServiceRepo e))
            | (s1, Inr jobs) \<Rightarrow>
                (let s2 = s1\<lparr>sv_index := foldl (\<lambda>index job. index_register ops job index) (sv_index s1) jobs\<rparr> in
                 if \<not> includePayload then (s2, Inr jobs)
                 else (case decrypt_payloads decrypt jobs of None \<Rightarrow> (s2, Inl JobServiceDecrypt) | Some out \<Rightarrow> (s2, Inr out)))))"

definition claimReadyAIJobMetadata ::
  "(string \<Rightarrow> string) \<Rightarrow> 's ready_ops \<Rightarrow> ('s job_service \<Rightarrow> 's job_service) \<Rightarrow> gotime \<Rightarrow> string \<Rightarrow> string \<Rightarrow> duration \<Rightarrow> int \<Rightarrow> 's job_service \<Rightarrow>
   's job_service \<times> (job_service_error + AIJob list)" where
  "claimReadyAIJobMetadata hash ops between now randomID workerID leaseDuration limit s =
     claimReadyAIJobs hash ops (\<lambda>_. None) between now randomID workerID leaseDuration limit False s"

section \<open>The scheduler and the rebuild\<close>

definition publishAIJobDelivery ::
  "(string \<Rightarrow> string) \<Rightarrow> gotime \<Rightarrow> AIJob \<Rightarrow> MemoryAIJobDeliveryQueue \<Rightarrow> MemoryAIJobDeliveryQueue \<times> delivery_error option" where
  "publishAIJobDelivery hash now job q =
     (case NewAIJobDeliveryEnvelope hash job of
        Inl e \<Rightarrow> (q, Some e)
      | Inr envelope \<Rightarrow> dq_Publish hash now envelope (DedupeKey envelope) now q)"

record DurableAIJobSchedulerReport =
  sch_Claimed :: int
  sch_Published :: int
  sch_Errors :: int

fun publish_jobs ::
  "(string \<Rightarrow> string) \<Rightarrow> gotime \<Rightarrow> AIJob list \<Rightarrow> int \<Rightarrow> job_service_error list \<Rightarrow> MemoryAIJobDeliveryQueue \<Rightarrow>
   MemoryAIJobDeliveryQueue \<times> int \<times> job_service_error list" where
  "publish_jobs hash now [] published errs q = (q, published, errs)"
| "publish_jobs hash now (job # jobs) published errs q =
     (case publishAIJobDelivery hash now job q of
        (q', Some e) \<Rightarrow> publish_jobs hash now jobs published (errs @ [JobServiceDelivery e]) q'
      | (q', None) \<Rightarrow> publish_jobs hash now jobs (published + 1) errs q')"

definition RunDurableAIJobSchedulerOnce ::
  "(string \<Rightarrow> string) \<Rightarrow> 's ready_ops \<Rightarrow> ('s job_service \<Rightarrow> 's job_service) \<Rightarrow> gotime \<Rightarrow> gotime \<Rightarrow> string \<Rightarrow> string \<Rightarrow> duration \<Rightarrow> int \<Rightarrow> 's job_service \<Rightarrow>
   's job_service \<times> DurableAIJobSchedulerReport \<times> job_service_error list" where
  "RunDurableAIJobSchedulerOnce hash ops between t1 t2 randomID workerID leaseDuration limit s =
     (case claimReadyAIJobMetadata hash ops between t1 randomID workerID leaseDuration limit s of
        (s1, Inl e) \<Rightarrow> (s1, \<lparr>sch_Claimed = 0, sch_Published = 0, sch_Errors = 0\<rparr>, [e])
      | (s1, Inr jobs) \<Rightarrow>
          (case publish_jobs hash t2 jobs 0 [] (sv_queue s1) of
             (q, published, errs) \<Rightarrow>
               (s1\<lparr>sv_queue := q\<rparr>,
                \<lparr>sch_Claimed = int (length jobs), sch_Published = published, sch_Errors = int (length errs)\<rparr>, errs)))"

record DurableAIJobDeliveryRebuildReport =
  rb_Scanned :: int
  rb_Reindexed :: int
  rb_Republished :: int
  rb_Claimed :: int
  rb_Published :: int
  rb_Errors :: int

fun reindex_jobs :: "'s ready_ops \<Rightarrow> AIJob list \<Rightarrow> int \<Rightarrow> job_service_error list \<Rightarrow> 's \<Rightarrow> 's \<times> int \<times> job_service_error list" where
  "reindex_jobs ops [] reindexed errs st = (st, reindexed, errs)"
| "reindex_jobs ops (job # jobs) reindexed errs st =
     (case newAIJobReadyEntry job of
        Inl e \<Rightarrow> reindex_jobs ops jobs reindexed (errs @ [JobServiceReady e]) st
      | Inr entry \<Rightarrow>
          (case ix_register ops entry st of
             (st', Some e) \<Rightarrow> reindex_jobs ops jobs reindexed (errs @ [JobServiceReady e]) st'
           | (st', None) \<Rightarrow> reindex_jobs ops jobs (reindexed + 1) errs st'))"

definition RebuildDurableAIJobDeliveriesOnce ::
  "(string \<Rightarrow> string) \<Rightarrow> 's ready_ops \<Rightarrow> ('s job_service \<Rightarrow> 's job_service) \<Rightarrow> gotime \<Rightarrow> gotime \<Rightarrow> gotime \<Rightarrow> string \<Rightarrow> string \<Rightarrow> duration \<Rightarrow> int \<Rightarrow> 's job_service \<Rightarrow>
   's job_service \<times> DurableAIJobDeliveryRebuildReport \<times> job_service_error list" where
  "RebuildDurableAIJobDeliveriesOnce hash ops between t1 t2 t3 randomID workerID leaseDuration limit s =
     (if limit \<le> 0 then (s, \<lparr>rb_Scanned = 0, rb_Reindexed = 0, rb_Republished = 0, rb_Claimed = 0, rb_Published = 0, rb_Errors = 0\<rparr>, [])
      else
        (let jobs = ListAIJobsForDeliveryRebuild t1 limit (sv_repo s) in
         case publish_jobs hash t2 jobs 0 [] (sv_queue s) of
           (q, published, errs) \<Rightarrow>
             (let (index, reindexed, errs') =
                    (case sv_index s of
                       None \<Rightarrow> (None, 0, errs)
                     | Some st \<Rightarrow>
                         (case reindex_jobs ops (ListAIJobsForReadyIndex (aiJobReadyCandidateLimit limit) (sv_repo s)) 0 errs st of
                            (st', n, es) \<Rightarrow> (Some st', n, es)));
                  s1 = s\<lparr>sv_queue := q, sv_index := index\<rparr>;
                  remaining = limit - int (length jobs);
                  report = \<lparr>rb_Scanned = int (length jobs), rb_Reindexed = reindexed, rb_Republished = published, rb_Claimed = 0,
                    rb_Published = published, rb_Errors = int (length errs')\<rparr>
              in if remaining \<le> 0 then (s1, report, errs')
                 else (case RunDurableAIJobSchedulerOnce hash ops between t3 t3 randomID workerID leaseDuration remaining s1 of
                         (s2, scheduled, es) \<Rightarrow>
                           (s2, report\<lparr>rb_Claimed := sch_Claimed scheduled, rb_Published := published + sch_Published scheduled,
                              rb_Errors := int (length errs') + sch_Errors scheduled\<rparr>, errs' @ es)))))"

definition aiJobDeliveryMatches :: "AIJob \<Rightarrow> AIJobDeliveryEnvelope \<Rightarrow> gotime \<Rightarrow> bool" where
  "aiJobDeliveryMatches job envelope now \<longleftrightarrow>
     job_OperationID job = env_OperationID envelope \<and> job_Status job = AIJobStatusDispatching \<and>
     job_StatusVersion job = env_StatusVersion envelope \<and> job_FenceToken job = env_FenceToken envelope \<and>
     TrimSpace (job_QueueLeaseToken job) = TrimSpace (env_QueueLeaseToken envelope) \<and>
     (case job_QueueLeaseUntil job of Some u \<Rightarrow> u > now | None \<Rightarrow> False)"

section \<open>What a claim does\<close>

definition ready_keys :: "gotime \<Rightarrow> MemoryRepository \<Rightarrow> string set" where
  "ready_keys now r = {k. \<exists>j. go_get (aiJobs r) k = Some j \<and> aiJobReadyForClaim j now}"

lemma ready_keys_card:
  assumes "jobs_inv r"
  shows "finite (ready_keys now r)" "card (ready_keys now r) = length (filter (\<lambda>j. aiJobReadyForClaim j now) (go_values (aiJobs r)))"
proof -
  let ?js = "filter (\<lambda>j. aiJobReadyForClaim j now) (go_values (aiJobs r))"
  have keyed: "keyed job_ID (aiJobs r)" using jobs_table [OF assms] by (rule table_keyed)
  have eq: "ready_keys now r = job_ID ` set ?js"
  proof (intro equalityI subsetI)
    fix k assume "k \<in> ready_keys now r"
    then obtain j where j: "go_get (aiJobs r) k = Some j" "aiJobReadyForClaim j now" by (auto simp: ready_keys_def)
    then have "j \<in> set ?js" using keyed_get_value [OF keyed] unfolding set_filter by blast
    then show "k \<in> job_ID ` set ?js" using keyed_get [OF keyed j(1)] by blast
  next
    fix k assume "k \<in> job_ID ` set ?js"
    then obtain j where j: "j \<in> set ?js" "k = job_ID j" by blast
    then have "go_get (aiJobs r) (job_ID j) = Some j" using keyed_get_iff [OF keyed] unfolding set_filter by blast
    then show "k \<in> ready_keys now r" using j unfolding ready_keys_def set_filter by blast
  qed
  have "distinct (map job_ID ?js)" using keyed_distinct_values [OF keyed] by (simp add: distinct_map_filter)
  then show "card (ready_keys now r) = length ?js" unfolding eq by (metis distinct_card list.set_map length_map)
  show "finite (ready_keys now r)" unfolding eq by simp
qed

lemma claimed_keys:
  assumes "claimed_in now u worker tok r r' claimed" "now < u"
  shows "job_ID ` set claimed \<subseteq> ready_keys now r" "ready_keys now r' = ready_keys now r - job_ID ` set claimed"
proof -
  show "job_ID ` set claimed \<subseteq> ready_keys now r" using assms(1) by (auto simp: claimed_in_def ready_keys_def)
  have "k \<in> ready_keys now r' \<longleftrightarrow> k \<in> ready_keys now r - job_ID ` set claimed" for k
  proof (cases "k \<in> job_ID ` set claimed")
    case True
    then obtain c j where "go_get (aiJobs r') k = Some c" "claim_of u worker tok j c" using assms(1) by (auto simp: claimed_in_def)
    then show ?thesis using claimed_ready [of u worker tok j c now] assms(2) True by (simp add: ready_keys_def)
  next
    case False
    then show ?thesis using assms(1) by (simp add: ready_keys_def claimed_in_def)
  qed
  then show "ready_keys now r' = ready_keys now r - job_ID ` set claimed" by blast
qed

lemma claimed_in_append:
  assumes "claimed_in now u worker tok r r1 xs" "claimed_in now u worker tok r1 r2 ys" "now < u"
  shows "claimed_in now u worker tok r r2 (xs @ ys)"
proof -
  have disj: "job_ID ` set xs \<inter> job_ID ` set ys = {}"
    using claimed_keys(1) [OF assms(2,3)] claimed_keys(2) [OF assms(1,3)] by blast
  have "\<exists>j. go_get (aiJobs r) (job_ID c) = Some j \<and> aiJobReadyForClaim j now \<and> claim_of u worker tok j c \<and>
      go_get (aiJobs r2) (job_ID c) = Some c" if "c \<in> set xs" for c
  proof -
    have "job_ID c \<notin> job_ID ` set ys" using disj that by blast
    then have "go_get (aiJobs r2) (job_ID c) = go_get (aiJobs r1) (job_ID c)" using assms(2) by (simp add: claimed_in_def)
    then show ?thesis using assms(1) that by (simp add: claimed_in_def)
  qed
  moreover have "\<exists>j. go_get (aiJobs r) (job_ID c) = Some j \<and> aiJobReadyForClaim j now \<and> claim_of u worker tok j c \<and>
      go_get (aiJobs r2) (job_ID c) = Some c" if "c \<in> set ys" for c
  proof -
    have "job_ID c \<notin> job_ID ` set xs" using disj that by blast
    then have "go_get (aiJobs r1) (job_ID c) = go_get (aiJobs r) (job_ID c)" using assms(1) by (simp add: claimed_in_def)
    then show ?thesis using assms(2) that unfolding claimed_in_def by metis
  qed
  moreover have "go_get (aiJobs r2) k = go_get (aiJobs r) k" if "k \<notin> job_ID ` set (xs @ ys)" for k
    using assms(1,2) that by (simp add: claimed_in_def image_Un)
  moreover have "distinct (map job_ID (xs @ ys))" using assms(1,2) disj by (simp add: claimed_in_def)
  ultimately show ?thesis unfolding claimed_in_def by auto
qed

lemma claimed_in_Nil [simp]: "claimed_in now u worker tok r r []"
  by (simp add: claimed_in_def)

lemma claim_queued_in:
  assumes "jobs_inv r" "ClaimQueuedAIJobs hash now u worker tok limit r = (r', Inr claimed)"
    and "0 < limit" "TrimSpace worker \<noteq> []" "TrimSpace tok \<noteq> []" "now < u"
  shows "length claimed = min (nat limit) (card (ready_keys now r))" "claimed_in now u worker tok r r' claimed"
  using ranked_claims [OF assms(1), of "\<lambda>j. aiJobReadyForClaim j now"] assms(2-6)
  by (auto simp: ClaimQueuedAIJobs_def ready_keys_card [OF assms(1)])

lemma claim_references_in:
  assumes "jobs_inv r" "ClaimAIJobsByReadyReferences hash references now u worker tok limit r = (r', Inr claimed)" "0 \<le> limit"
  shows "int (length claimed) \<le> limit" "claimed_in now u worker tok r r' claimed"
proof -
  let ?P = "\<lambda>job. (case go_get (wanted_versions references) (job_ID job) of None \<Rightarrow> 0 | Some v \<Rightarrow> v) = job_StatusVersion job \<and> aiJobReadyForClaim job now"
  have "claimed = [] \<and> r' = r \<or> length claimed = min (nat limit) (length (filter ?P (go_values (aiJobs r)))) \<and> claimed_in now u worker tok r r' claimed"
  proof (cases "limit \<le> 0 \<or> references = [] \<or> TrimSpace worker = [] \<or> TrimSpace tok = [] \<or> \<not> u > now")
    case True
    then show ?thesis using assms(2) by (auto simp: ClaimAIJobsByReadyReferences_def)
  next
    case False
    then have eq: "claimAIJobCandidatesLocked hash (rankAIJobFairCandidates (filter ?P (go_values (aiJobs r))) (go_values (aiJobs r))
        (dispatch_activities r) now limit) now u worker tok limit [] r = (r', Inr claimed)"
      using assms(2) by (simp only: ClaimAIJobsByReadyReferences_def if_False)
    show ?thesis using ranked_claims [OF assms(1) _ eq] by blast
  qed
  then show "int (length claimed) \<le> limit" "claimed_in now u worker tok r r' claimed" using assms(3) by auto
qed

section \<open>The service claims what is ready\<close>

lemma claim_indexed_in:
  assumes "jobs_inv (sv_repo s)" "claim_indexed hash ops now u worker tok limit s = (s1, Inr jobs)" "0 \<le> limit"
  shows "int (length jobs) \<le> limit" "claimed_in now u worker tok (sv_repo s) (sv_repo s1) jobs" "sv_queue s1 = sv_queue s"
  using assms(2) claim_references_in [OF assms(1) _ assms(3)] assms(3)
  by (auto simp: claim_indexed_def split: option.splits list.splits prod.splits sum.splits)

lemma claim_indexed_call:
  "claim_indexed hash ops now u worker tok limit s = (s1, x) \<Longrightarrow> (repo_call hash)\<^sup>*\<^sup>* (sv_repo s) (sv_repo s1)"
  using repo_call.claim_ready [of hash "sv_repo s"]
  by (auto simp: claim_indexed_def split: option.splits list.splits prod.splits sum.splits) (metis fst_conv r_into_rtranclp)+

lemma claim_jobs_call:
  assumes "claim_jobs hash ops between now u worker tok limit s = (s1, x)" "\<And>x. (repo_call hash)\<^sup>*\<^sup>* (sv_repo x) (sv_repo (between x))"
  shows "(repo_call hash)\<^sup>*\<^sup>* (sv_repo s) (sv_repo s1)"
proof -
  obtain s0 y where y: "claim_indexed hash ops now u worker tok limit s = (s0, y)" by fastforce
  have "s1 = s0 \<or> s1 = between s0 \<or> (\<exists>n. sv_repo s1 = fst (ClaimQueuedAIJobs hash now u worker tok n (sv_repo (between s0))))"
    using assms(1) y by (auto simp: claim_jobs_def Let_def split: sum.splits prod.splits if_splits) (metis fst_conv)+
  moreover have "(repo_call hash)\<^sup>*\<^sup>* (sv_repo s) (sv_repo (between s0))"
    by (rule rtranclp_trans [OF claim_indexed_call [OF y] assms(2)])
  ultimately show ?thesis
    using claim_indexed_call [OF y] repo_call.claim_queued [of hash "sv_repo (between s0)"] by (auto intro: rtranclp.rtrancl_into_rtrancl)
qed

lemma claim_jobs_parts:
  assumes "repo_inv (sv_repo s)" "claim_jobs hash ops between now u worker tok limit s = (s1, Inr jobs)"
    and "0 < limit" "TrimSpace worker \<noteq> []" "TrimSpace tok \<noteq> []" "now < u" "\<And>x. (repo_call hash)\<^sup>*\<^sup>* (sv_repo x) (sv_repo (between x))"
  obtains s0 xs ys where "jobs = xs @ ys" "claimed_in now u worker tok (sv_repo s) (sv_repo s0) xs" "length xs \<le> nat limit"
    "claimed_in now u worker tok (sv_repo (between s0)) (sv_repo s1) ys" "jobs_inv (sv_repo (between s0))"
    "length ys = min (nat limit - length xs) (card (ready_keys now (sv_repo (between s0))))"
    "sv_queue s1 = sv_queue (between s0)" "sv_queue s0 = sv_queue s"
proof -
  have inv: "jobs_inv (sv_repo s)" using assms(1) by (simp add: repo_inv_def)
  obtain s0 xs where xs: "claim_indexed hash ops now u worker tok limit s = (s0, Inr xs)"
    using assms(2) by (auto simp: claim_jobs_def Let_def split: prod.splits sum.splits)
  note first = claim_indexed_in [OF inv xs]
  have "(repo_call hash)\<^sup>*\<^sup>* (sv_repo s) (sv_repo (between s0))" by (rule rtranclp_trans [OF claim_indexed_call [OF xs] assms(7)])
  then have inv0: "jobs_inv (sv_repo (between s0))" using run_inv assms(1) repo_invD(4) by blast
  show ?thesis
  proof (cases "int (length xs) < limit")
    case True
    obtain r ys where ys: "ClaimQueuedAIJobs hash now u worker tok (limit - int (length xs)) (sv_repo (between s0)) = (r, Inr ys)"
      "s1 = (between s0)\<lparr>sv_repo := r\<rparr>" "jobs = xs @ ys"
      using assms(2) xs True by (auto simp: claim_jobs_def Let_def split: prod.splits sum.splits)
    have "nat (limit - int (length xs)) = nat limit - length xs" by simp
    then show ?thesis using that [OF ys(3) _ _ _ inv0] claim_queued_in [OF inv0 ys(1)] True assms(3-6) first ys(2) by simp
  next
    case False
    then have "jobs = xs @ []" "s1 = between s0" using assms(2) xs by (auto simp: claim_jobs_def Let_def)
    then show ?thesis using that [of xs "[]" s0] inv0 first assms(3) False by simp
  qed
qed

text \<open>When nobody touches the jobs in between, the two claims together are one.\<close>

lemma claim_jobs_alone:
  assumes "jobs_inv r" "claimed_in now u worker tok r r1 xs" "length xs \<le> n" "claimed_in now u worker tok r1 r2 ys"
    and "length ys = min (n - length xs) (card (ready_keys now r1))" "now < u"
  shows "length (xs @ ys) = min n (card (ready_keys now r))" "claimed_in now u worker tok r r2 (xs @ ys)"
proof -
  have "card (job_ID ` set xs) = length xs" using assms(2) by (simp add: claimed_in_def distinct_map card_image distinct_card)
  then have "card (ready_keys now r1) + length xs = card (ready_keys now r)"
    using claimed_keys [OF assms(2,6)] ready_keys_card(1) [OF assms(1), of now]
    by (metis card_Diff_subset card_mono finite_subset le_add_diff_inverse2)
  then show "length (xs @ ys) = min n (card (ready_keys now r))" using assms(3,5) by simp
  show "claimed_in now u worker tok r r2 (xs @ ys)" by (rule claimed_in_append [OF assms(2,4,6)])
qed

lemma claimReadyAIJobs_claims:
  assumes "claimReadyAIJobs hash ops decrypt between now randomID workerID d limit False s = (s', Inr jobs)" "0 < limit" "0 < d"
  obtains s1 where "claim_jobs hash ops between now (now + d) (TrimSpace workerID) (''job_lease_'' @ randomID) limit s = (s1, Inr jobs)"
    "sv_repo s' = sv_repo s1" "sv_queue s' = sv_queue s1"
  using assms by (auto simp: claimReadyAIJobs_def split: prod.splits sum.splits)

lemma lease_token_nonempty: "TrimSpace (''job_lease_'' @ randomID) \<noteq> []"
  using TrimSpace_graphic [of "CHR ''j''"] by (simp add: graphic_def less_eq_char_def)

lemma claimReadyAIJobs_in:
  assumes "repo_inv (sv_repo s)" "claimReadyAIJobs hash ops decrypt between now randomID workerID d limit False s = (s', Inr jobs)"
    and "0 < limit" "TrimSpace workerID \<noteq> []" "0 < d" "\<And>x. sv_repo (between x) = sv_repo x" "\<And>x. sv_queue (between x) = sv_queue x"
  shows "length jobs = min (nat limit) (length (filter (\<lambda>j. aiJobReadyForClaim j now) (go_values (aiJobs (sv_repo s)))))"
    "claimed_in now (now + d) (TrimSpace workerID) (''job_lease_'' @ randomID) (sv_repo s) (sv_repo s') jobs" "sv_queue s' = sv_queue s"
proof -
  have inv: "jobs_inv (sv_repo s)" using assms(1) by (simp add: repo_inv_def)
  obtain s1 where s1: "claim_jobs hash ops between now (now + d) (TrimSpace workerID) (''job_lease_'' @ randomID) limit s = (s1, Inr jobs)"
    "sv_repo s' = sv_repo s1" "sv_queue s' = sv_queue s1" by (rule claimReadyAIJobs_claims [OF assms(2,3,5)])
  have idle: "TrimSpace (TrimSpace workerID) \<noteq> []" "now < now + d" "(repo_call hash)\<^sup>*\<^sup>* (sv_repo x) (sv_repo (between x))" for x
    using assms(4-6) by simp_all
  obtain s0 xs ys where p: "jobs = xs @ ys" "claimed_in now (now + d) (TrimSpace workerID) (''job_lease_'' @ randomID) (sv_repo s) (sv_repo s0) xs"
    "length xs \<le> nat limit" "claimed_in now (now + d) (TrimSpace workerID) (''job_lease_'' @ randomID) (sv_repo (between s0)) (sv_repo s1) ys"
    "length ys = min (nat limit - length xs) (card (ready_keys now (sv_repo (between s0))))" "sv_queue s1 = sv_queue (between s0)"
    "sv_queue s0 = sv_queue s"
    by (rule claim_jobs_parts [OF assms(1) s1(1) assms(3) idle(1) lease_token_nonempty idle(2,3)])
  note alone = claim_jobs_alone [OF inv p(2,3) p(4,5) [unfolded assms(6)]]
  show "length jobs = min (nat limit) (length (filter (\<lambda>j. aiJobReadyForClaim j now) (go_values (aiJobs (sv_repo s)))))"
    "claimed_in now (now + d) (TrimSpace workerID) (''job_lease_'' @ randomID) (sv_repo s) (sv_repo s') jobs" "sv_queue s' = sv_queue s"
    using alone assms(5,7) p(1,6,7) s1(2,3) ready_keys_card(2) [OF inv, of now] by simp_all
qed

lemma claimReadyAIJobs_call:
  assumes "claimReadyAIJobs hash ops decrypt between now randomID workerID d limit p s = (s', x)"
    and "\<And>x. (repo_call hash)\<^sup>*\<^sup>* (sv_repo x) (sv_repo (between x))"
  shows "(repo_call hash)\<^sup>*\<^sup>* (sv_repo s) (sv_repo s')"
proof -
  obtain s1 y where y: "claim_jobs hash ops between now (now + d) (TrimSpace workerID) (''job_lease_'' @ randomID) limit s = (s1, y)" by fastforce
  have "sv_repo s' = sv_repo s \<or> sv_repo s' = sv_repo s1"
    using assms(1) y by (auto simp: claimReadyAIJobs_def Let_def split: sum.splits if_splits option.splits)
  then show ?thesis using claim_jobs_call [OF y assms(2)] by auto
qed

section \<open>Publishing\<close>

definition delivered :: "(string \<Rightarrow> string) \<Rightarrow> AIJob \<Rightarrow> MemoryAIJobDeliveryQueue \<Rightarrow> bool" where
  "delivered hash c q \<longleftrightarrow> (\<exists>envelope e. NewAIJobDeliveryEnvelope hash c = Inr envelope \<and>
     go_get (dq_entries q) (env_DeliveryID envelope) = Some e \<and> de_envelope e = envelope)"

lemma delivered_publish: "delivered hash c q \<Longrightarrow> delivered hash c (fst (publishAIJobDelivery hash now job q))"
  using publish_keeps by (fastforce simp: delivered_def publishAIJobDelivery_def split: sum.splits)

lemma publish_delivers:
  assumes "dq_inv q" "publishAIJobDelivery hash now job q = (q', None)"
  shows "delivered hash job q'"
proof -
  obtain envelope where e: "NewAIJobDeliveryEnvelope hash job = Inr envelope" "dq_Publish hash now envelope (DedupeKey envelope) now q = (q', None)"
    using assms(2) by (auto simp: publishAIJobDelivery_def split: sum.splits)
  then show ?thesis using publish_result [OF assms(1), of hash now envelope "DedupeKey envelope" now] by (auto simp: delivered_def)
qed

lemma publish_delivery_inv: "dq_inv q \<Longrightarrow> dq_inv (fst (publishAIJobDelivery hash now job q))"
  by (auto simp: publishAIJobDelivery_def publish_inv split: sum.splits)

lemma publish_jobs_delivered:
  "dq_inv q \<Longrightarrow> publish_jobs hash now jobs n errs q = (q', n', errs') \<Longrightarrow>
   \<exists>pub. subseq pub jobs \<and> n' = n + int (length pub) \<and> length errs' + length pub = length errs + length jobs \<and> dq_inv q' \<and>
     (\<forall>c \<in> set pub. delivered hash c q') \<and> (\<forall>c. delivered hash c q \<longrightarrow> delivered hash c q')"
proof (induction jobs arbitrary: n errs q)
  case (Cons job jobs)
  obtain q1 x where q1: "publishAIJobDelivery hash now job q = (q1, x)" by fastforce
  have inv: "dq_inv q1" using publish_delivery_inv [OF Cons.prems(1), of hash now job] by (simp add: q1)
  have keep: "delivered hash c q \<Longrightarrow> delivered hash c q1" for c using delivered_publish [of hash c q now job] by (simp add: q1)
  show ?case
  proof (cases x)
    case None
    then have "publish_jobs hash now jobs (n + 1) errs q1 = (q', n', errs')" using Cons.prems(2) q1 by simp
    from Cons.IH [OF inv this] obtain pub where "subseq pub jobs" "n' = n + 1 + int (length pub)"
      "length errs' + length pub = length errs + length jobs" "dq_inv q'" "\<forall>c \<in> set pub. delivered hash c q'"
      "\<forall>c. delivered hash c q1 \<longrightarrow> delivered hash c q'" by blast
    moreover have "delivered hash job q1" using publish_delivers [OF Cons.prems(1)] q1 None by simp
    ultimately show ?thesis using keep by (intro exI [of _ "job # pub"]) auto
  next
    case (Some e)
    then have "publish_jobs hash now jobs n (errs @ [JobServiceDelivery e]) q1 = (q', n', errs')" using Cons.prems(2) q1 by simp
    from Cons.IH [OF inv this] obtain pub where "subseq pub jobs" "n' = n + int (length pub)"
      "length errs' + length pub = length errs + 1 + length jobs" "dq_inv q'" "\<forall>c \<in> set pub. delivered hash c q'"
      "\<forall>c. delivered hash c q1 \<longrightarrow> delivered hash c q'" by auto
    then show ?thesis using keep by (intro exI [of _ pub]) auto
  qed
qed simp

text \<open>What a worker that receives the delivery of a claimed job checks holds until the lease ends.\<close>

lemma delivered_matches:
  assumes "claim_of u worker tok j c" "TrimSpace (job_OperationID c) = job_OperationID c" "NewAIJobDeliveryEnvelope hash c = Inr envelope" "t < u"
  shows "aiJobDeliveryMatches c envelope t \<and> env_JobID envelope = TrimSpace (job_ID c)"
  using assms by (auto simp: NewAIJobDeliveryEnvelope_def aiJobDeliveryMatches_def claim_of_def Let_def split: option.splits if_splits)

section \<open>Properties\<close>

text \<open>
  C32: the ready index is only a hint. Whatever the index holds and answers, stale, wrong or failing,
  a claim through the service first claims jobs that are ready, at most as many as asked for, and then, of
  the jobs that are ready when it comes to the queue, as many as are still missing; each is claimed with
  the lease of this call, and other jobs are as they were. In between other callers may make any calls of the
  repository. If they make none, the claim gives out as many jobs as are ready, up to the
  limit, each once.
\<close>

theorem index_only_hints:
  assumes "(repo_call hash)\<^sup>*\<^sup>* NewMemoryRepository (sv_repo s)" "\<forall>x. (repo_call hash)\<^sup>*\<^sup>* (sv_repo x) (sv_repo (between x))"
    and "claimReadyAIJobs hash ops decrypt between now randomID workerID d limit False s = (s', Inr jobs)"
    and "0 < limit" "TrimSpace workerID \<noteq> []" "0 < d"
  shows "(\<exists>xs ys s0. jobs = xs @ ys \<and> length xs \<le> nat limit \<and>
      claimed_in now (now + d) (TrimSpace workerID) (''job_lease_'' @ randomID) (sv_repo s) (sv_repo s0) xs \<and>
      length ys = min (nat limit - length xs) (length (filter (\<lambda>j. aiJobReadyForClaim j now) (go_values (aiJobs (sv_repo (between s0)))))) \<and>
      claimed_in now (now + d) (TrimSpace workerID) (''job_lease_'' @ randomID) (sv_repo (between s0)) (sv_repo s') ys) \<and>
    (between = id \<longrightarrow>
      length jobs = min (nat limit) (length (filter (\<lambda>j. aiJobReadyForClaim j now) (go_values (aiJobs (sv_repo s))))) \<and>
      claimed_in now (now + d) (TrimSpace workerID) (''job_lease_'' @ randomID) (sv_repo s) (sv_repo s') jobs)"
proof -
  have inv: "repo_inv (sv_repo s)" using run_inv [OF assms(1) repo_inv_new] by simp
  obtain s1 where s1: "claim_jobs hash ops between now (now + d) (TrimSpace workerID) (''job_lease_'' @ randomID) limit s = (s1, Inr jobs)"
    "sv_repo s' = sv_repo s1" by (rule claimReadyAIJobs_claims [OF assms(3,4,6)])
  obtain s0 xs ys where p: "jobs = xs @ ys" "claimed_in now (now + d) (TrimSpace workerID) (''job_lease_'' @ randomID) (sv_repo s) (sv_repo s0) xs"
    "length xs \<le> nat limit" "claimed_in now (now + d) (TrimSpace workerID) (''job_lease_'' @ randomID) (sv_repo (between s0)) (sv_repo s1) ys"
    "jobs_inv (sv_repo (between s0))" "length ys = min (nat limit - length xs) (card (ready_keys now (sv_repo (between s0))))"
    by (rule claim_jobs_parts [OF inv s1(1) assms(4) _ lease_token_nonempty, of thesis]) (use assms(2,5,6) in auto)
  have "\<exists>xs ys s0. jobs = xs @ ys \<and> length xs \<le> nat limit \<and>
      claimed_in now (now + d) (TrimSpace workerID) (''job_lease_'' @ randomID) (sv_repo s) (sv_repo s0) xs \<and>
      length ys = min (nat limit - length xs) (length (filter (\<lambda>j. aiJobReadyForClaim j now) (go_values (aiJobs (sv_repo (between s0)))))) \<and>
      claimed_in now (now + d) (TrimSpace workerID) (''job_lease_'' @ randomID) (sv_repo (between s0)) (sv_repo s') ys"
    using p ready_keys_card(2) [OF p(5), of now] s1(2) by (intro exI [of _ xs] exI [of _ ys] exI [of _ s0]) simp
  then show ?thesis using claimReadyAIJobs_in [OF inv assms(3-6)] by simp
qed

lemma example_service_claim:
  obtains r r' c where "(repo_call id)\<^sup>*\<^sup>* NewMemoryRepository r" "aiJobs r = [(''j'', example_durable_job)]"
    "claimReadyAIJobs id memory_ops (\<lambda>_. None) id 5 [] ''a'' 4 1 False \<lparr>sv_repo = r, sv_index = None, sv_queue = q\<rparr> =
       (\<lparr>sv_repo = r', sv_index = None, sv_queue = q\<rparr>, Inr [c])"
proof -
  have j: "graphic CHR ''j''" by code_simp
  obtain r r' c where r: "(repo_call id)\<^sup>*\<^sup>* NewMemoryRepository r" "ClaimQueuedAIJobs id 5 9 ''a'' ''job_lease_'' 1 r = (r', Inr [c])"
    "aiJobs r = [(''j'', example_durable_job)]" by (rule example_claim [OF TrimSpace_graphic [OF j]])
  then have "claimReadyAIJobs id memory_ops (\<lambda>_. None) id 5 [] ''a'' 4 1 False \<lparr>sv_repo = r, sv_index = None, sv_queue = q\<rparr> =
       (\<lparr>sv_repo = r', sv_index = None, sv_queue = q\<rparr>, Inr [c])"
    by (simp add: claimReadyAIJobs_def claim_jobs_def claim_indexed_def registerAIJobReadyState_def example_TrimSpace Let_def)
  then show ?thesis using that r(1,3) by blast
qed

theorem index_only_hints_witness:
  "\<exists>s s' c. claimReadyAIJobs id memory_ops (\<lambda>_. None) id 5 [] ''a'' 4 1 False s = (s', Inr [c]) \<and>
     claimed_in 5 9 ''a'' ''job_lease_'' (sv_repo s) (sv_repo s') [c]"
proof -
  obtain r r' c where r: "(repo_call id)\<^sup>*\<^sup>* NewMemoryRepository r"
    "claimReadyAIJobs id memory_ops (\<lambda>_. None) id 5 [] ''a'' 4 1 False \<lparr>sv_repo = r, sv_index = None, sv_queue = example_queue\<rparr> =
       (\<lparr>sv_repo = r', sv_index = None, sv_queue = example_queue\<rparr>, Inr [c])"
    by (rule example_service_claim)
  let ?s = "\<lparr>sv_repo = r, sv_index = None, sv_queue = example_queue\<rparr>"
  have "claimed_in 5 (5 + 4) (TrimSpace ''a'') (''job_lease_'' @ []) (sv_repo ?s) (sv_repo \<lparr>sv_repo = r', sv_index = None, sv_queue = example_queue\<rparr>) [c]"
    using index_only_hints [of id ?s id memory_ops "\<lambda>_. None" 5 "[]" "''a''" 4 1] r by (simp add: example_TrimSpace)
  then show ?thesis using r(2) by (intro exI conjI) (assumption, simp add: example_TrimSpace)
qed

text \<open>
  C33: the scheduler delivers what it claims. Every job a scheduler run claims is published or counted
  as an error. A published job is in the queue under its delivery identifier, with an envelope that the
  check of the delivery worker accepts for the stored job until the lease of the claim ends. (Here no
  other caller acts between the two claims of the run.)
\<close>

theorem scheduler_delivers:
  assumes "(repo_call hash)\<^sup>*\<^sup>* NewMemoryRepository (sv_repo s)" "dq_inv (sv_queue s)"
    and "\<forall>j \<in> set (go_values (aiJobs (sv_repo s))). TrimSpace (job_OperationID j) = job_OperationID j"
    and "RunDurableAIJobSchedulerOnce hash ops id t1 t2 randomID workerID d limit s = (s', report, errs)"
    and "0 < limit" "TrimSpace workerID \<noteq> []" "0 < d" "0 < sch_Claimed report"
  shows "sch_Claimed report = int (min (nat limit) (length (filter (\<lambda>j. aiJobReadyForClaim j t1) (go_values (aiJobs (sv_repo s)))))) \<and>
    sch_Published report + sch_Errors report = sch_Claimed report \<and> int (length errs) = sch_Errors report \<and> dq_inv (sv_queue s') \<and>
    (\<exists>pub. distinct (map job_ID pub) \<and> int (length pub) = sch_Published report \<and>
      (\<forall>c \<in> set pub. go_get (aiJobs (sv_repo s')) (job_ID c) = Some c \<and>
        (\<exists>envelope e. NewAIJobDeliveryEnvelope hash c = Inr envelope \<and> go_get (dq_entries (sv_queue s')) (env_DeliveryID envelope) = Some e \<and>
           de_envelope e = envelope \<and> (\<forall>t < t1 + d. aiJobDeliveryMatches c envelope t))))"
proof -
  have inv: "repo_inv (sv_repo s)" using run_inv [OF assms(1) repo_inv_new] by simp
  obtain s1 jobs q published where r: "claimReadyAIJobs hash ops (\<lambda>_. None) id t1 randomID workerID d limit False s = (s1, Inr jobs)"
    "publish_jobs hash t2 jobs 0 [] (sv_queue s1) = (q, published, errs)" "s' = s1\<lparr>sv_queue := q\<rparr>"
    "report = \<lparr>sch_Claimed = int (length jobs), sch_Published = published, sch_Errors = int (length errs)\<rparr>"
    using assms(4,8) by (auto simp: RunDurableAIJobSchedulerOnce_def claimReadyAIJobMetadata_def split: prod.splits sum.splits)
  note claims = claimReadyAIJobs_in [OF inv r(1) assms(5-7), simplified]
  obtain pub where pub: "subseq pub jobs" "published = int (length pub)" "length errs + length pub = length jobs" "dq_inv q"
    "\<forall>c \<in> set pub. delivered hash c q"
    using publish_jobs_delivered [OF _ r(2)] assms(2) claims(3) by auto
  have "go_get (aiJobs (sv_repo s')) (job_ID c) = Some c \<and>
        (\<exists>envelope e. NewAIJobDeliveryEnvelope hash c = Inr envelope \<and> go_get (dq_entries (sv_queue s')) (env_DeliveryID envelope) = Some e \<and>
           de_envelope e = envelope \<and> (\<forall>t < t1 + d. aiJobDeliveryMatches c envelope t))" if c: "c \<in> set pub" for c
  proof -
    have "c \<in> set jobs" using list_emb_set [OF pub(1) c] by blast
    then obtain j where j: "go_get (aiJobs (sv_repo s)) (job_ID c) = Some j" "claim_of (t1 + d) (TrimSpace workerID) (''job_lease_'' @ randomID) j c"
      "go_get (aiJobs (sv_repo s1)) (job_ID c) = Some c"
      using claims(2) by (auto simp: claimed_in_def)
    have "grows (sv_repo s) (sv_repo s1)" using run_inv [OF claimReadyAIJobs_call [OF r(1), simplified] inv] by simp
    then have "job_le j c" using grown_get [of job_le "aiJobs (sv_repo s)" "aiJobs (sv_repo s1)"] j(1,3) unfolding grows_def by fastforce
    then have "job_OperationID c = job_OperationID j" by (simp add: job_le_def)
    moreover have "j \<in> set (go_values (aiJobs (sv_repo s)))"
      by (rule keyed_get_value [OF table_keyed [OF jobs_table [OF repo_invD(4) [OF inv]]] j(1)])
    ultimately have "TrimSpace (job_OperationID c) = job_OperationID c" using assms(3) by metis
    note matches = delivered_matches [OF j(2) this]
    obtain envelope e where e: "NewAIJobDeliveryEnvelope hash c = Inr envelope" "go_get (dq_entries q) (env_DeliveryID envelope) = Some e"
      "de_envelope e = envelope" using pub(5) c unfolding delivered_def by blast
    then have "\<forall>t < t1 + d. aiJobDeliveryMatches c envelope t" using matches by blast
    then show ?thesis using e j(3) unfolding r(3) by simp
  qed
  moreover have "distinct (map job_ID pub)"
    using claims(2) pub(1) by (auto simp: claimed_in_def subseq_conv_nths simp flip: nths_map)
  ultimately show ?thesis using claims(1) pub(2-4) r(3,4) by (intro conjI exI [of _ pub]) simp_all
qed

theorem scheduler_delivers_witness:
  "\<exists>s s' report errs. RunDurableAIJobSchedulerOnce id memory_ops id 5 6 [] ''a'' 4 1 s = (s', report, errs) \<and>
     sch_Claimed report = 1 \<and> sch_Published report + sch_Errors report = 1 \<and> dq_inv (sv_queue s')"
proof -
  obtain r r' c where r: "(repo_call id)\<^sup>*\<^sup>* NewMemoryRepository r" "aiJobs r = [(''j'', example_durable_job)]"
    "claimReadyAIJobs id memory_ops (\<lambda>_. None) id 5 [] ''a'' 4 1 False \<lparr>sv_repo = r, sv_index = None, sv_queue = example_queue\<rparr> =
       (\<lparr>sv_repo = r', sv_index = None, sv_queue = example_queue\<rparr>, Inr [c])" by (rule example_service_claim)
  let ?s = "\<lparr>sv_repo = r, sv_index = None, sv_queue = example_queue\<rparr>"
  obtain s' report errs where run: "RunDurableAIJobSchedulerOnce id memory_ops id 5 6 [] ''a'' 4 1 ?s = (s', report, errs)" by (rule prod_cases3)
  have "sch_Claimed report = 1"
    using run r(3) by (auto simp: RunDurableAIJobSchedulerOnce_def claimReadyAIJobMetadata_def split: prod.splits)
  moreover from this have "sch_Published report + sch_Errors report = sch_Claimed report \<and> dq_inv (sv_queue s')"
    using scheduler_delivers [OF _ _ _ run] r(1,2) example_queue_inv by (simp add: example_TrimSpace)
  ultimately show ?thesis using run by (intro exI conjI) auto
qed

end
