(* ===== verification/Pricing_Rules.thy ===== *)
theory Pricing_Rules
  imports Pricing_Engine Pricing_Evaluate Operation_Model
begin

text \<open>
  Pricing rules and their versions: \<^verbatim>\<open>backend/internal/controlplane/pricing_model.go\<close>, the
  in-memory part of \<^verbatim>\<open>pricing_repository.go\<close> and \<^verbatim>\<open>pricing_service.go\<close>.

  The tables are the record \<open>pricing_store\<close>; each repository method holds the mutex for its whole
  body and is a function on it. A service function reads, possibly more than once, and then writes once
  with the lock version its caller saw: other callers may write in between. \<open>pricing_run\<close> is the
  relation of all interleavings, on the history of the store, so that a read may come from any earlier
  state. The engine answers as \<open>compile_spec\<close> says, whatever its cache holds. Random identifiers are
  arguments; the model identifiers of the gateway are the argument \<open>models\<close>.
\<close>

section \<open>Data\<close>

definition PricingScopeGlobal :: string where "PricingScopeGlobal = ''global''"
definition PricingRuleStatusActive :: string where "PricingRuleStatusActive = ''active''"
definition PricingRuleStatusDisabled :: string where "PricingRuleStatusDisabled = ''disabled''"
definition PricingVersionStateDraft :: string where "PricingVersionStateDraft = ''draft''"
definition PricingVersionStatePublished :: string where "PricingVersionStatePublished = ''published''"
definition PricingAuthoringVisual :: string where "PricingAuthoringVisual = ''visual''"
definition PricingAuthoringRaw :: string where "PricingAuthoringRaw = ''raw''"

lemma pricing_states [simp]:
  "PricingVersionStateDraft \<noteq> PricingVersionStatePublished" "PricingVersionStatePublished \<noteq> PricingVersionStateDraft"
  by (simp_all add: PricingVersionStateDraft_def PricingVersionStatePublished_def)

record PricingRule =
  pr_ID :: string
  pr_Name :: string
  pr_Purpose :: string
  pr_ScopeType :: string
  pr_ScopeID :: string
  pr_Model :: string
  pr_Status :: string
  pr_ActiveVersionID :: string
  pr_LockVersion :: int
  pr_CreatedBy :: string
  pr_UpdatedBy :: string
  pr_CreatedAt :: gotime
  pr_UpdatedAt :: gotime

record PricingRuleTestCase =
  tc_Name :: string
  tc_Facts :: Facts
  tc_ExpectedTier :: string
  tc_ExpectedAmountMicros :: "int option"

record PricingRuleVersion =
  pv_ID :: string
  pv_RuleID :: string
  pv_Revision :: int
  pv_EngineVersion :: int
  pv_Currency :: string
  pv_Expression :: string
  pv_ExpressionHash :: string
  pv_Analysis :: RuleAnalysis
  pv_AuthoringMode :: string
  pv_TestCases :: "PricingRuleTestCase list"
  pv_State :: string
  pv_CreatedBy :: string
  pv_PublishedBy :: string
  pv_CreatedAt :: gotime
  pv_UpdatedAt :: gotime
  pv_PublishedAt :: "gotime option"

record PricingRuleQuery =
  rq_Purpose :: string
  rq_ScopeType :: string
  rq_ScopeID :: string
  rq_Model :: string
  rq_Status :: string

record PricingRuleCreateRequest =
  cq_Name :: string
  cq_Purpose :: string
  cq_ScopeType :: string
  cq_ScopeID :: string
  cq_Model :: string
  cq_Currency :: string
  cq_AuthoringMode :: string
  cq_Expression :: string
  cq_TestCases :: "PricingRuleTestCase list"

record PricingDraftUpdateRequest =
  dr_ExpectedLockVersion :: int
  dr_Name :: string
  dr_Currency :: string
  dr_AuthoringMode :: string
  dr_Expression :: string
  dr_TestCases :: "PricingRuleTestCase list"

record PricingPublishRequest =
  pq_DraftVersionID :: string
  pq_ExpectedLockVersion :: int
  pq_ExpectedActiveVersion :: string
  pq_ExpressionHash :: string

record PricingRuleDetail =
  dt_Rule :: PricingRule
  dt_ActiveVersion :: "PricingRuleVersion option"
  dt_Draft :: "PricingRuleVersion option"
  dt_Versions :: "PricingRuleVersion list"

record PricingTestCaseResult =
  tr_Name :: string
  tr_Passed :: bool
  tr_AmountMicros :: int
  tr_Tier :: string
  tr_Lines :: "PricingLine list"
  tr_Error :: "pricing_error option"

record PricingValidationResult =
  vr_Valid :: bool
  vr_ExpressionHash :: string
  vr_Analysis :: "RuleAnalysis option"
  vr_TestResults :: "PricingTestCaseResult list"
  vr_Errors :: "pricing_error list"

record PricingSimulationRequest =
  sq_RuleVersionID :: string
  sq_Expression :: string
  sq_Currency :: string
  sq_Facts :: Facts

record PricingSelection =
  sel_Rule :: PricingRule
  sel_Version :: PricingRuleVersion
  sel_Compiled :: CompiledRule
  sel_ExpressionHash :: string

datatype pricing_rule_error =
    ErrPricingRuleNotFound
  | ErrPricingVersionNotFound
  | ErrPricingCASConflict
  | ErrPricingInvalidSlot
  | ErrPricingCurrencyUnsupported
  | PricingRuleExists
  | PricingSlotExists
  | PricingDraftForeign
  | PricingSlotImmutable
  | PricingDraftInvalid
  | PricingDraftNotFound
  | PricingExpressionRequired
  | PricingHashMismatch
  | PricingTestsFailed
  | PricingModelUnknown
  | PricingEngineFailed pricing_error

record pricing_store =
  ps_rules :: "PricingRule gomap"
  ps_versions :: "PricingRuleVersion gomap"
  ps_audit :: "AuditLog gomap"

definition new_pricing_store :: pricing_store where
  "new_pricing_store = \<lparr>ps_rules = [], ps_versions = [], ps_audit = []\<rparr>"

text \<open>The engine: its parameters, and what its calls return.\<close>

record engine_env =
  ee_parse :: "string \<Rightarrow> string + ast_node"
  ee_compile :: "string \<Rightarrow> string + vm_program"
  ee_digest :: "string \<Rightarrow> string"
  ee_facts_digest :: "Facts \<Rightarrow> string"
  ee_sprintf :: "string \<Rightarrow> string list \<Rightarrow> string"
  ee_wrap :: "pricing_error \<Rightarrow> go_error"

definition engine_CompileByHash :: "engine_env \<Rightarrow> string \<Rightarrow> string \<Rightarrow> pricing_error + CompiledRule" where
  "engine_CompileByHash E source expectedHash = compile_spec (ee_parse E) (ee_compile E) (ee_digest E) source expectedHash"

definition engine_Compile :: "engine_env \<Rightarrow> string \<Rightarrow> pricing_error + CompiledRule" where
  "engine_Compile E source = engine_CompileByHash E source (ee_digest E source)"

definition engine_Evaluate :: "engine_env \<Rightarrow> CompiledRule \<Rightarrow> Facts \<Rightarrow> pricing_error + PricingResult" where
  "engine_Evaluate E rule facts = Evaluate (ee_digest E) (ee_facts_digest E) (ee_sprintf E) (ee_wrap E) rule facts"

text \<open>Facts with every field at Go's zero value.\<close>

definition zero_facts :: Facts where
  "zero_facts = \<lparr>f_TotalInputTokens = 0, f_UncachedInputTokens = 0, f_CacheReadTokens = 0, f_CacheWrite5mTokens = 0, f_CacheWrite1hTokens = 0,
     f_OutputTokens = 0, f_CacheFieldsPresent = False, f_InputImages = 0, f_OutputImages = 0, f_PartialImages = 0,
     f_InputVideoMilliseconds = 0, f_OutputVideoMilliseconds = 0, f_InputAudioMilliseconds = 0, f_OutputAudioMilliseconds = 0,
     f_RealtimeAudioMilliseconds = 0, f_InputCharacters = 0, f_Actions = 0, f_BatchItems = 0, f_InputBytes = 0, f_OutputBytes = 0,
     f_TransferBytes = 0, f_SessionMilliseconds = 0, f_Protocol = [], f_Operation = [], f_Modality = [], f_Lane = [], f_Stream = False,
     f_OutputCount = 0, f_ServiceTier = [], f_AvailableFacts = [], f_NormalizationStatus = [], f_Phase = [], f_ObservedAt = zero_time\<rparr>"

text \<open>
  \<^verbatim>\<open>strings.ToUpper\<close>, exact on ASCII and on the two runes outside ASCII whose upper case is an
  ASCII letter (U+0131 and U+017F); other bytes are kept, as in \<open>ToLower\<close>.
\<close>

definition upper_byte :: "char \<Rightarrow> char" where
  "upper_byte c = (if CHR ''a'' \<le> c \<and> c \<le> CHR ''z'' then char_of (of_char c - 32 :: nat) else c)"

fun ToUpper :: "string \<Rightarrow> string" where
  "ToUpper [] = []"
| "ToUpper [a] = [upper_byte a]"
| "ToUpper (a # b # s) =
     (if a = CHR 0xC4 \<and> b = CHR 0xB1 then CHR ''I'' # ToUpper s
      else if a = CHR 0xC5 \<and> b = CHR 0xBF then CHR ''S'' # ToUpper s
      else upper_byte a # ToUpper (b # s))"

section \<open>The repository\<close>

definition pricingRuleSameSlot :: "PricingRule \<Rightarrow> PricingRule \<Rightarrow> bool" where
  "pricingRuleSameSlot left right \<longleftrightarrow> pr_Purpose left = pr_Purpose right \<and> pr_ScopeType left = pr_ScopeType right \<and>
     pr_ScopeID left = pr_ScopeID right \<and> pr_Model left = pr_Model right"

definition CreatePricingRule ::
  "PricingRule \<Rightarrow> PricingRuleVersion \<Rightarrow> pricing_store \<Rightarrow> pricing_store \<times> pricing_rule_error option" where
  "CreatePricingRule rule draft s =
     (if go_get (ps_rules s) (pr_ID rule) \<noteq> None then (s, Some PricingRuleExists)
      else if \<exists>existing \<in> set (go_values (ps_rules s)). pricingRuleSameSlot existing rule then (s, Some PricingSlotExists)
      else if pv_RuleID draft \<noteq> pr_ID rule \<or> pv_State draft \<noteq> PricingVersionStateDraft then (s, Some PricingDraftForeign)
      else (s\<lparr>ps_rules := go_set (pr_ID rule) rule (ps_rules s),
              ps_versions := go_set (pv_ID draft) draft (ps_versions s)\<rparr>, None))"

definition ListPricingRules :: "pricing_store \<Rightarrow> PricingRule list" where
  "ListPricingRules s =
     sort_by (\<lambda>a b. if pr_Purpose a = pr_Purpose b then pr_Model a < pr_Model b else pr_Purpose a < pr_Purpose b) (go_values (ps_rules s))"

definition FindPricingRule :: "string \<Rightarrow> pricing_store \<Rightarrow> PricingRule option" where
  "FindPricingRule k s = go_get (ps_rules s) (TrimSpace k)"

definition ListPricingRuleVersions :: "string \<Rightarrow> pricing_store \<Rightarrow> PricingRuleVersion list" where
  "ListPricingRuleVersions ruleID s =
     sort_by (\<lambda>a b. pv_Revision a > pv_Revision b) (filter (\<lambda>v. pv_RuleID v = TrimSpace ruleID) (go_values (ps_versions s)))"

definition FindPricingRuleVersion :: "string \<Rightarrow> pricing_store \<Rightarrow> PricingRuleVersion option" where
  "FindPricingRuleVersion k s = go_get (ps_versions s) (TrimSpace k)"

definition drop_drafts :: "string \<Rightarrow> string \<Rightarrow> PricingRuleVersion gomap \<Rightarrow> PricingRuleVersion gomap" where
  "drop_drafts ruleID keep m =
     filter (\<lambda>(k, v). \<not> (pv_RuleID v = ruleID \<and> pv_State v = PricingVersionStateDraft \<and> k \<noteq> keep)) m"

definition SavePricingRuleDraft ::
  "PricingRule \<Rightarrow> PricingRuleVersion \<Rightarrow> int \<Rightarrow> pricing_store \<Rightarrow> pricing_store \<times> (pricing_rule_error + PricingRule option)" where
  "SavePricingRuleDraft rule draft expectedLockVersion s =
     (case go_get (ps_rules s) (pr_ID rule) of
        None \<Rightarrow> (s, Inr None)
      | Some current \<Rightarrow>
          if pr_LockVersion current \<noteq> expectedLockVersion then (s, Inr None)
          else if \<not> pricingRuleSameSlot current rule then (s, Inl PricingSlotImmutable)
          else if pv_RuleID draft \<noteq> pr_ID rule \<or> pv_State draft \<noteq> PricingVersionStateDraft then (s, Inl PricingDraftInvalid)
          else (let updated = rule\<lparr>pr_LockVersion := pr_LockVersion current + 1, pr_ActiveVersionID := pr_ActiveVersionID current,
                                   pr_CreatedAt := pr_CreatedAt current\<rparr>
                in (s\<lparr>ps_rules := go_set (pr_ID rule) updated (ps_rules s),
                      ps_versions := go_set (pv_ID draft) draft (drop_drafts (pr_ID rule) (pv_ID draft) (ps_versions s))\<rparr>,
                    Inr (Some updated))))"

definition maxRevision :: "string \<Rightarrow> pricing_store \<Rightarrow> int" where
  "maxRevision ruleID s =
     foldl (\<lambda>m v. if pv_RuleID v = ruleID \<and> pv_State v = PricingVersionStatePublished \<and> pv_Revision v > m then pv_Revision v else m)
       0 (go_values (ps_versions s))"

definition PublishPricingRuleVersion ::
  "PricingRuleVersion \<Rightarrow> int \<Rightarrow> string \<Rightarrow> pricing_store \<Rightarrow>
   pricing_store \<times> (pricing_rule_error + (PricingRule \<times> PricingRuleVersion) option)" where
  "PublishPricingRuleVersion version expectedLockVersion expectedActiveVersionID s =
     (case go_get (ps_rules s) (pv_RuleID version) of
        None \<Rightarrow> (s, Inr None)
      | Some rule \<Rightarrow>
          if pr_LockVersion rule \<noteq> expectedLockVersion \<or>
             expectedActiveVersionID \<noteq> [] \<and> pr_ActiveVersionID rule \<noteq> expectedActiveVersionID then (s, Inr None)
          else (case go_get (ps_versions s) (pv_ID version) of
                  None \<Rightarrow> (s, Inl PricingDraftNotFound)
                | Some draft \<Rightarrow>
                    if pv_RuleID draft \<noteq> pr_ID rule \<or> pv_State draft \<noteq> PricingVersionStateDraft then (s, Inl PricingDraftNotFound)
                    else (let version' = version\<lparr>pv_Revision := maxRevision (pr_ID rule) s + 1, pv_State := PricingVersionStatePublished,
                                pv_RuleID := pr_ID rule, pv_CreatedAt := pv_CreatedAt draft, pv_PublishedAt := Some (pv_UpdatedAt version)\<rparr>;
                              rule' = rule\<lparr>pr_ActiveVersionID := pv_ID version, pr_LockVersion := pr_LockVersion rule + 1,
                                pr_UpdatedAt := pv_UpdatedAt version, pr_UpdatedBy := pv_PublishedBy version\<rparr>
                          in (s\<lparr>ps_versions := go_set (pv_ID version) version' (ps_versions s),
                                ps_rules := go_set (pr_ID rule) rule' (ps_rules s)\<rparr>, Inr (Some (rule', version'))))))"

definition ActivatePricingRuleVersion ::
  "string \<Rightarrow> string \<Rightarrow> int \<Rightarrow> string \<Rightarrow> gotime \<Rightarrow> pricing_store \<Rightarrow> pricing_store \<times> PricingRule option" where
  "ActivatePricingRuleVersion ruleID versionID expectedLockVersion actor updatedAt s =
     (case (go_get (ps_rules s) ruleID, go_get (ps_versions s) versionID) of
        (Some rule, Some version) \<Rightarrow>
          if pv_RuleID version \<noteq> ruleID \<or> pv_State version \<noteq> PricingVersionStatePublished \<or> pr_LockVersion rule \<noteq> expectedLockVersion
          then (s, None)
          else (let rule' = rule\<lparr>pr_ActiveVersionID := versionID, pr_LockVersion := pr_LockVersion rule + 1, pr_UpdatedBy := actor,
                      pr_UpdatedAt := updatedAt\<rparr>
                in (s\<lparr>ps_rules := go_set ruleID rule' (ps_rules s)\<rparr>, Some rule'))
      | _ \<Rightarrow> (s, None))"

definition SetPricingRuleStatus ::
  "string \<Rightarrow> string \<Rightarrow> int \<Rightarrow> string \<Rightarrow> gotime \<Rightarrow> pricing_store \<Rightarrow> pricing_store \<times> PricingRule option" where
  "SetPricingRuleStatus ruleID status expectedLockVersion actor updatedAt s =
     (case go_get (ps_rules s) ruleID of
        None \<Rightarrow> (s, None)
      | Some rule \<Rightarrow>
          if pr_LockVersion rule \<noteq> expectedLockVersion then (s, None)
          else (let rule' = rule\<lparr>pr_Status := status, pr_LockVersion := pr_LockVersion rule + 1, pr_UpdatedBy := actor,
                      pr_UpdatedAt := updatedAt\<rparr>
                in (s\<lparr>ps_rules := go_set ruleID rule' (ps_rules s)\<rparr>, Some rule')))"

section \<open>The service\<close>

definition newAuditLog :: "gotime \<Rightarrow> string \<Rightarrow> string \<Rightarrow> string \<Rightarrow> string \<Rightarrow> string \<Rightarrow> string \<Rightarrow> AuditLog" where
  "newAuditLog now randomID actor action resourceType resourceID summary =
     \<lparr>au_ID = ''audit_'' @ randomID, au_Actor = (if TrimSpace actor = [] then ''local-admin'' else actor), au_Action = action,
      au_ResourceType = resourceType, au_ResourceID = resourceID, au_Summary = summary, au_ApplicationID = [], au_ApplicationName = [],
      au_GatewayPrincipalID = [], au_GatewayPrincipalName = [], au_ExternalAuthIntegrationID = [], au_ExternalSubjectReference = [],
      au_CreatedAt = now\<rparr>"

definition AddAuditLog :: "AuditLog \<Rightarrow> pricing_store \<Rightarrow> pricing_store" where
  "AddAuditLog event s = s\<lparr>ps_audit := go_set (au_ID event) event (ps_audit s)\<rparr>"

definition pricing_audit :: "gotime \<Rightarrow> string \<Rightarrow> string \<Rightarrow> string \<Rightarrow> string \<Rightarrow> string \<Rightarrow> pricing_store \<Rightarrow> pricing_store" where
  "pricing_audit now randomID actor action ruleID summary = AddAuditLog (newAuditLog now randomID actor action ''pricing_rule'' ruleID summary)"

definition normalizePricingRule :: "PricingRuleCreateRequest \<Rightarrow> string \<Rightarrow> gotime \<Rightarrow> string \<Rightarrow> pricing_rule_error + PricingRule" where
  "normalizePricingRule request actor now randomID =
     (let purpose = TrimSpace (cq_Purpose request); scopeType = TrimSpace (cq_ScopeType request); model = TrimSpace (cq_Model request);
          scopeID = TrimSpace (cq_ScopeID request)
      in if purpose \<noteq> PricingPurposeUsageCost \<or> scopeType \<noteq> PricingScopeGlobal \<or> model = [] then Inl ErrPricingInvalidSlot
         else if scopeID \<noteq> [] then Inl ErrPricingInvalidSlot
         else if ToUpper (TrimSpace (cq_Currency request)) \<noteq> [] \<and> ToUpper (TrimSpace (cq_Currency request)) \<noteq> CurrencyUSD
           then Inl ErrPricingCurrencyUnsupported
         else Inr \<lparr>pr_ID = ''prule_'' @ randomID, pr_Name = TrimSpace (cq_Name request), pr_Purpose = purpose, pr_ScopeType = scopeType,
                   pr_ScopeID = scopeID, pr_Model = model, pr_Status = PricingRuleStatusActive, pr_ActiveVersionID = [],
                   pr_LockVersion = 1, pr_CreatedBy = actor, pr_UpdatedBy = actor, pr_CreatedAt = now, pr_UpdatedAt = now\<rparr>)"

definition normalizeAuthoringMode :: "string \<Rightarrow> string" where
  "normalizeAuthoringMode v = (if TrimSpace v = PricingAuthoringRaw then PricingAuthoringRaw else PricingAuthoringVisual)"

definition no_analysis :: RuleAnalysis where
  "no_analysis = \<lparr>ra_EngineVersion = 0, ra_RequiredFacts = [], ra_Tiers = [], ra_LineCodes = [], ra_VisualEditable = False\<rparr>"

definition new_draft ::
  "engine_env \<Rightarrow> string \<Rightarrow> string \<Rightarrow> string \<Rightarrow> string \<Rightarrow> PricingRuleTestCase list \<Rightarrow> string \<Rightarrow> gotime \<Rightarrow> PricingRuleVersion" where
  "new_draft E randomID ruleID expression authoringMode testCases actor now =
     \<lparr>pv_ID = ''pdraft_'' @ randomID, pv_RuleID = ruleID, pv_Revision = 0, pv_EngineVersion = EngineVersionV1, pv_Currency = CurrencyUSD,
      pv_Expression = expression, pv_ExpressionHash = ee_digest E expression, pv_Analysis = no_analysis,
      pv_AuthoringMode = normalizeAuthoringMode authoringMode, pv_TestCases = testCases, pv_State = PricingVersionStateDraft,
      pv_CreatedBy = actor, pv_PublishedBy = [], pv_CreatedAt = now, pv_UpdatedAt = now, pv_PublishedAt = None\<rparr>"

definition validatePricingRuleSlot :: "string list \<Rightarrow> PricingRule list \<Rightarrow> PricingRule \<Rightarrow> pricing_rule_error option" where
  "validatePricingRuleSlot models rules rule =
     (if pr_Model rule \<noteq> ''*'' \<and> pr_Model rule \<notin> set models then Some PricingModelUnknown
      else if \<exists>existing \<in> set rules. pricingRuleSameSlot existing rule then Some PricingSlotExists else None)"

definition create_draft :: "engine_env \<Rightarrow> string \<Rightarrow> PricingRuleCreateRequest \<Rightarrow> string \<Rightarrow> PricingRule \<Rightarrow> PricingRuleVersion" where
  "create_draft E randomID request actor rule =
     new_draft E randomID (pr_ID rule) (cq_Expression request) (cq_AuthoringMode request) (cq_TestCases request) actor (pr_CreatedAt rule)"

definition Service_CreatePricingRule ::
  "engine_env \<Rightarrow> string list \<Rightarrow> gotime \<Rightarrow> string \<Rightarrow> string \<Rightarrow> string \<Rightarrow> string \<Rightarrow> PricingRuleCreateRequest \<Rightarrow> pricing_store \<Rightarrow>
   pricing_store \<times> (pricing_rule_error + PricingRuleDetail)" where
  "Service_CreatePricingRule E models now rand1 rand2 rand3 actor request s =
     (case normalizePricingRule request actor now rand1 of
        Inl e \<Rightarrow> (s, Inl e)
      | Inr rule \<Rightarrow>
          (case validatePricingRuleSlot models (ListPricingRules s) rule of
             Some e \<Rightarrow> (s, Inl e)
           | None \<Rightarrow>
               (let draft = create_draft E rand2 request actor rule in
                case CreatePricingRule rule draft s of
                  (s1, Some e) \<Rightarrow> (s1, Inl e)
                | (s1, None) \<Rightarrow>
                    (pricing_audit now rand3 actor ''pricing_rule.create'' (pr_ID rule) ''Created pricing rule'' s1,
                     Inr \<lparr>dt_Rule = rule, dt_ActiveVersion = None, dt_Draft = Some draft, dt_Versions = [draft]\<rparr>))))"

definition rule_detail :: "PricingRule \<Rightarrow> PricingRuleVersion list \<Rightarrow> PricingRuleDetail" where
  "rule_detail rule versions =
     foldl (\<lambda>d v. let d1 = (if pv_ID v = pr_ActiveVersionID rule then d\<lparr>dt_ActiveVersion := Some v\<rparr> else d) in
                  if pv_State v = PricingVersionStateDraft then d1\<lparr>dt_Draft := Some v\<rparr> else d1)
       \<lparr>dt_Rule = rule, dt_ActiveVersion = None, dt_Draft = None, dt_Versions = versions\<rparr> versions"

definition Service_PricingRuleDetail :: "string \<Rightarrow> pricing_store \<Rightarrow> pricing_rule_error + PricingRuleDetail" where
  "Service_PricingRuleDetail k s =
     (case FindPricingRule k s of
        None \<Rightarrow> Inl ErrPricingRuleNotFound
      | Some rule \<Rightarrow> Inr (rule_detail rule (ListPricingRuleVersions (pr_ID rule) s)))"

definition PricingRuleVersionDetail :: "string \<Rightarrow> pricing_store \<Rightarrow> pricing_rule_error + PricingRule \<times> PricingRuleVersion" where
  "PricingRuleVersionDetail versionID s =
     (case FindPricingRuleVersion (TrimSpace versionID) s of
        None \<Rightarrow> Inl ErrPricingVersionNotFound
      | Some version \<Rightarrow>
          (case FindPricingRule (pv_RuleID version) s of
             None \<Rightarrow> Inl ErrPricingRuleNotFound
           | Some rule \<Rightarrow> Inr (rule, version)))"

definition Service_ListPricingRules :: "PricingRuleQuery \<Rightarrow> pricing_store \<Rightarrow> PricingRule list" where
  "Service_ListPricingRules query s =
     filter (\<lambda>rule. \<not> (rq_Purpose query \<noteq> [] \<and> pr_Purpose rule \<noteq> rq_Purpose query \<or>
         rq_ScopeType query \<noteq> [] \<and> pr_ScopeType rule \<noteq> rq_ScopeType query \<or>
         rq_ScopeID query \<noteq> [] \<and> pr_ScopeID rule \<noteq> rq_ScopeID query \<or>
         rq_Model query \<noteq> [] \<and> pr_Model rule \<noteq> rq_Model query \<or>
         rq_Status query \<noteq> [] \<and> pr_Status rule \<noteq> rq_Status query))
       (ListPricingRules s)"

definition draft_request ::
  "engine_env \<Rightarrow> gotime \<Rightarrow> string \<Rightarrow> string \<Rightarrow> string \<Rightarrow> PricingDraftUpdateRequest \<Rightarrow> PricingRuleDetail \<Rightarrow>
   pricing_rule_error + PricingRule \<times> PricingRuleVersion" where
  "draft_request E now randomID actor ruleID request detail =
     (if dr_ExpectedLockVersion request \<noteq> pr_LockVersion (dt_Rule detail) then Inl ErrPricingCASConflict
      else if TrimSpace (dr_Expression request) = [] then Inl PricingExpressionRequired
      else
        (let draft0 = new_draft E randomID ruleID (dr_Expression request) (dr_AuthoringMode request) (dr_TestCases request) actor now;
             draft = (case dt_Draft detail of
                        None \<Rightarrow> draft0
                      | Some d \<Rightarrow> draft0\<lparr>pv_ID := pv_ID d, pv_CreatedAt := pv_CreatedAt d\<rparr>);
             rule = (if TrimSpace (dr_Name request) \<noteq> [] then (dt_Rule detail)\<lparr>pr_Name := TrimSpace (dr_Name request)\<rparr> else dt_Rule detail)
         in Inr (rule\<lparr>pr_UpdatedBy := actor, pr_UpdatedAt := now\<rparr>, draft)))"

definition UpdatePricingRuleDraft ::
  "engine_env \<Rightarrow> gotime \<Rightarrow> string \<Rightarrow> string \<Rightarrow> string \<Rightarrow> string \<Rightarrow> PricingDraftUpdateRequest \<Rightarrow> pricing_store \<Rightarrow>
   pricing_store \<times> (pricing_rule_error + PricingRuleDetail)" where
  "UpdatePricingRuleDraft E now rand1 rand2 actor ruleID request s =
     (case Service_PricingRuleDetail ruleID s of
        Inl e \<Rightarrow> (s, Inl e)
      | Inr detail \<Rightarrow>
          (case draft_request E now rand1 actor ruleID request detail of
             Inl e \<Rightarrow> (s, Inl e)
           | Inr (rule, draft) \<Rightarrow>
               (case SavePricingRuleDraft rule draft (dr_ExpectedLockVersion request) s of
                  (s1, Inl e) \<Rightarrow> (s1, Inl e)
                | (s1, Inr None) \<Rightarrow> (s1, Inl ErrPricingCASConflict)
                | (s1, Inr (Some updated)) \<Rightarrow>
                    (pricing_audit now rand2 actor ''pricing_rule.draft_update'' ruleID ''Updated pricing draft'' s1,
                     Inr \<lparr>dt_Rule = updated, dt_ActiveVersion = dt_ActiveVersion detail, dt_Draft = Some draft,
                          dt_Versions = draft # dt_Versions detail\<rparr>))))"

definition test_passed :: "PricingRuleTestCase \<Rightarrow> PricingResult \<Rightarrow> bool" where
  "test_passed testCase evaluated \<longleftrightarrow>
     (tc_ExpectedTier testCase = [] \<or> tc_ExpectedTier testCase = res_MatchedTier evaluated) \<and>
     (case tc_ExpectedAmountMicros testCase of None \<Rightarrow> True | Some amount \<Rightarrow> amount = res_AmountMicros evaluated)"

definition run_test_case :: "engine_env \<Rightarrow> CompiledRule \<Rightarrow> PricingRuleTestCase \<Rightarrow> PricingTestCaseResult" where
  "run_test_case E rule testCase =
     (case engine_Evaluate E rule (tc_Facts testCase) of
        Inl e \<Rightarrow> \<lparr>tr_Name = tc_Name testCase, tr_Passed = False, tr_AmountMicros = 0, tr_Tier = [], tr_Lines = [], tr_Error = Some e\<rparr>
      | Inr evaluated \<Rightarrow>
          \<lparr>tr_Name = tc_Name testCase, tr_Passed = test_passed testCase evaluated, tr_AmountMicros = res_AmountMicros evaluated,
           tr_Tier = res_MatchedTier evaluated, tr_Lines = res_Lines evaluated, tr_Error = None\<rparr>)"

definition ValidatePricingRule :: "engine_env \<Rightarrow> string \<Rightarrow> PricingRuleTestCase list \<Rightarrow> PricingValidationResult" where
  "ValidatePricingRule E expression testCases =
     (case engine_Compile E expression of
        Inl e \<Rightarrow> \<lparr>vr_Valid = False, vr_ExpressionHash = [], vr_Analysis = None, vr_TestResults = [], vr_Errors = [e]\<rparr>
      | Inr rule \<Rightarrow>
          (let results = map (run_test_case E rule) testCases in
           \<lparr>vr_Valid = list_all tr_Passed results, vr_ExpressionHash = cr_ExpressionHash rule, vr_Analysis = Some (cr_Analysis rule),
            vr_TestResults = results, vr_Errors = []\<rparr>))"

definition SimulatePricing :: "engine_env \<Rightarrow> PricingSimulationRequest \<Rightarrow> pricing_store \<Rightarrow> pricing_rule_error + PricingResult" where
  "SimulatePricing E request s =
     (let compiled =
        (if TrimSpace (sq_RuleVersionID request) \<noteq> []
         then (case FindPricingRuleVersion (sq_RuleVersionID request) s of
                 None \<Rightarrow> Inl ErrPricingVersionNotFound
               | Some version \<Rightarrow> map_sum PricingEngineFailed id (engine_CompileByHash E (pv_Expression version) (pv_ExpressionHash version)))
         else map_sum PricingEngineFailed id (engine_Compile E (sq_Expression request)))
      in and_then compiled (\<lambda>rule.
         if sq_Currency request \<noteq> [] \<and> ToUpper (sq_Currency request) \<noteq> CurrencyUSD then Inl ErrPricingCurrencyUnsupported
         else map_sum PricingEngineFailed id (engine_Evaluate E rule (sq_Facts request))))"

definition publish_request ::
  "engine_env \<Rightarrow> gotime \<Rightarrow> string \<Rightarrow> string \<Rightarrow> PricingPublishRequest \<Rightarrow> PricingRule \<Rightarrow> PricingRuleVersion option \<Rightarrow>
   pricing_rule_error + PricingRuleVersion" where
  "publish_request E now actor ruleID request rule found =
     (if pq_ExpectedLockVersion request \<noteq> pr_LockVersion rule then Inl ErrPricingCASConflict
      else (case found of
              None \<Rightarrow> Inl ErrPricingVersionNotFound
            | Some version \<Rightarrow>
                if pv_RuleID version \<noteq> ruleID \<or> pv_State version \<noteq> PricingVersionStateDraft then Inl ErrPricingVersionNotFound
                else if pq_ExpressionHash request \<noteq> [] \<and> pq_ExpressionHash request \<noteq> ee_digest E (pv_Expression version)
                  then Inl PricingHashMismatch
                else (case engine_Compile E (pv_Expression version) of
                        Inl e \<Rightarrow> Inl (PricingEngineFailed e)
                      | Inr compiled \<Rightarrow>
                          (let validation = ValidatePricingRule E (pv_Expression version) (pv_TestCases version) in
                           if \<not> vr_Valid validation
                           then (case vr_Errors validation of e # _ \<Rightarrow> Inl (PricingEngineFailed e) | [] \<Rightarrow> Inl PricingTestsFailed)
                           else Inr (version\<lparr>pv_EngineVersion := cr_EngineVersion compiled, pv_ExpressionHash := cr_ExpressionHash compiled,
                                  pv_Analysis := cr_Analysis compiled, pv_PublishedBy := actor, pv_UpdatedAt := now\<rparr>)))))"

definition PublishPricingRule ::
  "engine_env \<Rightarrow> gotime \<Rightarrow> string \<Rightarrow> string \<Rightarrow> string \<Rightarrow> PricingPublishRequest \<Rightarrow> pricing_store \<Rightarrow>
   pricing_store \<times> (pricing_rule_error + PricingRuleDetail)" where
  "PublishPricingRule E now randomID actor ruleID request s =
     (case Service_PricingRuleDetail ruleID s of
        Inl e \<Rightarrow> (s, Inl e)
      | Inr detail \<Rightarrow>
          (case publish_request E now actor ruleID request (dt_Rule detail) (FindPricingRuleVersion (pq_DraftVersionID request) s) of
             Inl e \<Rightarrow> (s, Inl e)
           | Inr version \<Rightarrow>
               (case PublishPricingRuleVersion version (pq_ExpectedLockVersion request) (pq_ExpectedActiveVersion request) s of
                  (s1, Inl e) \<Rightarrow> (s1, Inl e)
                | (s1, Inr None) \<Rightarrow> (s1, Inl ErrPricingCASConflict)
                | (s1, Inr (Some (rule, published))) \<Rightarrow>
                    (let s2 = pricing_audit now randomID actor ''pricing_rule.publish'' ruleID
                                (''Published pricing rule version '' @ pv_ID published) s1
                     in (s2, Service_PricingRuleDetail (pr_ID rule) s2)))))"

definition Service_ActivatePricingRuleVersion ::
  "gotime \<Rightarrow> string \<Rightarrow> string \<Rightarrow> string \<Rightarrow> string \<Rightarrow> int \<Rightarrow> pricing_store \<Rightarrow> pricing_store \<times> pricing_rule_error option" where
  "Service_ActivatePricingRuleVersion now randomID actor ruleID versionID expectedLockVersion s =
     (case ActivatePricingRuleVersion ruleID versionID expectedLockVersion actor now s of
        (s1, None) \<Rightarrow> (s1, Some ErrPricingCASConflict)
      | (s1, Some updated) \<Rightarrow>
          (pricing_audit now randomID actor ''pricing_rule.activate_version'' (pr_ID updated) (''Activated pricing version '' @ versionID) s1, None))"

definition DisablePricingRule ::
  "gotime \<Rightarrow> string \<Rightarrow> string \<Rightarrow> string \<Rightarrow> int \<Rightarrow> pricing_store \<Rightarrow> pricing_store \<times> pricing_rule_error option" where
  "DisablePricingRule now randomID actor ruleID expectedLockVersion s =
     (case SetPricingRuleStatus ruleID PricingRuleStatusDisabled expectedLockVersion actor now s of
        (s1, None) \<Rightarrow> (s1, Some ErrPricingCASConflict)
      | (s1, Some updated) \<Rightarrow>
          (pricing_audit now randomID actor ''pricing_rule.disable'' (pr_ID updated) ''Disabled pricing rule'' s1, None))"

definition selectable :: "string \<Rightarrow> PricingRule \<Rightarrow> bool" where
  "selectable model rule \<longleftrightarrow> pr_Status rule = PricingRuleStatusActive \<and> pr_Purpose rule = PricingPurposeUsageCost \<and>
     pr_ScopeType rule = PricingScopeGlobal \<and> pr_ScopeID rule = [] \<and> (pr_Model rule = model \<or> pr_Model rule = ''*'')"

fun select_loop :: "string \<Rightarrow> PricingRule list \<Rightarrow> PricingRule option \<Rightarrow> int \<Rightarrow> PricingRule option" where
  "select_loop model [] selected best = selected"
| "select_loop model (rule # rules) selected best =
     (if \<not> selectable model rule then select_loop model rules selected best
      else (let score = (if pr_Model rule = model then 1 else 0) in
            if score > best then select_loop model rules (Some rule) score else select_loop model rules selected best))"

definition SelectPricingRule :: "engine_env \<Rightarrow> string \<Rightarrow> pricing_store \<Rightarrow> pricing_error + PricingSelection option" where
  "SelectPricingRule E model s =
     (case select_loop model (ListPricingRules s) None (- 1) of
        None \<Rightarrow> Inr None
      | Some rule \<Rightarrow>
          if pr_ActiveVersionID rule = [] then Inr None
          else (case FindPricingRuleVersion (pr_ActiveVersionID rule) s of
                  None \<Rightarrow> Inr None
                | Some version \<Rightarrow>
                    if pv_State version \<noteq> PricingVersionStatePublished then Inr None
                    else (case engine_CompileByHash E (pv_Expression version) (pv_ExpressionHash version) of
                            Inl e \<Rightarrow> Inl e
                          | Inr compiled \<Rightarrow>
                              Inr (Some \<lparr>sel_Rule = rule, sel_Version = version, sel_Compiled = compiled,
                                     sel_ExpressionHash = pv_ExpressionHash version\<rparr>))))"

definition EstimateModelUsageCostMicros :: "engine_env \<Rightarrow> string \<Rightarrow> int \<Rightarrow> int \<Rightarrow> pricing_store \<Rightarrow> pricing_error + int option" where
  "EstimateModelUsageCostMicros E model inputTokens outputTokens s =
     (case SelectPricingRule E (TrimSpace model) s of
        Inl e \<Rightarrow> Inl e
      | Inr None \<Rightarrow> Inr None
      | Inr (Some selection) \<Rightarrow>
          map_sum id (\<lambda>res. Some (res_AmountMicros res))
            (engine_Evaluate E (sel_Compiled selection)
               (zero_facts\<lparr>f_TotalInputTokens := max inputTokens 0, f_UncachedInputTokens := max inputTokens 0,
                  f_OutputTokens := max outputTokens 0, f_Phase := PhaseEstimate\<rparr>)))"

section \<open>Interleavings\<close>

text \<open>
  The history of the store, the newest state first. A service call reads from states of the history, a
  later read from a state that is not older than that of an earlier read, and writes to the newest. The
  repository refuses a write whose lock version is no longer current. Random identifiers are fresh.
\<close>

inductive pricing_write :: "engine_env \<Rightarrow> pricing_store list \<Rightarrow> pricing_store \<Rightarrow> bool" for E where
  write_create: "normalizePricingRule request actor now rand1 = Inr rule \<Longrightarrow> list_all plain_char rand1 \<Longrightarrow> list_all plain_char rand2 \<Longrightarrow>
    go_get (ps_versions s) (''pdraft_'' @ rand2) = None \<Longrightarrow> CreatePricingRule rule (create_draft E rand2 request actor rule) s = (s', None) \<Longrightarrow>
    pricing_write E (s # h) s'"
| write_draft: "i \<ge> j \<Longrightarrow> i < length (s # h) \<Longrightarrow> FindPricingRule ruleID ((s # h) ! i) = Some rule \<Longrightarrow>
    detail = rule_detail rule (ListPricingRuleVersions (pr_ID rule) ((s # h) ! j)) \<Longrightarrow>
    list_all plain_char randomID \<Longrightarrow> go_get (ps_versions s) (''pdraft_'' @ randomID) = None \<Longrightarrow>
    draft_request E now randomID actor ruleID request detail = Inr (rule', draft) \<Longrightarrow>
    SavePricingRuleDraft rule' draft (dr_ExpectedLockVersion request) s = (s', Inr (Some updated)) \<Longrightarrow>
    pricing_write E (s # h) s'"
| write_publish: "i \<ge> j \<Longrightarrow> i < length (s # h) \<Longrightarrow> FindPricingRule ruleID ((s # h) ! i) = Some rule \<Longrightarrow>
    found = FindPricingRuleVersion (pq_DraftVersionID request) ((s # h) ! j) \<Longrightarrow>
    publish_request E now actor ruleID request rule found = Inr version \<Longrightarrow>
    PublishPricingRuleVersion version (pq_ExpectedLockVersion request) (pq_ExpectedActiveVersion request) s = (s', Inr (Some updated)) \<Longrightarrow>
    pricing_write E (s # h) s'"
| write_activate: "ActivatePricingRuleVersion ruleID versionID lock actor now s = (s', Some updated) \<Longrightarrow> pricing_write E (s # h) s'"
| write_status: "SetPricingRuleStatus ruleID status lock actor now s = (s', Some updated) \<Longrightarrow> pricing_write E (s # h) s'"
| write_audit: "AddAuditLog event s = s' \<Longrightarrow> pricing_write E (s # h) s'"

inductive pricing_run :: "engine_env \<Rightarrow> pricing_store list \<Rightarrow> bool" for E where
  run_new: "pricing_run E [new_pricing_store]"
| run_write: "pricing_run E h \<Longrightarrow> pricing_write E h s' \<Longrightarrow> pricing_run E (s' # h)"

section \<open>The invariant\<close>

definition published :: "PricingRuleVersion \<Rightarrow> bool" where
  "published v \<longleftrightarrow> pv_State v = PricingVersionStatePublished"

definition tested :: "engine_env \<Rightarrow> PricingRuleVersion \<Rightarrow> bool" where
  "tested E v \<longleftrightarrow>
     (\<exists>compiled. engine_CompileByHash E (pv_Expression v) (pv_ExpressionHash v) = Inr compiled \<and> pv_Analysis v = cr_Analysis compiled \<and>
        (\<forall>testCase \<in> set (pv_TestCases v). \<exists>res. engine_Evaluate E compiled (tc_Facts testCase) = Inr res \<and> test_passed testCase res))"

definition version_ok :: "engine_env \<Rightarrow> PricingRule gomap \<Rightarrow> PricingRuleVersion \<Rightarrow> bool" where
  "version_ok E rules v \<longleftrightarrow> list_all plain_char (pv_ID v) \<and> go_get rules (pv_RuleID v) \<noteq> None \<and>
     (published v \<and> 1 \<le> pv_Revision v \<and> tested E v \<or> pv_State v = PricingVersionStateDraft \<and> pv_Revision v = 0)"

definition rule_ok :: "PricingRuleVersion gomap \<Rightarrow> PricingRule \<Rightarrow> bool" where
  "rule_ok versions rule \<longleftrightarrow> list_all plain_char (pr_ID rule) \<and>
     (pr_ActiveVersionID rule = [] \<or>
      (\<exists>v. go_get versions (pr_ActiveVersionID rule) = Some v \<and> pv_RuleID v = pr_ID rule \<and> published v))"

definition slot :: "PricingRule \<Rightarrow> string \<times> string \<times> string \<times> string" where
  "slot rule = (pr_Purpose rule, pr_ScopeType rule, pr_ScopeID rule, pr_Model rule)"

definition pricing_inv :: "engine_env \<Rightarrow> pricing_store \<Rightarrow> bool" where
  "pricing_inv E s \<longleftrightarrow>
     table pr_ID (rule_ok (ps_versions s)) (ps_rules s) \<and> table pv_ID (version_ok E (ps_rules s)) (ps_versions s) \<and>
     unique_by slot (ps_rules s) \<and> unique_by (\<lambda>v. (pv_RuleID v, pv_Revision v)) (ps_versions s)"

text \<open>
  How the store may change: rules stay, with their slot; an unchanged lock version means an unchanged
  rule with unchanged versions; published versions are never touched.
\<close>

definition rule_le :: "pricing_store \<Rightarrow> pricing_store \<Rightarrow> string \<Rightarrow> PricingRule \<Rightarrow> bool" where
  "rule_le s s' k rule \<longleftrightarrow>
     (\<exists>rule'. go_get (ps_rules s') k = Some rule' \<and> slot rule' = slot rule \<and> pr_LockVersion rule \<le> pr_LockVersion rule' \<and>
        (pr_LockVersion rule = pr_LockVersion rule' \<longrightarrow> rule' = rule \<and>
           (\<forall>i v. pv_RuleID v = k \<longrightarrow> (go_get (ps_versions s') i = Some v \<longleftrightarrow> go_get (ps_versions s) i = Some v))))"

definition pricing_le :: "pricing_store \<Rightarrow> pricing_store \<Rightarrow> bool" where
  "pricing_le s s' \<longleftrightarrow> (\<forall>k rule. go_get (ps_rules s) k = Some rule \<longrightarrow> rule_le s s' k rule) \<and>
     (\<forall>i v. go_get (ps_versions s) i = Some v \<longrightarrow> published v \<longrightarrow> go_get (ps_versions s') i = Some v)"

lemma pricing_le_refl [simp]: "pricing_le s s"
  by (simp add: pricing_le_def rule_le_def)

lemma rule_le_trans:
  assumes "rule_le s s' k rule" "\<And>rule'. go_get (ps_rules s') k = Some rule' \<Longrightarrow> rule_le s' s'' k rule'"
  shows "rule_le s s'' k rule"
proof -
  obtain r1 where r1: "go_get (ps_rules s') k = Some r1" "slot r1 = slot rule" "pr_LockVersion rule \<le> pr_LockVersion r1"
    "pr_LockVersion rule = pr_LockVersion r1 \<longrightarrow> r1 = rule \<and>
       (\<forall>i v. pv_RuleID v = k \<longrightarrow> (go_get (ps_versions s') i = Some v \<longleftrightarrow> go_get (ps_versions s) i = Some v))"
    using assms(1) unfolding rule_le_def by blast
  obtain r2 where r2: "go_get (ps_rules s'') k = Some r2" "slot r2 = slot r1" "pr_LockVersion r1 \<le> pr_LockVersion r2"
    "pr_LockVersion r1 = pr_LockVersion r2 \<longrightarrow> r2 = r1 \<and>
       (\<forall>i v. pv_RuleID v = k \<longrightarrow> (go_get (ps_versions s'') i = Some v \<longleftrightarrow> go_get (ps_versions s') i = Some v))"
    using assms(2) [OF r1(1)] unfolding rule_le_def by blast
  show ?thesis unfolding rule_le_def
    using r1(2-4) r2 by (intro exI [of _ r2]) auto
qed

lemma pricing_le_trans: "pricing_le s s' \<Longrightarrow> pricing_le s' s'' \<Longrightarrow> pricing_le s s''"
  unfolding pricing_le_def by (blast intro: rule_le_trans)

text \<open>While the lock version of a rule stands, its versions do.\<close>

lemma pricing_le_locked:
  assumes "pricing_le s s'" "go_get (ps_rules s) k = Some rule" "go_get (ps_rules s') k = Some rule'" "pr_LockVersion rule' = pr_LockVersion rule"
  shows "rule' = rule" "pv_RuleID v = k \<Longrightarrow> go_get (ps_versions s') i = Some v \<longleftrightarrow> go_get (ps_versions s) i = Some v"
proof -
  have "rule_le s s' k rule" using assms(1,2) unfolding pricing_le_def by blast
  then show "rule' = rule" "pv_RuleID v = k \<Longrightarrow> go_get (ps_versions s') i = Some v \<longleftrightarrow> go_get (ps_versions s) i = Some v"
    using assms(3,4) by (auto simp: rule_le_def)
qed

lemma pricing_le_store:
  assumes "go_get (ps_rules s) k = Some rule" "slot rule' = slot rule" "pr_LockVersion rule < pr_LockVersion rule'"
    and "ps_rules s' = go_set k rule' (ps_rules s)"
    and "\<And>i v. pv_RuleID v \<noteq> k \<Longrightarrow> go_get (ps_versions s') i = Some v \<longleftrightarrow> go_get (ps_versions s) i = Some v"
    and "\<And>i v. go_get (ps_versions s) i = Some v \<Longrightarrow> published v \<Longrightarrow> go_get (ps_versions s') i = Some v"
  shows "pricing_le s s'"
  unfolding pricing_le_def rule_le_def using assms by auto

lemma pricing_le_same:
  assumes "ps_rules s' = ps_rules s" "ps_versions s' = ps_versions s"
  shows "pricing_le s s'"
  by (simp add: assms pricing_le_def rule_le_def)

lemma pricing_invD:
  assumes "pricing_inv E s"
  shows "table pr_ID (rule_ok (ps_versions s)) (ps_rules s)" "table pv_ID (version_ok E (ps_rules s)) (ps_versions s)"
    "unique_by slot (ps_rules s)" "unique_by (\<lambda>v. (pv_RuleID v, pv_Revision v)) (ps_versions s)"
  using assms by (simp_all add: pricing_inv_def)

lemma pricing_inv_rule: "pricing_inv E s \<Longrightarrow> go_get (ps_rules s) k = Some rule \<Longrightarrow> pr_ID rule = k \<and> rule_ok (ps_versions s) rule"
  using table_get pricing_invD(1) by fastforce

lemma pricing_inv_version: "pricing_inv E s \<Longrightarrow> go_get (ps_versions s) k = Some v \<Longrightarrow> pv_ID v = k \<and> version_ok E (ps_rules s) v"
  using table_get pricing_invD(2) by fastforce

lemma rule_ok_mono:
  "rule_ok m r \<Longrightarrow> (\<And>i v. go_get m i = Some v \<Longrightarrow> published v \<Longrightarrow> go_get m' i = Some v) \<Longrightarrow> rule_ok m' r"
  by (auto simp: rule_ok_def)

lemma version_ok_mono:
  "version_ok E rules v \<Longrightarrow> (\<And>k. go_get rules k \<noteq> None \<Longrightarrow> go_get rules' k \<noteq> None) \<Longrightarrow> version_ok E rules' v"
  by (auto simp: version_ok_def)

lemma drop_drafts_get:
  "keyed pv_ID m \<Longrightarrow> go_get (drop_drafts k keep m) i = Some v \<longleftrightarrow>
     go_get m i = Some v \<and> \<not> (pv_RuleID v = k \<and> pv_State v = PricingVersionStateDraft \<and> i \<noteq> keep)"
proof -
  assume k: "keyed pv_ID m"
  then have d: "distinct (map fst m)" by (rule keyed_distinct)
  then have "distinct (map fst (drop_drafts k keep m))" by (simp add: drop_drafts_def distinct_map_filter)
  then have "go_get (drop_drafts k keep m) i = Some v \<longleftrightarrow> (i, v) \<in> set (drop_drafts k keep m)" by (rule map_of_eq_Some_iff)
  also have "\<dots> \<longleftrightarrow> (i, v) \<in> set m \<and> \<not> (pv_RuleID v = k \<and> pv_State v = PricingVersionStateDraft \<and> i \<noteq> keep)"
    by (simp add: drop_drafts_def)
  finally show ?thesis by (simp add: map_of_eq_Some_iff [OF d])
qed

text \<open>Storing a rule and a version of it.\<close>

lemma pricing_inv_store:
  assumes inv: "pricing_inv E s" and rule: "go_get (ps_rules s) k = Some rule" "slot rule' = slot rule" "pr_ID rule' = k"
    and s': "ps_rules s' = go_set k rule' (ps_rules s)" "ps_versions s' = go_set i v m"
    and m: "\<And>i v. go_get m i = Some v \<Longrightarrow> go_get (ps_versions s) i = Some v" "keyed pv_ID m"
    and kept: "\<And>i v. go_get (ps_versions s) i = Some v \<Longrightarrow> published v \<Longrightarrow> go_get (ps_versions s') i = Some v"
    and v: "pv_ID v = i" "version_ok E (ps_rules s) v" "rule_ok (ps_versions s') rule'"
    and fresh: "\<And>i' v'. go_get m i' = Some v' \<Longrightarrow> pv_RuleID v' = pv_RuleID v \<Longrightarrow> pv_Revision v' = pv_Revision v \<Longrightarrow> i' = i"
  shows "pricing_inv E s'"
proof -
  have rules: "table pr_ID (rule_ok (ps_versions s')) (ps_rules s)"
    using pricing_invD(1) [OF inv] by (rule table_mono) (erule rule_ok_mono, rule kept)
  have "table pv_ID (version_ok E (ps_rules s')) m"
    using m(2) pricing_inv_version [OF inv m(1)] version_ok_mono [of E "ps_rules s" _ "ps_rules s'"]
    by (auto intro!: tableI simp: s'(1))
  moreover have "version_ok E (ps_rules s') v" using v(2) version_ok_mono [of E "ps_rules s" v "ps_rules s'"] by (auto simp: s'(1))
  ultimately have versions: "table pv_ID (version_ok E (ps_rules s')) (ps_versions s')"
    unfolding s'(2) by (rule table_set) (simp add: v(1))
  have "unique_by (\<lambda>v. (pv_RuleID v, pv_Revision v)) m"
    unfolding unique_by_def using unique_byD [OF pricing_invD(4) [OF inv] m(1) m(1)] by blast
  then have "unique_by (\<lambda>v. (pv_RuleID v, pv_Revision v)) (ps_versions s')"
    unfolding s'(2) by (rule unique_by_set) (use fresh in auto)
  moreover have "unique_by slot (ps_rules s')" unfolding s'(1)
    by (rule unique_by_update [OF pricing_invD(3) [OF inv] rule(1,2)])
  moreover have "table pr_ID (rule_ok (ps_versions s')) (ps_rules s')"
    unfolding s'(1) by (rule table_set [OF rules v(3)]) (simp add: rule(3))
  ultimately show ?thesis using versions by (simp add: pricing_inv_def)
qed

lemma pricing_inv_rules:
  assumes inv: "pricing_inv E s" and rule: "go_get (ps_rules s) k = Some rule" "slot rule' = slot rule" "pr_ID rule' = k" "rule_ok (ps_versions s) rule'"
    and s': "ps_rules s' = go_set k rule' (ps_rules s)" "ps_versions s' = ps_versions s"
  shows "pricing_inv E s'"
proof -
  have "table pv_ID (version_ok E (ps_rules s')) (ps_versions s)"
    using pricing_invD(2) [OF inv] by (rule table_mono) (erule version_ok_mono, simp add: s'(1))
  then show ?thesis
    using table_set [OF pricing_invD(1) [OF inv] rule(4)] unique_by_update [OF pricing_invD(3) [OF inv] rule(1,2)] rule(3) pricing_invD(4) [OF inv]
    by (simp add: pricing_inv_def s')
qed

section \<open>Every write keeps the invariant\<close>

lemma save_draft_ok:
  assumes inv: "pricing_inv E s" and save: "SavePricingRuleDraft rule draft lock s = (s', Inr (Some updated))"
    and draft: "list_all plain_char (pv_ID draft)" "pv_Revision draft = 0"
    and over: "\<And>v. go_get (ps_versions s) (pv_ID draft) = Some v \<Longrightarrow> pv_RuleID v = pr_ID rule \<and> pv_State v = PricingVersionStateDraft"
  shows "pricing_inv E s' \<and> pricing_le s s'"
proof -
  obtain current where c: "go_get (ps_rules s) (pr_ID rule) = Some current" "pricingRuleSameSlot current rule"
    "pv_RuleID draft = pr_ID rule" "pv_State draft = PricingVersionStateDraft"
    "updated = rule\<lparr>pr_LockVersion := pr_LockVersion current + 1, pr_ActiveVersionID := pr_ActiveVersionID current, pr_CreatedAt := pr_CreatedAt current\<rparr>"
    "ps_rules s' = go_set (pr_ID rule) updated (ps_rules s)"
    "ps_versions s' = go_set (pv_ID draft) draft (drop_drafts (pr_ID rule) (pv_ID draft) (ps_versions s))"
    using save by (auto simp: SavePricingRuleDraft_def Let_def split: option.splits if_splits)
  note m = drop_drafts_get [OF table_keyed [OF pricing_invD(2) [OF inv]]]
  have slot: "slot updated = slot current" using c(2,5) by (simp add: slot_def pricingRuleSameSlot_def)
  have kept: "go_get (ps_versions s') i = Some v" if "go_get (ps_versions s) i = Some v" "published v" for i v
    using that over m by (auto simp: c(7) published_def)
  have current: "pr_ID current = pr_ID rule" "rule_ok (ps_versions s) current" using pricing_inv_rule [OF inv c(1)] by auto
  have "rule_ok (ps_versions s') current" using current(2) kept by (rule rule_ok_mono)
  then have "rule_ok (ps_versions s') updated" using current(1) by (simp add: rule_ok_def c(5))
  moreover have "version_ok E (ps_rules s) draft" using draft c(1,3,4) by (simp add: version_ok_def)
  moreover have "i' = pv_ID draft" if "go_get (drop_drafts (pr_ID rule) (pv_ID draft) (ps_versions s)) i' = Some v'" "pv_RuleID v' = pv_RuleID draft"
    "pv_Revision v' = pv_Revision draft" for i' v'
    using that c(3) draft(2) pricing_inv_version [OF inv, of i' v'] by (auto simp: m version_ok_def)
  moreover have "keyed pv_ID (drop_drafts (pr_ID rule) (pv_ID draft) (ps_versions s))"
    using table_keyed [OF pricing_invD(2) [OF inv]] unfolding drop_drafts_def by (rule keyed_filter)
  ultimately have "pricing_inv E s'" using kept m slot by (intro pricing_inv_store [OF inv c(1) slot _ c(6,7)]) (simp_all add: c(5))
  moreover have "pricing_le s s'"
    by (rule pricing_le_store [OF c(1) slot _ c(6) _ kept]) (use c(3) over m in \<open>auto simp: c(5,7)\<close>)
  ultimately show ?thesis by simp
qed

lemma maxRevision_bounds:
  "0 \<le> maxRevision k s"
  "v \<in> set (go_values (ps_versions s)) \<Longrightarrow> pv_RuleID v = k \<Longrightarrow> published v \<Longrightarrow> pv_Revision v \<le> maxRevision k s"
proof -
  let ?f = "\<lambda>m v. if pv_RuleID v = k \<and> pv_State v = PricingVersionStatePublished \<and> pv_Revision v > m then pv_Revision v else m"
  have "a \<le> foldl ?f a vs \<and> (\<forall>v \<in> set vs. pv_RuleID v = k \<longrightarrow> published v \<longrightarrow> pv_Revision v \<le> foldl ?f a vs)" for a vs
  proof (induction vs arbitrary: a)
    case (Cons w vs)
    from Cons [of "?f a w"] show ?case by (auto simp: published_def split: if_splits)
  qed simp
  from this [of 0 "go_values (ps_versions s)"] show "0 \<le> maxRevision k s"
    "v \<in> set (go_values (ps_versions s)) \<Longrightarrow> pv_RuleID v = k \<Longrightarrow> published v \<Longrightarrow> pv_Revision v \<le> maxRevision k s"
    by (auto simp: maxRevision_def)
qed

lemma publish_ok:
  assumes inv: "pricing_inv E s" and pub: "PublishPricingRuleVersion version lock active s = (s', Inr (Some (rule', version')))"
    and v: "tested E version"
  shows "pricing_inv E s' \<and> pricing_le s s' \<and> go_get (ps_versions s') (pv_ID version) = Some version' \<and> published version' \<and>
    pv_Expression version' = pv_Expression version"
proof -
  obtain rule draft where c: "go_get (ps_rules s) (pv_RuleID version) = Some rule" "go_get (ps_versions s) (pv_ID version) = Some draft"
    "pv_RuleID draft = pr_ID rule" "pv_State draft = PricingVersionStateDraft"
    "version' = version\<lparr>pv_Revision := maxRevision (pr_ID rule) s + 1, pv_State := PricingVersionStatePublished,
       pv_RuleID := pr_ID rule, pv_CreatedAt := pv_CreatedAt draft, pv_PublishedAt := Some (pv_UpdatedAt version)\<rparr>"
    "rule' = rule\<lparr>pr_ActiveVersionID := pv_ID version, pr_LockVersion := pr_LockVersion rule + 1,
       pr_UpdatedAt := pv_UpdatedAt version, pr_UpdatedBy := pv_PublishedBy version\<rparr>"
    "ps_versions s' = go_set (pv_ID version) version' (ps_versions s)" "ps_rules s' = go_set (pr_ID rule) rule' (ps_rules s)"
    using pub by (auto simp: PublishPricingRuleVersion_def Let_def split: option.splits if_splits)
  have rule: "pr_ID rule = pv_RuleID version" "rule_ok (ps_versions s) rule" using pricing_inv_rule [OF inv c(1)] by auto
  have draft: "pv_ID draft = pv_ID version" "version_ok E (ps_rules s) draft" using pricing_inv_version [OF inv c(2)] by auto
  have get: "go_get (ps_rules s) (pr_ID rule) = Some rule" using c(1) rule(1) by simp
  have slot: "slot rule' = slot rule" by (simp add: c(6) slot_def)
  have kept: "go_get (ps_versions s') i = Some v" if "go_get (ps_versions s) i = Some v" "published v" for i v
    using that c(2,4) by (auto simp: c(7) published_def)
  have "tested E version'" using v by (simp add: tested_def c(5))
  then have "version_ok E (ps_rules s) version'"
    using draft get maxRevision_bounds(1) [of "pr_ID rule" s] by (simp add: version_ok_def published_def c(5))
  moreover have "rule_ok (ps_versions s') rule'" using rule(2) by (simp add: rule_ok_def published_def c(5,6,7))
  moreover have "i' = pv_ID version" if "go_get (ps_versions s) i' = Some v'" "pv_RuleID v' = pv_RuleID version'" "pv_Revision v' = pv_Revision version'" for i' v'
    using that maxRevision_bounds [where k = "pr_ID rule" and s = s] pricing_inv_version [OF inv that(1)]
      keyed_get_value [OF table_keyed [OF pricing_invD(2) [OF inv]] that(1)] by (fastforce simp: c(5) version_ok_def)
  ultimately have "pricing_inv E s'"
    using kept table_keyed [OF pricing_invD(2) [OF inv]] by (intro pricing_inv_store [OF inv get slot _ c(8,7)]) (simp_all add: c(5,6))
  moreover have "pricing_le s s'"
    by (rule pricing_le_store [OF get slot _ c(8) _ kept]) (use c(2,3) in \<open>auto simp: c(5,6,7)\<close>)
  ultimately show ?thesis by (simp add: c(5,7) published_def)
qed

lemma create_ok:
  assumes inv: "pricing_inv E s" and create: "CreatePricingRule rule draft s = (s', None)"
    and fresh: "go_get (ps_versions s) (pv_ID draft) = None"
    and ok: "list_all plain_char (pr_ID rule)" "pr_ActiveVersionID rule = []" "list_all plain_char (pv_ID draft)" "pv_Revision draft = 0"
  shows "pricing_inv E s' \<and> pricing_le s s'"
proof -
  have c: "go_get (ps_rules s) (pr_ID rule) = None" "\<forall>r \<in> set (go_values (ps_rules s)). \<not> pricingRuleSameSlot r rule"
    "pv_RuleID draft = pr_ID rule" "pv_State draft = PricingVersionStateDraft"
    "ps_rules s' = go_set (pr_ID rule) rule (ps_rules s)" "ps_versions s' = go_set (pv_ID draft) draft (ps_versions s)"
    using create by (auto simp: CreatePricingRule_def split: if_splits)
  have kept: "go_get (ps_versions s') i = Some v" if "go_get (ps_versions s) i = Some v" for i v
    using that fresh by (auto simp: c(6))
  have "table pr_ID (rule_ok (ps_versions s')) (ps_rules s)"
    using pricing_invD(1) [OF inv] by (rule table_mono) (erule rule_ok_mono, rule kept)
  then have rules: "table pr_ID (rule_ok (ps_versions s')) (ps_rules s')"
    unfolding c(5) by (rule table_set) (simp_all add: rule_ok_def ok)
  have "table pv_ID (version_ok E (ps_rules s')) (ps_versions s)"
    using pricing_invD(2) [OF inv] by (rule table_mono) (erule version_ok_mono, simp add: c(5))
  then have versions: "table pv_ID (version_ok E (ps_rules s')) (ps_versions s')"
    unfolding c(6) by (rule table_set) (simp_all add: version_ok_def ok c(3,4,5))
  have "unique_by slot (ps_rules s')" unfolding c(5)
  proof (rule unique_by_set [OF pricing_invD(3) [OF inv]])
    fix k r assume "go_get (ps_rules s) k = Some r" "slot r = slot rule"
    then show "k = pr_ID rule" using c(2) keyed_get_value [OF table_keyed [OF pricing_invD(1) [OF inv]], of k r]
      unfolding slot_def pricingRuleSameSlot_def by blast
  qed
  moreover have "unique_by (\<lambda>v. (pv_RuleID v, pv_Revision v)) (ps_versions s')" unfolding c(6)
  proof (rule unique_by_set [OF pricing_invD(4) [OF inv]])
    fix k v assume "go_get (ps_versions s) k = Some v" "(pv_RuleID v, pv_Revision v) = (pv_RuleID draft, pv_Revision draft)"
    then show "k = pv_ID draft" using pricing_inv_version [OF inv, of k v] c(1,3) by (auto simp: version_ok_def)
  qed
  ultimately have "pricing_inv E s'" using rules versions by (simp add: pricing_inv_def)
  moreover have "pricing_le s s'" unfolding pricing_le_def rule_le_def
  proof (intro conjI allI impI)
    fix k r assume r: "go_get (ps_rules s) k = Some r"
    then have "k \<noteq> pr_ID rule" using c(1) by auto
    with r fresh show "\<exists>rule'. go_get (ps_rules s') k = Some rule' \<and> slot rule' = slot r \<and> pr_LockVersion r \<le> pr_LockVersion rule' \<and>
        (pr_LockVersion r = pr_LockVersion rule' \<longrightarrow> rule' = r \<and>
           (\<forall>i v. pv_RuleID v = k \<longrightarrow> (go_get (ps_versions s') i = Some v \<longleftrightarrow> go_get (ps_versions s) i = Some v)))"
      using c(3) by (auto simp: c(5,6))
  next
    fix i v assume "go_get (ps_versions s) i = Some v"
    then show "go_get (ps_versions s') i = Some v" by (rule kept)
  qed
  ultimately show ?thesis by simp
qed

lemma rule_detail_draft:
  "dt_Rule (rule_detail rule vs) = rule"
  "dt_Draft (rule_detail rule vs) = Some d \<Longrightarrow> d \<in> set vs \<and> pv_State d = PricingVersionStateDraft"
proof -
  let ?f = "\<lambda>d v. let d1 = (if pv_ID v = pr_ActiveVersionID rule then d\<lparr>dt_ActiveVersion := Some v\<rparr> else d) in
                  if pv_State v = PricingVersionStateDraft then d1\<lparr>dt_Draft := Some v\<rparr> else d1"
  have "dt_Rule (foldl ?f a vs) = dt_Rule a \<and> (dt_Draft (foldl ?f a vs) = Some d \<longrightarrow>
     dt_Draft a = Some d \<or> d \<in> set vs \<and> pv_State d = PricingVersionStateDraft)" for a :: PricingRuleDetail
  proof (induction vs arbitrary: a)
    case (Cons w vs)
    from Cons [of "?f a w"] show ?case by (auto simp: Let_def split: if_splits)
  qed simp
  from this [of "\<lparr>dt_Rule = rule, dt_ActiveVersion = None, dt_Draft = None, dt_Versions = vs\<rparr>"]
  show "dt_Rule (rule_detail rule vs) = rule"
    "dt_Draft (rule_detail rule vs) = Some d \<Longrightarrow> d \<in> set vs \<and> pv_State d = PricingVersionStateDraft"
    by (auto simp: rule_detail_def)
qed

definition history_ok :: "engine_env \<Rightarrow> pricing_store list \<Rightarrow> bool" where
  "history_ok E h \<longleftrightarrow> (\<forall>s \<in> set h. pricing_inv E s) \<and> (\<forall>i j. j \<le> i \<longrightarrow> i < length h \<longrightarrow> pricing_le (h ! i) (h ! j))"

lemma locked_versions:
  assumes h: "history_ok E h" "j \<le> i" "i < length h"
    and rule: "go_get (ps_rules (h ! i)) k = Some rule" "go_get (ps_rules (h ! 0)) k = Some current" "pr_LockVersion current = pr_LockVersion rule"
    and v: "pv_RuleID v = k"
  shows "go_get (ps_versions (h ! j)) x = Some v \<longleftrightarrow> go_get (ps_versions (h ! 0)) x = Some v"
proof -
  have le: "pricing_le (h ! i) (h ! j)" "pricing_le (h ! j) (h ! 0)" using h by (auto simp: history_ok_def)
  obtain r where r: "go_get (ps_rules (h ! j)) k = Some r" "pr_LockVersion rule \<le> pr_LockVersion r"
    using le(1) rule(1) unfolding pricing_le_def rule_le_def by blast
  have "rule_le (h ! j) (h ! 0) k r" using le(2) r(1) unfolding pricing_le_def by blast
  then have "pr_LockVersion r \<le> pr_LockVersion current" using rule(2) by (auto simp: rule_le_def)
  then have "pr_LockVersion current = pr_LockVersion r" using r(2) rule(3) by simp
  from pricing_le_locked(2) [OF le(2) r(1) rule(2) this v] show ?thesis by blast
qed

lemma publish_request_tested:
  assumes "publish_request E now actor ruleID request rule found = Inr version"
  obtains draft where "found = Some draft" "tested E version" "pv_RuleID version = ruleID" "pv_ID version = pv_ID draft"
    "pv_RuleID draft = ruleID" "pv_Expression version = pv_Expression draft" "pv_TestCases version = pv_TestCases draft"
    "pq_ExpectedLockVersion request = pr_LockVersion rule"
proof -
  obtain draft compiled where d: "found = Some draft" "engine_Compile E (pv_Expression draft) = Inr compiled"
    "vr_Valid (ValidatePricingRule E (pv_Expression draft) (pv_TestCases draft))" "pq_ExpectedLockVersion request = pr_LockVersion rule"
    "pv_RuleID draft = ruleID"
    "version = draft\<lparr>pv_EngineVersion := cr_EngineVersion compiled, pv_ExpressionHash := cr_ExpressionHash compiled,
       pv_Analysis := cr_Analysis compiled, pv_PublishedBy := actor, pv_UpdatedAt := now\<rparr>"
    using assms by (auto simp: publish_request_def Let_def split: option.splits if_splits sum.splits list.splits)
  have hash: "cr_ExpressionHash compiled = ee_digest E (pv_Expression draft)"
    using d(2) by (auto simp: engine_Compile_def engine_CompileByHash_def compile_spec_def compileV1_def split: sum.splits prod.splits option.splits if_splits)
  have "list_all tr_Passed (map (run_test_case E compiled) (pv_TestCases draft))"
    using d(2,3) by (simp add: ValidatePricingRule_def Let_def)
  then have "\<exists>res. engine_Evaluate E compiled (tc_Facts t) = Inr res \<and> test_passed t res" if "t \<in> set (pv_TestCases draft)" for t
    using that by (cases "engine_Evaluate E compiled (tc_Facts t)") (auto simp: list_all_iff run_test_case_def)
  then have "tested E version" using d(2) hash by (auto simp: tested_def d(6) engine_Compile_def)
  then show ?thesis using that d by simp
qed

lemma draft_write_ok:
  assumes h: "history_ok E (s # h)" "i \<ge> j" "i < length (s # h)" and find: "FindPricingRule ruleID ((s # h) ! i) = Some rule"
    and detail: "detail = rule_detail rule (ListPricingRuleVersions (pr_ID rule) ((s # h) ! j))"
    and fresh: "list_all plain_char randomID" "go_get (ps_versions s) (''pdraft_'' @ randomID) = None"
    and request: "draft_request E now randomID actor ruleID request detail = Inr (rule', draft)"
    and save: "SavePricingRuleDraft rule' draft (dr_ExpectedLockVersion request) s = (s', Inr (Some updated))"
  shows "pricing_inv E s' \<and> pricing_le s s'"
proof -
  have inv: "pricing_inv E s" "pricing_inv E ((s # h) ! i)" "pricing_inv E ((s # h) ! j)"
    using h nth_mem [of i "s # h"] nth_mem [of j "s # h"] by (auto simp: history_ok_def simp del: nth_mem)
  have get: "go_get (ps_rules ((s # h) ! i)) (TrimSpace ruleID) = Some rule" using find by (simp add: FindPricingRule_def)
  have rule: "pr_ID rule = TrimSpace ruleID" "list_all plain_char (pr_ID rule)" using pricing_inv_rule [OF inv(2) get] by (auto simp: rule_ok_def)
  have req: "pr_ID rule' = pr_ID rule" "dr_ExpectedLockVersion request = pr_LockVersion rule" "pv_Revision draft = 0"
    "pv_ID draft = (case dt_Draft detail of None \<Rightarrow> ''pdraft_'' @ randomID | Some d \<Rightarrow> pv_ID d)"
    using request rule_detail_draft(1) by (auto simp: detail draft_request_def new_draft_def Let_def split: if_splits option.splits)
  obtain current where c: "go_get (ps_rules s) (pr_ID rule) = Some current" "pr_LockVersion current = pr_LockVersion rule"
    using save req(1,2) by (auto simp: SavePricingRuleDraft_def split: option.splits if_splits)
  have stored: "go_get (ps_versions s) (pv_ID d) = Some d \<and> pv_RuleID d = pr_ID rule \<and> pv_State d = PricingVersionStateDraft"
    if d: "dt_Draft detail = Some d" for d
  proof -
    have "d \<in> set (ListPricingRuleVersions (pr_ID rule) ((s # h) ! j))" and state: "pv_State d = PricingVersionStateDraft"
      using rule_detail_draft(2) d detail by auto
    then have "d \<in> set (go_values (ps_versions ((s # h) ! j)))" and id: "pv_RuleID d = pr_ID rule"
      using plain_TrimSpace [OF rule(2)] unfolding ListPricingRuleVersions_def set_sort_by set_filter by auto
    then have "go_get (ps_versions ((s # h) ! j)) (pv_ID d) = Some d" using table_values [OF pricing_invD(2) [OF inv(3)], of d] by blast
    then show ?thesis using locked_versions [OF h, of "pr_ID rule" rule current d "pv_ID d"] get rule(1) c id state by simp
  qed
  have over: "pv_RuleID v = pr_ID rule' \<and> pv_State v = PricingVersionStateDraft" if "go_get (ps_versions s) (pv_ID draft) = Some v" for v
    using that req(1,4) fresh(2) stored by (cases "dt_Draft detail") auto
  have "list_all plain_char ''pdraft_''" by code_simp
  then have "list_all plain_char (pv_ID draft)"
    using req(4) fresh(1) stored pricing_inv_version [OF inv(1)] by (cases "dt_Draft detail") (auto simp: version_ok_def)
  from save_draft_ok [OF inv(1) save this req(3) over] show ?thesis by simp
qed

lemma write_ok:
  assumes "pricing_write E h s'" "history_ok E h"
  shows "pricing_inv E s' \<and> pricing_le (h ! 0) s'"
  using assms
proof (induction rule: pricing_write.induct)
  case (write_create request actor now rand1 rule rand2 s s' h)
  then have inv: "pricing_inv E s" by (simp add: history_ok_def)
  have rule: "pr_ID rule = ''prule_'' @ rand1" "pr_ActiveVersionID rule = []"
    using write_create(1) by (auto simp: normalizePricingRule_def Let_def split: if_splits)
  have plain: "list_all plain_char ''prule_''" "list_all plain_char ''pdraft_''" by code_simp+
  show ?case using create_ok [OF inv write_create(5)] write_create(2-4) rule plain by (simp add: create_draft_def new_draft_def)
next
  case (write_draft i j s h ruleID rule detail randomID now actor request rule' draft s' updated)
  from draft_write_ok [OF write_draft(9,1,2,3) _ write_draft(5) _ _ write_draft(8)] write_draft(4,6,7) show ?case by simp
next
  case (write_publish i j s h ruleID rule found request now actor version s' updated)
  then have inv: "pricing_inv E s" by (simp add: history_ok_def)
  obtain rule' version' where "updated = (rule', version')" by (cases updated)
  moreover have "tested E version" using publish_request_tested [OF write_publish(5)] by blast
  ultimately show ?case using publish_ok [OF inv, of version _ _ s' rule' version'] write_publish(6) by simp
next
  case (write_activate ruleID versionID lock actor now s s' updated h)
  then have inv: "pricing_inv E s" by (simp add: history_ok_def)
  obtain rule version where c: "go_get (ps_rules s) ruleID = Some rule" "go_get (ps_versions s) versionID = Some version"
    "pv_RuleID version = ruleID" "pv_State version = PricingVersionStatePublished"
    "s' = s\<lparr>ps_rules := go_set ruleID (rule\<lparr>pr_ActiveVersionID := versionID, pr_LockVersion := pr_LockVersion rule + 1, pr_UpdatedBy := actor,
       pr_UpdatedAt := now\<rparr>) (ps_rules s)\<rparr>"
    using write_activate(1) by (auto simp: ActivatePricingRuleVersion_def Let_def split: option.splits if_splits)
  have "pricing_inv E s'" using pricing_inv_rule [OF inv c(1)] c(2-4)
    by (intro pricing_inv_rules [OF inv c(1)]) (auto simp: c(5) slot_def rule_ok_def published_def)
  moreover have "pricing_le s s'" by (rule pricing_le_store [OF c(1)]) (auto simp: c(5) slot_def)
  ultimately show ?case by simp
next
  case (write_status ruleID status lock actor now s s' updated h)
  then have inv: "pricing_inv E s" by (simp add: history_ok_def)
  obtain rule where c: "go_get (ps_rules s) ruleID = Some rule"
    "s' = s\<lparr>ps_rules := go_set ruleID (rule\<lparr>pr_Status := status, pr_LockVersion := pr_LockVersion rule + 1, pr_UpdatedBy := actor,
       pr_UpdatedAt := now\<rparr>) (ps_rules s)\<rparr>"
    using write_status(1) by (auto simp: SetPricingRuleStatus_def Let_def split: option.splits if_splits)
  have "pricing_inv E s'" using pricing_inv_rule [OF inv c(1)]
    by (intro pricing_inv_rules [OF inv c(1)]) (auto simp: c(2) slot_def rule_ok_def)
  moreover have "pricing_le s s'" by (rule pricing_le_store [OF c(1)]) (auto simp: c(2) slot_def)
  ultimately show ?case by simp
next
  case (write_audit event s s' h)
  then have "ps_rules s' = ps_rules s" "ps_versions s' = ps_versions s" "pricing_inv E s" by (auto simp: AddAuditLog_def history_ok_def)
  then show ?case using pricing_le_same [of s' s] by (simp add: pricing_inv_def)
qed

lemma pricing_run_ok: "pricing_run E h \<Longrightarrow> history_ok E h"
proof (induction rule: pricing_run.induct)
  case run_new
  show ?case by (auto simp: history_ok_def pricing_inv_def new_pricing_store_def)
next
  case (run_write h s')
  have w: "pricing_inv E s'" "pricing_le (h ! 0) s'" using write_ok [OF run_write(2,3)] by auto
  have "h \<noteq> []" using run_write(2) by (auto elim: pricing_write.cases)
  have "pricing_le ((s' # h) ! i) ((s' # h) ! j)" if ij: "j \<le> i" "i < length (s' # h)" for i j
  proof (cases j)
    case 0
    show ?thesis
    proof (cases i)
      case (Suc n)
      then have "pricing_le (h ! n) (h ! 0)" using run_write(3) ij \<open>h \<noteq> []\<close> by (simp add: history_ok_def)
      then show ?thesis using pricing_le_trans [OF _ w(2)] 0 Suc by simp
    qed (simp add: 0)
  next
    case (Suc m)
    then obtain n where "i = Suc n" using ij by (cases i) auto
    then show ?thesis using run_write(3) ij Suc by (simp add: history_ok_def)
  qed
  then show ?case using w(1) run_write(3) by (auto simp: history_ok_def)
qed

lemma pricing_run_inv: "pricing_run E (s # h) \<Longrightarrow> pricing_inv E s"
  using pricing_run_ok by (auto simp: history_ok_def)

section \<open>Selection\<close>

definition best_of :: "string \<Rightarrow> PricingRule list \<Rightarrow> PricingRule \<Rightarrow> bool" where
  "best_of model rules rule \<longleftrightarrow> rule \<in> set rules \<and> selectable model rule \<and>
     (pr_Model rule = model \<or> (\<forall>r \<in> set rules. selectable model r \<longrightarrow> pr_Model r \<noteq> model))"

lemma select_loop_spec:
  assumes "sel = None \<and> best = - 1 \<or> (\<exists>x. sel = Some x \<and> selectable model x \<and> best = (if pr_Model x = model then 1 else 0))"
  shows "case select_loop model rules sel best of
     None \<Rightarrow> sel = None \<and> (\<forall>r \<in> set rules. \<not> selectable model r)
   | Some x \<Rightarrow> (sel = Some x \<or> x \<in> set rules) \<and> selectable model x \<and>
       (pr_Model x = model \<or> (\<forall>r \<in> set rules \<union> set_option sel. selectable model r \<longrightarrow> pr_Model r \<noteq> model))"
  using assms
proof (induction rules arbitrary: sel best)
  case (Cons r rules)
  show ?case
  proof (cases "selectable model r \<and> (if pr_Model r = model then 1 else 0) > best")
    case True
    from Cons.IH [of "Some r" "if pr_Model r = model then 1 else 0"] True Cons.prems show ?thesis
      by (auto split: option.splits if_splits)
  next
    case False
    from Cons.IH [OF Cons.prems] False Cons.prems show ?thesis by (auto split: option.splits if_splits)
  qed
qed (auto split: option.split if_splits)

lemma select_loop_best:
  "case select_loop model rules None (- 1) of None \<Rightarrow> \<forall>r. \<not> best_of model rules r | Some x \<Rightarrow> best_of model rules x"
  using select_loop_spec [of None "- 1" model rules] by (auto simp: best_of_def split: option.splits)

lemma best_of_unique:
  assumes inv: "pricing_inv E s" and best: "best_of model (ListPricingRules s) a" "best_of model (ListPricingRules s) b"
  shows "a = b"
proof -
  have sel: "selectable model a" "selectable model b" using best by (auto simp: best_of_def)
  have "pr_Model a = pr_Model b" using best by (auto simp: best_of_def selectable_def)
  then have "slot a = slot b" using sel by (simp add: slot_def selectable_def)
  moreover have get: "go_get (ps_rules s) (pr_ID r) = Some r" if "best_of model (ListPricingRules s) r" for r
    using that table_values [OF pricing_invD(1) [OF inv], of r] unfolding best_of_def ListPricingRules_def set_sort_by by blast
  ultimately have "pr_ID a = pr_ID b" using unique_byD [OF pricing_invD(3) [OF inv] get [OF best(1)] get [OF best(2)]] by blast
  then show ?thesis using get [OF best(1)] get [OF best(2)] by (metis option.inject)
qed

section \<open>An example\<close>

text \<open>A rule for all models, created and published; every request costs 7.\<close>

definition example_env :: engine_env where
  "example_env = \<lparr>ee_parse = (\<lambda>_. Inr (IntegerNode 1)), ee_compile = (\<lambda>_. Inr (
       VMCall ''fixed_line'' [VString ''fee'', VString ''request'', VInt64 7] (\<lambda>a.
       VMCall ''tier'' [VString ''std'', VInt64 a] (\<lambda>b. VMReturn (VInt64 b))))),
     ee_digest = id, ee_facts_digest = (\<lambda>_. ''h''), ee_sprintf = (\<lambda>f _. f), ee_wrap = PErr\<rparr>"

definition example_create :: PricingRuleCreateRequest where
  "example_create = \<lparr>cq_Name = ''n'', cq_Purpose = ''usage_cost'', cq_ScopeType = ''global'', cq_ScopeID = [], cq_Model = ''*'',
     cq_Currency = ''usd'', cq_AuthoringMode = ''raw'', cq_Expression = ''v1:1'', cq_TestCases = []\<rparr>"

definition example_publish :: PricingPublishRequest where
  "example_publish = \<lparr>pq_DraftVersionID = ''pdraft_1'', pq_ExpectedLockVersion = 1, pq_ExpectedActiveVersion = [], pq_ExpressionHash = []\<rparr>"

definition example_rule0 :: PricingRule where
  "example_rule0 = \<lparr>pr_ID = ''prule_0'', pr_Name = ''n'', pr_Purpose = ''usage_cost'', pr_ScopeType = ''global'', pr_ScopeID = [],
     pr_Model = ''*'', pr_Status = ''active'', pr_ActiveVersionID = [], pr_LockVersion = 1, pr_CreatedBy = ''a'', pr_UpdatedBy = ''a'',
     pr_CreatedAt = 5, pr_UpdatedAt = 5\<rparr>"

definition example_draft :: PricingRuleVersion where
  "example_draft = create_draft example_env ''1'' example_create ''a'' example_rule0"

definition example_version :: PricingRuleVersion where
  "example_version = example_draft\<lparr>pv_Analysis := \<lparr>ra_EngineVersion = 1, ra_RequiredFacts = [], ra_Tiers = [], ra_LineCodes = [], ra_VisualEditable = True\<rparr>,
     pv_PublishedBy := ''a'', pv_UpdatedAt := 6\<rparr>"

definition example_created :: pricing_store where
  "example_created = fst (CreatePricingRule example_rule0 example_draft new_pricing_store)"

definition example_published :: pricing_store where
  "example_published = fst (PublishPricingRuleVersion example_version 1 [] example_created)"

lemma example_pricing_run: "pricing_run example_env [example_published, example_created, new_pricing_store]"
proof -
  have "normalizePricingRule example_create ''a'' 5 ''0'' = Inr example_rule0" by code_simp
  moreover have "CreatePricingRule example_rule0 (create_draft example_env ''1'' example_create ''a'' example_rule0) new_pricing_store = (example_created, None)"
    by code_simp
  moreover have "list_all plain_char ''0''" "list_all plain_char ''1''" "go_get (ps_versions new_pricing_store) (''pdraft_'' @ ''1'') = None" by code_simp+
  ultimately have run: "pricing_run example_env [example_created, new_pricing_store]"
    by (meson pricing_run.intros write_create)
  let ?found = "FindPricingRuleVersion (pq_DraftVersionID example_publish) example_created"
  have f: "FindPricingRule ''prule_0'' example_created = Some example_rule0" by code_simp
  have p: "publish_request example_env 6 ''a'' ''prule_0'' example_publish example_rule0 ?found = Inr example_version" by code_simp
  obtain u where "PublishPricingRuleVersion example_version (pq_ExpectedLockVersion example_publish) (pq_ExpectedActiveVersion example_publish) example_created =
      (example_published, Inr (Some u))"
  proof -
    have "case snd (PublishPricingRuleVersion example_version 1 [] example_created) of Inr (Some _) \<Rightarrow> True | _ \<Rightarrow> False" by code_simp
    then show ?thesis using that by (auto simp: example_published_def example_publish_def split: sum.splits option.splits) (metis prod.collapse)
  qed
  then have "pricing_write example_env [example_created, new_pricing_store] example_published"
    using write_publish [of 0 0 example_created "[new_pricing_store]" "''prule_0''" example_rule0 ?found example_publish example_env 6 "''a''"] f p by simp
  with run show ?thesis by (rule run_write)
qed

definition example_disabled :: pricing_store where
  "example_disabled = fst (SetPricingRuleStatus ''prule_0'' PricingRuleStatusDisabled 2 ''a'' 7 example_published)"

lemma example_disabled_run: "pricing_run example_env [example_disabled, example_published, example_created, new_pricing_store]"
proof -
  have "case SetPricingRuleStatus ''prule_0'' PricingRuleStatusDisabled 2 ''a'' 7 example_published of (_, Some _) \<Rightarrow> True | _ \<Rightarrow> False" by code_simp
  then obtain u where "SetPricingRuleStatus ''prule_0'' PricingRuleStatusDisabled 2 ''a'' 7 example_published = (example_disabled, Some u)"
    by (auto simp: example_disabled_def split: prod.splits option.splits)
  then show ?thesis using example_pricing_run by (blast intro: run_write write_status)
qed

section \<open>Properties\<close>

text \<open>
  C8: a published price does not change. In every interleaving of the service calls, with reads that
  are stale by the time of the write, a version of a rule that was published once is stored unchanged
  ever after, with its expression, its hash and its tests; and the rule it belongs to keeps its slot.
\<close>

theorem published_version_immutable:
  assumes "pricing_run E h" "j \<le> i" "i < length h"
    and "go_get (ps_versions (h ! i)) k = Some v" "pv_State v = PricingVersionStatePublished"
  shows "go_get (ps_versions (h ! j)) k = Some v \<and>
    (\<exists>rule rule'. go_get (ps_rules (h ! i)) (pv_RuleID v) = Some rule \<and> go_get (ps_rules (h ! j)) (pv_RuleID v) = Some rule' \<and>
       slot rule' = slot rule \<and> pr_LockVersion rule \<le> pr_LockVersion rule')"
proof -
  have le: "pricing_le (h ! i) (h ! j)" and inv: "pricing_inv E (h ! i)"
    using pricing_run_ok [OF assms(1)] assms(2,3) by (auto simp: history_ok_def)
  obtain rule where r: "go_get (ps_rules (h ! i)) (pv_RuleID v) = Some rule"
    using pricing_inv_version [OF inv assms(4)] by (auto simp: version_ok_def)
  then have "rule_le (h ! i) (h ! j) (pv_RuleID v) rule" using le unfolding pricing_le_def by blast
  with r show ?thesis using le assms(4,5) unfolding rule_le_def pricing_le_def published_def by blast
qed

theorem published_version_immutable_witness:
  "\<exists>v. pricing_run example_env [example_disabled, example_published, example_created, new_pricing_store] \<and>
     go_get (ps_versions example_published) ''pdraft_1'' = Some v \<and> go_get (ps_versions example_disabled) ''pdraft_1'' = Some v"
proof -
  note run = example_disabled_run
  have "case go_get (ps_versions example_published) ''pdraft_1'' of Some v \<Rightarrow> pv_State v = PricingVersionStatePublished | None \<Rightarrow> False" by code_simp
  then obtain v where v: "go_get (ps_versions example_published) ''pdraft_1'' = Some v" "pv_State v = PricingVersionStatePublished"
    by (auto split: option.splits)
  show ?thesis using published_version_immutable [OF run, of 0 1 "''pdraft_1''" v] run v by auto
qed

text \<open>
  The pricing tables stay sound. After every interleaving a published version compiles by its
  recorded hash, passes all of its own test cases, and carries the analysis of the compiler; a rule has
  at most one draft and its published versions have different revisions from 1 on; an active version is a
  published version of its rule; and no two rules share a slot.
\<close>

theorem pricing_tables_sound:
  assumes "pricing_run E (s # h)" "go_get (ps_versions s) k = Some v"
  shows "(pv_State v = PricingVersionStatePublished \<longrightarrow> 1 \<le> pv_Revision v \<and> tested E v) \<and>
    (\<forall>k' v'. go_get (ps_versions s) k' = Some v' \<and> pv_RuleID v' = pv_RuleID v \<and> pv_Revision v' = pv_Revision v \<longrightarrow> k' = k) \<and>
    (pv_State v = PricingVersionStateDraft \<longrightarrow>
       (\<forall>k' v'. go_get (ps_versions s) k' = Some v' \<and> pv_RuleID v' = pv_RuleID v \<and> pv_State v' = PricingVersionStateDraft \<longrightarrow> k' = k)) \<and>
    (\<exists>rule. go_get (ps_rules s) (pv_RuleID v) = Some rule \<and>
       (\<forall>k' rule'. go_get (ps_rules s) k' = Some rule' \<and> slot rule' = slot rule \<longrightarrow> k' = pv_RuleID v) \<and>
       (pr_ActiveVersionID rule \<noteq> [] \<longrightarrow>
         (\<exists>a. go_get (ps_versions s) (pr_ActiveVersionID rule) = Some a \<and> pv_RuleID a = pv_RuleID v \<and> pv_State a = PricingVersionStatePublished)))"
proof -
  have inv: "pricing_inv E s" by (rule pricing_run_inv [OF assms(1)])
  have v: "pv_ID v = k" "version_ok E (ps_rules s) v" using pricing_inv_version [OF inv assms(2)] by auto
  have same: "k' = k" if "go_get (ps_versions s) k' = Some v'" "pv_RuleID v' = pv_RuleID v" "pv_Revision v' = pv_Revision v" for k' v'
    using unique_byD [OF pricing_invD(4) [OF inv] that(1) assms(2)] that by simp
  have drafts: "pv_Revision v' = 0" if "go_get (ps_versions s) k' = Some v'" "pv_State v' = PricingVersionStateDraft" for k' v'
    using pricing_inv_version [OF inv that(1)] that(2) by (auto simp: version_ok_def published_def)
  obtain rule where r: "go_get (ps_rules s) (pv_RuleID v) = Some rule" using v(2) by (auto simp: version_ok_def)
  have "k' = pv_RuleID v" if "go_get (ps_rules s) k' = Some rule'" "slot rule' = slot rule" for k' rule'
    using unique_byD [OF pricing_invD(3) [OF inv] that(1) r that(2)] .
  moreover have "pr_ActiveVersionID rule \<noteq> [] \<longrightarrow>
      (\<exists>a. go_get (ps_versions s) (pr_ActiveVersionID rule) = Some a \<and> pv_RuleID a = pv_RuleID v \<and> pv_State a = PricingVersionStatePublished)"
    using pricing_inv_rule [OF inv r] by (auto simp: rule_ok_def published_def)
  moreover have "pv_State v = PricingVersionStatePublished \<longrightarrow> 1 \<le> pv_Revision v \<and> tested E v"
    using v(2) by (auto simp: version_ok_def)
  moreover have "k' = k" if "pv_State v = PricingVersionStateDraft" "go_get (ps_versions s) k' = Some v'" "pv_RuleID v' = pv_RuleID v"
      "pv_State v' = PricingVersionStateDraft" for k' v'
    using same [OF that(2,3)] drafts [OF that(2,4)] drafts [OF assms(2) that(1)] by simp
  ultimately show ?thesis using r same by (intro conjI exI [of _ rule]) blast+
qed

theorem pricing_tables_sound_witness:
  "\<exists>v. go_get (ps_versions example_published) ''pdraft_1'' = Some v \<and> 1 \<le> pv_Revision v \<and> tested example_env v"
proof -
  have "case go_get (ps_versions example_published) ''pdraft_1'' of Some v \<Rightarrow> pv_State v = PricingVersionStatePublished | None \<Rightarrow> False" by code_simp
  then obtain v where v: "go_get (ps_versions example_published) ''pdraft_1'' = Some v" "pv_State v = PricingVersionStatePublished"
    by (auto split: option.splits)
  show ?thesis using pricing_tables_sound [OF example_pricing_run v(1)] v by blast
qed

text \<open>
  C34: which rule prices a model. Selection never fails. It takes the active rule of the model itself
  and otherwise the active rule for all models; the selected version is the active, published one and
  comes with what its expression compiles to. When the chosen rule has no published version, there is no
  price, even if a rule for all models has one.
\<close>

theorem SelectPricingRule_exact:
  assumes "pricing_run E (s # h)"
  shows "(case SelectPricingRule E model s of
      Inl e \<Rightarrow> False
    | Inr None \<Rightarrow> \<forall>rule. best_of model (ListPricingRules s) rule \<longrightarrow> pr_ActiveVersionID rule = []
    | Inr (Some selection) \<Rightarrow>
        best_of model (ListPricingRules s) (sel_Rule selection) \<and>
        (\<forall>rule. best_of model (ListPricingRules s) rule \<longrightarrow> rule = sel_Rule selection) \<and>
        go_get (ps_versions s) (pr_ActiveVersionID (sel_Rule selection)) = Some (sel_Version selection) \<and>
        pv_RuleID (sel_Version selection) = pr_ID (sel_Rule selection) \<and> pv_State (sel_Version selection) = PricingVersionStatePublished \<and>
        engine_CompileByHash E (pv_Expression (sel_Version selection)) (pv_ExpressionHash (sel_Version selection)) = Inr (sel_Compiled selection))"
proof (cases "select_loop model (ListPricingRules s) None (- 1)")
  case None
  then have "\<forall>rule. \<not> best_of model (ListPricingRules s) rule" using select_loop_best [of model "ListPricingRules s"] by simp
  then show ?thesis by (simp add: SelectPricingRule_def None)
next
  case (Some rule)
  have inv: "pricing_inv E s" by (rule pricing_run_inv [OF assms])
  have best: "best_of model (ListPricingRules s) rule" using Some select_loop_best [of model "ListPricingRules s"] by simp
  then have "rule \<in> set (go_values (ps_rules s))" unfolding best_of_def ListPricingRules_def set_sort_by by blast
  then have "go_get (ps_rules s) (pr_ID rule) = Some rule" using table_values [OF pricing_invD(1) [OF inv], of rule] by blast
  then have ok: "rule_ok (ps_versions s) rule" using pricing_inv_rule [OF inv] by blast
  note only = best_of_unique [OF inv _ best]
  show ?thesis
  proof (cases "pr_ActiveVersionID rule = []")
    case True
    then show ?thesis using only by (auto simp: SelectPricingRule_def Some)
  next
    case False
    then obtain v where v: "go_get (ps_versions s) (pr_ActiveVersionID rule) = Some v" "pv_RuleID v = pr_ID rule" "published v"
      using ok by (auto simp: rule_ok_def)
    have vok: "pv_ID v = pr_ActiveVersionID rule" "version_ok E (ps_rules s) v" using pricing_inv_version [OF inv v(1)] by auto
    then obtain compiled where c: "engine_CompileByHash E (pv_Expression v) (pv_ExpressionHash v) = Inr compiled"
      using v(3) by (auto simp: version_ok_def published_def tested_def)
    have "list_all plain_char (pr_ActiveVersionID rule)" using vok by (simp add: version_ok_def)
    then have "FindPricingRuleVersion (pr_ActiveVersionID rule) s = Some v" using v(1) plain_TrimSpace by (simp add: FindPricingRuleVersion_def)
    then have sel: "SelectPricingRule E model s =
        Inr (Some \<lparr>sel_Rule = rule, sel_Version = v, sel_Compiled = compiled, sel_ExpressionHash = pv_ExpressionHash v\<rparr>)"
      using False v(3) c by (simp add: SelectPricingRule_def Some published_def)
    have "\<forall>rule'. best_of model (ListPricingRules s) rule' \<longrightarrow> rule' = rule" using only by blast
    then show ?thesis unfolding sel sum.case option.case PricingSelection.select_convs
      using best v [unfolded published_def] c by blast
  qed
qed

theorem SelectPricingRule_exact_witness:
  "\<exists>selection. SelectPricingRule example_env ''m'' example_published = Inr (Some selection) \<and>
     best_of ''m'' (ListPricingRules example_published) (sel_Rule selection) \<and> pv_State (sel_Version selection) = PricingVersionStatePublished"
proof -
  have "case SelectPricingRule example_env ''m'' example_published of Inr (Some _) \<Rightarrow> True | _ \<Rightarrow> False" by code_simp
  then obtain selection where sel: "SelectPricingRule example_env ''m'' example_published = Inr (Some selection)"
    by (auto split: sum.splits option.splits)
  show ?thesis using SelectPricingRule_exact [OF example_pricing_run, of "''m''"] unfolding sel sum.case option.case by blast
qed

end
