(* ===== verification/Usage_Pricing.thy ===== *)
theory Usage_Pricing
  imports Pricing_Rules Usage_Settlement "HOL-Library.Sublist"
begin

text \<open>
  From usage to a settlement: \<^verbatim>\<open>buildUsageSettlement\<close> and its helpers of
  \<^verbatim>\<open>backend/internal/controlplane/operation_service.go\<close>. The rule versions that a hold was admitted
  with are evaluated on the facts of a usage record; the result is the settlement that
  \<^verbatim>\<open>ApplyUsageSettlement\<close> applies.

  The repository of operations and holds and the pricing tables are two arguments. SHA-256 is the
  parameter \<open>hash\<close>, the JSON text of an outbox payload the parameter \<open>json\<close>.
\<close>

section \<open>The settlement of a usage record\<close>

definition UsageDimensionInputImages :: string where "UsageDimensionInputImages = ''input_images''"
definition UsageDimensionPartialImages :: string where "UsageDimensionPartialImages = ''partial_images''"
definition UsageDimensionInputCharacters :: string where "UsageDimensionInputCharacters = ''input_characters''"
definition UsageDimensionActions :: string where "UsageDimensionActions = ''actions''"
definition UsageDimensionBatchItems :: string where "UsageDimensionBatchItems = ''batch_items''"
definition UsageDimensionInputBytes :: string where "UsageDimensionInputBytes = ''input_bytes''"
definition UsageDimensionOutputBytes :: string where "UsageDimensionOutputBytes = ''output_bytes''"
definition UsageDimensionTransferBytes :: string where "UsageDimensionTransferBytes = ''transfer_bytes''"
definition UsageDimensionSessionMilliseconds :: string where "UsageDimensionSessionMilliseconds = ''session_milliseconds''"
definition OutboxEventUsageRecorded :: string where "OutboxEventUsageRecorded = ''usage.recorded.v1''"

datatype settlement_error = SettlementLedgerConflict | SettlementHoldMissing

record UsageRecordedEvent =
  ue_UsageRecordID :: string
  ue_OperationID :: string
  ue_AttemptID :: string
  ue_UsageVersion :: int
  ue_APIKeyID :: string
  ue_InputTokens :: int
  ue_OutputTokens :: int
  ue_UsageDimensions :: UsageDimensions
  ue_UsageCostMicros :: "int option"
  ue_PricingStatus :: string
  ue_Status :: string

definition int64Value :: "int option \<Rightarrow> int" where
  "int64Value v = (case v of None \<Rightarrow> 0 | Some i \<Rightarrow> i)"

definition pricingFactsFromUsage :: "AIOperation \<Rightarrow> UsageRecord \<Rightarrow> Facts" where
  "pricingFactsFromUsage operation record =
     (let totalInput = (case ur_TotalInputTokens record of Some n \<Rightarrow> n | None \<Rightarrow> ur_InputTokens record);
          uncachedInput = (case ur_UncachedInputTokens record of Some n \<Rightarrow> n | None \<Rightarrow> totalInput);
          quantity = usageDimensionQuantity (ur_UsageDimensions record)
      in zero_facts\<lparr>f_TotalInputTokens := totalInput, f_UncachedInputTokens := uncachedInput,
           f_CacheReadTokens := int64Value (ur_CacheReadTokens record), f_CacheWrite5mTokens := int64Value (ur_CacheWrite5mTokens record),
           f_CacheWrite1hTokens := int64Value (ur_CacheWrite1hTokens record), f_OutputTokens := ur_OutputTokens record,
           f_CacheFieldsPresent := ur_CacheFieldsPresent record,
           f_InputImages := quantity UsageDimensionInputImages, f_OutputImages := quantity UsageDimensionOutputImages,
           f_PartialImages := quantity UsageDimensionPartialImages, f_InputVideoMilliseconds := quantity UsageDimensionInputVideoMilliseconds,
           f_OutputVideoMilliseconds := quantity UsageDimensionOutputVideoMilliseconds,
           f_InputAudioMilliseconds := quantity UsageDimensionInputAudioMilliseconds,
           f_OutputAudioMilliseconds := quantity UsageDimensionOutputAudioMilliseconds,
           f_RealtimeAudioMilliseconds := quantity UsageDimensionRealtimeAudioMilliseconds,
           f_InputCharacters := quantity UsageDimensionInputCharacters, f_Actions := quantity UsageDimensionActions,
           f_BatchItems := quantity UsageDimensionBatchItems, f_InputBytes := quantity UsageDimensionInputBytes,
           f_OutputBytes := quantity UsageDimensionOutputBytes, f_TransferBytes := quantity UsageDimensionTransferBytes,
           f_SessionMilliseconds := quantity UsageDimensionSessionMilliseconds, f_Protocol := ur_Protocol record,
           f_Operation := op_Operation operation, f_Modality := op_Modality operation, f_Lane := op_Lane operation,
           f_NormalizationStatus := ur_UsageNormalizationStatus record, f_Phase := PhaseSettlement, f_ObservedAt := ur_CreatedAt record\<rparr>)"

definition usageLedgerDigest :: "(string \<Rightarrow> string) \<Rightarrow> UsageRecord \<Rightarrow> string" where
  "usageLedgerDigest hash record =
     prefix_of (hash (ur_OperationID record @ [CHR 0x00] @ ur_AttemptID record @ [CHR 0x00] @ string_of_int (ur_UsageVersion record))) 24"

definition deterministicPricingEvaluationID :: "(string \<Rightarrow> string) \<Rightarrow> UsageRecord \<Rightarrow> string \<Rightarrow> string" where
  "deterministicPricingEvaluationID hash record purpose = ''peval_'' @ prefix_of (hash (usageLedgerDigest hash record @ [CHR 0x00] @ purpose)) 24"

definition deterministicBillingLedgerID :: "(string \<Rightarrow> string) \<Rightarrow> UsageRecord \<Rightarrow> string \<Rightarrow> string" where
  "deterministicBillingLedgerID hash record purpose = ''billing_'' @ prefix_of (hash (usageLedgerDigest hash record @ [CHR 0x00] @ purpose)) 24"

definition pricingFailureCode :: "pricing_error \<Rightarrow> string" where
  "pricingFailureCode err = (if err_Code err \<noteq> [] then err_Code err else ''pricing_evaluation_failed'')"

definition usageRecordedOutbox :: "(string \<Rightarrow> string) \<Rightarrow> (UsageRecordedEvent \<Rightarrow> string) \<Rightarrow> UsageRecord \<Rightarrow> TransactionalOutboxEvent" where
  "usageRecordedOutbox hash json record =
     \<lparr>ob_ID = ''outbox_'' @ prefix_of (hash (usageLedgerDigest hash record @ [CHR 0x00] @ OutboxEventUsageRecorded)) 24,
      ob_AggregateType = ''usage'', ob_AggregateID = ur_OperationID record @ '':'' @ ur_AttemptID record,
      ob_EventType = OutboxEventUsageRecorded, ob_EventVersion = ur_UsageVersion record, ob_Status = OutboxStatusPending,
      ob_AvailableAt = ur_CreatedAt record, ob_AttemptCount = 0, ob_MaxAttempts = OutboxDefaultMaxAttempts, ob_LeaseUntil = None,
      ob_LeaseToken = [], ob_LastError = [], ob_PublishedAt = None, ob_CreatedAt = ur_CreatedAt record, ob_UpdatedAt = ur_CreatedAt record,
      ob_PayloadJSON = OtherPayload (json \<lparr>ue_UsageRecordID = ur_ID record, ue_OperationID = ur_OperationID record,
        ue_AttemptID = ur_AttemptID record, ue_UsageVersion = ur_UsageVersion record, ue_APIKeyID = ur_APIKeyID record,
        ue_InputTokens = ur_InputTokens record, ue_OutputTokens = ur_OutputTokens record, ue_UsageDimensions = ur_UsageDimensions record,
        ue_UsageCostMicros = ur_UsageCostMicros record, ue_PricingStatus = ur_PricingStatus record, ue_Status = ur_Status record\<rparr>)\<rparr>"

definition ListBillingHoldPricingVersions :: "string \<Rightarrow> MemoryRepository \<Rightarrow> BillingHoldPricingVersion list" where
  "ListBillingHoldPricingVersions holdID r =
     sort_by (\<lambda>a b. hpv_Purpose a < hpv_Purpose b)
       (filter (\<lambda>version. hpv_HoldID version = TrimSpace holdID) (go_values (billingHoldPricingVersions r)))"

text \<open>Compiling and evaluating one version.\<close>

definition evaluate_version :: "engine_env \<Rightarrow> PricingRuleVersion \<Rightarrow> Facts \<Rightarrow> pricing_error + PricingResult" where
  "evaluate_version E version facts =
     and_then (engine_CompileByHash E (pv_Expression version) (pv_ExpressionHash version)) (\<lambda>compiled. engine_Evaluate E compiled facts)"

definition disputed_evaluation ::
  "engine_env \<Rightarrow> (string \<Rightarrow> string) \<Rightarrow> UsageRecord \<Rightarrow> Facts \<Rightarrow> string \<Rightarrow> PricingRule \<Rightarrow> PricingRuleVersion \<Rightarrow> pricing_error \<Rightarrow> PricingEvaluation" where
  "disputed_evaluation E hash record facts purpose rule version err =
     \<lparr>pe_ID = deterministicPricingEvaluationID hash record purpose, pe_Purpose = purpose, pe_Phase = PhaseSettlement,
      pe_OperationID = ur_OperationID record, pe_AttemptID = ur_AttemptID record, pe_UsageRecordID = ur_ID record,
      pe_UsageVersion = ur_UsageVersion record, pe_PricingRuleID = pr_ID rule, pe_PricingRuleVersionID = pv_ID version,
      pe_EngineVersion = pv_EngineVersion version, pe_ExpressionHash = pv_ExpressionHash version,
      pe_FactsHash = Facts_Hash (ee_facts_digest E) facts, pe_Facts = facts, pe_AmountMicros = None, pe_Currency = CurrencyUSD,
      pe_MatchedTier = [], pe_Lines = [], pe_NormalizationStatus = f_NormalizationStatus facts, pe_Status = PricingEvaluationStatusDisputed,
      pe_FailureCode = pricingFailureCode err, pe_ReplayOfID = [], pe_CreatedAt = ur_CreatedAt record\<rparr>"

definition settlement_evaluation ::
  "(string \<Rightarrow> string) \<Rightarrow> UsageRecord \<Rightarrow> Facts \<Rightarrow> string \<Rightarrow> PricingRule \<Rightarrow> PricingRuleVersion \<Rightarrow> PricingResult \<Rightarrow> PricingEvaluation" where
  "settlement_evaluation hash record facts purpose rule version result =
     \<lparr>pe_ID = deterministicPricingEvaluationID hash record purpose, pe_Purpose = purpose, pe_Phase = PhaseSettlement,
      pe_OperationID = ur_OperationID record, pe_AttemptID = ur_AttemptID record, pe_UsageRecordID = ur_ID record,
      pe_UsageVersion = ur_UsageVersion record, pe_PricingRuleID = pr_ID rule, pe_PricingRuleVersionID = pv_ID version,
      pe_EngineVersion = res_EngineVersion result, pe_ExpressionHash = res_ExpressionHash result,
      pe_FactsHash = res_FactsHash result, pe_Facts = facts, pe_AmountMicros = Some (res_AmountMicros result), pe_Currency = res_Currency result,
      pe_MatchedTier = res_MatchedTier result, pe_Lines = res_Lines result, pe_NormalizationStatus = f_NormalizationStatus facts,
      pe_Status = PricingEvaluationStatusSuccess, pe_FailureCode = [], pe_ReplayOfID = [], pe_CreatedAt = ur_CreatedAt record\<rparr>"

definition settlement_ledger ::
  "(string \<Rightarrow> string) \<Rightarrow> UsageRecord \<Rightarrow> string \<Rightarrow> PricingRuleVersion \<Rightarrow> PricingResult \<Rightarrow> BillingLedgerEntry" where
  "settlement_ledger hash record purpose version result =
     \<lparr>bl_ID = deterministicBillingLedgerID hash record purpose, bl_OperationID = ur_OperationID record, bl_AttemptID = ur_AttemptID record,
      bl_UsageVersion = ur_UsageVersion record, bl_UsageRecordID = ur_ID record, bl_RequestFingerprint = ur_RequestFingerprint record,
      bl_Purpose = purpose, bl_AmountMicros = res_AmountMicros result, bl_Currency = res_Currency result,
      bl_PricingEvaluationID = deterministicPricingEvaluationID hash record purpose, bl_PricingRuleVersionID = pv_ID version,
      bl_Status = BillingLedgerStatusApplied, bl_CreatedAt = ur_CreatedAt record\<rparr>"

text \<open>What a failed and a successful evaluation do to the record.\<close>

definition dispute_record :: "string \<Rightarrow> UsageRecord \<Rightarrow> UsageRecord" where
  "dispute_record purpose record =
     (if purpose = PricingPurposeUsageCost then record\<lparr>ur_PricingStatus := ''disputed'', ur_UsageCostMicros := None\<rparr> else record)"

definition price_record :: "(string \<Rightarrow> string) \<Rightarrow> UsageRecord \<Rightarrow> string \<Rightarrow> PricingResult \<Rightarrow> UsageRecord \<Rightarrow> UsageRecord" where
  "price_record hash record0 purpose result record =
     (if purpose = PricingPurposeUsageCost
      then record\<lparr>ur_UsageCostMicros := Some (res_AmountMicros result), ur_UsageCostCurrency := res_Currency result,
             ur_UsagePricingEvaluationID := deterministicPricingEvaluationID hash record0 purpose,
             ur_PricingStatus := (if res_AmountMicros result = 0 then ''free'' else ''priced'')\<rparr>
      else record)"

definition settle_version ::
  "engine_env \<Rightarrow> (string \<Rightarrow> string) \<Rightarrow> UsageRecord \<Rightarrow> Facts \<Rightarrow> pricing_store \<Rightarrow> BillingHoldPricingVersion \<Rightarrow> UsageSettlement \<Rightarrow>
   settlement_error + UsageSettlement" where
  "settle_version E hash record facts s snapshot settlement =
     (case PricingRuleVersionDetail (hpv_PricingRuleVersionID snapshot) s of
        Inl _ \<Rightarrow> Inl SettlementLedgerConflict
      | Inr (rule, version) \<Rightarrow>
          if pv_State version \<noteq> PricingVersionStatePublished then Inl SettlementLedgerConflict
          else (case evaluate_version E version facts of
                  Inl err \<Rightarrow>
                    Inr (settlement\<lparr>st_Evaluations := st_Evaluations settlement @
                             [disputed_evaluation E hash record facts (hpv_Purpose snapshot) rule version err],
                           st_Record := dispute_record (hpv_Purpose snapshot) (st_Record settlement)\<rparr>)
                | Inr result \<Rightarrow>
                    Inr (settlement\<lparr>st_Evaluations := st_Evaluations settlement @
                             [settlement_evaluation hash record facts (hpv_Purpose snapshot) rule version result],
                           st_Ledgers := st_Ledgers settlement @ [settlement_ledger hash record (hpv_Purpose snapshot) version result],
                           st_Record := price_record hash record (hpv_Purpose snapshot) result (st_Record settlement)\<rparr>)))"

fun settle_versions ::
  "engine_env \<Rightarrow> (string \<Rightarrow> string) \<Rightarrow> UsageRecord \<Rightarrow> Facts \<Rightarrow> pricing_store \<Rightarrow> BillingHoldPricingVersion list \<Rightarrow> UsageSettlement \<Rightarrow>
   settlement_error + UsageSettlement" where
  "settle_versions E hash record facts s [] settlement = Inr settlement"
| "settle_versions E hash record facts s (snapshot # versions) settlement =
     and_then (settle_version E hash record facts s snapshot settlement) (settle_versions E hash record facts s versions)"

definition buildUsageSettlement ::
  "engine_env \<Rightarrow> (string \<Rightarrow> string) \<Rightarrow> (UsageRecordedEvent \<Rightarrow> string) \<Rightarrow> UsageRecord \<Rightarrow> MemoryRepository \<Rightarrow> pricing_store \<Rightarrow>
   settlement_error + UsageSettlement" where
  "buildUsageSettlement E hash json record r s =
     (case FindAIOperation (ur_OperationID record) r of
        None \<Rightarrow> Inl SettlementLedgerConflict
      | Some operation \<Rightarrow>
          if op_RequestFingerprint operation \<noteq> ur_RequestFingerprint record then Inl SettlementLedgerConflict
          else (case FindBillingHoldByOperationID (ur_OperationID record) r of
                  None \<Rightarrow> Inl SettlementHoldMissing
                | Some hold \<Rightarrow>
                    map_sum id (\<lambda>settlement. settlement\<lparr>st_OutboxEvents := [usageRecordedOutbox hash json (st_Record settlement)]\<rparr>)
                      (settle_versions E hash record (pricingFactsFromUsage operation record) s (ListBillingHoldPricingVersions (hold_ID hold) r)
                         \<lparr>st_Record = record, st_Evaluations = [], st_Ledgers = [], st_OutboxEvents = []\<rparr>)))"

section \<open>The outcome of each version\<close>

record outcome =
  out_evaluation :: PricingEvaluation
  out_ledgers :: "BillingLedgerEntry list"
  out_record :: "UsageRecord \<Rightarrow> UsageRecord"

definition version_outcome ::
  "engine_env \<Rightarrow> (string \<Rightarrow> string) \<Rightarrow> UsageRecord \<Rightarrow> Facts \<Rightarrow> string \<Rightarrow> PricingRule \<Rightarrow> PricingRuleVersion \<Rightarrow> outcome" where
  "version_outcome E hash record facts purpose rule version =
     (case evaluate_version E version facts of
        Inl err \<Rightarrow> \<lparr>out_evaluation = disputed_evaluation E hash record facts purpose rule version err, out_ledgers = [],
                    out_record = dispute_record purpose\<rparr>
      | Inr result \<Rightarrow> \<lparr>out_evaluation = settlement_evaluation hash record facts purpose rule version result,
                      out_ledgers = [settlement_ledger hash record purpose version result],
                      out_record = price_record hash record purpose result\<rparr>)"

text \<open>The published version that a hold is pinned to, and what it gives.\<close>

definition pinned_outcome ::
  "engine_env \<Rightarrow> (string \<Rightarrow> string) \<Rightarrow> UsageRecord \<Rightarrow> Facts \<Rightarrow> pricing_store \<Rightarrow> BillingHoldPricingVersion \<Rightarrow> outcome option" where
  "pinned_outcome E hash record facts s snapshot =
     (case PricingRuleVersionDetail (hpv_PricingRuleVersionID snapshot) s of
        Inl _ \<Rightarrow> None
      | Inr (rule, version) \<Rightarrow>
          if pv_State version \<noteq> PricingVersionStatePublished then None
          else Some (version_outcome E hash record facts (hpv_Purpose snapshot) rule version))"

definition add_outcome :: "outcome \<Rightarrow> UsageSettlement \<Rightarrow> UsageSettlement" where
  "add_outcome o' st = st\<lparr>st_Evaluations := st_Evaluations st @ [out_evaluation o'], st_Ledgers := st_Ledgers st @ out_ledgers o',
     st_Record := out_record o' (st_Record st)\<rparr>"

lemma settle_version_eq:
  "settle_version E hash record facts s snapshot st =
     (case pinned_outcome E hash record facts s snapshot of None \<Rightarrow> Inl SettlementLedgerConflict | Some o' \<Rightarrow> Inr (add_outcome o' st))"
  by (auto simp: settle_version_def pinned_outcome_def version_outcome_def add_outcome_def split: sum.splits prod.splits)

lemma settle_versions_Inr:
  "settle_versions E hash record facts s vs st = Inr st' \<Longrightarrow>
   \<exists>outs. map (pinned_outcome E hash record facts s) vs = map Some outs \<and> st' = fold add_outcome outs st"
proof (induction vs arbitrary: st)
  case (Cons v vs)
  then obtain o' where o': "pinned_outcome E hash record facts s v = Some o'" "settle_versions E hash record facts s vs (add_outcome o' st) = Inr st'"
    by (auto simp: settle_version_eq split: option.splits)
  from Cons.IH [OF o'(2)] obtain outs where outs: "map (pinned_outcome E hash record facts s) vs = map Some outs" "st' = fold add_outcome outs (add_outcome o' st)"
    by blast
  then have "map (pinned_outcome E hash record facts s) (v # vs) = map Some (o' # outs) \<and> st' = fold add_outcome (o' # outs) st" using o'(1) by simp
  then show ?case by blast
qed simp

lemma settle_versions_outcomes:
  "map (pinned_outcome E hash record facts s) vs = map Some outs \<Longrightarrow> settle_versions E hash record facts s vs st = Inr (fold add_outcome outs st)"
  by (induction vs arbitrary: outs st) (auto simp: settle_version_eq map_eq_Cons_conv)

lemma fold_outcomes:
  "st_Evaluations (fold add_outcome outs st) = st_Evaluations st @ map out_evaluation outs"
  "st_Ledgers (fold add_outcome outs st) = st_Ledgers st @ concat (map out_ledgers outs)"
  "st_Record (fold add_outcome outs st) = fold out_record outs (st_Record st)"
  "st_OutboxEvents (fold add_outcome outs st) = st_OutboxEvents st"
  by (induction outs arbitrary: st) (simp_all add: add_outcome_def)

text \<open>The fields of the record that identify the usage.\<close>

definition usage_identity :: "UsageRecord \<Rightarrow> string \<times> string \<times> string \<times> int \<times> string" where
  "usage_identity u = (ur_ID u, ur_OperationID u, ur_AttemptID u, ur_UsageVersion u, ur_RequestFingerprint u)"

lemma Evaluate_amount:
  assumes "engine_Evaluate E rule facts = Inr res"
  shows "0 \<le> res_AmountMicros res" "int64_ok (res_AmountMicros res)" "res_Currency res = CurrencyUSD"
proof -
  obtain out where "0 \<le> sint (out :: 64 word)" "res_AmountMicros res = sint out" "res_Currency res = CurrencyUSD"
    using Evaluate_Inr [OF assms [unfolded engine_Evaluate_def]] by blast
  moreover have "int64_ok (sint (out :: 64 word))" for out
    using sint_greater_eq [of out] sint_less [of out] by (simp add: int64_ok_def)
  ultimately show "0 \<le> res_AmountMicros res" "int64_ok (res_AmountMicros res)" "res_Currency res = CurrencyUSD" by simp_all
qed

lemma evaluate_version_amount:
  assumes "evaluate_version E version facts = Inr res"
  shows "0 \<le> res_AmountMicros res" "int64_ok (res_AmountMicros res)" "res_Currency res = CurrencyUSD"
  using assms Evaluate_amount by (auto simp: evaluate_version_def and_then_Inr_iff)

text \<open>What an outcome contributes to a settlement of the record.\<close>

definition evaluation_of :: "UsageRecord \<Rightarrow> PricingEvaluation \<Rightarrow> bool" where
  "evaluation_of record e \<longleftrightarrow> pe_ID e \<noteq> [] \<and> pe_OperationID e = ur_OperationID record \<and> pe_AttemptID e = ur_AttemptID record \<and>
     pe_UsageRecordID e = ur_ID record \<and> pe_UsageVersion e = ur_UsageVersion record \<and> pe_Phase e = PhaseSettlement"

definition ledger_of :: "UsageRecord \<Rightarrow> PricingEvaluation \<Rightarrow> BillingLedgerEntry \<Rightarrow> bool" where
  "ledger_of record e b \<longleftrightarrow> bl_OperationID b = ur_OperationID record \<and> bl_AttemptID b = ur_AttemptID record \<and>
     bl_UsageVersion b = ur_UsageVersion record \<and> bl_UsageRecordID b = ur_ID record \<and> bl_RequestFingerprint b = ur_RequestFingerprint record \<and>
     bl_Status b = BillingLedgerStatusApplied \<and> bl_Currency b = CurrencyUSD \<and> 0 \<le> bl_AmountMicros b \<and> int64_ok (bl_AmountMicros b) \<and>
     bl_PricingEvaluationID b = pe_ID e \<and> pe_Status e = PricingEvaluationStatusSuccess \<and> pe_AmountMicros e = Some (bl_AmountMicros b) \<and>
     pe_Purpose e = bl_Purpose b \<and> pe_PricingRuleVersionID e = bl_PricingRuleVersionID b"

lemma version_outcome_ok:
  assumes "o' = version_outcome E hash record facts purpose rule version"
  shows "evaluation_of record (out_evaluation o')" "pe_Purpose (out_evaluation o') = purpose"
    "pe_ID (out_evaluation o') = deterministicPricingEvaluationID hash record purpose"
    "\<forall>b \<in> set (out_ledgers o'). ledger_of record (out_evaluation o') b \<and> bl_ID b = deterministicBillingLedgerID hash record purpose"
    "length (out_ledgers o') \<le> 1" "usage_identity (out_record o' u) = usage_identity u"
  unfolding assms
  by (auto simp: version_outcome_def disputed_evaluation_def settlement_evaluation_def settlement_ledger_def evaluation_of_def ledger_of_def
      dispute_record_def price_record_def usage_identity_def deterministicPricingEvaluationID_def evaluate_version_amount split: sum.splits)

definition outcome_ok :: "(string \<Rightarrow> string) \<Rightarrow> UsageRecord \<Rightarrow> string \<Rightarrow> outcome \<Rightarrow> bool" where
  "outcome_ok hash record purpose o' \<longleftrightarrow>
     (\<exists>E facts rule version. o' = version_outcome E hash record facts purpose rule version)"

lemma pinned_outcomes_ok:
  "map (pinned_outcome E hash record facts s) vs = map Some outs \<Longrightarrow> list_all2 (\<lambda>v o'. outcome_ok hash record (hpv_Purpose v) o') vs outs"
proof (induction vs arbitrary: outs)
  case (Cons v vs)
  then obtain o' outs' where o': "outs = o' # outs'" "pinned_outcome E hash record facts s v = Some o'" "map (pinned_outcome E hash record facts s) vs = map Some outs'"
    by (auto simp: map_eq_Cons_conv)
  moreover have "outcome_ok hash record (hpv_Purpose v) o'"
    using o'(2) unfolding outcome_ok_def by (auto simp: pinned_outcome_def split: sum.splits if_splits) blast
  ultimately show ?case using Cons.IH by simp
qed simp

lemma fold_record_identity:
  "\<forall>o' \<in> set outs. \<exists>p. outcome_ok hash record p o' \<Longrightarrow> usage_identity (fold out_record outs u) = usage_identity u"
  by (induction outs arbitrary: u) (auto simp: outcome_ok_def version_outcome_ok(6))

lemma settlement_evaluations_all:
  "\<forall>e \<in> set es. evaluation_of record e \<Longrightarrow> settlement_evaluations record es m = Some (foldl (\<lambda>m e. go_set (pe_ID e) e m) m es)"
  by (induction es arbitrary: m) (auto simp: evaluation_of_def)

lemma settlement_ledgers_all:
  assumes "\<forall>b \<in> set ls. \<exists>e. ledger_of record e b \<and> go_get evaluations (pe_ID e) = Some e"
    and "distinct (map bl_Purpose ls)" "set (map bl_Purpose ls) \<inter> set purposes = {}"
  shows "settlement_ledgers record evaluations ls purposes"
  using assms
proof (induction ls arbitrary: purposes)
  case (Cons b ls)
  then obtain e where "ledger_of record e b" "go_get evaluations (pe_ID e) = Some e" by auto
  moreover have "settlement_ledgers record evaluations ls (bl_Purpose b # purposes)" using Cons by auto
  ultimately show ?case using Cons.prems(3) by (auto simp: ledger_of_def)
qed simp

text \<open>The identifiers and purposes that the outcomes of the versions have.\<close>

lemma outcomes_lists:
  assumes "list_all2 (\<lambda>v o'. outcome_ok hash record (hpv_Purpose v) o') vs outs"
  shows "map pe_ID (map out_evaluation outs) = map (deterministicPricingEvaluationID hash record) (map hpv_Purpose vs) \<and>
    subseq (map bl_Purpose (concat (map out_ledgers outs))) (map hpv_Purpose vs) \<and>
    map bl_ID (concat (map out_ledgers outs)) = map (deterministicBillingLedgerID hash record) (map bl_Purpose (concat (map out_ledgers outs)))"
  using assms
proof (induction vs outs rule: list_all2_induct)
  case (Cons v vs o' outs)
  let ?p = "hpv_Purpose v"
  have o': "pe_ID (out_evaluation o') = deterministicPricingEvaluationID hash record ?p" "length (out_ledgers o') \<le> 1"
    "\<forall>b \<in> set (out_ledgers o'). bl_Purpose b = ?p \<and> bl_ID b = deterministicBillingLedgerID hash record ?p"
    using Cons(1) version_outcome_ok(2-5) unfolding outcome_ok_def ledger_of_def by metis+
  consider "out_ledgers o' = []" | b where "out_ledgers o' = [b]" using o'(2) by (cases "out_ledgers o'") auto
  then show ?case using Cons(3) o'(1,3) by cases auto
qed simp

lemma list_all2_right: "list_all2 P xs ys \<Longrightarrow> y \<in> set ys \<Longrightarrow> \<exists>x \<in> set xs. P x y"
  by (induction xs ys rule: list_all2_induct) auto

lemma built_valid:
  assumes outs: "list_all2 (\<lambda>v o'. outcome_ok hash record (hpv_Purpose v) o') vs outs" and purposes: "distinct (map hpv_Purpose vs)"
    and inj: "inj_on (deterministicPricingEvaluationID hash record) (hpv_Purpose ` set vs)" "inj_on (deterministicBillingLedgerID hash record) (hpv_Purpose ` set vs)"
    and ids: "TrimSpace (ur_OperationID record) \<noteq> []" "0 < ur_UsageVersion record" "ur_ID record \<noteq> []" "ur_RequestFingerprint record \<noteq> []"
    and st: "st_Evaluations st = map out_evaluation outs" "st_Ledgers st = concat (map out_ledgers outs)" "usage_identity (st_Record st) = usage_identity record"
  shows "validateUsageSettlement st = None" "settlement_wf st"
proof -
  note lists = outcomes_lists [OF outs]
  have ok: "\<exists>p. outcome_ok hash record p o'" if "o' \<in> set outs" for o'
    using list_all2_right [OF outs that] by blast
  have same: "evaluation_of (st_Record st) = evaluation_of record" "ledger_of (st_Record st) = ledger_of record"
    using st(3) by (auto simp: fun_eq_iff evaluation_of_def ledger_of_def usage_identity_def)
  have evals: "\<forall>e \<in> set (st_Evaluations st). evaluation_of (st_Record st) e"
    using ok version_outcome_ok(1) unfolding st(1) same outcome_ok_def by fastforce
  have dist: "distinct (map pe_ID (st_Evaluations st))" unfolding st(1) lists [THEN conjunct1] distinct_map [of "deterministicPricingEvaluationID hash record"]
    using purposes inj(1) by simp
  have purps: "distinct (map bl_Purpose (st_Ledgers st))" "set (map bl_Purpose (st_Ledgers st)) \<subseteq> hpv_Purpose ` set vs"
  proof -
    obtain N where N: "map bl_Purpose (st_Ledgers st) = nths (map hpv_Purpose vs) N" using lists unfolding st(2) subseq_conv_nths by blast
    show "distinct (map bl_Purpose (st_Ledgers st))" unfolding N by (rule distinct_nthsI [OF purposes])
    show "set (map bl_Purpose (st_Ledgers st)) \<subseteq> hpv_Purpose ` set vs" unfolding N using set_nths_subset [of "map hpv_Purpose vs" N] by simp
  qed
  let ?m = "foldl (\<lambda>m e. go_set (pe_ID e) e m) [] (st_Evaluations st)"
  have "\<exists>e. ledger_of (st_Record st) e b \<and> go_get ?m (pe_ID e) = Some e" if b: "b \<in> set (st_Ledgers st)" for b
  proof -
    obtain o' where o': "o' \<in> set outs" "b \<in> set (out_ledgers o')" using b by (auto simp: st(2))
    then have "ledger_of record (out_evaluation o') b" using ok version_outcome_ok(4) unfolding outcome_ok_def by metis
    moreover have "out_evaluation o' \<in> set (st_Evaluations st)" using o'(1) by (simp add: st(1))
    then have "go_get ?m (pe_ID (out_evaluation o')) = Some (out_evaluation o')"
      using foldl_go_set_get [OF dist, of "[]"] find_distinct [OF dist] by simp
    ultimately show ?thesis unfolding same by blast
  qed
  then have "settlement_ledgers (st_Record st) ?m (st_Ledgers st) []" using purps(1) by (intro settlement_ledgers_all) auto
  then show "validateUsageSettlement st = None"
    using settlement_evaluations_all [OF evals] ids st(3) by (simp add: validateUsageSettlement_def usage_identity_def Let_def)
  have "distinct (map bl_ID (st_Ledgers st))" using lists purps inj(2) unfolding st(2) by (metis distinct_map inj_on_subset)
  moreover have "int64_ok (bl_AmountMicros b)" if b: "b \<in> set (st_Ledgers st)" for b
  proof -
    obtain o' where o': "o' \<in> set outs" "b \<in> set (out_ledgers o')" using b by (auto simp: st(2))
    then have "ledger_of record (out_evaluation o') b" using ok version_outcome_ok(4) unfolding outcome_ok_def by metis
    then show ?thesis by (simp add: ledger_of_def)
  qed
  ultimately show "settlement_wf st" by (simp add: settlement_wf_def)
qed

lemma hold_purposes_distinct:
  assumes "keyed hold_version_key (billingHoldPricingVersions r)"
  shows "distinct (map hpv_Purpose (ListBillingHoldPricingVersions k r))"
proof -
  let ?vs = "filter (\<lambda>version. hpv_HoldID version = TrimSpace k) (go_values (billingHoldPricingVersions r))"
  have "distinct (map hold_version_key ?vs)" using keyed_distinct_values [OF assms] by (rule distinct_map_filter)
  moreover have "map hold_version_key ?vs = map (\<lambda>p. TrimSpace k @ [CHR 0x0A] @ p) (map hpv_Purpose ?vs)"
    by (simp add: hold_version_key_def)
  ultimately have "distinct (map hpv_Purpose ?vs)" by (simp only: distinct_map)
  then show ?thesis unfolding ListBillingHoldPricingVersions_def by (metis distinct_map_mset mset_sort_by)
qed

lemma build_outcomes:
  assumes "buildUsageSettlement E hash json record r s = Inr st"
  obtains operation hold outs where "FindAIOperation (ur_OperationID record) r = Some operation"
    "op_RequestFingerprint operation = ur_RequestFingerprint record" "FindBillingHoldByOperationID (ur_OperationID record) r = Some hold"
    "map (pinned_outcome E hash record (pricingFactsFromUsage operation record) s) (ListBillingHoldPricingVersions (hold_ID hold) r) = map Some outs"
    "st_Evaluations st = map out_evaluation outs" "st_Ledgers st = concat (map out_ledgers outs)" "st_Record st = fold out_record outs record"
proof -
  obtain operation hold st0 where b: "FindAIOperation (ur_OperationID record) r = Some operation" "op_RequestFingerprint operation = ur_RequestFingerprint record"
    "FindBillingHoldByOperationID (ur_OperationID record) r = Some hold"
    "settle_versions E hash record (pricingFactsFromUsage operation record) s (ListBillingHoldPricingVersions (hold_ID hold) r)
       \<lparr>st_Record = record, st_Evaluations = [], st_Ledgers = [], st_OutboxEvents = []\<rparr> = Inr st0"
    "st = st0\<lparr>st_OutboxEvents := [usageRecordedOutbox hash json (st_Record st0)]\<rparr>"
    using assms by (auto simp: buildUsageSettlement_def map_sum_def split: option.splits if_splits sum.splits)
  from settle_versions_Inr [OF b(4)] obtain outs where
    "map (pinned_outcome E hash record (pricingFactsFromUsage operation record) s) (ListBillingHoldPricingVersions (hold_ID hold) r) = map Some outs"
    "st0 = fold add_outcome outs \<lparr>st_Record = record, st_Evaluations = [], st_Ledgers = [], st_OutboxEvents = []\<rparr>" by blast
  then show ?thesis using b that by (simp add: fold_outcomes)
qed

lemma build_valid:
  assumes build: "buildUsageSettlement E hash json record r s = Inr st" and keys: "keyed hold_version_key (billingHoldPricingVersions r)"
    and inj: "inj_on (deterministicPricingEvaluationID hash record) P" "inj_on (deterministicBillingLedgerID hash record) P"
    and P: "hpv_Purpose ` set (go_values (billingHoldPricingVersions r)) \<subseteq> P"
    and ids: "TrimSpace (ur_OperationID record) \<noteq> []" "0 < ur_UsageVersion record" "ur_ID record \<noteq> []" "ur_RequestFingerprint record \<noteq> []"
  shows "validateUsageSettlement st = None \<and> settlement_wf st"
proof -
  obtain operation hold outs where "FindAIOperation (ur_OperationID record) r = Some operation"
    "op_RequestFingerprint operation = ur_RequestFingerprint record" "FindBillingHoldByOperationID (ur_OperationID record) r = Some hold"
    and o': "map (pinned_outcome E hash record (pricingFactsFromUsage operation record) s) (ListBillingHoldPricingVersions (hold_ID hold) r) = map Some outs"
    "st_Evaluations st = map out_evaluation outs" "st_Ledgers st = concat (map out_ledgers outs)" "st_Record st = fold out_record outs record"
    by (rule build_outcomes [OF build])
  let ?vs = "ListBillingHoldPricingVersions (hold_ID hold) r"
  note ok = pinned_outcomes_ok [OF o'(1)]
  have "hpv_Purpose ` set ?vs \<subseteq> P" using P unfolding ListBillingHoldPricingVersions_def set_sort_by set_filter by blast
  then have inj': "inj_on (deterministicPricingEvaluationID hash record) (hpv_Purpose ` set ?vs)" "inj_on (deterministicBillingLedgerID hash record) (hpv_Purpose ` set ?vs)"
    using inj inj_on_subset by blast+
  have "\<forall>o' \<in> set outs. \<exists>p. outcome_ok hash record p o'" using list_all2_right [OF ok] by blast
  then have "usage_identity (st_Record st) = usage_identity record" unfolding o'(4) by (rule fold_record_identity)
  from built_valid [OF ok hold_purposes_distinct [OF keys] inj' ids o'(2,3) this] show ?thesis by simp
qed

section \<open>Building again\<close>

text \<open>
  The same usage recorded again, later: the time and the measured latencies may differ. The facts differ
  in the time of observation only, which no evaluation depends on.
\<close>

definition retried :: "gotime \<Rightarrow> int \<Rightarrow> int option \<Rightarrow> UsageRecord \<Rightarrow> UsageRecord" where
  "retried at latency ttft u = u\<lparr>ur_CreatedAt := at, ur_LatencyMS := latency, ur_TTFTMS := ttft\<rparr>"

lemma retried_sel [simp]:
  "ur_ID (retried at latency ttft u) = ur_ID u" "ur_OperationID (retried at latency ttft u) = ur_OperationID u"
  "ur_AttemptID (retried at latency ttft u) = ur_AttemptID u" "ur_UsageVersion (retried at latency ttft u) = ur_UsageVersion u"
  "ur_RequestFingerprint (retried at latency ttft u) = ur_RequestFingerprint u" "ur_CreatedAt (retried at latency ttft u) = at"
  "ur_UsageDimensions (retried at latency ttft u) = ur_UsageDimensions u"
  "deterministicPricingEvaluationID hash (retried at latency ttft u) = deterministicPricingEvaluationID hash u"
  "deterministicBillingLedgerID hash (retried at latency ttft u) = deterministicBillingLedgerID hash u"
  by (simp_all add: retried_def deterministicPricingEvaluationID_def deterministicBillingLedgerID_def usageLedgerDigest_def fun_eq_iff)

lemma retried_facts: "pricingFactsFromUsage operation (retried at latency ttft u) = (pricingFactsFromUsage operation u)\<lparr>f_Phase := PhaseSettlement, f_ObservedAt := at\<rparr>"
  by (cases "ur_TotalInputTokens u"; cases "ur_UncachedInputTokens u") (simp_all add: pricingFactsFromUsage_def retried_def Let_def)

lemma evaluate_version_retried:
  "evaluate_version E version (pricingFactsFromUsage operation (retried at latency ttft u)) = evaluate_version E version (pricingFactsFromUsage operation u)"
proof -
  let ?f = "pricingFactsFromUsage operation u"
  have "f_Phase ?f = PhaseSettlement" by (simp add: pricingFactsFromUsage_def Let_def)
  then have "engine_Evaluate E rule (?f\<lparr>f_Phase := PhaseSettlement, f_ObservedAt := at\<rparr>) = engine_Evaluate E rule ?f" for rule
    unfolding engine_Evaluate_def by (intro Evaluate_replay) simp_all
  then show ?thesis by (simp add: evaluate_version_def retried_facts)
qed

text \<open>Records that were priced the same way.\<close>

definition same_price :: "UsageRecord \<Rightarrow> UsageRecord \<Rightarrow> bool" where
  "same_price u u' \<longleftrightarrow> usage_identity u = usage_identity u' \<and> ur_PricingStatus u = ur_PricingStatus u' \<and>
     ur_UsageCostMicros u = ur_UsageCostMicros u' \<and> ur_UsageDimensions u = ur_UsageDimensions u'"

definition same_outcome :: "outcome \<Rightarrow> outcome \<Rightarrow> bool" where
  "same_outcome a b \<longleftrightarrow> list_all2 (\<lambda>x y. bl_ID x = bl_ID y \<and> sameBillingLedgerContent x y) (out_ledgers a) (out_ledgers b) \<and>
     (\<forall>u u'. same_price u u' \<longrightarrow> same_price (out_record a u) (out_record b u'))"

lemma version_outcome_retried:
  "same_outcome (version_outcome E hash u (pricingFactsFromUsage operation u) purpose rule version)
     (version_outcome E hash (retried at latency ttft u) (pricingFactsFromUsage operation (retried at latency ttft u)) purpose rule' version)"
  by (auto simp: version_outcome_def evaluate_version_retried same_outcome_def settlement_ledger_def sameBillingLedgerContent_def
      sameBillingLedgerIdentity_def same_price_def usage_identity_def dispute_record_def price_record_def split: sum.splits)

lemma pinned_outcome_retried:
  assumes le: "pricing_le s s'" and pin: "hold_pin v' = hold_pin v"
    and o': "pinned_outcome E hash u (pricingFactsFromUsage operation u) s v = Some a"
  shows "\<exists>b. pinned_outcome E hash (retried at latency ttft u) (pricingFactsFromUsage operation (retried at latency ttft u)) s' v' = Some b \<and> same_outcome a b"
proof -
  obtain rule version where d: "PricingRuleVersionDetail (hpv_PricingRuleVersionID v) s = Inr (rule, version)" "pv_State version = PricingVersionStatePublished"
    "a = version_outcome E hash u (pricingFactsFromUsage operation u) (hpv_Purpose v) rule version"
    using o' by (auto simp: pinned_outcome_def split: sum.splits if_splits)
  have get: "go_get (ps_versions s) (TrimSpace (hpv_PricingRuleVersionID v)) = Some version" "go_get (ps_rules s) (TrimSpace (pv_RuleID version)) = Some rule"
    using d(1) by (auto simp: PricingRuleVersionDetail_def FindPricingRuleVersion_def FindPricingRule_def split: option.splits)
  have "go_get (ps_versions s') (TrimSpace (hpv_PricingRuleVersionID v)) = Some version"
    using le get(1) d(2) by (simp add: pricing_le_def published_def)
  moreover obtain rule' where "go_get (ps_rules s') (TrimSpace (pv_RuleID version)) = Some rule'"
    using le get(2) unfolding pricing_le_def rule_le_def by blast
  ultimately have "PricingRuleVersionDetail (hpv_PricingRuleVersionID v') s' = Inr (rule', version)"
    using pin by (simp add: PricingRuleVersionDetail_def FindPricingRuleVersion_def FindPricingRule_def hold_pin_def)
  then show ?thesis using d(2,3) pin version_outcome_retried by (simp add: pinned_outcome_def hold_pin_def)
qed

lemma sort_by_map: "(\<And>x y. lt' (f x) (f y) \<longleftrightarrow> lt x y) \<Longrightarrow> map f (sort_by lt xs) = sort_by lt' (map f xs)"
proof (induction xs)
  case (Cons x xs)
  have "map f (insort_by lt x ys) = insort_by lt' (f x) (map f ys)" for ys using Cons.prems by (induction ys) auto
  then show ?case using Cons by simp
qed simp

lemma pins_listed:
  assumes "keeps_pins r r'"
  shows "map hold_pin (ListBillingHoldPricingVersions k r') = map hold_pin (ListBillingHoldPricingVersions k r)"
proof -
  have list: "map hold_pin (ListBillingHoldPricingVersions k r) =
      sort_by (\<lambda>a b. fst (snd a) < fst (snd b)) (filter (\<lambda>p. fst p = TrimSpace k) (map hold_pin (go_values (billingHoldPricingVersions r))))" for r
    unfolding ListBillingHoldPricingVersions_def
    by (subst sort_by_map [where lt' = "\<lambda>a b. fst (snd a) < fst (snd b)"]) (simp_all add: hold_pin_def filter_map comp_def)
  show ?thesis unfolding list using assms by (simp add: keeps_pins_def)
qed

lemma pinned_outcomes_retried:
  assumes le: "pricing_le s s'" and "map hold_pin vs' = map hold_pin vs"
    and "map (pinned_outcome E hash u (pricingFactsFromUsage operation u) s) vs = map Some outs"
  shows "\<exists>outs'. map (pinned_outcome E hash (retried at latency ttft u) (pricingFactsFromUsage operation (retried at latency ttft u)) s') vs' = map Some outs' \<and>
    list_all2 same_outcome outs outs'"
  using assms(2,3)
proof (induction vs arbitrary: vs' outs)
  case (Cons v vs)
  then obtain v' ws' where vs': "vs' = v' # ws'" "hold_pin v' = hold_pin v" "map hold_pin ws' = map hold_pin vs" by (auto simp: map_eq_Cons_conv)
  obtain a os where outs: "outs = a # os" "pinned_outcome E hash u (pricingFactsFromUsage operation u) s v = Some a"
    "map (pinned_outcome E hash u (pricingFactsFromUsage operation u) s) vs = map Some os"
    using Cons.prems(2) by (auto simp: map_eq_Cons_conv)
  obtain b where b: "pinned_outcome E hash (retried at latency ttft u) (pricingFactsFromUsage operation (retried at latency ttft u)) s' v' = Some b" "same_outcome a b"
    using pinned_outcome_retried [OF le vs'(2) outs(2)] by blast
  obtain os' where "map (pinned_outcome E hash (retried at latency ttft u) (pricingFactsFromUsage operation (retried at latency ttft u)) s') ws' = map Some os'"
    "list_all2 same_outcome os os'" using Cons.IH [OF vs'(3) outs(3)] by blast
  then show ?case using b by (intro exI [of _ "b # os'"]) (simp add: vs'(1) outs(1))
qed simp

lemma same_outcomes_record: "list_all2 same_outcome outs outs' \<Longrightarrow> same_price u u' \<Longrightarrow> same_price (fold out_record outs u) (fold out_record outs' u')"
  by (induction outs outs' arbitrary: u u' rule: list_all2_induct) (auto simp: same_outcome_def)

lemma same_outcomes_ledgers:
  "list_all2 same_outcome outs outs' \<Longrightarrow> list_all2 (\<lambda>x y. bl_ID x = bl_ID y \<and> sameBillingLedgerContent x y) (concat (map out_ledgers outs)) (concat (map out_ledgers outs'))"
  by (induction outs outs' rule: list_all2_induct) (auto simp: same_outcome_def intro: list_all2_appendI)

text \<open>What later settlements keep of the holds.\<close>

lemma settling_hold:
  assumes "settling_step op r r'" "holds_inv r" "memoryBillingHoldForOperation (billingHolds r) k = Some h"
  shows "\<exists>h'. memoryBillingHoldForOperation (billingHolds r') k = Some h' \<and> hold_ID h' = hold_ID h"
proof -
  have h: "go_get (billingHolds r) (hold_ID h) = Some h" "hold_OperationID h = k" using hold_for_operation [OF assms(2,3)] by auto
  then obtain h' where h': "go_get (billingHolds r') (hold_ID h) = Some h'" "hold_le h h'"
    using assms(1) grown_get unfolding settling_step_def by metis
  have inv: "holds_inv r'" using assms(1,2) by (simp add: settling_step_def)
  have "hold_ID h' = hold_ID h" using table_get [OF holds_table [OF inv] h'(1)] by simp
  then show ?thesis using hold_for_operation_iff [OF inv, of k h'] h' h(2) by (auto simp: hold_le_def)
qed

definition keeps_hold :: "MemoryRepository \<Rightarrow> MemoryRepository \<Rightarrow> bool" where
  "keeps_hold r r' \<longleftrightarrow> keeps_pins r r' \<and> holds_inv r' \<and>
     (\<forall>k h. memoryBillingHoldForOperation (billingHolds r) k = Some h \<longrightarrow>
        (\<exists>h'. memoryBillingHoldForOperation (billingHolds r') k = Some h' \<and> hold_ID h' = hold_ID h))"

lemma keeps_hold_refl: "holds_inv r \<Longrightarrow> keeps_hold r r"
  by (simp add: keeps_hold_def)

lemma keeps_hold_trans: "keeps_hold r r' \<Longrightarrow> keeps_hold r' r'' \<Longrightarrow> keeps_hold r r''"
  unfolding keeps_hold_def using keeps_pins_trans by metis

lemma Apply_keeps_hold:
  assumes "holds_inv r"
  shows "keeps_hold r (fst (ApplyUsageSettlement st r))"
proof -
  obtain r' x where eq: "ApplyUsageSettlement st r = (r', x)" by fastforce
  from assms eq have "keeps_hold r r'"
  proof (cases rule: Apply_result)
    case (applied dims s r1 r3)
    have step: "settling_step (ur_OperationID (st_Record s)) r r3" by (rule settling_step_trans [OF applied(8,9)])
    have "holds_inv r3" by (rule settling_step_holds [OF step assms])
    then have "holds_inv r'" by (rule holds_inv_mono) (simp_all add: applied(10))
    moreover have "keeps_pins r r'" using step by (simp add: settling_step_def keeps_pins_def applied(10))
    ultimately show ?thesis using settling_hold [OF step assms] unfolding keeps_hold_def by (simp add: applied(10))
  qed (simp add: keeps_hold_refl assms)
  then show ?thesis by (simp add: eq)
qed

lemma settle_all_keeps_hold: "holds_inv r \<Longrightarrow> keeps_hold r (settle_all ss r)"
proof (induction ss arbitrary: r)
  case (Cons st ss)
  have step: "keeps_hold r (fst (ApplyUsageSettlement st r))" by (rule Apply_keeps_hold [OF Cons.prems])
  then have "holds_inv (fst (ApplyUsageSettlement st r))" by (simp add: keeps_hold_def)
  from keeps_hold_trans [OF step Cons.IH [OF this]] show ?case by simp
qed (simp add: keeps_hold_refl)

lemma validate_cong:
  assumes "usage_identity (st_Record s) = usage_identity (st_Record s')" "st_Evaluations s = st_Evaluations s'" "st_Ledgers s = st_Ledgers s'"
  shows "validateUsageSettlement s = validateUsageSettlement s'"
proof -
  have "settlement_evaluations (st_Record s) es m = settlement_evaluations (st_Record s') es m" for es m
    using assms(1) by (induction es arbitrary: m) (auto simp: usage_identity_def)
  moreover have "settlement_ledgers (st_Record s) m ls ps = settlement_ledgers (st_Record s') m ls ps" for m ls ps
    using assms(1) by (induction ls arbitrary: ps) (auto simp: usage_identity_def split: option.splits)
  ultimately show ?thesis using assms by (simp add: validateUsageSettlement_def usage_identity_def Let_def split: option.splits)
qed

lemma target_cong:
  assumes "ur_OperationID a = ur_OperationID b" "ur_AttemptID a = ur_AttemptID b"
  shows "check_settlement_target a r = check_settlement_target b r"
  unfolding check_settlement_target_def assms by (rule refl)

lemma build_retried:
  assumes build: "buildUsageSettlement E hash json u r s = Inr st" and le: "pricing_le s s'"
    and r': "aiOperations r' = aiOperations r" "keeps_hold r r'"
  obtains st' where "buildUsageSettlement E hash json (retried at latency ttft u) r' s' = Inr st'" "same_price (st_Record st) (st_Record st')"
    "list_all2 (\<lambda>x y. bl_ID x = bl_ID y \<and> sameBillingLedgerContent x y) (st_Ledgers st) (st_Ledgers st')"
proof -
  obtain operation hold outs where b: "FindAIOperation (ur_OperationID u) r = Some operation"
    "op_RequestFingerprint operation = ur_RequestFingerprint u" "FindBillingHoldByOperationID (ur_OperationID u) r = Some hold"
    "map (pinned_outcome E hash u (pricingFactsFromUsage operation u) s) (ListBillingHoldPricingVersions (hold_ID hold) r) = map Some outs"
    "st_Evaluations st = map out_evaluation outs" "st_Ledgers st = concat (map out_ledgers outs)" "st_Record st = fold out_record outs u"
    by (rule build_outcomes [OF build])
  obtain hold' where hold': "FindBillingHoldByOperationID (ur_OperationID u) r' = Some hold'" "hold_ID hold' = hold_ID hold"
    using r'(2) b(3) by (auto simp: keeps_hold_def FindBillingHoldByOperationID_def)
  have "map hold_pin (ListBillingHoldPricingVersions (hold_ID hold) r') = map hold_pin (ListBillingHoldPricingVersions (hold_ID hold) r)"
    using r'(2) pins_listed by (simp add: keeps_hold_def)
  from pinned_outcomes_retried [OF le this b(4), of at latency ttft] obtain outs' where outs':
    "map (pinned_outcome E hash (retried at latency ttft u) (pricingFactsFromUsage operation (retried at latency ttft u)) s')
       (ListBillingHoldPricingVersions (hold_ID hold) r') = map Some outs'" "list_all2 same_outcome outs outs'" by blast
  let ?st = "fold add_outcome outs' \<lparr>st_Record = retried at latency ttft u, st_Evaluations = [], st_Ledgers = [], st_OutboxEvents = []\<rparr>"
  let ?st' = "?st\<lparr>st_OutboxEvents := [usageRecordedOutbox hash json (st_Record ?st)]\<rparr>"
  have "FindAIOperation (ur_OperationID u) r' = Some operation" using b(1) r'(1) by (simp add: FindAIOperation_def)
  then have "buildUsageSettlement E hash json (retried at latency ttft u) r' s' = Inr ?st'"
    using b(2) hold' settle_versions_outcomes [OF outs'(1)] by (simp add: buildUsageSettlement_def)
  moreover have "same_price u (retried at latency ttft u)" by (simp add: same_price_def usage_identity_def retried_def)
  then have "same_price (st_Record st) (st_Record ?st')" using same_outcomes_record [OF outs'(2)] by (simp add: b(7) fold_outcomes)
  moreover have "list_all2 (\<lambda>x y. bl_ID x = bl_ID y \<and> sameBillingLedgerContent x y) (st_Ledgers st) (st_Ledgers ?st')"
    using same_outcomes_ledgers [OF outs'(2)] by (simp add: b(6) fold_outcomes)
  ultimately show ?thesis by (rule that)
qed

section \<open>An example\<close>

text \<open>The example repository with its hold pinned to the example version.\<close>

definition example_pin :: BillingHoldPricingVersion where
  "example_pin = \<lparr>hpv_HoldID = ''a'', hpv_Purpose = ''usage_cost'', hpv_PricingRuleVersionID = ''pdraft_1'', hpv_EstimateEvaluationID = [],
     hpv_SettlementEvaluationID = []\<rparr>"

definition example_priced :: MemoryRepository where
  "example_priced = example_repository\<lparr>billingHoldPricingVersions := [(hold_version_key example_pin, example_pin)]\<rparr>"

definition example_build :: "UsageRecord \<Rightarrow> MemoryRepository \<Rightarrow> pricing_store \<Rightarrow> settlement_error + UsageSettlement" where
  "example_build = buildUsageSettlement example_env id (\<lambda>_. [])"

lemma example_priced_inv:
  "holds_inv example_priced" "ledger_inv example_priced" "keyed hold_version_key (billingHoldPricingVersions example_priced)"
  "hpv_Purpose ` set (go_values (billingHoldPricingVersions example_priced)) \<subseteq> {''usage_cost''}"
  using example_repository_holds example_wf(2) by (simp_all add: example_priced_def holds_inv_def ledger_inv_def keyed_def example_pin_def)

lemma example_usage_ok:
  "TrimSpace (ur_OperationID example_usage) \<noteq> []" "0 < ur_UsageVersion example_usage" "ur_ID example_usage \<noteq> []" "ur_RequestFingerprint example_usage \<noteq> []"
  by code_simp+

lemma example_built:
  obtains st where "example_build example_usage example_priced example_published = Inr st" "map bl_AmountMicros (st_Ledgers st) = [7]"
    "snd (ApplyUsageSettlement st example_priced) = Inr True"
proof -
  have "case example_build example_usage example_priced example_published of Inl _ \<Rightarrow> False
    | Inr st \<Rightarrow> map bl_AmountMicros (st_Ledgers st) = [7] \<and> snd (ApplyUsageSettlement st example_priced) = Inr True" by code_simp
  then show ?thesis using that by (auto split: sum.splits)
qed

section \<open>Properties\<close>

text \<open>
  The facts that the charges of a settlement rest on: each of its ledger entries is the price that the
  pinned, published version of the entry's purpose gives for the facts of the usage.
\<close>

definition charged_by ::
  "engine_env \<Rightarrow> Facts \<Rightarrow> pricing_store \<Rightarrow> BillingHoldPricingVersion \<Rightarrow> int \<Rightarrow> bool" where
  "charged_by E facts s pin amount \<longleftrightarrow>
     (\<exists>rule version result. PricingRuleVersionDetail (hpv_PricingRuleVersionID pin) s = Inr (rule, version) \<and>
        pv_State version = PricingVersionStatePublished \<and> evaluate_version E version facts = Inr result \<and> amount = res_AmountMicros result)"

lemma pinned_outcome_charges:
  assumes "pinned_outcome E hash u facts s v = Some o'"
  shows "b \<in> set (out_ledgers o') \<Longrightarrow> bl_Purpose b = hpv_Purpose v \<and> charged_by E facts s v (bl_AmountMicros b)"
    "charged_by E facts s v amount \<Longrightarrow> \<exists>b \<in> set (out_ledgers o'). bl_Purpose b = hpv_Purpose v \<and> bl_AmountMicros b = amount"
  using assms by (auto simp: pinned_outcome_def charged_by_def version_outcome_def settlement_ledger_def split: sum.splits if_splits)

text \<open>
  What a settlement says of one pinned version: it is published, and the evaluation is of its purpose, its
  rule version and the facts of the usage. If the version evaluates, the evaluation is a success with the
  amount, which an entry of the ledger charges; otherwise it is disputed, without an amount, with the code of the
  failure, and nothing is charged for the purpose. The usage cost is noted in the record accordingly.
\<close>

definition pin_settled ::
  "engine_env \<Rightarrow> Facts \<Rightarrow> pricing_store \<Rightarrow> UsageSettlement \<Rightarrow> BillingHoldPricingVersion \<Rightarrow> PricingEvaluation \<Rightarrow> bool" where
  "pin_settled E facts s st v e \<longleftrightarrow> pe_Purpose e = hpv_Purpose v \<and> pe_Facts e = facts \<and>
     (\<exists>rule version. PricingRuleVersionDetail (hpv_PricingRuleVersionID v) s = Inr (rule, version) \<and>
        pv_State version = PricingVersionStatePublished \<and> pe_PricingRuleVersionID e = pv_ID version \<and>
        (case evaluate_version E version facts of
           Inl err \<Rightarrow> pe_Status e = PricingEvaluationStatusDisputed \<and> pe_AmountMicros e = None \<and> pe_FailureCode e = pricingFailureCode err \<and>
             (\<forall>b \<in> set (st_Ledgers st). bl_Purpose b \<noteq> hpv_Purpose v) \<and>
             (hpv_Purpose v = PricingPurposeUsageCost \<longrightarrow>
                ur_PricingStatus (st_Record st) = ''disputed'' \<and> ur_UsageCostMicros (st_Record st) = None)
         | Inr result \<Rightarrow> pe_Status e = PricingEvaluationStatusSuccess \<and> pe_AmountMicros e = Some (res_AmountMicros result) \<and>
             (\<exists>b \<in> set (st_Ledgers st). bl_Purpose b = hpv_Purpose v \<and> bl_AmountMicros b = res_AmountMicros result \<and>
                bl_PricingEvaluationID b = pe_ID e) \<and>
             (hpv_Purpose v = PricingPurposeUsageCost \<longrightarrow> ur_UsageCostMicros (st_Record st) = Some (res_AmountMicros result))))"

lemma fold_only:
  "i < length xs \<Longrightarrow> (\<And>j. j < length xs \<Longrightarrow> j \<noteq> i \<Longrightarrow> f (xs ! j) = id) \<Longrightarrow> fold f xs u = f (xs ! i) u"
proof (induction xs arbitrary: i u)
  case (Cons x xs)
  show ?case
  proof (cases i)
    case 0
    have "f y = id" if "y \<in> set xs" for y using that Cons.prems(2) [of "Suc j" for j] by (auto simp: in_set_conv_nth 0)
    then have "fold f xs v = v" for v by (induction xs arbitrary: v) auto
    then show ?thesis by (simp add: 0)
  next
    case (Suc k)
    have "f x = id" using Cons.prems(2) [of 0] Suc by (metis length_greater_0_conv list.distinct(1) nat.distinct(1) nth_Cons_0)
    moreover have "fold f xs v = f (xs ! k) v" for v using Cons.IH [of k v] Cons.prems(1) Cons.prems(2) [of "Suc j" for j] by (simp add: Suc)
    ultimately show ?thesis by (simp add: Suc)
  qed
qed simp

lemma pinned_outcome_record:
  "pinned_outcome E hash u facts s v = Some o' \<Longrightarrow> hpv_Purpose v \<noteq> PricingPurposeUsageCost \<Longrightarrow> out_record o' = id"
  by (auto simp: pinned_outcome_def version_outcome_def dispute_record_def price_record_def fun_eq_iff split: sum.splits if_splits)

lemma pinned_outcome_settled:
  assumes "pinned_outcome E hash u facts s v = Some o'"
    and "\<And>b. b \<in> set (st_Ledgers st) \<Longrightarrow> bl_Purpose b = hpv_Purpose v \<Longrightarrow> b \<in> set (out_ledgers o')"
    and "set (out_ledgers o') \<subseteq> set (st_Ledgers st)"
    and "hpv_Purpose v = PricingPurposeUsageCost \<Longrightarrow> st_Record st = out_record o' u"
  shows "pin_settled E facts s st v (out_evaluation o')"
proof -
  obtain rule version where v: "PricingRuleVersionDetail (hpv_PricingRuleVersionID v) s = Inr (rule, version)"
    "pv_State version = PricingVersionStatePublished" "o' = version_outcome E hash u facts (hpv_Purpose v) rule version"
    using assms(1) by (auto simp: pinned_outcome_def split: sum.splits if_splits)
  show ?thesis
  proof (cases "evaluate_version E version facts")
    case (Inl err)
    then have "o' = \<lparr>out_evaluation = disputed_evaluation E hash u facts (hpv_Purpose v) rule version err, out_ledgers = [],
        out_record = dispute_record (hpv_Purpose v)\<rparr>" using v(3) by (simp add: version_outcome_def)
    then show ?thesis using v(1,2) Inl assms(2,4) unfolding pin_settled_def by (auto simp: disputed_evaluation_def dispute_record_def)
  next
    case (Inr result)
    then have "o' = \<lparr>out_evaluation = settlement_evaluation hash u facts (hpv_Purpose v) rule version result,
        out_ledgers = [settlement_ledger hash u (hpv_Purpose v) version result], out_record = price_record hash u (hpv_Purpose v) result\<rparr>"
      using v(3) by (simp add: version_outcome_def)
    then show ?thesis using v(1,2) Inr assms(3,4) unfolding pin_settled_def
      by (auto simp: settlement_evaluation_def price_record_def intro!: bexI [of _ "settlement_ledger hash u (hpv_Purpose v) version result"])
        (auto simp: settlement_ledger_def)
  qed
qed

lemma pins_settled:
  assumes "map (pinned_outcome E hash u facts s) vs = map Some outs" "distinct (map hpv_Purpose vs)"
    and "st_Ledgers st = concat (map out_ledgers outs)" "st_Record st = fold out_record outs u"
  shows "list_all2 (pin_settled E facts s st) vs (map out_evaluation outs)"
proof -
  have len: "length vs = length outs" using assms(1) by (metis length_map)
  have nth: "pinned_outcome E hash u facts s (vs ! i) = Some (outs ! i)" if "i < length outs" for i
    using assms(1) that len by (metis nth_map)
  have same: "j = i" if "hpv_Purpose (vs ! j) = hpv_Purpose (vs ! i)" "i < length outs" "j < length outs" for i j
    using assms(2) that len nth_eq_iff_index_eq [of "map hpv_Purpose vs" j i] by simp
  have "pin_settled E facts s st (vs ! i) (out_evaluation (outs ! i))" if i: "i < length outs" for i
  proof (rule pinned_outcome_settled [OF nth [OF i]])
    fix b assume b: "b \<in> set (st_Ledgers st)" "bl_Purpose b = hpv_Purpose (vs ! i)"
    then obtain j where j: "j < length outs" "b \<in> set (out_ledgers (outs ! j))" unfolding assms(3) by (auto simp: in_set_conv_nth) blast
    then show "b \<in> set (out_ledgers (outs ! i))" using pinned_outcome_charges(1) [OF nth [OF j(1)]] same [OF _ i j(1)] b(2) by metis
  next
    show "set (out_ledgers (outs ! i)) \<subseteq> set (st_Ledgers st)" using nth_mem [OF i] unfolding assms(3) by auto
  next
    assume p: "hpv_Purpose (vs ! i) = PricingPurposeUsageCost"
    show "st_Record st = out_record (outs ! i) u" unfolding assms(4)
      by (rule fold_only [OF i], rule pinned_outcome_record [OF nth]) (use same [OF _ i] p in auto)
  qed
  then show ?thesis by (auto simp: list_all2_conv_all_nth len)
qed

text \<open>
  C7: usage is charged what its pinned price says. A settlement that the service builds is accepted by
  the checks of the repository. It has one evaluation for each version that is pinned to the hold, in their
  order: when the version evaluates on the facts of the usage, the evaluation is a success and a ledger
  entry charges its amount; when it does not, the evaluation is recorded as disputed with the code of the failure
  and without an amount, and nothing is charged for it. Every ledger entry is such a charge.
  Different purposes have to have different identifiers under the hash.
\<close>

theorem settlement_charges_pinned_price:
  assumes "buildUsageSettlement E hash json record r s = Inr st" "keyed hold_version_key (billingHoldPricingVersions r)"
    and "inj_on (deterministicPricingEvaluationID hash record) P" "inj_on (deterministicBillingLedgerID hash record) P"
    and "hpv_Purpose ` set (go_values (billingHoldPricingVersions r)) \<subseteq> P"
    and "TrimSpace (ur_OperationID record) \<noteq> []" "0 < ur_UsageVersion record" "ur_ID record \<noteq> []" "ur_RequestFingerprint record \<noteq> []"
  shows "validateUsageSettlement st = None \<and> settlement_wf st \<and>
    (\<exists>operation hold. FindAIOperation (ur_OperationID record) r = Some operation \<and>
       FindBillingHoldByOperationID (ur_OperationID record) r = Some hold \<and>
       (let pins = ListBillingHoldPricingVersions (hold_ID hold) r; facts = pricingFactsFromUsage operation record in
        list_all2 (pin_settled E facts s st) pins (st_Evaluations st) \<and>
        (\<forall>b \<in> set (st_Ledgers st). \<exists>v \<in> set pins. bl_Purpose b = hpv_Purpose v \<and> charged_by E facts s v (bl_AmountMicros b))))"
proof -
  obtain operation hold outs where b: "FindAIOperation (ur_OperationID record) r = Some operation"
    "op_RequestFingerprint operation = ur_RequestFingerprint record" "FindBillingHoldByOperationID (ur_OperationID record) r = Some hold"
    "map (pinned_outcome E hash record (pricingFactsFromUsage operation record) s) (ListBillingHoldPricingVersions (hold_ID hold) r) = map Some outs"
    "st_Evaluations st = map out_evaluation outs" "st_Ledgers st = concat (map out_ledgers outs)" "st_Record st = fold out_record outs record"
    by (rule build_outcomes [OF assms(1)])
  let ?vs = "ListBillingHoldPricingVersions (hold_ID hold) r" and ?f = "pricingFactsFromUsage operation record"
  have len: "length ?vs = length outs" using b(4) by (metis length_map)
  have "\<exists>v \<in> set ?vs. bl_Purpose x = hpv_Purpose v \<and> charged_by E ?f s v (bl_AmountMicros x)" if x: "x \<in> set (st_Ledgers st)" for x
  proof -
    obtain i where i: "i < length outs" "x \<in> set (out_ledgers (outs ! i))" using x unfolding b(6) by (auto simp: in_set_conv_nth) blast
    have "pinned_outcome E hash record ?f s (?vs ! i) = Some (outs ! i)" using b(4) i(1) len by (metis nth_map)
    then show ?thesis using pinned_outcome_charges(1) i(2) nth_mem [of i ?vs] len i(1) by fastforce
  qed
  then show ?thesis
    using build_valid [OF assms] b(1,3,5) pins_settled [OF b(4) hold_purposes_distinct [OF assms(2)] b(6,7)] by (simp add: Let_def)
qed

theorem settlement_charges_pinned_price_witness:
  "\<exists>st. example_build example_usage example_priced example_published = Inr st \<and> validateUsageSettlement st = None \<and>
     (\<exists>b \<in> set (st_Ledgers st). bl_Purpose b = ''usage_cost'' \<and> bl_AmountMicros b = 7)"
proof -
  obtain st where st: "example_build example_usage example_priced example_published = Inr st" "map bl_AmountMicros (st_Ledgers st) = [7]"
    by (rule example_built)
  then obtain b where b: "b \<in> set (st_Ledgers st)" "bl_AmountMicros b = 7" by auto
  have "hpv_Purpose v = ''usage_cost''" if "v \<in> set (ListBillingHoldPricingVersions k example_priced)" for v k
    using that example_priced_inv(4) by (auto simp: ListBillingHoldPricingVersions_def)
  then show ?thesis
    using settlement_charges_pinned_price [OF st(1) [unfolded example_build_def] example_priced_inv(3) _ _ example_priced_inv(4) example_usage_ok] st(1) b
    unfolding Let_def by simp metis
qed

text \<open>
  C4: usage is charged once, at the price of its admission. After the settlement of a usage record was
  applied, and after any further settlements, the service may record the same usage again, at a later
  time and with pricing rules that were edited, published, activated or disabled in the meantime: it
  builds a settlement again, the repository recognises it, and nothing changes.
\<close>

theorem usage_charged_once:
  assumes "holds_inv r" "ledger_inv r" "keyed hold_version_key (billingHoldPricingVersions r)"
    and "inj_on (deterministicPricingEvaluationID hash record) P" "inj_on (deterministicBillingLedgerID hash record) P"
    and "hpv_Purpose ` set (go_values (billingHoldPricingVersions r)) \<subseteq> P"
    and "TrimSpace (ur_OperationID record) \<noteq> []" "0 < ur_UsageVersion record" "ur_ID record \<noteq> []" "ur_RequestFingerprint record \<noteq> []"
    and "pricing_run E h" "j \<le> i" "i < length h"
    and "buildUsageSettlement E hash json record r (h ! i) = Inr st" "ApplyUsageSettlement st r = (r', Inr True)" "list_all settlement_wf ss"
  shows "\<exists>st'. buildUsageSettlement E hash json (retried at latency ttft record) (settle_all ss r') (h ! j) = Inr st' \<and>
    ApplyUsageSettlement st' (settle_all ss r') = (settle_all ss r', Inr False)"
proof -
  let ?r = "settle_all ss r'" and ?u = "retried at latency ttft record"
  have wf: "validateUsageSettlement st = None" "settlement_wf st" using build_valid [OF assms(14,3-10)] by auto
  obtain dims where a: "NormalizeUsageDimensions (ur_UsageDimensions (st_Record st)) = Some dims" "ledger_inv ?r" "keeps_ledger r ?r"
    "validateUsageSettlement (normalized_settlement dims st) = None" "check_settlement_target (st_Record (normalized_settlement dims st)) ?r = None"
    "go_get (usageRecords ?r) (ur_ID (st_Record st)) = Some (st_Record (normalized_settlement dims st))"
    "\<forall>b \<in> set (st_Ledgers st). go_get (billingLedgerEntries ?r) (bl_ID b) = Some b"
    by (rule applied_stored [OF assms(1,2) wf(2) assms(16,15)])
  have "keeps_hold r r'" using Apply_keeps_hold [OF assms(1), of st] by (simp add: assms(15))
  then have hold: "keeps_hold r ?r" using keeps_hold_trans settle_all_keeps_hold unfolding keeps_hold_def by blast
  have le: "pricing_le (h ! i) (h ! j)" using pricing_run_ok [OF assms(11)] assms(12,13) by (simp add: history_ok_def)
  have "aiOperations ?r = aiOperations r" using a(3) by (simp add: keeps_ledger_def)
  then obtain st' where st': "buildUsageSettlement E hash json ?u ?r (h ! j) = Inr st'" "same_price (st_Record st) (st_Record st')"
    "list_all2 (\<lambda>x y. bl_ID x = bl_ID y \<and> sameBillingLedgerContent x y) (st_Ledgers st) (st_Ledgers st')"
    by (rule build_retried [OF assms(14) le _ hold])
  have pins: "map hold_pin (go_values (billingHoldPricingVersions ?r)) = map hold_pin (go_values (billingHoldPricingVersions r))"
    "keyed hold_version_key (billingHoldPricingVersions ?r)" using hold assms(3) by (auto simp: keeps_hold_def keeps_pins_def)
  have "hpv_Purpose ` set (go_values (billingHoldPricingVersions ?r)) = (\<lambda>p. fst (snd p)) ` set (map hold_pin (go_values (billingHoldPricingVersions r)))"
    unfolding pins(1) [symmetric] by (simp add: hold_pin_def image_image)
  also have "\<dots> = hpv_Purpose ` set (go_values (billingHoldPricingVersions r))" by (simp add: hold_pin_def image_image)
  also note assms(6)
  finally have "validateUsageSettlement st' = None"
    using build_valid [OF st'(1) pins(2), of P] assms(4,5,7-10) by simp
  then have "validateUsageSettlement (normalized_settlement dims st') = None"
    by (subst validate_cong [of _ st']) (simp_all add: usage_identity_def)
  moreover have ids: "ur_ID (st_Record st') = ur_ID (st_Record st)" "ur_OperationID (st_Record st') = ur_OperationID (st_Record st)"
    "ur_AttemptID (st_Record st') = ur_AttemptID (st_Record st)" "ur_UsageDimensions (st_Record st') = ur_UsageDimensions (st_Record st)"
    using st'(2) by (auto simp: same_price_def usage_identity_def)
  moreover have "check_settlement_target (st_Record (normalized_settlement dims st')) ?r = None"
    unfolding a(5) [symmetric] by (rule target_cong) (simp_all add: ids)
  moreover have "usageDimensionsEqual dims dims" using usageDimensionsEqual_refl Normalize_id [OF Normalize_normal [OF a(1)]] by blast
  then have "same_usage (st_Record (normalized_settlement dims st)) (st_Record (normalized_settlement dims st'))"
    using st'(2) by (simp add: same_usage_def same_price_def optionalMoneyEqual_def split: option.split)
  moreover have "\<exists>b'. go_get (billingLedgerEntries ?r) (bl_ID b) = Some b' \<and> sameBillingLedgerContent b' b" if "b \<in> set (st_Ledgers st')" for b
    using list_all2_right [OF st'(3) that] a(7) by auto
  ultimately have "ApplyUsageSettlement st' ?r = (?r, Inr False)"
    using replay [OF a(2), of st' dims] a(1,6) by simp
  with st'(1) show ?thesis by blast
qed

theorem usage_charged_once_witness:
  "\<exists>st st' r'. example_build example_usage example_priced example_published = Inr st \<and> ApplyUsageSettlement st example_priced = (r', Inr True) \<and>
     example_build (retried 9 1 None example_usage) r' example_disabled = Inr st' \<and> ApplyUsageSettlement st' r' = (r', Inr False)"
proof -
  obtain st where st: "example_build example_usage example_priced example_published = Inr st" "snd (ApplyUsageSettlement st example_priced) = Inr True"
    by (rule example_built)
  then obtain r' where r': "ApplyUsageSettlement st example_priced = (r', Inr True)" by (cases "ApplyUsageSettlement st example_priced") simp
  have build: "buildUsageSettlement example_env id (\<lambda>_. []) example_usage example_priced
      ([example_disabled, example_published, example_created, new_pricing_store] ! 1) = Inr st"
    using st(1) by (simp add: example_build_def)
  from usage_charged_once [OF example_priced_inv(1-3) _ _ example_priced_inv(4) example_usage_ok example_disabled_run _ _ build r', of 0 "[]" 9 1 None]
  show ?thesis using st(1) r' by (auto simp: example_build_def)
qed

end
