(* ===== verification/Artifact_Log.thy ===== *)
theory Artifact_Log
  imports Repository_Properties
begin

text \<open>
  The log of an artifact: what \<^verbatim>\<open>ListArtifactEvents\<close> of
  \<^verbatim>\<open>backend/internal/controlplane/artifact_repository.go\<close> returns after any sequence of calls, and what an
  artifact keeps.
\<close>

section \<open>The log of an artifact\<close>

interpretation by_artifact_version: strict_weak_order "\<lambda>a b. aev_Version a < aev_Version b"
  by unfold_locales auto

lemma artifact_event_unique:
  assumes "artifacts_inv r" "go_get (artifactEvents r) i = Some e" "go_get (artifactEvents r) i' = Some e'" "aev_key e = aev_key e'"
  shows "e = e'"
proof -
  have "unique_by aev_key (artifactEvents r)" using assms(1) by (simp add: artifacts_inv_def)
  from unique_byD [OF this assms(2-4)] show ?thesis using assms(2,3) by simp
qed

lemma artifact_events_mem:
  assumes "artifacts_inv r" "TrimSpace k = k" "k \<noteq> []"
  shows "e \<in> set (ListArtifactEvents k r) \<longleftrightarrow> go_get (artifactEvents r) (aev_ID e) = Some e \<and> aev_ArtifactID e = k"
  using table_values [of aev_ID "artifact_event_ok r" "artifactEvents r" e] assms by (auto simp: ListArtifactEvents_def artifacts_inv_def)

lemma artifact_events_sorted:
  assumes "artifacts_inv r" "TrimSpace k = k" "k \<noteq> []"
  shows "sorted (map aev_Version (ListArtifactEvents k r))" "distinct (map aev_Version (ListArtifactEvents k r))"
proof -
  let ?L = "filter (\<lambda>event. TrimSpace k = [] \<or> aev_ArtifactID event = TrimSpace k) (go_values (artifactEvents r))"
  have mem: "e \<in> set ?L \<longleftrightarrow> go_get (artifactEvents r) (aev_ID e) = Some e \<and> aev_ArtifactID e = k" for e
    using artifact_events_mem [OF assms, of e] by (simp add: ListArtifactEvents_def)
  have inj: "inj_on aev_Version (set ?L)"
    using artifact_event_unique [OF assms(1)] unfolding inj_on_def by (metis mem aev_key_def)
  have "distinct (map aev_ID ?L)"
    using assms(1) keyed_distinct_values [OF table_keyed, of aev_ID "artifact_event_ok r"] by (simp add: artifacts_inv_def distinct_map_filter del: map_map)
  then have d: "distinct ?L" by (metis distinct_map)
  have eq: "ListArtifactEvents k r = sort_by (\<lambda>a b. aev_Version a < aev_Version b) ?L"
    unfolding ListArtifactEvents_def by (rule sort_by_cong) (metis inj inj_onD less_irrefl)
  have "sorted_wrt (\<lambda>a b. aev_Version a \<le> aev_Version b) (ListArtifactEvents k r)"
    using by_artifact_version.sorted_sort_by [of ?L] unfolding eq by (simp add: not_less)
  then show "sorted (map aev_Version (ListArtifactEvents k r))" by (simp add: sorted_map)
  show "distinct (map aev_Version (ListArtifactEvents k r))" unfolding eq using inj d by (simp add: distinct_map)
qed

lemma artifact_events_logged:
  assumes "artifacts_inv r" "TrimSpace k = k" "go_get (artifacts r) k = Some a" "logged (artifactEvents r) a f"
  shows "ListArtifactEvents k r = map f [1..ar_StatusVersion a]"
proof -
  have a: "ar_ID a = k" "k \<noteq> []" using artifact_get [OF assms(1,3)] by (auto simp: artifact_ok_def)
  note mem = artifact_events_mem [OF assms(1,2) a(2)]
  have f: "f v \<in> set (ListArtifactEvents k r)" "aev_Version (f v) = v" if "1 \<le> v" "v \<le> ar_StatusVersion a" for v
    using assms(4) that a(1) unfolding mem logged_def by (auto simp: aev_key_def)
  have e: "1 \<le> aev_Version e \<and> aev_Version e \<le> ar_StatusVersion a \<and> f (aev_Version e) = e" if "e \<in> set (ListArtifactEvents k r)" for e
  proof -
    have e: "go_get (artifactEvents r) (aev_ID e) = Some e" "aev_ArtifactID e = k" using that by (simp_all add: mem)
    then have v: "1 \<le> aev_Version e" "aev_Version e \<le> ar_StatusVersion a"
      using artifact_event_get [OF assms(1) e(1)] assms(3) by (auto simp: artifact_event_ok_def)
    have "f (aev_Version e) = e"
      using artifact_event_unique [OF assms(1) _ e(1)] f [OF v] e(2) unfolding mem aev_key_def by auto
    with v show ?thesis by simp
  qed
  have "set (map aev_Version (ListArtifactEvents k r)) = set [1..ar_StatusVersion a]"
    using e f by (auto simp: image_iff) force
  then have "map aev_Version (ListArtifactEvents k r) = [1..ar_StatusVersion a]"
    using artifact_events_sorted [OF assms(1,2) a(2)] by (intro sorted_distinct_set_unique) simp_all
  moreover have "map (f \<circ> aev_Version) (ListArtifactEvents k r) = ListArtifactEvents k r"
    using e by (intro map_idI) simp
  ultimately show ?thesis by (metis map_map)
qed

section \<open>What is kept\<close>

text \<open>An artifact stays what it is and only moves on.\<close>

definition artifact_le :: "Artifact \<Rightarrow> Artifact \<Rightarrow> bool" where
  "artifact_le a b \<longleftrightarrow> artifact_identity b = artifact_identity a \<and> ar_StatusVersion a \<le> ar_StatusVersion b \<and>
     artifactStatusTransitionAllowed\<^sup>*\<^sup>* (ar_Status a) (ar_Status b)"

lemma artifact_le_trans: "artifact_le a b \<Longrightarrow> artifact_le b c \<Longrightarrow> artifact_le a c"
  by (auto simp: artifact_le_def intro: rtranclp_trans)

lemma artifact_step_le:
  assumes "artifact_step r r'" "artifacts_inv r" "go_get (artifacts r) k = Some a"
  shows "\<exists>b. go_get (artifacts r') k = Some b \<and> artifact_le a b"
  using assms
proof (induction rule: artifact_step.induct)
  case (change_artifact r c b e)
  have "ar_ID b = ar_ID c" using change_artifact(2) by (simp add: artifact_identity_def)
  moreover have "artifact_le c b" using change_artifact by (auto simp: artifact_le_def)
  ultimately show ?case using change_artifact(1,10) by (auto simp: table_change_def artifact_le_def)
qed (auto simp: table_change_def artifact_le_def)

lemma repo_write_le:
  assumes "repo_write r r'" "repo_inv r" "go_get (artifacts r) k = Some a"
  shows "\<exists>b. go_get (artifacts r') k = Some b \<and> artifact_le a b"
  using repo_write_artifacts [OF assms(1,2)] artifact_step_le [OF _ repo_invD(7) [OF assms(2)] assms(3)] assms(3)
  by (auto simp: artifact_le_def)

lemma writes_artifact_le:
  "writes r r' \<Longrightarrow> repo_inv r \<Longrightarrow> go_get (artifacts r) k = Some a \<Longrightarrow> \<exists>b. go_get (artifacts r') k = Some b \<and> artifact_le a b"
proof (induction arbitrary: a rule: converse_rtranclp_induct)
  case (step r y)
  obtain b where b: "go_get (artifacts y) k = Some b" "artifact_le a b" using repo_write_le [OF step(1,4,5)] by blast
  then show ?case using step.IH [OF _ b(1)] repo_write_inv [OF step(1,4)] artifact_le_trans by blast
qed (auto simp: artifact_le_def)

lemma run_artifact_le:
  "(repo_call hash)\<^sup>*\<^sup>* r r' \<Longrightarrow> repo_inv r \<Longrightarrow> go_get (artifacts r) k = Some a \<Longrightarrow> \<exists>b. go_get (artifacts r') k = Some b \<and> artifact_le a b"
proof (induction arbitrary: a rule: converse_rtranclp_induct)
  case (step r y)
  obtain b where b: "go_get (artifacts y) k = Some b" "artifact_le a b"
    using writes_artifact_le [OF repo_call_writes [OF step(1,4)] step(4,5)] by blast
  then show ?case using step.IH [OF _ b(1)] call_inv [OF step(1,4)] artifact_le_trans by blast
qed (auto simp: artifact_le_def)

section \<open>A small repository\<close>

text \<open>An operation with one artifact that goes through a list of statuses.\<close>

definition example_artifact :: Artifact where
  "example_artifact = \<lparr>ar_ID = ''artifact_a'', ar_OperationID = ''a'', ar_JobID = [], ar_AttemptID = [], ar_SourceArtifactID = [],
     ar_ApplicationID = ''app'', ar_IntegrationID = [], ar_PrincipalType = ''user'', ar_PrincipalID = ''p'', ar_ExternalSubjectReference = [],
     ar_Role = ArtifactRoleInput, ar_Policy = GatewayArtifactPolicyManaged, ar_Status = ArtifactStatusPending, ar_StatusVersion = 1, ar_MediaType = [],
     ar_SizeBytes = 0, ar_SHA256 = [], ar_StoreDriver = ArtifactStoreDriverNone, ar_StoreKey = [], ar_ExternalReference = [], ar_ErrorType = [],
     ar_RetainUntil = 9, ar_CreatedAt = 5, ar_UpdatedAt = 5, ar_ReadyAt = None, ar_DeliveredAt = None, ar_DeletedAt = None\<rparr>"

definition example_created :: MemoryRepository where
  "example_created =
     (let r = fst (CreateAIOperation ((example_operation ''a'')\<lparr>op_ArtifactPolicy := GatewayArtifactPolicyManaged\<rparr>) NewMemoryRepository) in
      case newArtifactEventRecords ''1'' ''1'' example_artifact [] [] 5 of
        Inl _ \<Rightarrow> r | Inr (event, outbox) \<Rightarrow> fst (CreateArtifact example_artifact event outbox r))"

definition example_content :: ArtifactContentUpdate where
  "example_content = \<lparr>cu_MediaType = [], cu_SizeBytes = 3, cu_SHA256 = ''abc'', cu_StoreDriver = ArtifactStoreDriverMemory,
     cu_StoreKey = ''artifact_a/content'', cu_ExternalReference = []\<rparr>"

fun example_statuses :: "string list \<Rightarrow> int \<Rightarrow> MemoryRepository \<Rightarrow> MemoryRepository" where
  "example_statuses [] v r = r"
| "example_statuses (status # statuses) v r =
     example_statuses statuses (v + 1)
       (fst (TransitionArtifact (string_of_int (v + 1)) (string_of_int (v + 1))
          \<lparr>ti_ArtifactID = ''artifact_a'', ti_ExpectedVersion = v, ti_ToStatus = status, ti_Reason = [],
           ti_Content = (if status = ArtifactStatusReady then Some example_content else None)\<rparr> (5 + v) r))"

lemma example_created_run: "(repo_call hash)\<^sup>*\<^sup>* NewMemoryRepository example_created"
proof -
  let ?r = "fst (CreateAIOperation ((example_operation ''a'')\<lparr>op_ArtifactPolicy := GatewayArtifactPolicyManaged\<rparr>) NewMemoryRepository)"
  have "repo_call hash NewMemoryRepository ?r" by (rule repo_call.create_operation)
  moreover have "(repo_call hash)\<^sup>*\<^sup>* ?r example_created"
    by (auto simp: example_created_def Let_def intro: repo_call.create_artifact split: sum.splits)
  ultimately show ?thesis by (rule converse_rtranclp_into_rtranclp)
qed

lemma example_statuses_run: "(repo_call hash)\<^sup>*\<^sup>* r (example_statuses statuses v r)"
proof (induction statuses arbitrary: v r)
  case (Cons status statuses)
  show ?case unfolding example_statuses.simps by (rule converse_rtranclp_into_rtranclp [OF repo_call.transition_artifact Cons.IH])
qed simp

lemma example_artifact_run: "(repo_call hash)\<^sup>*\<^sup>* NewMemoryRepository (example_statuses statuses 1 example_created)"
  using example_created_run example_statuses_run by (rule rtranclp_trans)

section \<open>Properties\<close>

text \<open>
  C22: artifacts implement an audited status machine. After any sequence of calls, the events of an artifact
  are numbered from 1 to its version without gaps, start with pending, are linked by transitions that the
  code allows and end with the status of the artifact; and whatever calls follow, the artifact is still
  there, with the same owner, operation, role, policy and retention, in a status it can reach from the
  present one.
\<close>

theorem artifact_log_complete:
  assumes "(repo_call hash)\<^sup>*\<^sup>* NewMemoryRepository r" "go_get (artifacts r) k = Some a" "TrimSpace k = k" "es = ListArtifactEvents k r"
  shows "map aev_Version es = [1..ar_StatusVersion a] \<and> aev_ToStatus (hd es) = ArtifactStatusPending \<and> aev_ToStatus (last es) = ar_Status a \<and>
    (\<forall>i. Suc i < length es \<longrightarrow> aev_FromStatus (es ! Suc i) = aev_ToStatus (es ! i) \<and>
       artifactStatusTransitionAllowed (aev_ToStatus (es ! i)) (aev_ToStatus (es ! Suc i))) \<and>
    (\<forall>r'. (repo_call hash)\<^sup>*\<^sup>* r r' \<longrightarrow>
       (\<exists>b. go_get (artifacts r') k = Some b \<and> artifact_identity b = artifact_identity a \<and> ar_StatusVersion a \<le> ar_StatusVersion b \<and>
          artifactStatusTransitionAllowed\<^sup>*\<^sup>* (ar_Status a) (ar_Status b)))"
proof -
  have repo: "repo_inv r" using run_inv [OF assms(1) repo_inv_new] by simp
  note inv = repo_invD(7) [OF repo]
  obtain f where f: "logged (artifactEvents r) a f" "1 \<le> ar_StatusVersion a" using artifact_get [OF inv assms(2)] by (auto simp: artifact_ok_def)
  let ?v = "ar_StatusVersion a"
  have es: "es = map f [1..?v]" using artifact_events_logged [OF inv assms(3,2) f(1)] assms(4) by simp
  have nth: "es ! i = f (int i + 1)" if "i < length es" for i using that by (simp add: es nth_upto add.commute)
  have len: "int (length es) = ?v" "es \<noteq> []" using f(2) by (simp_all add: es)
  have "map aev_Version es = [1..?v]"
    unfolding es map_map using f(1) by (intro map_idI) (auto simp: logged_def aev_key_def)
  moreover have "int (length es - 1) + 1 = ?v" using len by (cases es) auto
  then have "hd es = f 1" "last es = f ?v" using nth [of 0] nth [of "length es - 1"] len(2) by (simp_all add: hd_conv_nth last_conv_nth)
  moreover have "aev_FromStatus (es ! Suc i) = aev_ToStatus (es ! i) \<and> artifactStatusTransitionAllowed (aev_ToStatus (es ! i)) (aev_ToStatus (es ! Suc i))"
    if i: "Suc i < length es" for i
  proof -
    have "1 \<le> int i + 1 \<and> int i + 1 < ?v" using i len(1) by simp
    then have "aev_FromStatus (f (int i + 1 + 1)) = aev_ToStatus (f (int i + 1)) \<and>
        artifactStatusTransitionAllowed (aev_ToStatus (f (int i + 1))) (aev_ToStatus (f (int i + 1 + 1)))"
      using f(1) unfolding logged_def by blast
    then show ?thesis using nth [OF i] nth [of i] i by (simp add: add.commute)
  qed
  moreover have "aev_ToStatus (f 1) = ArtifactStatusPending" "aev_ToStatus (f ?v) = ar_Status a" using f(1) by (simp_all add: logged_def)
  ultimately show ?thesis using run_artifact_le [OF _ repo assms(2)] unfolding artifact_le_def by auto
qed

theorem artifact_log_complete_witness:
  "\<exists>r a. go_get (artifacts r) ''artifact_a'' = Some a \<and> map aev_Version (ListArtifactEvents ''artifact_a'' r) = [1..3] \<and>
     aev_ToStatus (last (ListArtifactEvents ''artifact_a'' r)) = ArtifactStatusDelivering"
proof -
  let ?r = "example_statuses [ArtifactStatusReady, ArtifactStatusDelivering] 1 example_created"
  have "map_option (\<lambda>a. (ar_StatusVersion a, ar_Status a)) (go_get (artifacts ?r) ''artifact_a'') = Some (3, ArtifactStatusDelivering)"
    by code_simp
  then obtain a where a: "go_get (artifacts ?r) ''artifact_a'' = Some a" "ar_StatusVersion a = 3" "ar_Status a = ArtifactStatusDelivering"
    by auto
  moreover have "TrimSpace ''artifact_a'' = ''artifact_a''" by code_simp
  ultimately show ?thesis using artifact_log_complete [OF example_artifact_run a(1) _ refl] by (intro exI [of _ ?r] exI [of _ a]) simp
qed

end
