(* ===== verification/Artifact_Service.thy ===== *)
theory Artifact_Service
  imports Artifact_Log
begin

text \<open>
  The artifact service, \<^verbatim>\<open>backend/internal/controlplane/artifact_service.go\<close>: creating artifacts and
  storing their content, reading it, checking the artifacts a request refers to, retention and deletion.

  The service holds the repository and the object stores, by driver. What a store does is the record
  \<open>'s store_ops\<close> of its operations; \<open>so_reads\<close> is what \<^verbatim>\<open>Put\<close> reads of its body. The operations of the
  in-memory store are \<open>memory_store_ops\<close>. The SHA-256 digest in hexadecimal is the parameter \<open>sha256\<close>.
  The random identifiers and the clock of a change of an artifact are \<open>ticks k v\<close>, for the change of the
  artifact \<open>k\<close> at version \<open>v\<close> (version 0 when it is created). The owner in an authentication context
  (\<^verbatim>\<open>aiJobOwnerFromAuth\<close>) is an argument. A value that is returned beside an error is not modelled.

  While content is uploaded a heartbeat renews the claim on the artifact. It is the list of what other
  callers do to the repository before each beat, \<open>beats\<close>. What they do after the last beat, and what they do
  to the store, before and after the content is put in place, is \<open>rest\<close>.
\<close>

section \<open>Stores\<close>

abbreviation (input) artifactIngestLease :: duration where "artifactIngestLease \<equiv> 2 * time_Minute"
abbreviation (input) ArtifactDefaultMaxBytes :: int where "ArtifactDefaultMaxBytes \<equiv> 10737418240"
abbreviation (input) ArtifactDefaultTTL :: duration where "ArtifactDefaultTTL \<equiv> 24 * time_Hour"

record 's store_ops =
  so_put :: "string \<Rightarrow> reader \<Rightarrow> int \<Rightarrow> 's \<Rightarrow> 's \<times> (store_error + int)"
  so_reads :: "string \<Rightarrow> reader \<Rightarrow> int \<Rightarrow> 's \<Rightarrow> string"
  so_open :: "string \<Rightarrow> ArtifactByteRange option \<Rightarrow> 's \<Rightarrow> store_error + ArtifactRead"
  so_delete :: "string \<Rightarrow> 's \<Rightarrow> 's \<times> store_error option"

fun reader_bytes :: "reader \<Rightarrow> string" where
  "reader_bytes NilReader = []"
| "reader_bytes (FailingReader data) = data"
| "reader_bytes (Reader data) = data"

definition store_reads :: "string \<Rightarrow> reader \<Rightarrow> int \<Rightarrow> MemoryArtifactStore \<Rightarrow> string" where
  "store_reads key body sizeBytes s = (if validateArtifactStoreWrite key body sizeBytes \<noteq> None then [] else reader_bytes body)"

definition memory_store_ops :: "MemoryArtifactStore store_ops" where
  "memory_store_ops = \<lparr>so_put = store_Put, so_reads = store_reads, so_open = store_Open, so_delete = store_Delete\<rparr>"

record 's artifact_service =
  as_repo :: MemoryRepository
  as_stores :: "'s gomap"
  as_primary :: string

text \<open>A store of the interface is its driver name and its state, \<^verbatim>\<open>nil\<close> is \<open>None\<close>.\<close>

definition SetArtifactStore :: "(string \<times> 's) option \<Rightarrow> 's artifact_service \<Rightarrow> 's artifact_service \<times> artifact_error option" where
  "SetArtifactStore store s =
     (case store of
        None \<Rightarrow> (s, Some ErrArtifactStoreRequired)
      | Some (name, st) \<Rightarrow>
          let driver = TrimSpace name in
          if \<not> oneOf driver [ArtifactStoreDriverMemory, ArtifactStoreDriverLocal, ArtifactStoreDriverS3, ArtifactStoreDriverOSS]
          then (s, Some (ArtifactInputError ''artifact store driver is not supported''))
          else (s\<lparr>as_stores := go_set driver st (as_stores s), as_primary := driver\<rparr>, None))"

definition artifactStore :: "string \<Rightarrow> 's artifact_service \<Rightarrow> 's option" where
  "artifactStore driver s = go_get (as_stores s) (TrimSpace driver)"

definition primaryArtifactStoreDriver :: "'s artifact_service \<Rightarrow> string \<times> bool" where
  "primaryArtifactStoreDriver s =
     (let driver = TrimSpace (as_primary s) in (driver, driver \<noteq> [] \<and> go_get (as_stores s) driver \<noteq> None))"

definition put_store :: "string \<Rightarrow> 's \<Rightarrow> 's artifact_service \<Rightarrow> 's artifact_service" where
  "put_store driver st s = s\<lparr>as_stores := go_set (TrimSpace driver) st (as_stores s)\<rparr>"

section \<open>Changing an artifact\<close>

type_synonym ticks = "string \<Rightarrow> int \<Rightarrow> string \<times> string \<times> gotime"
type_synonym 's artifact_result = "'s artifact_service \<times> (artifact_error + Artifact)"

definition transition_input :: "Artifact \<Rightarrow> string \<Rightarrow> string \<Rightarrow> ArtifactContentUpdate option \<Rightarrow> ArtifactTransitionInput" where
  "transition_input artifact toStatus reason content =
     \<lparr>ti_ArtifactID = ar_ID artifact, ti_ExpectedVersion = ar_StatusVersion artifact, ti_ToStatus = toStatus, ti_Reason = reason,
      ti_Content = content\<rparr>"

definition ticked_transition ::
  "ticks \<Rightarrow> ArtifactTransitionInput \<Rightarrow> MemoryRepository \<Rightarrow> MemoryRepository \<times> (artifact_error + Artifact option \<times> bool)" where
  "ticked_transition ticks input r =
     (case ticks (ti_ArtifactID input) (ti_ExpectedVersion input) of (eventID, outboxID, now) \<Rightarrow> TransitionArtifact eventID outboxID input now r)"

definition transitionArtifact ::
  "ticks \<Rightarrow> Artifact \<Rightarrow> string \<Rightarrow> string \<Rightarrow> ArtifactContentUpdate option \<Rightarrow> 's artifact_service \<Rightarrow> 's artifact_result" where
  "transitionArtifact ticks artifact toStatus reason content s =
     (case ticked_transition ticks (transition_input artifact toStatus reason content) (as_repo s) of
        (r, Inl e) \<Rightarrow> (s\<lparr>as_repo := r\<rparr>, Inl e)
      | (r, Inr (Some updated, True)) \<Rightarrow> (s\<lparr>as_repo := r\<rparr>, Inr updated)
      | (r, Inr _) \<Rightarrow> (s\<lparr>as_repo := r\<rparr>, Inl ErrArtifactStateConflict))"

type_synonym others = "MemoryRepository \<Rightarrow> MemoryRepository"

record 's meanwhile =
  mw_repo :: others
  mw_before :: "'s \<Rightarrow> 's"
  mw_after :: "'s \<Rightarrow> 's"

definition undisturbed :: "'s meanwhile" where
  "undisturbed = \<lparr>mw_repo = id, mw_before = id, mw_after = id\<rparr>"

text \<open>The loop of a heartbeat, until it is stopped or fails.\<close>

fun artifactStatusHeartbeat_run ::
  "ticks \<Rightarrow> string \<Rightarrow> string \<Rightarrow> others list \<Rightarrow> Artifact \<Rightarrow> MemoryRepository \<Rightarrow> MemoryRepository \<times> Artifact \<times> artifact_error option" where
  "artifactStatusHeartbeat_run ticks status reason [] current r = (r, current, None)"
| "artifactStatusHeartbeat_run ticks status reason (others # beats) current r =
     (case ticked_transition ticks (transition_input current status reason None) (others r) of
        (r', Inl e) \<Rightarrow> (r', current, Some e)
      | (r', Inr (Some updated, True)) \<Rightarrow> artifactStatusHeartbeat_run ticks status reason beats updated r'
      | (r', Inr _) \<Rightarrow> (r', current, Some ErrArtifactStateConflict))"

section \<open>Input\<close>

record ArtifactCreateInput =
  ci_ID :: string
  ci_OperationID :: string
  ci_JobID :: string
  ci_AttemptID :: string
  ci_SourceArtifactID :: string
  ci_Role :: string
  ci_Policy :: string
  ci_MediaType :: string
  ci_StoreDriver :: string
  ci_ExternalReference :: string
  ci_ExpectedSizeBytes :: int
  ci_ExpectedSHA256 :: string
  ci_MaxBytes :: int
  ci_RetainUntil :: gotime
  ci_Pending :: bool

abbreviation rune_range :: "char \<Rightarrow> char \<Rightarrow> char \<Rightarrow> bool" where
  "rune_range lo hi r \<equiv> lo \<le> r \<and> r \<le> hi"

definition validArtifactID :: "string \<Rightarrow> bool" where
  "validArtifactID k \<longleftrightarrow>
     has_prefix k ''artifact_'' \<and> length k \<le> 128 \<and>
     list_all (\<lambda>r. rune_range CHR ''a'' CHR ''z'' r \<or> rune_range CHR ''A'' CHR ''Z'' r \<or> rune_range CHR ''0'' CHR ''9'' r \<or>
       r = CHR ''_'' \<or> r = CHR ''-'') k"

definition resolveArtifactPolicyAndReferences ::
  "AIOperation \<Rightarrow> ArtifactCreateInput \<Rightarrow> MemoryRepository \<Rightarrow> artifact_error + string" where
  "resolveArtifactPolicyAndReferences operation input r =
     (let policy = artifactPolicySnapshot (op_ArtifactPolicy operation); requestedPolicy = TrimSpace (ci_Policy input);
          owner = artifactOwnerFromOperation operation
      in if requestedPolicy \<noteq> [] \<and> requestedPolicy \<noteq> policy
         then Inl (ArtifactInputError ''artifact policy must match the operation policy snapshot'')
         else and_then
           (if TrimSpace (ci_JobID input) = [] then Inr ()
            else (case FindAIJob (TrimSpace (ci_JobID input)) r of
                    None \<Rightarrow> Inl ErrArtifactNotFound
                  | Some job \<Rightarrow>
                      if job_OperationID job \<noteq> op_ID operation \<or> \<not> aiJobOwnerMatches job owner then Inl ErrArtifactNotFound
                      else if job_ArtifactPolicy job \<noteq> policy then Inl (ArtifactInputError ''artifact policy snapshots do not match'')
                      else Inr ()))
           (\<lambda>_. if TrimSpace (ci_AttemptID input) \<noteq> [] \<and>
                   (case FindAIAttempt (TrimSpace (ci_AttemptID input)) r of
                      None \<Rightarrow> True | Some attempt \<Rightarrow> at_OperationID attempt \<noteq> op_ID operation)
                then Inl ErrArtifactNotFound
                else if TrimSpace (ci_SourceArtifactID input) \<noteq> [] \<and>
                   (case FindArtifact (TrimSpace (ci_SourceArtifactID input)) r of
                      None \<Rightarrow> True | Some source \<Rightarrow> \<not> artifactOwnerMatches source owner)
                then Inl ErrArtifactNotFound
                else if \<not> validArtifactPolicy policy then Inl (ArtifactInputError ''artifact policy is required'')
                else Inr policy))"

definition validateArtifactCreateInput :: "ArtifactCreateInput \<Rightarrow> reader \<Rightarrow> gotime \<Rightarrow> artifact_error option" where
  "validateArtifactCreateInput input body now =
     (let driver = TrimSpace (ci_StoreDriver input) in
      if \<not> validArtifactRole (TrimSpace (ci_Role input)) \<or> ci_ExpectedSizeBytes input < - 1 \<or> ci_MaxBytes input < 0
      then Some (ArtifactInputError ''invalid artifact create input'')
      else if ci_RetainUntil input \<noteq> zero_time \<and> \<not> ci_RetainUntil input > now
      then Some (ArtifactInputError ''artifact retain_until must be in the future'')
      else if body = NilReader then
        (if ci_Pending input then
           (if ci_Role input \<noteq> ArtifactRoleInput \<or> driver \<noteq> ArtifactStoreDriverNone
            then Some (ArtifactInputError ''pending upload must be an input artifact without a content store'') else None)
         else if driver \<noteq> [] \<and> driver \<noteq> ArtifactStoreDriverNone
         then Some (ArtifactInputError ''metadata artifact cannot select a content store'')
         else if \<not> oneOf (TrimSpace (ci_Role input)) [ArtifactRoleMetadata, ArtifactRoleProviderReference] \<and>
            \<not> oneOf (ci_Policy input) [GatewayArtifactPolicyMetadataOnly, GatewayArtifactPolicyProxyOnly, GatewayArtifactPolicyCustomerSink]
         then Some ErrArtifactStoreRequired
         else if ci_Role input = ArtifactRoleProviderReference \<and> TrimSpace (ci_ExternalReference input) = []
         then Some (ArtifactInputError ''provider reference artifact requires an external reference'')
         else None)
      else if oneOf (ci_Policy input) [GatewayArtifactPolicyMetadataOnly, GatewayArtifactPolicyProxyOnly]
      then Some (ArtifactInputError ''artifact policy does not permit retained content'')
      else if \<not> oneOf driver [ArtifactStoreDriverMemory, ArtifactStoreDriverLocal, ArtifactStoreDriverS3, ArtifactStoreDriverOSS]
      then Some ErrArtifactStoreRequired
      else None)"

section \<open>Storing content\<close>

text \<open>\<^verbatim>\<open>io.LimitReader\<close>.\<close>

fun limit_reader :: "int \<Rightarrow> reader \<Rightarrow> reader" where
  "limit_reader n NilReader = NilReader"
| "limit_reader n (Reader data) = Reader (take (nat n) data)"
| "limit_reader n (FailingReader data) = (if n \<le> int (length data) then Reader (take (nat n) data) else FailingReader data)"

definition effective_max_bytes :: "ArtifactCreateInput \<Rightarrow> int" where
  "effective_max_bytes input = (if ci_MaxBytes input \<le> 0 then ArtifactDefaultMaxBytes else ci_MaxBytes input)"

definition verifyArtifactContent :: "ArtifactCreateInput \<Rightarrow> int \<Rightarrow> string \<Rightarrow> int \<Rightarrow> artifact_error option" where
  "verifyArtifactContent input actualSize actualSHA maxBytes =
     (let expectedSHA = ToLower (TrimSpace (ci_ExpectedSHA256 input)) in
      if actualSize > maxBytes then Some ErrArtifactTooLarge
      else if ci_ExpectedSizeBytes input > 0 \<and> actualSize \<noteq> ci_ExpectedSizeBytes input then Some ErrArtifactIntegrity
      else if expectedSHA \<noteq> [] \<and> expectedSHA \<noteq> actualSHA then Some ErrArtifactIntegrity
      else None)"

definition artifactFailureReason :: "bool \<Rightarrow> artifact_error option \<Rightarrow> string" where
  "artifactFailureReason storeErr verificationErr =
     (if verificationErr = Some ErrArtifactTooLarge then ''too_large''
      else if verificationErr \<noteq> None then ''integrity_failed''
      else if storeErr then ''store_write_failed'' else ''artifact_failed'')"

definition content_update :: "ArtifactCreateInput \<Rightarrow> int \<Rightarrow> string \<Rightarrow> string \<Rightarrow> string \<Rightarrow> ArtifactContentUpdate" where
  "content_update input n sha driver key =
     \<lparr>cu_MediaType = TrimSpace (ci_MediaType input), cu_SizeBytes = n, cu_SHA256 = sha, cu_StoreDriver = driver, cu_StoreKey = key,
      cu_ExternalReference = TrimSpace (ci_ExternalReference input)\<rparr>"

definition writeArtifactContent ::
  "'s store_ops \<Rightarrow> (string \<Rightarrow> string) \<Rightarrow> ticks \<Rightarrow> others list \<Rightarrow> 's meanwhile \<Rightarrow> Artifact \<Rightarrow> ArtifactCreateInput \<Rightarrow> reader \<Rightarrow> string \<Rightarrow> 's \<Rightarrow>
   's artifact_service \<Rightarrow> 's artifact_result" where
  "writeArtifactContent ops sha256 ticks beats rest uploading input body handle store0 s =
     (let storeKey = ar_StoreKey uploading; driver = ar_StoreDriver uploading; maxBytes = effective_max_bytes input;
          limited = limit_reader (wrap64 (maxBytes + 1)) body; store = mw_before rest store0;
          consumed = so_reads ops storeKey limited (- 1) store; total = int (length consumed)
      in case so_put ops storeKey limited (- 1) store of (put, stored) \<Rightarrow>
         (let store1 = mw_after rest put in
          case artifactStatusHeartbeat_run ticks ArtifactStatusUploading ''ingest_heartbeat'' beats uploading (as_repo s) of
            (r, _, Some e) \<Rightarrow> (put_store handle store1 (s\<lparr>as_repo := mw_repo rest r\<rparr>), Inl e)
          | (r, uploading, None) \<Rightarrow>
              let s1 = s\<lparr>as_repo := mw_repo rest r\<rparr>; actualSHA = sha256 consumed; content = content_update input total actualSHA driver storeKey;
                  verificationErr = verifyArtifactContent input total actualSHA maxBytes
              in (case (stored, verificationErr) of
                    (Inr _, None) \<Rightarrow> transitionArtifact ticks uploading ArtifactStatusReady [] (Some content) (put_store handle store1 s1)
                  | _ \<Rightarrow>
                      (case transitionArtifact ticks uploading ArtifactStatusFailed (artifactFailureReason (isl stored) verificationErr) (Some content)
                              (put_store handle (fst (so_delete ops storeKey store1)) s1) of
                         (s2, Inl e) \<Rightarrow> (s2, Inl e)
                       | (s2, Inr _) \<Rightarrow>
                           (s2, Inl (case verificationErr of Some e \<Rightarrow> e
                                     | None \<Rightarrow> (case stored of Inl e \<Rightarrow> ArtifactStoreError e | Inr _ \<Rightarrow> ErrArtifactUnavailable)))))))"

definition storeArtifactContent ::
  "'s store_ops \<Rightarrow> (string \<Rightarrow> string) \<Rightarrow> ticks \<Rightarrow> others list \<Rightarrow> 's meanwhile \<Rightarrow> Artifact \<Rightarrow> ArtifactCreateInput \<Rightarrow> reader \<Rightarrow>
   's artifact_service \<Rightarrow> 's artifact_result" where
  "storeArtifactContent ops sha256 ticks beats rest artifact input body s =
     (let driver = TrimSpace (ci_StoreDriver input) in
      case artifactStore driver s of
        None \<Rightarrow> (fst (transitionArtifact ticks artifact ArtifactStatusFailed ''store_unavailable'' None s), Inl ErrArtifactStoreRequired)
      | Some store \<Rightarrow>
          (case transitionArtifact ticks artifact ArtifactStatusUploading []
                  (Some (content_update input 0 [] driver (ar_ID artifact @ ''/content''))) s of
             (s1, Inl e) \<Rightarrow> (s1, Inl e)
           | (s1, Inr uploading) \<Rightarrow> writeArtifactContent ops sha256 ticks beats rest uploading input body driver store s1))"

definition resumeArtifactContent ::
  "'s store_ops \<Rightarrow> (string \<Rightarrow> string) \<Rightarrow> ticks \<Rightarrow> gotime \<Rightarrow> others list \<Rightarrow> 's meanwhile \<Rightarrow> Artifact \<Rightarrow> ArtifactCreateInput \<Rightarrow> reader \<Rightarrow>
   's artifact_service \<Rightarrow> 's artifact_result" where
  "resumeArtifactContent ops sha256 ticks now beats rest artifact input body s =
     (if body = NilReader then (s, Inl (ArtifactInputError ''artifact content reader is required''))
      else if oneOf (ar_Status artifact) [ArtifactStatusReady, ArtifactStatusDelivered] then (s, Inr artifact)
      else if \<not> oneOf (ar_Status artifact) [ArtifactStatusPending, ArtifactStatusUploading, ArtifactStatusFailed] then (s, Inl ErrArtifactUnavailable)
      else if ar_Status artifact = ArtifactStatusUploading \<and> ar_UpdatedAt artifact > now - artifactIngestLease
      then (s, Inl ErrArtifactIngestInProgress)
      else (let driver = (if ar_StoreDriver artifact \<noteq> ArtifactStoreDriverNone \<and> TrimSpace (ar_StoreDriver artifact) \<noteq> []
                          then ar_StoreDriver artifact else TrimSpace (ci_StoreDriver input))
            in case artifactStore driver s of
                 None \<Rightarrow> (s, Inl ErrArtifactStoreRequired)
               | Some store \<Rightarrow>
                   (case transitionArtifact ticks artifact ArtifactStatusUploading ''ingest_claimed''
                           (Some (content_update input 0 [] driver (ar_ID artifact @ ''/content''))) s of
                      (s1, Inl e) \<Rightarrow> (s1, Inl e)
                    | (s1, Inr uploading) \<Rightarrow>
                        writeArtifactContent ops sha256 ticks beats rest uploading (input\<lparr>ci_StoreDriver := driver\<rparr>) body driver store s1)))"

section \<open>Creating\<close>

text \<open>
  \<open>checkedAt\<close> and \<open>now\<close> are the two readings of the clock, \<open>randomID\<close> the random part of a new identifier.
\<close>

definition new_artifact ::
  "AIOperation \<Rightarrow> ArtifactCreateInput \<Rightarrow> string \<Rightarrow> string \<Rightarrow> gotime \<Rightarrow> Artifact" where
  "new_artifact operation input policy artifactID now =
     \<lparr>ar_ID = artifactID, ar_OperationID = op_ID operation, ar_JobID = TrimSpace (ci_JobID input),
      ar_AttemptID = TrimSpace (ci_AttemptID input), ar_SourceArtifactID = TrimSpace (ci_SourceArtifactID input),
      ar_ApplicationID = op_ApplicationID operation, ar_IntegrationID = op_IntegrationID operation,
      ar_PrincipalType = op_PrincipalType operation, ar_PrincipalID = op_PrincipalID operation,
      ar_ExternalSubjectReference = op_ExternalSubjectReference operation, ar_Role = TrimSpace (ci_Role input), ar_Policy = policy,
      ar_Status = ArtifactStatusPending, ar_StatusVersion = 1, ar_MediaType = TrimSpace (ci_MediaType input), ar_SizeBytes = 0,
      ar_SHA256 = [], ar_StoreDriver = ArtifactStoreDriverNone, ar_StoreKey = [], ar_ExternalReference = TrimSpace (ci_ExternalReference input),
      ar_ErrorType = [], ar_RetainUntil = (if ci_RetainUntil input = zero_time then now + ArtifactDefaultTTL else ci_RetainUntil input),
      ar_CreatedAt = now, ar_UpdatedAt = now, ar_ReadyAt = None, ar_DeliveredAt = None, ar_DeletedAt = None\<rparr>"

definition create_pending ::
  "ticks \<Rightarrow> string \<Rightarrow> gotime \<Rightarrow> gotime \<Rightarrow> ArtifactCreateInput \<Rightarrow> reader \<Rightarrow> 's artifact_service \<Rightarrow>
   's artifact_service \<times> (artifact_error + Artifact)" where
  "create_pending ticks randomID checkedAt now input body s =
     (case FindAIOperation (TrimSpace (ci_OperationID input)) (as_repo s) of
        None \<Rightarrow> (s, Inl ErrArtifactNotFound)
      | Some operation \<Rightarrow>
          (case resolveArtifactPolicyAndReferences operation input (as_repo s) of
             Inl e \<Rightarrow> (s, Inl e)
           | Inr policy \<Rightarrow>
               (case validateArtifactCreateInput (input\<lparr>ci_Policy := policy\<rparr>) body checkedAt of
                  Some e \<Rightarrow> (s, Inl e)
                | None \<Rightarrow>
                    let artifactID = (if TrimSpace (ci_ID input) = [] then ''artifact_'' @ randomID else TrimSpace (ci_ID input));
                        artifact = new_artifact operation input policy artifactID now;
                        (eventID, outboxID, _) = ticks artifactID 0
                    in if \<not> validArtifactID artifactID then (s, Inl (ArtifactInputError ''invalid artifact id''))
                       else (case newArtifactEventRecords eventID outboxID artifact [] [] now of
                               Inl e \<Rightarrow> (s, Inl e)
                             | Inr (event, outbox) \<Rightarrow>
                                 (case CreateArtifact artifact event outbox (as_repo s) of
                                    (r, Some e) \<Rightarrow> (s\<lparr>as_repo := r\<rparr>, Inl e)
                                  | (r, None) \<Rightarrow> (s\<lparr>as_repo := r\<rparr>, Inr artifact))))))"

definition CreatePendingArtifact ::
  "ticks \<Rightarrow> string \<Rightarrow> gotime \<Rightarrow> gotime \<Rightarrow> ArtifactCreateInput \<Rightarrow> 's artifact_service \<Rightarrow> 's artifact_result" where
  "CreatePendingArtifact ticks randomID checkedAt now input s =
     create_pending ticks randomID checkedAt now (input\<lparr>ci_Pending := True, ci_StoreDriver := ArtifactStoreDriverNone\<rparr>) NilReader s"

definition CreateArtifactFromReader ::
  "'s store_ops \<Rightarrow> (string \<Rightarrow> string) \<Rightarrow> ticks \<Rightarrow> others list \<Rightarrow> 's meanwhile \<Rightarrow> string \<Rightarrow> gotime \<Rightarrow> gotime \<Rightarrow> ArtifactCreateInput \<Rightarrow> reader \<Rightarrow>
   's artifact_service \<Rightarrow> 's artifact_result" where
  "CreateArtifactFromReader ops sha256 ticks beats rest randomID checkedAt now input body s =
     (case create_pending ticks randomID checkedAt now input body s of
        (s1, Inl e) \<Rightarrow> (s1, Inl e)
      | (s1, Inr artifact) \<Rightarrow>
          if body = NilReader then
            transitionArtifact ticks artifact ArtifactStatusReady []
              (Some \<lparr>cu_MediaType = ar_MediaType artifact, cu_SizeBytes = max 0 (ci_ExpectedSizeBytes input),
                     cu_SHA256 = ToLower (TrimSpace (ci_ExpectedSHA256 input)), cu_StoreDriver = ArtifactStoreDriverNone, cu_StoreKey = [],
                     cu_ExternalReference = ar_ExternalReference artifact\<rparr>) s1
          else storeArtifactContent ops sha256 ticks beats rest artifact input body s1)"

section \<open>Artifacts of a request\<close>

text \<open>The payload of a request, decoded from JSON by the parameter \<open>unmarshal\<close>.\<close>

datatype json = JNull | JBool bool | JNumber string | JString string | JArray "json list" | JObject "(string \<times> json) list"

definition append_id :: "json \<Rightarrow> string list \<Rightarrow> artifact_error + string list" where
  "append_id v ids =
     (case v of
        JString k \<Rightarrow>
          if TrimSpace k = [] then Inl ErrInvalidCanonicalRequest
          else if length ids + 1 > 32 then Inl ErrInvalidCanonicalRequest else Inr (ids @ [TrimSpace k])
      | _ \<Rightarrow> Inl ErrInvalidCanonicalRequest)"

fun append_ids :: "json list \<Rightarrow> string list \<Rightarrow> artifact_error + string list" where
  "append_ids [] ids = Inr ids"
| "append_ids (v # vs) ids = and_then (append_id v ids) (append_ids vs)"

fun walk :: "json \<Rightarrow> string list \<Rightarrow> artifact_error + string list"
  and walk_items :: "json list \<Rightarrow> string list \<Rightarrow> artifact_error + string list"
  and walk_fields :: "(string \<times> json) list \<Rightarrow> string list \<Rightarrow> artifact_error + string list" where
  "walk (JArray items) ids = walk_items items ids"
| "walk (JObject members) ids = walk_fields members ids"
| "walk JNull ids = Inr ids"
| "walk (JBool _) ids = Inr ids"
| "walk (JNumber _) ids = Inr ids"
| "walk (JString _) ids = Inr ids"
| "walk_items [] ids = Inr ids"
| "walk_items (item # items) ids = and_then (walk item ids) (walk_items items)"
| "walk_fields [] ids = Inr ids"
| "walk_fields ((key, item) # members) ids =
     and_then
       (if oneOf key [''artifact_id'', ''input_artifact_id''] then append_id item ids
        else if oneOf key [''artifact_ids'', ''input_artifact_ids'']
        then (case item of
                JArray vs \<Rightarrow> if length vs > 32 then Inl ErrInvalidCanonicalRequest else append_ids vs ids
              | _ \<Rightarrow> Inl ErrInvalidCanonicalRequest)
        else walk item ids)
       (walk_fields members)"

definition usable_input :: "AIJobOwner \<Rightarrow> gotime \<Rightarrow> MemoryRepository \<Rightarrow> string \<Rightarrow> bool" where
  "usable_input owner now r k =
     (case FindOwnedArtifact k owner r of
        None \<Rightarrow> False
      | Some artifact \<Rightarrow> ar_Role artifact = ArtifactRoleInput \<and>
          oneOf (ar_Status artifact) [ArtifactStatusReady, ArtifactStatusDelivered] \<and> artifactDownloadable artifact now)"

text \<open>The clock and the repository are read again for each reference: \<open>now i\<close> and \<open>r i\<close> are the readings for the \<open>i\<close>-th one.\<close>

definition ValidateInputArtifactsForAuth ::
  "(string \<Rightarrow> json option) \<Rightarrow> AIJobOwner \<Rightarrow> (nat \<Rightarrow> gotime) \<Rightarrow> string \<Rightarrow> (nat \<Rightarrow> MemoryRepository) \<Rightarrow> artifact_error option" where
  "ValidateInputArtifactsForAuth unmarshal owner now payload r =
     (if payload = [] then None
      else (case unmarshal payload of
              None \<Rightarrow> Some ErrInvalidCanonicalRequest
            | Some document \<Rightarrow>
                (case walk document [] of
                   Inl e \<Rightarrow> Some e
                 | Inr ids \<Rightarrow> if list_all (\<lambda>(i, k). usable_input owner (now i) (r i) k) (enumerate 0 ids) then None else Some ErrArtifactNotFound)))"

section \<open>Reading\<close>

definition ArtifactForAuth :: "AIJobOwner \<Rightarrow> string \<Rightarrow> 's artifact_service \<Rightarrow> Artifact option" where
  "ArtifactForAuth owner k s = FindOwnedArtifact (TrimSpace k) owner (as_repo s)"

definition ArtifactsForJobAndAuth :: "AIJobOwner \<Rightarrow> string \<Rightarrow> 's artifact_service \<Rightarrow> Artifact list option" where
  "ArtifactsForJobAndAuth owner jobID s =
     (case FindOwnedAIJob (TrimSpace jobID) owner (as_repo s) of
        None \<Rightarrow> None
      | Some _ \<Rightarrow>
          Some (QueryArtifacts \<lparr>aq_Owner = Some owner, aq_ApplicationID = [], aq_Search = [], aq_OperationID = [], aq_JobID = TrimSpace jobID,
            aq_AttemptID = [], aq_SourceArtifactID = [], aq_Role = [], aq_Policy = [], aq_Status = [], aq_RetainBefore = None, aq_Limit = 100,
            aq_Offset = 0\<rparr> (as_repo s)))"

text \<open>Content that is proxied from the provider comes from the parameter \<open>proxied\<close>.\<close>

definition openArtifactContent ::
  "'s store_ops \<Rightarrow> (Artifact \<Rightarrow> ArtifactByteRange option \<Rightarrow> artifact_error + ArtifactRead) \<Rightarrow> gotime \<Rightarrow> Artifact \<Rightarrow>
   ArtifactByteRange option \<Rightarrow> 's artifact_service \<Rightarrow> artifact_error + ArtifactRead" where
  "openArtifactContent ops proxied now artifact byteRange s =
     (if ar_Policy artifact = GatewayArtifactPolicyProxyOnly then proxied artifact byteRange
      else if \<not> artifactDownloadable artifact now then Inl ErrArtifactUnavailable
      else (case artifactStore (ar_StoreDriver artifact) s of
              None \<Rightarrow> Inl ErrArtifactStoreRequired
            | Some store \<Rightarrow> map_sum ArtifactStoreError id (so_open ops (ar_StoreKey artifact) byteRange store)))"

definition OpenArtifactForAuth ::
  "'s store_ops \<Rightarrow> (Artifact \<Rightarrow> ArtifactByteRange option \<Rightarrow> artifact_error + ArtifactRead) \<Rightarrow> gotime \<Rightarrow> AIJobOwner \<Rightarrow> string \<Rightarrow>
   ArtifactByteRange option \<Rightarrow> 's artifact_service \<Rightarrow> (Artifact \<times> (artifact_error + ArtifactRead)) option" where
  "OpenArtifactForAuth ops proxied now owner k byteRange s =
     map_option (\<lambda>artifact. (artifact, openArtifactContent ops proxied now artifact byteRange s)) (ArtifactForAuth owner k s)"

definition OpenArtifactAdmin ::
  "'s store_ops \<Rightarrow> (Artifact \<Rightarrow> ArtifactByteRange option \<Rightarrow> artifact_error + ArtifactRead) \<Rightarrow> gotime \<Rightarrow> string \<Rightarrow>
   ArtifactByteRange option \<Rightarrow> 's artifact_service \<Rightarrow> (Artifact \<times> (artifact_error + ArtifactRead)) option" where
  "OpenArtifactAdmin ops proxied now k byteRange s =
     map_option (\<lambda>artifact. (artifact, openArtifactContent ops proxied now artifact byteRange s)) (FindArtifact (TrimSpace k) (as_repo s))"

section \<open>Deletion and retention\<close>

definition RequestArtifactDeletionForAuth ::
  "ticks \<Rightarrow> AIJobOwner \<Rightarrow> string \<Rightarrow> 's artifact_service \<Rightarrow> 's artifact_service \<times> (artifact_error + Artifact) option" where
  "RequestArtifactDeletionForAuth ticks owner k s =
     (case ArtifactForAuth owner k s of
        None \<Rightarrow> (s, None)
      | Some artifact \<Rightarrow>
          if oneOf (ar_Status artifact) [ArtifactStatusDeleteRequested, ArtifactStatusDeleting, ArtifactStatusDeleted, ArtifactStatusDeleteFailed]
          then (s, Some (Inr artifact))
          else map_prod id Some (transitionArtifact ticks artifact ArtifactStatusDeleteRequested ''client_requested'' None s))"

definition status_query :: "string \<Rightarrow> gotime option \<Rightarrow> int \<Rightarrow> ArtifactQuery" where
  "status_query status before limit =
     \<lparr>aq_Owner = None, aq_ApplicationID = [], aq_Search = [], aq_OperationID = [], aq_JobID = [], aq_AttemptID = [], aq_SourceArtifactID = [],
      aq_Role = [], aq_Policy = [], aq_Status = status, aq_RetainBefore = before, aq_Limit = limit, aq_Offset = 0\<rparr>"

text \<open>A loop goes on, or returns with or without an error.\<close>

datatype flow = Continue | Return "artifact_error option"

definition retention_target :: "Artifact \<Rightarrow> string" where
  "retention_target artifact =
     (if oneOf (ar_Status artifact) [ArtifactStatusPending, ArtifactStatusUploading, ArtifactStatusFailed]
      then ArtifactStatusDeleteRequested else ArtifactStatusExpired)"

fun retain_artifacts :: "ticks \<Rightarrow> int \<Rightarrow> Artifact list \<Rightarrow> int \<Rightarrow> 's artifact_service \<Rightarrow> 's artifact_service \<times> int \<times> flow" where
  "retain_artifacts ticks limit [] processed s = (s, processed, Continue)"
| "retain_artifacts ticks limit (artifact # rest) processed s =
     (case transitionArtifact ticks artifact (retention_target artifact) ''retention_expired'' None s of
        (s1, Inl e) \<Rightarrow>
          if e \<noteq> ErrArtifactStateConflict then (s1, processed, Return (Some e))
          else if processed \<ge> limit then (s1, processed, Return None)
          else retain_artifacts ticks limit rest processed s1
      | (s1, Inr _) \<Rightarrow>
          if processed + 1 \<ge> limit then (s1, processed + 1, Return None)
          else retain_artifacts ticks limit rest (processed + 1) s1)"

fun retain_statuses :: "ticks \<Rightarrow> gotime \<Rightarrow> int \<Rightarrow> string list \<Rightarrow> int \<Rightarrow> 's artifact_service \<Rightarrow> 's artifact_service \<times> int \<times> artifact_error option" where
  "retain_statuses ticks now limit [] processed s = (s, processed, None)"
| "retain_statuses ticks now limit (status # statuses) processed s =
     (case retain_artifacts ticks limit (QueryArtifacts (status_query status (Some now) (limit - processed)) (as_repo s)) processed s of
        (s1, n, Return e) \<Rightarrow> (s1, n, e)
      | (s1, n, Continue) \<Rightarrow> retain_statuses ticks now limit statuses n s1)"

definition RunArtifactRetentionOnce ::
  "ticks \<Rightarrow> gotime \<Rightarrow> int \<Rightarrow> 's artifact_service \<Rightarrow> 's artifact_service \<times> int \<times> artifact_error option" where
  "RunArtifactRetentionOnce ticks now limit s =
     (if limit \<le> 0 then (s, 0, None)
      else retain_statuses ticks now limit
        [ArtifactStatusReady, ArtifactStatusDelivered, ArtifactStatusDeliveryFailed, ArtifactStatusPending, ArtifactStatusUploading,
         ArtifactStatusFailed] 0 s)"

definition deleteArtifactContent ::
  "'s store_ops \<Rightarrow> Artifact \<Rightarrow> 's artifact_service \<Rightarrow> 's artifact_service \<times> artifact_error option" where
  "deleteArtifactContent ops artifact s =
     (if ar_StoreDriver artifact = ArtifactStoreDriverNone \<or> TrimSpace (ar_StoreKey artifact) = [] then (s, None)
      else (case artifactStore (ar_StoreDriver artifact) s of
              None \<Rightarrow> (s, Some ErrArtifactStoreRequired)
            | Some store \<Rightarrow>
                (case so_delete ops (ar_StoreKey artifact) store of
                   (store1, e) \<Rightarrow> (put_store (ar_StoreDriver artifact) store1 s, map_option ArtifactStoreError e))))"

text \<open>One candidate of the deletion worker: skipped, failed, or claimed and deleted.\<close>

datatype claim_result = Skip | Fail artifact_error | Claimed Artifact

definition claim_deletion :: "ticks \<Rightarrow> Artifact \<Rightarrow> 's artifact_service \<Rightarrow> 's artifact_service \<times> claim_result" where
  "claim_deletion ticks candidate s =
     (let step = (\<lambda>a toStatus reason s. case transitionArtifact ticks a toStatus reason None s of
            (s1, Inl e) \<Rightarrow> (s1, if e = ErrArtifactStateConflict then Skip else Fail e)
          | (s1, Inr updated) \<Rightarrow> (s1, Claimed updated));
          first = (if ar_Status candidate = ArtifactStatusExpired
                   then step candidate ArtifactStatusDeleteRequested ''retention_cleanup'' s else (s, Claimed candidate))
      in case first of
           (s1, Claimed a) \<Rightarrow> step a ArtifactStatusDeleting ''worker_claimed'' s1
         | (s1, x) \<Rightarrow> (s1, x))"

fun delete_artifacts :: "'s store_ops \<Rightarrow> ticks \<Rightarrow> int \<Rightarrow> Artifact list \<Rightarrow> int \<Rightarrow> 's artifact_service \<Rightarrow> 's artifact_service \<times> int \<times> flow" where
  "delete_artifacts ops ticks limit [] processed s = (s, processed, Continue)"
| "delete_artifacts ops ticks limit (candidate # rest) processed s =
     (case claim_deletion ticks candidate s of
        (s1, Skip) \<Rightarrow> delete_artifacts ops ticks limit rest processed s1
      | (s1, Fail e) \<Rightarrow> (s1, processed, Return (Some e))
      | (s1, Claimed deleting) \<Rightarrow>
          (case deleteArtifactContent ops deleting s1 of
             (s2, deleteErr) \<Rightarrow>
               (case transitionArtifact ticks deleting (if deleteErr = None then ArtifactStatusDeleted else ArtifactStatusDeleteFailed)
                       (if deleteErr = None then [] else ''store_delete_failed'') None s2 of
                  (s3, x) \<Rightarrow>
                    if isl x \<and> projl x \<noteq> ErrArtifactStateConflict then (s3, processed, Return (Some (projl x)))
                    else if deleteErr \<noteq> None then (s3, processed + 1, Return deleteErr)
                    else if processed + 1 \<ge> limit then (s3, processed + 1, Return None)
                    else delete_artifacts ops ticks limit rest (processed + 1) s3)))"

fun delete_statuses :: "'s store_ops \<Rightarrow> ticks \<Rightarrow> int \<Rightarrow> string list \<Rightarrow> int \<Rightarrow> 's artifact_service \<Rightarrow> 's artifact_service \<times> int \<times> artifact_error option" where
  "delete_statuses ops ticks limit [] processed s = (s, processed, None)"
| "delete_statuses ops ticks limit (status # statuses) processed s =
     (case delete_artifacts ops ticks limit (QueryArtifacts (status_query status None (limit - processed)) (as_repo s)) processed s of
        (s1, n, Return e) \<Rightarrow> (s1, n, e)
      | (s1, n, Continue) \<Rightarrow> delete_statuses ops ticks limit statuses n s1)"

definition RunArtifactDeletionWorkerOnce ::
  "'s store_ops \<Rightarrow> ticks \<Rightarrow> int \<Rightarrow> 's artifact_service \<Rightarrow> 's artifact_service \<times> int \<times> artifact_error option" where
  "RunArtifactDeletionWorkerOnce ops ticks limit s =
     (if limit \<le> 0 then (s, 0, None)
      else delete_statuses ops ticks limit [ArtifactStatusDeleteRequested, ArtifactStatusDeleteFailed, ArtifactStatusExpired] 0 s)"

section \<open>One change\<close>

lemma trim_artifact_status [simp]:
  "TrimSpace ArtifactStatusUploading = ArtifactStatusUploading" "TrimSpace ArtifactStatusReady = ArtifactStatusReady"
  "TrimSpace ArtifactStatusFailed = ArtifactStatusFailed" "TrimSpace ArtifactStatusExpired = ArtifactStatusExpired"
  "TrimSpace ArtifactStatusDelivering = ArtifactStatusDelivering" "TrimSpace ArtifactStatusDelivered = ArtifactStatusDelivered"
  "TrimSpace ArtifactStatusDeliveryFailed = ArtifactStatusDeliveryFailed" "TrimSpace ArtifactStatusPending = ArtifactStatusPending"
  "TrimSpace ArtifactStatusDeleteRequested = ArtifactStatusDeleteRequested" "TrimSpace ArtifactStatusDeleting = ArtifactStatusDeleting"
  "TrimSpace ArtifactStatusDeleted = ArtifactStatusDeleted" "TrimSpace ArtifactStatusDeleteFailed = ArtifactStatusDeleteFailed"
  by code_simp+

abbreviation stored :: "'s artifact_service \<Rightarrow> string \<Rightarrow> Artifact option" where
  "stored s k \<equiv> go_get (artifacts (as_repo s)) k"

text \<open>The change of the artifact \<open>old\<close> to \<open>updated\<close>, with its content changed to that of \<open>b\<close> before.\<close>

definition change_of :: "Artifact \<Rightarrow> string \<Rightarrow> ArtifactContentUpdate option \<Rightarrow> Artifact \<Rightarrow> bool" where
  "change_of old toStatus content updated \<longleftrightarrow>
     (\<exists>b reason at. (case content of None \<Rightarrow> b = old | Some c \<Rightarrow> content_updatable (ar_Status old) toStatus \<and> applyArtifactContentUpdate old c = Inr b) \<and>
        artifactStatusTransitionAllowed (ar_Status old) toStatus \<and> updated = transitioned_artifact b toStatus reason at)"

lemma change_of_sel:
  assumes "change_of old toStatus content updated"
  shows "ar_Status updated = toStatus" "artifact_identity updated = artifact_identity old" "ar_ID updated = ar_ID old"
    "ar_StatusVersion updated = ar_StatusVersion old + 1" "artifactStatusTransitionAllowed (ar_Status old) toStatus"
    "content = None \<Longrightarrow> ar_StoreDriver updated = ar_StoreDriver old"
    "content = None \<Longrightarrow> toStatus \<noteq> ArtifactStatusDeleted \<Longrightarrow> ar_StoreKey updated = ar_StoreKey old"
proof -
  obtain b reason at where b: "case content of None \<Rightarrow> b = old | Some c \<Rightarrow> content_updatable (ar_Status old) toStatus \<and> applyArtifactContentUpdate old c = Inr b"
    and u: "artifactStatusTransitionAllowed (ar_Status old) toStatus" "updated = transitioned_artifact b toStatus reason at"
    using assms by (auto simp: change_of_def)
  have "artifact_identity b = artifact_identity old \<and> ar_ID b = ar_ID old \<and> ar_StatusVersion b = ar_StatusVersion old"
    using b applyContent_same by (cases content) auto
  then show "ar_Status updated = toStatus" "artifact_identity updated = artifact_identity old" "ar_ID updated = ar_ID old"
    "ar_StatusVersion updated = ar_StatusVersion old + 1" "artifactStatusTransitionAllowed (ar_Status old) toStatus"
    "content = None \<Longrightarrow> ar_StoreDriver updated = ar_StoreDriver old"
    "content = None \<Longrightarrow> toStatus \<noteq> ArtifactStatusDeleted \<Longrightarrow> ar_StoreKey updated = ar_StoreKey old"
    using u b by simp_all
qed

lemma transition_service:
  assumes "artifacts_inv (as_repo s)" "transitionArtifact ticks a toStatus reason content s = (s', x)"
  obtains (refused) e where "s' = s" "x = Inl e"
    | (changed) old updated r' where "x = Inr updated" "s' = s\<lparr>as_repo := r'\<rparr>" "stored s (ar_ID old) = Some old"
        "ar_ID old = TrimSpace (ar_ID a)" "ar_StatusVersion old = ar_StatusVersion a" "change_of old (TrimSpace toStatus) content updated"
        "artifacts r' = go_set (ar_ID old) updated (artifacts (as_repo s))" "artifacts_inv r'"
proof -
  obtain eventID outboxID now where t: "ticks (ar_ID a) (ar_StatusVersion a) = (eventID, outboxID, now)" by (metis prod_cases3)
  let ?in = "transition_input a toStatus reason content"
  obtain r' y where y: "TransitionArtifact eventID outboxID ?in now (as_repo s) = (r', y)" by fastforce
  have ti: "ticked_transition ticks ?in (as_repo s) = (r', y)" using t y by (simp add: ticked_transition_def transition_input_def)
  from assms(1) y show ?thesis
  proof (cases rule: TransitionArtifact_cases)
    case refused
    then have "s' = s \<and> isl x"
      using assms(2) ti unfolding transitionArtifact_def by (auto split: sum.splits option.splits bool.splits)
    then show ?thesis using that(1) by (cases x) auto
  next
    case (changed old b updated event outbox)
    have x: "x = Inr updated" "s' = s\<lparr>as_repo := r'\<rparr>" using assms(2) ti changed(12,13) by (simp_all add: transitionArtifact_def)
    have id: "ar_ID updated = ar_ID old" using changed(6,7) by (simp add: artifact_identity_def)
    have "artifacts_inv (table_change updated event (as_repo s))" by (rule artifact_step_inv [OF changed(10) assms(1)])
    then have "artifacts_inv r'" by (rule artifacts_inv_mono) (simp_all add: changed(12) table_change_def)
    moreover have "change_of old (TrimSpace toStatus) content updated"
      unfolding change_of_def using changed(4-6) by (auto simp: transition_input_def split: option.splits)
    ultimately show ?thesis using that(2) [OF x changed(1)] changed(2,3,12) id by (simp add: transition_input_def)
  qed
qed

lemma transition_call: "repo_call hash (as_repo s) (as_repo (fst (transitionArtifact ticks a toStatus reason content s)))"
proof -
  have "as_repo (fst (transitionArtifact ticks a toStatus reason content s)) =
      fst (ticked_transition ticks (transition_input a toStatus reason content) (as_repo s))"
    by (simp add: transitionArtifact_def split: prod.splits sum.splits option.splits bool.splits)
  then show ?thesis by (simp add: ticked_transition_def repo_call.transition_artifact split: prod.splits)
qed

text \<open>A batch of artifacts a loop works on: as they are stored, and different.\<close>

definition batch :: "'s artifact_service \<Rightarrow> Artifact list \<Rightarrow> bool" where
  "batch s as \<longleftrightarrow> distinct (map ar_ID as) \<and> (\<forall>a \<in> set as. stored s (ar_ID a) = Some a)"

lemma batch_step:
  assumes "batch s (a # as)" "artifacts (as_repo s') = go_set (ar_ID a) b (artifacts (as_repo s)) \<or> artifacts (as_repo s') = artifacts (as_repo s)"
  shows "batch s' as"
  using assms by (auto simp: batch_def image_iff)

lemma query_batch:
  assumes "artifacts_inv (as_repo s)"
  shows "batch s (QueryArtifacts q (as_repo s))" "a \<in> set (QueryArtifacts q (as_repo s)) \<Longrightarrow> artifactMatchesQuery a q"
proof -
  let ?L = "filter (\<lambda>artifact. artifactMatchesQuery artifact q) (go_values (artifacts (as_repo s)))"
  have table: "table ar_ID (artifact_ok (as_repo s)) (artifacts (as_repo s))" using assms by (simp add: artifacts_inv_def)
  have "distinct (map ar_ID ?L)" using keyed_distinct_values [OF table_keyed [OF table]] by (simp add: distinct_map_filter del: map_map)
  moreover have "mset (map ar_ID (sort_by artifact_less ?L)) = mset (map ar_ID ?L)" by (metis mset_map mset_sort_by)
  ultimately have d: "distinct (map ar_ID (sort_by artifact_less ?L))" using mset_eq_imp_distinct_iff by blast
  have sub: "set (QueryArtifacts q (as_repo s)) \<subseteq> set ?L"
    unfolding QueryArtifacts_def paginateArtifacts_def Let_def
    by (cases "int (length (sort_by artifact_less ?L)) \<le> nonNegative (aq_Offset q)") (auto dest!: in_set_takeD in_set_dropD simp del: filter_map)
  have "distinct (map ar_ID (QueryArtifacts q (as_repo s)))"
    using d unfolding QueryArtifacts_def paginateArtifacts_def Let_def by (simp add: take_map [symmetric] drop_map [symmetric])
  then show "batch s (QueryArtifacts q (as_repo s))"
    using sub table_values [OF table] unfolding batch_def by auto
  show "a \<in> set (QueryArtifacts q (as_repo s)) \<Longrightarrow> artifactMatchesQuery a q" using sub by auto
qed

lemma status_query_match:
  assumes "TrimSpace status = status" "status \<noteq> []"
  shows "artifactMatchesQuery a (status_query status before n) \<longleftrightarrow> ar_Status a = status \<and> (case before of None \<Rightarrow> True | Some t \<Rightarrow> ar_RetainUntil a \<le> t)"
proof -
  have "TrimSpace [] = []" "ToLower [] = []" by code_simp+
  then show ?thesis using assms by (auto simp: artifactMatchesQuery_def status_query_def Let_def split: option.splits)
qed

lemma query_nonempty:
  assumes "artifacts_inv (as_repo s)" "stored s k = Some a" "artifactMatchesQuery a (status_query status before n)"
  shows "QueryArtifacts (status_query status before n) (as_repo s) \<noteq> []"
proof -
  have "a \<in> set (go_values (artifacts (as_repo s)))" using assms(2) by (force dest: map_of_SomeD)
  then have "filter (\<lambda>x. artifactMatchesQuery x (status_query status before n)) (go_values (artifacts (as_repo s))) \<noteq> []"
    using assms(3) by (auto simp: filter_empty_conv)
  moreover have "paginateArtifacts items n 0 \<noteq> []" if "items \<noteq> []" for items
    using that by (simp add: paginateArtifacts_def nonNegative_def artifactQueryLimit_def)
  ultimately show ?thesis by (simp add: QueryArtifacts_def status_query_def del: filter_map)
qed

section \<open>Identifiers of the service\<close>

lemma TrimSpace_all_graphic: "list_all graphic s \<Longrightarrow> TrimSpace s = s"
proof -
  assume s: "list_all graphic s"
  have "space_len_rev (c # t) = 0" if "graphic c" for c t
    by (cases "c # t" rule: space_len_rev.cases) (use that in \<open>auto simp: graphic_no_space\<close>)
  then have "space_len_rev (rev s) = 0" using s by (cases "rev s") (auto simp: list_all_iff)
  moreover have "space_len s = 0" using s by (cases s) (simp_all add: space_len_graphic)
  ultimately show ?thesis by (simp add: TrimSpace_def trim_left_id trim_left_rev_id)
qed

lemma validArtifactID_graphic: "validArtifactID k \<Longrightarrow> list_all graphic k"
  by (auto simp: validArtifactID_def list_all_iff graphic_def less_eq_char_def)

lemma validArtifactID_trim: "validArtifactID k \<Longrightarrow> TrimSpace k = k"
  by (simp add: TrimSpace_all_graphic validArtifactID_graphic)

text \<open>The artifacts of the service have the identifiers it makes or accepts.\<close>

definition service_ids :: "'s artifact_service \<Rightarrow> bool" where
  "service_ids s \<longleftrightarrow> (\<forall>k a. stored s k = Some a \<longrightarrow> validArtifactID k)"

text \<open>A change of an artifact of a batch.\<close>

lemma batch_transition:
  assumes "artifacts_inv (as_repo s)" "service_ids s" "batch s (a # as)" "transitionArtifact ticks a toStatus reason content s = (s', x)"
  obtains (refused) e where "s' = s" "x = Inl e"
    | (changed) updated r' where "x = Inr updated" "s' = s\<lparr>as_repo := r'\<rparr>" "change_of a (TrimSpace toStatus) content updated"
        "artifacts r' = go_set (ar_ID a) updated (artifacts (as_repo s))" "artifacts_inv r'" "service_ids s'" "batch s' as"
        "batch s' (updated # as)"
  using assms(1,4)
proof (cases rule: transition_service)
  case (changed old updated r')
  have a: "stored s (ar_ID a) = Some a" using assms(3) by (simp add: batch_def)
  then have "old = a" using changed(3,4) validArtifactID_trim assms(2) unfolding service_ids_def by fastforce
  note u = changed [unfolded this]
  have "service_ids s'" using assms(2) a u(2,7) by (auto simp: service_ids_def split: if_splits)
  moreover have "batch s' as" using batch_step [OF assms(3), of s' updated] u(2,7) by simp
  moreover from this have "batch s' (updated # as)" using assms(3) change_of_sel(3) [OF u(6)] u(2,7) by (auto simp: batch_def)
  ultimately show ?thesis using that(2) u by blast
qed (rule that(1))

end
