(* ===== verification/Artifact_Lifecycle.thy ===== *)
theory Artifact_Lifecycle
  imports Artifact_Service
begin

text \<open>
  The end of artifacts: what the retention run and the deletion worker of
  \<^verbatim>\<open>backend/internal/controlplane/artifact_service.go\<close> change, and what they do not.
\<close>

section \<open>Retention\<close>

definition retained :: "'s artifact_service \<Rightarrow> Artifact list \<Rightarrow> 's artifact_service \<Rightarrow> bool" where
  "retained s as s' \<longleftrightarrow> artifacts_inv (as_repo s') \<and> service_ids s' \<and> as_stores s' = as_stores s \<and>
     (\<forall>k. stored s' k = stored s k \<or>
        (\<exists>a \<in> set as. \<exists>a'. k = ar_ID a \<and> stored s k = Some a \<and> stored s' k = Some a' \<and> change_of a (retention_target a) None a'))"

text \<open>The number of artifacts that differ in two states.\<close>

definition differing :: "'s artifact_service \<Rightarrow> 's artifact_service \<Rightarrow> string set" where
  "differing s s' = {k. stored s' k \<noteq> stored s k}"

definition differ_by :: "'s artifact_service \<Rightarrow> 's artifact_service \<Rightarrow> int \<Rightarrow> bool" where
  "differ_by s s' m \<longleftrightarrow> finite (differing s s') \<and> int (card (differing s s')) = m"

lemma differ_by_refl [simp]: "differ_by s s m \<longleftrightarrow> m = 0"
  by (auto simp: differ_by_def differing_def)

lemma differ_by_trans:
  assumes "differ_by s s1 m" "differ_by s1 s2 n" "differing s s1 \<inter> differing s1 s2 = {}"
  shows "differ_by s s2 (m + n)"
proof -
  have "k \<in> differing s s2 \<longleftrightarrow> k \<in> differing s s1 \<or> k \<in> differing s1 s2" for k
    using assms(3) [unfolded disjoint_iff, rule_format, of k] by (auto simp: differing_def)
  then have "differing s s2 = differing s s1 \<union> differing s1 s2" by blast
  then show ?thesis using assms by (simp add: differ_by_def card_Un_disjoint)
qed

lemma differ_by_one:
  assumes "artifacts (as_repo s') = go_set k a (artifacts (as_repo s))" "stored s k \<noteq> Some a"
  shows "differing s s' = {k}" "differ_by s s' 1"
  using assms by (auto simp: differing_def differ_by_def)

lemma trim_retention_target [simp]: "TrimSpace (retention_target a) = retention_target a"
  by (simp add: retention_target_def)

lemma retain_artifacts_retained:
  assumes "artifacts_inv (as_repo s)" "service_ids s" "batch s as" "retain_artifacts ticks limit as n s = (s', n', fl)" "n < limit"
  shows "retained s as s' \<and> differ_by s s' (n' - n) \<and> n \<le> n' \<and> n' \<le> limit \<and> (fl = Continue \<longrightarrow> n' < limit) \<and> (fl = Return None \<longrightarrow> n' \<ge> limit)"
  using assms
proof (induction as arbitrary: s n)
  case Nil
  then show ?case by (auto simp: retained_def)
next
  case (Cons a as)
  obtain s1 x where t: "transitionArtifact ticks a (retention_target a) ''retention_expired'' None s = (s1, x)" by fastforce
  from Cons.prems(1-3) t show ?case
  proof (cases rule: batch_transition)
    case (refused e)
    show ?thesis
    proof (cases "e = ErrArtifactStateConflict")
      case True
      have "batch s as" using Cons.prems(3) by (auto simp: batch_def)
      then show ?thesis using Cons.IH [of s n] Cons.prems refused t True by (auto simp: retained_def)
    qed (use Cons.prems refused t in \<open>auto simp: retained_def\<close>)
  next
    case (changed updated r')
    have here: "stored s (ar_ID a) = Some a" using Cons.prems(3) by (simp add: batch_def)
    have rest: "retained s (a # as) s'" if "retained s1 as s'"
      using that changed(2,4) changed(3) here Cons.prems(3) unfolding retained_def batch_def by (auto split: if_splits) metis+
    have now: "retained s1 as s1" using changed by (auto simp: retained_def)
    have "a \<noteq> updated" using change_of_sel(4) [OF changed(3)] by auto
    then have one: "differing s s1 = {ar_ID a}" "differ_by s s1 1"
      using differ_by_one [of s1 "ar_ID a" updated s] changed(2,4) here by auto
    have count: "differ_by s s' (m + 1)" if "retained s1 as s'" "differ_by s1 s' m" for m
    proof -
      have "ar_ID a \<notin> differing s1 s'" using that(1) Cons.prems(3) by (force simp: retained_def batch_def differing_def)
      then show ?thesis using differ_by_trans [OF one(2) that(2)] one(1) by (simp add: add.commute)
    qed
    show ?thesis
    proof (cases "n + 1 \<ge> limit")
      case True
      then show ?thesis using Cons.prems(4,5) t changed(1) rest now one(2) by auto
    next
      case False
      then have "retain_artifacts ticks limit as (n + 1) s1 = (s', n', fl)" using Cons.prems(4) t changed(1) by simp
      then show ?thesis using Cons.IH [of s1 "n + 1"] changed False rest count [of "n' - (n + 1)"] by auto
    qed
  qed
qed

definition retained_due :: "gotime \<Rightarrow> string set \<Rightarrow> 's artifact_service \<Rightarrow> 's artifact_service \<Rightarrow> bool" where
  "retained_due now S s s' \<longleftrightarrow> artifacts_inv (as_repo s') \<and> service_ids s' \<and> as_stores s' = as_stores s \<and>
     (\<forall>k. stored s' k = stored s k \<or>
        (\<exists>a a'. stored s k = Some a \<and> stored s' k = Some a' \<and> ar_RetainUntil a \<le> now \<and> ar_Status a \<in> S \<and>
           change_of a (retention_target a) None a'))"

abbreviation retention_statuses :: "string list" where
  "retention_statuses \<equiv> [ArtifactStatusReady, ArtifactStatusDelivered, ArtifactStatusDeliveryFailed, ArtifactStatusPending, ArtifactStatusUploading,
     ArtifactStatusFailed]"

lemma retention_status:
  assumes "status \<in> set retention_statuses"
  shows "TrimSpace status = status" "status \<noteq> []" "retention_target a \<noteq> status"
proof -
  show "TrimSpace status = status" using assms by auto
  show "status \<noteq> []" "retention_target a \<noteq> status" using assms by (auto simp: retention_target_def artifact_status_defs)
qed

lemma retain_stage:
  assumes "artifacts_inv (as_repo s)" "service_ids s" "n < limit" "status \<in> set retention_statuses"
    and "retain_artifacts ticks limit (QueryArtifacts (status_query status (Some now) (limit - n)) (as_repo s)) n s = (s', n', fl)"
  shows "retained_due now {status} s s' \<and> differ_by s s' (n' - n) \<and> n \<le> n' \<and> n' \<le> limit \<and> (fl = Continue \<longrightarrow> n' < limit) \<and> (fl = Return None \<longrightarrow> n' \<ge> limit)"
proof -
  let ?q = "status_query status (Some now) (limit - n)"
  have match: "a \<in> set (QueryArtifacts ?q (as_repo s)) \<Longrightarrow> ar_Status a = status \<and> ar_RetainUntil a \<le> now" for a
    using query_batch(2) [OF assms(1), of a ?q] status_query_match [OF retention_status(1,2) [OF assms(4)], of a "Some now" "limit - n"] by simp
  note r = retain_artifacts_retained [OF assms(1,2) query_batch(1) [OF assms(1)] assms(5,3)]
  then have "retained_due now {status} s s'" using match unfolding retained_def retained_due_def by blast
  with r show ?thesis by blast
qed

lemma retained_dueD:
  assumes "retained_due now S s s'"
  shows "artifacts_inv (as_repo s') \<and> service_ids s' \<and> as_stores s' = as_stores s"
    and "stored s' k = stored s k \<or>
      (\<exists>a a'. stored s k = Some a \<and> stored s' k = Some a' \<and> ar_RetainUntil a \<le> now \<and> ar_Status a \<in> S \<and> change_of a (retention_target a) None a')"
  using assms unfolding retained_due_def by blast+

lemma retained_due_trans:
  assumes "retained_due now {status} s s1" "retained_due now S s1 s2" "insert status S \<subseteq> set retention_statuses"
  shows "retained_due now (insert status S) s s2" "differing s s1 \<inter> differing s1 s2 = {}"
proof -
  note first = retained_dueD [OF assms(1)] and second = retained_dueD [OF assms(2)]
  have moved: "stored s2 k = stored s1 k \<and> (\<exists>a a'. stored s k = Some a \<and> stored s1 k = Some a' \<and> ar_RetainUntil a \<le> now \<and> ar_Status a = status \<and>
           change_of a (retention_target a) None a')" if "stored s1 k \<noteq> stored s k" for k
  proof -
    from that first(2) [of k] obtain a a' where a: "stored s k = Some a" "stored s1 k = Some a'" "ar_RetainUntil a \<le> now" "ar_Status a = status"
        "change_of a (retention_target a) None a'" by auto
    have "retention_target a \<noteq> x" if "x \<in> S" for x
      by (rule retention_status(3), rule subsetD [OF assms(3)], rule insertI2, rule that)
    then have "ar_Status a' \<notin> S" using change_of_sel(1) [OF a(5)] by auto
    then have "stored s2 k = stored s1 k" using second(2) [of k] a(2) by auto
    then show ?thesis using a by simp
  qed
  then show "differing s s1 \<inter> differing s1 s2 = {}" by (auto simp: differing_def)
  have "stored s2 k = stored s k \<or> (\<exists>a a'. stored s k = Some a \<and> stored s2 k = Some a' \<and> ar_RetainUntil a \<le> now \<and> ar_Status a \<in> insert status S \<and>
           change_of a (retention_target a) None a')" for k
  proof (cases "stored s1 k = stored s k")
    case True
    from second(2) [of k, unfolded True] show ?thesis by (elim disj_forward ex_forward conj_forward) simp_all
  qed (use moved [of k] in auto)
  then show "retained_due now (insert status S) s s2" unfolding retained_due_def using first(1) second(1) by (intro conjI allI) simp_all
qed

lemma retain_statuses_due:
  assumes "artifacts_inv (as_repo s)" "service_ids s" "n < limit" "set statuses \<subseteq> set retention_statuses"
    and "retain_statuses ticks now limit statuses n s = (s', n', e)"
  shows "retained_due now (set statuses) s s' \<and> differ_by s s' (n' - n) \<and> n \<le> n' \<and> n' \<le> limit"
  using assms
proof (induction statuses arbitrary: s n)
  case Nil
  then show ?case by (simp add: retained_due_def)
next
  case (Cons status statuses)
  obtain s1 n1 fl where st: "retain_artifacts ticks limit (QueryArtifacts (status_query status (Some now) (limit - n)) (as_repo s)) n s = (s1, n1, fl)"
    by (metis prod_cases3)
  have stage: "retained_due now {status} s s1" "n \<le> n1" "n1 \<le> limit" "fl = Continue \<Longrightarrow> n1 < limit" "differ_by s s1 (n1 - n)"
    using retain_stage [OF Cons.prems(1-3) _ st] Cons.prems(4) by auto
  show ?case
  proof (cases fl)
    case Continue
    have rest: "retained_due now (set statuses) s1 s'" "differ_by s1 s' (n' - n1)" "n1 \<le> n'" "n' \<le> limit"
      using Cons.IH [of s1 n1] Cons.prems(4,5) stage(1,4) st Continue by (simp_all add: retained_due_def)
    note both = retained_due_trans [OF stage(1) rest(1)]
    then show ?thesis using differ_by_trans [OF stage(5) rest(2)] rest(3,4) Cons.prems(4) stage(2) by simp
  next
    case (Return x)
    then have "s' = s1" "n' = n1" using Cons.prems(5) st by simp_all
    moreover have "retained_due now (set (status # statuses)) s s1"
      using retained_due_trans(1) [OF stage(1), of "set statuses" s1] retained_dueD(1) [OF stage(1)] Cons.prems(4) by (simp add: retained_due_def)
    ultimately show ?thesis using stage by simp
  qed
qed

text \<open>The first delivered artifact ends the run.\<close>

lemma retain_delivered:
  assumes "artifacts_inv (as_repo s)" "service_ids s" "batch s (a # as)" "ar_Status a = ArtifactStatusDelivered"
  shows "retain_artifacts ticks limit (a # as) n s =
    (s, n, Return (Some (InvalidArtifactTransition ArtifactStatusDelivered ArtifactStatusExpired)))"
proof -
  have a: "stored s (ar_ID a) = Some a" using assms(3) by (simp add: batch_def)
  then have trim: "TrimSpace (ar_ID a) = ar_ID a" using assms(2) validArtifactID_trim by (auto simp: service_ids_def)
  have target: "retention_target a = ArtifactStatusExpired" using assms(4) by (simp add: retention_target_def artifact_status_defs)
  have "\<not> artifactStatusTransitionAllowed (ar_Status a) ArtifactStatusExpired" unfolding assms(4) by code_simp
  then have "transitionArtifact ticks a (retention_target a) ''retention_expired'' None s =
      (s, Inl (InvalidArtifactTransition ArtifactStatusDelivered ArtifactStatusExpired))"
    using a trim target assms(4) unfolding transitionArtifact_def ticked_transition_def transition_input_def TransitionArtifact_def
    by (simp add: prepareArtifactRepositoryTransition_def prepareArtifactTransition_def Let_def split: prod.splits)
  then show ?thesis by simp
qed

section \<open>Stores of the service\<close>

text \<open>
  What the service expects of the stores it uses: the contract of a store, and that a successful
  \<^verbatim>\<open>Put\<close> has read its whole body.
\<close>

definition object :: "('s \<Rightarrow> string \<Rightarrow> string option) \<Rightarrow> 's artifact_service \<Rightarrow> string \<Rightarrow> string \<Rightarrow> string option" where
  "object content s driver key = (case artifactStore driver s of None \<Rightarrow> None | Some store \<Rightarrow> content store key)"

definition erased :: "('s \<Rightarrow> string \<Rightarrow> string option) \<Rightarrow> Artifact \<Rightarrow> 's artifact_service \<Rightarrow> bool" where
  "erased content a s \<longleftrightarrow> ar_StoreDriver a = ArtifactStoreDriverNone \<or> TrimSpace (ar_StoreKey a) = [] \<or>
     object content s (ar_StoreDriver a) (ar_StoreKey a) = None"

lemma object_put_store:
  "object content (put_store driver st s) d key = (if TrimSpace d = TrimSpace driver then content st key else object content s d key)"
  by (simp add: object_def artifactStore_def put_store_def)

lemma object_repo [simp]: "object content (s\<lparr>as_repo := r\<rparr>) = object content s"
  by (simp add: fun_eq_iff object_def artifactStore_def)

lemma put_store_sel [simp]: "as_repo (put_store driver st s) = as_repo s"
  by (simp add: put_store_def)

abbreviation deletable :: "string set" where
  "deletable \<equiv> {ArtifactStatusDeleteRequested, ArtifactStatusDeleteFailed, ArtifactStatusExpired}"

definition deletion_of :: "('s \<Rightarrow> string \<Rightarrow> string option) \<Rightarrow> 's artifact_service \<Rightarrow> Artifact \<Rightarrow> Artifact \<Rightarrow> bool" where
  "deletion_of content s' a a' \<longleftrightarrow> ar_Status a \<in> deletable \<and> artifact_identity a' = artifact_identity a \<and> ar_StatusVersion a \<le> ar_StatusVersion a' \<and>
     ar_StoreDriver a' = ar_StoreDriver a \<and> (if ar_Status a' = ArtifactStatusDeleted then erased content a s' else ar_StoreKey a' = ar_StoreKey a)"

definition deletes :: "('s \<Rightarrow> string \<Rightarrow> string option) \<Rightarrow> 's artifact_service \<Rightarrow> 's artifact_service \<Rightarrow> bool" where
  "deletes content s s' \<longleftrightarrow> artifacts_inv (as_repo s') \<and> service_ids s' \<and>
     (\<forall>k. stored s' k = stored s k \<or> (\<exists>a a'. stored s k = Some a \<and> stored s' k = Some a' \<and> deletion_of content s' a a')) \<and>
     (\<forall>d key. object content s' d key = object content s d key \<or>
        object content s' d key = None \<and>
        (\<exists>k a. stored s k = Some a \<and> ar_Status a \<in> deletable \<and> TrimSpace (ar_StoreDriver a) = TrimSpace d \<and> ar_StoreKey a = key))"

lemma deletesD:
  assumes "deletes content s s'"
  shows "artifacts_inv (as_repo s')" "service_ids s'"
    and "stored s' k = stored s k \<or> (\<exists>a a'. stored s k = Some a \<and> stored s' k = Some a' \<and> deletion_of content s' a a')"
    and "object content s' d key = object content s d key \<or> object content s' d key = None \<and>
        (\<exists>k a. stored s k = Some a \<and> ar_Status a \<in> deletable \<and> TrimSpace (ar_StoreDriver a) = TrimSpace d \<and> ar_StoreKey a = key)"
  using assms unfolding deletes_def by blast+

lemma erased_mono:
  assumes "erased content a s" "\<And>d key. object content s d key = None \<Longrightarrow> object content s' d key = None"
  shows "erased content a s'"
  using assms by (auto simp: erased_def)

lemma deleted_not_deletable: "a \<in> deletable \<Longrightarrow> a \<noteq> ArtifactStatusDeleted"
  by (auto simp: artifact_status_defs)

lemma deletes_trans:
  assumes "deletes content s s1" "deletes content s1 s2"
  shows "deletes content s s2"
proof -
  note first = deletesD [OF assms(1)] and second = deletesD [OF assms(2)]
  have mono: "object content s2 d key = None" if "object content s1 d key = None" for d key using second(4) [of d key] that by auto
  have "stored s2 k = stored s k \<or> (\<exists>a a'. stored s k = Some a \<and> stored s2 k = Some a' \<and> deletion_of content s2 a a')" for k
  proof (cases "stored s1 k = stored s k")
    case False
    with first(3) [of k] obtain a a1 where a: "stored s k = Some a" "stored s1 k = Some a1" "deletion_of content s1 a a1" by auto
    show ?thesis
    proof (cases "stored s2 k = stored s1 k")
      case True
      then show ?thesis using a erased_mono [OF _ mono, of a] by (auto simp: deletion_of_def split: if_splits)
    next
      case False
      with second(3) [of k] a(2) obtain a2 where a2: "stored s2 k = Some a2" "deletion_of content s2 a1 a2" by auto
      then have "ar_Status a1 \<noteq> ArtifactStatusDeleted" using deleted_not_deletable by (auto simp: deletion_of_def)
      then have "deletion_of content s2 a a2" using a(3) a2(2) by (auto simp: deletion_of_def erased_def split: if_splits)
      then show ?thesis using a(1) a2(1) by blast
    qed
  qed (use second(3) [of k] in simp)
  moreover have "object content s2 d key = object content s d key \<or> object content s2 d key = None \<and>
        (\<exists>k a. stored s k = Some a \<and> ar_Status a \<in> deletable \<and> TrimSpace (ar_StoreDriver a) = TrimSpace d \<and> ar_StoreKey a = key)" for d key
  proof (cases "object content s2 d key = object content s1 d key")
    case False
    with second(4) [of d key] obtain k a1 where a1: "stored s1 k = Some a1" "ar_Status a1 \<in> deletable"
        "TrimSpace (ar_StoreDriver a1) = TrimSpace d" "ar_StoreKey a1 = key" and none: "object content s2 d key = None" by auto
    have "\<exists>a. stored s k = Some a \<and> ar_Status a \<in> deletable \<and> TrimSpace (ar_StoreDriver a) = TrimSpace d \<and> ar_StoreKey a = key"
    proof (cases "stored s1 k = stored s k")
      case True
      then show ?thesis using a1 by (intro exI [of _ a1]) simp
    next
      case False
      with first(3) [of k] a1(1) obtain a where "stored s k = Some a" "deletion_of content s1 a a1" by auto
      then show ?thesis using a1 deleted_not_deletable [OF a1(2)] by (intro exI [of _ a]) (simp add: deletion_of_def)
    qed
    then show ?thesis using none by blast
  qed (use first(4) [of d key] in simp)
  ultimately show ?thesis unfolding deletes_def using second(1,2) by (intro conjI allI)
qed

lemma deletes_refl: "artifacts_inv (as_repo s) \<Longrightarrow> service_ids s \<Longrightarrow> deletes content s s"
  by (simp add: deletes_def)

section \<open>Deletion\<close>

text \<open>A candidate becomes deleting, by one or two changes; nothing else changes.\<close>

definition moved :: "'s artifact_service \<Rightarrow> Artifact \<Rightarrow> Artifact \<Rightarrow> 's artifact_service \<Rightarrow> bool" where
  "moved s a a' s' \<longleftrightarrow> artifacts_inv (as_repo s') \<and> service_ids s' \<and> as_stores s' = as_stores s \<and>
     (\<forall>k. stored s' k = (if k = ar_ID a then Some a' else stored s k)) \<and> artifact_identity a' = artifact_identity a \<and>
     ar_StatusVersion a \<le> ar_StatusVersion a' \<and> ar_StoreDriver a' = ar_StoreDriver a \<and> ar_StoreKey a' = ar_StoreKey a"

lemma moved_batch: "moved s a a' s' \<Longrightarrow> batch s (a # as) \<Longrightarrow> batch s' (a' # as)"
  by (auto simp: moved_def batch_def artifact_identity_def image_iff)

lemma moved_refl: "artifacts_inv (as_repo s) \<Longrightarrow> service_ids s \<Longrightarrow> stored s (ar_ID a) = Some a \<Longrightarrow> moved s a a s"
  by (simp add: moved_def)

lemma moved_trans: "moved s a a1 s1 \<Longrightarrow> moved s1 a1 a2 s2 \<Longrightarrow> moved s a a2 s2"
  by (auto simp: moved_def artifact_identity_def)

lemma object_moved: "moved s a a' s' \<Longrightarrow> object content s' = object content s"
  by (simp add: fun_eq_iff object_def artifactStore_def moved_def)

lemma transition_moved:
  assumes "artifacts_inv (as_repo s)" "service_ids s" "batch s (a # as)" "transitionArtifact ticks a toStatus reason None s = (s', x)"
    and "TrimSpace toStatus = toStatus" "toStatus \<noteq> ArtifactStatusDeleted"
  shows "case x of Inl _ \<Rightarrow> s' = s | Inr u \<Rightarrow> moved s a u s' \<and> ar_Status u = toStatus"
  using assms(1-4)
proof (cases rule: batch_transition)
  case (changed u r')
  note c = change_of_sel [OF changed(3), unfolded assms(5)]
  have "stored s' k = (if k = ar_ID a then Some u else stored s k)" for k using changed(2,4) by simp
  then show ?thesis using changed c(1,2,4,6,7) assms(6) by (simp add: moved_def)
qed simp

definition claim_step where
  "claim_step ticks a toStatus reason s = (case transitionArtifact ticks a toStatus reason None s of
     (s1, Inl e) \<Rightarrow> (s1, if e = ErrArtifactStateConflict then Skip else Fail e) | (s1, Inr updated) \<Rightarrow> (s1, Claimed updated))"

lemma claim_deletion_steps:
  "claim_deletion ticks c s =
     (case (if ar_Status c = ArtifactStatusExpired then claim_step ticks c ArtifactStatusDeleteRequested ''retention_cleanup'' s else (s, Claimed c)) of
        (s1, Claimed a) \<Rightarrow> claim_step ticks a ArtifactStatusDeleting ''worker_claimed'' s1 | (s1, x) \<Rightarrow> (s1, x))"
  unfolding claim_deletion_def claim_step_def by (simp add: Let_def)

lemma claim_step_moved:
  assumes "artifacts_inv (as_repo s)" "service_ids s" "batch s (a # as)" "claim_step ticks a toStatus reason s = (s', x)"
    and "TrimSpace toStatus = toStatus" "toStatus \<noteq> ArtifactStatusDeleted"
  shows "(\<nexists>u. x = Claimed u) \<and> s' = s \<or> (\<exists>u. x = Claimed u \<and> moved s a u s' \<and> ar_Status u = toStatus)"
  using transition_moved [OF assms(1-3) _ assms(5,6), of ticks reason] assms(4)
  by (auto simp: claim_step_def split: prod.splits sum.splits if_splits)

lemma claim_deletion_moved:
  assumes "artifacts_inv (as_repo s)" "service_ids s" "batch s (c # cs)" "claim_deletion ticks c s = (s1, x)"
  shows "\<exists>u. moved s c u s1 \<and> (ar_Status u \<in> insert (ar_Status c) {ArtifactStatusDeleteRequested, ArtifactStatusDeleting}) \<and>
    (\<forall>d. x = Claimed d \<longrightarrow> d = u \<and> ar_Status d = ArtifactStatusDeleting)"
proof -
  have tr: "ArtifactStatusDeleteRequested \<noteq> ArtifactStatusDeleted" "ArtifactStatusDeleting \<noteq> ArtifactStatusDeleted" by (simp_all add: artifact_status_defs)
  obtain s0 y where y: "(if ar_Status c = ArtifactStatusExpired then claim_step ticks c ArtifactStatusDeleteRequested ''retention_cleanup'' s
      else (s, Claimed c)) = (s0, y)" by fastforce
  have here: "stored s (ar_ID c) = Some c" using assms(3) by (simp add: batch_def)
  note same = moved_refl [OF assms(1,2) here]
  have first: "(\<nexists>u. y = Claimed u) \<and> s0 = s \<or> (\<exists>u. y = Claimed u \<and> moved s c u s0 \<and> ar_Status u \<in> {ar_Status c, ArtifactStatusDeleteRequested})"
    using y same claim_step_moved [OF assms(1-3), of ticks ArtifactStatusDeleteRequested "''retention_cleanup''" s0 y] tr(1) by (auto split: if_splits)
  show ?thesis
  proof (cases y)
    case (Claimed u)
    then have u: "moved s c u s0" "ar_Status u \<in> {ar_Status c, ArtifactStatusDeleteRequested}" using first by auto
    have "claim_step ticks u ArtifactStatusDeleting ''worker_claimed'' s0 = (s1, x)" using assms(4) y Claimed by (simp add: claim_deletion_steps)
    moreover have "artifacts_inv (as_repo s0)" "service_ids s0" using u(1) by (simp_all add: moved_def)
    ultimately have "(\<nexists>d. x = Claimed d) \<and> s1 = s0 \<or> (\<exists>d. x = Claimed d \<and> moved s0 u d s1 \<and> ar_Status d = ArtifactStatusDeleting)"
      using claim_step_moved [OF _ _ moved_batch [OF u(1) assms(3)]] tr(2) by simp
    then show ?thesis
    proof (elim disjE exE conjE)
      assume "\<nexists>d. x = Claimed d" "s1 = s0"
      then show ?thesis using u by (intro exI [of _ u]) auto
    next
      fix d
      assume "x = Claimed d" "moved s0 u d s1" "ar_Status d = ArtifactStatusDeleting"
      then show ?thesis using moved_trans [OF u(1)] by (intro exI [of _ d]) auto
    qed
  qed (use first same assms(4) y in \<open>auto simp: claim_deletion_steps intro!: exI [of _ c]\<close>)
qed

lemma moved_deletes:
  assumes "moved s c u s1" "ar_Status c \<in> deletable" "stored s (ar_ID c) = Some c" "ar_Status u \<noteq> ArtifactStatusDeleted"
  shows "deletes content s s1"
proof -
  have "deletion_of content s1 c u" using assms(1,2,4) by (simp add: deletion_of_def moved_def)
  then show ?thesis using assms(1,3) object_moved [OF assms(1)] unfolding deletes_def moved_def by auto
qed

locale store_service = artifact_store "so_put ops" "so_open ops" "so_delete ops" content
  for ops :: "'s store_ops" and content :: "'s \<Rightarrow> string \<Rightarrow> string option" +
  assumes reads_stored: "so_put ops key (Reader data) n s = (s', Inr w) \<Longrightarrow> so_reads ops key (Reader data) n s = data"
begin

lemma delete_content:
  assumes "deleteArtifactContent ops a s = (s', e)"
  shows "as_repo s' = as_repo s" "e = None \<Longrightarrow> erased content a s'"
    "object content s' d key = object content s d key \<or>
     object content s' d key = None \<and> TrimSpace (ar_StoreDriver a) = TrimSpace d \<and> ar_StoreKey a = key"
proof -
  have "as_repo s' = as_repo s \<and> (e = None \<longrightarrow> erased content a s') \<and> (object content s' d key = object content s d key \<or>
     object content s' d key = None \<and> TrimSpace (ar_StoreDriver a) = TrimSpace d \<and> ar_StoreKey a = key)"
  proof (cases "ar_StoreDriver a = ArtifactStoreDriverNone \<or> TrimSpace (ar_StoreKey a) = []")
    case True
    then show ?thesis using assms by (auto simp: deleteArtifactContent_def erased_def)
  next
    case False
    show ?thesis
    proof (cases "artifactStore (ar_StoreDriver a) s")
      case None
      then show ?thesis using assms False by (auto simp: deleteArtifactContent_def)
    next
      case (Some st)
      obtain st' x where x: "so_delete ops (ar_StoreKey a) st = (st', x)" by fastforce
      have s': "s' = put_store (ar_StoreDriver a) st' s" "e = map_option ArtifactStoreError x"
        using assms False Some x by (simp_all add: deleteArtifactContent_def)
      have obj: "TrimSpace d = TrimSpace (ar_StoreDriver a) \<Longrightarrow> object content s d key = content st key"
        using Some by (simp add: object_def artifactStore_def)
      show ?thesis
      proof (cases x)
        case None
        then have "content st' = (content st)(ar_StoreKey a := None)" using x deleted by blast
        then show ?thesis using s' None obj by (auto simp: object_put_store erased_def)
      next
        case (Some _)
        then have "content st' = content st" using x delete_failed by blast
        then show ?thesis using s' Some obj by (simp add: object_put_store)
      qed
    qed
  qed
  then show "as_repo s' = as_repo s" "e = None \<Longrightarrow> erased content a s'"
    "object content s' d key = object content s d key \<or>
     object content s' d key = None \<and> TrimSpace (ar_StoreDriver a) = TrimSpace d \<and> ar_StoreKey a = key" by blast+
qed

lemma delete_one:
  assumes "artifacts_inv (as_repo s)" "service_ids s" "batch s (c # cs)" "ar_Status c \<in> deletable"
    and "claim_deletion ticks c s = (s1, Claimed d)" "deleteArtifactContent ops d s1 = (s2, de)"
    and "transitionArtifact ticks d (if de = None then ArtifactStatusDeleted else ArtifactStatusDeleteFailed) reason None s2 = (s3, x)"
  shows "deletes content s s3" "batch s3 cs"
proof -
  have m: "moved s c d s1" "ar_Status d = ArtifactStatusDeleting" using claim_deletion_moved [OF assms(1-3,5)] by auto
  then have eq: "ar_ID d = ar_ID c" "ar_StoreDriver d = ar_StoreDriver c" "ar_StoreKey d = ar_StoreKey c" "artifact_identity d = artifact_identity c"
    "ar_StatusVersion c \<le> ar_StatusVersion d" by (auto simp: moved_def artifact_identity_def)
  note del = delete_content [OF assms(6)]
  have s2: "artifacts_inv (as_repo s2)" "service_ids s2" "\<And>k. stored s2 k = (if k = ar_ID c then Some d else stored s k)"
    using m(1) del(1) by (simp_all add: moved_def service_ids_def)
  have b2: "batch s2 (d # cs)" using moved_batch [OF m(1) assms(3)] del(1) by (simp add: batch_def)
  let ?to = "if de = None then ArtifactStatusDeleted else ArtifactStatusDeleteFailed"
  obtain f where f: "artifacts_inv (as_repo s3)" "service_ids s3" "\<And>k. stored s3 k = (if k = ar_ID c then Some f else stored s k)" "as_stores s3 = as_stores s2"
    "artifact_identity f = artifact_identity c" "ar_StatusVersion c \<le> ar_StatusVersion f" "ar_StoreDriver f = ar_StoreDriver c"
    "if ar_Status f = ArtifactStatusDeleted then de = None else ar_StoreKey f = ar_StoreKey c" and cs: "batch s3 cs"
    using s2(1,2) b2 assms(7)
  proof (cases rule: batch_transition)
    case refused
    then show ?thesis using that [of d] s2 eq m(2) b2 by (auto simp: batch_def artifact_status_defs)
  next
    case (changed u r')
    have trim: "TrimSpace ?to = ?to" by simp
    note u = change_of_sel [OF changed(3), unfolded trim]
    have "artifacts_inv (as_repo s3)" "stored s3 k = (if k = ar_ID c then Some u else stored s k)" "as_stores s3 = as_stores s2" for k
      using changed(2,4,5) s2(3) eq(1) by simp_all
    moreover have "if ar_Status u = ArtifactStatusDeleted then de = None else ar_StoreKey u = ar_StoreKey c"
      using u(1,7) eq(3) by (cases "de = None") (simp_all add: artifact_status_defs)
    ultimately show ?thesis using that [of u] changed(6,7) u(2,4,6) eq by simp
  qed
  show "batch s3 cs" by (rule cs)
  have obj: "object content s3 = object content s2" by (simp add: fun_eq_iff object_def artifactStore_def f(4))
  have here: "stored s (ar_ID c) = Some c" using assms(3) by (simp add: batch_def)
  have "erased content c s3" if "de = None" using del(2) [OF that] obj eq(2,3) by (simp add: erased_def)
  then have "deletion_of content s3 c f" using f(5-8) assms(4) by (simp add: deletion_of_def split: if_splits)
  moreover have "object content s3 p key = object content s p key \<or> object content s3 p key = None \<and>
      TrimSpace (ar_StoreDriver c) = TrimSpace p \<and> ar_StoreKey c = key" for p key
    using del(3) [of p key] object_moved [OF m(1)] eq(2,3) unfolding obj by simp
  ultimately show "deletes content s s3" unfolding deletes_def using f(1-3) here assms(4) by (intro conjI allI) (simp_all, blast)
qed

lemma delete_artifacts_deletes:
  assumes "artifacts_inv (as_repo s)" "service_ids s" "batch s cs" "\<forall>c \<in> set cs. ar_Status c \<in> deletable"
    and "delete_artifacts ops ticks limit cs n s = (s', n', fl)"
  shows "deletes content s s'"
  using assms
proof (induction cs arbitrary: s n)
  case Nil
  then show ?case by (simp add: deletes_refl)
next
  case (Cons c cs)
  obtain s1 y where y: "claim_deletion ticks c s = (s1, y)" by fastforce
  obtain u where u: "moved s c u s1" "ar_Status u \<in> insert (ar_Status c) {ArtifactStatusDeleteRequested, ArtifactStatusDeleting}"
    using claim_deletion_moved [OF Cons.prems(1-3) y] by blast
  have c: "ar_Status c \<in> deletable" "stored s (ar_ID c) = Some c" using Cons.prems(3,4) by (simp_all add: batch_def)
  have "ar_Status u \<noteq> ArtifactStatusDeleted" using u(2) c(1) by (auto simp: artifact_status_defs)
  then have s1: "deletes content s s1" using moved_deletes [OF u(1) c(1,2)] by blast
  have again: "deletes content s s'" if "deletes content s t" "batch t cs" "delete_artifacts ops ticks limit cs m t = (s', n', fl)" for t m
    using Cons.IH [OF deletesD(1,2) [OF that(1)] that(2) _ that(3)] Cons.prems(4) deletes_trans [OF that(1)] by simp
  show ?case
  proof (cases y)
    case Skip
    then show ?thesis
      using Cons.prems(5) y again [OF s1] moved_batch [OF u(1) Cons.prems(3)] by (simp add: batch_def)
  next
    case (Fail e)
    then show ?thesis using Cons.prems(5) y s1 by simp
  next
    case (Claimed d)
    obtain s2 de where de: "deleteArtifactContent ops d s1 = (s2, de)" by fastforce
    obtain s3 x where x: "transitionArtifact ticks d (if de = None then ArtifactStatusDeleted else ArtifactStatusDeleteFailed)
      (if de = None then [] else ''store_delete_failed'') None s2 = (s3, x)" by fastforce
    note one = delete_one [OF Cons.prems(1-3) c(1) y [unfolded Claimed] de x]
    show ?thesis
      using Cons.prems(5) y Claimed de x one(1) again [OF one] by (auto split: if_splits)
  qed
qed

lemma deletable_query:
  fixes s :: "'s artifact_service"
  assumes "artifacts_inv (as_repo s)" "status \<in> deletable" "c \<in> set (QueryArtifacts (status_query status None m) (as_repo s))"
  shows "ar_Status c \<in> deletable"
proof -
  have "TrimSpace status = status" using assms(2) by auto
  moreover have "status \<noteq> []" using assms(2) by (auto simp: artifact_status_defs)
  ultimately show ?thesis using query_batch(2) [OF assms(1,3)] status_query_match [of status c None m] assms(2) by simp
qed

lemma delete_statuses_deletes:
  assumes "artifacts_inv (as_repo s)" "service_ids s" "set statuses \<subseteq> deletable" "delete_statuses ops ticks limit statuses n s = (s', n', e)"
  shows "deletes content s s'"
  using assms
proof (induction statuses arbitrary: s n)
  case Nil
  then show ?case by (simp add: deletes_refl)
next
  case (Cons status statuses)
  obtain s1 n1 fl where st: "delete_artifacts ops ticks limit (QueryArtifacts (status_query status None (limit - n)) (as_repo s)) n s = (s1, n1, fl)"
    by (metis prod_cases3)
  have s1: "deletes content s s1"
  proof (rule delete_artifacts_deletes [OF Cons.prems(1,2) query_batch(1) [OF Cons.prems(1)] ballI st])
    have "status \<in> deletable" by (rule subsetD [OF Cons.prems(3)]) simp
    then show "c \<in> set (QueryArtifacts (status_query status None (limit - n)) (as_repo s)) \<Longrightarrow> ar_Status c \<in> deletable" for c
      by (rule deletable_query [OF Cons.prems(1)])
  qed
  show ?case
  proof (cases fl)
    case Continue
    then show ?thesis
      using Cons.IH [OF deletesD(1,2) [OF s1], of n1] Cons.prems(3,4) st deletes_trans [OF s1] by simp
  qed (use Cons.prems(4) st s1 in simp)
qed

lemma worker_deletes:
  assumes "artifacts_inv (as_repo s)" "service_ids s" "RunArtifactDeletionWorkerOnce ops ticks limit s = (s', n, e)"
  shows "deletes content s s'"
  using delete_statuses_deletes [OF assms(1,2), of "[ArtifactStatusDeleteRequested, ArtifactStatusDeleteFailed, ArtifactStatusExpired]" ticks limit 0 s' n e]
    assms(3) deletes_refl [OF assms(1,2)] by (auto simp: RunArtifactDeletionWorkerOnce_def simp del: delete_statuses.simps split: if_splits)

end

interpretation memory_service: store_service memory_store_ops go_get
proof unfold_locales
  show "so_reads memory_store_ops key (Reader data) n s = data"
    if "so_put memory_store_ops key (Reader data) n s = (s', Inr w)" for key data n s s' w
    using that by (auto simp: memory_store_ops_def store_Put_def store_reads_def split: option.splits)
qed (simp_all only: memory_store_ops_def store_ops.select_convs,
      rule memory_store.put_failed, assumption, rule memory_store.put_stored, assumption, rule memory_store.delete_failed, assumption,
      rule memory_store.deleted, assumption, rule memory_store.opened, assumption)

section \<open>Properties of retention\<close>

text \<open>
  C37: retention only removes what is due. A retention run changes an artifact only when its retention has
  ended, and then by one step, to expired, or to a requested deletion when it never became ready; every
  other artifact and all stored content stay as they are. The number of artifacts it changes is the number it
  returns, and at most the limit.
\<close>

theorem retention_only_due:
  assumes "(repo_call hash)\<^sup>*\<^sup>* NewMemoryRepository (as_repo s)" "\<forall>k a. stored s k = Some a \<longrightarrow> validArtifactID k"
    and "RunArtifactRetentionOnce ticks now limit s = (s', n, e)"
  shows "as_stores s' = as_stores s \<and> finite {k. stored s' k \<noteq> stored s k} \<and> int (card {k. stored s' k \<noteq> stored s k}) = n \<and> n \<le> max 0 limit \<and>
    (\<forall>k. stored s' k = stored s k \<or>
       (\<exists>a a'. stored s k = Some a \<and> stored s' k = Some a' \<and> ar_RetainUntil a \<le> now \<and> artifact_identity a' = artifact_identity a \<and>
          ar_StatusVersion a' = ar_StatusVersion a + 1 \<and>
          (ar_Status a \<in> {ArtifactStatusReady, ArtifactStatusDeliveryFailed} \<and> ar_Status a' = ArtifactStatusExpired \<or>
           ar_Status a \<in> {ArtifactStatusPending, ArtifactStatusUploading, ArtifactStatusFailed} \<and> ar_Status a' = ArtifactStatusDeleteRequested)))"
proof (cases "limit \<le> 0")
  case True
  then show ?thesis using assms(3) by (simp add: RunArtifactRetentionOnce_def)
next
  case False
  have inv: "artifacts_inv (as_repo s)" using repo_invD(7) run_inv [OF assms(1) repo_inv_new] by blast
  have ids: "service_ids s" using assms(2) by (simp add: service_ids_def)
  have r: "retained_due now (set retention_statuses) s s' \<and> differ_by s s' (n - 0) \<and> 0 \<le> n \<and> n \<le> limit"
  proof (rule retain_statuses_due [OF inv ids _ subset_refl])
    show "retain_statuses ticks now limit retention_statuses 0 s = (s', n, e)" "0 < limit"
      using assms(3) False by (simp_all only: RunArtifactRetentionOnce_def if_False not_le)
  qed
  have step: "ar_Status a \<in> {ArtifactStatusReady, ArtifactStatusDeliveryFailed} \<and> retention_target a = ArtifactStatusExpired \<or>
      ar_Status a \<in> {ArtifactStatusPending, ArtifactStatusUploading, ArtifactStatusFailed} \<and> retention_target a = ArtifactStatusDeleteRequested"
    if "ar_Status a \<in> set retention_statuses" "change_of a (retention_target a) None a'" for a a'
  proof -
    have "\<not> artifactStatusTransitionAllowed ArtifactStatusDelivered ArtifactStatusExpired" by code_simp
    then show ?thesis using that(1) change_of_sel(5) [OF that(2)] by (auto simp: retention_target_def artifact_status_defs)
  qed
  have "stored s' k = stored s k \<or>
       (\<exists>a a'. stored s k = Some a \<and> stored s' k = Some a' \<and> ar_RetainUntil a \<le> now \<and> artifact_identity a' = artifact_identity a \<and>
          ar_StatusVersion a' = ar_StatusVersion a + 1 \<and>
          (ar_Status a \<in> {ArtifactStatusReady, ArtifactStatusDeliveryFailed} \<and> ar_Status a' = ArtifactStatusExpired \<or>
           ar_Status a \<in> {ArtifactStatusPending, ArtifactStatusUploading, ArtifactStatusFailed} \<and> ar_Status a' = ArtifactStatusDeleteRequested))" for k
    using retained_dueD(2) [OF conjunct1 [OF r], of k]
  proof (elim disj_forward ex_forward)
    fix a a'
    assume h: "stored s k = Some a \<and> stored s' k = Some a' \<and> ar_RetainUntil a \<le> now \<and> ar_Status a \<in> set retention_statuses \<and>
      change_of a (retention_target a) None a'"
    then have c: "change_of a (retention_target a) None a'" "ar_Status a \<in> set retention_statuses" by blast+
    show "stored s k = Some a \<and> stored s' k = Some a' \<and> ar_RetainUntil a \<le> now \<and> artifact_identity a' = artifact_identity a \<and>
          ar_StatusVersion a' = ar_StatusVersion a + 1 \<and>
          (ar_Status a \<in> {ArtifactStatusReady, ArtifactStatusDeliveryFailed} \<and> ar_Status a' = ArtifactStatusExpired \<or>
           ar_Status a \<in> {ArtifactStatusPending, ArtifactStatusUploading, ArtifactStatusFailed} \<and> ar_Status a' = ArtifactStatusDeleteRequested)"
      using h step [OF c(2,1)] change_of_sel(1,2,4) [OF c(1)] by simp
  qed
  then show ?thesis using r retained_dueD(1) [OF conjunct1 [OF r]] False by (simp add: differ_by_def differing_def)
qed

definition example_service :: "string list \<Rightarrow> MemoryArtifactStore artifact_service" where
  "example_service statuses =
     \<lparr>as_repo = example_statuses statuses 1 example_created,
      as_stores = [(ArtifactStoreDriverMemory, [(''artifact_a/content'', ''abc'')])], as_primary = ArtifactStoreDriverMemory\<rparr>"

definition example_ticks :: "gotime \<Rightarrow> ticks" where
  "example_ticks now k v = (string_of_int (v + 1), string_of_int (v + 1), now)"

lemma example_service_run: "(repo_call hash)\<^sup>*\<^sup>* NewMemoryRepository (as_repo (example_service statuses))"
  by (simp add: example_service_def example_artifact_run)

lemma example_service_ids:
  assumes "map fst (artifacts (as_repo s)) = [''artifact_a'']"
  shows "\<forall>k a. stored s k = Some a \<longrightarrow> validArtifactID k"
proof (intro allI impI)
  fix k a
  assume "stored s k = Some a"
  then have "k \<in> set (map fst (artifacts (as_repo s)))" by (force dest: map_of_SomeD)
  moreover have "validArtifactID ''artifact_a''" by code_simp
  ultimately show "validArtifactID k" by (simp add: assms)
qed

theorem retention_only_due_witness:
  "\<exists>s' n e. RunArtifactRetentionOnce (example_ticks 9) 9 5 (example_service [ArtifactStatusReady]) = (s', n, e) \<and> n = 1 \<and> e = None \<and>
     as_stores s' = as_stores (example_service [ArtifactStatusReady])"
proof -
  let ?s = "example_service [ArtifactStatusReady]"
  obtain s' n e where r: "RunArtifactRetentionOnce (example_ticks 9) 9 5 ?s = (s', n, e)" by (metis prod_cases3)
  have "snd (RunArtifactRetentionOnce (example_ticks 9) 9 5 ?s) = (1, None)" by code_simp
  moreover have "map fst (artifacts (as_repo ?s)) = [''artifact_a'']" by code_simp
  ultimately show ?thesis using retention_only_due [OF example_service_run example_service_ids r] r by auto
qed

text \<open>
  C38: a delivered artifact stops retention. As soon as the retention of a delivered artifact has ended, every
  retention run that does not use up its limit on ready artifacts fails, and it leaves every artifact alone
  that is not ready: the delivered artifact itself is never removed, and neither are failed deliveries and
  abandoned uploads.
\<close>

theorem retention_stalls:
  assumes "(repo_call hash)\<^sup>*\<^sup>* NewMemoryRepository (as_repo s)" "\<forall>k a. stored s k = Some a \<longrightarrow> validArtifactID k"
    and "stored s k = Some a" "ar_Status a = ArtifactStatusDelivered" "ar_RetainUntil a \<le> now" "0 < limit"
    and "RunArtifactRetentionOnce ticks now limit s = (s', n, e)"
  shows "(e \<noteq> None \<or> n = limit) \<and>
    (\<forall>k' x. stored s k' = Some x \<and> ar_Status x \<noteq> ArtifactStatusReady \<longrightarrow> stored s' k' = Some x)"
proof -
  have inv: "artifacts_inv (as_repo s)" using repo_invD(7) run_inv [OF assms(1) repo_inv_new] by blast
  have ids: "service_ids s" using assms(2) by (simp add: service_ids_def)
  let ?rest = "tl (tl retention_statuses)"
  obtain s1 n1 fl where st: "retain_artifacts ticks limit (QueryArtifacts (status_query ArtifactStatusReady (Some now) (limit - 0)) (as_repo s)) 0 s = (s1, n1, fl)"
    by (metis prod_cases3)
  have stage: "retained_due now {ArtifactStatusReady} s s1" "n1 \<le> limit" "fl = Continue \<Longrightarrow> n1 < limit" "fl = Return None \<Longrightarrow> n1 \<ge> limit"
    using retain_stage [OF inv ids assms(6) _ st] by simp_all
  have run: "(s', n, e) = (case fl of Return x \<Rightarrow> (s1, n1, x) | Continue \<Rightarrow> retain_statuses ticks now limit (ArtifactStatusDelivered # ?rest) n1 s1)"
    using assms(6,7) st by (cases fl) (simp_all add: RunArtifactRetentionOnce_def)
  have keep: "stored s1 k' = Some x" if "stored s k' = Some x" "ar_Status x \<noteq> ArtifactStatusReady" for k' x
    using retained_dueD(2) [OF stage(1), of k'] that by auto
  have "s' = s1 \<and> (e \<noteq> None \<or> n = limit)"
  proof (cases fl)
    case Continue
    let ?q = "status_query ArtifactStatusDelivered (Some now) (limit - n1)"
    note s1 = retained_dueD(1) [OF stage(1)]
    have d: "ArtifactStatusDelivered \<in> set retention_statuses" by simp
    note match = status_query_match [OF retention_status(1,2) [OF d], of _ "Some now" "limit - n1"]
    have "stored s1 k = Some a" using keep [OF assms(3)] assms(4) by (simp add: artifact_status_defs)
    then have "QueryArtifacts ?q (as_repo s1) \<noteq> []" using query_nonempty [of s1 k a] s1 match assms(4,5) by simp
    then obtain b bs where bs: "QueryArtifacts ?q (as_repo s1) = b # bs" by (cases "QueryArtifacts ?q (as_repo s1)") simp_all
    have "ar_Status b = ArtifactStatusDelivered" using query_batch(2) [of s1 b ?q] s1 bs match [of b] by simp
    then have "retain_artifacts ticks limit (b # bs) n1 s1 =
        (s1, n1, Return (Some (InvalidArtifactTransition ArtifactStatusDelivered ArtifactStatusExpired)))"
      using retain_delivered [of s1 b bs] query_batch(1) [of s1 ?q] s1 bs by simp
    then show ?thesis using run Continue bs by simp
  next
    case (Return x)
    then show ?thesis using run stage(2,4) by (cases x) auto
  qed
  then show ?thesis using keep by blast
qed

theorem retention_stalls_witness:
  "\<exists>s' n e. RunArtifactRetentionOnce (example_ticks 9) 9 5
       (example_service [ArtifactStatusReady, ArtifactStatusDelivering, ArtifactStatusDelivered]) = (s', n, e) \<and> (e \<noteq> None \<or> n = 5)"
proof -
  let ?s = "example_service [ArtifactStatusReady, ArtifactStatusDelivering, ArtifactStatusDelivered]"
  obtain s' n e where r: "RunArtifactRetentionOnce (example_ticks 9) 9 5 ?s = (s', n, e)" by (metis prod_cases3)
  have "map_option (\<lambda>a. (ar_Status a, ar_RetainUntil a)) (stored ?s ''artifact_a'') = Some (ArtifactStatusDelivered, 9)" by code_simp
  then obtain a where "stored ?s ''artifact_a'' = Some a" "ar_Status a = ArtifactStatusDelivered" "ar_RetainUntil a = 9" by auto
  moreover have "map fst (artifacts (as_repo ?s)) = [''artifact_a'']" by code_simp
  ultimately show ?thesis using retention_stalls [OF example_service_run example_service_ids _ _ _ _ r] r by auto
qed

section \<open>Properties of deletion\<close>

text \<open>
  C23: a deleted artifact has no content, and nothing else is deleted. A run of the deletion worker changes
  only artifacts whose deletion was requested or has failed before or that are expired, and keeps who they
  belong to; an artifact that the run marks as deleted no longer has an object in its store. Objects are only
  removed, and only those of such artifacts.
\<close>

theorem deletion_worker_safe:
  assumes "(repo_call hash)\<^sup>*\<^sup>* NewMemoryRepository (as_repo s)" "\<forall>k a. stored s k = Some a \<longrightarrow> validArtifactID k"
    and "RunArtifactDeletionWorkerOnce memory_store_ops ticks limit s = (s', n, e)"
  shows "(\<forall>k. stored s' k = stored s k \<or>
      (\<exists>a a'. stored s k = Some a \<and> stored s' k = Some a' \<and>
         ar_Status a \<in> {ArtifactStatusDeleteRequested, ArtifactStatusDeleteFailed, ArtifactStatusExpired} \<and> artifact_identity a' = artifact_identity a \<and>
         (ar_Status a' = ArtifactStatusDeleted \<longrightarrow>
            ar_StoreDriver a = ArtifactStoreDriverNone \<or> TrimSpace (ar_StoreKey a) = [] \<or> object go_get s' (ar_StoreDriver a) (ar_StoreKey a) = None))) \<and>
    (\<forall>driver key. object go_get s' driver key = object go_get s driver key \<or>
       object go_get s' driver key = None \<and>
       (\<exists>k a. stored s k = Some a \<and> ar_Status a \<in> {ArtifactStatusDeleteRequested, ArtifactStatusDeleteFailed, ArtifactStatusExpired} \<and>
          TrimSpace (ar_StoreDriver a) = TrimSpace driver \<and> ar_StoreKey a = key))"
proof -
  have inv: "artifacts_inv (as_repo s)" using repo_invD(7) run_inv [OF assms(1) repo_inv_new] by blast
  have ids: "service_ids s" using assms(2) by (simp add: service_ids_def)
  note d = deletesD(3,4) [OF memory_service.worker_deletes [OF inv ids assms(3)]]
  have "stored s' k = stored s k \<or>
      (\<exists>a a'. stored s k = Some a \<and> stored s' k = Some a' \<and> ar_Status a \<in> deletable \<and> artifact_identity a' = artifact_identity a \<and>
         (ar_Status a' = ArtifactStatusDeleted \<longrightarrow>
            ar_StoreDriver a = ArtifactStoreDriverNone \<or> TrimSpace (ar_StoreKey a) = [] \<or> object go_get s' (ar_StoreDriver a) (ar_StoreKey a) = None))" for k
    using d(1) [of k] by (elim disj_forward ex_forward conj_forward) (auto simp: deletion_of_def erased_def)
  then show ?thesis using d(2) by blast
qed

theorem deletion_worker_safe_witness:
  "\<exists>s' n e. RunArtifactDeletionWorkerOnce memory_store_ops (example_ticks 9) 5 (example_service [ArtifactStatusReady, ArtifactStatusDeleteRequested]) =
       (s', n, e) \<and> map_option ar_Status (stored s' ''artifact_a'') = Some ArtifactStatusDeleted \<and>
     object go_get s' ArtifactStoreDriverMemory ''artifact_a/content'' = None"
proof -
  let ?s = "example_service [ArtifactStatusReady, ArtifactStatusDeleteRequested]"
  let ?run = "RunArtifactDeletionWorkerOnce memory_store_ops (example_ticks 9) 5 ?s"
  obtain s' n e where r: "?run = (s', n, e)" by (metis prod_cases3)
  have ids: "map fst (artifacts (as_repo ?s)) = [''artifact_a'']" by code_simp
  have "map_option (\<lambda>a. (ar_Status a, ar_StoreDriver a, ar_StoreKey a)) (stored ?s ''artifact_a'') =
      Some (ArtifactStatusDeleteRequested, ArtifactStoreDriverMemory, ''artifact_a/content'')" by code_simp
  then obtain a where a: "stored ?s ''artifact_a'' = Some a" "ar_Status a = ArtifactStatusDeleteRequested" "ar_StoreDriver a = ArtifactStoreDriverMemory"
    "ar_StoreKey a = ''artifact_a/content''" by auto
  have "map_option ar_Status (stored (fst ?run) ''artifact_a'') = Some ArtifactStatusDeleted" by code_simp
  then obtain a' where a': "stored s' ''artifact_a'' = Some a'" "ar_Status a' = ArtifactStatusDeleted" using r by auto
  have "ArtifactStatusDeleteRequested \<noteq> ArtifactStatusDeleted" "ArtifactStoreDriverMemory \<noteq> ArtifactStoreDriverNone"
    "TrimSpace ''artifact_a/content'' \<noteq> []" by code_simp+
  then have "object go_get s' ArtifactStoreDriverMemory ''artifact_a/content'' = None"
    using conjunct1 [OF deletion_worker_safe [OF example_service_run example_service_ids [OF ids] r], rule_format, of "''artifact_a''"] a a' by auto
  then show ?thesis using r a' by simp
qed

end
