(* ===== verification/Artifact_Content.thy ===== *)
theory Artifact_Content
  imports Artifact_Lifecycle
begin

text \<open>
  The content of artifacts: what is stored when an upload of
  \<^verbatim>\<open>backend/internal/controlplane/artifact_service.go\<close> succeeds, whatever other callers do to the
  repository and the store meanwhile, what an upload that lost its claim leaves behind, and which artifacts a
  request can refer to.
\<close>

section \<open>Heartbeats\<close>

text \<open>What other callers do is a sequence of calls of the repository.\<close>

definition calls_only :: "(string \<Rightarrow> string) \<Rightarrow> others list \<Rightarrow> bool" where
  "calls_only hash fs \<longleftrightarrow> (\<forall>f \<in> set fs. \<forall>r. (repo_call hash)\<^sup>*\<^sup>* r (f r))"

lemma ticked_call: "repo_call hash r (fst (ticked_transition ticks input r))"
  by (simp add: ticked_transition_def repo_call.transition_artifact split: prod.splits)

lemma ticked_updated:
  assumes "artifacts_inv r" "ticked_transition ticks (transition_input a toStatus reason content) r = (r', Inr (Some u, True))"
  shows "ar_ID u = TrimSpace (ar_ID a)"
proof -
  let ?s = "\<lparr>as_repo = r, as_stores = [] :: unit gomap, as_primary = []\<rparr>"
  have "transitionArtifact ticks a toStatus reason content ?s = (?s\<lparr>as_repo := r'\<rparr>, Inr u)" using assms(2) by (simp add: transitionArtifact_def)
  then show ?thesis using assms(1) change_of_sel(3) by (auto elim!: transition_service [rotated])
qed

lemma heartbeat_calls:
  "repo_inv r \<Longrightarrow> calls_only hash beats \<Longrightarrow> artifactStatusHeartbeat_run ticks status reason beats a r = (r', a', e) \<Longrightarrow> TrimSpace (ar_ID a) = ar_ID a \<Longrightarrow>
   (repo_call hash)\<^sup>*\<^sup>* r r' \<and> ar_ID a' = ar_ID a"
proof (induction beats arbitrary: a r)
  case (Cons f beats)
  have f: "(repo_call hash)\<^sup>*\<^sup>* r (f r)" "calls_only hash beats" using Cons.prems(2) by (simp_all add: calls_only_def)
  have inv: "repo_inv (f r)" using run_inv [OF f(1) Cons.prems(1)] by simp
  obtain r1 x where x: "ticked_transition ticks (transition_input a status reason None) (f r) = (r1, x)" by fastforce
  have call: "repo_call hash (f r) r1" using ticked_call [of hash "f r" ticks "transition_input a status reason None"] x by simp
  then have r1: "(repo_call hash)\<^sup>*\<^sup>* r r1" "repo_inv r1" using f(1) call_inv [OF call inv] by auto
  show ?case
  proof (cases "\<exists>u. x = Inr (Some u, True)")
    case True
    then obtain u where u: "x = Inr (Some u, True)" by blast
    have "ar_ID u = ar_ID a" using ticked_updated [OF repo_invD(7) [OF inv] x [unfolded u]] Cons.prems(4) by simp
    then show ?thesis using Cons.IH [OF r1(2) f(2), of u] Cons.prems(3,4) x u r1(1) by (auto intro: rtranclp_trans)
  next
    case False
    then have "r' = r1 \<and> a' = a" using Cons.prems(3) x by (auto split: sum.splits option.splits bool.splits)
    then show ?thesis using r1(1) by simp
  qed
qed simp

section \<open>Uploads\<close>

lemma limited_reader:
  assumes "limit_reader (n + 1) body = Reader d" "int (length d) \<le> n"
  shows "body = Reader d"
  using assms by (cases body) (auto split: if_splits)

text \<open>An artifact with its content in a store, unless somebody else touches the object \<open>after\<close> it was put there.\<close>

definition uploaded ::
  "('s \<Rightarrow> string \<Rightarrow> string option) \<Rightarrow> ('s \<Rightarrow> 's) \<Rightarrow> (string \<Rightarrow> string) \<Rightarrow> ArtifactCreateInput \<Rightarrow> reader \<Rightarrow> Artifact \<Rightarrow> 's artifact_service \<Rightarrow> bool" where
  "uploaded content after sha256 input body a s \<longleftrightarrow>
     (\<exists>data. body = Reader data \<and> int (length data) \<le> effective_max_bytes input \<and>
        (0 < ci_ExpectedSizeBytes input \<longrightarrow> int (length data) = ci_ExpectedSizeBytes input) \<and>
        (ToLower (TrimSpace (ci_ExpectedSHA256 input)) \<noteq> [] \<longrightarrow> sha256 data = ToLower (TrimSpace (ci_ExpectedSHA256 input))) \<and>
        ar_Status a = ArtifactStatusReady \<and> ar_SizeBytes a = int (length data) \<and> ar_SHA256 a = sha256 data \<and>
        stored s (ar_ID a) = Some a \<and> ar_StoreKey a = ar_ID a @ ''/content'' \<and>
        ((\<forall>store. content (after store) (ar_StoreKey a) = content store (ar_StoreKey a)) \<longrightarrow>
           object content s (ar_StoreDriver a) (ar_StoreKey a) = Some data))"

context store_service
begin

lemma write_ready:
  assumes "repo_inv (as_repo s)" "calls_only hash (mw_repo rest # beats)" "\<And>x. ToLower (TrimSpace (sha256 x)) = sha256 x"
    and "writeArtifactContent ops sha256 ticks beats rest up input body handle store s = (s', Inr a)"
    and "TrimSpace (ar_ID up) = ar_ID up" "ar_StoreDriver up = TrimSpace handle" "ar_StoreKey up = ar_ID up @ ''/content''"
    and "TrimSpace (ar_StoreKey up) = ar_StoreKey up" "ci_MaxBytes input < max_int64"
  shows "uploaded content (mw_after rest) sha256 input body a s' \<and> ar_ID a = ar_ID up \<and> ar_StoreDriver a = ar_StoreDriver up"
proof -
  let ?m = "effective_max_bytes input" and ?key = "ar_StoreKey up"
  have m: "wrap64 (?m + 1) = ?m + 1" using assms(9) by (intro wrap64_id) (auto simp: effective_max_bytes_def int64_ok_def)
  obtain store1 w where put: "so_put ops ?key (limit_reader (?m + 1) body) (- 1) (mw_before rest store) = (store1, w)" by fastforce
  obtain r up1 e where beat: "artifactStatusHeartbeat_run ticks ArtifactStatusUploading ''ingest_heartbeat'' beats up (as_repo s) = (r, up1, e)"
    by (metis prod_cases3)
  let ?d = "so_reads ops ?key (limit_reader (?m + 1) body) (- 1) (mw_before rest store)"
  let ?c = "content_update input (int (length ?d)) (sha256 ?d) (ar_StoreDriver up) ?key"
  let ?s1 = "put_store handle (mw_after rest store1) (s\<lparr>as_repo := mw_repo rest r\<rparr>)"
  obtain n where w: "w = Inr n" "verifyArtifactContent input (int (length ?d)) (sha256 ?d) ?m = None" "e = None"
      "transitionArtifact ticks up1 ArtifactStatusReady [] (Some ?c) ?s1 = (s', Inr a)"
    using assms(4) unfolding writeArtifactContent_def Let_def m put beat
    by (auto split: option.splits sum.splits prod.splits)
  obtain d where d: "limit_reader (?m + 1) body = Reader d" "content store1 = (content (mw_before rest store))(?key \<mapsto> d)" using put_stored [OF put [unfolded w(1)]] by blast
  have read: "?d = d" using reads_stored put w(1) unfolding d(1) by blast
  note v = w(2) [unfolded read, unfolded verifyArtifactContent_def Let_def]
  have len: "int (length d) \<le> ?m" using v by (auto split: if_splits)
  have hb: "(repo_call hash)\<^sup>*\<^sup>* (as_repo s) r" "ar_ID up1 = ar_ID up"
    using heartbeat_calls [OF assms(1) _ beat assms(5), of hash] assms(2) by (simp_all add: calls_only_def)
  have "(repo_call hash)\<^sup>*\<^sup>* r (mw_repo rest r)" using assms(2) by (simp add: calls_only_def)
  then have inv: "artifacts_inv (as_repo ?s1)"
    using repo_invD(7) run_inv [OF rtranclp_trans [OF hb(1)] assms(1)] by simp
  from inv w(4) show ?thesis
  proof (cases rule: transition_service)
    case (changed old u r')
    obtain b reason at where b: "applyArtifactContentUpdate old ?c = Inr b" "u = transitioned_artifact b ArtifactStatusReady reason at"
      using changed(6) by (auto simp: change_of_def)
    have fields: "ar_SizeBytes b = int (length d)" "ar_SHA256 b = sha256 d" "ar_StoreDriver b = ar_StoreDriver up" "ar_StoreKey b = ?key"
      using b(1) assms(3,6,8) unfolding read by (auto simp: applyArtifactContentUpdate_def content_update_def Let_def split: if_splits)
    have id: "ar_ID a = ar_ID up" "a = u" using changed(1,4) change_of_sel(3) [OF changed(6)] hb(2) assms(5) by simp_all
    have "ArtifactStatusReady \<noteq> ArtifactStatusDeleted" by (simp add: artifact_status_defs)
    then have a: "ar_Status a = ArtifactStatusReady" "ar_SizeBytes a = int (length d)" "ar_SHA256 a = sha256 d" "ar_StoreDriver a = ar_StoreDriver up" "ar_StoreKey a = ?key"
      using fields by (simp_all add: id(2) b(2))
    moreover have "stored s' (ar_ID a) = Some a" using changed(2,4,7) id hb(2) assms(5) by simp
    moreover have "object content s' (ar_StoreDriver a) (ar_StoreKey a) = Some d"
      if "\<forall>store. content (mw_after rest store) (ar_StoreKey a) = content store (ar_StoreKey a)"
      using that changed(2) d(2) assms(6) by (simp add: object_put_store a(4,5))
    ultimately show ?thesis
      using limited_reader [OF d(1) len] len v assms(7) id(1) unfolding uploaded_def by (auto split: if_splits)
  qed simp
qed

lemma upload_ready:
  assumes "repo_inv (as_repo s)" "calls_only hash (mw_repo rest # beats)" "\<And>x. ToLower (TrimSpace (sha256 x)) = sha256 x" "ci_MaxBytes input < max_int64"
    and "transitionArtifact ticks artifact ArtifactStatusUploading reason (Some (content_update input0 0 [] driver (ar_ID artifact @ ''/content''))) s = (s1, Inr up)"
    and "writeArtifactContent ops sha256 ticks beats rest up input body driver store s1 = (s', Inr a)" "validArtifactID (ar_ID artifact)"
  shows "uploaded content (mw_after rest) sha256 input body a s' \<and> ar_ID a = ar_ID artifact \<and> ar_StoreDriver a = TrimSpace driver"
proof -
  have trim: "TrimSpace (ar_ID artifact) = ar_ID artifact" by (rule validArtifactID_trim [OF assms(7)])
  have "list_all graphic (ar_ID artifact @ ''/content'')" using validArtifactID_graphic [OF assms(7)] by (simp add: graphic_def less_eq_char_def)
  note key = TrimSpace_all_graphic [OF this]
  have "repo_call id (as_repo s) (as_repo s1)" by (metis transition_call assms(5) fst_conv)
  then have s1: "repo_inv (as_repo s1)" using call_inv assms(1) by blast
  from repo_invD(7) [OF assms(1)] assms(5) show ?thesis
  proof (cases rule: transition_service)
    case (changed old u r')
    obtain b reason at where b: "applyArtifactContentUpdate old (content_update input0 0 [] driver (ar_ID artifact @ ''/content'')) = Inr b"
        "u = transitioned_artifact b ArtifactStatusUploading reason at"
      using changed(6) by (auto simp: change_of_def)
    have "ar_StoreDriver b = TrimSpace driver" "ar_StoreKey b = ar_ID artifact @ ''/content''"
      using b(1) key by (auto simp: applyArtifactContentUpdate_def content_update_def Let_def split: if_splits)
    moreover have "ArtifactStatusUploading \<noteq> ArtifactStatusDeleted" by (simp add: artifact_status_defs)
    ultimately have up: "ar_StoreDriver up = TrimSpace driver" "ar_StoreKey up = ar_ID artifact @ ''/content''" using b(2) changed(1) by simp_all
    have id: "ar_ID up = ar_ID artifact" using changed(1,4) change_of_sel(3) [OF changed(6)] trim by simp
    have "uploaded content (mw_after rest) sha256 input body a s' \<and> ar_ID a = ar_ID up \<and> ar_StoreDriver a = ar_StoreDriver up"
      by (rule write_ready [OF s1 assms(2,3,6)]) (simp_all add: id up trim key assms(4))
    then show ?thesis using id up by simp
  qed simp
qed

end

lemma create_pending_artifact:
  assumes "repo_inv (as_repo s)" "create_pending ticks randomID checkedAt now input body s = (s1, Inr artifact)"
  shows "validArtifactID (ar_ID artifact)" "repo_inv (as_repo s1)"
proof -
  obtain operation event outbox r where c: "CreateArtifact artifact event outbox (as_repo s) = (r, None)" "s1 = s\<lparr>as_repo := r\<rparr>" "validArtifactID (ar_ID artifact)"
    using assms(2) unfolding create_pending_def Let_def
    by (auto simp: new_artifact_def split: option.splits sum.splits prod.splits if_splits)
  then have "repo_call id (as_repo s) (as_repo s1)" using repo_call.create_artifact [of id "as_repo s" artifact event outbox] by simp
  then show "repo_inv (as_repo s1)" using call_inv assms(1) by blast
  show "validArtifactID (ar_ID artifact)" by (rule c(3))
qed

lemma resume_uploads:
  assumes "resumeArtifactContent ops sha256 ticks now beats rest artifact input body s = (s', Inr a)"
    and "ar_Status artifact \<notin> {ArtifactStatusReady, ArtifactStatusDelivered}"
  obtains driver store s1 up where
    "transitionArtifact ticks artifact ArtifactStatusUploading ''ingest_claimed'' (Some (content_update input 0 [] driver (ar_ID artifact @ ''/content''))) s = (s1, Inr up)"
    "writeArtifactContent ops sha256 ticks beats rest up (input\<lparr>ci_StoreDriver := driver\<rparr>) body driver store s1 = (s', Inr a)"
proof -
  define driver where "driver = (if ar_StoreDriver artifact \<noteq> ArtifactStoreDriverNone \<and> TrimSpace (ar_StoreDriver artifact) \<noteq> []
    then ar_StoreDriver artifact else TrimSpace (ci_StoreDriver input))"
  obtain store where "artifactStore driver s = Some store"
    and r: "(case transitionArtifact ticks artifact ArtifactStatusUploading ''ingest_claimed''
        (Some (content_update input 0 [] driver (ar_ID artifact @ ''/content''))) s of
      (s1, Inl e) \<Rightarrow> (s1, Inl e)
    | (s1, Inr up) \<Rightarrow> writeArtifactContent ops sha256 ticks beats rest up (input\<lparr>ci_StoreDriver := driver\<rparr>) body driver store s1) = (s', Inr a)"
    using assms unfolding resumeArtifactContent_def Let_def driver_def [symmetric] by (cases "artifactStore driver s") (auto split: if_splits)
  obtain s1 x where x: "transitionArtifact ticks artifact ArtifactStatusUploading ''ingest_claimed''
        (Some (content_update input 0 [] driver (ar_ID artifact @ ''/content''))) s = (s1, x)" by fastforce
  from r x show ?thesis by (cases x) (auto intro: that)
qed

section \<open>References to artifacts\<close>

text \<open>
  The values of a document that refer to artifacts, wherever they are. A list of references that is not a
  list is one reference that cannot be one.
\<close>

fun references :: "json \<Rightarrow> json list"
  and item_references :: "json list \<Rightarrow> json list"
  and member_references :: "(string \<times> json) list \<Rightarrow> json list" where
  "references (JArray items) = item_references items"
| "references (JObject members) = member_references members"
| "references _ = []"
| "item_references [] = []"
| "item_references (item # items) = references item @ item_references items"
| "member_references [] = []"
| "member_references ((key, item) # members) =
     (if key \<in> {''artifact_id'', ''input_artifact_id''} then [item]
      else if key \<in> {''artifact_ids'', ''input_artifact_ids''} then (case item of JArray vs \<Rightarrow> vs | _ \<Rightarrow> [JNull])
      else references item) @ member_references members"

definition reference_id :: "json \<Rightarrow> string" where
  "reference_id v = (case v of JString k \<Rightarrow> TrimSpace k | _ \<Rightarrow> [])"

definition collected :: "json list \<Rightarrow> string list \<Rightarrow> artifact_error + string list" where
  "collected vs ids = (if length ids + length vs \<le> 32 \<and> list_all (\<lambda>v. reference_id v \<noteq> []) vs
     then Inr (ids @ map reference_id vs) else Inl ErrInvalidCanonicalRequest)"

lemma collected_append: "and_then (collected xs ids) (collected ys) = collected (xs @ ys) ids"
  by (auto simp: collected_def)

lemma collected_cong:
  assumes "\<And>ids'. length ids' \<le> 32 \<Longrightarrow> f ids' = collected ys ids'"
  shows "and_then (collected xs ids) f = collected (xs @ ys) ids"
  unfolding collected_append [symmetric] using assms by (auto simp: collected_def)

lemma append_id_collected: "length ids \<le> 32 \<Longrightarrow> append_id v ids = collected [v] ids"
  by (auto simp: append_id_def collected_def reference_id_def split: json.splits)

lemma append_ids_collected: "length ids \<le> 32 \<Longrightarrow> append_ids vs ids = collected vs ids"
proof (induction vs arbitrary: ids)
  case (Cons v vs)
  then show ?case using collected_cong [of "append_ids vs" vs "[v]" ids] by (simp add: append_id_collected)
qed (simp add: collected_def)

lemma oneOf_two: "oneOf x [a, b] \<longleftrightarrow> x \<in> {a, b}"
  by simp

lemma walk_collected:
  "length ids \<le> 32 \<Longrightarrow> walk doc ids = collected (references doc) ids"
  "length ids \<le> 32 \<Longrightarrow> walk_items items ids = collected (item_references items) ids"
  "length ids \<le> 32 \<Longrightarrow> walk_fields members ids = collected (member_references members) ids"
proof (induction doc ids and items ids and members ids rule: walk_walk_items_walk_fields.induct)
  case (8 item items ids)
  then show ?case using collected_cong [of "walk_items items" "item_references items" "references item" ids] by (auto simp: collected_def)
next
  case (10 key item members ids)
  let ?here = "if key \<in> {''artifact_id'', ''input_artifact_id''} then [item]
      else if key \<in> {''artifact_ids'', ''input_artifact_ids''} then (case item of JArray vs \<Rightarrow> vs | _ \<Rightarrow> [JNull]) else references item"
  let ?step = "if oneOf key [''artifact_id'', ''input_artifact_id''] then append_id item ids
        else if oneOf key [''artifact_ids'', ''input_artifact_ids'']
        then (case item of
                JArray vs \<Rightarrow> if length vs > 32 then Inl ErrInvalidCanonicalRequest else append_ids vs ids
              | _ \<Rightarrow> Inl ErrInvalidCanonicalRequest)
        else walk item ids"
  have bad: "collected [JNull] ids = Inl ErrInvalidCanonicalRequest" by (simp add: collected_def reference_id_def)
  have long: "length vs > 32 \<Longrightarrow> collected vs ids = Inl ErrInvalidCanonicalRequest" for vs by (simp add: collected_def)
  have step: "?step = collected ?here ids"
  proof (cases "key \<in> {''artifact_id'', ''input_artifact_id''}")
    case True
    then show ?thesis using 10(3) by (simp only: oneOf_two if_True append_id_collected)
  next
    case no: False
    show ?thesis
    proof (cases "key \<in> {''artifact_ids'', ''input_artifact_ids''}")
      case True
      then show ?thesis using no 10(3) bad long by (simp only: oneOf_two if_True if_False append_ids_collected) (simp split: json.splits)
    next
      case False
      then show ?thesis using no 10(1) 10(3) by (simp only: oneOf_two if_False not_False_eq_True simp_thms)
    qed
  qed
  have rest: "walk_fields members ids' = collected (member_references members) ids'" if "length ids' \<le> 32" for ids' using 10(2) that by blast
  show ?case
    unfolding walk_fields.simps member_references.simps step by (rule collected_cong [OF rest])
qed (simp_all add: collected_def)

section \<open>Properties\<close>


definition example_input :: ArtifactCreateInput where
  "example_input = \<lparr>ci_ID = ''artifact_b'', ci_OperationID = ''a'', ci_JobID = [], ci_AttemptID = [], ci_SourceArtifactID = [], ci_Role = ArtifactRoleInput,
     ci_Policy = [], ci_MediaType = [], ci_StoreDriver = ArtifactStoreDriverMemory, ci_ExternalReference = [], ci_ExpectedSizeBytes = 4,
     ci_ExpectedSHA256 = ''00'', ci_MaxBytes = 8, ci_RetainUntil = 0, ci_Pending = False\<rparr>"

definition example_upload_ticks :: ticks where
  "example_upload_ticks k v = (''b'' @ string_of_int v, ''b'' @ string_of_int v, 6)"


text \<open>
  An upload that has lost its claim is not kept from the store: the content is written, and on a failure
  deleted, before the version of the artifact is compared. Here a first upload stands still until its lease has
  ended, a second one takes the artifact over and makes it ready with its content, and then the first one goes on.
  It fails, as it must, but the ready artifact is left with the content of the failed upload, or with none when
  that content does not have the announced size.
\<close>

definition example_claimed :: "MemoryArtifactStore artifact_service \<times> (artifact_error + Artifact)" where
  "example_claimed = transitionArtifact example_upload_ticks example_artifact ArtifactStatusUploading []
     (Some (content_update example_input 0 [] ArtifactStoreDriverMemory ''artifact_a/content'')) (example_service [])"

definition example_takeover :: "MemoryArtifactStore artifact_service \<times> (artifact_error + Artifact)" where
  "example_takeover = resumeArtifactContent memory_store_ops (\<lambda>_. ''00'') example_upload_ticks (6 + artifactIngestLease) [] undisturbed
     (projr (snd example_claimed)) example_input (Reader ''good'') (fst example_claimed)"

definition example_stale :: "string \<Rightarrow> MemoryArtifactStore artifact_service \<times> (artifact_error + Artifact)" where
  "example_stale data = writeArtifactContent memory_store_ops (\<lambda>_. ''00'') example_upload_ticks []
     \<lparr>mw_repo = (\<lambda>_. as_repo (fst example_takeover)), mw_before = (\<lambda>_. the (artifactStore ArtifactStoreDriverMemory (fst example_takeover))), mw_after = id\<rparr>
     (projr (snd example_claimed)) example_input (Reader data) ArtifactStoreDriverMemory
     (the (artifactStore ArtifactStoreDriverMemory (fst example_claimed))) (fst example_claimed)"

definition observed :: "MemoryArtifactStore artifact_service \<times> (artifact_error + Artifact) \<Rightarrow> bool \<times> string option \<times> string option" where
  "observed run = (isl (snd run), map_option ar_Status (stored (fst run) ''artifact_a''),
     object go_get (fst run) ArtifactStoreDriverMemory ''artifact_a/content'')"

lemma stale_upload_not_fenced:
  "observed example_takeover = (False, Some ArtifactStatusReady, Some ''good'')"
  "observed (example_stale ''late'') = (True, Some ArtifactStatusReady, Some ''late'')"
  "observed (example_stale ''bad'') = (True, Some ArtifactStatusReady, None)"
  by code_simp+

text \<open>
  C36: a request reaches exactly the artifacts of its owner. The check passes if and only if the payload is
  empty, or decodes to a document with at most 32 references to artifacts, at any depth, all of them names,
  and each names an input artifact of the same owner that is ready or delivered, not past its retention, and
  has content in a store, at the moment at which the check reads it.
\<close>

theorem input_artifacts_exact:
  "ValidateInputArtifactsForAuth unmarshal owner now payload r = None \<longleftrightarrow>
     payload = [] \<or>
     (\<exists>document. unmarshal payload = Some document \<and> length (references document) \<le> 32 \<and>
        list_all (\<lambda>(i, v). \<exists>k a. v = JString k \<and> TrimSpace k \<noteq> [] \<and> go_get (artifacts (r i)) (TrimSpace k) = Some a \<and>
           artifactOwnerMatches a owner \<and> ar_Role a = ArtifactRoleInput \<and> ar_Status a \<in> {ArtifactStatusReady, ArtifactStatusDelivered} \<and>
           ar_RetainUntil a > now i \<and> ar_StoreDriver a \<noteq> ArtifactStoreDriverNone \<and> TrimSpace (ar_StoreKey a) \<noteq> [])
          (enumerate 0 (references document)))"
proof -
  have usable: "reference_id v \<noteq> [] \<and> usable_input owner (now i) (r i) (reference_id v) \<longleftrightarrow>
      (\<exists>k a. v = JString k \<and> TrimSpace k \<noteq> [] \<and> go_get (artifacts (r i)) (TrimSpace k) = Some a \<and>
         artifactOwnerMatches a owner \<and> ar_Role a = ArtifactRoleInput \<and> ar_Status a \<in> {ArtifactStatusReady, ArtifactStatusDelivered} \<and>
         ar_RetainUntil a > now i \<and> ar_StoreDriver a \<noteq> ArtifactStoreDriverNone \<and> TrimSpace (ar_StoreKey a) \<noteq> [])" for i v
    by (cases v) (auto simp: reference_id_def usable_input_def FindOwnedArtifact_def artifactDownloadable_def split: option.splits)
  have "ValidateInputArtifactsForAuth unmarshal owner now payload r = None \<longleftrightarrow>
     payload = [] \<or> (\<exists>document. unmarshal payload = Some document \<and> length (references document) \<le> 32 \<and>
        list_all (\<lambda>(i, v). reference_id v \<noteq> [] \<and> usable_input owner (now i) (r i) (reference_id v)) (enumerate 0 (references document)))"
    by (auto simp: ValidateInputArtifactsForAuth_def walk_collected(1) collected_def list_all_length nth_enumerate_eq split: option.splits sum.splits if_splits)
  then show ?thesis unfolding usable .
qed

end
