(* ===== verification/Artifact_Upload.thy ===== *)
theory Artifact_Upload
  imports Artifact_Content
begin

text \<open>
  Uploads in chunks, \<^verbatim>\<open>backend/internal/controlplane/artifact_upload.go\<close>. An upload session is an input
  artifact whose reference holds the state of the upload; each chunk is a derived artifact of the session.
  Completing the upload joins the chunks into the content of the session.

  The states are kept as JSON documents; writing and reading them are the parameters of the record
  \<open>upload_codec\<close>. What a caller passes as the authentication context is its owner.
\<close>

section \<open>Upload states\<close>

record ArtifactUploadState =
  us_ExpectedSize :: int
  us_ExpectedSHA256 :: string
  us_Offset :: int
  us_MediaType :: string
  us_StoreDriver :: string
  us_Completed :: bool

record artifactUploadChunkState =
  uc_Offset :: int
  uc_Size :: int
  uc_SHA256 :: string
  uc_MediaType :: string

record upload_codec =
  marshal_upload :: "ArtifactUploadState \<Rightarrow> string"
  unmarshal_upload :: "string \<Rightarrow> ArtifactUploadState option"
  marshal_chunk :: "artifactUploadChunkState \<Rightarrow> string"
  unmarshal_chunk :: "string \<Rightarrow> artifactUploadChunkState option"

datatype upload_error =
    ErrArtifactUploadInvalid
  | ErrArtifactUploadIncomplete
  | ErrArtifactUploadOffset
  | UploadArtifact artifact_error

text \<open>The strings that \<^verbatim>\<open>hex.DecodeString\<close> accepts.\<close>

definition hex_digit :: "char \<Rightarrow> bool" where
  "hex_digit c \<longleftrightarrow> rune_range CHR ''0'' CHR ''9'' c \<or> rune_range CHR ''a'' CHR ''f'' c \<or> rune_range CHR ''A'' CHR ''F'' c"

definition hex_decodable :: "string \<Rightarrow> bool" where
  "hex_decodable s \<longleftrightarrow> even (length s) \<and> list_all hex_digit s"

definition encodeArtifactUploadState :: "upload_codec \<Rightarrow> ArtifactUploadState \<Rightarrow> upload_error + string" where
  "encodeArtifactUploadState codec state0 =
     (let state = state0\<lparr>us_ExpectedSHA256 := ToLower (TrimSpace (us_ExpectedSHA256 state0)), us_MediaType := TrimSpace (us_MediaType state0),
            us_StoreDriver := TrimSpace (us_StoreDriver state0)\<rparr>
      in if us_ExpectedSize state \<le> 0 \<or> us_Offset state < 0 \<or> us_Offset state > us_ExpectedSize state \<or> length (us_ExpectedSHA256 state) \<noteq> 64 \<or>
            us_MediaType state = [] \<or> us_StoreDriver state = [] then Inl ErrArtifactUploadInvalid
         else if \<not> hex_decodable (us_ExpectedSHA256 state) then Inl ErrArtifactUploadInvalid
         else Inr (marshal_upload codec state))"

definition decodeArtifactUploadState :: "upload_codec \<Rightarrow> string \<Rightarrow> upload_error + ArtifactUploadState" where
  "decodeArtifactUploadState codec v =
     (if TrimSpace v = [] then Inl ErrArtifactUploadInvalid
      else (case unmarshal_upload codec v of
              None \<Rightarrow> Inl ErrArtifactUploadInvalid
            | Some state \<Rightarrow> and_then (encodeArtifactUploadState codec state) (\<lambda>_. Inr state)))"

definition encodeArtifactUploadChunkState :: "upload_codec \<Rightarrow> artifactUploadChunkState \<Rightarrow> upload_error + string" where
  "encodeArtifactUploadChunkState codec state =
     (if uc_Offset state < 0 \<or> uc_Size state \<le> 0 \<or> length (uc_SHA256 state) \<noteq> 64 \<or> TrimSpace (uc_MediaType state) = []
      then Inl ErrArtifactUploadInvalid
      else if \<not> hex_decodable (ToLower (uc_SHA256 state)) then Inl ErrArtifactUploadInvalid
      else Inr (marshal_chunk codec state))"

definition decodeArtifactUploadChunkState :: "upload_codec \<Rightarrow> string \<Rightarrow> upload_error + artifactUploadChunkState" where
  "decodeArtifactUploadChunkState codec v =
     (if TrimSpace v = [] then Inl ErrArtifactUploadInvalid
      else (case unmarshal_chunk codec v of
              None \<Rightarrow> Inl ErrArtifactUploadInvalid
            | Some state \<Rightarrow> and_then (encodeArtifactUploadChunkState codec state) (\<lambda>_. Inr state)))"

section \<open>Sessions\<close>

definition ArtifactUploadStateForAuth ::
  "upload_codec \<Rightarrow> AIJobOwner \<Rightarrow> string \<Rightarrow> 's artifact_service \<Rightarrow> upload_error + (Artifact \<times> ArtifactUploadState) option" where
  "ArtifactUploadStateForAuth codec owner k s =
     (case ArtifactForAuth owner k s of
        None \<Rightarrow> Inr None
      | Some artifact \<Rightarrow>
          if ar_Role artifact \<noteq> ArtifactRoleInput then Inr None
          else and_then (decodeArtifactUploadState codec (ar_ExternalReference artifact)) (\<lambda>state. Inr (Some (artifact, state))))"

definition UpdateArtifactUploadState ::
  "upload_codec \<Rightarrow> ticks \<Rightarrow> AIJobOwner \<Rightarrow> string \<Rightarrow> int \<Rightarrow> ArtifactUploadState \<Rightarrow> 's artifact_service \<Rightarrow>
   's artifact_service \<times> (upload_error + Artifact option \<times> bool)" where
  "UpdateArtifactUploadState codec ticks owner k expectedVersion0 state s =
     (case ArtifactForAuth owner k s of
        None \<Rightarrow> (s, Inr (None, False))
      | Some artifact \<Rightarrow>
          if ar_Role artifact \<noteq> ArtifactRoleInput \<or> \<not> oneOf (ar_Status artifact) [ArtifactStatusPending, ArtifactStatusUploading]
          then (s, Inl ErrArtifactUploadInvalid)
          else (case encodeArtifactUploadState codec state of
                  Inl e \<Rightarrow> (s, Inl e)
                | Inr reference \<Rightarrow>
                    let expectedVersion = (if expectedVersion0 \<le> 0 then ar_StatusVersion artifact else expectedVersion0) in
                    case ticked_transition ticks
                      \<lparr>ti_ArtifactID = ar_ID artifact, ti_ExpectedVersion = expectedVersion, ti_ToStatus = ArtifactStatusUploading,
                       ti_Reason = ''upload_chunk_committed'',
                       ti_Content = Some \<lparr>cu_MediaType = us_MediaType state, cu_SizeBytes = ar_SizeBytes artifact, cu_SHA256 = [],
                         cu_StoreDriver = ArtifactStoreDriverNone, cu_StoreKey = [], cu_ExternalReference = reference\<rparr>\<rparr> (as_repo s) of
                      (r, x) \<Rightarrow> (s\<lparr>as_repo := r\<rparr>, map_sum UploadArtifact id x)))"

definition ListArtifactUploadChunksForAuth :: "AIJobOwner \<Rightarrow> string \<Rightarrow> 's artifact_service \<Rightarrow> Artifact list" where
  "ListArtifactUploadChunksForAuth owner sessionID s =
     QueryArtifacts \<lparr>aq_Owner = Some owner, aq_ApplicationID = [], aq_Search = [], aq_OperationID = [], aq_JobID = [], aq_AttemptID = [],
       aq_SourceArtifactID = TrimSpace sessionID, aq_Role = ArtifactRoleDerived, aq_Policy = [], aq_Status = ArtifactStatusReady,
       aq_RetainBefore = None, aq_Limit = 100, aq_Offset = 0\<rparr> (as_repo s)"

section \<open>Completing an upload\<close>

type_synonym upload_chunk = "Artifact \<times> artifactUploadChunkState"

fun decode_chunks :: "upload_codec \<Rightarrow> Artifact list \<Rightarrow> upload_error + upload_chunk list" where
  "decode_chunks codec [] = Inr []"
| "decode_chunks codec (chunk # chunks) =
     and_then (decodeArtifactUploadChunkState codec (ar_ExternalReference chunk))
       (\<lambda>state. and_then (decode_chunks codec chunks) (\<lambda>rest. Inr ((chunk, state) # rest)))"

text \<open>The loop that opens the chunks in order: the end position and the bytes.\<close>

fun open_chunks :: "'s store_ops \<Rightarrow> 's artifact_service \<Rightarrow> upload_chunk list \<Rightarrow> int \<Rightarrow> string \<Rightarrow> upload_error + int \<times> string" where
  "open_chunks ops s [] position bytes = Inr (position, bytes)"
| "open_chunks ops s ((artifact, state) # rest) position bytes =
     (if uc_Offset state \<noteq> position \<or> uc_Size state \<noteq> ar_SizeBytes artifact then Inl ErrArtifactUploadOffset
      else (case artifactStore (ar_StoreDriver artifact) s of
              None \<Rightarrow> Inl (UploadArtifact ErrArtifactStoreRequired)
            | Some store \<Rightarrow>
                (case so_open ops (ar_StoreKey artifact) None store of
                   Inl e \<Rightarrow> Inl (UploadArtifact (ArtifactStoreError e))
                 | Inr opened \<Rightarrow> open_chunks ops s rest (wrap64 (position + uc_Size state)) (bytes @ rd_Body opened))))"

text \<open>What becomes of the chunks of a completed upload.\<close>

fun compact_chunks :: "'s store_ops \<Rightarrow> ticks \<Rightarrow> upload_chunk list \<Rightarrow> 's artifact_service \<Rightarrow> 's artifact_service" where
  "compact_chunks ops ticks [] s = s"
| "compact_chunks ops ticks ((artifact, _) # rest) s =
     (let s1 = (case artifactStore (ar_StoreDriver artifact) s of
                  None \<Rightarrow> s
                | Some store \<Rightarrow> put_store (ar_StoreDriver artifact) (fst (so_delete ops (ar_StoreKey artifact) store)) s)
      in compact_chunks ops ticks rest
           (s1\<lparr>as_repo := fst (ticked_transition ticks
              (transition_input artifact ArtifactStatusExpired ''upload_chunk_compacted'' None) (as_repo s1))\<rparr>))"

definition chunk_less :: "upload_chunk \<Rightarrow> upload_chunk \<Rightarrow> bool" where
  "chunk_less left right \<longleftrightarrow> uc_Offset (snd left) < uc_Offset (snd right)"

definition upload_transition :: "Artifact \<Rightarrow> int \<Rightarrow> string \<Rightarrow> string \<Rightarrow> ArtifactUploadState \<Rightarrow> int \<Rightarrow> string \<Rightarrow> string \<Rightarrow> string \<Rightarrow> string \<Rightarrow> ArtifactTransitionInput" where
  "upload_transition session expectedVersion toStatus reason state n sha driver key reference =
     \<lparr>ti_ArtifactID = ar_ID session, ti_ExpectedVersion = expectedVersion, ti_ToStatus = toStatus, ti_Reason = reason,
      ti_Content = Some \<lparr>cu_MediaType = us_MediaType state, cu_SizeBytes = n, cu_SHA256 = sha, cu_StoreDriver = driver, cu_StoreKey = key,
        cu_ExternalReference = reference\<rparr>\<rparr>"

text \<open>The second half, after the chunks have been opened: the joined content is stored and verified.\<close>

definition join_chunks ::
  "upload_codec \<Rightarrow> 's store_ops \<Rightarrow> (string \<Rightarrow> string) \<Rightarrow> ticks \<Rightarrow> Artifact \<Rightarrow> ArtifactUploadState \<Rightarrow> int \<Rightarrow> upload_chunk list \<Rightarrow> string \<Rightarrow> 's \<Rightarrow>
   's artifact_service \<Rightarrow> 's artifact_service \<times> (upload_error + Artifact)" where
  "join_chunks codec ops sha256 ticks session state expectedVersion ordered bytes store s =
     (let targetKey = ar_ID session @ ''/content'';
          consumed = so_reads ops targetKey (Reader bytes) (us_ExpectedSize state) store;
          total = int (length consumed); actualSHA = sha256 consumed
      in case so_put ops targetKey (Reader bytes) (us_ExpectedSize state) store of (store1, put) \<Rightarrow>
         let removed = put_store (us_StoreDriver state) (fst (so_delete ops targetKey store1)) s in
         if isl put \<or> projr put \<noteq> us_ExpectedSize state \<or> total \<noteq> us_ExpectedSize state \<or> actualSHA \<noteq> us_ExpectedSHA256 state then
           (if isl put \<and> projl put \<noteq> StoreIntegrity then (removed, Inl (UploadArtifact (ArtifactStoreError (projl put))))
            else (removed\<lparr>as_repo := fst (ticked_transition ticks (upload_transition session expectedVersion ArtifactStatusFailed ''integrity_failed''
                    state total actualSHA ArtifactStoreDriverNone [] (ar_ExternalReference session)) (as_repo removed))\<rparr>,
                  Inl (UploadArtifact ErrArtifactIntegrity)))
         else (case encodeArtifactUploadState codec (state\<lparr>us_Completed := True\<rparr>) of
                 Inl e \<Rightarrow> (removed, Inl e)
               | Inr reference \<Rightarrow>
                   let s1 = put_store (us_StoreDriver state) store1 s in
                   (case ticked_transition ticks (upload_transition session expectedVersion ArtifactStatusReady ''upload_completed''
                           state (us_ExpectedSize state) actualSHA (us_StoreDriver state) targetKey reference) (as_repo s1) of
                      (r, Inl e) \<Rightarrow> (removed\<lparr>as_repo := r\<rparr>, Inl (UploadArtifact e))
                    | (r, Inr (Some updated, True)) \<Rightarrow> (compact_chunks ops ticks ordered (s1\<lparr>as_repo := r\<rparr>), Inr updated)
                    | (r, Inr (updated, _)) \<Rightarrow>
                        (case updated of
                           Some u \<Rightarrow> if ar_Status u = ArtifactStatusReady then (s1\<lparr>as_repo := r\<rparr>, Inr u)
                                     else (removed\<lparr>as_repo := r\<rparr>, Inl ErrArtifactUploadOffset)
                         | None \<Rightarrow> (removed\<lparr>as_repo := r\<rparr>, Inl ErrArtifactUploadOffset)))))"

definition CompleteArtifactUpload ::
  "upload_codec \<Rightarrow> 's store_ops \<Rightarrow> (string \<Rightarrow> string) \<Rightarrow> ticks \<Rightarrow> AIJobOwner \<Rightarrow> string \<Rightarrow> int \<Rightarrow> 's artifact_service \<Rightarrow>
   's artifact_service \<times> (upload_error + Artifact)" where
  "CompleteArtifactUpload codec ops sha256 ticks owner sessionID expectedVersion0 s =
     (case ArtifactUploadStateForAuth codec owner sessionID s of
        Inr (Some (session, state)) \<Rightarrow>
          if ar_Status session = ArtifactStatusReady \<and> us_Completed state then (s, Inr session)
          else if ar_Status session \<noteq> ArtifactStatusUploading \<or> us_Offset state \<noteq> us_ExpectedSize state then (s, Inl ErrArtifactUploadIncomplete)
          else (let expectedVersion = (if expectedVersion0 \<le> 0 then ar_StatusVersion session else expectedVersion0) in
            case decode_chunks codec (ListArtifactUploadChunksForAuth owner (ar_ID session) s) of
              Inl e \<Rightarrow> (s, Inl e)
            | Inr chunks \<Rightarrow>
                let ordered = sort_by chunk_less chunks in
                if ordered = [] then (s, Inl ErrArtifactUploadIncomplete)
                else (case open_chunks ops s ordered 0 [] of
                        Inl e \<Rightarrow> (s, Inl e)
                      | Inr (position, bytes) \<Rightarrow>
                          if position \<noteq> us_ExpectedSize state then (s, Inl ErrArtifactUploadIncomplete)
                          else (case artifactStore (us_StoreDriver state) s of
                                  None \<Rightarrow> (s, Inl (UploadArtifact ErrArtifactStoreRequired))
                                | Some store \<Rightarrow> join_chunks codec ops sha256 ticks session state expectedVersion ordered bytes store s)))
      | _ \<Rightarrow> (s, Inl (UploadArtifact ErrArtifactNotFound)))"

section \<open>The chunks of a session\<close>

text \<open>Chunks that follow each other from one position to another.\<close>

fun contiguous :: "int \<Rightarrow> upload_chunk list \<Rightarrow> int \<Rightarrow> bool" where
  "contiguous position [] end_position \<longleftrightarrow> position = end_position"
| "contiguous position ((artifact, state) # rest) end_position \<longleftrightarrow>
     uc_Offset state = position \<and> uc_Size state = ar_SizeBytes artifact \<and> contiguous (wrap64 (position + uc_Size state)) rest end_position"

definition chunk_of :: "AIJobOwner \<Rightarrow> string \<Rightarrow> Artifact \<Rightarrow> bool" where
  "chunk_of owner sessionID a \<longleftrightarrow> artifactOwnerMatches a owner \<and> ar_SourceArtifactID a = sessionID \<and> ar_Role a = ArtifactRoleDerived \<and>
     ar_Status a = ArtifactStatusReady"

lemma list_chunks:
  fixes s :: "'s artifact_service"
  assumes "artifacts_inv (as_repo s)" "TrimSpace k = k" "k \<noteq> []" "a \<in> set (ListArtifactUploadChunksForAuth owner k s)"
  shows "stored s (ar_ID a) = Some a" "chunk_of owner k a"
proof -
  have role: "TrimSpace ArtifactRoleDerived = ArtifactRoleDerived" "ArtifactRoleDerived \<noteq> []" "ArtifactStatusReady \<noteq> []" by code_simp+
  have a: "a \<in> set (QueryArtifacts q (as_repo s)) \<Longrightarrow> stored s (ar_ID a) = Some a \<and> artifactMatchesQuery a q" for q
    using query_batch(1) [OF assms(1), of q] query_batch(2) [OF assms(1), of a q] by (simp add: batch_def)
  show "stored s (ar_ID a) = Some a" using a assms(4) unfolding ListArtifactUploadChunksForAuth_def by blast
  show "chunk_of owner k a"
    using a [OF assms(4) [unfolded ListArtifactUploadChunksForAuth_def]] assms(2,3) role
    by (auto simp: artifactMatchesQuery_def chunk_of_def Let_def split: if_splits)
qed

lemma list_chunks_length: "length (ListArtifactUploadChunksForAuth owner k s) \<le> 100"
  by (simp add: ListArtifactUploadChunksForAuth_def QueryArtifacts_def paginateArtifacts_def artifactQueryLimit_def Let_def)

lemma decode_chunks_decoded:
  "decode_chunks codec as = Inr cs \<Longrightarrow>
   map fst cs = as \<and> (\<forall>c \<in> set cs. decodeArtifactUploadChunkState codec (ar_ExternalReference (fst c)) = Inr (snd c))"
  by (induction as arbitrary: cs) (fastforce simp: and_then_Inr_iff)+

lemma compact_frame:
  assumes "artifacts_inv (as_repo s)" "\<forall>c \<in> set cs. TrimSpace (ar_ID (fst c)) \<noteq> k" "\<forall>c \<in> set cs. ar_StoreKey (fst c) \<noteq> key"
    and "\<And>k' st. k' \<noteq> key \<Longrightarrow> content (fst (so_delete ops k' st)) key = content st key"
  shows "stored (compact_chunks ops ticks cs s) k = stored s k \<and> object content (compact_chunks ops ticks cs s) d key = object content s d key"
  using assms(1-3)
proof (induction cs arbitrary: s)
  case (Cons c cs)
  obtain a st where c: "c = (a, st)" by (cases c)
  define s1 where "s1 = (case artifactStore (ar_StoreDriver a) s of None \<Rightarrow> s
    | Some store \<Rightarrow> put_store (ar_StoreDriver a) (fst (so_delete ops (ar_StoreKey a) store)) s)"
  have repo: "as_repo s1 = as_repo s" by (simp add: s1_def split: option.splits)
  have "ar_StoreKey a \<noteq> key" using Cons.prems(3) c by simp
  then have obj: "object content s1 d key = object content s d key"
    using assms(4) by (simp add: s1_def object_put_store split: option.splits) (auto simp: object_def artifactStore_def)
  let ?s2 = "s1\<lparr>as_repo := fst (ticked_transition ticks (transition_input a ArtifactStatusExpired ''upload_chunk_compacted'' None) (as_repo s1))\<rparr>"
  obtain t x where t: "transitionArtifact ticks a ArtifactStatusExpired ''upload_chunk_compacted'' None s1 = (t, x)" by fastforce
  then have t2: "as_repo t = as_repo ?s2" by (auto simp: transitionArtifact_def split: prod.splits sum.splits option.splits bool.splits)
  from repo Cons.prems(1) have "artifacts_inv (as_repo s1)" by simp
  from this t have "artifacts_inv (as_repo t) \<and> stored t k = stored s k"
  proof (cases rule: transition_service)
    case refused
    then show ?thesis using repo Cons.prems(1) by simp
  next
    case (changed old u r')
    then show ?thesis using repo Cons.prems(2) c by auto
  qed
  then have "artifacts_inv (as_repo ?s2)" "stored ?s2 k = stored s k" unfolding t2 by simp_all
  then show ?case
    using Cons.IH [of ?s2] Cons.prems(2,3) obj unfolding c compact_chunks.simps s1_def [symmetric] Let_def by simp
qed simp

context store_service
begin

lemma open_chunks_bytes:
  "open_chunks ops s cs p bytes = Inr (p', bytes') \<Longrightarrow>
   \<exists>bodies. bytes' = bytes @ concat bodies \<and> contiguous p cs p' \<and>
     list_all2 (\<lambda>c body. object content s (ar_StoreDriver (fst c)) (ar_StoreKey (fst c)) = Some body) cs bodies"
proof (induction cs arbitrary: p bytes)
  case (Cons c cs)
  obtain a st where c: "c = (a, st)" by (cases c)
  obtain store rd where o: "uc_Offset st = p" "uc_Size st = ar_SizeBytes a" "artifactStore (ar_StoreDriver a) s = Some store"
      "so_open ops (ar_StoreKey a) None store = Inr rd" "open_chunks ops s cs (wrap64 (p + uc_Size st)) (bytes @ rd_Body rd) = Inr (p', bytes')"
    using Cons.prems c by (auto split: if_splits option.splits sum.splits)
  obtain bodies where b: "bytes' = (bytes @ rd_Body rd) @ concat bodies" "contiguous (wrap64 (p + uc_Size st)) cs p'"
      "list_all2 (\<lambda>c body. object content s (ar_StoreDriver (fst c)) (ar_StoreKey (fst c)) = Some body) cs bodies"
    using Cons.IH [OF o(5)] by blast
  have "object content s (ar_StoreDriver a) (ar_StoreKey a) = Some (rd_Body rd)" using opened [OF o(4)] o(3) by (auto simp: object_def)
  then show ?case using b o(1,2) c by (intro exI [of _ "rd_Body rd # bodies"]) simp
qed simp

lemma delete_other: "k' \<noteq> key \<Longrightarrow> content (fst (so_delete ops k' st)) key = content st key"
  using touches_frame [OF touch_delete [of k' "{k'}"], of key] by simp

lemma join_ready:
  assumes "artifacts_inv (as_repo s)" "\<And>x. ToLower (TrimSpace (sha256 x)) = sha256 x"
    and "stored s (ar_ID session) = Some session" "ar_Status session \<noteq> ArtifactStatusReady" "validArtifactID (ar_ID session)"
    and "join_chunks codec ops sha256 ticks session state v cs bytes store s = (s', Inr a)"
    and "\<forall>c \<in> set cs. TrimSpace (ar_ID (fst c)) \<noteq> ar_ID session" "\<forall>c \<in> set cs. ar_StoreKey (fst c) \<noteq> ar_ID session @ ''/content''"
  shows "int (length bytes) = us_ExpectedSize state \<and> sha256 bytes = us_ExpectedSHA256 state \<and> ar_ID a = ar_ID session \<and>
    ar_Status a = ArtifactStatusReady \<and> ar_SizeBytes a = int (length bytes) \<and> ar_SHA256 a = sha256 bytes \<and> stored s' (ar_ID a) = Some a \<and>
    ar_StoreKey a = ar_ID session @ ''/content'' \<and> object content s' (ar_StoreDriver a) (ar_StoreKey a) = Some bytes"
proof -
  let ?key = "ar_ID session @ ''/content''"
  have trim: "TrimSpace (ar_ID session) = ar_ID session" by (rule validArtifactID_trim [OF assms(5)])
  have "list_all graphic ?key" using validArtifactID_graphic [OF assms(5)] by (simp add: graphic_def less_eq_char_def)
  note key = TrimSpace_all_graphic [OF this]
  obtain store1 put where put: "so_put ops ?key (Reader bytes) (us_ExpectedSize state) store = (store1, put)" by fastforce
  note j = assms(6) [unfolded join_chunks_def Let_def put prod.case]
  obtain n reference where n: "put = Inr n" "n = us_ExpectedSize state"
    "sha256 (so_reads ops ?key (Reader bytes) (us_ExpectedSize state) store) = us_ExpectedSHA256 state"
    and e: "encodeArtifactUploadState codec (state\<lparr>us_Completed := True\<rparr>) = Inr reference"
    using j by (cases put) (auto split: if_splits sum.splits)
  have read: "so_reads ops ?key (Reader bytes) (us_ExpectedSize state) store = bytes" using reads_stored put n(1) by blast
  have w: "int (length bytes) = us_ExpectedSize state" "content store1 = (content store)(?key \<mapsto> bytes)" using put_stored [OF put [unfolded n(1)]] n(2) by auto
  let ?in = "upload_transition session v ArtifactStatusReady ''upload_completed'' state (us_ExpectedSize state) (sha256 bytes) (us_StoreDriver state) ?key reference"
  let ?s1 = "put_store (us_StoreDriver state) store1 s"
  obtain eventID outboxID now where tick: "ticks (ar_ID session) v = (eventID, outboxID, now)" by (metis prod_cases3)
  obtain r x where x: "TransitionArtifact eventID outboxID ?in now (as_repo s) = (r, x)" by fastforce
  have tx: "ticked_transition ticks ?in (as_repo ?s1) = (r, x)" using tick x by (simp add: ticked_transition_def upload_transition_def)
  have ti: "ti_ArtifactID ?in = ar_ID session" "ti_ExpectedVersion ?in = v" "ti_ToStatus ?in = ArtifactStatusReady"
    by (simp_all add: upload_transition_def)
  from assms(1) x show ?thesis
  proof (cases rule: TransitionArtifact_cases)
    case refused
    have "\<exists>b. x = Inr (Some session, b) \<or> isl x"
      using x assms(3) trim refused(2) by (auto simp: TransitionArtifact_def ti split: if_splits sum.splits prod.splits option.splits)
    then consider e where "x = Inl e" | "x = Inr (Some session, False)" using refused(2) by (cases x) auto
    then have False by cases (use j n read w(1) e tx assms(4) in simp_all)
    then show ?thesis by simp
  next
    case (changed old b u event outbox)
    have old: "old = session" using changed(1,2) assms(3) trim by (simp add: ti)
    have done_: "a = u" "s' = compact_chunks ops ticks cs (?s1\<lparr>as_repo := r\<rparr>)" using j n read w(1) e tx changed(13) by simp_all
    have b: "ar_SizeBytes b = us_ExpectedSize state" "ar_SHA256 b = sha256 bytes" "ar_StoreDriver b = TrimSpace (us_StoreDriver state)" "ar_StoreKey b = ?key"
      using changed(4) assms(2) key by (auto simp: upload_transition_def applyArtifactContentUpdate_def Let_def split: if_splits)
    have "ArtifactStatusReady \<noteq> ArtifactStatusDeleted" by (simp add: artifact_status_defs)
    then have a: "ar_Status a = ArtifactStatusReady" "ar_SizeBytes a = us_ExpectedSize state" "ar_SHA256 a = sha256 bytes"
      "ar_StoreDriver a = TrimSpace (us_StoreDriver state)" "ar_StoreKey a = ?key" "ar_ID a = ar_ID session"
      using b changed(6,7) by (simp_all add: done_(1) ti old artifact_identity_def)
    have "artifacts_inv (table_change u event (as_repo s))" by (rule artifact_step_inv [OF changed(10) assms(1)])
    then have inv: "artifacts_inv r" by (rule artifacts_inv_mono) (simp_all add: changed(12) table_change_def)
    have "stored s' (ar_ID session) = go_get (artifacts r) (ar_ID session) \<and>
        object content s' (us_StoreDriver state) ?key = object content ?s1 (us_StoreDriver state) ?key"
      using compact_frame [of "?s1\<lparr>as_repo := r\<rparr>" cs "ar_ID session" ?key content ops ticks "us_StoreDriver state"] inv assms(7,8) delete_other
      unfolding done_(2) by simp
    moreover have "go_get (artifacts r) (ar_ID session) = Some a" using changed(12) a(6) done_(1) by simp
    moreover have "object content s' (ar_StoreDriver a) ?key = object content s' (us_StoreDriver state) ?key" by (simp add: object_def artifactStore_def a(4))
    ultimately show ?thesis using a w n(3) read by (simp add: object_put_store)
  qed
qed

end

text \<open>A completed upload: its state, its chunks, and that they are other artifacts than the session.\<close>

lemma complete_cases:
  assumes "artifacts_inv (as_repo s)" "\<forall>k x. stored s k = Some x \<longrightarrow> validArtifactID k \<and> ar_StoreKey x \<in> {[], k @ ''/content''}"
    and "ArtifactForAuth owner sessionID s = Some session" "ar_Status session \<noteq> ArtifactStatusReady"
    and "CompleteArtifactUpload codec ops sha256 ticks owner sessionID v s = (s', Inr a)"
  obtains state chunks bytes store v' where "decodeArtifactUploadState codec (ar_ExternalReference session) = Inr state"
    "stored s (ar_ID session) = Some session" "validArtifactID (ar_ID session)" "length chunks \<le> 100"
    "open_chunks ops s chunks 0 [] = Inr (us_ExpectedSize state, bytes)" "join_chunks codec ops sha256 ticks session state v' chunks bytes store s = (s', Inr a)"
    "\<forall>c \<in> set chunks. stored s (ar_ID (fst c)) = Some (fst c) \<and> chunk_of owner (ar_ID session) (fst c) \<and>
       decodeArtifactUploadChunkState codec (ar_ExternalReference (fst c)) = Inr (snd c)"
    "\<forall>c \<in> set chunks. TrimSpace (ar_ID (fst c)) \<noteq> ar_ID session" "\<forall>c \<in> set chunks. ar_StoreKey (fst c) \<noteq> ar_ID session @ ''/content''"
proof -
  obtain state where st: "decodeArtifactUploadState codec (ar_ExternalReference session) = Inr state"
    and up: "ArtifactUploadStateForAuth codec owner sessionID s = Inr (Some (session, state))"
    using assms(3-5) by (auto simp: CompleteArtifactUpload_def ArtifactUploadStateForAuth_def and_then_def split: if_splits sum.splits)
  have stored: "stored s (TrimSpace sessionID) = Some session"
    using assms(3) by (auto simp: ArtifactForAuth_def FindOwnedArtifact_def split: option.splits if_splits)
  then have id: "ar_ID session = TrimSpace sessionID" "ar_ID session \<noteq> []" using artifact_get [OF assms(1) stored] by (auto simp: artifact_ok_def)
  have session: "stored s (ar_ID session) = Some session" "validArtifactID (ar_ID session)" using stored assms(2) id(1) by auto
  let ?L = "ListArtifactUploadChunksForAuth owner (ar_ID session) s"
  obtain cs bytes store v' where c: "decode_chunks codec ?L = Inr cs" "open_chunks ops s (sort_by chunk_less cs) 0 [] = Inr (us_ExpectedSize state, bytes)"
      "join_chunks codec ops sha256 ticks session state v' (sort_by chunk_less cs) bytes store s = (s', Inr a)"
    using assms(4,5) up by (auto simp: CompleteArtifactUpload_def Let_def split: if_splits sum.splits option.splits)
  let ?cs = "sort_by chunk_less cs"
  note dec = decode_chunks_decoded [OF c(1)]
  have chunk: "stored s (ar_ID (fst x)) = Some (fst x) \<and> chunk_of owner (ar_ID session) (fst x)" if "x \<in> set ?cs" for x
  proof -
    have "fst x \<in> set ?L" using that conjunct1 [OF dec] by (metis image_eqI image_set set_sort_by)
    then show ?thesis using list_chunks [OF assms(1) validArtifactID_trim [OF session(2)] id(2)] by blast
  qed
  have other: "TrimSpace (ar_ID (fst x)) \<noteq> ar_ID session \<and> ar_StoreKey (fst x) \<noteq> ar_ID session @ ''/content''" if "x \<in> set ?cs" for x
  proof -
    note x = chunk [OF that]
    have "fst x \<noteq> session" using x assms(4) unfolding chunk_of_def by metis
    then have "ar_ID (fst x) \<noteq> ar_ID session" using x session(1) by (metis option.inject)
    moreover have "TrimSpace (ar_ID (fst x)) = ar_ID (fst x)" using x assms(2) validArtifactID_trim by blast
    moreover have "ar_StoreKey (fst x) \<in> {[], ar_ID (fst x) @ ''/content''}" using x assms(2) by blast
    ultimately show ?thesis by auto
  qed
  have "length ?cs \<le> 100" using conjunct1 [OF dec] list_chunks_length [of owner "ar_ID session" s] by (metis length_map length_sort_by)
  then show ?thesis using that [OF st session _ c(2,3)] chunk other conjunct2 [OF dec] by simp
qed

section \<open>Properties\<close>

text \<open>
  C21: a completed upload is its chunks. When completing an upload makes its session ready, the chunks were
  ready artifacts of the session and of the same owner, at most 100, that follow each other from the start to
  the announced size; the content of the session is the content of the chunks in this order; it has the
  announced size and digest, and both are recorded. The digest is assumed to be in lower case, and stored
  artifacts to have the identifiers and keys that the service gives them.
\<close>

theorem chunked_upload_complete:
  assumes "(repo_call hash)\<^sup>*\<^sup>* NewMemoryRepository (as_repo s)"
    and "\<forall>k x. stored s k = Some x \<longrightarrow> validArtifactID k \<and> ar_StoreKey x \<in> {[], k @ ''/content''}" "\<forall>x. ToLower (TrimSpace (sha256 x)) = sha256 x"
    and "ArtifactForAuth owner sessionID s = Some session" "ar_Status session \<noteq> ArtifactStatusReady"
    and "CompleteArtifactUpload codec memory_store_ops sha256 ticks owner sessionID v s = (s', Inr a)"
  shows "\<exists>state chunks bodies. decodeArtifactUploadState codec (ar_ExternalReference session) = Inr state \<and> length chunks \<le> 100 \<and>
    list_all (\<lambda>(x, st). stored s (ar_ID x) = Some x \<and> chunk_of owner (ar_ID session) x \<and>
      decodeArtifactUploadChunkState codec (ar_ExternalReference x) = Inr st) chunks \<and>
    contiguous 0 chunks (us_ExpectedSize state) \<and>
    list_all2 (\<lambda>c body. object go_get s (ar_StoreDriver (fst c)) (ar_StoreKey (fst c)) = Some body) chunks bodies \<and>
    int (length (concat bodies)) = us_ExpectedSize state \<and> sha256 (concat bodies) = us_ExpectedSHA256 state \<and>
    ar_ID a = ar_ID session \<and> ar_Status a = ArtifactStatusReady \<and> ar_SizeBytes a = us_ExpectedSize state \<and> ar_SHA256 a = us_ExpectedSHA256 state \<and>
    stored s' (ar_ID a) = Some a \<and> object go_get s' (ar_StoreDriver a) (ar_StoreKey a) = Some (concat bodies)"
proof -
  have inv: "artifacts_inv (as_repo s)" using repo_invD(7) run_inv [OF assms(1) repo_inv_new] by blast
  obtain state cs bytes store v' where c: "decodeArtifactUploadState codec (ar_ExternalReference session) = Inr state"
    "stored s (ar_ID session) = Some session" "validArtifactID (ar_ID session)" "length cs \<le> 100"
    "open_chunks memory_store_ops s cs 0 [] = Inr (us_ExpectedSize state, bytes)"
    "join_chunks codec memory_store_ops sha256 ticks session state v' cs bytes store s = (s', Inr a)"
    "\<forall>c \<in> set cs. stored s (ar_ID (fst c)) = Some (fst c) \<and> chunk_of owner (ar_ID session) (fst c) \<and>
       decodeArtifactUploadChunkState codec (ar_ExternalReference (fst c)) = Inr (snd c)"
    "\<forall>c \<in> set cs. TrimSpace (ar_ID (fst c)) \<noteq> ar_ID session" "\<forall>c \<in> set cs. ar_StoreKey (fst c) \<noteq> ar_ID session @ ''/content''"
    by (rule complete_cases [OF inv assms(2,4-6)])
  obtain bodies where b: "bytes = concat bodies" "contiguous 0 cs (us_ExpectedSize state)"
      "list_all2 (\<lambda>c body. object go_get s (ar_StoreDriver (fst c)) (ar_StoreKey (fst c)) = Some body) cs bodies"
    using memory_service.open_chunks_bytes [OF c(5)] by auto
  have sha: "ToLower (TrimSpace (sha256 x)) = sha256 x" for x using assms(3) by blast
  have "int (length bytes) = us_ExpectedSize state" "sha256 bytes = us_ExpectedSHA256 state" "ar_ID a = ar_ID session"
      "ar_Status a = ArtifactStatusReady" "ar_SizeBytes a = int (length bytes)" "ar_SHA256 a = sha256 bytes" "stored s' (ar_ID a) = Some a"
      "object go_get s' (ar_StoreDriver a) (ar_StoreKey a) = Some bytes"
    using memory_service.join_ready [where ?sha256.0 = sha256, OF inv sha c(2) assms(5) c(3,6,8,9)] by blast+
  moreover have "list_all (\<lambda>(x, st). stored s (ar_ID x) = Some x \<and> chunk_of owner (ar_ID session) x \<and>
      decodeArtifactUploadChunkState codec (ar_ExternalReference x) = Inr st) cs"
    using c(7) by (simp add: list_all_iff split_beta)
  ultimately show ?thesis
    unfolding b(1) using c(1,4) b(2,3) by (intro exI [of _ state] exI [of _ cs] exI [of _ bodies] conjI) (simp_all only:)
qed

text \<open>Lower case of one byte at a time, for the evaluation of long strings.\<close>

definition lower_wide :: "char \<Rightarrow> string \<Rightarrow> string" where
  "lower_wide a s = ToLower (a # s)"

lemma lower_wide_code [code]:
  "lower_wide a s =
     (case s of
        b # c # s' \<Rightarrow>
          if a = CHR 0xC4 \<and> b = CHR 0xB0 then CHR ''i'' # ToLower (c # s')
          else if a = CHR 0xE2 \<and> b = CHR 0x84 \<and> c = CHR 0xAA then CHR ''k'' # ToLower s'
          else lower_byte a # ToLower s
      | [b] \<Rightarrow> if a = CHR 0xC4 \<and> b = CHR 0xB0 then [CHR ''i''] else lower_byte a # ToLower s
      | [] \<Rightarrow> [lower_byte a])"
  by (simp add: lower_wide_def split: list.splits)

lemma ToLower_code [code]:
  "ToLower [] = []" "ToLower (a # s) = (if a = CHR 0xC4 \<or> a = CHR 0xE2 then lower_wide a s else lower_byte a # ToLower s)"
  by (auto simp: lower_wide_def split: list.splits)

text \<open>A session with one chunk.\<close>

definition example_session :: MemoryRepository where
  "example_session =
     (let r = fst (TransitionArtifact ''u'' ''u'' \<lparr>ti_ArtifactID = ''artifact_a'', ti_ExpectedVersion = 1, ti_ToStatus = ArtifactStatusUploading,
            ti_Reason = [], ti_Content = Some \<lparr>cu_MediaType = ''m'', cu_SizeBytes = 0, cu_SHA256 = [], cu_StoreDriver = ArtifactStoreDriverNone,
              cu_StoreKey = [], cu_ExternalReference = ''session''\<rparr>\<rparr> 6 example_created);
          chunk = example_artifact\<lparr>ar_ID := ''artifact_c'', ar_SourceArtifactID := ''artifact_a'', ar_Role := ArtifactRoleDerived\<rparr>
      in case newArtifactEventRecords ''c'' ''c'' chunk [] [] 6 of
           Inl _ \<Rightarrow> r
         | Inr (event, outbox) \<Rightarrow>
             fst (TransitionArtifact ''d'' ''d'' \<lparr>ti_ArtifactID = ''artifact_c'', ti_ExpectedVersion = 1, ti_ToStatus = ArtifactStatusReady,
               ti_Reason = [], ti_Content = Some \<lparr>cu_MediaType = ''m'', cu_SizeBytes = 3, cu_SHA256 = [], cu_StoreDriver = ArtifactStoreDriverMemory,
                 cu_StoreKey = ''artifact_c/content'', cu_ExternalReference = ''chunk''\<rparr>\<rparr> 6 (fst (CreateArtifact chunk event outbox r))))"

definition example_upload :: "MemoryArtifactStore artifact_service" where
  "example_upload = \<lparr>as_repo = example_session, as_stores = [(ArtifactStoreDriverMemory, [(''artifact_c/content'', ''abc'')])],
     as_primary = ArtifactStoreDriverMemory\<rparr>"

definition example_sha :: "string \<Rightarrow> string" where
  "example_sha data = replicate 64 (CHR ''0'')"

definition example_codec :: upload_codec where
  "example_codec = \<lparr>marshal_upload = (\<lambda>_. ''session''),
     unmarshal_upload = (\<lambda>_. Some \<lparr>us_ExpectedSize = 3, us_ExpectedSHA256 = example_sha [], us_Offset = 3, us_MediaType = ''m'',
       us_StoreDriver = ArtifactStoreDriverMemory, us_Completed = False\<rparr>),
     marshal_chunk = (\<lambda>_. ''chunk''),
     unmarshal_chunk = (\<lambda>_. Some \<lparr>uc_Offset = 0, uc_Size = 3, uc_SHA256 = example_sha [], uc_MediaType = ''m''\<rparr>)\<rparr>"

lemma example_session_run: "(repo_call hash)\<^sup>*\<^sup>* NewMemoryRepository example_session"
proof -
  let ?u = "\<lparr>ti_ArtifactID = ''artifact_a'', ti_ExpectedVersion = 1, ti_ToStatus = ArtifactStatusUploading,
            ti_Reason = [], ti_Content = Some \<lparr>cu_MediaType = ''m'', cu_SizeBytes = 0, cu_SHA256 = [], cu_StoreDriver = ArtifactStoreDriverNone,
              cu_StoreKey = [], cu_ExternalReference = ''session''\<rparr>\<rparr>"
  let ?r = "fst (TransitionArtifact ''u'' ''u'' ?u 6 example_created)"
  have r: "(repo_call hash)\<^sup>*\<^sup>* NewMemoryRepository ?r" by (rule rtranclp.rtrancl_into_rtrancl [OF example_created_run repo_call.transition_artifact])
  have "(repo_call hash)\<^sup>*\<^sup>* ?r (fst (TransitionArtifact x y i t (fst (CreateArtifact c e o' ?r))))" for x y i t c e o'
    by (rule converse_rtranclp_into_rtranclp, rule repo_call.create_artifact, rule r_into_rtranclp, rule repo_call.transition_artifact)
  then have "(repo_call hash)\<^sup>*\<^sup>* ?r example_session" unfolding example_session_def Let_def by (auto split: sum.splits)
  with r show ?thesis by (rule rtranclp_trans)
qed

theorem chunked_upload_complete_witness:
  "\<exists>s' a. CompleteArtifactUpload example_codec memory_store_ops example_sha example_upload_ticks (artifactOwnerFromOperation (example_operation ''a''))
       ''artifact_a'' 0 example_upload = (s', Inr a) \<and> ar_Status a = ArtifactStatusReady \<and> ar_SizeBytes a = 3"
proof -
  let ?owner = "artifactOwnerFromOperation (example_operation ''a'')"
  let ?run = "CompleteArtifactUpload example_codec memory_store_ops example_sha example_upload_ticks ?owner ''artifact_a'' 0 example_upload"
  have "\<not> isl (snd ?run)" by code_simp
  then obtain s' a where r: "?run = (s', Inr a)" by (metis isl_def prod.collapse sum.exhaust_sel)
  have reach: "(repo_call id)\<^sup>*\<^sup>* NewMemoryRepository (as_repo example_upload)" using example_session_run by (simp add: example_upload_def)
  have "map (\<lambda>(k, x). (k, ar_StoreKey x)) (artifacts (as_repo example_upload)) = [(''artifact_a'', []), (''artifact_c'', ''artifact_c/content'')]" by code_simp
  moreover have "validArtifactID ''artifact_a''" "validArtifactID ''artifact_c''" by code_simp+
  ultimately have ids: "\<forall>k x. stored example_upload k = Some x \<longrightarrow> validArtifactID k \<and> ar_StoreKey x \<in> {[], k @ ''/content''}"
    by (auto split: if_splits)
  have "ToLower (TrimSpace (example_sha [])) = example_sha []" by code_simp
  then have sha: "\<forall>x. ToLower (TrimSpace (example_sha x)) = example_sha x" by (simp add: example_sha_def)
  have "map_option ar_Status (ArtifactForAuth ?owner ''artifact_a'' example_upload) = Some ArtifactStatusUploading" by code_simp
  then obtain session where session: "ArtifactForAuth ?owner ''artifact_a'' example_upload = Some session" "ar_Status session \<noteq> ArtifactStatusReady"
    by (auto simp: artifact_status_defs)
  obtain state where "decodeArtifactUploadState example_codec (ar_ExternalReference session) = Inr state" "ar_Status a = ArtifactStatusReady"
      "ar_SizeBytes a = us_ExpectedSize state"
    using chunked_upload_complete [OF reach ids sha session r] by blast
  moreover from this(1) have "us_ExpectedSize state = 3"
    by (auto simp: decodeArtifactUploadState_def example_codec_def and_then_def split: if_splits sum.splits)
  ultimately show ?thesis using r by auto
qed

end
