(* ===== verification/Artifact_Sink.thy ===== *)
theory Artifact_Sink
  imports Artifact_Content
begin

text \<open>
  Delivery of artifacts to the sink of a customer, \<^verbatim>\<open>backend/internal/controlplane/artifact_sink.go\<close>.

  A sink is a plugin: the record \<open>'k sink_ops\<close> of its operations on a state of its own. A delivery says how
  many bytes of the body the sink read and gives its result; whether the end of the body was reached is
  computed, as \<^verbatim>\<open>artifactCompletionReader\<close> does. Errors that the code joins are the list of them.
\<close>

section \<open>Sinks\<close>

abbreviation (input) artifactDeliveryLease :: duration where "artifactDeliveryLease \<equiv> 2 * time_Minute"

record ArtifactSinkRequest =
  sr_SinkID :: string
  sr_IdempotencyKey :: string
  sr_ArtifactID :: string
  sr_OperationID :: string
  sr_JobID :: string
  sr_AttemptID :: string
  sr_Role :: string
  sr_MediaType :: string
  sr_ExpectedSizeBytes :: int
  sr_ExpectedSHA256 :: string
  sr_Owner :: AIJobOwner

datatype sink_error =
    SinkFailed string
  | SinkBodyFailed
  | ErrArtifactSinkReferenceInvalid
  | ErrArtifactDeliveryInProgress
  | ErrArtifactSinkInvalid
  | SinkArtifact artifact_error

record sink_delivery =
  sd_read :: nat
  sd_result :: "string + string"

record 'k sink_ops =
  sk_ID :: string
  sk_Accepts :: "AIJobOwner \<Rightarrow> bool"
  sk_Deliver :: "ArtifactSinkRequest \<Rightarrow> reader \<Rightarrow> 'k \<Rightarrow> 'k \<times> sink_delivery"
  sk_Delete :: "ArtifactSinkRequest \<Rightarrow> 'k \<Rightarrow> 'k \<times> string option"

definition SetArtifactSink :: "'k sink_ops option \<Rightarrow> 'k sink_ops gomap \<Rightarrow> 'k sink_ops gomap \<times> sink_error option" where
  "SetArtifactSink sink sinks =
     (case sink of
        None \<Rightarrow> (sinks, Some ErrArtifactSinkInvalid)
      | Some ops \<Rightarrow>
          if \<not> validArtifactSinkID (sk_ID ops) then (sinks, Some ErrArtifactSinkInvalid)
          else (go_set (TrimSpace (sk_ID ops)) ops sinks, None))"

definition RemoveArtifactSink :: "string \<Rightarrow> 'k sink_ops gomap \<Rightarrow> 'k sink_ops gomap" where
  "RemoveArtifactSink k sinks = go_delete (TrimSpace k) sinks"

definition artifactSink :: "string \<Rightarrow> 'k sink_ops gomap \<Rightarrow> 'k sink_ops option" where
  "artifactSink k sinks = go_get sinks (TrimSpace k)"

definition artifactOwnerFromJob :: "AIJob \<Rightarrow> AIJobOwner" where
  "artifactOwnerFromJob job =
     \<lparr>ow_ApplicationID = job_ApplicationID job, ow_IntegrationID = job_IntegrationID job, ow_PrincipalType = job_PrincipalType job,
      ow_PrincipalID = job_PrincipalID job, ow_ExternalSubjectReference = job_ExternalSubjectReference job\<rparr>"

definition validateArtifactSinkReference :: "string \<Rightarrow> sink_error option" where
  "validateArtifactSinkReference reference0 =
     (let reference = TrimSpace reference0 in
      if reference = [] \<or> length reference > 4096 \<or> list_ex (\<lambda>c. c \<in> {CHR 0x00, CHR 0x0D, CHR 0x0A}) reference
      then Some ErrArtifactSinkReferenceInvalid else None)"

definition artifactSinkFailureReason :: "bool \<Rightarrow> sink_error list \<Rightarrow> sink_error option \<Rightarrow> bool \<Rightarrow> string" where
  "artifactSinkFailureReason sinkErr verificationErr referenceErr cleanupErr =
     (if verificationErr \<noteq> [] then (if SinkArtifact ErrArtifactTooLarge \<in> set verificationErr then ''too_large'' else ''integrity_failed'')
      else if referenceErr \<noteq> None then ''sink_reference_invalid''
      else if cleanupErr then ''sink_cleanup_failed''
      else ''sink_delivery_failed'')"

section \<open>Reading to the end\<close>

text \<open>
  What was read of a body of which the sink took \<open>n\<close> bytes, and the result of \<^verbatim>\<open>RequireEOF\<close>. When the sink has
  not come to the end of the body, the check reads one more byte; when it has, the end is there already or
  is read by the check, and a body that fails fails again.
\<close>

definition RequireEOF :: "reader \<Rightarrow> nat \<Rightarrow> string \<times> sink_error list" where
  "RequireEOF body n =
     (let bytes = reader_bytes body in
      if n < length bytes then (take (n + 1) bytes, [SinkArtifact ErrArtifactIntegrity])
      else (bytes, case body of Reader _ \<Rightarrow> [] | _ \<Rightarrow> [SinkBodyFailed]))"

definition sink_consumed :: "reader \<Rightarrow> sink_delivery \<Rightarrow> string \<times> sink_error list" where
  "sink_consumed body delivery =
     (if isl (sd_result delivery) then (take (sd_read delivery) (reader_bytes body), []) else RequireEOF body (sd_read delivery))"

definition option_list :: "'a option \<Rightarrow> 'a list" where
  "option_list x = (case x of None \<Rightarrow> [] | Some y \<Rightarrow> [y])"

section \<open>Delivery\<close>

type_synonym ('s, 'k) sink_result = "'s artifact_service \<times> 'k \<times> (sink_error list + Artifact)"

definition sink_transition ::
  "ticks \<Rightarrow> Artifact \<Rightarrow> string \<Rightarrow> string \<Rightarrow> ArtifactContentUpdate option \<Rightarrow> sink_error list \<Rightarrow> 's artifact_service \<Rightarrow> 'k \<Rightarrow> ('s, 'k) sink_result" where
  "sink_transition ticks a toStatus reason content errors s k =
     (case transitionArtifact ticks a toStatus reason content s of
        (s1, Inl e) \<Rightarrow> (s1, k, Inl (errors @ [SinkArtifact e]))
      | (s1, Inr u) \<Rightarrow> (s1, k, if errors = [] then Inr u else Inl errors))"

definition writeArtifactToCustomerSink ::
  "'k sink_ops \<Rightarrow> (string \<Rightarrow> string) \<Rightarrow> ticks \<Rightarrow> others list \<Rightarrow> others \<Rightarrow> Artifact \<Rightarrow> ArtifactCreateInput \<Rightarrow> ArtifactSinkRequest \<Rightarrow> reader \<Rightarrow>
   's artifact_service \<Rightarrow> 'k \<Rightarrow> ('s, 'k) sink_result" where
  "writeArtifactToCustomerSink sink sha256 ticks beats rest delivering input request body s k =
     (let maxBytes = effective_max_bytes input; limited = limit_reader (wrap64 (maxBytes + 1)) body in
      case sk_Deliver sink request limited k of (k1, delivery) \<Rightarrow>
      (case artifactStatusHeartbeat_run ticks ArtifactStatusDelivering ''delivery_heartbeat'' beats delivering (as_repo s) of
         (r, _, Some e) \<Rightarrow>
           (s\<lparr>as_repo := rest r\<rparr>, k1, Inl ((case sd_result delivery of Inl m \<Rightarrow> [SinkFailed m] | Inr _ \<Rightarrow> []) @ [SinkArtifact e]))
       | (r, delivering, None) \<Rightarrow>
           let s1 = s\<lparr>as_repo := rest r\<rparr>; (consumed, completionErr) = sink_consumed limited delivery;
               actualSHA = sha256 consumed; total = int (length consumed);
               verificationErr = completionErr @ option_list (map_option SinkArtifact (verifyArtifactContent input total actualSHA maxBytes));
               referenceErr = (case sd_result delivery of Inl _ \<Rightarrow> None | Inr reference \<Rightarrow> validateArtifactSinkReference reference);
               content = (\<lambda>reference. \<lparr>cu_MediaType = sr_MediaType request, cu_SizeBytes = total, cu_SHA256 = actualSHA,
                 cu_StoreDriver = ArtifactStoreDriverNone, cu_StoreKey = [], cu_ExternalReference = reference\<rparr>)
           in (case (sd_result delivery, verificationErr, referenceErr) of
                 (Inr reference, [], None) \<Rightarrow>
                   sink_transition ticks delivering ArtifactStatusDelivered [] (Some (content (TrimSpace reference))) [] s1 k1
               | (result, _, _) \<Rightarrow>
                   (case sk_Delete sink request k1 of (k2, cleanupErr) \<Rightarrow>
                      sink_transition ticks delivering ArtifactStatusDeliveryFailed
                        (artifactSinkFailureReason (isl result) verificationErr referenceErr (cleanupErr \<noteq> None)) (Some (content []))
                        ((case result of Inl m \<Rightarrow> [SinkFailed m] | Inr _ \<Rightarrow> []) @ verificationErr @ option_list referenceErr @
                         option_list (map_option SinkFailed cleanupErr)) s1 k2))))"

definition sink_request :: "'k sink_ops \<Rightarrow> Artifact \<Rightarrow> ArtifactCreateInput \<Rightarrow> AIJobOwner \<Rightarrow> ArtifactSinkRequest" where
  "sink_request sink artifact input owner =
     \<lparr>sr_SinkID = sk_ID sink, sr_IdempotencyKey = ar_ID artifact, sr_ArtifactID = ar_ID artifact, sr_OperationID = ar_OperationID artifact,
      sr_JobID = ar_JobID artifact, sr_AttemptID = ar_AttemptID artifact, sr_Role = ar_Role artifact, sr_MediaType = TrimSpace (ci_MediaType input),
      sr_ExpectedSizeBytes = ci_ExpectedSizeBytes input, sr_ExpectedSHA256 = ToLower (TrimSpace (ci_ExpectedSHA256 input)), sr_Owner = owner\<rparr>"

definition deliverArtifactToCustomerSink ::
  "'k sink_ops \<Rightarrow> (string \<Rightarrow> string) \<Rightarrow> ticks \<Rightarrow> gotime \<Rightarrow> others list \<Rightarrow> others \<Rightarrow> Artifact \<Rightarrow> ArtifactCreateInput \<Rightarrow> reader \<Rightarrow> AIJobOwner \<Rightarrow>
   's artifact_service \<Rightarrow> 'k \<Rightarrow> ('s, 'k) sink_result" where
  "deliverArtifactToCustomerSink sink sha256 ticks now beats rest artifact input body owner s k =
     (if ar_Status artifact = ArtifactStatusDelivered then (s, k, Inr artifact)
      else if \<not> oneOf (ar_Status artifact) [ArtifactStatusReady, ArtifactStatusDelivering, ArtifactStatusDeliveryFailed]
      then (s, k, Inl [SinkArtifact ErrArtifactUnavailable])
      else if ar_Status artifact = ArtifactStatusDelivering \<and> ar_UpdatedAt artifact > now - artifactDeliveryLease
      then (s, k, Inl [ErrArtifactDeliveryInProgress])
      else (case transitionArtifact ticks artifact ArtifactStatusDelivering ''sink_delivery_claimed'' None s of
              (s1, Inl e) \<Rightarrow> (s1, k, Inl [if e = ErrArtifactStateConflict then ErrArtifactDeliveryInProgress else SinkArtifact e])
            | (s1, Inr delivering) \<Rightarrow>
                writeArtifactToCustomerSink sink sha256 ticks beats rest delivering input (sink_request sink artifact input owner) body s1 k))"

section \<open>Delivered content\<close>

definition sink_verified ::
  "(string \<Rightarrow> string) \<Rightarrow> ArtifactCreateInput \<Rightarrow> reader \<Rightarrow> Artifact \<Rightarrow> 's artifact_service \<Rightarrow> bool" where
  "sink_verified sha256 input body a s \<longleftrightarrow>
     (\<exists>data. body = Reader data \<and> int (length data) \<le> effective_max_bytes input \<and>
        (0 < ci_ExpectedSizeBytes input \<longrightarrow> int (length data) = ci_ExpectedSizeBytes input) \<and>
        (ToLower (TrimSpace (ci_ExpectedSHA256 input)) \<noteq> [] \<longrightarrow> sha256 data = ToLower (TrimSpace (ci_ExpectedSHA256 input))) \<and>
        ar_Status a = ArtifactStatusDelivered \<and> ar_SizeBytes a = int (length data) \<and> ar_SHA256 a = sha256 data \<and>
        ar_ExternalReference a \<noteq> [] \<and> stored s (ar_ID a) = Some a)"

lemma consumed_all:
  assumes "sink_consumed (limit_reader (m + 1) body) delivery = (d, [])" "sd_result delivery = Inr reference" "int (length d) \<le> m"
  shows "body = Reader d"
  using assms by (cases body) (auto simp: sink_consumed_def RequireEOF_def Let_def split: if_splits)

lemma sink_transition_Inr:
  assumes "sink_transition ticks a toStatus reason content errors s k = (s', k', Inr u)"
  shows "errors = []" "k' = k" "transitionArtifact ticks a toStatus reason content s = (s', Inr u)"
  using assms by (auto simp: sink_transition_def split: prod.splits sum.splits if_splits)

lemma write_sink:
  assumes "repo_inv (as_repo s)" "calls_only hash (rest # beats)" "\<And>x. ToLower (TrimSpace (sha256 x)) = sha256 x"
    and "writeArtifactToCustomerSink sink sha256 ticks beats rest up input request body s k = (s', k', Inr a)"
    and "TrimSpace (ar_ID up) = ar_ID up" "ci_MaxBytes input < max_int64"
  shows "sink_verified sha256 input body a s' \<and> k' = fst (sk_Deliver sink request (limit_reader (effective_max_bytes input + 1) body) k)"
proof -
  let ?m = "effective_max_bytes input"
  have m: "wrap64 (?m + 1) = ?m + 1" using assms(6) by (intro wrap64_id) (auto simp: effective_max_bytes_def int64_ok_def)
  obtain k1 delivery where d: "sk_Deliver sink request (limit_reader (?m + 1) body) k = (k1, delivery)" by fastforce
  obtain r up1 e where beat: "artifactStatusHeartbeat_run ticks ArtifactStatusDelivering ''delivery_heartbeat'' beats up (as_repo s) = (r, up1, e)"
    by (metis prod_cases3)
  obtain bytes errs where c: "sink_consumed (limit_reader (?m + 1) body) delivery = (bytes, errs)" by fastforce
  let ?s1 = "s\<lparr>as_repo := rest r\<rparr>"
  let ?c = "\<lambda>reference. \<lparr>cu_MediaType = sr_MediaType request, cu_SizeBytes = int (length bytes), cu_SHA256 = sha256 bytes,
    cu_StoreDriver = ArtifactStoreDriverNone, cu_StoreKey = [], cu_ExternalReference = reference\<rparr>"
  note w = assms(4) [unfolded writeArtifactToCustomerSink_def Let_def m d beat c prod.case]
  obtain reference where ok: "e = None" "sd_result delivery = Inr reference" "errs = []" "verifyArtifactContent input (int (length bytes)) (sha256 bytes) ?m = None"
      "validateArtifactSinkReference reference = None"
      "sink_transition ticks up1 ArtifactStatusDelivered [] (Some (?c (TrimSpace reference))) [] ?s1 k1 = (s', k', Inr a)"
    using w by (auto simp: option_list_def split: option.splits sum.splits list.splits prod.splits dest: sink_transition_Inr(1))
  note t = sink_transition_Inr [OF ok(6)]
  note v = ok(4) [unfolded verifyArtifactContent_def Let_def]
  have len: "int (length bytes) \<le> ?m" using v by (auto split: if_splits)
  have hb: "(repo_call hash)\<^sup>*\<^sup>* (as_repo s) r" "ar_ID up1 = ar_ID up"
    using heartbeat_calls [OF assms(1) _ beat assms(5), of hash] assms(2) by (simp_all add: calls_only_def)
  have "(repo_call hash)\<^sup>*\<^sup>* r (rest r)" using assms(2) by (simp add: calls_only_def)
  then have inv: "artifacts_inv (as_repo ?s1)"
    using repo_invD(7) run_inv [OF rtranclp_trans [OF hb(1)] assms(1)] by simp
  from inv t(3) show ?thesis
  proof (cases rule: transition_service)
    case (changed old u r')
    obtain b reason at where b: "applyArtifactContentUpdate old (?c (TrimSpace reference)) = Inr b" "u = transitioned_artifact b ArtifactStatusDelivered reason at"
      using changed(6) by (auto simp: change_of_def)
    have fields: "ar_SizeBytes b = int (length bytes)" "ar_SHA256 b = sha256 bytes" "ar_ExternalReference b = TrimSpace reference"
      using b(1) assms(3) by (auto simp: applyArtifactContentUpdate_def Let_def split: if_splits)
    have "ArtifactStatusDelivered \<noteq> ArtifactStatusDeleted" "ArtifactStatusDelivered \<noteq> ArtifactStatusReady" by (simp_all add: artifact_status_defs)
    moreover have "TrimSpace reference \<noteq> []" using ok(5) by (auto simp: validateArtifactSinkReference_def Let_def split: if_splits)
    ultimately have a: "ar_Status a = ArtifactStatusDelivered" "ar_SizeBytes a = int (length bytes)" "ar_SHA256 a = sha256 bytes" "ar_ExternalReference a \<noteq> []"
      using fields changed(1) by (simp_all add: b(2) transitioned_artifact_def Let_def)
    moreover have "stored s' (ar_ID a) = Some a" using changed(1,2,7) change_of_sel(3) [OF changed(6)] by simp
    ultimately show ?thesis
      using consumed_all [OF c [unfolded ok(3)] ok(2) len] len v d t(2) unfolding sink_verified_def by (auto split: if_splits)
  qed simp
qed

text \<open>What makes the artifact \<open>key\<close> delivered: nothing, unless it was delivered before.\<close>

definition no_delivery :: "string \<Rightarrow> MemoryRepository \<Rightarrow> MemoryRepository \<Rightarrow> bool" where
  "no_delivery key r r' \<longleftrightarrow>
     (\<forall>a. go_get (artifacts r') key = Some a \<and> ar_Status a = ArtifactStatusDelivered \<longrightarrow> go_get (artifacts r) key = Some a)"

lemma no_delivery_refl [simp]: "no_delivery key r r"
  by (simp add: no_delivery_def)

lemma no_delivery_trans [trans]: "no_delivery key r r1 \<Longrightarrow> no_delivery key r1 r2 \<Longrightarrow> no_delivery key r r2"
  by (auto simp: no_delivery_def)

lemma undelivered [simp]: "TrimSpace ArtifactStatusDelivering \<noteq> ArtifactStatusDelivered" "TrimSpace ArtifactStatusDeliveryFailed \<noteq> ArtifactStatusDelivered"
  by code_simp+

lemma transition_delivery:
  assumes "artifacts_inv (as_repo s)" "transitionArtifact ticks a toStatus reason content s = (s', x)"
  obtains "no_delivery key (as_repo s) (as_repo s')"
    | u where "TrimSpace toStatus = ArtifactStatusDelivered" "x = Inr u" "key = TrimSpace (ar_ID a)" "stored s' key = Some u"
  using assms
proof (cases rule: transition_service)
  case (changed old u r')
  then show ?thesis using that change_of_sel(1) [OF changed(6)] by (cases "key = ar_ID old") (auto simp: no_delivery_def)
qed (use that(1) in simp)

lemma ticked_delivery:
  assumes "artifacts_inv r" "TrimSpace toStatus \<noteq> ArtifactStatusDelivered"
  shows "no_delivery key r (fst (ticked_transition ticks (transition_input a toStatus reason content) r))"
proof -
  let ?s = "\<lparr>as_repo = r, as_stores = [] :: unit gomap, as_primary = []\<rparr>"
  obtain s' x where t: "transitionArtifact ticks a toStatus reason content ?s = (s', x)" by fastforce
  then have "as_repo s' = fst (ticked_transition ticks (transition_input a toStatus reason content) r)"
    by (auto simp: transitionArtifact_def split: prod.splits sum.splits option.splits bool.splits)
  with t show ?thesis by (elim transition_delivery [rotated, where key = key]) (use assms in auto)
qed

lemma heartbeat_delivery:
  "repo_inv r \<Longrightarrow> calls_only hash beats \<Longrightarrow> \<forall>f \<in> set beats. \<forall>r. no_delivery key r (f r) \<Longrightarrow> TrimSpace status \<noteq> ArtifactStatusDelivered \<Longrightarrow>
   no_delivery key r (fst (artifactStatusHeartbeat_run ticks status reason beats a r))"
proof (induction beats arbitrary: a r)
  case (Cons f beats)
  have f: "(repo_call hash)\<^sup>*\<^sup>* r (f r)" "calls_only hash beats" using Cons.prems(2) by (simp_all add: calls_only_def)
  have inv: "repo_inv (f r)" using run_inv [OF f(1) Cons.prems(1)] by simp
  obtain r1 x where x: "ticked_transition ticks (transition_input a status reason None) (f r) = (r1, x)" by fastforce
  have "repo_call hash (f r) r1" using ticked_call [of hash "f r" ticks "transition_input a status reason None"] x by simp
  then have r1: "repo_inv r1" using call_inv inv by blast
  have "no_delivery key (f r) r1" using ticked_delivery [OF repo_invD(7) [OF inv] Cons.prems(4)] x by (metis fst_conv)
  then have step: "no_delivery key r r1" using Cons.prems(3) by (auto intro: no_delivery_trans)
  then show ?case using no_delivery_trans [OF step Cons.IH [OF r1 f(2)]] Cons.prems(3,4) x by (auto split: sum.splits option.splits bool.splits)
qed simp

lemma sink_transition_delivery:
  assumes "artifacts_inv (as_repo s)" "sink_transition ticks a toStatus reason content errors s k = (s', k', x)"
    and "toStatus = ArtifactStatusDeliveryFailed \<or> toStatus = ArtifactStatusDelivered \<and> errors = []" "TrimSpace (ar_ID a) = key"
  shows "no_delivery key (as_repo s) (as_repo s') \<or> (\<exists>u. x = Inr u \<and> stored s' key = Some u)"
proof -
  obtain s1 y where t: "transitionArtifact ticks a toStatus reason content s = (s1, y)" by fastforce
  have r: "s' = s1" "x = (case y of Inl e \<Rightarrow> Inl (errors @ [SinkArtifact e]) | Inr u \<Rightarrow> if errors = [] then Inr u else Inl errors)"
    using assms(2) t by (auto simp: sink_transition_def split: sum.splits)
  from assms(1) t show ?thesis
    by (cases rule: transition_delivery [where key = key]) (use r assms(3,4) undelivered in \<open>auto simp del: trim_artifact_status\<close>)
qed

lemma write_sink_delivery:
  assumes "repo_inv (as_repo s)" "calls_only hash (rest # beats)" "\<forall>f \<in> set (rest # beats). \<forall>r. no_delivery (ar_ID up) r (f r)"
    and "writeArtifactToCustomerSink sink sha256 ticks beats rest up input request body s k = (s', k', x)" "TrimSpace (ar_ID up) = ar_ID up"
  shows "no_delivery (ar_ID up) (as_repo s) (as_repo s') \<or> (\<exists>a. x = Inr a \<and> stored s' (ar_ID up) = Some a)"
proof -
  obtain r up1 e where beat: "artifactStatusHeartbeat_run ticks ArtifactStatusDelivering ''delivery_heartbeat'' beats up (as_repo s) = (r, up1, e)"
    by (metis prod_cases3)
  have only: "calls_only hash beats" "(repo_call hash)\<^sup>*\<^sup>* r (rest r)" using assms(2) by (simp_all add: calls_only_def)
  have hb: "(repo_call hash)\<^sup>*\<^sup>* (as_repo s) r" "ar_ID up1 = ar_ID up" using heartbeat_calls [OF assms(1) only(1) beat assms(5)] by simp_all
  have inv: "artifacts_inv (rest r)" using repo_invD(7) run_inv [OF rtranclp_trans [OF hb(1) only(2)] assms(1)] by simp
  have "no_delivery (ar_ID up) (as_repo s) r"
    using heartbeat_delivery [OF assms(1) only(1), of "ar_ID up" ArtifactStatusDelivering ticks "''delivery_heartbeat''" up, OF _ undelivered(1)] assms(3) beat
    by simp
  then have before: "no_delivery (ar_ID up) (as_repo s) (rest r)" using assms(3) by (auto intro: no_delivery_trans)
  have "no_delivery (ar_ID up) (rest r) (as_repo s') \<or> (\<exists>a. x = Inr a \<and> stored s' (ar_ID up) = Some a)"
  proof (cases e)
    case None
    have key: "artifacts_inv (as_repo (s\<lparr>as_repo := rest r\<rparr>))" "TrimSpace (ar_ID up1) = ar_ID up" using inv hb(2) assms(5) by simp_all
    note failed = sink_transition_delivery [OF key(1) _ disjI1 [OF refl] key(2)]
    note delivered = sink_transition_delivery [OF key(1) _ disjI2 [OF conjI [OF refl refl]] key(2)]
    show ?thesis
      using assms(4) beat None unfolding writeArtifactToCustomerSink_def Let_def
      by (auto split: prod.splits option.splits sum.splits list.splits dest!: failed delivered)
  next
    case (Some error)
    then have "as_repo s' = rest r" using assms(4) beat unfolding writeArtifactToCustomerSink_def Let_def by (auto split: prod.splits)
    then show ?thesis by simp
  qed
  then show ?thesis using no_delivery_trans [OF before] by blast
qed

section \<open>Properties\<close>

text \<open>
  C39: an artifact counts as delivered only when all of it was delivered. The sink is reached only after this
  call has claimed the artifact at the version that its caller has read, never while another delivery holds a
  live claim. When the call succeeds, then whatever calls others make meanwhile and however much of the
  body the sink claims to have taken, the whole body was read, its size and digest are those announced, the
  sink gave a reference, and the artifact is stored as delivered with the size and the digest. And however
  the call ends, when the artifact is delivered afterwards although no other caller delivers it, then it was
  delivered before, or the call has succeeded with it. The digest is assumed to be in lower case, and the
  limit below the largest integer.
\<close>

theorem sink_delivery_verified:
  assumes "(repo_call hash)\<^sup>*\<^sup>* NewMemoryRepository (as_repo s)" "\<forall>f \<in> set (rest # beats). \<forall>r. (repo_call hash)\<^sup>*\<^sup>* r (f r)"
    and "\<forall>x. ToLower (TrimSpace (sha256 x)) = sha256 x" "ci_MaxBytes input < max_int64" "validArtifactID (ar_ID artifact)"
    and "deliverArtifactToCustomerSink sink sha256 ticks now beats rest artifact input body owner s k = (s', k', x)"
  shows "(k' \<noteq> k \<longrightarrow>
      ar_Status artifact \<in> {ArtifactStatusReady, ArtifactStatusDelivering, ArtifactStatusDeliveryFailed} \<and>
      (ar_Status artifact = ArtifactStatusDelivering \<longrightarrow> ar_UpdatedAt artifact \<le> now - artifactDeliveryLease) \<and>
      (\<exists>a. stored s (ar_ID artifact) = Some a \<and> ar_StatusVersion a = ar_StatusVersion artifact)) \<and>
    (\<forall>a. x = Inr a \<and> ar_Status artifact \<noteq> ArtifactStatusDelivered \<longrightarrow>
      (\<exists>data. body = Reader data \<and> int (length data) \<le> effective_max_bytes input \<and>
        (0 < ci_ExpectedSizeBytes input \<longrightarrow> int (length data) = ci_ExpectedSizeBytes input) \<and>
        (ToLower (TrimSpace (ci_ExpectedSHA256 input)) \<noteq> [] \<longrightarrow> sha256 data = ToLower (TrimSpace (ci_ExpectedSHA256 input))) \<and>
        ar_Status a = ArtifactStatusDelivered \<and> ar_SizeBytes a = int (length data) \<and> ar_SHA256 a = sha256 data \<and>
        ar_ExternalReference a \<noteq> [] \<and> stored s' (ar_ID a) = Some a)) \<and>
    ((\<forall>f \<in> set (rest # beats). \<forall>r. no_delivery (ar_ID artifact) r (f r)) \<longrightarrow>
      (\<forall>a. stored s' (ar_ID artifact) = Some a \<and> ar_Status a = ArtifactStatusDelivered \<longrightarrow> stored s (ar_ID artifact) = Some a \<or> x = Inr a))"
proof (cases "ar_Status artifact = ArtifactStatusDelivered \<or>
    \<not> oneOf (ar_Status artifact) [ArtifactStatusReady, ArtifactStatusDelivering, ArtifactStatusDeliveryFailed] \<or>
    ar_Status artifact = ArtifactStatusDelivering \<and> ar_UpdatedAt artifact > now - artifactDeliveryLease")
  case True
  then show ?thesis using assms(6) unfolding deliverArtifactToCustomerSink_def by (auto split: if_splits)
next
  case False
  have inv: "repo_inv (as_repo s)" using run_inv [OF assms(1) repo_inv_new] by simp
  have others: "calls_only hash (rest # beats)" using assms(2) by (simp add: calls_only_def)
  have sha: "ToLower (TrimSpace (sha256 x)) = sha256 x" for x using assms(3) by blast
  note trim = validArtifactID_trim [OF assms(5)]
  obtain s1 y where y: "transitionArtifact ticks artifact ArtifactStatusDelivering ''sink_delivery_claimed'' None s = (s1, y)" by fastforce
  have run: "(s', k', x) = (case y of
      Inl e \<Rightarrow> (s1, k, Inl [if e = ErrArtifactStateConflict then ErrArtifactDeliveryInProgress else SinkArtifact e])
    | Inr up \<Rightarrow> writeArtifactToCustomerSink sink sha256 ticks beats rest up input (sink_request sink artifact input owner) body s1 k)"
    using assms(6) False y unfolding deliverArtifactToCustomerSink_def by (auto split: if_splits sum.splits)
  have call: "repo_call id (as_repo s) (as_repo s1)" by (metis transition_call y fst_conv)
  from repo_invD(7) [OF inv] y show ?thesis
  proof (cases rule: transition_service)
    case (refused e)
    then show ?thesis using run by simp
  next
    case (changed old up r')
    have id: "ar_ID old = ar_ID artifact" "ar_ID up = ar_ID artifact" using changed(4) change_of_sel(3) [OF changed(6)] trim by simp_all
    have "sink_verified sha256 input body a s'" if "x = Inr a" for a
      using write_sink [where ?sha256.0 = sha256, OF _ others sha, of s1 sink ticks up input "sink_request sink artifact input owner" body k s' k' a]
        call_inv [OF call inv] run changed(1) that id(2) trim assms(4) by simp
    moreover have "stored s (ar_ID artifact) = Some a \<or> x = Inr a"
      if "\<forall>f \<in> set (rest # beats). \<forall>r. no_delivery (ar_ID artifact) r (f r)" "stored s' (ar_ID artifact) = Some a" "ar_Status a = ArtifactStatusDelivered" for a
    proof -
      have "no_delivery (ar_ID artifact) (as_repo s) (as_repo s1)"
        using repo_invD(7) [OF inv] y by (cases rule: transition_delivery [where key = "ar_ID artifact"]) (use undelivered in auto)
      moreover have "no_delivery (ar_ID artifact) (as_repo s1) (as_repo s') \<or> (\<exists>a. x = Inr a \<and> stored s' (ar_ID artifact) = Some a)"
        using write_sink_delivery [OF conjunct1 [OF call_inv [OF call inv]] others, of up sink sha256 ticks input "sink_request sink artifact input owner" body k s' k' x]
          that(1) run changed(1) id(2) trim by simp
      ultimately show ?thesis using that(2,3) by (auto simp: no_delivery_def)
    qed
    ultimately show ?thesis using changed(3,5) id(1) False unfolding sink_verified_def by auto
  qed
qed

definition example_sink :: "nat sink_ops" where
  "example_sink = \<lparr>sk_ID = ''sink'', sk_Accepts = (\<lambda>_. True),
     sk_Deliver = (\<lambda>_ body n. (n + 1, \<lparr>sd_read = length (reader_bytes body), sd_result = Inr ''stored''\<rparr>)), sk_Delete = (\<lambda>_ n. (n, None))\<rparr>"

definition example_ready :: Artifact where
  "example_ready = (case stored (example_service [ArtifactStatusReady]) ''artifact_a'' of Some a \<Rightarrow> a | None \<Rightarrow> example_artifact)"

theorem sink_delivery_verified_witness:
  "\<exists>s' a. deliverArtifactToCustomerSink example_sink (\<lambda>_. ''00'') example_upload_ticks 6 [id] id example_ready example_input (Reader ''data'')
       (artifactOwnerFromOperation (example_operation ''a'')) (example_service [ArtifactStatusReady]) 0 = (s', 1, Inr a) \<and>
     ar_Status a = ArtifactStatusDelivered \<and> ar_SizeBytes a = 4"
proof -
  let ?run = "deliverArtifactToCustomerSink example_sink (\<lambda>_. ''00'') example_upload_ticks 6 [id] id example_ready example_input (Reader ''data'')
    (artifactOwnerFromOperation (example_operation ''a'')) (example_service [ArtifactStatusReady]) 0"
  have "fst (snd ?run) = 1" "\<not> isl (snd (snd ?run))" by code_simp+
  then obtain s' a where r: "?run = (s', 1, Inr a)" by (metis isl_def prod.collapse sum.exhaust_sel)
  have digest: "ToLower (TrimSpace ''00'') = ''00''" and small: "ci_MaxBytes example_input < max_int64" and valid: "validArtifactID (ar_ID example_ready)"
    and open_: "ar_Status example_ready \<noteq> ArtifactStatusDelivered" by code_simp+
  from sink_delivery_verified [OF example_service_run, of id "[id]" id "\<lambda>_. ''00''" example_input example_ready, OF _ allI [OF digest] small valid r]
  show ?thesis using r open_ by auto
qed

end
