(* ===== verification/Operation_Admission.thy ===== *)
theory Operation_Admission
  imports Usage_Pricing Artifact_Service AI_Job_Service
begin

text \<open>
  Admission of a request: \<^verbatim>\<open>BeginCanonicalOperation\<close> of
  \<^verbatim>\<open>backend/internal/controlplane/operation_service.go\<close>, \<^verbatim>\<open>BeginDurableAIJob\<close> of
  \<^verbatim>\<open>ai_job_service.go\<close>, and the billing hold that both reserve, from
  \<^verbatim>\<open>newBillingHoldAdmission\<close> of \<^verbatim>\<open>billing_hold.go\<close>. The request and the authorisation are the
  structs of \<^verbatim>\<open>backend/internal/gatewaycore/model.go\<close>.

  A call reads before it writes and holds no lock in between: the \<open>i\<close>-th artifact is checked in the
  repository \<open>r0 i\<close> at the time \<open>checkedAt i\<close>, the price is looked up in the tables \<open>s\<close>, and the write goes to the repository that
  is current then, with the clock at \<open>now\<close>. The random parts of
  identifiers, the decoder of JSON values, the decoder of the limits in a payload and the encryption of
  a payload are arguments.
\<close>

section \<open>Data\<close>

definition GatewayOperationImageGeneration :: string where "GatewayOperationImageGeneration = ''image_generation''"
definition GatewayOperationAudioTranscription :: string where "GatewayOperationAudioTranscription = ''audio_transcription''"
definition GatewayOperationAudioTranslation :: string where "GatewayOperationAudioTranslation = ''audio_translation''"
definition GatewayModalityText :: string where "GatewayModalityText = ''text''"
definition GatewayModalityImage :: string where "GatewayModalityImage = ''image''"
definition LaneDurable :: string where "LaneDurable = ''durable''"
definition AIJobDefaultTTL :: duration where "AIJobDefaultTTL = 24 * 3600 * 1000000000"
definition BillingHoldDefaultTTL :: duration where "BillingHoldDefaultTTL = AIJobDefaultTTL"
definition billingHoldDefaultMaxOutputTokens :: int where "billingHoldDefaultMaxOutputTokens = 4096"

record CanonicalLimits =
  cl_QPSLimit :: int
  cl_RPMLimit :: int
  cl_TPMLimit :: int
  cl_ConcurrencyLimit :: int
  cl_ApplicationConcurrencyLimit :: int
  cl_MonthlyTokenLimit :: int
  cl_MonthlyBudgetMicros :: int
  cl_MonthlyImageLimit :: int
  cl_MonthlyVideoSecondsLimit :: int
  cl_MonthlyAudioSecondsLimit :: int

record CanonicalAuthContext =
  ca_CredentialSource :: string
  ca_CredentialID :: string
  ca_CredentialFingerprint :: string
  ca_IntegrationID :: string
  ca_ApplicationID :: string
  ca_PrincipalType :: string
  ca_PrincipalID :: string
  ca_ExternalSubjectReference :: string
  ca_PolicyID :: string
  ca_PolicyVersion :: int
  ca_RoutingPolicyID :: string
  ca_Scopes :: "string list"
  ca_AllowedModels :: "string list"
  ca_AllowedModalities :: "string list"
  ca_AllowedOperations :: "string list"
  ca_AllowedCIDRs :: "string list"
  ca_Limits :: CanonicalLimits
  ca_LanePolicy :: string
  ca_ArtifactPolicy :: string
  ca_ArtifactSinkID :: string

text \<open>
  Of the decoded bodies that \<^verbatim>\<open>CanonicalRequest\<close> points to, admission reads only
  \<^verbatim>\<open>Text.Generation.MaxOutputTokens\<close>, here \<open>req_MaxOutputTokens\<close>: \<open>None\<close> when either pointer is nil.
  The embedding body, the transport body and the input artifact are left out.
\<close>

record CanonicalRequest =
  req_ID :: string
  req_ClientRequestID :: string
  req_Fingerprint :: string
  req_Protocol :: string
  req_Operation :: string
  req_Modality :: string
  req_Lane :: string
  req_Model :: string
  req_Stream :: bool
  req_MessageCount :: int
  req_IdempotencyKey :: string
  req_StickyKey :: string
  req_ResponseMode :: string
  req_PreviewMode :: string
  req_DeliveryMode :: string
  req_OutputCount :: int
  req_VideoDurationMS :: int
  req_AudioDurationMS :: int
  req_InputAudioDurationMS :: int
  req_InputCharacters :: int
  req_SourceIP :: string
  req_MaxOutputTokens :: "int option"
  req_Payload :: string

record request_limits =
  rl_MaxTokens :: int
  rl_MaxCompletionTokens :: int
  rl_MaxCostMicros :: int

record billingHoldEstimate =
  es_ReservedAmountMicros :: int
  es_Currency :: string
  es_Source :: string
  es_PricingVersions :: "BillingHoldPricingVersion list"
  es_PricingEvaluations :: "PricingEvaluation list"

datatype begin_error =
    BeginRequestInvalid
  | BeginSinkRequired
  | BeginArtifact artifact_error
  | BeginPayloadInvalid
  | BeginLimitsNegative
  | BeginPricing pricing_error
  | BeginUsageDimensions
  | ErrBillingHoldEstimateUnavailable
  | ErrBillingHoldUsageEstimate
  | BeginRepo repo_error
  | ErrGatewayIdempotencyConflict
  | ErrAIJobIdempotencyRequired
  | ErrAIJobCapabilityMismatch
  | BeginEncryption

text \<open>What the admission of a request depends on.\<close>

record admission_env =
  ae_engine :: engine_env
  ae_unmarshal :: "string \<Rightarrow> json option"
  ae_limits :: "string \<Rightarrow> request_limits option"

section \<open>The estimate\<close>

definition requested_limits :: "admission_env \<Rightarrow> CanonicalRequest \<Rightarrow> begin_error + request_limits" where
  "requested_limits A request =
     (case if req_Payload request \<noteq> [] then ae_limits A (req_Payload request)
           else Some \<lparr>rl_MaxTokens = 0, rl_MaxCompletionTokens = 0, rl_MaxCostMicros = 0\<rparr> of
        None \<Rightarrow> Inl BeginPayloadInvalid
      | Some limits0 \<Rightarrow>
          (let limits = (case req_MaxOutputTokens request of
                           Some n \<Rightarrow> if n > rl_MaxCompletionTokens limits0 then limits0\<lparr>rl_MaxCompletionTokens := n\<rparr> else limits0
                         | None \<Rightarrow> limits0)
           in if rl_MaxTokens limits < 0 \<or> rl_MaxCompletionTokens limits < 0 \<or> rl_MaxCostMicros limits < 0
              then Inl BeginLimitsNegative else Inr limits))"

definition requested_outputs :: "CanonicalRequest \<Rightarrow> int" where
  "requested_outputs request =
     (if req_OutputCount request \<le> 0 \<and> req_Operation request = GatewayOperationImageGeneration then 1 else req_OutputCount request)"

definition estimatePricingFacts :: "AIOperation \<Rightarrow> CanonicalRequest \<Rightarrow> int \<Rightarrow> int \<Rightarrow> Facts" where
  "estimatePricingFacts operation request maxTokens maxCompletionTokens =
     (let outputTokens0 = max maxTokens maxCompletionTokens;
          outputTokens = (if outputTokens0 = 0 \<and> req_Modality request = GatewayModalityText then billingHoldDefaultMaxOutputTokens else outputTokens0);
          inputTokens = max 1 (int (length (req_Payload request)) div 4);
          outputCount = requested_outputs request
      in zero_facts\<lparr>f_TotalInputTokens := inputTokens, f_UncachedInputTokens := inputTokens, f_OutputTokens := outputTokens,
           f_OutputImages := max outputCount 0, f_OutputVideoMilliseconds := max (req_VideoDurationMS request) 0,
           f_InputAudioMilliseconds := max (req_InputAudioDurationMS request) 0, f_OutputAudioMilliseconds := max (req_AudioDurationMS request) 0,
           f_InputCharacters := max (req_InputCharacters request) 0, f_Protocol := req_Protocol request, f_Operation := req_Operation request,
           f_Modality := req_Modality request, f_Lane := req_Lane request, f_Stream := req_Stream request, f_OutputCount := max outputCount 0,
           f_NormalizationStatus := ''estimated_request'', f_Phase := PhaseEstimate, f_ObservedAt := op_CreatedAt operation\<rparr>)"

definition successfulPricingEvaluation ::
  "string \<Rightarrow> AIOperation \<Rightarrow> string \<Rightarrow> string \<Rightarrow> PricingSelection \<Rightarrow> Facts \<Rightarrow> PricingResult \<Rightarrow> PricingEvaluation" where
  "successfulPricingEvaluation rand operation purpose phase selection facts result =
     \<lparr>pe_ID = ''peval_'' @ rand, pe_Purpose = purpose, pe_Phase = phase, pe_OperationID = op_ID operation, pe_AttemptID = [],
      pe_UsageRecordID = [], pe_UsageVersion = 0, pe_PricingRuleID = pr_ID (sel_Rule selection),
      pe_PricingRuleVersionID = pv_ID (sel_Version selection), pe_EngineVersion = res_EngineVersion result,
      pe_ExpressionHash = res_ExpressionHash result, pe_FactsHash = res_FactsHash result, pe_Facts = facts,
      pe_AmountMicros = Some (res_AmountMicros result), pe_Currency = res_Currency result, pe_MatchedTier = res_MatchedTier result,
      pe_Lines = res_Lines result, pe_NormalizationStatus = f_NormalizationStatus facts, pe_Status = PricingEvaluationStatusSuccess,
      pe_FailureCode = [], pe_ReplayOfID = [], pe_CreatedAt = op_CreatedAt operation\<rparr>"

definition priced_estimate ::
  "string \<Rightarrow> AIOperation \<Rightarrow> request_limits \<Rightarrow> PricingSelection \<Rightarrow> Facts \<Rightarrow> PricingResult \<Rightarrow> billingHoldEstimate" where
  "priced_estimate rand operation limits selection facts result =
     (let evaluation = successfulPricingEvaluation rand operation PricingPurposeUsageCost PhaseEstimate selection facts result in
      \<lparr>es_ReservedAmountMicros = max (rl_MaxCostMicros limits) (res_AmountMicros result), es_Currency = res_Currency result,
       es_Source = ''pricing_rule'',
       es_PricingVersions = [\<lparr>hpv_HoldID = [], hpv_Purpose = PricingPurposeUsageCost,
         hpv_PricingRuleVersionID = pv_ID (sel_Version selection), hpv_EstimateEvaluationID = pe_ID evaluation, hpv_SettlementEvaluationID = []\<rparr>],
       es_PricingEvaluations = [evaluation]\<rparr>)"

definition estimateBillingHold ::
  "admission_env \<Rightarrow> string \<Rightarrow> AIOperation \<Rightarrow> CanonicalRequest \<Rightarrow> pricing_store \<Rightarrow> begin_error + billingHoldEstimate" where
  "estimateBillingHold A rand operation request s =
     and_then (requested_limits A request) (\<lambda>limits.
       let facts = estimatePricingFacts operation request (rl_MaxTokens limits) (rl_MaxCompletionTokens limits) in
       case SelectPricingRule (ae_engine A) (req_Model request) s of
         Inl e \<Rightarrow> Inl (BeginPricing e)
       | Inr (Some selection) \<Rightarrow>
           (case engine_Evaluate (ae_engine A) (sel_Compiled selection) facts of
              Inl e \<Rightarrow> Inl (BeginPricing e)
            | Inr result \<Rightarrow> Inr (priced_estimate rand operation limits selection facts result))
       | Inr None \<Rightarrow>
           Inr \<lparr>es_ReservedAmountMicros = rl_MaxCostMicros limits, es_Currency = CurrencyUSD,
                es_Source = (if rl_MaxCostMicros limits > 0 then ''request_max_cost'' else ''unpriced''),
                es_PricingVersions = [], es_PricingEvaluations = []\<rparr>)"

section \<open>The hold\<close>

definition estimated_dimension :: "int \<Rightarrow> string \<Rightarrow> UsageDimension" where
  "estimated_dimension quantity unit =
     \<lparr>ud_Quantity = quantity, ud_Unit = unit, ud_Source = ''request'', ud_Confidence = ''estimated'',
      ud_ProcurementPriceSnapshotID = [], ud_Attributes = []\<rparr>"

definition reserve_milliseconds :: "string \<Rightarrow> int \<Rightarrow> UsageDimensions \<Rightarrow> UsageDimensions" where
  "reserve_milliseconds name quantity reserved =
     (if quantity > 0 then go_set name (estimated_dimension quantity UsageUnitMillisecond) reserved else reserved)"

definition usageReservationForCanonicalRequest :: "CanonicalRequest \<Rightarrow> UsageDimensions option" where
  "usageReservationForCanonicalRequest request =
     NormalizeUsageDimensions
       (if req_Modality request = GatewayModalityImage then
          (if requested_outputs request > 0
           then go_set UsageDimensionOutputImages (estimated_dimension (requested_outputs request) UsageUnitCount) [] else [])
        else if req_Modality request = ''video'' then
          reserve_milliseconds UsageDimensionOutputVideoMilliseconds (req_VideoDurationMS request) []
        else if req_Modality request = ''audio'' then
          reserve_milliseconds UsageDimensionOutputAudioMilliseconds (req_AudioDurationMS request)
            (reserve_milliseconds UsageDimensionInputAudioMilliseconds (req_InputAudioDurationMS request) [])
        else [])"

text \<open>A monthly limit on video or audio needs the duration of the request.\<close>

definition duration_missing :: "CanonicalLimits \<Rightarrow> CanonicalRequest \<Rightarrow> bool" where
  "duration_missing limits request \<longleftrightarrow>
     cl_MonthlyVideoSecondsLimit limits > 0 \<and> req_Modality request = ''video'' \<and> req_VideoDurationMS request \<le> 0 \<or>
     cl_MonthlyAudioSecondsLimit limits > 0 \<and> req_Modality request = ''audio'' \<and>
     (if req_Operation request = GatewayOperationAudioTranscription \<or> req_Operation request = GatewayOperationAudioTranslation
      then req_InputAudioDurationMS request else req_AudioDurationMS request) \<le> 0"

definition new_hold :: "string \<Rightarrow> AIOperation \<Rightarrow> billingHoldEstimate \<Rightarrow> UsageDimensions \<Rightarrow> BillingHold" where
  "new_hold rand operation estimate reservedUsage =
     (let now = op_CreatedAt operation in
      \<lparr>hold_ID = ''hold_'' @ rand, hold_OperationID = op_ID operation, hold_ApplicationID = op_ApplicationID operation,
       hold_CredentialID = op_CredentialID operation, hold_CredentialSource = op_CredentialSource operation,
       hold_IntegrationID = op_IntegrationID operation, hold_PrincipalType = op_PrincipalType operation,
       hold_PrincipalID = op_PrincipalID operation, hold_ExternalSubjectReference = op_ExternalSubjectReference operation,
       hold_RequestFingerprint = op_RequestFingerprint operation, hold_Status = BillingHoldStatusReserved, hold_Version = 1,
       hold_ReservedAmountMicros = es_ReservedAmountMicros estimate, hold_ReservedUsageDimensions = reservedUsage,
       hold_SettledAmountMicros = 0, hold_Currency = es_Currency estimate, hold_EstimateSource = es_Source estimate, hold_Reason = [],
       hold_BudgetPeriodStart = time_Date (time_Year now) (time_Month now) 1 0, hold_ExpiresAt = now + BillingHoldDefaultTTL,
       hold_CreatedAt = now, hold_UpdatedAt = now, hold_SettledAt = None, hold_ReleasedAt = None\<rparr>)"

definition newBillingHoldAdmission ::
  "admission_env \<Rightarrow> string \<Rightarrow> string \<Rightarrow> AIOperation \<Rightarrow> CanonicalAuthContext \<Rightarrow> CanonicalRequest \<Rightarrow> pricing_store \<Rightarrow>
   begin_error + BillingHoldAdmission" where
  "newBillingHoldAdmission A evalRand holdRand operation auth request s =
     and_then (estimateBillingHold A evalRand operation request s) (\<lambda>estimate.
       let limits = ca_Limits auth in
       if cl_MonthlyBudgetMicros limits > 0 \<and> es_ReservedAmountMicros estimate = 0 \<and> es_Source estimate = ''unpriced''
       then Inl ErrBillingHoldEstimateUnavailable
       else if cl_MonthlyBudgetMicros limits > 0 \<and> es_Currency estimate \<noteq> CurrencyUSD then Inl ErrBillingHoldEstimateUnavailable
       else (case usageReservationForCanonicalRequest request of
               None \<Rightarrow> Inl BeginUsageDimensions
             | Some reservedUsage \<Rightarrow>
                 if duration_missing limits request then Inl ErrBillingHoldUsageEstimate
                 else (let hold = new_hold holdRand operation estimate reservedUsage in
                       Inr \<lparr>adm_Hold = hold,
                         adm_PricingVersions = map (\<lambda>version. version\<lparr>hpv_HoldID := hold_ID hold\<rparr>) (es_PricingVersions estimate),
                         adm_PricingEvaluations = es_PricingEvaluations estimate,
                         adm_MonthlyBudgetMicros = nonNegativeInt64 (cl_MonthlyBudgetMicros limits),
                         adm_MonthlyImageLimit = nonNegative (cl_MonthlyImageLimit limits),
                         adm_MonthlyVideoSecondsLimit = nonNegative (cl_MonthlyVideoSecondsLimit limits),
                         adm_MonthlyAudioSecondsLimit = nonNegative (cl_MonthlyAudioSecondsLimit limits)\<rparr>)))"

section \<open>Operations\<close>

definition aiJobOwnerFromAuth :: "CanonicalAuthContext \<Rightarrow> AIJobOwner" where
  "aiJobOwnerFromAuth auth =
     \<lparr>ow_ApplicationID = TrimSpace (ca_ApplicationID auth), ow_IntegrationID = TrimSpace (ca_IntegrationID auth),
      ow_PrincipalType = TrimSpace (ca_PrincipalType auth), ow_PrincipalID = TrimSpace (ca_PrincipalID auth),
      ow_ExternalSubjectReference = TrimSpace (ca_ExternalSubjectReference auth)\<rparr>"

definition new_operation :: "string \<Rightarrow> gotime \<Rightarrow> CanonicalAuthContext \<Rightarrow> CanonicalRequest \<Rightarrow> AIOperation" where
  "new_operation rand now auth request =
     \<lparr>op_ID = ''aio_'' @ rand, op_ApplicationID = TrimSpace (ca_ApplicationID auth), op_CredentialID = TrimSpace (ca_CredentialID auth),
      op_CredentialSource = ca_CredentialSource auth, op_IntegrationID = TrimSpace (ca_IntegrationID auth),
      op_PrincipalType = TrimSpace (ca_PrincipalType auth), op_PrincipalID = TrimSpace (ca_PrincipalID auth),
      op_ExternalSubjectReference = TrimSpace (ca_ExternalSubjectReference auth), op_ClientRequestID = TrimSpace (req_ClientRequestID request),
      op_RequestFingerprint = TrimSpace (req_Fingerprint request), op_IdempotencyKey = TrimSpace (req_IdempotencyKey request),
      op_Protocol = req_Protocol request, op_Operation = TrimSpace (req_Operation request), op_Modality = TrimSpace (req_Modality request),
      op_Lane = req_Lane request, op_Model = TrimSpace (req_Model request), op_ArtifactPolicy = artifactPolicySnapshot (ca_ArtifactPolicy auth),
      op_ArtifactSinkID = artifactSinkSnapshot (ca_ArtifactPolicy auth) (ca_ArtifactSinkID auth), op_Status = AIOperationStatusAccepted,
      op_ErrorType = [], op_CreatedAt = now, op_UpdatedAt = now, op_CompletedAt = None\<rparr>"

definition BeginCanonicalOperation ::
  "admission_env \<Rightarrow> string \<Rightarrow> string \<Rightarrow> string \<Rightarrow> gotime \<Rightarrow> (nat \<Rightarrow> gotime) \<Rightarrow> CanonicalAuthContext \<Rightarrow> CanonicalRequest \<Rightarrow>
   (nat \<Rightarrow> MemoryRepository) \<Rightarrow> pricing_store \<Rightarrow> MemoryRepository \<Rightarrow> MemoryRepository \<times> (begin_error + AIOperation \<times> bool)" where
  "BeginCanonicalOperation A opRand evalRand holdRand now checkedAt auth request r0 s r =
     (if TrimSpace (ca_CredentialID auth) = [] \<or> TrimSpace (req_Fingerprint request) = [] \<or> req_Protocol request = [] \<or>
         req_Operation request = [] \<or> req_Lane request = []
      then (r, Inl BeginRequestInvalid)
      else (let operation = new_operation opRand now auth request in
            if \<not> validArtifactSinkBinding (op_ArtifactPolicy operation) (op_ArtifactSinkID operation) then (r, Inl BeginSinkRequired)
            else (case ValidateInputArtifactsForAuth (ae_unmarshal A) (aiJobOwnerFromAuth auth) checkedAt (req_Payload request) r0 of
                    Some e \<Rightarrow> (r, Inl (BeginArtifact e))
                  | None \<Rightarrow>
                      (case newBillingHoldAdmission A evalRand holdRand operation auth request s of
                         Inl e \<Rightarrow> (r, Inl e)
                       | Inr billing \<Rightarrow>
                           (case CreateAIOperationWithBillingHold operation billing r of
                              (r', Inl e) \<Rightarrow> (r', Inl (BeginRepo e))
                            | (r', Inr (createdOperation, created)) \<Rightarrow>
                                if \<not> created \<and> op_RequestFingerprint createdOperation \<noteq> op_RequestFingerprint operation
                                then (r', Inl ErrGatewayIdempotencyConflict)
                                else (r', Inr (createdOperation, created)))))))"

text \<open>The service calls that move an operation on; the errors are those of the two updates.\<close>

datatype operation_error = AIOperationNotAccepted | AIOperationStatusInvalid | AIOperationNotActive

definition Service_MarkAIOperationRunning :: "gotime \<Rightarrow> string \<Rightarrow> MemoryRepository \<Rightarrow> MemoryRepository \<times> operation_error option" where
  "Service_MarkAIOperationRunning now operationID r =
     (case MarkAIOperationRunning (TrimSpace operationID) now r of
        (r', updated) \<Rightarrow> (r', if \<not> updated then Some AIOperationNotAccepted else None))"

definition Service_CompleteAIOperation ::
  "gotime \<Rightarrow> string \<Rightarrow> string \<Rightarrow> string \<Rightarrow> MemoryRepository \<Rightarrow> MemoryRepository \<times> operation_error option" where
  "Service_CompleteAIOperation now operationID status errorType r =
     (if \<not> oneOf status [AIOperationStatusSucceeded, AIOperationStatusFailed, AIOperationStatusCanceled]
      then (r, Some AIOperationStatusInvalid)
      else (case CompleteAIOperation (TrimSpace operationID) status (TrimSpace errorType) now r of
              (r', updated) \<Rightarrow> (r', if \<not> updated then Some AIOperationNotActive else None)))"

section \<open>Durable jobs\<close>

definition ProtocolAsterJobs :: string where "ProtocolAsterJobs = ''aster_jobs''"
definition ProtocolOpenAIImages :: string where "ProtocolOpenAIImages = ''openai_images_generations''"
definition ProtocolOpenAIMedia :: string where "ProtocolOpenAIMedia = ''openai_media_generations''"
definition GatewayModelStatusActive :: string where "GatewayModelStatusActive = ''active''"

definition durableAIJobProtocolSupported :: "string \<Rightarrow> bool" where
  "durableAIJobProtocolSupported protocol \<longleftrightarrow>
     protocol = ProtocolAsterJobs \<or> protocol = ProtocolOpenAIImages \<or> protocol = ProtocolOpenAIMedia"

record GatewayModel =
  gm_ID :: string
  gm_ModelID :: string
  gm_Name :: string
  gm_Description :: string
  gm_Modality :: string
  gm_DefaultRouteGroup :: string
  gm_StickyEnabled :: bool
  gm_StickyTTLSeconds :: int
  gm_Status :: string
  gm_RouteCount :: int
  gm_CreatedAt :: gotime
  gm_UpdatedAt :: gotime

record ResolvedGatewayModel =
  rm_GatewayModel :: GatewayModel
  rm_RequestedID :: string
  rm_RouteGroup :: string

text \<open>
  A model is asked for by its identifier, or by its identifier and a route group after the last colon
  (the parts around it are what \<^verbatim>\<open>strings.LastIndex\<close> finds). \<open>models\<close> is what
  \<^verbatim>\<open>ListGatewayModels\<close> returns.
\<close>

definition active_model :: "GatewayModel list \<Rightarrow> string \<Rightarrow> GatewayModel option" where
  "active_model models modelID = List.find (\<lambda>model. gm_Status model = GatewayModelStatusActive \<and> gm_ModelID model = modelID) models"

definition ResolveGatewayModel :: "GatewayModel list \<Rightarrow> string \<Rightarrow> ResolvedGatewayModel option" where
  "ResolveGatewayModel models requestedID0 =
     (let requestedID = TrimSpace requestedID0 in
      if requestedID = [] then None
      else (case active_model models requestedID of
              Some model \<Rightarrow> Some \<lparr>rm_GatewayModel = model, rm_RequestedID = requestedID, rm_RouteGroup = gm_DefaultRouteGroup model\<rparr>
            | None \<Rightarrow>
                (let routeGroup = rev (takeWhile (\<lambda>c. c \<noteq> CHR '':'') (rev requestedID));
                     modelID = take (length requestedID - length routeGroup - 1) requestedID
                 in if CHR '':'' \<notin> set requestedID \<or> modelID = [] \<or> routeGroup = [] then None
                    else map_option (\<lambda>model. \<lparr>rm_GatewayModel = model, rm_RequestedID = requestedID, rm_RouteGroup = routeGroup\<rparr>)
                           (active_model models modelID))))"

text \<open>Encryption of a secret; \<open>seal\<close> is AES-GCM with its encoding, which may fail.\<close>

definition encryptSecret :: "(string \<Rightarrow> string option) \<Rightarrow> string \<Rightarrow> string option" where
  "encryptSecret seal v = (if TrimSpace v = [] then Some [] else map_option (\<lambda>sealed. ''v2:'' @ sealed) (seal (TrimSpace v)))"

definition new_job :: "string \<Rightarrow> AIOperation \<Rightarrow> string \<Rightarrow> AIJob" where
  "new_job rand operation requestPayloadCiphertext =
     (let now = op_CreatedAt operation in
      \<lparr>job_ID = ''job_'' @ rand, job_OperationID = op_ID operation, job_ApplicationID = op_ApplicationID operation,
       job_CredentialID = op_CredentialID operation, job_CredentialSource = op_CredentialSource operation,
       job_IntegrationID = op_IntegrationID operation, job_PrincipalType = op_PrincipalType operation,
       job_PrincipalID = op_PrincipalID operation, job_ExternalSubjectReference = op_ExternalSubjectReference operation,
       job_RequestFingerprint = op_RequestFingerprint operation, job_IdempotencyKey = op_IdempotencyKey operation,
       job_Protocol = op_Protocol operation, job_Operation = op_Operation operation, job_Modality = op_Modality operation,
       job_Model = op_Model operation, job_ArtifactPolicy = op_ArtifactPolicy operation, job_ArtifactSinkID = op_ArtifactSinkID operation,
       job_RequestPayload = [], job_RequestPayloadCiphertext = requestPayloadCiphertext, job_Status = AIJobStatusQueued,
       job_StatusVersion = 1, job_Priority = 0, job_NextEligibleAt = now, job_QueueLeaseUntil = None, job_QueueLeaseToken = [],
       job_QueueWorkerID = [], job_FenceToken = 0, job_ErrorType = [], job_CreatedAt = now, job_UpdatedAt = now, job_CompletedAt = None,
       job_ExpiresAt = now + AIJobDefaultTTL\<rparr>)"

text \<open>The checks of the request, up to its artifacts, before any record is built.\<close>

definition durable_request_error ::
  "admission_env \<Rightarrow> GatewayModel list \<Rightarrow> (nat \<Rightarrow> gotime) \<Rightarrow> CanonicalAuthContext \<Rightarrow> CanonicalRequest \<Rightarrow> (nat \<Rightarrow> MemoryRepository) \<Rightarrow> begin_error option" where
  "durable_request_error A models checkedAt auth request r0 =
     (if req_Lane request \<noteq> LaneDurable \<or> \<not> durableAIJobProtocolSupported (req_Protocol request) \<or> TrimSpace (req_IdempotencyKey request) = []
      then (if TrimSpace (req_IdempotencyKey request) = [] then Some ErrAIJobIdempotencyRequired else Some BeginRequestInvalid)
      else if TrimSpace (ca_CredentialID auth) = [] \<or> TrimSpace (ca_ApplicationID auth) = [] \<or> TrimSpace (ca_PrincipalID auth) = [] \<or>
              TrimSpace (req_Fingerprint request) = []
      then Some BeginRequestInvalid
      else (case ResolveGatewayModel models (req_Model request) of
              None \<Rightarrow> Some ErrAIJobCapabilityMismatch
            | Some resolved \<Rightarrow>
                if gm_Modality (rm_GatewayModel resolved) \<noteq> req_Modality request \<and> gm_Modality (rm_GatewayModel resolved) \<noteq> ''multimodal''
                then Some ErrAIJobCapabilityMismatch
                else map_option BeginArtifact
                       (ValidateInputArtifactsForAuth (ae_unmarshal A) (aiJobOwnerFromAuth auth) checkedAt (req_Payload request) r0)))"

definition BeginDurableAIJob ::
  "admission_env \<Rightarrow> (string \<Rightarrow> string option) \<Rightarrow> (string \<Rightarrow> string) \<Rightarrow> 's ready_ops \<Rightarrow> AIJobAdmissionLimits \<Rightarrow> GatewayModel list \<Rightarrow>
   string \<Rightarrow> string \<Rightarrow> string \<Rightarrow> string \<Rightarrow> gotime \<Rightarrow> (nat \<Rightarrow> gotime) \<Rightarrow> CanonicalAuthContext \<Rightarrow> CanonicalRequest \<Rightarrow> (nat \<Rightarrow> MemoryRepository) \<Rightarrow>
   pricing_store \<Rightarrow> 's job_service \<Rightarrow> 's job_service \<times> (begin_error + AIJob \<times> bool)" where
  "BeginDurableAIJob A seal hash ops limits models opRand jobRand evalRand holdRand now checkedAt auth request r0 s sv =
     (case durable_request_error A models checkedAt auth request r0 of
        Some e \<Rightarrow> (sv, Inl e)
      | None \<Rightarrow>
          (case encryptSecret seal (req_Payload request) of
             None \<Rightarrow> (sv, Inl BeginEncryption)
           | Some ciphertext \<Rightarrow>
               (let operation = new_operation opRand now auth request; job = new_job jobRand operation ciphertext in
                if \<not> validArtifactSinkBinding (op_ArtifactPolicy operation) (op_ArtifactSinkID operation) then (sv, Inl BeginSinkRequired)
                else (case newAIJobTransitionRecords hash job AIJobStatusAccepted [] now of
                        Inl e \<Rightarrow> (sv, Inl (BeginRepo e))
                      | Inr (event, outbox) \<Rightarrow>
                          (case newBillingHoldAdmission A evalRand holdRand operation auth request s of
                             Inl e \<Rightarrow> (sv, Inl e)
                           | Inr billing \<Rightarrow>
                               (case CreateDurableAIJob operation job event outbox limits billing (sv_repo sv) of
                                  (r, Inl e) \<Rightarrow> (sv\<lparr>sv_repo := r\<rparr>, Inl (BeginRepo e))
                                | (r, Inr (createdJob, created)) \<Rightarrow>
                                    if \<not> created \<and> job_RequestFingerprint createdJob \<noteq> job_RequestFingerprint job
                                    then (sv\<lparr>sv_repo := r\<rparr>, Inl ErrGatewayIdempotencyConflict)
                                    else (sv\<lparr>sv_repo := r, sv_index := index_register ops createdJob (sv_index sv)\<rparr>,
                                          Inr (createdJob, created))))))))"

section \<open>A reservation is always well-formed\<close>

lemma estimated_dimension_normal:
  assumes "go_get usageDimensionUnits name = Some unit" "0 \<le> quantity"
  shows "dimension_normal (name, estimated_dimension quantity unit)"
  using assms by (simp add: dimension_normal_def estimated_dimension_def validUsageDimensionToken_def token_char_def less_eq_char_def
      UsageConfidences_def attributes_normal_def)

lemma media_units:
  "go_get usageDimensionUnits UsageDimensionOutputImages = Some UsageUnitCount"
  "go_get usageDimensionUnits UsageDimensionOutputVideoMilliseconds = Some UsageUnitMillisecond"
  "go_get usageDimensionUnits UsageDimensionOutputAudioMilliseconds = Some UsageUnitMillisecond"
  "go_get usageDimensionUnits UsageDimensionInputAudioMilliseconds = Some UsageUnitMillisecond"
  by code_simp+

lemma audio_names: "UsageDimensionOutputAudioMilliseconds \<noteq> UsageDimensionInputAudioMilliseconds"
  by code_simp

lemma reservation_total:
  obtains d where "usageReservationForCanonicalRequest request = Some d" "dimensions_normal d"
proof -
  note normal = dimensions_normal_def reserve_milliseconds_def estimated_dimension_normal [OF media_units(1)]
    estimated_dimension_normal [OF media_units(2)] estimated_dimension_normal [OF media_units(3)] estimated_dimension_normal [OF media_units(4)]
  let ?image = "if requested_outputs request > 0
     then go_set UsageDimensionOutputImages (estimated_dimension (requested_outputs request) UsageUnitCount) [] else []"
  let ?video = "reserve_milliseconds UsageDimensionOutputVideoMilliseconds (req_VideoDurationMS request) []"
  let ?audio = "reserve_milliseconds UsageDimensionOutputAudioMilliseconds (req_AudioDurationMS request)
     (reserve_milliseconds UsageDimensionInputAudioMilliseconds (req_InputAudioDurationMS request) [])"
  have "dimensions_normal ?image" "dimensions_normal ?video" "dimensions_normal ?audio" "dimensions_normal []"
    using audio_names by (simp_all add: normal)
  then have "\<exists>d. usageReservationForCanonicalRequest request = Some d \<and> dimensions_normal d"
    using Normalize_id by (simp add: usageReservationForCanonicalRequest_def)
  then show ?thesis using that by blast
qed

lemma requested_limits_nonneg:
  "requested_limits A request = Inr limits \<Longrightarrow> 0 \<le> rl_MaxCostMicros limits"
  by (auto simp: requested_limits_def Let_def split: option.splits if_splits)

text \<open>What a successful estimate is: the price of the selected rule, or the cost the client allows.\<close>

definition estimate_of ::
  "admission_env \<Rightarrow> string \<Rightarrow> AIOperation \<Rightarrow> CanonicalRequest \<Rightarrow> pricing_store \<Rightarrow> request_limits \<Rightarrow> billingHoldEstimate \<Rightarrow> bool" where
  "estimate_of A rand operation request s limits estimate \<longleftrightarrow>
     (case SelectPricingRule (ae_engine A) (req_Model request) s of
        Inl e \<Rightarrow> False
      | Inr (Some selection) \<Rightarrow>
          (let facts = estimatePricingFacts operation request (rl_MaxTokens limits) (rl_MaxCompletionTokens limits) in
           \<exists>result. engine_Evaluate (ae_engine A) (sel_Compiled selection) facts = Inr result \<and>
             estimate = priced_estimate rand operation limits selection facts result)
      | Inr None \<Rightarrow> es_ReservedAmountMicros estimate = rl_MaxCostMicros limits \<and> es_Currency estimate = CurrencyUSD \<and>
          es_PricingVersions estimate = [] \<and> es_PricingEvaluations estimate = [] \<and>
          (rl_MaxCostMicros limits = 0 \<longrightarrow> es_Source estimate = ''unpriced''))"

lemma estimateBillingHold_Inr:
  assumes "estimateBillingHold A rand operation request s = Inr estimate"
  obtains limits where "requested_limits A request = Inr limits" "estimate_of A rand operation request s limits estimate"
proof -
  obtain limits where limits: "requested_limits A request = Inr limits"
    using assms by (auto simp: estimateBillingHold_def and_then_Inr_iff)
  moreover have "estimate_of A rand operation request s limits estimate"
    using assms unfolding estimateBillingHold_def limits and_then_simps Let_def estimate_of_def
    by (cases "SelectPricingRule (ae_engine A) (req_Model request) s") (auto split: sum.splits option.splits)
  ultimately show ?thesis by (rule that)
qed

lemma estimate_ok:
  assumes "estimate_of A rand operation request s limits estimate" "0 \<le> rl_MaxCostMicros limits"
  shows "0 \<le> es_ReservedAmountMicros estimate" "es_Currency estimate = CurrencyUSD"
  using assms Evaluate_amount(3)
  by (auto simp: estimate_of_def priced_estimate_def Let_def max_def split: sum.splits option.splits)

text \<open>The calendar month of an instant after the first month of year 1 does not start at the zero time.\<close>

lemma monthStart_nonzero:
  assumes "31 * day_ns \<le> t"
  shows "monthStart t \<noteq> zero_time"
proof
  assume zero: "monthStart t = zero_time"
  have "AddDate 0 1 0 zero_time = 31 * day_ns" by code_simp
  then have "t < 31 * day_ns" using month_contains [of t] by (simp add: zero)
  then show False using assms by simp
qed

lemma new_admission_valid:
  assumes "newBillingHoldAdmission A evalRand holdRand operation auth request s = Inr billing"
    and "op_RequestFingerprint operation \<noteq> []" "31 * day_ns \<le> op_CreatedAt operation"
  shows "validateBillingHoldAdmission (normalizeAIOperation operation) billing = None"
proof -
  obtain d where d: "usageReservationForCanonicalRequest request = Some d" "dimensions_normal d" by (rule reservation_total)
  obtain estimate where e: "estimateBillingHold A evalRand operation request s = Inr estimate"
    and b: "adm_Hold billing = new_hold holdRand operation estimate d"
      "adm_PricingVersions billing = map (\<lambda>v. v\<lparr>hpv_HoldID := ''hold_'' @ holdRand\<rparr>) (es_PricingVersions estimate)"
      "adm_PricingEvaluations billing = es_PricingEvaluations estimate"
      "0 \<le> adm_MonthlyBudgetMicros billing" "0 \<le> adm_MonthlyImageLimit billing" "0 \<le> adm_MonthlyVideoSecondsLimit billing"
      "0 \<le> adm_MonthlyAudioSecondsLimit billing"
    using assms(1) by (auto simp: newBillingHoldAdmission_def and_then_Inr_iff d(1) new_hold_def nonNegative_def nonNegativeInt64_def Let_def
        split: if_splits)
  obtain limits where limits: "requested_limits A request = Inr limits" "estimate_of A evalRand operation request s limits estimate"
    by (rule estimateBillingHold_Inr [OF e])
  note ok = estimate_ok [OF limits(2) requested_limits_nonneg [OF limits(1)]]
  have usd: "length (TrimSpace CurrencyUSD) = 3" by code_simp
  have hold: "TrimSpace (''hold_'' @ holdRand) \<noteq> []" by (simp add: TrimSpace_graphic graphic_def less_eq_char_def)
  have time: "op_CreatedAt operation \<noteq> zero_time" "time_Date (time_Year (op_CreatedAt operation)) (time_Month (op_CreatedAt operation)) 1 0 \<noteq> zero_time"
    using assms(3) monthStart_nonzero by (auto simp: monthStart_def)
  have "hold_matches_operation (normalizeAIOperation operation) billing"
    using ok b(4-7) usd hold assms(2) time
    by (simp add: hold_matches_operation_def b(1) new_hold_def normalizeAIOperation_def BillingHoldDefaultTTL_def AIJobDefaultTTL_def Let_def)
  moreover have "hold_evaluations (normalizeAIOperation operation) (adm_PricingEvaluations billing) [] =
      Inr (map (\<lambda>e. (pe_ID e, e)) (es_PricingEvaluations estimate)) \<and>
      hold_versions (adm_Hold billing) (map (\<lambda>e. (pe_ID e, e)) (es_PricingEvaluations estimate)) (adm_PricingVersions billing) [] = None \<and>
      length (es_PricingEvaluations estimate) = length (adm_PricingVersions billing)"
    using limits(2) unfolding b
    by (auto simp: estimate_of_def priced_estimate_def successfulPricingEvaluation_def new_hold_def Let_def split: sum.splits option.splits)
  ultimately show ?thesis
    using Normalize_id [OF d(2)] by (simp add: validateBillingHoldAdmission_def b(1) new_hold_def Let_def)
qed

section \<open>What an admitted request has reserved\<close>

definition reserves ::
  "admission_env \<Rightarrow> AIOperation \<Rightarrow> CanonicalAuthContext \<Rightarrow> CanonicalRequest \<Rightarrow> pricing_store \<Rightarrow> MemoryRepository \<Rightarrow> BillingHold \<Rightarrow> bool" where
  "reserves A operation auth request s r h \<longleftrightarrow>
     go_get (billingHolds r) (hold_ID h) = Some h \<and> hold_OperationID h = op_ID operation \<and> hold_Status h = BillingHoldStatusReserved \<and>
     hold_BudgetPeriodStart h = monthStart (op_CreatedAt operation) \<and>
     (\<exists>limits. requested_limits A request = Inr limits \<and>
        (case SelectPricingRule (ae_engine A) (req_Model request) s of
           Inl _ \<Rightarrow> False
         | Inr None \<Rightarrow> hold_ReservedAmountMicros h = rl_MaxCostMicros limits \<and>
             (0 < cl_MonthlyBudgetMicros (ca_Limits auth) \<longrightarrow> 0 < hold_ReservedAmountMicros h)
         | Inr (Some selection) \<Rightarrow> pv_State (sel_Version selection) = PricingVersionStatePublished \<and>
             (\<exists>result v. engine_Evaluate (ae_engine A) (sel_Compiled selection)
                  (estimatePricingFacts operation request (rl_MaxTokens limits) (rl_MaxCompletionTokens limits)) = Inr result \<and>
                hold_ReservedAmountMicros h = max (rl_MaxCostMicros limits) (res_AmountMicros result) \<and>
                go_get (billingHoldPricingVersions r) (hold_version_key v) = Some v \<and> hpv_HoldID v = hold_ID h \<and>
                hpv_Purpose v = PricingPurposeUsageCost \<and> hpv_PricingRuleVersionID v = pv_ID (sel_Version selection))))"

lemma reserves_cong:
  "billingHolds r' = billingHolds r \<Longrightarrow> billingHoldPricingVersions r' = billingHoldPricingVersions r \<Longrightarrow>
   reserves A operation auth request s r' h = reserves A operation auth request s r h"
  by (simp only: reserves_def)

lemma selected_published:
  "SelectPricingRule E model s = Inr (Some selection) \<Longrightarrow> pv_State (sel_Version selection) = PricingVersionStatePublished"
  by (auto simp: SelectPricingRule_def split: option.splits if_splits sum.splits)

lemma insert_reserves:
  assumes "newBillingHoldAdmission A evalRand holdRand operation auth request s = Inr billing"
  shows "reserves A operation auth request s (insert_hold admitted billing r) (adm_Hold billing)"
proof -
  obtain d where d: "usageReservationForCanonicalRequest request = Some d" by (rule reservation_total)
  obtain estimate where e: "estimateBillingHold A evalRand operation request s = Inr estimate"
    and b: "adm_Hold billing = new_hold holdRand operation estimate d"
      "adm_PricingVersions billing = map (\<lambda>v. v\<lparr>hpv_HoldID := ''hold_'' @ holdRand\<rparr>) (es_PricingVersions estimate)"
      "\<not> (cl_MonthlyBudgetMicros (ca_Limits auth) > 0 \<and> es_ReservedAmountMicros estimate = 0 \<and> es_Source estimate = ''unpriced'')"
    using assms by (auto simp: newBillingHoldAdmission_def and_then_Inr_iff d new_hold_def Let_def split: if_splits)
  obtain limits where limits: "requested_limits A request = Inr limits" "estimate_of A evalRand operation request s limits estimate"
    by (rule estimateBillingHold_Inr [OF e])
  note cost = requested_limits_nonneg [OF limits(1)]
  have hold: "go_get (billingHolds (insert_hold admitted billing r)) (hold_ID (adm_Hold billing)) = Some (adm_Hold billing)"
    "hold_OperationID (adm_Hold billing) = op_ID operation" "hold_Status (adm_Hold billing) = BillingHoldStatusReserved"
    "hold_BudgetPeriodStart (adm_Hold billing) = monthStart (op_CreatedAt operation)"
    by (simp_all add: insert_hold_def b(1) new_hold_def monthStart_def Let_def)
  show ?thesis
  proof (cases "SelectPricingRule (ae_engine A) (req_Model request) s")
    case (Inl e)
    then show ?thesis using limits(2) by (simp add: estimate_of_def)
  next
    case (Inr selected)
    show ?thesis
    proof (cases selected)
      case None
      then have "es_ReservedAmountMicros estimate = rl_MaxCostMicros limits \<and> (rl_MaxCostMicros limits = 0 \<longrightarrow> es_Source estimate = ''unpriced'')"
        using limits(2) Inr by (simp add: estimate_of_def)
      then show ?thesis using hold cost b(3) limits(1) Inr None by (auto simp: reserves_def b(1) new_hold_def Let_def)
    next
      case (Some selection)
      let ?facts = "estimatePricingFacts operation request (rl_MaxTokens limits) (rl_MaxCompletionTokens limits)"
      obtain result where result: "engine_Evaluate (ae_engine A) (sel_Compiled selection) ?facts = Inr result"
          "estimate = priced_estimate evalRand operation limits selection ?facts result"
        using limits(2) Inr Some by (auto simp: estimate_of_def Let_def)
      obtain v where v: "adm_PricingVersions billing = [v]" "hpv_HoldID v = ''hold_'' @ holdRand" "hpv_Purpose v = PricingPurposeUsageCost"
          "hpv_PricingRuleVersionID v = pv_ID (sel_Version selection)"
        by (simp add: b(2) result(2) priced_estimate_def Let_def)
      have "go_get (billingHoldPricingVersions (insert_hold admitted billing r)) (hold_version_key v) = Some v"
        by (simp add: insert_hold_def v(1))
      moreover have "hold_ID (adm_Hold billing) = ''hold_'' @ holdRand"
        "hold_ReservedAmountMicros (adm_Hold billing) = max (rl_MaxCostMicros limits) (res_AmountMicros result)"
        by (simp_all add: b(1) new_hold_def result(2) priced_estimate_def Let_def)
      ultimately show ?thesis
        using hold limits(1) Inr Some v(2-4) result(1) selected_published [of "ae_engine A" "req_Model request" s selection]
        unfolding reserves_def by auto
    qed
  qed
qed

lemma normalize_new_operation: "normalizeAIOperation (new_operation rand now auth request) = new_operation rand now auth request"
  by (simp add: normalizeAIOperation_def new_operation_def artifactSinkSnapshot_def Let_def)

text \<open>The errors with which the repository refuses an admission that contradicts itself.\<close>

definition malformed_admission :: "hold_error \<Rightarrow> bool" where
  "malformed_admission e \<longleftrightarrow> e \<in> {HoldUsageDimensionsInvalid, InvalidBillingHoldAdmission, InvalidBillingHoldPricingEvaluation,
     InvalidBillingHoldPricingVersion, DuplicateBillingHoldPricingPurpose, OrphanBillingHoldPricingEvaluation}"

lemma check_evaluations_error: "check_evaluations m es = Some e \<Longrightarrow> \<exists>k. e = RepoEvaluationExists k"
  by (induction es) (auto split: if_splits)

lemma check_versions_error: "check_versions m k vs = Some e \<Longrightarrow> e = RepoInvalidHoldPricingVersion \<or> e = RepoHoldPurposeExists"
  by (induction vs) (auto split: if_splits)

lemma budget_error: "enforceMemoryBillingHoldBudget r admission = Some h \<Longrightarrow> \<not> malformed_admission h"
  by (auto simp: malformed_admission_def enforceMemoryBillingHoldBudget_def enforceUsageDimensionLimits_def Let_def split: if_splits)

text \<open>Every error after the admission has been found well-formed tells of the state of the repository.\<close>

definition refusal :: "repo_error \<Rightarrow> bool" where
  "refusal e \<longleftrightarrow> (\<forall>h. e = RepoHold h \<longrightarrow> \<not> malformed_admission h) \<and> e \<noteq> RepoInvalidJobAdmission"

lemma check_hold_insert_error: "check_hold_insert r operation admission = Some e \<Longrightarrow> refusal e"
  using budget_error [of r admission]
  by (auto simp: check_hold_insert_def refusal_def dest: check_evaluations_error check_versions_error split: option.splits if_splits)

lemma requested_limits_error: "requested_limits A request \<noteq> Inl (BeginRepo e)"
  by (simp add: requested_limits_def Let_def split: option.split)

lemma estimate_error: "estimateBillingHold A rand operation request s \<noteq> Inl (BeginRepo e)"
  using requested_limits_error [of A request e]
  by (cases "requested_limits A request"; cases "SelectPricingRule (ae_engine A) (req_Model request) s")
    (simp_all add: estimateBillingHold_def Let_def split: option.split sum.split)

lemma new_admission_error: "newBillingHoldAdmission A evalRand holdRand operation auth request s \<noteq> Inl (BeginRepo e)"
  using estimate_error [of A evalRand operation request s e]
  by (cases "estimateBillingHold A evalRand operation request s") (simp_all add: newBillingHoldAdmission_def Let_def split: option.split)

lemma create_with_hold_outcome:
  assumes "CreateAIOperationWithBillingHold operation billing r = (r', x)"
    and "validateBillingHoldAdmission (normalizeAIOperation operation) billing = None"
  obtains (failed) e where "x = Inl e" "r' = r" "refusal e"
    | (found) current where "x = Inr (current, False)" "r' = r" "current \<in> set (go_values (aiOperations r))"
        "sameAIOperationIdempotencyScope current operation"
    | (created) "x = Inr (normalizeAIOperation operation, True)" "r' = insert_hold (normalizeAIOperation operation) billing r"
        "find_idempotent r (normalizeAIOperation operation) = None" "go_get (aiOperations r) (op_ID operation) = None"
proof (cases "find_idempotent r (normalizeAIOperation operation)")
  case None
  then show ?thesis
    using assms check_hold_insert_error [of r "normalizeAIOperation operation" billing]
    by (auto simp: CreateAIOperationWithBillingHold_def refusal_def Let_def split: option.splits if_splits intro: failed created)
next
  case (Some current)
  then have "current \<in> set (go_values (aiOperations r))" "sameAIOperationIdempotencyScope current operation"
    by (auto simp: find_idempotent_def find_Some_iff split: if_splits)
  moreover have "x = Inr (current, False)" "r' = r" using assms Some by (simp_all add: CreateAIOperationWithBillingHold_def Let_def)
  ultimately show ?thesis by (intro found)
qed

text \<open>
  C9: what a call of \<^verbatim>\<open>BeginCanonicalOperation\<close> does. A call that fails writes nothing, and it never
  fails because the repository finds the admission malformed. A call that finds the operation of an
  earlier request with the same idempotency key writes nothing and returns that operation, of which the
  fingerprint is that of the request. A call that creates an operation stores it as accepted, when no
  operation had its identifier or its idempotency key, together with a reserved hold in the month of the
  operation: the hold reserves the larger of the cost the client allows and the price of the request
  under the selected published version, and pins that version for the settlement; without a price rule
  it reserves the allowed cost, which is positive when the credential has a budget. The checks may have
  read other states than the one that is written.
\<close>

theorem begin_operation_outcome:
  assumes "BeginCanonicalOperation A opRand evalRand holdRand now checkedAt auth request r0 s r = (r', x)"
    and "31 * day_ns \<le> now"
  shows "case x of
      Inl e \<Rightarrow> r' = r \<and> (\<forall>h. e = BeginRepo (RepoHold h) \<longrightarrow> \<not> malformed_admission h)
    | Inr (operation, False) \<Rightarrow> r' = r \<and> operation \<in> set (go_values (aiOperations r)) \<and>
        sameAIOperationIdempotencyScope operation (new_operation opRand now auth request) \<and>
        op_RequestFingerprint operation = TrimSpace (req_Fingerprint request)
    | Inr (operation, True) \<Rightarrow> operation = new_operation opRand now auth request \<and> op_Status operation = AIOperationStatusAccepted \<and>
        find_idempotent r operation = None \<and> go_get (aiOperations r) (op_ID operation) = None \<and>
        go_get (aiOperations r') (op_ID operation) = Some operation \<and> (\<exists>h. reserves A operation auth request s r' h)"
proof -
  let ?operation = "new_operation opRand now auth request"
  note run = assms(1) [unfolded BeginCanonicalOperation_def Let_def]
  consider (refused) e where "r' = r" "x = Inl e" "\<forall>h. e \<noteq> BeginRepo (RepoHold h)"
    | (billed) billing where "TrimSpace (req_Fingerprint request) \<noteq> []"
        "newBillingHoldAdmission A evalRand holdRand ?operation auth request s = Inr billing"
        "(case CreateAIOperationWithBillingHold ?operation billing r of
            (r', Inl e) \<Rightarrow> (r', Inl (BeginRepo e))
          | (r', Inr (createdOperation, created)) \<Rightarrow>
              if \<not> created \<and> op_RequestFingerprint createdOperation \<noteq> op_RequestFingerprint ?operation
              then (r', Inl ErrGatewayIdempotencyConflict) else (r', Inr (createdOperation, created))) = (r', x)"
    using run new_admission_error by (fastforce split: if_splits option.splits sum.splits)
  then show ?thesis
  proof cases
    case refused
    then show ?thesis by simp
  next
    case billed
    have fields: "op_RequestFingerprint ?operation = TrimSpace (req_Fingerprint request)" "op_CreatedAt ?operation = now"
      "op_Status ?operation = AIOperationStatusAccepted"
      by (simp_all add: new_operation_def)
    have valid: "validateBillingHoldAdmission (normalizeAIOperation ?operation) billing = None"
      by (rule new_admission_valid [OF billed(2)]) (use billed(1) fields assms(2) in simp_all)
    obtain r1 y where create: "CreateAIOperationWithBillingHold ?operation billing r = (r1, y)" by fastforce
    from create valid show ?thesis
    proof (cases rule: create_with_hold_outcome)
      case (failed e)
      then show ?thesis using billed(3) create by (auto simp: refusal_def)
    next
      case (found current)
      then show ?thesis using billed(3) create fields by (auto simp del: set_map split: if_splits)
    next
      case created
      then show ?thesis
        using billed(3) create fields insert_reserves [OF billed(2), of ?operation r]
        by (auto simp: normalize_new_operation insert_hold_def)
    qed
  qed
qed

section \<open>Admission of durable jobs\<close>

lemma new_job_records:
  obtains event out where "newAIJobTransitionRecords hash (new_job rand operation c) AIJobStatusAccepted [] now = Inr (event, out)"
    "event_key event = (''job_'' @ rand, 1)" "ev_EventType event = AIJobEventQueued" "ob_AggregateType out = AIJobOutboxAggregate"
    "ob_AggregateID out = ''job_'' @ rand" "ob_EventVersion out = 1" "ob_EventType out = AIJobEventQueued"
  by (simp add: newAIJobTransitionRecords_def newAIJobEventRecords_def aiJobEventType_def new_job_def event_key_def Let_def)

lemma new_job_valid:
  assumes "durable_request_error A models checkedAt auth request r0 = None"
    and "validArtifactSinkBinding (op_ArtifactPolicy operation) (op_ArtifactSinkID operation)" "operation = new_operation opRand now auth request"
    and "event_key event = (''job_'' @ rand, 1)" "ev_EventType event = AIJobEventQueued" "ob_AggregateType out = AIJobOutboxAggregate"
      "ob_AggregateID out = ''job_'' @ rand" "ob_EventVersion out = 1" "ob_EventType out = AIJobEventQueued"
  shows "validateDurableAIJobAdmission operation (new_job rand operation c) event out = None \<longleftrightarrow> c \<noteq> []"
proof -
  have "req_Lane request = ''durable''" "TrimSpace (req_IdempotencyKey request) \<noteq> []" "TrimSpace (req_Fingerprint request) \<noteq> []"
    using assms(1) by (auto simp: durable_request_error_def LaneDurable_def split: if_splits)
  then show ?thesis
    using assms(2,4-9) artifactPolicySnapshot_valid
    by (simp add: assms(3) validateDurableAIJobAdmission_def new_job_def new_operation_def event_key_def Let_def)
qed

lemma create_job_outcome:
  assumes "CreateDurableAIJob operation0 j event out limits billing r = (r', x)"
    and "validateDurableAIJobAdmission (normalizeAIOperation operation0) j event out = None"
    and "validateBillingHoldAdmission (normalizeAIOperation operation0) billing = None"
  obtains (failed) e where "x = Inl e" "r' = r" "refusal e"
    | (found) current where "x = Inr (current, False)" "r' = r" "current \<in> set (go_values (aiJobs r))" "sameAIJobIdempotencyScope current j"
    | (created) "x = Inr (j, True)" "check_job_insert (normalizeAIOperation operation0) j event out limits billing r = None"
        "r' = (insert_hold (normalizeAIOperation operation0) billing r)\<lparr>aiJobs := go_set (job_ID j) j (aiJobs r),
           aiJobEvents := go_set (ev_ID event) event (aiJobEvents r),
           transactionalOutboxEvents := go_set (ob_ID out) out (transactionalOutboxEvents r)\<rparr>"
proof (cases "List.find (\<lambda>current. sameAIJobIdempotencyScope current j) (go_values (aiJobs r))")
  case None
  have "refusal e" if "check_job_insert (normalizeAIOperation operation0) j event out limits billing r = Some e" for e
    using that by (auto simp: check_job_insert_def check_job_event_def refusal_def split: option.splits if_splits
        dest: check_hold_insert_error [unfolded refusal_def])
  then show ?thesis
    using assms None
    by (auto simp: CreateDurableAIJob_def refusal_def Let_def split: option.splits if_splits intro: failed created)
next
  case (Some current)
  then have "current \<in> set (go_values (aiJobs r))" "sameAIJobIdempotencyScope current j" by (auto simp: find_Some_iff)
  then show ?thesis
    using assms Some failed [of RepoInvalidAdmissionLimits] found
    by (auto simp: CreateDurableAIJob_def refusal_def Let_def simp del: set_map split: if_splits)
qed

lemma begin_durable_cases:
  assumes "BeginDurableAIJob A seal hash ops limits models opRand jobRand evalRand holdRand now checkedAt auth request r0 s sv = (sv', x)"
    and "operation = new_operation opRand now auth request"
  obtains (refused) e where "sv' = sv" "x = Inl e" "\<forall>e'. e \<noteq> BeginRepo e'"
    | (billed) c event out billing r y where "durable_request_error A models checkedAt auth request r0 = None"
        "encryptSecret seal (req_Payload request) = Some c" "validArtifactSinkBinding (op_ArtifactPolicy operation) (op_ArtifactSinkID operation)"
        "newAIJobTransitionRecords hash (new_job jobRand operation c) AIJobStatusAccepted [] now = Inr (event, out)"
        "newBillingHoldAdmission A evalRand holdRand operation auth request s = Inr billing"
        "CreateDurableAIJob operation (new_job jobRand operation c) event out limits billing (sv_repo sv) = (r, y)"
        "(sv', x) = (case y of
            Inl e \<Rightarrow> (sv\<lparr>sv_repo := r\<rparr>, Inl (BeginRepo e))
          | Inr (job, created) \<Rightarrow>
              if \<not> created \<and> job_RequestFingerprint job \<noteq> op_RequestFingerprint operation
              then (sv\<lparr>sv_repo := r\<rparr>, Inl ErrGatewayIdempotencyConflict)
              else (sv\<lparr>sv_repo := r, sv_index := index_register ops job (sv_index sv)\<rparr>, Inr (job, created)))"
proof -
  note run = assms(1) [unfolded BeginDurableAIJob_def Let_def, folded assms(2)]
  show thesis
  proof (cases "durable_request_error A models checkedAt auth request r0")
    case (Some e)
    moreover have "e \<noteq> BeginRepo e'" for e'
      using Some by (auto simp: durable_request_error_def split: if_splits option.splits)
    ultimately show thesis using run refused by auto
  next
    case checked: None
    show thesis
    proof (cases "encryptSecret seal (req_Payload request)")
      case None
      then show thesis using run refused checked by auto
    next
      case (Some c)
      obtain event out where records: "newAIJobTransitionRecords hash (new_job jobRand operation c) AIJobStatusAccepted [] now = Inr (event, out)"
        by (rule new_job_records)
      show thesis
      proof (cases "newBillingHoldAdmission A evalRand holdRand operation auth request s")
        case (Inl e)
        then show thesis
          using run refused checked Some records new_admission_error [of A evalRand holdRand operation auth request s]
          by (auto split: if_splits)
      next
        case (Inr billing)
        obtain r y where create: "CreateDurableAIJob operation (new_job jobRand operation c) event out limits billing (sv_repo sv) = (r, y)"
          by fastforce
        have "job_RequestFingerprint (new_job jobRand operation c) = op_RequestFingerprint operation" by (simp add: new_job_def Let_def)
        then show thesis
          using run checked Some records Inr create billed [OF checked Some _ records Inr create] refused
          by (auto split: if_splits sum.splits)
      qed
    qed
  qed
qed

lemma durable_records_valid:
  assumes "durable_request_error A models checkedAt auth request r0 = None"
    and "validArtifactSinkBinding (op_ArtifactPolicy operation) (op_ArtifactSinkID operation)" "operation = new_operation opRand now auth request"
    and "newAIJobTransitionRecords hash (new_job rand operation c) AIJobStatusAccepted [] now = Inr (event, out)"
    and "newBillingHoldAdmission A evalRand holdRand operation auth request s = Inr billing" "31 * day_ns \<le> now"
  shows "normalizeAIOperation operation = operation" "validateBillingHoldAdmission operation billing = None"
    "validateDurableAIJobAdmission operation (new_job rand operation c) event out = None \<longleftrightarrow> c \<noteq> []"
    "event_key event = (''job_'' @ rand, 1)" "ob_AggregateID out = ''job_'' @ rand" "ob_EventType out = AIJobEventQueued"
proof -
  have event: "event_key event = (''job_'' @ rand, 1)" "ev_EventType event = AIJobEventQueued" "ob_AggregateType out = AIJobOutboxAggregate"
    "ob_AggregateID out = ''job_'' @ rand" "ob_EventVersion out = 1" "ob_EventType out = AIJobEventQueued"
    using assms(4) new_job_records [of hash rand operation c now] by auto
  then show "event_key event = (''job_'' @ rand, 1)" "ob_AggregateID out = ''job_'' @ rand" "ob_EventType out = AIJobEventQueued" by simp_all
  show norm: "normalizeAIOperation operation = operation" by (simp add: assms(3) normalize_new_operation)
  have "op_RequestFingerprint operation \<noteq> []" "op_CreatedAt operation = now"
    using assms(1) by (auto simp: assms(3) new_operation_def durable_request_error_def split: if_splits)
  then show "validateBillingHoldAdmission operation billing = None" using new_admission_valid [OF assms(5)] assms(6) by (simp add: norm)
  show "validateDurableAIJobAdmission operation (new_job rand operation c) event out = None \<longleftrightarrow> c \<noteq> []"
    by (rule new_job_valid [OF assms(1-3) event])
qed

lemma encrypted_empty: "encryptSecret seal payload = Some [] \<Longrightarrow> TrimSpace payload = []"
  by (auto simp: encryptSecret_def split: if_splits)

text \<open>
  C19: what a call of \<^verbatim>\<open>BeginDurableAIJob\<close> does. A call that fails changes neither the repository nor the
  ready index. The repository never finds its hold malformed, and its job only when the payload is blank,
  whose encryption is empty. A call that finds the job of an earlier request with the same idempotency
  key leaves the repository as it is and returns that job. A call that creates a job stores it as queued
  with its operation, a hold that reserves the price of the request, the first event of the job and its
  outbox event, all under new identifiers, and registers it in the ready index.
\<close>

theorem durable_job_admitted:
  assumes "BeginDurableAIJob A seal hash ops limits models opRand jobRand evalRand holdRand now checkedAt auth request r0 s sv = (sv', x)"
    and "31 * day_ns \<le> now"
  shows "case x of
      Inl e \<Rightarrow> sv' = sv \<and> (\<forall>h. e = BeginRepo (RepoHold h) \<longrightarrow> \<not> malformed_admission h) \<and>
        (e = BeginRepo RepoInvalidJobAdmission \<longrightarrow> TrimSpace (req_Payload request) = [])
    | Inr (job, False) \<Rightarrow> sv_repo sv' = sv_repo sv \<and> job \<in> set (go_values (aiJobs (sv_repo sv))) \<and>
        sameAIJobIdempotencyScope job (new_job jobRand (new_operation opRand now auth request) []) \<and>
        job_RequestFingerprint job = TrimSpace (req_Fingerprint request)
    | Inr (job, True) \<Rightarrow> job_Status job = AIJobStatusQueued \<and> sv_index sv' = index_register ops job (sv_index sv) \<and>
        go_get (aiJobs (sv_repo sv)) (job_ID job) = None \<and> go_get (aiJobs (sv_repo sv')) (job_ID job) = Some job \<and>
        go_get (aiOperations (sv_repo sv)) (job_OperationID job) = None \<and>
        go_get (aiOperations (sv_repo sv')) (job_OperationID job) = Some (new_operation opRand now auth request) \<and>
        (\<exists>h. reserves A (new_operation opRand now auth request) auth request s (sv_repo sv') h) \<and>
        (\<exists>event out. go_get (aiJobEvents (sv_repo sv')) (ev_ID event) = Some event \<and> event_key event = (job_ID job, 1) \<and>
           go_get (transactionalOutboxEvents (sv_repo sv')) (ob_ID out) = Some out \<and> ob_AggregateID out = job_ID job \<and>
           ob_EventType out = AIJobEventQueued)"
proof -
  define operation where "operation = new_operation opRand now auth request"
  have fields: "op_RequestFingerprint operation = TrimSpace (req_Fingerprint request)" "op_CreatedAt operation = now"
    by (simp_all add: operation_def new_operation_def)
  from assms(1) operation_def show ?thesis
  proof (cases rule: begin_durable_cases)
    case refused
    then show ?thesis by simp
  next
    case (billed c event out billing r y)
    let ?job = "new_job jobRand operation c"
    note valid = durable_records_valid [OF billed(1,3) operation_def billed(4,5) assms(2)]
    have job: "job_ID ?job = ''job_'' @ jobRand" "job_OperationID ?job = op_ID operation" "job_Status ?job = AIJobStatusQueued"
      by (simp_all add: new_job_def Let_def)
    show ?thesis
    proof (cases "c = []")
      case True
      then have "y = Inl RepoInvalidJobAdmission" "r = sv_repo sv"
        using billed(6) valid(3) by (auto simp: CreateDurableAIJob_def valid(1) validateDurableAIJobAdmission_def Let_def split: if_splits)
      then show ?thesis using billed(2,7) True encrypted_empty by simp
    next
      case False
      then have v: "validateDurableAIJobAdmission (normalizeAIOperation operation) ?job event out = None"
        "validateBillingHoldAdmission (normalizeAIOperation operation) billing = None" using valid(1-3) by simp_all
      from billed(6) v show ?thesis
      proof (cases rule: create_job_outcome)
        case (failed e)
        then show ?thesis using billed(7) by (auto simp: refusal_def)
      next
        case (found current)
        moreover have "sameAIJobIdempotencyScope current (new_job jobRand operation [])"
          using found(4) by (auto simp: sameAIJobIdempotencyScope_def new_job_def Let_def)
        ultimately show ?thesis using billed(7) fields by (auto simp: operation_def [symmetric] simp del: set_map split: if_splits)
      next
        case created
        have "reserves A operation auth request s r (adm_Hold billing)"
          using insert_reserves [OF billed(5), of operation "sv_repo sv"] reserves_cong [of r "insert_hold operation billing (sv_repo sv)"]
          by (simp add: created(3) valid(1))
        then show ?thesis
          using billed(7) created job valid(4-6) check_job_insert_None [OF created(2)] fields
          by (auto simp: operation_def [symmetric] valid(1) insert_hold_def)
      qed
    qed
  qed
qed

lemma find_scope_job:
  assumes "jobs_inv r" "go_get (aiJobs r) k = Some j" "sameAIJobIdempotencyScope j job"
  shows "List.find (\<lambda>current. sameAIJobIdempotencyScope current job) (go_values (aiJobs r)) = Some j"
proof -
  have keyed: "keyed job_ID (aiJobs r)" using jobs_table [OF assms(1)] by (simp add: table_def)
  have "j \<in> set (go_values (aiJobs r))" by (rule keyed_get_value [OF keyed assms(2)])
  then obtain current where current: "List.find (\<lambda>current. sameAIJobIdempotencyScope current job) (go_values (aiJobs r)) = Some current"
    using assms(3) by (cases "List.find (\<lambda>current. sameAIJobIdempotencyScope current job) (go_values (aiJobs r))") (auto simp: find_None_iff)
  then have "current \<in> set (go_values (aiJobs r))" "job_scope current = job_scope j"
    using assms(3) by (auto simp: find_Some_iff same_scope)
  then have "go_get (aiJobs r) (job_ID current) = Some current" "job_scope current = job_scope j" by (simp_all add: keyed_get_iff [OF keyed])
  then have "job_ID current = k" using jobs_unique(2) [OF assms(1)] assms(2) unfolding unique_by_def by blast
  then show ?thesis using current \<open>go_get (aiJobs r) (job_ID current) = Some current\<close> assms(2) by simp
qed

text \<open>
  C10: one idempotency key makes one durable job. After a call has created a job, and any calls of the
  repository have followed, a call for the same application, credential, principal, operation and
  idempotency key that returns a job returns that one in its current state, writes nothing to the
  repository (no second hold is reserved), and has the fingerprint of that job.
\<close>

theorem durable_job_once:
  assumes "BeginDurableAIJob A seal hash ops limits models opRand jobRand evalRand holdRand now checkedAt auth request r0 s sv = (sv1, Inr (job, True))"
    and "(repo_call hash)\<^sup>*\<^sup>* NewMemoryRepository (sv_repo sv1)" "(repo_call hash)\<^sup>*\<^sup>* (sv_repo sv1) (sv_repo sv2)"
    and "BeginDurableAIJob A' seal' hash' ops' limits' models' opRand' jobRand' evalRand' holdRand' now' checkedAt' auth' request' r0' s' sv2 =
      (sv3, Inr (job', created))"
    and "sameAIOperationIdempotencyScope (new_operation opRand now auth request) (new_operation opRand' now' auth' request')"
  shows "\<not> created \<and> sv_repo sv3 = sv_repo sv2 \<and> go_get (aiJobs (sv_repo sv2)) (job_ID job) = Some job' \<and>
    job_RequestFingerprint job' = TrimSpace (req_Fingerprint request')"
proof -
  let ?operation = "new_operation opRand now auth request" and ?operation' = "new_operation opRand' now' auth' request'"
  obtain c where job: "job = new_job jobRand ?operation c" "go_get (aiJobs (sv_repo sv1)) (job_ID job) = Some job"
    using assms(1) by (cases rule: begin_durable_cases [OF _ refl])
      (auto split: sum.splits if_splits elim!: CreateDurableAIJob_cases)
  have inv: "jobs_inv (sv_repo sv2)" and grows: "grows (sv_repo sv1) (sv_repo sv2)"
    using run_inv [OF assms(3)] run_inv [OF assms(2) repo_inv_new] repo_invD by blast+
  obtain j where j: "go_get (aiJobs (sv_repo sv2)) (job_ID job) = Some j" "job_scope j = job_scope job"
    using grows job(2) unfolding grows_def grown_def job_le_def by blast
  have key: "job_IdempotencyKey j \<noteq> []" "job_scope (new_job rand ?operation' c') = job_scope job" for rand c'
    using assms(5) j(2) by (auto simp: job(1) new_job_def job_scope_def sameAIOperationIdempotencyScope_def Let_def)
  from assms(4) refl show ?thesis
  proof (cases rule: begin_durable_cases)
    case (billed c' event out billing r y)
    have found: "List.find (\<lambda>current. sameAIJobIdempotencyScope current (new_job jobRand' ?operation' c')) (go_values (aiJobs (sv_repo sv2))) = Some j"
      by (rule find_scope_job [OF inv j(1)]) (use key j(2) in \<open>simp add: same_scope\<close>)
    have "y = Inr (job', created)" using billed(7) by (auto split: sum.splits if_splits)
    moreover have "op_RequestFingerprint ?operation' = TrimSpace (req_Fingerprint request')" by (simp add: new_operation_def)
    ultimately show ?thesis
      using billed(6,7) found j(1) by (auto simp: CreateDurableAIJob_def Let_def split: option.splits if_splits)
  qed simp
qed

section \<open>Examples\<close>

text \<open>
  An image request with a payload that allows a cost of 3, on a credential with a monthly budget of 10;
  the example price is 7.
\<close>

definition example_limits :: "string \<Rightarrow> request_limits option" where
  "example_limits payload = Some \<lparr>rl_MaxTokens = 0, rl_MaxCompletionTokens = 0, rl_MaxCostMicros = 3\<rparr>"

definition example_document :: "string \<Rightarrow> json option" where
  "example_document payload = Some (JObject [])"

definition example_seal :: "string \<Rightarrow> string option" where
  "example_seal payload = Some payload"

definition example_admitting :: admission_env where
  "example_admitting = \<lparr>ae_engine = example_env, ae_unmarshal = example_document, ae_limits = example_limits\<rparr>"

definition example_credential :: CanonicalAuthContext where
  "example_credential = \<lparr>ca_CredentialSource = ''api_key'', ca_CredentialID = ''c'', ca_CredentialFingerprint = [], ca_IntegrationID = [],
     ca_ApplicationID = ''a'', ca_PrincipalType = ''user'', ca_PrincipalID = ''p'', ca_ExternalSubjectReference = [], ca_PolicyID = [],
     ca_PolicyVersion = 0, ca_RoutingPolicyID = [], ca_Scopes = [], ca_AllowedModels = [], ca_AllowedModalities = [],
     ca_AllowedOperations = [], ca_AllowedCIDRs = [],
     ca_Limits = \<lparr>cl_QPSLimit = 0, cl_RPMLimit = 0, cl_TPMLimit = 0, cl_ConcurrencyLimit = 0, cl_ApplicationConcurrencyLimit = 0,
       cl_MonthlyTokenLimit = 0, cl_MonthlyBudgetMicros = 10, cl_MonthlyImageLimit = 5, cl_MonthlyVideoSecondsLimit = 0,
       cl_MonthlyAudioSecondsLimit = 0\<rparr>,
     ca_LanePolicy = [], ca_ArtifactPolicy = ''managed'', ca_ArtifactSinkID = []\<rparr>"

definition example_image_request :: CanonicalRequest where
  "example_image_request = \<lparr>req_ID = ''r'', req_ClientRequestID = [], req_Fingerprint = ''f'', req_Protocol = ''aster_jobs'',
     req_Operation = ''image_generation'', req_Modality = ''image'', req_Lane = ''durable'', req_Model = ''m'', req_Stream = False,
     req_MessageCount = 0, req_IdempotencyKey = ''k'', req_StickyKey = [], req_ResponseMode = [], req_PreviewMode = [],
     req_DeliveryMode = [], req_OutputCount = 0, req_VideoDurationMS = 0, req_AudioDurationMS = 0, req_InputAudioDurationMS = 0,
     req_InputCharacters = 0, req_SourceIP = [], req_MaxOutputTokens = None, req_Payload = ''p''\<rparr>"

definition example_model :: GatewayModel where
  "example_model = \<lparr>gm_ID = ''g'', gm_ModelID = ''m'', gm_Name = [], gm_Description = [], gm_Modality = ''image'', gm_DefaultRouteGroup = [],
     gm_StickyEnabled = False, gm_StickyTTLSeconds = 0, gm_Status = ''active'', gm_RouteCount = 0, gm_CreatedAt = 0, gm_UpdatedAt = 0\<rparr>"

definition example_now :: gotime where
  "example_now = 63000000000000000000"

definition example_begin :: "MemoryRepository \<times> (begin_error + AIOperation \<times> bool)" where
  "example_begin = BeginCanonicalOperation example_admitting ''1'' ''2'' ''3'' example_now (\<lambda>_. example_now) example_credential
     example_image_request (\<lambda>_. NewMemoryRepository) example_published NewMemoryRepository"

definition example_begin_job ::
  "string \<Rightarrow> MemoryAIJobReadyIndex job_service \<Rightarrow> MemoryAIJobReadyIndex job_service \<times> (begin_error + AIJob \<times> bool)" where
  "example_begin_job rand sv = BeginDurableAIJob example_admitting example_seal id memory_ops no_limits [example_model] rand rand rand rand
     example_now (\<lambda>_. example_now) example_credential example_image_request (\<lambda>_. NewMemoryRepository) example_published sv"

definition example_operation_of :: "string \<Rightarrow> AIOperation" where
  "example_operation_of rand = new_operation rand example_now example_credential example_image_request"

definition example_service :: "MemoryAIJobReadyIndex job_service" where
  "example_service = \<lparr>sv_repo = NewMemoryRepository, sv_index = Some [], sv_queue = example_queue\<rparr>"

definition created_by :: "'s \<times> (begin_error + 'a \<times> bool) \<Rightarrow> bool option" where
  "created_by reply = (case snd reply of Inl _ \<Rightarrow> None | Inr (_, created) \<Rightarrow> Some created)"

lemma created_by_Some: "created_by reply = Some created \<Longrightarrow> \<exists>s x. reply = (s, Inr (x, created))"
  by (cases reply) (auto simp: created_by_def split: sum.splits)

definition reserved_by :: "MemoryRepository \<times> (begin_error + AIOperation \<times> bool) \<Rightarrow> int list" where
  "reserved_by reply = (case reply of
     (r, Inr (_, created)) \<Rightarrow> if created then map hold_ReservedAmountMicros (go_values (billingHolds r)) else [] | (r, Inl _) \<Rightarrow> [])"

lemma reserved_by_Cons:
  assumes "reserved_by reply = amount # amounts"
  obtains r operation where "reply = (r, Inr (operation, True))" "map hold_ReservedAmountMicros (go_values (billingHolds r)) = amount # amounts"
  using assms by (cases reply) (auto simp: reserved_by_def simp del: map_map split: sum.splits if_splits)

lemma example_begins: "reserved_by example_begin = [7]"
  by code_simp

lemma example_begins_job: "created_by (example_begin_job ''1'' example_service) = Some True"
  by code_simp

lemma example_begins_again: "created_by (example_begin_job ''2'' (fst (example_begin_job ''1'' example_service))) = Some False"
  by code_simp

lemma example_now_ok: "31 * day_ns \<le> example_now"
  by code_simp

theorem begin_operation_outcome_witness:
  "\<exists>r operation h. example_begin = (r, Inr (operation, True)) \<and> go_get (aiOperations r) (op_ID operation) = Some operation \<and>
     reserves example_admitting operation example_credential example_image_request example_published r h \<and> hold_ReservedAmountMicros h = 7"
proof -
  obtain r operation where b: "example_begin = (r, Inr (operation, True))" "map hold_ReservedAmountMicros (go_values (billingHolds r)) = [7]"
    by (rule reserved_by_Cons [OF example_begins])
  from begin_operation_outcome [OF b(1) [unfolded example_begin_def] example_now_ok]
  obtain h where h: "go_get (aiOperations r) (op_ID operation) = Some operation"
      "reserves example_admitting operation example_credential example_image_request example_published r h" by auto
  have "go_get (billingHolds r) (hold_ID h) = Some h" using h(2) by (simp add: reserves_def)
  then have "hold_ReservedAmountMicros h = 7" using b(2) by (auto dest!: map_of_SomeD)
  then show ?thesis using b(1) h by blast
qed

theorem durable_job_admitted_witness:
  "\<exists>sv job. example_begin_job ''1'' example_service = (sv, Inr (job, True)) \<and> go_get (aiJobs (sv_repo sv)) (job_ID job) = Some job \<and>
     sv_index sv = index_register memory_ops job (sv_index example_service)"
proof -
  obtain sv job where b: "example_begin_job ''1'' example_service = (sv, Inr (job, True))"
    using created_by_Some [OF example_begins_job] by blast
  from durable_job_admitted [OF b [unfolded example_begin_job_def] example_now_ok]
  show ?thesis using b by auto
qed

text \<open>A call that returns a job is a call of the repository.\<close>

lemma begin_durable_call:
  assumes "BeginDurableAIJob A seal hash ops limits models opRand jobRand evalRand holdRand now checkedAt auth request r0 s sv = (sv', Inr x)"
    and "\<And>billing. newBillingHoldAdmission A evalRand holdRand (new_operation opRand now auth request) auth request s = Inr billing \<Longrightarrow>
      int64_ok (hold_ReservedAmountMicros (adm_Hold billing))"
  shows "repo_call hash (sv_repo sv) (sv_repo sv')"
  using assms(1) refl
proof (cases rule: begin_durable_cases)
  case (billed c event out billing r y)
  have "sv_repo sv' = r" using billed(7) by (auto split: sum.splits if_splits)
  moreover have "repo_call hash (sv_repo sv) (fst (CreateDurableAIJob (new_operation opRand now auth request)
      (new_job jobRand (new_operation opRand now auth request) c) event out limits billing (sv_repo sv)))"
    by (rule repo_call.create_job [OF billed(4) _ assms(2) [OF billed(5)]]) (simp add: new_job_def Let_def)
  ultimately show ?thesis by (simp add: billed(6))
qed simp

lemma example_reserved:
  "case newBillingHoldAdmission example_admitting ''1'' ''1'' (example_operation_of ''1'') example_credential example_image_request example_published of
     Inl _ \<Rightarrow> True | Inr billing \<Rightarrow> int64_ok (hold_ReservedAmountMicros (adm_Hold billing))"
  by code_simp

theorem durable_job_once_witness:
  "\<exists>sv1 sv3 job job'. example_begin_job ''1'' example_service = (sv1, Inr (job, True)) \<and> example_begin_job ''2'' sv1 = (sv3, Inr (job', False)) \<and>
     sv_repo sv3 = sv_repo sv1 \<and> go_get (aiJobs (sv_repo sv1)) (job_ID job) = Some job'"
proof -
  obtain sv1 job where b1: "example_begin_job ''1'' example_service = (sv1, Inr (job, True))"
    using created_by_Some [OF example_begins_job] by blast
  obtain sv3 job' where b2: "example_begin_job ''2'' sv1 = (sv3, Inr (job', False))"
    using created_by_Some [OF example_begins_again [unfolded b1 fst_conv]] by blast
  have "repo_call id (sv_repo example_service) (sv_repo sv1)"
    using example_reserved by (intro begin_durable_call [OF b1 [unfolded example_begin_job_def]]) (simp add: example_operation_of_def)
  then have run: "(repo_call id)\<^sup>*\<^sup>* NewMemoryRepository (sv_repo sv1)" by (simp add: example_service_def)
  have "sameAIOperationIdempotencyScope (example_operation_of ''1'') (example_operation_of ''2'')" by code_simp
  from durable_job_once [OF b1 [unfolded example_begin_job_def] run rtranclp.rtrancl_refl b2 [unfolded example_begin_job_def]
      this [unfolded example_operation_of_def]]
  show ?thesis using b1 b2 by blast
qed

end
