(* ===== verification/Spec2Isabelle.thy ===== *)
theory Spec2Isabelle
  imports Pricing_Engine Pricing_Evaluate Provider_Capacity AI_Job_Delivery_Queue Repository_Properties
    Attempt_Dispatch AI_Job_Service Usage_Pricing Artifact_Upload Artifact_Sink Operation_Admission
begin

text \<open>
  AsterRouter: a verification development of its control plane.

  \<^bold>\<open>The program.\<close> AsterRouter (\<^verbatim>\<open>backend\<close>, in Go) is a gateway in front of AI providers. A request
  becomes an \<^emph>\<open>operation\<close>, for which a \<^emph>\<open>billing hold\<close> reserves money and media quota of the month;
  the provider is called in \<^emph>\<open>attempts\<close>, under a lease of the \<^emph>\<open>capacity\<close> of a provider account; the
  measured \<^emph>\<open>usage dimensions\<close> are priced by a \<^emph>\<open>pricing rule\<close> and \<^emph>\<open>settled\<close> in a ledger, which closes
  the hold. A long-running request is a \<^emph>\<open>durable job\<close>: it is admitted within queue limits, indexed as
  ready, claimed in a fair order, delivered to a worker by a leased queue, and every change of it is
  logged as a job event and announced through a \<^emph>\<open>transactional outbox\<close>. The files that go into an operation
  and come out of it are \<^emph>\<open>artifacts\<close>: uploaded to an object store or delivered to a sink of the customer,
  kept for a time and deleted. The paths below are relative to \<^verbatim>\<open>backend/internal\<close>.

  \<^bold>\<open>The theories\<close>, in the order in which they build on each other:
  \<^item> \<open>Prelude\<close>: Go's 64-bit integers, times, byte strings, maps (association lists with distinct
    keys), \<^verbatim>\<open>sort.Slice\<close> (locale \<open>strict_weak_order\<close>) and shared lemmas; it states the conventions of
    all theories.
  \<^item> \<open>Pricing_Money\<close> (\<^verbatim>\<open>pricing/money.go\<close>): checked arithmetic on 64- and 128-bit words, shown to be the
    exact quotient rounded half up or an error.
  \<^item> \<open>Pricing_Compile\<close> (\<^verbatim>\<open>pricing/types.go\<close>, \<^verbatim>\<open>compile.go\<close>): facts, version prefix, syntax tree analyzer
    and static limits; a compiled rule reads only the facts and calls only the pricing functions.
  \<^item> \<open>Pricing_Engine\<close> (\<^verbatim>\<open>pricing/compile.go\<close>): the LRU cache with single-flight compilation as a step
    relation over the mutex sections of concurrent calls; every call returns what compiling its own
    source gives, and no call waits for ever.
  \<^item> \<open>Pricing_Evaluate\<close> (\<^verbatim>\<open>pricing/evaluate.go\<close>): the evaluation environment and its trace; the amount
    is the sum of the lines, each explained by its own numbers.
  \<^item> \<open>Provider_Capacity\<close> (\<^verbatim>\<open>controlplane/provider_capacity.go\<close>, \<^verbatim>\<open>provider_capacity_service.go\<close>): the
    in-memory store of leases and rate samples, and the permits, proved against the locale
    \<open>capacity_store\<close>.
  \<^item> \<open>Usage_Dimension\<close> (\<^verbatim>\<open>controlplane/usage_dimension.go\<close>): normal form, merge and saturating totals.
  \<^item> \<open>AI_Job_Model\<close>, \<open>AI_Job_Scheduling\<close>, \<open>AI_Job_Ready_Index\<close>, \<open>AI_Job_Delivery_Queue\<close>
    (\<^verbatim>\<open>controlplane/ai_job_model.go\<close>, \<^verbatim>\<open>ai_job_admission.go\<close>, \<^verbatim>\<open>ai_job_fair_queue.go\<close>,
    \<^verbatim>\<open>ai_job_ready_index.go\<close>, \<^verbatim>\<open>ai_job_delivery_queue.go\<close>): the status machine, queue limits, fair ranking
    with aging, round robin over principals (locale \<open>job_ready_index\<close>) and the leased queue with fencing
    (locale \<open>delivery_queue\<close>).
  \<^item> \<open>Operation_Model\<close>, \<open>Transactional_Outbox\<close>, \<open>Go_Calendar\<close>, \<open>Billing_Hold\<close>
    (\<^verbatim>\<open>controlplane/operation_model.go\<close>, \<^verbatim>\<open>transactional_outbox.go\<close>, \<^verbatim>\<open>billing_hold.go\<close>, \<^verbatim>\<open>monthStart\<close> of
    \<^verbatim>\<open>service.go\<close>): the stored records, the outbox with its publisher (locale \<open>outbox_store\<close>), the calendar
    of budget months, and the status machine of holds.
  \<^item> \<open>Memory_Repository\<close>, \<open>Operation_Repository\<close>, \<open>Usage_Settlement\<close>, \<open>AI_Job_Repository\<close>
    (\<^verbatim>\<open>controlplane/billing_hold_repository.go\<close>, \<^verbatim>\<open>operation_repository.go\<close>, \<^verbatim>\<open>ai_job_repository.go\<close>): the
    record \<open>MemoryRepository\<close> of the tables and its operations, one definition per method. Each method
    holds the mutex for its whole body and is therefore a function on the state that returns the new
    state and a result.
  \<^item> \<open>AI_Job_Log\<close>, \<open>Repository_Steps\<close>, \<open>Repository_Calls\<close>, \<open>Repository_Properties\<close>: the relation
    \<open>repo_call\<close> has one rule per method that writes, so that its paths are all interleavings of
    concurrent callers. Every call is a sequence of single writes (\<open>repo_write\<close>); the invariant
    \<open>repo_inv\<close> and the growth of versions (\<open>grows\<close>) are proved for the writes once. The locale
    \<open>optimistic_store\<close> is the contract of versioned updates, interpreted for jobs, holds and attempts.
  \<^item> \<open>Attempt_Dispatch\<close> (\<^verbatim>\<open>controlplane/operation_service.go\<close>, \<^verbatim>\<open>provider_dispatch.go\<close>): how an attempt is
    begun, prepared, submitted, bound to a provider task, reconciled and closed. Between the read and the
    versioned write of a service function other callers may write: \<open>dispatch_step\<close> is the relation of
    single writes, and the properties hold for all its paths.
  \<^item> \<open>AI_Job_Service\<close> (\<^verbatim>\<open>controlplane/ai_job_service.go\<close>, \<^verbatim>\<open>ai_job_delivery_worker.go\<close>): claiming through
    the ready index and the fair queue, transitions with upkeep of the index, the scheduler and the rebuild
    of deliveries, over a record \<open>ready_ops\<close> of the operations of any index.
  \<^item> \<open>Pricing_Rules\<close> (\<^verbatim>\<open>controlplane/pricing_model.go\<close>, \<^verbatim>\<open>pricing_repository.go\<close>,
    \<^verbatim>\<open>pricing_service.go\<close>): rules with drafts, test cases and published versions. The writes of the
    administrators are the rules of \<open>pricing_write\<close> over the list of all states so far, since what they write
    rests on what they read earlier; \<open>pricing_run\<close> are the histories.
  \<^item> \<open>Usage_Pricing\<close> (\<^verbatim>\<open>buildUsageSettlement\<close> of \<^verbatim>\<open>controlplane/operation_service.go\<close>): evaluation of the
    versions that a hold is pinned to and the settlement it gives.

  \<^item> \<open>Artifact_Store\<close> (\<^verbatim>\<open>controlplane/artifact_store.go\<close>): object keys, byte ranges and the in-memory store;
    the locale \<open>artifact_store\<close> is the contract of a store.
  \<^item> \<open>Artifact_Repository\<close>, \<open>Artifact_Log\<close> (\<^verbatim>\<open>controlplane/artifact_model.go\<close>, \<^verbatim>\<open>artifact_repository.go\<close>): the
    status machine, the tables of artifacts and their events, as part of \<open>repo_call\<close> and \<open>repo_inv\<close>.
  \<^item> \<open>Artifact_Service\<close>, \<open>Artifact_Lifecycle\<close>, \<open>Artifact_Content\<close> (\<^verbatim>\<open>controlplane/artifact_service.go\<close>): the
    service over the repository and the stores of its drivers, with the locale \<open>store_service\<close> for any store
    that keeps the contract; first the definitions, then retention and deletion, then uploads and the
    artifacts of a request.
  \<^item> \<open>Artifact_Upload\<close>, \<open>Artifact_Sink\<close> (\<^verbatim>\<open>controlplane/artifact_upload.go\<close>, \<^verbatim>\<open>artifact_sink.go\<close>): uploads in
    chunks, and delivery to a sink of the customer.
  \<^item> \<open>Operation_Admission\<close> (\<^verbatim>\<open>BeginCanonicalOperation\<close> of \<^verbatim>\<open>controlplane/operation_service.go\<close>,
    \<^verbatim>\<open>BeginDurableAIJob\<close> of \<^verbatim>\<open>ai_job_service.go\<close>, \<^verbatim>\<open>newBillingHoldAdmission\<close> of \<^verbatim>\<open>billing_hold.go\<close>): how a
    request becomes an operation or a durable job with its hold, over the repository, the price tables, the
    artifacts and the ready index; a call reads and writes at different times.

  \<^bold>\<open>What is shown.\<close>
  \<^item> Money: prices are exact or refused; an evaluation is the sum of its lines and does not depend on
    when it is replayed; admission keeps the budget and the quotas of the month as long as the sums fit
    64 bits (and \<open>budget_check_overflows\<close> shows that beyond it the check wraps); a settlement is all or
    nothing, is applied once, and the hold ends with the sum of the ledger; published prices are tested and
    never change; usage is charged the price its hold is pinned to, once, whatever happens to the rules.
  \<^item> Admission: a request is refused without a trace, or becomes one operation whose hold reserves its
    estimated price and pins the published version that gave it; the service never builds an admission that
    the repository finds malformed; an idempotency key makes one durable job.
  \<^item> Capacity: concurrency and rate limits hold after every sequence of calls; a retained permit keeps its
    lease.
  \<^item> Jobs: the queue limits hold, ranking is fair between applications, a claim gives each job to one
    worker, a lost lease cannot settle a delivery, a settled delivery does not come back, cancelling gives
    the reservation back; the ready index is only a hint, whatever it answers; what the scheduler claims it
    delivers, in envelopes that match the stored job.
  \<^item> Dispatch: in every interleaving an attempt is submitted to the provider at most once more than it was
    reset, and never again after a provider task is bound; each answer of the provider ends in its state.
  \<^item> Repository: the tables stay linked and keyed, the log of a job is complete and append-only (a
    refinement of the history specification \<open>history_step\<close>), versioned updates are never lost, and outbox
    events of an aggregate leave in order, once settled for good.

  \<^item> Artifacts: object keys cannot leave the store; the log of an artifact is complete and its owner never
    changes; an artifact is ready, or delivered, only with its whole content, verified; a completed upload is
    its chunks in order; a request reaches only usable artifacts of its owner; retention touches only what is
    due, and a deleted artifact has no content. \<open>retention_stalls\<close> shows that a delivered artifact past its
    retention stops every retention run.

  \<^bold>\<open>Bounds and fuel.\<close> No definition uses fuel: every loop of the modelled code is a fold over a list, a
  structural recursion, or has a decreasing measure (the slots left in \<open>rankAIJobFairCandidates\<close>, the
  groups left in \<open>roundRobinAIJobReadyCandidates\<close>); waiting loops are single turns of a step relation.
  Amounts are 64-bit integers that wrap where the source does not check. Counters that grow by one per
  operation are unbounded integers.

  \<^bold>\<open>Parameters.\<close> The expression language (parser, compiler, virtual machine), SHA-256, random tokens, the
  clock, the JSON text of event payloads and upload states, \<^verbatim>\<open>fmt.Sprintf\<close> of error arguments, the outbox publisher,
  the decoders of request payloads, AES-GCM, the object stores and the sinks are arguments of the definitions that use them; what other callers do to
  the repository during an upload is one too.

  \<^bold>\<open>Not modelled\<close>: the PostgreSQL and Redis variants of the stores and the object stores on the file system
  and in S3 (their meaning is that of the database, the file system and the service), HTTP handlers and
  streams, encoding/json texts, provider adapters and plugins, identity, the administration services, metrics
  and logging, the goroutines that only repeat a modelled step on a timer. Within the control plane also not:
  the worker that runs a delivered job, the authorisation of a credential, routing, and effective pricing.
\<close>

end
